(* ===== verification/Prelude.thy ===== *)
theory Prelude
  imports Main "HOL-Library.Word" "HOL-Library.Sublist"
begin

text \<open>
  Shared vocabulary of the development: the fixed-width integers of the Rust sources as words,
  Rust \<open>String\<close>s as byte strings, results as sums with the error on the left, the decimal and
  hexadecimal printers that \<open>format!\<close> uses, big-endian packing (\<open>bytes::Buf\<close> and
  \<open>bytes::BufMut\<close>), and the reader type of the wire decoders with the notion of a \<^emph>\<open>framed\<close>
  reader: one that consumes a prefix, is indifferent to what follows it and fails on every
  shorter input.
\<close>

named_theorems framed_intros \<open>framing of the wire readers\<close>
named_theorems wire_simps \<open>reader applied to the bytes of its writer\<close>

type_synonym u8 = "8 word"
type_synonym u16 = "16 word"
type_synonym u32 = "32 word"
type_synonym u64 = "64 word"
type_synonym bytes = "u8 list"

section \<open>Results\<close>

fun res_bind :: "'e + 'a \<Rightarrow> ('a \<Rightarrow> 'e + 'b) \<Rightarrow> 'e + 'b" where
  "res_bind (Inl e) f = Inl e"
| "res_bind (Inr a) f = f a"

fun res_map :: "('a \<Rightarrow> 'b) \<Rightarrow> 'e + 'a \<Rightarrow> 'e + 'b" where
  "res_map f (Inl e) = Inl e"
| "res_map f (Inr a) = Inr (f a)"

lemma res_bind_Inr_iff: "res_bind r f = Inr b \<longleftrightarrow> (\<exists>a. r = Inr a \<and> f a = Inr b)"
  by (cases r) auto

lemma res_map_Inr_iff: "res_map f r = Inr b \<longleftrightarrow> (\<exists>a. r = Inr a \<and> f a = b)"
  by (cases r) auto

lemma res_map_Inl_iff: "res_map f r = Inl e \<longleftrightarrow> r = Inl e"
  by (cases r) auto

definition is_err :: "'e + 'a \<Rightarrow> bool" where
  "is_err r = (case r of Inl _ \<Rightarrow> True | Inr _ \<Rightarrow> False)"

lemma is_err_simps [simp]: "is_err (Inl e)" "\<not> is_err (Inr a)"
  by (simp_all add: is_err_def)

lemma not_is_err_iff: "\<not> is_err r \<longleftrightarrow> (\<exists>a. r = Inr a)"
  by (cases r) auto

section \<open>Printing\<close>

definition digit_char :: "nat \<Rightarrow> char" where
  "digit_char n = ''0123456789abcdef'' ! (n mod 16)"

definition digit_char_upper :: "nat \<Rightarrow> char" where
  "digit_char_upper n = ''0123456789ABCDEF'' ! (n mod 16)"

fun show_nat :: "nat \<Rightarrow> string" where
  "show_nat n = (if n < 10 then [digit_char n] else show_nat (n div 10) @ [digit_char (n mod 10)])"

definition show_int :: "int \<Rightarrow> string" where
  "show_int i = (if i < 0 then ''-'' @ show_nat (nat (- i)) else show_nat (nat i))"

fun show_hex :: "nat \<Rightarrow> string" where
  "show_hex n = (if n < 16 then [digit_char n] else show_hex (n div 16) @ [digit_char (n mod 16)])"

fun show_hex_upper :: "nat \<Rightarrow> string" where
  "show_hex_upper n =
     (if n < 16 then [digit_char_upper n] else show_hex_upper (n div 16) @ [digit_char_upper (n mod 16)])"

definition pad_left :: "nat \<Rightarrow> char \<Rightarrow> string \<Rightarrow> string" where
  "pad_left w c s = replicate (w - length s) c @ s"

declare show_nat.simps [simp del] show_hex.simps [simp del] show_hex_upper.simps [simp del]

lemma show_nat_not_empty [simp]: "show_nat n \<noteq> []"
  by (subst show_nat.simps) simp

fun read_nat_acc :: "nat \<Rightarrow> string \<Rightarrow> nat" where
  "read_nat_acc a [] = a"
| "read_nat_acc a (c # s) = read_nat_acc (10 * a + (of_char c - 48)) s"

lemma read_nat_acc_append: "read_nat_acc a (s @ t) = read_nat_acc (read_nat_acc a s) t"
  by (induction s arbitrary: a) auto

lemma digit_cases: "n < (10::nat) \<Longrightarrow> n \<in> {0,1,2,3,4,5,6,7,8,9}"
  by auto

lemma digit_char_value: "n < 10 \<Longrightarrow> of_char (digit_char n) = 48 + n"
  by (drule digit_cases) (auto simp: digit_char_def)

lemma read_nat_show_nat: "read_nat_acc 0 (show_nat n) = n"
proof (induction n rule: show_nat.induct)
  case (1 n)
  then show ?case
    by (subst show_nat.simps) (auto simp: digit_char_value read_nat_acc_append)
qed

lemma show_nat_inject [simp]: "show_nat m = show_nat n \<longleftrightarrow> m = n"
  by (metis read_nat_show_nat)

section \<open>Big-endian packing\<close>

definition put_be :: "nat \<Rightarrow> 'a::len word \<Rightarrow> bytes" where
  "put_be n w = map (\<lambda>i. ucast (drop_bit (8 * i) w)) (rev [0..<n])"

definition get_be :: "bytes \<Rightarrow> 'a::len word" where
  "get_be bs = foldl (\<lambda>acc b. or (push_bit 8 acc) (ucast b)) 0 bs"

lemma length_put_be [simp]: "length (put_be n w) = n"
  by (simp add: put_be_def)

lemma get_be_Nil [simp]: "get_be [] = 0"
  by (simp add: get_be_def)

lemma get_be_snoc: "get_be (bs @ [b]) = or (push_bit 8 (get_be bs)) (ucast b)"
  by (simp add: get_be_def)

lemma bit_get_be:
  "bit (get_be bs :: 'a::len word) k \<longleftrightarrow>
     k < LENGTH('a) \<and> k < 8 * length bs \<and> bit (rev bs ! (k div 8)) (k mod 8)"
proof (induction bs arbitrary: k rule: rev_induct)
  case Nil
  then show ?case by simp
next
  case (snoc b bs)
  show ?case
  proof (cases "k < 8")
    case True
    then show ?thesis
      by (auto simp: get_be_snoc bit_or_iff bit_push_bit_iff bit_ucast_iff snoc.IH dest: bit_imp_le_length)
  next
    case False
    then obtain j where k: "k = 8 + j" by (metis le_add_diff_inverse not_less)
    have "\<not> bit b (8 + j)" using bit_imp_le_length by fastforce
    moreover have "(8 + j) div 8 = Suc (j div 8)" "(8 + j) mod 8 = j mod 8" by simp_all
    ultimately show ?thesis
      unfolding k
      by (auto simp: get_be_snoc bit_or_iff bit_push_bit_iff bit_ucast_iff snoc.IH)
  qed
qed

lemma get_put_be:
  assumes "LENGTH('a::len) \<le> 8 * n"
  shows "get_be (put_be n w) = (w :: 'a word)"
proof (rule bit_word_eqI)
  fix k assume k: "k < LENGTH('a)"
  with assms have "k div 8 < n" by auto
  then have nth: "rev (put_be n w) ! (k div 8) = ucast (drop_bit (8 * (k div 8)) w)"
    by (simp add: put_be_def rev_map)
  have "8 * (k div 8) + k mod 8 = k" "k mod 8 < 8" by simp_all
  then show "bit (get_be (put_be n w) :: 'a word) k = bit w k"
    using k assms by (simp add: bit_get_be nth bit_ucast_iff bit_drop_bit_eq add.commute del: mod_less_divisor)
qed

lemma put_get_be:
  assumes "8 * length bs \<le> LENGTH('a::len)"
  shows "put_be (length bs) (get_be bs :: 'a word) = bs"
proof (rule nth_equalityI)
  show "length (put_be (length bs) (get_be bs :: 'a word)) = length bs" by simp
next
  fix i assume "i < length (put_be (length bs) (get_be bs :: 'a word))"
  then have i: "i < length bs" by simp
  let ?j = "length bs - Suc i"
  show "put_be (length bs) (get_be bs :: 'a word) ! i = bs ! i"
  proof (rule bit_word_eqI)
    fix k assume k: "k < LENGTH(8)"
    have "8 * ?j + k < 8 * length bs" using i k by simp
    moreover have "(8 * ?j + k) div 8 = ?j" "(8 * ?j + k) mod 8 = k" using k by simp_all
    moreover have "rev bs ! ?j = bs ! i" using i by (simp add: rev_nth)
    ultimately show "bit (put_be (length bs) (get_be bs :: 'a word) ! i) k = bit (bs ! i) k"
      using i k assms
      by (simp add: put_be_def rev_nth bit_ucast_iff bit_drop_bit_eq bit_get_be add.commute)
  qed
qed

lemmas get_put_be_widths [simp] =
  get_put_be [where 'a = 8 and n = 1, simplified]
  get_put_be [where 'a = 16 and n = 2, simplified]
  get_put_be [where 'a = 32 and n = 4, simplified]
  get_put_be [where 'a = 64 and n = 8, simplified]

section \<open>Strings as bytes\<close>

definition byte_char :: "u8 \<Rightarrow> char" where
  "byte_char w = char_of (unat w)"

definition char_byte :: "char \<Rightarrow> u8" where
  "char_byte c = word_of_nat (of_char c)"

definition string_bytes :: "string \<Rightarrow> bytes" where
  "string_bytes s = map char_byte s"

definition bytes_string :: "bytes \<Rightarrow> string" where
  "bytes_string bs = map byte_char bs"

lemma char_byte_char [simp]: "char_byte (byte_char w) = w"
  using unsigned_less [of w, where 'a = nat]
  by (simp add: byte_char_def char_byte_def take_bit_eq_mod)

lemma byte_char_byte [simp]: "byte_char (char_byte c) = c"
proof -
  have "of_char c < (256::nat)" by (cases c) (auto simp: char_of_def intro: order_le_less_trans)
  then show ?thesis
    by (simp add: byte_char_def char_byte_def unat_of_nat)
qed

lemma string_bytes_bytes_string [simp]: "string_bytes (bytes_string bs) = bs"
  by (simp add: string_bytes_def bytes_string_def map_idI)

lemma bytes_string_string_bytes [simp]: "bytes_string (string_bytes s) = s"
  by (simp add: string_bytes_def bytes_string_def map_idI)

lemma length_string_bytes [simp]: "length (string_bytes s) = length s"
  by (simp add: string_bytes_def)

lemma length_bytes_string [simp]: "length (bytes_string bs) = length bs"
  by (simp add: bytes_string_def)

end
