(* ===== verification/Utf8.thy ===== *)
theory Utf8
  imports Prelude
begin

text \<open>
  \<open>String::from_utf8\<close> of the Rust standard library, as the sources use it to turn wire bytes into
  strings: the validation loop with its \<open>valid_up_to\<close> and \<open>error_len\<close>, the rendering of the
  error, and the encoder of a Unicode scalar value. The main result is that the validator accepts
  exactly the concatenations of encoded scalar values.
\<close>

datatype utf8_step = Utf8_Ok nat | Utf8_Err "nat option"

definition utf8_cont :: "u8 \<Rightarrow> bool" where
  "utf8_cont b = (0x80 \<le> b \<and> b \<le> 0xBF)"

definition utf8_width :: "u8 \<Rightarrow> nat" where
  "utf8_width b =
     (if b < 0x80 then 1
      else if 0xC2 \<le> b \<and> b \<le> 0xDF then 2
      else if 0xE0 \<le> b \<and> b \<le> 0xEF then 3
      else if 0xF0 \<le> b \<and> b \<le> 0xF4 then 4
      else 0)"

definition utf8_second3 :: "u8 \<Rightarrow> u8 \<Rightarrow> bool" where
  "utf8_second3 a b =
     (if a = 0xE0 then 0xA0 \<le> b \<and> b \<le> 0xBF
      else if a = 0xED then 0x80 \<le> b \<and> b \<le> 0x9F
      else utf8_cont b)"

definition utf8_second4 :: "u8 \<Rightarrow> u8 \<Rightarrow> bool" where
  "utf8_second4 a b =
     (if a = 0xF0 then 0x90 \<le> b \<and> b \<le> 0xBF
      else if a = 0xF4 then 0x80 \<le> b \<and> b \<le> 0x8F
      else utf8_cont b)"

text \<open>The continuation bytes of one character: the second byte has its own range, the rest are
  plain continuation bytes; \<open>k\<close> is the number of bytes already accepted.\<close>

fun utf8_tail :: "nat \<Rightarrow> nat \<Rightarrow> (u8 \<Rightarrow> bool) \<Rightarrow> bytes \<Rightarrow> utf8_step" where
  "utf8_tail 0 k p bs = Utf8_Ok k"
| "utf8_tail (Suc n) k p [] = Utf8_Err None"
| "utf8_tail (Suc n) k p (b # bs) =
     (if p b then utf8_tail n (Suc k) utf8_cont bs else Utf8_Err (Some k))"

definition utf8_step :: "u8 \<Rightarrow> bytes \<Rightarrow> utf8_step" where
  "utf8_step a bs =
     (let w = utf8_width a in
      if w = 0 then Utf8_Err (Some 1)
      else utf8_tail (w - 1) 1
        (if w = 3 then utf8_second3 a else if w = 4 then utf8_second4 a else utf8_cont) bs)"

record utf8_error =
  valid_up_to :: nat
  error_len :: "nat option"

lemma utf8_tail_Ok: "utf8_tail n k p bs = Utf8_Ok m \<Longrightarrow> m = k + n \<and> n \<le> length bs"
  by (induction n k p bs rule: utf8_tail.induct) (auto split: if_splits)

lemma utf8_step_Ok: "utf8_step a bs = Utf8_Ok m \<Longrightarrow> m = utf8_width a \<and> 0 < m \<and> m \<le> Suc (length bs)"
  by (auto simp: utf8_step_def Let_def dest!: utf8_tail_Ok split: if_splits)

function utf8_check :: "nat \<Rightarrow> bytes \<Rightarrow> utf8_error option" where
  "utf8_check pos [] = None"
| "utf8_check pos (a # bs) =
     (case utf8_step a bs of
        Utf8_Ok m \<Rightarrow> utf8_check (pos + m) (drop (m - 1) bs)
      | Utf8_Err l \<Rightarrow> Some \<lparr>valid_up_to = pos, error_len = l\<rparr>)"
  by pat_completeness auto
termination
  by (relation "measure (\<lambda>(_, bs). length bs)") auto

definition from_utf8 :: "bytes \<Rightarrow> utf8_error + string" where
  "from_utf8 bs = (case utf8_check 0 bs of None \<Rightarrow> Inr (bytes_string bs) | Some e \<Rightarrow> Inl e)"

definition show_utf8_error :: "utf8_error \<Rightarrow> string" where
  "show_utf8_error e =
     (case error_len e of
        Some n \<Rightarrow> ''invalid utf-8 sequence of '' @ show_nat n @ '' bytes from index '' @ show_nat (valid_up_to e)
      | None \<Rightarrow> ''incomplete utf-8 byte sequence from index '' @ show_nat (valid_up_to e))"

section \<open>Encoding a scalar value\<close>

definition is_scalar :: "nat \<Rightarrow> bool" where
  "is_scalar c = (c < 0xD800 \<or> 0xE000 \<le> c \<and> c < 0x110000)"

definition nat_byte :: "nat \<Rightarrow> u8" where
  "nat_byte n = word_of_nat n"

lemma unat_nat_byte [simp]: "n < 256 \<Longrightarrow> unat (nat_byte n) = n"
  by (simp add: nat_byte_def unat_of_nat)

lemma nat_byte_unat [simp]: "nat_byte (unat b) = b"
  by (simp add: nat_byte_def)

definition utf8_encode :: "nat \<Rightarrow> bytes" where
  "utf8_encode c =
     (if c < 0x80 then [nat_byte c]
      else if c < 0x800 then [nat_byte (0xC0 + c div 64), nat_byte (0x80 + c mod 64)]
      else if c < 0x10000 then
        [nat_byte (0xE0 + c div 4096), nat_byte (0x80 + c div 64 mod 64), nat_byte (0x80 + c mod 64)]
      else
        [nat_byte (0xF0 + c div 262144), nat_byte (0x80 + c div 4096 mod 64),
         nat_byte (0x80 + c div 64 mod 64), nat_byte (0x80 + c mod 64)])"

definition utf8_text :: "bytes \<Rightarrow> bool" where
  "utf8_text bs = (utf8_check 0 bs = None)"

lemma utf8_check_pos: "utf8_check p bs = None \<Longrightarrow> utf8_check q bs = None"
  by (induction p bs arbitrary: q rule: utf8_check.induct) (auto split: utf8_step.splits)

lemma utf8_text_Nil [simp]: "utf8_text []"
  by (simp add: utf8_text_def)

lemma utf8_text_Cons:
  "utf8_text (a # bs) \<longleftrightarrow> (\<exists>m. utf8_step a bs = Utf8_Ok m \<and> utf8_text (drop (m - 1) bs))"
proof (cases "utf8_step a bs")
  case (Utf8_Ok m)
  then show ?thesis
    using utf8_check_pos [of m "drop (m - 1) bs" 0] utf8_check_pos [of 0 "drop (m - 1) bs" m]
    by (auto simp: utf8_text_def)
qed (simp add: utf8_text_def)

lemma utf8_tail_append:
  "utf8_tail n k p bs = Utf8_Ok m \<Longrightarrow> utf8_tail n k p (bs @ cs) = Utf8_Ok m"
  by (induction n k p bs rule: utf8_tail.induct) (auto split: if_splits)

lemma utf8_tail_take:
  "utf8_tail n k p bs = Utf8_Ok m \<Longrightarrow> utf8_tail n k p (take n bs) = Utf8_Ok m"
  by (induction n k p bs rule: utf8_tail.induct) (auto split: if_splits)

lemma utf8_tail_Err_append:
  "utf8_tail n k p bs = Utf8_Err (Some l) \<Longrightarrow> utf8_tail n k p (bs @ cs) = Utf8_Err (Some l)"
  by (induction n k p bs rule: utf8_tail.induct) (auto split: if_splits)

lemma utf8_tail_numeral [simp]:
  "utf8_tail 2 k p bs = utf8_tail (Suc (Suc 0)) k p bs"
  "utf8_tail 3 k p bs = utf8_tail (Suc (Suc (Suc 0))) k p bs"
  by (simp_all add: numeral_2_eq_2 numeral_3_eq_3)

lemmas utf8_class_defs = utf8_width_def utf8_cont_def utf8_second3_def utf8_second4_def
  word_less_nat_alt word_le_nat_alt word_unat_eq_iff

lemma utf8_step_encode:
  assumes "is_scalar c"
  shows "utf8_step (hd (utf8_encode c)) (tl (utf8_encode c) @ cs) = Utf8_Ok (length (utf8_encode c))"
proof -
  have c: "c < 0x110000" using assms by (auto simp: is_scalar_def)
  consider "c < 0x80" | "0x80 \<le> c" "c < 0x800" | "0x800 \<le> c" "c < 0x10000" | "0x10000 \<le> c"
    by linarith
  then show ?thesis
  proof cases
    case 1
    then show ?thesis
      by (simp add: utf8_encode_def utf8_step_def utf8_class_defs)
  next
    case 2
    then have "c div 64 < 32" "2 \<le> c div 64" by auto
    then show ?thesis using 2
      by (simp add: utf8_encode_def utf8_step_def utf8_class_defs)
  next
    case 3
    then have d: "c div 4096 < 16" "c div 64 mod 64 \<le> 63" "c mod 64 \<le> 63" "c div 4096 = 0 \<Longrightarrow> c div 64 \<le> 63"
      using mod_less_divisor [of 64 c] mod_less_divisor [of 64 "c div 64"] by auto
    have "c div 64 = 64 * (c div 4096) + c div 64 mod 64"
      using div_mult2_eq [of c 64 64] by simp
    moreover have "c div 4096 = 13 \<Longrightarrow> c div 64 < 864"
      using assms 3 by (auto simp: is_scalar_def)
    ultimately have "c div 4096 = 13 \<Longrightarrow> c div 64 mod 64 \<le> 31" by simp
    moreover have "c div 4096 = 0 \<Longrightarrow> 32 \<le> c div 64 mod 64"
      using 3 by auto
    ultimately show ?thesis using 3 d
      by (simp add: utf8_encode_def utf8_step_def utf8_class_defs)
  next
    case 4
    then have d: "c div 262144 < 5" "c div 64 mod 64 \<le> 63" "c div 4096 mod 64 \<le> 63" "c mod 64 \<le> 63"
      "c div 262144 = 0 \<Longrightarrow> c div 4096 \<le> 63"
      using c mod_less_divisor [of 64 c] mod_less_divisor [of 64 "c div 64"]
        mod_less_divisor [of 64 "c div 4096"] by auto
    have "c div 262144 = 0 \<Longrightarrow> 16 \<le> c div 4096 mod 64"
      using 4 by auto
    moreover have "c div 4096 = 64 * (c div 262144) + c div 4096 mod 64"
      using div_mult2_eq [of c 4096 64] by simp
    then have "c div 262144 = 4 \<Longrightarrow> c div 4096 mod 64 \<le> 15"
      using c by simp
    ultimately show ?thesis using 4 d
      by (simp add: utf8_encode_def utf8_step_def utf8_class_defs)
  qed
qed

text \<open>The decoder that reads the scalar value back out of an accepted sequence.\<close>

definition utf8_scalar :: "bytes \<Rightarrow> nat" where
  "utf8_scalar bs =
     (case bs of
        [a] \<Rightarrow> unat a
      | [a, b] \<Rightarrow> (unat a - 0xC0) * 64 + (unat b - 0x80)
      | [a, b, c] \<Rightarrow> ((unat a - 0xE0) * 64 + (unat b - 0x80)) * 64 + (unat c - 0x80)
      | [a, b, c, d] \<Rightarrow> (((unat a - 0xF0) * 64 + (unat b - 0x80)) * 64 + (unat c - 0x80)) * 64 + (unat d - 0x80)
      | _ \<Rightarrow> 0)"

lemma nat_byte_eqI: "n = unat b \<Longrightarrow> nat_byte n = b"
  by simp

lemma byte_offset:
  assumes "k \<le> unat (b :: u8)"
  obtains x where "unat b = k + x"
  using assms le_Suc_ex by blast

lemma utf8_encode_2:
  assumes "0xC2 \<le> unat a" "unat a \<le> 0xDF" "0x80 \<le> unat b" "unat b \<le> 0xBF"
  shows "is_scalar (utf8_scalar [a, b]) \<and> utf8_encode (utf8_scalar [a, b]) = [a, b]"
proof -
  obtain x where x: "unat a = 0xC0 + x" using assms byte_offset [of "0xC0" a] by auto
  obtain y where y: "unat b = 0x80 + y" using assms byte_offset by blast
  have "2 \<le> x" "x < 32" "y < 64" using assms x y by simp_all
  then show ?thesis
    using x y by (auto simp: is_scalar_def utf8_scalar_def utf8_encode_def intro!: nat_byte_eqI)
qed

lemma sextet: "z < 64 \<Longrightarrow> (q * 64 + z) div 64 = q" "z < 64 \<Longrightarrow> (q * 64 + z) mod 64 = z" for q z :: nat
  by (simp_all add: div_add1_eq mod_add_eq)

lemma utf8_encode_3:
  assumes a: "0xE0 \<le> unat a" "unat a \<le> 0xEF" and b: "0x80 \<le> unat b" "unat b \<le> 0xBF"
    and c: "0x80 \<le> unat c" "unat c \<le> 0xBF"
    and lo: "unat a = 0xE0 \<Longrightarrow> 0xA0 \<le> unat b" and hi: "unat a = 0xED \<Longrightarrow> unat b \<le> 0x9F"
  shows "is_scalar (utf8_scalar [a, b, c]) \<and> utf8_encode (utf8_scalar [a, b, c]) = [a, b, c]"
proof -
  obtain x y z where xyz: "unat a = 0xE0 + x" "unat b = 0x80 + y" "unat c = 0x80 + z"
    using a b c byte_offset by metis
  define n where "n = (x * 64 + y) * 64 + z"
  have le: "x < 16" "y < 64" "z < 64" using a b c xyz by simp_all
  have "1 \<le> x \<or> 32 \<le> y" "x \<le> 12 \<or> 14 \<le> x \<or> x = 13 \<and> y < 32" using lo hi xyz by fastforce+
  then have n: "0x800 \<le> n" "n < 0x10000" "n < 0xD800 \<or> 0xE000 \<le> n"
    using le by (auto simp: n_def algebra_simps)
  have "n div 4096 = x" "n div 64 mod 64 = y" "n mod 64 = z"
    using div_mult2_eq [of n 64 64] le
    by (simp_all only: n_def sextet numeral_times_numeral semiring_norm)
  moreover have "utf8_scalar [a, b, c] = n" using xyz by (simp add: utf8_scalar_def n_def)
  ultimately show ?thesis
    using n xyz by (auto simp: is_scalar_def utf8_encode_def intro!: nat_byte_eqI)
qed

lemma utf8_encode_4:
  assumes a: "0xF0 \<le> unat a" "unat a \<le> 0xF4" and b: "0x80 \<le> unat b" "unat b \<le> 0xBF"
    and c: "0x80 \<le> unat c" "unat c \<le> 0xBF" and d: "0x80 \<le> unat d" "unat d \<le> 0xBF"
    and lo: "unat a = 0xF0 \<Longrightarrow> 0x90 \<le> unat b" and hi: "unat a = 0xF4 \<Longrightarrow> unat b \<le> 0x8F"
  shows "is_scalar (utf8_scalar [a, b, c, d]) \<and> utf8_encode (utf8_scalar [a, b, c, d]) = [a, b, c, d]"
proof -
  obtain x y z t where xyz: "unat a = 0xF0 + x" "unat b = 0x80 + y" "unat c = 0x80 + z" "unat d = 0x80 + t"
    using a b c d byte_offset by metis
  define n where "n = ((x * 64 + y) * 64 + z) * 64 + t"
  have le: "x < 5" "y < 64" "z < 64" "t < 64" using a b c d xyz by simp_all
  have "1 \<le> x \<or> 16 \<le> y" "x \<le> 3 \<or> x = 4 \<and> y < 16" using lo hi xyz le by fastforce+
  then have n: "0x10000 \<le> n" "n < 0x110000"
    using le by (auto simp: n_def algebra_simps)
  have "n div 262144 = x" "n div 4096 mod 64 = y" "n div 64 mod 64 = z" "n mod 64 = t"
    using div_mult2_eq [of n 64 64] div_mult2_eq [of n 4096 64] le
    by (simp_all only: n_def sextet numeral_times_numeral semiring_norm)
  moreover have "utf8_scalar [a, b, c, d] = n" using xyz by (simp add: utf8_scalar_def n_def)
  ultimately show ?thesis
    using n xyz by (auto simp: is_scalar_def utf8_encode_def intro!: nat_byte_eqI)
qed

lemma utf8_tail_Suc_Ok:
  "utf8_tail (Suc n) k p bs = Utf8_Ok m \<longleftrightarrow>
     (\<exists>b cs. bs = b # cs \<and> p b \<and> utf8_tail n (Suc k) utf8_cont cs = Utf8_Ok m)"
  by (cases bs) auto

lemma utf8_step_Ok_encode:
  assumes "utf8_step a bs = Utf8_Ok m"
  shows "\<exists>c. is_scalar c \<and> utf8_encode c = a # take (m - 1) bs"
proof -
  consider "utf8_width a = 1" | "utf8_width a = 2" | "utf8_width a = 3" | "utf8_width a = 4"
    using utf8_step_Ok [OF assms] by (auto simp: utf8_width_def split: if_splits)
  then show ?thesis
  proof cases
    case 1
    then have "unat a < 128" by (simp add: utf8_width_def word_less_nat_alt split: if_splits)
    moreover have "m = 1" using utf8_step_Ok [OF assms] 1 by simp
    ultimately show ?thesis
      by (intro exI [of _ "unat a"]) (simp add: is_scalar_def utf8_encode_def)
  next
    case 2
    with assms obtain b cs where "bs = b # cs" "utf8_cont b" "m = 2"
      by (auto simp: utf8_step_def utf8_tail_Suc_Ok)
    moreover have "0xC2 \<le> unat a" "unat a \<le> 0xDF"
      using 2 by (auto simp: utf8_width_def word_le_nat_alt split: if_splits)
    ultimately show ?thesis
      using utf8_encode_2 [of a b] by (auto simp: utf8_cont_def word_le_nat_alt)
  next
    case 3
    with assms obtain b c cs where "bs = b # c # cs" "utf8_second3 a b" "utf8_cont c" "m = 3"
      by (auto simp: utf8_step_def utf8_tail_Suc_Ok)
    moreover have "0xE0 \<le> unat a" "unat a \<le> 0xEF"
      using 3 by (auto simp: utf8_width_def word_le_nat_alt split: if_splits)
    ultimately show ?thesis
      using utf8_encode_3 [of a b c]
      by (auto simp: utf8_cont_def utf8_second3_def word_le_nat_alt word_unat_eq_iff split: if_splits)
  next
    case 4
    with assms obtain b c d cs
      where "bs = b # c # d # cs" "utf8_second4 a b" "utf8_cont c" "utf8_cont d" "m = 4"
      by (auto simp: utf8_step_def utf8_tail_Suc_Ok)
    moreover have "0xF0 \<le> unat a" "unat a \<le> 0xF4"
      using 4 by (auto simp: utf8_width_def word_le_nat_alt split: if_splits)
    ultimately show ?thesis
      using utf8_encode_4 [of a b c d]
      by (auto simp: utf8_cont_def utf8_second4_def word_le_nat_alt word_unat_eq_iff split: if_splits)
  qed
qed

lemma utf8_encode_not_Nil [simp]: "utf8_encode c \<noteq> []"
  by (simp add: utf8_encode_def)

lemma utf8_text_encode: "is_scalar c \<Longrightarrow> utf8_text (utf8_encode c @ bs) \<longleftrightarrow> utf8_text bs"
  using utf8_step_encode [of c bs] by (cases "utf8_encode c") (auto simp: utf8_text_Cons)

theorem utf8_text_iff:
  "utf8_text bs \<longleftrightarrow> (\<exists>cs. (\<forall>c\<in>set cs. is_scalar c) \<and> bs = concat (map utf8_encode cs))"
proof
  assume "utf8_text bs"
  then show "\<exists>cs. (\<forall>c\<in>set cs. is_scalar c) \<and> bs = concat (map utf8_encode cs)"
  proof (induction "length bs" arbitrary: bs rule: less_induct)
    case less
    show ?case
    proof (cases bs)
      case Nil
      then show ?thesis by (intro exI [of _ "[]"]) simp
    next
      case (Cons a as)
      with less.prems obtain m where m: "utf8_step a as = Utf8_Ok m" "utf8_text (drop (m - 1) as)"
        by (auto simp: utf8_text_Cons)
      then obtain c where c: "is_scalar c" "utf8_encode c = a # take (m - 1) as"
        using utf8_step_Ok_encode by blast
      obtain cs where "\<forall>c\<in>set cs. is_scalar c" "drop (m - 1) as = concat (map utf8_encode cs)"
        using less.hyps [OF _ m(2)] Cons by (auto simp: less_Suc_eq_le)
      then have "bs = concat (map utf8_encode (c # cs))" "\<forall>x\<in>set (c # cs). is_scalar x"
        using c Cons append_take_drop_id [of "m - 1" as] by auto
      then show ?thesis by blast
    qed
  qed
next
  have "\<forall>c\<in>set cs. is_scalar c \<Longrightarrow> utf8_text (concat (map utf8_encode cs))" for cs
    by (induction cs) (auto simp: utf8_text_encode)
  then show "\<exists>cs. (\<forall>c\<in>set cs. is_scalar c) \<and> bs = concat (map utf8_encode cs) \<Longrightarrow> utf8_text bs"
    by blast
qed

lemma from_utf8_Inr: "from_utf8 bs = Inr s \<longleftrightarrow> utf8_text bs \<and> s = bytes_string bs"
  by (auto simp: from_utf8_def utf8_text_def split: option.splits)

lemma utf8_ascii: "\<forall>b\<in>set bs. b < 0x80 \<Longrightarrow> utf8_text bs"
  by (induction bs) (auto simp: utf8_text_Cons utf8_step_def utf8_width_def)

end
