(* ===== verification/Protocol.thy ===== *)
theory Protocol
  imports Prelude Utf8
begin

text \<open>
  \<open>jdwp-client/src/protocol.rs\<close>: the error type every operation of the client returns, the command
  and reply packets, their wire encoding, and the table that names the JDWP error codes.
\<close>

section \<open>Errors\<close>

text \<open>\<open>Io\<close> carries the rendering of the \<open>std::io::Error\<close> it wraps.\<close>

datatype jdwp_error =
    Io string
  | Protocol string
  | InvalidHandshake
  | JdwpErrorCode u16 string
  | ConnectionClosed string
  | NotJdwpFramed string
  | ReplyTimeout u64
  | InvokeTimeout u64
  | ReadOnly string

type_synonym 'a jdwp_result = "jdwp_error + 'a"

fun show_jdwp_error :: "jdwp_error \<Rightarrow> string" where
  "show_jdwp_error (Io e) = ''IO error: '' @ e"
| "show_jdwp_error (Protocol m) = ''Protocol error: '' @ m"
| "show_jdwp_error InvalidHandshake = ''Invalid handshake''"
| "show_jdwp_error (JdwpErrorCode c m) = ''JDWP error code '' @ show_nat (unat c) @ '': '' @ m"
| "show_jdwp_error (ConnectionClosed m) = ''connection to the debuggee closed: '' @ m"
| "show_jdwp_error (NotJdwpFramed m) =
     ''the debuggee's stream is not JDWP-framed at this point: '' @ m"
| "show_jdwp_error (ReplyTimeout s) =
     ''no reply from the debuggee within '' @ show_nat (unat s)
     @ ''s (the connection is still open; the command was abandoned)''"
| "show_jdwp_error (InvokeTimeout ms) =
     ''invocation did not return within '' @ show_nat (unat ms)
     @ ''ms '' @ bytes_string [0xE2, 0x80, 0x94]
     @ '' the debuggee thread is STILL INSIDE THE CALL and JDWP cannot cancel it (usually a monitor held by another thread). When the call does return the JVM re-suspends that thread, and nothing here clears that ''
     @ bytes_string [0xE2, 0x80, 0x94]
     @ '' the watchdog only resumes a suspended VM. Use debug.continue, or debug.resume_thread on it''"
| "show_jdwp_error (ReadOnly w) = ''read-only connection: refusing '' @ w @ '' in the debuggee''"

section \<open>Packets\<close>

definition HEADER_SIZE :: nat where
  "HEADER_SIZE = 11"

definition REPLY_FLAG :: u8 where
  "REPLY_FLAG = 0x80"

definition JDWP_HANDSHAKE :: bytes where
  "JDWP_HANDSHAKE = string_bytes ''JDWP-Handshake''"

record command_packet =
  cp_id :: u32
  cp_command_set :: u8
  cp_command :: u8
  cp_data :: bytes

record reply_packet =
  rp_id :: u32
  rp_error_code :: u16
  rp_data :: bytes

definition command_packet_new :: "u32 \<Rightarrow> u8 \<Rightarrow> u8 \<Rightarrow> command_packet" where
  "command_packet_new i cset cmd = \<lparr>cp_id = i, cp_command_set = cset, cp_command = cmd, cp_data = []\<rparr>"

text \<open>\<open>u32::try_from(n).unwrap_or(u32::MAX)\<close>\<close>

definition u32_try_or_max :: "nat \<Rightarrow> u32" where
  "u32_try_or_max n = (if n < 2 ^ 32 then word_of_nat n else 0xFFFFFFFF)"

definition encode :: "command_packet \<Rightarrow> bytes" where
  "encode p =
     put_be 4 (u32_try_or_max (HEADER_SIZE + length (cp_data p)))
     @ put_be 4 (cp_id p) @ [0x00] @ [cp_command_set p] @ [cp_command p] @ cp_data p"

definition decode_reply :: "bytes \<Rightarrow> reply_packet jdwp_result" where
  "decode_reply buf =
     (if length buf < HEADER_SIZE then Inl (Protocol ''Reply packet too short'')
      else
        let id = get_be (take 4 (drop 4 buf));
            flags = buf ! 8
        in if flags \<noteq> REPLY_FLAG
           then Inl (Protocol (''Invalid reply flag: 0x'' @ show_hex (unat flags)))
           else Inr \<lparr>rp_id = id, rp_error_code = get_be (take 2 (drop 9 buf)), rp_data = drop 11 buf\<rparr>)"

text \<open>The reply a debuggee puts on the wire (the specification's layout, the client never writes one).\<close>

definition encode_reply :: "reply_packet \<Rightarrow> bytes" where
  "encode_reply p =
     put_be 4 (u32_try_or_max (HEADER_SIZE + length (rp_data p)))
     @ put_be 4 (rp_id p) @ [REPLY_FLAG] @ put_be 2 (rp_error_code p) @ rp_data p"

definition ERR_ABSENT_INFORMATION :: u16 where "ERR_ABSENT_INFORMATION = 101"
definition ERR_NOT_IMPLEMENTED :: u16 where "ERR_NOT_IMPLEMENTED = 99"
definition ERR_INVALID_OBJECT :: u16 where "ERR_INVALID_OBJECT = 20"
definition ERR_INVALID_FRAMEID :: u16 where "ERR_INVALID_FRAMEID = 30"

definition ERROR_MESSAGES :: "(u16 \<times> string) list" where
  "ERROR_MESSAGES =
    [(0, ''NONE''), (10, ''INVALID_THREAD''), (11, ''INVALID_THREAD_GROUP''), (12, ''INVALID_PRIORITY''),
     (13, ''THREAD_NOT_SUSPENDED''), (14, ''THREAD_SUSPENDED''), (20, ''INVALID_OBJECT''),
     (21, ''INVALID_CLASS''), (22, ''CLASS_NOT_PREPARED''), (23, ''INVALID_METHODID''),
     (24, ''INVALID_LOCATION''), (25, ''INVALID_FIELDID''), (30, ''INVALID_FRAMEID''),
     (31, ''NO_MORE_FRAMES''), (32, ''OPAQUE_FRAME''), (33, ''NOT_CURRENT_FRAME''),
     (34, ''TYPE_MISMATCH''), (35, ''INVALID_SLOT''), (40, ''DUPLICATE''), (41, ''NOT_FOUND''),
     (50, ''INVALID_MONITOR''), (51, ''NOT_MONITOR_OWNER''), (52, ''INTERRUPT''),
     (60, ''INVALID_CLASS_FORMAT''), (61, ''CIRCULAR_CLASS_DEFINITION''), (62, ''FAILS_VERIFICATION''),
     (63, ''ADD_METHOD_NOT_IMPLEMENTED''), (64, ''SCHEMA_CHANGE_NOT_IMPLEMENTED''),
     (65, ''INVALID_TYPESTATE''), (66, ''HIERARCHY_CHANGE_NOT_IMPLEMENTED''),
     (67, ''DELETE_METHOD_NOT_IMPLEMENTED''), (68, ''UNSUPPORTED_VERSION''),
     (69, ''NAMES_DONT_MATCH''), (70, ''CLASS_MODIFIERS_CHANGE_NOT_IMPLEMENTED''),
     (71, ''METHOD_MODIFIERS_CHANGE_NOT_IMPLEMENTED''), (99, ''NOT_IMPLEMENTED''),
     (100, ''NULL_POINTER''), (101, ''ABSENT_INFORMATION''), (102, ''INVALID_EVENT_TYPE''),
     (103, ''ILLEGAL_ARGUMENT''), (110, ''OUT_OF_MEMORY''), (111, ''ACCESS_DENIED''),
     (112, ''VM_DEAD''), (113, ''INTERNAL''), (115, ''UNATTACHED_THREAD''), (500, ''INVALID_TAG''),
     (502, ''ALREADY_INVOKING''), (503, ''INVALID_INDEX''), (504, ''INVALID_LENGTH''),
     (506, ''INVALID_STRING''), (507, ''INVALID_CLASS_LOADER''), (508, ''INVALID_ARRAY''),
     (509, ''TRANSPORT_LOAD''), (510, ''TRANSPORT_INIT''), (511, ''NATIVE_METHOD''),
     (512, ''INVALID_COUNT'')]"

definition is_error :: "reply_packet \<Rightarrow> bool" where
  "is_error p = (rp_error_code p \<noteq> 0)"

definition error_message :: "reply_packet \<Rightarrow> string" where
  "error_message p =
     (case find (\<lambda>(code, _). code = rp_error_code p) ERROR_MESSAGES of
        None \<Rightarrow> ''UNKNOWN_ERROR'' | Some (_, name) \<Rightarrow> name)"

definition check_error :: "reply_packet \<Rightarrow> unit jdwp_result" where
  "check_error p =
     (if is_error p then Inl (JdwpErrorCode (rp_error_code p) (error_message p)) else Inr ())"

section \<open>Properties of the packet layer\<close>

lemma unat_u32_try_or_max: "unat (u32_try_or_max n) = min n (2 ^ 32 - 1)"
  by (simp add: u32_try_or_max_def unat_of_nat min_def)

lemma length_encode [simp]: "length (encode p) = HEADER_SIZE + length (cp_data p)"
  by (simp add: encode_def HEADER_SIZE_def)

lemma length_encode_reply [simp]: "length (encode_reply p) = HEADER_SIZE + length (rp_data p)"
  by (simp add: encode_reply_def HEADER_SIZE_def)

lemma encode_fields:
  "take 4 (encode p) = put_be 4 (u32_try_or_max (HEADER_SIZE + length (cp_data p)))"
  "take 4 (drop 4 (encode p)) = put_be 4 (cp_id p)"
  "encode p ! 8 = 0" "encode p ! 9 = cp_command_set p" "encode p ! 10 = cp_command p"
  "drop 11 (encode p) = cp_data p"
  by (simp_all add: encode_def nth_append)

lemma encode_reply_fields:
  "take 4 (encode_reply p) = put_be 4 (u32_try_or_max (HEADER_SIZE + length (rp_data p)))"
  "take 4 (drop 4 (encode_reply p)) = put_be 4 (rp_id p)"
  "encode_reply p ! 8 = REPLY_FLAG" "take 2 (drop 9 (encode_reply p)) = put_be 2 (rp_error_code p)"
  "drop 11 (encode_reply p) = rp_data p"
  by (simp_all add: encode_reply_def nth_append)

lemma encode_inject: "encode p = encode q \<Longrightarrow> p = (q :: command_packet)"
proof -
  assume eq: "encode p = encode q"
  have "get_be (put_be 4 (cp_id p)) = (get_be (put_be 4 (cp_id q)) :: u32)"
    using encode_fields(2) [of p] encode_fields(2) [of q] eq by metis
  moreover have "cp_command_set p = cp_command_set q" "cp_command p = cp_command q" "cp_data p = cp_data q"
    using eq encode_fields(4-6) [of p] encode_fields(4-6) [of q] by metis+
  ultimately show "p = q" by simp
qed

lemma decode_encode_reply: "decode_reply (encode_reply p) = Inr p"
  by (simp add: decode_reply_def encode_reply_fields Let_def)

lemma find_error_message:
  "error_message p = (case map_of ERROR_MESSAGES (rp_error_code p) of None \<Rightarrow> ''UNKNOWN_ERROR'' | Some n \<Rightarrow> n)"
proof -
  have "map_option snd (find (\<lambda>(c, _). c = k) xs) = map_of xs k" for k and xs :: "(u16 \<times> string) list"
    by (induction xs) auto
  from this [of "rp_error_code p" ERROR_MESSAGES] show ?thesis
    by (auto simp: error_message_def split: option.splits)
qed

lemma check_error_Inr [simp]: "check_error p = Inr u \<longleftrightarrow> rp_error_code p = 0"
  by (simp add: check_error_def is_error_def)

lemma ERROR_MESSAGES_distinct:
  "distinct (map fst ERROR_MESSAGES)" "distinct (map snd ERROR_MESSAGES)"
  by (simp_all add: ERROR_MESSAGES_def)

end
