(* ===== verification/Types.thy ===== *)
theory Types
  imports Protocol
begin

text \<open>
  \<open>jdwp-client/src/types.rs\<close>: identifiers, code locations, thread states, the wire values and their
  rendering. Floating-point values are kept as their bit patterns; their decimal rendering
  (\<open>Display\<close> of \<open>f32\<close> and \<open>f64\<close>) is a parameter \<open>fd\<close> of the renderers.
\<close>

type_synonym object_id = u64
type_synonym thread_id = u64
type_synonym reference_type_id = u64
type_synonym class_id = u64
type_synonym method_id = u64
type_synonym field_id = u64
type_synonym frame_id = u64

record location =
  loc_type_tag :: u8
  loc_class_id :: u64
  loc_method_id :: u64
  loc_index :: u64

datatype thread_status = TS_Zombie | TS_Running | TS_Sleeping | TS_Monitor | TS_Wait

datatype suspend_status = SS_Running | SS_Suspended

datatype type_tag =
    TT_Array | TT_Byte | TT_Char | TT_Object | TT_Float | TT_Double | TT_Int | TT_Long | TT_Short
  | TT_Void | TT_Boolean | TT_String | TT_Thread | TT_ThreadGroup | TT_ClassLoader | TT_ClassObject

fun type_tag_byte :: "type_tag \<Rightarrow> u8" where
  "type_tag_byte TT_Array = 91"
| "type_tag_byte TT_Byte = 66"
| "type_tag_byte TT_Char = 67"
| "type_tag_byte TT_Object = 76"
| "type_tag_byte TT_Float = 70"
| "type_tag_byte TT_Double = 68"
| "type_tag_byte TT_Int = 73"
| "type_tag_byte TT_Long = 74"
| "type_tag_byte TT_Short = 83"
| "type_tag_byte TT_Void = 86"
| "type_tag_byte TT_Boolean = 90"
| "type_tag_byte TT_String = 115"
| "type_tag_byte TT_Thread = 116"
| "type_tag_byte TT_ThreadGroup = 103"
| "type_tag_byte TT_ClassLoader = 108"
| "type_tag_byte TT_ClassObject = 99"

datatype value_data =
    VByte u8
  | VChar u16
  | VFloat u32
  | VDouble u64
  | VInt u32
  | VLong u64
  | VShort u16
  | VBoolean bool
  | VObject u64
  | VVoid

record tagged_value =
  val_tag :: u8
  val_data :: value_data

record float_display =
  show_f32 :: "u32 \<Rightarrow> string"
  show_f64 :: "u64 \<Rightarrow> string"

text \<open>\<open>char::from_u32\<close> on a UTF-16 code unit: only the surrogates are refused.\<close>

definition is_surrogate :: "u16 \<Rightarrow> bool" where
  "is_surrogate u = (0xD800 \<le> u \<and> u \<le> 0xDFFF)"

definition format_char :: "u16 \<Rightarrow> string" where
  "format_char u =
     (if is_surrogate u
      then ''(char) '' @ [CHR 0x27, CHR 0x5C] @ ''u'' @ pad_left 4 (CHR ''0'') (show_hex_upper (unat u))
           @ [CHR 0x27] @ '' (unpaired surrogate, not a character)''
      else ''(char) '' @ [CHR 0x27] @ bytes_string (utf8_encode (unat u)) @ [CHR 0x27])"

fun format_primitive :: "float_display \<Rightarrow> value_data \<Rightarrow> string option" where
  "format_primitive fd (VByte v) = Some (''(byte) '' @ show_int (sint v))"
| "format_primitive fd (VChar v) = Some (format_char v)"
| "format_primitive fd (VFloat v) = Some (''(float) '' @ show_f32 fd v)"
| "format_primitive fd (VDouble v) = Some (''(double) '' @ show_f64 fd v)"
| "format_primitive fd (VInt v) = Some (''(int) '' @ show_int (sint v))"
| "format_primitive fd (VLong v) = Some (''(long) '' @ show_int (sint v))"
| "format_primitive fd (VShort v) = Some (''(short) '' @ show_int (sint v))"
| "format_primitive fd (VBoolean v) = Some (''(boolean) '' @ (if v then ''true'' else ''false''))"
| "format_primitive fd VVoid = Some ''(void)''"
| "format_primitive fd (VObject _) = None"

definition value_format :: "float_display \<Rightarrow> tagged_value \<Rightarrow> string" where
  "value_format fd v =
     (case val_data v of
        VObject i \<Rightarrow> if i = 0 then ''(object) null'' else ''(object) @'' @ show_hex (unat i)
      | d \<Rightarrow> (case format_primitive fd d of Some s \<Rightarrow> s | None \<Rightarrow> []))"

record variable =
  var_code_index :: u64
  var_name :: string
  var_signature :: string
  var_generic_signature :: "string option"
  var_length :: u32
  var_slot :: u32

record frame_info =
  fi_frame_id :: u64
  fi_location :: location

section \<open>Rendering characters\<close>

lemma is_surrogate_iff: "is_surrogate u \<longleftrightarrow> \<not> is_scalar (unat u)"
proof -
  have "unat u < 65536" using unsigned_less [of u, where 'a = nat] by simp
  then show ?thesis
    by (auto simp: is_surrogate_def is_scalar_def word_le_nat_alt)
qed

lemma type_tag_byte_inject: "type_tag_byte a = type_tag_byte b \<Longrightarrow> a = b"
  by (cases a; cases b; simp)

lemma utf8_encode_inject:
  assumes "is_scalar c" "is_scalar d" "utf8_encode c = utf8_encode d"
  shows "c = d"
proof -
  have *: "utf8_scalar (utf8_encode c) = c" if "is_scalar c" for c
  proof -
    have c: "c < 0x110000" using that by (auto simp: is_scalar_def)
    have eq: "c = 64 * (c div 64) + c mod 64" "c div 64 = 64 * (c div 4096) + c div 64 mod 64"
      "c div 4096 = 64 * (c div 262144) + c div 4096 mod 64"
      using div_mult2_eq [of c 64 64] div_mult2_eq [of c 4096 64] by simp_all
    have b: "c mod 64 < 64" "c div 64 mod 64 < 64" "c div 4096 mod 64 < 64" by simp_all
    then have u: "unat (nat_byte (128 + c mod 64)) = 128 + c mod 64"
      "unat (nat_byte (128 + c div 64 mod 64)) = 128 + c div 64 mod 64"
      "unat (nat_byte (128 + c div 4096 mod 64)) = 128 + c div 4096 mod 64"
      by simp_all
    moreover have "unat (nat_byte (240 + c div 262144)) = 240 + c div 262144" using c by simp
    ultimately show ?thesis
      by (auto simp: utf8_encode_def utf8_scalar_def u) (use eq c in linarith)+
  qed
  then show ?thesis using assms by metis
qed

end
