(* ===== verification/Reader.thy ===== *)
theory Reader
  imports Types
begin

text \<open>
  \<open>jdwp-client/src/reader.rs\<close>: the checked readers of JDWP primitives and values. A reader is a
  function from the remaining buffer to an error or to the value and the rest of the buffer, which
  is what \<open>&mut &[u8]\<close> threads through the sources. Signed integers have the representation of the
  unsigned word of their width and are read with \<open>sint\<close>.
\<close>

type_synonym 'a reader = "bytes \<Rightarrow> jdwp_error + 'a \<times> bytes"

definition rreturn :: "'a \<Rightarrow> 'a reader" where
  "rreturn a bs = Inr (a, bs)"

definition rfail :: "jdwp_error \<Rightarrow> 'a reader" where
  "rfail e bs = Inl e"

definition rbind :: "'a reader \<Rightarrow> ('a \<Rightarrow> 'b reader) \<Rightarrow> 'b reader" where
  "rbind r f bs = (case r bs of Inl e \<Rightarrow> Inl e | Inr (a, rest) \<Rightarrow> f a rest)"

definition rmap :: "('a \<Rightarrow> 'b) \<Rightarrow> 'a reader \<Rightarrow> 'b reader" where
  "rmap f r = rbind r (\<lambda>a. rreturn (f a))"

text \<open>\<open>for _ in 0..n \<lbrace> out.push(r(buf)?) \<rbrace>\<close>\<close>

fun read_n :: "nat \<Rightarrow> 'a reader \<Rightarrow> 'a list reader" where
  "read_n 0 r = rreturn []"
| "read_n (Suc n) r = rbind r (\<lambda>a. rbind (read_n n r) (\<lambda>as. rreturn (a # as)))"

text \<open>The iterations of \<open>for _ in 0..n\<close> for a signed bound: none when it is negative.\<close>

definition i32_count :: "u32 \<Rightarrow> nat" where
  "i32_count w = nat (sint w)"

definition run_reader :: "'a reader \<Rightarrow> bytes \<Rightarrow> 'a jdwp_result" where
  "run_reader r bs = res_map fst (r bs)"

section \<open>The checked primitive readers\<close>

definition ensure :: "nat \<Rightarrow> string \<Rightarrow> unit reader" where
  "ensure n what buf =
     (if length buf < n
      then Inl (Protocol (''Not enough data for '' @ what @ '': need '' @ show_nat n
                  @ '' byte(s), have '' @ show_nat (length buf)))
      else Inr ((), buf))"

definition get_be_n :: "nat \<Rightarrow> 'a::len word reader" where
  "get_be_n n buf = Inr (get_be (take n buf), drop n buf)"

definition read_u8 :: "u8 reader" where
  "read_u8 = rbind (ensure 1 ''u8'') (\<lambda>_. get_be_n 1)"

definition read_u32 :: "u32 reader" where
  "read_u32 = rbind (ensure 4 ''u32'') (\<lambda>_. get_be_n 4)"

definition read_i32 :: "u32 reader" where
  "read_i32 = rbind (ensure 4 ''i32'') (\<lambda>_. get_be_n 4)"

definition read_u64 :: "u64 reader" where
  "read_u64 = rbind (ensure 8 ''u64'') (\<lambda>_. get_be_n 8)"

definition read_i64 :: "u64 reader" where
  "read_i64 = rbind (ensure 8 ''i64'') (\<lambda>_. get_be_n 8)"

definition read_string :: "string reader" where
  "read_string =
     rbind (ensure 4 ''string length'') (\<lambda>_.
     rbind (get_be_n 4) (\<lambda>len32 :: u32.
     let len = unat len32 in
     rbind (ensure len ''string body'') (\<lambda>_.
     (\<lambda>buf. case from_utf8 (take len buf) of
              Inl e \<Rightarrow> Inl (Protocol (''Invalid UTF-8 in string: '' @ show_utf8_error e))
            | Inr s \<Rightarrow> Inr (s, drop len buf)))))"

definition some_if_present :: "string \<Rightarrow> string option" where
  "some_if_present s = (if s = [] then None else Some s)"

section \<open>Values\<close>

definition TAG_BYTE :: u8 where "TAG_BYTE = 66"
definition TAG_CHAR :: u8 where "TAG_CHAR = 67"
definition TAG_OBJECT :: u8 where "TAG_OBJECT = 76"
definition TAG_FLOAT :: u8 where "TAG_FLOAT = 70"
definition TAG_DOUBLE :: u8 where "TAG_DOUBLE = 68"
definition TAG_INT :: u8 where "TAG_INT = 73"
definition TAG_LONG :: u8 where "TAG_LONG = 74"
definition TAG_SHORT :: u8 where "TAG_SHORT = 83"
definition TAG_VOID :: u8 where "TAG_VOID = 86"
definition TAG_BOOLEAN :: u8 where "TAG_BOOLEAN = 90"
definition TAG_STRING :: u8 where "TAG_STRING = 115"
definition TAG_THREAD :: u8 where "TAG_THREAD = 116"
definition TAG_THREAD_GROUP :: u8 where "TAG_THREAD_GROUP = 103"
definition TAG_CLASS_LOADER :: u8 where "TAG_CLASS_LOADER = 108"
definition TAG_CLASS_OBJECT :: u8 where "TAG_CLASS_OBJECT = 99"
definition TAG_ARRAY :: u8 where "TAG_ARRAY = 91"

lemmas tag_defs = TAG_BYTE_def TAG_CHAR_def TAG_OBJECT_def TAG_FLOAT_def TAG_DOUBLE_def TAG_INT_def
  TAG_LONG_def TAG_SHORT_def TAG_VOID_def TAG_BOOLEAN_def TAG_STRING_def TAG_THREAD_def
  TAG_THREAD_GROUP_def TAG_CLASS_LOADER_def TAG_CLASS_OBJECT_def TAG_ARRAY_def

definition reference_tags :: "u8 list" where
  "reference_tags = [TAG_OBJECT, TAG_STRING, TAG_THREAD, TAG_THREAD_GROUP, TAG_CLASS_LOADER,
     TAG_CLASS_OBJECT, TAG_ARRAY]"

definition value_width :: "u8 \<Rightarrow> nat jdwp_result" where
  "value_width tag =
     (if tag = TAG_VOID then Inr 0
      else if tag = TAG_BYTE \<or> tag = TAG_BOOLEAN then Inr 1
      else if tag = TAG_CHAR \<or> tag = TAG_SHORT then Inr 2
      else if tag = TAG_FLOAT \<or> tag = TAG_INT then Inr 4
      else if tag = TAG_DOUBLE \<or> tag = TAG_LONG \<or> tag \<in> set reference_tags then Inr 8
      else Inl (Protocol (''Unknown value tag: '' @ show_nat (unat tag))))"

definition read_value_by_tag :: "u8 \<Rightarrow> value_data reader" where
  "read_value_by_tag tag =
     (case value_width tag of
        Inl e \<Rightarrow> rfail e
      | Inr width \<Rightarrow>
          rbind (ensure width ''value'') (\<lambda>_.
          if tag = TAG_BYTE then rmap VByte (get_be_n 1)
          else if tag = TAG_CHAR then rmap VChar (get_be_n 2)
          else if tag = TAG_DOUBLE then rmap VDouble (get_be_n 8)
          else if tag = TAG_FLOAT then rmap VFloat (get_be_n 4)
          else if tag = TAG_INT then rmap VInt (get_be_n 4)
          else if tag = TAG_LONG then rmap VLong (get_be_n 8)
          else if tag = TAG_SHORT then rmap VShort (get_be_n 2)
          else if tag = TAG_BOOLEAN then rmap (\<lambda>b :: u8. VBoolean (b \<noteq> 0)) (get_be_n 1)
          else if tag = TAG_VOID then rreturn VVoid
          else rmap VObject (get_be_n 8)))"

section \<open>Framing\<close>

text \<open>
  A framed reader takes a prefix of its input that determines the value, ignores what follows it,
  fails on every proper prefix of it, and fails with a \<open>Protocol\<close> error only. Every decoder built
  from framed readers with \<open>rbind\<close> is framed: this is the statement that no truncated packet is
  accepted and that no decoder looks past its own bytes.
\<close>

definition framed :: "'a reader \<Rightarrow> bool" where
  "framed r =
     ((\<forall>bs a rest. r bs = Inr (a, rest) \<longrightarrow>
        (\<exists>pre. bs = pre @ rest \<and> (\<forall>x. r (pre @ x) = Inr (a, x))
             \<and> (\<forall>k < length pre. is_err (r (take k pre)))))
      \<and> (\<forall>bs e. r bs = Inl e \<longrightarrow> (\<exists>m. e = Protocol m)))"

lemma framedI:
  assumes "\<And>bs a rest. r bs = Inr (a, rest) \<Longrightarrow>
      \<exists>pre. bs = pre @ rest \<and> (\<forall>x. r (pre @ x) = Inr (a, x)) \<and> (\<forall>k < length pre. is_err (r (take k pre)))"
    and "\<And>bs e. r bs = Inl e \<Longrightarrow> \<exists>m. e = Protocol m"
  shows "framed r"
  using assms by (auto simp: framed_def)

lemma framedE:
  assumes "framed r" "r bs = Inr (a, rest)"
  obtains pre where "bs = pre @ rest" "\<And>x. r (pre @ x) = Inr (a, x)"
    "\<And>k. k < length pre \<Longrightarrow> is_err (r (take k pre))"
  using assms unfolding framed_def by metis

lemma framed_error: "framed r \<Longrightarrow> r bs = Inl e \<Longrightarrow> \<exists>m. e = Protocol m"
  by (auto simp: framed_def)

lemma rbind_Inr: "rbind r f bs = Inr (b, rest) \<longleftrightarrow> (\<exists>a m. r bs = Inr (a, m) \<and> f a m = Inr (b, rest))"
  by (auto simp: rbind_def split: sum.splits)

lemma rbind_Inl: "rbind r f bs = Inl e \<longleftrightarrow> r bs = Inl e \<or> (\<exists>a m. r bs = Inr (a, m) \<and> f a m = Inl e)"
  by (auto simp: rbind_def split: sum.splits)

lemma rbind_step [simp]: "r bs = Inr (a, m) \<Longrightarrow> rbind r f bs = f a m"
  by (simp add: rbind_def)

lemma rbind_fail [simp]: "r bs = Inl e \<Longrightarrow> rbind r f bs = Inl e"
  by (simp add: rbind_def)

lemma framed_rreturn [framed_intros]: "framed (rreturn a)"
  by (rule framedI) (auto simp: rreturn_def)

lemma framed_rfail [framed_intros]: "framed (rfail (Protocol m))"
  by (rule framedI) (auto simp: rfail_def)

lemma framed_rbind [framed_intros]:
  assumes r: "framed r" and f: "\<And>a. framed (f a)"
  shows "framed (rbind r f)"
proof (rule framedI)
  fix bs b rest assume "rbind r f bs = Inr (b, rest)"
  then obtain a m where a: "r bs = Inr (a, m)" "f a m = Inr (b, rest)" by (auto simp: rbind_Inr)
  obtain p where p: "bs = p @ m" "\<And>x. r (p @ x) = Inr (a, x)"
    "\<And>k. k < length p \<Longrightarrow> is_err (r (take k p))" using framedE [OF r a(1)] by metis
  obtain q where q: "m = q @ rest" "\<And>x. f a (q @ x) = Inr (b, x)"
    "\<And>k. k < length q \<Longrightarrow> is_err (f a (take k q))" using framedE [OF f a(2)] by metis
  have "is_err (rbind r f (take k (p @ q)))" if "k < length (p @ q)" for k
  proof (cases "k < length p")
    case True
    then show ?thesis using p(3) [of k] by (cases "r (take k p)") simp_all
  next
    case False
    then show ?thesis using p(2) q(3) [of "k - length p"] that by simp
  qed
  then show "\<exists>pre. bs = pre @ rest \<and> (\<forall>x. rbind r f (pre @ x) = Inr (b, x))
      \<and> (\<forall>k < length pre. is_err (rbind r f (take k pre)))"
    using p q by (intro exI [of _ "p @ q"]) simp
next
  fix bs e assume "rbind r f bs = Inl e"
  then show "\<exists>m. e = Protocol m" using framed_error [OF r] framed_error [OF f] by (auto simp: rbind_Inl)
qed

lemma framed_rmap [framed_intros]: "framed r \<Longrightarrow> framed (rmap f r)"
  by (simp add: rmap_def framed_intros)

lemma framed_if [framed_intros]: "framed r \<Longrightarrow> framed s \<Longrightarrow> framed (if c then r else s)"
  by simp

lemma framed_read_n [framed_intros]: "framed r \<Longrightarrow> framed (read_n n r)"
  by (induction n) (simp_all add: framed_intros)

lemma framed_Let [framed_intros]: "framed (f v) \<Longrightarrow> framed (let x = v in f x)"
  by simp

text \<open>A bounds check followed by a read of exactly the checked width.\<close>

lemma framed_ensure_get: "framed (rbind (ensure n what) (\<lambda>_. rmap f (get_be_n n)))"
proof (rule framedI)
  fix bs a rest assume "rbind (ensure n what) (\<lambda>_. rmap f (get_be_n n)) bs = Inr (a, rest)"
  then have "n \<le> length bs" "a = f (get_be (take n bs))" "rest = drop n bs"
    by (auto simp: rbind_def ensure_def rmap_def get_be_n_def rreturn_def split: if_splits)
  then show "\<exists>pre. bs = pre @ rest \<and> (\<forall>x. rbind (ensure n what) (\<lambda>_. rmap f (get_be_n n)) (pre @ x) = Inr (a, x))
      \<and> (\<forall>k < length pre. is_err (rbind (ensure n what) (\<lambda>_. rmap f (get_be_n n)) (take k pre)))"
    by (intro exI [of _ "take n bs"])
      (auto simp: rbind_def ensure_def rmap_def get_be_n_def rreturn_def min_def)
qed (auto simp: rbind_def ensure_def rmap_def get_be_n_def rreturn_def split: if_splits)

lemma rmap_id: "rmap (\<lambda>a. a) r = r"
  by (rule ext) (auto simp: rmap_def rbind_def rreturn_def split: sum.splits)

lemma framed_ensure_read: "framed (rbind (ensure n what) (\<lambda>_. get_be_n n))"
  using framed_ensure_get [of n what "\<lambda>a. a"] by (simp add: rmap_id)

lemma framed_primitive [framed_intros]:
  "framed read_u8" "framed read_u32" "framed read_i32" "framed read_u64" "framed read_i64"
  by (simp_all add: read_u8_def read_u32_def read_i32_def read_u64_def read_i64_def framed_ensure_read)

lemma framed_string_body:
  "framed (rbind (ensure n what) (\<lambda>_ buf.
     case from_utf8 (take n buf) of Inl e \<Rightarrow> Inl (Protocol (m e)) | Inr s \<Rightarrow> Inr (s, drop n buf)))"
    (is "framed ?r")
proof (rule framedI)
  fix bs a rest assume "?r bs = Inr (a, rest)"
  then have "n \<le> length bs" "from_utf8 (take n bs) = Inr a" "rest = drop n bs"
    by (auto simp: rbind_def ensure_def split: if_splits sum.splits)
  then show "\<exists>pre. bs = pre @ rest \<and> (\<forall>x. ?r (pre @ x) = Inr (a, x)) \<and> (\<forall>k < length pre. is_err (?r (take k pre)))"
    by (intro exI [of _ "take n bs"]) (auto simp: rbind_def ensure_def min_def)
qed (auto simp: rbind_def ensure_def split: if_splits sum.splits)

lemma rbind_assoc: "rbind (rbind r f) g = rbind r (\<lambda>a. rbind (f a) g)"
  by (rule ext) (auto simp: rbind_def split: sum.splits)

lemma framed_read_string [framed_intros]: "framed read_string"
proof -
  have eq: "read_string = rbind (rbind (ensure 4 ''string length'') (\<lambda>_. get_be_n 4)) (\<lambda>len :: u32.
      rbind (ensure (unat len) ''string body'') (\<lambda>_ buf. case from_utf8 (take (unat len) buf) of
          Inl e \<Rightarrow> Inl (Protocol (''Invalid UTF-8 in string: '' @ show_utf8_error e))
        | Inr s \<Rightarrow> Inr (s, drop (unat len) buf)))"
    unfolding read_string_def rbind_assoc Let_def ..
  show ?thesis
    unfolding eq by (intro framed_rbind framed_ensure_read framed_string_body)
qed

lemma value_width_cases:
  "value_width tag = Inr w \<Longrightarrow>
     (tag = TAG_VOID \<and> w = 0) \<or> (tag \<in> {TAG_BYTE, TAG_BOOLEAN} \<and> w = 1) \<or> (tag \<in> {TAG_CHAR, TAG_SHORT} \<and> w = 2)
     \<or> (tag \<in> {TAG_FLOAT, TAG_INT} \<and> w = 4) \<or> (tag \<in> {TAG_DOUBLE, TAG_LONG} \<union> set reference_tags \<and> w = 8)"
  by (auto simp: value_width_def split: if_splits)

lemma framed_ensure_0: "framed (rbind (ensure 0 what) (\<lambda>_. rreturn a))"
  by (rule framedI) (auto simp: rbind_def ensure_def rreturn_def)

lemma framed_read_value_by_tag [framed_intros]: "framed (read_value_by_tag tag)"
proof (cases "value_width tag")
  case (Inl e)
  then have "\<exists>m. e = Protocol m" by (auto simp: value_width_def split: if_splits)
  then show ?thesis using Inl by (auto simp: read_value_by_tag_def framed_intros)
next
  case (Inr w)
  from value_width_cases [OF this] show ?thesis
    by (auto simp: read_value_by_tag_def reference_tags_def tag_defs value_width_def
        framed_ensure_get framed_ensure_0)
qed

section \<open>Writers and the codec interface\<close>

definition put_string :: "string \<Rightarrow> bytes" where
  "put_string s = put_be 4 (word_of_nat (length s) :: u32) @ string_bytes s"

definition put_value :: "value_data \<Rightarrow> bytes" where
  "put_value v =
     (case v of
        VByte b \<Rightarrow> put_be 1 b | VChar c \<Rightarrow> put_be 2 c | VFloat f \<Rightarrow> put_be 4 f | VDouble d \<Rightarrow> put_be 8 d
      | VInt i \<Rightarrow> put_be 4 i | VLong l \<Rightarrow> put_be 8 l | VShort s \<Rightarrow> put_be 2 s
      | VBoolean b \<Rightarrow> [if b then 1 else 0] | VObject i \<Rightarrow> put_be 8 i | VVoid \<Rightarrow> [])"

definition tag_fits :: "u8 \<Rightarrow> value_data \<Rightarrow> bool" where
  "tag_fits tag v =
     (case v of
        VByte _ \<Rightarrow> tag = TAG_BYTE | VChar _ \<Rightarrow> tag = TAG_CHAR | VFloat _ \<Rightarrow> tag = TAG_FLOAT
      | VDouble _ \<Rightarrow> tag = TAG_DOUBLE | VInt _ \<Rightarrow> tag = TAG_INT | VLong _ \<Rightarrow> tag = TAG_LONG
      | VShort _ \<Rightarrow> tag = TAG_SHORT | VBoolean _ \<Rightarrow> tag = TAG_BOOLEAN | VVoid \<Rightarrow> tag = TAG_VOID
      | VObject _ \<Rightarrow> tag \<in> set reference_tags)"

definition text_ok :: "string \<Rightarrow> bool" where
  "text_ok s = (utf8_text (string_bytes s) \<and> length s < 2 ^ 32)"

text \<open>
  A writer and a reader of one wire type. The laws are the round trip with any bytes following, and
  framing of the reader; they give the rejection of every truncation, the unique readability of
  concatenated encodings and the round trip of counted sequences.
\<close>

locale wire_codec =
  fixes put :: "'a \<Rightarrow> bytes"
    and get :: "'a reader"
    and ok :: "'a \<Rightarrow> bool"
  assumes get_put: "ok a \<Longrightarrow> get (put a @ rest) = Inr (a, rest)"
    and get_framed: "framed get"
begin

lemma truncated:
  assumes "ok a" "k < length (put a)"
  shows "\<exists>m. get (take k (put a)) = Inl (Protocol m)"
proof -
  have "get (put a) = Inr (a, [])" using get_put [of a "[]"] assms by simp
  then have "is_err (get (take k (put a)))" using framedE [OF get_framed] assms(2) by fastforce
  then show ?thesis using framed_error [OF get_framed] by (cases "get (take k (put a))") auto
qed

lemma unique_reading:
  assumes "ok a" "ok b" "put a @ x = put b @ y"
  shows "a = b \<and> x = y"
proof -
  have "(Inr (a, x) :: jdwp_error + 'a \<times> bytes) = Inr (b, y)"
    unfolding get_put [OF assms(1), of x, symmetric] get_put [OF assms(2), of y, symmetric] assms(3) ..
  then show ?thesis by simp
qed

lemma get_put_list:
  "\<forall>a\<in>set as. ok a \<Longrightarrow> read_n (length as) get (concat (map put as) @ rest) = Inr (as, rest)"
  by (induction as) (simp_all add: rreturn_def get_put)

lemma accepted_prefix: "get bs = Inr (a, rest) \<Longrightarrow> \<exists>pre. bs = pre @ rest \<and> get pre = Inr (a, [])"
  using framedE [OF get_framed, of bs a rest] by (metis append_Nil2)

end

lemma ensure_ok [simp]: "n \<le> length bs \<Longrightarrow> ensure n w bs = Inr ((), bs)"
  by (simp add: ensure_def)

lemma ensure_short [simp]: "length bs < n \<Longrightarrow> is_err (ensure n w bs)"
  by (simp add: ensure_def)

lemma get_be_n_put [simp]: "LENGTH('a) \<le> 8 * n \<Longrightarrow> get_be_n n (put_be n w @ rest) = Inr (w :: 'a::len word, rest)"
  by (simp add: get_be_n_def get_put_be)

lemma read_primitive_put [wire_simps]:
  "read_u8 (put_be 1 b @ rest) = Inr (b, rest)"
  "read_u32 (put_be 4 w @ rest) = Inr (w, rest)"
  "read_i32 (put_be 4 w @ rest) = Inr (w, rest)"
  "read_u64 (put_be 8 d @ rest) = Inr (d, rest)"
  "read_i64 (put_be 8 d @ rest) = Inr (d, rest)"
  by (simp_all add: read_u8_def read_u32_def read_i32_def read_u64_def read_i64_def)

lemma put_be_1 [simp]: "put_be 1 (b :: u8) = [b]" "put_be (Suc 0) (b :: u8) = [b]"
  by (simp_all add: put_be_def)

lemma read_u8_Cons [wire_simps]: "read_u8 (b # rest) = Inr (b, rest)"
  using read_primitive_put(1) [of b rest] by simp

lemma from_utf8_string: "utf8_text (string_bytes s) \<Longrightarrow> from_utf8 (string_bytes s) = Inr s"
  by (simp add: from_utf8_Inr)

lemma unat_word_of_length: "length s < 2 ^ 32 \<Longrightarrow> unat (word_of_nat (length s) :: u32) = length s"
  by (simp add: unat_of_nat)

lemma read_string_put [wire_simps]:
  "text_ok s \<Longrightarrow> read_string (put_string s @ rest) = Inr (s, rest)"
  unfolding read_string_def put_string_def text_ok_def Let_def
  by (simp add: rbind_def from_utf8_string unat_word_of_length)

lemma get_be_1 [simp]: "get_be_n (Suc 0) (b # rest) = Inr (b :: u8, rest)"
  using get_be_n_put [of 1 b rest] by simp

lemma rmap_Inr: "r bs = Inr (a, rest) \<Longrightarrow> rmap f r bs = Inr (f a, rest)"
  by (simp add: rmap_def rreturn_def)

lemma read_value_put [wire_simps]:
  "tag_fits tag v \<Longrightarrow> read_value_by_tag tag (put_value v @ rest) = Inr (v, rest)"
  by (cases v)
    (auto simp: tag_fits_def read_value_by_tag_def value_width_def put_value_def tag_defs
      reference_tags_def rmap_Inr rreturn_def)

interpretation codec_u8: wire_codec "\<lambda>b. [b]" read_u8 "\<lambda>_. True"
  by unfold_locales (simp_all add: wire_simps framed_intros)

interpretation codec_u32: wire_codec "put_be 4" read_u32 "\<lambda>_. True"
  by unfold_locales (simp_all add: wire_simps framed_intros)

interpretation codec_i32: wire_codec "put_be 4" read_i32 "\<lambda>_. True"
  by unfold_locales (simp_all add: wire_simps framed_intros)

interpretation codec_u64: wire_codec "put_be 8" read_u64 "\<lambda>_. True"
  by unfold_locales (simp_all add: wire_simps framed_intros)

interpretation codec_string: wire_codec put_string read_string text_ok
  by unfold_locales (simp_all add: wire_simps framed_intros)

interpretation codec_value: wire_codec put_value "read_value_by_tag tag" "tag_fits tag" for tag
  by unfold_locales (simp_all add: wire_simps framed_intros)

end
