(* ===== verification/Commands.thy ===== *)
theory Commands
  imports Prelude
begin

text \<open>
  \<open>jdwp-client/src/commands.rs\<close>: the command sets, commands, event kinds, step sizes and step depths
  of the protocol, one constant per constant of the source. The prefix names the Rust module:
  \<open>CS\<close> command sets, \<open>VM\<close> virtual machine, \<open>RT\<close> reference type, \<open>M\<close> method, \<open>T\<close> thread, \<open>ER\<close> event
  request, \<open>SR\<close> string, \<open>OR\<close> object, \<open>SF\<close> stack frame, \<open>EK\<close> event kinds.
\<close>

text \<open>\<open>command_sets\<close>\<close>

definition CS_VIRTUAL_MACHINE :: u8 where "CS_VIRTUAL_MACHINE = 1"
definition CS_REFERENCE_TYPE :: u8 where "CS_REFERENCE_TYPE = 2"
definition CS_CLASS_TYPE :: u8 where "CS_CLASS_TYPE = 3"
definition CS_METHOD :: u8 where "CS_METHOD = 6"
definition CS_OBJECT_REFERENCE :: u8 where "CS_OBJECT_REFERENCE = 9"
definition CS_STRING_REFERENCE :: u8 where "CS_STRING_REFERENCE = 10"
definition CS_THREAD_REFERENCE :: u8 where "CS_THREAD_REFERENCE = 11"
definition CS_THREAD_GROUP_REFERENCE :: u8 where "CS_THREAD_GROUP_REFERENCE = 12"
definition CS_ARRAY_REFERENCE :: u8 where "CS_ARRAY_REFERENCE = 13"
definition CS_EVENT_REQUEST :: u8 where "CS_EVENT_REQUEST = 15"
definition CS_STACK_FRAME :: u8 where "CS_STACK_FRAME = 16"

text \<open>\<open>vm_commands\<close>\<close>

definition VM_VERSION :: u8 where "VM_VERSION = 1"
definition VM_CLASSES_BY_SIGNATURE :: u8 where "VM_CLASSES_BY_SIGNATURE = 2"
definition VM_ALL_CLASSES :: u8 where "VM_ALL_CLASSES = 3"
definition VM_ALL_THREADS :: u8 where "VM_ALL_THREADS = 4"
definition VM_TOP_LEVEL_THREAD_GROUPS :: u8 where "VM_TOP_LEVEL_THREAD_GROUPS = 5"
definition VM_DISPOSE :: u8 where "VM_DISPOSE = 6"
definition VM_ID_SIZES :: u8 where "VM_ID_SIZES = 7"
definition VM_SUSPEND :: u8 where "VM_SUSPEND = 8"
definition VM_RESUME :: u8 where "VM_RESUME = 9"
definition VM_EXIT :: u8 where "VM_EXIT = 10"
definition VM_CREATE_STRING :: u8 where "VM_CREATE_STRING = 11"
definition VM_CAPABILITIES :: u8 where "VM_CAPABILITIES = 12"
definition VM_CLASS_PATHS :: u8 where "VM_CLASS_PATHS = 13"
definition VM_DISPOSE_OBJECTS :: u8 where "VM_DISPOSE_OBJECTS = 14"
definition VM_HOLD_EVENTS :: u8 where "VM_HOLD_EVENTS = 15"
definition VM_RELEASE_EVENTS :: u8 where "VM_RELEASE_EVENTS = 16"
definition VM_CAPABILITIES_NEW :: u8 where "VM_CAPABILITIES_NEW = 17"
definition VM_REDEFINE_CLASSES :: u8 where "VM_REDEFINE_CLASSES = 18"
definition VM_INSTANCE_COUNTS :: u8 where "VM_INSTANCE_COUNTS = 21"

text \<open>\<open>reference_type_commands\<close>\<close>

definition RT_SIGNATURE :: u8 where "RT_SIGNATURE = 1"
definition RT_CLASS_LOADER :: u8 where "RT_CLASS_LOADER = 2"
definition RT_MODIFIERS :: u8 where "RT_MODIFIERS = 3"
definition RT_FIELDS :: u8 where "RT_FIELDS = 4"
definition RT_METHODS :: u8 where "RT_METHODS = 5"
definition RT_GET_VALUES :: u8 where "RT_GET_VALUES = 6"
definition RT_SOURCE_FILE :: u8 where "RT_SOURCE_FILE = 7"
definition RT_NESTED_TYPES :: u8 where "RT_NESTED_TYPES = 8"
definition RT_STATUS :: u8 where "RT_STATUS = 9"
definition RT_INTERFACES :: u8 where "RT_INTERFACES = 10"
definition RT_CLASS_OBJECT :: u8 where "RT_CLASS_OBJECT = 11"
definition RT_SOURCE_DEBUG_EXTENSION :: u8 where "RT_SOURCE_DEBUG_EXTENSION = 12"
definition RT_SIGNATURE_WITH_GENERIC :: u8 where "RT_SIGNATURE_WITH_GENERIC = 13"
definition RT_FIELDS_WITH_GENERIC :: u8 where "RT_FIELDS_WITH_GENERIC = 14"
definition RT_METHODS_WITH_GENERIC :: u8 where "RT_METHODS_WITH_GENERIC = 15"
definition RT_INSTANCES :: u8 where "RT_INSTANCES = 16"

text \<open>\<open>method_commands\<close>\<close>

definition M_LINE_TABLE :: u8 where "M_LINE_TABLE = 1"
definition M_VARIABLE_TABLE :: u8 where "M_VARIABLE_TABLE = 2"
definition M_BYTECODES :: u8 where "M_BYTECODES = 3"
definition M_IS_OBSOLETE :: u8 where "M_IS_OBSOLETE = 4"
definition M_VARIABLE_TABLE_WITH_GENERIC :: u8 where "M_VARIABLE_TABLE_WITH_GENERIC = 5"

text \<open>\<open>thread_commands\<close>\<close>

definition T_NAME :: u8 where "T_NAME = 1"
definition T_SUSPEND :: u8 where "T_SUSPEND = 2"
definition T_RESUME :: u8 where "T_RESUME = 3"
definition T_STATUS :: u8 where "T_STATUS = 4"
definition T_THREAD_GROUP :: u8 where "T_THREAD_GROUP = 5"
definition T_FRAMES :: u8 where "T_FRAMES = 6"
definition T_FRAME_COUNT :: u8 where "T_FRAME_COUNT = 7"
definition T_OWNED_MONITORS :: u8 where "T_OWNED_MONITORS = 8"
definition T_CURRENT_CONTENDED_MONITOR :: u8 where "T_CURRENT_CONTENDED_MONITOR = 9"
definition T_STOP :: u8 where "T_STOP = 10"
definition T_INTERRUPT :: u8 where "T_INTERRUPT = 11"
definition T_SUSPEND_COUNT :: u8 where "T_SUSPEND_COUNT = 12"
definition T_FORCE_EARLY_RETURN :: u8 where "T_FORCE_EARLY_RETURN = 14"

text \<open>\<open>event_commands\<close>\<close>

definition ER_SET :: u8 where "ER_SET = 1"
definition ER_CLEAR :: u8 where "ER_CLEAR = 2"
definition ER_CLEAR_ALL_BREAKPOINTS :: u8 where "ER_CLEAR_ALL_BREAKPOINTS = 3"

text \<open>\<open>string_reference_commands\<close>\<close>

definition SR_VALUE :: u8 where "SR_VALUE = 1"

text \<open>\<open>object_reference_commands\<close>\<close>

definition OR_REFERENCE_TYPE :: u8 where "OR_REFERENCE_TYPE = 1"
definition OR_GET_VALUES :: u8 where "OR_GET_VALUES = 2"
definition OR_SET_VALUES :: u8 where "OR_SET_VALUES = 3"
definition OR_MONITOR_INFO :: u8 where "OR_MONITOR_INFO = 5"
definition OR_INVOKE_METHOD :: u8 where "OR_INVOKE_METHOD = 6"
definition OR_DISABLE_COLLECTION :: u8 where "OR_DISABLE_COLLECTION = 7"
definition OR_ENABLE_COLLECTION :: u8 where "OR_ENABLE_COLLECTION = 8"
definition OR_IS_COLLECTED :: u8 where "OR_IS_COLLECTED = 9"

text \<open>\<open>stack_frame_commands\<close>\<close>

definition SF_GET_VALUES :: u8 where "SF_GET_VALUES = 1"
definition SF_SET_VALUES :: u8 where "SF_SET_VALUES = 2"
definition SF_THIS_OBJECT :: u8 where "SF_THIS_OBJECT = 3"
definition SF_POP_FRAMES :: u8 where "SF_POP_FRAMES = 4"

text \<open>\<open>event_kinds\<close>\<close>

definition EK_SINGLE_STEP :: u8 where "EK_SINGLE_STEP = 1"
definition EK_BREAKPOINT :: u8 where "EK_BREAKPOINT = 2"
definition EK_FRAME_POP :: u8 where "EK_FRAME_POP = 3"
definition EK_EXCEPTION :: u8 where "EK_EXCEPTION = 4"
definition EK_USER_DEFINED :: u8 where "EK_USER_DEFINED = 5"
definition EK_THREAD_START :: u8 where "EK_THREAD_START = 6"
definition EK_THREAD_DEATH :: u8 where "EK_THREAD_DEATH = 7"
definition EK_CLASS_PREPARE :: u8 where "EK_CLASS_PREPARE = 8"
definition EK_CLASS_UNLOAD :: u8 where "EK_CLASS_UNLOAD = 9"
definition EK_CLASS_LOAD :: u8 where "EK_CLASS_LOAD = 10"
definition EK_FIELD_ACCESS :: u8 where "EK_FIELD_ACCESS = 20"
definition EK_FIELD_MODIFICATION :: u8 where "EK_FIELD_MODIFICATION = 21"
definition EK_EXCEPTION_CATCH :: u8 where "EK_EXCEPTION_CATCH = 30"
definition EK_METHOD_ENTRY :: u8 where "EK_METHOD_ENTRY = 40"
definition EK_METHOD_EXIT :: u8 where "EK_METHOD_EXIT = 41"
definition EK_METHOD_EXIT_WITH_RETURN_VALUE :: u8 where "EK_METHOD_EXIT_WITH_RETURN_VALUE = 42"
definition EK_MONITOR_CONTENDED_ENTER :: u8 where "EK_MONITOR_CONTENDED_ENTER = 43"
definition EK_MONITOR_CONTENDED_ENTERED :: u8 where "EK_MONITOR_CONTENDED_ENTERED = 44"
definition EK_MONITOR_WAIT :: u8 where "EK_MONITOR_WAIT = 45"
definition EK_MONITOR_WAITED :: u8 where "EK_MONITOR_WAITED = 46"
definition EK_VM_START :: u8 where "EK_VM_START = 90"
definition EK_VM_DEATH :: u8 where "EK_VM_DEATH = 99"

text \<open>\<open>step_sizes\<close>\<close>

definition STEP_SIZE_MIN :: u32 where "STEP_SIZE_MIN = 0"
definition STEP_SIZE_LINE :: u32 where "STEP_SIZE_LINE = 1"

text \<open>\<open>step_depths\<close>\<close>

definition STEP_DEPTH_INTO :: u32 where "STEP_DEPTH_INTO = 0"
definition STEP_DEPTH_OVER :: u32 where "STEP_DEPTH_OVER = 1"
definition STEP_DEPTH_OUT :: u32 where "STEP_DEPTH_OUT = 2"

lemmas command_sets_defs =
  CS_VIRTUAL_MACHINE_def CS_REFERENCE_TYPE_def CS_CLASS_TYPE_def CS_METHOD_def
  CS_OBJECT_REFERENCE_def CS_STRING_REFERENCE_def CS_THREAD_REFERENCE_def CS_THREAD_GROUP_REFERENCE_def
  CS_ARRAY_REFERENCE_def CS_EVENT_REQUEST_def CS_STACK_FRAME_def

lemmas vm_commands_defs =
  VM_VERSION_def VM_CLASSES_BY_SIGNATURE_def VM_ALL_CLASSES_def VM_ALL_THREADS_def
  VM_TOP_LEVEL_THREAD_GROUPS_def VM_DISPOSE_def VM_ID_SIZES_def VM_SUSPEND_def
  VM_RESUME_def VM_EXIT_def VM_CREATE_STRING_def VM_CAPABILITIES_def
  VM_CLASS_PATHS_def VM_DISPOSE_OBJECTS_def VM_HOLD_EVENTS_def VM_RELEASE_EVENTS_def
  VM_CAPABILITIES_NEW_def VM_REDEFINE_CLASSES_def VM_INSTANCE_COUNTS_def

lemmas reference_type_commands_defs =
  RT_SIGNATURE_def RT_CLASS_LOADER_def RT_MODIFIERS_def RT_FIELDS_def
  RT_METHODS_def RT_GET_VALUES_def RT_SOURCE_FILE_def RT_NESTED_TYPES_def
  RT_STATUS_def RT_INTERFACES_def RT_CLASS_OBJECT_def RT_SOURCE_DEBUG_EXTENSION_def
  RT_SIGNATURE_WITH_GENERIC_def RT_FIELDS_WITH_GENERIC_def RT_METHODS_WITH_GENERIC_def RT_INSTANCES_def

lemmas method_commands_defs =
  M_LINE_TABLE_def M_VARIABLE_TABLE_def M_BYTECODES_def M_IS_OBSOLETE_def
  M_VARIABLE_TABLE_WITH_GENERIC_def

lemmas thread_commands_defs =
  T_NAME_def T_SUSPEND_def T_RESUME_def T_STATUS_def
  T_THREAD_GROUP_def T_FRAMES_def T_FRAME_COUNT_def T_OWNED_MONITORS_def
  T_CURRENT_CONTENDED_MONITOR_def T_STOP_def T_INTERRUPT_def T_SUSPEND_COUNT_def
  T_FORCE_EARLY_RETURN_def

lemmas event_commands_defs =
  ER_SET_def ER_CLEAR_def ER_CLEAR_ALL_BREAKPOINTS_def

lemmas string_reference_commands_defs =
  SR_VALUE_def

lemmas object_reference_commands_defs =
  OR_REFERENCE_TYPE_def OR_GET_VALUES_def OR_SET_VALUES_def OR_MONITOR_INFO_def
  OR_INVOKE_METHOD_def OR_DISABLE_COLLECTION_def OR_ENABLE_COLLECTION_def OR_IS_COLLECTED_def

lemmas stack_frame_commands_defs =
  SF_GET_VALUES_def SF_SET_VALUES_def SF_THIS_OBJECT_def SF_POP_FRAMES_def

lemmas event_kinds_defs =
  EK_SINGLE_STEP_def EK_BREAKPOINT_def EK_FRAME_POP_def EK_EXCEPTION_def
  EK_USER_DEFINED_def EK_THREAD_START_def EK_THREAD_DEATH_def EK_CLASS_PREPARE_def
  EK_CLASS_UNLOAD_def EK_CLASS_LOAD_def EK_FIELD_ACCESS_def EK_FIELD_MODIFICATION_def
  EK_EXCEPTION_CATCH_def EK_METHOD_ENTRY_def EK_METHOD_EXIT_def EK_METHOD_EXIT_WITH_RETURN_VALUE_def
  EK_MONITOR_CONTENDED_ENTER_def EK_MONITOR_CONTENDED_ENTERED_def EK_MONITOR_WAIT_def EK_MONITOR_WAITED_def
  EK_VM_START_def EK_VM_DEATH_def

lemmas step_sizes_defs =
  STEP_SIZE_MIN_def STEP_SIZE_LINE_def

lemmas step_depths_defs =
  STEP_DEPTH_INTO_def STEP_DEPTH_OVER_def STEP_DEPTH_OUT_def

lemmas command_defs = command_sets_defs vm_commands_defs reference_type_commands_defs method_commands_defs thread_commands_defs event_commands_defs string_reference_commands_defs object_reference_commands_defs stack_frame_commands_defs

end
