(* ===== verification/Events.thy ===== *)
theory Events
  imports Reader Commands
begin

text \<open>
  \<open>jdwp-client/src/events.rs\<close>: the composite event packet and its decoder. The encoder of this theory
  is the debuggee's side of the same layout, taken from the JDWP specification; the client has none.
\<close>

section \<open>Event data\<close>

record monitor_event =
  me_thread :: u64
  me_location :: location
  me_monitor :: u64

record field_event =
  fe_thread :: u64
  fe_location :: location
  fe_ref_type :: u64
  fe_field_id :: u64
  fe_object :: u64

datatype event_kind =
    Ev_VMStart u64
  | Ev_VMDeath
  | Ev_ThreadStart u64
  | Ev_ThreadDeath u64
  | Ev_ClassPrepare (cp_thread: u64) (cp_ref_type: u64) (cp_signature: string) (cp_status: u32)
  | Ev_Breakpoint u64 location
  | Ev_Step u64 location
  | Ev_Exception u64 location u64 "location option"
  | Ev_MethodExit u64 location "tagged_value option"
  | Ev_FieldAccess field_event
  | Ev_FieldModification field_event tagged_value
  | Ev_MonitorContendedEnter monitor_event
  | Ev_MonitorContendedEntered monitor_event
  | Ev_MonitorWait monitor_event u64
  | Ev_MonitorWaited monitor_event bool
  | Ev_Unknown u8

record event =
  ev_kind :: u8
  ev_request_id :: u32
  ev_details :: event_kind

record event_set =
  es_suspend_policy :: u8
  es_events :: "event list"

datatype event_modifier =
    Mod_Count u32
  | Mod_ThreadOnly u64
  | Mod_ClassOnly u64
  | Mod_ClassMatch string
  | Mod_ClassExclude string
  | Mod_LocationOnly location
  | Mod_ExceptionOnly u64 bool bool
  | Mod_FieldOnly u64 u64
  | Mod_Step u64 u32 u32
  | Mod_InstanceOnly u64

section \<open>Decoding\<close>

definition read_location :: "location reader" where
  "read_location =
     rbind read_u8 (\<lambda>tag. rbind read_u64 (\<lambda>cid. rbind read_u64 (\<lambda>mid. rbind read_u64 (\<lambda>ix.
     rreturn \<lparr>loc_type_tag = tag, loc_class_id = cid, loc_method_id = mid, loc_index = ix\<rparr>))))"

definition parse_thread_location :: "(u64 \<Rightarrow> location \<Rightarrow> event_kind) \<Rightarrow> event_kind reader" where
  "parse_thread_location k = rbind read_u64 (\<lambda>t. rbind read_location (\<lambda>l. rreturn (k t l)))"

definition parse_breakpoint_event :: "event_kind reader" where
  "parse_breakpoint_event = parse_thread_location Ev_Breakpoint"

definition parse_step_event :: "event_kind reader" where
  "parse_step_event = parse_thread_location Ev_Step"

definition parse_vm_start_event :: "event_kind reader" where
  "parse_vm_start_event = rmap Ev_VMStart read_u64"

definition parse_thread_start_event :: "event_kind reader" where
  "parse_thread_start_event = rmap Ev_ThreadStart read_u64"

definition parse_thread_death_event :: "event_kind reader" where
  "parse_thread_death_event = rmap Ev_ThreadDeath read_u64"

definition parse_class_prepare_event :: "event_kind reader" where
  "parse_class_prepare_event =
     rbind read_u64 (\<lambda>t. rbind read_u8 (\<lambda>_. rbind read_u64 (\<lambda>r. rbind read_string (\<lambda>s.
     rbind read_i32 (\<lambda>st. rreturn (Ev_ClassPrepare t r s st))))))"

definition parse_exception_event :: "event_kind reader" where
  "parse_exception_event =
     rbind read_u64 (\<lambda>t. rbind read_location (\<lambda>l. rbind read_u8 (\<lambda>_. rbind read_u64 (\<lambda>x.
     rbind read_location (\<lambda>catch.
     rreturn (Ev_Exception t l x
       (if loc_class_id catch = 0 \<and> loc_method_id catch = 0 \<and> loc_index catch = 0
        then None else Some catch)))))))"

definition parse_field_event_head :: "field_event reader" where
  "parse_field_event_head =
     rbind read_u64 (\<lambda>t. rbind read_location (\<lambda>l. rbind read_u8 (\<lambda>_. rbind read_u64 (\<lambda>r.
     rbind read_u64 (\<lambda>f. rbind read_u8 (\<lambda>_. rbind read_u64 (\<lambda>obj.
     rreturn \<lparr>fe_thread = t, fe_location = l, fe_ref_type = r, fe_field_id = f, fe_object = obj\<rparr>)))))))"

definition read_tagged_value :: "tagged_value reader" where
  "read_tagged_value =
     rbind read_u8 (\<lambda>tag. rbind (read_value_by_tag tag) (\<lambda>d. rreturn \<lparr>val_tag = tag, val_data = d\<rparr>))"

definition parse_field_access_event :: "event_kind reader" where
  "parse_field_access_event = rmap Ev_FieldAccess parse_field_event_head"

definition parse_field_modification_event :: "event_kind reader" where
  "parse_field_modification_event =
     rbind parse_field_event_head (\<lambda>f. rbind read_tagged_value (\<lambda>v. rreturn (Ev_FieldModification f v)))"

definition parse_monitor_event_head :: "monitor_event reader" where
  "parse_monitor_event_head =
     rbind read_u64 (\<lambda>t. rbind read_u8 (\<lambda>_. rbind read_u64 (\<lambda>m. rbind read_location (\<lambda>l.
     rreturn \<lparr>me_thread = t, me_location = l, me_monitor = m\<rparr>))))"

definition parse_monitor_wait_event :: "event_kind reader" where
  "parse_monitor_wait_event =
     rbind parse_monitor_event_head (\<lambda>m. rbind read_i64 (\<lambda>t. rreturn (Ev_MonitorWait m t)))"

definition parse_monitor_waited_event :: "event_kind reader" where
  "parse_monitor_waited_event =
     rbind parse_monitor_event_head (\<lambda>m. rbind read_u8 (\<lambda>b. rreturn (Ev_MonitorWaited m (b \<noteq> 0))))"

definition parse_method_exit_event :: "bool \<Rightarrow> event_kind reader" where
  "parse_method_exit_event with_return_value =
     rbind read_u64 (\<lambda>t. rbind read_location (\<lambda>l.
     if with_return_value
     then rbind read_tagged_value (\<lambda>v. rreturn (Ev_MethodExit t l (Some v)))
     else rreturn (Ev_MethodExit t l None)))"

definition parse_vm_lifecycle_event :: "u8 \<Rightarrow> event_kind reader option" where
  "parse_vm_lifecycle_event kind =
     (if kind = EK_VM_START then Some parse_vm_start_event
      else if kind = EK_VM_DEATH then Some (rreturn Ev_VMDeath)
      else if kind = EK_THREAD_START then Some parse_thread_start_event
      else if kind = EK_THREAD_DEATH then Some parse_thread_death_event
      else if kind = EK_CLASS_PREPARE then Some parse_class_prepare_event
      else None)"

definition parse_monitor_event :: "u8 \<Rightarrow> event_kind reader option" where
  "parse_monitor_event kind =
     (if kind = EK_MONITOR_CONTENDED_ENTER then Some (rmap Ev_MonitorContendedEnter parse_monitor_event_head)
      else if kind = EK_MONITOR_CONTENDED_ENTERED then Some (rmap Ev_MonitorContendedEntered parse_monitor_event_head)
      else if kind = EK_MONITOR_WAIT then Some parse_monitor_wait_event
      else if kind = EK_MONITOR_WAITED then Some parse_monitor_waited_event
      else None)"

definition parse_event_details :: "u8 \<Rightarrow> event_kind reader" where
  "parse_event_details kind =
     (case parse_vm_lifecycle_event kind of
        Some parsed \<Rightarrow> parsed
      | None \<Rightarrow>
         (case parse_monitor_event kind of
            Some parsed \<Rightarrow> parsed
          | None \<Rightarrow>
             (if kind = EK_BREAKPOINT then parse_breakpoint_event
              else if kind = EK_SINGLE_STEP then parse_step_event
              else if kind = EK_EXCEPTION then parse_exception_event
              else if kind = EK_FIELD_ACCESS then parse_field_access_event
              else if kind = EK_FIELD_MODIFICATION then parse_field_modification_event
              else if kind = EK_METHOD_EXIT then parse_method_exit_event False
              else if kind = EK_METHOD_EXIT_WITH_RETURN_VALUE then parse_method_exit_event True
              else rreturn (Ev_Unknown kind))))"

definition parse_event :: "event reader" where
  "parse_event =
     rbind read_u8 (\<lambda>kind. rbind read_i32 (\<lambda>rid. rbind (parse_event_details kind) (\<lambda>d.
     rreturn \<lparr>ev_kind = kind, ev_request_id = rid, ev_details = d\<rparr>)))"

definition parse_event_set :: "event_set reader" where
  "parse_event_set =
     rbind read_u8 (\<lambda>sp. rbind read_i32 (\<lambda>count. rbind (read_n (i32_count count) parse_event) (\<lambda>evs.
     rreturn \<lparr>es_suspend_policy = sp, es_events = evs\<rparr>)))"

definition parse_event_packet :: "bytes \<Rightarrow> event_set jdwp_result" where
  "parse_event_packet data = run_reader parse_event_set data"

section \<open>The debuggee's encoder\<close>

definition put_location :: "location \<Rightarrow> bytes" where
  "put_location l =
     [loc_type_tag l] @ put_be 8 (loc_class_id l) @ put_be 8 (loc_method_id l) @ put_be 8 (loc_index l)"

definition put_tagged_value :: "tagged_value \<Rightarrow> bytes" where
  "put_tagged_value v = [val_tag v] @ put_value (val_data v)"

definition put_field_event :: "field_event \<Rightarrow> bytes" where
  "put_field_event f =
     put_be 8 (fe_thread f) @ put_location (fe_location f) @ [1] @ put_be 8 (fe_ref_type f)
     @ put_be 8 (fe_field_id f) @ [TAG_OBJECT] @ put_be 8 (fe_object f)"

definition put_monitor_event :: "monitor_event \<Rightarrow> bytes" where
  "put_monitor_event m =
     put_be 8 (me_thread m) @ [TAG_OBJECT] @ put_be 8 (me_monitor m) @ put_location (me_location m)"

definition no_location :: location where
  "no_location = \<lparr>loc_type_tag = 0, loc_class_id = 0, loc_method_id = 0, loc_index = 0\<rparr>"

fun put_event_kind :: "event_kind \<Rightarrow> bytes" where
  "put_event_kind (Ev_VMStart t) = put_be 8 t"
| "put_event_kind Ev_VMDeath = []"
| "put_event_kind (Ev_ThreadStart t) = put_be 8 t"
| "put_event_kind (Ev_ThreadDeath t) = put_be 8 t"
| "put_event_kind (Ev_ClassPrepare t r s st) =
     put_be 8 t @ [1] @ put_be 8 r @ put_string s @ put_be 4 st"
| "put_event_kind (Ev_Breakpoint t l) = put_be 8 t @ put_location l"
| "put_event_kind (Ev_Step t l) = put_be 8 t @ put_location l"
| "put_event_kind (Ev_Exception t l x c) =
     put_be 8 t @ put_location l @ [TAG_OBJECT] @ put_be 8 x
     @ put_location (case c of None \<Rightarrow> no_location | Some l' \<Rightarrow> l')"
| "put_event_kind (Ev_MethodExit t l v) =
     put_be 8 t @ put_location l @ (case v of None \<Rightarrow> [] | Some v' \<Rightarrow> put_tagged_value v')"
| "put_event_kind (Ev_FieldAccess f) = put_field_event f"
| "put_event_kind (Ev_FieldModification f v) = put_field_event f @ put_tagged_value v"
| "put_event_kind (Ev_MonitorContendedEnter m) = put_monitor_event m"
| "put_event_kind (Ev_MonitorContendedEntered m) = put_monitor_event m"
| "put_event_kind (Ev_MonitorWait m t) = put_monitor_event m @ put_be 8 t"
| "put_event_kind (Ev_MonitorWaited m b) = put_monitor_event m @ [if b then 1 else 0]"
| "put_event_kind (Ev_Unknown k) = []"

definition put_event :: "event \<Rightarrow> bytes" where
  "put_event e = [ev_kind e] @ put_be 4 (ev_request_id e) @ put_event_kind (ev_details e)"

definition put_event_set :: "event_set \<Rightarrow> bytes" where
  "put_event_set s =
     [es_suspend_policy s] @ put_be 4 (word_of_nat (length (es_events s)) :: u32)
     @ concat (map put_event (es_events s))"

text \<open>The event a kind byte announces, with a payload the encoder can write without loss.\<close>

definition value_ok :: "tagged_value \<Rightarrow> bool" where
  "value_ok v = tag_fits (val_tag v) (val_data v)"

definition known_kinds :: "u8 list" where
  "known_kinds = [EK_SINGLE_STEP, EK_BREAKPOINT, EK_EXCEPTION, EK_THREAD_START, EK_THREAD_DEATH,
     EK_CLASS_PREPARE, EK_FIELD_ACCESS, EK_FIELD_MODIFICATION, EK_METHOD_EXIT,
     EK_METHOD_EXIT_WITH_RETURN_VALUE, EK_MONITOR_CONTENDED_ENTER, EK_MONITOR_CONTENDED_ENTERED,
     EK_MONITOR_WAIT, EK_MONITOR_WAITED, EK_VM_START, EK_VM_DEATH]"

fun kind_ok :: "u8 \<Rightarrow> event_kind \<Rightarrow> bool" where
  "kind_ok k (Ev_VMStart _) = (k = EK_VM_START)"
| "kind_ok k Ev_VMDeath = (k = EK_VM_DEATH)"
| "kind_ok k (Ev_ThreadStart _) = (k = EK_THREAD_START)"
| "kind_ok k (Ev_ThreadDeath _) = (k = EK_THREAD_DEATH)"
| "kind_ok k (Ev_ClassPrepare _ _ s _) = (k = EK_CLASS_PREPARE \<and> text_ok s)"
| "kind_ok k (Ev_Breakpoint _ _) = (k = EK_BREAKPOINT)"
| "kind_ok k (Ev_Step _ _) = (k = EK_SINGLE_STEP)"
| "kind_ok k (Ev_Exception _ _ _ c) =
     (k = EK_EXCEPTION \<and> (case c of None \<Rightarrow> True
        | Some l \<Rightarrow> \<not> (loc_class_id l = 0 \<and> loc_method_id l = 0 \<and> loc_index l = 0)))"
| "kind_ok k (Ev_MethodExit _ _ v) =
     (case v of None \<Rightarrow> k = EK_METHOD_EXIT
              | Some v' \<Rightarrow> k = EK_METHOD_EXIT_WITH_RETURN_VALUE \<and> value_ok v')"
| "kind_ok k (Ev_FieldAccess _) = (k = EK_FIELD_ACCESS)"
| "kind_ok k (Ev_FieldModification _ v) = (k = EK_FIELD_MODIFICATION \<and> value_ok v)"
| "kind_ok k (Ev_MonitorContendedEnter _) = (k = EK_MONITOR_CONTENDED_ENTER)"
| "kind_ok k (Ev_MonitorContendedEntered _) = (k = EK_MONITOR_CONTENDED_ENTERED)"
| "kind_ok k (Ev_MonitorWait _ _) = (k = EK_MONITOR_WAIT)"
| "kind_ok k (Ev_MonitorWaited _ _) = (k = EK_MONITOR_WAITED)"
| "kind_ok k (Ev_Unknown k') = (k' = k \<and> k \<notin> set known_kinds)"

definition event_ok :: "event \<Rightarrow> bool" where
  "event_ok e = kind_ok (ev_kind e) (ev_details e)"

definition event_set_ok :: "event_set \<Rightarrow> bool" where
  "event_set_ok s = (length (es_events s) < 2 ^ 31 \<and> list_all event_ok (es_events s))"

section \<open>Correctness of the decoder\<close>

lemma framed_read_location [framed_intros]: "framed read_location"
  unfolding read_location_def by (intro framed_intros)

lemma framed_read_tagged_value [framed_intros]: "framed read_tagged_value"
  unfolding read_tagged_value_def by (intro framed_intros)

lemma framed_heads [framed_intros]: "framed parse_field_event_head" "framed parse_monitor_event_head"
  unfolding parse_field_event_head_def parse_monitor_event_head_def by (intro framed_intros)+

lemma framed_event_parsers [framed_intros]:
  "framed parse_vm_start_event" "framed parse_thread_start_event" "framed parse_thread_death_event"
  "framed parse_class_prepare_event" "framed parse_monitor_wait_event" "framed parse_monitor_waited_event"
  "framed parse_breakpoint_event" "framed parse_step_event" "framed parse_exception_event"
  "framed parse_field_access_event" "framed parse_field_modification_event"
  "framed (parse_method_exit_event b)"
  unfolding parse_vm_start_event_def parse_thread_start_event_def parse_thread_death_event_def
    parse_class_prepare_event_def parse_monitor_wait_event_def parse_monitor_waited_event_def
    parse_breakpoint_event_def parse_step_event_def parse_exception_event_def
    parse_field_access_event_def parse_field_modification_event_def parse_method_exit_event_def
    parse_thread_location_def
  by (intro framed_intros)+

lemma framed_groups:
  "parse_vm_lifecycle_event kind = Some p \<Longrightarrow> framed p"
  "parse_monitor_event kind = Some p \<Longrightarrow> framed p"
  by (auto simp: parse_vm_lifecycle_event_def parse_monitor_event_def split: if_splits intro!: framed_intros)

lemma framed_event_details [framed_intros]: "framed (parse_event_details kind)"
proof (cases "parse_vm_lifecycle_event kind")
  case None
  show ?thesis
  proof (cases "parse_monitor_event kind")
    assume "parse_monitor_event kind = None"
    with None show ?thesis
      unfolding parse_event_details_def by (simp only: option.case) (intro framed_intros)
  qed (use None in \<open>auto simp: parse_event_details_def intro: framed_groups\<close>)
qed (auto simp: parse_event_details_def intro: framed_groups)

lemma framed_parse_event [framed_intros]: "framed parse_event"
  unfolding parse_event_def by (intro framed_intros)

lemma framed_parse_event_set: "framed parse_event_set"
  unfolding parse_event_set_def by (intro framed_intros)

lemma read_location_put [wire_simps]: "read_location (put_location l @ rest) = Inr (l, rest)"
  by (simp add: read_location_def put_location_def wire_simps rreturn_def)

lemma read_tagged_value_put [wire_simps]:
  "value_ok v \<Longrightarrow> read_tagged_value (put_tagged_value v @ rest) = Inr (v, rest)"
  by (simp add: read_tagged_value_def put_tagged_value_def value_ok_def wire_simps rreturn_def)

lemma parse_heads_put [wire_simps]:
  "parse_field_event_head (put_field_event f @ rest) = Inr (f, rest)"
  "parse_monitor_event_head (put_monitor_event m @ rest) = Inr (m, rest)"
  by (simp_all add: parse_field_event_head_def put_field_event_def parse_monitor_event_head_def
      put_monitor_event_def wire_simps rreturn_def)

lemmas event_parser_defs =
  parse_event_details_def parse_vm_lifecycle_event_def parse_monitor_event_def event_kinds_defs
  parse_vm_start_event_def parse_thread_start_event_def parse_thread_death_event_def
  parse_class_prepare_event_def parse_monitor_wait_event_def parse_monitor_waited_event_def
  parse_breakpoint_event_def parse_step_event_def parse_exception_event_def
  parse_field_access_event_def parse_field_modification_event_def parse_method_exit_event_def
  parse_thread_location_def

lemma parse_event_details_put [wire_simps]:
  "kind_ok k d \<Longrightarrow> parse_event_details k (put_event_kind d @ rest) = Inr (d, rest)"
  by (cases d)
    (auto simp: event_parser_defs wire_simps rmap_Inr rreturn_def no_location_def known_kinds_def
      split: option.splits)

lemma parse_event_put [wire_simps]: "event_ok e \<Longrightarrow> parse_event (put_event e @ rest) = Inr (e, rest)"
  by (simp add: parse_event_def put_event_def event_ok_def wire_simps rreturn_def)

interpretation codec_location: wire_codec put_location read_location "\<lambda>_. True"
  by unfold_locales (simp_all add: wire_simps framed_intros)

interpretation codec_tagged_value: wire_codec put_tagged_value read_tagged_value value_ok
  by unfold_locales (simp_all add: wire_simps framed_intros)

interpretation codec_event: wire_codec put_event parse_event event_ok
  by unfold_locales (simp_all add: wire_simps framed_intros)

lemma i32_count_of_nat [simp]: "n < 2 ^ 31 \<Longrightarrow> i32_count (word_of_nat n) = n"
  by (simp add: i32_count_def signed_of_nat signed_take_bit_int_eq_self)

interpretation codec_event_set: wire_codec put_event_set parse_event_set event_set_ok
proof unfold_locales
  fix s rest assume ok: "event_set_ok s"
  then have "read_n (length (es_events s)) parse_event (concat (map put_event (es_events s)) @ rest)
      = Inr (es_events s, rest)"
    by (intro codec_event.get_put_list) (simp add: event_set_ok_def list_all_iff)
  then show "parse_event_set (put_event_set s @ rest) = Inr (s, rest)"
    using ok by (simp add: parse_event_set_def put_event_set_def event_set_ok_def wire_simps rreturn_def)
qed (rule framed_parse_event_set)

end
