(* ===== verification/EventLoop.thy ===== *)
theory EventLoop
  imports Events "HOL-Library.Multiset"
begin

text \<open>
  \<open>jdwp-client/src/eventloop.rs\<close>: reading packets off the socket, the table of pending replies, the
  event queue, and the life of a command from \<open>issue\<close> to its reply. The socket is the list of bytes
  still to come, followed by the I/O error the read then reports; a oneshot channel is the position
  of its command in the list of issued commands; time is in milliseconds.
\<close>

section \<open>Reading packets\<close>

definition MAX_PACKET_SIZE :: nat where
  "MAX_PACKET_SIZE = 10 * 1024 * 1024"

definition FOREIGN_BYTES_QUOTED :: nat where
  "FOREIGN_BYTES_QUOTED = 64"

text \<open>\<open>chunks\<close> holds how many bytes each further \<open>read\<close> obtains before the deadline; the list ends
  when a read times out or fails, and a read of nothing is the end of the stream.\<close>

primrec collect_foreign :: "nat list \<Rightarrow> bytes \<Rightarrow> bytes \<Rightarrow> bytes" where
  "collect_foreign [] seen rest = seen"
| "collect_foreign (n # ns) seen rest =
     (if length seen < FOREIGN_BYTES_QUOTED
      then let want = min (FOREIGN_BYTES_QUOTED - length seen) 32;
               got = take (min n want) rest
           in if got = [] then seen else collect_foreign ns (seen @ got) (drop (length got) rest)
      else seen)"

definition printable :: "u8 \<Rightarrow> bool" where
  "printable b = (0x20 \<le> b \<and> b < 0x7F)"

definition hex2 :: "u8 \<Rightarrow> string" where
  "hex2 b = pad_left 2 (CHR ''0'') (show_hex (unat b))"

fun join_with :: "string \<Rightarrow> string list \<Rightarrow> string" where
  "join_with sep [] = []"
| "join_with sep [s] = s"
| "join_with sep (s # t # ts) = s @ sep @ join_with sep (t # ts)"

text \<open>\<open>{:?}\<close> of a printable ASCII string.\<close>

definition debug_printable :: "bytes \<Rightarrow> string" where
  "debug_printable bs =
     [CHR 0x22] @ concat (map (\<lambda>b. if byte_char b = CHR 0x22 \<or> byte_char b = CHR 0x5C
                            then [CHR 0x5C, byte_char b] else [byte_char b]) bs) @ [CHR 0x22]"

definition em_dash :: string where
  "em_dash = bytes_string [0xE2, 0x80, 0x94]"

definition describe_foreign_bytes :: "nat list \<Rightarrow> bytes \<Rightarrow> bytes \<Rightarrow> string \<Rightarrow> string" where
  "describe_foreign_bytes chunks rest header why =
     (let seen = collect_foreign chunks header rest;
          hex = join_with '' '' (map hex2 seen);
          txt = map (\<lambda>b. if printable b then byte_char b else CHR ''.'') seen;
          len_bytes = take 4 header;
          as_text = (if list_all printable len_bytes
                     then '' The length field's four bytes are the printable text '' @ debug_printable len_bytes
                          @ '', so this is text, not a size.''
                     else [])
      in why @ ''.'' @ as_text @ '' '' @ show_nat (length seen)
         @ '' byte(s) read at the header position: hex ['' @ hex @ ''] text '' @ [CHR 0x22] @ txt @ [CHR 0x22]
         @ ''. The connection cannot be resynchronised '' @ em_dash
         @ '' JDWP has no frame delimiter to seek to '' @ em_dash
         @ '' so the session ends here. If the text names a protocol or a path, something other than this JVM's JDWP agent is on that socket.'')"

type_synonym packet = "bool \<times> u32 \<times> bytes"

definition flags_are_jdwp :: "u8 \<Rightarrow> bool" where
  "flags_are_jdwp f = (f = 0 \<or> f = REPLY_FLAG)"

definition read_packet :: "string \<Rightarrow> nat list \<Rightarrow> bytes \<Rightarrow> jdwp_error + packet \<times> bytes" where
  "read_packet eof chunks stream =
     (if length stream < HEADER_SIZE then Inl (Io eof)
      else
        let header = take HEADER_SIZE stream;
            rest = drop HEADER_SIZE stream;
            len = unat (get_be (take 4 header) :: u32);
            packet_id = get_be (take 4 (drop 4 header)) :: u32;
            flags = header ! 8
        in if \<not> flags_are_jdwp flags \<or> \<not> (HEADER_SIZE \<le> len \<and> len \<le> MAX_PACKET_SIZE)
           then let why =
                  (if \<not> flags_are_jdwp flags
                   then ''flags byte is 0x'' @ hex2 flags @ '', and JDWP defines only 0x00 (command) and 0x80 (reply)''
                   else if len < HEADER_SIZE
                   then ''length field is '' @ show_nat len @ '', below the '' @ show_nat HEADER_SIZE
                        @ ''-byte header it must include''
                   else ''length field is '' @ show_nat len @ '', above the '' @ show_nat MAX_PACKET_SIZE @ ''-byte cap'')
                in Inl (NotJdwpFramed (describe_foreign_bytes chunks rest header why))
           else let data_len = len - HEADER_SIZE
                in if length rest < data_len then Inl (Io eof)
                   else Inr ((flags = REPLY_FLAG, packet_id, header @ take data_len rest), drop data_len rest))"

lemma read_packet_shorter: "read_packet eof chunks bs = Inr (p, rest) \<Longrightarrow> length rest < length bs"
  by (auto simp: read_packet_def Let_def HEADER_SIZE_def split: if_splits)

text \<open>The reader task: what it sends over its channel, ending with the first error.\<close>

function packet_stream :: "string \<Rightarrow> nat list \<Rightarrow> bytes \<Rightarrow> packet jdwp_result list" where
  "packet_stream eof chunks bs =
     (case read_packet eof chunks bs of
        Inl e \<Rightarrow> [Inl e]
      | Inr (p, rest) \<Rightarrow> Inr p # packet_stream eof chunks rest)"
  by pat_completeness auto
termination
  by (relation "measure (\<lambda>(_, _, bs). length bs)") (auto dest: read_packet_shorter)

declare packet_stream.simps [simp del]

text \<open>What the rest of the loop may rely on about a packet that was read.\<close>

definition packet_ok :: "packet \<Rightarrow> bool" where
  "packet_ok p =
     (case p of (is_reply, i, data) \<Rightarrow>
        HEADER_SIZE \<le> length data \<and> length data \<le> MAX_PACKET_SIZE
        \<and> unat (get_be (take 4 data) :: u32) = length data
        \<and> get_be (take 4 (drop 4 data)) = i
        \<and> data ! 8 = (if is_reply then REPLY_FLAG else 0))"

lemma take_take_drop: "k \<le> n \<Longrightarrow> take k bs @ take (n - k) (drop k bs) @ drop n bs = bs"
  by (metis append_assoc append_take_drop_id le_add_diff_inverse take_add)

lemma read_packet_ok:
  assumes "read_packet eof chunks bs = Inr (p, rest)"
  shows "packet_ok p" "bs = snd (snd p) @ rest"
  using assms
  by (auto simp: read_packet_def packet_ok_def Let_def HEADER_SIZE_def flags_are_jdwp_def min_def
      nth_append drop_take take_take_drop split: if_splits)

lemma read_packet_frame:
  assumes "packet_ok (r, i, data)"
  shows "read_packet eof chunks (data @ rest) = Inr ((r, i, data), rest)"
proof -
  have "flags_are_jdwp (data ! 8)" "REPLY_FLAG \<noteq> 0"
    using assms by (auto simp: packet_ok_def flags_are_jdwp_def REPLY_FLAG_def)
  then show ?thesis
    using assms
    by (auto simp: read_packet_def packet_ok_def Let_def HEADER_SIZE_def drop_take split: if_splits)
qed

lemma packet_stream_frame:
  "packet_ok (r, i, data) \<Longrightarrow>
     packet_stream eof chunks (data @ rest) = Inr (r, i, data) # packet_stream eof chunks rest"
  by (subst packet_stream.simps) (simp add: read_packet_frame)

lemma packet_stream_Nil: "packet_stream eof chunks [] = [Inl (Io eof)]"
  by (subst packet_stream.simps) (simp add: read_packet_def HEADER_SIZE_def)

lemma packet_stream_frames:
  "\<forall>p\<in>set ps. packet_ok p \<Longrightarrow>
     packet_stream eof chunks (concat (map (\<lambda>p. snd (snd p)) ps) @ rest)
       = map Inr ps @ packet_stream eof chunks rest"
  by (induction ps) (auto simp: packet_stream_frame)

lemma packet_stream_shape:
  "\<exists>ps e. packet_stream eof chunks bs = map Inr ps @ [Inl e] \<and> (\<forall>p\<in>set ps. packet_ok p)
     \<and> (\<exists>rest. bs = concat (map (\<lambda>p. snd (snd p)) ps) @ rest)"
proof (induction eof chunks bs rule: packet_stream.induct)
  case (1 eof chunks bs)
  show ?case
  proof (cases "read_packet eof chunks bs")
    case (Inl e)
    then have "packet_stream eof chunks bs = map Inr [] @ [Inl e]"
      by (subst packet_stream.simps) simp
    then show ?thesis by (intro exI [of _ "[]"]) auto
  next
    case (Inr pr)
    obtain p rest where pr: "pr = (p, rest)" by (cases pr)
    obtain ps e rest' where IH: "packet_stream eof chunks rest = map Inr ps @ [Inl e]"
      "\<forall>p\<in>set ps. packet_ok p" "rest = concat (map (\<lambda>p. snd (snd p)) ps) @ rest'"
      using 1 Inr pr by metis
    have "packet_stream eof chunks bs = map Inr (p # ps) @ [Inl e]"
      by (subst packet_stream.simps) (simp add: Inr pr IH(1))
    moreover have "packet_ok p" "bs = snd (snd p) @ rest"
      using read_packet_ok Inr pr by auto
    ultimately show ?thesis using IH(2,3)
      by (intro exI [of _ "p # ps"]) auto
  qed
qed

text \<open>A reply the debuggee encodes is one frame.\<close>

lemma encode_reply_packet_ok:
  assumes "HEADER_SIZE + length (rp_data p) \<le> MAX_PACKET_SIZE"
  shows "packet_ok (True, rp_id p, encode_reply p)"
  using assms
  by (simp add: packet_ok_def encode_reply_fields unat_u32_try_or_max)
    (simp add: HEADER_SIZE_def MAX_PACKET_SIZE_def)

section \<open>The loop's state and its handlers\<close>

definition COMMAND_CHANNEL_DEPTH :: nat where "COMMAND_CHANNEL_DEPTH = 32"
definition EVENT_CHANNEL_DEPTH :: nat where "EVENT_CHANNEL_DEPTH = 256"
definition REPLY_TIMEOUT_SECS :: u64 where "REPLY_TIMEOUT_SECS = 30"

text \<open>
  A pending entry holds the reply channel and the instant the command was written. \<open>ls_answers\<close> and
  \<open>ls_dropped\<close> log the fate of the reply channels: a value was sent, or the sender was dropped
  without one. \<open>ls_issued\<close>, \<open>ls_written\<close> and \<open>ls_failed\<close> are ghosts: every command ever queued, the
  channels of those written, and those whose write failed with its error, each in order.
\<close>

record pending_reply =
  pr_sender :: nat
  pr_sent_at :: nat

record loop_state =
  ls_queue :: "(command_packet \<times> nat) list"
  ls_pending :: "(u32 \<times> pending_reply) list"
  ls_answers :: "(nat \<times> reply_packet jdwp_result) list"
  ls_dropped :: "nat list"
  ls_events :: "event_set list"
  ls_consumer_alive :: bool
  ls_shutdown :: "string option"
  ls_now :: nat
  ls_issued :: "command_packet list"
  ls_written :: "nat list"
  ls_failed :: "(nat \<times> string) list"

definition loop_init :: loop_state where
  "loop_init = \<lparr>ls_queue = [], ls_pending = [], ls_answers = [], ls_dropped = [], ls_events = [],
     ls_consumer_alive = True, ls_shutdown = None, ls_now = 0, ls_issued = [], ls_written = [],
     ls_failed = []\<rparr>"

definition assoc_remove :: "'k \<Rightarrow> ('k \<times> 'v) list \<Rightarrow> ('k \<times> 'v) list" where
  "assoc_remove k xs = filter (\<lambda>(k', _). k' \<noteq> k) xs"

definition answer :: "nat \<Rightarrow> reply_packet jdwp_result \<Rightarrow> loop_state \<Rightarrow> loop_state" where
  "answer ch r st = st\<lparr>ls_answers := ls_answers st @ [(ch, r)]\<rparr>"

text \<open>\<open>HashMap::insert\<close> over an occupied key drops the sender that was there.\<close>

definition pending_insert :: "u32 \<Rightarrow> pending_reply \<Rightarrow> loop_state \<Rightarrow> loop_state" where
  "pending_insert k pr st =
     st\<lparr>ls_pending := (k, pr) # assoc_remove k (ls_pending st),
        ls_dropped := ls_dropped st @ (case map_of (ls_pending st) k of None \<Rightarrow> [] | Some old \<Rightarrow> [pr_sender old])\<rparr>"

definition lost :: "loop_state \<Rightarrow> string \<Rightarrow> jdwp_error" where
  "lost st what =
     (case ls_shutdown st of
        None \<Rightarrow> Protocol (''the event loop stopped without recording a reason, and '' @ what)
      | Some cause \<Rightarrow> ConnectionClosed cause)"

definition issue :: "command_packet \<Rightarrow> loop_state \<Rightarrow> nat jdwp_result \<times> loop_state" where
  "issue p st =
     (if ls_shutdown st \<noteq> None then (Inl (lost st ''the command was never sent''), st)
      else let ch = length (ls_issued st)
           in (Inr ch, st\<lparr>ls_queue := ls_queue st @ [(p, ch)], ls_issued := ls_issued st @ [p]\<rparr>))"

text \<open>\<open>InFlight::reply\<close>: \<open>None\<close> while the reply is still awaited.\<close>

definition reply_of :: "nat \<Rightarrow> loop_state \<Rightarrow> reply_packet jdwp_result option" where
  "reply_of ch st =
     (case map_of (ls_answers st) ch of
        Some r \<Rightarrow> Some r
      | None \<Rightarrow> if ch \<in> set (ls_dropped st)
                then Some (Inl (lost st ''the command was sent and its reply was dropped''))
                else None)"

text \<open>\<open>written\<close> and \<open>flushed\<close> are the outcomes of the two socket operations: the I/O error, if any.\<close>

definition handle_outgoing_command ::
  "string option \<Rightarrow> string option \<Rightarrow> command_packet \<times> nat \<Rightarrow> loop_state \<Rightarrow> loop_state" where
  "handle_outgoing_command written flushed cmd st =
     (case written of
        Some e \<Rightarrow> answer (snd cmd) (Inl (Io e)) (st\<lparr>ls_failed := ls_failed st @ [(snd cmd, e)]\<rparr>)
      | None \<Rightarrow>
         (case flushed of
            Some e \<Rightarrow> answer (snd cmd) (Inl (Io e)) (st\<lparr>ls_failed := ls_failed st @ [(snd cmd, e)]\<rparr>)
          | None \<Rightarrow>
              pending_insert (cp_id (fst cmd)) \<lparr>pr_sender = snd cmd, pr_sent_at = ls_now st\<rparr>
                (st\<lparr>ls_written := ls_written st @ [snd cmd]\<rparr>)))"

definition lapsed :: "nat \<Rightarrow> pending_reply \<Rightarrow> bool" where
  "lapsed now pr = (unat REPLY_TIMEOUT_SECS * 1000 < now - pr_sent_at pr)"

definition expire :: "u32 \<Rightarrow> loop_state \<Rightarrow> loop_state" where
  "expire k st =
     (case map_of (ls_pending st) k of
        None \<Rightarrow> st
      | Some pr \<Rightarrow> answer (pr_sender pr) (Inl (ReplyTimeout REPLY_TIMEOUT_SECS))
                    (st\<lparr>ls_pending := assoc_remove k (ls_pending st)\<rparr>))"

definition cleanup_pending_replies :: "loop_state \<Rightarrow> loop_state" where
  "cleanup_pending_replies st =
     fold expire (map fst (filter (\<lambda>(_, pr). lapsed (ls_now st) pr) (ls_pending st))) st"

definition route_reply :: "u32 \<Rightarrow> bytes \<Rightarrow> loop_state \<Rightarrow> loop_state" where
  "route_reply packet_id data st =
     (case map_of (ls_pending st) packet_id of
        None \<Rightarrow> st
      | Some pr \<Rightarrow> answer (pr_sender pr) (decode_reply data)
                    (st\<lparr>ls_pending := assoc_remove packet_id (ls_pending st)\<rparr>))"

definition handle_event_packet :: "bytes \<Rightarrow> loop_state \<Rightarrow> string option \<times> loop_state" where
  "handle_event_packet data st =
     (case parse_event_packet (drop HEADER_SIZE data) of
        Inl e \<Rightarrow> (None, st)
      | Inr es \<Rightarrow>
          if \<not> ls_consumer_alive st
          then (Some ''the event consumer was dropped, so the session was torn down'', st)
          else if length (ls_events st) < EVENT_CHANNEL_DEPTH
          then (None, st\<lparr>ls_events := ls_events st @ [es]\<rparr>)
          else (None, st))"

definition handle_incoming_packet :: "packet jdwp_result \<Rightarrow> loop_state \<Rightarrow> string option \<times> loop_state" where
  "handle_incoming_packet result st =
     (case result of
        Inr (is_reply, packet_id, data) \<Rightarrow>
          if is_reply then (None, route_reply packet_id data st) else handle_event_packet data st
      | Inl e \<Rightarrow> (Some (''reading from the debuggee failed: '' @ show_jdwp_error e), st))"

text \<open>Leaving the loop: the cause is recorded first, then the pending senders and the queued requests
  are dropped.\<close>

definition shut_down :: "string \<Rightarrow> loop_state \<Rightarrow> loop_state" where
  "shut_down cause st =
     st\<lparr>ls_shutdown := Some cause,
        ls_dropped := ls_dropped st @ map (\<lambda>(_, pr). pr_sender pr) (ls_pending st) @ map snd (ls_queue st),
        ls_pending := [], ls_queue := []\<rparr>"

definition handle_packet :: "packet jdwp_result option \<Rightarrow> loop_state \<Rightarrow> loop_state" where
  "handle_packet received st =
     (case received of
        None \<Rightarrow> shut_down ''the packet reader stopped without reporting a reason'' st
      | Some result \<Rightarrow>
         (case handle_incoming_packet result st of
            (None, st') \<Rightarrow> st'
          | (Some cause, st') \<Rightarrow> shut_down cause st'))"

definition try_recv_event :: "loop_state \<Rightarrow> event_set option \<times> loop_state" where
  "try_recv_event st =
     (case ls_events st of [] \<Rightarrow> (None, st) | e # es \<Rightarrow> (Some e, st\<lparr>ls_events := es\<rparr>))"

section \<open>Steps of the running loop\<close>

definition outstanding :: "loop_state \<Rightarrow> u32 set" where
  "outstanding st = fst ` set (ls_pending st) \<union> (cp_id \<circ> fst) ` set (ls_queue st)"

text \<open>
  One step of the system around the loop: a client queues a command (waiting while the channel is
  full), a branch of the loop's \<open>select!\<close> runs, time passes, or the consumer takes an event or goes
  away. With \<open>uniq\<close>, clients use an id that no outstanding command has.
\<close>

inductive loop_step :: "bool \<Rightarrow> loop_state \<Rightarrow> loop_state \<Rightarrow> bool" for uniq where
  step_issue: "\<lbrakk>length (ls_queue st) < COMMAND_CHANNEL_DEPTH; uniq \<Longrightarrow> cp_id p \<notin> outstanding st\<rbrakk>
     \<Longrightarrow> loop_step uniq st (snd (issue p st))"
| step_outgoing: "\<lbrakk>ls_shutdown st = None; ls_queue st = cmd # q\<rbrakk>
     \<Longrightarrow> loop_step uniq st (handle_outgoing_command w f cmd (st\<lparr>ls_queue := q\<rparr>))"
| step_cleanup: "ls_shutdown st = None \<Longrightarrow> loop_step uniq st (cleanup_pending_replies st)"
| step_packet: "\<lbrakk>ls_shutdown st = None; \<And>p. received = Some (Inr p) \<Longrightarrow> packet_ok p\<rbrakk>
     \<Longrightarrow> loop_step uniq st (handle_packet received st)"
| step_time: "loop_step uniq st (st\<lparr>ls_now := ls_now st + d\<rparr>)"
| step_recv: "loop_step uniq st (snd (try_recv_event st))"
| step_consumer_gone: "loop_step uniq st (st\<lparr>ls_consumer_alive := False\<rparr>)"

inductive loop_reachable :: "bool \<Rightarrow> loop_state \<Rightarrow> bool" for uniq where
  reach_init: "loop_reachable uniq loop_init"
| reach_step: "\<lbrakk>loop_reachable uniq st; loop_step uniq st st'\<rbrakk> \<Longrightarrow> loop_reachable uniq st'"

inductive_cases loop_stepE: "loop_step uniq st st'"

section \<open>Invariants\<close>

abbreviation pending_channels :: "loop_state \<Rightarrow> nat list" where
  "pending_channels st \<equiv> map (\<lambda>(_, pr). pr_sender pr) (ls_pending st)"

text \<open>Every command ever issued is in exactly one of: the queue, the pending table, the answered
  channels, the dropped channels.\<close>

definition channels :: "loop_state \<Rightarrow> nat multiset" where
  "channels st = mset (map snd (ls_queue st)) + mset (pending_channels st)
     + mset (map fst (ls_answers st)) + mset (ls_dropped st)"

definition conserves :: "loop_state \<Rightarrow> bool" where
  "conserves st = (channels st = mset_set {..<length (ls_issued st)})"

definition answer_ok :: "command_packet \<Rightarrow> reply_packet jdwp_result \<Rightarrow> bool" where
  "answer_ok p r =
     (case r of Inr rp \<Rightarrow> rp_id rp = cp_id p
      | Inl e \<Rightarrow> (\<exists>m. e = Io m) \<or> e = ReplyTimeout REPLY_TIMEOUT_SECS)"

definition correlated :: "loop_state \<Rightarrow> bool" where
  "correlated st =
     ((\<forall>(p, ch)\<in>set (ls_queue st). ch < length (ls_issued st) \<and> p = ls_issued st ! ch)
      \<and> (\<forall>(k, pr)\<in>set (ls_pending st). pr_sender pr < length (ls_issued st) \<and> cp_id (ls_issued st ! pr_sender pr) = k)
      \<and> (\<forall>(ch, r)\<in>set (ls_answers st). ch < length (ls_issued st)
           \<and> answer_ok (ls_issued st ! ch) r \<and> (\<forall>m. r = Inl (Io m) \<longrightarrow> (ch, m) \<in> set (ls_failed st))))"

definition keys_ok :: "loop_state \<Rightarrow> bool" where
  "keys_ok st = (distinct (map fst (ls_pending st))
     \<and> (\<forall>(k, pr)\<in>set (ls_pending st). pr_sent_at pr \<le> ls_now st)
     \<and> (ls_shutdown st \<noteq> None \<longrightarrow> ls_queue st = [] \<and> ls_pending st = [])
     \<and> length (ls_events st) \<le> EVENT_CHANNEL_DEPTH \<and> length (ls_queue st) \<le> COMMAND_CHANNEL_DEPTH)"

definition loop_inv :: "loop_state \<Rightarrow> bool" where
  "loop_inv st = (conserves st \<and> correlated st \<and> keys_ok st)"

lemma set_assoc_remove: "set (assoc_remove k xs) = {x \<in> set xs. fst x \<noteq> k}"
  by (auto simp: assoc_remove_def)

lemma distinct_assoc_remove: "distinct (map fst xs) \<Longrightarrow> distinct (map fst (assoc_remove k xs))"
  by (simp add: assoc_remove_def distinct_map_filter)

lemma map_of_assoc_remove: "k \<noteq> k' \<Longrightarrow> map_of (assoc_remove k' xs) k = map_of xs k"
  by (induction xs) (auto simp: assoc_remove_def)

lemma assoc_remove_absent: "map_of xs k = None \<Longrightarrow> assoc_remove k xs = xs"
  by (induction xs) (auto simp: assoc_remove_def split: if_splits)

lemma mset_assoc_remove:
  "distinct (map fst xs) \<Longrightarrow> map_of xs k = Some v \<Longrightarrow>
     mset (map g xs) = add_mset (g (k, v)) (mset (map g (assoc_remove k xs)))"
proof (induction xs)
  case (Cons x xs)
  obtain k' v' where x: "x = (k', v')" by (cases x)
  show ?case
  proof (cases "k' = k")
    case True
    then have "k \<notin> fst ` set xs" using Cons.prems x by auto
    then have "assoc_remove k xs = xs" by (force simp: assoc_remove_def intro: filter_True)
    then show ?thesis using Cons.prems True x by (simp add: assoc_remove_def)
  next
    case False
    then show ?thesis using Cons x by (simp add: assoc_remove_def)
  qed
qed simp

lemmas loop_inv_defs = loop_inv_def conserves_def correlated_def keys_ok_def channels_def case_prod_unfold

lemma settle_inv:
  assumes inv: "loop_inv st" and k: "map_of (ls_pending st) k = Some pr"
    and r: "\<And>p. cp_id p = k \<Longrightarrow> answer_ok p r" "\<And>m. r \<noteq> Inl (Io m)"
  shows "loop_inv (answer (pr_sender pr) r (st\<lparr>ls_pending := assoc_remove k (ls_pending st)\<rparr>))"
proof -
  have d: "distinct (map fst (ls_pending st))" and in_p: "(k, pr) \<in> set (ls_pending st)"
    using inv k by (auto simp: loop_inv_def keys_ok_def dest: map_of_SomeD)
  note m = mset_assoc_remove [OF d k, of "\<lambda>(_, pr). pr_sender pr"]
  show ?thesis
    using inv in_p r distinct_assoc_remove [OF d, of k] m
    by (auto simp: loop_inv_defs answer_def set_assoc_remove)
qed

lemma answer_queue_inv:
  assumes "loop_inv (st\<lparr>ls_queue := (p, ch) # q\<rparr>)"
  shows "loop_inv (answer ch (Inl (Io e)) (st\<lparr>ls_queue := q, ls_failed := ls_failed st @ [(ch, e)]\<rparr>))"
  using assms by (auto simp: loop_inv_defs answer_def answer_ok_def)

lemma pending_insert_inv:
  assumes inv: "loop_inv (st\<lparr>ls_queue := (p, ch) # q\<rparr>)" and run: "ls_shutdown st = None"
  shows "loop_inv (pending_insert (cp_id p) \<lparr>pr_sender = ch, pr_sent_at = ls_now st\<rparr>
           (st\<lparr>ls_queue := q, ls_written := w\<rparr>))"
proof -
  have d: "distinct (map fst (ls_pending st))"
    using inv by (simp add: loop_inv_def keys_ok_def)
  show ?thesis
  proof (cases "map_of (ls_pending st) (cp_id p)")
    case None
    then show ?thesis
      using inv run distinct_assoc_remove [OF d, of "cp_id p"]
      by (auto simp: loop_inv_defs pending_insert_def assoc_remove_absent)
  next
    case (Some old)
    note m = mset_assoc_remove [OF d Some, of "\<lambda>(_, pr). pr_sender pr"]
    show ?thesis
      using inv run Some distinct_assoc_remove [OF d, of "cp_id p"] m
      by (auto simp: loop_inv_defs pending_insert_def set_assoc_remove add_mset_commute)
  qed
qed

lemma handle_outgoing_inv:
  assumes inv: "loop_inv st" and run: "ls_shutdown st = None" and q: "ls_queue st = cmd # q"
  shows "loop_inv (handle_outgoing_command w f cmd (st\<lparr>ls_queue := q\<rparr>))"
proof -
  obtain p ch where cmd: "cmd = (p, ch)" by (cases cmd)
  have "st\<lparr>ls_queue := (p, ch) # q\<rparr> = st" using q cmd by simp
  then have "loop_inv (st\<lparr>ls_queue := (p, ch) # q\<rparr>)" using inv by simp
  then show ?thesis
    using answer_queue_inv pending_insert_inv [OF _ run] cmd
    by (auto simp: handle_outgoing_command_def split: option.splits)
qed

lemma expire_inv: "loop_inv st \<Longrightarrow> loop_inv (expire k st)"
  by (auto simp: expire_def answer_ok_def intro!: settle_inv split: option.splits)

lemma cleanup_inv: "loop_inv st \<Longrightarrow> loop_inv (cleanup_pending_replies st)"
proof -
  have "loop_inv st \<Longrightarrow> loop_inv (fold expire ks st)" for ks
    by (induction ks arbitrary: st) (auto simp: expire_inv)
  then show "loop_inv st \<Longrightarrow> loop_inv (cleanup_pending_replies st)"
    by (simp add: cleanup_pending_replies_def)
qed

lemma decode_reply_ok:
  "packet_ok (True, i, data) \<Longrightarrow> \<exists>rp. decode_reply data = Inr rp \<and> rp_id rp = i"
  by (auto simp: decode_reply_def packet_ok_def Let_def)

lemma route_reply_inv: "loop_inv st \<Longrightarrow> packet_ok (True, i, data) \<Longrightarrow> loop_inv (route_reply i data st)"
  using decode_reply_ok [of i data]
  by (auto simp: route_reply_def answer_ok_def intro!: settle_inv split: option.splits)

lemma shut_down_inv: "loop_inv st \<Longrightarrow> loop_inv (shut_down cause st)"
  by (auto simp: loop_inv_defs shut_down_def ac_simps)

lemma event_queued_inv:
  assumes "loop_inv st" "length (ls_events st) < EVENT_CHANNEL_DEPTH"
  shows "loop_inv (st\<lparr>ls_events := ls_events st @ [es]\<rparr>)"
  using assms by (simp add: loop_inv_def conserves_def correlated_def keys_ok_def channels_def)

lemma handle_event_inv: "loop_inv st \<Longrightarrow> handle_event_packet data st = (c, st') \<Longrightarrow> loop_inv st'"
  using event_queued_inv [of st] by (auto simp: handle_event_packet_def split: sum.splits if_splits)

lemma handle_packet_inv:
  assumes "loop_inv st" "\<And>p. received = Some (Inr p) \<Longrightarrow> packet_ok p"
  shows "loop_inv (handle_packet received st)"
proof -
  have "loop_inv (snd (handle_incoming_packet result st))" if "received = Some result" for result
    using assms that
    by (auto simp: handle_incoming_packet_def route_reply_inv split: sum.splits
        intro: handle_event_inv [OF _ surjective_pairing])
  then show ?thesis
    using assms
    by (auto simp: handle_packet_def intro: shut_down_inv split: option.splits prod.splits)
qed

lemma issue_inv:
  assumes "loop_inv st" "length (ls_queue st) < COMMAND_CHANNEL_DEPTH"
  shows "loop_inv (snd (issue p st))"
  using assms
  by (auto simp: loop_inv_defs issue_def Let_def nth_append lessThan_Suc)

lemma loop_step_inv: "loop_step uniq st st' \<Longrightarrow> loop_inv st \<Longrightarrow> loop_inv st'"
proof (induction rule: loop_step.induct)
  case (step_time st d)
  then show ?case by (fastforce simp: loop_inv_defs)
next
  case (step_recv st)
  then show ?case by (auto simp: loop_inv_defs try_recv_event_def split: list.splits)
next
  case (step_consumer_gone st)
  then show ?case by (auto simp: loop_inv_defs)
qed (auto intro: issue_inv handle_outgoing_inv cleanup_inv handle_packet_inv)

lemma loop_init_inv: "loop_inv loop_init"
  by (simp add: loop_inv_defs loop_init_def)

lemma loop_reachable_inv: "loop_reachable uniq st \<Longrightarrow> loop_inv st"
  by (induction rule: loop_reachable.induct) (auto intro: loop_step_inv loop_init_inv)


lemma channels_distinct:
  assumes "loop_inv st"
  shows "distinct (map snd (ls_queue st) @ pending_channels st @ map fst (ls_answers st) @ ls_dropped st)"
    and "set (map snd (ls_queue st) @ pending_channels st @ map fst (ls_answers st) @ ls_dropped st)
      = {..<length (ls_issued st)}"
proof -
  let ?l = "map snd (ls_queue st) @ pending_channels st @ map fst (ls_answers st) @ ls_dropped st"
  have m: "mset ?l = mset_set {..<length (ls_issued st)}"
    using assms by (simp add: loop_inv_def conserves_def channels_def ac_simps)
  show "set ?l = {..<length (ls_issued st)}"
    using arg_cong [OF m, of set_mset] by simp
  have "\<And>x. count (mset ?l) x \<le> 1"
    unfolding m by (simp add: count_mset_set')
  then show "distinct ?l"
    by (simp only: distinct_count_atmost_1) (metis One_nat_def count_eq_zero_iff le_Suc_eq le_zero_eq set_mset_mset)
qed

text \<open>While the loop runs, a sender is dropped only when a later command with the same id was written over it.\<close>

definition displaced :: "nat \<Rightarrow> loop_state \<Rightarrow> bool" where
  "displaced ch st \<longleftrightarrow> (\<exists>ch'\<in>set (ls_written st). ch' \<noteq> ch \<and> ch' < length (ls_issued st)
     \<and> cp_id (ls_issued st ! ch') = cp_id (ls_issued st ! ch))"

definition dropped_ok :: "loop_state \<Rightarrow> bool" where
  "dropped_ok st \<longleftrightarrow> (ls_shutdown st = None \<longrightarrow> (\<forall>ch\<in>set (ls_dropped st). displaced ch st))"

lemma displaced_frame:
  "displaced ch st \<Longrightarrow> set (ls_written st) \<subseteq> set (ls_written st') \<Longrightarrow> ls_issued st' = ls_issued st \<Longrightarrow> displaced ch st'"
  by (auto simp: displaced_def)

lemma dropped_frame:
  "dropped_ok st \<Longrightarrow> ls_written st' = ls_written st \<Longrightarrow> ls_issued st' = ls_issued st \<Longrightarrow> ls_dropped st' = ls_dropped st
     \<Longrightarrow> ls_shutdown st' = ls_shutdown st \<Longrightarrow> dropped_ok st'"
  by (simp add: dropped_ok_def displaced_def)

lemma issue_dropped:
  assumes "dropped_ok st" "loop_inv st"
  shows "dropped_ok (snd (issue p st))"
proof -
  have "ch < length (ls_issued st)" if "ch \<in> set (ls_dropped st)" for ch
    using channels_distinct(2) [OF assms(2)] that by auto
  then show ?thesis
    using assms(1) by (auto simp: dropped_ok_def displaced_def issue_def Let_def nth_append)
qed

lemma outgoing_dropped:
  assumes "dropped_ok st" and inv: "loop_inv st" and run: "ls_shutdown st = None" and q: "ls_queue st = (p, ch) # q"
  shows "dropped_ok (handle_outgoing_command w f (p, ch) (st\<lparr>ls_queue := q\<rparr>))"
proof -
  have p: "p = ls_issued st ! ch" "ch < length (ls_issued st)"
    using inv q by (auto simp: loop_inv_def correlated_def)
  have old: "cp_id (ls_issued st ! pr_sender pr) = cp_id p \<and> pr_sender pr \<noteq> ch"
    if "map_of (ls_pending st) (cp_id p) = Some pr" for pr
  proof -
    have "(cp_id p, pr) \<in> set (ls_pending st)" using that by (rule map_of_SomeD)
    then have "cp_id (ls_issued st ! pr_sender pr) = cp_id p" "pr_sender pr \<in> set (pending_channels st)"
      using inv by (force simp: loop_inv_def correlated_def)+
    moreover have "ch \<notin> set (pending_channels st)" using channels_distinct(1) [OF inv] q by simp
    ultimately show ?thesis by auto
  qed
  show ?thesis
  proof (cases "w = None \<and> f = None")
    case False
    show ?thesis
      by (rule dropped_frame [OF assms(1)])
        (use False in \<open>cases w; cases f; simp add: handle_outgoing_command_def answer_def\<close>)+
  next
    case True
    define st' where "st' = handle_outgoing_command w f (p, ch) (st\<lparr>ls_queue := q\<rparr>)"
    have frame: "ls_issued st' = ls_issued st" "ls_written st' = ls_written st @ [ch]"
        "ls_dropped st' = ls_dropped st @ (case map_of (ls_pending st) (cp_id p) of None \<Rightarrow> [] | Some pr \<Rightarrow> [pr_sender pr])"
      using True by (simp_all add: st'_def handle_outgoing_command_def pending_insert_def)
    have "displaced x st'" if "x \<in> set (ls_dropped st)" for x
    proof -
      have "displaced x st" using assms(1) run that by (simp add: dropped_ok_def)
      then show ?thesis by (rule displaced_frame) (auto simp: frame)
    qed
    moreover have "displaced (pr_sender pr) st'" if "map_of (ls_pending st) (cp_id p) = Some pr" for pr
      using old [OF that] p unfolding displaced_def frame by (intro bexI [of _ ch]) simp_all
    ultimately show ?thesis
      unfolding st'_def [symmetric] dropped_ok_def frame
      by (cases "map_of (ls_pending st) (cp_id p)") auto
  qed
qed

lemma expire_dropped: "dropped_ok st \<Longrightarrow> dropped_ok (expire k st)"
  by (erule dropped_frame) (auto simp: expire_def answer_def split: option.split)

lemma cleanup_dropped: "dropped_ok st \<Longrightarrow> dropped_ok (cleanup_pending_replies st)"
proof -
  have "dropped_ok st \<Longrightarrow> dropped_ok (fold expire ks st)" for ks
    by (induction ks arbitrary: st) (auto simp: expire_dropped)
  then show "dropped_ok st \<Longrightarrow> dropped_ok (cleanup_pending_replies st)"
    by (simp add: cleanup_pending_replies_def)
qed

lemma packet_dropped: "dropped_ok st \<Longrightarrow> dropped_ok (handle_packet received st)"
proof -
  assume d: "dropped_ok st"
  have "dropped_ok (shut_down cause st')" for cause st'
    by (simp add: dropped_ok_def shut_down_def)
  moreover have "dropped_ok (snd (handle_incoming_packet result st))" for result
    by (rule dropped_frame [OF d])
      (auto simp: handle_incoming_packet_def route_reply_def answer_def handle_event_packet_def
        split: sum.split option.split)
  ultimately show ?thesis
    using d by (auto simp: handle_packet_def split: option.split prod.split) (metis snd_conv)+
qed

lemma loop_step_dropped: "loop_step uniq st st' \<Longrightarrow> loop_inv st \<Longrightarrow> dropped_ok st \<Longrightarrow> dropped_ok st'"
proof (induction rule: loop_step.induct)
  case (step_outgoing st cmd q w f)
  then show ?case using outgoing_dropped by (cases cmd) auto
next
  case (step_time st d)
  then show ?case by (auto elim!: dropped_frame)
next
  case (step_recv st)
  then show ?case by (auto elim!: dropped_frame simp: try_recv_event_def split: list.split)
next
  case (step_consumer_gone st)
  then show ?case by (auto elim!: dropped_frame)
qed (auto intro: issue_dropped cleanup_dropped packet_dropped)

lemma loop_reachable_dropped: "loop_reachable uniq st \<Longrightarrow> dropped_ok st"
proof (induction rule: loop_reachable.induct)
  case reach_init
  then show ?case by (simp add: dropped_ok_def loop_init_def)
qed (auto intro: loop_step_dropped loop_reachable_inv)

text \<open>With unique outstanding ids the table is never overwritten, so a running loop drops nobody.\<close>

definition uniq_inv :: "loop_state \<Rightarrow> bool" where
  "uniq_inv st = (distinct (map fst (ls_pending st)) \<and> distinct (map (\<lambda>x. cp_id (fst x)) (ls_queue st))
     \<and> (\<forall>x\<in>set (ls_pending st). \<forall>y\<in>set (ls_queue st). fst x \<noteq> cp_id (fst y))
     \<and> (ls_shutdown st = None \<longrightarrow> ls_dropped st = []))"

lemma expire_frame:
  "ls_queue (expire k st) = ls_queue st" "ls_dropped (expire k st) = ls_dropped st"
  "ls_shutdown (expire k st) = ls_shutdown st" "ls_now (expire k st) = ls_now st"
  "ls_issued (expire k st) = ls_issued st" "ls_pending (expire k st) = assoc_remove k (ls_pending st)"
  by (auto simp: expire_def answer_def assoc_remove_absent split: option.splits)

lemma uniq_remove:
  "uniq_inv st \<Longrightarrow> ls_pending st' = assoc_remove k (ls_pending st) \<Longrightarrow> ls_queue st' = ls_queue st \<Longrightarrow>
   ls_dropped st' = ls_dropped st \<Longrightarrow> ls_shutdown st' = ls_shutdown st \<Longrightarrow> uniq_inv st'"
  by (auto simp: uniq_inv_def distinct_assoc_remove set_assoc_remove)

lemma expire_uniq: "uniq_inv st \<Longrightarrow> uniq_inv (expire k st)"
  by (erule uniq_remove) (simp_all add: expire_frame)

lemma cleanup_uniq: "uniq_inv st \<Longrightarrow> uniq_inv (cleanup_pending_replies st)"
proof -
  have "uniq_inv st \<Longrightarrow> uniq_inv (fold expire ks st)" for ks
    by (induction ks arbitrary: st) (auto simp: expire_uniq)
  then show "uniq_inv st \<Longrightarrow> uniq_inv (cleanup_pending_replies st)"
    by (simp add: cleanup_pending_replies_def)
qed

lemma handle_packet_uniq: "uniq_inv st \<Longrightarrow> ls_shutdown st = None \<Longrightarrow> uniq_inv (handle_packet received st)"
proof -
  assume u: "uniq_inv st" "ls_shutdown st = None"
  have *: "uniq_inv (route_reply i d st)" for i d
    using u(1) by (auto simp: route_reply_def answer_def split: option.splits intro: uniq_remove)
  have "uniq_inv (shut_down c st')" for c st'
    by (simp add: uniq_inv_def shut_down_def)
  moreover have "uniq_inv (snd (handle_event_packet d st))" for d
    using u by (auto simp: handle_event_packet_def uniq_inv_def split: sum.splits)
  ultimately show ?thesis
    using * by (auto simp: handle_packet_def handle_incoming_packet_def split: option.splits sum.splits prod.splits)
      (metis snd_conv)+
qed

lemma handle_outgoing_uniq:
  assumes "uniq_inv st" "ls_shutdown st = None" "ls_queue st = cmd # q"
  shows "uniq_inv (handle_outgoing_command w f cmd (st\<lparr>ls_queue := q\<rparr>))"
proof -
  have "map_of (ls_pending st) (cp_id (fst cmd)) = None"
    using assms by (auto simp: uniq_inv_def map_of_eq_None_iff)
  then show ?thesis
    using assms
    by (auto simp: handle_outgoing_command_def answer_def pending_insert_def uniq_inv_def assoc_remove_absent
        split: option.splits) (metis map_of_SomeD)?
qed

lemma issue_uniq:
  "uniq_inv st \<Longrightarrow> cp_id p \<notin> outstanding st \<Longrightarrow> uniq_inv (snd (issue p st))"
  by (auto simp: uniq_inv_def issue_def Let_def outstanding_def image_iff)

lemma loop_step_uniq: "loop_step True st st' \<Longrightarrow> uniq_inv st \<Longrightarrow> uniq_inv st'"
proof (induction rule: loop_step.induct)
  case (step_recv st)
  then show ?case by (auto simp: uniq_inv_def try_recv_event_def split: list.splits)
next
  case (step_time st d)
  then show ?case by (simp add: uniq_inv_def)
next
  case (step_consumer_gone st)
  then show ?case by (simp add: uniq_inv_def)
qed (auto intro: issue_uniq handle_outgoing_uniq cleanup_uniq handle_packet_uniq)

lemma loop_reachable_uniq: "loop_reachable True st \<Longrightarrow> uniq_inv st"
proof (induction rule: loop_reachable.induct)
  case reach_init
  then show ?case by (simp add: uniq_inv_def loop_init_def)
qed (auto intro: loop_step_uniq)

section \<open>Consequences\<close>

lemma answers_distinct: "loop_inv st \<Longrightarrow> distinct (map fst (ls_answers st))"
  using channels_distinct(1) [of st] by simp

lemma fold_expire_pending:
  "ls_pending (fold expire ks st) = filter (\<lambda>(k, _). k \<notin> set ks) (ls_pending st)"
  by (induction ks arbitrary: st) (auto simp: expire_frame assoc_remove_def case_prod_unfold intro!: filter_cong)

lemma fold_expire_answers:
  "map_of (ls_pending st) k = Some pr \<Longrightarrow> k \<in> set ks \<Longrightarrow>
     (pr_sender pr, Inl (ReplyTimeout REPLY_TIMEOUT_SECS)) \<in> set (ls_answers (fold expire ks st))"
proof (induction ks arbitrary: st)
  case (Cons k' ks)
  have mono: "x \<in> set (ls_answers st) \<Longrightarrow> x \<in> set (ls_answers (fold expire ks st))" for x ks st
    by (induction ks arbitrary: st) (auto simp: expire_def answer_def split: option.splits)
  show ?case
  proof (cases "k = k'")
    case True
    then have "(pr_sender pr, Inl (ReplyTimeout REPLY_TIMEOUT_SECS)) \<in> set (ls_answers (expire k' st))"
      using Cons.prems by (simp add: expire_def answer_def)
    then show ?thesis using mono by simp
  next
    case False
    then show ?thesis using Cons by (auto simp: expire_frame map_of_assoc_remove)
  qed
qed simp

lemma reply_of_cases:
  assumes "loop_inv st" "reply_of ch st = Some r"
  shows "(ch, r) \<in> set (ls_answers st)
    \<or> ch \<in> set (ls_dropped st) \<and> r = Inl (lost st ''the command was sent and its reply was dropped'')"
  using assms by (auto simp: reply_of_def dest: map_of_SomeD split: option.splits if_splits)

text \<open>
  C31: however commands, replies, timeouts, packets and failures interleave, every command ever queued
  is in exactly one place: waiting in the queue, pending, answered, or dropped. So none is lost and
  none is answered twice.
\<close>

theorem loop_conserves_commands:
  assumes "loop_reachable uniq st"
  shows "distinct (map snd (ls_queue st) @ pending_channels st @ map fst (ls_answers st) @ ls_dropped st)
    \<and> set (map snd (ls_queue st) @ pending_channels st @ map fst (ls_answers st) @ ls_dropped st)
        = {..<length (ls_issued st)}"
  using channels_distinct [OF loop_reachable_inv [OF assms]] by simp


text \<open>
  C35: once the loop has stopped, every command ever issued has an outcome - no caller waits for
  ever - and whoever had no answer is told the recorded cause.
\<close>

theorem loop_stop_settles_all:
  assumes "loop_reachable uniq st" "ls_shutdown st = Some cause" "ch < length (ls_issued st)"
  shows "\<exists>r. reply_of ch st = Some r \<and> ((ch, r) \<in> set (ls_answers st) \<or> r = Inl (ConnectionClosed cause))"
proof -
  have inv: "loop_inv st" using assms(1) by (rule loop_reachable_inv)
  then have "ls_queue st = []" "ls_pending st = []" using assms(2) by (auto simp: loop_inv_def keys_ok_def)
  then have "ch \<in> fst ` set (ls_answers st) \<or> ch \<in> set (ls_dropped st)"
    using channels_distinct(2) [OF inv] assms(3) by auto
  then show ?thesis
    using assms(2)
    by (auto simp: reply_of_def lost_def dest: map_of_SomeD split: option.splits
        intro: map_of_SomeD) (metis map_of_eq_None_iff option.exhaust fst_conv image_eqI map_of_SomeD)+
qed

text \<open>
  a cleanup tick answers every command pending for more than thirty seconds with the timeout,
  leaves none of them in the table, and touches no other.
\<close>

theorem cleanup_expires_exactly:
  "ls_pending (cleanup_pending_replies st) = filter (\<lambda>(k, pr). k \<notin> fst ` {x \<in> set (ls_pending st). lapsed (ls_now st) (snd x)}) (ls_pending st)
   \<and> (\<forall>k pr. map_of (ls_pending st) k = Some pr \<and> lapsed (ls_now st) pr \<longrightarrow>
        (pr_sender pr, Inl (ReplyTimeout 30)) \<in> set (ls_answers (cleanup_pending_replies st)))"
  (is "?A \<and> ?B")
proof
  show ?A
    by (auto simp: cleanup_pending_replies_def fold_expire_pending case_prod_unfold image_iff intro!: filter_cong)
  show ?B
  proof (intro allI impI)
    fix k pr assume a: "map_of (ls_pending st) k = Some pr \<and> lapsed (ls_now st) pr"
    then have "k \<in> set (map fst (filter (\<lambda>(_, pr). lapsed (ls_now st) pr) (ls_pending st)))"
      by (force dest: map_of_SomeD)
    then show "(pr_sender pr, Inl (ReplyTimeout 30)) \<in> set (ls_answers (cleanup_pending_replies st))"
      using fold_expire_answers a unfolding cleanup_pending_replies_def REPLY_TIMEOUT_SECS_def by blast
  qed
qed

text \<open>
  the reader never loses packet alignment: a stream that starts with well-formed packets yields
  exactly those packets in order, whatever follows them, and every stream yields well-formed packets
  covering a prefix of it and then one error.
\<close>

theorem packet_stream_aligned:
  "(\<forall>ps rest. (\<forall>p\<in>set ps. packet_ok p) \<longrightarrow>
      packet_stream eof chunks (concat (map (\<lambda>p. snd (snd p)) ps) @ rest) = map Inr ps @ packet_stream eof chunks rest)
   \<and> (\<forall>bs. \<exists>ps e rest. packet_stream eof chunks bs = map Inr ps @ [Inl e] \<and> (\<forall>p\<in>set ps. packet_ok p)
        \<and> bs = concat (map (\<lambda>p. snd (snd p)) ps) @ rest)"
  using packet_stream_frames packet_stream_shape by metis

section \<open>Instances\<close>

text \<open>One command queued, written, answered by the debuggee, and the stream then ending.\<close>

definition example_command :: command_packet where
  "example_command = \<lparr>cp_id = 7, cp_command_set = 1, cp_command = 1, cp_data = []\<rparr>"

definition example_reply :: reply_packet where
  "example_reply = \<lparr>rp_id = 7, rp_error_code = 0, rp_data = [1, 2]\<rparr>"

definition example_queued :: loop_state where
  "example_queued = snd (issue example_command loop_init)"

definition example_sent :: loop_state where
  "example_sent = handle_outgoing_command None None (example_command, 0) (example_queued\<lparr>ls_queue := []\<rparr>)"

definition example_answered :: loop_state where
  "example_answered = handle_packet (Some (Inr (True, 7, encode_reply example_reply))) example_sent"

definition example_stopped :: loop_state where
  "example_stopped = handle_packet (Some (Inl (Io ''early eof''))) example_sent"

lemma example_queued_eq:
  "example_queued = loop_init\<lparr>ls_queue := [(example_command, 0)], ls_issued := [example_command]\<rparr>"
  by (simp add: example_queued_def issue_def loop_init_def)

lemma example_sent_eq:
  "example_sent = loop_init\<lparr>ls_pending := [(7, \<lparr>pr_sender = 0, pr_sent_at = 0\<rparr>)],
     ls_issued := [example_command], ls_written := [0]\<rparr>"
  by (simp add: example_sent_def example_queued_eq handle_outgoing_command_def pending_insert_def
      loop_init_def assoc_remove_def example_command_def)

lemma example_packet_ok: "packet_ok (True, 7, encode_reply example_reply)"
  using encode_reply_packet_ok [of example_reply]
  by (simp add: example_reply_def HEADER_SIZE_def MAX_PACKET_SIZE_def)

lemma example_answered_eq:
  "example_answered = loop_init\<lparr>ls_answers := [(0, Inr example_reply)], ls_issued := [example_command], ls_written := [0]\<rparr>"
  by (simp add: example_answered_def example_sent_eq handle_packet_def handle_incoming_packet_def
      route_reply_def decode_encode_reply answer_def assoc_remove_def loop_init_def)

lemma example_sent_reachable: "loop_reachable True example_sent"
proof -
  have "loop_reachable True example_queued"
    unfolding example_queued_def
    by (intro reach_step [OF reach_init] step_issue)
      (simp_all add: loop_init_def COMMAND_CHANNEL_DEPTH_def outstanding_def)
  moreover have "loop_step True example_queued example_sent"
    unfolding example_sent_def
    by (intro step_outgoing) (simp_all add: example_queued_eq loop_init_def)
  ultimately show ?thesis by (rule reach_step)
qed

lemma example_answered_reachable: "loop_reachable True example_answered"
  unfolding example_answered_def
  by (rule reach_step [OF example_sent_reachable], rule step_packet)
    (simp_all add: example_sent_eq loop_init_def example_packet_ok)

lemma example_stopped_reachable: "loop_reachable True example_stopped"
  unfolding example_stopped_def
  by (rule reach_step [OF example_sent_reachable], rule step_packet)
    (simp_all add: example_sent_eq loop_init_def)

theorem loop_conserves_commands_witness: "loop_reachable True example_answered \<and> distinct (map fst (ls_answers example_answered))"
  using example_answered_reachable loop_conserves_commands [OF example_answered_reachable] by simp


theorem loop_stop_settles_all_witness:
  "reply_of 0 example_stopped = Some (Inl (ConnectionClosed ''reading from the debuggee failed: IO error: early eof''))"
proof -
  have eq: "example_stopped = shut_down ''reading from the debuggee failed: IO error: early eof'' example_sent"
    by (simp add: example_stopped_def handle_packet_def handle_incoming_packet_def)
  show ?thesis
    using loop_stop_settles_all [OF example_stopped_reachable, of "''reading from the debuggee failed: IO error: early eof''" 0]
    by (auto simp: eq shut_down_def example_sent_eq loop_init_def)
qed

theorem cleanup_expires_exactly_witness:
  "(0, Inl (ReplyTimeout 30)) \<in> set (ls_answers (cleanup_pending_replies (example_sent\<lparr>ls_now := 30001\<rparr>)))"
  using cleanup_expires_exactly [of "example_sent\<lparr>ls_now := 30001\<rparr>", THEN conjunct2, THEN spec, THEN spec,
      THEN mp, of 7 "\<lparr>pr_sender = 0, pr_sent_at = 0\<rparr>"]
  by (simp add: example_sent_eq loop_init_def lapsed_def REPLY_TIMEOUT_SECS_def)

theorem packet_stream_aligned_witness:
  "packet_stream ''early eof'' [] (encode_reply example_reply)
     = [Inr (True, 7, encode_reply example_reply), Inl (Io ''early eof'')]"
  using packet_stream_aligned [of "''early eof''" "[]", THEN conjunct1, THEN spec, THEN spec, THEN mp,
      of "[(True, 7, encode_reply example_reply)]" "[]"] example_packet_ok
  by (simp add: packet_stream_Nil)

end
