(* ===== verification/Connection.thy ===== *)
theory Connection
  imports EventLoop
begin

text \<open>
  \<open>jdwp-client/src/connection.rs\<close>: a connection's own state (id counter, type cache, read-only flag,
  invocation budget, cost counter), the sending of commands, independent reads, and the type cache.
  The event loop and the debuggee behind it are a parameter: how a command that has been issued is
  answered, how long that takes, and whether the loop still accepts commands, each an arbitrary
  function of the commands issued before it.
\<close>

section \<open>The debuggee as a parameter\<close>

record debuggee =
  dbg_answer :: "command_packet list \<Rightarrow> command_packet \<Rightarrow> reply_packet jdwp_result"
  dbg_latency :: "command_packet list \<Rightarrow> command_packet \<Rightarrow> nat"
  dbg_gone :: "command_packet list \<Rightarrow> command_packet \<Rightarrow> jdwp_error option"

section \<open>The type cache\<close>

record method_info =
  mi_method_id :: u64
  mi_name :: string
  mi_signature :: string
  mi_generic_signature :: "string option"
  mi_mod_bits :: u32

record field_info =
  fld_field_id :: u64
  fld_name :: string
  fld_signature :: string
  fld_generic_signature :: "string option"
  fld_mod_bits :: u32

record type_cache =
  tc_signatures :: "u64 \<rightharpoonup> string"
  tc_fields :: "u64 \<rightharpoonup> field_info list"
  tc_methods :: "u64 \<rightharpoonup> method_info list"
  tc_superclasses :: "u64 \<rightharpoonup> u64 option"
  tc_interfaces :: "u64 \<rightharpoonup> u64 list"

datatype cached_superclass = Unknown | Root | Parent u64

definition type_cache_default :: type_cache where
  "type_cache_default = \<lparr>tc_signatures = Map.empty, tc_fields = Map.empty, tc_methods = Map.empty,
     tc_superclasses = Map.empty, tc_interfaces = Map.empty\<rparr>"

definition cache_signature :: "u64 \<Rightarrow> type_cache \<Rightarrow> string option" where
  "cache_signature i tc = tc_signatures tc i"

definition put_signature :: "u64 \<Rightarrow> string \<Rightarrow> type_cache \<Rightarrow> type_cache" where
  "put_signature i sig tc = tc\<lparr>tc_signatures := (tc_signatures tc)(i \<mapsto> sig)\<rparr>"

definition cache_fields :: "u64 \<Rightarrow> type_cache \<Rightarrow> field_info list option" where
  "cache_fields i tc = tc_fields tc i"

definition put_fields :: "u64 \<Rightarrow> field_info list \<Rightarrow> type_cache \<Rightarrow> type_cache" where
  "put_fields i fs tc = tc\<lparr>tc_fields := (tc_fields tc)(i \<mapsto> fs)\<rparr>"

definition cache_methods :: "u64 \<Rightarrow> type_cache \<Rightarrow> method_info list option" where
  "cache_methods i tc = tc_methods tc i"

definition put_methods :: "u64 \<Rightarrow> method_info list \<Rightarrow> type_cache \<Rightarrow> type_cache" where
  "put_methods i ms tc = tc\<lparr>tc_methods := (tc_methods tc)(i \<mapsto> ms)\<rparr>"

definition cache_superclass :: "u64 \<Rightarrow> type_cache \<Rightarrow> cached_superclass" where
  "cache_superclass i tc =
     (case tc_superclasses tc i of
        None \<Rightarrow> Unknown | Some None \<Rightarrow> Root | Some (Some parent) \<Rightarrow> Parent parent)"

definition put_superclass :: "u64 \<Rightarrow> u64 option \<Rightarrow> type_cache \<Rightarrow> type_cache" where
  "put_superclass i parent tc = tc\<lparr>tc_superclasses := (tc_superclasses tc)(i \<mapsto> parent)\<rparr>"

definition cache_interfaces :: "u64 \<Rightarrow> type_cache \<Rightarrow> u64 list option" where
  "cache_interfaces i tc = tc_interfaces tc i"

definition put_interfaces :: "u64 \<Rightarrow> u64 list \<Rightarrow> type_cache \<Rightarrow> type_cache" where
  "put_interfaces i is tc = tc\<lparr>tc_interfaces := (tc_interfaces tc)(i \<mapsto> is)\<rparr>"

definition invalidate :: "u64 \<Rightarrow> type_cache \<Rightarrow> type_cache" where
  "invalidate i tc =
     tc\<lparr>tc_signatures := (tc_signatures tc)(i := None), tc_fields := (tc_fields tc)(i := None),
        tc_methods := (tc_methods tc)(i := None), tc_superclasses := (tc_superclasses tc)(i := None),
        tc_interfaces := (tc_interfaces tc)(i := None)\<rparr>"

text \<open>The superclass slot seen as an optional entry, the way the other slots are.\<close>

definition cache_superclass_entry :: "u64 \<Rightarrow> type_cache \<Rightarrow> u64 option option" where
  "cache_superclass_entry i tc =
     (case cache_superclass i tc of Unknown \<Rightarrow> None | Root \<Rightarrow> Some None | Parent p \<Rightarrow> Some (Some p))"

locale cache_slot =
  fixes get :: "u64 \<Rightarrow> type_cache \<Rightarrow> 'a option"
    and put :: "u64 \<Rightarrow> 'a \<Rightarrow> type_cache \<Rightarrow> type_cache"
  assumes get_default: "get i type_cache_default = None"
    and get_put: "get i (put j a tc) = (if i = j then Some a else get i tc)"
    and get_invalidate: "get i (invalidate j tc) = (if i = j then None else get i tc)"
begin

lemma fold_put:
  "get i (fold (\<lambda>(j, a). put j a) xs tc) = (case map_of (rev xs) i of Some a \<Rightarrow> Some a | None \<Rightarrow> get i tc)"
proof (induction xs rule: rev_induct)
  case (snoc x xs)
  then show ?case by (cases x) (auto simp: get_put)
qed simp

lemma fold_invalidate:
  "get i (fold invalidate js tc) = (if i \<in> set js then None else get i tc)"
  by (induction js arbitrary: tc) (auto simp: get_invalidate)

lemma put_then_invalidate: "get i (invalidate i (put i a tc)) = None"
  by (simp add: get_invalidate)

end

interpretation signature_slot: cache_slot cache_signature put_signature
  by unfold_locales (auto simp: cache_signature_def put_signature_def type_cache_default_def invalidate_def)

interpretation fields_slot: cache_slot cache_fields put_fields
  by unfold_locales (auto simp: cache_fields_def put_fields_def type_cache_default_def invalidate_def)

interpretation methods_slot: cache_slot cache_methods put_methods
  by unfold_locales (auto simp: cache_methods_def put_methods_def type_cache_default_def invalidate_def)

interpretation superclass_slot: cache_slot cache_superclass_entry put_superclass
  by unfold_locales
    (auto simp: cache_superclass_entry_def cache_superclass_def put_superclass_def type_cache_default_def
      invalidate_def split: option.splits)

interpretation interfaces_slot: cache_slot cache_interfaces put_interfaces
  by unfold_locales (auto simp: cache_interfaces_def put_interfaces_def type_cache_default_def invalidate_def)

section \<open>The connection\<close>

definition DEFAULT_INVOKE_TIMEOUT_MS :: u64 where "DEFAULT_INVOKE_TIMEOUT_MS = 2000"

definition MAX_READS_IN_FLIGHT :: nat where "MAX_READS_IN_FLIGHT = 16"

text \<open>\<open>c_sent\<close> and \<open>c_taken\<close> are ghosts: the commands handed to the event loop, in order, and how many
  ids the counter has given out.\<close>

record conn =
  c_next_id :: u32
  c_types :: type_cache
  c_read_only :: bool
  c_invoke_timeout_ms :: u64
  c_round_trips :: u32
  c_sent :: "command_packet list"
  c_taken :: nat

type_synonym 'a conn_op = "conn \<Rightarrow> 'a jdwp_result \<times> conn"

definition creturn :: "'a \<Rightarrow> 'a conn_op" where
  "creturn a c = (Inr a, c)"

definition clift :: "'a jdwp_result \<Rightarrow> 'a conn_op" where
  "clift r c = (r, c)"

definition cbind :: "'a conn_op \<Rightarrow> ('a \<Rightarrow> 'b conn_op) \<Rightarrow> 'b conn_op" where
  "cbind op f c = (case op c of (Inl e, c') \<Rightarrow> (Inl e, c') | (Inr a, c') \<Rightarrow> f a c')"

text \<open>Run an operation for its result, whatever that is: the caller inspects the error.\<close>

definition ccatch :: "'a conn_op \<Rightarrow> ('a jdwp_result \<Rightarrow> 'b conn_op) \<Rightarrow> 'b conn_op" where
  "ccatch op f c = (case op c of (r, c') \<Rightarrow> f r c')"

definition connect_init :: conn where
  "connect_init = \<lparr>c_next_id = 1, c_types = type_cache_default, c_read_only = False,
     c_invoke_timeout_ms = DEFAULT_INVOKE_TIMEOUT_MS, c_round_trips = 0, c_sent = [], c_taken = 0\<rparr>"

text \<open>The handshake over a stream: what the peer sends back, followed by an I/O error \<open>eof\<close>.\<close>

definition handshake :: "string \<Rightarrow> bytes \<Rightarrow> unit jdwp_result" where
  "handshake eof stream =
     (if length stream < length JDWP_HANDSHAKE then Inl (Io eof)
      else if take (length JDWP_HANDSHAKE) stream \<noteq> JDWP_HANDSHAKE then Inl InvalidHandshake
      else Inr ())"

definition connect :: "string \<Rightarrow> bytes \<Rightarrow> conn jdwp_result" where
  "connect eof stream = res_bind (handshake eof stream) (\<lambda>_. Inr connect_init)"

definition set_read_only :: "bool \<Rightarrow> conn \<Rightarrow> conn" where
  "set_read_only b c = c\<lparr>c_read_only := b\<rparr>"

definition is_read_only :: "conn \<Rightarrow> bool" where
  "is_read_only c = c_read_only c"

definition guard_mutation :: "string \<Rightarrow> unit conn_op" where
  "guard_mutation what c = (if is_read_only c then (Inl (ReadOnly what), c) else (Inr (), c))"

definition set_invoke_timeout_ms :: "u64 \<Rightarrow> conn \<Rightarrow> conn" where
  "set_invoke_timeout_ms ms c = c\<lparr>c_invoke_timeout_ms := ms\<rparr>"

definition next_id :: "conn \<Rightarrow> u32 \<times> conn" where
  "next_id c = (c_next_id c, c\<lparr>c_next_id := c_next_id c + 1, c_taken := c_taken c + 1\<rparr>)"

text \<open>\<open>self.next_id.load().saturating_sub(1)\<close>\<close>

definition packets_sent :: "conn \<Rightarrow> u32" where
  "packets_sent c = (if c_next_id c = 0 then 0 else c_next_id c - 1)"

text \<open>\<open>EventLoopHandle::issue\<close> as the connection sees it: refused when the loop is gone, otherwise the
  reply that \<open>InFlight::reply\<close> will yield.\<close>

definition conn_issue :: "debuggee \<Rightarrow> command_packet \<Rightarrow> reply_packet jdwp_result conn_op" where
  "conn_issue d p c =
     (case dbg_gone d (c_sent c) p of
        Some e \<Rightarrow> (Inl e, c)
      | None \<Rightarrow> (Inr (dbg_answer d (c_sent c) p), c\<lparr>c_sent := c_sent c @ [p]\<rparr>))"

definition send_command :: "debuggee \<Rightarrow> command_packet \<Rightarrow> reply_packet conn_op" where
  "send_command d p c =
     cbind (conn_issue d p) clift (c\<lparr>c_round_trips := c_round_trips c + 1\<rparr>)"

definition send_invoke :: "debuggee \<Rightarrow> command_packet \<Rightarrow> reply_packet conn_op" where
  "send_invoke d p c =
     (let ms = c_invoke_timeout_ms c in
      if ms = 0 then send_command d p c
      else case dbg_gone d (c_sent c) p of
             Some e \<Rightarrow> send_command d p c
           | None \<Rightarrow>
               if unat ms < dbg_latency d (c_sent c) p
               then (Inl (InvokeTimeout ms), snd (send_command d p c))
               else send_command d p c)"

definition set_types :: "(type_cache \<Rightarrow> type_cache) \<Rightarrow> unit conn_op" where
  "set_types f c = (Inr (), c\<lparr>c_types := f (c_types c)\<rparr>)"

section \<open>Independent reads\<close>

text \<open>
  The window holds the commands issued and not yet awaited, each with the reply its channel will
  deliver; \<open>w_results\<close> is what has been collected. A step of the loop takes one command.
\<close>

record wave =
  w_window :: "reply_packet jdwp_result list"
  w_results :: "reply_packet jdwp_result list"

definition wave_await_oldest :: "wave \<Rightarrow> wave" where
  "wave_await_oldest w =
     (if MAX_READS_IN_FLIGHT \<le> length (w_window w)
      then (case w_window w of [] \<Rightarrow> w
            | oldest # ws \<Rightarrow> w\<lparr>w_window := ws, w_results := w_results w @ [oldest]\<rparr>)
      else w)"

definition wave_drain :: "wave \<Rightarrow> wave" where
  "wave_drain w = w\<lparr>w_window := [], w_results := w_results w @ w_window w\<rparr>"

definition wave_step :: "debuggee \<Rightarrow> command_packet \<Rightarrow> wave \<times> conn \<Rightarrow> wave \<times> conn" where
  "wave_step d p wc =
     (let w = wave_await_oldest (fst wc) in
      case conn_issue d p (snd wc) of
        (Inr in_flight, c') \<Rightarrow> (w\<lparr>w_window := w_window w @ [in_flight]\<rparr>, c')
      | (Inl e, c') \<Rightarrow> (let w' = wave_drain w in (w'\<lparr>w_results := w_results w' @ [Inl e]\<rparr>, c')))"

definition waves_needed :: "nat \<Rightarrow> nat" where
  "waves_needed n = (n + MAX_READS_IN_FLIGHT - 1) div MAX_READS_IN_FLIGHT"

definition read_independently ::
  "debuggee \<Rightarrow> command_packet list \<Rightarrow> conn \<Rightarrow> reply_packet jdwp_result list \<times> conn" where
  "read_independently d packets c =
     (let waves = waves_needed (length packets);
          c1 = c\<lparr>c_round_trips := c_round_trips c + u32_try_or_max waves\<rparr>;
          (w, c2) = fold (wave_step d) packets (\<lparr>w_window = [], w_results = []\<rparr>, c1)
      in (w_results (wave_drain w), c2))"

text \<open>The same commands sent one after the other, for their results.\<close>

fun send_each :: "debuggee \<Rightarrow> command_packet list \<Rightarrow> conn \<Rightarrow> reply_packet jdwp_result list \<times> conn" where
  "send_each d [] c = ([], c)"
| "send_each d (p # ps) c =
     (let (r, c1) = send_command d p c; (rs, c2) = send_each d ps c1 in (r # rs, c2))"

section \<open>The shape of an operation\<close>

text \<open>\<open>CommandPacket::new(self.next_id(), set, command)\<close> with its data; a request builder in general.\<close>

type_synonym request = "conn \<Rightarrow> command_packet \<times> conn"

definition request :: "u8 \<Rightarrow> u8 \<Rightarrow> bytes \<Rightarrow> request" where
  "request cset cmd data c =
     (let (i, c') = next_id c in ((command_packet_new i cset cmd)\<lparr>cp_data := data\<rparr>, c'))"

text \<open>\<open>reply.check_error()?\<close> and then a decoder over the reply's data.\<close>

definition checked :: "'a reader \<Rightarrow> reply_packet \<Rightarrow> 'a jdwp_result" where
  "checked r reply = res_bind (check_error reply) (\<lambda>_. run_reader r (rp_data reply))"

definition exchange :: "debuggee \<Rightarrow> request \<Rightarrow> (reply_packet \<Rightarrow> 'a jdwp_result) \<Rightarrow> 'a conn_op" where
  "exchange d req dec c = (let (p, c') = req c in cbind (send_command d p) (\<lambda>reply. clift (dec reply)) c')"

definition exchange_invoke :: "debuggee \<Rightarrow> request \<Rightarrow> (reply_packet \<Rightarrow> 'a jdwp_result) \<Rightarrow> 'a conn_op" where
  "exchange_invoke d req dec c =
     (let (p, c') = req c in cbind (send_invoke d p) (\<lambda>reply. clift (dec reply)) c')"

fun build_requests :: "('a \<Rightarrow> request) \<Rightarrow> 'a list \<Rightarrow> conn \<Rightarrow> command_packet list \<times> conn" where
  "build_requests f [] c = ([], c)"
| "build_requests f (x # xs) c =
     (let (p, c1) = f x c; (ps, c2) = build_requests f xs c1 in (p # ps, c2))"

definition exchange_wave ::
  "debuggee \<Rightarrow> ('a \<Rightarrow> request) \<Rightarrow> (reply_packet \<Rightarrow> 'b jdwp_result) \<Rightarrow> 'a list \<Rightarrow> conn \<Rightarrow> 'b jdwp_result list \<times> conn"
where
  "exchange_wave d f dec xs c =
     (let (ps, c1) = build_requests f xs c; (rs, c2) = read_independently d ps c1
      in (map (\<lambda>r. res_bind r dec) rs, c2))"

section \<open>What the wire may carry\<close>

datatype wire = Read | Mutation | AllowedStateChange

definition CLASS_TYPE_SUPERCLASS :: u8 where "CLASS_TYPE_SUPERCLASS = 1"
definition CLASS_TYPE_SET_VALUES :: u8 where "CLASS_TYPE_SET_VALUES = 2"
definition CLASS_TYPE_INVOKE_METHOD :: u8 where "CLASS_TYPE_INVOKE_METHOD = 3"
definition ARRAY_LENGTH :: u8 where "ARRAY_LENGTH = 1"
definition ARRAY_GET_VALUES :: u8 where "ARRAY_GET_VALUES = 2"
definition ARRAY_SET_VALUES :: u8 where "ARRAY_SET_VALUES = 3"

definition WIRE_COMMANDS :: "((u8 \<times> u8) \<times> wire) list" where
  "WIRE_COMMANDS =
    [((CS_ARRAY_REFERENCE, ARRAY_GET_VALUES), Read),
     ((CS_ARRAY_REFERENCE, ARRAY_LENGTH), Read),
     ((CS_ARRAY_REFERENCE, ARRAY_SET_VALUES), Mutation),
     ((CS_CLASS_TYPE, CLASS_TYPE_INVOKE_METHOD), Mutation),
     ((CS_CLASS_TYPE, CLASS_TYPE_SET_VALUES), Mutation),
     ((CS_CLASS_TYPE, CLASS_TYPE_SUPERCLASS), Read),
     ((CS_EVENT_REQUEST, ER_CLEAR), AllowedStateChange),
     ((CS_EVENT_REQUEST, ER_CLEAR_ALL_BREAKPOINTS), AllowedStateChange),
     ((CS_EVENT_REQUEST, ER_SET), AllowedStateChange),
     ((CS_METHOD, M_VARIABLE_TABLE), Read),
     ((CS_METHOD, M_VARIABLE_TABLE_WITH_GENERIC), Read),
     ((CS_METHOD, M_BYTECODES), Read),
     ((CS_METHOD, M_LINE_TABLE), Read),
     ((CS_OBJECT_REFERENCE, OR_GET_VALUES), Read),
     ((CS_OBJECT_REFERENCE, OR_INVOKE_METHOD), Mutation),
     ((CS_OBJECT_REFERENCE, OR_IS_COLLECTED), Read),
     ((CS_OBJECT_REFERENCE, OR_REFERENCE_TYPE), Read),
     ((CS_OBJECT_REFERENCE, OR_SET_VALUES), Mutation),
     ((CS_REFERENCE_TYPE, RT_METHODS), Read),
     ((CS_REFERENCE_TYPE, RT_METHODS_WITH_GENERIC), Read),
     ((CS_REFERENCE_TYPE, RT_FIELDS), Read),
     ((CS_REFERENCE_TYPE, RT_FIELDS_WITH_GENERIC), Read),
     ((CS_REFERENCE_TYPE, RT_CLASS_LOADER), Read),
     ((CS_REFERENCE_TYPE, RT_GET_VALUES), Read),
     ((CS_REFERENCE_TYPE, RT_INSTANCES), Read),
     ((CS_REFERENCE_TYPE, RT_INTERFACES), Read),
     ((CS_REFERENCE_TYPE, RT_MODIFIERS), Read),
     ((CS_REFERENCE_TYPE, RT_SIGNATURE), Read),
     ((CS_REFERENCE_TYPE, RT_SOURCE_DEBUG_EXTENSION), Read),
     ((CS_REFERENCE_TYPE, RT_SOURCE_FILE), Read),
     ((CS_STACK_FRAME, 2), Mutation),
     ((CS_STACK_FRAME, SF_GET_VALUES), Read),
     ((CS_STACK_FRAME, SF_POP_FRAMES), Mutation),
     ((CS_STACK_FRAME, SF_THIS_OBJECT), Read),
     ((CS_STRING_REFERENCE, SR_VALUE), Read),
     ((CS_THREAD_REFERENCE, T_NAME), Read),
     ((CS_THREAD_REFERENCE, T_STATUS), Read),
     ((CS_THREAD_REFERENCE, T_CURRENT_CONTENDED_MONITOR), Read),
     ((CS_THREAD_REFERENCE, T_FORCE_EARLY_RETURN), Mutation),
     ((CS_THREAD_REFERENCE, T_FRAMES), Read),
     ((CS_THREAD_REFERENCE, T_OWNED_MONITORS), Read),
     ((CS_THREAD_REFERENCE, T_RESUME), AllowedStateChange),
     ((CS_THREAD_REFERENCE, T_SUSPEND), AllowedStateChange),
     ((CS_THREAD_REFERENCE, T_SUSPEND_COUNT), Read),
     ((CS_VIRTUAL_MACHINE, VM_ALL_CLASSES), Read),
     ((CS_VIRTUAL_MACHINE, VM_ALL_THREADS), Read),
     ((CS_VIRTUAL_MACHINE, VM_CAPABILITIES), Read),
     ((CS_VIRTUAL_MACHINE, VM_CAPABILITIES_NEW), Read),
     ((CS_VIRTUAL_MACHINE, VM_CLASSES_BY_SIGNATURE), Read),
     ((CS_VIRTUAL_MACHINE, VM_CREATE_STRING), AllowedStateChange),
     ((CS_VIRTUAL_MACHINE, VM_DISPOSE), AllowedStateChange),
     ((CS_VIRTUAL_MACHINE, VM_INSTANCE_COUNTS), Read),
     ((CS_VIRTUAL_MACHINE, VM_REDEFINE_CLASSES), Mutation),
     ((CS_VIRTUAL_MACHINE, VM_RESUME), AllowedStateChange),
     ((CS_VIRTUAL_MACHINE, VM_SUSPEND), AllowedStateChange),
     ((CS_VIRTUAL_MACHINE, VM_VERSION), Read)]"

definition wire_class :: "command_packet \<Rightarrow> wire option" where
  "wire_class p = map_of WIRE_COMMANDS (cp_command_set p, cp_command p)"

definition wire_of :: "u8 \<Rightarrow> u8 \<Rightarrow> wire option" where
  "wire_of cset cmd = map_of WIRE_COMMANDS (cset, cmd)"

lemmas wire_defs = wire_of_def WIRE_COMMANDS_def command_defs CLASS_TYPE_SUPERCLASS_def
  CLASS_TYPE_SET_VALUES_def CLASS_TYPE_INVOKE_METHOD_def ARRAY_LENGTH_def ARRAY_GET_VALUES_def
  ARRAY_SET_VALUES_def

lemma WIRE_COMMANDS_distinct: "distinct (map fst WIRE_COMMANDS)"
  by (simp add: wire_defs)

text \<open>\<open>evolves b c c'\<close>: \<open>c'\<close> comes from \<open>c\<close> by taking ids from the counter in order, sending classified
  commands that carry them in that order, without touching the settings; and, unless \<open>b\<close>, without
  sending a command that mutates the debuggee.\<close>

definition evolves :: "bool \<Rightarrow> conn \<Rightarrow> conn \<Rightarrow> bool" where
  "evolves b c c' =
     (c_taken c \<le> c_taken c'
      \<and> c_next_id c' = c_next_id c + word_of_nat (c_taken c' - c_taken c)
      \<and> c_read_only c' = c_read_only c \<and> c_invoke_timeout_ms c' = c_invoke_timeout_ms c
      \<and> (\<exists>new. c_sent c' = c_sent c @ new
           \<and> subseq (map cp_id new) (map (\<lambda>k. c_next_id c + word_of_nat k) [0..<c_taken c' - c_taken c])
           \<and> (\<forall>p\<in>set new. wire_class p \<noteq> None \<and> (\<not> b \<longrightarrow> wire_class p \<noteq> Some Mutation))))"

definition op_safe :: "(conn \<Rightarrow> 'r \<times> conn) \<Rightarrow> bool" where
  "op_safe op = (\<forall>c. evolves (\<not> c_read_only c) c (snd (op c)))"

definition op_mutating :: "(conn \<Rightarrow> 'r \<times> conn) \<Rightarrow> bool" where
  "op_mutating op = (\<forall>c. evolves True c (snd (op c)))"

section \<open>Operations evolve the connection\<close>

named_theorems op_intros \<open>operations that evolve the connection\<close>

lemma evolves_refl [simp]: "evolves b c c"
  by (simp add: evolves_def)

lemma evolves_mono: "evolves b c c' \<Longrightarrow> evolves True c c'"
  by (auto simp: evolves_def)

lemma evolves_trans:
  assumes "evolves b c c'" "evolves b c' c''"
  shows "evolves b c c''"
proof -
  let ?m = "c_taken c' - c_taken c" and ?n = "c_taken c'' - c_taken c'"
  have le: "c_taken c \<le> c_taken c'" "c_taken c' \<le> c_taken c''"
    and id: "c_next_id c' = c_next_id c + word_of_nat ?m" "c_next_id c'' = c_next_id c' + word_of_nat ?n"
    using assms by (auto simp: evolves_def)
  have sum: "c_taken c'' - c_taken c = ?m + ?n" using le by simp
  obtain new where new: "c_sent c' = c_sent c @ new"
    "subseq (map cp_id new) (map (\<lambda>k. c_next_id c + word_of_nat k) [0..<?m])"
    "\<forall>p\<in>set new. wire_class p \<noteq> None \<and> (\<not> b \<longrightarrow> wire_class p \<noteq> Some Mutation)"
    using assms(1) by (auto simp: evolves_def)
  obtain new' where new': "c_sent c'' = c_sent c' @ new'"
    "subseq (map cp_id new') (map (\<lambda>k. c_next_id c' + word_of_nat k) [0..<?n])"
    "\<forall>p\<in>set new'. wire_class p \<noteq> None \<and> (\<not> b \<longrightarrow> wire_class p \<noteq> Some Mutation)"
    using assms(2) by (auto simp: evolves_def)
  have "map (\<lambda>k. c_next_id c' + word_of_nat k) [0..<?n] = map (\<lambda>k. c_next_id c + word_of_nat k) [?m..<?m + ?n]"
    by (rule nth_equalityI) (simp_all add: id(1) add.assoc)
  then have "subseq (map cp_id (new @ new')) (map (\<lambda>k. c_next_id c + word_of_nat k) ([0..<?m] @ [?m..<?m + ?n]))"
    using list_emb_append_mono [OF new(2) new'(2)] by simp
  moreover have "[0..<?m] @ [?m..<?m + ?n] = [0..<c_taken c'' - c_taken c]"
    unfolding sum using upt_add_eq_append [of 0 ?m ?n] by simp
  ultimately have "subseq (map cp_id (new @ new')) (map (\<lambda>k. c_next_id c + word_of_nat k) [0..<c_taken c'' - c_taken c])"
    by simp
  moreover have "c_next_id c'' = c_next_id c + word_of_nat (c_taken c'' - c_taken c)"
    unfolding sum id(2) unfolding id(1) by simp
  ultimately show ?thesis
    using assms new(1,3) new'(1,3) le unfolding evolves_def by (intro conjI) (auto intro!: exI [of _ "new @ new'"])
qed

definition advance :: "nat \<Rightarrow> conn \<Rightarrow> conn" where
  "advance n c = c\<lparr>c_next_id := c_next_id c + word_of_nat n, c_taken := c_taken c + n\<rparr>"

lemma advance_simps [simp]:
  "c_next_id (advance n c) = c_next_id c + word_of_nat n" "c_taken (advance n c) = c_taken c + n"
  "c_read_only (advance n c) = c_read_only c" "c_invoke_timeout_ms (advance n c) = c_invoke_timeout_ms c"
  "c_sent (advance n c) = c_sent c" "c_types (advance n c) = c_types c"
  "c_round_trips (advance n c) = c_round_trips c"
  by (simp_all add: advance_def)

lemma advance_0 [simp]: "advance 0 c = c"
  by (simp add: advance_def)

lemma advance_advance: "advance m (advance n c) = advance (n + m) c"
  by (simp add: advance_def add.assoc)

text \<open>A request builder that takes one id and makes a packet of a given class.\<close>

definition sends :: "wire \<Rightarrow> request \<Rightarrow> bool" where
  "sends w f = (\<forall>c. snd (f c) = advance 1 c \<and> cp_id (fst (f c)) = c_next_id c \<and> wire_class (fst (f c)) = Some w)"

lemma sends_request: "wire_of cset cmd = Some w \<Longrightarrow> sends w (request cset cmd data)"
  by (simp add: sends_def request_def next_id_def advance_def command_packet_new_def wire_class_def wire_of_def)

lemma build_requests_snd:
  assumes "\<And>x. sends w (f x)"
  shows "snd (build_requests f xs c) = advance (length xs) c"
proof (induction xs arbitrary: c)
  case (Cons x xs)
  have "snd (f x c) = advance 1 c" using assms by (simp add: sends_def)
  then show ?case
    by (simp add: case_prod_unfold Let_def Cons.IH advance_advance)
qed simp

lemma build_requests_fst:
  assumes "\<And>x. sends w (f x)"
  shows "map cp_id (fst (build_requests f xs c)) = map (\<lambda>k. c_next_id c + word_of_nat k) [0..<length xs]"
    and "length (fst (build_requests f xs c)) = length xs"
    and "\<forall>p\<in>set (fst (build_requests f xs c)). wire_class p = Some w"
proof (induction xs arbitrary: c)
  case (Cons x xs)
  have x: "\<And>c. snd (f x c) = advance 1 c" "\<And>c. cp_id (fst (f x c)) = c_next_id c"
    "\<And>c. wire_class (fst (f x c)) = Some w"
    using assms by (simp_all add: sends_def)
  { case 1
    have "map (\<lambda>k. c_next_id c + 1 + word_of_nat k) [0..<length xs]
        = map (\<lambda>k. c_next_id c + word_of_nat k) [1..<Suc (length xs)]"
      unfolding One_nat_def map_Suc_upt [symmetric] map_map by (simp add: comp_def add.assoc)
    then show ?case
      using Cons.IH(1) [of "advance 1 c"]
      by (simp add: case_prod_unfold Let_def x upt_conv_Cons del: upt_Suc) }
  { case 2 show ?case using Cons.IH(2) by (simp add: case_prod_unfold Let_def) }
  { case 3 show ?case using Cons.IH(3) x by (simp add: case_prod_unfold Let_def) }
qed simp_all

text \<open>Sending some of the given packets in order, and nothing else of note.\<close>

definition sends_some :: "command_packet list \<Rightarrow> conn \<Rightarrow> conn \<Rightarrow> bool" where
  "sends_some ps c c' =
     (c_next_id c' = c_next_id c \<and> c_taken c' = c_taken c \<and> c_read_only c' = c_read_only c
      \<and> c_invoke_timeout_ms c' = c_invoke_timeout_ms c \<and> c_types c' = c_types c
      \<and> (\<exists>new. subseq new ps \<and> c_sent c' = c_sent c @ new))"

lemma sends_some_refl [simp]: "sends_some ps c c"
  by (simp add: sends_some_def)

lemma sends_some_trans:
  "sends_some ps c c' \<Longrightarrow> sends_some qs c' c'' \<Longrightarrow> sends_some (ps @ qs) c c''"
  by (auto simp: sends_some_def intro: list_emb_append_mono)

lemma sends_some_issue: "sends_some [p] c (snd (conn_issue d p c))"
  by (auto simp: sends_some_def conn_issue_def split: option.split)

lemma snd_cbind_clift [simp]: "snd (cbind op (\<lambda>a. clift (g a)) c) = snd (op c)"
  by (auto simp: cbind_def clift_def split: prod.split sum.split)

lemma snd_cbind_clift' [simp]: "snd (cbind op clift c) = snd (op c)"
  using snd_cbind_clift [of op "\<lambda>a. a" c] by (simp add: clift_def [abs_def])

lemma sends_some_send: "sends_some [p] c (snd (send_command d p c))"
  using sends_some_issue [of p "c\<lparr>c_round_trips := c_round_trips c + 1\<rparr>" d]
  by (simp add: send_command_def sends_some_def)

lemma sends_some_invoke: "sends_some [p] c (snd (send_invoke d p c))"
  using sends_some_send [of p c d]
  by (auto simp: send_invoke_def Let_def split: option.split)

lemma sends_some_wave_fold: "sends_some ps c (snd (fold (wave_step d) ps (w, c)))"
proof (induction ps arbitrary: w c)
  case (Cons p ps)
  have "snd (wave_step d p (w, c)) = snd (conn_issue d p c)"
    by (auto simp: wave_step_def Let_def split: prod.split sum.split)
  then have "sends_some [p] c (snd (wave_step d p (w, c)))" using sends_some_issue by simp
  then show ?case
    using Cons.IH [of "snd (wave_step d p (w, c))" "fst (wave_step d p (w, c))"]
      sends_some_trans [of "[p]" c _ ps] by simp
qed simp

lemma sends_some_wave: "sends_some ps c (snd (read_independently d ps c))"
  using sends_some_wave_fold [of ps "c\<lparr>c_round_trips := r\<rparr>" d w for r w]
  by (auto simp: read_independently_def Let_def case_prod_unfold sends_some_def)

lemma evolves_sends:
  assumes ids: "map cp_id ps = map (\<lambda>k. c_next_id c + word_of_nat k) [0..<n]"
    and cls: "\<forall>p\<in>set ps. wire_class p = Some w" and b: "w = Mutation \<Longrightarrow> b"
    and s: "sends_some ps (advance n c) c'"
  shows "evolves b c c'"
proof -
  obtain new where new: "subseq new ps" "c_sent c' = c_sent c @ new" using s by (auto simp: sends_some_def)
  have "subseq (map cp_id new) (map cp_id ps)" using new(1) by (rule subseq_map)
  moreover have "set new \<subseteq> set ps" using new(1) by (auto dest: list_emb_set)
  ultimately show ?thesis
    using s ids cls b new(2) by (auto simp: evolves_def sends_some_def)
qed

lemma evolves_exchange:
  assumes f: "sends w f" and b: "w = Mutation \<Longrightarrow> b"
  shows "evolves b c (snd (exchange d f dec c))" "evolves b c (snd (exchange_invoke d f dec c))"
proof -
  have *: "map cp_id [fst (f c)] = map (\<lambda>k. c_next_id c + word_of_nat k) [0..<1]"
    "\<forall>p\<in>set [fst (f c)]. wire_class p = Some w" "snd (f c) = advance 1 c"
    using f by (simp_all add: sends_def)
  show "evolves b c (snd (exchange d f dec c))"
    using evolves_sends [OF *(1,2) b sends_some_send] *(3) by (simp add: exchange_def case_prod_unfold)
  show "evolves b c (snd (exchange_invoke d f dec c))"
    using evolves_sends [OF *(1,2) b sends_some_invoke] *(3) by (simp add: exchange_invoke_def case_prod_unfold)
qed

lemma op_safe_exchange [op_intros]: "sends w f \<Longrightarrow> w \<noteq> Mutation \<Longrightarrow> op_safe (exchange d f dec)"
  by (auto simp: op_safe_def intro: evolves_exchange)

lemma op_mutating_exchange [op_intros]: "sends w f \<Longrightarrow> op_mutating (exchange d f dec)"
  by (auto simp: op_mutating_def intro: evolves_exchange)

lemma op_mutating_exchange_invoke [op_intros]: "sends w f \<Longrightarrow> op_mutating (exchange_invoke d f dec)"
  by (auto simp: op_mutating_def intro: evolves_exchange)

lemma op_safe_wave [op_intros]:
  assumes f: "\<And>x. sends w (f x)" and w: "w \<noteq> Mutation"
  shows "op_safe (exchange_wave d f dec xs)"
proof -
  have "evolves (\<not> c_read_only c) c (snd (read_independently d (fst (build_requests f xs c)) (advance (length xs) c)))" for c
    using evolves_sends [OF build_requests_fst(1) [OF f] build_requests_fst(3) [OF f] _ sends_some_wave] w by simp
  then show ?thesis
    by (simp add: op_safe_def exchange_wave_def case_prod_unfold Let_def build_requests_snd [OF f])
qed

lemma op_safe_creturn [op_intros]: "op_safe (creturn a)" "op_safe (clift r)"
  by (simp_all add: op_safe_def creturn_def clift_def)

lemma op_mutating_creturn [op_intros]: "op_mutating (creturn a)" "op_mutating (clift r)"
  by (simp_all add: op_mutating_def creturn_def clift_def)

lemma op_safe_set_types [op_intros]: "op_safe (set_types f)"
  by (simp add: op_safe_def set_types_def evolves_def)

lemma op_mutating_set_types [op_intros]: "op_mutating (set_types f)"
  by (simp add: op_mutating_def set_types_def evolves_def)

lemma evolves_settings: "evolves b c c' \<Longrightarrow> c_read_only c' = c_read_only c"
  by (simp add: evolves_def)

lemma op_safe_cbind [op_intros]:
  assumes "op_safe op" "\<And>a. op_safe (f a)"
  shows "op_safe (cbind op f)"
  unfolding op_safe_def
proof
  fix c
  have 1: "evolves (\<not> c_read_only c) c (snd (op c))" using assms(1) by (simp add: op_safe_def)
  have "evolves (\<not> c_read_only c) (snd (op c)) (snd (f a (snd (op c))))" for a
    using assms(2) [of a, unfolded op_safe_def, THEN spec, of "snd (op c)"] evolves_settings [OF 1] by simp
  then show "evolves (\<not> c_read_only c) c (snd (cbind op f c))"
    using 1 evolves_trans [OF 1]
    by (auto simp: cbind_def split: prod.split sum.split)
qed

lemma op_safe_ccatch [op_intros]:
  assumes "op_safe op" "\<And>a. op_safe (f a)"
  shows "op_safe (ccatch op f)"
  unfolding op_safe_def
proof
  fix c
  have 1: "evolves (\<not> c_read_only c) c (snd (op c))" using assms(1) by (simp add: op_safe_def)
  have "evolves (\<not> c_read_only c) (snd (op c)) (snd (f a (snd (op c))))" for a
    using assms(2) [of a, unfolded op_safe_def, THEN spec, of "snd (op c)"] evolves_settings [OF 1] by simp
  then show "evolves (\<not> c_read_only c) c (snd (ccatch op f c))"
    using 1 evolves_trans [OF 1]
    by (auto simp: ccatch_def case_prod_unfold)
qed

lemma op_mutating_cbind [op_intros]:
  assumes "op_mutating op" "\<And>a. op_mutating (f a)"
  shows "op_mutating (cbind op f)"
  unfolding op_mutating_def
proof
  fix c
  have 1: "evolves True c (snd (op c))" using assms(1) by (simp add: op_mutating_def)
  have "evolves True (snd (op c)) (snd (f a (snd (op c))))" for a
    using assms(2) by (simp add: op_mutating_def)
  then show "evolves True c (snd (cbind op f c))"
    using 1 evolves_trans [OF 1]
    by (auto simp: cbind_def split: prod.split sum.split)
qed

lemma op_safe_guard:
  assumes "op_mutating op"
  shows "op_safe (cbind (guard_mutation what) (\<lambda>_. op))"
  using assms by (auto simp: op_safe_def op_mutating_def cbind_def guard_mutation_def is_read_only_def)

lemma guard_refuses:
  "c_read_only c \<Longrightarrow> cbind (guard_mutation what) f c = (Inl (ReadOnly what), c)"
  by (simp add: cbind_def guard_mutation_def is_read_only_def)

lemma guard_passes: "\<not> c_read_only c \<Longrightarrow> cbind (guard_mutation what) (\<lambda>_. op) c = op c"
  by (simp add: cbind_def guard_mutation_def is_read_only_def)

section \<open>Independent reads against the sequential reference\<close>

lemma conn_issue_cong:
  assumes "c_sent c = c_sent c'"
  shows "fst (conn_issue d p c) = fst (conn_issue d p c')"
    and "c_sent (snd (conn_issue d p c)) = c_sent (snd (conn_issue d p c'))"
  using assms by (auto simp: conn_issue_def split: option.split)

lemma send_command_issue:
  "fst (send_command d p c) = (case fst (conn_issue d p c) of Inl e \<Rightarrow> Inl e | Inr r \<Rightarrow> r)"
  "c_sent (snd (send_command d p c)) = c_sent (snd (conn_issue d p c))"
  by (auto simp: send_command_def cbind_def clift_def conn_issue_def split: option.split)

lemma send_each_cong:
  "c_sent c = c_sent c' \<Longrightarrow>
     fst (send_each d ps c) = fst (send_each d ps c')
     \<and> c_sent (snd (send_each d ps c)) = c_sent (snd (send_each d ps c'))"
proof (induction ps arbitrary: c c')
  case (Cons p ps)
  have "fst (send_command d p c) = fst (send_command d p c')"
    "c_sent (snd (send_command d p c)) = c_sent (snd (send_command d p c'))"
    using conn_issue_cong [OF Cons.prems, of d p] by (simp_all add: send_command_issue)
  then show ?case
    using Cons.IH [of "snd (send_command d p c)" "snd (send_command d p c')"]
    by (simp add: case_prod_unfold Let_def)
qed simp

lemma wave_await_parts:
  "w_results (wave_await_oldest w) @ w_window (wave_await_oldest w) = w_results w @ w_window w"
  by (auto simp: wave_await_oldest_def split: list.split)

lemma wave_step_parts:
  "w_results (fst (wave_step d p (w, c))) @ w_window (fst (wave_step d p (w, c)))
     = w_results w @ w_window w @ [fst (send_command d p c)]"
  "snd (wave_step d p (w, c)) = snd (conn_issue d p c)"
  using wave_await_parts [of w]
  by (auto simp: wave_step_def wave_drain_def send_command_issue Let_def split: prod.split sum.split)

lemma wave_fold_parts:
  "w_results (fst (fold (wave_step d) ps (w, c))) @ w_window (fst (fold (wave_step d) ps (w, c)))
     = w_results w @ w_window w @ fst (send_each d ps c)
   \<and> c_sent (snd (fold (wave_step d) ps (w, c))) = c_sent (snd (send_each d ps c))"
proof (induction ps arbitrary: w c)
  case (Cons p ps)
  obtain w' where step: "wave_step d p (w, c) = (w', snd (conn_issue d p c))"
    using wave_step_parts(2) [of d p w c] by (metis prod.collapse)
  have "w_results w' @ w_window w' = w_results w @ w_window w @ [fst (send_command d p c)]"
    using wave_step_parts(1) [of d p w c] step by simp
  moreover have "c_sent (snd (conn_issue d p c)) = c_sent (snd (send_command d p c))"
    by (simp add: send_command_issue)
  note send_each_cong [OF this, of d ps]
  ultimately show ?case
    using Cons.IH [of w' "snd (conn_issue d p c)"] step
    by (simp add: case_prod_unfold Let_def)
qed simp

lemma wave_step_window:
  "length (w_window w) \<le> MAX_READS_IN_FLIGHT \<Longrightarrow>
     length (w_window (fst (wave_step d p (w, c)))) \<le> MAX_READS_IN_FLIGHT"
  by (auto simp: wave_step_def wave_await_oldest_def wave_drain_def MAX_READS_IN_FLIGHT_def Let_def
      split: prod.split sum.split list.split)

lemma wave_fold_window:
  "length (w_window w) \<le> MAX_READS_IN_FLIGHT \<Longrightarrow>
     length (w_window (fst (fold (wave_step d) ps (w, c)))) \<le> MAX_READS_IN_FLIGHT"
proof (induction ps arbitrary: w c)
  case (Cons p ps)
  then show ?case
    using wave_step_window [of w d p c] by (metis fold_simps(2) prod.collapse)
qed simp

lemma length_send_each [simp]: "length (fst (send_each d ps c)) = length ps"
  by (induction ps arbitrary: c) (simp_all add: case_prod_unfold Let_def)

lemma read_independently_sequential:
  "fst (read_independently d ps c) = fst (send_each d ps c)
   \<and> c_sent (snd (read_independently d ps c)) = c_sent (snd (send_each d ps c))"
proof -
  let ?c = "c\<lparr>c_round_trips := c_round_trips c + u32_try_or_max (waves_needed (length ps))\<rparr>"
  have "fst (send_each d ps ?c) = fst (send_each d ps c)"
    "c_sent (snd (send_each d ps ?c)) = c_sent (snd (send_each d ps c))"
    using send_each_cong [of ?c c d ps] by simp_all
  then show ?thesis
    using wave_fold_parts [of d ps "\<lparr>w_window = [], w_results = []\<rparr>" ?c]
    by (simp add: read_independently_def Let_def case_prod_unfold wave_drain_def)
qed

text \<open>
  reading a list of independent commands together gives, position by position, exactly what
  sending them one after the other gives - whichever of them fail, and wherever the event loop stops
  accepting commands - and puts the same commands on the wire in the same order.
\<close>

theorem independent_reads_positional:
  "fst (read_independently d ps c) = fst (send_each d ps c)
   \<and> c_sent (snd (read_independently d ps c)) = c_sent (snd (send_each d ps c))
   \<and> length (fst (read_independently d ps c)) = length ps"
  using read_independently_sequential [of d ps c] by simp

text \<open>
  at no point of a wave are more than sixteen commands issued and not yet awaited, and a wave of n
  commands is charged one round trip per started group of sixteen.
\<close>

theorem independent_reads_bounded:
  "length (w_window (fst (fold (wave_step d) (take k ps) (\<lparr>w_window = [], w_results = []\<rparr>, c)))) \<le> 16
   \<and> c_round_trips (snd (read_independently d ps c)) = c_round_trips c + u32_try_or_max ((length ps + 15) div 16)"
proof
  show "length (w_window (fst (fold (wave_step d) (take k ps) (\<lparr>w_window = [], w_results = []\<rparr>, c)))) \<le> 16"
    using wave_fold_window [of "\<lparr>w_window = [], w_results = []\<rparr>" d "take k ps" c]
    by (simp add: MAX_READS_IN_FLIGHT_def)
next
  have "c_round_trips (snd (fold (wave_step d) ps (w, c'))) = c_round_trips c'" for w c'
  proof (induction ps arbitrary: w c')
    case (Cons p ps)
    have "snd (wave_step d p (w, c')) = snd (conn_issue d p c')" by (rule wave_step_parts(2))
    moreover have "c_round_trips (snd (conn_issue d p c')) = c_round_trips c'"
      by (auto simp: conn_issue_def split: option.split)
    ultimately show ?case using Cons.IH by (metis fold_simps(2) prod.collapse)
  qed simp
  then show "c_round_trips (snd (read_independently d ps c)) = c_round_trips c + u32_try_or_max ((length ps + 15) div 16)"
    by (simp add: read_independently_def Let_def case_prod_unfold waves_needed_def MAX_READS_IN_FLIGHT_def
        add.commute)
qed

text \<open>
  an invocation that outlives its budget is reported as an invocation timeout carrying the budget,
  and its command is on the wire all the same; with no budget, or within it, the invocation gives what
  a plain command gives.
\<close>

theorem send_invoke_budget:
  "send_invoke d p c =
     (if c_invoke_timeout_ms c \<noteq> 0 \<and> dbg_gone d (c_sent c) p = None
         \<and> unat (c_invoke_timeout_ms c) < dbg_latency d (c_sent c) p
      then (Inl (InvokeTimeout (c_invoke_timeout_ms c)), snd (send_command d p c))
      else send_command d p c)
   \<and> c_sent (snd (send_invoke d p c)) = (if dbg_gone d (c_sent c) p = None then c_sent c @ [p] else c_sent c)"
  by (auto simp: send_invoke_def send_command_def conn_issue_def cbind_def clift_def Let_def split: option.split)

end
