(* ===== verification/Eval.thy ===== *)
theory Eval
  imports Connection
begin

text \<open>
  \<open>jdwp-client/src/eval.rs\<close>: type signatures (single, cached, and in a wave), superclasses, \<open>this\<close>,
  and the two invocations, which are guarded and run under the invocation budget.
\<close>

definition INVOKE_SINGLE_THREADED :: u32 where "INVOKE_SINGLE_THREADED = 1"

text \<open>\<open>i32::try_from(n).unwrap_or(i32::MAX)\<close>\<close>

definition i32_try_or_max :: "nat \<Rightarrow> u32" where
  "i32_try_or_max n = (if n < 2 ^ 31 then word_of_nat n else 0x7FFFFFFF)"

definition write_untagged_value :: "tagged_value \<Rightarrow> bytes" where
  "write_untagged_value v =
     (case val_data v of
        VByte x \<Rightarrow> put_be 1 x | VChar x \<Rightarrow> put_be 2 x | VFloat x \<Rightarrow> put_be 4 x | VDouble x \<Rightarrow> put_be 8 x
      | VInt x \<Rightarrow> put_be 4 x | VLong x \<Rightarrow> put_be 8 x | VShort x \<Rightarrow> put_be 2 x
      | VBoolean x \<Rightarrow> put_be 1 (if x then 1 else 0 :: u8) | VObject x \<Rightarrow> put_be 8 x | VVoid \<Rightarrow> [])"

definition write_tagged_value :: "tagged_value \<Rightarrow> bytes" where
  "write_tagged_value v = put_be 1 (val_tag v) @ write_untagged_value v"

definition signature_request :: "u64 \<Rightarrow> request" where
  "signature_request rt = request CS_REFERENCE_TYPE RT_SIGNATURE (put_be 8 rt)"

definition decode_signature_reply :: "reply_packet \<Rightarrow> string jdwp_result" where
  "decode_signature_reply = checked read_string"

definition get_signature :: "debuggee \<Rightarrow> u64 \<Rightarrow> string conn_op" where
  "get_signature d rt c =
     (case cache_signature rt (c_types c) of
        Some hit \<Rightarrow> creturn hit c
      | None \<Rightarrow>
          cbind (exchange d (signature_request rt) decode_signature_reply) (\<lambda>sig.
          cbind (set_types (put_signature rt sig)) (\<lambda>_.
          creturn sig)) c)"

fun signatures_wanted :: "type_cache \<Rightarrow> u64 list \<Rightarrow> u64 list \<Rightarrow> u64 list" where
  "signatures_wanted tc wanted [] = wanted"
| "signatures_wanted tc wanted (i # is) =
     signatures_wanted tc
       (if cache_signature i tc = None \<and> i \<notin> set wanted then wanted @ [i] else wanted) is"

fun store_signatures :: "(u64 \<times> string jdwp_result) list \<Rightarrow> type_cache \<Rightarrow> type_cache" where
  "store_signatures [] tc = tc"
| "store_signatures ((i, Inr sig) # xs) tc = store_signatures xs (put_signature i sig tc)"
| "store_signatures ((i, Inl e) # xs) tc = store_signatures xs tc"

definition read_signatures_independently ::
  "debuggee \<Rightarrow> u64 list \<Rightarrow> conn \<Rightarrow> string jdwp_result list \<times> conn" where
  "read_signatures_independently d ids c =
     (let wanted = signatures_wanted (c_types c) [] ids;
          c2 = (if wanted = [] then c
                else let (sigs, c1) = exchange_wave d signature_request decode_signature_reply wanted c
                     in c1\<lparr>c_types := store_signatures (zip wanted sigs) (c_types c1)\<rparr>)
      in (map (\<lambda>i. case cache_signature i (c_types c2) of
                 Some s \<Rightarrow> Inr s
               | None \<Rightarrow> Inl (Protocol (''the signature of type '' @ show_nat (unat i) @ '' could not be read''))) ids,
          c2))"

definition get_superclass :: "debuggee \<Rightarrow> u64 \<Rightarrow> u64 option conn_op" where
  "get_superclass d cid c =
     (case cache_superclass cid (c_types c) of
        Root \<Rightarrow> creturn None c
      | Parent p \<Rightarrow> creturn (Some p) c
      | Unknown \<Rightarrow>
          cbind (exchange d (request CS_CLASS_TYPE CLASS_TYPE_SUPERCLASS (put_be 8 cid)) (checked read_u64)) (\<lambda>sc.
          let parent = (if sc = 0 then None else Some sc) in
          cbind (set_types (put_superclass cid parent)) (\<lambda>_.
          creturn parent)) c)"

definition get_this_object :: "debuggee \<Rightarrow> u64 \<Rightarrow> u64 \<Rightarrow> u64 conn_op" where
  "get_this_object d thread frame =
     exchange d (request CS_STACK_FRAME SF_THIS_OBJECT (put_be 8 thread @ put_be 8 frame))
       (checked (rbind read_u8 (\<lambda>_. read_u64)))"

definition read_invoke_reply :: "(tagged_value \<times> u64) reader" where
  "read_invoke_reply =
     rbind read_u8 (\<lambda>tag. rbind (read_value_by_tag tag) (\<lambda>v.
     rbind read_u8 (\<lambda>_. rbind read_u64 (\<lambda>exc.
     rreturn (\<lparr>val_tag = tag, val_data = v\<rparr>, exc)))))"

definition put_args :: "tagged_value list \<Rightarrow> bytes" where
  "put_args args = put_be 4 (i32_try_or_max (length args)) @ concat (map write_tagged_value args)"

definition invoke_method ::
  "debuggee \<Rightarrow> u64 \<Rightarrow> u64 \<Rightarrow> u64 \<Rightarrow> u64 \<Rightarrow> tagged_value list \<Rightarrow> (tagged_value \<times> u64) conn_op" where
  "invoke_method d obj thread cls meth args =
     cbind (guard_mutation ''an instance method invocation'') (\<lambda>_.
     exchange_invoke d
       (request CS_OBJECT_REFERENCE OR_INVOKE_METHOD
          (put_be 8 obj @ put_be 8 thread @ put_be 8 cls @ put_be 8 meth @ put_args args
           @ put_be 4 INVOKE_SINGLE_THREADED))
       (checked read_invoke_reply))"

definition invoke_static_method ::
  "debuggee \<Rightarrow> u64 \<Rightarrow> u64 \<Rightarrow> u64 \<Rightarrow> tagged_value list \<Rightarrow> (tagged_value \<times> u64) conn_op" where
  "invoke_static_method d cls thread meth args =
     cbind (guard_mutation ''a static method invocation'') (\<lambda>_.
     exchange_invoke d
       (request CS_CLASS_TYPE CLASS_TYPE_INVOKE_METHOD
          (put_be 8 cls @ put_be 8 thread @ put_be 8 meth @ put_args args @ put_be 4 INVOKE_SINGLE_THREADED))
       (checked read_invoke_reply))"

section \<open>Values on the wire\<close>

lemma write_untagged_value_put: "write_untagged_value v = put_value (val_data v)"
  by (simp add: write_untagged_value_def put_value_def split: value_data.split)

lemma write_tagged_value_put: "write_tagged_value v = put_tagged_value v"
  using write_untagged_value_put [of v] by (simp add: write_tagged_value_def put_tagged_value_def)

lemma framed_read_invoke_reply [framed_intros]: "framed read_invoke_reply"
  unfolding read_invoke_reply_def by (intro framed_intros)

interpretation codec_written_value: wire_codec write_tagged_value read_tagged_value value_ok
  unfolding write_tagged_value_put [abs_def] by unfold_locales (simp_all add: wire_simps framed_intros)

section \<open>Safety of the operations\<close>

lemma wire_of_eval:
  "wire_of CS_REFERENCE_TYPE RT_SIGNATURE = Some Read"
  "wire_of CS_CLASS_TYPE CLASS_TYPE_SUPERCLASS = Some Read"
  "wire_of CS_STACK_FRAME SF_THIS_OBJECT = Some Read"
  "wire_of CS_OBJECT_REFERENCE OR_INVOKE_METHOD = Some Mutation"
  "wire_of CS_CLASS_TYPE CLASS_TYPE_INVOKE_METHOD = Some Mutation"
  by (simp_all add: wire_defs)

lemma sends_signature_request: "sends Read (signature_request rt)"
  unfolding signature_request_def by (rule sends_request) (rule wire_of_eval)

lemma op_safe_case: "(\<And>c. \<exists>op'. op_safe op' \<and> op c = op' c) \<Longrightarrow> op_safe op"
  by (metis op_safe_def)

lemma op_safe_get_signature [op_intros]: "op_safe (get_signature d rt)"
proof (rule op_safe_case)
  fix c
  have "op_safe (cbind (exchange d (signature_request rt) decode_signature_reply) (\<lambda>sig.
      cbind (set_types (put_signature rt sig)) (\<lambda>_. creturn sig)))"
    by (intro op_intros) (rule sends_signature_request, simp)
  then show "\<exists>op'. op_safe op' \<and> get_signature d rt c = op' c"
    by (cases "cache_signature rt (c_types c)") (auto simp: get_signature_def intro: op_intros)
qed

lemma evolves_types [simp]: "evolves b c (c'\<lparr>c_types := t\<rparr>) = evolves b c c'"
  by (simp add: evolves_def)

lemma op_safe_read_signatures [op_intros]: "op_safe (read_signatures_independently d ids)"
proof -
  have "op_safe (exchange_wave d signature_request decode_signature_reply xs)" for xs
    by (rule op_safe_wave [OF sends_signature_request]) simp
  then show ?thesis
    by (simp add: op_safe_def read_signatures_independently_def case_prod_unfold Let_def)
qed

lemma op_safe_get_superclass [op_intros]: "op_safe (get_superclass d cid)"
proof (rule op_safe_case)
  fix c
  have "op_safe (cbind (exchange d (request CS_CLASS_TYPE CLASS_TYPE_SUPERCLASS (put_be 8 cid)) (checked read_u64)) (\<lambda>sc.
          let parent = (if sc = 0 then None else Some sc) in
          cbind (set_types (put_superclass cid parent)) (\<lambda>_. creturn parent)))"
    unfolding Let_def by (intro op_intros) (rule sends_request, rule wire_of_eval, simp)
  then show "\<exists>op'. op_safe op' \<and> get_superclass d cid c = op' c"
    by (cases "cache_superclass cid (c_types c)") (auto simp: get_superclass_def intro: op_intros)
qed

lemma op_safe_get_this_object [op_intros]: "op_safe (get_this_object d t f)"
  unfolding get_this_object_def by (rule op_safe_exchange [OF sends_request [OF wire_of_eval(3)]]) simp

lemma op_safe_invoke_method [op_intros]: "op_safe (invoke_method d obj t cls m args)"
  unfolding invoke_method_def
  by (intro op_safe_guard op_mutating_exchange_invoke sends_request) (rule wire_of_eval)

lemma op_safe_invoke_static_method [op_intros]: "op_safe (invoke_static_method d cls t m args)"
  unfolding invoke_static_method_def
  by (intro op_safe_guard op_mutating_exchange_invoke sends_request) (rule wire_of_eval)

end
