(* ===== verification/ObjectRef.thy ===== *)
theory ObjectRef
  imports Eval
begin

text \<open>
  \<open>jdwp-client/src/object.rs\<close>, \<open>string.rs\<close> and \<open>stackframe.rs\<close>: reading and writing the values of
  objects, classes, strings and frames, one at a time and in waves, and popping a frame.
\<close>

section \<open>Objects\<close>

record field_value =
  fv_field_id :: u64
  fv_value :: tagged_value

text \<open>\<open>values_count\<close> tagged values, as every \<open>GetValues\<close> reply carries them.\<close>

definition read_values :: "tagged_value list reader" where
  "read_values = rbind read_i32 (\<lambda>n. read_n (i32_count n) read_tagged_value)"

definition put_ids :: "u64 list \<Rightarrow> bytes" where
  "put_ids ids = put_be 4 (i32_try_or_max (length ids)) @ concat (map (put_be 8) ids)"

definition put_updates :: "(u64 \<times> tagged_value) list \<Rightarrow> bytes" where
  "put_updates ups =
     put_be 4 (i32_try_or_max (length ups))
     @ concat (map (\<lambda>(f, v). put_be 8 f @ write_untagged_value v) ups)"

definition reference_type_request :: "u64 \<Rightarrow> request" where
  "reference_type_request obj = request CS_OBJECT_REFERENCE OR_REFERENCE_TYPE (put_be 8 obj)"

definition decode_reference_type :: "reply_packet \<Rightarrow> u64 jdwp_result" where
  "decode_reference_type = checked (rbind read_u8 (\<lambda>_. read_u64))"

definition get_object_reference_type :: "debuggee \<Rightarrow> u64 \<Rightarrow> u64 conn_op" where
  "get_object_reference_type d obj = exchange d (reference_type_request obj) decode_reference_type"

definition read_reference_types_independently :: "debuggee \<Rightarrow> u64 list \<Rightarrow> conn \<Rightarrow> u64 jdwp_result list \<times> conn" where
  "read_reference_types_independently d ids = exchange_wave d reference_type_request decode_reference_type ids"

definition is_collected :: "debuggee \<Rightarrow> u64 \<Rightarrow> bool conn_op" where
  "is_collected d obj =
     exchange d (request CS_OBJECT_REFERENCE OR_IS_COLLECTED (put_be 8 obj))
       (checked (rmap (\<lambda>b. b \<noteq> 0) read_u8))"

definition object_values_request :: "u64 \<times> u64 list \<Rightarrow> request" where
  "object_values_request r = request CS_OBJECT_REFERENCE OR_GET_VALUES (put_be 8 (fst r) @ put_ids (snd r))"

definition decode_object_values :: "reply_packet \<Rightarrow> tagged_value list jdwp_result" where
  "decode_object_values = checked read_values"

definition get_object_values :: "debuggee \<Rightarrow> u64 \<Rightarrow> u64 list \<Rightarrow> tagged_value list conn_op" where
  "get_object_values d obj fids = exchange d (object_values_request (obj, fids)) decode_object_values"

definition read_object_values_independently ::
  "debuggee \<Rightarrow> (u64 \<times> u64 list) list \<Rightarrow> conn \<Rightarrow> tagged_value list jdwp_result list \<times> conn" where
  "read_object_values_independently d reads = exchange_wave d object_values_request decode_object_values reads"

definition get_reference_values :: "debuggee \<Rightarrow> u64 \<Rightarrow> u64 list \<Rightarrow> tagged_value list conn_op" where
  "get_reference_values d rt fids =
     exchange d (request CS_REFERENCE_TYPE RT_GET_VALUES (put_be 8 rt @ put_ids fids)) (checked read_values)"

definition set_reference_values :: "debuggee \<Rightarrow> u64 \<Rightarrow> (u64 \<times> tagged_value) list \<Rightarrow> unit conn_op" where
  "set_reference_values d cls updates =
     cbind (guard_mutation ''a static field write'') (\<lambda>_.
     exchange d (request CS_CLASS_TYPE CLASS_TYPE_SET_VALUES (put_be 8 cls @ put_updates updates)) check_error)"

definition set_object_values :: "debuggee \<Rightarrow> u64 \<Rightarrow> (u64 \<times> tagged_value) list \<Rightarrow> unit conn_op" where
  "set_object_values d obj updates =
     cbind (guard_mutation ''an instance field write'') (\<lambda>_.
     exchange d (request CS_OBJECT_REFERENCE OR_SET_VALUES (put_be 8 obj @ put_updates updates)) check_error)"

section \<open>Strings\<close>

definition string_value_request :: "u64 \<Rightarrow> request" where
  "string_value_request i = request CS_STRING_REFERENCE SR_VALUE (put_be 8 i)"

definition decode_string_value :: "reply_packet \<Rightarrow> string jdwp_result" where
  "decode_string_value = checked read_string"

definition get_string_value :: "debuggee \<Rightarrow> u64 \<Rightarrow> string conn_op" where
  "get_string_value d i = exchange d (string_value_request i) decode_string_value"

definition read_string_values_independently :: "debuggee \<Rightarrow> u64 list \<Rightarrow> conn \<Rightarrow> string jdwp_result list \<times> conn" where
  "read_string_values_independently d ids = exchange_wave d string_value_request decode_string_value ids"

section \<open>Frames\<close>

record variable_slot =
  vs_slot :: u32
  vs_sig_byte :: u8

definition frame_values_request :: "u64 \<times> u64 \<times> variable_slot list \<Rightarrow> request" where
  "frame_values_request r =
     (case r of (thread, frame, slots) \<Rightarrow>
        request CS_STACK_FRAME SF_GET_VALUES
          (put_be 8 thread @ put_be 8 frame @ put_be 4 (i32_try_or_max (length slots))
           @ concat (map (\<lambda>s. put_be 4 (vs_slot s) @ put_be 1 (vs_sig_byte s)) slots)))"

definition decode_frame_values :: "reply_packet \<Rightarrow> tagged_value list jdwp_result" where
  "decode_frame_values = checked read_values"

definition get_frame_values :: "debuggee \<Rightarrow> u64 \<Rightarrow> u64 \<Rightarrow> variable_slot list \<Rightarrow> tagged_value list conn_op" where
  "get_frame_values d thread frame slots = exchange d (frame_values_request (thread, frame, slots)) decode_frame_values"

definition read_frame_values_independently ::
  "debuggee \<Rightarrow> (u64 \<times> u64 \<times> variable_slot list) list \<Rightarrow> conn \<Rightarrow> tagged_value list jdwp_result list \<times> conn" where
  "read_frame_values_independently d reads = exchange_wave d frame_values_request decode_frame_values reads"

definition pop_frames :: "debuggee \<Rightarrow> u64 \<Rightarrow> u64 \<Rightarrow> unit conn_op" where
  "pop_frames d thread frame =
     cbind (guard_mutation ''a frame pop'') (\<lambda>_.
     exchange d (request CS_STACK_FRAME SF_POP_FRAMES (put_be 8 thread @ put_be 8 frame)) check_error)"

section \<open>Lemmas\<close>

lemma framed_read_values [framed_intros]: "framed read_values"
  unfolding read_values_def by (intro framed_intros)

definition put_values :: "tagged_value list \<Rightarrow> bytes" where
  "put_values vs = put_be 4 (i32_try_or_max (length vs)) @ concat (map write_tagged_value vs)"

lemma i32_count_try_or_max: "i32_count (i32_try_or_max n) = min n (2 ^ 31 - 1)"
  by (auto simp: i32_try_or_max_def i32_count_def signed_of_nat signed_take_bit_int_eq_self)

lemma read_values_put [wire_simps]:
  "list_all value_ok vs \<Longrightarrow> length vs < 2 ^ 31 \<Longrightarrow> read_values (put_values vs @ rest) = Inr (vs, rest)"
  using codec_written_value.get_put_list [of vs rest]
  by (simp add: read_values_def put_values_def wire_simps i32_count_try_or_max list_all_iff)

interpretation codec_values: wire_codec put_values read_values "\<lambda>vs. list_all value_ok vs \<and> length vs < 2 ^ 31"
  by unfold_locales (simp_all add: wire_simps framed_intros)

lemma op_safe_simple:
  "wire_of cset cmd = Some w \<Longrightarrow> w \<noteq> Mutation \<Longrightarrow> op_safe (exchange d (request cset cmd data) dec)"
  by (rule op_safe_exchange [OF sends_request])

lemma op_safe_guarded:
  "wire_of cset cmd = Some w \<Longrightarrow>
     op_safe (cbind (guard_mutation what) (\<lambda>_. exchange d (request cset cmd data) dec))"
  by (intro op_safe_guard op_mutating_exchange sends_request)

lemma wire_of_object:
  "wire_of CS_OBJECT_REFERENCE OR_REFERENCE_TYPE = Some Read"
  "wire_of CS_OBJECT_REFERENCE OR_IS_COLLECTED = Some Read"
  "wire_of CS_OBJECT_REFERENCE OR_GET_VALUES = Some Read"
  "wire_of CS_REFERENCE_TYPE RT_GET_VALUES = Some Read"
  "wire_of CS_CLASS_TYPE CLASS_TYPE_SET_VALUES = Some Mutation"
  "wire_of CS_OBJECT_REFERENCE OR_SET_VALUES = Some Mutation"
  "wire_of CS_STRING_REFERENCE SR_VALUE = Some Read"
  "wire_of CS_STACK_FRAME SF_GET_VALUES = Some Read"
  "wire_of CS_STACK_FRAME SF_POP_FRAMES = Some Mutation"
  by (simp_all add: wire_defs)

lemma op_safe_object [op_intros]:
  "op_safe (get_object_reference_type d i)"
  "op_safe (is_collected d i)"
  "op_safe (get_object_values d i fs)"
  "op_safe (get_reference_values d i fs)"
  "op_safe (get_string_value d i)"
  "op_safe (get_frame_values d t f slots)"
  unfolding get_object_reference_type_def reference_type_request_def is_collected_def
    get_object_values_def object_values_request_def get_reference_values_def
    get_string_value_def string_value_request_def get_frame_values_def frame_values_request_def prod.case
  by (rule op_safe_simple, rule wire_of_object, simp)+

lemma op_safe_object_writes [op_intros]:
  "op_safe (set_reference_values d i ups)"
  "op_safe (set_object_values d i ups)"
  "op_safe (pop_frames d t f)"
  unfolding set_reference_values_def set_object_values_def pop_frames_def
  by (rule op_safe_guarded, rule wire_of_object)+

lemma sends_object_requests:
  "sends Read (reference_type_request i)" "sends Read (object_values_request r)"
  "sends Read (string_value_request i)" "sends Read (frame_values_request q)"
  by (auto simp: reference_type_request_def object_values_request_def string_value_request_def
      frame_values_request_def wire_of_object intro!: sends_request split: prod.split)

lemma op_safe_object_waves [op_intros]:
  "op_safe (read_reference_types_independently d ids)"
  "op_safe (read_object_values_independently d reads)"
  "op_safe (read_string_values_independently d ids)"
  "op_safe (read_frame_values_independently d frames)"
  unfolding read_reference_types_independently_def read_object_values_independently_def
    read_string_values_independently_def read_frame_values_independently_def
  by (rule op_safe_wave, rule sends_object_requests, simp)+

end
