(* ===== verification/RefType.thy ===== *)
theory RefType
  imports ObjectRef
begin

text \<open>
  \<open>jdwp-client/src/reftype.rs\<close>: the metadata of a loaded type - methods, fields, interfaces, loader,
  modifiers, source - with the fallback from the generic commands to the plain ones, the cache, and
  the walk over the type lattice that decides whether a type implements an interface.
\<close>

definition read_method_info :: "bool \<Rightarrow> method_info reader" where
  "read_method_info with_generic =
     rbind read_u64 (\<lambda>i. rbind read_string (\<lambda>name. rbind read_string (\<lambda>sig.
     rbind (if with_generic then rmap some_if_present read_string else rreturn None) (\<lambda>gen.
     rbind read_i32 (\<lambda>bits.
     rreturn \<lparr>mi_method_id = i, mi_name = name, mi_signature = sig, mi_generic_signature = gen, mi_mod_bits = bits\<rparr>)))))"

definition read_methods :: "debuggee \<Rightarrow> u64 \<Rightarrow> bool \<Rightarrow> method_info list conn_op" where
  "read_methods d rt with_generic =
     exchange d
       (request CS_REFERENCE_TYPE (if with_generic then RT_METHODS_WITH_GENERIC else RT_METHODS) (put_be 8 rt))
       (checked (rbind read_i32 (\<lambda>n. read_n (i32_count n) (read_method_info with_generic))))"

text \<open>\<open>Err(JdwpErrorCode(code, _)) if code == ERR_NOT_IMPLEMENTED\<close>\<close>

definition not_implemented :: "'a jdwp_result \<Rightarrow> bool" where
  "not_implemented r = (case r of Inl (JdwpErrorCode code _) \<Rightarrow> code = ERR_NOT_IMPLEMENTED | _ \<Rightarrow> False)"

definition get_methods :: "debuggee \<Rightarrow> u64 \<Rightarrow> method_info list conn_op" where
  "get_methods d rt c =
     (case cache_methods rt (c_types c) of
        Some hit \<Rightarrow> creturn hit c
      | None \<Rightarrow>
          cbind (ccatch (read_methods d rt True)
                   (\<lambda>r. if not_implemented r then read_methods d rt False else clift r)) (\<lambda>ms.
          cbind (set_types (put_methods rt ms)) (\<lambda>_.
          creturn ms)) c)"

definition get_class_loader :: "debuggee \<Rightarrow> u64 \<Rightarrow> u64 option conn_op" where
  "get_class_loader d rt =
     exchange d (request CS_REFERENCE_TYPE RT_CLASS_LOADER (put_be 8 rt))
       (checked (rmap (\<lambda>l. if l \<noteq> 0 then Some l else None) read_u64))"

definition get_interfaces :: "debuggee \<Rightarrow> u64 \<Rightarrow> u64 list conn_op" where
  "get_interfaces d rt c =
     (case cache_interfaces rt (c_types c) of
        Some hit \<Rightarrow> creturn hit c
      | None \<Rightarrow>
          cbind (exchange d (request CS_REFERENCE_TYPE RT_INTERFACES (put_be 8 rt))
                   (checked (rbind read_i32 (\<lambda>n. read_n (i32_count n) read_u64)))) (\<lambda>ifaces.
          cbind (set_types (put_interfaces rt ifaces)) (\<lambda>_.
          creturn ifaces)) c)"

definition get_modifiers :: "debuggee \<Rightarrow> u64 \<Rightarrow> u32 conn_op" where
  "get_modifiers d rt = exchange d (request CS_REFERENCE_TYPE RT_MODIFIERS (put_be 8 rt)) (checked read_i32)"

definition read_field_info :: "bool \<Rightarrow> field_info reader" where
  "read_field_info with_generic =
     rbind read_u64 (\<lambda>i. rbind read_string (\<lambda>name. rbind read_string (\<lambda>sig.
     rbind (if with_generic then rmap some_if_present read_string else rreturn None) (\<lambda>gen.
     rbind read_i32 (\<lambda>bits.
     rreturn \<lparr>fld_field_id = i, fld_name = name, fld_signature = sig, fld_generic_signature = gen, fld_mod_bits = bits\<rparr>)))))"

definition read_fields :: "debuggee \<Rightarrow> u64 \<Rightarrow> bool \<Rightarrow> field_info list conn_op" where
  "read_fields d rt with_generic =
     exchange d
       (request CS_REFERENCE_TYPE (if with_generic then RT_FIELDS_WITH_GENERIC else RT_FIELDS) (put_be 8 rt))
       (checked (rbind read_i32 (\<lambda>n. read_n (i32_count n) (read_field_info with_generic))))"

definition get_fields :: "debuggee \<Rightarrow> u64 \<Rightarrow> field_info list conn_op" where
  "get_fields d rt c =
     (case cache_fields rt (c_types c) of
        Some hit \<Rightarrow> creturn hit c
      | None \<Rightarrow>
          cbind (ccatch (read_fields d rt True)
                   (\<lambda>r. if not_implemented r then read_fields d rt False else clift r)) (\<lambda>fs.
          cbind (set_types (put_fields rt fs)) (\<lambda>_.
          creturn fs)) c)"

definition get_source_file :: "debuggee \<Rightarrow> u64 \<Rightarrow> string conn_op" where
  "get_source_file d rt = exchange d (request CS_REFERENCE_TYPE RT_SOURCE_FILE (put_be 8 rt)) (checked read_string)"

definition decode_source_debug_extension :: "reply_packet \<Rightarrow> string option jdwp_result" where
  "decode_source_debug_extension reply =
     (if rp_error_code reply = ERR_ABSENT_INFORMATION \<or> rp_error_code reply = ERR_NOT_IMPLEMENTED
      then Inr None
      else res_map Some (checked read_string reply))"

definition get_source_debug_extension :: "debuggee \<Rightarrow> u64 \<Rightarrow> string option conn_op" where
  "get_source_debug_extension d rt =
     exchange d (request CS_REFERENCE_TYPE RT_SOURCE_DEBUG_EXTENSION (put_be 8 rt)) decode_source_debug_extension"

definition instances :: "debuggee \<Rightarrow> u64 \<Rightarrow> u32 \<Rightarrow> tagged_value list conn_op" where
  "instances d rt max_instances =
     (if sint max_instances < 0
      then clift (Inl (Protocol (''max_instances must be 0 (all) or positive, got '' @ show_int (sint max_instances))))
      else exchange d (request CS_REFERENCE_TYPE RT_INSTANCES (put_be 8 rt @ put_be 4 max_instances))
             (checked read_values))"

text \<open>
  The walk of \<open>implements_interface\<close>. The \<open>Vec\<close> used as a stack is kept with its end first, so
  extending it with a list puts that list reversed in front. \<open>budget\<close> is what is left of the 500
  steps; a step that finds it used up ends the walk.
\<close>

definition ok_or :: "'a \<Rightarrow> 'a jdwp_result \<Rightarrow> 'a" where
  "ok_or a r = (case r of Inl _ \<Rightarrow> a | Inr b \<Rightarrow> b)"

fun implements_walk :: "nat \<Rightarrow> debuggee \<Rightarrow> string \<Rightarrow> u64 list \<Rightarrow> u64 list \<Rightarrow> conn \<Rightarrow> bool \<times> conn" where
  "implements_walk budget d wanted seen [] c = (False, c)"
| "implements_walk 0 d wanted seen (cur # stack) c = (False, c)"
| "implements_walk (Suc budget) d wanted seen (cur # stack) c =
     (if cur \<in> set seen then implements_walk budget d wanted seen stack c
      else
        let (sig, c1) = get_signature d cur c in
        if sig = Inr wanted then (True, c1)
        else
          let (ifaces, c2) = get_interfaces d cur c1;
              (parent, c3) = get_superclass d cur c2;
              stack1 = rev (ok_or [] ifaces) @ stack;
              stack2 = (case ok_or None parent of None \<Rightarrow> stack1 | Some p \<Rightarrow> p # stack1)
          in implements_walk budget d wanted (cur # seen) stack2 c3)"

definition implements_interface :: "debuggee \<Rightarrow> u64 \<Rightarrow> string \<Rightarrow> bool conn_op" where
  "implements_interface d type_id wanted c =
     (let (found, c') = implements_walk 500 d wanted [] [type_id] c in (Inr found, c'))"

section \<open>Safety\<close>

lemma wire_of_reftype:
  "wire_of CS_REFERENCE_TYPE RT_METHODS_WITH_GENERIC = Some Read"
  "wire_of CS_REFERENCE_TYPE RT_METHODS = Some Read"
  "wire_of CS_REFERENCE_TYPE RT_FIELDS_WITH_GENERIC = Some Read"
  "wire_of CS_REFERENCE_TYPE RT_FIELDS = Some Read"
  "wire_of CS_REFERENCE_TYPE RT_CLASS_LOADER = Some Read"
  "wire_of CS_REFERENCE_TYPE RT_INTERFACES = Some Read"
  "wire_of CS_REFERENCE_TYPE RT_MODIFIERS = Some Read"
  "wire_of CS_REFERENCE_TYPE RT_SOURCE_FILE = Some Read"
  "wire_of CS_REFERENCE_TYPE RT_SOURCE_DEBUG_EXTENSION = Some Read"
  "wire_of CS_REFERENCE_TYPE RT_INSTANCES = Some Read"
  by (simp_all add: wire_defs)

lemma op_safe_read_members [op_intros]: "op_safe (read_methods d rt b)" "op_safe (read_fields d rt b)"
  unfolding read_methods_def read_fields_def
  by (cases b; simp only: if_True if_False; rule op_safe_simple, rule wire_of_reftype, simp)+

lemma op_safe_if [op_intros]: "op_safe f \<Longrightarrow> op_safe g \<Longrightarrow> op_safe (if b then f else g)"
  by simp

lemma op_safe_get_methods [op_intros]: "op_safe (get_methods d rt)"
proof (rule op_safe_case)
  fix c
  have "op_safe (cbind (ccatch (read_methods d rt True)
        (\<lambda>r. if not_implemented r then read_methods d rt False else clift r)) (\<lambda>ms.
      cbind (set_types (put_methods rt ms)) (\<lambda>_. creturn ms)))"
    by (intro op_intros)
  then show "\<exists>op'. op_safe op' \<and> get_methods d rt c = op' c"
    by (cases "cache_methods rt (c_types c)") (auto simp: get_methods_def intro: op_intros)
qed

lemma op_safe_get_fields [op_intros]: "op_safe (get_fields d rt)"
proof (rule op_safe_case)
  fix c
  have "op_safe (cbind (ccatch (read_fields d rt True)
        (\<lambda>r. if not_implemented r then read_fields d rt False else clift r)) (\<lambda>fs.
      cbind (set_types (put_fields rt fs)) (\<lambda>_. creturn fs)))"
    by (intro op_intros)
  then show "\<exists>op'. op_safe op' \<and> get_fields d rt c = op' c"
    by (cases "cache_fields rt (c_types c)") (auto simp: get_fields_def intro: op_intros)
qed

lemma op_safe_get_interfaces [op_intros]: "op_safe (get_interfaces d rt)"
proof (rule op_safe_case)
  fix c
  have "op_safe (cbind (exchange d (request CS_REFERENCE_TYPE RT_INTERFACES (put_be 8 rt))
        (checked (rbind read_i32 (\<lambda>n. read_n (i32_count n) read_u64)))) (\<lambda>ifaces.
      cbind (set_types (put_interfaces rt ifaces)) (\<lambda>_. creturn ifaces)))"
    by (intro op_intros) (rule sends_request, rule wire_of_reftype, simp)
  then show "\<exists>op'. op_safe op' \<and> get_interfaces d rt c = op' c"
    by (cases "cache_interfaces rt (c_types c)") (auto simp: get_interfaces_def intro: op_intros)
qed

lemma op_safe_reftype [op_intros]:
  "op_safe (get_class_loader d rt)" "op_safe (get_modifiers d rt)" "op_safe (get_source_file d rt)"
  "op_safe (get_source_debug_extension d rt)"
  unfolding get_class_loader_def get_modifiers_def get_source_file_def get_source_debug_extension_def
  by (rule op_safe_simple, rule wire_of_reftype, simp)+

lemma op_safe_instances [op_intros]: "op_safe (instances d rt m)"
  unfolding instances_def
  by (intro op_safe_if op_safe_creturn) (rule op_safe_simple, rule wire_of_reftype, simp)

lemma evolves_op: "op_safe op \<Longrightarrow> c_read_only c = c_read_only c0 \<Longrightarrow> evolves (\<not> c_read_only c0) c (snd (op c))"
  unfolding op_safe_def by (drule spec [of _ c]) simp

lemma op_safe_implements_walk: "op_safe (implements_walk budget d wanted seen stack)"
proof -
  have "evolves (\<not> c_read_only c) c (snd (implements_walk budget d wanted seen stack c))" for c
  proof (induction budget arbitrary: seen stack c)
    case 0
    then show ?case by (cases stack) simp_all
  next
    case (Suc budget)
    show ?case
    proof (cases stack)
      case (Cons cur stack')
    let ?c1 = "snd (get_signature d cur c)"
    let ?c2 = "snd (get_interfaces d cur ?c1)"
    let ?c3 = "snd (get_superclass d cur ?c2)"
    have 1: "evolves (\<not> c_read_only c) c ?c1" by (intro evolves_op op_intros) simp
    note r1 = evolves_settings [OF 1]
    have 2: "evolves (\<not> c_read_only c) ?c1 ?c2" by (intro evolves_op op_intros) (simp add: r1)
    note r2 = evolves_settings [OF 2]
    have 3: "evolves (\<not> c_read_only c) ?c2 ?c3" by (intro evolves_op op_intros) (simp add: r1 r2)
    note r3 = evolves_settings [OF 3]
    have c3: "evolves (\<not> c_read_only c) c ?c3" by (rule evolves_trans [OF evolves_trans [OF 1 2] 3])
    have ro: "c_read_only ?c3 = c_read_only c" by (simp add: r1 r2 r3)
    have "evolves (\<not> c_read_only c) c (snd (implements_walk budget d wanted seen'' stack'' ?c3))" for seen'' stack''
      using Suc.IH [of ?c3 seen'' stack''] evolves_trans [OF c3] ro by simp
    then show ?thesis
      using 1 Cons Suc.IH [of c seen stack'] by (simp add: case_prod_unfold Let_def)
    qed simp
  qed
  then show ?thesis by (simp add: op_safe_def)
qed

lemma op_safe_implements_interface [op_intros]: "op_safe (implements_interface d t w)"
  using op_safe_implements_walk [of 500 d w "[]" "[t]"]
  by (simp add: op_safe_def implements_interface_def case_prod_unfold Let_def)

end
