(* ===== verification/EventRequest.thy ===== *)
theory EventRequest
  imports ObjectRef
begin

text \<open>
  \<open>jdwp-client/src/eventrequest.rs\<close> and the event requests of \<open>extra.rs\<close>: arming and clearing
  breakpoints, steps, exceptions, field watches, method exits, class preparations and monitor events.
  The last sections give the debuggee's reading of an \<open>EventRequest.Set\<close> body, after the JDWP
  specification, and show what it makes of each body the client writes.
\<close>

record event_filters =
  ef_count :: "u32 option"
  ef_thread :: "u64 option"
  ef_instance :: "u64 option"

definition no_filters :: event_filters where
  "no_filters = \<lparr>ef_count = None, ef_thread = None, ef_instance = None\<rparr>"

datatype suspend_policy = SP_None | SP_EventThread | SP_All

fun suspend_policy_byte :: "suspend_policy \<Rightarrow> u8" where
  "suspend_policy_byte SP_None = 0"
| "suspend_policy_byte SP_EventThread = 1"
| "suspend_policy_byte SP_All = 2"

definition MOD_COUNT :: u8 where "MOD_COUNT = 1"
definition MOD_THREAD_ONLY :: u8 where "MOD_THREAD_ONLY = 3"
definition MOD_CLASS_ONLY :: u8 where "MOD_CLASS_ONLY = 4"
definition MOD_CLASS_MATCH :: u8 where "MOD_CLASS_MATCH = 5"
definition MOD_CLASS_EXCLUDE :: u8 where "MOD_CLASS_EXCLUDE = 6"
definition MOD_LOCATION_ONLY :: u8 where "MOD_LOCATION_ONLY = 7"
definition MOD_EXCEPTION_ONLY :: u8 where "MOD_EXCEPTION_ONLY = 8"
definition MOD_FIELD_ONLY :: u8 where "MOD_FIELD_ONLY = 9"
definition MOD_STEP :: u8 where "MOD_STEP = 10"
definition MOD_INSTANCE_ONLY :: u8 where "MOD_INSTANCE_ONLY = 11"

lemmas mod_defs = MOD_COUNT_def MOD_THREAD_ONLY_def MOD_CLASS_ONLY_def MOD_CLASS_MATCH_def
  MOD_CLASS_EXCLUDE_def MOD_LOCATION_ONLY_def MOD_EXCEPTION_ONLY_def MOD_FIELD_ONLY_def MOD_STEP_def
  MOD_INSTANCE_ONLY_def

datatype monitor_kind = MK_Blocked | MK_Acquired | MK_Wait | MK_Waited

definition monitor_kind_ALL :: "monitor_kind list" where
  "monitor_kind_ALL = [MK_Blocked, MK_Acquired, MK_Wait, MK_Waited]"

fun monitor_event_kind :: "monitor_kind \<Rightarrow> u8" where
  "monitor_event_kind MK_Blocked = EK_MONITOR_CONTENDED_ENTER"
| "monitor_event_kind MK_Acquired = EK_MONITOR_CONTENDED_ENTERED"
| "monitor_event_kind MK_Wait = EK_MONITOR_WAIT"
| "monitor_event_kind MK_Waited = EK_MONITOR_WAITED"

fun monitor_label :: "monitor_kind \<Rightarrow> string" where
  "monitor_label MK_Blocked = ''blocked''"
| "monitor_label MK_Acquired = ''acquired''"
| "monitor_label MK_Wait = ''wait''"
| "monitor_label MK_Waited = ''waited''"

fun partner :: "monitor_kind \<Rightarrow> monitor_kind" where
  "partner MK_Blocked = MK_Acquired"
| "partner MK_Acquired = MK_Blocked"
| "partner MK_Wait = MK_Waited"
| "partner MK_Waited = MK_Wait"

definition class_filter_tests_monitor :: "monitor_kind \<Rightarrow> bool" where
  "class_filter_tests_monitor k = (k = MK_Wait \<or> k = MK_Waited)"

datatype watch_kind = WK_Access | WK_Modify

fun watch_event_kind :: "watch_kind \<Rightarrow> u8" where
  "watch_event_kind WK_Access = EK_FIELD_ACCESS"
| "watch_event_kind WK_Modify = EK_FIELD_MODIFICATION"

fun watch_label :: "watch_kind \<Rightarrow> string" where
  "watch_label WK_Access = ''access''"
| "watch_label WK_Modify = ''modify''"

definition method_exit_kind :: "bool \<Rightarrow> u8" where
  "method_exit_kind with_return_value =
     (if with_return_value then EK_METHOD_EXIT_WITH_RETURN_VALUE else EK_METHOD_EXIT)"

section \<open>Writing the modifiers\<close>

definition write_jdwp_string :: "string \<Rightarrow> bytes" where
  "write_jdwp_string s = put_be 4 (u32_try_or_max (length s)) @ string_bytes s"

definition write_count_thread :: "u32 option \<Rightarrow> u64 option \<Rightarrow> bytes" where
  "write_count_thread cnt thread =
     (case cnt of None \<Rightarrow> [] | Some c \<Rightarrow> [MOD_COUNT] @ put_be 4 c)
     @ (case thread of None \<Rightarrow> [] | Some t \<Rightarrow> [MOD_THREAD_ONLY] @ put_be 8 t)"

definition write_instance_only :: "u64 option \<Rightarrow> bytes" where
  "write_instance_only inst = (case inst of None \<Rightarrow> [] | Some obj \<Rightarrow> [MOD_INSTANCE_ONLY] @ put_be 8 obj)"

definition one_if_some :: "'a option \<Rightarrow> u32" where
  "one_if_some v = (if v = None then 0 else 1)"

section \<open>The requests\<close>

definition breakpoint_body :: "u64 \<Rightarrow> u64 \<Rightarrow> u64 \<Rightarrow> suspend_policy \<Rightarrow> bytes" where
  "breakpoint_body cls meth ix sp =
     [EK_BREAKPOINT] @ [suspend_policy_byte sp] @ put_be 4 (1 :: u32) @ [MOD_LOCATION_ONLY] @ [1]
     @ put_be 8 cls @ put_be 8 meth @ put_be 8 ix"

definition set_breakpoint :: "debuggee \<Rightarrow> u64 \<Rightarrow> u64 \<Rightarrow> u64 \<Rightarrow> suspend_policy \<Rightarrow> u32 conn_op" where
  "set_breakpoint d cls meth ix sp =
     exchange d (request CS_EVENT_REQUEST ER_SET (breakpoint_body cls meth ix sp)) (checked read_i32)"

definition breakpoint_ex_body :: "u64 \<Rightarrow> u64 \<Rightarrow> u64 \<Rightarrow> suspend_policy \<Rightarrow> event_filters \<Rightarrow> bytes" where
  "breakpoint_ex_body cls meth ix sp fl =
     [EK_BREAKPOINT] @ [suspend_policy_byte sp]
     @ put_be 4 (1 + one_if_some (ef_count fl) + one_if_some (ef_thread fl) + one_if_some (ef_instance fl))
     @ [MOD_LOCATION_ONLY] @ [1] @ put_be 8 cls @ put_be 8 meth @ put_be 8 ix
     @ (case ef_count fl of None \<Rightarrow> [] | Some c \<Rightarrow> [MOD_COUNT] @ put_be 4 c)
     @ (case ef_thread fl of None \<Rightarrow> [] | Some t \<Rightarrow> [MOD_THREAD_ONLY] @ put_be 8 t)
     @ (case ef_instance fl of None \<Rightarrow> [] | Some obj \<Rightarrow> [MOD_INSTANCE_ONLY] @ put_be 8 obj)"

definition set_breakpoint_ex ::
  "debuggee \<Rightarrow> u64 \<Rightarrow> u64 \<Rightarrow> u64 \<Rightarrow> suspend_policy \<Rightarrow> event_filters \<Rightarrow> u32 conn_op" where
  "set_breakpoint_ex d cls meth ix sp fl =
     exchange d (request CS_EVENT_REQUEST ER_SET (breakpoint_ex_body cls meth ix sp fl)) (checked read_i32)"

definition clear_request :: "debuggee \<Rightarrow> u8 \<Rightarrow> u32 \<Rightarrow> unit conn_op" where
  "clear_request d kind rid =
     exchange d (request CS_EVENT_REQUEST ER_CLEAR ([kind] @ put_be 4 rid)) check_error"

definition clear_breakpoint :: "debuggee \<Rightarrow> u32 \<Rightarrow> unit conn_op" where
  "clear_breakpoint d rid = clear_request d EK_BREAKPOINT rid"

definition class_prepare_body :: "string \<Rightarrow> suspend_policy \<Rightarrow> bytes" where
  "class_prepare_body pat sp =
     [EK_CLASS_PREPARE] @ [suspend_policy_byte sp] @ put_be 4 (1 :: u32) @ [MOD_CLASS_MATCH]
     @ put_be 4 (u32_try_or_max (length pat)) @ string_bytes pat"

definition set_class_prepare :: "debuggee \<Rightarrow> string \<Rightarrow> suspend_policy \<Rightarrow> u32 conn_op" where
  "set_class_prepare d pat sp =
     exchange d (request CS_EVENT_REQUEST ER_SET (class_prepare_body pat sp)) (checked read_i32)"

definition clear_class_prepare :: "debuggee \<Rightarrow> u32 \<Rightarrow> unit conn_op" where
  "clear_class_prepare d rid = clear_request d EK_CLASS_PREPARE rid"

definition exception_body ::
  "u64 option \<Rightarrow> bool \<Rightarrow> bool \<Rightarrow> suspend_policy \<Rightarrow> event_filters \<Rightarrow> bytes" where
  "exception_body rt caught uncaught sp fl =
     [EK_EXCEPTION] @ [suspend_policy_byte sp]
     @ put_be 4 (1 + one_if_some (ef_count fl) + one_if_some (ef_thread fl) + one_if_some (ef_instance fl))
     @ [MOD_EXCEPTION_ONLY] @ put_be 8 (case rt of None \<Rightarrow> 0 | Some r \<Rightarrow> r)
     @ [if caught then 1 else 0] @ [if uncaught then 1 else 0]
     @ write_count_thread (ef_count fl) (ef_thread fl) @ write_instance_only (ef_instance fl)"

definition set_exception_request_ex ::
  "debuggee \<Rightarrow> u64 option \<Rightarrow> bool \<Rightarrow> bool \<Rightarrow> suspend_policy \<Rightarrow> event_filters \<Rightarrow> u32 conn_op" where
  "set_exception_request_ex d rt caught uncaught sp fl =
     exchange d (request CS_EVENT_REQUEST ER_SET (exception_body rt caught uncaught sp fl)) (checked read_i32)"

definition set_exception_request ::
  "debuggee \<Rightarrow> u64 option \<Rightarrow> bool \<Rightarrow> bool \<Rightarrow> suspend_policy \<Rightarrow> u32 conn_op" where
  "set_exception_request d rt caught uncaught sp = set_exception_request_ex d rt caught uncaught sp no_filters"

definition clear_exception_request :: "debuggee \<Rightarrow> u32 \<Rightarrow> unit conn_op" where
  "clear_exception_request d rid = clear_request d EK_EXCEPTION rid"

definition field_watch_body ::
  "u64 \<Rightarrow> u64 \<Rightarrow> watch_kind \<Rightarrow> suspend_policy \<Rightarrow> event_filters \<Rightarrow> bytes" where
  "field_watch_body rt fld kind sp fl =
     [watch_event_kind kind] @ [suspend_policy_byte sp]
     @ put_be 4 (1 + one_if_some (ef_count fl) + one_if_some (ef_thread fl) + one_if_some (ef_instance fl))
     @ [MOD_FIELD_ONLY] @ put_be 8 rt @ put_be 8 fld
     @ write_count_thread (ef_count fl) (ef_thread fl) @ write_instance_only (ef_instance fl)"

definition set_field_watch_ex ::
  "debuggee \<Rightarrow> u64 \<Rightarrow> u64 \<Rightarrow> watch_kind \<Rightarrow> suspend_policy \<Rightarrow> event_filters \<Rightarrow> u32 conn_op" where
  "set_field_watch_ex d rt fld kind sp fl =
     exchange d (request CS_EVENT_REQUEST ER_SET (field_watch_body rt fld kind sp fl)) (checked read_i32)"

definition set_field_watch :: "debuggee \<Rightarrow> u64 \<Rightarrow> u64 \<Rightarrow> watch_kind \<Rightarrow> suspend_policy \<Rightarrow> u32 conn_op" where
  "set_field_watch d rt fld kind sp = set_field_watch_ex d rt fld kind sp no_filters"

definition clear_field_watch :: "debuggee \<Rightarrow> u32 \<Rightarrow> watch_kind \<Rightarrow> unit conn_op" where
  "clear_field_watch d rid kind = clear_request d (watch_event_kind kind) rid"

text \<open>\<open>i32::try_from(n).unwrap_or(0)\<close>\<close>

definition i32_try_or_zero :: "nat \<Rightarrow> u32" where
  "i32_try_or_zero n = (if n < 2 ^ 31 then word_of_nat n else 0)"

definition method_exit_body ::
  "string \<Rightarrow> bool \<Rightarrow> suspend_policy \<Rightarrow> string list \<Rightarrow> event_filters \<Rightarrow> bytes" where
  "method_exit_body pat with_return_value sp exclude fl =
     [method_exit_kind with_return_value] @ [suspend_policy_byte sp]
     @ put_be 4 (1 + one_if_some (ef_count fl) + one_if_some (ef_thread fl) + i32_try_or_zero (length exclude))
     @ [MOD_CLASS_MATCH] @ put_be 4 (u32_try_or_max (length pat)) @ string_bytes pat
     @ concat (map (\<lambda>p. [MOD_CLASS_EXCLUDE] @ put_be 4 (u32_try_or_max (length p)) @ string_bytes p) exclude)
     @ write_count_thread (ef_count fl) (ef_thread fl) @ write_instance_only (ef_instance fl)"

definition set_method_exit_request_ex ::
  "debuggee \<Rightarrow> string \<Rightarrow> bool \<Rightarrow> suspend_policy \<Rightarrow> string list \<Rightarrow> event_filters \<Rightarrow> u32 conn_op" where
  "set_method_exit_request_ex d pat with_return_value sp exclude fl =
     exchange d (request CS_EVENT_REQUEST ER_SET (method_exit_body pat with_return_value sp exclude fl))
       (checked read_i32)"

definition set_method_exit_request ::
  "debuggee \<Rightarrow> string \<Rightarrow> bool \<Rightarrow> suspend_policy \<Rightarrow> u32 option \<Rightarrow> u64 option \<Rightarrow> u32 conn_op" where
  "set_method_exit_request d pat with_return_value sp cnt thread =
     set_method_exit_request_ex d pat with_return_value sp []
       \<lparr>ef_count = cnt, ef_thread = thread, ef_instance = None\<rparr>"

definition clear_method_exit_request :: "debuggee \<Rightarrow> u32 \<Rightarrow> bool \<Rightarrow> unit conn_op" where
  "clear_method_exit_request d rid with_return_value = clear_request d (method_exit_kind with_return_value) rid"

definition monitor_body ::
  "monitor_kind \<Rightarrow> suspend_policy \<Rightarrow> u64 option \<Rightarrow> event_filters \<Rightarrow> bytes" where
  "monitor_body kind sp cls fl =
     [monitor_event_kind kind] @ [suspend_policy_byte sp]
     @ put_be 4 (one_if_some cls + one_if_some (ef_count fl) + one_if_some (ef_thread fl) + one_if_some (ef_instance fl))
     @ (case cls of None \<Rightarrow> [] | Some t \<Rightarrow> [MOD_CLASS_ONLY] @ put_be 8 t)
     @ write_count_thread (ef_count fl) (ef_thread fl) @ write_instance_only (ef_instance fl)"

definition set_monitor_request ::
  "debuggee \<Rightarrow> monitor_kind \<Rightarrow> suspend_policy \<Rightarrow> u64 option \<Rightarrow> event_filters \<Rightarrow> u32 conn_op" where
  "set_monitor_request d kind sp cls fl =
     exchange d (request CS_EVENT_REQUEST ER_SET (monitor_body kind sp cls fl)) (checked read_i32)"

definition clear_monitor_request :: "debuggee \<Rightarrow> u32 \<Rightarrow> monitor_kind \<Rightarrow> unit conn_op" where
  "clear_monitor_request d rid kind = clear_request d (monitor_event_kind kind) rid"

datatype step_depth = SD_Into | SD_Over | SD_Out

fun step_depth_code :: "step_depth \<Rightarrow> u32" where
  "step_depth_code SD_Into = STEP_DEPTH_INTO"
| "step_depth_code SD_Over = STEP_DEPTH_OVER"
| "step_depth_code SD_Out = STEP_DEPTH_OUT"

definition step_body :: "u64 \<Rightarrow> step_depth \<Rightarrow> string list \<Rightarrow> string list \<Rightarrow> bytes" where
  "step_body thread depth exclude only =
     [EK_SINGLE_STEP] @ [suspend_policy_byte SP_All]
     @ put_be 4 (i32_try_or_max (1 + length exclude + length only))
     @ [MOD_STEP] @ put_be 8 thread @ put_be 4 STEP_SIZE_LINE @ put_be 4 (step_depth_code depth)
     @ concat (map (\<lambda>pat. [MOD_CLASS_MATCH] @ write_jdwp_string pat) only)
     @ concat (map (\<lambda>pat. [MOD_CLASS_EXCLUDE] @ write_jdwp_string pat) exclude)"

definition set_step_ex :: "debuggee \<Rightarrow> u64 \<Rightarrow> step_depth \<Rightarrow> string list \<Rightarrow> string list \<Rightarrow> u32 conn_op" where
  "set_step_ex d thread depth exclude only =
     exchange d (request CS_EVENT_REQUEST ER_SET (step_body thread depth exclude only)) (checked read_i32)"

definition set_step :: "debuggee \<Rightarrow> u64 \<Rightarrow> step_depth \<Rightarrow> u32 conn_op" where
  "set_step d thread depth = set_step_ex d thread depth [] []"

definition clear_step :: "debuggee \<Rightarrow> u32 \<Rightarrow> unit conn_op" where
  "clear_step d rid = clear_request d EK_SINGLE_STEP rid"

definition clear_all_breakpoints :: "debuggee \<Rightarrow> unit conn_op" where
  "clear_all_breakpoints d = exchange d (request CS_EVENT_REQUEST ER_CLEAR_ALL_BREAKPOINTS []) check_error"

section \<open>The debuggee's reading of a request\<close>

definition read_modifier :: "event_modifier reader" where
  "read_modifier =
     rbind read_u8 (\<lambda>k.
       if k = 1 then rmap Mod_Count read_i32
       else if k = 3 then rmap Mod_ThreadOnly read_u64
       else if k = 4 then rmap Mod_ClassOnly read_u64
       else if k = 5 then rmap Mod_ClassMatch read_string
       else if k = 6 then rmap Mod_ClassExclude read_string
       else if k = 7 then rmap Mod_LocationOnly read_location
       else if k = 8 then
         rbind read_u64 (\<lambda>r. rbind read_u8 (\<lambda>a. rbind read_u8 (\<lambda>b. rreturn (Mod_ExceptionOnly r (a \<noteq> 0) (b \<noteq> 0)))))
       else if k = 9 then rbind read_u64 (\<lambda>r. rbind read_u64 (\<lambda>f. rreturn (Mod_FieldOnly r f)))
       else if k = 10 then
         rbind read_u64 (\<lambda>t. rbind read_i32 (\<lambda>s. rbind read_i32 (\<lambda>dp. rreturn (Mod_Step t s dp))))
       else if k = 11 then rmap Mod_InstanceOnly read_u64
       else rfail (Protocol ''INVALID modifier''))"

definition read_set_body :: "(u8 \<times> u8 \<times> event_modifier list) reader" where
  "read_set_body =
     rbind read_u8 (\<lambda>kind. rbind read_u8 (\<lambda>sp. rbind read_i32 (\<lambda>n.
     rbind (read_n (i32_count n) read_modifier) (\<lambda>ms. rreturn (kind, sp, ms)))))"

fun put_modifier :: "event_modifier \<Rightarrow> bytes" where
  "put_modifier (Mod_Count c) = [MOD_COUNT] @ put_be 4 c"
| "put_modifier (Mod_ThreadOnly t) = [MOD_THREAD_ONLY] @ put_be 8 t"
| "put_modifier (Mod_ClassOnly t) = [MOD_CLASS_ONLY] @ put_be 8 t"
| "put_modifier (Mod_ClassMatch s) = [MOD_CLASS_MATCH] @ write_jdwp_string s"
| "put_modifier (Mod_ClassExclude s) = [MOD_CLASS_EXCLUDE] @ write_jdwp_string s"
| "put_modifier (Mod_LocationOnly l) = [MOD_LOCATION_ONLY] @ put_location l"
| "put_modifier (Mod_ExceptionOnly r a b) =
     [MOD_EXCEPTION_ONLY] @ put_be 8 r @ [if a then 1 else 0] @ [if b then 1 else 0]"
| "put_modifier (Mod_FieldOnly r f) = [MOD_FIELD_ONLY] @ put_be 8 r @ put_be 8 f"
| "put_modifier (Mod_Step t s dp) = [MOD_STEP] @ put_be 8 t @ put_be 4 s @ put_be 4 dp"
| "put_modifier (Mod_InstanceOnly i) = [MOD_INSTANCE_ONLY] @ put_be 8 i"

fun modifier_ok :: "event_modifier \<Rightarrow> bool" where
  "modifier_ok (Mod_ClassMatch s) = text_ok s"
| "modifier_ok (Mod_ClassExclude s) = text_ok s"
| "modifier_ok _ = True"

definition put_set_body :: "u8 \<Rightarrow> u8 \<Rightarrow> event_modifier list \<Rightarrow> bytes" where
  "put_set_body kind sp ms = [kind] @ [sp] @ put_be 4 (word_of_nat (length ms) :: u32) @ concat (map put_modifier ms)"

lemma write_jdwp_string_put: "text_ok s \<Longrightarrow> write_jdwp_string s = put_string s"
  by (simp add: write_jdwp_string_def put_string_def text_ok_def u32_try_or_max_def)

lemma framed_read_modifier [framed_intros]: "framed read_modifier"
  unfolding read_modifier_def by (intro framed_intros)

lemma read_modifier_put [wire_simps]: "modifier_ok m \<Longrightarrow> read_modifier (put_modifier m @ rest) = Inr (m, rest)"
  by (cases m) (simp_all add: read_modifier_def mod_defs wire_simps rmap_Inr rreturn_def write_jdwp_string_put)

interpretation codec_modifier: wire_codec put_modifier read_modifier modifier_ok
  by unfold_locales (simp_all add: wire_simps framed_intros)

lemma read_set_body_put:
  "list_all modifier_ok ms \<Longrightarrow> length ms < 2 ^ 31 \<Longrightarrow>
     read_set_body (put_set_body kind sp ms @ rest) = Inr ((kind, sp, ms), rest)"
  using codec_modifier.get_put_list [of ms rest]
  by (simp add: read_set_body_def put_set_body_def wire_simps rreturn_def list_all_iff)

section \<open>What each request asks for\<close>

definition filter_modifiers :: "event_filters \<Rightarrow> event_modifier list" where
  "filter_modifiers fl =
     (case ef_count fl of None \<Rightarrow> [] | Some c \<Rightarrow> [Mod_Count c])
     @ (case ef_thread fl of None \<Rightarrow> [] | Some t \<Rightarrow> [Mod_ThreadOnly t])
     @ (case ef_instance fl of None \<Rightarrow> [] | Some i \<Rightarrow> [Mod_InstanceOnly i])"

definition class_location :: "u64 \<Rightarrow> u64 \<Rightarrow> u64 \<Rightarrow> location" where
  "class_location cls meth ix = \<lparr>loc_type_tag = 1, loc_class_id = cls, loc_method_id = meth, loc_index = ix\<rparr>"

lemma filter_modifiers_ok [simp]: "list_all modifier_ok (filter_modifiers fl)"
  by (auto simp: filter_modifiers_def split: option.split)

lemma length_filter_modifiers: "length (filter_modifiers fl) \<le> 3"
  by (auto simp: filter_modifiers_def split: option.split)

lemma filter_modifiers_bytes:
  "concat (map put_modifier (filter_modifiers fl))
     = write_count_thread (ef_count fl) (ef_thread fl) @ write_instance_only (ef_instance fl)"
  by (auto simp: filter_modifiers_def write_count_thread_def write_instance_only_def split: option.split)

lemma one_if_some_simps [simp]: "one_if_some None = 0" "one_if_some (Some a) = 1"
  by (simp_all add: one_if_some_def)

lemma filter_modifiers_count:
  "k + one_if_some (ef_count fl) + one_if_some (ef_thread fl) + one_if_some (ef_instance fl)
     = k + word_of_nat (length (filter_modifiers fl))"
  by (auto simp: filter_modifiers_def one_if_some_def split: option.split)

lemma breakpoint_ex_body_put:
  "breakpoint_ex_body cls meth ix sp fl =
     put_set_body EK_BREAKPOINT (suspend_policy_byte sp) (Mod_LocationOnly (class_location cls meth ix) # filter_modifiers fl)"
  using filter_modifiers_bytes [of fl]
  by (simp add: breakpoint_ex_body_def put_set_body_def filter_modifiers_count class_location_def
      put_location_def write_count_thread_def write_instance_only_def)

lemma breakpoint_body_put:
  "breakpoint_body cls meth ix sp =
     put_set_body EK_BREAKPOINT (suspend_policy_byte sp) [Mod_LocationOnly (class_location cls meth ix)]"
  by (simp add: breakpoint_body_def put_set_body_def class_location_def put_location_def)

lemma class_prepare_body_put:
  "class_prepare_body pat sp = put_set_body EK_CLASS_PREPARE (suspend_policy_byte sp) [Mod_ClassMatch pat]"
  by (simp add: class_prepare_body_def put_set_body_def write_jdwp_string_def)

lemma exception_body_put:
  "exception_body rt caught uncaught sp fl =
     put_set_body EK_EXCEPTION (suspend_policy_byte sp)
       (Mod_ExceptionOnly (case rt of None \<Rightarrow> 0 | Some r \<Rightarrow> r) caught uncaught # filter_modifiers fl)"
  using filter_modifiers_bytes [of fl]
  by (simp add: exception_body_def put_set_body_def filter_modifiers_count)

lemma field_watch_body_put:
  "field_watch_body rt fld kind sp fl =
     put_set_body (watch_event_kind kind) (suspend_policy_byte sp) (Mod_FieldOnly rt fld # filter_modifiers fl)"
  using filter_modifiers_bytes [of fl]
  by (simp add: field_watch_body_def put_set_body_def filter_modifiers_count)

lemma monitor_body_put:
  "monitor_body kind sp cls fl =
     put_set_body (monitor_event_kind kind) (suspend_policy_byte sp)
       ((case cls of None \<Rightarrow> [] | Some t \<Rightarrow> [Mod_ClassOnly t]) @ filter_modifiers fl)"
  using filter_modifiers_bytes [of fl]
  by (cases cls)
    (simp_all add: monitor_body_def put_set_body_def filter_modifiers_count
      filter_modifiers_count [of 0, simplified])

lemma concat_map_singleton_append: "concat (map (\<lambda>x. f x) (map g xs)) = concat (map (\<lambda>x. f (g x)) xs)"
  by (simp add: comp_def)

lemma step_body_put:
  assumes "1 + length exclude + length only < 2 ^ 31"
  shows "step_body thread depth exclude only =
     put_set_body EK_SINGLE_STEP 2
       (Mod_Step thread STEP_SIZE_LINE (step_depth_code depth) # map Mod_ClassMatch only @ map Mod_ClassExclude exclude)"
  using assms
  by (simp add: step_body_def put_set_body_def i32_try_or_max_def comp_def ac_simps)

lemma method_exit_body_put:
  assumes "length exclude < 2 ^ 31"
  shows "method_exit_body pat wr sp exclude fl =
     [method_exit_kind wr] @ [suspend_policy_byte sp]
     @ put_be 4 (word_of_nat (1 + length exclude + length (filter_modifiers (fl\<lparr>ef_instance := None\<rparr>))) :: u32)
     @ concat (map put_modifier (Mod_ClassMatch pat # map Mod_ClassExclude exclude @ filter_modifiers fl))"
proof -
  have eq: "1 + one_if_some (ef_count fl) + one_if_some (ef_thread fl) + i32_try_or_zero (length exclude)
      = word_of_nat (1 + length exclude + length (filter_modifiers (fl\<lparr>ef_instance := None\<rparr>)))"
    using assms by (auto simp: i32_try_or_zero_def one_if_some_def filter_modifiers_def split: option.split)
  show ?thesis
    unfolding eq [symmetric] using filter_modifiers_bytes [of fl]
    by (simp add: method_exit_body_def write_jdwp_string_def comp_def)
qed

lemma read_set_body_exact:
  "list_all modifier_ok ms \<Longrightarrow> length ms < 2 ^ 31 \<Longrightarrow>
     read_set_body (put_set_body kind sp ms) = Inr ((kind, sp, ms), [])"
  using read_set_body_put [of ms kind sp "[]"] by simp

text \<open>
  C40: the debuggee reads out of a breakpoint, exception, field-watch or monitor request exactly the
  event kind, the suspend policy and the modifiers that were asked for, in order, with none missing
  from the count and no byte left over.
\<close>

theorem event_requests_read_back:
  "read_set_body (breakpoint_ex_body cls meth ix sp fl)
     = Inr ((EK_BREAKPOINT, suspend_policy_byte sp, Mod_LocationOnly (class_location cls meth ix) # filter_modifiers fl), [])
   \<and> read_set_body (exception_body rt caught uncaught sp fl)
     = Inr ((EK_EXCEPTION, suspend_policy_byte sp,
             Mod_ExceptionOnly (case rt of None \<Rightarrow> 0 | Some r \<Rightarrow> r) caught uncaught # filter_modifiers fl), [])
   \<and> read_set_body (field_watch_body ref fld wk sp fl)
     = Inr ((watch_event_kind wk, suspend_policy_byte sp, Mod_FieldOnly ref fld # filter_modifiers fl), [])
   \<and> read_set_body (monitor_body mk sp mcls fl)
     = Inr ((monitor_event_kind mk, suspend_policy_byte sp,
             (case mcls of None \<Rightarrow> [] | Some t \<Rightarrow> [Mod_ClassOnly t]) @ filter_modifiers fl), [])"
  using length_filter_modifiers [of fl]
  by (simp add: breakpoint_ex_body_put exception_body_put field_watch_body_put monitor_body_put
      read_set_body_exact split: option.split)

text \<open>
  a step request is read back as one step modifier at line granularity followed by one class-match
  per \<open>only\<close> pattern and one class-exclude per \<open>exclude\<close> pattern.
\<close>

theorem step_request_reads_back:
  assumes "list_all text_ok exclude" "list_all text_ok only" "1 + length exclude + length only < 2 ^ 31"
  shows "read_set_body (step_body thread depth exclude only) =
     Inr ((EK_SINGLE_STEP, 2,
           Mod_Step thread STEP_SIZE_LINE (step_depth_code depth) # map Mod_ClassMatch only @ map Mod_ClassExclude exclude), [])"
  unfolding step_body_put [OF assms(3)]
  by (rule read_set_body_exact) (use assms in \<open>auto simp: list_all_iff\<close>)

theorem step_request_reads_back_witness:
  "read_set_body (step_body 7 SD_Over [''java.*''] []) =
     Inr ((EK_SINGLE_STEP, 2, [Mod_Step 7 STEP_SIZE_LINE STEP_DEPTH_OVER, Mod_ClassExclude ''java.*'']), [])"
proof -
  have "text_ok ''java.*''"
    by (auto simp: text_ok_def string_bytes_def char_byte_def intro!: utf8_ascii)
  then show ?thesis
    using step_request_reads_back [of "[''java.*'']" "[]" 7 SD_Over] by simp
qed

lemma method_exit_read_count:
  assumes "text_ok pat" "list_all text_ok exclude" "length exclude < 2 ^ 31 - 4"
    and split: "filter_modifiers fl = filter_modifiers (fl\<lparr>ef_instance := None\<rparr>) @ tail_mods"
  shows "read_set_body (method_exit_body pat wr sp exclude fl) =
     Inr ((method_exit_kind wr, suspend_policy_byte sp,
           Mod_ClassMatch pat # map Mod_ClassExclude exclude @ filter_modifiers (fl\<lparr>ef_instance := None\<rparr>)),
          concat (map put_modifier tail_mods))"
proof -
  let ?ms = "Mod_ClassMatch pat # map Mod_ClassExclude exclude @ filter_modifiers (fl\<lparr>ef_instance := None\<rparr>)"
  have "method_exit_body pat wr sp exclude fl =
      put_set_body (method_exit_kind wr) (suspend_policy_byte sp) ?ms @ concat (map put_modifier tail_mods)"
    using assms(3) split by (simp add: method_exit_body_put put_set_body_def add.assoc)
  moreover have "list_all modifier_ok ?ms" using assms(1,2) by (simp add: list_all_iff [of modifier_ok "map _ _"] list_all_iff [of text_ok])
  moreover have "length ?ms < 2 ^ 31"
    using assms(3) length_filter_modifiers [of "fl\<lparr>ef_instance := None\<rparr>"] by simp
  ultimately show ?thesis by (simp only: read_set_body_put)
qed

text \<open>
  a method-exit request without an instance filter is read back as the class-match, the
  class-excludes and the filters that were asked for.
\<close>

theorem method_exit_request_reads_back:
  assumes "text_ok pat" "list_all text_ok exclude" "length exclude < 2 ^ 31 - 4" "ef_instance fl = None"
  shows "read_set_body (method_exit_body pat wr sp exclude fl) =
     Inr ((method_exit_kind wr, suspend_policy_byte sp,
           Mod_ClassMatch pat # map Mod_ClassExclude exclude @ filter_modifiers fl), [])"
proof -
  have "fl\<lparr>ef_instance := None\<rparr> = fl" using assms(4) by (cases fl) simp
  then show ?thesis using method_exit_read_count [OF assms(1-3), of fl "[]" wr sp] by simp
qed

text \<open>
  with an instance filter the request under-counts its modifiers: the debuggee reads every other
  modifier, and the nine bytes of the instance filter are left over, unread. (The arming tool refuses
  an instance filter on a method exit before it gets here, so no caller in the server reaches this.)
\<close>

theorem method_exit_instance_left_over:
  assumes "text_ok pat" "list_all text_ok exclude" "length exclude < 2 ^ 31 - 4" "ef_instance fl = Some obj"
  shows "read_set_body (method_exit_body pat wr sp exclude fl) =
     Inr ((method_exit_kind wr, suspend_policy_byte sp,
           Mod_ClassMatch pat # map Mod_ClassExclude exclude @ filter_modifiers (fl\<lparr>ef_instance := None\<rparr>)),
          [MOD_INSTANCE_ONLY] @ put_be 8 obj)"
proof -
  have "filter_modifiers fl = filter_modifiers (fl\<lparr>ef_instance := None\<rparr>) @ [Mod_InstanceOnly obj]"
    using assms(4) by (simp add: filter_modifiers_def)
  from method_exit_read_count [OF assms(1-3) this, of wr sp] show ?thesis by simp
qed

lemma text_ok_ascii: "\<forall>c\<in>set s. of_char c < (128 :: nat) \<Longrightarrow> length s < 2 ^ 32 \<Longrightarrow> text_ok s"
  by (auto simp: text_ok_def string_bytes_def char_byte_def word_less_nat_alt unat_of_nat intro!: utf8_ascii)

theorem method_exit_request_reads_back_witness:
  "read_set_body (method_exit_body ''a.B'' True SP_None [''a.C''] no_filters) =
     Inr ((EK_METHOD_EXIT_WITH_RETURN_VALUE, 0, [Mod_ClassMatch ''a.B'', Mod_ClassExclude ''a.C'']), [])"
  using method_exit_request_reads_back [of "''a.B''" "[''a.C'']" no_filters True SP_None]
  by (simp add: text_ok_ascii no_filters_def filter_modifiers_def method_exit_kind_def)

theorem method_exit_instance_left_over_witness:
  "read_set_body (method_exit_body ''a.B'' True SP_None [] (no_filters\<lparr>ef_instance := Some 5\<rparr>)) =
     Inr ((EK_METHOD_EXIT_WITH_RETURN_VALUE, 0, [Mod_ClassMatch ''a.B'']), [11, 0, 0, 0, 0, 0, 0, 0, 5])"
  using method_exit_instance_left_over [of "''a.B''" "[]" "no_filters\<lparr>ef_instance := Some 5\<rparr>" 5 True SP_None]
  by (simp add: text_ok_ascii no_filters_def filter_modifiers_def method_exit_kind_def mod_defs put_be_def upt_rec)

section \<open>Safety of the operations\<close>

lemma wire_of_event_request:
  "wire_of CS_EVENT_REQUEST ER_SET = Some AllowedStateChange"
  "wire_of CS_EVENT_REQUEST ER_CLEAR = Some AllowedStateChange"
  "wire_of CS_EVENT_REQUEST ER_CLEAR_ALL_BREAKPOINTS = Some AllowedStateChange"
  by (simp_all add: wire_defs)

lemma op_safe_event_requests [op_intros]:
  "op_safe (set_breakpoint d cls meth ix sp)" "op_safe (set_breakpoint_ex d cls meth ix sp fl)"
  "op_safe (set_class_prepare d pat sp)" "op_safe (set_exception_request_ex d rt b b' sp fl)"
  "op_safe (set_field_watch_ex d ref fld wk sp fl)"
  "op_safe (set_method_exit_request_ex d pat wr sp exclude fl)"
  "op_safe (set_monitor_request d mk sp mcls fl)" "op_safe (set_step_ex d thread depth exclude only)"
  "op_safe (clear_request d kind rid)" "op_safe (clear_all_breakpoints d)"
  unfolding set_breakpoint_def set_breakpoint_ex_def set_class_prepare_def set_exception_request_ex_def
    set_field_watch_ex_def set_method_exit_request_ex_def set_monitor_request_def set_step_ex_def
    clear_request_def clear_all_breakpoints_def
  by (rule op_safe_simple, rule wire_of_event_request, simp)+

lemma op_safe_event_request_variants [op_intros]:
  "op_safe (set_exception_request d rt b b' sp)" "op_safe (set_field_watch d ref fld wk sp)"
  "op_safe (set_method_exit_request d pat wr sp cnt thr)" "op_safe (set_step d thread depth)"
  "op_safe (clear_breakpoint d rid)" "op_safe (clear_class_prepare d rid)"
  "op_safe (clear_exception_request d rid)" "op_safe (clear_field_watch d rid wk)"
  "op_safe (clear_method_exit_request d rid wr)" "op_safe (clear_monitor_request d rid mk)"
  "op_safe (clear_step d rid)"
  unfolding set_exception_request_def set_field_watch_def set_method_exit_request_def set_step_def
    clear_breakpoint_def clear_class_prepare_def clear_exception_request_def clear_field_watch_def
    clear_method_exit_request_def clear_monitor_request_def clear_step_def
  by (rule op_safe_event_requests)+

end
