(* ===== verification/Thread.thy ===== *)
theory Thread
  imports ObjectRef
begin

text \<open>
  \<open>jdwp-client/src/thread.rs\<close>: frames, monitors, names and states of threads, suspending and resuming
  threads and the whole VM, the bounded loop that resumes a VM suspended several times over, and the
  forced early return.
\<close>

record frame =
  fr_frame_id :: u64
  fr_location :: location

record monitor =
  mon_tag :: u8
  mon_object_id :: u64

definition read_frame :: "frame reader" where
  "read_frame =
     rbind read_u64 (\<lambda>i. rbind read_u8 (\<lambda>tag. rbind read_u64 (\<lambda>cid. rbind read_u64 (\<lambda>mid. rbind read_u64 (\<lambda>ix.
     rreturn \<lparr>fr_frame_id = i,
       fr_location = \<lparr>loc_type_tag = tag, loc_class_id = cid, loc_method_id = mid, loc_index = ix\<rparr>\<rparr>)))))"

definition get_frames :: "debuggee \<Rightarrow> u64 \<Rightarrow> u32 \<Rightarrow> u32 \<Rightarrow> frame list conn_op" where
  "get_frames d thread start_frame len =
     exchange d (request CS_THREAD_REFERENCE T_FRAMES (put_be 8 thread @ put_be 4 start_frame @ put_be 4 len))
       (checked (rbind read_i32 (\<lambda>n. read_n (i32_count n) read_frame)))"

definition read_monitor :: "monitor reader" where
  "read_monitor =
     rbind read_u8 (\<lambda>tag. rbind read_u64 (\<lambda>i. rreturn \<lparr>mon_tag = tag, mon_object_id = i\<rparr>))"

definition owned_monitors :: "debuggee \<Rightarrow> u64 \<Rightarrow> monitor list conn_op" where
  "owned_monitors d thread =
     exchange d (request CS_THREAD_REFERENCE T_OWNED_MONITORS (put_be 8 thread))
       (checked (rbind read_i32 (\<lambda>n. read_n (i32_count n) read_monitor)))"

definition current_contended_monitor :: "debuggee \<Rightarrow> u64 \<Rightarrow> monitor option conn_op" where
  "current_contended_monitor d thread =
     exchange d (request CS_THREAD_REFERENCE T_CURRENT_CONTENDED_MONITOR (put_be 8 thread))
       (checked (rmap (\<lambda>m. if mon_object_id m \<noteq> 0 then Some m else None) read_monitor))"

definition get_all_threads :: "debuggee \<Rightarrow> u64 list conn_op" where
  "get_all_threads d =
     exchange d (request CS_VIRTUAL_MACHINE VM_ALL_THREADS [])
       (checked (rbind read_i32 (\<lambda>n. read_n (i32_count n) read_u64)))"

definition thread_read_request :: "u8 \<Rightarrow> u64 \<Rightarrow> request" where
  "thread_read_request cmd thread = request CS_THREAD_REFERENCE cmd (put_be 8 thread)"

definition decode_thread_name :: "reply_packet \<Rightarrow> string jdwp_result" where
  "decode_thread_name = checked read_string"

definition decode_thread_status :: "reply_packet \<Rightarrow> (u32 \<times> u32) jdwp_result" where
  "decode_thread_status = checked (rbind read_i32 (\<lambda>t. rbind read_i32 (\<lambda>s. rreturn (t, s))))"

definition get_thread_name :: "debuggee \<Rightarrow> u64 \<Rightarrow> string conn_op" where
  "get_thread_name d thread = exchange d (thread_read_request T_NAME thread) decode_thread_name"

definition read_thread_names_independently :: "debuggee \<Rightarrow> u64 list \<Rightarrow> conn \<Rightarrow> string jdwp_result list \<times> conn" where
  "read_thread_names_independently d threads = exchange_wave d (thread_read_request T_NAME) decode_thread_name threads"

definition read_thread_statuses_independently ::
  "debuggee \<Rightarrow> u64 list \<Rightarrow> conn \<Rightarrow> (u32 \<times> u32) jdwp_result list \<times> conn" where
  "read_thread_statuses_independently d threads =
     exchange_wave d (thread_read_request T_STATUS) decode_thread_status threads"

definition get_thread_status :: "debuggee \<Rightarrow> u64 \<Rightarrow> (u32 \<times> u32) conn_op" where
  "get_thread_status d thread = exchange d (thread_read_request T_STATUS thread) decode_thread_status"

definition suspend_count :: "debuggee \<Rightarrow> u64 \<Rightarrow> u32 conn_op" where
  "suspend_count d thread =
     exchange d (request CS_THREAD_REFERENCE T_SUSPEND_COUNT (put_be 8 thread)) (checked read_i32)"

definition suspend_all :: "debuggee \<Rightarrow> unit conn_op" where
  "suspend_all d = exchange d (request CS_VIRTUAL_MACHINE VM_SUSPEND []) check_error"

definition resume_all :: "debuggee \<Rightarrow> unit conn_op" where
  "resume_all d = exchange d (request CS_VIRTUAL_MACHINE VM_RESUME []) check_error"

text \<open>\<open>self.suspend_count(probe_thread).await.unwrap_or(0)\<close>\<close>

definition suspend_count_or_zero :: "debuggee \<Rightarrow> u64 \<Rightarrow> u32 conn_op" where
  "suspend_count_or_zero d probe = ccatch (suspend_count d probe) (\<lambda>r. creturn (case r of Inl _ \<Rightarrow> 0 | Inr n \<Rightarrow> n))"

fun resume_loop :: "nat \<Rightarrow> debuggee \<Rightarrow> u64 \<Rightarrow> u32 \<Rightarrow> (u32 \<times> u32) conn_op" where
  "resume_loop 0 d probe issued =
     cbind (suspend_count_or_zero d probe) (\<lambda>left. creturn (issued, left))"
| "resume_loop (Suc n) d probe issued =
     cbind (resume_all d) (\<lambda>_.
     cbind (suspend_count_or_zero d probe) (\<lambda>left.
       if sint left \<le> 0 then creturn (issued + 1, 0) else resume_loop n d probe (issued + 1)))"

definition resume_all_fully :: "debuggee \<Rightarrow> u64 \<Rightarrow> u32 \<Rightarrow> (u32 \<times> u32) conn_op" where
  "resume_all_fully d probe max_resumes = resume_loop (unat max_resumes) d probe 0"

definition suspend_thread :: "debuggee \<Rightarrow> u64 \<Rightarrow> unit conn_op" where
  "suspend_thread d thread = exchange d (request CS_THREAD_REFERENCE T_SUSPEND (put_be 8 thread)) check_error"

definition resume_thread :: "debuggee \<Rightarrow> u64 \<Rightarrow> unit conn_op" where
  "resume_thread d thread = exchange d (request CS_THREAD_REFERENCE T_RESUME (put_be 8 thread)) check_error"

definition force_early_return :: "debuggee \<Rightarrow> u64 \<Rightarrow> tagged_value \<Rightarrow> unit conn_op" where
  "force_early_return d thread v =
     cbind (guard_mutation ''a forced early return'') (\<lambda>_.
     exchange d (request CS_THREAD_REFERENCE T_FORCE_EARLY_RETURN (put_be 8 thread @ write_tagged_value v)) check_error)"

section \<open>Safety\<close>

lemma wire_of_thread:
  "wire_of CS_THREAD_REFERENCE T_FRAMES = Some Read"
  "wire_of CS_THREAD_REFERENCE T_OWNED_MONITORS = Some Read"
  "wire_of CS_THREAD_REFERENCE T_CURRENT_CONTENDED_MONITOR = Some Read"
  "wire_of CS_VIRTUAL_MACHINE VM_ALL_THREADS = Some Read"
  "wire_of CS_THREAD_REFERENCE T_NAME = Some Read"
  "wire_of CS_THREAD_REFERENCE T_STATUS = Some Read"
  "wire_of CS_THREAD_REFERENCE T_SUSPEND_COUNT = Some Read"
  "wire_of CS_VIRTUAL_MACHINE VM_SUSPEND = Some AllowedStateChange"
  "wire_of CS_VIRTUAL_MACHINE VM_RESUME = Some AllowedStateChange"
  "wire_of CS_THREAD_REFERENCE T_SUSPEND = Some AllowedStateChange"
  "wire_of CS_THREAD_REFERENCE T_RESUME = Some AllowedStateChange"
  "wire_of CS_THREAD_REFERENCE T_FORCE_EARLY_RETURN = Some Mutation"
  by (simp_all add: wire_defs)

lemma op_safe_thread [op_intros]:
  "op_safe (get_frames d t s n)" "op_safe (owned_monitors d t)" "op_safe (current_contended_monitor d t)"
  "op_safe (get_all_threads d)" "op_safe (get_thread_name d t)" "op_safe (get_thread_status d t)"
  "op_safe (suspend_count d t)" "op_safe (suspend_all d)" "op_safe (resume_all d)"
  "op_safe (suspend_thread d t)" "op_safe (resume_thread d t)"
  unfolding get_frames_def owned_monitors_def current_contended_monitor_def get_all_threads_def
    get_thread_name_def get_thread_status_def thread_read_request_def suspend_count_def suspend_all_def
    resume_all_def suspend_thread_def resume_thread_def
  by (rule op_safe_simple, rule wire_of_thread, simp)+

lemma op_safe_thread_waves [op_intros]:
  "op_safe (read_thread_names_independently d ts)" "op_safe (read_thread_statuses_independently d ts)"
  unfolding read_thread_names_independently_def read_thread_statuses_independently_def thread_read_request_def
  by (rule op_safe_wave, rule sends_request, rule wire_of_thread, simp)+

lemma op_safe_force_early_return [op_intros]: "op_safe (force_early_return d t v)"
  unfolding force_early_return_def by (rule op_safe_guarded [OF wire_of_thread(12)])

lemma op_safe_suspend_count_or_zero [op_intros]: "op_safe (suspend_count_or_zero d t)"
  unfolding suspend_count_or_zero_def by (intro op_intros)

lemma op_safe_when [op_intros]: "op_safe f \<Longrightarrow> op_safe g \<Longrightarrow> op_safe (if b then f else g)"
  by simp

lemma op_safe_resume_loop [op_intros]: "op_safe (resume_loop n d probe issued)"
proof (induction n arbitrary: issued)
  case 0
  then show ?case unfolding resume_loop.simps by (intro op_intros)
next
  case (Suc n)
  show ?case unfolding resume_loop.simps by (intro op_intros Suc.IH)
qed

lemma op_safe_resume_all_fully [op_intros]: "op_safe (resume_all_fully d probe m)"
  unfolding resume_all_fully_def by (rule op_safe_resume_loop)

section \<open>Resuming a VM fully\<close>

definition resumes_in :: "command_packet list \<Rightarrow> nat" where
  "resumes_in ps = length (filter (\<lambda>p. cp_command_set p = CS_VIRTUAL_MACHINE \<and> cp_command p = VM_RESUME) ps)"

lemma resumes_in_append [simp]: "resumes_in (ps @ qs) = resumes_in ps + resumes_in qs"
  by (simp add: resumes_in_def)

text \<open>What an exchange of one command leaves in the log.\<close>

lemma exchange_sent:
  "c_sent (snd (exchange d (request cset cmd data) dec c)) =
     (if dbg_gone d (c_sent c) (fst (request cset cmd data c)) = None
      then c_sent c @ [fst (request cset cmd data c)] else c_sent c)"
  by (auto simp: exchange_def request_def next_id_def send_command_def cbind_def clift_def conn_issue_def
      Let_def split: option.split sum.split)

lemma exchange_Inr_sent:
  "fst (exchange d (request cset cmd data) dec c) = Inr a \<Longrightarrow>
     c_sent (snd (exchange d (request cset cmd data) dec c)) = c_sent c @ [fst (request cset cmd data c)]"
  by (auto simp: exchange_def request_def next_id_def send_command_def cbind_def clift_def conn_issue_def
      Let_def split: option.splits sum.splits)

lemma request_command [simp]:
  "cp_command_set (fst (request cset cmd data c)) = cset" "cp_command (fst (request cset cmd data c)) = cmd"
  by (simp_all add: request_def next_id_def command_packet_new_def)

lemma resume_all_count:
  "fst (resume_all d c) = Inr u \<Longrightarrow> resumes_in (c_sent (snd (resume_all d c))) = resumes_in (c_sent c) + 1"
  unfolding resume_all_def by (simp add: exchange_Inr_sent) (simp add: resumes_in_def)

lemma suspend_count_or_zero_facts:
  "\<exists>n. fst (suspend_count_or_zero d t c) = Inr n"
  "resumes_in (c_sent (snd (suspend_count_or_zero d t c))) = resumes_in (c_sent c)"
proof -
  have eq: "suspend_count_or_zero d t c =
      (Inr (case fst (suspend_count d t c) of Inl _ \<Rightarrow> 0 | Inr n \<Rightarrow> n), snd (suspend_count d t c))"
    by (simp add: suspend_count_or_zero_def ccatch_def creturn_def case_prod_unfold)
  show "\<exists>n. fst (suspend_count_or_zero d t c) = Inr n" by (simp add: eq)
  have "\<not> (CS_THREAD_REFERENCE = CS_VIRTUAL_MACHINE)" by (simp add: command_defs)
  then show "resumes_in (c_sent (snd (suspend_count_or_zero d t c))) = resumes_in (c_sent c)"
    by (simp add: eq suspend_count_def exchange_sent) (simp add: resumes_in_def)
qed

lemma resume_loop_result:
  "fst (resume_loop n d probe issued c) = Inr (k, left) \<Longrightarrow>
     \<exists>m. m \<le> n \<and> k = issued + word_of_nat m
       \<and> resumes_in (c_sent (snd (resume_loop n d probe issued c))) = resumes_in (c_sent c) + m
       \<and> (left \<noteq> 0 \<longrightarrow> m = n)"
proof (induction n arbitrary: issued c)
  case 0
  obtain z where "fst (suspend_count_or_zero d probe c) = Inr z" using suspend_count_or_zero_facts(1) by blast
  with 0 show ?case
    using suspend_count_or_zero_facts(2) [of d probe c]
    by (cases "suspend_count_or_zero d probe c") (auto simp: cbind_def creturn_def)
next
  case (Suc n)
  obtain r1 c1 where r1: "resume_all d c = (r1, c1)" by (cases "resume_all d c")
  obtain z c2 where z: "suspend_count_or_zero d probe c1 = (Inr z, c2)"
    using suspend_count_or_zero_facts(1) [of d probe c1] by (metis prod.collapse)
  show ?case
  proof (cases r1)
    case (Inl e)
    then show ?thesis using Suc.prems r1 by (simp add: cbind_def)
  next
    case (Inr u)
    have count: "resumes_in (c_sent c2) = resumes_in (c_sent c) + 1"
      using resume_all_count [of d c u] suspend_count_or_zero_facts(2) [of d probe c1] r1 z Inr by simp
    show ?thesis
    proof (cases "sint z \<le> 0")
      case True
      then show ?thesis using Suc.prems r1 z Inr count
        by (intro exI [of _ 1]) (auto simp: cbind_def creturn_def)
    next
      case False
      then have eq: "resume_loop (Suc n) d probe issued c = resume_loop n d probe (issued + 1) c2"
        using r1 z Inr by (simp add: cbind_def)
      obtain m where "m \<le> n" "k = issued + 1 + word_of_nat m"
        "resumes_in (c_sent (snd (resume_loop n d probe (issued + 1) c2))) = resumes_in (c_sent c2) + m"
        "left \<noteq> 0 \<longrightarrow> m = n"
        using Suc.IH [of "issued + 1" c2] Suc.prems eq by auto
      then show ?thesis
        unfolding eq using count by (intro exI [of _ "Suc m"]) (simp add: add.assoc)
    qed
  qed
qed

text \<open>
  C38: resuming a VM fully always ends, after at most the allowed number of resumes; the count it
  reports is the number of resume commands it put on the wire; and it reports a remaining suspension
  only when it used every resume it was allowed.
\<close>

theorem resume_all_fully_bounded:
  assumes "resume_all_fully d probe max_resumes c = (Inr (issued, left), c')"
  shows "issued \<le> max_resumes \<and> resumes_in (c_sent c') = resumes_in (c_sent c) + unat issued
    \<and> (left \<noteq> 0 \<longrightarrow> issued = max_resumes)"
proof -
  obtain m where m: "m \<le> unat max_resumes" "issued = word_of_nat m"
    "resumes_in (c_sent c') = resumes_in (c_sent c) + m" "left \<noteq> 0 \<longrightarrow> m = unat max_resumes"
    using resume_loop_result [of "unat max_resumes" d probe 0 c issued left] assms
    by (auto simp: resume_all_fully_def)
  have "m < 2 ^ 32" using m(1) unsigned_less [of max_resumes, where 'a = nat] by simp
  then have "unat issued = m" using m(2) by (simp add: unat_of_nat)
  then show ?thesis using m by (auto simp: word_le_nat_alt)
qed

text \<open>A debuggee that answers every command with success and the same data, at once.\<close>

definition steady_debuggee :: "bytes \<Rightarrow> debuggee" where
  "steady_debuggee data = \<lparr>dbg_answer = (\<lambda>_ p. Inr \<lparr>rp_id = cp_id p, rp_error_code = 0, rp_data = data\<rparr>),
     dbg_latency = (\<lambda>_ _. 0), dbg_gone = (\<lambda>_ _. None)\<rparr>"

lemma exchange_steady:
  "exchange (steady_debuggee data) (request cset cmd body) dec c =
     (let p = (command_packet_new (c_next_id c) cset cmd)\<lparr>cp_data := body\<rparr> in
      (dec \<lparr>rp_id = cp_id p, rp_error_code = 0, rp_data = data\<rparr>,
       c\<lparr>c_next_id := c_next_id c + 1, c_taken := c_taken c + 1, c_round_trips := c_round_trips c + 1,
         c_sent := c_sent c @ [p]\<rparr>))"
  by (simp add: exchange_def request_def next_id_def send_command_def cbind_def clift_def conn_issue_def
      steady_debuggee_def Let_def)

theorem resume_all_fully_bounded_witness:
  "resumes_in (c_sent (snd (resume_all_fully (steady_debuggee [0, 0, 0, 1]) 7 2 connect_init))) = 2"
proof -
  let ?r = "resume_all_fully (steady_debuggee [0, 0, 0, 1]) 7 2 connect_init"
  have "unat (2 :: u32) = Suc (Suc 0)" by simp
  then have "fst ?r = Inr (2, 1)"
    by (simp only: resume_all_fully_def)
      (simp add: cbind_def creturn_def ccatch_def resume_all_def suspend_count_or_zero_def
        suspend_count_def exchange_steady Let_def check_error_def is_error_def
        checked_def run_reader_def read_i32_def get_be_n_def get_be_def)
  then have "?r = (Inr (2, 1), snd ?r)" by (simp add: prod_eq_iff)
  from resume_all_fully_bounded [OF this] show ?thesis
    by (simp add: connect_init_def resumes_in_def)
qed

end
