(* ===== verification/Method.thy ===== *)
theory Method
  imports Thread RefType
begin

text \<open>
  \<open>jdwp-client/src/method.rs\<close>: line tables, bytecode and local-variable tables of methods, each alone
  and in waves. The variable-table wave retries, in place, the positions a VM refused the generic
  command for.
\<close>

record line_table_entry =
  lte_line_code_index :: u64
  lte_line_number :: u32

record line_table =
  lt_start :: u64
  lt_end :: u64
  lt_lines :: "line_table_entry list"

definition line_table_request :: "u64 \<times> u64 \<Rightarrow> request" where
  "line_table_request p = request CS_METHOD M_LINE_TABLE (put_be 8 (fst p) @ put_be 8 (snd p))"

definition read_line_table :: "line_table reader" where
  "read_line_table =
     rbind read_u64 (\<lambda>s. rbind read_u64 (\<lambda>e. rbind read_i32 (\<lambda>n.
     rbind (read_n (i32_count n)
       (rbind read_u64 (\<lambda>ix. rbind read_i32 (\<lambda>ln.
        rreturn \<lparr>lte_line_code_index = ix, lte_line_number = ln\<rparr>)))) (\<lambda>ls.
     rreturn \<lparr>lt_start = s, lt_end = e, lt_lines = ls\<rparr>))))"

definition decode_line_table :: "reply_packet \<Rightarrow> line_table jdwp_result" where
  "decode_line_table = checked read_line_table"

definition get_line_table :: "debuggee \<Rightarrow> u64 \<Rightarrow> u64 \<Rightarrow> line_table conn_op" where
  "get_line_table d rt m = exchange d (line_table_request (rt, m)) decode_line_table"

definition read_line_tables_independently ::
  "debuggee \<Rightarrow> (u64 \<times> u64) list \<Rightarrow> conn \<Rightarrow> line_table jdwp_result list \<times> conn" where
  "read_line_tables_independently d ps = exchange_wave d line_table_request decode_line_table ps"

definition read_bytecodes :: "bytes reader" where
  "read_bytecodes =
     rbind read_i32 (\<lambda>n. let cnt = i32_count n in
       (\<lambda>buf. if length buf < cnt
              then Inl (Protocol (''Method.Bytecodes claimed '' @ show_nat cnt
                     @ '' byte(s) but the reply holds '' @ show_nat (length buf)))
              else Inr (take cnt buf, drop cnt buf)))"

definition get_bytecodes :: "debuggee \<Rightarrow> u64 \<Rightarrow> u64 \<Rightarrow> bytes conn_op" where
  "get_bytecodes d rt m =
     exchange d (request CS_METHOD M_BYTECODES (put_be 8 rt @ put_be 8 m)) (checked read_bytecodes)"

definition variable_table_request :: "bool \<Rightarrow> u64 \<times> u64 \<Rightarrow> request" where
  "variable_table_request with_generic p =
     request CS_METHOD (if with_generic then M_VARIABLE_TABLE_WITH_GENERIC else M_VARIABLE_TABLE)
       (put_be 8 (fst p) @ put_be 8 (snd p))"

definition read_variable :: "bool \<Rightarrow> variable reader" where
  "read_variable with_generic =
     rbind read_u64 (\<lambda>ix. rbind read_string (\<lambda>name. rbind read_string (\<lambda>sig.
     rbind (if with_generic then rmap some_if_present read_string else rreturn None) (\<lambda>gen.
     rbind read_u32 (\<lambda>len. rbind read_u32 (\<lambda>slot.
     rreturn \<lparr>var_code_index = ix, var_name = name, var_signature = sig, var_generic_signature = gen,
       var_length = len, var_slot = slot\<rparr>))))))"

definition decode_variable_table :: "bool \<Rightarrow> reply_packet \<Rightarrow> variable list jdwp_result" where
  "decode_variable_table with_generic =
     checked (rbind read_i32 (\<lambda>_. rbind read_i32 (\<lambda>n. read_n (i32_count n) (read_variable with_generic))))"

definition read_variable_table :: "debuggee \<Rightarrow> bool \<Rightarrow> u64 \<Rightarrow> u64 \<Rightarrow> variable list conn_op" where
  "read_variable_table d with_generic rt m =
     exchange d (variable_table_request with_generic (rt, m)) (decode_variable_table with_generic)"

definition get_variable_table :: "debuggee \<Rightarrow> u64 \<Rightarrow> u64 \<Rightarrow> variable list conn_op" where
  "get_variable_table d rt m =
     ccatch (read_variable_table d True rt m)
       (\<lambda>r. if not_implemented r then read_variable_table d False rt m else clift r)"

definition variable_table_wave ::
  "debuggee \<Rightarrow> bool \<Rightarrow> (u64 \<times> u64) list \<Rightarrow> conn \<Rightarrow> variable list jdwp_result list \<times> conn" where
  "variable_table_wave d with_generic ps =
     exchange_wave d (variable_table_request with_generic) (decode_variable_table with_generic) ps"

text \<open>\<open>retry\<close>: the positions refused as not implemented, each with its pair.\<close>

definition retry_positions ::
  "variable list jdwp_result list \<Rightarrow> (u64 \<times> u64) list \<Rightarrow> (nat \<times> u64 \<times> u64) list" where
  "retry_positions results ps =
     map (\<lambda>i. (i, ps ! i)) (filter (\<lambda>i. not_implemented (results ! i) \<and> i < length ps) [0..<length results])"

fun patch :: "'a list \<Rightarrow> (nat \<times> 'a) list \<Rightarrow> 'a list" where
  "patch out [] = out"
| "patch out ((i, a) # xs) = patch (if i < length out then out[i := a] else out) xs"

definition read_variable_tables_independently ::
  "debuggee \<Rightarrow> (u64 \<times> u64) list \<Rightarrow> conn \<Rightarrow> variable list jdwp_result list \<times> conn" where
  "read_variable_tables_independently d ps c =
     (let (generic, c1) = variable_table_wave d True ps c;
          retry = retry_positions generic ps
      in if retry = [] then (generic, c1)
         else let (plain, c2) = variable_table_wave d False (map snd retry) c1
              in (patch generic (zip (map fst retry) plain), c2))"

section \<open>Lemmas\<close>

lemma wire_of_method:
  "wire_of CS_METHOD M_LINE_TABLE = Some Read" "wire_of CS_METHOD M_BYTECODES = Some Read"
  "wire_of CS_METHOD M_VARIABLE_TABLE_WITH_GENERIC = Some Read" "wire_of CS_METHOD M_VARIABLE_TABLE = Some Read"
  by (simp_all add: wire_defs)

lemma sends_method_requests: "sends Read (line_table_request p)" "sends Read (variable_table_request b p)"
  by (auto simp: line_table_request_def variable_table_request_def wire_of_method intro!: sends_request)

lemma op_safe_method [op_intros]:
  "op_safe (get_line_table d rt m)" "op_safe (read_variable_table d b rt m)"
  unfolding get_line_table_def read_variable_table_def
  by (rule op_safe_exchange, rule sends_method_requests, simp)+

lemma op_safe_get_bytecodes [op_intros]: "op_safe (get_bytecodes d rt m)"
  unfolding get_bytecodes_def by (rule op_safe_simple, rule wire_of_method, simp)

lemma op_safe_get_variable_table [op_intros]: "op_safe (get_variable_table d rt m)"
  unfolding get_variable_table_def by (intro op_intros)

lemma op_safe_method_waves [op_intros]:
  "op_safe (read_line_tables_independently d ps)" "op_safe (variable_table_wave d b ps)"
  unfolding read_line_tables_independently_def variable_table_wave_def
  by (rule op_safe_wave, rule sends_method_requests, simp)+

lemma op_safe_then:
  assumes "op_safe op" "\<And>a. op_safe (f a)"
  shows "op_safe (\<lambda>c. case op c of (a, c') \<Rightarrow> f a c')"
  unfolding op_safe_def
proof (intro allI)
  fix c
  have 1: "evolves (\<not> c_read_only c) c (snd (op c))" using assms(1) by (simp add: op_safe_def)
  have "evolves (\<not> c_read_only c) (snd (op c)) (snd (f (fst (op c)) (snd (op c))))"
    using evolves_op [OF assms(2), of "snd (op c)" c] evolves_settings [OF 1] by simp
  then show "evolves (\<not> c_read_only c) c (snd (case op c of (a, c') \<Rightarrow> f a c'))"
    using evolves_trans [OF 1] by (simp add: case_prod_unfold)
qed

lemma op_safe_mapped: "op_safe op \<Longrightarrow> op_safe (\<lambda>c. case op c of (a, c') \<Rightarrow> (g a, c'))"
  by (simp add: op_safe_def case_prod_unfold)

lemma op_safe_variable_tables [op_intros]: "op_safe (read_variable_tables_independently d ps)"
proof -
  have "op_safe (\<lambda>c1. if retry_positions generic ps = [] then (generic, c1)
      else case variable_table_wave d False (map snd (retry_positions generic ps)) c1 of
        (plain, c2) \<Rightarrow> (patch generic (zip (map fst (retry_positions generic ps)) plain), c2))" for generic
    using op_safe_mapped [OF op_safe_method_waves(2)]
    by (cases "retry_positions generic ps = []") (simp_all add: op_safe_def)
  from op_safe_then [OF op_safe_method_waves(2) this] show ?thesis
    by (simp only: read_variable_tables_independently_def [abs_def] Let_def)
qed

lemma framed_read_line_table [framed_intros]: "framed read_line_table"
  unfolding read_line_table_def by (intro framed_intros)

lemma framed_read_variable [framed_intros]: "framed (read_variable b)"
  unfolding read_variable_def by (intro framed_intros)

section \<open>The retry wave is positional\<close>

lemma length_patch [simp]: "length (patch out xs) = length out"
  by (induction out xs rule: patch.induct) simp_all

lemma patch_nth:
  "distinct (map fst xs) \<Longrightarrow> i < length out \<Longrightarrow>
     patch out xs ! i = (case map_of xs i of Some a \<Rightarrow> a | None \<Rightarrow> out ! i)"
  by (induction out xs rule: patch.induct) (auto split: option.split dest: map_of_SomeD simp: image_iff Bex_def)

lemma length_wave [simp]:
  assumes "\<And>x. sends w (f x)"
  shows "length (fst (exchange_wave d f dec xs c)) = length xs"
proof -
  have "length (fst (read_independently d ps c')) = length ps" for ps c'
    using read_independently_sequential [of d ps c'] by simp
  then show ?thesis
    by (simp add: exchange_wave_def case_prod_unfold Let_def build_requests_fst(2) [OF assms])
qed

lemma length_variable_table_wave [simp]: "length (fst (variable_table_wave d b ps c)) = length ps"
  unfolding variable_table_wave_def by (rule length_wave) (rule sends_method_requests)

text \<open>
  the variable tables of a list of methods come back one per method, in order: a position the VM
  answered, or refused for any other reason, keeps the answer of the first wave, and a position
  refused as not implemented gets an answer of the second, plain wave, never a neighbour's.
\<close>

theorem variable_tables_positional:
  assumes "read_variable_tables_independently d ps c = (out, c')"
    and "variable_table_wave d True ps c = (generic, c1)"
  shows "length out = length ps
    \<and> (\<forall>i < length ps. \<not> not_implemented (generic ! i) \<longrightarrow> out ! i = generic ! i)
    \<and> (\<forall>j < length (retry_positions generic ps).
         out ! fst (retry_positions generic ps ! j)
           = fst (variable_table_wave d False (map snd (retry_positions generic ps)) c1) ! j)"
proof -
  let ?retry = "retry_positions generic ps"
  let ?plain = "fst (variable_table_wave d False (map snd ?retry) c1)"
  have len: "length generic = length ps" using length_variable_table_wave [of d True ps c] assms(2) by simp
  have out: "out = patch generic (zip (map fst ?retry) ?plain)"
    using assms by (auto simp: read_variable_tables_independently_def Let_def case_prod_unfold split: if_splits)
  have lp: "length ?plain = length ?retry" by simp
  have fsts: "map fst ?retry = filter (\<lambda>i. not_implemented (generic ! i) \<and> i < length ps) [0..<length generic]"
    by (simp add: retry_positions_def comp_def)
  then have dist: "distinct (map fst (zip (map fst ?retry) ?plain))"
    using lp by (simp add: map_fst_zip_take)
  have 1: "out ! i = generic ! i" if "i < length ps" "\<not> not_implemented (generic ! i)" for i
  proof -
    have "map_of (zip (map fst ?retry) ?plain) i = None"
    proof (subst map_of_zip_is_None)
      show "length (map fst ?retry) = length ?plain" using lp by simp
      show "i \<notin> set (map fst ?retry)" unfolding fsts using that by simp
    qed
    then show ?thesis using patch_nth [OF dist, of i generic] out that len
      by (simp del: map_of_zip_is_None map_of_eq_None_iff)
  qed
  have 2: "out ! fst (?retry ! j) = ?plain ! j" if j: "j < length ?retry" for j
  proof -
    have "fst (?retry ! j) \<in> set (map fst ?retry)" using j by simp
    then have "fst (?retry ! j) < length generic" unfolding fsts by simp
    moreover have "map_of (zip (map fst ?retry) ?plain) (map fst ?retry ! j) = Some (?plain ! j)"
    proof (rule map_of_zip_nth)
      show "length (map fst ?retry) = length ?plain" using lp by simp
      show "distinct (map fst ?retry)" unfolding fsts by simp
      show "j < length ?plain" using j lp by simp
    qed
    ultimately show ?thesis using patch_nth [OF dist] out j by simp
  qed
  show ?thesis using 1 2 out len by simp
qed

theorem variable_tables_positional_witness:
  "length (fst (read_variable_tables_independently (steady_debuggee [0, 0, 0, 0, 0, 0, 0, 0]) [(1, 2), (3, 4)] connect_init)) = 2"
  using variable_tables_positional
    [of "steady_debuggee [0, 0, 0, 0, 0, 0, 0, 0]" "[(1, 2), (3, 4)]" connect_init _ _ _ _, OF prod.collapse [symmetric] prod.collapse [symmetric]]
  by simp

end
