(* ===== verification/Vm.thy ===== *)
theory Vm
  imports Thread
begin

text \<open>
  \<open>jdwp-client/src/vm.rs\<close> and the array, string and local-variable commands of \<open>extra.rs\<close>: the VM's
  version and capabilities, instance counts, class lookup, class redefinition with the invalidation
  of the type cache, detaching, array and local-variable access.
\<close>

section \<open>The VM\<close>

record vm_version =
  vv_description :: string
  vv_jdwp_major :: u32
  vv_jdwp_minor :: u32
  vv_vm_version :: string
  vv_vm_name :: string

record vm_capabilities =
  can_watch_field_modification :: bool
  can_watch_field_access :: bool
  can_get_bytecodes :: bool
  can_get_synthetic_attribute :: bool
  can_get_owned_monitor_info :: bool
  can_get_current_contended_monitor :: bool
  can_get_monitor_info :: bool

record vm_capabilities_new =
  can_redefine_classes :: bool
  can_add_method :: bool
  can_unrestrictedly_redefine_classes :: bool
  can_pop_frames :: bool
  can_use_instance_filters :: bool
  can_get_instance_info :: bool
  can_request_monitor_events :: bool
  can_get_monitor_frame_info :: bool

record class_info =
  ci_ref_type_tag :: u8
  ci_type_id :: u64
  ci_signature :: string
  ci_status :: u32

definition read_version :: "vm_version reader" where
  "read_version =
     rbind read_string (\<lambda>ds. rbind read_i32 (\<lambda>ma. rbind read_i32 (\<lambda>mi. rbind read_string (\<lambda>ver.
     rbind read_string (\<lambda>name.
     rreturn \<lparr>vv_description = ds, vv_jdwp_major = ma, vv_jdwp_minor = mi, vv_vm_version = ver, vv_vm_name = name\<rparr>)))))"

definition get_version :: "debuggee \<Rightarrow> vm_version conn_op" where
  "get_version d = exchange d (request CS_VIRTUAL_MACHINE VM_VERSION []) (checked read_version)"

definition can_get_method_return_values :: "debuggee \<Rightarrow> bool conn_op" where
  "can_get_method_return_values d =
     cbind (get_version d) (\<lambda>v.
     creturn (1 < sint (vv_jdwp_major v) \<or> (sint (vv_jdwp_major v) = 1 \<and> 6 \<le> sint (vv_jdwp_minor v))))"

definition read_flag :: "bool reader" where
  "read_flag = rmap (\<lambda>b. b \<noteq> 0) read_u8"

definition read_capabilities :: "vm_capabilities reader" where
  "read_capabilities =
     rbind read_flag (\<lambda>a. rbind read_flag (\<lambda>b. rbind read_flag (\<lambda>c. rbind read_flag (\<lambda>e.
     rbind read_flag (\<lambda>f. rbind read_flag (\<lambda>g. rbind read_flag (\<lambda>h.
     rreturn \<lparr>can_watch_field_modification = a, can_watch_field_access = b, can_get_bytecodes = c,
       can_get_synthetic_attribute = e, can_get_owned_monitor_info = f,
       can_get_current_contended_monitor = g, can_get_monitor_info = h\<rparr>)))))))"

definition capabilities :: "debuggee \<Rightarrow> vm_capabilities conn_op" where
  "capabilities d = exchange d (request CS_VIRTUAL_MACHINE VM_CAPABILITIES []) (checked read_capabilities)"

definition read_capabilities_new :: "vm_capabilities_new reader" where
  "read_capabilities_new =
     rbind (read_n 7 read_flag) (\<lambda>_.
     rbind read_flag (\<lambda>rc. rbind read_flag (\<lambda>am. rbind read_flag (\<lambda>ur. rbind read_flag (\<lambda>pf.
     rbind read_flag (\<lambda>uf.
     rbind (read_n 3 read_flag) (\<lambda>_.
     rbind read_flag (\<lambda>ii. rbind read_flag (\<lambda>me. rbind read_flag (\<lambda>mf.
     rreturn \<lparr>can_redefine_classes = rc, can_add_method = am, can_unrestrictedly_redefine_classes = ur,
       can_pop_frames = pf, can_use_instance_filters = uf, can_get_instance_info = ii,
       can_request_monitor_events = me, can_get_monitor_frame_info = mf\<rparr>))))))))))"

definition capabilities_new :: "debuggee \<Rightarrow> vm_capabilities_new conn_op" where
  "capabilities_new d = exchange d (request CS_VIRTUAL_MACHINE VM_CAPABILITIES_NEW []) (checked read_capabilities_new)"

definition instance_counts :: "debuggee \<Rightarrow> u64 list \<Rightarrow> u64 list conn_op" where
  "instance_counts d rts =
     exchange d
       (request CS_VIRTUAL_MACHINE VM_INSTANCE_COUNTS
          (put_be 4 (i32_try_or_max (length rts)) @ concat (map (put_be 8) rts)))
       (checked (rbind read_i32 (\<lambda>n. read_n (i32_count n) read_i64)))"

definition redefine_classes :: "debuggee \<Rightarrow> (u64 \<times> bytes) list \<Rightarrow> unit conn_op" where
  "redefine_classes d defs =
     cbind (guard_mutation ''a class redefinition'') (\<lambda>_.
     cbind (exchange d
       (request CS_VIRTUAL_MACHINE VM_REDEFINE_CLASSES
          (put_be 4 (i32_try_or_max (length defs))
           @ concat (map (\<lambda>(t, bs). put_be 8 t @ put_be 4 (u32_try_or_max (length bs)) @ bs) defs)))
       check_error) (\<lambda>_.
     set_types (fold invalidate (map fst defs))))"

definition dispose :: "debuggee \<Rightarrow> unit conn_op" where
  "dispose d = exchange d (request CS_VIRTUAL_MACHINE VM_DISPOSE []) check_error"

definition classes_by_signature :: "debuggee \<Rightarrow> string \<Rightarrow> class_info list conn_op" where
  "classes_by_signature d sig =
     exchange d
       (request CS_VIRTUAL_MACHINE VM_CLASSES_BY_SIGNATURE
          (put_be 4 (u32_try_or_max (length sig)) @ string_bytes sig))
       (checked (rbind read_i32 (\<lambda>n. read_n (i32_count n)
          (rbind read_u8 (\<lambda>tag. rbind read_u64 (\<lambda>t. rbind read_i32 (\<lambda>st.
           rreturn \<lparr>ci_ref_type_tag = tag, ci_type_id = t, ci_signature = sig, ci_status = st\<rparr>)))))))"

definition all_classes :: "debuggee \<Rightarrow> class_info list conn_op" where
  "all_classes d =
     exchange d (request CS_VIRTUAL_MACHINE VM_ALL_CLASSES [])
       (checked (rbind read_i32 (\<lambda>n. read_n (i32_count n)
          (rbind read_u8 (\<lambda>tag. rbind read_u64 (\<lambda>t. rbind read_string (\<lambda>sig. rbind read_i32 (\<lambda>st.
           rreturn \<lparr>ci_ref_type_tag = tag, ci_type_id = t, ci_signature = sig, ci_status = st\<rparr>))))))))"

section \<open>Arrays, strings and locals\<close>

definition get_array_length :: "debuggee \<Rightarrow> u64 \<Rightarrow> u32 conn_op" where
  "get_array_length d arr =
     exchange d (request CS_ARRAY_REFERENCE ARRAY_LENGTH (put_be 8 arr)) (checked read_i32)"

definition read_array_region :: "tagged_value list reader" where
  "read_array_region =
     rbind read_u8 (\<lambda>region_tag. rbind read_i32 (\<lambda>cnt.
     let is_object = region_tag \<in> {76, 115, 116, 103, 108, 99, 91} in
     read_n (i32_count cnt)
       (if is_object
        then rbind read_u8 (\<lambda>t. rbind (read_value_by_tag t) (\<lambda>v. rreturn \<lparr>val_tag = t, val_data = v\<rparr>))
        else rbind (read_value_by_tag region_tag) (\<lambda>v. rreturn \<lparr>val_tag = region_tag, val_data = v\<rparr>))))"

definition get_array_values :: "debuggee \<Rightarrow> u64 \<Rightarrow> u32 \<Rightarrow> u32 \<Rightarrow> tagged_value list conn_op" where
  "get_array_values d arr first len =
     exchange d (request CS_ARRAY_REFERENCE ARRAY_GET_VALUES (put_be 8 arr @ put_be 4 first @ put_be 4 len))
       (checked read_array_region)"

definition set_array_values :: "debuggee \<Rightarrow> u64 \<Rightarrow> u32 \<Rightarrow> tagged_value list \<Rightarrow> unit conn_op" where
  "set_array_values d arr first vals =
     cbind (guard_mutation ''an array element write'') (\<lambda>_.
     exchange d
       (request CS_ARRAY_REFERENCE ARRAY_SET_VALUES
          (put_be 8 arr @ put_be 4 first @ put_be 4 (i32_try_or_max (length vals))
           @ concat (map write_untagged_value vals))) check_error)"

definition create_string :: "debuggee \<Rightarrow> string \<Rightarrow> u64 conn_op" where
  "create_string d s =
     exchange d (request CS_VIRTUAL_MACHINE VM_CREATE_STRING (put_be 4 (i32_try_or_max (length s)) @ string_bytes s))
       (checked read_u64)"

definition set_frame_value :: "debuggee \<Rightarrow> u64 \<Rightarrow> u64 \<Rightarrow> u32 \<Rightarrow> tagged_value \<Rightarrow> unit conn_op" where
  "set_frame_value d thread frame slot v =
     cbind (guard_mutation ''a local variable write'') (\<lambda>_.
     exchange d
       (request CS_STACK_FRAME 2
          (put_be 8 thread @ put_be 8 frame @ put_be 4 (1 :: u32) @ put_be 4 slot @ write_tagged_value v)) check_error)"

definition value_int :: "u32 \<Rightarrow> tagged_value" where "value_int v = \<lparr>val_tag = 73, val_data = VInt v\<rparr>"
definition value_long :: "u64 \<Rightarrow> tagged_value" where "value_long v = \<lparr>val_tag = 74, val_data = VLong v\<rparr>"
definition value_bool :: "bool \<Rightarrow> tagged_value" where "value_bool v = \<lparr>val_tag = 90, val_data = VBoolean v\<rparr>"
definition value_float :: "u32 \<Rightarrow> tagged_value" where "value_float v = \<lparr>val_tag = 70, val_data = VFloat v\<rparr>"
definition value_double :: "u64 \<Rightarrow> tagged_value" where "value_double v = \<lparr>val_tag = 68, val_data = VDouble v\<rparr>"
definition value_char :: "u16 \<Rightarrow> tagged_value" where "value_char v = \<lparr>val_tag = 67, val_data = VChar v\<rparr>"
definition value_null :: tagged_value where "value_null = \<lparr>val_tag = 76, val_data = VObject 0\<rparr>"
definition value_object :: "u64 \<Rightarrow> tagged_value" where "value_object i = \<lparr>val_tag = 76, val_data = VObject i\<rparr>"

section \<open>Lemmas\<close>

lemma constructed_values_ok:
  "value_ok (value_int i)" "value_ok (value_long l)" "value_ok (value_bool b)" "value_ok (value_float f)"
  "value_ok (value_double x)" "value_ok (value_char c)" "value_ok value_null" "value_ok (value_object obj)"
  by (simp_all add: value_ok_def tag_fits_def tag_defs reference_tags_def value_int_def value_long_def
      value_bool_def value_float_def value_double_def value_char_def value_null_def value_object_def)

lemma framed_vm [framed_intros]: "framed read_version" "framed read_flag"
  unfolding read_version_def read_flag_def by (intro framed_intros)+

lemma framed_capabilities [framed_intros]: "framed read_capabilities" "framed read_capabilities_new"
  unfolding read_capabilities_def read_capabilities_new_def by (intro framed_intros)+

lemma framed_read_array_region [framed_intros]: "framed read_array_region"
  unfolding read_array_region_def Let_def by (intro framed_intros)

text \<open>The debuggee's encoding of an array region.\<close>

definition put_array_region :: "u8 \<Rightarrow> tagged_value list \<Rightarrow> bytes" where
  "put_array_region tag vs =
     [tag] @ put_be 4 (word_of_nat (length vs) :: u32)
     @ concat (map (if tag \<in> set reference_tags then write_tagged_value else write_untagged_value) vs)"

definition region_ok :: "u8 \<Rightarrow> tagged_value list \<Rightarrow> bool" where
  "region_ok tag vs =
     (length vs < 2 ^ 31 \<and> list_all value_ok vs
      \<and> (tag \<notin> set reference_tags \<longrightarrow> list_all (\<lambda>v. val_tag v = tag) vs))"

lemma reference_tags_set: "set reference_tags = {76, 115, 116, 103, 108, 99, 91}"
  by (auto simp: reference_tags_def tag_defs)

lemma read_untagged_put:
  "value_ok v \<Longrightarrow> val_tag v = tag \<Longrightarrow>
     rbind (read_value_by_tag tag) (\<lambda>x. rreturn \<lparr>val_tag = tag, val_data = x\<rparr>) (write_untagged_value v @ rest) = Inr (v, rest)"
  by (simp add: write_untagged_value_put value_ok_def wire_simps rreturn_def)

lemma read_n_put:
  "(\<And>v rest. v \<in> set vs \<Longrightarrow> r (put v @ rest) = Inr (v, rest)) \<Longrightarrow>
     read_n (length vs) r (concat (map put vs) @ rest) = Inr (vs, rest)"
  by (induction vs) (simp_all add: rreturn_def)

text \<open>
  an array region is decoded to the values the debuggee encoded, in order, whether the component
  type is a reference (each element carries its own tag) or a primitive (none does), and a region cut
  short anywhere is refused.
\<close>

theorem array_region_round_trip:
  assumes "region_ok tag vs"
  shows "read_array_region (put_array_region tag vs @ rest) = Inr (vs, rest)
    \<and> (k < length (put_array_region tag vs) \<longrightarrow>
         (\<exists>m. read_array_region (take k (put_array_region tag vs)) = Inl (Protocol m)))"
proof -
  have len: "length vs < 2 ^ 31" and ok: "\<And>v. v \<in> set vs \<Longrightarrow> value_ok v"
    using assms by (auto simp: region_ok_def list_all_iff)
  have put: "read_array_region (put_array_region tag vs @ rest) = Inr (vs, rest)" for rest
  proof (cases "tag \<in> set reference_tags")
    case True
    then have "read_n (length vs) read_tagged_value (concat (map write_tagged_value vs) @ rest) = Inr (vs, rest)"
      using codec_written_value.get_put_list [of vs rest] ok by simp
    then show ?thesis
      using True len
      by (simp add: read_array_region_def put_array_region_def wire_simps Let_def reference_tags_set read_tagged_value_def)
  next
    case False
    then have "\<And>v. v \<in> set vs \<Longrightarrow> val_tag v = tag"
      using assms by (auto simp: region_ok_def list_all_iff)
    then have "read_n (length vs) (rbind (read_value_by_tag tag) (\<lambda>x. rreturn \<lparr>val_tag = tag, val_data = x\<rparr>))
        (concat (map write_untagged_value vs) @ rest) = Inr (vs, rest)"
      using ok by (intro read_n_put read_untagged_put) auto
    then show ?thesis
      using False len
      by (simp add: read_array_region_def put_array_region_def wire_simps Let_def reference_tags_set)
  qed
  have "\<exists>m. read_array_region (take k (put_array_region tag vs)) = Inl (Protocol m)"
    if "k < length (put_array_region tag vs)"
  proof -
    have "is_err (read_array_region (take k (put_array_region tag vs)))"
      using framedE [OF framed_read_array_region, of "put_array_region tag vs" vs "[]"] put [of "[]"] that
      by fastforce
    then show ?thesis
      using framed_error [OF framed_read_array_region]
      by (cases "read_array_region (take k (put_array_region tag vs))") auto
  qed
  then show ?thesis using put by blast
qed

theorem array_region_round_trip_witness:
  "read_array_region (put_array_region 73 [value_int 5, value_int 6] @ []) = Inr ([value_int 5, value_int 6], [])"
proof -
  have "region_ok 73 [value_int 5, value_int 6]"
    by (simp add: region_ok_def constructed_values_ok) (simp add: value_int_def)
  then show ?thesis by (rule array_region_round_trip [THEN conjunct1])
qed

section \<open>Safety\<close>

lemma wire_of_vm:
  "wire_of CS_VIRTUAL_MACHINE VM_VERSION = Some Read"
  "wire_of CS_VIRTUAL_MACHINE VM_CAPABILITIES = Some Read"
  "wire_of CS_VIRTUAL_MACHINE VM_CAPABILITIES_NEW = Some Read"
  "wire_of CS_VIRTUAL_MACHINE VM_INSTANCE_COUNTS = Some Read"
  "wire_of CS_VIRTUAL_MACHINE VM_REDEFINE_CLASSES = Some Mutation"
  "wire_of CS_VIRTUAL_MACHINE VM_DISPOSE = Some AllowedStateChange"
  "wire_of CS_VIRTUAL_MACHINE VM_CLASSES_BY_SIGNATURE = Some Read"
  "wire_of CS_VIRTUAL_MACHINE VM_ALL_CLASSES = Some Read"
  "wire_of CS_VIRTUAL_MACHINE VM_CREATE_STRING = Some AllowedStateChange"
  "wire_of CS_ARRAY_REFERENCE ARRAY_LENGTH = Some Read"
  "wire_of CS_ARRAY_REFERENCE ARRAY_GET_VALUES = Some Read"
  "wire_of CS_ARRAY_REFERENCE ARRAY_SET_VALUES = Some Mutation"
  "wire_of CS_STACK_FRAME 2 = Some Mutation"
  by (simp_all add: wire_defs)

lemma op_safe_vm [op_intros]:
  "op_safe (get_version d)" "op_safe (capabilities d)" "op_safe (capabilities_new d)"
  "op_safe (instance_counts d rts)" "op_safe (dispose d)" "op_safe (classes_by_signature d sig)"
  "op_safe (all_classes d)" "op_safe (get_array_length d arr)" "op_safe (get_array_values d arr i n)"
  "op_safe (create_string d s)"
  unfolding get_version_def capabilities_def capabilities_new_def instance_counts_def dispose_def
    classes_by_signature_def all_classes_def get_array_length_def get_array_values_def create_string_def
  by (rule op_safe_simple, rule wire_of_vm, simp)+

lemma op_safe_vm_writes [op_intros]:
  "op_safe (set_array_values d arr i vs)" "op_safe (set_frame_value d t f s v)"
  unfolding set_array_values_def set_frame_value_def by (rule op_safe_guarded, rule wire_of_vm)+

lemma op_safe_redefine_classes [op_intros]: "op_safe (redefine_classes d defs)"
  unfolding redefine_classes_def
  by (intro op_safe_guard op_mutating_cbind op_mutating_exchange op_mutating_set_types sends_request)
    (rule wire_of_vm)

lemma op_safe_can_get_method_return_values [op_intros]: "op_safe (can_get_method_return_values d)"
  unfolding can_get_method_return_values_def by (intro op_intros)

end
