(* ===== verification/Client.thy ===== *)
theory Client
  imports RefType EventRequest Method Vm
begin

text \<open>
  The whole client surface of \<open>jdwp-client\<close> as one interface: every JDWP operation of a connection
  as a call, a locale for what a set of operations over a connection promises, and its interpretation
  on those calls. Around them stands what else a connection makes public: taking an id, sending a packet
  the caller has assembled, and the two settings. The results are what each operation returns; here only
  their effect on the connection matters.
\<close>

lemma distinct_subseq: "subseq xs ys \<Longrightarrow> distinct ys \<Longrightarrow> distinct xs"
  by (induction rule: list_emb.induct) (auto dest: list_emb_set)

section \<open>The promise of a set of operations\<close>

locale connection_ops =
  fixes run :: "'call \<Rightarrow> conn \<Rightarrow> conn"
  assumes run_evolves: "evolves (\<not> c_read_only c) c (run x c)"
begin

definition run_all :: "'call list \<Rightarrow> conn \<Rightarrow> conn" where
  "run_all xs c = fold run xs c"

lemma run_all_evolves: "evolves (\<not> c_read_only c) c (run_all xs c)"
proof (induction xs arbitrary: c)
  case (Cons x xs)
  have 1: "evolves (\<not> c_read_only c) c (run x c)" by (rule run_evolves)
  have "evolves (\<not> c_read_only c) (run x c) (run_all xs (run x c))"
    using Cons.IH [of "run x c"] evolves_settings [OF 1] by simp
  then show ?case using evolves_trans [OF 1] by (simp add: run_all_def)
qed (simp add: run_all_def)

lemma read_only_sends_no_mutation:
  assumes "c_read_only c"
  shows "\<exists>new. c_sent (run_all xs c) = c_sent c @ new
     \<and> (\<forall>p\<in>set new. wire_class p \<in> {Some Read, Some AllowedStateChange})"
proof -
  obtain new where "c_sent (run_all xs c) = c_sent c @ new"
    "\<forall>p\<in>set new. wire_class p \<noteq> None \<and> wire_class p \<noteq> Some Mutation"
    using run_all_evolves [of c xs] assms by (auto simp: evolves_def)
  moreover have "w \<noteq> None \<and> w \<noteq> Some Mutation \<Longrightarrow> w \<in> {Some Read, Some AllowedStateChange}" for w
    by (cases w) (auto, metis wire.exhaust)
  ultimately show ?thesis by metis
qed

lemma ids_in_order:
  "\<exists>new. c_sent (run_all xs c) = c_sent c @ new
     \<and> subseq (map cp_id new)
         (map (\<lambda>k. c_next_id c + word_of_nat k) [0..<c_taken (run_all xs c) - c_taken c])"
  using run_all_evolves [of c xs] by (auto simp: evolves_def)

lemma ids_distinct:
  assumes "c_taken (run_all xs c) - c_taken c \<le> 2 ^ 32"
  shows "\<exists>new. c_sent (run_all xs c) = c_sent c @ new \<and> distinct (map cp_id new)"
proof -
  let ?n = "c_taken (run_all xs c) - c_taken c"
  obtain new where new: "c_sent (run_all xs c) = c_sent c @ new"
    "subseq (map cp_id new) (map (\<lambda>k. c_next_id c + word_of_nat k) [0..<?n])"
    using ids_in_order by blast
  have "inj_on (\<lambda>k. c_next_id c + word_of_nat k) {0..<?n}"
  proof (rule inj_onI)
    fix i j assume ij: "i \<in> {0..<?n}" "j \<in> {0..<?n}"
      and eq: "c_next_id c + (word_of_nat i :: u32) = c_next_id c + word_of_nat j"
    have "i < 2 ^ 32" "j < 2 ^ 32" using ij assms by simp_all
    moreover have "(word_of_nat i :: u32) = word_of_nat j" using eq by simp
    then have "unat (word_of_nat i :: u32) = unat (word_of_nat j :: u32)" by simp
    ultimately show "i = j" by (simp add: unat_of_nat)
  qed
  then have "distinct (map (\<lambda>k. c_next_id c + word_of_nat k) [0..<?n])"
    by (simp add: distinct_map)
  then show ?thesis using new distinct_subseq by blast
qed

lemma id_count:
  "c_next_id (run_all xs c) = c_next_id c + word_of_nat (c_taken (run_all xs c) - c_taken c)
   \<and> c_taken c \<le> c_taken (run_all xs c)"
  using run_all_evolves [of c xs] by (auto simp: evolves_def)

end

section \<open>The calls\<close>

datatype client_call =
    Call_get_signature u64 | Call_read_signatures "u64 list" | Call_get_superclass u64
  | Call_get_this_object u64 u64 | Call_invoke_method u64 u64 u64 u64 "tagged_value list"
  | Call_invoke_static_method u64 u64 u64 "tagged_value list"
  | Call_get_object_reference_type u64 | Call_read_reference_types "u64 list" | Call_is_collected u64
  | Call_get_object_values u64 "u64 list" | Call_read_object_values "(u64 \<times> u64 list) list"
  | Call_get_reference_values u64 "u64 list" | Call_set_reference_values u64 "(u64 \<times> tagged_value) list"
  | Call_set_object_values u64 "(u64 \<times> tagged_value) list"
  | Call_get_string_value u64 | Call_read_string_values "u64 list"
  | Call_get_frame_values u64 u64 "variable_slot list"
  | Call_read_frame_values "(u64 \<times> u64 \<times> variable_slot list) list" | Call_pop_frames u64 u64
  | Call_get_methods u64 | Call_get_class_loader u64 | Call_get_interfaces u64 | Call_get_modifiers u64
  | Call_implements_interface u64 string | Call_get_source_file u64 | Call_get_source_debug_extension u64
  | Call_get_fields u64 | Call_instances u64 u32
  | Call_get_line_table u64 u64 | Call_read_line_tables "(u64 \<times> u64) list" | Call_get_bytecodes u64 u64
  | Call_get_variable_table u64 u64 | Call_read_variable_tables "(u64 \<times> u64) list"

datatype control_call =
    Call_get_frames u64 u32 u32 | Call_owned_monitors u64 | Call_current_contended_monitor u64
  | Call_get_all_threads | Call_get_thread_name u64 | Call_read_thread_names "u64 list"
  | Call_get_thread_status u64 | Call_read_thread_statuses "u64 list" | Call_suspend_count u64
  | Call_suspend_all | Call_resume_all | Call_resume_all_fully u64 u32 | Call_suspend_thread u64
  | Call_resume_thread u64 | Call_force_early_return u64 tagged_value
  | Call_get_version | Call_can_get_method_return_values | Call_capabilities | Call_capabilities_new
  | Call_instance_counts "u64 list" | Call_redefine_classes "(u64 \<times> bytes) list" | Call_dispose
  | Call_classes_by_signature string | Call_all_classes
  | Call_get_array_length u64 | Call_get_array_values u64 u32 u32
  | Call_set_array_values u64 u32 "tagged_value list" | Call_create_string string
  | Call_set_frame_value u64 u64 u32 tagged_value

datatype request_call =
    Call_set_breakpoint u64 u64 u64 suspend_policy
  | Call_set_breakpoint_ex u64 u64 u64 suspend_policy event_filters
  | Call_clear_breakpoint u32 | Call_set_class_prepare string suspend_policy | Call_clear_class_prepare u32
  | Call_set_exception_request "u64 option" bool bool suspend_policy event_filters
  | Call_clear_exception_request u32
  | Call_set_field_watch u64 u64 watch_kind suspend_policy event_filters | Call_clear_field_watch u32 watch_kind
  | Call_set_method_exit_request string bool suspend_policy "string list" event_filters
  | Call_clear_method_exit_request u32 bool
  | Call_set_monitor_request monitor_kind suspend_policy "u64 option" event_filters
  | Call_clear_monitor_request u32 monitor_kind
  | Call_set_step u64 step_depth "string list" "string list" | Call_clear_step u32
  | Call_clear_all_breakpoints

datatype op_call = Inspect client_call | Control control_call | Arm request_call

fun run_inspect :: "debuggee \<Rightarrow> client_call \<Rightarrow> conn \<Rightarrow> conn" where
  "run_inspect d (Call_get_signature i) c = snd (get_signature d i c)"
| "run_inspect d (Call_read_signatures is) c = snd (read_signatures_independently d is c)"
| "run_inspect d (Call_get_superclass i) c = snd (get_superclass d i c)"
| "run_inspect d (Call_get_this_object t f) c = snd (get_this_object d t f c)"
| "run_inspect d (Call_invoke_method i t k m args) c = snd (invoke_method d i t k m args c)"
| "run_inspect d (Call_invoke_static_method k t m args) c = snd (invoke_static_method d k t m args c)"
| "run_inspect d (Call_get_object_reference_type i) c = snd (get_object_reference_type d i c)"
| "run_inspect d (Call_read_reference_types is) c = snd (read_reference_types_independently d is c)"
| "run_inspect d (Call_is_collected i) c = snd (is_collected d i c)"
| "run_inspect d (Call_get_object_values i fs) c = snd (get_object_values d i fs c)"
| "run_inspect d (Call_read_object_values rs) c = snd (read_object_values_independently d rs c)"
| "run_inspect d (Call_get_reference_values i fs) c = snd (get_reference_values d i fs c)"
| "run_inspect d (Call_set_reference_values i ups) c = snd (set_reference_values d i ups c)"
| "run_inspect d (Call_set_object_values i ups) c = snd (set_object_values d i ups c)"
| "run_inspect d (Call_get_string_value i) c = snd (get_string_value d i c)"
| "run_inspect d (Call_read_string_values is) c = snd (read_string_values_independently d is c)"
| "run_inspect d (Call_get_frame_values t f slots) c = snd (get_frame_values d t f slots c)"
| "run_inspect d (Call_read_frame_values rs) c = snd (read_frame_values_independently d rs c)"
| "run_inspect d (Call_pop_frames t f) c = snd (pop_frames d t f c)"
| "run_inspect d (Call_get_methods i) c = snd (get_methods d i c)"
| "run_inspect d (Call_get_class_loader i) c = snd (get_class_loader d i c)"
| "run_inspect d (Call_get_interfaces i) c = snd (get_interfaces d i c)"
| "run_inspect d (Call_get_modifiers i) c = snd (get_modifiers d i c)"
| "run_inspect d (Call_implements_interface i w) c = snd (implements_interface d i w c)"
| "run_inspect d (Call_get_source_file i) c = snd (get_source_file d i c)"
| "run_inspect d (Call_get_source_debug_extension i) c = snd (get_source_debug_extension d i c)"
| "run_inspect d (Call_get_fields i) c = snd (get_fields d i c)"
| "run_inspect d (Call_instances i n) c = snd (instances d i n c)"
| "run_inspect d (Call_get_line_table i m) c = snd (get_line_table d i m c)"
| "run_inspect d (Call_read_line_tables ps) c = snd (read_line_tables_independently d ps c)"
| "run_inspect d (Call_get_bytecodes i m) c = snd (get_bytecodes d i m c)"
| "run_inspect d (Call_get_variable_table i m) c = snd (get_variable_table d i m c)"
| "run_inspect d (Call_read_variable_tables ps) c = snd (read_variable_tables_independently d ps c)"

fun run_control :: "debuggee \<Rightarrow> control_call \<Rightarrow> conn \<Rightarrow> conn" where
  "run_control d (Call_get_frames t s n) c = snd (get_frames d t s n c)"
| "run_control d (Call_owned_monitors t) c = snd (owned_monitors d t c)"
| "run_control d (Call_current_contended_monitor t) c = snd (current_contended_monitor d t c)"
| "run_control d Call_get_all_threads c = snd (get_all_threads d c)"
| "run_control d (Call_get_thread_name t) c = snd (get_thread_name d t c)"
| "run_control d (Call_read_thread_names ts) c = snd (read_thread_names_independently d ts c)"
| "run_control d (Call_get_thread_status t) c = snd (get_thread_status d t c)"
| "run_control d (Call_read_thread_statuses ts) c = snd (read_thread_statuses_independently d ts c)"
| "run_control d (Call_suspend_count t) c = snd (suspend_count d t c)"
| "run_control d Call_suspend_all c = snd (suspend_all d c)"
| "run_control d Call_resume_all c = snd (resume_all d c)"
| "run_control d (Call_resume_all_fully t m) c = snd (resume_all_fully d t m c)"
| "run_control d (Call_suspend_thread t) c = snd (suspend_thread d t c)"
| "run_control d (Call_resume_thread t) c = snd (resume_thread d t c)"
| "run_control d (Call_force_early_return t v) c = snd (force_early_return d t v c)"
| "run_control d Call_get_version c = snd (get_version d c)"
| "run_control d Call_can_get_method_return_values c = snd (can_get_method_return_values d c)"
| "run_control d Call_capabilities c = snd (capabilities d c)"
| "run_control d Call_capabilities_new c = snd (capabilities_new d c)"
| "run_control d (Call_instance_counts rts) c = snd (instance_counts d rts c)"
| "run_control d (Call_redefine_classes defs) c = snd (redefine_classes d defs c)"
| "run_control d Call_dispose c = snd (dispose d c)"
| "run_control d (Call_classes_by_signature s) c = snd (classes_by_signature d s c)"
| "run_control d Call_all_classes c = snd (all_classes d c)"
| "run_control d (Call_get_array_length i) c = snd (get_array_length d i c)"
| "run_control d (Call_get_array_values i f n) c = snd (get_array_values d i f n c)"
| "run_control d (Call_set_array_values i f vs) c = snd (set_array_values d i f vs c)"
| "run_control d (Call_create_string s) c = snd (create_string d s c)"
| "run_control d (Call_set_frame_value t f s v) c = snd (set_frame_value d t f s v c)"

fun run_request :: "debuggee \<Rightarrow> request_call \<Rightarrow> conn \<Rightarrow> conn" where
  "run_request d (Call_set_breakpoint k m i sp) c = snd (set_breakpoint d k m i sp c)"
| "run_request d (Call_set_breakpoint_ex k m i sp fl) c = snd (set_breakpoint_ex d k m i sp fl c)"
| "run_request d (Call_clear_breakpoint r) c = snd (clear_breakpoint d r c)"
| "run_request d (Call_set_class_prepare p sp) c = snd (set_class_prepare d p sp c)"
| "run_request d (Call_clear_class_prepare r) c = snd (clear_class_prepare d r c)"
| "run_request d (Call_set_exception_request rt a b sp fl) c = snd (set_exception_request_ex d rt a b sp fl c)"
| "run_request d (Call_clear_exception_request r) c = snd (clear_exception_request d r c)"
| "run_request d (Call_set_field_watch rt f k sp fl) c = snd (set_field_watch_ex d rt f k sp fl c)"
| "run_request d (Call_clear_field_watch r k) c = snd (clear_field_watch d r k c)"
| "run_request d (Call_set_method_exit_request p b sp ex fl) c = snd (set_method_exit_request_ex d p b sp ex fl c)"
| "run_request d (Call_clear_method_exit_request r b) c = snd (clear_method_exit_request d r b c)"
| "run_request d (Call_set_monitor_request k sp t fl) c = snd (set_monitor_request d k sp t fl c)"
| "run_request d (Call_clear_monitor_request r k) c = snd (clear_monitor_request d r k c)"
| "run_request d (Call_set_step t sd ex on) c = snd (set_step_ex d t sd ex on c)"
| "run_request d (Call_clear_step r) c = snd (clear_step d r c)"
| "run_request d Call_clear_all_breakpoints c = snd (clear_all_breakpoints d c)"

fun run_call :: "debuggee \<Rightarrow> op_call \<Rightarrow> conn \<Rightarrow> conn" where
  "run_call d (Inspect x) c = run_inspect d x c"
| "run_call d (Control x) c = run_control d x c"
| "run_call d (Arm x) c = run_request d x c"

definition run_calls :: "debuggee \<Rightarrow> op_call list \<Rightarrow> conn \<Rightarrow> conn" where
  "run_calls d xs c = fold (run_call d) xs c"

lemma op_safe_evolves: "op_safe op \<Longrightarrow> evolves (\<not> c_read_only c) c (snd (op c))"
  by (simp add: op_safe_def)

lemma run_inspect_evolves: "evolves (\<not> c_read_only c) c (run_inspect d x c)"
  by (cases x) (simp_all only: run_inspect.simps; rule op_safe_evolves, rule op_intros)+

lemma run_control_evolves: "evolves (\<not> c_read_only c) c (run_control d x c)"
  by (cases x) (simp_all only: run_control.simps; rule op_safe_evolves, rule op_intros)+

lemma run_request_evolves: "evolves (\<not> c_read_only c) c (run_request d x c)"
  by (cases x) (simp_all only: run_request.simps; rule op_safe_evolves, rule op_intros)+

interpretation client: connection_ops "run_call d" for d
proof unfold_locales
  fix x c
  show "evolves (\<not> c_read_only c) c (run_call d x c)"
    by (cases x) (simp_all add: run_inspect_evolves run_control_evolves run_request_evolves)
qed

text \<open>
  Everything a holder of a connection can do to it: the operations, and below them \<open>next_id\<close>, \<open>send_command\<close>
  with any \<open>CommandPacket\<close>, \<open>set_read_only\<close> and \<open>set_invoke_timeout_ms\<close>, which are public too.
\<close>

datatype any_call =
    Op op_call | Take_id | Send_raw command_packet | Set_read_only bool | Set_invoke_timeout_ms u64

fun run_any :: "debuggee \<Rightarrow> any_call \<Rightarrow> conn \<Rightarrow> conn" where
  "run_any d (Op x) c = run_call d x c"
| "run_any d Take_id c = snd (next_id c)"
| "run_any d (Send_raw p) c = snd (send_command d p c)"
| "run_any d (Set_read_only b) c = set_read_only b c"
| "run_any d (Set_invoke_timeout_ms ms) c = set_invoke_timeout_ms ms c"

definition run_api :: "debuggee \<Rightarrow> any_call list \<Rightarrow> conn \<Rightarrow> conn" where
  "run_api d xs c = fold (run_any d) xs c"

lemma run_all_calls: "client.run_all d xs c = run_calls d xs c"
  by (simp add: client.run_all_def run_calls_def)

section \<open>Properties of a session\<close>

text \<open>What one call puts on the wire of a read-only connection that stays so.\<close>

definition guarded_by :: "any_call list \<Rightarrow> conn \<Rightarrow> conn \<Rightarrow> bool" where
  "guarded_by xs c c' \<longleftrightarrow> c_read_only c' \<and> (\<exists>new. c_sent c' = c_sent c @ new
     \<and> (\<forall>p\<in>set new. wire_class p \<in> {Some Read, Some AllowedStateChange} \<or> Send_raw p \<in> set xs))"

lemma guarded_by_trans: "guarded_by xs a b \<Longrightarrow> guarded_by xs b c \<Longrightarrow> guarded_by xs a c"
  unfolding guarded_by_def by (elim conjE exE) (simp add: ball_Un)

lemma guarded_by_frame: "c_read_only c' \<Longrightarrow> c_sent c' = c_sent c \<Longrightarrow> guarded_by xs c c'"
  by (simp add: guarded_by_def)

lemma run_any_guarded:
  assumes "c_read_only c" "x \<in> set xs" "Set_read_only False \<notin> set xs"
  shows "guarded_by xs c (run_any d x c)"
proof (cases x)
  case (Op y)
  have "evolves (\<not> c_read_only c) c (run_call d y c)" by (rule client.run_evolves)
  then show ?thesis
    using client.read_only_sends_no_mutation [OF assms(1), of d "[y]"] assms(1) Op
    by (auto simp: guarded_by_def client.run_all_def evolves_def)
next
  case (Send_raw p)
  then show ?thesis
    using assms(1,2) by (auto simp: guarded_by_def send_command_def cbind_def conn_issue_def clift_def split: option.split sum.split)
next
  case (Set_read_only b)
  then have "b" using assms(2,3) by (cases b) auto
  then show ?thesis using Set_read_only by (intro guarded_by_frame) (simp_all add: set_read_only_def)
qed (use assms(1) in \<open>auto intro!: guarded_by_frame simp: next_id_def set_invoke_timeout_ms_def\<close>)


text \<open>\<open>send_command\<close> is public and passes no guard: a mutation assembled by hand leaves a read-only connection.\<close>

lemma raw_send_passes_the_guard:
  "dbg_gone d (c_sent c) p = None \<Longrightarrow> c_sent (run_api d [Send_raw p] (set_read_only True c)) = c_sent c @ [p]"
  by (simp add: run_api_def send_command_def cbind_def conn_issue_def clift_def set_read_only_def split: sum.split)

text \<open>
  each of the nine primitives that mutate the debuggee answers, on a read-only connection, with
  the read-only error naming exactly that operation, and leaves the connection as it was: no id taken,
  nothing sent, nothing cached.
\<close>

theorem mutating_primitives_refused:
  assumes "c_read_only c"
  shows "redefine_classes d defs c = (Inl (ReadOnly ''a class redefinition''), c)
    \<and> pop_frames d t f c = (Inl (ReadOnly ''a frame pop''), c)
    \<and> invoke_method d i t k m args c = (Inl (ReadOnly ''an instance method invocation''), c)
    \<and> invoke_static_method d k t m args c = (Inl (ReadOnly ''a static method invocation''), c)
    \<and> set_array_values d i n vs c = (Inl (ReadOnly ''an array element write''), c)
    \<and> set_frame_value d t f n v c = (Inl (ReadOnly ''a local variable write''), c)
    \<and> force_early_return d t v c = (Inl (ReadOnly ''a forced early return''), c)
    \<and> set_reference_values d i ups c = (Inl (ReadOnly ''a static field write''), c)
    \<and> set_object_values d i ups c = (Inl (ReadOnly ''an instance field write''), c)"
  by (simp add: assms guard_refuses redefine_classes_def pop_frames_def invoke_method_def invoke_static_method_def
      set_array_values_def set_frame_value_def force_early_return_def set_reference_values_def
      set_object_values_def)

text \<open>
  C36: over any sequence of calls on a fresh connection, the commands sent carry pairwise different ids
  as long as the counter has not gone round, and until then the packet count the connection reports is
  the number of ids it has given out, never less than the number of commands sent.
\<close>

theorem packet_ids_unique_and_counted:
  assumes "c_taken (run_calls d xs connect_init) < 2 ^ 32 - 1"
  shows "distinct (map cp_id (c_sent (run_calls d xs connect_init)))
    \<and> unat (packets_sent (run_calls d xs connect_init)) = c_taken (run_calls d xs connect_init)
    \<and> length (c_sent (run_calls d xs connect_init)) \<le> c_taken (run_calls d xs connect_init)"
proof -
  let ?c = "run_calls d xs connect_init"
  have init: "c_sent connect_init = []" "c_taken connect_init = 0" "c_next_id connect_init = 1"
    by (simp_all add: connect_init_def)
  have dist: "distinct (map cp_id (c_sent ?c))"
    using client.ids_distinct [of d xs connect_init] assms init by (simp add: run_all_calls)
  have len: "length (c_sent ?c) \<le> c_taken ?c"
    using client.ids_in_order [of d xs connect_init] init
    by (auto simp: run_all_calls dest!: list_emb_length)
  have next_id: "c_next_id ?c = word_of_nat (Suc (c_taken ?c))"
    using client.id_count [of d xs connect_init] init by (simp add: run_all_calls)
  have "unat (c_next_id ?c) = Suc (c_taken ?c)"
    unfolding next_id by (subst unat_of_nat) (use assms in simp)
  moreover from this have "c_next_id ?c \<noteq> 0" by auto
  ultimately have "c_next_id ?c \<noteq> 0" "unat (c_next_id ?c - 1) = c_taken ?c"
    by (simp_all add: unat_minus_one)
  then have "unat (packets_sent ?c) = c_taken ?c" by (simp add: packets_sent_def)
  then show ?thesis using dist len by simp
qed

text \<open>
  after a successful class redefinition nothing is cached any more about any redefined type - not
  its signature, fields, methods, superclass or interfaces - and what is cached about every other type
  is unchanged.
\<close>

theorem redefinition_invalidates:
  assumes "redefine_classes d defs c = (Inr u, c')"
  shows "if i \<in> fst ` set defs
    then cache_signature i (c_types c') = None \<and> cache_fields i (c_types c') = None
      \<and> cache_methods i (c_types c') = None \<and> cache_superclass i (c_types c') = Unknown
      \<and> cache_interfaces i (c_types c') = None
    else cache_signature i (c_types c') = cache_signature i (c_types c)
      \<and> cache_fields i (c_types c') = cache_fields i (c_types c)
      \<and> cache_methods i (c_types c') = cache_methods i (c_types c)
      \<and> cache_superclass i (c_types c') = cache_superclass i (c_types c)
      \<and> cache_interfaces i (c_types c') = cache_interfaces i (c_types c)"
proof -
  have types: "c_types (snd (exchange d (request cset cmd data) dec c)) = c_types c" for cset cmd data and dec :: "reply_packet \<Rightarrow> unit jdwp_result"
    by (auto simp: exchange_def request_def next_id_def send_command_def cbind_def clift_def conn_issue_def
        Let_def split: option.split sum.split)
  have shape: "cbind (guard_mutation w) (\<lambda>_. cbind op (\<lambda>_. set_types g)) c = (Inr u, c') \<Longrightarrow>
      c_types c' = g (c_types (snd (op c)))" for w g and op :: "unit conn_op"
    by (cases "op c"; cases "fst (op c)")
      (auto simp: cbind_def guard_mutation_def set_types_def split: if_splits)
  have c': "c_types c' = fold invalidate (map fst defs) (c_types c)"
    using shape [OF assms [unfolded redefine_classes_def]] by (simp add: types)
  have entry: "cache_superclass_entry i tc = (case cache_superclass i tc of
      Unknown \<Rightarrow> None | Root \<Rightarrow> Some None | Parent p \<Rightarrow> Some (Some p))" for tc
    by (simp add: cache_superclass_entry_def)
  have sup: "cache_superclass i (c_types c') = (if i \<in> fst ` set defs then Unknown else cache_superclass i (c_types c))"
    using superclass_slot.fold_invalidate [of i "map fst defs" "c_types c"] unfolding c' entry
    by (simp split: cached_superclass.splits if_splits)
  show ?thesis
    using sup
    by (simp add: c' signature_slot.fold_invalidate fields_slot.fold_invalidate methods_slot.fold_invalidate
        interfaces_slot.fold_invalidate)
qed

section \<open>Instances\<close>


theorem mutating_primitives_refused_witness:
  "pop_frames (steady_debuggee []) 1 2 (set_read_only True connect_init)
     = (Inl (ReadOnly ''a frame pop''), set_read_only True connect_init)"
  using mutating_primitives_refused [of "set_read_only True connect_init" "steady_debuggee []"]
  by (simp add: set_read_only_def)

theorem packet_ids_unique_and_counted_witness:
  "unat (packets_sent (run_calls (steady_debuggee []) [Control Call_suspend_all, Control Call_resume_all] connect_init)) = 2"
proof -
  have "c_taken (run_calls (steady_debuggee []) [Control Call_suspend_all, Control Call_resume_all] connect_init) = 2"
    by (simp add: run_calls_def suspend_all_def resume_all_def exchange_steady Let_def connect_init_def)
  then show ?thesis
    using packet_ids_unique_and_counted [of "steady_debuggee []" "[Control Call_suspend_all, Control Call_resume_all]"]
    by simp
qed

theorem redefinition_invalidates_witness:
  "cache_signature 9 (c_types (snd (redefine_classes (steady_debuggee []) [(9, [])]
     (connect_init\<lparr>c_types := put_signature 9 ''LA;'' type_cache_default\<rparr>)))) = None"
proof -
  let ?c = "connect_init\<lparr>c_types := put_signature 9 ''LA;'' type_cache_default\<rparr>"
  have "fst (redefine_classes (steady_debuggee []) [(9, [])] ?c) = Inr ()"
    by (simp add: redefine_classes_def cbind_def guard_mutation_def is_read_only_def connect_init_def
        exchange_steady Let_def check_error_def is_error_def set_types_def)
  then have "redefine_classes (steady_debuggee []) [(9, [])] ?c = (Inr (), snd (redefine_classes (steady_debuggee []) [(9, [])] ?c))"
    by (simp add: prod_eq_iff)
  from redefinition_invalidates [OF this, of 9] show ?thesis by simp
qed

end
