(* ===== verification/Containers.thy ===== *)
theory Containers
  imports Prelude "HOL-Library.AList" "HOL-Library.List_Lexorder" "HOL-Library.Char_ord" "HOL-Library.Multiset"
begin

text \<open>
  The standard-library containers that the server keeps its state in: a \<open>BTreeMap\<close> as a key-sorted
  association list, a \<open>HashMap\<close> as an association list with distinct keys (in whatever order an
  iteration visits it), and a \<open>VecDeque\<close> used as a bounded queue that drops its oldest entry. The
  locale \<open>stamped_log\<close> states what every bounded, numbered log of a session promises.
\<close>

named_theorems container_simps \<open>lookups after updates of the containers\<close>

section \<open>Ordered maps\<close>

type_synonym ('k, 'v) btree = "('k \<times> 'v) list"

primrec bt_put :: "'k::linorder \<Rightarrow> 'v \<Rightarrow> ('k, 'v) btree \<Rightarrow> ('k, 'v) btree" where
  "bt_put k v [] = [(k, v)]"
| "bt_put k v (kv # m) =
     (if k < fst kv then (k, v) # kv # m
      else if k = fst kv then (k, v) # m
      else kv # bt_put k v m)"

definition bt_get :: "'k \<Rightarrow> ('k, 'v) btree \<Rightarrow> 'v option" where
  "bt_get k m = map_of m k"

definition bt_del :: "'k \<Rightarrow> ('k, 'v) btree \<Rightarrow> ('k, 'v) btree" where
  "bt_del k m = filter (\<lambda>kv. fst kv \<noteq> k) m"

definition bt_ok :: "('k::linorder, 'v) btree \<Rightarrow> bool" where
  "bt_ok m = sorted_wrt (<) (map fst m)"

lemma bt_ok_simps [simp]: "bt_ok []" "bt_ok (kv # m) \<longleftrightarrow> (\<forall>x\<in>set m. fst kv < fst x) \<and> bt_ok m"
  by (auto simp: bt_ok_def)

lemma set_bt_put_fst: "fst ` set (bt_put k v m) = insert k (fst ` set m)"
  by (induction m) auto

lemma bt_put_ok [simp]: "bt_ok m \<Longrightarrow> bt_ok (bt_put k v m)"
proof (induction m)
  case (Cons kv m)
  have "\<forall>x\<in>set (bt_put k v m). fst kv < fst x" if "fst kv < k"
  proof
    fix x assume "x \<in> set (bt_put k v m)"
    then have "fst x \<in> insert k (fst ` set m)" by (metis imageI set_bt_put_fst)
    with that Cons.prems show "fst kv < fst x" by auto
  qed
  with Cons show ?case by auto
qed simp

lemma bt_get_put [container_simps, simp]: "bt_get j (bt_put k v m) = (if j = k then Some v else bt_get j m)"
  by (induction m) (auto simp: bt_get_def)

lemma bt_del_ok [simp]: "bt_ok m \<Longrightarrow> bt_ok (bt_del k m)"
  by (induction m) (auto simp: bt_del_def)

lemma bt_get_del [container_simps, simp]: "bt_get j (bt_del k m) = (if j = k then None else bt_get j m)"
  by (induction m) (auto simp: bt_del_def bt_get_def)

lemma bt_get_Nil [container_simps, simp]: "bt_get j [] = None"
  by (simp add: bt_get_def)

lemma bt_ok_distinct: "bt_ok m \<Longrightarrow> distinct (map fst m)"
  by (induction m) auto

lemma bt_get_iff: "bt_ok m \<Longrightarrow> bt_get k m = Some v \<longleftrightarrow> (k, v) \<in> set m"
  by (simp add: bt_get_def bt_ok_distinct)

lemma bt_get_None_iff: "bt_get k m = None \<longleftrightarrow> k \<notin> fst ` set m"
  by (simp add: bt_get_def map_of_eq_None_iff)

lemma length_bt_put: "bt_ok m \<Longrightarrow> length (bt_put k v m) = (if bt_get k m = None then Suc (length m) else length m)"
  by (induction m) (auto simp: bt_get_def map_of_eq_None_iff)

section \<open>Hash maps\<close>

type_synonym ('k, 'v) hmap = "('k \<times> 'v) list"

definition hm_ok :: "('k, 'v) hmap \<Rightarrow> bool" where
  "hm_ok m = distinct (map fst m)"

definition hm_get :: "'k \<Rightarrow> ('k, 'v) hmap \<Rightarrow> 'v option" where
  "hm_get k m = map_of m k"

definition hm_put :: "'k \<Rightarrow> 'v \<Rightarrow> ('k, 'v) hmap \<Rightarrow> ('k, 'v) hmap" where
  "hm_put k v m = AList.update k v m"

definition hm_del :: "'k \<Rightarrow> ('k, 'v) hmap \<Rightarrow> ('k, 'v) hmap" where
  "hm_del k m = AList.delete k m"

lemma hm_ok_Nil [simp]: "hm_ok []"
  by (simp add: hm_ok_def)

lemma hm_put_ok [simp]: "hm_ok m \<Longrightarrow> hm_ok (hm_put k v m)"
  by (simp add: hm_ok_def hm_put_def distinct_update)

lemma hm_del_ok [simp]: "hm_ok m \<Longrightarrow> hm_ok (hm_del k m)"
  by (simp add: hm_ok_def hm_del_def distinct_delete)

lemma hm_get_put [container_simps, simp]: "hm_get j (hm_put k v m) = (if j = k then Some v else hm_get j m)"
  by (simp add: hm_get_def hm_put_def update_conv')

lemma hm_get_del [container_simps, simp]: "hm_get j (hm_del k m) = (if j = k then None else hm_get j m)"
  by (simp add: hm_get_def hm_del_def delete_conv')

lemma hm_get_Nil [container_simps, simp]: "hm_get j [] = None"
  by (simp add: hm_get_def)

lemma hm_get_iff: "hm_ok m \<Longrightarrow> hm_get k m = Some v \<longleftrightarrow> (k, v) \<in> set m"
  by (simp add: hm_get_def hm_ok_def)

lemma hm_keys_put: "fst ` set (hm_put k v m) = insert k (fst ` set m)"
  by (auto simp: hm_put_def dom_update [symmetric] dom_map_of_conv_image_fst [symmetric] update_conv')

lemma hm_keys_del: "fst ` set (hm_del k m) = fst ` set m - {k}"
  by (auto simp: hm_del_def dom_map_of_conv_image_fst [symmetric] delete_conv')

lemma hm_length_card: "hm_ok m \<Longrightarrow> length m = card (fst ` set m)"
  by (metis distinct_card hm_ok_def length_map list.set_map)

lemma hm_length_put: "hm_ok m \<Longrightarrow> length (hm_put k v m) = (if hm_get k m = None then Suc (length m) else length m)"
  by (auto simp: hm_length_card hm_keys_put hm_get_def map_of_eq_None_iff insert_absorb
      dest: map_of_SomeD intro: image_eqI [where x = "(k, _)"])

lemma hm_length_del: "hm_ok m \<Longrightarrow> k \<in> fst ` set m \<Longrightarrow> Suc (length (hm_del k m)) = length m"
  by (simp add: hm_length_card hm_keys_del) (metis List.finite_set card_Suc_Diff1 card_Diff_singleton finite_imageI One_nat_def)

section \<open>Saturating counters\<close>

definition saturating_inc :: "'a::len word \<Rightarrow> 'a word" where
  "saturating_inc w = (if w = - 1 then w else w + 1)"

definition saturating_dec :: "'a::len word \<Rightarrow> 'a word" where
  "saturating_dec w = (if w = 0 then 0 else w - 1)"

lemma unat_saturating_inc:
  fixes w :: "'a::len word"
  assumes "Suc (unat w) < 2 ^ LENGTH('a)"
  shows "unat (saturating_inc w) = Suc (unat w)"
proof -
  have "w \<noteq> - 1"
  proof
    assume "w = - 1"
    then have "w + 1 = 0" by simp
    moreover have "unat (w + 1) = Suc (unat w)" using assms by (simp add: unat_word_ariths)
    ultimately show False by simp
  qed
  then show ?thesis using assms by (simp add: saturating_inc_def unat_word_ariths)
qed

lemma unat_saturating_dec: "unat (saturating_dec w) = unat w - 1"
  by (simp add: saturating_dec_def unat_minus_one)

lemma saturating_inc_not_0 [simp]: "saturating_inc w \<noteq> 0"
  by (auto simp: saturating_inc_def add_eq_0_iff2)

section \<open>Bounded queues\<close>

definition ring_push :: "nat \<Rightarrow> 'a \<Rightarrow> 'a list \<Rightarrow> 'a list" where
  "ring_push cap x q = (if cap \<le> length q then drop 1 q else q) @ [x]"

definition last_n :: "nat \<Rightarrow> 'a list \<Rightarrow> 'a list" where
  "last_n n xs = drop (length xs - n) xs"

lemma length_ring_push: "0 < cap \<Longrightarrow> length q \<le> cap \<Longrightarrow> length (ring_push cap x q) \<le> cap"
  by (auto simp: ring_push_def)

lemma length_last_n [simp]: "length (last_n n xs) = min n (length xs)"
  by (simp add: last_n_def)

lemma ring_push_last_n: "0 < cap \<Longrightarrow> ring_push cap x (last_n cap xs) = last_n cap (xs @ [x])"
  by (auto simp: ring_push_def last_n_def min_def Suc_diff_le)

lemma last_n_suffix: "suffix (last_n n xs) xs"
  by (simp add: last_n_def suffix_drop)

lemma subseq_drop: "subseq (drop n xs) xs"
  by (metis append_take_drop_id list_emb_append2 subseq_order.refl)

lemma ring_push_kept: "\<exists>kept. subseq kept q \<and> ring_push cap x q = kept @ [x]"
  by (auto simp: ring_push_def intro: subseq_drop)

section \<open>Numbered logs\<close>

lemma sorted_wrt_subseq: "subseq xs ys \<Longrightarrow> sorted_wrt R ys \<Longrightarrow> sorted_wrt R xs"
  by (induction rule: list_emb.induct) (auto dest: list_emb_set)

text \<open>
  A session keeps two bounded logs whose entries carry a number from a counter that nothing resets. An
  operation keeps a subsequence of what is held and may append one entry, which gets the next number.
\<close>

locale stamped_log =
  fixes step :: "'op \<Rightarrow> 's \<Rightarrow> 's"
    and held :: "'s \<Rightarrow> 'r list"
    and stamp :: "'r \<Rightarrow> nat"
    and counter :: "'s \<Rightarrow> nat"
    and cap :: nat
    and limit :: nat
  assumes step_law: "Suc (counter s) < limit \<Longrightarrow> length (held s) \<le> cap \<Longrightarrow>
      length (held (step x s)) \<le> cap \<and>
      (\<exists>kept. subseq kept (held s) \<and>
        (held (step x s) = kept \<and> counter (step x s) = counter s
         \<or> (\<exists>r. held (step x s) = kept @ [r] \<and> stamp r = Suc (counter s)
              \<and> counter (step x s) = Suc (counter s))))"
begin

definition in_order :: "'s \<Rightarrow> bool" where
  "in_order s = (length (held s) \<le> cap \<and> sorted_wrt (<) (map stamp (held s))
     \<and> (\<forall>r\<in>set (held s). stamp r \<le> counter s))"

lemma step_in_order:
  assumes "in_order s" "Suc (counter s) < limit"
  shows "in_order (step x s) \<and> counter s \<le> counter (step x s) \<and> counter (step x s) \<le> Suc (counter s)"
proof -
  from step_law [of s x] assms obtain kept where k: "subseq kept (held s)" "length (held (step x s)) \<le> cap"
    and c: "held (step x s) = kept \<and> counter (step x s) = counter s
       \<or> (\<exists>r. held (step x s) = kept @ [r] \<and> stamp r = Suc (counter s) \<and> counter (step x s) = Suc (counter s))"
    unfolding in_order_def by blast
  have "sorted_wrt (<) (map stamp kept)" "\<forall>r\<in>set kept. stamp r \<le> counter s"
    using assms(1) k(1) sorted_wrt_subseq [of "map stamp kept" "map stamp (held s)"]
    by (auto simp: in_order_def subseq_map dest: list_emb_set)
  with c k(2) show ?thesis
    by (fastforce simp: in_order_def sorted_wrt_append less_Suc_eq_le)
qed

definition run :: "'op list \<Rightarrow> 's \<Rightarrow> 's" where
  "run xs s = fold step xs s"

lemma run_in_order:
  assumes "in_order s" "counter s + length xs < limit"
  shows "in_order (run xs s) \<and> counter s \<le> counter (run xs s) \<and> counter (run xs s) \<le> counter s + length xs"
  using assms
proof (induction xs arbitrary: s)
  case (Cons x xs)
  have "in_order (step x s) \<and> counter s \<le> counter (step x s) \<and> counter (step x s) \<le> Suc (counter s)"
    by (rule step_in_order) (use Cons.prems in auto)
  with Cons.IH [of "step x s"] Cons.prems show ?case by (auto simp: run_def)
qed (simp add: run_def)

lemma in_order_distinct: "in_order s \<Longrightarrow> distinct (map stamp (held s))"
  unfolding in_order_def using strict_sorted_iff by blast

end

end
