(* ===== verification/Suspensions.thy ===== *)
theory Suspensions
  imports Containers
begin

text \<open>
  \<open>mcp-server/src/session.rs\<close>: what a session holds suspended (\<open>Suspensions\<close>) - the whole VM, or
  single threads - and the redefinitions it cannot undo (\<open>Redefinitions\<close>). An \<open>Instant\<close> is a number of
  nanoseconds; the difference of two is the truncated one, as \<open>saturating_duration_since\<close> is.
\<close>

type_synonym instant = nat
type_synonym duration = nat

definition since_then :: "instant \<Rightarrow> instant \<Rightarrow> duration" where
  "since_then now earlier = now - earlier"

definition as_secs :: "duration \<Rightarrow> nat" where
  "as_secs d = d div 1000000000"

section \<open>The suspensions of a session\<close>

datatype suspend_cause = Cause_stop_point u32 | Cause_manual_pause

datatype thread_hold = Hold_requested | Hold_failed_escalation u32

record thread_suspend =
  ts_name :: string
  ts_since :: instant
  ts_issued :: u32
  ts_hold :: thread_hold

record vm_suspend =
  vs_since :: instant
  vs_cause :: suspend_cause

record suspensions =
  su_vm :: "vm_suspend option"
  su_threads :: "(u64, thread_suspend) btree"

definition suspensions_new :: suspensions where
  "suspensions_new = \<lparr>su_vm = None, su_threads = []\<rparr>"

definition mark_suspended :: "suspend_cause \<Rightarrow> instant \<Rightarrow> suspensions \<Rightarrow> suspensions" where
  "mark_suspended cause now s = s\<lparr>su_vm := Some \<lparr>vs_since = now, vs_cause = cause\<rparr>\<rparr>"

definition mark_resumed :: "suspensions \<Rightarrow> suspensions" where
  "mark_resumed s = s\<lparr>su_vm := None\<rparr>"

definition hold_thread :: "u64 \<Rightarrow> string \<Rightarrow> instant \<Rightarrow> suspensions \<Rightarrow> u32 \<times> suspensions" where
  "hold_thread tid name at s =
     (let entry = (case bt_get tid (su_threads s) of
                     Some r \<Rightarrow> r
                   | None \<Rightarrow> \<lparr>ts_name = name, ts_since = at, ts_issued = 0, ts_hold = Hold_requested\<rparr>);
          entry' = entry\<lparr>ts_issued := saturating_inc (ts_issued entry)\<rparr>
      in (ts_issued entry', s\<lparr>su_threads := bt_put tid entry' (su_threads s)\<rparr>))"

definition hold_thread_for_failed_escalation ::
  "u64 \<Rightarrow> string \<Rightarrow> instant \<Rightarrow> u32 \<Rightarrow> suspensions \<Rightarrow> suspensions" where
  "hold_thread_for_failed_escalation tid name at req_id s =
     s\<lparr>su_threads := bt_put tid
        (case bt_get tid (su_threads s) of
           Some r \<Rightarrow> r\<lparr>ts_hold := Hold_failed_escalation req_id\<rparr>
         | None \<Rightarrow> \<lparr>ts_name = name, ts_since = at, ts_issued = 0, ts_hold = Hold_failed_escalation req_id\<rparr>)
        (su_threads s)\<rparr>"

definition release_thread :: "u64 \<Rightarrow> suspensions \<Rightarrow> thread_suspend option \<times> suspensions" where
  "release_thread tid s =
     (case bt_get tid (su_threads s) of
        None \<Rightarrow> (None, s)
      | Some before \<Rightarrow>
          (let rec = before\<lparr>ts_issued := saturating_dec (ts_issued before)\<rparr>;
               threads = bt_put tid rec (su_threads s)
           in (Some before,
               s\<lparr>su_threads := (if ts_issued rec = 0 then bt_del tid threads else threads)\<rparr>)))"

definition forget_thread :: "u64 \<Rightarrow> suspensions \<Rightarrow> bool \<times> suspensions" where
  "forget_thread tid s = (bt_get tid (su_threads s) \<noteq> None, s\<lparr>su_threads := bt_del tid (su_threads s)\<rparr>)"

definition forget_all_threads :: "suspensions \<Rightarrow> string list \<times> suspensions" where
  "forget_all_threads s = (map (ts_name \<circ> snd) (su_threads s), s\<lparr>su_threads := []\<rparr>)"

definition overdue_threads :: "nat \<Rightarrow> instant \<Rightarrow> suspensions \<Rightarrow> u64 list" where
  "overdue_threads secs now s =
     map fst (filter (\<lambda>(_, r). secs \<le> as_secs (since_then now (ts_since r))) (su_threads s))"

definition longest_held :: "u64 list \<Rightarrow> instant \<Rightarrow> suspensions \<Rightarrow> duration" where
  "longest_held tids now s =
     fold max (map (\<lambda>(_, r). since_then now (ts_since r)) (filter (\<lambda>(t, _). t \<in> set tids) (su_threads s))) 0"

datatype suspend_op =
    Op_mark_suspended suspend_cause instant
  | Op_mark_resumed
  | Op_hold u64 string instant
  | Op_hold_failed u64 string instant u32
  | Op_release u64
  | Op_forget u64
  | Op_forget_all

fun suspend_apply :: "suspend_op \<Rightarrow> suspensions \<Rightarrow> suspensions" where
  "suspend_apply (Op_mark_suspended cause now) s = mark_suspended cause now s"
| "suspend_apply Op_mark_resumed s = mark_resumed s"
| "suspend_apply (Op_hold tid name at) s = snd (hold_thread tid name at s)"
| "suspend_apply (Op_hold_failed tid name at req) s = hold_thread_for_failed_escalation tid name at req s"
| "suspend_apply (Op_release tid) s = snd (release_thread tid s)"
| "suspend_apply (Op_forget tid) s = snd (forget_thread tid s)"
| "suspend_apply Op_forget_all s = snd (forget_all_threads s)"

definition suspend_run :: "suspend_op list \<Rightarrow> suspensions \<Rightarrow> suspensions" where
  "suspend_run ops s = fold suspend_apply ops s"

section \<open>Redefinitions\<close>

record redefinition =
  rd_count :: u32
  rd_at :: instant
  rd_popped_since :: bool

type_synonym redefinitions = "(string, redefinition) btree"

definition note_swap :: "string \<Rightarrow> instant \<Rightarrow> redefinitions \<Rightarrow> redefinitions" where
  "note_swap class at m =
     (let entry = (case bt_get class m of
                     Some r \<Rightarrow> r
                   | None \<Rightarrow> \<lparr>rd_count = 0, rd_at = at, rd_popped_since = False\<rparr>)
      in bt_put class (entry\<lparr>rd_count := rd_count entry + 1, rd_at := at, rd_popped_since := False\<rparr>) m)"

definition note_pop :: "string \<Rightarrow> redefinitions \<Rightarrow> redefinitions" where
  "note_pop class m =
     (case bt_get class m of
        None \<Rightarrow> m
      | Some r \<Rightarrow> bt_put class (r\<lparr>rd_popped_since := True\<rparr>) m)"

datatype swap_op = Op_swap string instant | Op_pop string

fun swap_apply :: "swap_op \<Rightarrow> redefinitions \<Rightarrow> redefinitions" where
  "swap_apply (Op_swap class at) m = note_swap class at m"
| "swap_apply (Op_pop class) m = note_pop class m"

section \<open>Lemmas\<close>

abbreviation held_as :: "u64 \<Rightarrow> suspensions \<Rightarrow> thread_suspend option" where
  "held_as tid s \<equiv> bt_get tid (su_threads s)"

definition suspend_ok :: "suspensions \<Rightarrow> bool" where
  "suspend_ok s = (bt_ok (su_threads s)
     \<and> (\<forall>(t, r) \<in> set (su_threads s). ts_issued r = 0 \<longrightarrow> ts_hold r \<noteq> Hold_requested))"

lemma suspend_ok_alt:
  "suspend_ok s \<longleftrightarrow> bt_ok (su_threads s)
     \<and> (\<forall>t r. held_as t s = Some r \<longrightarrow> ts_issued r = 0 \<longrightarrow> ts_hold r \<noteq> Hold_requested)"
  by (auto simp: suspend_ok_def bt_get_iff)

lemma held_as_simps [simp]:
  "held_as t (mark_suspended cause now s) = held_as t s"
  "held_as t (mark_resumed s) = held_as t s"
  "held_as t (snd (forget_thread tid s)) = (if t = tid then None else held_as t s)"
  "held_as t (snd (forget_all_threads s)) = None"
  by (simp_all add: mark_suspended_def mark_resumed_def forget_thread_def forget_all_threads_def)

lemma held_as_hold:
  "held_as t (snd (hold_thread tid name at s)) = (if t = tid then Some (case held_as tid s of
       Some r \<Rightarrow> r\<lparr>ts_issued := saturating_inc (ts_issued r)\<rparr>
     | None \<Rightarrow> \<lparr>ts_name = name, ts_since = at, ts_issued = saturating_inc 0, ts_hold = Hold_requested\<rparr>)
     else held_as t s)"
  by (simp add: hold_thread_def Let_def split: option.split)

lemma held_as_hold_failed:
  "held_as t (hold_thread_for_failed_escalation tid name at req s) = (if t = tid then Some (case held_as tid s of
       Some r \<Rightarrow> r\<lparr>ts_hold := Hold_failed_escalation req\<rparr>
     | None \<Rightarrow> \<lparr>ts_name = name, ts_since = at, ts_issued = 0, ts_hold = Hold_failed_escalation req\<rparr>)
     else held_as t s)"
  by (simp add: hold_thread_for_failed_escalation_def)

lemma held_as_release:
  "held_as t (snd (release_thread tid s)) = (if t = tid then (case held_as tid s of
       None \<Rightarrow> None
     | Some r \<Rightarrow> if saturating_dec (ts_issued r) = 0 then None else Some (r\<lparr>ts_issued := saturating_dec (ts_issued r)\<rparr>))
     else held_as t s)"
  by (simp add: release_thread_def Let_def split: option.split)

lemmas held_as_ops = held_as_hold held_as_hold_failed held_as_release

lemma suspend_apply_bt_ok: "bt_ok (su_threads s) \<Longrightarrow> bt_ok (su_threads (suspend_apply x s))"
  by (cases x) (simp_all add: mark_suspended_def mark_resumed_def forget_thread_def forget_all_threads_def
      hold_thread_def hold_thread_for_failed_escalation_def release_thread_def Let_def split: option.split)

lemma suspend_apply_ok: "suspend_ok s \<Longrightarrow> suspend_ok (suspend_apply x s)"
  unfolding suspend_ok_alt
proof (intro conjI allI impI)
  fix t r
  assume ok: "bt_ok (su_threads s) \<and> (\<forall>t r. held_as t s = Some r \<longrightarrow> ts_issued r = 0 \<longrightarrow> ts_hold r \<noteq> Hold_requested)"
    and r: "held_as t (suspend_apply x s) = Some r" "ts_issued r = 0"
  then show "ts_hold r \<noteq> Hold_requested"
    by (cases x) (auto simp: held_as_ops split: option.splits if_splits)
qed (simp add: suspend_apply_bt_ok)

lemma suspend_run_ok: "suspend_ok s \<Longrightarrow> suspend_ok (suspend_run ops s)"
  by (induction ops arbitrary: s) (simp_all add: suspend_run_def suspend_apply_ok)

lemma suspend_ok_new [simp]: "suspend_ok suspensions_new"
  by (simp add: suspend_ok_def suspensions_new_def)

text \<open>The operations after which a thread is certainly held as long as it was before.\<close>

fun keeps_hold :: "u64 \<Rightarrow> suspend_op \<Rightarrow> bool" where
  "keeps_hold tid (Op_release t) = (t \<noteq> tid)"
| "keeps_hold tid (Op_forget t) = (t \<noteq> tid)"
| "keeps_hold tid Op_forget_all = False"
| "keeps_hold tid _ = True"

lemma hold_kept:
  assumes "keeps_hold tid x" "held_as tid s = Some r"
  shows "\<exists>r'. held_as tid (suspend_apply x s) = Some r' \<and> ts_since r' = ts_since r \<and> ts_name r' = ts_name r"
proof (cases x)
  case (Op_hold t name at)
  then show ?thesis using assms(2) by (cases "t = tid") (simp_all add: held_as_hold)
next
  case (Op_hold_failed t name at req)
  then show ?thesis using assms(2) by (cases "t = tid") (simp_all add: held_as_hold_failed)
next
  case (Op_release t)
  then show ?thesis using assms by (simp add: held_as_release)
next
  case (Op_forget t)
  then show ?thesis using assms by auto
qed (use assms in simp_all)

lemma hold_kept_run:
  assumes "list_all (keeps_hold tid) ops" "held_as tid s = Some r"
  shows "\<exists>r'. held_as tid (suspend_run ops s) = Some r' \<and> ts_since r' = ts_since r \<and> ts_name r' = ts_name r"
  using assms
proof (induction ops arbitrary: s r)
  case (Cons x ops)
  then have "keeps_hold tid x" by simp
  then obtain r1 where r1: "held_as tid (suspend_apply x s) = Some r1" "ts_since r1 = ts_since r" "ts_name r1 = ts_name r"
    using hold_kept Cons.prems(2) by blast
  have "list_all (keeps_hold tid) ops" using Cons.prems(1) by simp
  from Cons.IH [OF this r1(1)] r1 show ?case by (simp add: suspend_run_def)
qed (simp add: suspend_run_def)

lemma overdue_iff:
  assumes "suspend_ok s"
  shows "t \<in> set (overdue_threads secs now s)
     \<longleftrightarrow> (\<exists>r. held_as t s = Some r \<and> secs \<le> as_secs (since_then now (ts_since r)))"
  using assms by (force simp: overdue_threads_def suspend_ok_def bt_get_iff image_iff)

lemma overdue_sorted: "suspend_ok s \<Longrightarrow> sorted_wrt (<) (overdue_threads secs now s)"
proof -
  assume "suspend_ok s"
  then have "sorted_wrt (<) (map fst (su_threads s))" by (simp add: suspend_ok_def bt_ok_def)
  then show ?thesis
    unfolding overdue_threads_def by (rule sorted_wrt_subseq [rotated]) (intro subseq_map subseq_filter_left)
qed

lemma fold_max_bound: "(a::nat) \<le> fold max xs b \<longleftrightarrow> a \<le> b \<or> (\<exists>x\<in>set xs. a \<le> x)"
proof (induction xs arbitrary: b)
  case (Cons x xs)
  then show ?case by (simp add: le_max_iff_disj) blast
qed simp

lemma le_longest_held:
  assumes "suspend_ok s" "0 < d"
  shows "d \<le> longest_held tids now s
     \<longleftrightarrow> (\<exists>t\<in>set tids. \<exists>r. held_as t s = Some r \<and> d \<le> since_then now (ts_since r))"
  using assms by (force simp: longest_held_def fold_max_bound suspend_ok_def bt_get_iff)

section \<open>Specification\<close>

text \<open>
  What a session may claim about one thread depends on the calls about that thread alone: since when it
  is held, by how many calls nobody has taken back, and whether a stop point must be disarmed to rescue it.
\<close>

record claim =
  cl_name :: string
  cl_since :: instant
  cl_calls :: nat
  cl_disarm :: "u32 option"

fun claim_step :: "u64 \<Rightarrow> suspend_op \<Rightarrow> claim option \<Rightarrow> claim option" where
  "claim_step tid (Op_hold t name at) c =
     (if t \<noteq> tid then c else case c of
        None \<Rightarrow> Some \<lparr>cl_name = name, cl_since = at, cl_calls = 1, cl_disarm = None\<rparr>
      | Some k \<Rightarrow> Some (k\<lparr>cl_calls := Suc (cl_calls k)\<rparr>))"
| "claim_step tid (Op_hold_failed t name at req) c =
     (if t \<noteq> tid then c else case c of
        None \<Rightarrow> Some \<lparr>cl_name = name, cl_since = at, cl_calls = 0, cl_disarm = Some req\<rparr>
      | Some k \<Rightarrow> Some (k\<lparr>cl_disarm := Some req\<rparr>))"
| "claim_step tid (Op_release t) c =
     (if t \<noteq> tid then c else case c of
        None \<Rightarrow> None
      | Some k \<Rightarrow> if cl_calls k \<le> 1 then None else Some (k\<lparr>cl_calls := cl_calls k - 1\<rparr>))"
| "claim_step tid (Op_forget t) c = (if t \<noteq> tid then c else None)"
| "claim_step tid Op_forget_all c = None"
| "claim_step tid _ c = c"

definition claim_of :: "thread_suspend \<Rightarrow> claim" where
  "claim_of r = \<lparr>cl_name = ts_name r, cl_since = ts_since r, cl_calls = unat (ts_issued r),
     cl_disarm = (case ts_hold r of Hold_requested \<Rightarrow> None | Hold_failed_escalation req \<Rightarrow> Some req)\<rparr>"

lemma claim_step_calls:
  "(case claim_step tid x c of None \<Rightarrow> 0 | Some k \<Rightarrow> cl_calls k) \<le> Suc (case c of None \<Rightarrow> 0 | Some k \<Rightarrow> cl_calls k)"
  by (cases x) (auto split: option.splits if_splits)

lemma unat_saturating_inc_u32: "Suc (unat w) < 4294967296 \<Longrightarrow> unat (saturating_inc (w :: u32)) = Suc (unat w)"
  using unat_saturating_inc [of w] by simp

lemma saturating_dec_0: "saturating_dec w = 0 \<longleftrightarrow> unat w \<le> 1"
proof -
  have "saturating_dec w = 0 \<longleftrightarrow> unat (saturating_dec w) = 0" by (simp only: unat_eq_0)
  then show ?thesis by (auto simp: unat_saturating_dec)
qed

lemma saturating_inc_0_u32: "unat (saturating_inc (0 :: u32)) = 1"
  using unat_saturating_inc_u32 [of 0] by simp

definition calls_on :: "u64 \<Rightarrow> suspensions \<Rightarrow> nat" where
  "calls_on tid s = (case held_as tid s of None \<Rightarrow> 0 | Some r \<Rightarrow> unat (ts_issued r))"

lemma claim_step_refines:
  assumes "Suc (calls_on tid s) < 2 ^ 32"
  shows "map_option claim_of (held_as tid (suspend_apply x s)) = claim_step tid x (map_option claim_of (held_as tid s))"
proof (cases "held_as tid s")
  case None
  then show ?thesis by (cases x) (auto simp: held_as_ops claim_of_def saturating_inc_0_u32)
next
  case (Some r)
  then show ?thesis
    using assms
    by (cases x) (auto simp: calls_on_def held_as_ops claim_of_def unat_saturating_inc_u32 saturating_dec_0
        unat_saturating_dec)
qed

lemma calls_on_claim: "calls_on tid s = (case map_option claim_of (held_as tid s) of None \<Rightarrow> 0 | Some k \<Rightarrow> cl_calls k)"
  by (simp add: calls_on_def claim_of_def split: option.split)

lemma claim_run_refines:
  assumes "Suc (calls_on tid s) + length ops \<le> 2 ^ 32"
  shows "map_option claim_of (held_as tid (suspend_run ops s)) = fold (claim_step tid) ops (map_option claim_of (held_as tid s))"
  using assms
proof (induction ops arbitrary: s)
  case (Cons x ops)
  have step: "map_option claim_of (held_as tid (suspend_apply x s)) = claim_step tid x (map_option claim_of (held_as tid s))"
    by (rule claim_step_refines) (use Cons.prems in simp)
  have "calls_on tid (suspend_apply x s) \<le> Suc (calls_on tid s)"
    unfolding calls_on_claim step by (rule claim_step_calls)
  then have "Suc (calls_on tid (suspend_apply x s)) + length ops \<le> 2 ^ 32" using Cons.prems by simp
  from Cons.IH [OF this] show ?case by (simp add: suspend_run_def step)
qed (simp add: suspend_run_def)

definition swap_times :: "string \<Rightarrow> swap_op list \<Rightarrow> instant list" where
  "swap_times class ops = concat (map (\<lambda>x. case x of Op_swap c at \<Rightarrow> if c = class then [at] else [] | Op_pop c \<Rightarrow> []) ops)"

definition is_swap_of :: "string \<Rightarrow> swap_op \<Rightarrow> bool" where
  "is_swap_of class x = (case x of Op_swap c at \<Rightarrow> c = class | Op_pop c \<Rightarrow> False)"

definition popped_after_swap :: "string \<Rightarrow> swap_op list \<Rightarrow> bool" where
  "popped_after_swap class ops = (Op_pop class \<in> set (takeWhile (\<lambda>x. \<not> is_swap_of class x) (rev ops)))"

lemma swap_times_snoc:
  "swap_times class (ops @ [x]) = swap_times class ops
     @ (case x of Op_swap c at \<Rightarrow> if c = class then [at] else [] | Op_pop c \<Rightarrow> [])"
  by (simp add: swap_times_def)

lemma popped_after_swap_snoc:
  "popped_after_swap class (ops @ [x])
     \<longleftrightarrow> \<not> is_swap_of class x \<and> (x = Op_pop class \<or> popped_after_swap class ops)"
  by (cases "is_swap_of class x") (auto simp: popped_after_swap_def)

lemma bt_get_note_swap:
  "bt_get j (note_swap class at m) = (if j = class then Some (case bt_get class m of
       None \<Rightarrow> \<lparr>rd_count = 1, rd_at = at, rd_popped_since = False\<rparr>
     | Some r \<Rightarrow> r\<lparr>rd_count := rd_count r + 1, rd_at := at, rd_popped_since := False\<rparr>) else bt_get j m)"
  by (simp add: note_swap_def Let_def split: option.split)

lemma bt_get_note_pop:
  "bt_get j (note_pop class m)
     = (if j = class then map_option (rd_popped_since_update (\<lambda>_. True)) (bt_get class m) else bt_get j m)"
  by (simp add: note_pop_def split: option.split)

section \<open>Properties\<close>

text \<open>
  C33: what a session records about a thread is exactly what the specification lets it claim from the calls
  about that thread: the clock of the first of them, the number of suspends nobody took back, and the stop
  point of its latest failed escalation - whatever happens to other threads and to the VM.
\<close>

theorem thread_claims_refine:
  assumes "length ops < 2 ^ 32"
  shows "map_option claim_of (held_as tid (suspend_run ops suspensions_new)) = fold (claim_step tid) ops None"
  using claim_run_refines [of tid suspensions_new ops] assms by (simp add: suspensions_new_def calls_on_def)

text \<open>
  C34: no repeated suspend and no failed escalation postpones a rescue. Once a thread is held, by a call or
  by a failed escalation, it is overdue as soon as the deadline counted from that moment has passed, and the
  rescue reports at least that age, unless it was released or forgotten in between.
\<close>

theorem rescue_not_postponed:
  assumes "first \<in> {Op_hold tid name t0, Op_hold_failed tid name t0 req}"
    and "held_as tid s = None" "suspend_ok s"
    and "list_all (keeps_hold tid) ops"
    and "t0 + secs * 1000000000 \<le> now" "0 < secs"
  shows "tid \<in> set (overdue_threads secs now (suspend_run (first # ops) s))
    \<and> secs * 1000000000 \<le> longest_held (overdue_threads secs now (suspend_run (first # ops) s)) now
        (suspend_run (first # ops) s)"
proof -
  let ?s1 = "suspend_apply first s" and ?s = "suspend_run (first # ops) s"
  obtain r1 where "held_as tid ?s1 = Some r1" "ts_since r1 = t0"
    using assms(1,2) by (auto simp: held_as_ops)
  then obtain r where r: "held_as tid (suspend_run ops ?s1) = Some r" "ts_since r = t0"
    using hold_kept_run [OF assms(4)] by metis
  then have r': "held_as tid ?s = Some r" by (simp add: suspend_run_def)
  have ok: "suspend_ok ?s" by (rule suspend_run_ok [OF assms(3)])
  have age: "secs * 1000000000 \<le> since_then now (ts_since r)"
    using assms(5) r(2) by (simp add: since_then_def)
  then have "secs \<le> as_secs (since_then now (ts_since r))"
    by (simp add: as_secs_def less_eq_div_iff_mult_less_eq)
  then have over: "tid \<in> set (overdue_threads secs now ?s)" using overdue_iff [OF ok] r' by blast
  then have "secs * 1000000000 \<le> longest_held (overdue_threads secs now ?s) now ?s"
    using le_longest_held [OF ok, of "secs * 1000000000"] r' age assms(6) by auto
  with over show ?thesis by simp
qed

text \<open>
  the watchdog's second arm picks, in the order of their ids and each once, exactly the threads held
  for at least the given number of seconds, and no requested hold is ever left on record with no call
  behind it.
\<close>

theorem overdue_threads_exact:
  "let s = suspend_run ops suspensions_new in
     sorted_wrt (<) (overdue_threads secs now s)
   \<and> set (overdue_threads secs now s)
       = {t. \<exists>r. held_as t s = Some r \<and> secs \<le> as_secs (since_then now (ts_since r))}
   \<and> held_as t s \<noteq> Some \<lparr>ts_name = n, ts_since = at, ts_issued = 0, ts_hold = Hold_requested\<rparr>"
proof -
  let ?s = "suspend_run ops suspensions_new"
  have ok: "suspend_ok ?s" by (simp add: suspend_run_ok)
  then have "held_as t ?s \<noteq> Some \<lparr>ts_name = n, ts_since = at, ts_issued = 0, ts_hold = Hold_requested\<rparr>"
    unfolding suspend_ok_alt by (metis thread_suspend.select_convs(3,4))
  then show ?thesis using overdue_sorted [OF ok] overdue_iff [OF ok] by (auto simp: Let_def)
qed

text \<open>
  the residue report tells the truth about every class: how often this session redefined it, when it
  last did, and whether a frame was popped since then - a pop before the latest swap does not count, and a
  class never redefined has no entry.
\<close>

theorem redefinition_residue:
  "bt_get class (fold swap_apply ops []) =
     (if swap_times class ops = [] then None
      else Some \<lparr>rd_count = word_of_nat (length (swap_times class ops)), rd_at = last (swap_times class ops),
                 rd_popped_since = popped_after_swap class ops\<rparr>)"
proof (induction ops rule: rev_induct)
  case (snoc x ops)
  show ?case
  proof (cases x)
    case (Op_swap c at)
    then show ?thesis
      using snoc by (auto simp: bt_get_note_swap swap_times_snoc popped_after_swap_snoc is_swap_of_def add.commute)
  next
    case (Op_pop c)
    then show ?thesis
      using snoc by (auto simp: bt_get_note_pop swap_times_snoc popped_after_swap_snoc is_swap_of_def)
  qed
qed (simp add: swap_times_def)

section \<open>Instances\<close>

theorem thread_claims_refine_witness:
  "map_option claim_of (held_as 5 (suspend_run [Op_hold 5 ''w'' 10, Op_hold 6 ''x'' 11, Op_hold 5 ''w'' 20, Op_release 5] suspensions_new))
     = Some \<lparr>cl_name = ''w'', cl_since = 10, cl_calls = 1, cl_disarm = None\<rparr>"
  using thread_claims_refine [of "[Op_hold 5 ''w'' 10, Op_hold 6 ''x'' 11, Op_hold 5 ''w'' 20, Op_release 5]" 5] by simp

theorem rescue_not_postponed_witness:
  "5 \<in> set (overdue_threads 30 40000000000 (suspend_run [Op_hold_failed 5 ''w'' 0 77, Op_hold 5 ''w'' 39000000000] suspensions_new))"
  using rescue_not_postponed [of "Op_hold_failed 5 ''w'' 0 77" 5 "''w''" 0 77 suspensions_new
      "[Op_hold 5 ''w'' 39000000000]" 30 40000000000]
  by (simp add: suspensions_new_def suspend_ok_def)

end
