(* ===== verification/StopPoint.thy ===== *)
theory StopPoint
  imports EventRequest Suspensions
begin

text \<open>
  \<open>mcp-server/src/stop_point.rs\<close>: a stop point - what every kind has in common, what each kind
  is armed on, and what a listing says about it - with the small rules of \<open>handlers.rs\<close> about one stop
  point: its suspend policy, its staleness verdict, its trace budget and its measured cost.
\<close>

definition uni :: "nat \<Rightarrow> string" where
  "uni c = bytes_string (utf8_encode c)"

section \<open>Kinds\<close>

datatype stop_point_kind = SK_Line | SK_Exception | SK_Watchpoint | SK_MethodExit | SK_Monitor

definition LISTING_ORDER :: "stop_point_kind list" where
  "LISTING_ORDER = [SK_Line, SK_Exception, SK_Watchpoint, SK_MethodExit, SK_Monitor]"

fun listing_rank :: "stop_point_kind \<Rightarrow> nat" where
  "listing_rank SK_Line = 0"
| "listing_rank SK_Exception = 1"
| "listing_rank SK_Watchpoint = 2"
| "listing_rank SK_MethodExit = 3"
| "listing_rank SK_Monitor = 4"

fun kind_label :: "stop_point_kind \<Rightarrow> string" where
  "kind_label SK_Line = ''line breakpoint''"
| "kind_label SK_Exception = ''exception stop point''"
| "kind_label SK_Watchpoint = ''field watchpoint''"
| "kind_label SK_MethodExit = ''method-exit stop point''"
| "kind_label SK_Monitor = ''monitor stop point''"

fun armed_glyph :: "stop_point_kind \<Rightarrow> string" where
  "armed_glyph SK_Line = uni 0x2713"
| "armed_glyph SK_Exception = uni 0x26A1"
| "armed_glyph SK_Watchpoint = uni 0x1F441"
| "armed_glyph SK_MethodExit = uni 0x21A9"
| "armed_glyph SK_Monitor = uni 0x1F512"

definition takes_condition :: "stop_point_kind \<Rightarrow> bool" where
  "takes_condition k = (k \<noteq> SK_Monitor)"

text \<open>The derived order of the enum is the order of its constructors.\<close>

lemma listing_rank_inj: "listing_rank a = listing_rank b \<Longrightarrow> a = b"
  by (cases a; cases b) simp_all

instantiation stop_point_kind :: linorder
begin

definition less_eq_stop_point_kind :: "stop_point_kind \<Rightarrow> stop_point_kind \<Rightarrow> bool" where
  "a \<le> b \<longleftrightarrow> listing_rank a \<le> listing_rank b"

definition less_stop_point_kind :: "stop_point_kind \<Rightarrow> stop_point_kind \<Rightarrow> bool" where
  "a < b \<longleftrightarrow> listing_rank a < listing_rank b"

instance
  by standard (auto simp: less_eq_stop_point_kind_def less_stop_point_kind_def dest: listing_rank_inj)

end

lemma LISTING_ORDER_complete: "sorted_wrt (<) LISTING_ORDER" "k \<in> set LISTING_ORDER"
  by (simp add: LISTING_ORDER_def less_stop_point_kind_def) (cases k; simp add: LISTING_ORDER_def)

section \<open>What a stop point is armed on\<close>

datatype drift_check = Drift_stale string | Drift_current | Drift_not_checked string

record armed_location =
  al_class_id :: u64
  al_method_id :: u64
  al_bytecode_index :: u64

record breakpoint_arm =
  ba_class_id :: u64
  ba_method_id :: u64
  ba_bytecode_index :: u64
  ba_extra_locations :: "armed_location list"
  ba_suspend_policy :: suspend_policy

record later_copies =
  lc_copies :: nat
  lc_lines :: "u32 list"
  lc_misses :: nat
  lc_miss :: "string option"

record rearm_watch =
  rw_request_id :: u32
  rw_signature :: string
  rw_later :: later_copies
  rw_line :: "u32 option"
  rw_method :: "string option"

datatype rearm_state = Rearm_watching rearm_watch | Rearm_covered_by_family | Rearm_unwatched

record line_breakpoint =
  lb_class_pattern :: string
  lb_line :: u32
  lb_method :: "string option"
  lb_arm_line :: "u32 option"
  lb_arm_method :: "string option"
  lb_drift :: drift_check
  lb_loaders :: "string list"
  lb_arm :: breakpoint_arm
  lb_rearm :: rearm_state

record exception_breakpoint =
  xb_class_pattern :: string
  xb_caught :: bool
  xb_uncaught :: bool

record watchpoint =
  wp_kind :: watch_kind
  wp_class_name :: string
  wp_field_name :: string
  wp_is_static :: bool

record method_exit_request =
  me_discarded :: u32
  me_class_pattern :: string
  me_exclude_classes :: "string list"
  me_method :: "string option"
  me_with_return_value :: bool

record monitor_stop =
  ms_kind :: monitor_kind
  ms_paired :: bool
  ms_monitor_class :: "string option"
  ms_min_duration_ms :: "u64 option"

datatype armed_on =
    On_line line_breakpoint
  | On_exception exception_breakpoint
  | On_watchpoint watchpoint
  | On_method_exit method_exit_request
  | On_monitor monitor_stop

fun wire_noun :: "armed_on \<Rightarrow> string" where
  "wire_noun (On_line _) = ''breakpoint request''"
| "wire_noun (On_exception _) = ''exception request''"
| "wire_noun (On_watchpoint _) = ''field watch''"
| "wire_noun (On_method_exit _) = ''method-exit request''"
| "wire_noun (On_monitor _) = ''monitor request''"

fun describe_armed_on :: "armed_on \<Rightarrow> string" where
  "describe_armed_on (On_line bp) = lb_class_pattern bp @ '':'' @ show_nat (unat (lb_line bp))"
| "describe_armed_on (On_exception er) = ''exception '' @ xb_class_pattern er"
| "describe_armed_on (On_watchpoint wp) = ''watch '' @ wp_class_name wp @ ''.'' @ wp_field_name wp"
| "describe_armed_on (On_method_exit me) = ''method-exit '' @ me_class_pattern me"
| "describe_armed_on (On_monitor mon) = ''monitor '' @ monitor_label (ms_kind mon)"

fun armed_kind :: "armed_on \<Rightarrow> stop_point_kind" where
  "armed_kind (On_line _) = SK_Line"
| "armed_kind (On_exception _) = SK_Exception"
| "armed_kind (On_watchpoint _) = SK_Watchpoint"
| "armed_kind (On_method_exit _) = SK_MethodExit"
| "armed_kind (On_monitor _) = SK_Monitor"

fun rearm_watch_of :: "rearm_state \<Rightarrow> rearm_watch option" where
  "rearm_watch_of (Rearm_watching w) = Some w"
| "rearm_watch_of _ = None"

definition armed_locations_of :: "breakpoint_arm \<Rightarrow> (u64 \<times> u64 \<times> u64) list" where
  "armed_locations_of arm =
     (ba_class_id arm, ba_method_id arm, ba_bytecode_index arm)
     # map (\<lambda>l. (al_class_id l, al_method_id l, al_bytecode_index l)) (ba_extra_locations arm)"

section \<open>The cost of tracing\<close>

definition DURATION_MAX :: duration where
  "DURATION_MAX = (2 ^ 64 - 1) * 1000000000 + 999999999"

record trace_cost =
  tc_captures :: u64
  tc_total :: duration
  tc_first :: "instant option"
  tc_last :: "instant option"

definition trace_cost_default :: trace_cost where
  "trace_cost_default = \<lparr>tc_captures = 0, tc_total = 0, tc_first = None, tc_last = None\<rparr>"

definition record_cost :: "instant \<Rightarrow> duration \<Rightarrow> trace_cost \<Rightarrow> trace_cost" where
  "record_cost started took c =
     c\<lparr>tc_captures := tc_captures c + 1,
       tc_total := min DURATION_MAX (tc_total c + took),
       tc_first := (case tc_first c of None \<Rightarrow> Some started | Some f \<Rightarrow> Some f),
       tc_last := Some started\<rparr>"

definition mean_capture :: "trace_cost \<Rightarrow> duration option" where
  "mean_capture c =
     (if 0 < tc_captures c then Some (tc_total c div min (unat (tc_captures c)) (2 ^ 32 - 1)) else None)"

section \<open>Stop points\<close>

record stop_point =
  sp_id :: string
  sp_request_ids :: "u32 list"
  sp_enabled :: bool
  sp_spent :: bool
  sp_hit_count :: "u32 option"
  sp_hits :: u32
  sp_condition :: "string option"
  sp_trace :: bool
  sp_trace_expr :: "string list"
  sp_trace_budget :: "u32 option"
  sp_trace_frames :: nat
  sp_trace_max_length :: "nat option"
  sp_trace_cost :: trace_cost
  sp_thread_filter :: "u64 option"
  sp_instance_filter :: "u64 option"
  sp_armed_on :: armed_on

definition sp_kind :: "stop_point \<Rightarrow> stop_point_kind" where
  "sp_kind sp = armed_kind (sp_armed_on sp)"

definition owns_request :: "u32 \<Rightarrow> stop_point \<Rightarrow> bool" where
  "owns_request req sp = (req \<in> set (sp_request_ids sp))"

definition sp_is_armed :: "stop_point \<Rightarrow> bool" where
  "sp_is_armed sp = (sp_request_ids sp \<noteq> [])"

definition glyph :: "stop_point \<Rightarrow> string" where
  "glyph sp =
     (if sp_spent sp then uni 0x23F9
      else if sp_enabled sp then armed_glyph (sp_kind sp)
      else uni 0x2717)"

fun method_tail :: "string option \<Rightarrow> string" where
  "method_tail None = ''.*''"
| "method_tail (Some m) = ''.'' @ m"

definition describe_for_rescue :: "stop_point \<Rightarrow> string" where
  "describe_for_rescue sp =
     (case sp_armed_on sp of
        On_line bp \<Rightarrow> ''breakpoint '' @ sp_id sp @ '' at '' @ lb_class_pattern bp @ '':'' @ show_nat (unat (lb_line bp))
      | On_exception er \<Rightarrow> ''exception breakpoint '' @ sp_id sp @ '' ('' @ xb_class_pattern er @ '')''
      | On_watchpoint wp \<Rightarrow>
          ''watchpoint '' @ sp_id sp @ '' ('' @ wp_class_name wp @ ''.'' @ wp_field_name wp @ '')''
      | On_method_exit me \<Rightarrow>
          ''method-exit request '' @ sp_id sp @ '' ('' @ me_class_pattern me @ method_tail (me_method me) @ '')''
      | On_monitor mon \<Rightarrow> ''monitor request '' @ sp_id sp @ '' ('' @ monitor_label (ms_kind mon) @ '')'')"

definition state_suffix :: "stop_point \<Rightarrow> string" where
  "state_suffix sp =
     (if \<not> sp_spent sp \<and> sp_enabled sp then ''''
      else if sp_spent sp then
        '' '' @ uni 0x2014 @ '' SPENT (its hit_count fired, and the JVM deleted the request itself '' @ uni 0x2014
        @ '' nothing is armed. debug.toggle_stop_point re-arms it with the same count)''
      else '' '' @ uni 0x2014 @ '' DISABLED (definition kept; toggle to re-arm)'')"

definition clear_note :: "stop_point \<Rightarrow> string" where
  "clear_note sp =
     (if sp_spent sp then
        '' '' @ uni 0x2014 @ '' it was already SPENT (its hit_count had fired and the JVM deleted the request), so ''
        @ ''nothing was sent to the debuggee; only the bookkeeping is gone''
      else '''')"

definition sp_line :: "stop_point \<Rightarrow> line_breakpoint option" where
  "sp_line sp = (case sp_armed_on sp of On_line l \<Rightarrow> Some l | _ \<Rightarrow> None)"

definition sp_method_exit :: "stop_point \<Rightarrow> method_exit_request option" where
  "sp_method_exit sp = (case sp_armed_on sp of On_method_exit m \<Rightarrow> Some m | _ \<Rightarrow> None)"

definition sp_monitor :: "stop_point \<Rightarrow> monitor_stop option" where
  "sp_monitor sp = (case sp_armed_on sp of On_monitor m \<Rightarrow> Some m | _ \<Rightarrow> None)"

section \<open>Rules about one stop point\<close>

definition suspend_policy_for :: "bool \<Rightarrow> suspend_policy" where
  "suspend_policy_for trace = (if trace then SP_EventThread else SP_All)"

definition suspend_policy_for_line :: "bool \<Rightarrow> bool \<Rightarrow> suspend_policy" where
  "suspend_policy_for_line trace conditional = (if conditional then SP_EventThread else suspend_policy_for trace)"

definition worse_drift :: "drift_check \<Rightarrow> drift_check \<Rightarrow> drift_check" where
  "worse_drift existing fresh =
     (case (existing, fresh) of
        (Drift_stale _, Drift_current) \<Rightarrow> existing
      | (Drift_stale _, Drift_not_checked _) \<Rightarrow> existing
      | (Drift_not_checked _, Drift_current) \<Rightarrow> existing
      | _ \<Rightarrow> fresh)"

definition DEFAULT_TRACE_BUDGET :: u32 where
  "DEFAULT_TRACE_BUDGET = 200"

definition refreshed_budget :: "u32 option \<Rightarrow> u32 option" where
  "refreshed_budget current = (if current = Some 0 then Some DEFAULT_TRACE_BUDGET else current)"

fun drift_rank :: "drift_check \<Rightarrow> nat" where
  "drift_rank Drift_current = 0"
| "drift_rank (Drift_not_checked _) = 1"
| "drift_rank (Drift_stale _) = 2"

lemma worse_drift_max: "worse_drift a b = (if drift_rank b < drift_rank a then a else b)"
  by (cases a; cases b) (simp_all add: worse_drift_def)

lemma worse_drift_assoc: "worse_drift (worse_drift a b) c = worse_drift a (worse_drift b c)"
  by (simp add: worse_drift_max)

end
