(* ===== verification/EventRing.thy ===== *)
theory EventRing
  imports Events Containers
begin

text \<open>
  \<open>mcp-server/src/session.rs\<close>: the reportable events of a session (\<open>EventRing\<close>), their numbering and
  eviction, the slice a reply shows, and the note the watchdog leaves. The abstract specification keeps
  every event since the last drain; the ring is shown to be its last hundred.
\<close>

record failed_escalation =
  fe_vm_running :: bool
  fe_note :: string

record event_record =
  er_seq :: u64
  er_set :: event_set
  er_escalation :: "failed_escalation option"

record event_ring =
  ring_held :: "event_record list"
  ring_seq :: u64
  ring_dropped :: u64
  ring_watchdog_note :: "string option"
  ring_watchdog_seq :: "u64 option"
  ring_watchdog_disarmed :: "string list"

record event_tail =
  tail_shown :: "event_record list"
  tail_unshown :: nat
  tail_dropped :: u64

definition MAX_EVENTS :: nat where
  "MAX_EVENTS = 100"

definition event_ring_new :: event_ring where
  "event_ring_new =
     \<lparr>ring_held = [], ring_seq = 0, ring_dropped = 0, ring_watchdog_note = None,
      ring_watchdog_seq = None, ring_watchdog_disarmed = []\<rparr>"

definition event_ring_push ::
  "event_set \<Rightarrow> failed_escalation option \<Rightarrow> event_ring \<Rightarrow> u64 \<times> event_ring" where
  "event_ring_push es escalation r =
     (let r1 = r\<lparr>ring_seq := ring_seq r + 1\<rparr>;
          r2 = (if MAX_EVENTS \<le> length (ring_held r1)
                then r1\<lparr>ring_held := drop 1 (ring_held r1), ring_dropped := ring_dropped r1 + 1\<rparr>
                else r1);
          rec = \<lparr>er_seq = ring_seq r2, er_set = es, er_escalation = escalation\<rparr>
      in (ring_seq r2, r2\<lparr>ring_held := ring_held r2 @ [rec]\<rparr>))"

definition event_ring_tail :: "nat \<Rightarrow> event_ring \<Rightarrow> event_tail" where
  "event_ring_tail limit r =
     (let total = length (ring_held r);
          shown = min (max limit 1) total;
          unshown = total - shown
      in \<lparr>tail_shown = drop unshown (ring_held r), tail_unshown = unshown, tail_dropped = ring_dropped r\<rparr>)"

definition event_ring_clear :: "event_ring \<Rightarrow> event_ring" where
  "event_ring_clear r = r\<lparr>ring_held := []\<rparr>"

definition watchdog_note_for :: "u64 option \<Rightarrow> event_ring \<Rightarrow> string option" where
  "watchdog_note_for newest_seq r =
     (case (ring_watchdog_note r, ring_watchdog_seq r) of
        (Some note, Some at) \<Rightarrow>
          (case newest_seq of None \<Rightarrow> None | Some n \<Rightarrow> if n \<le> at then Some note else None)
      | _ \<Rightarrow> None)"

definition note_watchdog :: "string \<Rightarrow> string list \<Rightarrow> event_ring \<Rightarrow> event_ring" where
  "note_watchdog note disarmed r =
     r\<lparr>ring_watchdog_note := Some note, ring_watchdog_seq := Some (ring_seq r),
       ring_watchdog_disarmed := disarmed\<rparr>"

datatype ring_op =
    Ring_push event_set "failed_escalation option"
  | Ring_clear
  | Ring_note string "string list"

fun ring_apply :: "ring_op \<Rightarrow> event_ring \<Rightarrow> event_ring" where
  "ring_apply (Ring_push es esc) r = snd (event_ring_push es esc r)"
| "ring_apply Ring_clear r = event_ring_clear r"
| "ring_apply (Ring_note note ids) r = note_watchdog note ids r"

section \<open>Specification\<close>

text \<open>
  What the ring promises: every event ever reported has a number, in order of arrival; what has
  arrived since the last drain is there to be read; at most the last hundred of it is kept and what is
  not kept is counted; a note knows how many events had been reported when it was written.
\<close>

record ring_spec =
  spec_arrived :: nat
  spec_live :: "(nat \<times> event_set \<times> failed_escalation option) list"
  spec_evicted :: nat
  spec_note :: "(string \<times> nat \<times> string list) option"

definition ring_spec_new :: ring_spec where
  "ring_spec_new = \<lparr>spec_arrived = 0, spec_live = [], spec_evicted = 0, spec_note = None\<rparr>"

fun spec_apply :: "ring_op \<Rightarrow> ring_spec \<Rightarrow> ring_spec" where
  "spec_apply (Ring_push es esc) s =
     s\<lparr>spec_arrived := Suc (spec_arrived s), spec_live := spec_live s @ [(Suc (spec_arrived s), es, esc)],
       spec_evicted := spec_evicted s + (if MAX_EVENTS \<le> length (spec_live s) then 1 else 0)\<rparr>"
| "spec_apply Ring_clear s = s\<lparr>spec_live := []\<rparr>"
| "spec_apply (Ring_note note ids) s = s\<lparr>spec_note := Some (note, spec_arrived s, ids)\<rparr>"

definition ring_entry :: "nat \<times> event_set \<times> failed_escalation option \<Rightarrow> event_record" where
  "ring_entry x = \<lparr>er_seq = word_of_nat (fst x), er_set = fst (snd x), er_escalation = snd (snd x)\<rparr>"

definition ring_of_spec :: "ring_spec \<Rightarrow> event_ring" where
  "ring_of_spec s =
     \<lparr>ring_held = map ring_entry (last_n MAX_EVENTS (spec_live s)), ring_seq = word_of_nat (spec_arrived s),
      ring_dropped = word_of_nat (spec_evicted s),
      ring_watchdog_note = map_option fst (spec_note s),
      ring_watchdog_seq = map_option (\<lambda>n. word_of_nat (fst (snd n))) (spec_note s),
      ring_watchdog_disarmed = (case spec_note s of None \<Rightarrow> [] | Some n \<Rightarrow> snd (snd n))\<rparr>"

definition ring_run :: "ring_op list \<Rightarrow> event_ring" where
  "ring_run ops = fold ring_apply ops event_ring_new"

definition spec_run :: "ring_op list \<Rightarrow> ring_spec" where
  "spec_run ops = fold spec_apply ops ring_spec_new"

section \<open>Lemmas\<close>

lemma MAX_EVENTS_pos: "0 < MAX_EVENTS"
  by (simp add: MAX_EVENTS_def)

lemma event_ring_push_held:
  "ring_held (snd (event_ring_push es esc r))
   = ring_push MAX_EVENTS \<lparr>er_seq = ring_seq r + 1, er_set = es, er_escalation = esc\<rparr> (ring_held r)"
  by (simp add: event_ring_push_def ring_push_def Let_def)

lemma event_ring_push_rest:
  "snd (event_ring_push es esc r) =
     r\<lparr>ring_seq := ring_seq r + 1,
       ring_dropped := ring_dropped r + (if MAX_EVENTS \<le> length (ring_held r) then 1 else 0),
       ring_held := ring_held (snd (event_ring_push es esc r))\<rparr>"
  by (simp add: event_ring_push_def Let_def)

lemma event_ring_push_seq: "ring_seq (snd (event_ring_push es esc r)) = ring_seq r + 1"
  by (simp add: event_ring_push_def Let_def)

lemma map_ring_push: "map f (ring_push cap x q) = ring_push cap (f x) (map f q)"
  by (simp add: ring_push_def drop_map)

lemma last_n_full_iff: "0 < n \<Longrightarrow> n \<le> length (last_n n xs) \<longleftrightarrow> n \<le> length xs"
  by (auto simp: min_def)

lemma ring_apply_refines: "ring_apply x (ring_of_spec s) = ring_of_spec (spec_apply x s)"
proof (cases x)
  case (Ring_push es esc)
  let ?r = "ring_of_spec s"
  have "ring_push MAX_EVENTS \<lparr>er_seq = ring_seq ?r + 1, er_set = es, er_escalation = esc\<rparr> (ring_held ?r)
      = map ring_entry (last_n MAX_EVENTS (spec_live s @ [(Suc (spec_arrived s), es, esc)]))"
    unfolding ring_push_last_n [OF MAX_EVENTS_pos, symmetric] map_ring_push
    by (simp add: ring_of_spec_def ring_entry_def add.commute)
  moreover have "MAX_EVENTS \<le> length (ring_held ?r) \<longleftrightarrow> MAX_EVENTS \<le> length (spec_live s)"
    using last_n_full_iff [OF MAX_EVENTS_pos] by (simp add: ring_of_spec_def)
  ultimately show ?thesis
    unfolding Ring_push ring_apply.simps
    by (subst event_ring_push_rest)
      (simp add: event_ring_push_held, simp add: ring_of_spec_def add.commute)
next
  case Ring_clear
  then show ?thesis by (simp add: ring_of_spec_def event_ring_clear_def last_n_def)
next
  case (Ring_note n ids)
  then show ?thesis by (simp add: ring_of_spec_def note_watchdog_def)
qed

lemma fold_refines: "fold ring_apply ops (ring_of_spec s) = ring_of_spec (fold spec_apply ops s)"
  by (induction ops arbitrary: s) (simp_all add: ring_apply_refines)

lemma ring_of_spec_new: "ring_of_spec ring_spec_new = event_ring_new"
  by (simp add: ring_of_spec_def ring_spec_new_def event_ring_new_def last_n_def)

definition pushes :: "ring_op list \<Rightarrow> ring_op list" where
  "pushes ops = filter (\<lambda>x. case x of Ring_push _ _ \<Rightarrow> True | _ \<Rightarrow> False) ops"

lemma spec_arrived_run: "spec_arrived (fold spec_apply ops s) = spec_arrived s + length (pushes ops)"
proof (induction ops arbitrary: s)
  case (Cons x ops)
  then show ?case by (cases x) (simp_all add: pushes_def)
qed (simp add: pushes_def)

definition numbered :: "ring_spec \<Rightarrow> bool" where
  "numbered s = (map fst (spec_live s) = [Suc (spec_arrived s - length (spec_live s))..<Suc (spec_arrived s)]
     \<and> length (spec_live s) \<le> spec_arrived s)"

lemma numbered_apply: "numbered s \<Longrightarrow> numbered (spec_apply x s)"
  by (cases x) (auto simp: numbered_def Suc_diff_le)

lemma numbered_run: "numbered s \<Longrightarrow> numbered (fold spec_apply ops s)"
  by (induction ops arbitrary: s) (simp_all add: numbered_apply)

lemma numbered_new: "numbered ring_spec_new"
  by (simp add: numbered_def ring_spec_new_def)

interpretation ring_log: stamped_log ring_apply ring_held "\<lambda>e. unat (er_seq e)" "\<lambda>r. unat (ring_seq r)"
  MAX_EVENTS "2 ^ 64"
proof
  fix r :: event_ring and x
  assume b: "Suc (unat (ring_seq r)) < 2 ^ 64" "length (ring_held r) \<le> MAX_EVENTS"
  have next_seq: "unat (ring_seq r + 1) = Suc (unat (ring_seq r))"
    using b(1) by (subst unat_word_ariths) simp
  show "length (ring_held (ring_apply x r)) \<le> MAX_EVENTS \<and>
    (\<exists>kept. subseq kept (ring_held r) \<and>
      (ring_held (ring_apply x r) = kept \<and> unat (ring_seq (ring_apply x r)) = unat (ring_seq r)
       \<or> (\<exists>e. ring_held (ring_apply x r) = kept @ [e] \<and> unat (er_seq e) = Suc (unat (ring_seq r))
            \<and> unat (ring_seq (ring_apply x r)) = Suc (unat (ring_seq r)))))"
  proof (cases x)
    case (Ring_push es esc)
    let ?e = "\<lparr>er_seq = ring_seq r + 1, er_set = es, er_escalation = esc\<rparr>"
    obtain kept where "subseq kept (ring_held r)" "ring_push MAX_EVENTS ?e (ring_held r) = kept @ [?e]"
      using ring_push_kept [of "ring_held r" MAX_EVENTS ?e] by auto
    moreover have "ring_seq (ring_apply x r) = ring_seq r + 1"
      by (simp add: Ring_push event_ring_push_seq)
    ultimately show ?thesis
      using length_ring_push [OF MAX_EVENTS_pos b(2), of ?e] next_seq
      by (simp add: Ring_push event_ring_push_held)
  next
    case Ring_clear
    then show ?thesis by (simp add: event_ring_clear_def)
  next
    case (Ring_note n ids)
    then show ?thesis using b by (auto simp: note_watchdog_def)
  qed
qed

lemma ring_run_of_spec: "ring_run ops = ring_of_spec (spec_run ops)"
  by (simp add: ring_run_def spec_run_def fold_refines ring_of_spec_new [symmetric])

lemma numbered_seqs:
  assumes "numbered s"
  shows "map er_seq (ring_held (ring_of_spec s))
     = map word_of_nat [Suc (spec_arrived s - length (ring_held (ring_of_spec s)))..<Suc (spec_arrived s)]"
proof -
  let ?k = "length (spec_live s) - MAX_EVENTS"
  have "map er_seq (ring_held (ring_of_spec s)) = map word_of_nat (drop ?k (map fst (spec_live s)))"
    by (simp add: ring_of_spec_def ring_entry_def last_n_def drop_map)
  also have "drop ?k (map fst (spec_live s))
      = [Suc (spec_arrived s - length (spec_live s)) + ?k..<Suc (spec_arrived s)]"
    using assms by (simp add: numbered_def del: upt_Suc)
  also have "Suc (spec_arrived s - length (spec_live s)) + ?k = Suc (spec_arrived s - length (ring_held (ring_of_spec s)))"
    using assms by (auto simp: numbered_def ring_of_spec_def min_def)
  finally show ?thesis .
qed

lemma numbered_spec_run: "numbered (spec_run ops)"
  by (simp add: spec_run_def numbered_run numbered_new)

lemma spec_note_after:
  assumes "\<forall>x\<in>set post. \<forall>n ids. x \<noteq> Ring_note n ids"
  shows "spec_note (fold spec_apply post s) = spec_note s"
  using assms
proof (induction post arbitrary: s)
  case (Cons x post)
  then show ?case by (cases x) auto
qed simp

lemma spec_live_newest:
  assumes "numbered s" "spec_live s \<noteq> []"
  shows "fst (last (spec_live s)) = spec_arrived s"
proof -
  let ?a = "spec_arrived s" and ?n = "length (spec_live s)"
  have m: "map fst (spec_live s) = [Suc (?a - ?n)..<Suc ?a]" "?n \<le> ?a" "0 < ?n"
    using assms by (simp_all add: numbered_def)
  have "fst (last (spec_live s)) = last (map fst (spec_live s))" using assms(2) by (simp add: last_map)
  also have "\<dots> = ?a"
  proof -
    have "Suc (?a - ?n) \<le> ?a" using m(2,3) by linarith
    then show ?thesis unfolding m(1) by simp
  qed
  finally show ?thesis .
qed

lemma last_last_n: "0 < n \<Longrightarrow> xs \<noteq> [] \<Longrightarrow> last (last_n n xs) = last xs"
  by (simp add: last_n_def)

lemma word_of_nat_le_later:
  assumes "a + b < 2 ^ 64"
  shows "(word_of_nat a + word_of_nat b :: u64) \<le> word_of_nat a \<longleftrightarrow> b = 0"
proof -
  have "(word_of_nat (a + b) :: u64) \<le> word_of_nat a \<longleftrightarrow> a + b \<le> a"
    using assms by (simp add: word_le_nat_alt unat_of_nat del: of_nat_add)
  then show ?thesis by simp
qed

section \<open>Properties\<close>

text \<open>
  C32: whatever a session does with its events, the ring is exactly what the specification promises: the
  last hundred events since the last drain, in order of arrival under the numbers they arrived with, the
  count of every event eviction took, and the last watchdog note with the number of events before it.
\<close>

theorem event_ring_refines: "fold ring_apply ops event_ring_new = ring_of_spec (fold spec_apply ops ring_spec_new)"
  by (simp add: fold_refines ring_of_spec_new [symmetric])

text \<open>
  a slice of the ring shows its newest entries, at least one if there is any, says exactly how many
  older ones it leaves out, and their numbers run without a gap up to the number of events ever reported.
\<close>

theorem event_tail_accounts:
  "let r = ring_run ops; t = event_ring_tail limit r in
     ring_held r = take (tail_unshown t) (ring_held r) @ tail_shown t
   \<and> length (tail_shown t) = min (max 1 limit) (length (ring_held r))
   \<and> tail_unshown t + length (tail_shown t) = length (ring_held r)
   \<and> map er_seq (tail_shown t)
       = map word_of_nat [Suc (length (pushes ops) - length (tail_shown t))..<Suc (length (pushes ops))]"
proof -
  let ?s = "spec_run ops"
  have arrived: "spec_arrived ?s = length (pushes ops)"
    by (simp add: spec_run_def spec_arrived_run ring_spec_new_def)
  let ?h = "ring_held (ring_of_spec ?s)"
  have len: "length ?h \<le> length (pushes ops)"
    using numbered_spec_run [of ops] arrived
    by (auto simp: ring_of_spec_def numbered_def simp del: upt_Suc)
  define k where "k = length ?h - min (max 1 limit) (length ?h)"
  have "map er_seq (drop k ?h) = map word_of_nat (drop k [Suc (length (pushes ops) - length ?h)..<Suc (length (pushes ops))])"
    using numbered_seqs [OF numbered_spec_run [of ops]] unfolding arrived by (metis drop_map)
  also have "drop k [Suc (length (pushes ops) - length ?h)..<Suc (length (pushes ops))]
      = [Suc (length (pushes ops) - (length ?h - k))..<Suc (length (pushes ops))]"
    using len by (auto simp: k_def min_def simp del: upt_Suc)
  finally show ?thesis
    by (simp add: ring_run_of_spec event_ring_tail_def Let_def k_def max.commute)
qed

text \<open>
  the watchdog's note is shown beside the newest event exactly when that event had already been
  reported when the note was written; one new event and it is history, whatever else happened since.
\<close>

theorem watchdog_note_scoped:
  assumes "\<forall>x\<in>set post. \<forall>n ids. x \<noteq> Ring_note n ids"
    and "length (pushes (pre @ post)) < 2 ^ 64"
    and "ring_held (ring_run (pre @ [Ring_note txt ids] @ post)) \<noteq> []"
  shows "watchdog_note_for (Some (er_seq (last (ring_held (ring_run (pre @ [Ring_note txt ids] @ post))))))
           (ring_run (pre @ [Ring_note txt ids] @ post))
         = (if pushes post = [] then Some txt else None)"
proof -
  let ?ops = "pre @ [Ring_note txt ids] @ post"
  let ?s = "spec_run ?ops" and ?p = "spec_run pre"
  have arrived: "spec_arrived ?s = length (pushes pre) + length (pushes post)"
    "spec_arrived ?p = length (pushes pre)"
    by (simp_all add: spec_run_def spec_arrived_run ring_spec_new_def pushes_def)
  have noted: "spec_note ?s = Some (txt, length (pushes pre), ids)"
    using spec_note_after [OF assms(1)] arrived(2) by (simp add: spec_run_def)
  have live: "spec_live ?s \<noteq> []"
    using assms(3) by (auto simp: ring_run_of_spec ring_of_spec_def last_n_def)
  then have "last_n MAX_EVENTS (spec_live ?s) \<noteq> []"
    using assms(3) by (simp add: ring_run_of_spec ring_of_spec_def)
  then have newest: "er_seq (last (ring_held (ring_run ?ops))) = word_of_nat (spec_arrived ?s)"
    using spec_live_newest [OF numbered_spec_run live]
    using last_last_n [OF MAX_EVENTS_pos live]
    by (simp add: ring_run_of_spec ring_of_spec_def last_map ring_entry_def)
  have small: "length (pushes pre) + length (pushes post) < 2 ^ 64"
    using assms(2) by (simp add: pushes_def)
  have "(word_of_nat (spec_arrived ?s) :: u64) \<le> word_of_nat (length (pushes pre)) \<longleftrightarrow> pushes post = []"
    unfolding arrived(1) using small by (simp add: word_of_nat_le_later)
  then show ?thesis
    unfolding newest unfolding watchdog_note_for_def ring_run_of_spec ring_of_spec_def noted by simp
qed

text \<open>
  The numbers of the events in the ring are pairwise different and increasing, and the ring never
  holds more than a hundred, as long as the counter has not gone round.
\<close>

theorem event_ring_ordered:
  assumes "length ops < 2 ^ 64"
  shows "length (ring_held (ring_run ops)) \<le> 100
    \<and> sorted_wrt (<) (map (\<lambda>e. unat (er_seq e)) (ring_held (ring_run ops)))
    \<and> unat (ring_seq (ring_run ops)) \<le> length ops"
proof -
  have "ring_log.in_order event_ring_new"
    by (simp add: ring_log.in_order_def event_ring_new_def)
  moreover have "unat (ring_seq event_ring_new) = 0" by (simp add: event_ring_new_def)
  ultimately have "ring_log.in_order (ring_run ops) \<and> unat (ring_seq (ring_run ops)) \<le> length ops"
    using ring_log.run_in_order [of event_ring_new ops] assms
    unfolding ring_log.run_def ring_run_def by linarith
  then show ?thesis by (simp add: ring_log.in_order_def) (simp add: MAX_EVENTS_def)
qed

section \<open>Instances\<close>

definition quiet_set :: event_set where
  "quiet_set = \<lparr>es_suspend_policy = 0, es_events = []\<rparr>"

theorem watchdog_note_scoped_witness:
  "watchdog_note_for (Some 1) (ring_run ([Ring_push quiet_set None] @ [Ring_note ''resumed'' []] @ [])) = Some ''resumed''
   \<and> watchdog_note_for (Some 2) (ring_run ([Ring_push quiet_set None] @ [Ring_note ''resumed'' []] @ [Ring_push quiet_set None])) = None"
  using watchdog_note_scoped [of "[]" "[Ring_push quiet_set None]" "''resumed''" "[]"]
    watchdog_note_scoped [of "[Ring_push quiet_set None]" "[Ring_push quiet_set None]" "''resumed''" "[]"]
  by (simp add: ring_run_def pushes_def event_ring_push_def event_ring_new_def note_watchdog_def Let_def MAX_EVENTS_def)

theorem event_ring_ordered_witness:
  "length (ring_held (ring_run [Ring_push quiet_set None, Ring_push quiet_set None, Ring_clear])) \<le> 100"
  using event_ring_ordered [of "[Ring_push quiet_set None, Ring_push quiet_set None, Ring_clear]"] by simp

end
