(* ===== verification/TraceBuffer.thy ===== *)
theory TraceBuffer
  imports Containers
begin

text \<open>
  \<open>mcp-server/src/session.rs\<close>: the snapshots of a traced session (\<open>TraceBuffer\<close>) - the ring of
  records and their numbers, the folding of the rethrows of one exception instance, the notes about
  stop points that disarmed themselves - and the bounded queue of disarmed requests.
\<close>

record traced_value =
  tv_name :: string
  tv_rendered :: string
  tv_object_id :: "u64 option"

record rethrow_fold =
  rf_collapsed :: u32
  rf_first_seq :: u64

record trace_record =
  tr_seq :: u64
  tr_bp_id :: string
  tr_thread :: u64
  tr_class :: string
  tr_method :: string
  tr_line :: "u32 option"
  tr_args :: "traced_value list"
  tr_captured :: "traced_value list"
  tr_callers :: "string list"
  tr_expr :: "(string \<times> string) list"
  tr_detail :: "(string \<times> string) list"
  tr_rethrow :: "rethrow_fold option"

datatype throw_kind = First_throw | Rethrow rethrow_fold "u64 option"

record rethrow_chain =
  rc_first_seq :: u64
  rc_rolling_seq :: "u64 option"
  rc_collapsed :: u32

type_synonym chain_key = "u32 \<times> u64 \<times> u64"

record trace_buffer =
  tb_held :: "trace_record list"
  tb_filed :: u64
  tb_chains :: "(chain_key, rethrow_chain) hmap"
  tb_disarms :: "(string, u32) btree"
  tb_disarms_dropped :: u64

definition MAX_TRACES :: nat where
  "MAX_TRACES = 500"

definition MAX_TRACE_DISARMS :: nat where
  "MAX_TRACE_DISARMS = 32"

definition MAX_RETHROW_CHAINS :: nat where
  "MAX_RETHROW_CHAINS = 64"

definition MAX_DISARMED_TRACED :: nat where
  "MAX_DISARMED_TRACED = 32"

definition trace_buffer_new :: trace_buffer where
  "trace_buffer_new =
     \<lparr>tb_held = [], tb_filed = 0, tb_chains = [], tb_disarms = [], tb_disarms_dropped = 0\<rparr>"

text \<open>\<open>min_by_key\<close> over an iteration: the first of the entries with the least key.\<close>

fun min_by_key :: "('a \<Rightarrow> 'b::linorder) \<Rightarrow> 'a list \<Rightarrow> 'a option" where
  "min_by_key f [] = None"
| "min_by_key f (x # xs) =
     (case min_by_key f xs of None \<Rightarrow> Some x | Some y \<Rightarrow> if f y < f x then Some y else Some x)"

definition classify_throw ::
  "u32 \<Rightarrow> u64 \<Rightarrow> u64 option \<Rightarrow> u64 \<Rightarrow> trace_buffer \<Rightarrow> throw_kind \<times> trace_buffer" where
  "classify_throw req_id thread exception next_seq tb =
     (case exception of
        None \<Rightarrow> (First_throw, tb)
      | Some exc \<Rightarrow>
          (let key = (req_id, thread, exc) in
           case hm_get key (tb_chains tb) of
             Some chain \<Rightarrow>
               (let collapsed = saturating_inc (rc_collapsed chain) in
                (Rethrow \<lparr>rf_collapsed = collapsed - 1, rf_first_seq = rc_first_seq chain\<rparr> (rc_rolling_seq chain),
                 tb\<lparr>tb_chains := hm_put key (chain\<lparr>rc_collapsed := collapsed, rc_rolling_seq := Some next_seq\<rparr>)
                      (tb_chains tb)\<rparr>))
           | None \<Rightarrow>
               (let chains = (if MAX_RETHROW_CHAINS \<le> length (tb_chains tb)
                              then case min_by_key (rc_first_seq \<circ> snd) (tb_chains tb) of
                                     Some oldest \<Rightarrow> hm_del (fst oldest) (tb_chains tb)
                                   | None \<Rightarrow> tb_chains tb
                              else tb_chains tb)
                in (First_throw,
                    tb\<lparr>tb_chains := hm_put key \<lparr>rc_first_seq = next_seq, rc_rolling_seq = None, rc_collapsed = 0\<rparr>
                         chains\<rparr>))))"

definition trace_push ::
  "trace_record \<Rightarrow> u32 \<Rightarrow> u64 \<Rightarrow> u64 option \<Rightarrow> trace_buffer \<Rightarrow> throw_kind \<times> trace_buffer" where
  "trace_push rec0 req_id thread exception tb0 =
     (let tb1 = tb0\<lparr>tb_filed := tb_filed tb0 + 1\<rparr>;
          rec1 = rec0\<lparr>tr_seq := tb_filed tb1\<rparr>;
          (kind, tb2) = classify_throw req_id thread exception (tr_seq rec1) tb1;
          (rec2, tb3) = (case kind of
              First_throw \<Rightarrow> (rec1, tb2)
            | Rethrow fld supersedes \<Rightarrow>
                (rec1\<lparr>tr_rethrow := Some fld\<rparr>,
                 case supersedes of
                   None \<Rightarrow> tb2
                 | Some old \<Rightarrow> tb2\<lparr>tb_held := filter (\<lambda>r. tr_seq r \<noteq> old) (tb_held tb2)\<rparr>));
          tb4 = (if MAX_TRACES \<le> length (tb_held tb3) then tb3\<lparr>tb_held := drop 1 (tb_held tb3)\<rparr> else tb3)
      in (kind, tb4\<lparr>tb_held := tb_held tb4 @ [rec2]\<rparr>))"

definition note_disarm :: "string \<Rightarrow> trace_buffer \<Rightarrow> trace_buffer" where
  "note_disarm txt tb =
     (case bt_get txt (tb_disarms tb) of
        Some n \<Rightarrow> tb\<lparr>tb_disarms := bt_put txt (n + 1) (tb_disarms tb)\<rparr>
      | None \<Rightarrow>
          if length (tb_disarms tb) < MAX_TRACE_DISARMS
          then tb\<lparr>tb_disarms := bt_put txt 1 (tb_disarms tb)\<rparr>
          else tb\<lparr>tb_disarms_dropped := tb_disarms_dropped tb + 1\<rparr>)"

definition trace_clear :: "trace_buffer \<Rightarrow> trace_buffer" where
  "trace_clear tb = tb\<lparr>tb_held := [], tb_disarms := [], tb_disarms_dropped := 0\<rparr>"

definition remember_bounded :: "u32 \<Rightarrow> nat \<Rightarrow> u32 list \<Rightarrow> u32 list" where
  "remember_bounded req_id cap queue =
     (if req_id \<in> set queue then queue
      else if cap = 0 then queue
      else (if cap \<le> length queue then drop 1 queue else queue) @ [req_id])"

datatype trace_op =
    Trace_push trace_record u32 u64 "u64 option"
  | Trace_note string
  | Trace_clear

fun trace_apply :: "trace_op \<Rightarrow> trace_buffer \<Rightarrow> trace_buffer" where
  "trace_apply (Trace_push rec req thread exc) tb = snd (trace_push rec req thread exc tb)"
| "trace_apply (Trace_note txt) tb = note_disarm txt tb"
| "trace_apply Trace_clear tb = trace_clear tb"

section \<open>The shape of a push\<close>

definition superseded_by :: "throw_kind \<Rightarrow> u64 option" where
  "superseded_by k = (case k of First_throw \<Rightarrow> None | Rethrow fld s \<Rightarrow> s)"

definition fold_of :: "throw_kind \<Rightarrow> rethrow_fold option" where
  "fold_of k = (case k of First_throw \<Rightarrow> None | Rethrow fld s \<Rightarrow> Some fld)"

definition without :: "u64 option \<Rightarrow> trace_record list \<Rightarrow> trace_record list" where
  "without old rs = (case old of None \<Rightarrow> rs | Some s \<Rightarrow> filter (\<lambda>r. tr_seq r \<noteq> s) rs)"

abbreviation classified :: "u32 \<Rightarrow> u64 \<Rightarrow> u64 option \<Rightarrow> trace_buffer \<Rightarrow> throw_kind \<times> trace_buffer" where
  "classified req thread exc tb \<equiv> classify_throw req thread exc (tb_filed tb + 1) (tb\<lparr>tb_filed := tb_filed tb + 1\<rparr>)"

lemma classify_keeps [simp]:
  "tb_held (snd (classify_throw req thread exc s tb)) = tb_held tb"
  "tb_filed (snd (classify_throw req thread exc s tb)) = tb_filed tb"
  "tb_disarms (snd (classify_throw req thread exc s tb)) = tb_disarms tb"
  "tb_disarms_dropped (snd (classify_throw req thread exc s tb)) = tb_disarms_dropped tb"
  by (simp_all add: classify_throw_def Let_def split: option.split)

lemma trace_push_shape:
  assumes "classified req thread exc tb = (kind, tb2)"
  shows "trace_push rec req thread exc tb =
    (kind, tb2\<lparr>tb_held := ring_push MAX_TRACES
       (case fold_of kind of None \<Rightarrow> rec\<lparr>tr_seq := tb_filed tb + 1\<rparr>
        | Some fld \<Rightarrow> rec\<lparr>tr_seq := tb_filed tb + 1, tr_rethrow := Some fld\<rparr>)
       (without (superseded_by kind) (tb_held tb))\<rparr>)"
proof -
  have held: "tb_held tb2 = tb_held tb"
    using classify_keeps(1) [of req thread exc "tb_filed tb + 1" "tb\<lparr>tb_filed := tb_filed tb + 1\<rparr>"] assms by simp
  show ?thesis
    by (cases kind)
      (auto simp: trace_push_def Let_def assms held ring_push_def without_def superseded_by_def fold_of_def
        split: option.split)
qed

lemma push_held:
  "\<exists>kept r. subseq kept (tb_held tb) \<and> tb_held (snd (trace_push rec req thread exc tb)) = kept @ [r]
     \<and> tr_seq r = tb_filed tb + 1 \<and> (length (tb_held tb) \<le> MAX_TRACES \<longrightarrow> Suc (length kept) \<le> MAX_TRACES)"
proof -
  obtain kind tb2 where c: "classified req thread exc tb = (kind, tb2)" by fastforce
  let ?w = "without (superseded_by kind) (tb_held tb)"
  have w: "subseq ?w (tb_held tb)" "length ?w \<le> length (tb_held tb)"
    by (auto simp: without_def split: option.split)
  have "subseq (drop 1 ?w) (tb_held tb)" using subseq_drop w(1) subseq_order.trans by blast
  then show ?thesis
    using w
    by (auto simp: trace_push_shape [OF c] ring_push_def MAX_TRACES_def intro!: exI split: option.split)
qed

lemma push_filed: "tb_filed (snd (trace_push rec req thread exc tb)) = tb_filed tb + 1"
proof -
  obtain kind tb2 where c: "classified req thread exc tb = (kind, tb2)" by fastforce
  have "tb_filed tb2 = tb_filed tb + 1"
    using classify_keeps(2) [of req thread exc "tb_filed tb + 1" "tb\<lparr>tb_filed := tb_filed tb + 1\<rparr>"] c by simp
  then show ?thesis by (simp add: trace_push_shape [OF c])
qed

lemma note_disarm_held [simp]:
  "tb_held (note_disarm txt tb) = tb_held tb" "tb_filed (note_disarm txt tb) = tb_filed tb"
  by (simp_all add: note_disarm_def split: option.split)

interpretation trace_log: stamped_log trace_apply tb_held "\<lambda>r. unat (tr_seq r)" "\<lambda>tb. unat (tb_filed tb)"
  MAX_TRACES "2 ^ 64"
proof
  fix tb :: trace_buffer and x
  assume b: "Suc (unat (tb_filed tb)) < 2 ^ 64" "length (tb_held tb) \<le> MAX_TRACES"
  have next_seq: "unat (tb_filed tb + 1) = Suc (unat (tb_filed tb))"
    using b(1) by (subst unat_word_ariths) simp
  show "length (tb_held (trace_apply x tb)) \<le> MAX_TRACES \<and>
    (\<exists>kept. subseq kept (tb_held tb) \<and>
      (tb_held (trace_apply x tb) = kept \<and> unat (tb_filed (trace_apply x tb)) = unat (tb_filed tb)
       \<or> (\<exists>r. tb_held (trace_apply x tb) = kept @ [r] \<and> unat (tr_seq r) = Suc (unat (tb_filed tb))
            \<and> unat (tb_filed (trace_apply x tb)) = Suc (unat (tb_filed tb)))))"
  proof (cases x)
    case (Trace_push rec req thread exc)
    obtain kept r where k: "subseq kept (tb_held tb)" "tb_held (snd (trace_push rec req thread exc tb)) = kept @ [r]"
      "tr_seq r = tb_filed tb + 1" "Suc (length kept) \<le> MAX_TRACES"
      using push_held [of tb rec req thread exc] b(2) by blast
    show ?thesis unfolding Trace_push trace_apply.simps push_filed k(2) next_seq using k(1,3,4) next_seq by auto
  next
    case (Trace_note n)
    then show ?thesis using b by auto
  next
    case Trace_clear
    then show ?thesis by (simp add: trace_clear_def)
  qed
qed

section \<open>Folding a rethrow chain\<close>

text \<open>
  The positions at which a key was thrown, and which of the snapshots of a sequence of hits survive the
  folding: those that are no throw, and of each instance the first and the latest sighting.
\<close>

definition occurrences :: "'k \<Rightarrow> 'k option list \<Rightarrow> nat list" where
  "occurrences k ks = filter (\<lambda>i. ks ! i = Some k) [0..<length ks]"

definition survives :: "'k option list \<Rightarrow> nat \<Rightarrow> bool" where
  "survives ks i = (case ks ! i of None \<Rightarrow> True
     | Some k \<Rightarrow> i = hd (occurrences k ks) \<or> i = last (occurrences k ks))"

definition surviving :: "'k option list \<Rightarrow> nat list" where
  "surviving ks = filter (survives ks) [0..<length ks]"

lemma occurrences_snoc:
  "occurrences k (ks @ [x]) = occurrences k ks @ (if x = Some k then [length ks] else [])"
  by (auto simp: occurrences_def nth_append intro: filter_cong)

lemma set_occurrences: "set (occurrences k ks) = {i. i < length ks \<and> ks ! i = Some k}"
  by (auto simp: occurrences_def)

lemma occurrences_last_less: "occurrences k ks \<noteq> [] \<Longrightarrow> last (occurrences k ks) < length ks"
  using set_occurrences [of k ks] last_in_set by blast

lemma sorted_occurrences: "sorted_wrt (<) (occurrences k ks)"
  by (simp add: occurrences_def sorted_wrt_filter)

lemma hd_less_last:
  assumes "sorted_wrt (<) (xs :: nat list)" "1 < length xs"
  shows "hd xs \<noteq> last xs"
  using assms by (cases xs) (auto simp: last_in_set)

definition folded_away :: "'k option list \<Rightarrow> 'k option \<Rightarrow> nat option" where
  "folded_away ks x = (case x of None \<Rightarrow> None
     | Some k \<Rightarrow> if 1 < length (occurrences k ks) then Some (last (occurrences k ks)) else None)"

lemma folded_away_occurs:
  assumes "folded_away ks x = Some i"
  shows "\<exists>k. x = Some k \<and> i \<in> set (occurrences k ks)"
proof -
  obtain k where k: "x = Some k" "1 < length (occurrences k ks)" "i = last (occurrences k ks)"
    using assms by (cases x) (auto simp: folded_away_def split: if_splits)
  then have "occurrences k ks \<noteq> []" by auto
  with k show ?thesis by simp
qed

lemma survives_snoc:
  assumes "i < length ks"
  shows "survives (ks @ [x]) i \<longleftrightarrow> survives ks i \<and> folded_away ks x \<noteq> Some i"
proof (cases "ks ! i")
  case None
  then have "folded_away ks x \<noteq> Some i"
    using folded_away_occurs [of ks x i] by (auto simp: set_occurrences)
  then show ?thesis using None assms by (simp add: survives_def nth_append)
next
  case (Some k)
  then have i: "i \<in> set (occurrences k ks)" using assms by (simp add: set_occurrences)
  then have ne: "occurrences k ks \<noteq> []" by auto
  show ?thesis
  proof (cases "x = Some k")
    case True
    have "hd (occurrences k ks) \<noteq> last (occurrences k ks) \<longleftrightarrow> 1 < length (occurrences k ks)"
      using hd_less_last [OF sorted_occurrences [of k ks]] ne by (cases "occurrences k ks") auto
    then show ?thesis
      using True Some assms ne i
      by (auto simp: survives_def nth_append occurrences_snoc folded_away_def hd_append)
  next
    case False
    have "folded_away ks x \<noteq> Some i"
      using folded_away_occurs [of ks x i] Some False by (auto simp: set_occurrences)
    then show ?thesis using False Some assms by (simp add: survives_def nth_append occurrences_snoc)
  qed
qed

lemma survives_new: "survives (ks @ [x]) (length ks)"
  by (auto simp: survives_def occurrences_snoc split: option.split)

lemma surviving_snoc:
  "surviving (ks @ [x]) = filter (\<lambda>i. folded_away ks x \<noteq> Some i) (surviving ks) @ [length ks]"
  by (auto simp: surviving_def survives_new survives_snoc conj_commute intro!: filter_cong)

text \<open>The record each hit is filed as, and the chain of each instance, from the hits alone.\<close>

type_synonym hit = "trace_record \<times> u32 \<times> u64 \<times> u64 option"

definition hit_key :: "hit \<Rightarrow> chain_key option" where
  "hit_key h = (case h of (rec, req, thread, exc) \<Rightarrow> map_option (\<lambda>e. (req, thread, e)) exc)"

definition seq_at :: "nat \<Rightarrow> u64" where
  "seq_at i = word_of_nat (Suc i)"

definition filed_record :: "hit list \<Rightarrow> nat \<Rightarrow> trace_record" where
  "filed_record hits i =
     (let ks = map hit_key hits; r = (fst (hits ! i))\<lparr>tr_seq := seq_at i\<rparr> in
      case ks ! i of None \<Rightarrow> r
      | Some k \<Rightarrow> (case occurrences k (take i ks) of [] \<Rightarrow> r
         | first # later \<Rightarrow> r\<lparr>tr_rethrow := Some \<lparr>rf_collapsed = word_of_nat (length later), rf_first_seq = seq_at first\<rparr>\<rparr>))"

definition chain_at :: "chain_key option list \<Rightarrow> chain_key \<Rightarrow> rethrow_chain option" where
  "chain_at ks k = (case occurrences k ks of [] \<Rightarrow> None
     | first # later \<Rightarrow> Some \<lparr>rc_first_seq = seq_at first,
         rc_rolling_seq = (if later = [] then None else Some (seq_at (last later))),
         rc_collapsed = word_of_nat (length later)\<rparr>)"

definition file_hit :: "hit \<Rightarrow> trace_buffer \<Rightarrow> trace_buffer" where
  "file_hit h tb = (case h of (rec, req, thread, exc) \<Rightarrow> snd (trace_push rec req thread exc tb))"

definition file_hits :: "hit list \<Rightarrow> trace_buffer" where
  "file_hits hits = fold file_hit hits trace_buffer_new"

definition instances_thrown :: "hit list \<Rightarrow> chain_key set" where
  "instances_thrown hits = {k. Some k \<in> set (map hit_key hits)}"

definition matches :: "hit list \<Rightarrow> trace_buffer \<Rightarrow> bool" where
  "matches hits tb \<longleftrightarrow>
     tb_held tb = map (filed_record hits) (surviving (map hit_key hits))
   \<and> tb_filed tb = word_of_nat (length hits)
   \<and> hm_ok (tb_chains tb)
   \<and> (\<forall>k. hm_get k (tb_chains tb) = chain_at (map hit_key hits) k)"

lemma occurrences_Nil_iff: "occurrences k ks = [] \<longleftrightarrow> Some k \<notin> set ks"
  by (auto simp: occurrences_def filter_empty_conv in_set_conv_nth)

lemma occurrences_some_iff: "Some k \<in> set ks \<longleftrightarrow> occurrences k ks \<noteq> []"
  by (simp add: occurrences_Nil_iff)

lemma unat_seq_at: "i < 500 \<Longrightarrow> unat (seq_at i) = Suc i"
  unfolding seq_at_def by (subst unat_of_nat) simp

lemma seq_at_inject: "i < 500 \<Longrightarrow> j < 500 \<Longrightarrow> seq_at i = seq_at j \<longleftrightarrow> i = j"
  by (metis unat_seq_at nat.inject)

lemma filed_record_seq [simp]: "tr_seq (filed_record hits i) = seq_at i"
  by (auto simp: filed_record_def Let_def split: option.split list.split)

lemma filed_record_snoc: "i < length hits \<Longrightarrow> filed_record (hits @ [h]) i = filed_record hits i"
  by (simp add: filed_record_def Let_def nth_append split: option.split)

lemma filed_record_new:
  "filed_record (hits @ [h]) (length hits) =
     (case (case hit_key h of None \<Rightarrow> None | Some k \<Rightarrow> chain_at (map hit_key hits) k) of
        None \<Rightarrow> (fst h)\<lparr>tr_seq := seq_at (length hits)\<rparr>
      | Some c \<Rightarrow> (fst h)\<lparr>tr_seq := seq_at (length hits),
          tr_rethrow := Some \<lparr>rf_collapsed = rc_collapsed c, rf_first_seq = rc_first_seq c\<rparr>\<rparr>)"
  by (simp add: filed_record_def chain_at_def nth_append split: option.split list.split)

lemma chains_count:
  assumes "hm_ok m" "\<forall>k. hm_get k m = chain_at (map hit_key hits) k"
  shows "length m = card (instances_thrown hits)"
proof -
  have "fst ` set m = instances_thrown hits"
  proof (rule set_eqI)
    fix k
    have "k \<in> fst ` set m \<longleftrightarrow> hm_get k m \<noteq> None" by (simp add: hm_get_def map_of_eq_None_iff)
    also have "\<dots> \<longleftrightarrow> k \<in> instances_thrown hits"
      unfolding spec [OF assms(2), of k] instances_thrown_def mem_Collect_eq
        occurrences_some_iff
      by (simp add: chain_at_def split: list.split)
    finally show "k \<in> fst ` set m \<longleftrightarrow> k \<in> instances_thrown hits" .
  qed
  then show ?thesis using hm_length_card [OF assms(1)] by simp
qed

lemma surviving_less: "i \<in> set (surviving ks) \<Longrightarrow> i < length ks"
  by (simp add: surviving_def)

lemma length_surviving: "length (surviving ks) \<le> length ks"
  by (metis surviving_def length_filter_le length_upt minus_nat.diff_0)

lemma length_occurrences: "length (occurrences k ks) \<le> length ks"
  by (metis occurrences_def length_filter_le length_upt minus_nat.diff_0)

lemma saturating_inc_of_nat: "n < 500 \<Longrightarrow> saturating_inc (word_of_nat n :: u32) = word_of_nat (Suc n)"
proof -
  assume n: "n < 500"
  have u: "unat (word_of_nat n :: u32) = n" by (subst unat_of_nat) (use n in simp)
  have "unat (saturating_inc (word_of_nat n :: u32)) = Suc n"
    using unat_saturating_inc [of "word_of_nat n :: u32"] u n by simp
  moreover have "unat (word_of_nat (Suc n) :: u32) = Suc n" by (subst unat_of_nat) (use n in simp)
  ultimately show ?thesis by (metis word_unat_eq_iff)
qed

lemma chain_at_snoc:
  "chain_at (ks @ [x]) k =
     (if x = Some k then Some (case chain_at ks k of
          None \<Rightarrow> \<lparr>rc_first_seq = seq_at (length ks), rc_rolling_seq = None, rc_collapsed = 0\<rparr>
        | Some c \<Rightarrow> c\<lparr>rc_rolling_seq := Some (seq_at (length ks)), rc_collapsed := rc_collapsed c + 1\<rparr>)
      else chain_at ks k)"
  by (simp add: chain_at_def occurrences_snoc add.commute split: list.split)

lemma folded_away_chain:
  "map_option seq_at (folded_away ks x)
     = (case x of None \<Rightarrow> None | Some k \<Rightarrow> (case chain_at ks k of None \<Rightarrow> None | Some c \<Rightarrow> rc_rolling_seq c))"
  by (simp add: folded_away_def chain_at_def split: option.split list.split)

lemma chain_at_collapsed:
  assumes "chain_at ks k = Some c" "length ks < 500"
  shows "saturating_inc (rc_collapsed c) = rc_collapsed c + 1"
proof -
  obtain first later where o: "occurrences k ks = first # later" "rc_collapsed c = word_of_nat (length later)"
    using assms(1) by (auto simp: chain_at_def split: list.splits)
  then have "length later < 500" using length_occurrences [of k ks] assms(2) by simp
  then show ?thesis by (simp add: o(2) saturating_inc_of_nat add.commute)
qed

lemma instances_thrown_snoc: "instances_thrown (hits @ [h]) = instances_thrown hits \<union> set_option (hit_key h)"
  by (auto simp: instances_thrown_def)

lemma finite_instances [simp]: "finite (instances_thrown hits)"
proof -
  have "instances_thrown hits \<subseteq> the ` set (map hit_key hits)"
    unfolding instances_thrown_def by (metis (mono_tags, lifting) CollectD image_iff option.sel subsetI)
  then show ?thesis by (rule finite_subset) simp
qed

lemma classified_matches:
  assumes m: "matches hits tb" and room: "card (instances_thrown (hits @ [h])) \<le> MAX_RETHROW_CHAINS"
    and len: "length hits < 500" and h: "h = (rec, req, thread, exc)"
    and c: "classified req thread exc tb = (kind, tb2)"
  shows "superseded_by kind = map_option seq_at (folded_away (map hit_key hits) (hit_key h))"
    and "fold_of kind = (case hit_key h of None \<Rightarrow> None | Some k \<Rightarrow>
      map_option (\<lambda>c. \<lparr>rf_collapsed = rc_collapsed c, rf_first_seq = rc_first_seq c\<rparr>) (chain_at (map hit_key hits) k))"
    and "hm_ok (tb_chains tb2)"
    and "hm_get k (tb_chains tb2) = chain_at (map hit_key (hits @ [h])) k"
proof -
  let ?ks = "map hit_key hits"
  have get: "hm_get k (tb_chains tb) = chain_at ?ks k" and ok: "hm_ok (tb_chains tb)" for k
    using m unfolding matches_def by blast+
  have filed: "tb_filed tb + 1 = seq_at (length hits)"
    using m by (simp add: matches_def seq_at_def add.commute)
  have "superseded_by kind = map_option seq_at (folded_away ?ks (hit_key h))
     \<and> fold_of kind = (case hit_key h of None \<Rightarrow> None | Some k \<Rightarrow>
         map_option (\<lambda>c. \<lparr>rf_collapsed = rc_collapsed c, rf_first_seq = rc_first_seq c\<rparr>) (chain_at ?ks k))
     \<and> hm_ok (tb_chains tb2) \<and> hm_get k (tb_chains tb2) = chain_at (map hit_key (hits @ [h])) k"
  proof (cases exc)
    case None
    then have "hit_key h = None" by (simp add: h hit_key_def)
    then show ?thesis
      using c None ok get [of k]
      by (auto simp: classify_throw_def superseded_by_def fold_of_def folded_away_def chain_at_snoc)
  next
    case (Some e)
    let ?k = "(req, thread, e)"
    have key: "hit_key h = Some ?k" by (simp add: h hit_key_def Some)
    show ?thesis
    proof (cases "chain_at ?ks ?k")
      case None
      then have "?k \<notin> instances_thrown hits"
        using occurrences_some_iff [of ?k ?ks] by (auto simp: chain_at_def instances_thrown_def split: list.splits)
      then have "card (instances_thrown hits) < MAX_RETHROW_CHAINS"
        using room by (simp add: instances_thrown_snoc key)
      then have "length (tb_chains tb) < MAX_RETHROW_CHAINS"
        using chains_count [OF ok allI [OF get]] by simp
      then have "kind = First_throw" "tb_chains tb2
          = hm_put ?k \<lparr>rc_first_seq = seq_at (length hits), rc_rolling_seq = None, rc_collapsed = 0\<rparr> (tb_chains tb)"
        using c None Some get filed by (auto simp: classify_throw_def Let_def)
      then show ?thesis
        using None ok get [of k]
        by (auto simp: key superseded_by_def fold_of_def folded_away_chain chain_at_snoc)
    next
      case chain: (Some ch)
      have inc: "saturating_inc (rc_collapsed ch) = rc_collapsed ch + 1"
        by (rule chain_at_collapsed [OF chain]) (simp add: len)
      have "kind = Rethrow \<lparr>rf_collapsed = rc_collapsed ch, rf_first_seq = rc_first_seq ch\<rparr> (rc_rolling_seq ch)"
        "tb_chains tb2 = hm_put ?k (ch\<lparr>rc_collapsed := rc_collapsed ch + 1,
           rc_rolling_seq := Some (seq_at (length hits))\<rparr>) (tb_chains tb)"
        using c chain Some get filed inc by (auto simp: classify_throw_def Let_def)
      then show ?thesis
        using chain ok get [of k]
        by (auto simp: key superseded_by_def fold_of_def folded_away_chain chain_at_snoc)
    qed
  qed
  then show "superseded_by kind = map_option seq_at (folded_away (map hit_key hits) (hit_key h))"
    "fold_of kind = (case hit_key h of None \<Rightarrow> None | Some k \<Rightarrow>
      map_option (\<lambda>c. \<lparr>rf_collapsed = rc_collapsed c, rf_first_seq = rc_first_seq c\<rparr>) (chain_at (map hit_key hits) k))"
    "hm_ok (tb_chains tb2)" "hm_get k (tb_chains tb2) = chain_at (map hit_key (hits @ [h])) k"
    by blast+
qed

lemma folded_away_less: "folded_away ks x = Some i \<Longrightarrow> i < length ks"
  using folded_away_occurs [of ks x i] by (auto simp: set_occurrences)

lemma without_filed:
  assumes len: "length ks \<le> 500" and f: "\<And>i. tr_seq (f i) = seq_at i"
  shows "without (map_option seq_at (folded_away ks x)) (map f (surviving ks))
     = map f (filter (\<lambda>i. folded_away ks x \<noteq> Some i) (surviving ks))"
proof (cases "folded_away ks x")
  case (Some j)
  then have j: "j < 500" using folded_away_less len by fastforce
  have "filter (\<lambda>i. seq_at i \<noteq> seq_at j) (surviving ks) = filter (\<lambda>i. j \<noteq> i) (surviving ks)"
  proof (rule filter_cong [OF refl])
    fix i assume "i \<in> set (surviving ks)"
    then have "i < 500" using surviving_less len by fastforce
    then show "seq_at i \<noteq> seq_at j \<longleftrightarrow> j \<noteq> i" using seq_at_inject [OF _ j] by auto
  qed
  then show ?thesis by (simp add: Some without_def filter_map comp_def f)
qed (simp add: without_def)

lemma matches_step:
  assumes m: "matches hits tb" and room: "card (instances_thrown (hits @ [h])) \<le> MAX_RETHROW_CHAINS"
    and len: "length hits < 500"
  shows "matches (hits @ [h]) (file_hit h tb)"
proof -
  obtain rec req thread exc where h: "h = (rec, req, thread, exc)" by (cases h) auto
  obtain kind tb2 where c: "classified req thread exc tb = (kind, tb2)" by fastforce
  note facts = classified_matches [OF m room len h c]
  let ?ks = "map hit_key hits"
  have held: "tb_held tb = map (filed_record hits) (surviving ?ks)" and filed: "tb_filed tb + 1 = seq_at (length hits)"
    and filed_n: "tb_filed tb = word_of_nat (length hits)"
    using m by (simp_all add: matches_def seq_at_def add.commute)
  let ?kept = "filter (\<lambda>i. folded_away ?ks (hit_key h) \<noteq> Some i) (surviving ?ks)"
  have w: "without (superseded_by kind) (tb_held tb) = map (filed_record hits) ?kept"
    unfolding facts(1) held by (rule without_filed) (use len in simp_all)
  have kept: "map (filed_record hits) ?kept = map (filed_record (hits @ [h])) ?kept"
    by (auto simp: filed_record_snoc dest: surviving_less)
  have "length ?kept \<le> length (surviving ?ks)" by (rule length_filter_le)
  then have small: "length ?kept < MAX_TRACES"
    using length_surviving [of ?ks] len unfolding MAX_TRACES_def length_map by linarith
  have new: "(case fold_of kind of None \<Rightarrow> rec\<lparr>tr_seq := tb_filed tb + 1\<rparr>
        | Some fld \<Rightarrow> rec\<lparr>tr_seq := tb_filed tb + 1, tr_rethrow := Some fld\<rparr>)
      = filed_record (hits @ [h]) (length hits)"
    unfolding facts(2) filed filed_record_new by (simp add: h split: option.split)
  have "tb_held (file_hit h tb) = map (filed_record (hits @ [h])) (surviving (map hit_key (hits @ [h])))"
    using small
    by (simp add: h file_hit_def trace_push_shape [OF c] new w ring_push_def)
      (simp add: kept surviving_snoc flip: h)
  moreover have "tb_filed (file_hit h tb) = word_of_nat (length (hits @ [h]))"
    by (simp add: h file_hit_def push_filed filed_n add.commute)
  moreover have "tb_chains (file_hit h tb) = tb_chains tb2"
    by (simp add: h file_hit_def trace_push_shape [OF c])
  ultimately show ?thesis using facts(3,4) by (simp add: matches_def)
qed

lemma matches_new: "matches [] trace_buffer_new"
  by (simp add: matches_def trace_buffer_new_def surviving_def chain_at_def occurrences_def)

lemma matches_file_hits:
  assumes "card (instances_thrown hits) \<le> MAX_RETHROW_CHAINS" "length hits \<le> 500"
  shows "matches hits (file_hits hits)"
  using assms
proof (induction hits rule: rev_induct)
  case (snoc h hits)
  have "instances_thrown hits \<subseteq> instances_thrown (hits @ [h])" by (auto simp: instances_thrown_snoc)
  then have "card (instances_thrown hits) \<le> card (instances_thrown (hits @ [h]))" by (simp add: card_mono)
  then have "matches hits (file_hits hits)" using snoc by simp
  from matches_step [OF this] snoc.prems show ?case by (simp add: file_hits_def)
qed (simp add: file_hits_def matches_new)

section \<open>Disarm notes\<close>

definition first_notes :: "string list \<Rightarrow> string list" where
  "first_notes ns = take MAX_TRACE_DISARMS (rev (remdups (rev ns)))"

definition notes_match :: "string list \<Rightarrow> trace_buffer \<Rightarrow> bool" where
  "notes_match ns tb \<longleftrightarrow> bt_ok (tb_disarms tb)
     \<and> (\<forall>n. bt_get n (tb_disarms tb) = (if n \<in> set (first_notes ns) then Some (word_of_nat (count_list ns n)) else None))
     \<and> tb_disarms_dropped tb = word_of_nat (length (filter (\<lambda>n. n \<notin> set (first_notes ns)) ns))"

lemma first_notes_snoc:
  "first_notes (ns @ [n]) = (if n \<in> set ns then first_notes ns
     else first_notes ns @ (if length (first_notes ns) < MAX_TRACE_DISARMS then [n] else []))"
  by (auto simp: first_notes_def min_def)

lemma set_first_notes: "set (first_notes ns) \<subseteq> set ns"
  unfolding first_notes_def using set_take_subset by fastforce

lemma distinct_first_notes: "distinct (first_notes ns)"
  by (simp add: first_notes_def)

lemma length_disarms: "notes_match ns tb \<Longrightarrow> length (tb_disarms tb) = length (first_notes ns)"
proof -
  assume m: "notes_match ns tb"
  have "fst ` set (tb_disarms tb) = set (first_notes ns)"
  proof (rule set_eqI)
    fix n
    have "n \<in> fst ` set (tb_disarms tb) \<longleftrightarrow> bt_get n (tb_disarms tb) \<noteq> None" by (simp add: bt_get_None_iff)
    then show "n \<in> fst ` set (tb_disarms tb) \<longleftrightarrow> n \<in> set (first_notes ns)" using m by (simp add: notes_match_def)
  qed
  moreover have "distinct (map fst (tb_disarms tb))" using m by (simp add: notes_match_def bt_ok_distinct)
  ultimately show ?thesis by (metis distinct_card distinct_first_notes length_map list.set_map)
qed

lemma count_list_absent: "n \<notin> set ns \<Longrightarrow> count_list ns n = 0"
  by simp

lemma notes_match_step:
  assumes m: "notes_match ns tb"
  shows "notes_match (ns @ [n]) (note_disarm n tb)"
proof -
  have len: "length (tb_disarms tb) = length (first_notes ns)" by (rule length_disarms [OF m])
  have sub: "set (first_notes ns) \<subseteq> set ns" by (rule set_first_notes)
  have full: "n \<in> set ns \<Longrightarrow> n \<notin> set (first_notes ns) \<Longrightarrow> \<not> length (first_notes ns) < MAX_TRACE_DISARMS"
    by (auto simp: first_notes_def min_def split: if_splits)
  consider (seen) "n \<in> set (first_notes ns)" | (fresh) "n \<notin> set ns" "length (first_notes ns) < MAX_TRACE_DISARMS"
    | (dropped) "n \<notin> set (first_notes ns)" "\<not> length (first_notes ns) < MAX_TRACE_DISARMS"
    using full by blast
  then show ?thesis
  proof cases
    case seen
    then have "n \<in> set ns" using sub by blast
    then show ?thesis using seen m by (simp add: notes_match_def note_disarm_def first_notes_snoc add.commute)
  next
    case fresh
    then have "n \<notin> set (first_notes ns)" using sub by blast
    moreover have "filter (\<lambda>m. m \<notin> set (first_notes ns) \<and> m \<noteq> n) ns = filter (\<lambda>m. m \<notin> set (first_notes ns)) ns"
      using fresh(1) by (intro filter_cong) auto
    ultimately show ?thesis
      using fresh m len by (auto simp: notes_match_def note_disarm_def first_notes_snoc conj_commute)
  next
    case dropped
    then have "first_notes (ns @ [n]) = first_notes ns" by (simp add: first_notes_snoc)
    then show ?thesis
      using dropped m len by (auto simp: notes_match_def note_disarm_def add.commute)
  qed
qed

lemma notes_match_run: "notes_match ns (fold note_disarm ns trace_buffer_new)"
proof (induction ns rule: rev_induct)
  case Nil
  then show ?case by (simp add: notes_match_def trace_buffer_new_def first_notes_def)
next
  case (snoc n ns)
  then show ?case using notes_match_step by simp
qed

section \<open>Disarmed requests\<close>

lemma remember_bounded_queue:
  assumes "length q \<le> cap" "distinct q"
  shows "length (remember_bounded r cap q) \<le> cap \<and> distinct (remember_bounded r cap q)
     \<and> set (remember_bounded r cap q) \<subseteq> insert r (set q) \<and> (0 < cap \<longrightarrow> r \<in> set (remember_bounded r cap q))"
  using assms by (auto simp: remember_bounded_def distinct_drop dest: in_set_dropD)

section \<open>Properties\<close>

text \<open>
  of the snapshots of up to five hundred hits, with up to sixty-four exception instances among them,
  the buffer holds, in order and under the numbers of their arrival, every hit that is no throw and of
  every instance exactly the first and the latest sighting. The latest names the first one's number and
  says how many sightings in between were folded away.
\<close>

theorem rethrows_folded:
  assumes "length hits \<le> 500" "card (instances_thrown hits) \<le> 64"
  shows "tb_held (file_hits hits) = map (filed_record hits) (surviving (map hit_key hits))
    \<and> tb_filed (file_hits hits) = word_of_nat (length hits)"
  using matches_file_hits [of hits] assms by (simp add: matches_def MAX_RETHROW_CHAINS_def)

text \<open>
  whatever is filed, folded, noted or cleared, the buffer holds at most five hundred snapshots, their
  numbers increase strictly, and no number is ever given twice: clearing the buffer does not reset it.
\<close>

theorem trace_numbers_increase:
  assumes "length (pre @ post) < 2 ^ 64"
  shows "let tb = fold trace_apply pre trace_buffer_new; tb' = fold trace_apply (pre @ post) trace_buffer_new in
     length (tb_held tb') \<le> 500 \<and> sorted_wrt (<) (map (\<lambda>r. unat (tr_seq r)) (tb_held tb'))
   \<and> (\<forall>r\<in>set (tb_held tb). unat (tr_seq r) \<le> unat (tb_filed tb)) \<and> unat (tb_filed tb) \<le> unat (tb_filed tb')"
proof -
  let ?tb = "fold trace_apply pre trace_buffer_new"
  have zero: "unat (tb_filed trace_buffer_new) = 0" by (simp add: trace_buffer_new_def)
  have new: "trace_log.in_order trace_buffer_new"
    by (simp add: trace_log.in_order_def trace_buffer_new_def)
  have pre: "trace_log.in_order ?tb" "unat (tb_filed ?tb) \<le> length pre"
    using trace_log.run_in_order [OF new, of pre] assms zero unfolding trace_log.run_def by simp_all
  have post: "trace_log.in_order (fold trace_apply (pre @ post) trace_buffer_new)"
    "unat (tb_filed ?tb) \<le> unat (tb_filed (fold trace_apply (pre @ post) trace_buffer_new))"
    using trace_log.run_in_order [OF pre(1), of post] assms pre(2) unfolding trace_log.run_def by simp_all
  show ?thesis using pre(1) post unfolding trace_log.in_order_def Let_def by (simp add: MAX_TRACES_def)
qed

text \<open>
  the disarm notes of a session are the first thirty-two different ones, each with the exact number of
  times it was made, and every note that found no room is counted as dropped.
\<close>

theorem disarm_notes_counted:
  "let tb = fold note_disarm ns trace_buffer_new in
     length (tb_disarms tb) \<le> 32
   \<and> bt_get n (tb_disarms tb) = (if n \<in> set (first_notes ns) then Some (word_of_nat (count_list ns n)) else None)
   \<and> tb_disarms_dropped tb = word_of_nat (length (filter (\<lambda>n. n \<notin> set (first_notes ns)) ns))"
proof -
  have m: "notes_match ns (fold note_disarm ns trace_buffer_new)" by (rule notes_match_run)
  then show ?thesis
    using length_disarms [OF m] by (simp add: notes_match_def Let_def first_notes_def MAX_TRACE_DISARMS_def)
qed

section \<open>Instances\<close>

definition blank_record :: trace_record where
  "blank_record = \<lparr>tr_seq = 0, tr_bp_id = ''exc_1'', tr_thread = 1, tr_class = ''A'', tr_method = ''m'', tr_line = None,
     tr_args = [], tr_captured = [], tr_callers = [], tr_expr = [], tr_detail = [], tr_rethrow = None\<rparr>"

definition three_throws :: "hit list" where
  "three_throws = [(blank_record, 5, 1, Some 9), (blank_record, 6, 1, None), (blank_record, 5, 1, Some 9),
     (blank_record, 5, 1, Some 9)]"

theorem rethrows_folded_witness:
  "map tr_seq (tb_held (file_hits three_throws)) = [1, 2, 4]
   \<and> map tr_rethrow (tb_held (file_hits three_throws))
       = [None, None, Some \<lparr>rf_collapsed = 1, rf_first_seq = 1\<rparr>]"
proof -
  have keys: "map hit_key three_throws = [Some (5, 1, 9), None, Some (5, 1, 9), Some (5, 1, 9)]"
    by (simp add: three_throws_def hit_key_def)
  have "instances_thrown three_throws = {(5, 1, 9)}"
    unfolding instances_thrown_def keys by auto
  then have "tb_held (file_hits three_throws) = map (filed_record three_throws) (surviving (map hit_key three_throws))"
    using rethrows_folded [of three_throws] by (simp add: three_throws_def)
  moreover have "surviving (map hit_key three_throws) = [0, 1, 3]"
    unfolding keys by (simp add: surviving_def survives_def occurrences_def upt_rec)
  ultimately show ?thesis
    by (simp add: filed_record_def keys occurrences_def upt_rec seq_at_def)
      (simp add: three_throws_def blank_record_def)
qed

theorem trace_numbers_increase_witness:
  "length (tb_held (fold trace_apply ([Trace_push blank_record 5 1 (Some 9)] @ [Trace_clear]) trace_buffer_new)) \<le> 500"
  using trace_numbers_increase [of "[Trace_push blank_record 5 1 (Some 9)]" "[Trace_clear]"] by (simp add: Let_def)

end
