(* ===== verification/MonitorClock.thy ===== *)
theory MonitorClock
  imports EventRequest Suspensions
begin

text \<open>
  \<open>mcp-server/src/session.rs\<close>: the stopwatch across monitor pairs (\<open>MonitorClock\<close>). The table of open
  halves is a hash map: its entries come in some order that the map may change at any time, and the
  eviction of the oldest entry takes the first of the oldest in that order.
\<close>

datatype monitor_pair = Pair_contended | Pair_wait

fun pair_of :: "monitor_kind \<Rightarrow> monitor_pair \<times> bool" where
  "pair_of MK_Blocked = (Pair_contended, True)"
| "pair_of MK_Acquired = (Pair_contended, False)"
| "pair_of MK_Wait = (Pair_wait, True)"
| "pair_of MK_Waited = (Pair_wait, False)"

fun duration_label :: "monitor_pair \<Rightarrow> string" where
  "duration_label Pair_contended = ''blocked_for''"
| "duration_label Pair_wait = ''waited_for''"

record monitor_pair_key =
  mk_thread :: u64
  mk_monitor :: u64
  mk_pair :: monitor_pair

record monitor_clock =
  mc_pending :: "(monitor_pair_key, instant) hmap"
  mc_dropped :: u64

definition MAX_MONITOR_PENDING :: nat where
  "MAX_MONITOR_PENDING = 256"

definition monitor_clock_new :: monitor_clock where
  "monitor_clock_new = \<lparr>mc_pending = [], mc_dropped = 0\<rparr>"

text \<open>The first of the entries with the earliest instant, in the order the map is visited.\<close>

fun earliest :: "('k \<times> instant) list \<Rightarrow> ('k \<times> instant) option" where
  "earliest [] = None"
| "earliest (x # xs) =
     (case earliest xs of None \<Rightarrow> Some x | Some y \<Rightarrow> if snd y < snd x then Some y else Some x)"

definition clock_open :: "monitor_pair_key \<Rightarrow> instant \<Rightarrow> monitor_clock \<Rightarrow> monitor_clock" where
  "clock_open key at c =
     (let c' = (if MAX_MONITOR_PENDING \<le> length (mc_pending c) \<and> hm_get key (mc_pending c) = None
                then case earliest (mc_pending c) of
                       Some oldest \<Rightarrow> c\<lparr>mc_pending := hm_del (fst oldest) (mc_pending c),
                                       mc_dropped := saturating_inc (mc_dropped c)\<rparr>
                     | None \<Rightarrow> c
                else c)
      in c'\<lparr>mc_pending := hm_put key at (mc_pending c')\<rparr>)"

definition clock_close :: "monitor_pair_key \<Rightarrow> instant \<Rightarrow> monitor_clock \<Rightarrow> duration option \<times> monitor_clock" where
  "clock_close key now c =
     (case hm_get key (mc_pending c) of
        None \<Rightarrow> (None, c)
      | Some opened \<Rightarrow> (Some (since_then now opened), c\<lparr>mc_pending := hm_del key (mc_pending c)\<rparr>))"

definition forget_pair :: "monitor_pair \<Rightarrow> monitor_clock \<Rightarrow> monitor_clock" where
  "forget_pair pair c = c\<lparr>mc_pending := filter (\<lambda>(k, _). mk_pair k \<noteq> pair) (mc_pending c)\<rparr>"

definition clock_clear :: "monitor_clock \<Rightarrow> monitor_clock" where
  "clock_clear c = c\<lparr>mc_pending := [], mc_dropped := 0\<rparr>"

section \<open>Runs\<close>

text \<open>
  A run of the clock beside the unbounded stopwatch it stands for: what is open, and since when. The map
  may reorder itself at any time (\<open>run_rehash\<close>). A clear starts the count of evictions again.
\<close>

inductive clock_run :: "monitor_clock \<Rightarrow> (monitor_pair_key \<rightharpoonup> instant) \<Rightarrow> bool" where
  run_start: "clock_run monitor_clock_new Map.empty"
| run_open: "clock_run c m \<Longrightarrow> clock_run (clock_open key at c) (m(key \<mapsto> at))"
| run_close: "clock_run c m \<Longrightarrow> clock_run (snd (clock_close key now c)) (m(key := None))"
| run_forget: "clock_run c m \<Longrightarrow> clock_run (forget_pair pair c) (m |` {k. mk_pair k \<noteq> pair})"
| run_clear: "clock_run c m \<Longrightarrow> clock_run (clock_clear c) Map.empty"
| run_rehash: "clock_run c m \<Longrightarrow> mset ks = mset (mc_pending c) \<Longrightarrow> clock_run (c\<lparr>mc_pending := ks\<rparr>) m"

section \<open>Lemmas\<close>

lemma earliest_some: "xs \<noteq> [] \<Longrightarrow> \<exists>y. earliest xs = Some y \<and> y \<in> set xs \<and> (\<forall>x\<in>set xs. snd y \<le> snd x)"
proof (induction xs)
  case (Cons x xs)
  show ?case
  proof (cases "xs = []")
    case False
    with Cons.IH obtain y where "earliest xs = Some y" "y \<in> set xs" "\<forall>x\<in>set xs. snd y \<le> snd x" by blast
    then show ?thesis by (cases "snd y < snd x") force+
  qed simp
qed simp

lemma hm_ok_filter: "hm_ok m \<Longrightarrow> hm_ok (filter P m)"
  by (simp add: hm_ok_def distinct_map_filter)

lemma map_of_filter_key: "map_of (filter (\<lambda>(k, _). P k) m) = map_of m |` {k. P k}"
  by (induction m) (auto simp: restrict_map_def fun_eq_iff)

definition clock_ok :: "monitor_clock \<Rightarrow> bool" where
  "clock_ok c \<longleftrightarrow> hm_ok (mc_pending c) \<and> length (mc_pending c) \<le> MAX_MONITOR_PENDING"

lemma clock_open_room:
  "length (mc_pending c) < MAX_MONITOR_PENDING \<or> hm_get key (mc_pending c) \<noteq> None \<Longrightarrow>
   clock_open key at c = c\<lparr>mc_pending := hm_put key at (mc_pending c)\<rparr>"
  by (auto simp: clock_open_def Let_def)

lemma clock_open_full:
  assumes "clock_ok c" "MAX_MONITOR_PENDING \<le> length (mc_pending c)" "hm_get key (mc_pending c) = None"
  shows "\<exists>k0 t0. (k0, t0) \<in> set (mc_pending c) \<and> (\<forall>(k, t)\<in>set (mc_pending c). t0 \<le> t) \<and> k0 \<noteq> key
    \<and> clock_open key at c = c\<lparr>mc_pending := hm_put key at (hm_del k0 (mc_pending c)),
        mc_dropped := saturating_inc (mc_dropped c)\<rparr>"
proof -
  have "mc_pending c \<noteq> []" using assms(2) by (auto simp: MAX_MONITOR_PENDING_def)
  then obtain k0 t0 where y: "earliest (mc_pending c) = Some (k0, t0)" "(k0, t0) \<in> set (mc_pending c)"
    "\<forall>x\<in>set (mc_pending c). t0 \<le> snd x"
    using earliest_some by (metis prod.collapse snd_conv)
  have "hm_get k0 (mc_pending c) = Some t0" using y(2) assms(1) by (simp add: clock_ok_def hm_get_iff)
  then have "k0 \<noteq> key" using assms(3) by auto
  then show ?thesis using y assms(2,3) by (intro exI [of _ k0] exI [of _ t0]) (auto simp: clock_open_def Let_def)
qed

lemma clock_open_ok:
  assumes "clock_ok c"
  shows "clock_ok (clock_open key at c)"
proof (cases "length (mc_pending c) < MAX_MONITOR_PENDING \<or> hm_get key (mc_pending c) \<noteq> None")
  case True
  then show ?thesis using assms by (auto simp: clock_open_room clock_ok_def hm_length_put)
next
  case False
  then obtain k0 t0 where k0: "(k0, t0) \<in> set (mc_pending c)"
    "clock_open key at c = c\<lparr>mc_pending := hm_put key at (hm_del k0 (mc_pending c)),
        mc_dropped := saturating_inc (mc_dropped c)\<rparr>"
    using clock_open_full [OF assms, of key at] by auto
  have "Suc (length (hm_del k0 (mc_pending c))) = length (mc_pending c)"
    by (rule hm_length_del) (use assms k0(1) in \<open>force simp: clock_ok_def\<close>)+
  then show ?thesis using assms by (auto simp: k0(2) clock_ok_def hm_length_put)
qed

lemma clock_close_ok: "clock_ok c \<Longrightarrow> clock_ok (snd (clock_close key now c))"
  by (auto simp: clock_ok_def clock_close_def hm_del_def length_delete_le order_trans [OF length_delete_le]
      hm_ok_def distinct_delete split: option.split)

lemma forget_pair_ok: "clock_ok c \<Longrightarrow> clock_ok (forget_pair pair c)"
  by (simp add: clock_ok_def forget_pair_def hm_ok_filter order_trans [OF length_filter_le])

lemma rehash_map_of: "hm_ok xs \<Longrightarrow> mset ks = mset xs \<Longrightarrow> hm_ok ks \<and> map_of ks = map_of xs \<and> length ks = length xs"
proof -
  assume ok: "hm_ok xs" and eq: "mset ks = mset xs"
  then have "mset (map fst ks) = mset (map fst xs)" by simp
  then have d: "distinct (map fst ks)" using ok mset_eq_imp_distinct_iff unfolding hm_ok_def by blast
  have "map_of ks = map_of xs"
  proof (rule map_of_inject_set [THEN iffD2])
    show "set ks = set xs" using eq by (rule mset_eq_setD)
  qed (use ok d in \<open>simp_all add: hm_ok_def\<close>)
  then show ?thesis using d mset_eq_length [OF eq] by (simp add: hm_ok_def)
qed

lemma clock_run_ok: "clock_run c m \<Longrightarrow> clock_ok c"
proof (induction rule: clock_run.induct)
  case run_start
  show ?case by (simp add: clock_ok_def monitor_clock_new_def)
next
  case (run_clear c m)
  show ?case by (simp add: clock_ok_def clock_clear_def)
next
  case (run_rehash c m ks)
  then show ?case using rehash_map_of [of "mc_pending c" ks] by (simp add: clock_ok_def)
qed (simp_all add: clock_open_ok clock_close_ok forget_pair_ok)

lemma clock_run_below: "clock_run c m \<Longrightarrow> map_of (mc_pending c) \<subseteq>\<^sub>m m"
proof (induction rule: clock_run.induct)
  case run_start
  show ?case by (simp add: monitor_clock_new_def)
next
  case (run_open c m key at)
  have ok: "clock_ok c" by (rule clock_run_ok [OF run_open.hyps])
  show ?case
  proof (cases "length (mc_pending c) < MAX_MONITOR_PENDING \<or> hm_get key (mc_pending c) \<noteq> None")
    case True
    then show ?thesis
      using run_open.IH by (auto simp: clock_open_room hm_put_def update_conv' map_le_def dom_def)
  next
    case False
    then obtain k0 where "mc_pending (clock_open key at c) = hm_put key at (hm_del k0 (mc_pending c))"
      using clock_open_full [OF ok, of key at] by auto
    then show ?thesis
      using run_open.IH by (auto simp: hm_put_def hm_del_def update_conv' delete_conv' map_le_def dom_def)
  qed
next
  case (run_close c m key now)
  then show ?case
    by (auto simp: clock_close_def hm_del_def hm_get_def delete_conv' map_le_def dom_def split: option.split)
next
  case (run_forget c m pair)
  then show ?case
    by (auto simp: forget_pair_def map_of_filter_key map_le_def restrict_map_def split: if_splits)
next
  case (run_clear c m)
  show ?case by (simp add: clock_clear_def)
next
  case (run_rehash c m ks)
  then show ?case using rehash_map_of [of "mc_pending c" ks] clock_run_ok by (simp add: clock_ok_def)
qed

lemma clock_run_exact: "clock_run c m \<Longrightarrow> mc_dropped c = 0 \<Longrightarrow> map_of (mc_pending c) = m"
proof (induction rule: clock_run.induct)
  case run_start
  show ?case by (simp add: monitor_clock_new_def)
next
  case (run_open c m key at)
  have ok: "clock_ok c" by (rule clock_run_ok [OF run_open.hyps])
  show ?case
  proof (cases "length (mc_pending c) < MAX_MONITOR_PENDING \<or> hm_get key (mc_pending c) \<noteq> None")
    case True
    then show ?thesis using run_open by (simp add: clock_open_room hm_put_def update_conv')
  next
    case False
    then have "mc_dropped (clock_open key at c) \<noteq> 0" using clock_open_full [OF ok, of key at] by auto
    then show ?thesis using run_open.prems by simp
  qed
next
  case (run_close c m key now)
  then show ?case
    by (auto simp: clock_close_def hm_del_def hm_get_def delete_conv' split: option.splits)
next
  case (run_forget c m pair)
  then show ?case by (simp add: forget_pair_def map_of_filter_key)
next
  case (run_clear c m)
  show ?case by (simp add: clock_clear_def)
next
  case (run_rehash c m ks)
  then show ?case using rehash_map_of [of "mc_pending c" ks] clock_run_ok by (simp add: clock_ok_def)
qed

section \<open>Properties\<close>

text \<open>
  C37: in every run of the clock, in whatever order its map is visited, a measured duration runs from the
  latest opening of that very pair on that monitor by that thread with nothing in between that closed or
  forgot it; while nothing was evicted, every open pair is measured; and no more than 256 are ever open.
\<close>

theorem monitor_durations_exact:
  assumes "clock_run c m"
  shows "(case fst (clock_close key now c) of None \<Rightarrow> mc_dropped c \<noteq> 0 \<or> m key = None
            | Some d \<Rightarrow> \<exists>t. m key = Some t \<and> d = now - t)
    \<and> length (mc_pending c) \<le> 256"
proof -
  have "length (mc_pending c) \<le> 256"
    using clock_run_ok [OF assms] by (simp add: clock_ok_def MAX_MONITOR_PENDING_def)
  moreover have "hm_get key (mc_pending c) = Some t \<Longrightarrow> m key = Some t" for t
    using clock_run_below [OF assms] by (force simp: hm_get_def map_le_def dom_def)
  moreover have "hm_get key (mc_pending c) = None \<Longrightarrow> mc_dropped c \<noteq> 0 \<or> m key = None"
    using clock_run_exact [OF assms] by (auto simp: hm_get_def)
  ultimately show ?thesis by (auto simp: clock_close_def since_then_def split: option.split)
qed

text \<open>
  opening a pair while 256 others are open evicts one of the oldest of them, counts it, and touches no
  other; with room, or for a pair that is already open, nothing is evicted.
\<close>

theorem oldest_pair_evicted:
  assumes "clock_run c m"
  shows "if length (mc_pending c) = 256 \<and> hm_get key (mc_pending c) = None
    then \<exists>k0 t0. hm_get k0 (mc_pending c) = Some t0 \<and> (\<forall>k t. hm_get k (mc_pending c) = Some t \<longrightarrow> t0 \<le> t)
      \<and> (\<forall>k. hm_get k (mc_pending (clock_open key at c))
            = (if k = key then Some at else if k = k0 then None else hm_get k (mc_pending c)))
      \<and> mc_dropped (clock_open key at c) = saturating_inc (mc_dropped c)
    else (\<forall>k. hm_get k (mc_pending (clock_open key at c)) = (if k = key then Some at else hm_get k (mc_pending c)))
      \<and> mc_dropped (clock_open key at c) = mc_dropped c"
proof (cases "length (mc_pending c) = 256 \<and> hm_get key (mc_pending c) = None")
  case True
  have ok: "clock_ok c" by (rule clock_run_ok [OF assms])
  then have get: "hm_get k (mc_pending c) = Some t \<longleftrightarrow> (k, t) \<in> set (mc_pending c)" for k t
    by (simp add: clock_ok_def hm_get_iff)
  obtain k0 t0 where k0: "(k0, t0) \<in> set (mc_pending c)" "\<forall>(k, t)\<in>set (mc_pending c). t0 \<le> t" "k0 \<noteq> key"
    "clock_open key at c = c\<lparr>mc_pending := hm_put key at (hm_del k0 (mc_pending c)),
        mc_dropped := saturating_inc (mc_dropped c)\<rparr>"
    using clock_open_full [OF ok, of key at] True by (auto simp: MAX_MONITOR_PENDING_def)
  show ?thesis
    unfolding if_P [OF True]
    by (intro exI [of _ k0] exI [of _ t0]) (use k0 in \<open>auto simp: get\<close>)
next
  case False
  have "length (mc_pending c) \<le> 256"
    using clock_run_ok [OF assms] by (simp add: clock_ok_def MAX_MONITOR_PENDING_def)
  then have "clock_open key at c = c\<lparr>mc_pending := hm_put key at (mc_pending c)\<rparr>"
    using False by (intro clock_open_room) (auto simp: MAX_MONITOR_PENDING_def)
  then show ?thesis unfolding if_not_P [OF False] by simp
qed

section \<open>Instances\<close>

definition some_key :: monitor_pair_key where
  "some_key = \<lparr>mk_thread = 1, mk_monitor = 2, mk_pair = Pair_contended\<rparr>"

lemma some_run: "clock_run (clock_open some_key 100 monitor_clock_new) [some_key \<mapsto> 100]"
  using clock_run.run_open [OF clock_run.run_start] by simp

theorem monitor_durations_exact_witness:
  "fst (clock_close some_key 130 (clock_open some_key 100 monitor_clock_new)) = Some 30"
  using monitor_durations_exact [OF some_run, of some_key 130]
  by (simp add: clock_open_def monitor_clock_new_def MAX_MONITOR_PENDING_def clock_close_def split: option.splits)

theorem oldest_pair_evicted_witness:
  "hm_get some_key (mc_pending (clock_open some_key 170 (clock_open some_key 100 monitor_clock_new))) = Some 170"
  using oldest_pair_evicted [OF some_run, of some_key 170]
  by (simp add: clock_open_def monitor_clock_new_def MAX_MONITOR_PENDING_def)

end
