(* ===== verification/SessionState.thy ===== *)
theory SessionState
  imports StopPoint EventRing TraceBuffer MonitorClock Connection
begin

text \<open>
  \<open>mcp-server/src/session.rs\<close>: the stop-point bookkeeping of a session (\<open>SessionState\<close>), wildcard
  families (\<open>PatternStopSet\<close>), a launched JVM's output, the session as a whole (\<open>DebugSession\<close>) and
  the table of sessions (\<open>SessionManager\<close>).
\<close>

section \<open>Stop-point bookkeeping\<close>

record pending_breakpoint =
  pb_bp_id :: string
  pb_class_prepare_request_id :: u32
  pb_class_pattern :: string
  pb_signature :: string
  pb_line :: "u32 option"
  pb_method :: "string option"
  pb_hit_count :: "u32 option"
  pb_instance_filter :: "u64 option"
  pb_thread_filter :: "u64 option"
  pb_condition :: "string option"
  pb_trace :: bool
  pb_trace_expr :: "string list"
  pb_trace_budget :: "u32 option"
  pb_trace_frames :: nat
  pb_trace_max_length :: "nat option"

record session_state =
  ss_stop_points :: "(string, stop_point) hmap"
  ss_pending :: "pending_breakpoint list"
  ss_disarmed_traced :: "u32 list"
  ss_stop_seq :: u64

definition session_state_new :: session_state where
  "session_state_new = \<lparr>ss_stop_points = [], ss_pending = [], ss_disarmed_traced = [], ss_stop_seq = 0\<rparr>"

definition register_stop_point :: "stop_point \<Rightarrow> session_state \<Rightarrow> session_state" where
  "register_stop_point sp s = s\<lparr>ss_stop_points := hm_put (sp_id sp) sp (ss_stop_points s)\<rparr>"

definition resolve_pending :: "stop_point \<Rightarrow> session_state \<Rightarrow> bool \<times> session_state" where
  "resolve_pending armed s =
     (let before = length (ss_pending s);
          s' = s\<lparr>ss_pending := filter (\<lambda>p. pb_bp_id p \<noteq> sp_id armed) (ss_pending s)\<rparr>;
          removed = (before \<noteq> length (ss_pending s'))
      in (removed, register_stop_point armed s'))"

definition stop_point_values :: "session_state \<Rightarrow> stop_point list" where
  "stop_point_values s = map snd (ss_stop_points s)"

definition owns_live_request :: "u32 \<Rightarrow> session_state \<Rightarrow> bool" where
  "owns_live_request req s =
     (list_ex (owns_request req) (stop_point_values s)
      \<or> list_ex (\<lambda>p. pb_class_prepare_request_id p = req) (ss_pending s)
      \<or> list_ex (\<lambda>l. case rearm_watch_of (lb_rearm l) of None \<Rightarrow> False | Some w \<Rightarrow> rw_request_id w = req)
          (List.map_filter sp_line (stop_point_values s)))"

definition was_traced_and_disarmed :: "u32 \<Rightarrow> session_state \<Rightarrow> bool" where
  "was_traced_and_disarmed req s = (req \<in> set (ss_disarmed_traced s) \<and> \<not> owns_live_request req s)"

definition note_disarmed_traced :: "u32 \<Rightarrow> session_state \<Rightarrow> session_state" where
  "note_disarmed_traced req s =
     s\<lparr>ss_disarmed_traced := remember_bounded req MAX_DISARMED_TRACED (ss_disarmed_traced s)\<rparr>"

definition next_stop_id :: "string \<Rightarrow> session_state \<Rightarrow> string \<times> session_state" where
  "next_stop_id pref s =
     (let s' = s\<lparr>ss_stop_seq := ss_stop_seq s + 1\<rparr>
      in (pref @ show_nat (unat (ss_stop_seq s')), s'))"

section \<open>Wildcard families\<close>

datatype class_load_watch = Watch_watching u32 | Watch_parked | Watch_disabled | Watch_failed

fun watch_request_id :: "class_load_watch \<Rightarrow> u32 option" where
  "watch_request_id (Watch_watching req) = Some req"
| "watch_request_id _ = None"

fun is_watching :: "class_load_watch \<Rightarrow> bool" where
  "is_watching (Watch_watching _) = True"
| "is_watching _ = False"

definition MAX_ARMED_LATER_SAMPLE :: nat where
  "MAX_ARMED_LATER_SAMPLE = 25"

record pattern_stop_set =
  ps_id :: string
  ps_class_pattern :: string
  ps_watch :: class_load_watch
  ps_enabled :: bool
  ps_members :: "string list"
  ps_armed_later :: "string list"
  ps_armed_later_total :: nat
  ps_method :: "string option"
  ps_hit_count :: "u32 option"
  ps_instance_filter :: "u64 option"
  ps_thread_filter :: "u64 option"
  ps_condition :: "string option"
  ps_trace :: bool
  ps_trace_expr :: "string list"
  ps_trace_budget :: "u32 option"
  ps_trace_frames :: nat
  ps_trace_max_length :: "nat option"
  ps_max_classes :: nat
  ps_skipped_at_cap :: nat
  ps_no_method :: nat

definition has_room :: "pattern_stop_set \<Rightarrow> bool" where
  "has_room f = (length (ps_members f) < ps_max_classes f)"

definition note_armed_later :: "string \<Rightarrow> pattern_stop_set \<Rightarrow> pattern_stop_set" where
  "note_armed_later class f =
     (let f' = f\<lparr>ps_armed_later_total := ps_armed_later_total f + 1\<rparr>
      in if length (ps_armed_later f') < MAX_ARMED_LATER_SAMPLE
         then f'\<lparr>ps_armed_later := ps_armed_later f' @ [class]\<rparr> else f')"

section \<open>A launched JVM\<close>

definition MAX_DEBUGGEE_OUTPUT :: nat where
  "MAX_DEBUGGEE_OUTPUT = 200"

text \<open>The captured output is \<open>None\<close> when its lock is poisoned.\<close>

record launched_jvm =
  lj_pid :: "u32 option"
  lj_command :: string
  lj_output :: "string list option"
  lj_detach_on_disconnect :: bool

definition output_tail :: "nat \<Rightarrow> launched_jvm \<Rightarrow> string list" where
  "output_tail n j = (case lj_output j of None \<Rightarrow> [] | Some buf \<Rightarrow> drop (length buf - n) buf)"

section \<open>A session\<close>

text \<open>A task handle is \<open>None\<close> when the task was never spawned, and otherwise says whether it has ended.\<close>

datatype event_pump = Pump_running | Pump_ended | Pump_unstarted

record debug_session =
  ds_connection :: conn
  ds_endpoint :: string
  ds_state :: session_state
  ds_events :: event_ring
  ds_event_listener_task :: "bool option"
  ds_last_thread :: "u64 option"
  ds_pending_step :: "(u32 \<times> u64) option"
  ds_suspensions :: suspensions
  ds_watchdog_task :: "bool option"
  ds_traces :: trace_buffer
  ds_read_only :: bool
  ds_source_roots :: "string list"
  ds_class_roots :: "string list"
  ds_trace_exprs :: "string list"
  ds_step_exclude_classes :: "string list option"
  ds_step_only_classes :: "string list option"
  ds_redefinitions :: redefinitions
  ds_pattern_sets :: "(string, pattern_stop_set) hmap"
  ds_launched :: "launched_jvm option"
  ds_monitor_clock :: monitor_clock

definition event_pump :: "debug_session \<Rightarrow> event_pump" where
  "event_pump s =
     (case ds_event_listener_task s of
        None \<Rightarrow> Pump_unstarted
      | Some finished \<Rightarrow> if finished then Pump_ended else Pump_running)"

section \<open>Session ids\<close>

text \<open>The timestamp is the clock's, in milliseconds; the counter is the process-wide one.\<close>

definition uuid_v4 :: "nat \<Rightarrow> u64 \<Rightarrow> string \<times> u64" where
  "uuid_v4 timestamp counter = (show_hex timestamp @ show_hex (unat counter), counter + 1)"

record session_seed =
  seed_read_only :: bool
  seed_source_roots :: "string list"
  seed_class_roots :: "string list"
  seed_trace_exprs :: "string list"
  seed_step_exclude_classes :: "string list option"
  seed_step_only_classes :: "string list option"

definition debug_session_new :: "conn \<Rightarrow> string \<Rightarrow> session_seed \<Rightarrow> debug_session" where
  "debug_session_new connection endpoint seed =
     \<lparr>ds_connection = connection, ds_endpoint = endpoint, ds_state = session_state_new,
      ds_events = event_ring_new, ds_event_listener_task = None, ds_last_thread = None,
      ds_pending_step = None, ds_suspensions = suspensions_new, ds_watchdog_task = None,
      ds_traces = trace_buffer_new, ds_read_only = seed_read_only seed,
      ds_source_roots = seed_source_roots seed, ds_class_roots = seed_class_roots seed,
      ds_trace_exprs = seed_trace_exprs seed, ds_step_exclude_classes = seed_step_exclude_classes seed,
      ds_step_only_classes = seed_step_only_classes seed, ds_redefinitions = [], ds_pattern_sets = [],
      ds_launched = None, ds_monitor_clock = monitor_clock_new\<rparr>"

record session_manager =
  sm_sessions :: "(string, debug_session) hmap"
  sm_current :: "string option"
  sm_counter :: u64

definition session_manager_new :: session_manager where
  "session_manager_new = \<lparr>sm_sessions = [], sm_current = None, sm_counter = 1\<rparr>"

definition create_session ::
  "nat \<Rightarrow> conn \<Rightarrow> string \<Rightarrow> session_seed \<Rightarrow> session_manager \<Rightarrow> string \<times> session_manager" where
  "create_session timestamp connection endpoint seed m =
     (let (u, counter) = uuid_v4 timestamp (sm_counter m);
          session_id = ''session_'' @ u
      in (session_id,
          m\<lparr>sm_sessions := hm_put session_id (debug_session_new connection endpoint seed) (sm_sessions m),
            sm_current := Some session_id, sm_counter := counter\<rparr>))"

definition get_session_by_id :: "string \<Rightarrow> session_manager \<Rightarrow> debug_session option" where
  "get_session_by_id sid m = hm_get sid (sm_sessions m)"

definition get_current_session :: "session_manager \<Rightarrow> debug_session option" where
  "get_current_session m =
     (case sm_current m of None \<Rightarrow> None | Some sid \<Rightarrow> hm_get sid (sm_sessions m))"

definition get_current_session_id :: "session_manager \<Rightarrow> string option" where
  "get_current_session_id m = sm_current m"

definition list_sessions :: "session_manager \<Rightarrow> (string \<times> debug_session) list \<times> string option" where
  "list_sessions m = (sort_key fst (sm_sessions m), get_current_session_id m)"

definition make_current :: "string \<Rightarrow> session_manager \<Rightarrow> string option \<times> session_manager" where
  "make_current sid m = (sm_current m, m\<lparr>sm_current := Some sid\<rparr>)"

definition remove_session :: "string \<Rightarrow> session_manager \<Rightarrow> session_manager" where
  "remove_session sid m =
     (let m' = m\<lparr>sm_sessions := hm_del sid (sm_sessions m)\<rparr>
      in if sm_current m' = Some sid then m'\<lparr>sm_current := None\<rparr> else m')"

section \<open>Lemmas\<close>

definition state_ok :: "session_state \<Rightarrow> bool" where
  "state_ok s \<longleftrightarrow> hm_ok (ss_stop_points s)
     \<and> (\<forall>(k, sp)\<in>set (ss_stop_points s). k = sp_id sp)
     \<and> length (ss_disarmed_traced s) \<le> MAX_DISARMED_TRACED \<and> distinct (ss_disarmed_traced s)"

lemma state_ok_new [simp]: "state_ok session_state_new"
  by (simp add: state_ok_def session_state_new_def)

lemma hm_put_keys_ok:
  assumes "\<forall>(k, v)\<in>set m. k = key v" "k = key v" "hm_ok m"
  shows "\<forall>(k, v)\<in>set (hm_put k v m). k = key v"
proof clarify
  fix j w assume "(j, w) \<in> set (hm_put k v m)"
  then have "hm_get j (hm_put k v m) = Some w" using assms(3) hm_get_iff [of "hm_put k v m"] by simp
  then have "j = k \<and> w = v \<or> hm_get j m = Some w" by (auto split: if_splits)
  then show "j = key w" using assms hm_get_iff [OF assms(3)] by auto
qed

lemma register_ok: "state_ok s \<Longrightarrow> state_ok (register_stop_point sp s)"
  using hm_put_keys_ok [of "ss_stop_points s" sp_id "sp_id sp" sp]
  by (simp add: state_ok_def register_stop_point_def)

lemma resolve_pending_ok: "state_ok s \<Longrightarrow> state_ok (snd (resolve_pending sp s))"
  using register_ok [of "s\<lparr>ss_pending := filter (\<lambda>p. pb_bp_id p \<noteq> sp_id sp) (ss_pending s)\<rparr>" sp]
  by (simp add: resolve_pending_def Let_def state_ok_def)

lemma note_disarmed_ok: "state_ok s \<Longrightarrow> state_ok (note_disarmed_traced r s)"
  using remember_bounded_queue [of "ss_disarmed_traced s" MAX_DISARMED_TRACED r]
  by (simp add: state_ok_def note_disarmed_traced_def)

lemma resolve_pending_effect:
  "fst (resolve_pending sp s) \<longleftrightarrow> (\<exists>p\<in>set (ss_pending s). pb_bp_id p = sp_id sp)"
  "ss_pending (snd (resolve_pending sp s)) = filter (\<lambda>p. pb_bp_id p \<noteq> sp_id sp) (ss_pending s)"
  "hm_get k (ss_stop_points (snd (resolve_pending sp s)))
     = (if k = sp_id sp then Some sp else hm_get k (ss_stop_points s))"
proof -
  have len: "length (filter P xs) = length xs \<longleftrightarrow> (\<forall>x\<in>set xs. P x)" for P and xs :: "pending_breakpoint list"
    by (metis filter_id_conv length_filter_less less_irrefl)
  show "fst (resolve_pending sp s) \<longleftrightarrow> (\<exists>p\<in>set (ss_pending s). pb_bp_id p = sp_id sp)"
    using len [of "\<lambda>p. pb_bp_id p \<noteq> sp_id sp" "ss_pending s"] by (auto simp: resolve_pending_def Let_def)
qed (simp_all add: resolve_pending_def Let_def register_stop_point_def)

text \<open>Ids: the digits after the last underscore give the number back.\<close>

lemma show_nat_digits: "c \<in> set (show_nat n) \<Longrightarrow> c \<noteq> CHR ''_''"
proof (induction n rule: show_nat.induct)
  case (1 n)
  have digit: "digit_char k \<noteq> CHR ''_''" if "k < 10" for k
    using digit_cases [OF that] by (auto simp: digit_char_def)
  show ?case
  proof (cases "n < 10")
    case True
    then show ?thesis using "1.prems" digit by (subst (asm) show_nat.simps) auto
  next
    case False
    then have "c \<in> set (show_nat (n div 10)) \<or> c = digit_char (n mod 10)"
      using "1.prems" by (subst (asm) show_nat.simps) auto
    then show ?thesis using "1.IH" False digit [of "n mod 10"] by auto
  qed
qed

lemma stop_id_number:
  assumes "p \<noteq> []" "last p = CHR ''_''"
  shows "rev (takeWhile (\<lambda>c. c \<noteq> CHR ''_'') (rev (p @ show_nat n))) = show_nat n"
proof -
  obtain q where p: "p = q @ [CHR ''_'']" using assms by (metis append_butlast_last_id)
  have "takeWhile (\<lambda>c. c \<noteq> CHR ''_'') (rev (show_nat n) @ CHR ''_'' # rev q) = rev (show_nat n)"
    using show_nat_digits by (subst takeWhile_append2) auto
  then show ?thesis by (simp add: p)
qed

primrec issue_ids :: "string list \<Rightarrow> session_state \<Rightarrow> string list \<times> session_state" where
  "issue_ids [] s = ([], s)"
| "issue_ids (p # ps) s =
     (let (i, s1) = next_stop_id p s; (is, s2) = issue_ids ps s1 in (i # is, s2))"

definition stop_prefix :: "string \<Rightarrow> bool" where
  "stop_prefix p = (p \<noteq> [] \<and> last p = CHR ''_'')"

definition id_number :: "string \<Rightarrow> string" where
  "id_number i = rev (takeWhile (\<lambda>c. c \<noteq> CHR ''_'') (rev i))"

lemma issue_ids_numbers:
  assumes "list_all stop_prefix ps" "unat (ss_stop_seq s) + length ps < 2 ^ 64"
  shows "map id_number (fst (issue_ids ps s))
     = map show_nat [Suc (unat (ss_stop_seq s))..<Suc (unat (ss_stop_seq s) + length ps)]"
  using assms
proof (induction ps arbitrary: s)
  case (Cons p ps)
  let ?s = "s\<lparr>ss_stop_seq := ss_stop_seq s + 1\<rparr>"
  have seq: "unat (ss_stop_seq s + 1) = Suc (unat (ss_stop_seq s))"
    using Cons.prems(2) by (subst unat_word_ariths) simp
  have id: "id_number (p @ show_nat (unat (ss_stop_seq s + 1))) = show_nat (Suc (unat (ss_stop_seq s)))"
    using Cons.prems(1) stop_id_number unfolding id_number_def stop_prefix_def seq by simp
  have "map id_number (fst (issue_ids ps ?s))
      = map show_nat [Suc (Suc (unat (ss_stop_seq s)))..<Suc (Suc (unat (ss_stop_seq s) + length ps))]"
    using Cons.IH [of ?s] Cons.prems by (simp add: seq del: upt_Suc)
  then show ?case
    by (simp add: next_stop_id_def Let_def case_prod_unfold id upt_rec [of "Suc (unat (ss_stop_seq s))"] del: upt_Suc)
qed simp

lemma note_keeps_recent:
  assumes "distinct q" "length q \<le> 32" "q = a @ r # b" "set b \<subseteq> S" "card (insert x S) \<le> 31" "finite S"
  shows "\<exists>a' b'. remember_bounded x 32 q = a' @ r # b' \<and> set b' \<subseteq> insert x S"
proof (cases "x \<in> set q")
  case True
  then show ?thesis using assms by (intro exI [of _ a] exI [of _ b]) (auto simp: remember_bounded_def)
next
  case False
  show ?thesis
  proof (cases "32 \<le> length q")
    case True
    have "a \<noteq> []"
    proof
      assume "a = []"
      then have "card (set b) = 31" using assms(1-3) True by (simp add: distinct_card)
      moreover have "card (insert x (set b)) = Suc (card (set b))" using False assms(3) by simp
      moreover have "card (insert x (set b)) \<le> card (insert x S)"
        using assms(4,6) by (intro card_mono) auto
      ultimately show False using assms(5) by simp
    qed
    then obtain a0 a1 where "a = a0 # a1" by (cases a) auto
    then have "remember_bounded x 32 q = a1 @ r # (b @ [x])"
      using False True assms(3) by (simp add: remember_bounded_def)
    then show ?thesis using assms(4) by (intro exI [of _ a1] exI [of _ "b @ [x]"]) auto
  next
    case small: False
    then have "remember_bounded x 32 q = a @ r # (b @ [x])"
      using False assms(3) by (simp add: remember_bounded_def)
    then show ?thesis using assms(4) by (intro exI [of _ a] exI [of _ "b @ [x]"]) auto
  qed
qed

lemma notes_keep_recent:
  assumes "distinct q" "length q \<le> 32" "q = a @ r # b" "set b \<subseteq> S" "card (S \<union> set rs) \<le> 31" "finite S"
  shows "\<exists>a' b'. fold (\<lambda>x. remember_bounded x 32) rs q = a' @ r # b'"
  using assms
proof (induction rs arbitrary: q a b S)
  case (Cons x rs)
  have "card (insert x S) \<le> card (S \<union> set (x # rs))" using Cons.prems(6) by (intro card_mono) auto
  then obtain a1 b1 where 1: "remember_bounded x 32 q = a1 @ r # b1" "set b1 \<subseteq> insert x S"
    using note_keeps_recent [OF Cons.prems(1-4), of x] Cons.prems(5,6) by auto
  have "distinct (remember_bounded x 32 q) \<and> length (remember_bounded x 32 q) \<le> 32"
    using remember_bounded_queue [OF Cons.prems(2,1), of x] by simp
  then show ?case
    using Cons.IH [of "remember_bounded x 32 q" a1 b1 "insert x S"] 1 Cons.prems(5,6) by simp
qed auto

lemma fold_note_disarmed:
  "ss_disarmed_traced (fold note_disarmed_traced rs s)
     = fold (\<lambda>x. remember_bounded x MAX_DISARMED_TRACED) rs (ss_disarmed_traced s)"
  "ss_stop_points (fold note_disarmed_traced rs s) = ss_stop_points s"
  "ss_pending (fold note_disarmed_traced rs s) = ss_pending s"
  by (induction rs arbitrary: s) (simp_all add: note_disarmed_traced_def)

lemma owns_live_request_note [simp]: "owns_live_request r (note_disarmed_traced x s) = owns_live_request r s"
  by (simp add: owns_live_request_def note_disarmed_traced_def stop_point_values_def)

lemma owns_live_request_notes: "owns_live_request r (fold note_disarmed_traced rs s) = owns_live_request r s"
  by (induction rs arbitrary: s) simp_all

section \<open>Sessions\<close>

definition manager_ok :: "session_manager \<Rightarrow> bool" where
  "manager_ok m \<longleftrightarrow> hm_ok (sm_sessions m)
     \<and> (\<forall>sid. sm_current m = Some sid \<longrightarrow> get_session_by_id sid m \<noteq> None)"

lemma manager_ok_new: "manager_ok session_manager_new"
  by (simp add: manager_ok_def session_manager_new_def)

lemma create_session_ok: "manager_ok m \<Longrightarrow> manager_ok (snd (create_session t conn ep seed m))"
  by (simp add: manager_ok_def create_session_def get_session_by_id_def case_prod_unfold Let_def)

lemma remove_session_ok: "manager_ok m \<Longrightarrow> manager_ok (remove_session sid m)"
  by (auto simp: manager_ok_def remove_session_def get_session_by_id_def Let_def)

lemma make_current_ok: "manager_ok m \<Longrightarrow> get_session_by_id sid m \<noteq> None \<Longrightarrow> manager_ok (snd (make_current sid m))"
  by (auto simp: manager_ok_def make_current_def get_session_by_id_def)

section \<open>Properties\<close>

text \<open>
  the ids a session gives its stop points are pairwise different, whatever kinds they are of: an id is
  never given to a second stop point.
\<close>

theorem stop_ids_never_reused:
  assumes "list_all stop_prefix ps" "length ps < 2 ^ 64"
  shows "distinct (fst (issue_ids ps session_state_new))"
proof -
  have "map id_number (fst (issue_ids ps session_state_new)) = map show_nat [Suc 0..<Suc (length ps)]"
    using issue_ids_numbers [OF assms(1), of session_state_new] assms(2)
    by (simp add: session_state_new_def del: upt_Suc)
  moreover have "distinct (map show_nat [Suc 0..<Suc (length ps)])"
    by (simp add: distinct_map inj_on_def del: upt_Suc)
  ultimately show ?thesis by (metis distinct_map)
qed

text \<open>
  a traced request noted as disarmed is still recognised after up to thirty-one other requests were
  noted - unless a live stop point, deferral or class-load watch has been given the same id since, and
  then it is never taken for the disarmed one.
\<close>

theorem disarmed_request_remembered:
  assumes "state_ok s" "r \<notin> set (ss_disarmed_traced s)" "card (set rs) \<le> 31"
  shows "was_traced_and_disarmed r (fold note_disarmed_traced (r # rs) s) \<longleftrightarrow> \<not> owns_live_request r s"
proof -
  let ?q = "remember_bounded r 32 (ss_disarmed_traced s)"
  have q: "\<exists>a. ?q = a @ r # []" using assms(2) by (auto simp: remember_bounded_def)
  have "distinct ?q \<and> length ?q \<le> 32"
    using remember_bounded_queue [of "ss_disarmed_traced s" 32 r] assms(1)
    by (simp add: state_ok_def MAX_DISARMED_TRACED_def)
  then obtain a b where "fold (\<lambda>x. remember_bounded x 32) rs ?q = a @ r # b"
    using notes_keep_recent [of ?q _ r "[]" "{}" rs] q assms(3) by (metis Un_empty_left empty_subsetI finite.emptyI list.set(1))
  then have "r \<in> set (ss_disarmed_traced (fold note_disarmed_traced (r # rs) s))"
    unfolding fold_note_disarmed(1) by (simp add: MAX_DISARMED_TRACED_def)
  then show ?thesis
    unfolding was_traced_and_disarmed_def owns_live_request_notes by simp
qed

section \<open>Instances\<close>

theorem stop_ids_never_reused_witness:
  "fst (issue_ids [''bp_'', ''exc_'', ''bp_''] session_state_new) = [''bp_1'', ''exc_2'', ''bp_3'']
   \<and> distinct (fst (issue_ids [''bp_'', ''exc_'', ''bp_''] session_state_new))"
proof -
  have "fst (issue_ids [''bp_'', ''exc_'', ''bp_''] session_state_new) = [''bp_1'', ''exc_2'', ''bp_3'']"
    by (simp add: session_state_new_def next_stop_id_def Let_def show_nat.simps digit_char_def)
  moreover have "distinct (fst (issue_ids [''bp_'', ''exc_'', ''bp_''] session_state_new))"
    by (rule stop_ids_never_reused) (simp_all add: stop_prefix_def)
  ultimately show ?thesis by blast
qed

theorem disarmed_request_remembered_witness:
  "was_traced_and_disarmed 7 (fold note_disarmed_traced [7, 8, 9] session_state_new)"
  using disarmed_request_remembered [OF state_ok_new, of 7 "[8, 9]"]
  by (simp add: session_state_new_def owns_live_request_def stop_point_values_def)

end
