(* ===== verification/ClassNames.thy ===== *)
theory ClassNames
  imports StopPoint Vm RefType "HOL-Library.Sublist"
begin

text \<open>
  \<open>mcp-server/src/handlers.rs\<close>: class names - JNI signatures and the names a caller sees, the filter of
  a wildcard and the JDWP pattern its class-load watch asks for, the loaded copies of a name and the choice
  of one by its class loader.
\<close>

section \<open>Strings\<close>

definition split_once :: "char \<Rightarrow> string \<Rightarrow> (string \<times> string) option" where
  "split_once c s =
     (let a = takeWhile (\<lambda>x. x \<noteq> c) s in if length a = length s then None else Some (a, drop (length a + 1) s))"

definition rsplit_once :: "char \<Rightarrow> string \<Rightarrow> (string \<times> string) option" where
  "rsplit_once c s = map_option (\<lambda>(a, b). (rev b, rev a)) (split_once c (rev s))"

fun split_on :: "char \<Rightarrow> string \<Rightarrow> string list" where
  "split_on c [] = [[]]"
| "split_on c (x # xs) =
     (if x = c then [] # split_on c xs
      else (case split_on c xs of [] \<Rightarrow> [[x]] | y # ys \<Rightarrow> (x # y) # ys))"

definition replace_char :: "char \<Rightarrow> char \<Rightarrow> string \<Rightarrow> string" where
  "replace_char a b s = map (\<lambda>c. if c = a then b else c) s"

definition strip_prefix_char :: "char \<Rightarrow> string \<Rightarrow> string option" where
  "strip_prefix_char c s = (case s of [] \<Rightarrow> None | x # xs \<Rightarrow> if x = c then Some xs else None)"

definition strip_suffix_char :: "char \<Rightarrow> string \<Rightarrow> string option" where
  "strip_suffix_char c s = (if s \<noteq> [] \<and> last s = c then Some (butlast s) else None)"

definition trim_start_char :: "char \<Rightarrow> string \<Rightarrow> string" where
  "trim_start_char c s = dropWhile (\<lambda>x. x = c) s"

definition trim_char :: "char \<Rightarrow> string \<Rightarrow> string" where
  "trim_char c s = rev (trim_start_char c (rev (trim_start_char c s)))"

definition contains :: "string \<Rightarrow> string \<Rightarrow> bool" where
  "contains s needle = list_ex (prefix needle) (suffixes s)"

definition is_digit :: "char \<Rightarrow> bool" where
  "is_digit c = (c \<in> set ''0123456789'')"

definition starts_with_digit :: "string \<Rightarrow> bool" where
  "starts_with_digit s = (case s of [] \<Rightarrow> False | c # _ \<Rightarrow> is_digit c)"

definition hex_value :: "char \<Rightarrow> nat option" where
  "hex_value c = map_of (zip ''0123456789abcdefABCDEF'' [0, 1, 2, 3, 4, 5, 6, 7, 8, 9, 10, 11, 12, 13, 14, 15,
     10, 11, 12, 13, 14, 15]) c"

fun read_hex :: "nat \<Rightarrow> string \<Rightarrow> nat option" where
  "read_hex acc [] = Some acc"
| "read_hex acc (c # cs) = (case hex_value c of None \<Rightarrow> None | Some v \<Rightarrow> read_hex (acc * 16 + v) cs)"

text \<open>\<open>u64::from_str_radix(s, 16)\<close>: an optional plus sign and at least one digit.\<close>

definition u64_from_hex :: "string \<Rightarrow> u64 option" where
  "u64_from_hex s =
     (let digits = (case s of CHR ''+'' # rest \<Rightarrow> rest | _ \<Rightarrow> s)
      in if digits = [] then None
         else Option.bind (read_hex 0 digits) (\<lambda>n. if n < 2 ^ 64 then Some (word_of_nat n) else None))"

fun join :: "string \<Rightarrow> string list \<Rightarrow> string" where
  "join sep [] = []"
| "join sep [s] = s"
| "join sep (s # ss) = s @ sep @ join sep ss"

section \<open>Signatures and names\<close>

definition decode_internal_name :: "string \<Rightarrow> string" where
  "decode_internal_name internal =
     (case split_once CHR ''.'' internal of
        Some (binary_name, assigned_by_the_vm) \<Rightarrow>
          replace_char CHR ''/'' CHR ''.'' binary_name @ ''/'' @ assigned_by_the_vm
      | None \<Rightarrow>
          (case split_on CHR ''/'' internal of
             [] \<Rightarrow> []
           | s # ss \<Rightarrow> s @ concat (map (\<lambda>seg. (if starts_with_digit seg then CHR ''/'' else CHR ''.'') # seg) ss)))"

definition primitive_names :: "(char \<times> string) list" where
  "primitive_names = [(CHR ''Z'', ''boolean''), (CHR ''B'', ''byte''), (CHR ''C'', ''char''), (CHR ''S'', ''short''),
     (CHR ''I'', ''int''), (CHR ''J'', ''long''), (CHR ''F'', ''float''), (CHR ''D'', ''double''), (CHR ''V'', ''void'')]"

definition decode_signature :: "string \<Rightarrow> string" where
  "decode_signature sig =
     (let dims = length (takeWhile (\<lambda>c. c = CHR ''['') sig);
          base = (case drop dims sig of
              [] \<Rightarrow> sig
            | c # cs \<Rightarrow>
                if c = CHR ''L'' then decode_internal_name (if last sig = CHR '';'' then butlast cs else cs)
                else (case map_of primitive_names c of Some n \<Rightarrow> n | None \<Rightarrow> sig))
      in base @ concat (replicate dims ''[]''))"

definition signature_for_dotted :: "string \<Rightarrow> string" where
  "signature_for_dotted dotted =
     (if dotted \<noteq> [] \<and> hd dotted = CHR ''L'' \<and> last dotted = CHR '';'' then dotted
      else ''L'' @ replace_char CHR ''.'' CHR ''/'' dotted @ '';'')"

definition descriptor_candidates :: "string \<Rightarrow> string list" where
  "descriptor_candidates class_name =
     (let internal = replace_char CHR ''.'' CHR ''/'' class_name
      in (''L'' @ internal @ '';'')
         # (case rsplit_once CHR ''/'' internal of
              None \<Rightarrow> []
            | Some (binary_name, assigned) \<Rightarrow>
                if starts_with_digit assigned then [''L'' @ binary_name @ ''.'' @ assigned @ '';''] else []))"

section \<open>Wildcards\<close>

definition is_wildcard :: "string \<Rightarrow> bool" where
  "is_wildcard pattern = (CHR ''*'' \<in> set pattern)"

definition class_matches :: "string \<Rightarrow> string \<Rightarrow> bool" where
  "class_matches fqn filt =
     (case (strip_suffix_char CHR ''*'' filt, strip_prefix_char CHR ''*'' filt) of
        (Some _, Some _) \<Rightarrow> contains fqn (trim_char CHR ''*'' filt)
      | (Some pre, None) \<Rightarrow> prefix pre fqn
      | (None, Some suf) \<Rightarrow> suffix suf fqn \<or> fqn = trim_start_char CHR ''.'' suf
      | (None, None) \<Rightarrow> contains fqn filt)"

definition jdwp_class_match_for :: "string \<Rightarrow> string \<times> bool" where
  "jdwp_class_match_for pattern =
     (if count_list pattern CHR ''*'' = 1 \<and> (hd pattern = CHR ''*'' \<or> last pattern = CHR ''*'')
      then (pattern, False) else (''*'', True))"

text \<open>
  JDWP's \<open>ClassMatch\<close> as its documentation gives it: an exact name, or a pattern that begins or ends
  with a star.
\<close>

definition jdwp_class_match :: "string \<Rightarrow> string \<Rightarrow> bool" where
  "jdwp_class_match pattern name =
     (case strip_prefix_char CHR ''*'' pattern of
        Some suf \<Rightarrow> suffix suf name
      | None \<Rightarrow> (case strip_suffix_char CHR ''*'' pattern of
          Some pre \<Rightarrow> prefix pre name
        | None \<Rightarrow> name = pattern))"

section \<open>Loaded copies of a class\<close>

definition split_loader_selector :: "string \<Rightarrow> string \<times> u64 option" where
  "split_loader_selector dotted =
     (case rsplit_once CHR ''@'' dotted of
        None \<Rightarrow> (dotted, None)
      | Some (name, sel) \<Rightarrow>
          (case sel of
             CHR ''0'' # CHR ''x'' # hex \<Rightarrow>
               (case u64_from_hex hex of None \<Rightarrow> (dotted, None) | Some i \<Rightarrow> (name, Some i))
           | _ \<Rightarrow> (dotted, None)))"

text \<open>How one copy's loader reads, and the whole list in order.\<close>

definition describe_loader :: "debuggee \<Rightarrow> u64 \<Rightarrow> conn \<Rightarrow> string \<times> conn" where
  "describe_loader d cid c =
     (case get_class_loader d cid c of
        (Inl e, c1) \<Rightarrow> (''(loader unreadable: '' @ show_jdwp_error e @ '')'', c1)
      | (Inr None, c1) \<Rightarrow> (''bootstrap'', c1)
      | (Inr (Some loader), c1) \<Rightarrow>
          (let bare = ''0x'' @ show_hex (unat loader) in
           case get_object_reference_type d loader c1 of
             (Inl _, c2) \<Rightarrow> (bare, c2)
           | (Inr lt, c2) \<Rightarrow>
               (case get_signature d lt c2 of
                  (Inl _, c3) \<Rightarrow> (bare, c3)
                | (Inr sig, c3) \<Rightarrow> (decode_internal_name sig @ ''@'' @ bare, c3))))"

fun describe_loaders_from :: "debuggee \<Rightarrow> nat \<Rightarrow> u64 list \<Rightarrow> conn \<Rightarrow> string list \<times> conn" where
  "describe_loaders_from d i [] c = ([], c)"
| "describe_loaders_from d i (cid # cids) c =
     (let (label, c1) = describe_loader d cid c;
          (labels, c2) = describe_loaders_from d (i + 1) cids c1
      in ((''#'' @ show_nat i @ '' '' @ label) # labels, c2))"

definition describe_class_loaders :: "debuggee \<Rightarrow> u64 list \<Rightarrow> conn \<Rightarrow> string list \<times> conn" where
  "describe_class_loaders d cids c = describe_loaders_from d 0 cids c"

definition pick_by_loader :: "u64 \<Rightarrow> u64 list \<Rightarrow> string list \<Rightarrow> u64 option" where
  "pick_by_loader want ids labels =
     map_option fst (find (\<lambda>(_, l). contains l (''0x'' @ show_hex (unat want))) (zip ids labels))"

definition rank_copies :: "class_info list \<Rightarrow> u64 list" where
  "rank_copies classes =
     map ci_type_id (filter (\<lambda>k. ci_ref_type_tag k = 1) classes)
     @ map ci_type_id (filter (\<lambda>k. ci_ref_type_tag k \<noteq> 1) classes)"

text \<open>The candidate descriptors in turn: the first that any loaded class has decides.\<close>

fun copies_by_descriptor ::
  "debuggee \<Rightarrow> string \<Rightarrow> u64 option \<Rightarrow> string list \<Rightarrow> conn \<Rightarrow> (string + u64 list option) \<times> conn" where
  "copies_by_descriptor d dotted want [] c = (Inr None, c)"
| "copies_by_descriptor d dotted want (sig # sigs) c =
     (case classes_by_signature d sig c of
        (Inl e, c1) \<Rightarrow> (Inl (''classes_by_signature failed: '' @ show_jdwp_error e), c1)
      | (Inr classes, c1) \<Rightarrow>
          if classes = [] then copies_by_descriptor d dotted want sigs c1
          else (case want of
              None \<Rightarrow> (Inr (Some (rank_copies classes)), c1)
            | Some w \<Rightarrow>
                (let ids = map ci_type_id classes; (labels, c2) = describe_class_loaders d ids c1
                 in case pick_by_loader w ids labels of
                      Some i \<Rightarrow> (Inr (Some [i]), c2)
                    | None \<Rightarrow> (Inl (dotted @ '' is loaded '' @ show_nat (length ids)
                        @ '' time(s), but none by classloader 0x'' @ show_hex (unat w) @ ''. Loaded by: ''
                        @ join ''; '' labels @ ''.''), c2))))"

definition resolve_class_copies_by_dotted ::
  "debuggee \<Rightarrow> string \<Rightarrow> conn \<Rightarrow> (string + u64 list) \<times> conn" where
  "resolve_class_copies_by_dotted d name c =
     (let (dotted, want) = split_loader_selector name in
      case copies_by_descriptor d dotted want (descriptor_candidates dotted) c of
        (Inl e, c1) \<Rightarrow> (Inl e, c1)
      | (Inr (Some ids), c1) \<Rightarrow> (Inr ids, c1)
      | (Inr None, c1) \<Rightarrow>
          if CHR ''.'' \<in> set dotted then (Inr [], c1)
          else (case all_classes d c1 of
              (Inl e, c2) \<Rightarrow> (Inl (''all_classes failed: '' @ show_jdwp_error e), c2)
            | (Inr al, c2) \<Rightarrow>
                (Inr (rank_copies (filter (\<lambda>k. suffix (''/'' @ dotted @ '';'') (ci_signature k)
                   \<or> ci_signature k = ''L'' @ dotted @ '';'') al)), c2)))"

definition resolve_class_by_dotted :: "debuggee \<Rightarrow> string \<Rightarrow> conn \<Rightarrow> (string + u64 option) \<times> conn" where
  "resolve_class_by_dotted d name c =
     (case resolve_class_copies_by_dotted d name c of
        (Inl e, c1) \<Rightarrow> (Inl e, c1)
      | (Inr ids, c1) \<Rightarrow> (Inr (case ids of [] \<Rightarrow> None | i # _ \<Rightarrow> Some i), c1))"

section \<open>What a watch covers\<close>

lemma contains_iff: "contains s needle \<longleftrightarrow> (\<exists>a b. s = a @ needle @ b)"
proof
  assume "contains s needle"
  then obtain t where "suffix t s" "prefix needle t" by (auto simp: contains_def list_ex_iff)
  then show "\<exists>a b. s = a @ needle @ b" by (auto simp: suffix_def prefix_def)
next
  assume "\<exists>a b. s = a @ needle @ b"
  then obtain a b where "s = a @ needle @ b" by blast
  then have "suffix (needle @ b) s" "prefix needle (needle @ b)" by (auto simp: suffix_def)
  then show "contains s needle" unfolding contains_def list_ex_iff by (metis in_set_suffixes)
qed

lemma trim_start_dots: "trim_start_char c s = t \<Longrightarrow> \<exists>n. s = replicate n c @ t"
proof -
  have "takeWhile (\<lambda>x. x = c) s = replicate (length (takeWhile (\<lambda>x. x = c) s)) c"
    by (induction s) auto
  moreover assume "trim_start_char c s = t"
  ultimately show ?thesis by (metis trim_start_char_def takeWhile_dropWhile_id)
qed

lemma jdwp_star [simp]: "jdwp_class_match ''*'' name"
  by (simp add: jdwp_class_match_def strip_prefix_char_def)

text \<open>
  C29: the class-load watch a wildcard family asks the debuggee for covers what the family's own filter
  accepts, with one exception: a pattern that is a star, one or more dots and the whole name of the class.
  The filter accepts that class (\<open>*.Order\<close> accepts \<open>Order\<close> of the default package) and the JDWP
  pattern does not, so such a class is armed when it is already loaded and missed when it loads later.
\<close>

theorem family_watch_covers:
  assumes "class_matches fqn pattern" "CHR ''*'' \<notin> set fqn"
  shows "jdwp_class_match (fst (jdwp_class_match_for pattern)) fqn
    \<longleftrightarrow> \<not> (\<exists>n>0. pattern = ''*'' @ replicate n CHR ''.'' @ fqn)"
proof (cases pattern)
  case Nil
  then show ?thesis by (simp add: jdwp_class_match_for_def)
next
  case (Cons p ps)
  show ?thesis
  proof (cases "count_list pattern CHR ''*'' = 1 \<and> (p = CHR ''*'' \<or> last pattern = CHR ''*'')")
    case False
    have "count_list (replicate n CHR ''.'' @ fqn) CHR ''*'' = 0" for n
      using assms(2) by (simp add: count_list_0_iff)
    then have "pattern \<noteq> ''*'' @ replicate n CHR ''.'' @ fqn" for n
      using False Cons by auto
    then show ?thesis using False Cons by (auto simp: jdwp_class_match_for_def)
  next
    case True
    then have watch: "fst (jdwp_class_match_for pattern) = pattern" using Cons by (simp add: jdwp_class_match_for_def)
    show ?thesis
    proof (cases "p = CHR ''*''")
      case True
      then have no_star: "CHR ''*'' \<notin> set ps"
        using \<open>count_list pattern _ = 1 \<and> _\<close> Cons by (simp add: count_list_0_iff)
      have jdwp: "jdwp_class_match pattern fqn \<longleftrightarrow> suffix ps fqn"
        using True Cons by (simp add: jdwp_class_match_def strip_prefix_char_def)
      have accepted: "suffix ps fqn \<or> fqn = trim_start_char CHR ''.'' ps"
      proof (cases "ps = []")
        case False
        then have "last pattern \<noteq> CHR ''*''" using no_star Cons by (metis last_ConsR last_in_set)
        then show ?thesis
          using assms(1) True Cons by (simp add: class_matches_def strip_suffix_char_def strip_prefix_char_def)
      qed simp
      have "(\<exists>n>0. ps = replicate n CHR ''.'' @ fqn) \<longleftrightarrow> \<not> suffix ps fqn"
      proof
        assume "\<exists>n>0. ps = replicate n CHR ''.'' @ fqn"
        then have "length fqn < length ps" by auto
        then show "\<not> suffix ps fqn" using suffix_length_le by fastforce
      next
        assume no: "\<not> suffix ps fqn"
        then obtain n where n: "ps = replicate n CHR ''.'' @ fqn"
          using accepted trim_start_dots by metis
        then have "n \<noteq> 0" using no by (metis append_Nil replicate_0 suffix_order.refl)
        then show "\<exists>n>0. ps = replicate n CHR ''.'' @ fqn" using n by auto
      qed
      then show ?thesis unfolding watch jdwp using True Cons by simp
    next
      case False
      then have "last pattern = CHR ''*''" using \<open>count_list pattern _ = 1 \<and> _\<close> by simp
      then have "jdwp_class_match pattern fqn"
        using assms(1) False Cons
        by (simp add: class_matches_def jdwp_class_match_def strip_suffix_char_def strip_prefix_char_def)
      then show ?thesis unfolding watch using False Cons by simp
    qed
  qed
qed

lemma show_hex_no_x: "CHR ''x'' \<notin> set (show_hex n)"
proof (induction n rule: show_hex.induct)
  case (1 n)
  have digit: "CHR ''x'' \<noteq> digit_char m" if "m < 16" for m
  proof -
    have "m \<in> set [0..<16]" using that by simp
    then show ?thesis by (simp add: upt_rec digit_char_def) (elim disjE; simp)
  qed
  show ?case using 1 digit [of n] digit [of "n mod 16"] by (subst show_hex.simps) auto
qed

lemma hex_in_label:
  assumes "\<not> contains named ''0x''"
  shows "contains (named @ ''0x'' @ show_hex n) (''0x'' @ show_hex m) \<longleftrightarrow> prefix (show_hex m) (show_hex n)"
proof
  assume "contains (named @ ''0x'' @ show_hex n) (''0x'' @ show_hex m)"
  then obtain a b where ab: "named @ ''0x'' @ show_hex n = a @ ''0x'' @ show_hex m @ b" by (auto simp: contains_iff)
  then obtain us where "named = a @ us \<and> us @ ''0x'' @ show_hex n = ''0x'' @ show_hex m @ b
      \<or> a = named @ us \<and> ''0x'' @ show_hex n = us @ ''0x'' @ show_hex m @ b"
    by (auto simp: append_eq_append_conv2)
  then show "prefix (show_hex m) (show_hex n)"
  proof (elim disjE conjE)
    assume us: "named = a @ us" "us @ ''0x'' @ show_hex n = ''0x'' @ show_hex m @ b"
    have "\<not> prefix ''0x'' us"
    proof
      assume "prefix ''0x'' us"
      then obtain v where "us = ''0x'' @ v" by (auto simp: prefix_def)
      then have "contains named ''0x''" unfolding contains_iff us(1) by (intro exI [of _ a] exI [of _ v]) simp
      then show False using assms by simp
    qed
    then have "us = []" using us(2) by (cases us; cases "tl us") auto
    then show ?thesis using us(2) by (auto simp: prefix_def)
  next
    assume us: "''0x'' @ show_hex n = us @ ''0x'' @ show_hex m @ b"
    have "us = []"
    proof (rule ccontr)
      assume "us \<noteq> []"
      then have "CHR ''x'' \<in> set (show_hex n)"
        using us by (cases us; cases "tl us") (auto simp: append_eq_Cons_conv dest!: arg_cong [of _ _ set])
      then show False using show_hex_no_x by simp
    qed
    then show ?thesis using us by (auto simp: prefix_def)
  qed
next
  assume "prefix (show_hex m) (show_hex n)"
  then obtain more where "show_hex n = show_hex m @ more" by (auto simp: prefix_def)
  then show "contains (named @ ''0x'' @ show_hex n) (''0x'' @ show_hex m)"
    unfolding contains_iff by (intro exI [of _ named] exI [of _ more]) simp
qed


section \<open>Names there and back\<close>

lemma split_on_nonempty [simp]: "split_on c s \<noteq> []"
  by (induction s) (auto split: list.splits)

lemma split_on_no: "c \<notin> set s \<Longrightarrow> split_on c s = [s]"
  by (induction s) auto

lemma split_on_replace:
  assumes "CHR ''/'' \<notin> set s"
  shows "split_on CHR ''/'' (replace_char CHR ''.'' CHR ''/'' s) = split_on CHR ''.'' s"
  using assms by (induction s) (auto simp: replace_char_def)

lemma split_on_join:
  "(case split_on c s of [] \<Rightarrow> [] | x # xs \<Rightarrow> x @ concat (map (\<lambda>seg. c # seg) xs)) = s"
  by (induction s) (auto split: list.splits)

lemma split_once_none: "c \<notin> set s \<Longrightarrow> split_once c s = None"
proof -
  assume "c \<notin> set s"
  then have "takeWhile (\<lambda>x. x \<noteq> c) s = s" by (induction s) auto
  then show ?thesis unfolding split_once_def Let_def by (metis (no_types, lifting))
qed

text \<open>
  C28: the signature looked up for a dotted class name reads back as that name, for every name none of whose
  parts after the first begins with a digit - which Java names never do - and with no slash in it.
\<close>

theorem class_name_round_trip:
  assumes "CHR ''/'' \<notin> set name" "list_all (\<lambda>part. \<not> starts_with_digit part) (tl (split_on CHR ''.'' name))"
    "\<not> (hd name = CHR ''L'' \<and> last name = CHR '';'')"
  shows "decode_signature (signature_for_dotted name) = name"
proof -
  let ?internal = "replace_char CHR ''.'' CHR ''/'' name"
  have sig: "signature_for_dotted name = CHR ''L'' # ?internal @ '';''"
    using assms(3) unfolding signature_for_dotted_def by auto
  have no_dot: "CHR ''.'' \<notin> set ?internal" by (auto simp: replace_char_def)
  obtain part parts where parts: "split_on CHR ''.'' name = part # parts"
    by (cases "split_on CHR ''.'' name") auto
  have "map (\<lambda>seg. (if starts_with_digit seg then CHR ''/'' else CHR ''.'') # seg) parts
      = map (\<lambda>seg. CHR ''.'' # seg) parts"
    using assms(2) by (auto simp: parts list_all_iff)
  then have "decode_internal_name ?internal = name"
    using split_on_join [of "CHR ''.''" name]
    unfolding decode_internal_name_def split_once_none [OF no_dot] split_on_replace [OF assms(1)] parts
    by (simp only: option.case list.case)
  then show ?thesis by (simp add: sig decode_signature_def butlast_append)
qed

section \<open>Instances\<close>

theorem family_watch_covers_witness:
  "class_matches ''Order'' ''*.Order'' \<and> \<not> jdwp_class_match (fst (jdwp_class_match_for ''*.Order'')) ''Order''"
proof -
  have matches: "class_matches ''Order'' ''*.Order''"
    by (simp add: class_matches_def strip_suffix_char_def strip_prefix_char_def trim_start_char_def)
  have "''*.Order'' = ''*'' @ replicate 1 CHR ''.'' @ ''Order''" by simp
  then have "\<exists>n>0. ''*.Order'' = ''*'' @ replicate n CHR ''.'' @ ''Order''" by blast
  then show ?thesis using matches family_watch_covers [OF matches] by simp
qed


theorem class_name_round_trip_witness:
  "decode_signature (signature_for_dotted ''com.example.Order$Line'') = ''com.example.Order$Line''"
  by (rule class_name_round_trip) (simp_all add: starts_with_digit_def is_digit_def)

end
