(* ===== verification/StopPointOps.thy ===== *)
theory StopPointOps
  imports SessionState Client ClassNames
begin

text \<open>
  \<open>mcp-server/src/handlers.rs\<close>: operations on a session's stop points - reading an event, finding the stop
  point that owns a request, clearing, disarming and disabling one, the wildcard family it belongs to, and
  clearing everything. They run on the session and its connection.
\<close>

section \<open>Session operations\<close>

type_synonym 'a session_op = "debug_session \<Rightarrow> 'a \<times> debug_session"

definition on_conn :: "(conn \<Rightarrow> 'a \<times> conn) \<Rightarrow> 'a session_op" where
  "on_conn f s = (case f (ds_connection s) of (a, c) \<Rightarrow> (a, s\<lparr>ds_connection := c\<rparr>))"

definition on_state :: "(session_state \<Rightarrow> session_state) \<Rightarrow> debug_session \<Rightarrow> debug_session" where
  "on_state f s = s\<lparr>ds_state := f (ds_state s)\<rparr>"

definition ok_of :: "'e + 'a \<Rightarrow> 'a option" where
  "ok_of r = (case r of Inl _ \<Rightarrow> None | Inr a \<Rightarrow> Some a)"

section \<open>Events\<close>

fun event_location :: "event_kind \<Rightarrow> (u64 \<times> location) option" where
  "event_location (Ev_Breakpoint t l) = Some (t, l)"
| "event_location (Ev_Step t l) = Some (t, l)"
| "event_location (Ev_MethodExit t l _) = Some (t, l)"
| "event_location (Ev_Exception t l _ _) = Some (t, l)"
| "event_location (Ev_FieldAccess f) = Some (fe_thread f, fe_location f)"
| "event_location (Ev_FieldModification f _) = Some (fe_thread f, fe_location f)"
| "event_location (Ev_MonitorContendedEnter m) = Some (me_thread m, me_location m)"
| "event_location (Ev_MonitorContendedEntered m) = Some (me_thread m, me_location m)"
| "event_location (Ev_MonitorWait m _) = Some (me_thread m, me_location m)"
| "event_location (Ev_MonitorWaited m _) = Some (me_thread m, me_location m)"
| "event_location _ = None"

fun monitor_of :: "event_kind \<Rightarrow> (monitor_event \<times> monitor_kind) option" where
  "monitor_of (Ev_MonitorContendedEnter m) = Some (m, MK_Blocked)"
| "monitor_of (Ev_MonitorContendedEntered m) = Some (m, MK_Acquired)"
| "monitor_of (Ev_MonitorWait m _) = Some (m, MK_Wait)"
| "monitor_of (Ev_MonitorWaited m _) = Some (m, MK_Waited)"
| "monitor_of _ = None"

definition event_thread :: "event_set \<Rightarrow> u64 option" where
  "event_thread es =
     (case es_events es of [] \<Rightarrow> None | e # _ \<Rightarrow> map_option fst (event_location (ev_details e)))"

definition event_suspends :: "event_set \<Rightarrow> bool" where
  "event_suspends es =
     (es_suspend_policy es \<noteq> 0 \<and> list_ex (\<lambda>e. event_location (ev_details e) \<noteq> None) (es_events es))"

fun exception_instance :: "event_kind \<Rightarrow> u64 option" where
  "exception_instance (Ev_Exception _ _ x _) = Some x"
| "exception_instance _ = None"

record condition_bindings =
  cb_exception :: "u64 option"
  cb_new_value :: "tagged_value option"

fun condition_bindings_of :: "event_kind \<Rightarrow> condition_bindings" where
  "condition_bindings_of (Ev_Exception _ _ x _) = \<lparr>cb_exception = Some x, cb_new_value = None\<rparr>"
| "condition_bindings_of (Ev_FieldModification _ v) = \<lparr>cb_exception = None, cb_new_value = Some v\<rparr>"
| "condition_bindings_of _ = \<lparr>cb_exception = None, cb_new_value = None\<rparr>"

definition bindings_default :: condition_bindings where
  "bindings_default = \<lparr>cb_exception = None, cb_new_value = None\<rparr>"

section \<open>Stop points by request id\<close>

fun modify_first :: "('v \<Rightarrow> bool) \<Rightarrow> ('v \<Rightarrow> 'v) \<Rightarrow> ('k \<times> 'v) list \<Rightarrow> ('k \<times> 'v) list" where
  "modify_first P f [] = []"
| "modify_first P f ((k, v) # m) = (if P v then (k, f v) # m else (k, v) # modify_first P f m)"

definition owner_of :: "u32 \<Rightarrow> session_state \<Rightarrow> stop_point option" where
  "owner_of req st = find (owns_request req) (stop_point_values st)"

definition modify_owner :: "u32 \<Rightarrow> (stop_point \<Rightarrow> stop_point) \<Rightarrow> session_state \<Rightarrow> session_state" where
  "modify_owner req f st = st\<lparr>ss_stop_points := modify_first (owns_request req) f (ss_stop_points st)\<rparr>"

definition modify_stop_point :: "string \<Rightarrow> (stop_point \<Rightarrow> stop_point) \<Rightarrow> session_state \<Rightarrow> session_state" where
  "modify_stop_point i f st =
     (case hm_get i (ss_stop_points st) of
        None \<Rightarrow> st
      | Some sp \<Rightarrow> st\<lparr>ss_stop_points := hm_put i (f sp) (ss_stop_points st)\<rparr>)"

record monitor_trace_spec =
  mts_pair :: monitor_pair
  mts_opening :: bool
  mts_paired :: bool
  mts_min_duration_ms :: "u64 option"

record traced_request =
  tq_id :: string
  tq_condition :: "string option"
  tq_trace_expr :: "string list"
  tq_trace_frames :: nat
  tq_trace_max_length :: "nat option"
  tq_method_filter :: "string option"
  tq_monitor :: "monitor_trace_spec option"

definition monitor_spec_of :: "monitor_stop \<Rightarrow> monitor_trace_spec" where
  "monitor_spec_of mon =
     (let (pair, opening) = pair_of (ms_kind mon)
      in \<lparr>mts_pair = pair, mts_opening = opening, mts_paired = ms_paired mon,
          mts_min_duration_ms = ms_min_duration_ms mon\<rparr>)"

definition find_traced_request :: "u32 \<Rightarrow> session_state \<Rightarrow> traced_request option" where
  "find_traced_request req st =
     map_option (\<lambda>sp. \<lparr>tq_id = sp_id sp, tq_condition = sp_condition sp, tq_trace_expr = sp_trace_expr sp,
         tq_trace_frames = sp_trace_frames sp, tq_trace_max_length = sp_trace_max_length sp,
         tq_method_filter = Option.bind (sp_method_exit sp) me_method,
         tq_monitor = map_option monitor_spec_of (sp_monitor sp)\<rparr>)
       (find (\<lambda>sp. owns_request req sp \<and> sp_trace sp) (stop_point_values st))"

definition record_stop_point_hit :: "u32 \<Rightarrow> session_state \<Rightarrow> session_state" where
  "record_stop_point_hit req = modify_owner req (\<lambda>sp. sp\<lparr>sp_hits := saturating_inc (sp_hits sp)\<rparr>)"

definition record_discarded_exit :: "u32 \<Rightarrow> session_state \<Rightarrow> session_state" where
  "record_discarded_exit req =
     modify_owner req (\<lambda>sp. case sp_armed_on sp of
         On_method_exit me \<Rightarrow> sp\<lparr>sp_armed_on := On_method_exit (me\<lparr>me_discarded := saturating_inc (me_discarded me)\<rparr>)\<rparr>
       | _ \<Rightarrow> sp)"

definition record_trace_cost :: "u32 \<Rightarrow> instant \<Rightarrow> duration \<Rightarrow> session_state \<Rightarrow> session_state" where
  "record_trace_cost req started took =
     modify_owner req (\<lambda>sp. sp\<lparr>sp_trace_cost := record_cost started took (sp_trace_cost sp)\<rparr>)"

definition decrement_trace_budget :: "u32 \<Rightarrow> session_state \<Rightarrow> u32 option \<times> session_state" where
  "decrement_trace_budget req st =
     (case owner_of req st of
        None \<Rightarrow> (None, st)
      | Some sp \<Rightarrow>
          (case sp_trace_budget sp of
             None \<Rightarrow> (None, st)
           | Some b \<Rightarrow> (let n = saturating_dec b
                       in (Some n, modify_owner req (\<lambda>sp. sp\<lparr>sp_trace_budget := Some n\<rparr>) st))))"

definition suspending_condition :: "u32 \<Rightarrow> session_state \<Rightarrow> string option" where
  "suspending_condition req st = Option.bind (owner_of req st) sp_condition"

definition note_traced_in_flight :: "bool \<Rightarrow> u32 list \<Rightarrow> session_state \<Rightarrow> session_state" where
  "note_traced_in_flight traced reqs st = (if traced then fold note_disarmed_traced reqs st else st)"

definition note_every_traced_request_in_flight :: "session_state \<Rightarrow> session_state" where
  "note_every_traced_request_in_flight st =
     fold note_disarmed_traced (concat (map sp_request_ids (filter sp_trace (stop_point_values st)))) st"

section \<open>Clearing requests\<close>

fun clear_one_request :: "debuggee \<Rightarrow> armed_on \<Rightarrow> u32 \<Rightarrow> unit conn_op" where
  "clear_one_request d (On_line _) req = clear_breakpoint d req"
| "clear_one_request d (On_exception _) req = clear_exception_request d req"
| "clear_one_request d (On_watchpoint w) req = clear_field_watch d req (wp_kind w)"
| "clear_one_request d (On_method_exit m) req = clear_method_exit_request d req (me_with_return_value m)"
| "clear_one_request d (On_monitor m) req = clear_monitor_request d req (ms_kind m)"

primrec clear_requests :: "debuggee \<Rightarrow> armed_on \<Rightarrow> u32 list \<Rightarrow> unit conn_op" where
  "clear_requests d on [] = creturn ()"
| "clear_requests d on (r # rs) = cbind (clear_one_request d on r) (\<lambda>_. clear_requests d on rs)"

definition clear_stop_point_requests :: "debuggee \<Rightarrow> stop_point \<Rightarrow> unit conn_op" where
  "clear_stop_point_requests d sp = clear_requests d (sp_armed_on sp) (sp_request_ids sp)"

text \<open>A list of commands whose results are ignored.\<close>

primrec send_all :: "unit conn_op list \<Rightarrow> conn \<Rightarrow> conn" where
  "send_all [] c = c"
| "send_all (op # ops) c = send_all ops (snd (op c))"

record disarmed =
  dis_id :: string
  dis_description :: string

definition retire :: "stop_point \<Rightarrow> stop_point" where
  "retire sp = sp\<lparr>sp_request_ids := [], sp_enabled := False\<rparr>"

definition disarm_request :: "debuggee \<Rightarrow> u32 \<Rightarrow> disarmed option session_op" where
  "disarm_request d req s =
     (let s1 = (if find_traced_request req (ds_state s) \<noteq> None then on_state (note_disarmed_traced req) s else s)
      in case owner_of req (ds_state s1) of
           None \<Rightarrow> (None, s1)
         | Some sp \<Rightarrow>
             (let (_, s2) = on_conn (clear_stop_point_requests d sp) s1;
                  s3 = on_state (modify_stop_point (sp_id sp) retire) s2
              in (Some \<lparr>dis_id = sp_id sp, dis_description = describe_for_rescue sp\<rparr>, s3)))"

definition disable_stop_point :: "debuggee \<Rightarrow> string \<Rightarrow> (string + string) session_op" where
  "disable_stop_point d i s =
     (case hm_get i (ss_stop_points (ds_state s)) of
        None \<Rightarrow> (Inl (''Stop point not found: '' @ i), s)
      | Some sp \<Rightarrow>
          (case on_conn (clear_stop_point_requests d sp) s of
             (Inl e, s1) \<Rightarrow>
               (Inl (''Failed to clear '' @ wire_noun (sp_armed_on sp) @ '': '' @ show_jdwp_error e), s1)
           | (Inr _, s1) \<Rightarrow>
               (Inr (describe_armed_on (sp_armed_on sp)), on_state (modify_stop_point i retire) s1)))"

definition spend_if_counted :: "debuggee \<Rightarrow> u32 \<Rightarrow> debug_session \<Rightarrow> debug_session" where
  "spend_if_counted d req s =
     (case owner_of req (ds_state s) of
        None \<Rightarrow> s
      | Some sp \<Rightarrow>
          if sp_hit_count sp = None then s
          else
            (let survivors = filter (\<lambda>r. r \<noteq> req) (sp_request_ids sp);
                 s1 = on_state (modify_owner req (\<lambda>sp. (retire sp)\<lparr>sp_spent := True\<rparr>)) s;
                 s2 = on_state (note_traced_in_flight (sp_trace sp) survivors) s1
             in s2\<lparr>ds_connection := send_all (map (clear_breakpoint d) survivors) (ds_connection s2)\<rparr>))"

section \<open>Wildcard families\<close>

definition modify_set :: "string \<Rightarrow> (pattern_stop_set \<Rightarrow> pattern_stop_set) \<Rightarrow> debug_session \<Rightarrow> debug_session" where
  "modify_set i f s =
     (case hm_get i (ds_pattern_sets s) of
        None \<Rightarrow> s
      | Some ps \<Rightarrow> s\<lparr>ds_pattern_sets := hm_put i (f ps) (ds_pattern_sets s)\<rparr>)"

definition park_family_watch_if_full :: "debuggee \<Rightarrow> string \<Rightarrow> debug_session \<Rightarrow> debug_session" where
  "park_family_watch_if_full d set_id s =
     (case hm_get set_id (ds_pattern_sets s) of
        None \<Rightarrow> s
      | Some ps \<Rightarrow>
          if has_room ps then s
          else (case watch_request_id (ps_watch ps) of
              None \<Rightarrow> s
            | Some req \<Rightarrow>
                (case on_conn (clear_class_prepare d req) s of
                   (Inl _, s1) \<Rightarrow> s1
                 | (Inr _, s1) \<Rightarrow> modify_set set_id (\<lambda>f. f\<lparr>ps_watch := Watch_parked\<rparr>) s1)))"

definition unpark_family_watch :: "debuggee \<Rightarrow> string \<Rightarrow> bool session_op" where
  "unpark_family_watch d set_id s =
     (case hm_get set_id (ds_pattern_sets s) of
        None \<Rightarrow> (False, s)
      | Some ps \<Rightarrow>
          if ps_watch ps \<noteq> Watch_parked \<or> \<not> ps_enabled ps \<or> \<not> has_room ps then (False, s)
          else
            (let (r, s1) = on_conn (set_class_prepare d (fst (jdwp_class_match_for (ps_class_pattern ps))) SP_EventThread) s;
                 state = (case r of Inr req \<Rightarrow> Watch_watching req | Inl _ \<Rightarrow> Watch_failed)
             in (is_watching state, modify_set set_id (\<lambda>f. f\<lparr>ps_watch := state\<rparr>) s1)))"

fun unpark_all :: "debuggee \<Rightarrow> string list \<Rightarrow> string list session_op" where
  "unpark_all d [] s = ([], s)"
| "unpark_all d (i # is) s =
     (let (again, s1) = unpark_family_watch d i s; (rest, s2) = unpark_all d is s1
      in (if again then i # rest else rest, s2))"

definition release_family_slot :: "debuggee \<Rightarrow> string \<Rightarrow> string session_op" where
  "release_family_slot d bp_id s =
     (let freed = map (ps_id \<circ> snd) (filter (\<lambda>(_, f). bp_id \<in> set (ps_members f)) (ds_pattern_sets s));
          s1 = s\<lparr>ds_pattern_sets := map (\<lambda>(k, f). (k, f\<lparr>ps_members := filter (\<lambda>m. m \<noteq> bp_id) (ps_members f)\<rparr>))
                 (ds_pattern_sets s)\<rparr>;
          (again, s2) = unpark_all d freed s1
      in (if again = [] then []
          else [CHR 0x0A] @ ''   '' @ uni 0x2139 @ uni 0xFE0F @ ''  That freed a slot in '' @ join '', '' again
            @ '', which was full and had stopped watching for new classes '' @ uni 0x2014
            @ '' it is watching again, so a matching class loading now WILL be armed.'', s2))"

primrec clear_members :: "debuggee \<Rightarrow> string list \<Rightarrow> nat session_op" where
  "clear_members d [] s = (0, s)"
| "clear_members d (m # ms) s =
     (case hm_get m (ss_stop_points (ds_state s)) of
        None \<Rightarrow> clear_members d ms s
      | Some sp \<Rightarrow>
          (let s1 = on_state (\<lambda>st. st\<lparr>ss_stop_points := hm_del m (ss_stop_points st)\<rparr>) s;
               s2 = on_state (note_traced_in_flight (sp_trace sp) (sp_request_ids sp)) s1;
               (_, s3) = on_conn (clear_stop_point_requests d sp) s2;
               (n, s4) = clear_members d ms s3
           in (n + 1, s4)))"

definition clear_pattern_family :: "debuggee \<Rightarrow> string \<Rightarrow> pattern_stop_set \<Rightarrow> string session_op" where
  "clear_pattern_family d set_id ps s =
     (let s1 = (case watch_request_id (ps_watch ps) of
            None \<Rightarrow> s | Some req \<Rightarrow> snd (on_conn (clear_class_prepare d req) s));
          (cleared, s2) = clear_members d (ps_members ps) s1;
          already = length (ps_members ps) - cleared
      in (uni 0x2705 @ '' Breakpoint family cleared: '' @ set_id @ '' ('' @ ps_class_pattern ps @ '') '' @ uni 0x2014
          @ '' '' @ show_nat cleared @ '' breakpoint(s), plus its watch for matching classes that load later.''
          @ (if 0 < already then '' ('' @ show_nat already @ '' had already been cleared by their own id.)'' else []), s2))"

section \<open>Clearing one stop point\<close>

definition clear_line_breakpoint :: "debuggee \<Rightarrow> stop_point \<Rightarrow> line_breakpoint \<Rightarrow> string session_op" where
  "clear_line_breakpoint d sp bp s =
     (let s1 = (case rearm_watch_of (lb_rearm bp) of
            None \<Rightarrow> s | Some w \<Rightarrow> snd (on_conn (clear_class_prepare d (rw_request_id w)) s));
          (family_note, s2) = release_family_slot d (sp_id sp) s1
      in (uni 0x2705 @ '' Breakpoint cleared: '' @ sp_id sp @ '' at '' @ lb_class_pattern bp @ '':''
          @ show_nat (unat (lb_line bp)) @ [CHR 0x0A] @ ''   JDWP Request ID: ''
          @ (if sp_request_ids sp = [] then (if sp_spent sp then ''(spent)'' else ''(disabled)'')
             else join '', '' (map (\<lambda>r. show_int (sint r)) (sp_request_ids sp)))
          @ family_note @ clear_note sp, s2))"

definition clear_monitor_stop :: "stop_point \<Rightarrow> monitor_stop \<Rightarrow> string session_op" where
  "clear_monitor_stop sp mon s =
     (let s1 = s\<lparr>ds_monitor_clock := forget_pair (fst (pair_of (ms_kind mon))) (ds_monitor_clock s)\<rparr>;
          widowed = find (\<lambda>(_, m). ms_kind m = partner (ms_kind mon))
            (List.map_filter (\<lambda>p. map_option (Pair p) (sp_monitor p)) (stop_point_values (ds_state s1)))
      in (uni 0x2705 @ '' Monitor reporting cleared: '' @ sp_id sp @ '' ('' @ monitor_label (ms_kind mon) @ '')'' @ clear_note sp
          @ (case widowed of
               None \<Rightarrow> []
             | Some (p, m) \<Rightarrow>
                 [CHR 0x0A] @ ''   '' @ uni 0x26A0 @ ''  '' @ sp_id p @ '' ('' @ [CHR 0x27] @ monitor_label (partner (ms_kind mon))
                 @ [CHR 0x27] @ '') is still armed and has lost its pair, so its snapshots can no longer carry a duration ''
                 @ uni 0x2014 @ '' a duration is measured across both events.''
                 @ (case ms_min_duration_ms m of
                      None \<Rightarrow> []
                    | Some ms \<Rightarrow> [CHR 0x0A] @ ''   '' @ uni 0x26A0 @ ''  It also has min_duration_ms: '' @ show_nat (unat ms)
                        @ '', which it can no longer evaluate, so it will now record NOTHING. Clear it too, or re-arm the pair.'')),
          s1))"

definition clear_one_stop_point :: "debuggee \<Rightarrow> stop_point \<Rightarrow> (string + string) session_op" where
  "clear_one_stop_point d sp s =
     (let s1 = on_state (note_traced_in_flight (sp_trace sp) (sp_request_ids sp)) s;
          (sent, s2) = on_conn (clear_stop_point_requests d sp) s1;
          cleared = (\<lambda>what. uni 0x2705 @ what @ clear_note sp)
      in case sp_armed_on sp of
           On_line bp \<Rightarrow>
             (case sent of
                Inl e \<Rightarrow> (Inl (''Failed to clear breakpoint: '' @ show_jdwp_error e), s2)
              | Inr _ \<Rightarrow> (let (reply, s3) = clear_line_breakpoint d sp bp s2 in (Inr reply, s3)))
         | On_exception er \<Rightarrow>
             (Inr (cleared ('' Exception breakpoint cleared: '' @ sp_id sp @ '' ('' @ xb_class_pattern er @ '')'')), s2)
         | On_watchpoint wp \<Rightarrow>
             (Inr (cleared ('' Watchpoint cleared: '' @ sp_id sp @ '' ('' @ wp_class_name wp @ ''.'' @ wp_field_name wp
                @ '' '' @ watch_label (wp_kind wp) @ '')'')), s2)
         | On_method_exit me \<Rightarrow>
             (Inr (cleared ('' Method-exit reporting cleared: '' @ sp_id sp @ '' ('' @ me_class_pattern me
                @ (case me_method me of None \<Rightarrow> ''.*'' | Some m \<Rightarrow> ''.'' @ m) @ '')'')), s2)
         | On_monitor mon \<Rightarrow> (let (reply, s3) = clear_monitor_stop sp mon s2 in (Inr reply, s3)))"

text \<open>\<open>debug.clear_stop_point\<close>: a family, a deferred breakpoint or an armed stop point, by its id.\<close>

definition handle_clear_stop_point :: "debuggee \<Rightarrow> string \<Rightarrow> (string + string) session_op" where
  "handle_clear_stop_point d bp_id s =
     (case hm_get bp_id (ds_pattern_sets s) of
        Some ps \<Rightarrow>
          (let (reply, s1) = clear_pattern_family d bp_id ps (s\<lparr>ds_pattern_sets := hm_del bp_id (ds_pattern_sets s)\<rparr>)
           in (Inr reply, s1))
      | None \<Rightarrow>
          (case find (\<lambda>p. pb_bp_id p = bp_id) (ss_pending (ds_state s)) of
             Some pb \<Rightarrow>
               (let s1 = on_state (\<lambda>st. st\<lparr>ss_pending := remove1 pb (ss_pending st)\<rparr>) s;
                    (_, s2) = on_conn (clear_class_prepare d (pb_class_prepare_request_id pb)) s1
                in (Inr (uni 0x2705 @ '' Deferred breakpoint cleared: '' @ bp_id @ '' ('' @ pb_class_pattern pb @ '')''), s2))
           | None \<Rightarrow>
               (case hm_get bp_id (ss_stop_points (ds_state s)) of
                  None \<Rightarrow> (Inl (''Breakpoint not found: '' @ bp_id), s)
                | Some sp \<Rightarrow>
                    (case clear_one_stop_point d sp s of
                       (Inl e, s1) \<Rightarrow> (Inl e, s1)
                     | (Inr reply, s1) \<Rightarrow>
                         (Inr reply, on_state (\<lambda>st. st\<lparr>ss_stop_points := hm_del bp_id (ss_stop_points st)\<rparr>) s1)))))"

section \<open>Clearing everything\<close>

definition standing_watches :: "session_state \<Rightarrow> u32 list" where
  "standing_watches st =
     List.map_filter (\<lambda>sp. Option.bind (sp_line sp) (\<lambda>b. map_option rw_request_id (rearm_watch_of (lb_rearm b))))
       (stop_point_values st)"

definition send_each_of :: "unit conn_op list \<Rightarrow> debug_session \<Rightarrow> debug_session" where
  "send_each_of ops s = s\<lparr>ds_connection := send_all ops (ds_connection s)\<rparr>"

definition clear_standing_rearm_watches :: "debuggee \<Rightarrow> debug_session \<Rightarrow> debug_session" where
  "clear_standing_rearm_watches d s = send_each_of (map (clear_class_prepare d) (standing_watches (ds_state s))) s"

definition disarm_everything :: "debuggee \<Rightarrow> debug_session \<Rightarrow> debug_session" where
  "disarm_everything d s =
     (let s1 = on_state note_every_traced_request_in_flight s;
          s2 = send_each_of [clear_all_breakpoints d] s1;
          s3 = clear_standing_rearm_watches d s2;
          pend = map pb_class_prepare_request_id (ss_pending (ds_state s3));
          s4 = send_each_of (map (clear_class_prepare d) pend) (on_state (\<lambda>st. st\<lparr>ss_pending := []\<rparr>) s3);
          sets = List.map_filter (watch_request_id \<circ> ps_watch \<circ> snd) (ds_pattern_sets s4);
          s5 = send_each_of (map (clear_class_prepare d) sets) (s4\<lparr>ds_pattern_sets := []\<rparr>);
          survivors = filter (\<lambda>sp. sp_kind sp \<noteq> SK_Line) (stop_point_values (ds_state s5));
          s6 = send_each_of (map (clear_stop_point_requests d) survivors) (on_state (\<lambda>st. st\<lparr>ss_stop_points := []\<rparr>) s5)
      in s6\<lparr>ds_monitor_clock := clock_clear (ds_monitor_clock s6)\<rparr>)"

end
