(* ===== verification/Arming.thy ===== *)
theory Arming
  imports StopPointOps
begin

text \<open>
  \<open>mcp-server/src/handlers.rs\<close>: arming a line stop point - finding the bytecode locations of a line, arming
  every copy, deferring until the class loads, the standing watch for copies loaded later, the members of a
  wildcard family - and re-arming a disabled stop point from its stored definition.

  What the build on disk says about a method is a parameter, as the class files are: the staleness verdict of
  an armed method and whether the build declares a method, both from the session's class roots.
\<close>

datatype build_verdict = Build_declares string | Build_absent string | Build_not_checked string

record arm_env =
  ae_debuggee :: debuggee
  ae_drift :: "string list \<Rightarrow> string \<Rightarrow> method_info \<Rightarrow> (u64 \<times> u32) list \<Rightarrow> drift_check"
  ae_build :: "string list \<Rightarrow> string \<Rightarrow> string \<Rightarrow> build_verdict"

section \<open>Finding a location\<close>

record resolved_location =
  rl_method :: method_info
  rl_code_index :: u64
  rl_extra_code_indices :: "u64 list"
  rl_line :: u32
  rl_lines :: "(u64 \<times> u32) list"

datatype bp_location_error = No_such_method string | No_such_line u32 | Unreadable string

fun show_bp_location_error :: "bp_location_error \<Rightarrow> string" where
  "show_bp_location_error (No_such_method m) = ''Method '' @ [CHR 0x27] @ m @ [CHR 0x27] @ '' not found''"
| "show_bp_location_error (No_such_line l) = ''No method contains line '' @ show_int (sint l)"
| "show_bp_location_error (Unreadable e) = e"

datatype arm_error = Arm_no_such_method string | Arm_other string

definition arm_error_of :: "bp_location_error \<Rightarrow> string \<Rightarrow> arm_error" where
  "arm_error_of e class =
     (let msg = show_bp_location_error e @ '' in '' @ class
      in case e of No_such_method _ \<Rightarrow> Arm_no_such_method msg | _ \<Rightarrow> Arm_other msg)"

fun arm_error_message :: "arm_error \<Rightarrow> string" where
  "arm_error_message (Arm_no_such_method m) = m"
| "arm_error_message (Arm_other m) = m"

definition locations_in_method :: "line_table \<Rightarrow> u32 option \<Rightarrow> string option \<Rightarrow> (u64 \<times> u64 list \<times> u32) option" where
  "locations_in_method lt line_opt method_hint =
     (let first = map_option (\<lambda>e. (lte_line_code_index e, [], lte_line_number e)) (min_by_key lte_line_code_index (lt_lines lt)) in
      case line_opt of
        None \<Rightarrow> first
      | Some want \<Rightarrow>
          (case sort (map lte_line_code_index (filter (\<lambda>e. lte_line_number e = want) (lt_lines lt))) of
             i # rest \<Rightarrow> Some (i, rest, want)
           | [] \<Rightarrow> if method_hint \<noteq> None then first else None))"

fun scan_methods ::
  "debuggee \<Rightarrow> u64 \<Rightarrow> u32 option \<Rightarrow> string option \<Rightarrow> method_info list \<Rightarrow> conn \<Rightarrow> resolved_location option \<times> conn" where
  "scan_methods d cid line_opt hint [] c = (None, c)"
| "scan_methods d cid line_opt hint (m # ms) c =
     (if hint \<noteq> None \<and> hint \<noteq> Some (mi_name m) then scan_methods d cid line_opt hint ms c
      else (case get_line_table d cid (mi_method_id m) c of
          (Inl _, c1) \<Rightarrow> scan_methods d cid line_opt hint ms c1
        | (Inr lt, c1) \<Rightarrow>
            (case locations_in_method lt line_opt hint of
               Some (i, extra, line) \<Rightarrow>
                 (Some \<lparr>rl_method = m, rl_code_index = i, rl_extra_code_indices = extra, rl_line = line,
                    rl_lines = map (\<lambda>e. (lte_line_code_index e, lte_line_number e)) (lt_lines lt)\<rparr>, c1)
             | None \<Rightarrow> scan_methods d cid line_opt hint ms c1)))"

definition resolve_bp_location ::
  "debuggee \<Rightarrow> u64 \<Rightarrow> u32 option \<Rightarrow> string option \<Rightarrow> conn \<Rightarrow> (bp_location_error + resolved_location) \<times> conn" where
  "resolve_bp_location d cid line_opt hint c =
     (case get_methods d cid c of
        (Inl e, c1) \<Rightarrow> (Inl (Unreadable (''Failed to get methods: '' @ show_jdwp_error e)), c1)
      | (Inr ms, c1) \<Rightarrow>
          (case scan_methods d cid line_opt hint ms c1 of
             (Some loc, c2) \<Rightarrow> (Inr loc, c2)
           | (None, c2) \<Rightarrow>
               (Inl (case line_opt of
                    None \<Rightarrow> No_such_method (case hint of None \<Rightarrow> [] | Some m \<Rightarrow> m)
                  | Some l \<Rightarrow> No_such_line l), c2)))"

section \<open>Arming every copy\<close>

record extra_line_copies =
  xl_request_ids :: "u32 list"
  xl_armed :: "armed_location list"
  xl_refused :: "string list"

fun arm_locations ::
  "debuggee \<Rightarrow> suspend_policy \<Rightarrow> event_filters \<Rightarrow> armed_location list \<Rightarrow> conn \<Rightarrow> extra_line_copies \<times> conn" where
  "arm_locations d sp fl [] c = (\<lparr>xl_request_ids = [], xl_armed = [], xl_refused = []\<rparr>, c)"
| "arm_locations d sp fl (l # ls) c =
     (let (r, c1) = set_breakpoint_ex d (al_class_id l) (al_method_id l) (al_bytecode_index l) sp fl c;
          (out, c2) = arm_locations d sp fl ls c1
      in (case r of
            Inr req \<Rightarrow> out\<lparr>xl_request_ids := req # xl_request_ids out, xl_armed := l # xl_armed out\<rparr>
          | Inl e \<Rightarrow> out\<lparr>xl_refused := (''class 0x'' @ show_hex (unat (al_class_id l)) @ '' bytecode index ''
                @ show_nat (unat (al_bytecode_index l)) @ '': '' @ show_jdwp_error e) # xl_refused out\<rparr>, c2))"

definition arm_extra_line_locations ::
  "debuggee \<Rightarrow> breakpoint_arm \<Rightarrow> event_filters \<Rightarrow> conn \<Rightarrow> extra_line_copies \<times> conn" where
  "arm_extra_line_locations d arm fl = arm_locations d (ba_suspend_policy arm) fl (ba_extra_locations arm)"

definition locations_at :: "u64 \<Rightarrow> u64 \<Rightarrow> u64 list \<Rightarrow> armed_location list" where
  "locations_at cid mid indices =
     map (\<lambda>i. \<lparr>al_class_id = cid, al_method_id = mid, al_bytecode_index = i\<rparr>) indices"

definition stop_filters :: "stop_point \<Rightarrow> event_filters" where
  "stop_filters sp = \<lparr>ef_count = sp_hit_count sp, ef_thread = sp_thread_filter sp, ef_instance = sp_instance_filter sp\<rparr>"

text \<open>\<open>u32::try_from\<close> of a signed line, and back.\<close>

definition u32_or_zero :: "u32 \<Rightarrow> u32" where
  "u32_or_zero l = (if sint l < 0 then 0 else l)"

definition i32_of_u32 :: "u32 \<Rightarrow> u32 option" where
  "i32_of_u32 l = (if unat l < 2 ^ 31 then Some l else None)"

definition i32_or_zero :: "u32 \<Rightarrow> u32" where
  "i32_or_zero l = (if unat l < 2 ^ 31 then l else 0)"

record breakpoint_spec =
  bs_instance_filter :: "u64 option"
  bs_class_pattern :: string
  bs_signature :: string
  bs_line_opt :: "u32 option"
  bs_method_hint :: "string option"
  bs_hit_count :: "u32 option"
  bs_thread_filter :: "u64 option"
  bs_condition :: "string option"
  bs_trace :: bool
  bs_trace_expr :: "string list"
  bs_trace_budget :: "u32 option"
  bs_trace_frames :: nat
  bs_trace_max_length :: "nat option"
  bs_suspend_policy :: suspend_policy

definition for_pattern :: "breakpoint_spec \<Rightarrow> string \<Rightarrow> breakpoint_spec" where
  "for_pattern spec pattern = spec\<lparr>bs_class_pattern := pattern, bs_signature := signature_for_dotted pattern\<rparr>"

definition spec_from_pattern_set :: "pattern_stop_set \<Rightarrow> string \<Rightarrow> string \<Rightarrow> breakpoint_spec" where
  "spec_from_pattern_set ps fqn signature =
     \<lparr>bs_instance_filter = ps_instance_filter ps, bs_class_pattern = fqn, bs_signature = signature, bs_line_opt = None,
      bs_method_hint = ps_method ps, bs_hit_count = ps_hit_count ps, bs_thread_filter = ps_thread_filter ps,
      bs_condition = ps_condition ps, bs_trace = ps_trace ps, bs_trace_expr = ps_trace_expr ps,
      bs_trace_budget = ps_trace_budget ps, bs_trace_frames = ps_trace_frames ps,
      bs_trace_max_length = ps_trace_max_length ps,
      bs_suspend_policy = suspend_policy_for_line (ps_trace ps) (ps_condition ps \<noteq> None)\<rparr>"

definition spec_filters :: "breakpoint_spec \<Rightarrow> event_filters" where
  "spec_filters spec = \<lparr>ef_count = bs_hit_count spec, ef_thread = bs_thread_filter spec, ef_instance = bs_instance_filter spec\<rparr>"

record rearm_plan =
  rp_watch :: rearm_state
  rp_refusal :: "string option"

definition family_member :: rearm_plan where
  "family_member = \<lparr>rp_watch = Rearm_covered_by_family, rp_refusal = None\<rparr>"

definition later_copies_default :: later_copies where
  "later_copies_default = \<lparr>lc_copies = 0, lc_lines = [], lc_misses = 0, lc_miss = None\<rparr>"

definition plan_watching :: "u32 \<Rightarrow> breakpoint_spec \<Rightarrow> rearm_plan" where
  "plan_watching req spec =
     \<lparr>rp_watch = Rearm_watching \<lparr>rw_request_id = req, rw_signature = bs_signature spec, rw_later = later_copies_default,
        rw_line = bs_line_opt spec, rw_method = bs_method_hint spec\<rparr>, rp_refusal = None\<rparr>"

definition handover_watch :: "pending_breakpoint \<Rightarrow> rearm_watch" where
  "handover_watch p = \<lparr>rw_request_id = pb_class_prepare_request_id p, rw_signature = pb_signature p,
     rw_later = later_copies_default, rw_line = pb_line p, rw_method = pb_method p\<rparr>"

definition armed_line_stop_point :: "string \<Rightarrow> u32 list \<Rightarrow> breakpoint_spec \<Rightarrow> line_breakpoint \<Rightarrow> stop_point" where
  "armed_line_stop_point i reqs spec bp =
     \<lparr>sp_id = i, sp_request_ids = reqs, sp_enabled = True, sp_spent = False, sp_hit_count = bs_hit_count spec,
      sp_hits = 0, sp_condition = bs_condition spec, sp_trace = bs_trace spec, sp_trace_expr = bs_trace_expr spec,
      sp_trace_budget = bs_trace_budget spec, sp_trace_frames = bs_trace_frames spec,
      sp_trace_max_length = bs_trace_max_length spec, sp_trace_cost = trace_cost_default,
      sp_thread_filter = bs_thread_filter spec, sp_instance_filter = bs_instance_filter spec, sp_armed_on = On_line bp\<rparr>"

section \<open>Arming one class\<close>

datatype several_locations = Duplicated_line | Class_copies | Several_both

definition several_locations_of :: "breakpoint_arm \<Rightarrow> several_locations" where
  "several_locations_of arm =
     (let ids = ba_class_id arm # map al_class_id (ba_extra_locations arm);
          several = list_ex (\<lambda>i. i \<noteq> ba_class_id arm) ids
      in if several \<and> \<not> distinct ids then Several_both else if several then Class_copies else Duplicated_line)"

record armed_breakpoint =
  ab_bp_id :: string
  ab_line :: u32
  ab_method_name :: string
  ab_request_ids :: "u32 list"
  ab_loader_count :: nat
  ab_partial :: "string list"
  ab_drift :: drift_check
  ab_answered_by :: "string option"
  ab_several_locations :: several_locations

record primary_copy =
  pc_class_id :: u64
  pc_loc :: resolved_location
  pc_others :: "u64 list"
  pc_caveat :: "string option"

definition copy_caveat :: "breakpoint_spec \<Rightarrow> nat \<Rightarrow> nat \<Rightarrow> string list \<Rightarrow> string" where
  "copy_caveat spec i copies labels =
     (let class = bs_class_pattern spec in
      [CHR 0x0A] @ ''   '' @ uni 0x26A0 @ uni 0xFE0F @ ''  Armed against copy #'' @ show_nat i @ '' of '' @ class
      @ '', not the first one '' @ uni 0x2014 @ '' '' @ class @ '' is loaded '' @ show_nat copies
      @ '' times and the copies that sort ahead of #'' @ show_nat i @ '' do not declare ''
      @ (case bs_method_hint spec of None \<Rightarrow> ''the target method'' | Some m \<Rightarrow> m)
      @ ''. On WildFly that is the retired deployment'' @ [CHR 0x27] @ ''s copy still being reachable; it means the ''
      @ ''arming reply and debug.list_methods can only agree once they are both looking at #'' @ show_nat i
      @ ''. Loaded by: '' @ join ''; '' labels @ ''. Pin a read to this copy with '' @ class @ ''@<the 0x''
      @ uni 0x2026 @ '' for #'' @ show_nat i @ ''>.'')"

fun try_copies ::
  "debuggee \<Rightarrow> breakpoint_spec \<Rightarrow> nat \<Rightarrow> u64 list \<Rightarrow> bp_location_error option \<Rightarrow> conn
     \<Rightarrow> (bp_location_error option + bp_location_error + nat \<times> u64 \<times> resolved_location) \<times> conn" where
  "try_copies d spec i [] absent c = (Inl absent, c)"
| "try_copies d spec i (cid # cids) absent c =
     (case resolve_bp_location d cid (bs_line_opt spec) (bs_method_hint spec) c of
        (Inr loc, c1) \<Rightarrow> (Inr (Inr (i, cid, loc)), c1)
      | (Inl e, c1) \<Rightarrow>
          (case e of
             No_such_method _ \<Rightarrow> try_copies d spec (i + 1) cids (case absent of None \<Rightarrow> Some e | Some a \<Rightarrow> Some a) c1
           | _ \<Rightarrow> (Inr (Inl e), c1)))"

definition why_terse :: "string \<Rightarrow> string" where
  "why_terse why =
     rev (trim_start_char CHR ''.'' (dropWhile (\<lambda>c. c \<in> {CHR '' '', CHR 0x09, CHR 0x0A, CHR 0x0B, CHR 0x0C, CHR 0x0D}) (rev why)))"

definition arming_miss_message ::
  "arm_env \<Rightarrow> string list \<Rightarrow> breakpoint_spec \<Rightarrow> bp_location_error \<Rightarrow> nat \<Rightarrow> string" where
  "arming_miss_message env roots spec miss copies =
     (let class = bs_class_pattern spec;
          meth = (case bs_method_hint spec of None \<Rightarrow> [] | Some m \<Rightarrow> m);
          nl = [CHR 0x0A] @ ''   ''
      in show_bp_location_error miss @ '' in '' @ class
         @ (if 1 < copies
            then '' '' @ uni 0x2014 @ '' it is loaded '' @ show_nat copies @ '' times, one class per classloader, and NONE of the ''
              @ show_nat copies @ '' copies declares it''
            else '' (1 loaded copy, and it was searched)'')
         @ (case ae_build env roots class meth of
              Build_declares path \<Rightarrow>
                ''.'' @ nl @ uni 0x26A0 @ uni 0xFE0F @ ''  YOUR BUILD DOES DECLARE IT '' @ uni 0x2014 @ '' '' @ path @ '' has '' @ meth
                @ '' '' @ uni 0x2014 @ '' so this is not the name being wrong: the copy the JVM holds is OLDER than the source ''
                @ ''you are reading. A class loads on first use, so one that nothing has called or thrown since the redeploy ''
                @ ''is still the retired deployment'' @ [CHR 0x27] @ ''s. Trigger the code path that loads the new copy and ''
                @ ''arm again, or debug.reload_class to install your build without one.''
            | Build_absent path \<Rightarrow>
                ''.'' @ nl @ ''Your build does not declare it either ('' @ path
                @ '' was read), so the name is wrong rather than stale. debug.list_methods on '' @ class
                @ '' shows what it does have.''
            | Build_not_checked why \<Rightarrow>
                ''.'' @ nl @ uni 0x2139 @ uni 0xFE0F
                @ ''  The build was NOT consulted, so a stale loaded copy and a wrong name are still ''
                @ ''indistinguishable from here: '' @ why_terse why @ ''.'' @ nl @ ''debug.list_methods on '' @ class
                @ '' shows what the loaded cop'' @ (if 1 < copies then ''ies'' else ''y'') @ '' declare''
                @ (if 1 < copies then [] else ''s'') @ ''.''))"

definition resolve_primary_copy ::
  "arm_env \<Rightarrow> u64 list \<Rightarrow> breakpoint_spec \<Rightarrow> rearm_plan \<Rightarrow> (arm_error + primary_copy) session_op" where
  "resolve_primary_copy env ids spec plan s =
     (let d = ae_debuggee env in
      case on_conn (try_copies d spec 0 ids None) s of
        (Inr (Inr (i, cid, loc)), s1) \<Rightarrow>
          (let others = filter (\<lambda>o'. o' \<noteq> cid) ids in
           if i = 0 then (Inr \<lparr>pc_class_id = cid, pc_loc = loc, pc_others = others, pc_caveat = None\<rparr>, s1)
           else (let (labels, s2) = on_conn (describe_class_loaders d ids) s1
                 in (Inr \<lparr>pc_class_id = cid, pc_loc = loc, pc_others = others,
                       pc_caveat = Some (copy_caveat spec i (length ids) labels)\<rparr>, s2)))
      | (Inr (Inl e), s1) \<Rightarrow> (Inl (arm_error_of e (bs_class_pattern spec)), s1)
      | (Inl absent, s1) \<Rightarrow>
          (let miss = (case absent of
                 Some e \<Rightarrow> e | None \<Rightarrow> No_such_method (case bs_method_hint spec of None \<Rightarrow> [] | Some m \<Rightarrow> m))
           in (Inl (if rp_watch plan = Rearm_covered_by_family then arm_error_of miss (bs_class_pattern spec)
                    else Arm_no_such_method (arming_miss_message env (ds_class_roots s1) spec miss (length ids))), s1)))"

text \<open>The same line in every other copy: the locations found, and the copies where it was not.\<close>

fun resolve_other_classloader_copies ::
  "debuggee \<Rightarrow> u64 list \<Rightarrow> breakpoint_spec \<Rightarrow> conn \<Rightarrow> (armed_location list \<times> string list) \<times> conn" where
  "resolve_other_classloader_copies d [] spec c = (([], []), c)"
| "resolve_other_classloader_copies d (cid # cids) spec c =
     (let (r, c1) = resolve_bp_location d cid (bs_line_opt spec) (bs_method_hint spec) c;
          ((locs, missing), c2) = resolve_other_classloader_copies d cids spec c1
      in (case r of
            Inr loc \<Rightarrow> (locations_at cid (mi_method_id (rl_method loc)) (rl_code_index loc # rl_extra_code_indices loc) @ locs, missing)
          | Inl e \<Rightarrow> (locs, (''another classloader'' @ [CHR 0x27] @ ''s copy (class 0x'' @ show_hex (unat cid) @ ''): ''
              @ show_bp_location_error e) # missing), c2))"

definition ACC_STATIC :: u32 where "ACC_STATIC = 8"

definition INERT_RULE :: string where
  "INERT_RULE = ''This is refused up front because HotSpot ACCEPTS an InstanceOnly modifier here and then does not ''
     @ ''apply it '' @ uni 0x2014 @ '' no error, no warning, and a reply saying the stop point is scoped when it is not. ''
     @ ''Measured on Temurin 17/21/25 (FILT-9, ADR-0027). Drop instance_id, or use a condition, which we evaluate on ''
     @ ''our side and which works on every kind.''"

definition refuse_instance_filter_without_this :: "string \<Rightarrow> string \<Rightarrow> string" where
  "refuse_instance_filter_without_this what site =
     ''instance_id cannot scope '' @ site @ '', because '' @ what @ '' has no `this` for an InstanceOnly modifier to match. ''
     @ INERT_RULE"

definition check_drift :: "arm_env \<Rightarrow> string \<Rightarrow> resolved_location \<Rightarrow> debug_session \<Rightarrow> drift_check" where
  "check_drift env class loc s = ae_drift env (ds_class_roots s) class (rl_method loc) (rl_lines loc)"

text \<open>Everything after the primary location has been armed.\<close>

definition insert_armed ::
  "arm_env \<Rightarrow> u64 list \<Rightarrow> breakpoint_spec \<Rightarrow> string \<Rightarrow> rearm_plan \<Rightarrow> primary_copy \<Rightarrow> u32 \<Rightarrow> armed_breakpoint session_op" where
  "insert_armed env ids spec bp_id plan prim request_id s =
     (let d = ae_debuggee env; loc = pc_loc prim; cid = pc_class_id prim; mid = mi_method_id (rl_method loc);
          ((others, unresolved), s1) = on_conn (resolve_other_classloader_copies d (pc_others prim) spec) s;
          arm = \<lparr>ba_class_id = cid, ba_method_id = mid, ba_bytecode_index = rl_code_index loc,
             ba_extra_locations = locations_at cid mid (rl_extra_code_indices loc) @ others,
             ba_suspend_policy = bs_suspend_policy spec\<rparr>;
          (extra, s2) = on_conn (arm_extra_line_locations d arm (spec_filters spec)) s1;
          arm' = arm\<lparr>ba_extra_locations := xl_armed extra\<rparr>;
          reqs = request_id # xl_request_ids extra;
          partial = xl_refused extra @ unresolved @ (case rp_refusal plan of None \<Rightarrow> [] | Some r \<Rightarrow> [r]);
          (loaders, s3) = (if 1 < length ids then on_conn (describe_class_loaders d ids) s2 else ([], s2));
          drift = check_drift env (bs_class_pattern spec) loc s3;
          bp = \<lparr>lb_class_pattern = bs_class_pattern spec, lb_line = u32_or_zero (rl_line loc),
             lb_method = Some (mi_name (rl_method loc)), lb_arm_line = bs_line_opt spec,
             lb_arm_method = bs_method_hint spec, lb_drift = drift, lb_loaders = loaders, lb_arm = arm',
             lb_rearm = rp_watch plan\<rparr>
      in (\<lparr>ab_bp_id = bp_id, ab_line = rl_line loc, ab_method_name = mi_name (rl_method loc), ab_request_ids = reqs,
            ab_loader_count = length ids, ab_partial = partial, ab_drift = drift, ab_answered_by = pc_caveat prim,
            ab_several_locations = several_locations_of arm'\<rparr>,
          on_state (register_stop_point (armed_line_stop_point bp_id reqs spec bp)) s3))"

definition arm_and_insert ::
  "arm_env \<Rightarrow> u64 list \<Rightarrow> breakpoint_spec \<Rightarrow> string \<Rightarrow> rearm_plan \<Rightarrow> (arm_error + armed_breakpoint) session_op" where
  "arm_and_insert env ids spec bp_id plan s =
     (if ids = [] then (Inl (Arm_other (bs_class_pattern spec @ '' is not loaded'')), s)
      else (case resolve_primary_copy env ids spec plan s of
          (Inl e, s1) \<Rightarrow> (Inl e, s1)
        | (Inr prim, s1) \<Rightarrow>
            (let loc = pc_loc prim; m = rl_method loc in
             if bs_instance_filter spec \<noteq> None \<and> and (mi_mod_bits m) ACC_STATIC \<noteq> 0
             then (Inl (Arm_other (refuse_instance_filter_without_this ''a static method''
                     (''a line stop in '' @ bs_class_pattern spec @ ''.'' @ mi_name m))), s1)
             else (case on_conn (set_breakpoint_ex (ae_debuggee env) (pc_class_id prim) (mi_method_id m)
                          (rl_code_index loc) (bs_suspend_policy spec) (spec_filters spec)) s1 of
                 (Inl e, s2) \<Rightarrow> (Inl (Arm_other (''Failed to set breakpoint: '' @ show_jdwp_error e)), s2)
               | (Inr req, s2) \<Rightarrow>
                   (let (armed, s3) = insert_armed env ids spec bp_id plan prim req s2 in (Inr armed, s3))))))"

section \<open>Exact names: arming now, or when the class loads\<close>

definition register_rearm_watch :: "arm_env \<Rightarrow> breakpoint_spec \<Rightarrow> rearm_plan session_op" where
  "register_rearm_watch env spec s =
     (case on_conn (set_class_prepare (ae_debuggee env) (bs_class_pattern spec) SP_EventThread) s of
        (Inr req, s1) \<Rightarrow> (plan_watching req spec, s1)
      | (Inl e, s1) \<Rightarrow>
          (\<lparr>rp_watch = Rearm_unwatched, rp_refusal = Some (uni 0x26A0 @ uni 0xFE0F
             @ ''  Armed, but the class-load watch could NOT be registered ('' @ show_jdwp_error e @ ''), so a copy of ''
             @ bs_class_pattern spec @ '' loaded later '' @ uni 0x2014 @ '' which is what a redeploy is '' @ uni 0x2014
             @ '' will not be armed. That silence would be indistinguishable from the code path not running, so: re-arm ''
             @ ''this stop point after every redeploy.'')\<rparr>, s1))"

datatype defer_result = Armed_on_recheck armed_breakpoint | Deferred string

definition pending_of :: "breakpoint_spec \<Rightarrow> string \<Rightarrow> u32 \<Rightarrow> pending_breakpoint" where
  "pending_of spec bp_id cp_req =
     \<lparr>pb_bp_id = bp_id, pb_class_prepare_request_id = cp_req, pb_class_pattern = bs_class_pattern spec,
      pb_signature = bs_signature spec, pb_line = bs_line_opt spec, pb_method = bs_method_hint spec,
      pb_hit_count = bs_hit_count spec, pb_instance_filter = bs_instance_filter spec,
      pb_thread_filter = bs_thread_filter spec, pb_condition = bs_condition spec, pb_trace = bs_trace spec,
      pb_trace_expr = bs_trace_expr spec, pb_trace_budget = bs_trace_budget spec,
      pb_trace_frames = bs_trace_frames spec, pb_trace_max_length = bs_trace_max_length spec\<rparr>"

definition defer_breakpoint ::
  "arm_env \<Rightarrow> breakpoint_spec \<Rightarrow> string \<Rightarrow> (string + defer_result) session_op" where
  "defer_breakpoint env spec bp_id s =
     (let d = ae_debuggee env in
      if bs_instance_filter spec \<noteq> None
      then (Inl (''instance_id cannot be used on a stop point for '' @ [CHR 0x27] @ bs_class_pattern spec @ [CHR 0x27]
              @ '', which is not loaded yet. An InstanceOnly filter matches the hit'' @ [CHR 0x27]
              @ ''s `this`, so the object would have to be an instance of that class '' @ uni 0x2014
              @ '' and a class the JVM has not loaded has none, so the handle you passed belongs to something else. ''
              @ ''Arm the stop point without it, then re-arm with instance_id once the class has loaded and ''
              @ ''debug.list_instances can give you a handle that means what you want.''), s)
      else (case on_conn (set_class_prepare d (bs_class_pattern spec) SP_EventThread) s of
          (Inl e, s1) \<Rightarrow> (Inl (''Failed to register the class-load watch: '' @ show_jdwp_error e), s1)
        | (Inr cp_req, s1) \<Rightarrow>
            (let (found, s2) = on_conn (classes_by_signature d (bs_signature spec)) s1;
                 recheck = (case found of Inl _ \<Rightarrow> [] | Inr cs \<Rightarrow> cs)
             in if recheck \<noteq> []
                then (case arm_and_insert env (map ci_type_id recheck) spec bp_id (plan_watching cp_req spec) s2 of
                    (Inl e, s3) \<Rightarrow> (Inl (arm_error_message e), s3)
                  | (Inr armed, s3) \<Rightarrow> (Inr (Armed_on_recheck armed), s3))
                else (Inr (Deferred bp_id),
                      on_state (\<lambda>st. st\<lparr>ss_pending := ss_pending st @ [pending_of spec bp_id cp_req]\<rparr>) s2))))"

definition mint_stop_id :: "string \<Rightarrow> string session_op" where
  "mint_stop_id pref s = (case next_stop_id pref (ds_state s) of (i, st) \<Rightarrow> (i, s\<lparr>ds_state := st\<rparr>))"

section \<open>Wildcard families and batches\<close>

record family_member_rec =
  fm_class :: string
  fm_armed :: armed_breakpoint

record family_outcome =
  fo_set_id :: string
  fo_members :: "family_member_rec list"
  fo_matched :: nat
  fo_skipped :: nat
  fo_no_method :: nat
  fo_failures :: "string list"
  fo_broadened_watch :: bool
  fo_watch_error :: "string option"
  fo_watch_parked :: bool

record family_tally =
  ft_members :: "family_member_rec list"
  ft_failures :: "string list"
  ft_no_method :: nat
  ft_skipped :: nat

definition load_class_index :: "debuggee \<Rightarrow> conn \<Rightarrow> (string + (string \<times> u64) list) \<times> conn" where
  "load_class_index d c =
     (case all_classes d c of
        (Inl e, c1) \<Rightarrow> (Inl (''Failed to list classes: '' @ show_jdwp_error e), c1)
      | (Inr al, c1) \<Rightarrow>
          (Inr (sort_key fst (map (\<lambda>k. (decode_signature (ci_signature k), ci_type_id k))
                 (filter (\<lambda>k. ci_ref_type_tag k \<noteq> 3) al))), c1))"

definition class_index_for ::
  "debuggee \<Rightarrow> string list \<Rightarrow> conn \<Rightarrow> (string + (string \<times> u64) list) \<times> conn" where
  "class_index_for d patterns c = (if list_ex is_wildcard patterns then load_class_index d c else (Inr [], c))"

definition MAX_CLASSES_CEILING :: nat where "MAX_CLASSES_CEILING = 200"

definition clamped_max_classes :: "nat \<Rightarrow> nat" where
  "clamped_max_classes requested = max 1 (min requested MAX_CLASSES_CEILING)"

text \<open>The expansion of a family over the loaded classes it matches, up to its cap.\<close>

fun arm_family_classes ::
  "arm_env \<Rightarrow> breakpoint_spec \<Rightarrow> nat \<Rightarrow> (string \<times> u64) list \<Rightarrow> family_tally \<Rightarrow> family_tally session_op" where
  "arm_family_classes env spec cap [] t s = (t, s)"
| "arm_family_classes env spec cap ((fqn, cid) # hits) t s =
     (if cap \<le> length (ft_members t)
      then arm_family_classes env spec cap hits (t\<lparr>ft_skipped := ft_skipped t + 1\<rparr>) s
      else (let (bp_id, s1) = mint_stop_id ''bp_'' s;
                (r, s2) = arm_and_insert env [cid] (for_pattern spec fqn) bp_id family_member s1
            in case r of
                 Inr armed \<Rightarrow>
                   arm_family_classes env spec cap hits
                     (t\<lparr>ft_members := ft_members t @ [\<lparr>fm_class = fqn, fm_armed = armed\<rparr>]\<rparr>) s2
               | Inl (Arm_no_such_method _) \<Rightarrow>
                   arm_family_classes env spec cap hits (t\<lparr>ft_no_method := ft_no_method t + 1\<rparr>) s2
               | Inl (Arm_other msg) \<Rightarrow>
                   arm_family_classes env spec cap hits (t\<lparr>ft_failures := ft_failures t @ [msg]\<rparr>) s2))"

definition family_watch ::
  "debuggee \<Rightarrow> string \<Rightarrow> bool \<Rightarrow> (class_load_watch \<times> string option) session_op" where
  "family_watch d pattern full s =
     (if full then ((Watch_parked, None), s)
      else (case on_conn (set_class_prepare d pattern SP_EventThread) s of
          (Inr req, s1) \<Rightarrow> ((Watch_watching req, None), s1)
        | (Inl e, s1) \<Rightarrow> ((Watch_failed, Some (show_jdwp_error e)), s1)))"

definition pattern_set_of :: "string \<Rightarrow> breakpoint_spec \<Rightarrow> class_load_watch \<Rightarrow> nat \<Rightarrow> family_tally \<Rightarrow> pattern_stop_set" where
  "pattern_set_of set_id spec watch cap t =
     \<lparr>ps_id = set_id, ps_class_pattern = bs_class_pattern spec, ps_watch = watch, ps_enabled = True,
      ps_members = map (ab_bp_id \<circ> fm_armed) (ft_members t), ps_armed_later = [], ps_armed_later_total = 0,
      ps_method = bs_method_hint spec, ps_hit_count = bs_hit_count spec, ps_instance_filter = bs_instance_filter spec,
      ps_thread_filter = bs_thread_filter spec, ps_condition = bs_condition spec, ps_trace = bs_trace spec,
      ps_trace_expr = bs_trace_expr spec, ps_trace_budget = bs_trace_budget spec,
      ps_trace_frames = bs_trace_frames spec, ps_trace_max_length = bs_trace_max_length spec, ps_max_classes = cap,
      ps_skipped_at_cap = ft_skipped t, ps_no_method = ft_no_method t\<rparr>"

definition arm_pattern_family ::
  "arm_env \<Rightarrow> breakpoint_spec \<Rightarrow> (string \<times> u64) list \<Rightarrow> nat \<Rightarrow> family_outcome session_op" where
  "arm_pattern_family env spec index cap s =
     (let (set_id, s1) = mint_stop_id ''bpset_'' s;
          hits = filter (\<lambda>(fqn, _). class_matches fqn (bs_class_pattern spec)) index;
          (t, s2) = arm_family_classes env spec cap hits
             \<lparr>ft_members = [], ft_failures = [], ft_no_method = 0, ft_skipped = 0\<rparr> s1;
          (pattern, broadened) = jdwp_class_match_for (bs_class_pattern spec);
          ((watch, err), s3) = family_watch (ae_debuggee env) pattern (cap \<le> length (ft_members t)) s2;
          s4 = s3\<lparr>ds_pattern_sets := hm_put set_id (pattern_set_of set_id spec watch cap t) (ds_pattern_sets s3)\<rparr>
      in (\<lparr>fo_set_id = set_id, fo_members = ft_members t, fo_matched = length hits, fo_skipped = ft_skipped t,
            fo_no_method = ft_no_method t, fo_failures = ft_failures t,
            fo_broadened_watch = (broadened \<and> is_watching watch), fo_watch_error = err,
            fo_watch_parked = (watch = Watch_parked)\<rparr>, s4))"

datatype pattern_outcome = Po_armed armed_breakpoint | Po_deferred string | Po_family family_outcome | Po_failed string

fun po_armed_count :: "pattern_outcome \<Rightarrow> nat" where
  "po_armed_count (Po_armed _) = 1"
| "po_armed_count (Po_family f) = length (fo_members f)"
| "po_armed_count (Po_deferred _) = 0"
| "po_armed_count (Po_failed _) = 0"

fun po_failed_count :: "pattern_outcome \<Rightarrow> nat" where
  "po_failed_count (Po_failed _) = 1"
| "po_failed_count (Po_family f) = length (fo_failures f)"
| "po_failed_count (Po_armed _) = 0"
| "po_failed_count (Po_deferred _) = 0"

definition arm_one_pattern ::
  "arm_env \<Rightarrow> breakpoint_spec \<Rightarrow> (string \<times> u64) list \<Rightarrow> nat \<Rightarrow> pattern_outcome session_op" where
  "arm_one_pattern env spec index cap s =
     (if is_wildcard (bs_class_pattern spec)
      then (let (f, s1) = arm_pattern_family env spec index cap s in (Po_family f, s1))
      else
        (let (bp_id, s1) = mint_stop_id ''bp_'' s in
         case on_conn (classes_by_signature (ae_debuggee env) (bs_signature spec)) s1 of
           (Inl e, s2) \<Rightarrow> (Po_failed (''Failed to find class: '' @ show_jdwp_error e), s2)
         | (Inr classes, s2) \<Rightarrow>
             if classes = []
             then (case defer_breakpoint env spec bp_id s2 of
                 (Inr (Armed_on_recheck armed), s3) \<Rightarrow> (Po_armed armed, s3)
               | (Inr (Deferred i), s3) \<Rightarrow> (Po_deferred i, s3)
               | (Inl e, s3) \<Rightarrow> (Po_failed e, s3))
             else
               (let (plan, s3) = register_rearm_watch env spec s2 in
                case arm_and_insert env (map ci_type_id classes) spec bp_id plan s3 of
                  (Inr armed, s4) \<Rightarrow> (Po_armed armed, s4)
                | (Inl e, s4) \<Rightarrow> (Po_failed (arm_error_message e), s4))))"

section \<open>A class has just loaded\<close>

definition deferred_arm :: "u64 \<Rightarrow> u64 \<Rightarrow> u64 \<Rightarrow> u64 list \<Rightarrow> suspend_policy \<Rightarrow> breakpoint_arm" where
  "deferred_arm cid mid i extra sp =
     \<lparr>ba_class_id = cid, ba_method_id = mid, ba_bytecode_index = i, ba_extra_locations = locations_at cid mid extra,
      ba_suspend_policy = sp\<rparr>"

definition pending_filters :: "pending_breakpoint \<Rightarrow> event_filters" where
  "pending_filters p = \<lparr>ef_count = pb_hit_count p, ef_thread = pb_thread_filter p, ef_instance = pb_instance_filter p\<rparr>"

definition resolved_stop_point ::
  "pending_breakpoint \<Rightarrow> u32 list \<Rightarrow> resolved_location \<Rightarrow> drift_check \<Rightarrow> breakpoint_arm \<Rightarrow> stop_point" where
  "resolved_stop_point p reqs loc drift arm =
     \<lparr>sp_id = pb_bp_id p, sp_request_ids = reqs, sp_enabled = True, sp_spent = False, sp_hit_count = pb_hit_count p,
      sp_hits = 0, sp_condition = pb_condition p, sp_trace = pb_trace p, sp_trace_expr = pb_trace_expr p,
      sp_trace_budget = pb_trace_budget p, sp_trace_frames = pb_trace_frames p,
      sp_trace_max_length = pb_trace_max_length p, sp_trace_cost = trace_cost_default,
      sp_thread_filter = pb_thread_filter p, sp_instance_filter = pb_instance_filter p,
      sp_armed_on = On_line
        \<lparr>lb_class_pattern = pb_class_pattern p, lb_line = u32_or_zero (rl_line loc),
         lb_method = Some (mi_name (rl_method loc)), lb_arm_line = pb_line p, lb_arm_method = pb_method p,
         lb_drift = drift, lb_loaders = [], lb_arm = arm, lb_rearm = Rearm_watching (handover_watch p)\<rparr>\<rparr>"

definition arm_pending :: "arm_env \<Rightarrow> u64 \<Rightarrow> pending_breakpoint \<Rightarrow> debug_session \<Rightarrow> debug_session" where
  "arm_pending env cid p s =
     (let d = ae_debuggee env in
      case on_conn (resolve_bp_location d cid (pb_line p) (pb_method p)) s of
        (Inl _, s1) \<Rightarrow> s1
      | (Inr loc, s1) \<Rightarrow>
          (let mid = mi_method_id (rl_method loc); sp = suspend_policy_for_line (pb_trace p) (pb_condition p \<noteq> None) in
           case on_conn (set_breakpoint_ex d cid mid (rl_code_index loc) sp (pending_filters p)) s1 of
             (Inl _, s2) \<Rightarrow> s2
           | (Inr req, s2) \<Rightarrow>
               (let arm = deferred_arm cid mid (rl_code_index loc) (rl_extra_code_indices loc) sp;
                    (extra, s3) = on_conn (arm_extra_line_locations d arm (pending_filters p)) s2;
                    arm' = arm\<lparr>ba_extra_locations := xl_armed extra\<rparr>;
                    drift = check_drift env (pb_class_pattern p) loc s3
                in on_state (snd \<circ> resolve_pending
                     (resolved_stop_point p (req # xl_request_ids extra) loc drift arm')) s3)))"

text \<open>Wildcard families the new class belongs to.\<close>

definition arm_family_member ::
  "arm_env \<Rightarrow> u64 \<Rightarrow> string \<Rightarrow> string \<Rightarrow> string \<Rightarrow> debug_session \<Rightarrow> debug_session" where
  "arm_family_member env cid fqn signature set_id s =
     (case hm_get set_id (ds_pattern_sets s) of
        None \<Rightarrow> s
      | Some ps \<Rightarrow>
          if \<not> has_room ps
          then park_family_watch_if_full (ae_debuggee env) set_id
                 (if is_watching (ps_watch ps)
                  then modify_set set_id (\<lambda>f. f\<lparr>ps_skipped_at_cap := ps_skipped_at_cap f + 1\<rparr>) s else s)
          else
            (let (bp_id, s1) = mint_stop_id ''bp_'' s in
             case arm_and_insert env [cid] (spec_from_pattern_set ps fqn signature) bp_id family_member s1 of
               (Inr armed, s2) \<Rightarrow>
                 park_family_watch_if_full (ae_debuggee env) set_id
                   (modify_set set_id
                      (\<lambda>f. note_armed_later fqn (f\<lparr>ps_members := ps_members f @ [ab_bp_id armed]\<rparr>)) s2)
             | (Inl (Arm_no_such_method _), s2) \<Rightarrow> modify_set set_id (\<lambda>f. f\<lparr>ps_no_method := ps_no_method f + 1\<rparr>) s2
             | (Inl (Arm_other _), s2) \<Rightarrow> s2))"

definition arm_pattern_set_members :: "arm_env \<Rightarrow> u64 \<Rightarrow> string \<Rightarrow> debug_session \<Rightarrow> debug_session" where
  "arm_pattern_set_members env cid signature s =
     (let fqn = decode_signature signature;
          candidates = map (ps_id \<circ> snd) (filter (\<lambda>(_, f). ps_enabled f \<and> class_matches fqn (ps_class_pattern f))
             (ds_pattern_sets s))
      in fold (arm_family_member env cid fqn signature) candidates s)"

text \<open>Later copies of a class an armed stop point watches.\<close>

record later_copy_target =
  lt_bp_id :: string
  lt_line :: "u32 option"
  lt_method :: "string option"
  lt_arm :: breakpoint_arm
  lt_filters :: event_filters

definition later_copy_target_of :: "u64 \<Rightarrow> string \<Rightarrow> stop_point \<Rightarrow> later_copy_target option" where
  "later_copy_target_of cid sig sp =
     (case sp_line sp of
        None \<Rightarrow> None
      | Some b \<Rightarrow>
          (case rearm_watch_of (lb_rearm b) of
             None \<Rightarrow> None
           | Some w \<Rightarrow>
               if sp_enabled sp \<and> \<not> sp_spent sp \<and> rw_signature w = sig
                  \<and> ba_class_id (lb_arm b) \<noteq> cid \<and> \<not> list_ex (\<lambda>l. al_class_id l = cid) (ba_extra_locations (lb_arm b))
               then Some \<lparr>lt_bp_id = sp_id sp, lt_line = rw_line w, lt_method = rw_method w, lt_arm = lb_arm b,
                      lt_filters = stop_filters sp\<rparr>
               else None))"

definition on_line_info :: "(line_breakpoint \<Rightarrow> line_breakpoint) \<Rightarrow> stop_point \<Rightarrow> stop_point" where
  "on_line_info f sp = (case sp_armed_on sp of On_line l \<Rightarrow> sp\<lparr>sp_armed_on := On_line (f l)\<rparr> | _ \<Rightarrow> sp)"

definition on_rearm_watch :: "(rearm_watch \<Rightarrow> rearm_watch) \<Rightarrow> line_breakpoint \<Rightarrow> line_breakpoint" where
  "on_rearm_watch f l = (case lb_rearm l of Rearm_watching w \<Rightarrow> l\<lparr>lb_rearm := Rearm_watching (f w)\<rparr> | _ \<Rightarrow> l)"

definition note_later_copy_miss :: "string \<Rightarrow> string \<Rightarrow> debug_session \<Rightarrow> debug_session" where
  "note_later_copy_miss bp_id why =
     on_state (modify_stop_point bp_id (on_line_info (on_rearm_watch (\<lambda>w. w\<lparr>rw_later := (rw_later w)
       \<lparr>lc_misses := lc_misses (rw_later w) + 1,
        lc_miss := (case lc_miss (rw_later w) of None \<Rightarrow> Some why | Some m \<Rightarrow> Some m)\<rparr>\<rparr>))))"

record later_copy_armed =
  la_class_id :: u64
  la_arm :: breakpoint_arm
  la_line :: u32
  la_loaders :: "string list"
  la_drift :: drift_check

definition note_copy_line :: "u32 \<Rightarrow> u32 \<Rightarrow> rearm_watch \<Rightarrow> rearm_watch" where
  "note_copy_line line listed w =
     (let lc = rw_later w; lc' = lc\<lparr>lc_copies := lc_copies lc + 1\<rparr>
      in w\<lparr>rw_later := (if line \<noteq> listed \<and> line \<notin> set (lc_lines lc) then lc'\<lparr>lc_lines := lc_lines lc @ [line]\<rparr> else lc')\<rparr>)"

definition record_later_copy :: "string \<Rightarrow> u32 list \<Rightarrow> later_copy_armed \<Rightarrow> debug_session \<Rightarrow> debug_session" where
  "record_later_copy bp_id reqs armed =
     on_state (modify_stop_point bp_id (\<lambda>sp.
       on_line_info (\<lambda>l.
         on_rearm_watch (note_copy_line (la_line armed) (i32_or_zero (lb_line l)))
           (l\<lparr>lb_arm := (lb_arm l)\<lparr>ba_extra_locations := ba_extra_locations (lb_arm l)
                @ \<lparr>al_class_id = la_class_id armed, al_method_id = ba_method_id (la_arm armed),
                    al_bytecode_index = ba_bytecode_index (la_arm armed)\<rparr>
                # ba_extra_locations (la_arm armed)\<rparr>,
              lb_loaders := la_loaders armed, lb_drift := worse_drift (lb_drift l) (la_drift armed)\<rparr>))
         (sp\<lparr>sp_request_ids := sp_request_ids sp @ reqs\<rparr>)))"

text \<open>Distinct class ids in the order they first appear.\<close>

fun first_seen :: "u64 list \<Rightarrow> u64 list" where
  "first_seen [] = []"
| "first_seen (x # xs) = x # first_seen (filter (\<lambda>y. y \<noteq> x) xs)"

definition rearm_later_copy :: "arm_env \<Rightarrow> u64 \<Rightarrow> string \<Rightarrow> later_copy_target \<Rightarrow> debug_session \<Rightarrow> debug_session" where
  "rearm_later_copy env cid sig tgt s =
     (let d = ae_debuggee env; arm = lt_arm tgt; pol = ba_suspend_policy arm in
      case on_conn (resolve_bp_location d cid (lt_line tgt) (lt_method tgt)) s of
        (Inl e, s1) \<Rightarrow> note_later_copy_miss (lt_bp_id tgt) (show_bp_location_error e) s1
      | (Inr loc, s1) \<Rightarrow>
          (let mid = mi_method_id (rl_method loc);
               fresh = deferred_arm cid mid (rl_code_index loc) (rl_extra_code_indices loc) pol in
           case on_conn (set_breakpoint_ex d cid mid (rl_code_index loc) pol (lt_filters tgt)) s1 of
             (Inl e, s2) \<Rightarrow> note_later_copy_miss (lt_bp_id tgt) (show_jdwp_error e) s2
           | (Inr primary, s2) \<Rightarrow>
               (let (extra, s3) = on_conn (arm_extra_line_locations d fresh (lt_filters tgt)) s2;
                    fresh' = fresh\<lparr>ba_extra_locations := xl_armed extra\<rparr>;
                    class_ids = first_seen (ba_class_id arm # map al_class_id (ba_extra_locations arm)
                      @ cid # map al_class_id (ba_extra_locations fresh'));
                    (loaders, s4) = on_conn (describe_class_loaders d class_ids) s3;
                    drift = check_drift env (decode_signature sig) loc s4
                in record_later_copy (lt_bp_id tgt) (primary # xl_request_ids extra)
                     \<lparr>la_class_id = cid, la_arm = fresh', la_line = rl_line loc, la_loaders = loaders, la_drift = drift\<rparr> s4)))"

definition rearm_later_copies :: "arm_env \<Rightarrow> u64 \<Rightarrow> string \<Rightarrow> debug_session \<Rightarrow> debug_session" where
  "rearm_later_copies env cid sig s =
     fold (rearm_later_copy env cid sig)
       (List.map_filter (later_copy_target_of cid sig) (stop_point_values (ds_state s))) s"

fun class_prepare_of :: "event_kind \<Rightarrow> (u64 \<times> u64 \<times> string) option" where
  "class_prepare_of (Ev_ClassPrepare thread cid sig _) = Some (thread, cid, sig)"
| "class_prepare_of _ = None"

definition first_class_prepare :: "event_set \<Rightarrow> (u64 \<times> u64 \<times> string) option" where
  "first_class_prepare es =
     (case List.map_filter (class_prepare_of \<circ> ev_details) (es_events es) of [] \<Rightarrow> None | x # _ \<Rightarrow> Some x)"

definition try_arm_deferred_breakpoints :: "arm_env \<Rightarrow> event_set \<Rightarrow> bool session_op" where
  "try_arm_deferred_breakpoints env es s =
     (case first_class_prepare es of
        None \<Rightarrow> (False, s)
      | Some (thread, cid, sig) \<Rightarrow>
          (let s1 = fold (arm_pending env cid) (filter (\<lambda>p. pb_signature p = sig) (ss_pending (ds_state s))) s;
               s2 = arm_pattern_set_members env cid sig s1;
               s3 = rearm_later_copies env cid sig s2
           in (True, snd (on_conn (resume_thread (ae_debuggee env) thread) s3))))"

end
