(* ===== verification/EventPump.thy ===== *)
theory EventPump
  imports Arming
begin

text \<open>
  \<open>mcp-server/src/handlers.rs\<close>: the event pump of a session - what happens to a composite event
  between the wire and the caller. A hit of a traced stop point is recorded and its thread resumed; any
  other hit is filtered, and reported if it survives. The operations run on the session and its connection.

  Three things the pump calls are parameters: evaluating a condition on a frame, reading a snapshot out of
  a frame, and what an alert says about an event. They may use the connection in any way.
\<close>

section \<open>Method names\<close>

text \<open>\<open>max_by_key\<close>: the last of the entries with the greatest key.\<close>

fun max_by_key :: "('a \<Rightarrow> 'b::linorder) \<Rightarrow> 'a list \<Rightarrow> 'a option" where
  "max_by_key f [] = None"
| "max_by_key f (x # xs) =
     (case max_by_key f xs of None \<Rightarrow> Some x | Some y \<Rightarrow> if f x \<le> f y then Some y else Some x)"

definition line_at :: "line_table \<Rightarrow> u64 \<Rightarrow> u32 option" where
  "line_at lt index =
     map_option lte_line_number
       (max_by_key lte_line_code_index (filter (\<lambda>e. lte_line_code_index e \<le> index) (lt_lines lt)))"

definition source_line :: "debuggee \<Rightarrow> u64 \<Rightarrow> u64 \<Rightarrow> u64 \<Rightarrow> conn \<Rightarrow> u32 option \<times> conn" where
  "source_line d class_id method_id index c =
     (case get_line_table d class_id method_id c of
        (Inl _, c') \<Rightarrow> (None, c')
      | (Inr lt, c') \<Rightarrow> (line_at lt index, c'))"

definition frame_method_info :: "debuggee \<Rightarrow> location \<Rightarrow> conn \<Rightarrow> (string \<times> u32 option) \<times> conn" where
  "frame_method_info d loc c =
     (let unnamed = ''method@'' @ show_hex (unat (loc_method_id loc)) in
      case get_methods d (loc_class_id loc) c of
        (Inl _, c1) \<Rightarrow> ((unnamed, None), c1)
      | (Inr methods, c1) \<Rightarrow>
          (case find (\<lambda>m. mi_method_id m = loc_method_id loc) methods of
             None \<Rightarrow> ((unnamed, None), c1)
           | Some m \<Rightarrow>
               (let (line, c2) = source_line d (loc_class_id loc) (loc_method_id loc) (loc_index loc) c1
                in ((mi_name m, line), c2))))"

definition method_name_matches :: "debuggee \<Rightarrow> string option \<Rightarrow> location \<Rightarrow> conn \<Rightarrow> bool \<times> conn" where
  "method_name_matches d filt loc c =
     (case filt of
        None \<Rightarrow> (True, c)
      | Some want \<Rightarrow> (let ((name, _), c') = frame_method_info d loc c in (name = want, c')))"

section \<open>The traced path\<close>

text \<open>
  The environment of the pump: the debuggee, the clock as the connection advances, how a condition is
  evaluated on a frame (\<open>eval_condition\<close>), how a snapshot is read (\<open>capture_trace\<close>), what an alert
  says (\<open>describe_event_into\<close>), and what arming a loaded class uses.
\<close>

record pump_env =
  pe_arming :: arm_env
  pe_clock :: "conn \<Rightarrow> instant"
  pe_eval_condition :: "u64 \<Rightarrow> frame \<Rightarrow> string \<Rightarrow> condition_bindings \<Rightarrow> conn \<Rightarrow> (string + bool) \<times> conn"
  pe_capture :: "traced_request \<Rightarrow> u64 \<Rightarrow> location \<Rightarrow> event_kind \<Rightarrow> conn \<Rightarrow> trace_record \<times> conn"
  pe_describe :: "event_kind \<Rightarrow> conn \<Rightarrow> (string \<times> string) list \<times> conn"

abbreviation pe_debuggee :: "pump_env \<Rightarrow> debuggee" where
  "pe_debuggee env \<equiv> ae_debuggee (pe_arming env)"

definition evaluate_condition_on_thread ::
  "pump_env \<Rightarrow> u64 \<Rightarrow> string \<Rightarrow> condition_bindings \<Rightarrow> conn \<Rightarrow> bool \<times> conn" where
  "evaluate_condition_on_thread env thread cond bindings c =
     (case get_frames (pe_debuggee env) thread 0 1 c of
        (Inl _, c1) \<Rightarrow> (True, c1)
      | (Inr [], c1) \<Rightarrow> (True, c1)
      | (Inr (fr # _), c1) \<Rightarrow>
          (case pe_eval_condition env thread fr cond bindings c1 of
             (Inl _, c2) \<Rightarrow> (True, c2)
           | (Inr b, c2) \<Rightarrow> (b, c2)))"

datatype monitor_span = Span_opened | Span_closed "duration option"

definition span_monitor_event ::
  "monitor_trace_spec \<Rightarrow> event_kind \<Rightarrow> instant \<Rightarrow> monitor_span option session_op" where
  "span_monitor_event spec details now s =
     (case monitor_of details of
        None \<Rightarrow> (None, s)
      | Some (m, _) \<Rightarrow>
          (let key = \<lparr>mk_thread = me_thread m, mk_monitor = me_monitor m, mk_pair = mts_pair spec\<rparr> in
           if mts_opening spec
           then (Some Span_opened, s\<lparr>ds_monitor_clock := clock_open key now (ds_monitor_clock s)\<rparr>)
           else (let (d, clk) = clock_close key now (ds_monitor_clock s)
                 in (Some (Span_closed d), s\<lparr>ds_monitor_clock := clk\<rparr>))))"

definition as_millis :: "duration \<Rightarrow> nat" where
  "as_millis d = d div 1000000"

definition monitor_hit_is_recordable :: "monitor_trace_spec \<Rightarrow> monitor_span \<Rightarrow> bool" where
  "monitor_hit_is_recordable spec span =
     (case mts_min_duration_ms spec of
        None \<Rightarrow> True
      | Some m \<Rightarrow> (case span of
           Span_opened \<Rightarrow> False
         | Span_closed None \<Rightarrow> False
         | Span_closed (Some d) \<Rightarrow> unat m \<le> as_millis d))"

definition monitor_duration_detail :: "monitor_trace_spec \<Rightarrow> monitor_span \<Rightarrow> string \<times> string" where
  "monitor_duration_detail spec span =
     (duration_label (mts_pair spec),
      case span of
        Span_opened \<Rightarrow>
          if mts_paired spec
          then ''<pending '' @ uni 0x2014 @ '' this is where it started; the matching event carries the measurement>''
          else ''<not measurable '' @ uni 0x2014 @ '' the other half of this pair is not armed. Arm ''
             @ (case mts_pair spec of Pair_contended \<Rightarrow> ''acquired'' | Pair_wait \<Rightarrow> ''waited'') @ '' as well>''
      | Span_closed (Some d) \<Rightarrow>
          show_nat (as_millis d)
          @ ''ms (measured by the DEBUGGER across both events '' @ uni 0x2014
          @ '' no monitor event carries a duration, so this spans OUR handling of the two, not the JVM's: on a ''
          @ ''traced stop the hit thread is held at the first event until we resume it, which makes this how ''
          @ ''long it waited AFTER we released it. It reads SHORT when our event pump was late '' @ uni 0x2014
          @ '' measured at 1ms for a thread kept off a lock 800ms '' @ uni 0x2014
          @ '' so a small figure is not evidence of a brief wait)''
      | Span_closed None \<Rightarrow>
          ''<not measured '' @ uni 0x2014 @ '' no matching start was seen, so this pair opened before the stop ''
          @ ''point did, its opening kind is not armed, or the pending entry was evicted>'')"

definition file_trace_record ::
  "traced_request \<Rightarrow> monitor_span option \<Rightarrow> trace_record \<Rightarrow> u32 \<Rightarrow> u64 \<Rightarrow> event_kind \<Rightarrow> throw_kind session_op" where
  "file_trace_record tq span rec req thread details s =
     (let rec' = (case (tq_monitor tq, span) of
          (Some spec, Some sp) \<Rightarrow> rec\<lparr>tr_detail := tr_detail rec @ [monitor_duration_detail spec sp]\<rparr>
        | _ \<Rightarrow> rec);
          (kind, tb) = trace_push rec' req thread (exception_instance details) (ds_traces s)
      in (kind, s\<lparr>ds_traces := tb\<rparr>))"

definition charge_trace_budget :: "debuggee \<Rightarrow> u32 \<Rightarrow> string option session_op" where
  "charge_trace_budget d req s =
     (let (remaining, st) = decrement_trace_budget req (ds_state s); s1 = s\<lparr>ds_state := st\<rparr> in
      case remaining of
        None \<Rightarrow> (None, s1)
      | Some n \<Rightarrow>
          if n = 0 then
            (case disarm_request d req s1 of
               (None, s2) \<Rightarrow> (None, s2)
             | (Some dis, s2) \<Rightarrow>
                 (Some (dis_description dis @ '' stopped recording '' @ uni 0x2014
                    @ '' reached its trace-hit budget and disarmed itself. Re-arm with a higher trace_max_hits if ''
                    @ ''you need more.''), s2))
          else (None, s1))"

definition skip_hit ::
  "pump_env \<Rightarrow> traced_request \<Rightarrow> bool \<Rightarrow> monitor_span option \<Rightarrow> u64 \<Rightarrow> event_kind \<Rightarrow> conn \<Rightarrow> bool \<times> conn" where
  "skip_hit env tq wrong_method span thread details c =
     (if wrong_method then (True, c)
      else if (case (tq_monitor tq, span) of
                 (Some spec, Some sp) \<Rightarrow> \<not> monitor_hit_is_recordable spec sp
               | _ \<Rightarrow> False) then (True, c)
      else (case tq_condition tq of
              None \<Rightarrow> (False, c)
            | Some cond \<Rightarrow>
                (let (holds, c') = evaluate_condition_on_thread env thread cond (condition_bindings_of details) c
                 in (\<not> holds, c'))))"

text \<open>Recording what survives the filters: the snapshot, its cost, the fold of a rethrow and the budget.\<close>

definition record_snapshot ::
  "pump_env \<Rightarrow> traced_request \<Rightarrow> monitor_span option \<Rightarrow> u32 \<Rightarrow> u64 \<Rightarrow> location \<Rightarrow> event_kind
     \<Rightarrow> debug_session \<Rightarrow> debug_session" where
  "record_snapshot env tq span req thread loc details s =
     (let started = pe_clock env (ds_connection s);
          (rec, s1) = on_conn (pe_capture env tq thread loc details) s;
          took = since_then (pe_clock env (ds_connection s1)) started;
          s2 = on_state (record_trace_cost req started took) s1;
          (kind, s3) = file_trace_record tq span rec req thread details s2
      in case kind of
           First_throw \<Rightarrow>
             (case charge_trace_budget (pe_debuggee env) req s3 of
                (None, s4) \<Rightarrow> s4
              | (Some label, s4) \<Rightarrow> s4\<lparr>ds_traces := note_disarm label (ds_traces s4)\<rparr>)
         | Rethrow _ _ \<Rightarrow> s3)"

definition record_one_traced_event :: "pump_env \<Rightarrow> event \<Rightarrow> u64 option session_op" where
  "record_one_traced_event env ev s =
     (let details = ev_details ev; req = ev_request_id ev in
      case event_location details of
        None \<Rightarrow> (None, s)
      | Some (thread, loc) \<Rightarrow>
          (case find_traced_request req (ds_state s) of
             None \<Rightarrow> (if was_traced_and_disarmed req (ds_state s) then (Some thread, s) else (None, s))
           | Some tq \<Rightarrow>
               (let (matches, s1) = on_conn (method_name_matches (pe_debuggee env) (tq_method_filter tq) loc) s;
                    s2 = on_state (if matches then record_stop_point_hit req else record_discarded_exit req) s1;
                    (span, s3) = (case tq_monitor tq of
                        None \<Rightarrow> (None, s2)
                      | Some spec \<Rightarrow> span_monitor_event spec details (pe_clock env (ds_connection s2)) s2);
                    (skip, s4) = on_conn (skip_hit env tq (\<not> matches) span thread details) s3;
                    s5 = (if skip then s4 else record_snapshot env tq span req thread loc details s4)
                in (Some thread, spend_if_counted (pe_debuggee env) req s5))))"

text \<open>Every event of the composite in turn: the last thread handled, and whether all of them were ours.\<close>

primrec record_traced_events ::
  "pump_env \<Rightarrow> event list \<Rightarrow> u64 option \<Rightarrow> bool \<Rightarrow> (u64 option \<times> bool) session_op" where
  "record_traced_events env [] handled all_ours s = ((handled, all_ours), s)"
| "record_traced_events env (e # es) handled all_ours s =
     (case record_one_traced_event env e s of
        (Some t, s') \<Rightarrow> record_traced_events env es (Some t) all_ours s'
      | (None, s') \<Rightarrow> record_traced_events env es handled False s')"

definition try_record_trace :: "pump_env \<Rightarrow> event_set \<Rightarrow> bool session_op" where
  "try_record_trace env es s =
     (case record_traced_events env (es_events es) None (es_events es \<noteq> []) s of
        ((Some thread, True), s') \<Rightarrow> (True, snd (on_conn (resume_thread (pe_debuggee env) thread) s'))
      | (_, s') \<Rightarrow> (False, s'))"

section \<open>The suspending path\<close>

definition release_dropped_hit :: "debuggee \<Rightarrow> u64 \<Rightarrow> bool \<Rightarrow> debug_session \<Rightarrow> debug_session" where
  "release_dropped_hit d thread held_thread_only s =
     (if held_thread_only then snd (on_conn (resume_thread d thread) s) else snd (on_conn (resume_all d) s))"

fun sample_threads :: "debuggee \<Rightarrow> u64 \<Rightarrow> u64 list \<Rightarrow> u64 list \<Rightarrow> nat \<Rightarrow> conn \<Rightarrow> bool option \<times> conn" where
  "sample_threads d hit held [] sampled c = ((if 0 < sampled then Some True else None), c)"
| "sample_threads d hit held (t # ts) sampled c =
     (if t = hit \<or> t \<in> set held then sample_threads d hit held ts sampled c
      else (case suspend_count d t c of
              (Inl _, c') \<Rightarrow> (None, c')
            | (Inr n, c') \<Rightarrow>
                if sint n \<le> 0 then (Some False, c')
                else if sampled + 1 = 3 then (Some True, c')
                else sample_threads d hit held ts (sampled + 1) c'))"

definition another_thread_is_suspended :: "debuggee \<Rightarrow> u64 \<Rightarrow> bool option session_op" where
  "another_thread_is_suspended d hit s =
     (case on_conn (get_all_threads d) s of
        (Inl _, s1) \<Rightarrow> (None, s1)
      | (Inr threads, s1) \<Rightarrow>
          on_conn (sample_threads d hit (map fst (su_threads (ds_suspensions s1))) threads 0) s1)"

definition escalate_to_vm_suspend :: "debuggee \<Rightarrow> u64 \<Rightarrow> failed_escalation option session_op" where
  "escalate_to_vm_suspend d thread s =
     (case on_conn (suspend_all d) s of
        (Inr _, s1) \<Rightarrow> (None, s1)
      | (Inl e, s1) \<Rightarrow>
          (case another_thread_is_suspended d thread s1 of
             (Some True, s2) \<Rightarrow>
               (Some \<lparr>fe_vm_running = False,
                  fe_note = ''the condition MATCHED and the VM-wide suspend reported an error ('' @ show_jdwp_error e
                    @ ''), but another thread is verified suspended, so the application does appear to be stopped ''
                    @ ''after all '' @ uni 0x2014 @ '' something on this connection is misreporting. The frame is ''
                    @ ''readable and this session still holds the VM, so debug.continue is still what releases it.''\<rparr>, s2)
           | (verdict, s2) \<Rightarrow>
               (Some \<lparr>fe_vm_running = True,
                  fe_note = ''the condition MATCHED, but suspending the rest of the VM FAILED ('' @ show_jdwp_error e
                    @ '') '' @ uni 0x2014 @ '' the application is ''
                    @ (if verdict \<noteq> None then ''STILL'' else ''as far as this session can tell STILL'')
                    @ '' RUNNING and only the hit thread 0x'' @ show_hex (unat thread)
                    @ '' is held. Its frames are readable (debug.get_stack, debug.evaluate), but anything they ''
                    @ ''point at may be being mutated by another thread as you read it. debug.continue releases ''
                    @ ''the thread; debug.pause retries the VM-wide suspend.''\<rparr>, s2)))"

record alert =
  nt_seq :: u64
  nt_facts :: "(string \<times> string) list"
  nt_suspended :: bool
  nt_escalation :: "string option"
  nt_stop_point :: "string option"

definition notify_suspension :: "pump_env \<Rightarrow> u64 \<Rightarrow> alert option session_op" where
  "notify_suspension env seq s =
     (case rev (ring_held (ds_events s)) of
        [] \<Rightarrow> (None, s)
      | rec # _ \<Rightarrow>
          (case es_events (er_set rec) of
             [] \<Rightarrow> (None, s)
           | ev # _ \<Rightarrow>
               (let (facts, s1) = on_conn (pe_describe env (ev_details ev)) s
                in (Some \<lparr>nt_seq = seq, nt_facts = facts,
                      nt_suspended = (case er_escalation rec of None \<Rightarrow> True | Some e \<Rightarrow> \<not> fe_vm_running e),
                      nt_escalation = map_option fe_note (er_escalation rec),
                      nt_stop_point = map_option sp_id (owner_of (ev_request_id ev) (ds_state s1))\<rparr>, s1))))"

text \<open>The filters of the suspending path: is the hit dropped, and did an escalation fail?\<close>

definition filter_hit ::
  "pump_env \<Rightarrow> event_set \<Rightarrow> u32 \<Rightarrow> u64 \<Rightarrow> location \<Rightarrow> bool \<Rightarrow> (bool \<times> failed_escalation option) session_op" where
  "filter_hit env es req thread loc held_thread_only s =
     (let d = pe_debuggee env;
          method_filter = Option.bind (Option.bind (owner_of req (ds_state s)) sp_method_exit) me_method;
          (matches, s1) = (if method_filter = None then (True, s) else on_conn (method_name_matches d method_filter loc) s)
      in if \<not> matches
         then ((True, None), on_state (record_discarded_exit req) (release_dropped_hit d thread held_thread_only s1))
         else
           (let s2 = on_state (record_stop_point_hit req) s1 in
            case suspending_condition req (ds_state s2) of
              None \<Rightarrow> ((False, None), s2)
            | Some cond \<Rightarrow>
                (let bindings = (case find (\<lambda>e. ev_request_id e = req) (es_events es) of
                        None \<Rightarrow> bindings_default | Some e \<Rightarrow> condition_bindings_of (ev_details e));
                     (holds, s3) = on_conn (evaluate_condition_on_thread env thread cond bindings) s2
                 in if holds
                    then (if held_thread_only
                          then (let (esc, s4) = escalate_to_vm_suspend d thread s3 in ((False, esc), s4))
                          else ((False, None), s3))
                    else ((True, None), release_dropped_hit d thread held_thread_only s3))))"

definition thread_name_or :: "debuggee \<Rightarrow> u64 \<Rightarrow> conn \<Rightarrow> string \<times> conn" where
  "thread_name_or d tid c =
     (case get_thread_name d tid c of
        (Inl _, c') \<Rightarrow> (''?'', c')
      | (Inr n, c') \<Rightarrow> (if n = [] then ''?'' else n, c'))"

text \<open>Keeping a reported hit: the suspension it caused, the event, the alert.\<close>

definition report_hit :: "pump_env \<Rightarrow> event_set \<Rightarrow> failed_escalation option \<Rightarrow> alert option session_op" where
  "report_hit env es escalation s =
     (let d = pe_debuggee env;
          s1 = (case event_thread es of None \<Rightarrow> s | Some tid \<Rightarrow> s\<lparr>ds_last_thread := Some tid\<rparr>);
          suspends = event_suspends es;
          held_alone = (case escalation of None \<Rightarrow> False | Some e \<Rightarrow> fe_vm_running e);
          first_req = (case es_events es of [] \<Rightarrow> None | e # _ \<Rightarrow> Some (ev_request_id e));
          s2 = (if \<not> suspends then s1
                else (case (held_alone, event_thread es, first_req) of
                  (True, Some tid, Some req) \<Rightarrow>
                    (let (name, s') = on_conn (thread_name_or d tid) s1
                     in s'\<lparr>ds_suspensions := hold_thread_for_failed_escalation tid name
                            (pe_clock env (ds_connection s')) req (ds_suspensions s')\<rparr>)
                | _ \<Rightarrow>
                    s1\<lparr>ds_suspensions := mark_suspended
                         (case first_req of None \<Rightarrow> Cause_manual_pause | Some req \<Rightarrow> Cause_stop_point req)
                         (pe_clock env (ds_connection s1)) (ds_suspensions s1)\<rparr>));
          (seq, ring) = event_ring_push es escalation (ds_events s2);
          s3 = s2\<lparr>ds_events := ring\<rparr>
      in if suspends then notify_suspension env seq s3 else (None, s3))"

definition store_reportable_event :: "pump_env \<Rightarrow> event_set \<Rightarrow> alert option session_op" where
  "store_reportable_event env es s =
     (let held_thread_only = (es_suspend_policy es = suspend_policy_byte SP_EventThread) in
      case es_events es of
        [] \<Rightarrow> report_hit env es None s
      | e # _ \<Rightarrow>
          (case event_location (ev_details e) of
             None \<Rightarrow> report_hit env es None s
           | Some (thread, loc) \<Rightarrow>
               (let ((skip, escalation), s1) = filter_hit env es (ev_request_id e) thread loc held_thread_only s;
                    (note, s2) = (if skip then (None, s1) else report_hit env es escalation s1)
                in (note, spend_if_counted (pe_debuggee env) (ev_request_id e) s2))))"

text \<open>One turn of the pump: arm what a loaded class needs, record a traced hit, or report the event.\<close>

definition pump_event_set :: "pump_env \<Rightarrow> event_set \<Rightarrow> alert option session_op" where
  "pump_event_set env es s =
     (case try_arm_deferred_breakpoints (pe_arming env) es s of
        (True, s1) \<Rightarrow> (None, s1)
      | (False, s1) \<Rightarrow>
          (case try_record_trace env es s1 of
             (True, s2) \<Rightarrow> (None, s2)
           | (False, s2) \<Rightarrow> store_reportable_event env es s2))"

end
