(* ===== verification/PumpProofs.thy ===== *)
theory PumpProofs
  imports EventPump
begin

text \<open>
  What the event pump guarantees: a composite whose hits are all traced is recorded and its thread resumed
  exactly once, without anything being reported; a dropped hit releases exactly what it held; a reported
  hit leaves a record of the suspension it caused; and which hits in flight a clearing path remembers.
\<close>

section \<open>What an operation puts on the wire\<close>

definition is_resume :: "command_packet \<Rightarrow> bool" where
  "is_resume p \<longleftrightarrow> cp_command_set p = CS_VIRTUAL_MACHINE \<and> cp_command p = VM_RESUME
     \<or> cp_command_set p = CS_THREAD_REFERENCE \<and> cp_command p = T_RESUME"

text \<open>An operation that sends no resume, and keeps everything sent before it.\<close>

definition quiet :: "(conn \<Rightarrow> 'r \<times> conn) \<Rightarrow> bool" where
  "quiet op \<longleftrightarrow> (\<forall>c. \<exists>new. c_sent (snd (op c)) = c_sent c @ new \<and> filter is_resume new = [])"

named_theorems quiet_intros \<open>operations that send no resume\<close>

lemma quietI: "(\<And>c. \<exists>new. c_sent (snd (op c)) = c_sent c @ new \<and> filter is_resume new = []) \<Longrightarrow> quiet op"
  by (simp add: quiet_def)

lemma quietD: "quiet op \<Longrightarrow> \<exists>new. c_sent (snd (op c)) = c_sent c @ new \<and> filter is_resume new = []"
  by (simp add: quiet_def)

lemma quiet_exchange [quiet_intros]:
  assumes "(cset, cmd) \<noteq> (CS_VIRTUAL_MACHINE, VM_RESUME)" "(cset, cmd) \<noteq> (CS_THREAD_REFERENCE, T_RESUME)"
  shows "quiet (exchange d (request cset cmd data) dec)"
  using assms
  by (intro quietI) (auto simp: exchange_def request_def next_id_def send_command_def cbind_def clift_def
      conn_issue_def Let_def is_resume_def command_packet_new_def split: option.split sum.split)

lemma quiet_creturn [quiet_intros]: "quiet (creturn a)" "quiet (clift r)" "quiet (set_types f)"
  by (auto intro!: quietI simp: creturn_def clift_def set_types_def)

lemma quiet_cbind [quiet_intros]:
  assumes "quiet op" "\<And>a. quiet (f a)"
  shows "quiet (cbind op f)"
proof (rule quietI)
  fix c
  obtain new where 1: "c_sent (snd (op c)) = c_sent c @ new" "filter is_resume new = []"
    using quietD [OF assms(1)] by blast
  show "\<exists>new. c_sent (snd (cbind op f c)) = c_sent c @ new \<and> filter is_resume new = []"
  proof (cases "fst (op c)")
    case (Inl e)
    then show ?thesis using 1 by (auto simp: cbind_def case_prod_unfold)
  next
    case (Inr a)
    obtain more where "c_sent (snd (f a (snd (op c)))) = c_sent (snd (op c)) @ more" "filter is_resume more = []"
      using quietD [OF assms(2)] by blast
    then show ?thesis using 1 Inr by (auto simp: cbind_def case_prod_unfold)
  qed
qed

text \<open>An operation run for whatever it gives, its result handed on.\<close>

lemma quiet_case_result:
  assumes "quiet op" "\<And>a. quiet (f a)"
  shows "quiet (\<lambda>c. case op c of (r, c') \<Rightarrow> f r c')"
proof (rule quietI)
  fix c
  obtain new where 1: "c_sent (snd (op c)) = c_sent c @ new" "filter is_resume new = []"
    using quietD [OF assms(1)] by blast
  obtain rest where "c_sent (snd (f (fst (op c)) (snd (op c)))) = c_sent (snd (op c)) @ rest"
    "filter is_resume rest = []" using quietD [OF assms(2)] by blast
  then show "\<exists>new. c_sent (snd (case op c of (r, c') \<Rightarrow> f r c')) = c_sent c @ new \<and> filter is_resume new = []"
    using 1 by (auto simp: case_prod_unfold)
qed

lemma quiet_ccatch [quiet_intros]: "quiet op \<Longrightarrow> (\<And>r. quiet (f r)) \<Longrightarrow> quiet (ccatch op f)"
  unfolding ccatch_def [abs_def] by (rule quiet_case_result)

lemma quiet_if [quiet_intros]: "quiet f \<Longrightarrow> quiet g \<Longrightarrow> quiet (if b then f else g)"
  by simp

lemmas quiet_op_defs = get_line_table_def line_table_request_def get_frames_def clear_request_def
  clear_breakpoint_def clear_exception_request_def clear_field_watch_def clear_method_exit_request_def
  clear_monitor_request_def get_all_threads_def suspend_all_def suspend_count_def get_thread_name_def
  thread_read_request_def read_methods_def

lemma quiet_ops [quiet_intros]:
  "quiet (get_line_table d k m)" "quiet (get_frames d t a n)" "quiet (clear_breakpoint d r)"
  "quiet (clear_exception_request d r)" "quiet (clear_field_watch d r wk)"
  "quiet (clear_method_exit_request d r b)" "quiet (clear_monitor_request d r mk)"
  "quiet (get_all_threads d)" "quiet (suspend_all d)" "quiet (suspend_count d t)"
  "quiet (get_thread_name d t)" "quiet (read_methods d k b)"
  unfolding quiet_op_defs by (rule quiet_exchange; simp add: command_defs)+

lemma quiet_get_methods [quiet_intros]: "quiet (get_methods d k)"
proof (rule quietI)
  fix c
  have "quiet (cbind (ccatch (read_methods d k True)
      (\<lambda>r. if not_implemented r then read_methods d k False else clift r)) (\<lambda>ms.
      cbind (set_types (put_methods k ms)) (\<lambda>_. creturn ms)))"
    by (intro quiet_intros)
  from quietD [OF this, of c]
  show "\<exists>new. c_sent (snd (get_methods d k c)) = c_sent c @ new \<and> filter is_resume new = []"
    by (auto simp: get_methods_def creturn_def split: option.split)
qed

lemma quiet_clear_requests [quiet_intros]: "quiet (clear_requests d on rs)"
proof (induction rs)
  case (Cons r rs)
  have "quiet (clear_one_request d on r)"
    by (cases on) (simp_all, (rule quiet_intros)+)
  then show ?case unfolding clear_requests.simps using Cons.IH by (intro quiet_cbind)
qed (unfold clear_requests.simps, rule quiet_intros)

lemma quiet_send_all:
  "\<forall>op\<in>set ops. quiet op \<Longrightarrow> \<exists>new. c_sent (send_all ops c) = c_sent c @ new \<and> filter is_resume new = []"
proof (induction ops arbitrary: c)
  case (Cons op ops)
  obtain a where a: "c_sent (snd (op c)) = c_sent c @ a" "filter is_resume a = []"
    using Cons.prems quietD [of op c] by auto
  obtain b where "c_sent (send_all ops (snd (op c))) = c_sent (snd (op c)) @ b" "filter is_resume b = []"
    using Cons.IH [of "snd (op c)"] Cons.prems by auto
  then show ?case using a by auto
qed simp

lemma quiet_const [quiet_intros]: "quiet (\<lambda>c. (x, c))"
  by (auto intro!: quietI)

lemma quiet_sum:
  assumes "quiet op" "\<And>e. quiet (f e)" "\<And>a. quiet (g a)"
  shows "quiet (\<lambda>c. case op c of (Inl e, c') \<Rightarrow> f e c' | (Inr a, c') \<Rightarrow> g a c')"
proof -
  have "quiet (\<lambda>c. case op c of (r, c') \<Rightarrow> (case r of Inl e \<Rightarrow> f e | Inr a \<Rightarrow> g a) c')"
    by (rule quiet_case_result [OF assms(1)]) (auto split: sum.split intro: assms)
  moreover have "(case op c of (r, c') \<Rightarrow> (case r of Inl e \<Rightarrow> f e | Inr a \<Rightarrow> g a) c')
      = (case op c of (Inl e, c') \<Rightarrow> f e c' | (Inr a, c') \<Rightarrow> g a c')" for c
    by (cases "op c") (auto split: sum.split)
  ultimately show ?thesis by simp
qed

lemma quiet_source_line [quiet_intros]: "quiet (source_line d k m i)"
proof -
  have "quiet (\<lambda>c. case get_line_table d k m c of
      (Inl _, c') \<Rightarrow> (None, c') | (Inr lt, c') \<Rightarrow> (line_at lt i, c'))"
    by (rule quiet_sum) (rule quiet_intros)+
  then show ?thesis by (simp add: source_line_def [abs_def])
qed

lemma quiet_frame_method_info [quiet_intros]: "quiet (frame_method_info d loc)"
proof -
  let ?unnamed = "''method@'' @ show_hex (unat (loc_method_id loc))"
  have "quiet (\<lambda>c. case find (\<lambda>m. mi_method_id m = loc_method_id loc) ms of
      None \<Rightarrow> ((?unnamed, None), c)
    | Some m \<Rightarrow> (case source_line d (loc_class_id loc) (loc_method_id loc) (loc_index loc) c of
        (line, c2) \<Rightarrow> ((mi_name m, line), c2)))" for ms
    by (cases "find (\<lambda>m. mi_method_id m = loc_method_id loc) ms")
      (auto intro!: quiet_case_result quiet_intros)
  then have "quiet (\<lambda>c. case get_methods d (loc_class_id loc) c of
      (Inl _, c1) \<Rightarrow> ((?unnamed, None), c1)
    | (Inr ms, c1) \<Rightarrow> (case find (\<lambda>m. mi_method_id m = loc_method_id loc) ms of
         None \<Rightarrow> ((?unnamed, None), c1)
       | Some m \<Rightarrow> (case source_line d (loc_class_id loc) (loc_method_id loc) (loc_index loc) c1 of
           (line, c2) \<Rightarrow> ((mi_name m, line), c2))))"
    by (intro quiet_sum quiet_intros)
  then show ?thesis by (simp only: frame_method_info_def [abs_def] Let_def)
qed

lemma quiet_method_name_matches [quiet_intros]: "quiet (method_name_matches d f loc)"
proof (cases f)
  case None
  then show ?thesis by (simp add: method_name_matches_def [abs_def] quiet_const)
next
  case (Some want)
  have "quiet (\<lambda>c. case frame_method_info d loc c of (r, c') \<Rightarrow> (fst r = want, c'))"
    by (intro quiet_case_result quiet_intros)
  then show ?thesis using Some by (simp add: method_name_matches_def [abs_def] case_prod_unfold Let_def)
qed

section \<open>What handling a hit may touch\<close>

definition entry_step :: "u32 \<Rightarrow> string \<times> stop_point \<Rightarrow> string \<times> stop_point \<Rightarrow> bool" where
  "entry_step req = (\<lambda>(k, v) (k', v'). k' = k \<and> sp_id v' = sp_id v \<and> sp_trace v' = sp_trace v
     \<and> set (sp_request_ids v') \<subseteq> set (sp_request_ids v) \<and> (v' = v \<or> owns_request req v))"

definition points_step :: "u32 \<Rightarrow> session_state \<Rightarrow> session_state \<Rightarrow> bool" where
  "points_step req st st' = list_all2 (entry_step req) (ss_stop_points st) (ss_stop_points st')"

definition resumes_between :: "debug_session \<Rightarrow> debug_session \<Rightarrow> command_packet list \<Rightarrow> bool" where
  "resumes_between s s' rs \<longleftrightarrow>
     (\<exists>new. c_sent (ds_connection s') = c_sent (ds_connection s) @ new \<and> filter is_resume new = rs)"

text \<open>Nothing is reported, nothing is recorded as suspended, nothing resumed, no other stop point touched.\<close>

definition hit_step :: "u32 \<Rightarrow> debug_session \<Rightarrow> debug_session \<Rightarrow> bool" where
  "hit_step req s s' \<longleftrightarrow> points_step req (ds_state s) (ds_state s') \<and> ds_events s' = ds_events s
     \<and> ds_suspensions s' = ds_suspensions s \<and> ds_last_thread s' = ds_last_thread s \<and> resumes_between s s' []"

definition keyed :: "session_state \<Rightarrow> bool" where
  "keyed st \<longleftrightarrow> hm_ok (ss_stop_points st) \<and> (\<forall>(k, sp)\<in>set (ss_stop_points st). k = sp_id sp)"

lemma state_ok_keyed: "state_ok st \<Longrightarrow> keyed st"
  by (simp add: state_ok_def keyed_def)

lemma entry_step_refl [simp]: "entry_step req e e"
  by (simp add: entry_step_def case_prod_unfold)

lemma entry_step_trans: "entry_step req a b \<Longrightarrow> entry_step req b c \<Longrightarrow> entry_step req a c"
  by (auto simp: entry_step_def owns_request_def)

lemma points_step_refl [simp]: "points_step req st st"
  by (simp add: points_step_def list.rel_refl)

lemma points_step_trans: "points_step req a b \<Longrightarrow> points_step req b c \<Longrightarrow> points_step req a c"
  unfolding points_step_def by (rule list_all2_trans [of "entry_step req" "entry_step req"]) (rule entry_step_trans)

lemma resumes_between_refl: "resumes_between s s []"
  by (simp add: resumes_between_def)

lemma resumes_between_trans: "resumes_between a b rs \<Longrightarrow> resumes_between b c qs \<Longrightarrow> resumes_between a c (rs @ qs)"
  by (fastforce simp: resumes_between_def)

lemma hit_step_refl [simp]: "hit_step req s s"
  by (simp add: hit_step_def resumes_between_refl)

lemma hit_step_trans [trans]: "hit_step req a b \<Longrightarrow> hit_step req b c \<Longrightarrow> hit_step req a c"
  by (auto simp: hit_step_def intro: points_step_trans dest: resumes_between_trans)

lemma points_step_keyed:
  assumes "points_step req st st'" "keyed st"
  shows "keyed st'"
proof -
  have "map fst (ss_stop_points st') = map fst (ss_stop_points st)
      \<and> (\<forall>(k, sp)\<in>set (ss_stop_points st'). k = sp_id sp)"
    using assms(1) [unfolded points_step_def] assms(2) [unfolded keyed_def, THEN conjunct2]
    by (induction rule: list_all2_induct) (auto simp: entry_step_def)
  then show ?thesis using assms(2) by (simp add: keyed_def hm_ok_def)
qed

text \<open>A stop point that does not own the request is still there.\<close>

lemma entries_step_other:
  "list_all2 (entry_step req) m m' \<Longrightarrow> sp \<in> snd ` set m \<Longrightarrow> \<not> owns_request req sp \<Longrightarrow> sp \<in> snd ` set m'"
  by (induction rule: list_all2_induct) (auto simp: entry_step_def)

lemma points_step_other:
  "points_step req st st' \<Longrightarrow> sp \<in> set (stop_point_values st) \<Longrightarrow> \<not> owns_request req sp
     \<Longrightarrow> sp \<in> set (stop_point_values st')"
  unfolding points_step_def stop_point_values_def set_map by (rule entries_step_other)

section \<open>Each part of a hit is such a step\<close>

lemma modify_first_step:
  assumes "\<And>k v. P v \<Longrightarrow> entry_step req (k, v) (k, f v)"
  shows "list_all2 (entry_step req) m (modify_first P f m)"
  by (induction m) (auto simp: list.rel_refl assms)

lemma modify_owner_step:
  assumes "\<And>sp. owns_request req sp \<Longrightarrow> sp_id (f sp) = sp_id sp \<and> sp_trace (f sp) = sp_trace sp
      \<and> set (sp_request_ids (f sp)) \<subseteq> set (sp_request_ids sp)"
  shows "points_step req st (modify_owner req f st)"
  unfolding points_step_def modify_owner_def
  by (simp, rule modify_first_step) (use assms in \<open>auto simp: entry_step_def\<close>)

lemma on_state_step: "points_step req (ds_state s) (f (ds_state s)) \<Longrightarrow> hit_step req s (on_state f s)"
  by (simp add: hit_step_def on_state_def resumes_between_def)

lemma on_conn_step:
  assumes "quiet f"
  shows "hit_step req s (snd (on_conn f s))"
  using quietD [OF assms, of "ds_connection s"]
  by (auto simp: hit_step_def on_conn_def case_prod_unfold resumes_between_def)

lemma note_disarmed_points [simp]: "ss_stop_points (note_disarmed_traced r st) = ss_stop_points st"
  by (simp add: note_disarmed_traced_def)

lemma fold_note_disarmed_points [simp]: "ss_stop_points (fold note_disarmed_traced rs st) = ss_stop_points st"
  by (induction rs arbitrary: st) simp_all

lemma note_in_flight_points [simp]: "ss_stop_points (note_traced_in_flight b rs st) = ss_stop_points st"
  by (simp add: note_traced_in_flight_def)

lemma same_points_step: "ss_stop_points st' = ss_stop_points st \<Longrightarrow> points_step req st st'"
  by (simp add: points_step_def list.rel_refl)

lemma update_step:
  assumes "map_of m k = Some w" "entry_step req (k, w) (k, v)"
  shows "list_all2 (entry_step req) m (AList.update k v m)"
  using assms by (induction m) (auto simp: list.rel_refl)

lemma hm_get_owner:
  assumes "keyed st" "owner_of req st = Some sp"
  shows "hm_get (sp_id sp) (ss_stop_points st) = Some sp" "owns_request req sp"
    "sp \<in> set (stop_point_values st)"
proof -
  have "sp \<in> set (stop_point_values st) \<and> owns_request req sp"
    using assms(2) by (auto simp: owner_of_def find_Some_iff)
  then show "owns_request req sp" "sp \<in> set (stop_point_values st)" by simp_all
  then obtain k where "(k, sp) \<in> set (ss_stop_points st)" by (auto simp: stop_point_values_def)
  then show "hm_get (sp_id sp) (ss_stop_points st) = Some sp"
    using assms(1) hm_get_iff [of "ss_stop_points st"] by (auto simp: keyed_def)
qed

lemma disarm_request_step:
  assumes "keyed (ds_state s)"
  shows "hit_step req s (snd (disarm_request d req s))"
proof -
  define s1 where "s1 = (if find_traced_request req (ds_state s) \<noteq> None
    then on_state (note_disarmed_traced req) s else s)"
  have 1: "hit_step req s s1" by (simp add: s1_def on_state_step same_points_step)
  have keyed1: "keyed (ds_state s1)"
    using points_step_keyed [OF _ assms, of req "ds_state s1"] 1 by (simp add: hit_step_def)
  show ?thesis
  proof (cases "owner_of req (ds_state s1)")
    case None
    then show ?thesis using 1 by (simp add: disarm_request_def Let_def s1_def)
  next
    case (Some sp)
    define s2 where "s2 = snd (on_conn (clear_stop_point_requests d sp) s1)"
    have "quiet (clear_stop_point_requests d sp)"
      unfolding clear_stop_point_requests_def by (rule quiet_intros)
    then have 2: "hit_step req s1 s2" by (simp add: s2_def on_conn_step)
    have state2: "ds_state s2 = ds_state s1" by (simp add: s2_def on_conn_def case_prod_unfold)
    have "entry_step req (sp_id sp, sp) (sp_id sp, retire sp)"
      using hm_get_owner [OF keyed1 Some] by (simp add: entry_step_def retire_def)
    then have "points_step req (ds_state s2) (modify_stop_point (sp_id sp) retire (ds_state s2))"
      using hm_get_owner(1) [OF keyed1 Some] update_step [of "ss_stop_points (ds_state s1)"]
      by (simp add: state2 modify_stop_point_def points_step_def hm_put_def hm_get_def)
    then have 3: "hit_step req s2 (on_state (modify_stop_point (sp_id sp) retire) s2)"
      by (rule on_state_step)
    have "snd (disarm_request d req s) = on_state (modify_stop_point (sp_id sp) retire) s2"
      unfolding disarm_request_def Let_def s1_def [symmetric] using Some by (simp add: s2_def case_prod_unfold)
    then show ?thesis using hit_step_trans [OF hit_step_trans [OF 1 2] 3] by simp
  qed
qed

lemma spend_step: "hit_step req s (spend_if_counted d req s)"
proof (cases "owner_of req (ds_state s)")
  case None
  then show ?thesis by (simp add: spend_if_counted_def)
next
  case (Some sp)
  define survivors where "survivors = filter (\<lambda>r. r \<noteq> req) (sp_request_ids sp)"
  define s1 where "s1 = on_state (modify_owner req (\<lambda>sp. (retire sp)\<lparr>sp_spent := True\<rparr>)) s"
  define s2 where "s2 = on_state (note_traced_in_flight (sp_trace sp) survivors) s1"
  have 1: "hit_step req s s1"
    unfolding s1_def by (intro on_state_step modify_owner_step) (simp add: retire_def)
  have 2: "hit_step req s1 s2" by (simp add: s2_def on_state_step same_points_step)
  have "\<forall>op\<in>set (map (clear_breakpoint d) survivors). quiet op" by (auto intro: quiet_intros)
  then have 3: "hit_step req s2 (s2\<lparr>ds_connection := send_all (map (clear_breakpoint d) survivors) (ds_connection s2)\<rparr>)"
    using quiet_send_all by (simp add: hit_step_def resumes_between_def)
  show ?thesis
    using hit_step_trans [OF hit_step_trans [OF 1 2] 3] Some
    by (simp add: spend_if_counted_def Let_def survivors_def s1_def s2_def)
qed

lemma charge_step:
  assumes "keyed (ds_state s)"
  shows "hit_step req s (snd (charge_trace_budget d req s))"
proof -
  define s1 where "s1 = s\<lparr>ds_state := snd (decrement_trace_budget req (ds_state s))\<rparr>"
  have "points_step req (ds_state s) (ds_state s1)"
    unfolding s1_def decrement_trace_budget_def
    by (auto simp: Let_def split: option.split intro: modify_owner_step)
  then have 1: "hit_step req s s1" by (simp add: hit_step_def s1_def resumes_between_def)
  have "keyed (ds_state s1)"
    using points_step_keyed assms 1 by (auto simp: hit_step_def)
  then have "hit_step req s (snd (disarm_request d req s1))"
    using hit_step_trans [OF 1 disarm_request_step] by blast
  then show ?thesis
    using 1 unfolding charge_trace_budget_def s1_def
    by (auto simp: case_prod_unfold Let_def split: option.split prod.split)
qed

lemma span_step: "hit_step req s (snd (span_monitor_event spec details now s))"
  by (auto simp: span_monitor_event_def hit_step_def resumes_between_def Let_def case_prod_unfold split: option.split)

lemma file_record_step: "hit_step req s (snd (file_trace_record tq span rec r t details s))"
  by (simp add: file_trace_record_def hit_step_def resumes_between_def Let_def case_prod_unfold)

text \<open>The readers of the environment send no resume of their own.\<close>

definition readers_quiet :: "pump_env \<Rightarrow> bool" where
  "readers_quiet env \<longleftrightarrow> (\<forall>t fr cond b. quiet (pe_eval_condition env t fr cond b))
     \<and> (\<forall>tq t loc details. quiet (pe_capture env tq t loc details))"

lemma quiet_evaluate_condition:
  assumes "readers_quiet env"
  shows "quiet (evaluate_condition_on_thread env t cond b)"
proof -
  have eval: "quiet (\<lambda>c. case pe_eval_condition env t fr cond b c of (Inl e, c2) \<Rightarrow> (True, c2) | (Inr v, c2) \<Rightarrow> (v, c2))" for fr
    by (rule quiet_sum) (use assms in \<open>auto simp: readers_quiet_def intro: quiet_const\<close>)
  have "quiet (\<lambda>c1. case frs of [] \<Rightarrow> (True, c1)
    | fr # _ \<Rightarrow> (case pe_eval_condition env t fr cond b c1 of (Inl e, c2) \<Rightarrow> (True, c2) | (Inr v, c2) \<Rightarrow> (v, c2)))" for frs
    by (cases frs) (auto intro: eval quiet_const)
  then have "quiet (\<lambda>c. case get_frames (pe_debuggee env) t 0 1 c of (Inl _, c1) \<Rightarrow> (True, c1)
    | (Inr frs, c1) \<Rightarrow> (case frs of [] \<Rightarrow> (True, c1)
        | fr # _ \<Rightarrow> (case pe_eval_condition env t fr cond b c1 of (Inl e, c2) \<Rightarrow> (True, c2) | (Inr v, c2) \<Rightarrow> (v, c2))))"
    by (intro quiet_sum quiet_ops quiet_const)
  moreover have "(case get_frames (pe_debuggee env) t 0 1 c of (Inl _, c1) \<Rightarrow> (True, c1)
    | (Inr frs, c1) \<Rightarrow> (case frs of [] \<Rightarrow> (True, c1)
        | fr # _ \<Rightarrow> (case pe_eval_condition env t fr cond b c1 of (Inl e, c2) \<Rightarrow> (True, c2) | (Inr v, c2) \<Rightarrow> (v, c2))))
    = evaluate_condition_on_thread env t cond b c" for c
    unfolding evaluate_condition_on_thread_def
    by (auto split: prod.split sum.split list.split)
  ultimately show ?thesis by (metis (no_types, lifting) ext)
qed

lemma quiet_skip_hit:
  assumes "readers_quiet env"
  shows "quiet (skip_hit env tq wrong span t details)"
proof -
  have "quiet (\<lambda>c. case evaluate_condition_on_thread env t cond b c of (holds, c') \<Rightarrow> (\<not> holds, c'))" for cond b
    by (intro quiet_case_result quiet_evaluate_condition assms quiet_const)
  then show ?thesis
    unfolding quiet_def skip_hit_def Let_def by (auto split: option.split)
qed

lemma record_snapshot_step:
  assumes "readers_quiet env" "keyed (ds_state s)"
  shows "hit_step req s (record_snapshot env tq span req t loc details s)"
proof -
  let ?capture = "pe_capture env tq t loc details"
  define s1 where "s1 = snd (on_conn ?capture s)"
  define started where "started = pe_clock env (ds_connection s)"
  define s2 where "s2 = on_state (record_trace_cost req started (since_then (pe_clock env (ds_connection s1)) started)) s1"
  define filed where "filed = file_trace_record tq span (fst (on_conn ?capture s)) req t details s2"
  have 1: "hit_step req s s1"
    unfolding s1_def by (rule on_conn_step) (use assms(1) in \<open>simp add: readers_quiet_def\<close>)
  have 2: "hit_step req s1 s2"
    unfolding s2_def record_trace_cost_def by (intro on_state_step modify_owner_step) simp
  have 3: "hit_step req s (snd filed)"
    unfolding filed_def by (rule hit_step_trans [OF hit_step_trans [OF 1 2] file_record_step])
  have keyed3: "keyed (ds_state (snd filed))"
    using points_step_keyed [OF _ assms(2)] 3 by (auto simp: hit_step_def)
  have 4: "hit_step req s (snd (charge_trace_budget (pe_debuggee env) req (snd filed)))"
    by (rule hit_step_trans [OF 3 charge_step [OF keyed3]])
  have 5: "hit_step req s s4 \<Longrightarrow> hit_step req s (s4\<lparr>ds_traces := tb\<rparr>)" for s4 tb
    by (simp add: hit_step_def resumes_between_def)
  have "record_snapshot env tq span req t loc details s = (case fst filed of
      First_throw \<Rightarrow> (case charge_trace_budget (pe_debuggee env) req (snd filed) of
          (None, s4) \<Rightarrow> s4 | (Some label, s4) \<Rightarrow> s4\<lparr>ds_traces := note_disarm label (ds_traces s4)\<rparr>)
    | Rethrow _ _ \<Rightarrow> snd filed)"
    unfolding record_snapshot_def Let_def filed_def s2_def s1_def started_def case_prod_unfold by (rule refl)
  then show ?thesis
    using 3 4 by (auto split: throw_kind.split prod.split option.split intro: 5)
qed

lemma record_one_step:
  assumes "readers_quiet env" "keyed (ds_state s)"
  shows "hit_step (ev_request_id ev) s (snd (record_one_traced_event env ev s))"
proof (cases "event_location (ev_details ev)")
  case None
  then show ?thesis by (simp add: record_one_traced_event_def)
next
  case (Some tl)
  obtain t loc where tl: "tl = (t, loc)" by (cases tl)
  let ?req = "ev_request_id ev"
  show ?thesis
  proof (cases "find_traced_request ?req (ds_state s)")
    case None
    then show ?thesis using Some tl by (simp add: record_one_traced_event_def)
  next
    case (Some tq)
    define named where "named = on_conn (method_name_matches (pe_debuggee env) (tq_method_filter tq) loc) s"
    define s2 where "s2 = on_state (if fst named then record_stop_point_hit ?req else record_discarded_exit ?req) (snd named)"
    define spanned where "spanned = (case tq_monitor tq of None \<Rightarrow> (None, s2)
      | Some spec \<Rightarrow> span_monitor_event spec (ev_details ev) (pe_clock env (ds_connection s2)) s2)"
    define skipped where "skipped = on_conn (skip_hit env tq (\<not> fst named) (fst spanned) t (ev_details ev)) (snd spanned)"
    define s5 where "s5 = (if fst skipped then snd skipped
      else record_snapshot env tq (fst spanned) ?req t loc (ev_details ev) (snd skipped))"
    have 1: "hit_step ?req s (snd named)" unfolding named_def by (intro on_conn_step quiet_intros)
    have 2: "hit_step ?req (snd named) s2"
      unfolding s2_def by (rule on_state_step)
        (auto simp: record_stop_point_hit_def record_discarded_exit_def split: armed_on.splits intro!: modify_owner_step)
    have 3: "hit_step ?req s2 (snd spanned)"
      by (cases "tq_monitor tq") (simp_all add: spanned_def span_step)
    have 4: "hit_step ?req (snd spanned) (snd skipped)"
      unfolding skipped_def by (intro on_conn_step quiet_skip_hit assms)
    have upto: "hit_step ?req s (snd skipped)"
      by (rule hit_step_trans [OF hit_step_trans [OF 1 2] hit_step_trans [OF 3 4]])
    then have "keyed (ds_state (snd skipped))" using points_step_keyed assms(2) by (auto simp: hit_step_def)
    then have 5: "hit_step ?req (snd skipped) s5"
      by (simp add: s5_def record_snapshot_step [OF assms(1)])
    have "record_one_traced_event env ev s = (Some t, spend_if_counted (pe_debuggee env) ?req s5)"
      unfolding record_one_traced_event_def Let_def \<open>event_location _ = _\<close> tl option.case split_conv Some
      unfolding s5_def skipped_def spanned_def s2_def named_def case_prod_unfold by (rule refl)
    then show ?thesis using hit_step_trans [OF upto hit_step_trans [OF 5 spend_step]] by simp
  qed
qed

section \<open>Traced composites\<close>

lemma find_traced_iff:
  "find_traced_request req st \<noteq> None \<longleftrightarrow> (\<exists>sp\<in>set (stop_point_values st). owns_request req sp \<and> sp_trace sp)"
  by (auto simp: find_traced_request_def find_None_iff)

lemma record_one_thread:
  assumes "event_location (ev_details ev) = Some (t, loc)" "find_traced_request (ev_request_id ev) (ds_state s) \<noteq> None"
  shows "fst (record_one_traced_event env ev s) = Some t"
  using assms by (auto simp: record_one_traced_event_def Let_def case_prod_unfold)

text \<open>Every request of the composite is traced, by a stop point that owns none of those before it.\<close>

definition separately_traced :: "u32 list \<Rightarrow> session_state \<Rightarrow> bool" where
  "separately_traced reqs st =
     list_all (\<lambda>i. list_ex (\<lambda>sp. sp_trace sp \<and> owns_request (reqs ! i) sp
         \<and> list_all (\<lambda>r. \<not> owns_request r sp) (take i reqs)) (stop_point_values st)) [0..<length reqs]"

lemma separately_traced_Cons:
  assumes "separately_traced (r # rs) st" "points_step r st st'"
  shows "separately_traced rs st'"
proof -
  have "list_ex (\<lambda>sp. sp_trace sp \<and> owns_request (rs ! i) sp \<and> list_all (\<lambda>r. \<not> owns_request r sp) (take i rs))
      (stop_point_values st')" if "i < length rs" for i
  proof -
    have "Suc i \<in> set [0..<length (r # rs)]" using that by (simp del: upt_Suc)
    then obtain sp where sp: "sp \<in> set (stop_point_values st)" "sp_trace sp" "owns_request (rs ! i) sp"
        "\<not> owns_request r sp" "list_all (\<lambda>r. \<not> owns_request r sp) (take i rs)"
      using assms(1) unfolding separately_traced_def list_all_iff list_ex_iff by fastforce
    then show ?thesis using points_step_other [OF assms(2)] by (auto simp: list_ex_iff)
  qed
  then show ?thesis by (simp add: separately_traced_def list_all_iff)
qed

lemma record_all_traced:
  assumes "readers_quiet env" "keyed (ds_state s)" "\<forall>e\<in>set es. event_location (ev_details e) \<noteq> None"
    "separately_traced (map ev_request_id es) (ds_state s)" "es \<noteq> []"
  shows "\<exists>t loc s'. record_traced_events env es handled True s = ((Some t, True), s')
    \<and> event_location (ev_details (last es)) = Some (t, loc)
    \<and> ds_events s' = ds_events s \<and> ds_suspensions s' = ds_suspensions s
    \<and> ds_last_thread s' = ds_last_thread s \<and> resumes_between s s' []"
  using assms(2-5)
proof (induction es arbitrary: s handled)
  case (Cons e es)
  let ?req = "ev_request_id e"
  obtain t loc where loc: "event_location (ev_details e) = Some (t, loc)" using Cons.prems(2) by auto
  have "0 \<in> set [0..<length (map ev_request_id (e # es))]" by simp
  then have "find_traced_request ?req (ds_state s) \<noteq> None"
    using Cons.prems(3) unfolding separately_traced_def list_all_iff list_ex_iff find_traced_iff by fastforce
  then obtain s1 where s1: "record_one_traced_event env e s = (Some t, s1)"
    using record_one_thread [OF loc] by (metis prod.collapse)
  have step: "hit_step ?req s s1" using record_one_step [OF assms(1) Cons.prems(1), of e] s1 by simp
  then have points: "points_step ?req (ds_state s) (ds_state s1)" by (simp add: hit_step_def)
  show ?case
  proof (cases "es = []")
    case True
    then show ?thesis using s1 loc step by (auto simp: hit_step_def)
  next
    case False
    have "keyed (ds_state s1)" "separately_traced (map ev_request_id es) (ds_state s1)"
      using points_step_keyed [OF points Cons.prems(1)] separately_traced_Cons [OF _ points] Cons.prems(3)
      by simp_all
    then show ?thesis
      using Cons.IH [of s1 "Some t"] Cons.prems(2) False s1 step
      by (fastforce simp: hit_step_def dest: resumes_between_trans)
  qed
qed simp

lemma exchange_connected:
  assumes "\<forall>h p. dbg_gone d h p = None"
  shows "\<exists>p. c_sent (snd (exchange d (request cset cmd data) dec c)) = c_sent c @ [p]
    \<and> cp_command_set p = cset \<and> cp_command p = cmd \<and> cp_data p = data"
  using assms
  by (auto simp: exchange_def request_def next_id_def send_command_def cbind_def clift_def conn_issue_def
      Let_def command_packet_new_def split: sum.split)

text \<open>The packets that let one thread go, and that let the whole VM go.\<close>

definition resumes_thread :: "u64 \<Rightarrow> command_packet \<Rightarrow> bool" where
  "resumes_thread t p \<longleftrightarrow> cp_command_set p = CS_THREAD_REFERENCE \<and> cp_command p = T_RESUME \<and> cp_data p = put_be 8 t"

definition resumes_vm :: "command_packet \<Rightarrow> bool" where
  "resumes_vm p \<longleftrightarrow> cp_command_set p = CS_VIRTUAL_MACHINE \<and> cp_command p = VM_RESUME"

lemma resume_thread_sends:
  assumes "\<forall>h p. dbg_gone d h p = None"
  shows "\<exists>p. resumes_between s (snd (on_conn (resume_thread d t) s)) [p] \<and> resumes_thread t p"
  using exchange_connected [OF assms, of CS_THREAD_REFERENCE T_RESUME "put_be 8 t" check_error "ds_connection s"]
  by (auto simp: resumes_between_def on_conn_def case_prod_unfold resume_thread_def resumes_thread_def is_resume_def)

lemma resume_all_sends:
  assumes "\<forall>h p. dbg_gone d h p = None"
  shows "\<exists>p. resumes_between s (snd (on_conn (resume_all d) s)) [p] \<and> resumes_vm p"
  using exchange_connected [OF assms, of CS_VIRTUAL_MACHINE VM_RESUME "[]" check_error "ds_connection s"]
  by (auto simp: resumes_between_def on_conn_def case_prod_unfold resume_all_def resumes_vm_def is_resume_def)

text \<open>
  Whether a traced hit is one to record: its method filter accepts the location, the monitor event closes a
  long enough span, and its condition holds - each evaluated after the one before; and the connection at which
  its snapshot is read.
\<close>

definition trace_verdict :: "pump_env \<Rightarrow> traced_request \<Rightarrow> event \<Rightarrow> u64 \<Rightarrow> location \<Rightarrow> debug_session \<Rightarrow> bool \<times> conn" where
  "trace_verdict env tq ev t loc s =
     (let (named, c) = method_name_matches (pe_debuggee env) (tq_method_filter tq) loc (ds_connection s);
          spanned = Option.bind (tq_monitor tq)
            (\<lambda>spec. map_option (monitor_hit_is_recordable spec) (fst (span_monitor_event spec (ev_details ev) (pe_clock env c) s)))
      in if \<not> named \<or> spanned = Some False then (False, c)
         else (case tq_condition tq of
             None \<Rightarrow> (True, c)
           | Some cond \<Rightarrow> evaluate_condition_on_thread env t cond (condition_bindings_of (ev_details ev)) c))"

text \<open>
  What a traced hit leaves in the buffer: a hit to record leaves its snapshot as the newest record, under the
  next number, and nothing but older records goes for it; any other hit leaves the buffer as it was.
\<close>

definition traced_hit :: "pump_env \<Rightarrow> event \<Rightarrow> debug_session \<Rightarrow> debug_session \<Rightarrow> bool" where
  "traced_hit env ev s s' \<longleftrightarrow> (\<exists>t loc tq. event_location (ev_details ev) = Some (t, loc)
     \<and> find_traced_request (ev_request_id ev) (ds_state s) = Some tq
     \<and> (case trace_verdict env tq ev t loc s of (wanted, c) \<Rightarrow>
          if wanted then
            (\<exists>kept more folded. subseq kept (tb_held (ds_traces s)) \<and> tb_filed (ds_traces s') = tb_filed (ds_traces s) + 1
               \<and> tb_held (ds_traces s') = kept @ [(fst (pe_capture env tq t loc (ev_details ev) c))
                    \<lparr>tr_seq := tb_filed (ds_traces s) + 1,
                     tr_detail := tr_detail (fst (pe_capture env tq t loc (ev_details ev) c)) @ more,
                     tr_rethrow := folded\<rparr>])
          else tb_held (ds_traces s') = tb_held (ds_traces s) \<and> tb_filed (ds_traces s') = tb_filed (ds_traces s)))"

lemma traces_kept [simp]:
  "ds_traces (snd (on_conn f s)) = ds_traces s" "ds_traces (on_state g s) = ds_traces s"
  "ds_traces (snd (span_monitor_event spec details now s)) = ds_traces s"
  "ds_traces (snd (disarm_request d req s)) = ds_traces s" "ds_traces (spend_if_counted d req s) = ds_traces s"
  "ds_traces (snd (charge_trace_budget d req s)) = ds_traces s"
proof -
  show [simp]: "ds_traces (snd (on_conn f s)) = ds_traces s" "ds_traces (on_state g s) = ds_traces s" for f g s
    by (simp_all add: on_conn_def on_state_def case_prod_unfold)
  show "ds_traces (snd (span_monitor_event spec details now s)) = ds_traces s"
    by (simp add: span_monitor_event_def case_prod_unfold Let_def split: option.split)
  show disarm [simp]: "ds_traces (snd (disarm_request d req s)) = ds_traces s" for s
    by (simp add: disarm_request_def Let_def case_prod_unfold split: option.split)
  show "ds_traces (spend_if_counted d req s) = ds_traces s"
    by (simp add: spend_if_counted_def Let_def split: option.split)
  show "ds_traces (snd (charge_trace_budget d req s)) = ds_traces s"
    using disarm [of "s\<lparr>ds_state := snd (decrement_trace_budget req (ds_state s))\<rparr>"]
    by (auto simp: charge_trace_budget_def case_prod_unfold Let_def split: option.split prod.split)
qed

lemma trace_push_record:
  "\<exists>kept folded. subseq kept (tb_held tb)
     \<and> tb_held (snd (trace_push rec req thread exc tb)) = kept @ [rec\<lparr>tr_seq := tb_filed tb + 1, tr_rethrow := folded\<rparr>]"
proof -
  obtain kind tb2 where c: "classified req thread exc tb = (kind, tb2)" by fastforce
  let ?w = "without (superseded_by kind) (tb_held tb)"
  have w: "subseq ?w (tb_held tb)" by (auto simp: without_def split: option.split)
  then have "subseq (drop 1 ?w) (tb_held tb)" using subseq_drop subseq_order.trans by blast
  then have kept: "\<exists>kept. subseq kept (tb_held tb) \<and> ring_push MAX_TRACES r ?w = kept @ [r]" for r
    using w unfolding ring_push_def by (cases "MAX_TRACES \<le> length ?w") simp_all
  have "\<exists>folded. (case fold_of kind of None \<Rightarrow> rec\<lparr>tr_seq := n\<rparr> | Some fld \<Rightarrow> rec\<lparr>tr_seq := n, tr_rethrow := Some fld\<rparr>)
      = rec\<lparr>tr_seq := n, tr_rethrow := folded\<rparr>" for n
  proof (cases "fold_of kind")
    case None
    then show ?thesis by (intro exI [of _ "tr_rethrow rec"]) simp
  next
    case (Some fld)
    then show ?thesis by (intro exI [of _ "Some fld"]) simp
  qed
  then obtain folded where folded: "(case fold_of kind of None \<Rightarrow> rec\<lparr>tr_seq := tb_filed tb + 1\<rparr>
      | Some fld \<Rightarrow> rec\<lparr>tr_seq := tb_filed tb + 1, tr_rethrow := Some fld\<rparr>) = rec\<lparr>tr_seq := tb_filed tb + 1, tr_rethrow := folded\<rparr>"
    by blast
  obtain k where "subseq k (tb_held tb)" "ring_push MAX_TRACES (rec\<lparr>tr_seq := tb_filed tb + 1, tr_rethrow := folded\<rparr>) ?w
      = k @ [rec\<lparr>tr_seq := tb_filed tb + 1, tr_rethrow := folded\<rparr>]"
    using kept by blast
  then show ?thesis
    unfolding trace_push_shape [OF c] folded by (intro exI [of _ k] exI [of _ folded]) simp
qed

lemma record_snapshot_files:
  "\<exists>kept more folded. subseq kept (tb_held (ds_traces s))
     \<and> tb_filed (ds_traces (record_snapshot env tq span req t loc details s)) = tb_filed (ds_traces s) + 1
     \<and> tb_held (ds_traces (record_snapshot env tq span req t loc details s)) = kept
         @ [(fst (pe_capture env tq t loc details (ds_connection s)))\<lparr>tr_seq := tb_filed (ds_traces s) + 1,
              tr_detail := tr_detail (fst (pe_capture env tq t loc details (ds_connection s))) @ more, tr_rethrow := folded\<rparr>]"
proof -
  let ?rec = "fst (pe_capture env tq t loc details (ds_connection s))"
  define s1 where "s1 = snd (on_conn (pe_capture env tq t loc details) s)"
  define s2 where "s2 = on_state (record_trace_cost req (pe_clock env (ds_connection s))
    (since_then (pe_clock env (ds_connection s1)) (pe_clock env (ds_connection s)))) s1"
  define rec' where "rec' = (case (tq_monitor tq, span) of
      (Some spec, Some sp) \<Rightarrow> ?rec\<lparr>tr_detail := tr_detail ?rec @ [monitor_duration_detail spec sp]\<rparr> | _ \<Rightarrow> ?rec)"
  obtain more where more: "rec' = ?rec\<lparr>tr_detail := tr_detail ?rec @ more\<rparr>"
  proof -
    have "\<exists>more. rec' = ?rec\<lparr>tr_detail := tr_detail ?rec @ more\<rparr>"
      by (cases "tq_monitor tq"; cases span) (auto simp: rec'_def intro: exI [of _ "[]"])
    then show ?thesis using that by blast
  qed
  define pushed where "pushed = trace_push rec' req t (exception_instance details) (ds_traces s)"
  have rec: "fst (on_conn (pe_capture env tq t loc details) s) = ?rec" by (simp add: on_conn_def case_prod_unfold)
  have s2: "ds_traces s2 = ds_traces s" by (simp add: s2_def s1_def)
  have filed: "file_trace_record tq span (fst (on_conn (pe_capture env tq t loc details) s)) req t details s2
      = (fst pushed, s2\<lparr>ds_traces := snd pushed\<rparr>)"
    unfolding file_trace_record_def Let_def rec rec'_def [symmetric] s2 pushed_def [symmetric] by (simp add: case_prod_unfold)
  have "record_snapshot env tq span req t loc details s
      = (case fst pushed of
           First_throw \<Rightarrow> (case charge_trace_budget (pe_debuggee env) req (s2\<lparr>ds_traces := snd pushed\<rparr>) of
               (None, s4) \<Rightarrow> s4 | (Some label, s4) \<Rightarrow> s4\<lparr>ds_traces := note_disarm label (ds_traces s4)\<rparr>)
         | Rethrow _ _ \<Rightarrow> s2\<lparr>ds_traces := snd pushed\<rparr>)"
    unfolding record_snapshot_def Let_def case_prod_unfold s1_def [symmetric] s2_def [symmetric] filed fst_conv snd_conv
    by (rule refl)
  moreover have "ds_traces (snd (charge_trace_budget (pe_debuggee env) req (s2\<lparr>ds_traces := snd pushed\<rparr>))) = snd pushed" by simp
  ultimately have buffer: "tb_held (ds_traces (record_snapshot env tq span req t loc details s)) = tb_held (snd pushed)"
      "tb_filed (ds_traces (record_snapshot env tq span req t loc details s)) = tb_filed (snd pushed)"
    by (simp_all add: case_prod_unfold split: throw_kind.split option.split)
  obtain kept folded where push: "subseq kept (tb_held (ds_traces s))"
      "tb_held (snd pushed) = kept @ [rec'\<lparr>tr_seq := tb_filed (ds_traces s) + 1, tr_rethrow := folded\<rparr>]"
    using trace_push_record [of "ds_traces s" rec' req t "exception_instance details"] unfolding pushed_def by blast
  have "tb_filed (snd pushed) = tb_filed (ds_traces s) + 1" by (simp add: pushed_def push_filed)
  moreover have "rec'\<lparr>tr_seq := n, tr_rethrow := folded\<rparr> = ?rec\<lparr>tr_seq := n, tr_detail := tr_detail ?rec @ more, tr_rethrow := folded\<rparr>" for n
    unfolding more by (cases ?rec) simp
  ultimately show ?thesis
    unfolding buffer push(2) using push(1) by (intro exI [of _ kept] exI [of _ more] exI [of _ folded]) simp
qed

lemma skip_is_verdict:
  assumes "monitored = (case tq_monitor tq of None \<Rightarrow> None | Some spec \<Rightarrow> fst (span_monitor_event spec (ev_details ev) (pe_clock env c) s))"
    and "method_name_matches (pe_debuggee env) (tq_method_filter tq) loc (ds_connection s) = (named, c)"
  shows "(case skip_hit env tq (\<not> named) monitored t (ev_details ev) c of (skip, c') \<Rightarrow> (\<not> skip, c')) = trace_verdict env tq ev t loc s"
proof -
  have "Option.bind (tq_monitor tq)
      (\<lambda>spec. map_option (monitor_hit_is_recordable spec) (fst (span_monitor_event spec (ev_details ev) (pe_clock env c) s))) = Some False
    \<longleftrightarrow> (case (tq_monitor tq, monitored) of (Some spec, Some sp) \<Rightarrow> \<not> monitor_hit_is_recordable spec sp | _ \<Rightarrow> False)"
    unfolding assms(1) by (auto split: option.split)
  then show ?thesis
    by (simp add: trace_verdict_def assms(2) skip_hit_def Let_def case_prod_unfold split: option.split)
qed

lemma span_frame:
  "ds_connection (snd (span_monitor_event spec details now s)) = ds_connection s"
  "ds_monitor_clock s' = ds_monitor_clock s \<Longrightarrow>
     fst (span_monitor_event spec details now s') = fst (span_monitor_event spec details now s)"
  by (simp_all add: span_monitor_event_def case_prod_unfold Let_def split: option.split)

lemma record_one_records:
  assumes "event_location (ev_details ev) = Some (t, loc)" "find_traced_request (ev_request_id ev) (ds_state s) = Some tq"
  shows "traced_hit env ev s (snd (record_one_traced_event env ev s))"
proof -
  let ?req = "ev_request_id ev"
  obtain named c where named: "method_name_matches (pe_debuggee env) (tq_method_filter tq) loc (ds_connection s) = (named, c)"
    by fastforce
  define s2 where "s2 = on_state (if named then record_stop_point_hit ?req else record_discarded_exit ?req) (s\<lparr>ds_connection := c\<rparr>)"
  have s2: "ds_connection s2 = c" "ds_monitor_clock s2 = ds_monitor_clock s" "ds_traces s2 = ds_traces s"
    by (simp_all add: s2_def on_state_def)
  define spanned where "spanned = (case tq_monitor tq of None \<Rightarrow> (None, s2)
    | Some spec \<Rightarrow> span_monitor_event spec (ev_details ev) (pe_clock env c) s2)"
  have spanned: "ds_connection (snd spanned) = c" "ds_traces (snd spanned) = ds_traces s"
    using s2 by (cases "tq_monitor tq"; simp add: spanned_def span_frame(1))+
  note span_frame(2) [OF s2(2)]
  then have "fst spanned = (case tq_monitor tq of None \<Rightarrow> None
      | Some spec \<Rightarrow> fst (span_monitor_event spec (ev_details ev) (pe_clock env c) s))"
    by (simp add: spanned_def split: option.split)
  note verdict = skip_is_verdict [OF this named, where t = t]
  define skipped where "skipped = on_conn (skip_hit env tq (\<not> named) (fst spanned) t (ev_details ev)) (snd spanned)"
  have skipped: "trace_verdict env tq ev t loc s = (\<not> fst skipped, ds_connection (snd skipped))"
      "ds_traces (snd skipped) = ds_traces s"
    using verdict spanned by (simp_all add: skipped_def on_conn_def case_prod_unfold)
  define first where "first = on_conn (method_name_matches (pe_debuggee env) (tq_method_filter tq) loc) s"
  have first: "first = (named, s\<lparr>ds_connection := c\<rparr>)" by (simp add: first_def on_conn_def named)
  have s2': "on_state (if fst first then record_stop_point_hit ?req else record_discarded_exit ?req) (snd first) = s2"
    unfolding first fst_conv snd_conv s2_def ..
  have spanned': "(case tq_monitor tq of None \<Rightarrow> (None, s2)
      | Some spec \<Rightarrow> span_monitor_event spec (ev_details ev) (pe_clock env (ds_connection s2)) s2) = spanned"
    unfolding s2(1) spanned_def ..
  have skipped': "on_conn (skip_hit env tq (\<not> fst first) (fst spanned) t (ev_details ev)) (snd spanned) = skipped"
    unfolding first fst_conv skipped_def ..
  have "record_one_traced_event env ev s = (Some t, spend_if_counted (pe_debuggee env) ?req
      (if fst skipped then snd skipped else record_snapshot env tq (fst spanned) ?req t loc (ev_details ev) (snd skipped)))"
    unfolding record_one_traced_event_def Let_def assms option.case split_conv first_def [symmetric]
    unfolding case_prod_unfold s2' spanned' skipped' by (rule refl)
  then show ?thesis
    using record_snapshot_files [of "snd skipped" env tq "fst spanned" ?req t loc "ev_details ev"]
    by (auto simp: traced_hit_def assms skipped)
qed

text \<open>The session when it is an event's turn.\<close>

definition turn :: "pump_env \<Rightarrow> event list \<Rightarrow> nat \<Rightarrow> debug_session \<Rightarrow> debug_session" where
  "turn env es i s = snd (record_traced_events env (take i es) None True s)"

lemma record_snoc:
  "snd (record_traced_events env (es @ [e]) h a s) = snd (record_one_traced_event env e (snd (record_traced_events env es h a s)))"
  by (induction es arbitrary: h a s) (simp_all split: prod.split option.split)

lemma turn_Suc: "i < length es \<Longrightarrow> turn env es (Suc i) s = snd (record_one_traced_event env (es ! i) (turn env es i s))"
  by (simp add: turn_def take_Suc_conv_app_nth record_snoc)

lemma turn_traced:
  assumes "readers_quiet env" "keyed (ds_state s)" "separately_traced (map ev_request_id es) (ds_state s)"
  shows "i \<le> length es \<Longrightarrow> keyed (ds_state (turn env es i s)) \<and> separately_traced (map ev_request_id (drop i es)) (ds_state (turn env es i s))"
proof (induction i)
  case (Suc i)
  let ?s = "turn env es i s"
  have split: "map ev_request_id (drop i es) = ev_request_id (es ! i) # map ev_request_id (drop (Suc i) es)"
    using Suc.prems by (simp add: Cons_nth_drop_Suc [symmetric])
  have "hit_step (ev_request_id (es ! i)) ?s (turn env es (Suc i) s)"
    using record_one_step [OF assms(1), of ?s "es ! i"] Suc by (simp add: turn_Suc)
  then have step: "points_step (ev_request_id (es ! i)) (ds_state ?s) (ds_state (turn env es (Suc i) s))"
    by (simp add: hit_step_def)
  show ?case
    using points_step_keyed [OF step] separately_traced_Cons [OF _ step] Suc by (simp only: split)
qed (use assms in \<open>simp add: turn_def\<close>)

lemma turn_records:
  assumes "readers_quiet env" "keyed (ds_state s)" "separately_traced (map ev_request_id es) (ds_state s)"
    and "\<forall>e\<in>set es. event_location (ev_details e) \<noteq> None" "i < length es"
  shows "traced_hit env (es ! i) (turn env es i s) (turn env es (Suc i) s)"
proof -
  have "separately_traced (map ev_request_id (drop i es)) (ds_state (turn env es i s))"
    using turn_traced [OF assms(1-3), of i] assms(5) by simp
  then have "separately_traced (map ev_request_id (es ! i # drop (Suc i) es)) (ds_state (turn env es i s))"
    by (simp only: Cons_nth_drop_Suc [OF assms(5)])
  moreover have "0 \<in> set [0..<length (map ev_request_id (es ! i # drop (Suc i) es))]"
    by (simp only: set_upt atLeastLessThan_iff list.map list.size) simp
  ultimately have "find_traced_request (ev_request_id (es ! i)) (ds_state (turn env es i s)) \<noteq> None"
    unfolding separately_traced_def list_all_iff list_ex_iff find_traced_iff by fastforce
  moreover have "event_location (ev_details (es ! i)) \<noteq> None" using assms(4,5) by simp
  ultimately show ?thesis using record_one_records by (force simp: turn_Suc [OF assms(5)])
qed

text \<open>
  C3: a composite whose every event is a traced hit, each of a stop point that owns no request of the events
  before it, is handled by the trace path. Every hit its filters let through leaves its snapshot as the newest
  record of the buffer, and every other hit leaves the buffer alone; nothing is put in the event ring, no
  suspension is recorded, the thread the session last stopped in stays what it was. And whatever the hits
  recorded, filtered, disarmed or spent on the way, exactly one resume goes out, for the thread of the
  composite - as long as the debuggee is there to be sent one, and the readers of conditions and snapshots
  send no resume of their own.
\<close>

theorem traced_composite_resumed_once:
  assumes "keyed (ds_state s)" "readers_quiet env" "\<forall>h p. dbg_gone (pe_debuggee env) h p = None"
    "es_events es \<noteq> []" "\<forall>e\<in>set (es_events es). event_location (ev_details e) \<noteq> None"
    "separately_traced (map ev_request_id (es_events es)) (ds_state s)"
  shows "\<exists>s' t loc p. try_record_trace env es s = (True, s')
    \<and> (\<forall>i<length (es_events es). traced_hit env (es_events es ! i) (turn env (es_events es) i s) (turn env (es_events es) (Suc i) s))
    \<and> ds_traces s' = ds_traces (turn env (es_events es) (length (es_events es)) s)
    \<and> event_location (ev_details (last (es_events es))) = Some (t, loc)
    \<and> ds_events s' = ds_events s \<and> ds_suspensions s' = ds_suspensions s \<and> ds_last_thread s' = ds_last_thread s
    \<and> resumes_between s s' [p] \<and> resumes_thread t p"
proof -
  obtain t loc s1 where s1: "record_traced_events env (es_events es) None True s = ((Some t, True), s1)"
      "event_location (ev_details (last (es_events es))) = Some (t, loc)"
      "ds_events s1 = ds_events s" "ds_suspensions s1 = ds_suspensions s" "ds_last_thread s1 = ds_last_thread s"
      "resumes_between s s1 []"
    using record_all_traced [OF assms(2,1,5,6,4)] by blast
  obtain p where "resumes_between s1 (snd (on_conn (resume_thread (pe_debuggee env) t) s1)) [p]" "resumes_thread t p"
    using resume_thread_sends [OF assms(3)] by blast
  moreover have "try_record_trace env es s = (True, snd (on_conn (resume_thread (pe_debuggee env) t) s1))"
    using s1(1) assms(4) by (simp add: try_record_trace_def)
  moreover have "ds_traces s1 = ds_traces (turn env (es_events es) (length (es_events es)) s)"
    by (simp add: turn_def s1(1))
  ultimately show ?thesis
    using s1 resumes_between_trans [OF s1(6)] turn_records [OF assms(2,1,6,5)]
    by (auto simp: on_conn_def case_prod_unfold)
qed

section \<open>Suspending hits\<close>

text \<open>
  Whether the caller asked for this hit: the method filter of a method exit accepts the location, and the
  condition holds in the hit thread's top frame, evaluated once the filter has been.
\<close>

definition hit_wanted :: "pump_env \<Rightarrow> event_set \<Rightarrow> u32 \<Rightarrow> u64 \<Rightarrow> location \<Rightarrow> debug_session \<Rightarrow> bool" where
  "hit_wanted env es req t loc s =
     (let filt = Option.bind (Option.bind (owner_of req (ds_state s)) sp_method_exit) me_method;
          (named, c) = method_name_matches (pe_debuggee env) filt loc (ds_connection s)
      in named \<and> (case suspending_condition req (ds_state s) of
          None \<Rightarrow> True
        | Some cond \<Rightarrow> fst (evaluate_condition_on_thread env t cond
            (case find (\<lambda>e. ev_request_id e = req) (es_events es) of
               None \<Rightarrow> bindings_default | Some e \<Rightarrow> condition_bindings_of (ev_details e)) c)))"

lemma modify_first_find:
  assumes "\<And>v. P v \<Longrightarrow> P (f v)"
  shows "find P (map snd (modify_first P f m)) = map_option f (find P (map snd m))"
  using assms by (induction m) auto

lemma owner_after_hit: "owner_of req (record_stop_point_hit req st)
    = map_option (\<lambda>sp. sp\<lparr>sp_hits := saturating_inc (sp_hits sp)\<rparr>) (owner_of req st)"
  unfolding owner_of_def record_stop_point_hit_def modify_owner_def stop_point_values_def
  by (simp, rule modify_first_find) (simp add: owns_request_def)

lemma condition_after_hit [simp]:
  "suspending_condition req (record_stop_point_hit req st) = suspending_condition req st"
  by (cases "owner_of req st") (simp_all add: suspending_condition_def owner_after_hit)

lemma named_unfiltered:
  "(if filt = None then (True, s) else on_conn (method_name_matches d filt loc) s) = on_conn (method_name_matches d filt loc) s"
  by (simp add: method_name_matches_def on_conn_def)

lemma discarded_step: "hit_step req s (on_state (record_discarded_exit req) s)"
  by (rule on_state_step) (auto simp: record_discarded_exit_def split: armed_on.splits intro!: modify_owner_step)

lemma counted_step: "hit_step req s (on_state (record_stop_point_hit req) s)"
  by (rule on_state_step) (auto simp: record_stop_point_hit_def intro!: modify_owner_step)

text \<open>Nothing reported, nothing recorded, and exactly the resume that undoes what the event held.\<close>

definition let_go :: "u64 \<Rightarrow> bool \<Rightarrow> debug_session \<Rightarrow> debug_session \<Rightarrow> bool" where
  "let_go t held_thread_only s s' \<longleftrightarrow> ds_events s' = ds_events s \<and> ds_suspensions s' = ds_suspensions s
     \<and> ds_last_thread s' = ds_last_thread s
     \<and> (\<exists>p. resumes_between s s' [p] \<and> (if held_thread_only then resumes_thread t p else resumes_vm p))"

lemma let_go_steps: "hit_step req a b \<Longrightarrow> let_go t h b c \<Longrightarrow> hit_step req c d \<Longrightarrow> let_go t h a d"
  by (fastforce simp: hit_step_def let_go_def dest: resumes_between_trans)

lemma release_lets_go:
  assumes "\<forall>h p. dbg_gone d h p = None"
  shows "let_go t held s (release_dropped_hit d t held s)"
  using resume_thread_sends [OF assms, of s t] resume_all_sends [OF assms, of s]
  by (auto simp: release_dropped_hit_def let_go_def on_conn_def case_prod_unfold)

lemma filter_hit_drops:
  assumes "readers_quiet env" "\<forall>h p. dbg_gone (pe_debuggee env) h p = None" "\<not> hit_wanted env es req t loc s"
  shows "\<exists>s'. filter_hit env es req t loc held s = ((True, None), s') \<and> let_go t held s s'"
proof -
  let ?d = "pe_debuggee env"
  define filt where "filt = Option.bind (Option.bind (owner_of req (ds_state s)) sp_method_exit) me_method"
  define named where "named = on_conn (method_name_matches ?d filt loc) s"
  have 1: "hit_step req s (snd named)" unfolding named_def by (intro on_conn_step quiet_intros)
  have eq: "filter_hit env es req t loc held s = (let (matches, s1) = named in
      if \<not> matches then ((True, None), on_state (record_discarded_exit req) (release_dropped_hit ?d t held s1))
      else let s2 = on_state (record_stop_point_hit req) s1 in
        case suspending_condition req (ds_state s2) of None \<Rightarrow> ((False, None), s2)
        | Some cond \<Rightarrow> (let bindings = (case find (\<lambda>e. ev_request_id e = req) (es_events es) of
                        None \<Rightarrow> bindings_default | Some e \<Rightarrow> condition_bindings_of (ev_details e));
            (holds, s3) = on_conn (evaluate_condition_on_thread env t cond bindings) s2
          in if holds then (if held then (let (esc, s4) = escalate_to_vm_suspend ?d t s3 in ((False, esc), s4))
               else ((False, None), s3))
             else ((True, None), release_dropped_hit ?d t held s3)))"
    by (simp only: filter_hit_def Let_def filt_def [symmetric] named_unfiltered named_def)
  have wanted: "hit_wanted env es req t loc s = (let (named, c) = method_name_matches ?d filt loc (ds_connection s)
      in named \<and> (case suspending_condition req (ds_state s) of
          None \<Rightarrow> True
        | Some cond \<Rightarrow> fst (evaluate_condition_on_thread env t cond
            (case find (\<lambda>e. ev_request_id e = req) (es_events es) of
               None \<Rightarrow> bindings_default | Some e \<Rightarrow> condition_bindings_of (ev_details e)) c)))"
    by (simp only: hit_wanted_def Let_def filt_def)
  have state: "ds_state (snd named) = ds_state s" and conn: "fst named = fst (method_name_matches ?d filt loc (ds_connection s))"
      "ds_connection (snd named) = snd (method_name_matches ?d filt loc (ds_connection s))"
    by (simp_all add: named_def on_conn_def case_prod_unfold)
  show ?thesis
  proof (cases "fst named")
    case False
    have "let_go t held s (on_state (record_discarded_exit req) (release_dropped_hit ?d t held (snd named)))"
      by (rule let_go_steps [OF 1 release_lets_go [OF assms(2)] discarded_step])
    then show ?thesis using False by (simp add: eq Let_def case_prod_unfold)
  next
    case True
    define s2 where "s2 = on_state (record_stop_point_hit req) (snd named)"
    have s2: "suspending_condition req (ds_state s2) = suspending_condition req (ds_state s)"
        "ds_connection s2 = snd (method_name_matches ?d filt loc (ds_connection s))"
      by (simp_all add: s2_def on_state_def state conn)
    obtain cond where cond: "suspending_condition req (ds_state s) = Some cond"
      using assms(3) True conn by (auto simp: wanted Let_def case_prod_unfold split: option.splits)
    define b where "b = (case find (\<lambda>e. ev_request_id e = req) (es_events es) of
        None \<Rightarrow> bindings_default | Some e \<Rightarrow> condition_bindings_of (ev_details e))"
    define judged where "judged = on_conn (evaluate_condition_on_thread env t cond b) s2"
    have "\<not> fst judged"
      using assms(3) True conn cond s2
      by (simp add: wanted Let_def case_prod_unfold judged_def b_def on_conn_def)
    moreover have "hit_step req s2 (snd judged)"
      unfolding judged_def by (intro on_conn_step quiet_evaluate_condition assms)
    then have "hit_step req s (snd judged)"
      using hit_step_trans [OF 1 hit_step_trans [OF counted_step]] by (simp add: s2_def)
    then have "let_go t held s (release_dropped_hit ?d t held (snd judged))"
      by (rule let_go_steps [OF _ release_lets_go [OF assms(2)] hit_step_refl])
    ultimately show ?thesis
      using True cond s2(1)
      by (simp add: eq Let_def case_prod_unfold s2_def [symmetric] b_def [symmetric] judged_def [symmetric])
  qed
qed

lemma quiet_sample_threads: "quiet (sample_threads d hit held ts n)"
proof (induction ts arbitrary: n)
  case (Cons t ts)
  show ?case
  proof (cases "t = hit \<or> t \<in> set held")
    case True
    then have "sample_threads d hit held (t # ts) n = sample_threads d hit held ts n" by (intro ext) auto
    then show ?thesis using Cons.IH by simp
  next
    case False
    have "quiet (if sint k \<le> 0 then (\<lambda>c. (Some False, c)) else if n + 1 = 3 then (\<lambda>c. (Some True, c))
        else sample_threads d hit held ts (n + 1))" for k :: u32
      by (intro quiet_if quiet_const Cons.IH)
    then have "quiet (\<lambda>c. case suspend_count d t c of (Inl _, c') \<Rightarrow> (None, c')
        | (Inr k, c') \<Rightarrow> (if sint k \<le> 0 then (\<lambda>c. (Some False, c)) else if n + 1 = 3 then (\<lambda>c. (Some True, c))
            else sample_threads d hit held ts (n + 1)) c')"
      by (intro quiet_sum quiet_ops quiet_const)
    moreover have "(case suspend_count d t c of (Inl _, c') \<Rightarrow> (None, c')
        | (Inr k, c') \<Rightarrow> (if sint k \<le> 0 then (\<lambda>c. (Some False, c)) else if n + 1 = 3 then (\<lambda>c. (Some True, c))
            else sample_threads d hit held ts (n + 1)) c') = sample_threads d hit held (t # ts) n c" for c
      using False by (auto split: prod.split sum.split)
    ultimately show ?thesis by (metis (no_types, lifting) ext)
  qed
qed (auto intro: quietI)

lemma on_conn_step_Pair: "quiet f \<Longrightarrow> on_conn f s = (a, s') \<Longrightarrow> hit_step req s s'"
  using on_conn_step [of f req s] by simp

lemma another_thread_step: "hit_step req s (snd (another_thread_is_suspended d t s))"
  using on_conn_step_Pair [OF quiet_ops(8), of d s _ _ req] on_conn_step [OF quiet_sample_threads]
  by (auto simp: another_thread_is_suspended_def split: prod.split sum.split intro: hit_step_trans)

lemma escalate_step: "hit_step req s (snd (escalate_to_vm_suspend d t s))"
proof -
  obtain r s1 where r: "on_conn (suspend_all d) s = (r, s1)" by (cases "on_conn (suspend_all d) s")
  have 1: "hit_step req s s1" using on_conn_step_Pair [OF quiet_ops(9) r] .
  obtain v s2 where v: "another_thread_is_suspended d t s1 = (v, s2)" by fastforce
  have "hit_step req s s2" using hit_step_trans [OF 1 another_thread_step, of d t] v by simp
  then show ?thesis
    using 1 r v by (auto simp: escalate_to_vm_suspend_def split: sum.split option.split bool.split)
qed

text \<open>
  What is held once the pump has decided to report a hit. The connection is the one its filters leave, in the
  order the pump evaluates them. JDWP holds the whole VM for an event of policy All. For an event that holds
  its own thread only, the pump suspends the VM: it is held when the debuggee answers, and, where the
  suspension reported an error, when a thread that nobody here holds answers that it is suspended.
\<close>

definition conn_after_filters :: "pump_env \<Rightarrow> event_set \<Rightarrow> u32 \<Rightarrow> u64 \<Rightarrow> location \<Rightarrow> debug_session \<Rightarrow> conn" where
  "conn_after_filters env es req t loc s =
     (let filt = Option.bind (Option.bind (owner_of req (ds_state s)) sp_method_exit) me_method;
          (named, c) = method_name_matches (pe_debuggee env) filt loc (ds_connection s)
      in case suspending_condition req (ds_state s) of
          None \<Rightarrow> c
        | Some cond \<Rightarrow> snd (evaluate_condition_on_thread env t cond
            (case find (\<lambda>e. ev_request_id e = req) (es_events es) of
               None \<Rightarrow> bindings_default | Some e \<Rightarrow> condition_bindings_of (ev_details e)) c))"

definition vm_is_held :: "pump_env \<Rightarrow> event_set \<Rightarrow> u32 \<Rightarrow> u64 \<Rightarrow> location \<Rightarrow> debug_session \<Rightarrow> bool" where
  "vm_is_held env es req t loc s \<longleftrightarrow> es_suspend_policy es = suspend_policy_byte SP_All
     \<or> (case on_conn (suspend_all (pe_debuggee env)) (s\<lparr>ds_connection := conn_after_filters env es req t loc s\<rparr>) of
          (Inr _, _) \<Rightarrow> True
        | (Inl _, s1) \<Rightarrow> fst (another_thread_is_suspended (pe_debuggee env) t s1) = Some True)"

definition runs_on :: "failed_escalation option \<Rightarrow> bool" where
  "runs_on esc \<longleftrightarrow> (case esc of None \<Rightarrow> False | Some e \<Rightarrow> fe_vm_running e)"

text \<open>The VM's suspend is among what was sent.\<close>

definition asks_vm_suspend :: "debug_session \<Rightarrow> debug_session \<Rightarrow> bool" where
  "asks_vm_suspend s s' \<longleftrightarrow> (\<exists>a p b. c_sent (ds_connection s') = c_sent (ds_connection s) @ a @ p # b
     \<and> cp_command_set p = CS_VIRTUAL_MACHINE \<and> cp_command p = VM_SUSPEND)"

lemma asks_vm_suspend_steps:
  "resumes_between a b rs \<Longrightarrow> asks_vm_suspend b c \<Longrightarrow> asks_vm_suspend a c"
  "asks_vm_suspend a b \<Longrightarrow> resumes_between b c rs \<Longrightarrow> asks_vm_suspend a c"
  unfolding asks_vm_suspend_def resumes_between_def by (metis append.assoc, metis append.assoc append_Cons)

lemma suspend_all_sent:
  assumes "suspend_all d c = (Inr u, c')"
  shows "\<exists>p. c_sent c' = c_sent c @ [p] \<and> cp_command_set p = CS_VIRTUAL_MACHINE \<and> cp_command p = VM_SUSPEND"
  using assms unfolding suspend_all_def
  by (auto simp: exchange_def request_def next_id_def send_command_def cbind_def clift_def conn_issue_def
      Let_def command_packet_new_def split: sum.splits option.splits)

lemma another_thread_depends:
  assumes "ds_connection a = ds_connection b" "ds_suspensions a = ds_suspensions b"
  shows "fst (another_thread_is_suspended d t a) = fst (another_thread_is_suspended d t b)"
  using assms by (simp add: another_thread_is_suspended_def on_conn_def case_prod_unfold split: sum.split)

lemma escalate_verdict:
  assumes "ds_connection a = ds_connection b" "ds_suspensions a = ds_suspensions b"
  shows "runs_on (fst (escalate_to_vm_suspend d t a)) \<longleftrightarrow> \<not> (case on_conn (suspend_all d) b of
          (Inr _, _) \<Rightarrow> True | (Inl _, s1) \<Rightarrow> fst (another_thread_is_suspended d t s1) = Some True)"
proof (cases "fst (suspend_all d (ds_connection b))")
  case (Inl e)
  let ?a = "a\<lparr>ds_connection := snd (suspend_all d (ds_connection b))\<rparr>"
  have "fst (another_thread_is_suspended d t ?a)
      = fst (another_thread_is_suspended d t (b\<lparr>ds_connection := snd (suspend_all d (ds_connection b))\<rparr>))"
    by (rule another_thread_depends) (simp_all add: assms)
  then show ?thesis
    using Inl assms(1) by (cases "another_thread_is_suspended d t ?a")
      (auto simp: escalate_to_vm_suspend_def on_conn_def case_prod_unfold runs_on_def split: option.split bool.split)
next
  case (Inr u)
  then show ?thesis using assms(1) by (simp add: escalate_to_vm_suspend_def on_conn_def case_prod_unfold runs_on_def)
qed

lemma escalate_asks:
  assumes "fst (suspend_all d (ds_connection s)) = Inr u"
  shows "asks_vm_suspend s (snd (escalate_to_vm_suspend d t s))"
proof -
  obtain c' where c': "suspend_all d (ds_connection s) = (Inr u, c')" using assms by (metis prod.collapse)
  then show ?thesis
    using suspend_all_sent [OF c'] by (fastforce simp: asks_vm_suspend_def escalate_to_vm_suspend_def on_conn_def
        intro: exI [of _ "[]"])
qed

text \<open>
  The hits the two arming policies raise: of policy All, or of policy EventThread for a stop point with a
  condition. What the filters of the suspending path leave of one the caller asked for.
\<close>

definition armed_policy :: "event_set \<Rightarrow> u32 \<Rightarrow> debug_session \<Rightarrow> bool" where
  "armed_policy es req s \<longleftrightarrow> es_suspend_policy es = suspend_policy_byte SP_All
     \<or> es_suspend_policy es = suspend_policy_byte SP_EventThread \<and> suspending_condition req (ds_state s) \<noteq> None"

definition vm_suspend_answered :: "pump_env \<Rightarrow> event_set \<Rightarrow> u32 \<Rightarrow> u64 \<Rightarrow> location \<Rightarrow> debug_session \<Rightarrow> bool" where
  "vm_suspend_answered env es req t loc s \<longleftrightarrow> es_suspend_policy es = suspend_policy_byte SP_EventThread
     \<and> (\<exists>u. fst (suspend_all (pe_debuggee env) (conn_after_filters env es req t loc s)) = Inr u)"

lemma filter_hit_keeps:
  assumes "readers_quiet env" "hit_wanted env es req t loc s" "armed_policy es req s"
  shows "\<exists>esc s'. filter_hit env es req t loc (es_suspend_policy es = suspend_policy_byte SP_EventThread) s = ((False, esc), s')
    \<and> hit_step req s s' \<and> (runs_on esc \<longleftrightarrow> \<not> vm_is_held env es req t loc s)
    \<and> (vm_suspend_answered env es req t loc s \<longrightarrow> asks_vm_suspend s s')"
proof -
  let ?d = "pe_debuggee env" and ?held = "es_suspend_policy es = suspend_policy_byte SP_EventThread"
  define filt where "filt = Option.bind (Option.bind (owner_of req (ds_state s)) sp_method_exit) me_method"
  define named where "named = on_conn (method_name_matches ?d filt loc) s"
  define s2 where "s2 = on_state (record_stop_point_hit req) (snd named)"
  define b where "b = (case find (\<lambda>e. ev_request_id e = req) (es_events es) of
      None \<Rightarrow> bindings_default | Some e \<Rightarrow> condition_bindings_of (ev_details e))"
  have conn: "fst named = fst (method_name_matches ?d filt loc (ds_connection s))"
      "ds_connection s2 = snd (method_name_matches ?d filt loc (ds_connection s))"
      "suspending_condition req (ds_state s2) = suspending_condition req (ds_state s)"
    by (simp_all add: named_def s2_def on_conn_def on_state_def case_prod_unfold)
  have "hit_step req s (snd named)" unfolding named_def by (intro on_conn_step quiet_intros)
  then have 2: "hit_step req s s2" unfolding s2_def by (rule hit_step_trans [OF _ counted_step])
  have wanted: "fst named \<and> (case suspending_condition req (ds_state s) of None \<Rightarrow> True
      | Some cond \<Rightarrow> fst (evaluate_condition_on_thread env t cond b (ds_connection s2)))"
    using assms(2) unfolding hit_wanted_def Let_def filt_def [symmetric] b_def [symmetric]
    by (simp add: conn case_prod_unfold split: option.split_asm)
  have eq: "filter_hit env es req t loc ?held s = (case suspending_condition req (ds_state s) of None \<Rightarrow> ((False, None), s2)
      | Some cond \<Rightarrow> (let (holds, s3) = on_conn (evaluate_condition_on_thread env t cond b) s2
          in if holds then (if ?held then (let (esc, s4) = escalate_to_vm_suspend ?d t s3 in ((False, esc), s4))
               else ((False, None), s3))
             else ((True, None), release_dropped_hit ?d t ?held s3)))"
    unfolding filter_hit_def Let_def filt_def [symmetric] named_unfiltered named_def [symmetric]
    using wanted conn
    by (cases "suspending_condition req (ds_state s)")
      (simp_all add: case_prod_unfold s2_def [symmetric] b_def [symmetric])
  have after: "conn_after_filters env es req t loc s = (case suspending_condition req (ds_state s) of
      None \<Rightarrow> ds_connection s2 | Some cond \<Rightarrow> snd (evaluate_condition_on_thread env t cond b (ds_connection s2)))"
    unfolding conn_after_filters_def Let_def filt_def [symmetric] b_def [symmetric] conn by (simp add: case_prod_unfold)
  show ?thesis
  proof (cases "suspending_condition req (ds_state s)")
    case None
    then show ?thesis using 2 eq assms(3) by (simp add: armed_policy_def runs_on_def vm_is_held_def vm_suspend_answered_def)
  next
    case (Some cond)
    define judged where "judged = on_conn (evaluate_condition_on_thread env t cond b) s2"
    have holds: "fst judged" using wanted Some by (simp add: judged_def on_conn_def case_prod_unfold)
    have "hit_step req s2 (snd judged)"
      unfolding judged_def by (intro on_conn_step quiet_evaluate_condition assms)
    then have 3: "hit_step req s (snd judged)" by (rule hit_step_trans [OF 2])
    have conn3: "ds_connection (snd judged) = conn_after_filters env es req t loc s"
      using Some by (simp add: after judged_def on_conn_def case_prod_unfold)
    have susp3: "ds_suspensions (snd judged) = ds_suspensions s" using 3 by (simp add: hit_step_def)
    show ?thesis
    proof (cases ?held)
      case True
      have "filter_hit env es req t loc ?held s
          = ((False, fst (escalate_to_vm_suspend ?d t (snd judged))), snd (escalate_to_vm_suspend ?d t (snd judged)))"
        unfolding eq using Some holds True by (simp add: judged_def [symmetric] case_prod_unfold Let_def)
      moreover have "runs_on (fst (escalate_to_vm_suspend ?d t (snd judged))) \<longleftrightarrow> \<not> vm_is_held env es req t loc s"
        using True escalate_verdict [of "snd judged" "s\<lparr>ds_connection := conn_after_filters env es req t loc s\<rparr>" ?d t] conn3 susp3
        by (simp add: vm_is_held_def)
      moreover have "asks_vm_suspend s (snd (escalate_to_vm_suspend ?d t (snd judged)))"
        if "vm_suspend_answered env es req t loc s"
        using asks_vm_suspend_steps(1) [OF _ escalate_asks [of ?d "snd judged" _ t]] 3 that conn3
        by (auto simp: vm_suspend_answered_def hit_step_def)
      ultimately show ?thesis using hit_step_trans [OF 3 escalate_step, of ?d t] by blast
    next
      case False
      then have "filter_hit env es req t loc ?held s = ((False, None), snd judged)"
        unfolding eq using Some holds by (simp add: judged_def [symmetric] case_prod_unfold Let_def)
      then show ?thesis
        using False 3 assms(3) by (simp add: armed_policy_def runs_on_def vm_is_held_def vm_suspend_answered_def)
    qed
  qed
qed

text \<open>What is kept of a reported hit: the event, the thread, and the suspension that is really there.\<close>

definition reported :: "event_set \<Rightarrow> u32 \<Rightarrow> u64 \<Rightarrow> bool \<Rightarrow> debug_session \<Rightarrow> debug_session \<Rightarrow> bool" where
  "reported es req t vm_held s s' \<longleftrightarrow> ds_last_thread s' = Some t \<and> resumes_between s s' []
     \<and> (\<exists>rec. ring_held (ds_events s') \<noteq> [] \<and> last (ring_held (ds_events s')) = rec \<and> er_set rec = es
        \<and> er_seq rec = ring_seq (ds_events s) + 1 \<and> (runs_on (er_escalation rec) \<longleftrightarrow> \<not> vm_held))
     \<and> (if vm_held then map_option vs_cause (su_vm (ds_suspensions s')) = Some (Cause_stop_point req)
          \<and> su_threads (ds_suspensions s') = su_threads (ds_suspensions s)
        else su_vm (ds_suspensions s') = su_vm (ds_suspensions s)
          \<and> map_option ts_hold (held_as t (ds_suspensions s')) = Some (Hold_failed_escalation req))"

lemma quiet_thread_name_or: "quiet (thread_name_or d t)"
proof -
  have "quiet (\<lambda>c. case get_thread_name d t c of (Inl _, c') \<Rightarrow> (''?'', c')
      | (Inr n, c') \<Rightarrow> (if n = [] then ''?'' else n, c'))"
    by (intro quiet_sum quiet_ops quiet_const)
  then show ?thesis by (simp only: thread_name_or_def [abs_def])
qed

lemma pushed_last:
  "ring_held (snd (event_ring_push es esc r)) \<noteq> []"
  "last (ring_held (snd (event_ring_push es esc r))) = \<lparr>er_seq = ring_seq r + 1, er_set = es, er_escalation = esc\<rparr>"
  by (simp_all add: event_ring_push_def Let_def)

lemma report_hit_reports:
  assumes "es_events es = e # rest" "event_location (ev_details e) = Some (t, loc)" "es_suspend_policy es \<noteq> 0"
    "\<And>k. quiet (pe_describe env k)"
  shows "reported es (ev_request_id e) t (\<not> runs_on esc) s (snd (report_hit env es esc s))"
proof -
  let ?req = "ev_request_id e"
  have thread: "event_thread es = Some t" and suspends: "event_suspends es"
    using assms(1-3) by (auto simp: event_thread_def event_suspends_def)
  define alone where "alone = runs_on esc"
  have esc: "(case esc of None \<Rightarrow> False | Some e \<Rightarrow> fe_vm_running e) = alone" by (simp add: alone_def runs_on_def)
  define s1 where "s1 = s\<lparr>ds_last_thread := Some t\<rparr>"
  define named where "named = on_conn (thread_name_or (pe_debuggee env) t) s1"
  define s2 where "s2 = (if alone
    then (snd named)\<lparr>ds_suspensions := hold_thread_for_failed_escalation t (fst named)
        (pe_clock env (ds_connection (snd named))) ?req (ds_suspensions (snd named))\<rparr>
    else s1\<lparr>ds_suspensions := mark_suspended (Cause_stop_point ?req) (pe_clock env (ds_connection s1)) (ds_suspensions s1)\<rparr>)"
  define s3 where "s3 = s2\<lparr>ds_events := snd (event_ring_push es esc (ds_events s2))\<rparr>"
  have eq: "report_hit env es esc s = notify_suspension env (fst (event_ring_push es esc (ds_events s2))) s3"
    unfolding report_hit_def Let_def thread option.case s1_def [symmetric] esc
    using suspends assms(1)
    by (cases alone) (simp_all add: case_prod_unfold s2_def s3_def named_def)
  have quietly: "hit_step ?req s1 (snd named)" unfolding named_def by (intro on_conn_step quiet_thread_name_or)
  have s2: "ds_last_thread s2 = Some t" "resumes_between s s2 []" "ds_events s2 = ds_events s"
      "if alone then su_vm (ds_suspensions s2) = su_vm (ds_suspensions s)
             \<and> map_option ts_hold (held_as t (ds_suspensions s2)) = Some (Hold_failed_escalation ?req)
           else map_option vs_cause (su_vm (ds_suspensions s2)) = Some (Cause_stop_point ?req)
             \<and> su_threads (ds_suspensions s2) = su_threads (ds_suspensions s)"
    using quietly
    by (auto simp: s2_def s1_def hit_step_def resumes_between_def mark_suspended_def held_as_hold_failed
        hold_thread_for_failed_escalation_def split: option.split)
  obtain c' where c': "snd (report_hit env es esc s) = s3\<lparr>ds_connection := c'\<rparr>"
      "resumes_between s3 (s3\<lparr>ds_connection := c'\<rparr>) []"
  proof -
    have "\<exists>c'. snd (notify_suspension env n s3) = s3\<lparr>ds_connection := c'\<rparr>
      \<and> resumes_between s3 (s3\<lparr>ds_connection := c'\<rparr>) []" for n
    proof (cases "rev (ring_held (ds_events s3))")
      case Nil
      then show ?thesis by (auto simp: notify_suspension_def resumes_between_refl intro!: exI [of _ "ds_connection s3"])
    next
      case (Cons r rs)
      have last: "r = last (ring_held (ds_events s3))"
        using Cons by (metis last_rev list.sel(1) rev_is_Nil_conv rev_rev_ident hd_rev list.distinct(1))
      then have "es_events (er_set r) = e # rest" using assms(1) by (simp add: s3_def pushed_last)
      then show ?thesis
        using Cons quietD [OF assms(4) [of "ev_details e"], of "ds_connection s3"]
        by (auto simp: notify_suspension_def on_conn_def case_prod_unfold Let_def resumes_between_def)
    qed
    then show ?thesis using that eq by auto
  qed
  have s': "ds_last_thread (snd (report_hit env es esc s)) = Some t"
      "ds_events (snd (report_hit env es esc s)) = snd (event_ring_push es esc (ds_events s))"
      "ds_suspensions (snd (report_hit env es esc s)) = ds_suspensions s2"
    unfolding c' by (simp_all add: s3_def s2)
  have "resumes_between s s3 []" using s2(2) by (simp add: s3_def resumes_between_def)
  then have "resumes_between s (snd (report_hit env es esc s)) []"
    using resumes_between_trans c' by fastforce
  then show ?thesis
    using s2(4) s' by (cases alone) (simp_all add: reported_def pushed_last alone_def)
qed

lemma store_located:
  assumes "es_events es = e # rest" "event_location (ev_details e) = Some (t, loc)"
  shows "store_reportable_event env es s =
    (let ((skip, esc), s1) = filter_hit env es (ev_request_id e) t loc (es_suspend_policy es = suspend_policy_byte SP_EventThread) s;
         (alert, s2) = (if skip then (None, s1) else report_hit env es esc s1)
     in (alert, spend_if_counted (pe_debuggee env) (ev_request_id e) s2))"
  using assms by (simp add: store_reportable_event_def Let_def)

lemma reported_steps:
  assumes "hit_step req s s1" "reported es req t vm s1 s2" "hit_step req s2 s3"
  shows "reported es req t vm s s3"
  using assms resumes_between_trans [of s s1 "[]" s2 "[]"] resumes_between_trans [of s s2 "[]" s3 "[]"]
  by (auto simp: hit_step_def reported_def)

text \<open>
  C5: a hit that is not traced and that its stop point's method filter or condition rejects is dropped without
  a trace of it: no alert, no event in the ring, no suspension recorded, the last thread unchanged - and
  exactly one resume goes out, for the hit thread alone when the event held only that thread, and for the
  whole VM when the event held the VM.
\<close>

theorem rejected_hit_let_go:
  assumes "readers_quiet env" "\<forall>h p. dbg_gone (pe_debuggee env) h p = None"
    "es_events es = e # rest" "event_location (ev_details e) = Some (t, loc)"
    "\<not> hit_wanted env es (ev_request_id e) t loc s"
  shows "fst (store_reportable_event env es s) = None
    \<and> let_go t (es_suspend_policy es = suspend_policy_byte SP_EventThread) s (snd (store_reportable_event env es s))"
proof -
  let ?held = "es_suspend_policy es = suspend_policy_byte SP_EventThread"
  obtain s1 where s1: "filter_hit env es (ev_request_id e) t loc ?held s = ((True, None), s1)" "let_go t ?held s s1"
    using filter_hit_drops [OF assms(1,2,5)] by blast
  show ?thesis
    unfolding store_located [OF assms(3,4)] using s1(1) let_go_steps [OF hit_step_refl s1(2) spend_step] by simp
qed


section \<open>Hits in flight when a stop point is cleared\<close>

text \<open>The stop points once one of them has been retired.\<close>

lemma retired_owns_nothing:
  assumes "keyed st" "hm_get (sp_id sp) (ss_stop_points st) = Some sp"
    "\<forall>sp'\<in>set (stop_point_values st). owns_request r sp' \<longrightarrow> sp' = sp"
    "ss_stop_points st' = hm_put (sp_id sp) (retire sp) (ss_stop_points st)"
  shows "find_traced_request r st' = None"
proof -
  have ok: "hm_ok (ss_stop_points st)" "hm_ok (ss_stop_points st')"
    using assms(1,4) by (simp_all add: keyed_def)
  have "\<not> owns_request r w" if "w \<in> set (stop_point_values st')" for w
  proof
    assume owns: "owns_request r w"
    obtain k where "(k, w) \<in> set (ss_stop_points st')" using \<open>w \<in> _\<close> by (auto simp: stop_point_values_def)
    then have "hm_get k (ss_stop_points st') = Some w" using hm_get_iff [OF ok(2)] by simp
    then consider "k = sp_id sp" "w = retire sp" | "k \<noteq> sp_id sp" "hm_get k (ss_stop_points st) = Some w"
      using assms(4) by (auto split: if_splits)
    then show False
    proof cases
      case 1
      then show False using owns by (simp add: retire_def owns_request_def)
    next
      case 2
      then have "(k, w) \<in> set (ss_stop_points st)" using hm_get_iff [OF ok(1)] by simp
      then have "k = sp_id w" "w = sp" using assms(1,3) owns by (force simp: keyed_def stop_point_values_def)+
      then show False using 2 by simp
    qed
  qed
  then show ?thesis using find_traced_iff [of r st'] by blast
qed

lemma remember_bounded_subset: "set (remember_bounded r cap q) \<subseteq> insert r (set q)"
  by (auto simp: remember_bounded_def Let_def dest: in_set_dropD)

lemma unrecognised_hit_surfaces:
  assumes "es_events es = [ev]" "find_traced_request (ev_request_id ev) (ds_state s) = None"
    "\<not> was_traced_and_disarmed (ev_request_id ev) (ds_state s)"
  shows "try_record_trace env es s = (False, s)"
  using assms by (cases "event_location (ev_details ev)")
    (auto simp: try_record_trace_def record_one_traced_event_def Let_def split: option.split)

text \<open>
  what a budget disarm forgets. A traced stop point armed at several locations owns several requests; when
  the budget runs out, all of them are cleared, but only the one that fired is remembered as traced. A hit of
  another of them that the debuggee had already generated is then not recognised: the trace path does not
  handle it, and it goes on to the suspending path.
\<close>

theorem sibling_hit_surfaces_after_disarm:
  assumes "keyed (ds_state s)" "owner_of req (ds_state s) = Some sp" "sp_trace sp"
    "sibling \<in> set (sp_request_ids sp)" "sibling \<noteq> req" "sibling \<notin> set (ss_disarmed_traced (ds_state s))"
    "\<forall>sp'\<in>set (stop_point_values (ds_state s)). owns_request sibling sp' \<longrightarrow> sp' = sp"
    "es_events es = [ev]" "ev_request_id ev = sibling"
  shows "try_record_trace env es (snd (disarm_request d req s)) = (False, snd (disarm_request d req s))"
proof -
  let ?s' = "snd (disarm_request d req s)" and ?st = "note_disarmed_traced req (ds_state s)"
  have traced: "find_traced_request req (ds_state s) \<noteq> None"
    using hm_get_owner [OF assms(1,2)] assms(3) find_traced_iff by blast
  have owner: "owner_of req ?st = Some sp" using assms(2) by (simp add: owner_of_def stop_point_values_def)
  have get: "hm_get (sp_id sp) (ss_stop_points ?st) = Some sp"
    using hm_get_owner [OF assms(1,2)] by simp
  have st': "ds_state ?s' = modify_stop_point (sp_id sp) retire ?st"
    using traced owner by (simp add: disarm_request_def Let_def on_state_def on_conn_def case_prod_unfold)
  have points: "ss_stop_points (ds_state ?s') = hm_put (sp_id sp) (retire sp) (ss_stop_points (ds_state s))"
    "ss_disarmed_traced (ds_state ?s') = ss_disarmed_traced ?st"
    using get by (simp_all add: st' modify_stop_point_def)
  have none: "find_traced_request sibling (ds_state ?s') = None"
    by (rule retired_owns_nothing [OF assms(1) hm_get_owner(1) [OF assms(1,2)] assms(7) points(1)])
  have "sibling \<notin> set (ss_disarmed_traced (ds_state ?s'))"
    using remember_bounded_subset [of req MAX_DISARMED_TRACED "ss_disarmed_traced (ds_state s)"] assms(5,6)
    by (auto simp: points note_disarmed_traced_def)
  then show ?thesis
    by (intro unrecognised_hit_surfaces [OF assms(8)]) (simp_all add: assms(9) none was_traced_and_disarmed_def)
qed

text \<open>
  what a toggle forgets. Disabling a traced stop point clears every one of its requests and remembers none:
  a hit of any of them that was already in flight is not recognised by the trace path.
\<close>

theorem hit_surfaces_after_toggle:
  assumes "keyed (ds_state s)" "hm_get i (ss_stop_points (ds_state s)) = Some sp"
    "disable_stop_point d i s = (Inr what, s')"
    "req \<in> set (sp_request_ids sp)" "req \<notin> set (ss_disarmed_traced (ds_state s))"
    "\<forall>sp'\<in>set (stop_point_values (ds_state s)). owns_request req sp' \<longrightarrow> sp' = sp"
    "es_events es = [ev]" "ev_request_id ev = req"
  shows "try_record_trace env es s' = (False, s')"
proof -
  have i: "i = sp_id sp"
    using assms(1,2) hm_get_iff [of "ss_stop_points (ds_state s)" i sp] by (auto simp: keyed_def)
  have st': "ds_state s' = modify_stop_point i retire (ds_state s)"
    using assms(2,3) by (auto simp: disable_stop_point_def on_conn_def on_state_def split: prod.splits sum.splits)
  have points: "ss_stop_points (ds_state s') = hm_put (sp_id sp) (retire sp) (ss_stop_points (ds_state s))"
    "ss_disarmed_traced (ds_state s') = ss_disarmed_traced (ds_state s)"
    using assms(2) by (simp_all add: st' modify_stop_point_def i)
  have none: "find_traced_request req (ds_state s') = None"
    using assms(2) retired_owns_nothing [OF assms(1) _ assms(6) points(1)] by (simp add: i)
  show ?thesis
    by (intro unrecognised_hit_surfaces [OF assms(7)]) (simp_all add: assms(5,8) none was_traced_and_disarmed_def points)
qed

section \<open>Instances\<close>

definition sample_point :: "string \<Rightarrow> u32 list \<Rightarrow> bool \<Rightarrow> stop_point" where
  "sample_point i reqs traced = \<lparr>sp_id = i, sp_request_ids = reqs, sp_enabled = True, sp_spent = False,
     sp_hit_count = None, sp_hits = 0, sp_condition = None, sp_trace = traced, sp_trace_expr = [],
     sp_trace_budget = Some 1, sp_trace_frames = 0, sp_trace_max_length = None, sp_trace_cost = trace_cost_default,
     sp_thread_filter = None, sp_instance_filter = None,
     sp_armed_on = On_method_exit \<lparr>me_discarded = 0, me_class_pattern = ''A'', me_exclude_classes = [],
       me_method = None, me_with_return_value = False\<rparr>\<rparr>"

definition sample_session :: "stop_point list \<Rightarrow> debug_session" where
  "sample_session sps = (debug_session_new connect_init ''localhost:5005'' \<lparr>seed_read_only = False,
       seed_source_roots = [], seed_class_roots = [], seed_trace_exprs = [], seed_step_exclude_classes = None,
       seed_step_only_classes = None\<rparr>)
     \<lparr>ds_state := session_state_new\<lparr>ss_stop_points := map (\<lambda>sp. (sp_id sp, sp)) sps\<rparr>\<rparr>"

definition sample_env :: pump_env where
  "sample_env = \<lparr>pe_arming = \<lparr>ae_debuggee = steady_debuggee [], ae_drift = (\<lambda>_ _ _ _. Drift_current),
       ae_build = (\<lambda>_ _ _. Build_not_checked [])\<rparr>, pe_clock = length \<circ> c_sent,
     pe_eval_condition = (\<lambda>_ _ _ _ c. (Inr True, c)), pe_capture = (\<lambda>_ _ _ _ c. (blank_record, c)),
     pe_describe = (\<lambda>_ c. ([], c))\<rparr>"

definition sample_hits :: "u32 list \<Rightarrow> event_set" where
  "sample_hits reqs = \<lparr>es_suspend_policy = 1, es_events = map (\<lambda>r. \<lparr>ev_kind = EK_BREAKPOINT, ev_request_id = r,
     ev_details = Ev_Breakpoint 5 \<lparr>loc_type_tag = 1, loc_class_id = 2, loc_method_id = 3, loc_index = 4\<rparr>\<rparr>) reqs\<rparr>"

lemmas sample_defs = sample_point_def sample_session_def sample_env_def sample_hits_def debug_session_new_def
  session_state_new_def keyed_def hm_ok_def stop_point_values_def owns_request_def

lemma sample_env_quiet: "readers_quiet sample_env" "quiet (pe_describe sample_env k)"
  "dbg_gone (pe_debuggee sample_env) h p = None"
  by (simp_all add: sample_env_def readers_quiet_def quiet_const steady_debuggee_def)

theorem traced_composite_resumed_once_witness:
  "fst (try_record_trace sample_env (sample_hits [7, 9])
     (sample_session [sample_point ''mex_1'' [7, 8] True, sample_point ''mex_2'' [9] True])) = True"
proof -
  let ?s = "sample_session [sample_point ''mex_1'' [7, 8] True, sample_point ''mex_2'' [9] True]"
  have "keyed (ds_state ?s)" by (simp add: sample_defs)
  moreover have "es_events (sample_hits [7, 9]) \<noteq> []"
      "\<forall>e\<in>set (es_events (sample_hits [7, 9])). event_location (ev_details e) \<noteq> None"
    by (simp_all add: sample_hits_def)
  moreover have "separately_traced (map ev_request_id (es_events (sample_hits [7, 9]))) (ds_state ?s)"
    by (simp add: separately_traced_def sample_defs upt_rec)
  ultimately show ?thesis
    using traced_composite_resumed_once [of ?s sample_env "sample_hits [7, 9]"] sample_env_quiet by auto
qed


text \<open>A method exit of class A narrowed to the method \<open>save\<close>; the debuggee does not say what its methods are.\<close>

theorem rejected_hit_let_go_witness:
  "fst (store_reportable_event sample_env (sample_hits [7]) (sample_session [(sample_point ''mex_1'' [7] False)
     \<lparr>sp_armed_on := On_method_exit \<lparr>me_discarded = 0, me_class_pattern = ''A'', me_exclude_classes = [],
        me_method = Some ''save'', me_with_return_value = False\<rparr>\<rparr>])) = None"
proof -
  let ?sp = "(sample_point ''mex_1'' [7] False)
     \<lparr>sp_armed_on := On_method_exit \<lparr>me_discarded = 0, me_class_pattern = ''A'', me_exclude_classes = [],
        me_method = Some ''save'', me_with_return_value = False\<rparr>\<rparr>"
  let ?s = "sample_session [?sp]" and ?e = "hd (es_events (sample_hits [7]))"
  let ?loc = "\<lparr>loc_type_tag = 1, loc_class_id = 2, loc_method_id = 3, loc_index = 4\<rparr>"
  have owner: "owner_of 7 (ds_state ?s) = Some ?sp" by (simp add: owner_of_def sample_defs)
  have conn: "ds_connection ?s = connect_init" by (simp add: sample_session_def debug_session_new_def)
  have "fst (get_methods (steady_debuggee []) 2 connect_init) \<noteq> Inr ms" for ms
    by (simp add: get_methods_def cache_methods_def connect_init_def type_cache_default_def read_methods_def
        exchange_steady Let_def checked_def check_error_def is_error_def run_reader_def rbind_def read_i32_def
        ensure_def ccatch_def cbind_def not_implemented_def clift_def)
  then obtain err c where "get_methods (steady_debuggee []) 2 connect_init = (Inl err, c)"
    by (cases "get_methods (steady_debuggee []) 2 connect_init"; cases "fst (get_methods (steady_debuggee []) 2 connect_init)") auto
  then have "fst (method_name_matches (steady_debuggee []) (Some ''save'') ?loc connect_init) = False"
    by (simp add: method_name_matches_def frame_method_info_def Let_def)
  then have "\<not> hit_wanted sample_env (sample_hits [7]) (ev_request_id ?e) 5 ?loc ?s"
    using owner conn
    by (simp add: hit_wanted_def sample_hits_def sp_method_exit_def case_prod_unfold sample_env_def)
  then show ?thesis
    using rejected_hit_let_go [of sample_env "sample_hits [7]" ?e "[]" 5 ?loc ?s] sample_env_quiet
    by (simp add: sample_hits_def)
qed

theorem sibling_hit_surfaces_after_disarm_witness:
  "fst (try_record_trace sample_env (sample_hits [8])
     (snd (disarm_request (steady_debuggee []) 7 (sample_session [sample_point ''mex_1'' [7, 8] True])))) = False"
proof -
  let ?sp = "sample_point ''mex_1'' [7, 8] True"
  have "owner_of 7 (ds_state (sample_session [?sp])) = Some ?sp"
    by (simp add: owner_of_def sample_defs)
  then show ?thesis
    using sibling_hit_surfaces_after_disarm [of "sample_session [?sp]" 7 ?sp 8 "sample_hits [8]"
        "hd (es_events (sample_hits [8]))" sample_env "steady_debuggee []"]
    by (simp add: sample_defs)
qed

theorem hit_surfaces_after_toggle_witness:
  "fst (try_record_trace sample_env (sample_hits [7])
     (snd (disable_stop_point (steady_debuggee []) ''mex_1'' (sample_session [sample_point ''mex_1'' [7, 8] True])))) = False"
proof -
  let ?sp = "sample_point ''mex_1'' [7, 8] True" and ?d = "steady_debuggee []"
  let ?r = "disable_stop_point ?d ''mex_1'' (sample_session [?sp])"
  have "fst ?r = Inr (describe_armed_on (sp_armed_on ?sp))"
    by (simp add: disable_stop_point_def sample_defs hm_get_def on_conn_def clear_stop_point_requests_def
        clear_method_exit_request_def clear_request_def exchange_steady Let_def cbind_def creturn_def
        check_error_def is_error_def)
  then have "?r = (Inr (describe_armed_on (sp_armed_on ?sp)), snd ?r)" by (simp add: prod_eq_iff)
  then show ?thesis
    using hit_surfaces_after_toggle [of "sample_session [?sp]" "''mex_1''" ?sp ?d _ "snd ?r" 7 "sample_hits [7]"
        "hd (es_events (sample_hits [7]))" sample_env]
    by (simp add: sample_defs hm_get_def)
qed

end
