(* ===== verification/Rescue.thy ===== *)
theory Rescue
  imports StopPointOps
begin

text \<open>
  \<open>mcp-server/src/handlers.rs\<close>: running and stopping the debuggee - continue, step, pause, one thread at a
  time, panic, disconnect - and the watchdog that resumes what a caller left suspended. Every path that
  claims the debuggee runs asks it first.

  The clock is a function of the connection, as in the event pump. What ending a launched JVM reports is a
  parameter: it depends on the process.
\<close>

section \<open>Resuming, verified\<close>

definition MAX_RESUME_ATTEMPTS :: u32 where "MAX_RESUME_ATTEMPTS = 8"

definition ago :: "duration \<Rightarrow> string" where
  "ago d =
     (let secs = as_secs d
      in if secs \<le> 59 then show_nat secs @ ''s ago''
         else if secs \<le> 3599 then show_nat (secs div 60) @ ''m ago''
         else show_nat (secs div 3600) @ ''h '' @ show_nat (secs mod 3600 div 60) @ ''m ago'')"

definition show_u32 :: "u32 \<Rightarrow> string" where "show_u32 n = show_nat (unat n)"

definition resume_and_verify :: "debuggee \<Rightarrow> (string + string option) session_op" where
  "resume_and_verify d s =
     (case ds_last_thread s of
        None \<Rightarrow>
          (case on_conn (resume_all d) s of
             (Inl e, s1) \<Rightarrow> (Inl (''Failed to resume: '' @ show_jdwp_error e), s1)
           | (Inr _, s1) \<Rightarrow> (Inr None, s1))
      | Some probe \<Rightarrow>
          (case on_conn (resume_all_fully d probe MAX_RESUME_ATTEMPTS) s of
             (Inl e, s1) \<Rightarrow> (Inl (''Failed to resume: '' @ show_jdwp_error e), s1)
           | (Inr (issued, left), s1) \<Rightarrow>
               (Inr (if 0 < sint left
                  then Some (''the VM is STILL suspended after '' @ show_u32 issued @ '' resume(s) '' @ uni 0x2014
                     @ '' thread 0x'' @ show_hex (unat probe) @ '' has '' @ show_int (sint left)
                     @ '' suspend(s) left. Something is holding it beyond this session; call debug.continue again, or ''
                     @ ''debug.panic'')
                  else if 1 < issued then Some (''cleared a suspend depth of '' @ show_u32 issued)
                  else None), s1)))"

definition clear_pending_step :: "debuggee \<Rightarrow> debug_session \<Rightarrow> debug_session" where
  "clear_pending_step d s =
     (case ds_pending_step s of
        None \<Rightarrow> s
      | Some (req, _) \<Rightarrow> snd (on_conn (clear_step d req) (s\<lparr>ds_pending_step := None\<rparr>)))"

definition on_suspensions :: "(suspensions \<Rightarrow> suspensions) \<Rightarrow> debug_session \<Rightarrow> debug_session" where
  "on_suspensions f s = s\<lparr>ds_suspensions := f (ds_suspensions s)\<rparr>"

section \<open>Threads held one at a time\<close>

text \<open>Resume one thread until its count is zero: at most eight resumes; what is left is returned.\<close>

fun release_loop :: "nat \<Rightarrow> debuggee \<Rightarrow> u64 \<Rightarrow> u32 \<Rightarrow> conn \<Rightarrow> u32 \<times> conn" where
  "release_loop 0 d t left c = (left, c)"
| "release_loop (Suc n) d t left c =
     (if sint left \<le> 0 then (left, c)
      else (case resume_thread d t c of
          (Inl _, c1) \<Rightarrow> (0, c1)
        | (Inr _, c1) \<Rightarrow>
            (let (r, c2) = suspend_count d t c1
             in release_loop n d t (case r of Inl _ \<Rightarrow> 0 | Inr k \<Rightarrow> k) c2)))"

definition release_one :: "debuggee \<Rightarrow> u64 \<Rightarrow> u32 session_op" where
  "release_one d t =
     on_conn (\<lambda>c. let (r, c1) = suspend_count d t c
       in release_loop (unat MAX_RESUME_ATTEMPTS) d t (case r of Inl _ \<Rightarrow> 0 | Inr k \<Rightarrow> k) c1)"

definition quoted :: "string \<Rightarrow> string" where "quoted s = [CHR 0x22] @ s @ [CHR 0x22]"

primrec release_held :: "debuggee \<Rightarrow> (u64 \<times> string) list \<Rightarrow> (string list \<times> string list) session_op" where
  "release_held d [] s = (([], []), s)"
| "release_held d (h # held) s =
     (case h of (tid, name) \<Rightarrow>
       (let (left, s1) = release_one d tid s;
            who = ''0x'' @ show_hex (unat tid) @ '' '' @ quoted name;
            s2 = (if 0 < sint left then s1 else on_suspensions (snd \<circ> forget_thread tid) s1);
            ((freed, stuck), s3) = release_held d held s2
        in (if 0 < sint left then (freed, (who @ '' ('' @ show_int (sint left) @ '' left)'') # stuck)
            else (who # freed, stuck), s3)))"

definition release_thread_suspends :: "debuggee \<Rightarrow> u64 list option \<Rightarrow> (string list \<times> string list) session_op" where
  "release_thread_suspends d only s =
     release_held d (map (\<lambda>(t, r). (t, ts_name r))
       (filter (\<lambda>(t, _). case only of None \<Rightarrow> True | Some ids \<Rightarrow> t \<in> set ids) (su_threads (ds_suspensions s)))) s"

primrec verify_held :: "debuggee \<Rightarrow> (conn \<Rightarrow> instant) \<Rightarrow> u64 list \<Rightarrow> string list session_op" where
  "verify_held d clock [] s = ([], s)"
| "verify_held d clock (tid # tids) s =
     (let (r, s1) = on_conn (suspend_count d tid) s;
          left = (case r of Inl _ \<Rightarrow> 0 | Inr k \<Rightarrow> k);
          line = (if 0 < sint left
            then (case bt_get tid (su_threads (ds_suspensions s1)) of
                None \<Rightarrow> []
              | Some rec \<Rightarrow> [''0x'' @ show_hex (unat tid) @ '' '' @ quoted (ts_name rec) @ '' ('' @ show_int (sint left)
                  @ '' suspend(s), held '' @ ago (since_then (clock (ds_connection s1)) (ts_since rec)) @ '')''])
            else []);
          s2 = (if 0 < sint left then s1 else on_suspensions (snd \<circ> forget_thread tid) s1);
          (still, s3) = verify_held d clock tids s2
      in (line @ still, s3))"

definition verify_thread_suspends :: "debuggee \<Rightarrow> (conn \<Rightarrow> instant) \<Rightarrow> string session_op" where
  "verify_thread_suspends d clock s =
     (let (still, s1) = verify_held d clock (map fst (su_threads (ds_suspensions s))) s
      in (if still = [] then []
          else [CHR 0x0A] @ ''   '' @ uni 0x23F8 @ uni 0xFE0F @ ''  '' @ show_nat (length still)
            @ '' thread(s) held by this session are STILL suspended and this did not release them: '' @ join '', '' still
            @ [CHR 0x0A] @ ''   That is deliberate '' @ uni 0x2014 @ '' debug.continue clears the VM'' @ [CHR 0x27]
            @ ''s suspend depth, which is a different count. debug.resume_thread gives a thread back; debug.panic clears both.'',
          s1))"

section \<open>The watchdog\<close>

text \<open>What a pushed alert carries: its level and the note.\<close>

type_synonym alerts = "(string \<times> string) list"

definition note_rescue :: "string \<Rightarrow> string list \<Rightarrow> debug_session \<Rightarrow> debug_session" where
  "note_rescue note ids s = s\<lparr>ds_events := note_watchdog note ids (ds_events s)\<rparr>"

definition disarm_cause :: "debuggee \<Rightarrow> suspend_cause \<Rightarrow> (string \<times> string list) session_op" where
  "disarm_cause d cause s =
     (case cause of
        Cause_manual_pause \<Rightarrow>
          ((''suspended by debug.pause (a manual pause '' @ uni 0x2014 @ '' no stop point to disarm)'', []), s)
      | Cause_stop_point req \<Rightarrow>
          (case disarm_request d req s of
             (None, s1) \<Rightarrow>
               ((''(its stop point was already cleared, so there was nothing left to disarm)'', []), s1)
           | (Some what, s1) \<Rightarrow>
               ((''and disabled '' @ dis_description what @ '' so it can'' @ [CHR 0x27] @ ''t re-freeze the VM '' @ uni 0x2014
                   @ '' re-arm it with debug.toggle_stop_point (or use trace:true) when ready'', [dis_id what]), s1)))"

definition watchdog_resume :: "debuggee \<Rightarrow> nat \<Rightarrow> string \<Rightarrow> string list \<Rightarrow> alerts session_op" where
  "watchdog_resume d secs disarmed ids s =
     (let after = '' the VM after '' @ show_nat secs @ ''s '';
          warn = uni 0x26A0 @ uni 0xFE0F @ '' '';
          finish = (\<lambda>level note s'. ([(level, note)], note_rescue note ids s'))
      in case resume_and_verify d s of
           (Inr None, s1) \<Rightarrow>
             finish ''warning'' (''watchdog auto-resumed'' @ after @ disarmed) (on_suspensions mark_resumed s1)
         | (Inr (Some detail), s1) \<Rightarrow>
             (if prefix ''cleared'' detail
              then finish ''warning'' (''watchdog auto-resumed'' @ after @ disarmed @ '' ('' @ detail @ '')'')
                     (on_suspensions mark_resumed s1)
              else finish ''error'' (warn @ ''watchdog tried to resume'' @ after @ disarmed @ '', but '' @ detail) s1)
         | (Inl e, s1) \<Rightarrow> finish ''error'' (warn @ ''watchdog could not resume the VM after '' @ show_nat secs @ ''s: '' @ e) s1)"

definition rescue_vm :: "debuggee \<Rightarrow> (conn \<Rightarrow> instant) \<Rightarrow> nat \<Rightarrow> alerts session_op" where
  "rescue_vm d clock secs s =
     (case su_vm (ds_suspensions s) of
        None \<Rightarrow> ([], s)
      | Some vm \<Rightarrow>
          (if secs \<le> as_secs (since_then (clock (ds_connection s)) (vs_since vm))
           then (let s1 = clear_pending_step d s;
                     ((disarmed, ids), s2) = disarm_cause d (vs_cause vm) s1
                 in watchdog_resume d secs disarmed ids s2)
           else ([], s)))"

primrec disarm_all :: "debuggee \<Rightarrow> u32 list \<Rightarrow> disarmed list session_op" where
  "disarm_all d [] s = ([], s)"
| "disarm_all d (r # rs) s =
     (let (x, s1) = disarm_request d r s; (xs, s2) = disarm_all d rs s1
      in (case x of None \<Rightarrow> xs | Some what \<Rightarrow> what # xs, s2))"

definition armed_behind :: "u64 list \<Rightarrow> suspensions \<Rightarrow> u32 list" where
  "armed_behind tids su =
     List.map_filter (\<lambda>t. Option.bind (bt_get t (su_threads su))
       (\<lambda>r. case ts_hold r of Hold_failed_escalation req \<Rightarrow> Some req | Hold_requested \<Rightarrow> None)) tids"

definition rescue_overdue_thread_suspends :: "debuggee \<Rightarrow> (conn \<Rightarrow> instant) \<Rightarrow> nat \<Rightarrow> alerts session_op" where
  "rescue_overdue_thread_suspends d clock secs s =
     (let now = clock (ds_connection s); overdue = overdue_threads secs now (ds_suspensions s) in
      if overdue = [] then ([], s)
      else
        (let held_for = longest_held overdue now (ds_suspensions s);
             (disarmed, s1) = disarm_all d (armed_behind overdue (ds_suspensions s)) s;
             also = (if disarmed = [] then []
               else '', and disabled '' @ join '', '' (map dis_description disarmed) @ '' so it cannot re-freeze the thread ''
                 @ uni 0x2014 @ '' re-arm with debug.toggle_stop_point (or use trace:true) when ready'');
             ((freed, stuck), s2) = release_thread_suspends d (Some overdue) s1;
             note = (if stuck = []
               then ''watchdog released '' @ show_nat (length freed) @ '' held thread(s) after '' @ show_nat secs
                 @ ''s (held up to '' @ ago held_for @ ''): '' @ join '', '' freed @ also
               else uni 0x26A0 @ uni 0xFE0F @ '' watchdog tried to release '' @ show_nat (length freed + length stuck)
                 @ '' held thread(s) after '' @ show_nat secs @ ''s, but '' @ show_nat (length stuck)
                 @ '' are STILL suspended: '' @ join '', '' stuck @ also)
         in ([(if stuck = [] then ''warning'' else ''error'', note)], note_rescue note (map dis_id disarmed) s2)))"

definition watchdog_tick :: "debuggee \<Rightarrow> (conn \<Rightarrow> instant) \<Rightarrow> nat \<Rightarrow> alerts session_op" where
  "watchdog_tick d clock secs s =
     (let (a, s1) = rescue_vm d clock secs s; (b, s2) = rescue_overdue_thread_suspends d clock secs s1 in (a @ b, s2))"

section \<open>Continue, pause, panic\<close>

definition handle_continue :: "debuggee \<Rightarrow> (conn \<Rightarrow> instant) \<Rightarrow> (string + string) session_op" where
  "handle_continue d clock s =
     (case resume_and_verify d (clear_pending_step d s) of
        (Inl e, s1) \<Rightarrow> (Inl e, s1)
      | (Inr note, s1) \<Rightarrow>
          (let (held, s2) = verify_thread_suspends d clock (on_suspensions mark_resumed s1)
           in (Inr (uni 0x25B6 @ uni 0xFE0F @ ''  ''
                 @ (case note of None \<Rightarrow> ''Execution resumed'' | Some n \<Rightarrow> n) @ held), s2)))"

definition handle_pause :: "debuggee \<Rightarrow> (conn \<Rightarrow> instant) \<Rightarrow> nat \<Rightarrow> (string + string) session_op" where
  "handle_pause d clock secs s =
     (case su_vm (ds_suspensions s) of
        Some vm \<Rightarrow>
          (Inr (uni 0x23F8 @ uni 0xFE0F @ ''  Already suspended ''
             @ (case vs_cause vm of Cause_manual_pause \<Rightarrow> ''by an earlier debug.pause'' | Cause_stop_point _ \<Rightarrow> ''at a stop point'')
             @ '' ('' @ show_nat (as_secs (since_then (clock (ds_connection s)) (vs_since vm))) @ ''s ago) '' @ uni 0x2014
             @ '' left as it is.'' @ [CHR 0x0A] @ ''   Suspending again would need an extra debug.continue to undo, so this ''
             @ ''is a no-op. Use debug.continue to resume.''), s)
      | None \<Rightarrow>
          (case on_conn (suspend_all d) s of
             (Inl e, s1) \<Rightarrow> (Inl (''Failed to suspend: '' @ show_jdwp_error e), s1)
           | (Inr _, s1) \<Rightarrow>
               (Inr (uni 0x23F8 @ uni 0xFE0F @ ''  Execution paused (all threads suspended) '' @ uni 0x2014
                  @ (if secs = 0
                     then '' '' @ uni 0x26A0 @ uni 0xFE0F @ '' the watchdog is disabled (JDWP_WATCHDOG_SECS=0), so nothing ''
                       @ ''will auto-resume this. Call debug.continue.''
                     else '' the watchdog will auto-resume it after '' @ show_nat secs
                       @ ''s if you don'' @ [CHR 0x27] @ ''t. Call debug.continue when done.'')),
                on_suspensions (mark_suspended Cause_manual_pause (clock (ds_connection s1))) s1)))"

text \<open>Classes this session redefined, in the order of their names.\<close>

definition describe_redefinition :: "instant \<Rightarrow> string \<times> redefinition \<Rightarrow> string" where
  "describe_redefinition now e =
     (case e of (class, r) \<Rightarrow>
       ''   '' @ class @ '' '' @ uni 0x2014 @ '' reloaded ''
       @ (if rd_count r = 1 then ''once'' else show_u32 (rd_count r) @ uni 0xD7 @ '' times'') @ '', ''
       @ ago (since_then now (rd_at r)) @ '', ''
       @ (if rd_popped_since r then ''a frame was popped since, so the new code is live''
          else ''no frame popped since, so frames that were already running may still hold the old code'') @ [CHR 0x0A])"

definition describe_outstanding_redefinitions :: "instant \<Rightarrow> redefinitions \<Rightarrow> string" where
  "describe_outstanding_redefinitions now m =
     (if m = [] then []
      else [CHR 0x0A] @ uni 0x26A0 @ uni 0xFE0F @ ''  '' @ show_nat (length m)
        @ '' class(es) are still running bytecode this session installed. Nothing here can put them back '' @ uni 0x2014
        @ '' only redeploying the artifact restores the original code:'' @ [CHR 0x0A]
        @ concat (map (describe_redefinition now) m))"

definition count_of_kind :: "stop_point_kind \<Rightarrow> session_state \<Rightarrow> nat" where
  "count_of_kind k st = length (filter (\<lambda>sp. sp_kind sp = k) (stop_point_values st))"

definition counted :: "nat \<Rightarrow> string \<Rightarrow> string" where
  "counted n what = (if 0 < n then '' + '' @ show_nat n @ '' '' @ what else [])"

definition panic_counts :: "debug_session \<Rightarrow> string" where
  "panic_counts s =
     show_nat (count_of_kind SK_Line (ds_state s)) @ '' breakpoint(s)''
     @ counted (length (ds_pattern_sets s)) ''wildcard family(ies)''
     @ counted (length (ss_pending (ds_state s))) ''deferred''
     @ counted (count_of_kind SK_Exception (ds_state s)) ''exception''
     @ counted (count_of_kind SK_Watchpoint (ds_state s)) ''watchpoint''
     @ counted (count_of_kind SK_MethodExit (ds_state s)) ''method-exit''
     @ counted (count_of_kind SK_Monitor (ds_state s)) ''monitor''"

definition panic_threads :: "string list \<Rightarrow> string list \<Rightarrow> string" where
  "panic_threads freed stuck =
     (if freed = [] then []
      else [CHR 0x0A] @ ''   '' @ uni 0x25B6 @ uni 0xFE0F @ ''  Also released '' @ show_nat (length freed)
        @ '' thread(s) this session was holding: '' @ join '', '' freed)
     @ (if stuck = [] then []
        else [CHR 0x0A] @ ''   '' @ uni 0x26A0 @ uni 0xFE0F @ ''  '' @ show_nat (length stuck)
          @ '' thread(s) are STILL suspended after '' @ show_u32 MAX_RESUME_ATTEMPTS @ '' resumes each: '' @ join '', '' stuck
          @ '' '' @ uni 0x2014 @ '' something outside this session is holding them.'')"

definition handle_panic :: "debuggee \<Rightarrow> (conn \<Rightarrow> instant) \<Rightarrow> (string + string) session_op" where
  "handle_panic d clock s =
     (let s1 = clear_pending_step d s; counts = panic_counts s1 in
      case resume_and_verify d (disarm_everything d s1) of
        (Inl e, s2) \<Rightarrow> (Inl e, s2)
      | (Inr note, s2) \<Rightarrow>
          (let ((freed, stuck), s3) = release_thread_suspends d None (on_suspensions mark_resumed s2)
           in (Inr (uni 0x1F9EF @ '' Panic: cleared '' @ counts @ '' and resumed all threads.''
                 @ (case note of None \<Rightarrow> []
                    | Some t \<Rightarrow> [CHR 0x0A] @ ''   '' @ uni 0x26A0 @ uni 0xFE0F @ ''  '' @ t)
                 @ panic_threads freed stuck
                 @ describe_outstanding_redefinitions (clock (ds_connection s3)) (ds_redefinitions s3)), s3)))"

section \<open>Stepping\<close>

text \<open>\<open>trim_start_matches("0x")\<close> removes the prefix as often as it is there.\<close>

fun trim_0x :: "string \<Rightarrow> string" where
  "trim_0x (a # b # s) = (if a = CHR ''0'' \<and> b = CHR ''x'' then trim_0x s else a # b # s)"
| "trim_0x s = s"

definition parse_thread_id :: "string option \<Rightarrow> u64 option" where
  "parse_thread_id s = Option.bind s (u64_from_hex \<circ> trim_0x)"

definition DEFAULT_STEP_EXCLUSIONS :: "string list" where
  "DEFAULT_STEP_EXCLUSIONS = [''java.*'', ''javax.*'', ''jakarta.*'', ''sun.*'', ''com.sun.*'', ''jdk.*'', ''org.jboss.*'',
     ''io.undertow.*'', ''org.wildfly.*'', ''org.hibernate.*'']"

definition step_exclusions :: "string list option \<Rightarrow> string list" where
  "step_exclusions given = (case given of None \<Rightarrow> DEFAULT_STEP_EXCLUSIONS | Some l \<Rightarrow> l)"

datatype step_filter_source = Filter_call | Filter_session_default | Filter_built_in

definition resolve_step_filter ::
  "string list option \<Rightarrow> string list option \<Rightarrow> string list option \<Rightarrow> string list option
     \<Rightarrow> string list \<times> string list \<times> bool \<times> step_filter_source" where
  "resolve_step_filter asked_exclude asked_only session_exclude session_only =
     (let (exclude, only, source) =
        (if asked_exclude \<noteq> None \<or> asked_only \<noteq> None then (asked_exclude, asked_only, Filter_call)
         else if session_exclude \<noteq> None \<or> session_only \<noteq> None
         then (session_exclude, session_only, Filter_session_default)
         else (None, None, Filter_built_in));
          defaulted = (exclude = None);
          only' = (case only of None \<Rightarrow> [] | Some l \<Rightarrow> l);
          source' = (if source = Filter_session_default \<and> defaulted \<and> only' = [] then Filter_built_in else source)
      in (step_exclusions exclude, only', defaulted, source'))"

definition describe_step_filter :: "string list \<Rightarrow> string list \<Rightarrow> bool \<Rightarrow> step_filter_source \<Rightarrow> string" where
  "describe_step_filter exclude only defaulted source =
     (if source = Filter_session_default
      then [CHR 0x0A] @ ''   '' @ uni 0x21AA @ '' Using the session step filter set at attach '' @ uni 0x2014
        @ '' this call named none. Pass exclude_classes or only_classes here to step under a different one.''
      else [])
     @ (if exclude = [] \<and> only = []
        then [CHR 0x0A] @ ''   No class filter: this steps into framework and JDK code as well as yours.''
        else
          (if exclude = [] then []
           else [CHR 0x0A] @ ''   Stepping OVER '' @ join '', '' exclude @ '' (''
             @ (if defaulted then ''the default set''
                else if source = Filter_session_default then ''the session'' @ [CHR 0x27] @ ''s step_exclude_classes''
                else ''your exclude_classes'') @ '')''
             @ (if defaulted then '' '' @ uni 0x2014 @ '' pass exclude_classes:[] to step into everything'' else []))
          @ (if only = [] then [] else [CHR 0x0A] @ ''   Stepping ONLY within '' @ join '', '' only))"

definition handle_step ::
  "debuggee \<Rightarrow> step_depth \<Rightarrow> string \<Rightarrow> string option \<Rightarrow> string list option \<Rightarrow> string list option
     \<Rightarrow> (string + string) session_op" where
  "handle_step d depth label thread_arg asked_exclude asked_only s =
     (case (case parse_thread_id thread_arg of Some t \<Rightarrow> Some t | None \<Rightarrow> ds_last_thread s) of
        None \<Rightarrow> (Inl ''No thread to step. Pass thread_id, or hit a breakpoint first.'', s)
      | Some tid \<Rightarrow>
          (let s1 = clear_pending_step d s;
               (exclude, only, defaulted, source) = resolve_step_filter asked_exclude asked_only
                 (ds_step_exclude_classes s1) (ds_step_only_classes s1) in
           case on_conn (set_step_ex d tid depth exclude only) s1 of
             (Inl e, s2) \<Rightarrow> (Inl (''Failed to set step: '' @ show_jdwp_error e), s2)
           | (Inr req, s2) \<Rightarrow>
               (case on_conn (resume_all d) (on_suspensions mark_resumed (s2\<lparr>ds_pending_step := Some (req, tid)\<rparr>)) of
                  (Inl e, s3) \<Rightarrow> (Inl (''Failed to resume for step: '' @ show_jdwp_error e), s3)
                | (Inr _, s3) \<Rightarrow>
                    (Inr (uni 0x1F463 @ '' Stepping '' @ label @ '' on thread 0x'' @ show_hex (unat tid)
                       @ ''. Call debug.get_last_event to see where it stopped.''
                       @ describe_step_filter exclude only defaulted source), s3))))"

section \<open>One thread at a time\<close>

datatype thread_liveness = Thread_live u32 u32 | Thread_finished | Thread_vanished | Thread_unreadable string

definition classify_thread :: "debuggee \<Rightarrow> u64 \<Rightarrow> conn \<Rightarrow> thread_liveness \<times> conn" where
  "classify_thread d tid c =
     (let (r, c1) = get_thread_status d tid c
      in (case r of
            Inr (ts, ss) \<Rightarrow> if ts = 0 then Thread_finished else Thread_live ts ss
          | Inl (JdwpErrorCode code msg) \<Rightarrow>
              if code = 20 \<or> code = 10 then Thread_vanished
              else Thread_unreadable (show_jdwp_error (JdwpErrorCode code msg))
          | Inl e \<Rightarrow> Thread_unreadable (show_jdwp_error e), c1))"

fun thread_status_name :: "u32 \<Rightarrow> string" where
  "thread_status_name ts =
     (if ts = 0 then ''zombie'' else if ts = 1 then ''running'' else if ts = 2 then ''sleeping''
      else if ts = 3 then ''monitor'' else if ts = 4 then ''wait'' else ''unknown'')"

definition bad_thread_id :: "string \<Rightarrow> string" where
  "bad_thread_id raw =
     ''thread_id '' @ [CHR 0x27] @ raw @ [CHR 0x27]
     @ '' is not a thread id. They are hex, as debug.list_threads and debug.thread_dump print them '' @ uni 0x2014
     @ '' 0x7f2c1a0b3800. debug.list_threads {name_filter:'' @ quoted ''worker'' @ ''} is the usual way to find the one you want.''"

definition vanished_thread_note :: "u64 \<Rightarrow> string" where
  "vanished_thread_note tid =
     ''Thread 0x'' @ show_hex (unat tid) @ '' has VANISHED '' @ uni 0x2014
     @ '' the JVM no longer recognises the id, so there is nothing to name, describe or suspend. A thread id is a weak ''
     @ ''reference, so on a pool that retires workers this is ordinary rather than exotic: the id was valid when it was ''
     @ ''listed and the thread ended between then and now. Re-read debug.list_threads and pick a current one. This is NOT ''
     @ ''the same as a finished thread, which is still a row you can read.''"

definition finished_thread_note :: "u64 \<Rightarrow> string option \<Rightarrow> string" where
  "finished_thread_note tid name =
     ''Thread 0x'' @ show_hex (unat tid) @ (case name of None \<Rightarrow> [] | Some n \<Rightarrow> '' '' @ quoted n)
     @ '' has FINISHED '' @ uni 0x2014 @ '' it ran to completion, and the JVM answers ZOMBIE for it while ''
     @ ''the debugger still holds its Thread object. It can be named and described but never suspended, ''
     @ ''so there is no frame here to evaluate against and nothing this call could unlock. Pick a running ''
     @ ''thread from debug.list_threads. This is NOT the same as a vanished thread, whose id is gone entirely.''"

definition nothing_held_note :: "suspend_cause option \<Rightarrow> string" where
  "nothing_held_note vm_held =
     ''This session is not holding any thread with debug.suspend_thread, so there is nothing for ''
     @ ''debug.resume_thread to release.''
     @ (let rest = '', which is a different subject: debug.continue is what clears that, and it releases every thread at once.''
        in case vm_held of
             Some Cause_manual_pause \<Rightarrow> [CHR 0x0A] @ ''   The whole VM is suspended by an earlier debug.pause'' @ rest
           | Some (Cause_stop_point _) \<Rightarrow> [CHR 0x0A] @ ''   The whole VM is suspended at a stop point'' @ rest
           | None \<Rightarrow> [])"

definition which_thread_note :: "instant \<Rightarrow> (u64, thread_suspend) btree \<Rightarrow> string" where
  "which_thread_note now held =
     ''This session is holding '' @ show_nat (length held) @ '' threads suspended, so thread_id is required '' @ uni 0x2014
     @ '' resuming the wrong one lets a worker you are still reading run away. Held now:'' @ [CHR 0x0A]
     @ concat (map (\<lambda>(tid, r). ''   0x'' @ show_hex (unat tid) @ '' '' @ quoted (ts_name r) @ '' '' @ uni 0x2014 @ '' held ''
         @ ago (since_then now (ts_since r)) @ [CHR 0x0A]) held)"

text \<open>
  \<open>debug.suspend_thread\<close>: the reply is rendered from the thread, its name, the depth the debuggee answered,
  this session's own count, and what it was doing; here it is that record.
\<close>

record thread_suspend_reply =
  tr_tid :: u64
  tr_name :: string
  tr_depth :: u32
  tr_ours :: u32
  tr_secs :: nat
  tr_vm_held :: "suspend_cause option"
  tr_status :: string
  tr_was_already_suspended :: bool

definition handle_suspend_thread ::
  "debuggee \<Rightarrow> (conn \<Rightarrow> instant) \<Rightarrow> nat \<Rightarrow> string \<Rightarrow> (string + thread_suspend_reply) session_op" where
  "handle_suspend_thread d clock secs raw s =
     (case parse_thread_id (Some raw) of
        None \<Rightarrow> (Inl (bad_thread_id raw), s)
      | Some tid \<Rightarrow>
          (let (named, s1) = on_conn (get_thread_name d tid) s; name = ok_of named;
               (live, s2) = on_conn (classify_thread d tid) s1 in
           case live of
             Thread_vanished \<Rightarrow> (Inl (vanished_thread_note tid), s2)
           | Thread_finished \<Rightarrow> (Inl (finished_thread_note tid name), s2)
           | Thread_unreadable e \<Rightarrow>
               (Inl (''Could not read thread 0x'' @ show_hex (unat tid) @ [CHR 0x27] @ ''s status, so it was NOT suspended: ''
                  @ e @ [CHR 0x0A] @ ''   Nothing was sent. debug.list_threads re-reads the JVM'' @ [CHR 0x27] @ ''s own list.''), s2)
           | Thread_live status already \<Rightarrow>
               (case on_conn (suspend_thread d tid) s2 of
                  (Inl e, s3) \<Rightarrow>
                    (Inl (''Failed to suspend thread 0x'' @ show_hex (unat tid) @ '': '' @ show_jdwp_error e), s3)
                | (Inr _, s3) \<Rightarrow>
                    (let (counted, s4) = on_conn (suspend_count d tid) s3;
                         label = (case name of None \<Rightarrow> ''?'' | Some n \<Rightarrow> n);
                         (ours, su) = hold_thread tid label (clock (ds_connection s4)) (ds_suspensions s4);
                         s5 = s4\<lparr>ds_suspensions := su\<rparr>
                     in (Inr \<lparr>tr_tid = tid, tr_name = label, tr_depth = (case counted of Inl _ \<Rightarrow> - 1 | Inr k \<Rightarrow> k),
                           tr_ours = ours, tr_secs = secs, tr_vm_held = map_option vs_cause (su_vm su),
                           tr_status = thread_status_name status, tr_was_already_suspended = (already \<noteq> 0)\<rparr>, s5)))))"

definition render_thread_resume :: "string \<Rightarrow> u32 \<Rightarrow> suspend_cause option \<Rightarrow> string" where
  "render_thread_resume name left vm_held =
     (if sint left \<le> 0
      then uni 0x25B6 @ uni 0xFE0F @ ''  Resumed thread '' @ name @ '' '' @ uni 0x2014
        @ '' its suspend count is 0, so it is running again.'' @ [CHR 0x0A]
        @ ''   Any frame id or variable you read from it is now stale: the thread has moved on.''
      else uni 0x26A0 @ uni 0xFE0F @ ''  Thread '' @ name @ '' is STILL suspended '' @ uni 0x2014 @ '' '' @ show_int (sint left)
        @ '' suspend(s) left after that resume, so it is not running.'' @ [CHR 0x0A]
        @ ''   That is JDWP being counted, not a failure: this decrements ONE. The extra depth comes from another ''
        @ ''debug.suspend_thread, a stop point that suspended this thread, or a debug.pause.''
        @ (case vm_held of
             Some Cause_manual_pause \<Rightarrow> '' At least one of them is the debug.pause holding the whole VM '' @ uni 0x2014
               @ '' debug.continue clears that, and this tool cannot.''
           | Some (Cause_stop_point _) \<Rightarrow> '' At least one of them is the stop point holding the whole VM '' @ uni 0x2014
               @ '' debug.continue clears that, and this tool cannot.''
           | None \<Rightarrow> [])
        @ [CHR 0x0A] @ ''   Call debug.resume_thread again to take the next one off, or debug.panic to clear everything.'')"

text \<open>Which thread \<open>debug.resume_thread\<close> is about.\<close>

definition thread_to_resume :: "instant \<Rightarrow> string option \<Rightarrow> suspensions \<Rightarrow> string + u64" where
  "thread_to_resume now raw su =
     (case raw of
        Some r \<Rightarrow> (case parse_thread_id (Some r) of None \<Rightarrow> Inl (bad_thread_id r) | Some t \<Rightarrow> Inr t)
      | None \<Rightarrow>
          (case su_threads su of
             [] \<Rightarrow> Inl (nothing_held_note (map_option vs_cause (su_vm su)))
           | [(t, _)] \<Rightarrow> Inr t
           | held \<Rightarrow> Inl (which_thread_note now held)))"

definition gone_note :: "debuggee \<Rightarrow> u64 \<Rightarrow> string option session_op" where
  "gone_note d tid s =
     (case on_conn (classify_thread d tid) s of
        (Thread_vanished, s1) \<Rightarrow> (Some (vanished_thread_note tid), s1)
      | (Thread_finished, s1) \<Rightarrow>
          (let (name, s2) = on_conn (get_thread_name d tid) s1 in (Some (finished_thread_note tid (ok_of name)), s2))
      | (Thread_live _ _, s1) \<Rightarrow> (None, s1)
      | (Thread_unreadable _, s1) \<Rightarrow> (None, s1))"

definition drop_step_of :: "debuggee \<Rightarrow> u64 \<Rightarrow> bool session_op" where
  "drop_step_of d tid s =
     (case ds_pending_step s of
        None \<Rightarrow> (False, s)
      | Some (req, owner) \<Rightarrow>
          if owner = tid then (True, (snd (on_conn (clear_step d req) s))\<lparr>ds_pending_step := None\<rparr>) else (False, s))"

definition handle_resume_thread ::
  "debuggee \<Rightarrow> (conn \<Rightarrow> instant) \<Rightarrow> string option \<Rightarrow> (string + string) session_op" where
  "handle_resume_thread d clock raw s =
     (case thread_to_resume (clock (ds_connection s)) raw (ds_suspensions s) of
        Inl e \<Rightarrow> (Inl e, s)
      | Inr tid \<Rightarrow>
          (case gone_note d tid s of
             (Some note, s1) \<Rightarrow>
               (let (held, su) = forget_thread tid (ds_suspensions s1)
                in (Inl (note @ [CHR 0x0A] @ ''   ''
                      @ (if held then ''This session was holding it suspended; that record has been dropped. A thread that ''
                           @ ''has ended cannot hold anyone up, so there is nothing left to release.''
                         else ''This session was not holding it suspended either.'')), s1\<lparr>ds_suspensions := su\<rparr>))
           | (None, s1) \<Rightarrow>
               (let (dropped_step, s2) = drop_step_of d tid s1 in
                case on_conn (resume_thread d tid) s2 of
                  (Inl e, s3) \<Rightarrow>
                    (Inl (''Failed to resume thread 0x'' @ show_hex (unat tid) @ '': '' @ show_jdwp_error e), s3)
                | (Inr _, s3) \<Rightarrow>
                    (let (r, s4) = on_conn (suspend_count d tid) s3;
                         left = (case r of Inl _ \<Rightarrow> 0 | Inr k \<Rightarrow> k);
                         (rec, su) = release_thread tid (ds_suspensions s4);
                         name = ''0x'' @ show_hex (unat tid)
                           @ (case rec of None \<Rightarrow> []
                              | Some t \<Rightarrow> '' '' @ quoted (ts_name t) @ '' (held ''
                                  @ ago (since_then (clock (ds_connection s4)) (ts_since t)) @ '')'')
                     in (Inr (render_thread_resume name left (map_option vs_cause (su_vm su))
                           @ (if dropped_step
                              then [CHR 0x0A] @ ''   A pending single step on this thread was dropped first '' @ uni 0x2014
                                @ '' it would have re-stopped the thread on the next line, and a step event suspends every ''
                                @ ''thread. Arm another with debug.step_over once it is suspended again.''
                              else [])), s4\<lparr>ds_suspensions := su\<rparr>)))))"

section \<open>Disconnecting\<close>

text \<open>The part of \<open>debug.disconnect\<close> that runs on the session, and the tool over the table of sessions.\<close>

definition leave_running :: "debuggee \<Rightarrow> nat \<Rightarrow> string session_op" where
  "leave_running d stops s =
     (case on_conn (dispose d) s of
        (Inr _, s1) \<Rightarrow> (''cleared '' @ show_nat stops @ '' stop point(s) and resumed all threads'', s1)
      | (Inl _, s1) \<Rightarrow>
          (''Dispose failed '' @ uni 0x2014 @ '' best-effort cleared breakpoints and resumed ('' @ show_nat stops
             @ '' stop point(s))'',
           send_each_of [clear_all_breakpoints d, resume_all d] s1))"

definition disconnect_session ::
  "debuggee \<Rightarrow> (conn \<Rightarrow> instant) \<Rightarrow> (launched_jvm \<Rightarrow> string) \<Rightarrow> (string \<times> bool \<times> string) session_op" where
  "disconnect_session d clock end_jvm s =
     (let was_suspended = (su_vm (ds_suspensions s) \<noteq> None);
          (held, su) = forget_all_threads (ds_suspensions s);
          stops = length (ss_stop_points (ds_state s)) + length (ss_pending (ds_state s)) + length (ds_pattern_sets s);
          s1 = clear_pending_step d (s\<lparr>ds_suspensions := su\<rparr>);
          (note, s2) = leave_running d stops s1;
          s3 = on_suspensions mark_resumed s2;
          residue = describe_outstanding_redefinitions (clock (ds_connection s3)) (ds_redefinitions s3);
          launched = (case ds_launched s3 of None \<Rightarrow> [] | Some j \<Rightarrow> end_jvm j);
          threads = (if held = [] then []
            else [CHR 0x0A] @ ''   '' @ show_nat (length held)
              @ '' thread(s) this session had suspended one at a time were released too: '' @ join '', '' (map quoted held))
      in ((note, was_suspended, threads @ residue @ launched), s3\<lparr>ds_launched := None\<rparr>))"

definition handle_disconnect ::
  "debuggee \<Rightarrow> (conn \<Rightarrow> instant) \<Rightarrow> (launched_jvm \<Rightarrow> string) \<Rightarrow> string option \<Rightarrow> session_manager
     \<Rightarrow> (string + string \<times> debug_session option) \<times> session_manager" where
  "handle_disconnect d clock end_jvm asked m =
     (case (case asked of Some i \<Rightarrow> Some i | None \<Rightarrow> get_current_session_id m) of
        None \<Rightarrow> (Inl ''No active debug session to disconnect'', m)
      | Some sid \<Rightarrow>
          (let base = uni 0x2705 @ '' Disconnected from debug session: '' @ sid
           in case get_session_by_id sid m of
                None \<Rightarrow> (Inr (base, None), remove_session sid m)
              | Some s \<Rightarrow>
                  (let ((note, was_suspended, residue), s1) = disconnect_session d clock end_jvm s
                   in (Inr (base @ [CHR 0x0A] @ ''   '' @ note
                         @ (if was_suspended
                            then [CHR 0x0A] @ ''   The VM was suspended at a stop point '' @ uni 0x2014 @ '' it is now running.''
                            else []) @ residue, Some s1), remove_session sid m))))"

end
