(* ===== verification/Toggling.thy ===== *)
theory Toggling
  imports Arming
begin

text \<open>
  \<open>mcp-server/src/handlers.rs\<close>: silencing a stop point and re-arming it from its stored definition
  (\<open>debug.toggle_stop_point\<close>), for each of the five kinds and for a wildcard family, and editing the
  condition or the hit count of an armed one (\<open>debug.update_stop_point\<close>).
\<close>

section \<open>Re-arming, kind by kind\<close>

record rearmed =
  re_request_ids :: "u32 list"
  re_armed_on :: "armed_on option"

definition rearm_method_exit ::
  "debuggee \<Rightarrow> stop_point \<Rightarrow> method_exit_request \<Rightarrow> (string + rearmed) session_op" where
  "rearm_method_exit d sp me s =
     (case on_conn (set_method_exit_request_ex d (me_class_pattern me) (me_with_return_value me)
              (suspend_policy_for (sp_trace sp)) (me_exclude_classes me) (stop_filters sp)) s of
        (Inl e, s1) \<Rightarrow> (Inl (''Failed to re-arm method-exit request: '' @ show_jdwp_error e), s1)
      | (Inr req, s1) \<Rightarrow> (Inr \<lparr>re_request_ids = [req], re_armed_on = None\<rparr>, s1))"

definition rearm_signature :: "string \<Rightarrow> string" where
  "rearm_signature pattern = ''L'' @ replace_char CHR ''.'' CHR ''/'' pattern @ '';''"

definition rearm_breakpoint_location :: "debuggee \<Rightarrow> line_breakpoint \<Rightarrow> (string + breakpoint_arm) session_op" where
  "rearm_breakpoint_location d bp s =
     (case on_conn (classes_by_signature d (rearm_signature (lb_class_pattern bp))) s of
        (Inl e, s1) \<Rightarrow>
          (Inl (''Failed to look up '' @ [CHR 0x27] @ lb_class_pattern bp @ [CHR 0x27] @ '': '' @ show_jdwp_error e), s1)
      | (Inr [], s1) \<Rightarrow>
          (Inl (''Cannot re-arm: class '' @ [CHR 0x27] @ lb_class_pattern bp @ [CHR 0x27]
             @ '' is not loaded any more (was it redeployed? trigger it once so the JVM loads it, then retry ''
             @ uni 0x2014 @ '' or set a fresh breakpoint, which defers until it loads)''), s1)
      | (Inr (cls # _), s1) \<Rightarrow>
          (case on_conn (resolve_bp_location d (ci_type_id cls) (i32_of_u32 (lb_line bp)) (lb_method bp)) s1 of
             (Inl _, s2) \<Rightarrow> (Inr (lb_arm bp), s2)
           | (Inr loc, s2) \<Rightarrow>
               (Inr ((lb_arm bp)\<lparr>ba_class_id := ci_type_id cls, ba_method_id := mi_method_id (rl_method loc),
                  ba_bytecode_index := rl_code_index loc,
                  ba_extra_locations := locations_at (ci_type_id cls) (mi_method_id (rl_method loc))
                    (rl_extra_code_indices loc)\<rparr>), s2)))"

definition rearm_line_breakpoint ::
  "debuggee \<Rightarrow> stop_point \<Rightarrow> line_breakpoint \<Rightarrow> (string + rearmed) session_op" where
  "rearm_line_breakpoint d sp bp s =
     (case rearm_breakpoint_location d bp s of
        (Inl e, s1) \<Rightarrow> (Inl e, s1)
      | (Inr arm, s1) \<Rightarrow>
          (case on_conn (set_breakpoint_ex d (ba_class_id arm) (ba_method_id arm) (ba_bytecode_index arm)
                   (ba_suspend_policy arm) (stop_filters sp)) s1 of
             (Inl e, s2) \<Rightarrow> (Inl (''Failed to re-arm breakpoint: '' @ show_jdwp_error e), s2)
           | (Inr req, s2) \<Rightarrow>
               (let (extra, s3) = on_conn (arm_extra_line_locations d arm (stop_filters sp)) s2;
                    arm' = arm\<lparr>ba_extra_locations := xl_armed extra\<rparr>
                in (Inr \<lparr>re_request_ids = req # xl_request_ids extra, re_armed_on = Some (On_line (bp\<lparr>lb_arm := arm'\<rparr>))\<rparr>,
                    s3))))"

definition not_loaded_any_more :: "stop_point \<Rightarrow> string \<Rightarrow> string \<Rightarrow> string \<Rightarrow> string" where
  "not_loaded_any_more sp what class remedy =
     ''Cannot re-arm '' @ sp_id sp @ '': '' @ what @ '' '' @ [CHR 0x27] @ class @ [CHR 0x27]
     @ '' is not loaded any more (was it redeployed? '' @ remedy @ '', then retry)''"

definition rearm_exception_request ::
  "debuggee \<Rightarrow> stop_point \<Rightarrow> exception_breakpoint \<Rightarrow> (string + rearmed) session_op" where
  "rearm_exception_request d sp er s =
     (let (looked_up, s1) = (if xb_class_pattern er = ''*'' then (Inr None, s)
            else (case on_conn (resolve_class_by_dotted d (xb_class_pattern er)) s of
                (Inl e, s1) \<Rightarrow> (Inl e, s1)
              | (Inr None, s1) \<Rightarrow>
                  (Inl (not_loaded_any_more sp ''exception class'' (xb_class_pattern er)
                     ''trigger it once so the JVM loads it''), s1)
              | (Inr (Some rt), s1) \<Rightarrow> (Inr (Some rt), s1)))
      in case looked_up of
           Inl e \<Rightarrow> (Inl e, s1)
         | Inr ref_type \<Rightarrow>
             (case on_conn (set_exception_request_ex d ref_type (xb_caught er) (xb_uncaught er)
                      (suspend_policy_for (sp_trace sp)) (stop_filters sp)) s1 of
                (Inl e, s2) \<Rightarrow> (Inl (''Failed to re-arm exception breakpoint: '' @ show_jdwp_error e), s2)
              | (Inr req, s2) \<Rightarrow> (Inr \<lparr>re_request_ids = [req], re_armed_on = None\<rparr>, s2)))"

text \<open>The superclass chain is walked at most fifty types deep.\<close>

definition field_wanted :: "string \<Rightarrow> bool option \<Rightarrow> field_info \<Rightarrow> bool" where
  "field_wanted name want_static f =
     (fld_name f = name
      \<and> (case want_static of
           Some True \<Rightarrow> and (fld_mod_bits f) ACC_STATIC \<noteq> 0
         | Some False \<Rightarrow> and (fld_mod_bits f) ACC_STATIC = 0
         | None \<Rightarrow> True))"

fun find_field_from ::
  "nat \<Rightarrow> debuggee \<Rightarrow> string \<Rightarrow> bool option \<Rightarrow> u64 option \<Rightarrow> conn \<Rightarrow> (string + (u64 \<times> field_info) option) \<times> conn" where
  "find_field_from 0 d name ws cur c = (Inr None, c)"
| "find_field_from (Suc n) d name ws None c = (Inr None, c)"
| "find_field_from (Suc n) d name ws (Some tid) c =
     (case get_fields d tid c of
        (Inl e, c1) \<Rightarrow> (Inl (''Failed to get fields: '' @ show_jdwp_error e), c1)
      | (Inr fs, c1) \<Rightarrow>
          (case find (field_wanted name ws) fs of
             Some f \<Rightarrow> (Inr (Some (tid, f)), c1)
           | None \<Rightarrow>
               (let (r, c2) = get_superclass d tid c1
                in find_field_from n d name ws (case r of Inl _ \<Rightarrow> None | Inr p \<Rightarrow> p) c2)))"

definition find_field_info ::
  "debuggee \<Rightarrow> u64 \<Rightarrow> string \<Rightarrow> bool option \<Rightarrow> conn \<Rightarrow> (string + (u64 \<times> field_info) option) \<times> conn" where
  "find_field_info d tid name ws = find_field_from 50 d name ws (Some tid)"

definition rearm_watchpoint :: "debuggee \<Rightarrow> stop_point \<Rightarrow> watchpoint \<Rightarrow> (string + rearmed) session_op" where
  "rearm_watchpoint d sp wp s =
     (case on_conn (resolve_class_by_dotted d (wp_class_name wp)) s of
        (Inl e, s1) \<Rightarrow> (Inl e, s1)
      | (Inr None, s1) \<Rightarrow>
          (Inl (not_loaded_any_more sp ''class'' (wp_class_name wp) ''exercise it once so the JVM loads it''), s1)
      | (Inr (Some tid), s1) \<Rightarrow>
          (case on_conn (find_field_info d tid (wp_field_name wp) None) s1 of
             (Inl e, s2) \<Rightarrow> (Inl e, s2)
           | (Inr None, s2) \<Rightarrow>
               (Inl (''Cannot re-arm '' @ sp_id sp @ '': class '' @ [CHR 0x27] @ wp_class_name wp @ [CHR 0x27]
                  @ '' no longer has a field '' @ [CHR 0x27] @ wp_field_name wp @ [CHR 0x27]), s2)
           | (Inr (Some (declaring, f)), s2) \<Rightarrow>
               (case on_conn (set_field_watch_ex d declaring (fld_field_id f) (wp_kind wp)
                        (suspend_policy_for (sp_trace sp)) (stop_filters sp)) s2 of
                  (Inl e, s3) \<Rightarrow> (Inl (''Failed to re-arm watchpoint: '' @ show_jdwp_error e), s3)
                | (Inr req, s3) \<Rightarrow> (Inr \<lparr>re_request_ids = [req], re_armed_on = None\<rparr>, s3))))"

definition resolve_monitor_class :: "debuggee \<Rightarrow> string \<Rightarrow> conn \<Rightarrow> (string + u64) \<times> conn" where
  "resolve_monitor_class d dotted c =
     (case resolve_class_by_dotted d dotted c of
        (Inl e, c1) \<Rightarrow> (Inl e, c1)
      | (Inr (Some i), c1) \<Rightarrow> (Inr i, c1)
      | (Inr None, c1) \<Rightarrow>
          (Inl (''monitor_class '' @ [CHR 0x27] @ dotted @ [CHR 0x27]
             @ '' is not loaded in this JVM, so a ClassOnly filter on it would match nothing '' @ uni 0x2014
             @ '' and it cannot be deferred, because JDWP'' @ [CHR 0x27] @ ''s ClassOnly takes a concrete type rather ''
             @ ''than a pattern. A lock type the JVM has never loaded is also not being contended. Exercise ''
             @ ''the code that uses it once, then arm; or drop monitor_class and filter with thread_id.''), c1))"

definition rearm_monitor_request :: "debuggee \<Rightarrow> stop_point \<Rightarrow> monitor_stop \<Rightarrow> (string + rearmed) session_op" where
  "rearm_monitor_request d sp mon s =
     (let (class_filter, s1) = (case ms_monitor_class mon of
            None \<Rightarrow> (Inr None, s)
          | Some name \<Rightarrow>
              (case on_conn (resolve_monitor_class d name) s of
                 (Inl e, s1) \<Rightarrow> (Inl (''Cannot re-arm '' @ sp_id sp @ '': '' @ e), s1)
               | (Inr i, s1) \<Rightarrow> (Inr (Some i), s1)))
      in case class_filter of
           Inl e \<Rightarrow> (Inl e, s1)
         | Inr cls \<Rightarrow>
             (case on_conn (set_monitor_request d (ms_kind mon) (suspend_policy_for (sp_trace sp))
                      (if class_filter_tests_monitor (ms_kind mon) then cls else None)
                      \<lparr>ef_count = sp_hit_count sp, ef_thread = sp_thread_filter sp, ef_instance = None\<rparr>) s1 of
                (Inl e, s2) \<Rightarrow> (Inl (''Failed to re-arm monitor request: '' @ show_jdwp_error e), s2)
              | (Inr req, s2) \<Rightarrow>
                  (Inr \<lparr>re_request_ids = [req], re_armed_on = None\<rparr>,
                   s2\<lparr>ds_monitor_clock := forget_pair (fst (pair_of (ms_kind mon))) (ds_monitor_clock s2)\<rparr>)))"

section \<open>Re-arming one stop point\<close>

definition rearm_by_kind :: "debuggee \<Rightarrow> stop_point \<Rightarrow> (string + rearmed) session_op" where
  "rearm_by_kind d sp =
     (case sp_armed_on sp of
        On_line bp \<Rightarrow> rearm_line_breakpoint d sp bp
      | On_exception er \<Rightarrow> rearm_exception_request d sp er
      | On_watchpoint wp \<Rightarrow> rearm_watchpoint d sp wp
      | On_method_exit me \<Rightarrow> rearm_method_exit d sp me
      | On_monitor mon \<Rightarrow> rearm_monitor_request d sp mon)"

definition write_rearmed :: "rearmed \<Rightarrow> stop_point \<Rightarrow> stop_point" where
  "write_rearmed r sp =
     sp\<lparr>sp_request_ids := re_request_ids r, sp_enabled := True, sp_spent := False,
        sp_trace_budget := refreshed_budget (sp_trace_budget sp), sp_trace_cost := trace_cost_default,
        sp_armed_on := (case re_armed_on r of None \<Rightarrow> sp_armed_on sp | Some on \<Rightarrow> on)\<rparr>"

definition rearm_stop_point :: "debuggee \<Rightarrow> string \<Rightarrow> (string + string) session_op" where
  "rearm_stop_point d i s =
     (case hm_get i (ss_stop_points (ds_state s)) of
        None \<Rightarrow> (Inl (''Stop point not found: '' @ i), s)
      | Some sp \<Rightarrow>
          (case rearm_by_kind d sp s of
             (Inl e, s1) \<Rightarrow> (Inl e, s1)
           | (Inr r, s1) \<Rightarrow>
               (Inr (describe_armed_on (sp_armed_on sp)), on_state (modify_stop_point i (write_rearmed r)) s1)))"

section \<open>Toggling\<close>

primrec toggle_members :: "debuggee \<Rightarrow> bool \<Rightarrow> string list \<Rightarrow> (nat \<times> nat) session_op" where
  "toggle_members d want [] s = ((0, 0), s)"
| "toggle_members d want (m # ms) s =
     (let (r, s1) = (if want then rearm_stop_point d m s else disable_stop_point d m s);
          ((changed, failed), s2) = toggle_members d want ms s1
      in (case r of Inr _ \<Rightarrow> (changed + 1, failed) | Inl _ \<Rightarrow> (changed, failed + 1), s2))"

definition toggle_family_watch :: "debuggee \<Rightarrow> string \<Rightarrow> string \<Rightarrow> bool \<Rightarrow> string session_op" where
  "toggle_family_watch d set_id pattern want s =
     (if want
      then
        (if (case hm_get set_id (ds_pattern_sets s) of None \<Rightarrow> False | Some f \<Rightarrow> \<not> has_room f)
         then ('' and is NOT watching for new classes, because it is still full at max_classes '' @ uni 0x2014
                 @ '' clear a member and it starts watching again'',
               modify_set set_id (\<lambda>f. f\<lparr>ps_watch := Watch_parked\<rparr>) s)
         else (case on_conn (set_class_prepare d (fst (jdwp_class_match_for pattern)) SP_EventThread) s of
             (Inr req, s1) \<Rightarrow>
               ('' and is watching for matching classes again'', modify_set set_id (\<lambda>f. f\<lparr>ps_watch := Watch_watching req\<rparr>) s1)
           | (Inl _, s1) \<Rightarrow>
               ('' '' @ uni 0x2014 @ '' but its watch for classes loading later could NOT be re-registered, so only the ''
                  @ ''breakpoints above are live'', modify_set set_id (\<lambda>f. f\<lparr>ps_watch := Watch_failed\<rparr>) s1)))
      else
        ('' and stopped watching for new classes'',
         modify_set set_id (\<lambda>f. f\<lparr>ps_watch := Watch_disabled\<rparr>)
           (case Option.bind (hm_get set_id (ds_pattern_sets s)) (watch_request_id \<circ> ps_watch) of
              None \<Rightarrow> s | Some req \<Rightarrow> snd (on_conn (clear_class_prepare d req) s))))"

definition toggle_pattern_family :: "debuggee \<Rightarrow> string \<Rightarrow> bool \<Rightarrow> (string + string) session_op" where
  "toggle_pattern_family d set_id want s =
     (case hm_get set_id (ds_pattern_sets s) of
        None \<Rightarrow> (Inl (''Stop point not found: '' @ set_id), s)
      | Some ps \<Rightarrow>
          (let ((changed, failed), s1) = toggle_members d want (ps_members ps) s;
               (watch_note, s2) = toggle_family_watch d set_id (ps_class_pattern ps) want s1;
               s3 = modify_set set_id (\<lambda>f. f\<lparr>ps_enabled := want\<rparr>) s2;
               failures = (if 0 < failed
                 then '' ('' @ show_nat failed @ '' member(s) could not be changed '' @ uni 0x2014 @ '' see the server log)''
                 else []);
               count = set_id @ '' ('' @ ps_class_pattern ps @ '') '' @ uni 0x2014 @ '' '' @ show_nat changed
                 @ '' breakpoint(s)'' @ watch_note @ failures
           in (Inr (if want
                 then uni 0x2705 @ '' Re-armed family '' @ count @ ''. Same ids, so anything holding them keeps working.''
                 else uni 0x1F515 @ '' Disabled family '' @ count
                   @ ''. Their definitions are kept; toggle it back on to re-arm.''), s3)))"

definition enabled_state_of :: "string \<Rightarrow> debug_session \<Rightarrow> string + bool" where
  "enabled_state_of i s =
     (case hm_get i (ss_stop_points (ds_state s)) of
        Some sp \<Rightarrow> Inr (sp_enabled sp)
      | None \<Rightarrow>
          (case find (\<lambda>p. pb_bp_id p = i) (ss_pending (ds_state s)) of
             Some pb \<Rightarrow> Inl (i @ '' is a deferred breakpoint waiting for '' @ pb_class_pattern pb @ '' to load '' @ uni 0x2014
               @ '' it holds no active breakpoint request yet, so there is nothing to toggle. Use debug.clear_stop_point to ''
               @ ''drop it, or toggle it once the class loads and it arms.'')
           | None \<Rightarrow> Inl (''Stop point not found: '' @ i)))"

definition object_is_gone :: "debuggee \<Rightarrow> u64 \<Rightarrow> conn \<Rightarrow> bool \<times> conn" where
  "object_is_gone d oid c =
     (let (r, c1) = is_collected d oid c
      in (case r of
            Inr b \<Rightarrow> b
          | Inl (JdwpErrorCode code _) \<Rightarrow> code = ERR_INVALID_OBJECT
          | Inl _ \<Rightarrow> False, c1))"

definition check_instance_filter_still_live :: "debuggee \<Rightarrow> string \<Rightarrow> (string + unit) session_op" where
  "check_instance_filter_still_live d i s =
     (case Option.bind (hm_get i (ss_stop_points (ds_state s))) sp_instance_filter of
        None \<Rightarrow> (Inr (), s)
      | Some oid \<Rightarrow>
          (let (gone, s1) = on_conn (object_is_gone d oid) s
           in if gone
              then (Inl (''Cannot re-arm '' @ i @ '': it is scoped to @0x'' @ show_hex (unat oid)
                 @ '', and the debuggee has collected that object. While '' @ i @ '' was armed the InstanceOnly modifier ''
                 @ ''pinned it (ADR-0027); disabling '' @ i @ '' released that pin, and the application has since dropped ''
                 @ ''its own last reference. Re-arming would give you a stop point that lists itself as armed and can ''
                 @ ''never fire '' @ uni 0x2014 @ '' silence that reads as the code never running. Take a fresh handle ''
                 @ ''from debug.list_instances and arm a new stop point, or clear this one and re-arm it unscoped.''), s1)
              else (Inr (), s1)))"

definition no_change :: "string \<Rightarrow> bool \<Rightarrow> string" where
  "no_change i current = ''No change: '' @ i @ '' is already '' @ (if current then ''armed'' else ''disabled'') @ ''.''"

definition handle_toggle_stop_point :: "debuggee \<Rightarrow> string \<Rightarrow> bool option \<Rightarrow> (string + string) session_op" where
  "handle_toggle_stop_point d i enabled s =
     (case hm_get i (ds_pattern_sets s) of
        Some ps \<Rightarrow>
          (let want = (case enabled of None \<Rightarrow> \<not> ps_enabled ps | Some w \<Rightarrow> w)
           in if want = ps_enabled ps then (Inr (no_change i want), s) else toggle_pattern_family d i want s)
      | None \<Rightarrow>
          (case enabled_state_of i s of
             Inl e \<Rightarrow> (Inl e, s)
           | Inr current \<Rightarrow>
               (let want = (case enabled of None \<Rightarrow> \<not> current | Some w \<Rightarrow> w) in
                if want = current then (Inr (no_change i current), s)
                else if want then
                  (case check_instance_filter_still_live d i s of
                     (Inl e, s1) \<Rightarrow> (Inl e, s1)
                   | (Inr _, s1) \<Rightarrow>
                       (case rearm_stop_point d i s1 of
                          (Inl e, s2) \<Rightarrow> (Inl e, s2)
                        | (Inr what, s2) \<Rightarrow> (Inr (uni 0x2705 @ '' Re-armed '' @ i @ '' ('' @ what @ '') '' @ uni 0x2014
                            @ '' same id, so anything holding it keeps working.''), s2)))
                else
                  (case disable_stop_point d i s of
                     (Inl e, s1) \<Rightarrow> (Inl e, s1)
                   | (Inr what, s1) \<Rightarrow> (Inr (uni 0x1F515 @ '' Disabled '' @ i @ '' ('' @ what @ '') '' @ uni 0x2014
                       @ '' its definition is kept; toggle it back on to re-arm.''), s1)))))"

section \<open>Editing an armed stop point\<close>

record editable_stop_point =
  ed_kind :: string
  ed_condition :: "string option"
  ed_hit_count :: "u32 option"
  ed_spent :: bool
  ed_supports_condition :: bool
  ed_family_members :: "string list"

definition read_editable_stop_point :: "string \<Rightarrow> debug_session \<Rightarrow> string + editable_stop_point" where
  "read_editable_stop_point i s =
     (case hm_get i (ss_stop_points (ds_state s)) of
        Some sp \<Rightarrow> Inr \<lparr>ed_kind = kind_label (sp_kind sp), ed_condition = sp_condition sp, ed_hit_count = sp_hit_count sp,
          ed_spent = sp_spent sp, ed_supports_condition = takes_condition (sp_kind sp), ed_family_members = []\<rparr>
      | None \<Rightarrow>
          (case hm_get i (ds_pattern_sets s) of
             Some f \<Rightarrow> Inr \<lparr>ed_kind = ''wildcard family'', ed_condition = ps_condition f, ed_hit_count = ps_hit_count f,
               ed_spent = False, ed_supports_condition = True, ed_family_members = ps_members f\<rparr>
           | None \<Rightarrow>
               (case find (\<lambda>p. pb_bp_id p = i) (ss_pending (ds_state s)) of
                  Some pb \<Rightarrow> Inr \<lparr>ed_kind = ''deferred breakpoint'', ed_condition = pb_condition pb,
                    ed_hit_count = pb_hit_count pb, ed_spent = False, ed_supports_condition = True, ed_family_members = []\<rparr>
                | None \<Rightarrow> Inl (''Stop point not found: '' @ i
                    @ ''. debug.list_stop_points shows every id this session holds.''))))"

datatype 'a field_edit = Edit_leave | Edit_clear | Edit_set 'a

definition edit_asked :: "'a field_edit \<Rightarrow> bool" where
  "edit_asked e = (case e of Edit_leave \<Rightarrow> False | _ \<Rightarrow> True)"

fun put_edit :: "'a field_edit \<Rightarrow> 'a option \<Rightarrow> 'a option" where
  "put_edit Edit_leave old = old"
| "put_edit Edit_clear old = None"
| "put_edit (Edit_set v) old = Some v"

definition edit_stop_point :: "string field_edit \<Rightarrow> u32 field_edit \<Rightarrow> stop_point \<Rightarrow> stop_point" where
  "edit_stop_point cond hits sp =
     (let sp' = (if takes_condition (sp_kind sp) then sp\<lparr>sp_condition := put_edit cond (sp_condition sp)\<rparr> else sp)
      in sp'\<lparr>sp_hit_count := put_edit hits (sp_hit_count sp)\<rparr>)"

fun modify_first_pending ::
  "string \<Rightarrow> (pending_breakpoint \<Rightarrow> pending_breakpoint) \<Rightarrow> pending_breakpoint list \<Rightarrow> pending_breakpoint list" where
  "modify_first_pending i f [] = []"
| "modify_first_pending i f (p # ps) = (if pb_bp_id p = i then f p # ps else p # modify_first_pending i f ps)"

definition apply_stop_point_edit ::
  "string field_edit \<Rightarrow> u32 field_edit \<Rightarrow> string \<Rightarrow> debug_session \<Rightarrow> debug_session" where
  "apply_stop_point_edit cond hits i s =
     (if hm_get i (ss_stop_points (ds_state s)) \<noteq> None
      then on_state (modify_stop_point i (edit_stop_point cond hits)) s
      else if list_ex (\<lambda>p. pb_bp_id p = i) (ss_pending (ds_state s))
      then on_state (\<lambda>st. st\<lparr>ss_pending := modify_first_pending i
             (\<lambda>p. p\<lparr>pb_condition := put_edit cond (pb_condition p), pb_hit_count := put_edit hits (pb_hit_count p)\<rparr>)
             (ss_pending st)\<rparr>) s
      else modify_set i
             (\<lambda>f. f\<lparr>ps_condition := put_edit cond (ps_condition f), ps_hit_count := put_edit hits (ps_hit_count f)\<rparr>) s)"

text \<open>The tool's argument pairs: \<open>condition\<close>/\<open>clear_condition\<close> and \<open>hit_count\<close>/\<open>clear_hit_count\<close>.\<close>

record update_args =
  ua_condition :: "string option"
  ua_clear_condition :: bool
  ua_hit_count :: "u32 option"
  ua_clear_hit_count :: bool

definition edit_of :: "'a option \<Rightarrow> bool \<Rightarrow> 'a field_edit" where
  "edit_of v clear = (if clear then Edit_clear else case v of None \<Rightarrow> Edit_leave | Some x \<Rightarrow> Edit_set x)"

definition parse_stop_point_edit :: "update_args \<Rightarrow> string + string field_edit \<times> u32 field_edit" where
  "parse_stop_point_edit a =
     (if ua_condition a \<noteq> None \<and> ua_clear_condition a
      then Inl (''Pass condition or clear_condition, not both '' @ uni 0x2014 @ '' they ask for opposite things, and ''
             @ ''picking one for you would silently decide what this stop point fires on.'')
      else if ua_hit_count a \<noteq> None \<and> ua_clear_hit_count a
      then Inl ''Pass hit_count or clear_hit_count, not both.''
      else Inr (edit_of (ua_condition a) (ua_clear_condition a), edit_of (ua_hit_count a) (ua_clear_hit_count a)))"

definition is_armed :: "string \<Rightarrow> debug_session \<Rightarrow> bool" where
  "is_armed i s = (case hm_get i (ss_stop_points (ds_state s)) of None \<Rightarrow> False | Some sp \<Rightarrow> sp_enabled sp)"

primrec replace_requests :: "debuggee \<Rightarrow> string list \<Rightarrow> nat session_op" where
  "replace_requests d [] s = (0, s)"
| "replace_requests d (t # ts) s =
     (if is_armed t s
      then (let (r, s1) = rearm_stop_point d t (snd (disable_stop_point d t s));
                (n, s2) = replace_requests d ts s1
            in (case r of Inr _ \<Rightarrow> n + 1 | Inl _ \<Rightarrow> n, s2))
      else replace_requests d ts s)"

definition push_hit_count_to_the_wire :: "debuggee \<Rightarrow> string list \<Rightarrow> string session_op" where
  "push_hit_count_to_the_wire d targets s =
     (let (rearmed, s1) = replace_requests d targets s
      in ([CHR 0x0A] @ ''   '' @ uni 0x21BB @ '' hit_count is JDWP'' @ [CHR 0x27]
            @ ''s Count modifier, so the request was replaced on '' @ show_nat rearmed
            @ '' stop point(s) to carry it. The id and the tally below are this server'' @ [CHR 0x27]
            @ ''s and survived; the JVM'' @ [CHR 0x27] @ ''s own count starts again from zero.'', s1))"

definition refuse_uneditable :: "string \<Rightarrow> editable_stop_point \<Rightarrow> string field_edit \<Rightarrow> string + unit" where
  "refuse_uneditable i before cond =
     (if ed_spent before
      then Inl (i @ '' is SPENT '' @ uni 0x2014 @ '' it reached its hit count and the JVM has already deleted the request, so ''
             @ ''there is nothing armed to update. Arm a new stop point with the condition you want; its id ''
             @ ''and tally start fresh either way, which is the case this tool cannot save you from.'')
      else if edit_asked cond \<and> \<not> ed_supports_condition before
      then Inl (i @ '' is a '' @ ed_kind before @ '' and takes no condition '' @ uni 0x2014
             @ '' debug.set_monitor_stop has no condition argument either, so there is none to change. Its hit_count can be updated.'')
      else Inr ())"

definition render_optional_condition :: "string option \<Rightarrow> string" where
  "render_optional_condition c = (case c of None \<Rightarrow> ''(none)'' | Some e \<Rightarrow> ''`'' @ e @ ''`'')"

definition render_optional_count :: "u32 option \<Rightarrow> string" where
  "render_optional_count n = (case n of None \<Rightarrow> ''(none)'' | Some k \<Rightarrow> show_int (sint k))"

definition render_stop_point_update ::
  "string \<Rightarrow> editable_stop_point \<Rightarrow> editable_stop_point \<Rightarrow> string field_edit \<Rightarrow> u32 field_edit \<Rightarrow> nat \<Rightarrow> string \<Rightarrow> string" where
  "render_stop_point_update i before after cond hits family_members wire =
     uni 0x270F @ uni 0xFE0F @ ''  Updated '' @ i @ '' ('' @ ed_kind after @ '').''
     @ (if edit_asked cond
        then [CHR 0x0A] @ ''   Condition: '' @ render_optional_condition (ed_condition before) @ '' '' @ uni 0x2192 @ '' ''
          @ render_optional_condition (ed_condition after) else [])
     @ (if edit_asked hits
        then [CHR 0x0A] @ ''   Hit count: '' @ render_optional_count (ed_hit_count before) @ '' '' @ uni 0x2192 @ '' ''
          @ render_optional_count (ed_hit_count after) else [])
     @ (if 0 < family_members
        then [CHR 0x0A] @ ''   Applied to '' @ show_nat family_members
          @ '' member(s) of the family, and to classes that load later.'' else [])
     @ wire @ [CHR 0x0A] @ ''   The id and the hit tally are unchanged '' @ uni 0x2014
     @ '' debug.list_stop_points shows the new values against the same counter.''"

text \<open>
  \<open>debug.update_stop_point\<close>. Whether a read-only session refuses the new condition is a parameter: it
  depends on the expression.
\<close>

definition handle_update_stop_point ::
  "debuggee \<Rightarrow> (string \<Rightarrow> string option) \<Rightarrow> string \<Rightarrow> update_args \<Rightarrow> (string + string) session_op" where
  "handle_update_stop_point d refuse_expr i a s =
     (case parse_stop_point_edit a of
        Inl e \<Rightarrow> (Inl e, s)
      | Inr (cond, hits) \<Rightarrow>
          if \<not> edit_asked cond \<and> \<not> edit_asked hits
          then (Inl (''Nothing to update on '' @ i @ ''. Pass condition / clear_condition, hit_count / ''
                  @ ''clear_hit_count, or both pairs. To silence it instead, use debug.toggle_stop_point.''), s)
          else (case read_editable_stop_point i s of
              Inl e \<Rightarrow> (Inl e, s)
            | Inr before \<Rightarrow>
                (case refuse_uneditable i before cond of
                   Inl e \<Rightarrow> (Inl e, s)
                 | Inr _ \<Rightarrow>
                     (case (case cond of Edit_set new \<Rightarrow> if ds_read_only s then refuse_expr new else None | _ \<Rightarrow> None) of
                        Some e \<Rightarrow> (Inl e, s)
                      | None \<Rightarrow>
                          (let members = ed_family_members before;
                               s1 = fold (apply_stop_point_edit cond hits) (i # members) s;
                               (wire, s2) = (if edit_asked hits
                                 then push_hit_count_to_the_wire d (if members = [] then [i] else members) s1 else ([], s1))
                           in case read_editable_stop_point i s2 of
                                Inl e \<Rightarrow> (Inl e, s2)
                              | Inr after \<Rightarrow>
                                  (Inr (render_stop_point_update i before after cond hits (length members) wire), s2))))))"

end
