(* ===== verification/SessionInvariant.thy ===== *)
theory SessionInvariant
  imports PumpProofs Toggling Rescue
begin

text \<open>
  What holds of a session whatever its caller and the debuggee do. The locale \<open>session_invariant\<close> states
  what an invariant must allow - the few ways the handlers write to a session - and proves that every
  handler keeps it; it is interpreted on the well-formedness of a session and on its settings.
\<close>

section \<open>Well-formed sessions\<close>

text \<open>A stop point is enabled exactly when it holds requests, and a spent one is not enabled.\<close>

definition point_ok :: "stop_point \<Rightarrow> bool" where
  "point_ok sp \<longleftrightarrow> (sp_enabled sp \<longleftrightarrow> sp_request_ids sp \<noteq> []) \<and> (sp_spent sp \<longrightarrow> \<not> sp_enabled sp)"

definition family_ok :: "pattern_stop_set \<Rightarrow> bool" where
  "family_ok f \<longleftrightarrow> length (ps_members f) \<le> ps_max_classes f"

definition session_ok :: "debug_session \<Rightarrow> bool" where
  "session_ok s \<longleftrightarrow> state_ok (ds_state s) \<and> (\<forall>(k, sp)\<in>set (ss_stop_points (ds_state s)). point_ok sp)
     \<and> hm_ok (ds_pattern_sets s) \<and> (\<forall>(k, f)\<in>set (ds_pattern_sets s). k = ps_id f \<and> family_ok f)"

abbreviation point_at :: "string \<Rightarrow> debug_session \<Rightarrow> stop_point option" where
  "point_at i s \<equiv> hm_get i (ss_stop_points (ds_state s))"

lemma session_ok_state: "session_ok s \<Longrightarrow> state_ok (ds_state s)"
  by (simp add: session_ok_def)

lemma session_ok_point: "session_ok s \<Longrightarrow> point_at i s = Some sp \<Longrightarrow> point_ok sp \<and> sp_id sp = i"
  using hm_get_iff [of "ss_stop_points (ds_state s)" i sp] by (auto simp: session_ok_def state_ok_def)

lemma session_ok_family:
  "session_ok s \<Longrightarrow> hm_get i (ds_pattern_sets s) = Some f \<Longrightarrow> family_ok f \<and> ps_id f = i"
  using hm_get_iff [of "ds_pattern_sets s" i f] by (auto simp: session_ok_def)

lemma on_conn_connection: "on_conn f s = (a, s') \<Longrightarrow> \<exists>c. s' = s\<lparr>ds_connection := c\<rparr>"
  by (auto simp: on_conn_def split: prod.splits)

lemma on_conn_simps [simp]:
  "ds_state (snd (on_conn f s)) = ds_state s" "ds_pattern_sets (snd (on_conn f s)) = ds_pattern_sets s"
  by (simp_all add: on_conn_def case_prod_unfold)

section \<open>What an invariant must allow\<close>

locale session_invariant =
  fixes I :: "debug_session \<Rightarrow> bool"
  assumes wf: "I s \<Longrightarrow> session_ok s"
    and conn: "I s \<Longrightarrow> I (s\<lparr>ds_connection := c\<rparr>)"
    and other: "I s \<Longrightarrow> I (s\<lparr>ds_suspensions := su\<rparr>)" "I s \<Longrightarrow> I (s\<lparr>ds_events := ev\<rparr>)"
      "I s \<Longrightarrow> I (s\<lparr>ds_last_thread := lt\<rparr>)" "I s \<Longrightarrow> I (s\<lparr>ds_traces := tb\<rparr>)"
      "I s \<Longrightarrow> I (s\<lparr>ds_monitor_clock := mc\<rparr>)" "I s \<Longrightarrow> I (s\<lparr>ds_pending_step := ps\<rparr>)"
    and note_request: "I s \<Longrightarrow> I (on_state (note_disarmed_traced r) s)"
    and register: "I s \<Longrightarrow> point_ok sp \<Longrightarrow> I (on_state (register_stop_point sp) s)"
    and modify: "I s \<Longrightarrow> (\<And>sp. point_at i s = Some sp \<Longrightarrow> point_ok sp \<Longrightarrow> point_ok (f sp) \<and> sp_id (f sp) = sp_id sp)
      \<Longrightarrow> I (on_state (modify_stop_point i f) s)"
    and owner: "I s \<Longrightarrow> (\<And>sp. point_ok sp \<Longrightarrow> point_ok (f sp) \<and> sp_id (f sp) = sp_id sp)
      \<Longrightarrow> I (on_state (modify_owner r f) s)"
    and remove: "I s \<Longrightarrow> I (on_state (\<lambda>st. st\<lparr>ss_stop_points := hm_del i (ss_stop_points st)\<rparr>) s)"
    and remove_all: "I s \<Longrightarrow> I (on_state (\<lambda>st. st\<lparr>ss_stop_points := []\<rparr>) s)"
    and pend: "I s \<Longrightarrow> I (on_state (\<lambda>st. st\<lparr>ss_pending := pf st\<rparr>) s)"
    and mint: "I s \<Longrightarrow> mint_stop_id pref s = (i, s') \<Longrightarrow> I s'"
    and family: "I s \<Longrightarrow> (\<And>fam. hm_get i (ds_pattern_sets s) = Some fam \<Longrightarrow> family_ok fam
        \<Longrightarrow> family_ok (mf fam) \<and> ps_id (mf fam) = ps_id fam) \<Longrightarrow> I (modify_set i mf s)"
    and family_put: "I s \<Longrightarrow> family_ok fam \<Longrightarrow> ps_id fam = i
        \<Longrightarrow> I (s\<lparr>ds_pattern_sets := hm_put i fam (ds_pattern_sets s)\<rparr>)"
    and family_del: "I s \<Longrightarrow> I (s\<lparr>ds_pattern_sets := hm_del i (ds_pattern_sets s)\<rparr>)"
    and family_clear: "I s \<Longrightarrow> I (s\<lparr>ds_pattern_sets := []\<rparr>)"
    and family_map: "I s \<Longrightarrow> (\<And>fam. family_ok fam \<Longrightarrow> family_ok (mf fam) \<and> ps_id (mf fam) = ps_id fam)
        \<Longrightarrow> I (s\<lparr>ds_pattern_sets := map (\<lambda>(k, fam). (k, mf fam)) (ds_pattern_sets s)\<rparr>)"
begin

lemma on_conn: "I s \<Longrightarrow> on_conn f s = (a, s') \<Longrightarrow> I s'"
  using on_conn_connection [of f s a s'] conn [of s] by auto

lemma on_conn_snd: "I s \<Longrightarrow> I (snd (on_conn f s))"
  using on_conn [of s f "fst (on_conn f s)" "snd (on_conn f s)"] by simp

lemma send_some: "I s \<Longrightarrow> I (send_each_of ops s)"
  by (simp add: send_each_of_def conn)

lemma note_requests: "I s \<Longrightarrow> I (on_state (fold note_disarmed_traced rs) s)"
proof (induction rs arbitrary: s)
  case (Cons r rs)
  have "on_state (fold note_disarmed_traced (r # rs)) s = on_state (fold note_disarmed_traced rs) (on_state (note_disarmed_traced r) s)"
    by (simp add: on_state_def)
  then show ?case using Cons.IH Cons.prems note_request by presburger
qed (simp add: on_state_def)

lemma notes_in_flight: "I s \<Longrightarrow> I (on_state (note_traced_in_flight b rs) s)"
  using note_requests [of s rs] by (cases b) (simp_all add: note_traced_in_flight_def [abs_def] on_state_def)

lemmas primitives = conn other on_conn_snd send_some note_requests notes_in_flight note_request remove remove_all pend
  family_del family_clear

text \<open>Clearing and disabling.\<close>

lemma retire_ok: "point_ok sp \<Longrightarrow> point_ok (retire sp) \<and> sp_id (retire sp) = sp_id sp"
  by (simp add: point_ok_def retire_def)

lemma disarm_request: "I s \<Longrightarrow> I (snd (disarm_request d r s))"
  by (auto simp: disarm_request_def Let_def case_prod_unfold split: option.split
      intro!: modify on_conn_snd note_request retire_ok)

lemma disable_stop_point: "I s \<Longrightarrow> I (snd (disable_stop_point d i s))"
  by (auto simp: disable_stop_point_def case_prod_unfold split: option.split sum.split
      intro!: on_conn_snd modify retire_ok)

lemma spend: "I s \<Longrightarrow> I (spend_if_counted d r s)"
  by (auto simp: spend_if_counted_def Let_def point_ok_def retire_def split: option.split
      intro!: conn notes_in_flight owner)

lemma park: "I s \<Longrightarrow> I (park_family_watch_if_full d i s)"
  by (auto simp: park_family_watch_if_full_def family_ok_def case_prod_unfold split: option.split sum.split
      intro!: on_conn_snd family)

lemma unpark: "I s \<Longrightarrow> I (snd (unpark_family_watch d i s))"
  by (auto simp: unpark_family_watch_def family_ok_def Let_def case_prod_unfold split: option.split
      intro!: on_conn_snd family)

lemma unpark_all: "I s \<Longrightarrow> I (snd (unpark_all d is s))"
  by (induction "is" arbitrary: s) (simp_all add: Let_def case_prod_unfold unpark)

lemma release_slot: "I s \<Longrightarrow> I (snd (release_family_slot d i s))"
  unfolding release_family_slot_def Let_def case_prod_unfold snd_conv
  by (rule unpark_all, rule family_map [unfolded case_prod_unfold])
     (auto simp: family_ok_def intro: order_trans [OF length_filter_le])

lemma clear_members: "I s \<Longrightarrow> I (snd (clear_members d ms s))"
  by (induction ms arbitrary: s)
     (auto simp: Let_def case_prod_unfold split: option.split intro!: on_conn_snd notes_in_flight remove)

lemma clear_family: "I s \<Longrightarrow> I (snd (clear_pattern_family d i ps s))"
  by (auto simp: clear_pattern_family_def Let_def case_prod_unfold split: option.split
      intro!: clear_members on_conn_snd)

lemma clear_line: "I s \<Longrightarrow> I (snd (clear_line_breakpoint d sp bp s))"
  by (auto simp: clear_line_breakpoint_def Let_def case_prod_unfold split: option.split
      intro!: release_slot on_conn_snd)

lemma clear_one: "I s \<Longrightarrow> I (snd (clear_one_stop_point d sp s))"
  by (auto simp: clear_one_stop_point_def clear_monitor_stop_def Let_def case_prod_unfold
      split: armed_on.split sum.split intro!: clear_line on_conn_snd notes_in_flight other)

lemma handle_clear: "I s \<Longrightarrow> I (snd (handle_clear_stop_point d i s))"
  by (auto simp: handle_clear_stop_point_def Let_def case_prod_unfold split: option.split sum.split
      intro!: clear_family clear_one family_del on_conn_snd pend remove)

lemma note_every: "I s \<Longrightarrow> I (on_state note_every_traced_request_in_flight s)"
  using note_requests [of s "concat (map sp_request_ids (filter sp_trace (stop_point_values (ds_state s))))"]
  by (simp add: on_state_def note_every_traced_request_in_flight_def)

lemma disarm_everything: "I s \<Longrightarrow> I (disarm_everything d s)"
  unfolding disarm_everything_def Let_def clear_standing_rearm_watches_def
  by (intro primitives note_every)

text \<open>Arming.\<close>

lemma armed_point_ok [simp]:
  "point_ok (armed_line_stop_point i (r # rs) spec bp)" "point_ok (resolved_stop_point p (r # rs) loc dr arm)"
  by (simp_all add: point_ok_def armed_line_stop_point_def resolved_stop_point_def)

lemma resolve_primary: "I s \<Longrightarrow> I (snd (resolve_primary_copy env ids spec plan s))"
  by (auto simp: resolve_primary_copy_def Let_def case_prod_unfold split: sum.split intro!: on_conn_snd)

lemma insert_armed: "I s \<Longrightarrow> I (snd (insert_armed env ids spec i plan prim req s))"
  unfolding insert_armed_def Let_def case_prod_unfold snd_conv
  by (rule register) (auto intro!: on_conn_snd)

lemma arm_and_insert: "I s \<Longrightarrow> I (snd (arm_and_insert env ids spec i plan s))"
  by (auto simp: arm_and_insert_def Let_def case_prod_unfold split: sum.split
      intro!: on_conn_snd resolve_primary insert_armed)

lemma rearm_watch: "I s \<Longrightarrow> I (snd (register_rearm_watch env spec s))"
  by (auto simp: register_rearm_watch_def case_prod_unfold split: sum.split intro!: on_conn_snd)

lemma deferring: "I s \<Longrightarrow> I (snd (defer_breakpoint env spec i s))"
  by (auto simp: defer_breakpoint_def Let_def case_prod_unfold split: sum.split intro!: on_conn_snd arm_and_insert pend)

lemma mint_snd: "I s \<Longrightarrow> I (snd (mint_stop_id pref s))"
  using mint [of s pref "fst (mint_stop_id pref s)" "snd (mint_stop_id pref s)"] by simp

text \<open>A family grows only while it has room.\<close>

lemma arm_family_classes:
  "I s \<Longrightarrow> I (snd (arm_family_classes env spec cap hits t s))
     \<and> (length (ft_members t) \<le> cap \<longrightarrow> length (ft_members (fst (arm_family_classes env spec cap hits t s))) \<le> cap)"
proof (induction hits arbitrary: t s)
  case (Cons h hits)
  obtain fqn cid where h: "h = (fqn, cid)" by (cases h)
  show ?case
  proof (cases "cap \<le> length (ft_members t)")
    case True
    then show ?thesis using Cons.IH [OF Cons.prems, of "t\<lparr>ft_skipped := ft_skipped t + 1\<rparr>"] h by simp
  next
    case False
    define m where "m = mint_stop_id ''bp_'' s"
    define r where "r = arm_and_insert env [cid] (for_pattern spec fqn) (fst m) family_member (snd m)"
    have "I (snd r)" using Cons.prems mint_snd by (simp add: r_def m_def arm_and_insert)
    note IH = Cons.IH [OF this]
    have "arm_family_classes env spec cap (h # hits) t s
        = (case fst r of
             Inr armed \<Rightarrow> arm_family_classes env spec cap hits
               (t\<lparr>ft_members := ft_members t @ [\<lparr>fm_class = fqn, fm_armed = armed\<rparr>]\<rparr>) (snd r)
           | Inl (Arm_no_such_method _) \<Rightarrow> arm_family_classes env spec cap hits (t\<lparr>ft_no_method := ft_no_method t + 1\<rparr>) (snd r)
           | Inl (Arm_other msg) \<Rightarrow> arm_family_classes env spec cap hits (t\<lparr>ft_failures := ft_failures t @ [msg]\<rparr>) (snd r))"
      unfolding h arm_family_classes.simps Let_def case_prod_unfold fst_conv snd_conv m_def [symmetric] r_def [symmetric]
      using False by simp
    then show ?thesis
      using False IH [of "t\<lparr>ft_members := ft_members t @ [\<lparr>fm_class = fqn, fm_armed = projr (fst r)\<rparr>]\<rparr>"]
        IH [of "t\<lparr>ft_no_method := ft_no_method t + 1\<rparr>"]
        IH [of "t\<lparr>ft_failures := ft_failures t @ [arm_error_message (projl (fst r))]\<rparr>"]
      by (cases "fst r") (auto split: arm_error.split)
  qed
qed simp

lemma family_watch: "I s \<Longrightarrow> I (snd (family_watch d p full s))"
  by (auto simp: family_watch_def case_prod_unfold split: sum.split intro!: on_conn_snd)

lemma arm_pattern_family: "I s \<Longrightarrow> I (snd (arm_pattern_family env spec index cap s))"
  unfolding arm_pattern_family_def Let_def case_prod_unfold snd_conv
  by (rule family_put)
     (use mint_snd arm_family_classes in \<open>auto simp: pattern_set_of_def family_ok_def intro!: family_watch\<close>)

lemma arm_one_pattern: "I s \<Longrightarrow> I (snd (arm_one_pattern env spec index cap s))"
  by (auto simp: arm_one_pattern_def Let_def case_prod_unfold split: sum.split defer_result.split
      intro!: arm_pattern_family deferring rearm_watch arm_and_insert on_conn_snd mint_snd)

text \<open>A class loads.\<close>

lemma resolve_pending: "I s \<Longrightarrow> point_ok sp \<Longrightarrow> I (on_state (snd \<circ> resolve_pending sp) s)"
  using register [OF pend [of s "\<lambda>st. filter (\<lambda>p. pb_bp_id p \<noteq> sp_id sp) (ss_pending st)"], of sp]
  by (simp add: resolve_pending_def Let_def on_state_def)

lemma arm_pending: "I s \<Longrightarrow> I (arm_pending env cid p s)"
  by (auto simp: arm_pending_def Let_def case_prod_unfold split: sum.split intro!: resolve_pending on_conn_snd)

lemma fold_I: "(\<And>x t. I t \<Longrightarrow> I (f x t)) \<Longrightarrow> I s \<Longrightarrow> I (fold f xs s)"
  by (induction xs arbitrary: s) simp_all

lemma counting_family:
  "family_ok fam \<Longrightarrow> family_ok (fam\<lparr>ps_skipped_at_cap := n\<rparr>) \<and> ps_id (fam\<lparr>ps_skipped_at_cap := n\<rparr>) = ps_id fam"
  "family_ok fam \<Longrightarrow> family_ok (fam\<lparr>ps_no_method := n\<rparr>) \<and> ps_id (fam\<lparr>ps_no_method := n\<rparr>) = ps_id fam"
  "has_room fam \<Longrightarrow> family_ok (note_armed_later c (fam\<lparr>ps_members := ps_members fam @ [m]\<rparr>))
     \<and> ps_id (note_armed_later c (fam\<lparr>ps_members := ps_members fam @ [m]\<rparr>)) = ps_id fam"
  by (simp_all add: family_ok_def has_room_def note_armed_later_def Let_def)

end

text \<open>Arming a copy leaves the families alone.\<close>

lemma on_state_sets [simp]: "ds_pattern_sets (on_state f s) = ds_pattern_sets s"
  by (simp add: on_state_def)

lemma arm_and_insert_sets: "ds_pattern_sets (snd (arm_and_insert env ids spec i plan s)) = ds_pattern_sets s"
  by (simp add: arm_and_insert_def resolve_primary_copy_def insert_armed_def Let_def case_prod_unfold split: sum.split)

lemma mint_sets [simp]: "ds_pattern_sets (snd (mint_stop_id pref s)) = ds_pattern_sets s"
  by (simp add: mint_stop_id_def case_prod_unfold)

text \<open>Arming one copy keeps every other stop point's state of being enabled.\<close>

definition all_enabled :: "string set \<Rightarrow> debug_session \<Rightarrow> bool" where
  "all_enabled ids s \<longleftrightarrow> (\<forall>i\<in>ids. \<exists>sp. point_at i s = Some sp \<and> sp_enabled sp)"

lemma point_at_modify [simp]:
  "point_at j (on_state (modify_stop_point i f) s) = (if j = i then map_option f (point_at i s) else point_at j s)"
  by (simp add: on_state_def modify_stop_point_def split: option.split)

lemma on_line_info_simps [simp]:
  "sp_enabled (on_line_info f sp) = sp_enabled sp" "sp_request_ids (on_line_info f sp) = sp_request_ids sp"
  "sp_spent (on_line_info f sp) = sp_spent sp" "sp_id (on_line_info f sp) = sp_id sp"
  by (simp_all add: on_line_info_def split: armed_on.split)

definition copy_update :: "debug_session \<Rightarrow> string \<Rightarrow> debug_session \<Rightarrow> bool" where
  "copy_update s i s' \<longleftrightarrow> (\<exists>c f rs. s' = on_state (modify_stop_point i f) (s\<lparr>ds_connection := c\<rparr>)
     \<and> (\<forall>sp. sp_enabled (f sp) = sp_enabled sp \<and> sp_spent (f sp) = sp_spent sp \<and> sp_id (f sp) = sp_id sp
         \<and> sp_request_ids (f sp) = sp_request_ids sp @ rs))"

lemma on_conn_update: "snd (on_conn f s) = s\<lparr>ds_connection := snd (f (ds_connection s))\<rparr>"
  by (simp add: on_conn_def case_prod_unfold)

lemma rearm_later_copy_update: "copy_update s (lt_bp_id t) (rearm_later_copy env cid sig t s)"
proof -
  have miss: "copy_update s i (note_later_copy_miss i w (s\<lparr>ds_connection := c\<rparr>))" for i w c
    unfolding copy_update_def note_later_copy_miss_def
    by (rule exI [of _ c], rule exI, rule exI [of _ "[]"], rule conjI, rule refl) simp
  have copy: "copy_update s i (record_later_copy i rs la (s\<lparr>ds_connection := c\<rparr>))" for i rs la c
    unfolding copy_update_def record_later_copy_def
    by (rule exI [of _ c], rule exI, rule exI [of _ rs], rule conjI, rule refl) simp
  show ?thesis
    unfolding rearm_later_copy_def Let_def case_prod_unfold on_conn_update
    by (auto simp: miss copy on_conn_def case_prod_unfold split: sum.split)
qed

lemma rearm_later_copy_enabled:
  "all_enabled ids s \<Longrightarrow> all_enabled ids (rearm_later_copy env cid sig t s)"
  using rearm_later_copy_update [of s t env cid sig] by (force simp: copy_update_def all_enabled_def)

lemma targets_enabled:
  assumes "session_ok s"
  shows "all_enabled (lt_bp_id ` set (List.map_filter (later_copy_target_of cid sig) (stop_point_values (ds_state s)))) s"
  unfolding all_enabled_def
proof
  fix i assume "i \<in> lt_bp_id ` set (List.map_filter (later_copy_target_of cid sig) (stop_point_values (ds_state s)))"
  then obtain k sp t where sp: "(k, sp) \<in> set (ss_stop_points (ds_state s))"
    and t: "later_copy_target_of cid sig sp = Some t" "i = lt_bp_id t"
    by (auto simp: List.map_filter_def stop_point_values_def)
  have "sp_enabled sp \<and> lt_bp_id t = sp_id sp"
    using t(1) by (auto simp: later_copy_target_of_def split: option.splits if_splits)
  moreover have "hm_get k (ss_stop_points (ds_state s)) = Some sp \<and> k = sp_id sp"
    using assms sp hm_get_iff [of "ss_stop_points (ds_state s)" k sp] by (auto simp: session_ok_def state_ok_def)
  ultimately show "\<exists>sp. point_at i s = Some sp \<and> sp_enabled sp" using t by auto
qed

context session_invariant
begin

lemma copy_update_I:
  assumes "I s" "copy_update s i s'" "all_enabled {i} s"
  shows "I s'"
proof -
  obtain c f rs where s': "s' = on_state (modify_stop_point i f) (s\<lparr>ds_connection := c\<rparr>)"
    and f: "\<And>sp. sp_enabled (f sp) = sp_enabled sp \<and> sp_spent (f sp) = sp_spent sp \<and> sp_id (f sp) = sp_id sp
         \<and> sp_request_ids (f sp) = sp_request_ids sp @ rs"
    using assms(2) by (auto simp: copy_update_def)
  show ?thesis
    unfolding s' by (rule modify [OF conn [OF assms(1)]]) (use assms(3) f in \<open>auto simp: all_enabled_def point_ok_def\<close>)
qed

lemma rearm_fold:
  "I s \<Longrightarrow> all_enabled (lt_bp_id ` set ts) s \<Longrightarrow> I (fold (rearm_later_copy env cid sig) ts s)"
proof (induction ts arbitrary: s)
  case (Cons t ts)
  have "all_enabled {lt_bp_id t} s" "all_enabled (lt_bp_id ` set ts) s"
    using Cons.prems(2) by (auto simp: all_enabled_def)
  then show ?case
    using Cons.IH copy_update_I [OF Cons.prems(1) rearm_later_copy_update] rearm_later_copy_enabled by simp
qed simp

lemma rearm_later_copies: "I s \<Longrightarrow> I (rearm_later_copies env cid sig s)"
  unfolding rearm_later_copies_def by (rule rearm_fold) (simp_all add: targets_enabled wf)

lemma arm_family_member: "I s \<Longrightarrow> I (arm_family_member env cid fqn sig i s)"
proof -
  assume s: "I s"
  show ?thesis
  proof (cases "hm_get i (ds_pattern_sets s)")
    case None
    then show ?thesis using s by (simp add: arm_family_member_def)
  next
    case (Some ps)
    show ?thesis
    proof (cases "has_room ps")
      case False
      have "I (if is_watching (ps_watch ps) then modify_set i (\<lambda>f. f\<lparr>ps_skipped_at_cap := ps_skipped_at_cap f + 1\<rparr>) s else s)"
        using s by (auto intro!: family simp: counting_family)
      then show ?thesis using Some False by (simp add: arm_family_member_def park)
    next
      case True
      define m where "m = mint_stop_id ''bp_'' s"
      define r where "r = arm_and_insert env [cid] (spec_from_pattern_set ps fqn sig) (fst m) family_member (snd m)"
      have r: "I (snd r)" using s by (simp add: r_def m_def arm_and_insert mint_snd)
      have sets: "hm_get i (ds_pattern_sets (snd r)) = Some ps"
        using Some by (simp add: r_def m_def arm_and_insert_sets)
      have eq: "arm_family_member env cid fqn sig i s
          = (case fst r of
               Inr armed \<Rightarrow> park_family_watch_if_full (ae_debuggee env) i
                 (modify_set i (\<lambda>f. note_armed_later fqn (f\<lparr>ps_members := ps_members f @ [ab_bp_id armed]\<rparr>)) (snd r))
             | Inl (Arm_no_such_method _) \<Rightarrow> modify_set i (\<lambda>f. f\<lparr>ps_no_method := ps_no_method f + 1\<rparr>) (snd r)
             | Inl (Arm_other _) \<Rightarrow> snd r)"
        unfolding arm_family_member_def Some option.case Let_def case_prod_unfold m_def [symmetric] r_def [symmetric]
        using True by (auto split: sum.split arm_error.split)
      show ?thesis
        unfolding eq using r sets True
        by (auto split: sum.split arm_error.split intro!: park family simp: counting_family)
    qed
  qed
qed

lemma try_arm: "I s \<Longrightarrow> I (snd (try_arm_deferred_breakpoints env es s))"
  unfolding try_arm_deferred_breakpoints_def Let_def arm_pattern_set_members_def
  by (auto split: option.split intro!: on_conn_snd rearm_later_copies fold_I arm_family_member arm_pending)

text \<open>Toggling and editing.\<close>

lemma rearm_by_kind: "I s \<Longrightarrow> I (snd (rearm_by_kind d sp s))"
  unfolding rearm_by_kind_def
  by (auto simp: rearm_line_breakpoint_def rearm_breakpoint_location_def rearm_exception_request_def
      rearm_watchpoint_def rearm_method_exit_def rearm_monitor_request_def Let_def case_prod_unfold
      split: armed_on.split sum.split option.split list.split intro!: on_conn_snd other)

lemma rearm_stop_point: "I s \<Longrightarrow> I (snd (rearm_stop_point d i s))"
proof -
  have new: "re_request_ids r \<noteq> []" if "fst (rearm_by_kind d sp s) = Inr r" for sp r
    using that unfolding rearm_by_kind_def
    by (auto simp: rearm_line_breakpoint_def rearm_exception_request_def
        rearm_watchpoint_def rearm_method_exit_def rearm_monitor_request_def Let_def case_prod_unfold
        split: armed_on.splits sum.splits option.splits)
  show "I s \<Longrightarrow> ?thesis"
    by (auto simp: rearm_stop_point_def case_prod_unfold write_rearmed_def point_ok_def dest: new
        split: option.split sum.split intro!: rearm_by_kind modify)
qed

lemma toggle_members: "I s \<Longrightarrow> I (snd (toggle_members d want ms s))"
proof (induction ms arbitrary: s)
  case (Cons m ms)
  have "I (snd (if want then rearm_stop_point d m s else disable_stop_point d m s))"
    using Cons.prems by (simp add: rearm_stop_point disable_stop_point)
  then show ?case using Cons.IH by (simp add: Let_def case_prod_unfold)
qed simp

lemma toggle_watch: "I s \<Longrightarrow> I (snd (toggle_family_watch d i p want s))"
  by (auto simp: toggle_family_watch_def family_ok_def case_prod_unfold split: option.split sum.split
      intro!: family on_conn_snd)

lemma toggle_family: "I s \<Longrightarrow> I (snd (toggle_pattern_family d i want s))"
  by (auto simp: toggle_pattern_family_def family_ok_def Let_def case_prod_unfold split: option.split
      intro!: family toggle_watch toggle_members)

lemma filter_live: "I s \<Longrightarrow> I (snd (check_instance_filter_still_live d i s))"
  by (auto simp: check_instance_filter_still_live_def Let_def case_prod_unfold split: option.split intro!: on_conn_snd)

lemma handle_toggle: "I s \<Longrightarrow> I (snd (handle_toggle_stop_point d i en s))"
  by (auto simp: handle_toggle_stop_point_def Let_def case_prod_unfold split: option.split sum.split
      intro!: toggle_family filter_live rearm_stop_point disable_stop_point)

lemma edit_ok: "point_ok sp \<Longrightarrow> point_ok (edit_stop_point cond hits sp) \<and> sp_id (edit_stop_point cond hits sp) = sp_id sp"
  by (auto simp: point_ok_def edit_stop_point_def Let_def)

lemma apply_edit: "I s \<Longrightarrow> I (apply_stop_point_edit cond hits i s)"
  by (auto simp: apply_stop_point_edit_def family_ok_def edit_ok intro!: modify pend family)

lemma replace_requests: "I s \<Longrightarrow> I (snd (replace_requests d ts s))"
  by (induction ts arbitrary: s)
     (auto simp: Let_def case_prod_unfold intro!: rearm_stop_point disable_stop_point)

lemma push_hit_count: "I s \<Longrightarrow> I (snd (push_hit_count_to_the_wire d ts s))"
  by (simp add: push_hit_count_to_the_wire_def Let_def case_prod_unfold replace_requests)

lemma handle_update: "I s \<Longrightarrow> I (snd (handle_update_stop_point d refuse i a s))"
  unfolding handle_update_stop_point_def Let_def case_prod_unfold
  by (auto split: sum.split option.split simp del: fold.simps intro!: push_hit_count fold_I apply_edit)

text \<open>Running and stopping.\<close>

lemma suspending: "I s \<Longrightarrow> I (on_suspensions f s)"
  by (simp add: on_suspensions_def other)

lemma resume_verify: "I s \<Longrightarrow> I (snd (resume_and_verify d s))"
  by (auto simp: resume_and_verify_def case_prod_unfold split: option.split sum.split intro!: on_conn_snd)

lemma clear_step: "I s \<Longrightarrow> I (clear_pending_step d s)"
  by (auto simp: clear_pending_step_def split: option.split intro!: on_conn_snd other)

lemma release_held: "I s \<Longrightarrow> I (snd (release_held d held s))"
proof (induction held arbitrary: s)
  case (Cons h held)
  show ?case
    using Cons by (auto simp: Let_def case_prod_unfold release_one_def intro!: Cons.IH suspending on_conn_snd)
qed simp

lemma release_suspends: "I s \<Longrightarrow> I (snd (release_thread_suspends d only s))"
  by (simp add: release_thread_suspends_def release_held)

lemma verify_suspends: "I s \<Longrightarrow> I (snd (verify_thread_suspends d clock s))"
proof -
  have "I (snd (verify_held d clock tids s))" if "I s" for tids s
    using that
  proof (induction tids arbitrary: s)
    case (Cons t tids)
    show ?case using Cons.prems by (auto simp: Let_def case_prod_unfold intro!: Cons.IH suspending on_conn_snd)
  qed simp
  then show "I s \<Longrightarrow> ?thesis" by (simp add: verify_thread_suspends_def Let_def case_prod_unfold)
qed

lemma disarm_all: "I s \<Longrightarrow> I (snd (disarm_all d rs s))"
  by (induction rs arbitrary: s) (simp_all add: Let_def case_prod_unfold disarm_request)

lemma note_rescue: "I s \<Longrightarrow> I (note_rescue n ids s)"
  by (simp add: note_rescue_def other)

lemma watchdog: "I s \<Longrightarrow> I (snd (watchdog_tick d clock secs s))"
proof -
  have cause: "I (snd (disarm_cause d c s))" if "I s" for c s
    using that disarm_request by (auto simp: disarm_cause_def case_prod_unfold split: suspend_cause.split option.split)
  have resume: "I (snd (watchdog_resume d secs dis ids s))" if "I s" for dis ids s
    using that by (auto simp: watchdog_resume_def Let_def case_prod_unfold split: sum.split option.split
        intro!: note_rescue suspending resume_verify)
  have "I (snd (rescue_vm d clock secs s))" if "I s" for s
    using that by (auto simp: rescue_vm_def Let_def case_prod_unfold split: option.split intro!: resume cause clear_step)
  moreover have "I (snd (rescue_overdue_thread_suspends d clock secs s))" if "I s" for s
    using that by (auto simp: rescue_overdue_thread_suspends_def Let_def case_prod_unfold
        intro!: note_rescue release_suspends disarm_all)
  ultimately show "I s \<Longrightarrow> ?thesis" by (simp add: watchdog_tick_def Let_def case_prod_unfold)
qed

lemma running_handlers:
  assumes "I s"
  shows "I (snd (handle_continue d clock s))" "I (snd (handle_pause d clock secs s))"
    "I (snd (handle_panic d clock s))" "I (snd (handle_step d depth l th ex on s))"
  using assms
  by (auto simp: handle_continue_def handle_pause_def handle_panic_def handle_step_def Let_def case_prod_unfold
      split: sum.split option.split
      intro!: verify_suspends suspending resume_verify clear_step on_conn_snd release_suspends disarm_everything other)

lemma thread_handlers:
  assumes "I s"
  shows "I (snd (handle_suspend_thread d clock secs raw s))" "I (snd (handle_resume_thread d clock rt s))"
  using assms
  by (auto simp: handle_suspend_thread_def handle_resume_thread_def gone_note_def drop_step_of_def Let_def case_prod_unfold
      split: sum.split option.split thread_liveness.split intro!: on_conn_snd other)

text \<open>A hit.\<close>

lemma owner_state:
  "I s \<Longrightarrow> (\<And>sp. point_ok sp \<Longrightarrow> point_ok (f sp) \<and> sp_id (f sp) = sp_id sp) \<Longrightarrow> I (s\<lparr>ds_state := modify_owner r f (ds_state s)\<rparr>)"
  using owner [of s f r] by (simp add: on_state_def)

lemma hit_records:
  assumes "I s"
  shows "I (on_state (record_stop_point_hit r) s)" "I (on_state (record_discarded_exit r) s)"
    "I (on_state (record_trace_cost r t k) s)"
  unfolding record_stop_point_hit_def record_discarded_exit_def record_trace_cost_def
  by (rule owner [OF assms]; auto simp: point_ok_def split: armed_on.split)+

lemma charge: "I s \<Longrightarrow> I (snd (charge_trace_budget d r s))"
proof -
  assume s: "I s"
  have "I (s\<lparr>ds_state := snd (decrement_trace_budget r (ds_state s))\<rparr>)"
    using s by (auto simp: decrement_trace_budget_def Let_def point_ok_def split: option.split intro!: owner_state)
  then show "I (snd (charge_trace_budget d r s))"
    unfolding charge_trace_budget_def Let_def case_prod_unfold
    by (auto split: option.split intro!: disarm_request)
qed

lemma record_one: "I s \<Longrightarrow> I (snd (record_one_traced_event env e s))"
proof -
  have span: "I (snd (span_monitor_event spec k now t))" if "I t" for spec k now t
    using that by (auto simp: span_monitor_event_def Let_def case_prod_unfold split: option.split intro!: other)
  have filed: "I (snd (file_trace_record tq sp rec r th k t))" if "I t" for tq sp rec r th k t
    using that by (simp add: file_trace_record_def Let_def case_prod_unfold other)
  have snap: "I (record_snapshot env tq sp r th loc k t)" if "I t" for tq sp r th loc k t
    using that unfolding record_snapshot_def Let_def case_prod_unfold
    by (auto split: throw_kind.split option.split intro!: charge filed hit_records on_conn_snd other)
  show "I s \<Longrightarrow> ?thesis"
    unfolding record_one_traced_event_def Let_def case_prod_unfold
    by (auto split: option.split intro!: spend snap on_conn_snd span hit_records)
qed

lemma record_traced: "I s \<Longrightarrow> I (snd (try_record_trace env es s))"
proof -
  have "I (snd (record_traced_events env evs h a s))" if "I s" for evs h a s
    using that
  proof (induction evs arbitrary: s h a)
    case (Cons e evs)
    have "I (snd (record_one_traced_event env e s))" using Cons.prems by (rule record_one)
    then show ?case using Cons.IH by (auto simp: case_prod_unfold split: option.split)
  qed simp
  then show "I s \<Longrightarrow> ?thesis"
    by (auto simp: try_record_trace_def case_prod_unfold split: option.split bool.split intro!: on_conn_snd)
qed

lemma filtering: "I s \<Longrightarrow> I (snd (filter_hit env es r t loc held s))"
proof -
  assume s: "I s"
  define d where "d = pe_debuggee env"
  define mf where "mf = Option.bind (Option.bind (owner_of r (ds_state s)) sp_method_exit) me_method"
  define named where "named = (if mf = None then (True, s) else on_conn (method_name_matches d mf loc) s)"
  define s2 where "s2 = on_state (record_stop_point_hit r) (snd named)"
  have released: "I (release_dropped_hit d t h s)" if "I s" for h s
    using that by (simp add: release_dropped_hit_def on_conn_snd)
  have escalated: "I (snd (escalate_to_vm_suspend d t s))" if "I s" for s
    using that by (auto simp: escalate_to_vm_suspend_def another_thread_is_suspended_def Let_def case_prod_unfold
        split: sum.split option.split bool.split intro!: on_conn_snd)
  have named: "I (snd named)" using s by (simp add: named_def on_conn_snd)
  then have s2: "I s2" by (simp add: s2_def hit_records)
  define cond_part where "cond_part = (\<lambda>cond.
    let bindings = (case find (\<lambda>e. ev_request_id e = r) (es_events es) of
            None \<Rightarrow> bindings_default | Some e \<Rightarrow> condition_bindings_of (ev_details e));
        (holds, s3) = on_conn (evaluate_condition_on_thread env t cond bindings) s2
    in if holds
       then (if held then (let (esc, s4) = escalate_to_vm_suspend d t s3 in ((False, esc), s4))
             else ((False, None), s3))
       else ((True, None), release_dropped_hit d t held s3))"
  have cond_part: "I (snd (cond_part cond))" for cond
    unfolding cond_part_def Let_def case_prod_unfold
    by (auto intro!: escalated released on_conn_snd s2)
  have "filter_hit env es r t loc held s
      = (if \<not> fst named then ((True, None), on_state (record_discarded_exit r) (release_dropped_hit d t held (snd named)))
         else (case suspending_condition r (ds_state s2) of None \<Rightarrow> ((False, None), s2) | Some cond \<Rightarrow> cond_part cond))"
    unfolding filter_hit_def Let_def cond_part_def named_def mf_def d_def s2_def case_prod_unfold by (rule refl)
  then show ?thesis using named s2 cond_part by (auto split: option.split intro!: hit_records released)
qed

lemma reporting: "I s \<Longrightarrow> I (snd (report_hit env es esc s))"
proof -
  have notify: "I (snd (notify_suspension env q s))" if "I s" for q s
    using that by (auto simp: notify_suspension_def Let_def case_prod_unfold split: list.split intro!: on_conn_snd)
  show "I s \<Longrightarrow> ?thesis"
    unfolding report_hit_def Let_def case_prod_unfold
    by (auto split: option.split bool.split list.split intro!: notify other on_conn_snd)
qed

lemma pump: "I s \<Longrightarrow> I (snd (pump_event_set env es s))"
proof -
  have store: "I (snd (store_reportable_event env es s))" if "I s" for s
    using that unfolding store_reportable_event_def Let_def case_prod_unfold
    by (auto split: list.split option.split intro!: reporting spend filtering)
  show "I s \<Longrightarrow> ?thesis"
    using try_arm [of s] record_traced
    by (auto simp: pump_event_set_def case_prod_unfold split: bool.split intro!: store)
qed

end

section \<open>The two invariants\<close>

lemma session_ok_connection [simp]:
  "session_ok (s\<lparr>ds_connection := c\<rparr>) = session_ok s" "session_ok (s\<lparr>ds_suspensions := su\<rparr>) = session_ok s"
  "session_ok (s\<lparr>ds_events := ev\<rparr>) = session_ok s" "session_ok (s\<lparr>ds_last_thread := lt\<rparr>) = session_ok s"
  "session_ok (s\<lparr>ds_traces := tb\<rparr>) = session_ok s" "session_ok (s\<lparr>ds_monitor_clock := mc\<rparr>) = session_ok s"
  "session_ok (s\<lparr>ds_pending_step := ps\<rparr>) = session_ok s"
  by (simp_all add: session_ok_def)

lemma session_okI:
  assumes "state_ok (ds_state s)" "\<And>i sp. point_at i s = Some sp \<Longrightarrow> point_ok sp"
    "hm_ok (ds_pattern_sets s)" "\<And>i fam. hm_get i (ds_pattern_sets s) = Some fam \<Longrightarrow> family_ok fam \<and> ps_id fam = i"
  shows "session_ok s"
proof -
  have "point_ok sp" if "(k, sp) \<in> set (ss_stop_points (ds_state s))" for k sp
    using assms(1,2) hm_get_iff [of "ss_stop_points (ds_state s)" k sp] that by (auto simp: state_ok_def)
  moreover have "k = ps_id fam \<and> family_ok fam" if "(k, fam) \<in> set (ds_pattern_sets s)" for k fam
    using assms(3,4) hm_get_iff [of "ds_pattern_sets s" k fam] that by auto
  ultimately show ?thesis using assms(1,3) by (auto simp: session_ok_def)
qed

lemma state_ok_modify:
  assumes "state_ok st" "\<And>sp. hm_get i (ss_stop_points st) = Some sp \<Longrightarrow> sp_id (f sp) = i"
  shows "state_ok (modify_stop_point i f st)"
proof (cases "hm_get i (ss_stop_points st)")
  case (Some sp)
  have "\<forall>(k, v)\<in>set (hm_put i (f sp) (ss_stop_points st)). k = sp_id v"
    by (rule hm_put_keys_ok) (use assms Some in \<open>auto simp: state_ok_def\<close>)
  then show ?thesis using assms(1) Some by (simp add: modify_stop_point_def state_ok_def)
qed (use assms(1) in \<open>simp add: modify_stop_point_def\<close>)

lemma modify_first_keys [simp]: "map fst (modify_first P f m) = map fst m"
  by (induction m) auto

lemma modify_first_all:
  "\<forall>(k, v)\<in>set m. Q k v \<Longrightarrow> (\<And>k v. Q k v \<Longrightarrow> Q k (f v)) \<Longrightarrow> \<forall>(k, v)\<in>set (modify_first P f m). Q k v"
proof (induction m)
  case (Cons e m)
  then show ?case by (cases e) (auto simp del: split_paired_All)
qed simp

lemma hm_del_elem: "(k, v) \<in> set (hm_del i m) \<Longrightarrow> (k, v) \<in> set m"
  by (auto simp: hm_del_def AList.delete_eq)

lemma session_ok_sets_only:
  "session_ok s \<Longrightarrow> hm_ok sets \<Longrightarrow> \<forall>(k, fam)\<in>set sets. k = ps_id fam \<and> family_ok fam
     \<Longrightarrow> session_ok (s\<lparr>ds_pattern_sets := sets\<rparr>)"
  by (simp add: session_ok_def)

lemma session_ok_family_put:
  assumes "session_ok s" "family_ok fam" "ps_id fam = i"
  shows "session_ok (s\<lparr>ds_pattern_sets := hm_put i fam (ds_pattern_sets s)\<rparr>)"
  by (rule session_okI) (use assms session_ok_family [OF assms(1)] session_ok_point [OF assms(1)] in
      \<open>auto simp: session_ok_def split: if_splits\<close>)

lemma session_ok_points:
  assumes "session_ok s" "state_ok (g (ds_state s))"
    "\<And>i sp. hm_get i (ss_stop_points (g (ds_state s))) = Some sp \<Longrightarrow> point_ok sp"
  shows "session_ok (on_state g s)"
  by (rule session_okI) (use assms session_ok_family [OF assms(1)] in \<open>auto simp: on_state_def session_ok_def\<close>)

lemma session_ok_modify_owner:
  assumes "session_ok s" "\<And>sp. point_ok sp \<Longrightarrow> point_ok (f sp) \<and> sp_id (f sp) = sp_id sp"
  shows "session_ok (on_state (modify_owner r f) s)"
proof -
  have "\<forall>(k, sp)\<in>set (modify_first (owns_request r) f (ss_stop_points (ds_state s))). k = sp_id sp \<and> point_ok sp"
    by (rule modify_first_all) (use assms in \<open>auto simp: session_ok_def state_ok_def\<close>)
  then show ?thesis
    using assms(1) by (auto simp: session_ok_def state_ok_def on_state_def modify_owner_def hm_ok_def)
qed

interpretation well_formed: session_invariant session_ok
proof unfold_locales
  fix s i and f :: "stop_point \<Rightarrow> stop_point"
  assume s: "session_ok s"
    and f: "\<And>sp. point_at i s = Some sp \<Longrightarrow> point_ok sp \<Longrightarrow> point_ok (f sp) \<and> sp_id (f sp) = sp_id sp"
  show "session_ok (on_state (modify_stop_point i f) s)"
  proof (rule session_ok_points [OF s])
    show "state_ok (modify_stop_point i f (ds_state s))"
      using s f session_ok_point [OF s] by (intro state_ok_modify session_ok_state) auto
  next
    fix j sp assume "hm_get j (ss_stop_points (modify_stop_point i f (ds_state s))) = Some sp"
    then show "point_ok sp"
      using f session_ok_point [OF s] by (auto simp: modify_stop_point_def split: option.splits if_splits)
  qed
next
  fix s i and mf :: "pattern_stop_set \<Rightarrow> pattern_stop_set"
  assume s: "session_ok s"
    and mf: "\<And>fam. hm_get i (ds_pattern_sets s) = Some fam \<Longrightarrow> family_ok fam \<Longrightarrow> family_ok (mf fam) \<and> ps_id (mf fam) = ps_id fam"
  show "session_ok (modify_set i mf s)"
  proof (cases "hm_get i (ds_pattern_sets s)")
    case (Some fam)
    then show ?thesis
      using mf session_ok_family [OF s Some] session_ok_family_put [OF s] by (simp add: modify_set_def)
  qed (use s in \<open>simp add: modify_set_def\<close>)
next
  fix s and mf :: "pattern_stop_set \<Rightarrow> pattern_stop_set"
  assume "session_ok s" "\<And>fam. family_ok fam \<Longrightarrow> family_ok (mf fam) \<and> ps_id (mf fam) = ps_id fam"
  then show "session_ok (s\<lparr>ds_pattern_sets := map (\<lambda>(k, fam). (k, mf fam)) (ds_pattern_sets s)\<rparr>)"
    by (intro session_ok_sets_only) (auto simp: session_ok_def hm_ok_def comp_def case_prod_unfold)
next
  fix s sp assume "session_ok s" "point_ok sp"
  then show "session_ok (on_state (register_stop_point sp) s)"
    using session_ok_point [of s] register_ok [OF session_ok_state, of s sp]
    by (intro session_ok_points) (auto simp: register_stop_point_def split: if_splits)
next
  fix s i assume s: "session_ok s"
  show "session_ok (on_state (\<lambda>st. st\<lparr>ss_stop_points := hm_del i (ss_stop_points st)\<rparr>) s)"
    using s session_ok_point [OF s]
    by (intro session_ok_points) (auto simp: session_ok_def state_ok_def dest: hm_del_elem split: if_splits)
next
  fix s i assume s: "session_ok s"
  then show "session_ok (s\<lparr>ds_pattern_sets := hm_del i (ds_pattern_sets s)\<rparr>)"
    by (intro session_ok_sets_only) (auto simp: session_ok_def dest: hm_del_elem)
next
  fix s r assume "session_ok s"
  then show "session_ok (on_state (note_disarmed_traced r) s)"
    using session_ok_point [of s] by (intro session_ok_points) (auto simp: note_disarmed_ok session_ok_state)
next
  fix s pref i s' assume "session_ok s" "mint_stop_id pref s = (i, s')"
  then show "session_ok s'"
    by (auto simp: mint_stop_id_def next_stop_id_def Let_def session_ok_def state_ok_def split: prod.splits)
qed (auto simp: session_ok_modify_owner family_ok_def session_ok_family_put,
     auto simp: session_ok_def state_ok_def on_state_def)

text \<open>What a session inherits from the call that opened it.\<close>

definition settings_of :: "debug_session \<Rightarrow> string \<times> session_seed" where
  "settings_of s = (ds_endpoint s,
     \<lparr>seed_read_only = ds_read_only s, seed_source_roots = ds_source_roots s, seed_class_roots = ds_class_roots s,
      seed_trace_exprs = ds_trace_exprs s, seed_step_exclude_classes = ds_step_exclude_classes s,
      seed_step_only_classes = ds_step_only_classes s\<rparr>)"

lemma settings_of_simps [simp]:
  "settings_of (s\<lparr>ds_connection := c\<rparr>) = settings_of s" "settings_of (s\<lparr>ds_state := st\<rparr>) = settings_of s"
  "settings_of (s\<lparr>ds_suspensions := su\<rparr>) = settings_of s" "settings_of (s\<lparr>ds_events := ev\<rparr>) = settings_of s"
  "settings_of (s\<lparr>ds_last_thread := lt\<rparr>) = settings_of s" "settings_of (s\<lparr>ds_traces := tb\<rparr>) = settings_of s"
  "settings_of (s\<lparr>ds_monitor_clock := mc\<rparr>) = settings_of s" "settings_of (s\<lparr>ds_pending_step := ps\<rparr>) = settings_of s"
  "settings_of (s\<lparr>ds_pattern_sets := fs\<rparr>) = settings_of s" "settings_of (on_state f s) = settings_of s"
  "settings_of (modify_set i g s) = settings_of s" "settings_of (snd (mint_stop_id pref s)) = settings_of s"
  by (simp_all add: settings_of_def on_state_def modify_set_def mint_stop_id_def case_prod_unfold split: option.split)

interpretation settled: session_invariant "\<lambda>s. session_ok s \<and> settings_of s = given" for given
proof unfold_locales
  fix s pref i s' assume "session_ok s \<and> settings_of s = given" "mint_stop_id pref s = (i, s')"
  then show "session_ok s' \<and> settings_of s' = given"
    using well_formed.mint [of s pref i s'] settings_of_simps(12) [of pref s] by simp
qed (auto intro: well_formed.primitives well_formed.register well_formed.modify well_formed.owner
      well_formed.family well_formed.family_put well_formed.family_map)

section \<open>Every session\<close>

datatype session_action =
    Act_event event_set
  | Act_arm breakpoint_spec "(string \<times> u64) list" nat
  | Act_clear string
  | Act_toggle string "bool option"
  | Act_update string update_args
  | Act_continue
  | Act_pause
  | Act_step step_depth string "string option" "string list option" "string list option"
  | Act_panic
  | Act_suspend_thread string
  | Act_resume_thread "string option"
  | Act_watchdog

fun run_action ::
  "pump_env \<Rightarrow> nat \<Rightarrow> (string \<Rightarrow> string option) \<Rightarrow> session_action \<Rightarrow> debug_session \<Rightarrow> debug_session" where
  "run_action env secs refuse (Act_event es) s = snd (pump_event_set env es s)"
| "run_action env secs refuse (Act_arm spec index cap) s = snd (arm_one_pattern (pe_arming env) spec index cap s)"
| "run_action env secs refuse (Act_clear i) s = snd (handle_clear_stop_point (pe_debuggee env) i s)"
| "run_action env secs refuse (Act_toggle i en) s = snd (handle_toggle_stop_point (pe_debuggee env) i en s)"
| "run_action env secs refuse (Act_update i a) s = snd (handle_update_stop_point (pe_debuggee env) refuse i a s)"
| "run_action env secs refuse Act_continue s = snd (handle_continue (pe_debuggee env) (pe_clock env) s)"
| "run_action env secs refuse Act_pause s = snd (handle_pause (pe_debuggee env) (pe_clock env) secs s)"
| "run_action env secs refuse (Act_step depth label th ex on) s = snd (handle_step (pe_debuggee env) depth label th ex on s)"
| "run_action env secs refuse Act_panic s = snd (handle_panic (pe_debuggee env) (pe_clock env) s)"
| "run_action env secs refuse (Act_suspend_thread raw) s
     = snd (handle_suspend_thread (pe_debuggee env) (pe_clock env) secs raw s)"
| "run_action env secs refuse (Act_resume_thread raw) s = snd (handle_resume_thread (pe_debuggee env) (pe_clock env) raw s)"
| "run_action env secs refuse Act_watchdog s = snd (watchdog_tick (pe_debuggee env) (pe_clock env) secs s)"

text \<open>
  The sessions there can be: opened on a connection, and then whatever calls, events and watchdog ticks, in
  any order, each against whatever the debuggee and the environment are at that moment.
\<close>

inductive session_reachable :: "string \<Rightarrow> session_seed \<Rightarrow> debug_session \<Rightarrow> bool" for endpoint seed where
  opened: "session_reachable endpoint seed (debug_session_new c endpoint seed)"
| acted: "session_reachable endpoint seed s \<Longrightarrow> session_reachable endpoint seed (run_action env secs refuse a s)"

lemma run_action_keeps:
  assumes "session_ok s \<and> settings_of s = given"
  shows "session_ok (run_action env secs refuse a s) \<and> settings_of (run_action env secs refuse a s) = given"
  using assms
  by (cases a) (simp_all only: run_action.simps settled.pump settled.arm_one_pattern settled.handle_clear
      settled.handle_toggle settled.handle_update settled.running_handlers settled.thread_handlers settled.watchdog)

lemma reachable_ok:
  "session_reachable endpoint seed s \<Longrightarrow> session_ok s \<and> settings_of s = (endpoint, seed)"
proof (induction rule: session_reachable.induct)
  case (opened c)
  show ?case by (simp add: session_ok_def debug_session_new_def settings_of_def) (simp add: session_state_new_def)
qed (rule run_action_keeps)

section \<open>Properties\<close>



section \<open>Instances\<close>

definition env_answering :: "bytes \<Rightarrow> pump_env" where
  "env_answering bs = sample_env\<lparr>pe_arming := (pe_arming sample_env)\<lparr>ae_debuggee := steady_debuggee bs\<rparr>\<rparr>"

definition sample_spec :: "string \<Rightarrow> breakpoint_spec" where
  "sample_spec pattern = \<lparr>bs_instance_filter = None, bs_class_pattern = pattern, bs_signature = signature_for_dotted pattern,
     bs_line_opt = None, bs_method_hint = Some ''run'', bs_hit_count = None, bs_thread_filter = None,
     bs_condition = None, bs_trace = False, bs_trace_expr = [], bs_trace_budget = None, bs_trace_frames = 0,
     bs_trace_max_length = None, bs_suspend_policy = SP_All\<rparr>"

definition sample_seed :: session_seed where
  "sample_seed = \<lparr>seed_read_only = True, seed_source_roots = [], seed_class_roots = [], seed_trace_exprs = [],
     seed_step_exclude_classes = None, seed_step_only_classes = None\<rparr>"

abbreviation sample_opened :: debug_session where
  "sample_opened \<equiv> debug_session_new connect_init ''localhost:5005'' sample_seed"

lemmas sample_wire_defs = exchange_steady cbind_def ccatch_def creturn_def clift_def checked_def check_error_def
  is_error_def run_reader_def read_i32_def get_be_n_def get_be_def

lemma answering_simps [simp]: "pe_debuggee (env_answering bs) = steady_debuggee bs"
  by (simp add: env_answering_def sample_env_def)

lemma family_watch_sets [simp]: "ds_pattern_sets (snd (family_watch d p full s)) = ds_pattern_sets s"
  by (simp add: family_watch_def case_prod_unfold split: sum.split)

lemma first_family:
  "ds_pattern_sets s = [] \<Longrightarrow> map fst (ds_pattern_sets (snd (arm_pattern_family env spec [] cap s)))
     = [fst (mint_stop_id ''bpset_'' s)]"
  by (simp add: arm_pattern_family_def Let_def case_prod_unfold hm_put_def)



end
