(* ===== verification/ArmingWire.thy ===== *)
theory ArmingWire
  imports Toggling PumpProofs
begin

text \<open>
  What arming, re-arming and editing put on the wire. The locale \<open>sparing\<close> is about a class of commands that
  no read and no setting of a request belongs to, and proves that the operations of arming send none of
  them; \<open>sparing_clear\<close> adds that clearing a request does not either. Interpreted on the commands that clear
  requests, and on the commands that resume.
\<close>

section \<open>Commands an operation never sends\<close>

definition grew :: "(u8 \<Rightarrow> u8 \<Rightarrow> bool) \<Rightarrow> conn \<Rightarrow> conn \<Rightarrow> bool" where
  "grew bad c0 c \<longleftrightarrow>
     (\<exists>new. c_sent c = c_sent c0 @ new \<and> list_all (\<lambda>p. \<not> bad (cp_command_set p) (cp_command p)) new)"

lemma grew_refl [simp]: "grew bad c c"
  by (simp add: grew_def)

lemma grew_trans: "grew bad a b \<Longrightarrow> grew bad b c \<Longrightarrow> grew bad a c"
  by (fastforce simp: grew_def)

lemma grew_exchange:
  "grew bad c0 c \<Longrightarrow> \<not> bad cset cmd \<Longrightarrow> grew bad c0 (snd (exchange d (request cset cmd data) dec c))"
  by (auto simp: grew_def exchange_sent)

lemma grew_cbind:
  "grew bad c0 c \<Longrightarrow> (\<And>c. grew bad c0 c \<Longrightarrow> grew bad c0 (snd (op c))) \<Longrightarrow>
   (\<And>a c. grew bad c0 c \<Longrightarrow> grew bad c0 (snd (f a c))) \<Longrightarrow> grew bad c0 (snd (cbind op f c))"
  by (auto simp: cbind_def case_prod_unfold split: sum.split)

lemma grew_ccatch:
  "grew bad c0 c \<Longrightarrow> (\<And>c. grew bad c0 c \<Longrightarrow> grew bad c0 (snd (op c))) \<Longrightarrow>
   (\<And>a c. grew bad c0 c \<Longrightarrow> grew bad c0 (snd (f a c))) \<Longrightarrow> grew bad c0 (snd (ccatch op f c))"
  by (auto simp: ccatch_def case_prod_unfold)

lemma grew_pure:
  "grew bad c0 c \<Longrightarrow> grew bad c0 (snd (creturn a c))" "grew bad c0 c \<Longrightarrow> grew bad c0 (snd (clift r c))"
  "grew bad c0 c \<Longrightarrow> grew bad c0 (snd (set_types g c))"
  by (simp_all add: creturn_def clift_def set_types_def grew_def)

lemma grew_on_conn:
  "grew bad c0 (ds_connection s) \<Longrightarrow> (\<And>c. grew bad c0 c \<Longrightarrow> grew bad c0 (snd (f c))) \<Longrightarrow>
   grew bad c0 (ds_connection (snd (on_conn f s)))"
  by (simp add: on_conn_def case_prod_unfold)

locale sparing =
  fixes bad :: "u8 \<Rightarrow> u8 \<Rightarrow> bool"
  assumes read: "wire_of cset cmd = Some Read \<Longrightarrow> \<not> bad cset cmd"
    and setting: "\<not> bad CS_EVENT_REQUEST ER_SET"
begin

lemma spare_read:
  "grew bad c0 c \<Longrightarrow> wire_of cset cmd = Some Read \<Longrightarrow> grew bad c0 (snd (exchange d (request cset cmd data) dec c))"
  by (simp add: grew_exchange read)

lemma spare_set: "grew bad c0 c \<Longrightarrow> grew bad c0 (snd (exchange d (request CS_EVENT_REQUEST ER_SET data) dec c))"
  by (simp add: grew_exchange setting)

lemma spare_reads:
  assumes "grew bad c0 c"
  shows "grew bad c0 (snd (read_methods d k b c))" "grew bad c0 (snd (read_fields d k b c))"
    "grew bad c0 (snd (get_line_table d k m c))" "grew bad c0 (snd (classes_by_signature d sig c))"
    "grew bad c0 (snd (all_classes d c))" "grew bad c0 (snd (get_class_loader d k c))"
    "grew bad c0 (snd (get_object_reference_type d obj c))" "grew bad c0 (snd (is_collected d obj c))"
  unfolding read_methods_def read_fields_def get_line_table_def line_table_request_def classes_by_signature_def
    all_classes_def get_class_loader_def get_object_reference_type_def reference_type_request_def is_collected_def
  by (rule spare_read [OF assms], simp add: wire_defs)+

lemma spare_sets:
  assumes "grew bad c0 c"
  shows "grew bad c0 (snd (set_breakpoint_ex d k m i sp fl c))" "grew bad c0 (snd (set_class_prepare d pat sp c))"
    "grew bad c0 (snd (set_exception_request_ex d er ca un sp fl c))" "grew bad c0 (snd (set_field_watch_ex d rt f wk sp fl c))"
    "grew bad c0 (snd (set_method_exit_request_ex d pat rv sp ex fl c))" "grew bad c0 (snd (set_monitor_request d mk sp cls fl c))"
  unfolding set_breakpoint_ex_def set_class_prepare_def set_exception_request_ex_def set_field_watch_ex_def
    set_method_exit_request_ex_def set_monitor_request_def
  by (rule spare_set [OF assms])+

lemma spare_cached:
  assumes "grew bad c0 c"
  shows "grew bad c0 (snd (get_methods d k c))" "grew bad c0 (snd (get_fields d k c))"
    "grew bad c0 (snd (get_signature d k c))" "grew bad c0 (snd (get_superclass d k c))"
proof -
  have sig: "grew bad c0 c \<Longrightarrow> grew bad c0 (snd (exchange d (signature_request k) decode_signature_reply c))" for c
    unfolding signature_request_def by (rule spare_read) (simp_all add: wire_defs)
  have sup: "grew bad c0 c \<Longrightarrow>
      grew bad c0 (snd (exchange d (request CS_CLASS_TYPE CLASS_TYPE_SUPERCLASS (put_be 8 k)) (checked read_u64) c))" for c
    by (rule spare_read) (simp_all add: wire_defs)
  show "grew bad c0 (snd (get_methods d k c))" "grew bad c0 (snd (get_fields d k c))"
    "grew bad c0 (snd (get_signature d k c))" "grew bad c0 (snd (get_superclass d k c))"
    unfolding get_methods_def get_fields_def get_signature_def get_superclass_def Let_def
    using assms
    by (auto split: option.split cached_superclass.split intro!: grew_cbind grew_ccatch grew_pure spare_reads sig sup)
qed

lemma spare_scan: "grew bad c0 c \<Longrightarrow> grew bad c0 (snd (scan_methods d k l h ms c))"
  by (induction ms arbitrary: c)
     (auto simp: case_prod_unfold split: sum.split option.split intro: spare_reads)

lemma spare_resolve: "grew bad c0 c \<Longrightarrow> grew bad c0 (snd (resolve_bp_location d k l h c))"
  by (auto simp: resolve_bp_location_def case_prod_unfold split: sum.split option.split
      intro!: spare_scan spare_cached)

lemma spare_arm_locations: "grew bad c0 c \<Longrightarrow> grew bad c0 (snd (arm_locations d sp fl ls c))"
  by (induction ls arbitrary: c) (simp_all add: Let_def case_prod_unfold spare_sets)

lemma spare_loaders: "grew bad c0 c \<Longrightarrow> grew bad c0 (snd (describe_class_loaders d ids c))"
proof -
  have one: "grew bad c0 c \<Longrightarrow> grew bad c0 (snd (describe_loader d k c))" for k c
    by (auto simp: describe_loader_def Let_def case_prod_unfold split: sum.split option.split
        intro!: spare_reads spare_cached)
  have "grew bad c0 c \<Longrightarrow> grew bad c0 (snd (describe_loaders_from d i ids c))" for i c
    by (induction ids arbitrary: i c) (simp_all add: Let_def case_prod_unfold one)
  then show "grew bad c0 c \<Longrightarrow> ?thesis" by (simp add: describe_class_loaders_def)
qed

lemma spare_by_dotted: "grew bad c0 c \<Longrightarrow> grew bad c0 (snd (resolve_class_by_dotted d name c))"
proof -
  have "grew bad c0 c \<Longrightarrow> grew bad c0 (snd (copies_by_descriptor d n w sigs c))" for n w sigs c
    by (induction sigs arbitrary: c)
       (auto simp: Let_def case_prod_unfold split: sum.split option.split intro!: spare_reads spare_loaders)
  then show "grew bad c0 c \<Longrightarrow> ?thesis"
    by (auto simp: resolve_class_by_dotted_def resolve_class_copies_by_dotted_def Let_def case_prod_unfold
        split: sum.split option.split intro!: spare_reads)
qed

lemma spare_find_field: "grew bad c0 c \<Longrightarrow> grew bad c0 (snd (find_field_from n d name ws cur c))"
proof (induction n arbitrary: cur c)
  case (Suc n)
  then show ?case
    by (cases cur) (auto simp: Let_def case_prod_unfold split: sum.split option.split intro!: spare_cached Suc.IH)
qed simp

end

text \<open>On sessions.\<close>

abbreviation sess_grew :: "(u8 \<Rightarrow> u8 \<Rightarrow> bool) \<Rightarrow> conn \<Rightarrow> debug_session \<Rightarrow> bool" where
  "sess_grew bad c0 s \<equiv> grew bad c0 (ds_connection s)"

lemma connection_simps [simp]:
  "ds_connection (on_state f s) = ds_connection s" "ds_connection (modify_set i g s) = ds_connection s"
  "ds_connection (snd (mint_stop_id pref s)) = ds_connection s"
  by (simp_all add: on_state_def modify_set_def mint_stop_id_def case_prod_unfold split: option.split)

context sparing
begin

lemma spare_resolve_others: "grew bad c0 c \<Longrightarrow> grew bad c0 (snd (resolve_other_classloader_copies d cids spec c))"
  by (induction cids arbitrary: c) (simp_all add: Let_def case_prod_unfold spare_resolve)

lemma spare_try_copies: "grew bad c0 c \<Longrightarrow> grew bad c0 (snd (try_copies d spec i cids a c))"
  by (induction cids arbitrary: i a c)
     (auto simp: case_prod_unfold split: sum.split bp_location_error.split intro!: spare_resolve)

lemma spare_primary: "sess_grew bad c0 s \<Longrightarrow> sess_grew bad c0 (snd (resolve_primary_copy env ids spec plan s))"
  by (auto simp: resolve_primary_copy_def Let_def case_prod_unfold split: sum.split
      intro!: grew_on_conn spare_try_copies spare_loaders)

lemma spare_insert: "sess_grew bad c0 s \<Longrightarrow> sess_grew bad c0 (snd (insert_armed env ids spec i plan prim req s))"
  by (auto simp: insert_armed_def Let_def case_prod_unfold arm_extra_line_locations_def
      intro!: grew_on_conn spare_loaders spare_arm_locations spare_resolve_others)

lemma spare_arm: "sess_grew bad c0 s \<Longrightarrow> sess_grew bad c0 (snd (arm_and_insert env ids spec i plan s))"
  by (auto simp: arm_and_insert_def Let_def case_prod_unfold split: sum.split
      intro!: grew_on_conn spare_primary spare_insert spare_sets)

lemma spare_rearm_watch: "sess_grew bad c0 s \<Longrightarrow> sess_grew bad c0 (snd (register_rearm_watch env spec s))"
  by (auto simp: register_rearm_watch_def case_prod_unfold split: sum.split intro!: grew_on_conn spare_sets)

lemma spare_defer: "sess_grew bad c0 s \<Longrightarrow> sess_grew bad c0 (snd (defer_breakpoint env spec i s))"
  by (auto simp: defer_breakpoint_def Let_def case_prod_unfold split: sum.split
      intro!: grew_on_conn spare_sets spare_reads spare_arm)

lemma spare_arm_pending: "sess_grew bad c0 s \<Longrightarrow> sess_grew bad c0 (arm_pending env cid p s)"
  by (auto simp: arm_pending_def Let_def case_prod_unfold arm_extra_line_locations_def split: sum.split
      intro!: grew_on_conn spare_sets spare_resolve spare_arm_locations)

lemma spare_later_copy: "sess_grew bad c0 s \<Longrightarrow> sess_grew bad c0 (rearm_later_copy env cid sig t s)"
  by (auto simp: rearm_later_copy_def Let_def case_prod_unfold arm_extra_line_locations_def
      note_later_copy_miss_def record_later_copy_def split: sum.split
      intro!: grew_on_conn spare_sets spare_resolve spare_arm_locations spare_loaders)

lemma spare_rearm: "sess_grew bad c0 s \<Longrightarrow> sess_grew bad c0 (snd (rearm_stop_point d i s))"
proof -
  have "sess_grew bad c0 s \<Longrightarrow> sess_grew bad c0 (snd (rearm_by_kind d sp s))" for sp
    unfolding rearm_by_kind_def
    by (auto simp: rearm_line_breakpoint_def rearm_breakpoint_location_def rearm_exception_request_def
        rearm_watchpoint_def rearm_method_exit_def rearm_monitor_request_def resolve_monitor_class_def
        find_field_info_def arm_extra_line_locations_def Let_def case_prod_unfold
        split: armed_on.split sum.split option.split list.split
        intro!: grew_on_conn spare_sets spare_reads spare_resolve spare_arm_locations spare_by_dotted spare_find_field)
  then show "sess_grew bad c0 s \<Longrightarrow> ?thesis"
    by (auto simp: rearm_stop_point_def case_prod_unfold split: option.split sum.split)
qed

end

text \<open>Commands that clear a request.\<close>

locale sparing_clear = sparing +
  assumes clearing: "\<not> bad CS_EVENT_REQUEST ER_CLEAR"
begin

lemma spare_clear: "grew bad c0 c \<Longrightarrow> grew bad c0 (snd (clear_class_prepare d r c))"
  unfolding clear_class_prepare_def clear_request_def by (simp add: grew_exchange clearing)

lemma spare_park: "sess_grew bad c0 s \<Longrightarrow> sess_grew bad c0 (park_family_watch_if_full d i s)"
  by (auto simp: park_family_watch_if_full_def case_prod_unfold split: option.split sum.split
      intro!: grew_on_conn spare_clear)

lemma spare_family_member: "sess_grew bad c0 s \<Longrightarrow> sess_grew bad c0 (arm_family_member env cid fqn sig i s)"
  by (auto simp: arm_family_member_def Let_def case_prod_unfold split: option.split sum.split arm_error.split
      intro!: spare_park spare_arm)

lemma spare_fold: "(\<And>x s. sess_grew bad c0 s \<Longrightarrow> sess_grew bad c0 (f x s)) \<Longrightarrow> sess_grew bad c0 s \<Longrightarrow> sess_grew bad c0 (fold f xs s)"
  by (induction xs arbitrary: s) simp_all

lemma spare_class_load:
  "sess_grew bad c0 s \<Longrightarrow> sess_grew bad c0 (rearm_later_copies env cid sig
     (arm_pattern_set_members env cid sig (fold (arm_pending env cid) ps s)))"
  unfolding rearm_later_copies_def arm_pattern_set_members_def Let_def
  by (intro spare_fold spare_later_copy spare_family_member spare_arm_pending)

end

section \<open>The two classes\<close>

definition clears_requests :: "u8 \<Rightarrow> u8 \<Rightarrow> bool" where
  "clears_requests cset cmd \<longleftrightarrow> cset = CS_EVENT_REQUEST \<and> (cmd = ER_CLEAR \<or> cmd = ER_CLEAR_ALL_BREAKPOINTS)"

definition resumes_threads :: "u8 \<Rightarrow> u8 \<Rightarrow> bool" where
  "resumes_threads cset cmd \<longleftrightarrow> cset = CS_VIRTUAL_MACHINE \<and> cmd = VM_RESUME \<or> cset = CS_THREAD_REFERENCE \<and> cmd = T_RESUME"

interpretation no_clear: sparing clears_requests
  by unfold_locales (auto simp: clears_requests_def wire_defs)

interpretation no_resume: sparing_clear resumes_threads
  by unfold_locales (auto simp: resumes_threads_def wire_defs command_defs)

lemma grew_resumes:
  "sess_grew resumes_threads (ds_connection s) s' \<longleftrightarrow> resumes_between s s' []"
  by (simp add: grew_def resumes_between_def resumes_threads_def is_resume_def filter_empty_conv list_all_iff)

end
