(* ===== verification/Ieee.thy ===== *)
theory Ieee
  imports Types
begin

text \<open>
  The floating-point arithmetic the conditions of \<open>mcp-server/src/handlers.rs\<close> use, on bit patterns:
  comparison, the widening of integers and of \<open>f32\<close>, the narrowing of \<open>f64\<close>, and the value of a decimal
  literal.  Every conversion is the nearest representable number, ties to even, as Rust's \<open>as\<close> and
  \<open>str::parse\<close> define it.
\<close>

section \<open>Rounding a ratio\<close>

text \<open>A format: bits of the fraction, the exponent of its least step, and the bits of its infinity.\<close>

record float_format =
  ff_fraction :: nat
  ff_least :: int
  ff_infinity :: nat

definition binary64 :: float_format where
  "binary64 = \<lparr>ff_fraction = 52, ff_least = - 1074, ff_infinity = 0x7FF0000000000000\<rparr>"

definition binary32 :: float_format where
  "binary32 = \<lparr>ff_fraction = 23, ff_least = - 149, ff_infinity = 0x7F800000\<rparr>"

fun bit_length :: "nat \<Rightarrow> nat" where
  "bit_length n = (if n = 0 then 0 else Suc (bit_length (n div 2)))"

declare bit_length.simps [simp del]

text \<open>The ratio \<open>n / (d * 2 ^ e)\<close> to the nearest natural number, ties to even.\<close>

definition scaled :: "nat \<Rightarrow> nat \<Rightarrow> int \<Rightarrow> nat \<times> nat" where
  "scaled n d e = (if 0 \<le> e then (n, d * 2 ^ nat e) else (n * 2 ^ nat (- e), d))"

definition round_even :: "nat \<times> nat \<Rightarrow> nat" where
  "round_even nd =
     (case nd of (n, d) \<Rightarrow>
       let q = n div d; r = n mod d
       in if d < 2 * r \<or> (2 * r = d \<and> odd q) then q + 1 else q)"

text \<open>The exponent of the last place of \<open>n / d\<close>: \<open>n / d\<close> has \<open>ff_fraction + 1\<close> digits above it.\<close>

definition last_place :: "float_format \<Rightarrow> nat \<Rightarrow> nat \<Rightarrow> int" where
  "last_place f n d =
     (let e = int (bit_length n) - int (bit_length d) - int (ff_fraction f);
          e' = (case scaled n d e of (a, b) \<Rightarrow> if a < b * 2 ^ ff_fraction f then e - 1 else e)
      in max e' (ff_least f))"

definition round_ratio :: "float_format \<Rightarrow> nat \<Rightarrow> nat \<Rightarrow> nat" where
  "round_ratio f n d =
     (if n = 0 then 0
      else let e = last_place f n d
           in min (ff_infinity f) (nat (e - ff_least f) * 2 ^ ff_fraction f + round_even (scaled n d e)))"

definition with_sign :: "nat \<Rightarrow> bool \<Rightarrow> nat \<Rightarrow> nat" where
  "with_sign sign_bit negative bits = (if negative then 2 ^ sign_bit + bits else bits)"

definition f64_of_ratio :: "bool \<Rightarrow> nat \<Rightarrow> nat \<Rightarrow> u64" where
  "f64_of_ratio negative n d = word_of_nat (with_sign 63 negative (round_ratio binary64 n d))"

definition f32_of_ratio :: "bool \<Rightarrow> nat \<Rightarrow> nat \<Rightarrow> u32" where
  "f32_of_ratio negative n d = word_of_nat (with_sign 31 negative (round_ratio binary32 n d))"

definition f64_of_int :: "int \<Rightarrow> u64" where
  "f64_of_int i = f64_of_ratio (i < 0) (nat \<bar>i\<bar>) 1"

section \<open>Reading bit patterns\<close>

text \<open>A finite magnitude as a multiple of its last place; none for an infinity or a NaN.\<close>

definition magnitude :: "float_format \<Rightarrow> nat \<Rightarrow> (nat \<times> int) option" where
  "magnitude f bits =
     (if ff_infinity f \<le> bits then None
      else let e = bits div 2 ^ ff_fraction f; m = bits mod 2 ^ ff_fraction f
           in Some (if e = 0 then (m, ff_least f) else (2 ^ ff_fraction f + m, ff_least f + int (e - 1))))"

definition as_ratio :: "nat \<times> int \<Rightarrow> nat \<times> nat" where
  "as_ratio me = (case me of (m, e) \<Rightarrow> if 0 \<le> e then (m * 2 ^ nat e, 1) else (m, 2 ^ nat (- e)))"

definition convert :: "float_format \<Rightarrow> float_format \<Rightarrow> nat \<Rightarrow> nat" where
  "convert f g bits =
     (case magnitude f bits of
        Some me \<Rightarrow> (case as_ratio me of (n, d) \<Rightarrow> round_ratio g n d)
      | None \<Rightarrow> if bits = ff_infinity f then ff_infinity g else ff_infinity g + 2 ^ (ff_fraction g - 1))"

text \<open>\<open>f64::from\<close> on an \<open>f32\<close>, and \<open>as f32\<close> on an \<open>f64\<close> (the payload of a NaN is not kept).\<close>

definition f64_of_f32 :: "u32 \<Rightarrow> u64" where
  "f64_of_f32 w = word_of_nat (with_sign 63 (2 ^ 31 \<le> unat w) (convert binary32 binary64 (unat w mod 2 ^ 31)))"

definition f32_of_f64 :: "u64 \<Rightarrow> u32" where
  "f32_of_f64 w = word_of_nat (with_sign 31 (2 ^ 63 \<le> unat w) (convert binary64 binary32 (unat w mod 2 ^ 63)))"

section \<open>Order\<close>

text \<open>
  The numbers other than NaN are ordered as their patterns read as sign and magnitude; the two zeros are
  one number, and a NaN is unordered.
\<close>

definition f64_key :: "u64 \<Rightarrow> int option" where
  "f64_key w =
     (let m = unat w mod 2 ^ 63
      in if ff_infinity binary64 < m then None else Some (if 2 ^ 63 \<le> unat w then - int m else int m))"

definition f64_cmp :: "(int \<Rightarrow> int \<Rightarrow> bool) \<Rightarrow> u64 \<Rightarrow> u64 \<Rightarrow> bool" where
  "f64_cmp r a b = (case (f64_key a, f64_key b) of (Some x, Some y) \<Rightarrow> r x y | _ \<Rightarrow> False)"

end
