(* ===== verification/Literals.thy ===== *)
theory Literals
  imports Ieee ClassNames
begin

text \<open>
  \<open>mcp-server/src/handlers.rs\<close>: the literals of an expression - integers, floating-point numbers,
  characters - and the standard library's parsers and trimming they rest on.  Text is a string of UTF-8
  bytes; all syntax is ASCII, so scanning bytes and scanning characters agree.
\<close>

section \<open>Trimming\<close>

text \<open>\<open>str::trim\<close>: the characters of Unicode's \<open>White_Space\<close>, each as its UTF-8 bytes.\<close>

definition white_space :: "string list" where
  "white_space = [[CHR 0x09], [CHR 0x0A], [CHR 0x0B], [CHR 0x0C], [CHR 0x0D], [CHR 0x20], [CHR 0xC2, CHR 0x85],
     [CHR 0xC2, CHR 0xA0], [CHR 0xE1, CHR 0x9A, CHR 0x80], [CHR 0xE2, CHR 0x80, CHR 0xA8],
     [CHR 0xE2, CHR 0x80, CHR 0xA9], [CHR 0xE2, CHR 0x80, CHR 0xAF], [CHR 0xE2, CHR 0x81, CHR 0x9F],
     [CHR 0xE3, CHR 0x80, CHR 0x80],
     [CHR 0xE2, CHR 0x80, CHR 0x80], [CHR 0xE2, CHR 0x80, CHR 0x81], [CHR 0xE2, CHR 0x80, CHR 0x82],
     [CHR 0xE2, CHR 0x80, CHR 0x83], [CHR 0xE2, CHR 0x80, CHR 0x84], [CHR 0xE2, CHR 0x80, CHR 0x85],
     [CHR 0xE2, CHR 0x80, CHR 0x86], [CHR 0xE2, CHR 0x80, CHR 0x87], [CHR 0xE2, CHR 0x80, CHR 0x88],
     [CHR 0xE2, CHR 0x80, CHR 0x89], [CHR 0xE2, CHR 0x80, CHR 0x8A]]"

lemma white_space_not_Nil: "w \<in> set white_space \<Longrightarrow> w \<noteq> []"
  by (auto simp: white_space_def)

function trim_leading :: "string list \<Rightarrow> string \<Rightarrow> string" where
  "trim_leading ws s =
     (case find (\<lambda>w. w \<noteq> [] \<and> prefix w s) ws of None \<Rightarrow> s | Some w \<Rightarrow> trim_leading ws (drop (length w) s))"
  by pat_completeness auto
termination
  by (relation "measure (length \<circ> snd)") (auto simp: find_Some_iff prefix_def)

declare trim_leading.simps [simp del]

definition trim_start :: "string \<Rightarrow> string" where "trim_start s = trim_leading white_space s"

definition trim_end :: "string \<Rightarrow> string" where
  "trim_end s = rev (trim_leading (map rev white_space) (rev s))"

definition trim :: "string \<Rightarrow> string" where "trim s = trim_end (trim_start s)"

lemma length_trim_leading: "length (trim_leading ws s) \<le> length s"
proof (induction ws s rule: trim_leading.induct)
  case (1 ws s)
  show ?case
  proof (cases "find (\<lambda>w. w \<noteq> [] \<and> prefix w s) ws")
    case None
    then show ?thesis by (subst trim_leading.simps) simp
  next
    case (Some w)
    from 1 [OF Some] show ?thesis by (subst trim_leading.simps) (simp add: Some)
  qed
qed

lemma length_trim [simp]: "length (trim s) \<le> length s"
  unfolding trim_def trim_end_def trim_start_def
  using length_trim_leading [of "map rev white_space" "rev (trim_leading white_space s)"]
    length_trim_leading [of white_space s] by simp

text \<open>Text that neither starts nor ends with a byte of white space is not trimmed.\<close>

definition plain_char :: "char \<Rightarrow> bool" where
  "plain_char c = (c \<notin> set (map hd white_space) \<and> c \<notin> set (map last white_space))"

lemma trim_leading_none: "\<forall>w\<in>set ws. w \<noteq> [] \<longrightarrow> \<not> prefix w s \<Longrightarrow> trim_leading ws s = s"
  by (subst trim_leading.simps) (auto simp: find_Some_iff split: option.split)

lemma trim_leading_Nil [simp]: "trim_leading ws [] = []"
  by (rule trim_leading_none) simp

lemma white_space_ends:
  "w \<in> set white_space \<Longrightarrow> \<not> plain_char (hd w)" "w \<in> set white_space \<Longrightarrow> \<not> plain_char (last w)"
  by (auto simp: plain_char_def)

lemma trim_plain:
  assumes "s \<noteq> []" "plain_char (hd s)" "plain_char (last s)"
  shows "trim s = s"
proof -
  have start: "\<not> prefix w s" if w: "w \<in> set white_space" for w
  proof
    assume "prefix w s"
    moreover have "w \<noteq> []" using white_space_not_Nil [OF w] .
    ultimately have "hd s = hd w" by (auto simp: prefix_def)
    then show False using white_space_ends(1) [OF w] assms(2) by simp
  qed
  then have *: "trim_start s = s" unfolding trim_start_def by (intro trim_leading_none) auto
  have "\<not> prefix (rev w) (rev s)" if w: "w \<in> set white_space" for w
  proof
    assume "prefix (rev w) (rev s)"
    then have "suffix w s" by (simp add: suffix_to_prefix)
    moreover have "w \<noteq> []" using white_space_not_Nil [OF w] .
    ultimately have "last s = last w" by (auto simp: suffix_def)
    then show False using white_space_ends(2) [OF w] assms(3) by simp
  qed
  then have "trim_end s = s" unfolding trim_end_def by (subst trim_leading_none) auto
  then show ?thesis unfolding trim_def * .
qed

lemma trim_Nil [simp]: "trim [] = []"
  by (simp add: trim_def trim_start_def trim_end_def)

section \<open>Numbers\<close>

text \<open>\<open>str::parse\<close> of a signed integer of \<open>w\<close> bits: an optional sign, digits, and a value in range.\<close>

definition all_digits :: "string \<Rightarrow> bool" where
  "all_digits s = (s \<noteq> [] \<and> list_all is_digit s)"

definition parse_signed :: "nat \<Rightarrow> string \<Rightarrow> int option" where
  "parse_signed w s =
     (let (negative, digits) =
            (case s of [] \<Rightarrow> (False, []) | c # cs \<Rightarrow> if c = CHR ''-'' then (True, cs)
               else if c = CHR ''+'' then (False, cs) else (False, s));
          n = int (read_nat_acc 0 digits); v = (if negative then - n else n)
      in if all_digits digits \<and> - (2 ^ (w - 1)) \<le> v \<and> v < 2 ^ (w - 1) then Some v else None)"

definition parse_i32 :: "string \<Rightarrow> u32 option" where
  "parse_i32 s = map_option word_of_int (parse_signed 32 s)"

definition parse_i64 :: "string \<Rightarrow> u64 option" where
  "parse_i64 s = map_option word_of_int (parse_signed 64 s)"

definition u16_from_hex :: "string \<Rightarrow> u16 option" where
  "u16_from_hex s =
     (let digits = (if s \<noteq> [] \<and> hd s = CHR ''+'' then tl s else s)
      in if digits = [] then None
         else Option.bind (read_hex 0 digits) (\<lambda>n. if n < 2 ^ 16 then Some (word_of_nat n) else None))"

text \<open>
  \<open>str::parse\<close> of an \<open>f64\<close> on the alphabet the caller lets through: sign, digits with at most one dot and
  at least one digit, and an exponent.
\<close>

record decimal =
  dec_negative :: bool
  dec_digits :: nat
  dec_exponent :: int

definition strip_sign :: "string \<Rightarrow> bool \<times> string" where
  "strip_sign s =
     (case s of [] \<Rightarrow> (False, []) | c # cs \<Rightarrow> if c = CHR ''-'' then (True, cs)
        else if c = CHR ''+'' then (False, cs) else (False, s))"

definition parse_exponent :: "string \<Rightarrow> int option" where
  "parse_exponent s =
     (case s of
        [] \<Rightarrow> Some 0
      | c # cs \<Rightarrow>
          if c = CHR ''e'' \<or> c = CHR ''E'' then
            (case strip_sign cs of (negative, digits) \<Rightarrow>
               if all_digits digits
               then Some (let n = int (read_nat_acc 0 digits) in if negative then - n else n) else None)
          else None)"

definition parse_decimal :: "string \<Rightarrow> decimal option" where
  "parse_decimal s =
     (case strip_sign s of (negative, body) \<Rightarrow>
        let whole = takeWhile is_digit body; rest = dropWhile is_digit body;
            dotted = (case rest of [] \<Rightarrow> None | c # cs \<Rightarrow> if c = CHR ''.'' then Some cs else None);
            part = (case dotted of Some cs \<Rightarrow> takeWhile is_digit cs | None \<Rightarrow> []);
            tail = (case dotted of Some cs \<Rightarrow> dropWhile is_digit cs | None \<Rightarrow> rest)
        in if whole = [] \<and> part = [] then None
           else map_option (\<lambda>e. \<lparr>dec_negative = negative, dec_digits = read_nat_acc 0 (whole @ part),
                                 dec_exponent = e - int (length part)\<rparr>)
                  (parse_exponent tail))"

definition f64_of_decimal :: "decimal \<Rightarrow> u64" where
  "f64_of_decimal x =
     (if 0 \<le> dec_exponent x then f64_of_ratio (dec_negative x) (dec_digits x * 10 ^ nat (dec_exponent x)) 1
      else f64_of_ratio (dec_negative x) (dec_digits x) (10 ^ nat (- dec_exponent x)))"

section \<open>Literals\<close>

datatype arg_lit =
    Lit_int u32 | Lit_long u64 | Lit_float u32 | Lit_double u64 | Lit_char u16 | Lit_bool bool | Lit_null
  | Lit_str string | Lit_expr string

definition float_body :: "string \<Rightarrow> string \<times> bool" where
  "float_body t =
     (case strip_suffix_char CHR ''f'' t of
        Some b \<Rightarrow> (b, True)
      | None \<Rightarrow>
          (case strip_suffix_char CHR ''F'' t of
             Some b \<Rightarrow> (b, True)
           | None \<Rightarrow>
               (case strip_suffix_char CHR ''d'' t of
                  Some b \<Rightarrow> (b, False)
                | None \<Rightarrow> (case strip_suffix_char CHR ''D'' t of Some b \<Rightarrow> (b, False) | None \<Rightarrow> (t, False)))))"

definition parse_float_lit :: "string \<Rightarrow> (u64 \<times> bool) option" where
  "parse_float_lit t =
     (let (body, is_float) = float_body t;
          suffixed = (length body \<noteq> length t);
          exponent = (CHR ''e'' \<in> set body \<or> CHR ''E'' \<in> set body)
      in if \<not> suffixed \<and> CHR ''.'' \<notin> set body \<and> \<not> exponent then None
         else if \<not> list_all (\<lambda>c. is_digit c \<or> c \<in> set ''.eE+-'') body then None
         else if \<not> list_ex is_digit body then None
         else map_option (\<lambda>x. (f64_of_decimal x, is_float)) (parse_decimal body))"

definition parse_number_lit :: "string \<Rightarrow> arg_lit option" where
  "parse_number_lit t =
     (let long_form = (case strip_suffix_char CHR ''L'' t of
                         Some n \<Rightarrow> Some n | None \<Rightarrow> strip_suffix_char CHR ''l'' t)
      in case Option.bind long_form parse_i64 of
           Some n \<Rightarrow> Some (Lit_long n)
         | None \<Rightarrow>
             (case parse_i32 t of
                Some n \<Rightarrow> Some (Lit_int n)
              | None \<Rightarrow>
                  (case parse_i64 t of
                     Some n \<Rightarrow> Some (Lit_long n)
                   | None \<Rightarrow>
                       map_option (\<lambda>(v, is_float). if is_float then Lit_float (f32_of_f64 v) else Lit_double v)
                         (parse_float_lit t))))"

text \<open>The characters of a text, and the UTF-16 code units they become.\<close>

fun utf8_chars :: "string \<Rightarrow> string list" where
  "utf8_chars [] = []"
| "utf8_chars (c # cs) =
     (case utf8_chars cs of
        [] \<Rightarrow> [[c]]
      | ch # chs \<Rightarrow> if utf8_cont (char_byte (hd ch)) then (c # ch) # chs else [c] # ch # chs)"

definition utf16_units :: "string \<Rightarrow> nat list" where
  "utf16_units s =
     concat (map (\<lambda>ch. let n = utf8_scalar (string_bytes ch)
                  in if n < 0x10000 then [n] else [0xD800 + (n - 0x10000) div 0x400, 0xDC00 + (n - 0x10000) mod 0x400])
       (utf8_chars s))"

definition CHAR_ESCAPES :: "(char \<times> u16) list" where
  "CHAR_ESCAPES = [(CHR ''n'', 10), (CHR ''t'', 9), (CHR ''r'', 13), (CHR ''b'', 8), (CHR ''f'', 12),
     (CHR ''s'', 32), (CHR ''0'', 0), (CHR 0x5C, 92), (CHR 0x27, 39), (CHR 0x22, 34)]"

definition escape_names :: "string" where
  "escape_names = join '', '' (map (\<lambda>(c, _). [CHR 0x5C, c]) CHAR_ESCAPES) @ '', or '' @ [CHR 0x5C] @ ''uXXXX''"

definition em_dash :: "string" where "em_dash = bytes_string [0xE2, 0x80, 0x94]"

definition tick :: "string \<Rightarrow> string" where "tick s = [CHR 0x27] @ s @ [CHR 0x27]"

definition parse_char_inner :: "string \<Rightarrow> string + u16" where
  "parse_char_inner inner =
     (case strip_prefix_char CHR 0x5C inner of
        Some esc \<Rightarrow>
          (case strip_prefix_char CHR ''u'' esc of
             Some hex \<Rightarrow>
               (case u16_from_hex hex of
                  Some u \<Rightarrow> Inr u
                | None \<Rightarrow> Inl (tick ([CHR 0x5C] @ ''u'' @ hex) @ '' is not four hex digits '' @ em_dash
                            @ '' write it as '' @ tick ([CHR 0x5C] @ ''u00e7'')))
           | None \<Rightarrow>
               (case utf8_chars esc of
                  [ch] \<Rightarrow>
                    (case (case ch of [c] \<Rightarrow> map_of CHAR_ESCAPES c | _ \<Rightarrow> None) of
                       Some v \<Rightarrow> Inr v
                     | None \<Rightarrow> Inl (tick ([CHR 0x5C] @ ch) @ '' is not an escape this understands '' @ em_dash
                                 @ '' try '' @ escape_names))
                | _ \<Rightarrow> Inl (tick ([CHR 0x5C] @ esc) @ '' is not one escape '' @ em_dash @ '' write one of ''
                          @ escape_names)))
      | None \<Rightarrow>
          (case utf16_units inner of
             [u] \<Rightarrow> Inr (word_of_nat u)
           | _ # _ # _ \<Rightarrow> Inl (tick inner @ '' is two UTF-16 code units, and a Java char holds one '' @ em_dash
               @ '' outside the BMP there is no single-char spelling, so compare the String instead'')
           | [] \<Rightarrow> Inl (tick [] @ '' is an empty char literal '' @ em_dash
               @ '' write a character between the quotes'')))"

end
