(* ===== verification/ExprSyntax.thy ===== *)
theory ExprSyntax
  imports Literals
begin

text \<open>
  \<open>mcp-server/src/handlers.rs\<close>: the expression language of \<open>debug.evaluate\<close>, of conditions and of trace
  expressions.  The scanners track literals with \<open>quoted\<close>; \<open>parse_expr\<close> and \<open>parse_lit\<close> are mutually
  recursive in the code, and here \<open>parse_expr_with\<close> takes the literal parser it calls on shorter text.
\<close>

section \<open>Scanning\<close>

record quoted =
  q_str :: bool
  q_char :: bool
  q_escaped :: bool

definition unquoted :: "quoted" where
  "unquoted = \<lparr>q_str = False, q_char = False, q_escaped = False\<rparr>"

definition inside :: "quoted \<Rightarrow> bool" where "inside q = (q_str q \<or> q_char q)"

definition q_step :: "quoted \<Rightarrow> char \<Rightarrow> quoted" where
  "q_step q c =
     (if q_escaped q then q\<lparr>q_escaped := False\<rparr>
      else if c = CHR 0x5C \<and> inside q then q\<lparr>q_escaped := True\<rparr>
      else if c = CHR 0x22 \<and> \<not> q_char q then q\<lparr>q_str := \<not> q_str q\<rparr>
      else if c = CHR 0x27 \<and> \<not> q_str q then q\<lparr>q_char := \<not> q_char q\<rparr>
      else q)"

definition is_alpha :: "char \<Rightarrow> bool" where
  "is_alpha c = (c \<in> set ''abcdefghijklmnopqrstuvwxyzABCDEFGHIJKLMNOPQRSTUVWXYZ'')"

definition ident_start :: "char \<Rightarrow> bool" where "ident_start c = (is_alpha c \<or> c = CHR ''_'' \<or> c = CHR ''$'')"

definition ident_char :: "char \<Rightarrow> bool" where "ident_char c = (ident_start c \<or> is_digit c)"

definition is_ident :: "string \<Rightarrow> bool" where
  "is_ident s = (s \<noteq> [] \<and> ident_start (hd s) \<and> list_all ident_char s)"

text \<open>The change of depth at a character: up, down or neither, and only outside literals.\<close>

definition nest :: "string \<Rightarrow> string \<Rightarrow> bool \<Rightarrow> char \<Rightarrow> int" where
  "nest opening closing syn c = (if \<not> syn then 0 else if c \<in> set opening then 1 else if c \<in> set closing then - 1 else 0)"

text \<open>
  Splitting at a separator of depth 0 outside literals; the pieces, the piece under way, and how the scan
  ended.
\<close>

fun split_at_depth :: "string \<Rightarrow> string \<Rightarrow> char \<Rightarrow> quoted \<Rightarrow> int \<Rightarrow> string \<Rightarrow> string
    \<Rightarrow> string list \<times> string \<times> int \<times> quoted" where
  "split_at_depth opening closing sep q depth cur [] = ([], cur, depth, q)"
| "split_at_depth opening closing sep q depth cur (c # cs) =
     (let syn = (\<not> inside q); q' = q_step q c; depth' = depth + nest opening closing syn c
      in if syn \<and> c = sep \<and> depth = 0
         then (let (pieces, last_piece, end) = split_at_depth opening closing sep q' 0 [] cs
               in (cur # pieces, last_piece, end))
         else split_at_depth opening closing sep q' depth' (cur @ [c]) cs)"

definition split_segments :: "string \<Rightarrow> string + string list" where
  "split_segments e =
     (case split_at_depth ''(['' '')]'' CHR ''.'' unquoted 0 [] e of (pieces, cur, depth, q) \<Rightarrow>
        if depth \<noteq> 0 \<or> inside q then Inl ''Unbalanced parentheses, brackets or quotes''
        else Inr (map trim pieces @ (if trim cur = [] then [] else [trim cur])))"

text \<open>Where the head of a segment ends: its first bracket outside literals and parentheses.\<close>

fun head_length :: "quoted \<Rightarrow> int \<Rightarrow> string \<Rightarrow> nat" where
  "head_length q depth [] = 0"
| "head_length q depth (c # cs) =
     (let syn = (\<not> inside q)
      in if syn \<and> c = CHR ''['' \<and> depth = 0 then 0
         else Suc (head_length (q_step q c) (depth + nest ''('' '')'' syn c) cs))"

text \<open>The position of the bracket that closes the one the text starts with.\<close>

fun close_bracket :: "quoted \<Rightarrow> int \<Rightarrow> string \<Rightarrow> nat option" where
  "close_bracket q depth [] = None"
| "close_bracket q depth (c # cs) =
     (let syn = (\<not> inside q); depth' = depth + nest ''['' '']'' syn c
      in if syn \<and> c = CHR '']'' \<and> depth' = 0 then Some 0
         else map_option Suc (close_bracket (q_step q c) depth' cs))"

lemma close_bracket_length: "close_bracket q depth s = Some i \<Longrightarrow> i < length s"
  by (induction q depth s arbitrary: i rule: close_bracket.induct) (auto simp: Let_def split: if_splits)

function subscript_groups :: "string \<Rightarrow> string \<Rightarrow> string + string list" where
  "subscript_groups raw rest =
     (if rest = [] then Inr []
      else if hd rest \<noteq> CHR ''['' then Inl (''Unexpected text after a subscript: '' @ tick rest)
      else (case close_bracket unquoted 0 rest of
              None \<Rightarrow> Inl (''Unclosed '' @ tick ''['' @ '' in '' @ tick raw)
            | Some close \<Rightarrow>
                res_map (\<lambda>groups. trim (take (close - 1) (drop 1 rest)) # groups)
                  (subscript_groups raw (trim (drop (close + 1) rest)))))"
  by pat_completeness auto
termination
proof (relation "measure (length \<circ> snd)")
  fix raw rest :: string and close :: nat
  assume "\<not> rest = []" "close_bracket unquoted 0 rest = Some close"
  then have "length (drop (close + 1) rest) < length rest" by (cases rest) auto
  then show "((raw, trim (drop (close + 1) rest)), raw, rest) \<in> measure (length \<circ> snd)"
    using le_less_trans [OF length_trim] by simp
qed simp

declare subscript_groups.simps [simp del]

definition split_subscripts :: "string \<Rightarrow> string + string \<times> string list" where
  "split_subscripts raw =
     (let n = head_length unquoted 0 raw
      in res_map (\<lambda>groups. (trim (take n raw), groups)) (subscript_groups raw (trim (drop n raw))))"

section \<open>The syntax tree\<close>

datatype subscript = Sub_index arg_lit | Sub_range u64 u64 | Sub_filter string

record seg =
  seg_name :: string
  seg_args :: "arg_lit list option"
  seg_subs :: "subscript list"

fun res_collect :: "('a \<Rightarrow> 'e + 'b) \<Rightarrow> 'a list \<Rightarrow> 'e + 'b list" where
  "res_collect f [] = Inr []"
| "res_collect f (x # xs) = res_bind (f x) (\<lambda>y. res_map ((#) y) (res_collect f xs))"

lemma res_collect_cong [fundef_cong]:
  "xs = ys \<Longrightarrow> (\<And>x. x \<in> set ys \<Longrightarrow> f x = g x) \<Longrightarrow> res_collect f xs = res_collect g ys"
proof (induction ys arbitrary: xs)
  case (Cons y ys)
  then have "res_collect f ys = res_collect g ys" by (intro Cons.IH) auto
  with Cons.prems show ?case by (cases "g y") auto
qed simp

lemma res_collect_Inr_iff:
  "res_collect f xs = Inr ys \<longleftrightarrow> length xs = length ys \<and> (\<forall>i<length xs. f (xs ! i) = Inr (ys ! i))"
proof (induction xs arbitrary: ys)
  case (Cons x xs)
  show ?case
  proof (cases ys)
    case (Cons y ys')
    then show ?thesis
      by (cases "f x") (auto simp: res_map_Inr_iff Cons.IH All_less_Suc2)
  qed (simp add: res_bind_Inr_iff res_map_Inr_iff)
qed auto

section \<open>Comparisons\<close>

definition comparison_ops :: "string list" where
  "comparison_ops = [''=='', ''!='', ''<='', ''>='', ''<'', ''>'']"

definition try_op :: "string \<Rightarrow> string \<Rightarrow> string \<Rightarrow> (string \<times> string \<times> string) option" where
  "try_op pre rest op =
     (let left = trim pre; right = trim (drop (length op) rest)
      in if prefix op rest \<and> left \<noteq> [] \<and> right \<noteq> [] then Some (left, op, right) else None)"

fun first_some :: "('a \<Rightarrow> 'b option) \<Rightarrow> 'a list \<Rightarrow> 'b option" where
  "first_some f [] = None"
| "first_some f (x # xs) = (case f x of Some y \<Rightarrow> Some y | None \<Rightarrow> first_some f xs)"

fun find_comparison :: "quoted \<Rightarrow> int \<Rightarrow> string \<Rightarrow> string \<Rightarrow> (string \<times> string \<times> string) option" where
  "find_comparison q depth pre [] = None"
| "find_comparison q depth pre (c # cs) =
     (let syn = (\<not> inside q);
          here = (if syn \<and> depth = 0 \<and> c \<noteq> CHR 0x22 \<and> c \<noteq> CHR 0x27 \<and> c \<noteq> CHR ''('' \<and> c \<noteq> CHR '')''
                  then first_some (try_op pre (c # cs)) comparison_ops else None)
      in case here of
           Some found \<Rightarrow> Some found
         | None \<Rightarrow> find_comparison (q_step q c) (depth + nest ''('' '')'' syn c) (pre @ [c]) cs)"

definition split_comparison :: "string \<Rightarrow> (string \<times> string \<times> string) option" where
  "split_comparison cond = find_comparison unquoted 0 [] cond"

section \<open>Parsing\<close>

definition parse_object_handle :: "string \<Rightarrow> u64 option" where
  "parse_object_handle token =
     (let hex = (if prefix ''@0x'' token \<or> prefix ''@0X'' token then Some (drop 3 token) else None)
      in case hex of
           None \<Rightarrow> None
         | Some h \<Rightarrow> if h = [] \<or> \<not> list_all (\<lambda>c. hex_value c \<noteq> None) h then None else u64_from_hex h)"

fun split_once_text :: "string \<Rightarrow> string \<Rightarrow> string \<Rightarrow> (string \<times> string) option" where
  "split_once_text sep pre s =
     (if prefix sep s then Some (pre, drop (length sep) s)
      else (case s of [] \<Rightarrow> None | c # cs \<Rightarrow> split_once_text sep (pre @ [c]) cs))"

definition parse_bound :: "string \<Rightarrow> string \<Rightarrow> string \<Rightarrow> string + u64" where
  "parse_bound t x what =
     (case parse_i64 (trim x) of
        Some n \<Rightarrow> Inr n
      | None \<Rightarrow> Inl (''Range '' @ what @ '' must be an integer, got '' @ tick (trim x) @ '' in '' @ tick (''['' @ t @ '']'')))"

definition parse_subscript :: "(string \<Rightarrow> string + arg_lit) \<Rightarrow> string \<Rightarrow> string + subscript" where
  "parse_subscript lit inner =
     (let t = trim inner
      in if t = [] then Inl (''Empty subscript '' @ tick ''[]'' @ '' '' @ em_dash @ '' use [i], [a..b], or [?predicate]'')
         else case strip_prefix_char CHR ''?'' t of
           Some pred \<Rightarrow>
             if trim pred = []
             then Inl (''Empty filter '' @ tick ''[?]'' @ '' '' @ em_dash @ '' give a predicate, e.g. [?status == ''
                       @ [CHR 0x22] @ ''OPEN'' @ [CHR 0x22] @ '']'')
             else Inr (Sub_filter (trim pred))
         | None \<Rightarrow>
             (case split_once_text ''..'' [] t of
                Some (a, b) \<Rightarrow>
                  res_bind (parse_bound t a ''start'') (\<lambda>from.
                  res_bind (parse_bound t b ''end'') (\<lambda>to.
                    if sint to < sint from then Inl (''Range '' @ tick (''['' @ t @ '']'') @ '' ends before it starts'')
                    else Inr (Sub_range from to)))
              | None \<Rightarrow> res_map Sub_index (lit t)))"

definition split_args :: "string \<Rightarrow> string list" where
  "split_args s = (case split_at_depth ''('' '')'' CHR '','' unquoted 0 [] s of (pieces, cur, _) \<Rightarrow> pieces @ [cur])"

definition parse_args :: "(string \<Rightarrow> string + arg_lit) \<Rightarrow> string \<Rightarrow> string + arg_lit list" where
  "parse_args lit inner = (let s = trim inner in if s = [] then Inr [] else res_collect lit (split_args s))"

definition bad_handle :: "string \<Rightarrow> string" where
  "bad_handle head =
     ''Bad object handle '' @ tick head @ '' '' @ em_dash @ '' the form is @0x<hex>, exactly as a trace snapshot, an ''
     @ ''expanded object or debug.list_instances prints it.''"

definition comparison_as_value :: "string \<Rightarrow> string" where
  "comparison_as_value head =
     ''Unsupported token: '' @ tick head @ '' '' @ em_dash @ '' that is a COMPARISON, and this argument takes an ''
     @ ''expression that resolves to a VALUE. `condition` and `trace_expr` both accept ''
     @ ''`left OP right` (==, !=, <, <=, >, >=, joined with && / ||); an expression evaluated ''
     @ ''for its value does not.''"

definition parse_head :: "(string \<Rightarrow> string + arg_lit) \<Rightarrow> string \<Rightarrow> subscript list \<Rightarrow> string + seg" where
  "parse_head lit head subs =
     (if prefix ''@'' head then
        (if parse_object_handle head = None then Inl (bad_handle head)
         else Inr \<lparr>seg_name = head, seg_args = None, seg_subs = subs\<rparr>)
      else if CHR ''('' \<in> set head then
        (if last head \<noteq> CHR '')'' then Inl (''Malformed method call: '' @ tick head)
         else let pre = takeWhile (\<lambda>c. c \<noteq> CHR ''('') head; name = trim pre
              in if \<not> is_ident name then Inl (''Bad method name: '' @ tick name)
                 else res_map (\<lambda>args. \<lparr>seg_name = name, seg_args = Some args, seg_subs = subs\<rparr>)
                        (parse_args lit (butlast (drop (length pre + 1) head))))
      else if \<not> is_ident head then
        Inl (if split_comparison head \<noteq> None then comparison_as_value head
             else ''Unsupported token: '' @ tick head)
      else Inr \<lparr>seg_name = head, seg_args = None, seg_subs = subs\<rparr>)"

definition parse_seg :: "(string \<Rightarrow> string + arg_lit) \<Rightarrow> string \<Rightarrow> string + seg" where
  "parse_seg lit raw =
     res_bind (split_subscripts raw) (\<lambda>(head, groups).
     res_bind (res_collect (parse_subscript lit) groups) (parse_head lit head))"

definition parse_expr_with :: "(string \<Rightarrow> string + arg_lit) \<Rightarrow> string \<Rightarrow> string + seg list" where
  "parse_expr_with lit expr =
     (let e = trim expr
      in if e = [] then Inl ''Empty expression''
         else res_bind (split_segments e) (\<lambda>raws.
                if raws = [] then Inl ''Empty expression'' else res_collect (parse_seg lit) raws))"

section \<open>Termination\<close>

text \<open>Whatever a parser hands on is no longer than what it was given, and shorter inside brackets and parentheses.\<close>

lemma split_at_depth_length:
  "split_at_depth op cl sep q depth cur s = (pieces, last_piece, end) \<Longrightarrow> p \<in> insert last_piece (set pieces)
     \<Longrightarrow> length p \<le> length cur + length s"
proof (induction op cl sep q depth cur s arbitrary: pieces last_piece "end" rule: split_at_depth.induct)
  case (2 op cl sep q depth cur c cs)
  show ?case
  proof (cases "\<not> inside q \<and> c = sep \<and> depth = 0")
    case True
    obtain ps l r where rec: "split_at_depth op cl sep (q_step q c) 0 [] cs = (ps, l, r)" by (metis prod_cases3)
    have "p = cur \<or> p \<in> insert l (set ps)" using "2.prems" True rec by (auto simp: Let_def)
    then show ?thesis using "2.IH"(1) [OF refl refl refl True rec] by auto
  next
    case False
    then show ?thesis using "2.IH"(2) [OF refl refl refl False] "2.prems" by (simp add: Let_def if_not_P [OF False])
  qed
qed simp

lemma split_args_length: "p \<in> set (split_args s) \<Longrightarrow> length p \<le> length s"
  unfolding split_args_def
  by (auto split: prod.splits dest: split_at_depth_length [OF sym])

lemma split_segments_length:
  assumes "split_segments e = Inr raws" "r \<in> set raws"
  shows "length r \<le> length e"
proof -
  obtain ps cur d q where scan: "split_at_depth ''(['' '')]'' CHR ''.'' unquoted 0 [] e = (ps, cur, d, q)"
    by (metis prod_cases4)
  then have "raws = map trim ps @ (if trim cur = [] then [] else [trim cur])"
    using assms(1) by (simp add: split_segments_def split: if_splits)
  then obtain p where "p \<in> insert cur (set ps)" "r = trim p" using assms(2) by (auto split: if_splits)
  then show ?thesis using split_at_depth_length [OF scan, of p] le_trans [OF length_trim [of p]] by simp
qed

lemma subscript_groups_length:
  "subscript_groups raw rest = Inr groups \<Longrightarrow> g \<in> set groups \<Longrightarrow> length g + 2 \<le> length rest"
proof (induction raw rest arbitrary: groups rule: subscript_groups.induct)
  case (1 raw rest)
  show ?case
  proof (cases "rest = [] \<or> hd rest \<noteq> CHR ''[''")
    case True
    then show ?thesis using "1.prems" by (subst (asm) subscript_groups.simps) (auto split: if_splits)
  next
    case False
    then obtain cs where rest: "rest = CHR ''['' # cs" by (cases rest) auto
    obtain close groups' where close: "close_bracket unquoted 0 rest = Some close"
      and groups': "subscript_groups raw (trim (drop (close + 1) rest)) = Inr groups'"
      and groups: "groups = trim (take (close - 1) (drop 1 rest)) # groups'"
      using "1.prems"(1) False by (subst (asm) subscript_groups.simps) (auto simp: res_map_Inr_iff split: option.splits)
    have len: "close < length rest" using close_bracket_length [OF close] .
    have pos: "0 < close" using close rest by (auto simp: Let_def unquoted_def inside_def nest_def)
    show ?thesis
    proof (cases "g = trim (take (close - 1) (drop 1 rest))")
      case True
      have "length (take (close - 1) (drop 1 rest)) + 2 \<le> length rest" using len pos by simp
      then show ?thesis unfolding True using le_trans [OF add_right_mono [OF length_trim]] by blast
    next
      case g: False
      then have "g \<in> set groups'" using "1.prems"(2) groups by simp
      then have "length g + 2 \<le> length (trim (drop (close + 1) rest))"
        using "1.IH" [OF _ _ close groups'] False by simp
      then show ?thesis using length_trim [of "drop (close + 1) rest"] by simp
    qed
  qed
qed

lemma split_subscripts_length:
  assumes "split_subscripts raw = Inr (head, groups)"
  shows "length head \<le> length raw" "g \<in> set groups \<Longrightarrow> length g < length raw"
proof -
  let ?n = "head_length unquoted 0 raw"
  have head: "head = trim (take ?n raw)" and groups: "subscript_groups raw (trim (drop ?n raw)) = Inr groups"
    using assms by (auto simp: split_subscripts_def Let_def res_map_Inr_iff)
  show "length head \<le> length raw" using length_trim [of "take ?n raw"] head by simp
  show "length g < length raw" if "g \<in> set groups"
    using subscript_groups_length [OF groups that] length_trim [of "drop ?n raw"] by simp
qed

lemma parse_subscript_cong:
  "(\<And>p. length p \<le> length g \<Longrightarrow> lit p = lit' p) \<Longrightarrow> parse_subscript lit g = parse_subscript lit' g"
  unfolding parse_subscript_def Let_def by (auto split: option.splits)

lemma parse_args_cong:
  "(\<And>p. length p \<le> length s \<Longrightarrow> lit p = lit' p) \<Longrightarrow> parse_args lit s = parse_args lit' s"
  unfolding parse_args_def Let_def
  by (auto intro!: res_collect_cong dest!: split_args_length intro: order.trans [OF _ length_trim])

lemma parse_head_cong:
  assumes "\<And>p. length p < length head \<Longrightarrow> lit p = lit' p"
  shows "parse_head lit head subs = parse_head lit' head subs"
proof (cases "CHR ''('' \<in> set head")
  case True
  then have "parse_args lit (butlast (drop (length (takeWhile (\<lambda>c. c \<noteq> CHR ''('') head) + 1) head))
      = parse_args lit' (butlast (drop (length (takeWhile (\<lambda>c. c \<noteq> CHR ''('') head) + 1) head))"
    by (intro parse_args_cong assms) (cases head, auto)
  then show ?thesis by (simp add: parse_head_def Let_def)
qed (simp add: parse_head_def)

lemma parse_seg_cong:
  assumes "\<And>p. length p < length raw \<Longrightarrow> lit p = lit' p"
  shows "parse_seg lit raw = parse_seg lit' raw"
proof (cases "split_subscripts raw")
  case (Inr hg)
  obtain head groups where hg: "hg = (head, groups)" by (cases hg)
  note len = split_subscripts_length [OF Inr [unfolded hg]]
  have "res_collect (parse_subscript lit) groups = res_collect (parse_subscript lit') groups"
    by (intro res_collect_cong refl parse_subscript_cong assms) (auto dest!: len(2) order.strict_trans1)
  moreover have "parse_head lit head = parse_head lit' head"
    by (intro ext parse_head_cong assms) (use len(1) in simp)
  ultimately show ?thesis by (simp add: parse_seg_def Inr hg)
qed (simp add: parse_seg_def)

lemma parse_expr_with_cong [fundef_cong]:
  assumes "e = e'" "\<And>p. length p < length e' \<Longrightarrow> lit p = lit' p"
  shows "parse_expr_with lit e = parse_expr_with lit' e'"
proof (cases "split_segments (trim e')")
  case (Inr raws)
  have "res_collect (parse_seg lit) raws = res_collect (parse_seg lit') raws"
  proof (intro res_collect_cong refl parse_seg_cong assms(2))
    fix r p assume "r \<in> set raws" "length p < length r"
    then have "length p < length (trim e')" using split_segments_length [OF Inr] by fastforce
    then show "length p < length e'" by (rule less_le_trans [OF _ length_trim])
  qed
  then show ?thesis by (simp add: parse_expr_with_def Inr assms(1) Let_def)
qed (simp add: parse_expr_with_def assms(1) Let_def)

definition unsupported_argument :: "string \<Rightarrow> string" where
  "unsupported_argument t =
     ''Unsupported argument: '' @ tick t @ '' (a literal '' @ em_dash @ '' int, long like 123L, double like 1.5, float like ''
     @ ''2.0f, char like '' @ tick ''a'' @ '', true/false, null, '' @ [CHR 0x22] @ ''string'' @ [CHR 0x22] @ '' ''
     @ em_dash @ '' or an expression like a local, this.field, or obj.getX())''"

function parse_lit :: "string \<Rightarrow> string + arg_lit" where
  "parse_lit raw =
     (let t = trim raw
      in if t = ''null'' then Inr Lit_null
         else if t = ''true'' then Inr (Lit_bool True)
         else if t = ''false'' then Inr (Lit_bool False)
         else if 2 \<le> length t \<and> hd t = CHR 0x22 \<and> last t = CHR 0x22 then Inr (Lit_str (butlast (tl t)))
         else if 2 \<le> length t \<and> hd t = CHR 0x27 \<and> last t = CHR 0x27
         then res_map Lit_char (parse_char_inner (butlast (tl t)))
         else case parse_number_lit t of
             Some n \<Rightarrow> Inr n
           | None \<Rightarrow>
               (case parse_expr_with parse_lit t of
                  Inr _ \<Rightarrow> Inr (Lit_expr t)
                | Inl _ \<Rightarrow> Inl (unsupported_argument t)))"
  by pat_completeness auto
termination
  by (relation "measure length") (auto intro: less_le_trans [OF _ length_trim])

declare parse_lit.simps [simp del]

definition parse_expr :: "string \<Rightarrow> string + seg list" where
  "parse_expr = parse_expr_with parse_lit"

end
