(* ===== verification/BoolExpr.thy ===== *)
theory BoolExpr
  imports ExprSyntax
begin

text \<open>
  \<open>mcp-server/src/handlers.rs\<close>: the boolean layer over expressions - splitting on \<open>||\<close>, \<open>&&\<close> and \<open>!\<close>,
  which text counts as a comparison, the binding of an event's objects, and the test for a method call.
\<close>

section \<open>Splitting\<close>

fun split_bool_from :: "char \<Rightarrow> bool \<Rightarrow> int \<Rightarrow> string \<Rightarrow> string \<Rightarrow> string list" where
  "split_bool_from op in_str depth cur [] = [trim cur]"
| "split_bool_from op in_str depth cur (c # cs) =
     (if c = CHR 0x22 then split_bool_from op (\<not> in_str) depth (cur @ [c]) cs
      else if \<not> in_str \<and> depth = 0 \<and> c = op \<and> c \<notin> set ''([)]'' \<and> cs \<noteq> [] \<and> hd cs = op
      then trim cur # split_bool_from op in_str depth [] (tl cs)
      else split_bool_from op in_str (depth + nest ''(['' '')]'' (\<not> in_str) c) (cur @ [c]) cs)"

definition split_bool :: "string \<Rightarrow> char \<Rightarrow> string list" where
  "split_bool s op = split_bool_from op False 0 [] s"

text \<open>The position at which the parentheses first balance.\<close>

fun first_balance :: "bool \<Rightarrow> int \<Rightarrow> string \<Rightarrow> nat option" where
  "first_balance in_str depth [] = None"
| "first_balance in_str depth (c # cs) =
     (let depth' = depth + nest ''('' '')'' (\<not> in_str) c
      in if \<not> in_str \<and> c = CHR '')'' \<and> depth' = 0 then Some 0
         else map_option Suc (first_balance (if c = CHR 0x22 then \<not> in_str else in_str) depth' cs))"

definition parens_enclose :: "string \<Rightarrow> bool" where
  "parens_enclose s =
     (s \<noteq> [] \<and> hd s = CHR ''('' \<and> last s = CHR '')'' \<and> first_balance False 0 s = Some (length s - 1))"

function strip_parens :: "string \<Rightarrow> string" where
  "strip_parens t = (if parens_enclose t then strip_parens (trim (butlast (tl t))) else t)"
  by pat_completeness auto
termination
proof (relation "measure length")
  fix t assume "parens_enclose t"
  then have "length (butlast (tl t)) < length t" by (cases t) (auto simp: parens_enclose_def)
  then show "(trim (butlast (tl t)), t) \<in> measure length" using le_less_trans [OF length_trim] by simp
qed simp

declare strip_parens.simps [simp del]

definition strip_enclosing_parens :: "string \<Rightarrow> string" where "strip_enclosing_parens s = strip_parens (trim s)"

section \<open>The tree\<close>

datatype bool_tree = Tree_or "bool_tree list" | Tree_and "bool_tree list" | Tree_not bool_tree | Tree_leaf string

lemma split_bool_from_length:
  "p \<in> set (split_bool_from op in_str depth cur s) \<Longrightarrow> length p \<le> length cur + length s"
proof (induction op in_str depth cur s rule: split_bool_from.induct)
  case (1 op in_str depth cur)
  then show ?case by simp
next
  case (2 op in_str depth cur c cs)
  then show ?case
    by (cases cs) (auto split: if_splits intro: le_trans [OF length_trim] simp del: length_trim)
qed

lemma split_bool_from_shorter:
  "1 < length (split_bool_from op in_str depth cur s) \<Longrightarrow> p \<in> set (split_bool_from op in_str depth cur s)
     \<Longrightarrow> length p < length cur + length s"
proof (induction op in_str depth cur s rule: split_bool_from.induct)
  case (1 op in_str depth cur)
  then show ?case by simp
next
  case (2 op in_str depth cur c cs)
  then show ?case
    using length_trim [of cur]
    by (cases cs) (auto split: if_splits dest!: split_bool_from_length simp del: length_trim)
qed

lemma length_strip_parens: "length (strip_parens t) \<le> length t"
proof (induction t rule: strip_parens.induct)
  case (1 t)
  show ?case
  proof (cases "parens_enclose t")
    case True
    have "length (strip_parens (trim (butlast (tl t)))) \<le> length (butlast (tl t))"
      using 1 [OF True] length_trim by (rule le_trans)
    then show ?thesis by (subst strip_parens.simps) (simp add: True)
  next
    case False
    then show ?thesis by (subst strip_parens.simps) simp
  qed
qed

lemma length_strip_enclosing_parens: "length (strip_enclosing_parens s) \<le> length s"
  unfolding strip_enclosing_parens_def by (rule le_trans [OF length_strip_parens length_trim])

function parse_bool_tree :: "string \<Rightarrow> bool_tree" where
  "parse_bool_tree expr =
     (let s = strip_enclosing_parens (trim expr);
          ors = split_bool s CHR ''|''; ands = split_bool s CHR ''&''
      in if 1 < length ors then Tree_or (map parse_bool_tree ors)
         else if 1 < length ands then Tree_and (map parse_bool_tree ands)
         else if s \<noteq> [] \<and> hd s = CHR ''!'' \<and> \<not> prefix ''='' (trim_start (tl s)) then Tree_not (parse_bool_tree (tl s))
         else Tree_leaf s)"
  by pat_completeness auto
termination
proof (relation "measure length")
  have len: "length (strip_enclosing_parens (trim expr)) \<le> length expr" for expr
    using length_strip_enclosing_parens length_trim by (rule le_trans)
  show "(p, expr) \<in> measure length"
    if "s = strip_enclosing_parens (trim expr)" "ors = split_bool s CHR ''|''" "1 < length ors" "p \<in> set ors"
    for expr s ors p
    using split_bool_from_shorter [of "CHR ''|''" False 0 "[]" s p] that len [of expr] by (simp add: split_bool_def)
  show "(p, expr) \<in> measure length"
    if "s = strip_enclosing_parens (trim expr)" "ands = split_bool s CHR ''&''" "1 < length ands" "p \<in> set ands"
    for expr s ands p
    using split_bool_from_shorter [of "CHR ''&''" False 0 "[]" s p] that len [of expr] by (simp add: split_bool_def)
  show "(tl s, expr) \<in> measure length"
    if "s = strip_enclosing_parens (trim expr)" "s \<noteq> [] \<and> hd s = CHR ''!'' \<and> P" for expr s P
  proof -
    have "s \<noteq> []" "length s \<le> length expr" using that len [of expr] by auto
    then show ?thesis by (cases s) auto
  qed
qed simp

declare parse_bool_tree.simps [simp del]

definition expr_is_boolean :: "string \<Rightarrow> bool" where
  "expr_is_boolean expr =
     (case parse_bool_tree expr of
        Tree_leaf leaf \<Rightarrow> split_comparison leaf \<noteq> None
      | _ \<Rightarrow> True)"

section \<open>Method calls and bound objects\<close>

fun invokes_from :: "bool \<Rightarrow> bool \<Rightarrow> string \<Rightarrow> bool" where
  "invokes_from in_str escaped [] = False"
| "invokes_from in_str escaped (c # cs) =
     (if in_str then
        (if escaped then invokes_from True False cs
         else if c = CHR 0x5C then invokes_from True True cs
         else invokes_from (c \<noteq> CHR 0x22) False cs)
      else if c = CHR 0x22 then invokes_from True escaped cs
      else c = CHR ''('' \<or> invokes_from False escaped cs)"

definition expr_invokes :: "string \<Rightarrow> bool" where
  "expr_invokes expr = invokes_from False False expr"

definition continues_name :: "char \<Rightarrow> bool" where "continues_name c = (ident_char c \<or> c = CHR ''.'')"

fun bind_from :: "(string \<times> u64) list \<Rightarrow> quoted \<Rightarrow> char option \<Rightarrow> nat \<Rightarrow> string \<Rightarrow> string" where
  "bind_from heads q prev skip [] = []"
| "bind_from heads q prev skip (c # cs) =
     (if 0 < skip then bind_from heads (q_step q c) (Some c) (skip - 1) cs
      else let boundary = (case prev of None \<Rightarrow> True | Some p \<Rightarrow> \<not> continues_name p);
               head = (if \<not> inside q \<and> boundary
                       then find (\<lambda>(name, _). prefix (name @ ''.'') (c # cs)) heads else None)
           in case head of
                Some (name, handle) \<Rightarrow>
                  ''@0x'' @ show_hex (unat handle) @ bind_from heads (q_step q c) (Some c) (length name - 1) cs
              | None \<Rightarrow> c # bind_from heads (q_step q c) (Some c) 0 cs)"

definition bind_object_heads :: "string \<Rightarrow> (string \<times> u64) list \<Rightarrow> string" where
  "bind_object_heads leaf heads = bind_from heads unquoted None 0 leaf"

section \<open>Printing a tree\<close>

text \<open>
  The text of a tree, with parentheses only where an operator that binds less tightly stands below one that
  binds more tightly.
\<close>

fun tree_level :: "bool_tree \<Rightarrow> nat" where
  "tree_level (Tree_or _) = 0"
| "tree_level (Tree_and _) = 1"
| "tree_level (Tree_not _) = 2"
| "tree_level (Tree_leaf _) = 2"

definition wrapped :: "bool \<Rightarrow> string \<Rightarrow> string" where
  "wrapped b s = (if b then ''('' @ s @ '')'' else s)"

fun show_tree :: "bool_tree \<Rightarrow> string" where
  "show_tree (Tree_leaf s) = s"
| "show_tree (Tree_not t) = ''!'' @ wrapped (tree_level t < 2) (show_tree t)"
| "show_tree (Tree_and ts) = join '' && '' (map (\<lambda>t. wrapped (tree_level t < 2) (show_tree t)) ts)"
| "show_tree (Tree_or ts) = join '' || '' (map (\<lambda>t. wrapped (tree_level t < 1) (show_tree t)) ts)"

text \<open>
  Text that leaves the scanners as it found them: brackets matched, strings closed, and none of the operators
  \<open>ops\<close> outside brackets and strings.
\<close>

fun calm :: "string \<Rightarrow> bool \<Rightarrow> nat \<Rightarrow> string \<Rightarrow> bool" where
  "calm ops in_str d [] = (\<not> in_str \<and> d = 0)"
| "calm ops in_str d (c # cs) =
     (if c = CHR 0x22 then calm ops (\<not> in_str) d cs
      else if in_str then calm ops True d cs
      else if c \<in> set ''(['' then calm ops False (Suc d) cs
      else if c \<in> set '')]'' then 0 < d \<and> calm ops False (d - 1) cs
      else (0 < d \<or> c \<notin> set ops) \<and> calm ops False d cs)"

fun balanced :: "bool \<Rightarrow> nat \<Rightarrow> string \<Rightarrow> bool" where
  "balanced in_str d [] = (\<not> in_str \<and> d = 0)"
| "balanced in_str d (c # cs) =
     (if c = CHR 0x22 then balanced (\<not> in_str) d cs
      else if in_str then balanced True d cs
      else if c = CHR ''('' then balanced False (Suc d) cs
      else if c = CHR '')'' then 0 < d \<and> balanced False (d - 1) cs
      else balanced False d cs)"

definition level_ops :: "nat \<Rightarrow> string" where
  "level_ops n = (if n = 0 then [] else if n = 1 then ''|'' else ''|&'')"

definition standalone :: "nat \<Rightarrow> string \<Rightarrow> bool" where
  "standalone n u \<longleftrightarrow> u \<noteq> [] \<and> plain_char (hd u) \<and> plain_char (last u) \<and> hd u \<noteq> CHR ''=''
     \<and> calm (level_ops n) False 0 u \<and> balanced False 0 u \<and> \<not> parens_enclose u"

fun wf_tree :: "bool_tree \<Rightarrow> bool" where
  "wf_tree (Tree_leaf s) = (standalone 2 s \<and> hd s \<noteq> CHR ''!'')"
| "wf_tree (Tree_not t) = wf_tree t"
| "wf_tree (Tree_and ts) = (2 \<le> length ts \<and> list_all wf_tree ts)"
| "wf_tree (Tree_or ts) = (2 \<le> length ts \<and> list_all wf_tree ts)"

section \<open>Scanning calm text\<close>

lemma calm_append:
  "calm ops b d u \<Longrightarrow> calm ops False e v \<Longrightarrow> calm ops b (d + e) (u @ v)"
  by (induction ops b d u rule: calm.induct) (auto split: if_splits)

lemma calm_deeper: "calm ops b d u \<Longrightarrow> calm ops' False e v \<Longrightarrow> 0 < e \<Longrightarrow> calm ops' b (d + e) (u @ v)"
  by (induction ops b d u rule: calm.induct) (auto split: if_splits)

lemma calm_mono: "calm ops b d u \<Longrightarrow> set ops' \<subseteq> set ops \<Longrightarrow> calm ops' b d u"
  by (induction ops b d u rule: calm.induct) (auto split: if_splits)

lemma balanced_append:
  "balanced b d u \<Longrightarrow> balanced False e v \<Longrightarrow> balanced b (d + e) (u @ v)"
  by (induction b d u rule: balanced.induct) (auto split: if_splits)

lemma split_bool_from_calm:
  "calm ops b k u \<Longrightarrow> op \<in> set ops \<or> 0 < d \<Longrightarrow> op \<notin> set ''([)]'' \<Longrightarrow>
     split_bool_from op b (int (k + d)) cur (u @ rest) = split_bool_from op False (int d) (cur @ u) rest"
proof (induction ops b k u arbitrary: cur rule: calm.induct)
  case (2 ops in_str k c cs)
  show ?case
  proof (cases "c = CHR 0x22 \<or> in_str")
    case True
    then show ?thesis using 2 by (auto simp: nest_def)
  next
    case False
    then consider "c \<in> set ''([''" | "c \<in> set '')]''" | "c \<notin> set ''([)]''" by auto
    then show ?thesis
    proof cases
      case 1
      then show ?thesis using 2 False by (auto simp: nest_def algebra_simps)
    next
      case 2
      then have "0 < k" "calm ops False (k - 1) cs" using "2.prems"(1) False by auto
      moreover have "int (k + d) - 1 = int (k - 1 + d)" using \<open>0 < k\<close> by simp
      ultimately show ?thesis using "2.IH"(4) "2.prems" 2 False by (auto simp: nest_def)
    next
      case 3
      then show ?thesis using 2 False by (auto simp: nest_def split: if_splits)
    qed
  qed
qed simp

lemma first_balance_beyond:
  "balanced b d u \<Longrightarrow> 0 < e \<Longrightarrow>
     first_balance b (int (d + e)) (u @ v) = map_option ((+) (length u)) (first_balance False (int e) v)"
proof (induction b d u rule: balanced.induct)
  case (1 b d)
  then show ?case by (simp add: option.map_ident)
next
  case (2 in_str d c cs)
  show ?case
  proof (cases "\<not> in_str \<and> c = CHR '')''")
    case True
    then have "0 < d" "balanced False (d - 1) cs" "int (d + e) - 1 = int (d - 1 + e)" using "2.prems" by auto
    then show ?thesis using "2.IH"(4) "2.prems"(2) True by (simp add: nest_def option.map_comp comp_def)
  next
    case False
    then show ?thesis
      using 2 by (auto simp: nest_def option.map_comp comp_def algebra_simps split: if_splits)
  qed
qed

lemma first_balance_within:
  "balanced b (Suc k) u \<Longrightarrow> \<exists>i<length u. \<forall>v. first_balance b (int (Suc k)) (u @ v) = Some i"
proof (induction u arbitrary: b k)
  case (Cons c cs)
  consider "c = CHR 0x22 \<or> b" | "\<not> b" "c = CHR ''(''" | "\<not> b" "c = CHR '')''" "k = 0"
    | m where "\<not> b" "c = CHR '')''" "k = Suc m" | "\<not> b" "c \<noteq> CHR 0x22" "c \<noteq> CHR ''(''" "c \<noteq> CHR '')''"
    by (cases k) auto
  then show ?case
  proof cases
    case 1
    then have "balanced (if c = CHR 0x22 then \<not> b else b) (Suc k) cs" using Cons.prems by (auto split: if_splits)
    from Cons.IH [OF this] 1 Cons.prems show ?thesis by (auto simp: nest_def split: if_splits intro: exI [of _ "Suc _"])
  next
    case 2
    then have "balanced False (Suc (Suc k)) cs" using Cons.prems by simp
    from Cons.IH [OF this] 2 show ?thesis by (auto simp: nest_def algebra_simps intro: exI [of _ "Suc _"])
  next
    case 3
    then show ?thesis by (auto simp: nest_def intro: exI [of _ 0])
  next
    case 4
    then have "balanced False (Suc m) cs" using Cons.prems by simp
    from Cons.IH [OF this] 4 show ?thesis by (auto simp: nest_def algebra_simps intro: exI [of _ "Suc _"])
  next
    case 5
    then have "balanced False (Suc k) cs" using Cons.prems by simp
    from Cons.IH [OF this] 5 show ?thesis by (auto simp: nest_def intro: exI [of _ "Suc _"])
  qed
qed simp

section \<open>Parsing what was printed\<close>

definition operand :: "nat \<Rightarrow> string \<Rightarrow> bool" where
  "operand n u \<longleftrightarrow> u \<noteq> [] \<and> plain_char (hd u) \<and> plain_char (last u) \<and> hd u \<noteq> CHR ''=''
     \<and> calm (level_ops n) False 0 u \<and> balanced False 0 u"

lemma standalone_iff: "standalone n u \<longleftrightarrow> operand n u \<and> \<not> parens_enclose u"
  by (auto simp: standalone_def operand_def)

lemma operand_mono: "operand n u \<Longrightarrow> m \<le> n \<Longrightarrow> operand m u"
  unfolding operand_def by (auto elim!: calm_mono simp: level_ops_def)

lemma plain_syntax [simp]:
  "plain_char CHR ''(''" "plain_char CHR '')''" "plain_char CHR ''!''" "plain_char CHR 0x22" "plain_char CHR 0x27"
  "plain_char CHR ''[''" "plain_char CHR '']''"
  by (simp_all add: plain_char_def white_space_def)

lemma operand_trim [simp]: "operand n u \<Longrightarrow> trim u = u"
  by (rule trim_plain) (simp_all add: operand_def)

lemma operand_parens: "operand n u \<Longrightarrow> operand m (''('' @ u @ '')'')"
  using calm_deeper [of "level_ops n" False 0 u "level_ops m" "Suc 0" "'')''"]
    balanced_append [of False 0 u "Suc 0" "'')''"]
  by (simp add: operand_def)

lemma operand_wrapped: "operand n u \<Longrightarrow> (b \<or> m \<le> n) \<Longrightarrow> operand m (wrapped b u)"
  using operand_parens [of n u m] operand_mono [of n u m] by (auto simp: wrapped_def)

lemma parens_enclose_parens: "balanced False 0 u \<Longrightarrow> parens_enclose (''('' @ u @ '')'')"
  using first_balance_beyond [of False 0 u "Suc 0" "'')''"] by (simp add: parens_enclose_def nest_def)

lemma parens_enclose_append:
  assumes "balanced False 0 u" "u \<noteq> []" "v \<noteq> []"
  shows "\<not> parens_enclose (u @ v)"
proof (cases "hd u = CHR ''(''")
  case True
  then obtain w where u: "u = CHR ''('' # w" using assms(2) by (cases u) auto
  then have "balanced False (Suc 0) w" using assms(1) by simp
  from first_balance_within [OF this] obtain i where "i < length w" "first_balance False 1 (w @ v) = Some i" by auto
  then show ?thesis using assms(3) by (cases v) (auto simp: parens_enclose_def u nest_def)
qed (use assms in \<open>simp add: parens_enclose_def\<close>)

lemma strip_standalone: "standalone n u \<Longrightarrow> strip_parens u = u"
  by (subst strip_parens.simps) (simp add: standalone_iff)

lemma strip_wrapped: "standalone n u \<Longrightarrow> strip_enclosing_parens (trim (wrapped b u)) = u"
proof (cases b)
  case True
  assume u: "standalone n u"
  then have w: "operand n (''('' @ u @ '')'')" "balanced False 0 u"
    using operand_parens [of n u n] by (simp_all add: standalone_iff operand_def [of n u])
  have "strip_parens (''('' @ u @ '')'') = strip_parens (trim u)"
    using parens_enclose_parens [OF w(2)] by (subst strip_parens.simps) simp
  then show ?thesis
    using True u operand_trim [OF w(1)] operand_trim [of n u] strip_standalone [OF u]
    by (simp add: strip_enclosing_parens_def wrapped_def standalone_iff)
next
  case False
  assume "standalone n u"
  then show ?thesis
    using False strip_standalone [of n u] operand_trim [of n u]
    by (simp add: strip_enclosing_parens_def wrapped_def standalone_iff)
qed

text \<open>The spaces around an operator are trimmed.\<close>

lemma trim_start_space: "trim_start (CHR '' '' # s) = trim_start s"
  unfolding trim_start_def by (subst trim_leading.simps) (simp add: white_space_def)

lemma trim_end_space: "trim_end (s @ '' '') = trim_end s"
  unfolding trim_end_def by (subst trim_leading.simps) (simp add: white_space_def)

lemma trim_start_plain: "s \<noteq> [] \<Longrightarrow> plain_char (hd s) \<Longrightarrow> trim_start s = s"
  unfolding trim_start_def
  by (rule trim_leading_none) (auto simp: prefix_def dest: white_space_ends)

lemma trim_spaced_plain:
  assumes "u \<noteq> []" "plain_char (hd u)" "plain_char (last u)" "pre \<in> {[], '' ''}" "post \<in> {[], '' ''}"
  shows "trim (pre @ u @ post) = u"
proof -
  have "trim_start (pre @ u @ post) = u @ post"
    using assms(1,2,4) trim_start_plain [of "u @ post"] by (auto simp: trim_start_space)
  then have "trim (pre @ u @ post) = trim_end (u @ post)" by (simp add: trim_def)
  also have "\<dots> = trim_end u" using assms(5) by (auto simp: trim_end_space)
  also have "\<dots> = trim u" using trim_start_plain [of u] assms(1,2) by (simp add: trim_def)
  finally show ?thesis using trim_plain [OF assms(1-3)] by simp
qed

lemma trim_spaced:
  "operand n u \<Longrightarrow> pre \<in> {[], '' ''} \<Longrightarrow> post \<in> {[], '' ''} \<Longrightarrow> trim (pre @ u @ post) = u"
  by (rule trim_spaced_plain) (simp_all add: operand_def)

lemma join_Cons: "us \<noteq> [] \<Longrightarrow> join sep (u # us) = u @ sep @ join sep us"
  by (cases us) auto

lemma split_joined:
  assumes "us \<noteq> []" "\<forall>u\<in>set us. operand n u" "op \<in> set (level_ops n)" "pre \<in> {[], '' ''}"
  shows "split_bool_from op False 0 pre (join [CHR '' '', op, op, CHR '' ''] us) = us"
  using assms(1,2,4)
proof (induction us arbitrary: pre)
  case (Cons u us)
  have op: "op \<notin> set ''([)]''" "op \<noteq> CHR 0x22" "op \<noteq> CHR '' ''" using assms(3) by (auto simp: level_ops_def split: if_splits)
  have scan: "split_bool_from op False 0 pre (u @ rest) = split_bool_from op False 0 (pre @ u) rest" for rest
    using split_bool_from_calm [of "level_ops n" False 0 u op 0 pre rest] Cons.prems(2) assms(3) op(1)
    by (simp add: operand_def)
  show ?case
  proof (cases "us = []")
    case True
    then show ?thesis using scan [of "[]"] trim_spaced [of n u pre "[]"] Cons.prems by simp
  next
    case False
    then show ?thesis
      using scan trim_spaced [of n u pre "'' ''"] Cons op
      by (simp add: join_Cons nest_def)
  qed
qed simp

lemma split_calm:
  assumes "operand n u" "op \<in> set (level_ops n)"
  shows "split_bool u op = [u]"
proof -
  have op: "op \<notin> set ''([)]''" using assms(2) by (auto simp: level_ops_def split: if_splits)
  show ?thesis
    using split_bool_from_calm [of "level_ops n" False 0 u op 0 "[]" "[]"] assms op operand_trim [OF assms(1)]
    by (simp add: operand_def split_bool_def)
qed

lemma join_operands:
  assumes "us \<noteq> []" "\<forall>u\<in>set us. operand n u" "set (level_ops m) \<subseteq> set (level_ops n) - {op}"
    "op \<notin> set ''([)]''" "op \<noteq> CHR 0x22" "op \<noteq> CHR '' ''"
  shows "operand m (join [CHR '' '', op, op, CHR '' ''] us)"
  using assms(1,2)
proof (induction us)
  case (Cons u us)
  have m: "CHR '' '' \<notin> set (level_ops m)" by (simp add: level_ops_def)
  have u: "operand m u" using Cons.prems(2) assms(3) by (auto simp: operand_def elim: calm_mono)
  show ?case
  proof (cases "us = []")
    case False
    define tail where "tail = join [CHR '' '', op, op, CHR '' ''] us"
    define rest where "rest = [CHR '' '', op, op, CHR '' ''] @ tail"
    have tail: "operand m tail" using Cons False by (simp add: tail_def)
    moreover have "op \<notin> set (level_ops m)" using assms(3) by auto
    ultimately have "calm (level_ops m) False 0 rest" "balanced False 0 rest"
      using assms(4-6) m by (simp_all add: operand_def rest_def)
    then have "calm (level_ops m) False 0 (u @ rest)" "balanced False 0 (u @ rest)"
      using u calm_append [of "level_ops m" False 0 u 0 rest] balanced_append [of False 0 u 0 rest]
      by (simp_all add: operand_def)
    moreover have "last (u @ rest) = last tail" using tail by (simp add: rest_def operand_def)
    moreover have "join [CHR '' '', op, op, CHR '' ''] (u # us) = u @ rest"
      using False by (simp add: join_Cons rest_def tail_def)
    ultimately show ?thesis using u tail by (simp add: operand_def)
  qed (use u in simp)
qed simp

lemma join_not_enclosed:
  assumes "2 \<le> length us" "\<forall>u\<in>set us. operand n u" "sep \<noteq> []"
  shows "\<not> parens_enclose (join sep us)"
proof -
  obtain u v us' where "us = u # v # us'" using assms(1) by (cases us rule: list.exhaust; cases "tl us") auto
  then obtain us' where us: "us = u # us'" "us' \<noteq> []" by blast
  then show ?thesis
    using parens_enclose_append [of u "sep @ join sep us'"] assms(2,3) by (simp add: join_Cons operand_def)
qed

lemma show_tree_standalone: "wf_tree t \<Longrightarrow> standalone (tree_level t) (show_tree t)"
proof (induction t)
  case (Tree_not t)
  then have "operand 2 (wrapped (tree_level t < 2) (show_tree t))"
    by (intro operand_wrapped [of "tree_level t"]) (auto simp: standalone_iff)
  then show ?case by (simp add: standalone_iff operand_def parens_enclose_def level_ops_def)
next
  case (Tree_and ts)
  let ?us = "map (\<lambda>t. wrapped (tree_level t < 2) (show_tree t)) ts"
  have us: "\<forall>u\<in>set ?us. operand 2 u"
    using Tree_and by (auto simp: list_all_iff standalone_iff not_less intro!: operand_wrapped)
  have "operand 1 (join '' && '' ?us)" using Tree_and.prems by (intro join_operands [OF _ us]) (cases ts; auto simp: level_ops_def)+
  then show ?case using join_not_enclosed [OF _ us, of "'' && ''"] Tree_and.prems by (simp add: standalone_iff)
next
  case (Tree_or ts)
  let ?us = "map (\<lambda>t. wrapped (tree_level t < 1) (show_tree t)) ts"
  have us: "\<forall>u\<in>set ?us. operand 1 u"
    using Tree_or by (auto simp: list_all_iff standalone_iff not_less intro!: operand_wrapped)
  have "operand 0 (join '' || '' ?us)" using Tree_or.prems by (intro join_operands [OF _ us]) (cases ts; auto simp: level_ops_def)+
  then show ?case using join_not_enclosed [OF _ us, of "'' || ''"] Tree_or.prems by (simp add: standalone_iff)
qed simp

lemma parse_wrapped:
  assumes "wf_tree t" "parse_bool_tree (show_tree t) = t"
  shows "parse_bool_tree (wrapped b (show_tree t)) = t"
proof -
  have strip: "strip_enclosing_parens (trim (wrapped c (show_tree t))) = show_tree t" for c
    by (rule strip_wrapped [OF show_tree_standalone [OF assms(1)]])
  show ?thesis
    using assms(2) strip [of b] strip [of False]
    by (subst parse_bool_tree.simps, subst (asm) parse_bool_tree.simps) (simp add: wrapped_def)
qed

lemma parse_leaf:
  assumes "standalone 2 s" "hd s \<noteq> CHR ''!''"
  shows "parse_bool_tree s = Tree_leaf s"
proof -
  have s: "operand 2 s" using assms(1) by (simp add: standalone_iff)
  have "strip_enclosing_parens (trim s) = s" using strip_wrapped [OF assms(1), of False] by (simp add: wrapped_def)
  moreover have "split_bool s CHR ''|'' = [s]" "split_bool s CHR ''&'' = [s]"
    by (rule split_calm [OF s], simp add: level_ops_def)+
  ultimately show ?thesis using assms(2) by (subst parse_bool_tree.simps) simp
qed

lemma calm_plain: "\<forall>c\<in>set s. c \<notin> set ''([)]'' \<union> set ops \<and> c \<noteq> CHR 0x22 \<Longrightarrow> calm ops False 0 s"
  by (induction s) auto

lemma balanced_plain: "\<forall>c\<in>set s. c \<noteq> CHR ''('' \<and> c \<noteq> CHR '')'' \<and> c \<noteq> CHR 0x22 \<Longrightarrow> balanced False 0 s"
  by (induction s) auto

lemma calm_brackets: "calm ops False 0 u \<Longrightarrow> calm ops' False 0 (CHR ''['' # u @ '']'')"
  using calm_deeper [of ops False 0 u ops' "Suc 0" "'']''"] by simp

lemma parse_printed_tree:
  assumes "wf_tree t"
  shows "parse_bool_tree (show_tree t) = t"
  using assms
proof (induction t)
  case (Tree_leaf s)
  then show ?case by (simp add: parse_leaf)
next
  case (Tree_not t)
  let ?u = "wrapped (tree_level t < 2) (show_tree t)"
  have whole: "standalone 2 (show_tree (Tree_not t))" "operand 2 (show_tree (Tree_not t))"
    using show_tree_standalone [OF Tree_not.prems] by (simp_all add: standalone_iff)
  have u: "operand 2 ?u"
    using show_tree_standalone Tree_not.prems
    by (intro operand_wrapped [of "tree_level t"]) (auto simp: standalone_iff)
  have "strip_enclosing_parens (trim (show_tree (Tree_not t))) = show_tree (Tree_not t)"
    using strip_wrapped [OF whole(1), of False] by (simp add: wrapped_def)
  moreover have "split_bool (show_tree (Tree_not t)) op = [show_tree (Tree_not t)]" if "op \<in> set ''|&''" for op
    using split_calm [OF whole(2)] that by (simp add: level_ops_def)
  moreover have "\<not> prefix ''='' (trim_start ?u)" using u trim_start_plain [of ?u] by (auto simp: operand_def prefix_def)
  ultimately show ?case
    using parse_wrapped [of t] Tree_not by (subst parse_bool_tree.simps) simp
next
  case (Tree_and ts)
  let ?us = "map (\<lambda>t. wrapped (tree_level t < 2) (show_tree t)) ts"
  have whole: "standalone 1 (show_tree (Tree_and ts))" "operand 1 (show_tree (Tree_and ts))"
    using show_tree_standalone [OF Tree_and.prems] by (simp_all add: standalone_iff)
  have us: "\<forall>u\<in>set ?us. operand 2 u"
    using Tree_and.prems show_tree_standalone by (auto simp: list_all_iff standalone_iff not_less intro!: operand_wrapped)
  have "split_bool (show_tree (Tree_and ts)) CHR ''&'' = ?us"
    using split_joined [OF _ us, of "CHR ''&''" "[]"] Tree_and.prems by (cases ts) (auto simp: split_bool_def level_ops_def)
  moreover have "split_bool (show_tree (Tree_and ts)) CHR ''|'' = [show_tree (Tree_and ts)]"
    by (rule split_calm [OF whole(2)]) (simp add: level_ops_def)
  moreover have "strip_enclosing_parens (trim (show_tree (Tree_and ts))) = show_tree (Tree_and ts)"
    using strip_wrapped [OF whole(1), of False] by (simp add: wrapped_def)
  moreover have "map parse_bool_tree ?us = ts"
    using Tree_and by (auto simp: list_all_iff parse_wrapped map_idI)
  ultimately show ?case using Tree_and.prems by (subst parse_bool_tree.simps) simp
next
  case (Tree_or ts)
  let ?us = "map (\<lambda>t. wrapped (tree_level t < 1) (show_tree t)) ts"
  have whole: "standalone 0 (show_tree (Tree_or ts))"
    using show_tree_standalone [OF Tree_or.prems] by simp
  have us: "\<forall>u\<in>set ?us. operand 1 u"
    using Tree_or.prems show_tree_standalone by (auto simp: list_all_iff standalone_iff not_less intro!: operand_wrapped)
  have "split_bool (show_tree (Tree_or ts)) CHR ''|'' = ?us"
    using split_joined [OF _ us, of "CHR ''|''" "[]"] Tree_or.prems by (cases ts) (auto simp: split_bool_def level_ops_def)
  moreover have "strip_enclosing_parens (trim (show_tree (Tree_or ts))) = show_tree (Tree_or ts)"
    using strip_wrapped [OF whole, of False] by (simp add: wrapped_def)
  moreover have "map parse_bool_tree ?us = ts"
    using Tree_or by (auto simp: list_all_iff parse_wrapped map_idI)
  ultimately show ?case using Tree_or.prems by (subst parse_bool_tree.simps) simp
qed

text \<open>
  C8: a boolean expression printed with only the parentheses it needs - around an alternative under a
  conjunction or negation, and around a conjunction under a negation - is parsed back to the same tree: \<open>!\<close>
  binds tighter than \<open>&&\<close>, which binds tighter than \<open>||\<close>, and the leaves are taken verbatim.
\<close>

theorem bool_tree_round_trip:
  assumes "wf_tree t"
  shows "parse_bool_tree (show_tree t) = t"
  using assms by (rule parse_printed_tree)

theorem bool_tree_round_trip_witness:
  "parse_bool_tree ''!(a == 1 || b) && c[0] > 2'' =
     Tree_and [Tree_not (Tree_or [Tree_leaf ''a == 1'', Tree_leaf ''b'']), Tree_leaf ''c[0] > 2'']"
  using bool_tree_round_trip [of "Tree_and [Tree_not (Tree_or [Tree_leaf ''a == 1'', Tree_leaf ''b'']),
      Tree_leaf ''c[0] > 2'']"]
  by (simp add: standalone_def plain_char_def white_space_def level_ops_def parens_enclose_def wrapped_def)

end
