(* ===== verification/ExprPrint.thy ===== *)
theory ExprPrint
  imports BoolExpr
begin

text \<open>
  Printing expressions and parsing them back: the scanners of \<open>ExprSyntax\<close> on text whose brackets match
  (\<open>settled\<close>), a printer for syntax trees, and the proof that the parser inverts it.
\<close>

section \<open>Text with matched brackets\<close>

fun settled_from :: "string \<Rightarrow> string \<Rightarrow> string \<Rightarrow> quoted \<Rightarrow> nat \<Rightarrow> string \<Rightarrow> bool" where
  "settled_from opening closing stops q d [] = (q = unquoted \<and> d = 0)"
| "settled_from opening closing stops q d (c # cs) =
     (let q' = q_step q c
      in if inside q then settled_from opening closing stops q' d cs
         else if c \<in> set opening then settled_from opening closing stops q' (Suc d) cs
         else if c \<in> set closing then 0 < d \<and> settled_from opening closing stops q' (d - 1) cs
         else (0 < d \<or> c \<notin> set stops) \<and> settled_from opening closing stops q' d cs)"

abbreviation settled :: "string \<Rightarrow> string \<Rightarrow> string \<Rightarrow> string \<Rightarrow> bool" where
  "settled opening closing stops \<equiv> settled_from opening closing stops unquoted 0"

lemma not_inside_unquoted [simp]: "\<not> inside unquoted"
  by (simp add: inside_def unquoted_def)

lemma q_step_syntax: "c \<noteq> CHR 0x22 \<Longrightarrow> c \<noteq> CHR 0x27 \<Longrightarrow> q_step unquoted c = unquoted"
  by (simp add: q_step_def unquoted_def inside_def)

lemma settled_append:
  "settled_from opn c f q d u \<Longrightarrow> settled_from opn c f' unquoted e v \<Longrightarrow> set f' \<subseteq> set f \<or> 0 < e
     \<Longrightarrow> settled_from opn c f' q (d + e) (u @ v)"
  by (induction opn c f q d u rule: settled_from.induct) (auto simp: Let_def split: if_splits)

lemma settled_stops: "settled_from opn c f q d u \<Longrightarrow> set f' \<subseteq> set f \<Longrightarrow> settled_from opn c f' q d u"
  by (induction opn c f q d u rule: settled_from.induct) (auto simp: Let_def split: if_splits)

lemma settled_wrap:
  assumes "settled opn c f u" "a \<in> set opn" "b \<in> set c" "b \<notin> set opn" "a \<noteq> CHR 0x22" "a \<noteq> CHR 0x27" "b \<noteq> CHR 0x22" "b \<noteq> CHR 0x27"
  shows "settled opn c f' (a # u @ [b])"
proof -
  have "settled_from opn c f' unquoted (Suc 0) [b]" using assms(3-) q_step_syntax [of b] by simp
  then have "settled_from opn c f' unquoted (Suc 0) (u @ [b])"
    using settled_append [OF assms(1), of f' "Suc 0" "[b]"] by simp
  then show ?thesis using assms(2,5,6) q_step_syntax [of a] by simp
qed

lemma settled_plain:
  "\<forall>c\<in>set s. c \<notin> set opn \<union> set cl \<union> set f \<and> c \<noteq> CHR 0x22 \<and> c \<noteq> CHR 0x27 \<Longrightarrow> settled opn cl f s"
  by (induction s) (auto simp: q_step_syntax)

lemma split_at_depth_settled:
  "settled_from opn c f q k u \<Longrightarrow> sep \<in> set f \<or> 0 < d \<Longrightarrow> sep \<notin> set opn \<union> set c \<Longrightarrow> set opn \<inter> set c = {} \<Longrightarrow>
     split_at_depth opn c sep q (int (k + d)) cur (u @ rest) = split_at_depth opn c sep unquoted (int d) (cur @ u) rest"
proof (induction opn c f q k u arbitrary: cur rule: settled_from.induct)
  case (2 opn c f q k x xs)
  show ?case
  proof (cases "inside q")
    case True
    then show ?thesis using 2 by (simp add: nest_def)
  next
    case False
    consider "x \<in> set opn" | "x \<in> set c" "x \<notin> set opn" | "x \<notin> set opn \<union> set c" by auto
    then show ?thesis
    proof cases
      case 1
      then show ?thesis using 2 False by (auto simp: nest_def algebra_simps Let_def)
    next
      case 2
      then have k: "0 < k" "settled_from opn c f (q_step q x) (k - 1) xs" using "2.prems"(1) False by auto
      moreover have "int (k + d) - 1 = int (k - 1 + d)" using k(1) by simp
      moreover have "x \<noteq> sep" using 2 "2.prems"(3) by auto
      ultimately show ?thesis using "2.IH"(3) [OF refl False] 2 "2.prems" False by (simp add: nest_def)
    next
      case 3
      then show ?thesis using 2 False by (auto simp: nest_def Let_def split: if_splits)
    qed
  qed
qed simp

lemma head_length_settled:
  "settled_from ''('' '')'' f q k u \<Longrightarrow> CHR ''['' \<in> set f \<or> 0 < d \<Longrightarrow>
     head_length q (int (k + d)) (u @ rest) = length u + head_length unquoted (int d) rest"
proof (induction "''(''" "'')''" f q k u rule: settled_from.induct)
  case (2 f q k x xs)
  show ?case
  proof (cases "\<not> inside q \<and> x = CHR '')''")
    case True
    then have k: "0 < k" "settled_from ''('' '')'' f (q_step q x) (k - 1) xs" using "2.prems"(1) by auto
    moreover have "int (k + d) - 1 = int (k - 1 + d)" using k(1) by simp
    ultimately show ?thesis using "2.hyps"(3) "2.prems" True by (simp add: nest_def)
  next
    case False
    then show ?thesis using 2 by (auto simp: nest_def Let_def algebra_simps split: if_splits)
  qed
qed simp

lemma Suc_plus_abs: "(\<lambda>i. Suc (n + i)) = (+) (Suc n)" "(\<lambda>i. Suc (i + n)) = (+) (Suc n)"
  by (rule ext, simp)+

lemma close_bracket_settled:
  "settled_from ''['' '']'' f q k u \<Longrightarrow> 0 < d \<Longrightarrow>
     close_bracket q (int (k + d)) (u @ rest) = map_option ((+) (length u)) (close_bracket unquoted (int d) rest)"
proof (induction "''[''" "'']''" f q k u rule: settled_from.induct)
  case (1 f q k)
  then show ?case by (cases "close_bracket unquoted (int d) rest") simp_all
next
  case (2 f q k x xs)
  show ?case
  proof (cases "\<not> inside q \<and> x = CHR '']''")
    case True
    then have k: "0 < k" "settled_from ''['' '']'' f (q_step q x) (k - 1) xs" using "2.prems"(1) by auto
    moreover have "int (k + d) - 1 = int (k - 1 + d)" using k(1) by simp
    ultimately show ?thesis using "2.hyps"(3) "2.prems" True by (simp add: nest_def option.map_comp comp_def Suc_plus_abs)
  next
    case False
    then show ?thesis
      using 2 by (auto simp: nest_def Let_def algebra_simps option.map_comp comp_def Suc_plus_abs split: if_splits)
  qed
qed

section \<open>Printing\<close>

definition quote_text :: "string \<Rightarrow> string" where "quote_text s = [CHR 0x22] @ s @ [CHR 0x22]"

fun show_lit :: "arg_lit \<Rightarrow> string" where
  "show_lit (Lit_int n) = show_int (sint n)"
| "show_lit (Lit_long n) = show_int (sint n) @ ''L''"
| "show_lit (Lit_bool b) = (if b then ''true'' else ''false'')"
| "show_lit Lit_null = ''null''"
| "show_lit (Lit_char u) = tick ([CHR 0x5C] @ ''u'' @ pad_left 4 (CHR ''0'') (show_hex (unat u)))"
| "show_lit (Lit_str s) = quote_text s"
| "show_lit (Lit_expr e) = e"
| "show_lit (Lit_float _) = []"
| "show_lit (Lit_double _) = []"

fun show_sub :: "subscript \<Rightarrow> string" where
  "show_sub (Sub_index l) = show_lit l"
| "show_sub (Sub_range a b) = show_int (sint a) @ ''..'' @ show_int (sint b)"
| "show_sub (Sub_filter p) = ''?'' @ p"

definition show_head :: "seg \<Rightarrow> string" where
  "show_head sg = seg_name sg @ (case seg_args sg of None \<Rightarrow> [] | Some args \<Rightarrow> ''('' @ join '','' (map show_lit args) @ '')'')"

definition show_subs :: "subscript list \<Rightarrow> string" where
  "show_subs subs = concat (map (\<lambda>s. ''['' @ show_sub s @ '']'') subs)"

definition show_seg :: "seg \<Rightarrow> string" where "show_seg sg = show_head sg @ show_subs (seg_subs sg)"

definition show_segs :: "seg list \<Rightarrow> string" where "show_segs segs = join ''.'' (map show_seg segs)"

definition neutral :: "string \<Rightarrow> bool" where
  "neutral u = (settled ''(['' '')]'' [] u \<and> settled ''('' '')'' '','' u \<and> settled ''['' '']'' [] u)"

definition word_like :: "string \<Rightarrow> bool" where
  "word_like u = (u \<noteq> [] \<and> plain_char (hd u) \<and> plain_char (last u))"

text \<open>
  What can be printed so that it is read back: names are identifiers or object handles, strings carry neither
  quotes nor backslashes, an index carries no two dots in a row, and a bare \<open>null\<close>, \<open>true\<close> or \<open>false\<close> is the
  literal and not a variable.
\<close>

inductive wf_lit :: "arg_lit \<Rightarrow> bool" and wf_sub :: "subscript \<Rightarrow> bool" and wf_seg :: "seg \<Rightarrow> bool" where
  wf_int: "wf_lit (Lit_int n)"
| wf_long: "wf_lit (Lit_long m)"
| wf_bool: "wf_lit (Lit_bool b)"
| wf_null: "wf_lit Lit_null"
| wf_char: "wf_lit (Lit_char u)"
| wf_str: "set s \<inter> {CHR 0x22, CHR 0x5C} = {} \<Longrightarrow> wf_lit (Lit_str s)"
| wf_arg: "segs \<noteq> [] \<Longrightarrow> (\<And>sg. sg \<in> set segs \<Longrightarrow> wf_seg sg)
     \<Longrightarrow> show_segs segs \<notin> {''null'', ''true'', ''false''} \<Longrightarrow> wf_lit (Lit_expr (show_segs segs))"
| wf_index: "wf_lit l \<Longrightarrow> split_once_text ''..'' [] (show_lit l) = None \<Longrightarrow> wf_sub (Sub_index l)"
| wf_range: "sint x \<le> sint y \<Longrightarrow> wf_sub (Sub_range x y)"
| wf_filter: "word_like p \<Longrightarrow> neutral p \<Longrightarrow> wf_sub (Sub_filter p)"
| wf_call: "is_ident name \<Longrightarrow> (\<And>l. l \<in> set args \<Longrightarrow> wf_lit l) \<Longrightarrow> (\<And>sb. sb \<in> set subs \<Longrightarrow> wf_sub sb)
     \<Longrightarrow> wf_seg \<lparr>seg_name = name, seg_args = Some args, seg_subs = subs\<rparr>"
| wf_field: "is_ident name \<or> parse_object_handle name \<noteq> None \<Longrightarrow> (\<And>sb. sb \<in> set subs \<Longrightarrow> wf_sub sb)
     \<Longrightarrow> wf_seg \<lparr>seg_name = name, seg_args = None, seg_subs = subs\<rparr>"

section \<open>The printed text is neutral\<close>

lemma neutral_append: "neutral u \<Longrightarrow> neutral v \<Longrightarrow> neutral (u @ v)"
  unfolding neutral_def by (auto dest: settled_append [where d = 0 and e = 0, simplified])

definition bland :: "char \<Rightarrow> bool" where
  "bland c = (c \<notin> set ''([)],'' \<and> c \<noteq> CHR 0x22 \<and> c \<noteq> CHR 0x27)"

lemma neutral_bland: "list_all bland u \<Longrightarrow> neutral u"
  unfolding neutral_def by (intro conjI settled_plain) (simp_all add: list_all_iff bland_def)

lemma settled_bland: "list_all bland u \<Longrightarrow> CHR ''.'' \<notin> set u \<Longrightarrow> settled ''(['' '')]'' ''.'' u"
  by (rule settled_plain) (auto simp: list_all_iff bland_def)

lemma bland_digits [simp]: "list_all bland (show_nat n)"
proof (induction n rule: show_nat.induct)
  case (1 n)
  have "bland (digit_char k)" if "k < 10" for k using that by (auto dest!: digit_cases simp: digit_char_def bland_def)
  then show ?case using 1 by (subst show_nat.simps) (auto simp: Let_def)
qed

lemma bland_int [simp]: "list_all bland (show_int i)"
  by (simp add: show_int_def bland_def)

lemma ident_bland: "ident_char c \<Longrightarrow> bland c \<and> c \<noteq> CHR ''.'' \<and> plain_char c"
  unfolding ident_char_def ident_start_def is_alpha_def is_digit_def
  by (auto simp: bland_def plain_char_def white_space_def)

lemma hex_bland: "hex_value c \<noteq> None \<Longrightarrow> bland c \<and> c \<noteq> CHR ''.'' \<and> plain_char c"
proof -
  assume "hex_value c \<noteq> None"
  then have "c \<in> set ''0123456789abcdefABCDEF''"
    unfolding hex_value_def by (auto split: if_splits)
  then show ?thesis by (auto simp: bland_def plain_char_def white_space_def)
qed

lemma name_bland:
  assumes "is_ident name \<or> parse_object_handle name \<noteq> None"
  shows "list_all bland name" "CHR ''.'' \<notin> set name" "word_like name" "CHR ''('' \<notin> set name"
    "name \<noteq> [] \<and> (ident_start (hd name) \<or> hd name = CHR ''@'')"
proof -
  have *: "list_all (\<lambda>c. bland c \<and> c \<noteq> CHR ''.'' \<and> plain_char c) name
      \<and> name \<noteq> [] \<and> (ident_start (hd name) \<or> hd name = CHR ''@'')"
    using assms
  proof
    assume "is_ident name"
    then show ?thesis using ident_bland by (auto simp: is_ident_def list_all_iff)
  next
    assume h: "parse_object_handle name \<noteq> None"
    then obtain x rest where name: "name = CHR ''@'' # CHR ''0'' # x # rest" "x = CHR ''x'' \<or> x = CHR ''X''"
      by (auto simp: parse_object_handle_def Let_def prefix_def split: if_splits)
    then have "list_all (\<lambda>c. hex_value c \<noteq> None) rest"
      using h by (auto simp: parse_object_handle_def Let_def split: if_splits)
    then have "list_all (\<lambda>c. bland c \<and> c \<noteq> CHR ''.'' \<and> plain_char c) rest"
      using hex_bland by (simp add: list_all_iff)
    then show ?thesis using name(2) by (auto simp: name(1) bland_def plain_char_def white_space_def)
  qed
  then show "list_all bland name" "CHR ''.'' \<notin> set name" "CHR ''('' \<notin> set name"
    "name \<noteq> [] \<and> (ident_start (hd name) \<or> hd name = CHR ''@'')"
    by (auto simp: list_all_iff bland_def)
  show "word_like name" using * by (auto simp: word_like_def list_all_iff)
qed

definition inner :: "string \<Rightarrow> bool" where
  "inner u = (settled ''(['' '')]'' [] u \<and> settled ''('' '')'' [] u \<and> settled ''['' '']'' [] u)"

lemma neutral_inner: "neutral u \<Longrightarrow> inner u"
  by (auto simp: neutral_def inner_def elim: settled_stops)

lemma inner_append: "inner u \<Longrightarrow> inner v \<Longrightarrow> inner (u @ v)"
  unfolding inner_def by (auto dest: settled_append [where d = 0 and e = 0, simplified])

lemma settled_one: "x \<notin> set opn \<union> set c \<union> set f \<Longrightarrow> x \<noteq> CHR 0x22 \<Longrightarrow> x \<noteq> CHR 0x27 \<Longrightarrow> settled opn c f [x]"
  by (simp add: q_step_syntax)

lemma settled_between:
  assumes "settled opn c f u" "\<And>x. x \<in> {a, b} \<Longrightarrow> x \<notin> set opn \<union> set c \<union> set f \<and> x \<noteq> CHR 0x22 \<and> x \<noteq> CHR 0x27"
  shows "settled opn c f (a # u @ [b])"
  using settled_append [OF settled_append [OF settled_one [of a opn c f] assms(1)] settled_one [of b opn c f]] assms(2)
  by simp

lemma neutral_parens: "inner u \<Longrightarrow> neutral (CHR ''('' # u @ '')'')"
  unfolding neutral_def inner_def by (intro conjI settled_wrap settled_between) auto

lemma neutral_brackets: "neutral u \<Longrightarrow> neutral (CHR ''['' # u @ '']'')"
  unfolding neutral_def by (intro conjI settled_wrap settled_between) auto

lemma inner_join: "\<forall>u\<in>set us. neutral u \<Longrightarrow> inner (join '','' us)"
proof (induction us)
  case (Cons u us)
  have comma: "inner '',''" by (simp add: inner_def q_step_syntax)
  have u: "inner u" using Cons.prems neutral_inner by simp
  then show ?case
    using inner_append [OF u inner_append [OF comma, of "join '','' us"]] Cons by (cases "us = []") (simp_all add: join_Cons)
qed (simp add: inner_def)

lemma neutral_join: "\<forall>u\<in>set us. neutral u \<Longrightarrow> neutral (join ''.'' us)"
proof (induction us)
  case (Cons u us)
  have dot: "neutral ''.''" by (rule neutral_bland) (simp add: bland_def)
  show ?case
    using neutral_append [of u, OF _ neutral_append [OF dot, of "join ''.'' us"]] Cons
    by (cases "us = []") (simp_all add: join_Cons)
qed (simp add: neutral_def)

lemma word_like_append: "word_like u \<Longrightarrow> word_like v \<Longrightarrow> word_like (u @ v)"
  by (simp add: word_like_def)

lemma word_like_join: "us \<noteq> [] \<Longrightarrow> \<forall>u\<in>set us. word_like u \<Longrightarrow> word_like (join sep us)"
proof (induction us)
  case (Cons u us)
  then show ?case by (cases "us = []") (auto simp: join_Cons word_like_def)
qed simp

lemma word_like_plain: "s \<noteq> [] \<Longrightarrow> list_all plain_char s \<Longrightarrow> word_like s"
  by (auto simp: word_like_def list_all_iff)

lemma plain_digits [simp]: "list_all plain_char (show_nat n)"
proof (induction n rule: show_nat.induct)
  case (1 n)
  have "plain_char (digit_char k)" if "k < 10" for k
    using that by (auto dest!: digit_cases simp: digit_char_def plain_char_def white_space_def)
  then show ?case using 1 by (subst show_nat.simps) (auto simp: Let_def)
qed

lemma word_like_int [simp]: "word_like (show_int i)"
  by (rule word_like_plain) (simp_all add: show_int_def plain_char_def white_space_def)

lemma digit_char_hex: "hex_value (digit_char n) \<noteq> None"
proof -
  have "\<forall>k\<in>set [0..<16]. hex_value (''0123456789abcdef'' ! k) \<noteq> None" by (simp add: upt_rec hex_value_def)
  then show ?thesis by (simp add: digit_char_def)
qed

lemma show_hex_digits: "list_all (\<lambda>c. hex_value c \<noteq> None) (show_hex n)"
proof (induction n rule: show_hex.induct)
  case (1 n)
  then show ?case using digit_char_hex by (subst show_hex.simps) (auto simp: Let_def)
qed

lemma q_step_literal:
  "c \<noteq> CHR 0x22 \<Longrightarrow> c \<noteq> CHR 0x5C \<Longrightarrow> q_step (unquoted\<lparr>q_str := True\<rparr>) c = unquoted\<lparr>q_str := True\<rparr>"
  "c \<noteq> CHR 0x27 \<Longrightarrow> c \<noteq> CHR 0x5C \<Longrightarrow> q_step (unquoted\<lparr>q_char := True\<rparr>) c = unquoted\<lparr>q_char := True\<rparr>"
  by (simp_all add: q_step_def unquoted_def inside_def)

lemma settled_string:
  assumes "set s \<inter> {CHR 0x22, CHR 0x5C} = {}" "CHR 0x22 \<notin> set opn \<union> set c \<union> set f"
  shows "settled opn c f (quote_text s)"
proof -
  have close: "q_step (unquoted\<lparr>q_str := True\<rparr>) (CHR 0x22) = unquoted" "inside (unquoted\<lparr>q_str := True\<rparr>)"
    by (simp_all add: q_step_def unquoted_def inside_def)
  have "settled_from opn c f (unquoted\<lparr>q_str := True\<rparr>) 0 (s @ [CHR 0x22])"
    using assms(1) by (induction s) (auto simp: q_step_literal close)
  moreover have "q_step unquoted (CHR 0x22) = unquoted\<lparr>q_str := True\<rparr>"
    by (simp add: q_step_def unquoted_def inside_def)
  ultimately show ?thesis using assms(2) by (simp add: quote_text_def)
qed

lemma settled_char:
  assumes "set s \<inter> {CHR 0x27, CHR 0x5C} = {}" "CHR 0x27 \<notin> set opn \<union> set c \<union> set f"
  shows "settled opn c f (tick ([CHR 0x5C, CHR ''u''] @ s))"
proof -
  let ?in = "unquoted\<lparr>q_char := True\<rparr>"
  have close: "q_step ?in (CHR 0x27) = unquoted" "inside ?in"
    by (simp_all add: q_step_def unquoted_def inside_def)
  have "settled_from opn c f ?in 0 (s @ [CHR 0x27])"
    using assms(1) by (induction s) (auto simp: q_step_literal close)
  moreover have "q_step unquoted (CHR 0x27) = ?in" "q_step (q_step ?in (CHR 0x5C)) (CHR ''u'') = ?in"
    "inside (q_step ?in (CHR 0x5C))"
    by (simp_all add: q_step_def unquoted_def inside_def)
  ultimately show ?thesis using assms(2) close(2) by (simp add: tick_def)
qed

lemma show_head_text:
  assumes "list_all bland name" "CHR ''.'' \<notin> set name" "word_like name" "\<forall>l\<in>set ls. neutral (show_lit l)"
  shows "neutral (name @ ''('' @ join '','' (map show_lit ls) @ '')'')"
    "settled ''(['' '')]'' ''.'' (name @ ''('' @ join '','' (map show_lit ls) @ '')'')"
    "settled ''('' '')'' ''['' (name @ ''('' @ join '','' (map show_lit ls) @ '')'')"
proof -
  have args: "inner (join '','' (map show_lit ls))" using assms(4) by (intro inner_join) auto
  show "neutral (name @ ''('' @ join '','' (map show_lit ls) @ '')'')"
    using neutral_append [OF neutral_bland [OF assms(1)] neutral_parens [OF args]] by simp
  have "settled ''(['' '')]'' ''.'' (CHR ''('' # join '','' (map show_lit ls) @ '')'')"
    using args by (intro settled_wrap) (auto simp: inner_def)
  from settled_append [OF settled_bland [OF assms(1,2)] this]
  show "settled ''(['' '')]'' ''.'' (name @ ''('' @ join '','' (map show_lit ls) @ '')'')" by simp
  have name: "settled ''('' '')'' ''['' name"
    by (rule settled_plain) (use assms(1) in \<open>auto simp: list_all_iff bland_def\<close>)
  have "settled ''('' '')'' ''['' (CHR ''('' # join '','' (map show_lit ls) @ '')'')"
    using args by (intro settled_wrap) (auto simp: inner_def)
  from settled_append [OF name this]
  show "settled ''('' '')'' ''['' (name @ ''('' @ join '','' (map show_lit ls) @ '')'')" by simp
qed

lemma show_subs_text:
  assumes "\<forall>s\<in>set subs. neutral (show_sub s)"
  shows "neutral (show_subs subs)" "settled ''(['' '')]'' ''.'' (show_subs subs)"
  using assms
proof (induction subs)
  case (Cons s subs)
  {
    case 1
    then show ?case using neutral_append [OF neutral_brackets Cons(1)] by (simp add: show_subs_def)
  next
    case 2
    then have "settled ''(['' '')]'' ''.'' (CHR ''['' # show_sub s @ '']'')"
      by (intro settled_wrap) (auto simp: neutral_def)
    from settled_append [OF this Cons(2)] 2 show ?case by (simp add: show_subs_def)
  }
qed (simp_all add: show_subs_def neutral_def)

lemma show_subs_last: "word_like u \<Longrightarrow> word_like (u @ show_subs subs)"
  by (induction subs rule: rev_induct) (auto simp: show_subs_def word_like_def)

lemma printed_text:
  "wf_lit l \<Longrightarrow> neutral (show_lit l) \<and> word_like (show_lit l)"
  "wf_sub sb \<Longrightarrow> neutral (show_sub sb) \<and> word_like (show_sub sb)"
  "wf_seg sg \<Longrightarrow> neutral (show_seg sg) \<and> settled ''(['' '')]'' ''.'' (show_seg sg) \<and> word_like (show_seg sg)"
proof (induction rule: wf_lit_wf_sub_wf_seg.inducts)
  case (wf_int n)
  then show ?case by (simp add: neutral_bland)
next
  case (wf_long n)
  have "neutral ''L''" "word_like ''L''" by (simp_all add: neutral_bland bland_def word_like_def plain_char_def white_space_def)
  then show ?case by (simp add: neutral_append neutral_bland word_like_append)
next
  case (wf_bool b)
  then show ?case by (cases b) (simp_all add: neutral_bland bland_def word_like_def plain_char_def white_space_def)
next
  case wf_null
  then show ?case by (simp add: neutral_bland bland_def word_like_def plain_char_def white_space_def)
next
  case (wf_char u)
  let ?s = "pad_left 4 (CHR ''0'') (show_hex (unat u))"
  have "hex_value CHR ''0'' \<noteq> None" "hex_value CHR 0x27 = None" "hex_value CHR 0x5C = None"
    by (simp_all add: hex_value_def)
  then have *: "set ?s \<inter> {CHR 0x27, CHR 0x5C} = {}"
    using show_hex_digits [of "unat u"] by (auto simp: list_all_iff pad_left_def)
  have "neutral (tick ([CHR 0x5C, CHR ''u''] @ ?s))"
    unfolding neutral_def by (intro conjI settled_char [OF *]) simp_all
  then show ?case by (simp add: tick_def word_like_def)
next
  case (wf_str s)
  have "neutral (quote_text s)" unfolding neutral_def by (intro conjI settled_string [OF wf_str]) simp_all
  then show ?case by (simp add: quote_text_def word_like_def)
next
  case (wf_arg segs)
  then show ?case by (auto simp: show_segs_def intro!: neutral_join word_like_join)
next
  case (wf_range x y)
  have "neutral ''..''" by (rule neutral_bland) (simp add: bland_def)
  from neutral_append [OF neutral_bland [OF bland_int] neutral_append [OF this neutral_bland [OF bland_int]]]
    word_like_int [of "sint x"] word_like_int [of "sint y"]
  show ?case by (simp add: word_like_def)
next
  case (wf_filter p)
  have "neutral ''?''" "plain_char CHR ''?''" by (simp_all add: neutral_bland bland_def plain_char_def white_space_def)
  then show ?case using wf_filter neutral_append [of "''?''" p] by (simp add: word_like_def)
next
  case (wf_call name args subs)
  note name = name_bland [OF disjI1 [OF wf_call(1)]]
  have "\<forall>l\<in>set args. neutral (show_lit l)" "\<forall>s\<in>set subs. neutral (show_sub s)" using wf_call by auto
  note head = show_head_text [OF name(1-3) this(1)] and subs = show_subs_text [OF this(2)]
  have "word_like (name @ ''('' @ join '','' (map show_lit args) @ '')'')" using name(3) by (simp add: word_like_def)
  from show_subs_last [OF this, of subs] neutral_append [OF head(1) subs(1)] settled_append [OF head(2) subs(2)]
  show ?case by (simp add: show_seg_def show_head_def)
next
  case (wf_field name subs)
  note name = name_bland [OF wf_field(1)]
  have "\<forall>s\<in>set subs. neutral (show_sub s)" using wf_field by auto
  note subs = show_subs_text [OF this]
  from show_subs_last [OF name(3), of subs] neutral_append [OF neutral_bland [OF name(1)] subs(1)]
    settled_append [OF settled_bland [OF name(1,2)] subs(2)]
  show ?case by (simp add: show_seg_def show_head_def)
qed auto

section \<open>Parsing the printed text\<close>

lemma digits_show_nat [simp]: "list_all is_digit (show_nat n)"
proof (induction n rule: show_nat.induct)
  case (1 n)
  have "is_digit (digit_char k)" if "k < 10" for k using that by (auto dest!: digit_cases simp: digit_char_def is_digit_def)
  then show ?case using 1 by (subst show_nat.simps) (auto simp: Let_def)
qed

lemma show_nat_ends: "is_digit (hd (show_nat n))" "is_digit (last (show_nat n))"
  using digits_show_nat [of n] by (simp_all add: list_all_iff)

lemma show_int_ends: "hd (show_int i) \<in> set ''-0123456789''" "is_digit (last (show_int i))" "show_int i \<noteq> []"
  using show_nat_ends [of "nat i"] show_nat_ends [of "nat (- i)"] by (auto simp: show_int_def is_digit_def)

lemma strip_sign_digits: "is_digit c \<Longrightarrow> c \<noteq> CHR ''-'' \<and> c \<noteq> CHR ''+''"
  by (auto simp: is_digit_def)

lemma parse_signed_show:
  assumes "- (2 ^ (w - 1)) \<le> i" "i < 2 ^ (w - 1)"
  shows "parse_signed w (show_int i) = Some i"
proof (cases "i < 0")
  case True
  then show ?thesis
    using assms by (simp add: parse_signed_def show_int_def all_digits_def read_nat_show_nat)
next
  case False
  obtain c cs where s: "show_nat (nat i) = c # cs" by (cases "show_nat (nat i)") auto
  then have "c \<noteq> CHR ''-''" "c \<noteq> CHR ''+''" using show_nat_ends(1) [of "nat i"] strip_sign_digits [of c] by auto
  then show ?thesis
    using assms False read_nat_show_nat [of "nat i"] digits_show_nat [of "nat i"]
    by (simp add: parse_signed_def show_int_def all_digits_def s)
qed

lemma parse_i32_show: "parse_i32 (show_int (sint (n :: u32))) = Some n"
  using sint_greater_eq [of n] sint_less [of n] by (simp add: parse_i32_def parse_signed_show)

lemma parse_i64_show: "parse_i64 (show_int (sint (n :: u64))) = Some n"
  using sint_greater_eq [of n] sint_less [of n] by (simp add: parse_i64_def parse_signed_show)

lemma parse_number_int: "parse_number_lit (show_int (sint n)) = Some (Lit_int n)"
  using show_int_ends [of "sint n"]
  by (auto simp: parse_number_lit_def strip_suffix_char_def parse_i32_show is_digit_def)

lemma parse_number_long: "parse_number_lit (show_int (sint n) @ ''L'') = Some (Lit_long n)"
  by (simp add: parse_number_lit_def strip_suffix_char_def parse_i64_show)

lemma parse_lit_plain:
  assumes "word_like t" "hd t \<notin> {CHR ''n'', CHR ''t'', CHR ''f'', CHR 0x22, CHR 0x27}" "parse_number_lit t = Some n"
  shows "parse_lit t = Inr n"
proof -
  have "trim t = t" using assms(1) trim_plain by (simp add: word_like_def)
  moreover have "t \<noteq> ''null''" "t \<noteq> ''true''" "t \<noteq> ''false''" using assms(2) by auto
  ultimately show ?thesis using assms(2,3) by (subst parse_lit.simps) simp
qed

lemma read_hex_append: "read_hex a (s @ t) = Option.bind (read_hex a s) (\<lambda>b. read_hex b t)"
  by (induction s arbitrary: a) (auto split: option.split)

lemma hex_value_digit: "hex_value (digit_char n) = Some (n mod 16)"
proof -
  have "\<forall>k\<in>set [0..<16]. hex_value (''0123456789abcdef'' ! k) = Some k" by (simp add: upt_rec hex_value_def)
  then show ?thesis by (simp add: digit_char_def)
qed

lemma read_hex_show: "read_hex 0 (show_hex n) = Some n"
proof (induction n rule: show_hex.induct)
  case (1 n)
  then show ?case by (subst show_hex.simps) (auto simp: read_hex_append hex_value_digit)
qed

lemma read_hex_zeros: "read_hex 0 (replicate k (CHR ''0'') @ s) = read_hex 0 s"
  by (induction k) (simp_all add: hex_value_def)

lemma show_hex_not_plus: "show_hex n = c # cs \<Longrightarrow> c \<noteq> CHR ''+''"
proof
  assume *: "show_hex n = c # cs" "c = CHR ''+''"
  have "hex_value CHR ''+'' = None" by (simp add: hex_value_def)
  then show False using show_hex_digits [of n] * by simp
qed

lemma u16_from_hex_show: "u16_from_hex (pad_left 4 (CHR ''0'') (show_hex (unat (u :: u16)))) = Some u"
proof -
  let ?s = "pad_left 4 (CHR ''0'') (show_hex (unat u))"
  have "read_hex 0 ?s = Some (unat u)" unfolding pad_left_def by (simp add: read_hex_zeros read_hex_show)
  moreover have "hd ?s \<noteq> CHR ''+''"
    using show_hex_not_plus [of "unat u"] unfolding pad_left_def
    by (cases "4 - length (show_hex (unat u))"; cases "show_hex (unat u)") auto
  moreover have "?s \<noteq> []" using show_hex_digits by (subst show_hex.simps) (auto simp: pad_left_def)
  moreover have "unat u < 65536" using unsigned_less [of u, where 'a = nat] by simp
  ultimately show ?thesis unfolding u16_from_hex_def by simp
qed

lemma parse_char_show: "parse_char_inner ([CHR 0x5C] @ ''u'' @ pad_left 4 (CHR ''0'') (show_hex (unat u))) = Inr u"
  by (simp add: parse_char_inner_def strip_prefix_char_def u16_from_hex_show)

text \<open>Text that starts like a name is no number.\<close>

lemma parse_signed_name: "s = [] \<or> hd s \<notin> set ''+-0123456789'' \<Longrightarrow> parse_signed w s = None"
  by (cases s) (auto simp: parse_signed_def Let_def all_digits_def is_digit_def)

lemma parse_decimal_name: "s = [] \<or> hd s \<notin> set ''+-.0123456789'' \<Longrightarrow> parse_decimal s = None"
  by (cases s) (auto simp: parse_decimal_def strip_sign_def is_digit_def Let_def)

lemma parse_number_name:
  assumes "t \<noteq> []" "hd t \<notin> set ''+-.0123456789''"
  shows "parse_number_lit t = None"
proof -
  have strip: "b = [] \<or> hd b \<notin> set ''+-.0123456789''" if "strip_suffix_char c t = Some b" for b c
    using that assms by (cases t) (auto simp: strip_suffix_char_def split: if_splits)
  have i64: "parse_i64 b = None" if "strip_suffix_char c t = Some b" for b c
    using strip [OF that] by (auto simp: parse_i64_def intro!: parse_signed_name)
  have self: "parse_i64 t = None" "parse_i32 t = None"
    using assms by (auto simp: parse_i64_def parse_i32_def intro!: parse_signed_name)
  have "fst (float_body t) = [] \<or> hd (fst (float_body t)) \<notin> set ''+-.0123456789''"
    using strip assms(2) by (auto simp: float_body_def split: option.splits)
  then have "parse_float_lit t = None"
    by (auto simp: parse_float_lit_def case_prod_unfold Let_def parse_decimal_name)
  moreover have "Option.bind (case strip_suffix_char CHR ''L'' t of Some n \<Rightarrow> Some n
      | None \<Rightarrow> strip_suffix_char CHR ''l'' t) parse_i64 = None"
    using i64 by (cases "strip_suffix_char CHR ''L'' t"; cases "strip_suffix_char CHR ''l'' t") auto
  ultimately show ?thesis using self by (simp add: parse_number_lit_def)
qed

lemma word_like_trim: "word_like u \<Longrightarrow> trim u = u"
  by (simp add: word_like_def trim_plain)

lemma split_at_depth_join:
  assumes "us \<noteq> []" "\<forall>u\<in>set us. settled opn c [sep] u" "sep \<notin> set opn \<union> set c" "set opn \<inter> set c = {}"
    "sep \<noteq> CHR 0x22" "sep \<noteq> CHR 0x27"
  shows "split_at_depth opn c sep unquoted 0 [] (join [sep] us) = (butlast us, last us, 0, unquoted)"
  using assms(1,2)
proof (induction us)
  case (Cons u us)
  have scan: "split_at_depth opn c sep unquoted 0 [] (u @ rest) = split_at_depth opn c sep unquoted 0 u rest" for rest
    using split_at_depth_settled [of opn c "[sep]" unquoted 0 u sep 0 "[]" rest] Cons.prems(2) assms(3,4) by simp
  show ?case
  proof (cases "us = []")
    case True
    then show ?thesis using scan [of "[]"] by simp
  next
    case False
    then show ?thesis using Cons scan q_step_syntax [of sep] assms(5,6) by (simp add: join_Cons)
  qed
qed simp

lemma res_collect_map:
  "(\<And>x. x \<in> set xs \<Longrightarrow> f (g x) = Inr x) \<Longrightarrow> res_collect f (map g xs) = Inr xs"
  by (induction xs) auto

lemma parse_args_show:
  assumes "\<And>l. l \<in> set args \<Longrightarrow> neutral (show_lit l) \<and> word_like (show_lit l)"
    "\<And>l. l \<in> set args \<Longrightarrow> parse_lit (show_lit l) = Inr l"
  shows "parse_args parse_lit (join '','' (map show_lit args)) = Inr args"
proof (cases "args = []")
  case True
  then show ?thesis by (simp add: parse_args_def)
next
  case False
  let ?s = "join '','' (map show_lit args)"
  have word: "word_like ?s" using False assms(1) by (intro word_like_join) auto
  have "split_args ?s = map show_lit args"
    using split_at_depth_join [of "map show_lit args" "''(''" "'')''" "CHR '',''"] False assms(1)
    by (simp add: split_args_def neutral_def)
  then show ?thesis
    using word word_like_trim [OF word] res_collect_map [of args parse_lit show_lit] assms(2)
    by (simp add: parse_args_def word_like_def Let_def)
qed

lemma trim_show_subs: "trim (show_subs subs) = show_subs subs"
proof (cases subs)
  case (Cons s ss)
  have "word_like (CHR ''['' # show_sub s @ '']'')" by (simp add: word_like_def)
  from word_like_trim [OF show_subs_last [OF this, of ss]] show ?thesis by (simp add: Cons show_subs_def)
qed (simp add: show_subs_def)

lemma subscript_groups_show:
  "\<forall>s\<in>set subs. neutral (show_sub s) \<and> word_like (show_sub s) \<Longrightarrow>
     subscript_groups raw (show_subs subs) = Inr (map show_sub subs)"
proof (induction subs)
  case Nil
  then show ?case by (subst subscript_groups.simps) (simp add: show_subs_def)
next
  case (Cons s subs)
  let ?u = "show_sub s"
  have u: "settled ''['' '']'' [] ?u" "word_like ?u" using Cons.prems by (auto simp: neutral_def)
  have shown: "show_subs (s # subs) = CHR ''['' # ?u @ CHR '']'' # show_subs subs" by (simp add: show_subs_def)
  have "close_bracket unquoted 0 (show_subs (s # subs)) = Some (Suc (length ?u))"
    using close_bracket_settled [OF u(1), of 1 "CHR '']'' # show_subs subs"]
    by (simp add: shown nest_def q_step_syntax)
  then show ?case
    using Cons word_like_trim [OF u(2)] trim_show_subs by (subst subscript_groups.simps) (simp add: shown)
qed

lemma show_subs_head: "show_subs subs = [] \<or> hd (show_subs subs) = CHR ''[''"
  by (cases subs) (simp_all add: show_subs_def)

lemma split_subscripts_show:
  assumes "settled ''('' '')'' ''['' head" "word_like head"
    "\<forall>s\<in>set subs. neutral (show_sub s) \<and> word_like (show_sub s)"
  shows "split_subscripts (head @ show_subs subs) = Inr (head, map show_sub subs)"
proof -
  have "head_length unquoted 0 (show_subs subs) = 0"
    using show_subs_head [of subs] by (cases "show_subs subs") auto
  then have n: "head_length unquoted 0 (head @ show_subs subs) = length head"
    using head_length_settled [OF assms(1), of 0 "show_subs subs"] by simp
  then show ?thesis
    using trim_show_subs word_like_trim [OF assms(2)] subscript_groups_show [OF assms(3)] by (simp add: split_subscripts_def n)
qed

lemma seg_starts:
  assumes "wf_seg sg"
  shows "show_seg sg \<noteq> [] \<and> (ident_start (hd (show_seg sg)) \<or> hd (show_seg sg) = CHR ''@'')"
  using assms
proof (cases rule: wf_seg.cases)
  case (wf_call name args subs)
  then show ?thesis using name_bland(5) [of name] by (auto simp: show_seg_def show_head_def)
next
  case (wf_field name subs)
  then show ?thesis using name_bland(5) [OF wf_field(2)] by (auto simp: show_seg_def show_head_def)
qed

lemma segs_start:
  assumes "segs \<noteq> []" "\<And>sg. sg \<in> set segs \<Longrightarrow> wf_seg sg"
  shows "show_segs segs \<noteq> []" "ident_start (hd (show_segs segs)) \<or> hd (show_segs segs) = CHR ''@''"
proof -
  obtain sg rest where segs: "segs = sg # rest" using assms(1) by (cases segs) auto
  have "show_segs segs = show_seg sg \<or> (\<exists>v. show_segs segs = show_seg sg @ v)"
    by (cases rest) (simp_all add: show_segs_def segs)
  then show "show_segs segs \<noteq> []" "ident_start (hd (show_segs segs)) \<or> hd (show_segs segs) = CHR ''@''"
    using seg_starts [of sg] assms(2) segs by auto
qed

lemma name_start:
  assumes "ident_start c \<or> c = CHR ''@''"
  shows "c \<notin> set ''+-.0123456789?'' \<and> c \<noteq> CHR 0x22 \<and> c \<noteq> CHR 0x27"
proof -
  define P where "P = (\<lambda>c. c \<notin> set ''+-.0123456789?'' \<and> c \<noteq> CHR 0x22 \<and> c \<noteq> CHR 0x27)"
  have "list_all P ''abcdefghijklmnopqrstuvwxyzABCDEFGHIJKLMNOPQRSTUVWXYZ''" by (simp add: P_def)
  then have "P c" if "is_alpha c" using that unfolding is_alpha_def list_all_iff by blast
  moreover have "P CHR ''_''" "P CHR ''$''" "P CHR ''@''" by (simp_all add: P_def)
  ultimately have "P c" using assms unfolding ident_start_def by blast
  then show ?thesis unfolding P_def .
qed

lemma parse_segs_show:
  assumes "segs \<noteq> []" "\<And>sg. sg \<in> set segs \<Longrightarrow> wf_seg sg"
    "\<And>sg. sg \<in> set segs \<Longrightarrow> parse_seg parse_lit (show_seg sg) = Inr sg"
  shows "parse_expr (show_segs segs) = Inr segs"
proof -
  have texts: "word_like (show_seg sg)" "settled ''(['' '')]'' ''.'' (show_seg sg)" if "sg \<in> set segs" for sg
    using printed_text(3) assms(2) that by blast+
  have word: "word_like (show_segs segs)" unfolding show_segs_def using assms(1) texts(1) by (intro word_like_join) auto
  have words: "map trim (map show_seg segs) = map show_seg segs" using texts(1) by (auto simp: word_like_trim)
  have last: "trim (show_seg (last segs)) = show_seg (last segs)" "show_seg (last segs) \<noteq> []"
    using texts(1) [of "last segs"] assms(1) by (simp_all add: word_like_trim word_like_def)
  have "split_at_depth ''(['' '')]'' CHR ''.'' unquoted 0 [] (show_segs segs)
      = (butlast (map show_seg segs), last (map show_seg segs), 0, unquoted)"
    unfolding show_segs_def using assms(1) texts(2) by (intro split_at_depth_join) auto
  then have "split_segments (show_segs segs) = Inr (map trim (butlast (map show_seg segs)) @ [show_seg (last segs)])"
    using last assms(1) by (simp add: split_segments_def last_map)
  also have "map trim (butlast (map show_seg segs)) = butlast (map show_seg segs)" using words by (metis map_butlast)
  also have "butlast (map show_seg segs) @ [show_seg (last segs)] = map show_seg segs"
    using assms(1) by (metis append_butlast_last_id last_map map_is_Nil_conv)
  finally show ?thesis
    using assms(1,3) word word_like_trim [OF word] res_collect_map [of segs "parse_seg parse_lit" show_seg]
    by (simp add: parse_expr_def parse_expr_with_def word_like_def Let_def)
qed

lemma split_once_dots:
  "CHR ''.'' \<notin> set u \<Longrightarrow> split_once_text ''..'' pre (u @ CHR ''.'' # CHR ''.'' # v) = Some (pre @ u, v)"
  by (induction u arbitrary: pre) (auto simp: prefix_def)

lemma int_no_dot: "CHR ''.'' \<notin> set (show_int i)"
proof -
  have "\<not> is_digit CHR ''.''" by (simp add: is_digit_def)
  then have "CHR ''.'' \<notin> set (show_nat n)" for n using digits_show_nat [of n] by (auto simp only: list_all_iff)
  then show ?thesis by (simp add: show_int_def)
qed

lemma lit_starts:
  assumes "wf_lit l"
  shows "hd (show_lit l) \<noteq> CHR ''?''"
  using assms
proof (cases rule: wf_lit.cases)
  case (wf_arg segs)
  then show ?thesis using name_start [OF segs_start(2) [of segs]] by auto
next
  case (wf_int n)
  then show ?thesis using show_int_ends(1) [of "sint n"] by auto
next
  case (wf_long m)
  then show ?thesis using show_int_ends(1,3) [of "sint m"] by auto
qed (auto simp: quote_text_def tick_def)

lemma printed_parses:
  "wf_lit l \<Longrightarrow> parse_lit (show_lit l) = Inr l"
  "wf_sub sb \<Longrightarrow> parse_subscript parse_lit (show_sub sb) = Inr sb"
  "wf_seg sg \<Longrightarrow> parse_seg parse_lit (show_seg sg) = Inr sg"
proof (induction rule: wf_lit_wf_sub_wf_seg.inducts)
  case (wf_int n)
  show ?case using show_int_ends(1) [of "sint n"] parse_number_int [of n] by (auto intro!: parse_lit_plain)
next
  case (wf_long m)
  have "word_like (show_int (sint m) @ ''L'')" using printed_text(1) [OF wf_lit_wf_sub_wf_seg.wf_long, of m] by simp
  then show ?case
    using show_int_ends [of "sint m"] parse_number_long [of m] by (auto intro!: parse_lit_plain)
next
  case (wf_bool b)
  then show ?case by (cases b; subst parse_lit.simps) (simp_all add: trim_plain plain_char_def white_space_def)
next
  case wf_null
  then show ?case by (subst parse_lit.simps) (simp add: trim_plain plain_char_def white_space_def)
next
  case (wf_char u)
  have "trim (show_lit (Lit_char u)) = show_lit (Lit_char u)"
    using printed_text(1) [OF wf_lit_wf_sub_wf_seg.wf_char, of u] word_like_trim by blast
  then show ?case using parse_char_show [of u] by (subst parse_lit.simps) (simp add: tick_def butlast_append)
next
  case (wf_str s)
  have "trim (show_lit (Lit_str s)) = show_lit (Lit_str s)"
    using printed_text(1) [OF wf_lit_wf_sub_wf_seg.wf_str [OF wf_str]] word_like_trim by blast
  then show ?case by (subst parse_lit.simps) (simp add: quote_text_def butlast_append)
next
  case (wf_arg segs)
  let ?t = "show_segs segs"
  note start = segs_start [OF wf_arg(1) wf_arg(2)]
  have t: "trim ?t = ?t" using printed_text(1) [OF wf_lit_wf_sub_wf_seg.wf_arg [of segs]] wf_arg word_like_trim by auto
  have "parse_number_lit ?t = None" using start name_start [OF start(2)] by (intro parse_number_name) auto
  moreover have "parse_expr_with parse_lit ?t = Inr segs"
    using parse_segs_show [of segs] wf_arg by (auto simp: parse_expr_def)
  ultimately show ?case using wf_arg(3) t name_start [OF start(2)] by (subst parse_lit.simps) simp
next
  case (wf_index l)
  then have "trim (show_lit l) = show_lit l" "show_lit l \<noteq> []" "hd (show_lit l) \<noteq> CHR ''?''"
    using printed_text(1) word_like_trim lit_starts by (auto simp: word_like_def)
  then show ?case using wf_index
    by (simp add: parse_subscript_def strip_prefix_char_def Let_def list.case_eq_if)
next
  case (wf_range x y)
  have "word_like (show_sub (Sub_range x y))" using printed_text(2) [OF wf_lit_wf_sub_wf_seg.wf_range [OF wf_range]] by simp
  then have t: "trim (show_sub (Sub_range x y)) = show_sub (Sub_range x y)" by (rule word_like_trim)
  have "hd (show_int (sint x)) \<noteq> CHR ''?''" using show_int_ends(1) [of "sint x"] by auto
  then have strip: "strip_prefix_char CHR ''?'' (show_sub (Sub_range x y)) = None"
    using show_int_ends(3) [of "sint x"] by (cases "show_int (sint x)") (simp_all add: strip_prefix_char_def)
  have bound: "parse_bound t (show_int (sint n)) what = Inr n" for t n what
    by (simp add: parse_bound_def word_like_trim parse_i64_show)
  show ?case
    using wf_range t strip split_once_dots [OF int_no_dot, of "[]" "sint x" "show_int (sint y)"]
    by (simp add: parse_subscript_def bound Let_def)
next
  case (wf_filter p)
  have "word_like (CHR ''?'' # p)" using printed_text(2) [OF wf_lit_wf_sub_wf_seg.wf_filter [OF wf_filter]] by simp
  then show ?case
    using word_like_trim [of "CHR ''?'' # p"] word_like_trim [OF wf_filter(1)] wf_filter(1)
    by (simp add: parse_subscript_def strip_prefix_char_def word_like_def)
next
  case (wf_call name args subs)
  note name = name_bland [OF disjI1 [OF wf_call(1)]]
  let ?args = "join '','' (map show_lit args)"
  let ?head = "name @ ''('' @ ?args @ '')''"
  have lits: "\<And>l. l \<in> set args \<Longrightarrow> neutral (show_lit l) \<and> word_like (show_lit l)"
    and subs: "\<forall>s\<in>set subs. neutral (show_sub s) \<and> word_like (show_sub s)"
    using wf_call printed_text by blast+
  have "word_like ?head" using name(3) by (simp add: word_like_def)
  from split_subscripts_show [OF show_head_text(3) [OF name(1-3)] this subs] lits
  have split: "split_subscripts (?head @ show_subs subs) = Inr (?head, map show_sub subs)" by blast
  have "hd name \<noteq> CHR ''@''" using wf_call(1) by (auto simp: is_ident_def ident_start_def is_alpha_def)
  then have "\<not> prefix ''@'' ?head" using name(5) by (cases name) auto
  moreover have "takeWhile (\<lambda>c. c \<noteq> CHR ''('') ?head = name"
    using name(4) by (subst takeWhile_append2) auto
  moreover have "parse_args parse_lit ?args = Inr args" using lits wf_call by (intro parse_args_show) auto
  ultimately have "parse_head parse_lit ?head subs = Inr \<lparr>seg_name = name, seg_args = Some args, seg_subs = subs\<rparr>"
    using wf_call(1) word_like_trim [OF name(3)] by (simp add: parse_head_def Let_def butlast_append)
  moreover have "res_collect (parse_subscript parse_lit) (map show_sub subs) = Inr subs"
    using wf_call by (intro res_collect_map) auto
  ultimately show ?case using split by (simp add: parse_seg_def show_seg_def show_head_def)
next
  case (wf_field name subs)
  note name = name_bland [OF wf_field(1)]
  have subs: "\<forall>s\<in>set subs. neutral (show_sub s) \<and> word_like (show_sub s)" using wf_field printed_text by blast
  have "settled ''('' '')'' ''['' name"
    by (rule settled_plain) (use name(1) in \<open>auto simp: list_all_iff bland_def\<close>)
  from split_subscripts_show [OF this name(3) subs]
  have split: "split_subscripts (name @ show_subs subs) = Inr (name, map show_sub subs)" .
  have "hd name \<noteq> CHR ''@'' \<Longrightarrow> is_ident name"
    using wf_field(1) by (cases name) (auto simp: parse_object_handle_def Let_def split: if_splits)
  moreover have "hd name = CHR ''@'' \<Longrightarrow> parse_object_handle name \<noteq> None"
    using wf_field(1) by (auto simp: is_ident_def ident_start_def is_alpha_def)
  ultimately have "parse_head parse_lit name subs = Inr \<lparr>seg_name = name, seg_args = None, seg_subs = subs\<rparr>"
    using name(4,5) by (cases name) (auto simp: parse_head_def)
  moreover have "res_collect (parse_subscript parse_lit) (map show_sub subs) = Inr subs"
    using wf_field by (intro res_collect_map) auto
  ultimately show ?case using split by (simp add: parse_seg_def show_seg_def show_head_def)
qed

text \<open>
  C10: a printed expression is parsed back to the same syntax tree - chains of fields, calls with literal and
  expression arguments nested to any depth, subscripts by index, range and filter, object handles.  The
  conditions say what has no printed form: a string with a quote or a backslash in it, an index with two dots
  in a row, a variable called \<open>null\<close>, \<open>true\<close> or \<open>false\<close>.
\<close>

theorem expr_round_trip:
  assumes "segs \<noteq> []" "\<And>sg. sg \<in> set segs \<Longrightarrow> wf_seg sg"
  shows "parse_expr (show_segs segs) = Inr segs"
  using assms by (intro parse_segs_show printed_parses(3)) auto

lemma wf_id_call: "wf_lit (Lit_expr ''item.id()'')"
proof -
  have "wf_lit (Lit_expr (show_segs [\<lparr>seg_name = ''item'', seg_args = None, seg_subs = []\<rparr>,
      \<lparr>seg_name = ''id'', seg_args = Some [], seg_subs = []\<rparr>]))"
    by (rule wf_arg)
      (auto intro!: wf_field wf_call simp: is_ident_def ident_char_def ident_start_def is_alpha_def
         show_segs_def show_seg_def show_head_def show_subs_def)
  then show ?thesis by (simp add: show_segs_def show_seg_def show_head_def show_subs_def)
qed

theorem expr_round_trip_witness:
  "parse_expr ''order.find(item.id(),null)[1..3].total'' =
     Inr [\<lparr>seg_name = ''order'', seg_args = None, seg_subs = []\<rparr>,
          \<lparr>seg_name = ''find'', seg_args = Some [Lit_expr ''item.id()'', Lit_null], seg_subs = [Sub_range 1 3]\<rparr>,
          \<lparr>seg_name = ''total'', seg_args = None, seg_subs = []\<rparr>]"
  (is "_ = Inr ?segs")
proof -
  have name: "is_ident ''order''" "is_ident ''find''" "is_ident ''total''"
    by (simp_all add: is_ident_def ident_char_def ident_start_def is_alpha_def)
  have "wf_seg sg" if "sg \<in> set ?segs" for sg
    using that name wf_id_call by (auto intro!: wf_field wf_call wf_null wf_range)
  then have "parse_expr (show_segs ?segs) = Inr ?segs" by (intro expr_round_trip) auto
  moreover have "show_int 1 = ''1''" "show_int 3 = ''3''"
    by (simp_all add: show_int_def show_nat.simps digit_char_def)
  ultimately show ?thesis by (simp add: show_segs_def show_seg_def show_head_def show_subs_def)
qed

section \<open>Where the scanners disagree\<close>

text \<open>Splitting a comparison tracks parentheses but not brackets.\<close>

lemma first_comparison:
  assumes "\<forall>c\<in>set u. c \<notin> set ''=!<>()'' \<and> c \<noteq> CHR 0x22 \<and> c \<noteq> CHR 0x27"
    "trim (pre @ u) \<noteq> []" "trim v \<noteq> []"
  shows "find_comparison unquoted 0 pre (u @ CHR ''='' # CHR ''='' # v) = Some (trim (pre @ u), ''=='', trim v)"
  using assms(1,2)
proof (induction u arbitrary: pre)
  case Nil
  then show ?case using assms(3) by (simp add: comparison_ops_def try_op_def Let_def)
next
  case (Cons c u)
  then have c: "c \<notin> set ''=!<>()''" "c \<noteq> CHR 0x22" "c \<noteq> CHR 0x27" by auto
  have "first_some (try_op pre (c # u @ CHR ''='' # CHR ''='' # v)) comparison_ops = None"
    using c by (auto simp: comparison_ops_def try_op_def Let_def)
  then show ?case using Cons c q_step_syntax [of c] by (simp add: nest_def)
qed

lemma ident_no_op:
  assumes "is_ident x" "c \<in> set x"
  shows "c \<notin> set ''=!<>()|&[].? '' \<and> c \<noteq> CHR 0x22 \<and> c \<noteq> CHR 0x27"
proof -
  define P where "P = (\<lambda>c. c \<notin> set ''=!<>()|&[].? '' \<and> c \<noteq> CHR 0x22 \<and> c \<noteq> CHR 0x27)"
  have "list_all P ''abcdefghijklmnopqrstuvwxyzABCDEFGHIJKLMNOPQRSTUVWXYZ''" "list_all P ''0123456789''"
    by (simp_all add: P_def)
  then have "P c" if "is_alpha c \<or> is_digit c" using that unfolding is_alpha_def is_digit_def list_all_iff by blast
  moreover have "P CHR ''_''" "P CHR ''$''" by (simp_all add: P_def)
  moreover have "ident_char c" using assms by (auto simp: is_ident_def list_all_iff)
  ultimately have "P c" unfolding ident_start_def ident_char_def by blast
  then show ?thesis unfolding P_def .
qed

lemma ident_calm:
  assumes "is_ident x"
  shows "calm ''|&'' False 0 x" "calm [] False 0 x" "balanced False 0 x"
    "\<forall>c\<in>set x. c \<notin> set ''=!<>()'' \<and> c \<noteq> CHR 0x22 \<and> c \<noteq> CHR 0x27"
proof -
  have x: "\<forall>c\<in>set x. c \<notin> set ''=!<>()|&[].? '' \<and> c \<noteq> CHR 0x22 \<and> c \<noteq> CHR 0x27"
    using ident_no_op [OF assms] by blast
  show "calm ''|&'' False 0 x" "calm [] False 0 x" "balanced False 0 x"
    by (rule calm_plain balanced_plain; rule ballI, drule bspec [OF x], simp)+
  show "\<forall>c\<in>set x. c \<notin> set ''=!<>()'' \<and> c \<noteq> CHR 0x22 \<and> c \<noteq> CHR 0x27"
    by (rule ballI, drule bspec [OF x], simp)
qed

lemma ident_word: "is_ident x \<Longrightarrow> word_like x \<and> list_all bland x \<and> CHR ''.'' \<notin> set x"
  using name_bland by blast

lemma ident_starts:
  assumes "is_ident x"
  shows "x \<noteq> []" "hd x \<notin> set ''=!<>()|&[].? ''"
  using ident_no_op [OF assms hd_in_set] assms by (auto simp: is_ident_def)

text \<open>
  C11: a filter over a collection is a value - the parser of expressions accepts it as a subscript - and yet it
  is taken for a comparison, split inside its brackets, because the comparison scanner does not count
  brackets; so a trace expression or condition that uses a filter with \<open>==\<close> in it is handed to the wrong
  evaluator with a left side that does not parse.
\<close>

theorem filter_taken_for_comparison:
  assumes "is_ident xs" "is_ident field"
  shows "parse_expr (xs @ ''[?'' @ field @ '' == null]'')
        = Inr [\<lparr>seg_name = xs, seg_args = None, seg_subs = [Sub_filter (field @ '' == null'')]\<rparr>]
     \<and> expr_is_boolean (xs @ ''[?'' @ field @ '' == null]'')
     \<and> split_comparison (xs @ ''[?'' @ field @ '' == null]'') = Some (xs @ ''[?'' @ field, ''=='', ''null]'')
     \<and> is_err (parse_expr (xs @ ''[?'' @ field))"
proof (intro conjI)
  let ?p = "field @ '' == null''" and ?e = "xs @ ''[?'' @ field @ '' == null]''"
  note xs = ident_word [OF assms(1)] and field = ident_word [OF assms(2)]
  have bland: "list_all bland ?p" using field by (auto simp: bland_def)
  have word: "word_like ?p" using field by (simp add: word_like_def plain_char_def white_space_def)
  have "wf_seg \<lparr>seg_name = xs, seg_args = None, seg_subs = [Sub_filter ?p]\<rparr>"
    using assms(1) wf_filter [OF word neutral_bland [OF bland]] by (auto intro: wf_field)
  then have "parse_expr (show_segs [\<lparr>seg_name = xs, seg_args = None, seg_subs = [Sub_filter ?p]\<rparr>])
      = Inr [\<lparr>seg_name = xs, seg_args = None, seg_subs = [Sub_filter ?p]\<rparr>]"
    by (intro parse_segs_show printed_parses(3)) auto
  then show "parse_expr ?e = Inr [\<lparr>seg_name = xs, seg_args = None, seg_subs = [Sub_filter ?p]\<rparr>]"
    by (simp add: show_segs_def show_seg_def show_head_def show_subs_def)
  have whole: "word_like (xs @ ''[?'' @ field)" using xs field by (simp add: word_like_def)
  have trimmed: "trim (xs @ ''[?'' @ field @ '' '') = xs @ ''[?'' @ field"
    using trim_spaced_plain [of "xs @ ''[?'' @ field" "[]" "'' ''"] whole by (simp add: word_like_def)
  have left: "\<forall>c\<in>set (xs @ ''[?'' @ field @ '' ''). c \<notin> set ''=!<>()'' \<and> c \<noteq> CHR 0x22 \<and> c \<noteq> CHR 0x27"
    using ident_calm(4) [OF assms(1)] ident_calm(4) [OF assms(2)] by (simp add: ball_Un)
  have "trim '' null]'' = ''null]''"
    using trim_spaced_plain [of "''null]''" "'' ''" "[]"] by (simp add: plain_char_def white_space_def)
  then show split: "split_comparison ?e = Some (xs @ ''[?'' @ field, ''=='', ''null]'')"
    using first_comparison [OF left, of "[]" "'' null]''"] trimmed ident_starts(1) [OF assms(1)]
    by (simp add: split_comparison_def)
  have "calm [] False 0 (''?'' @ field @ '' == null'')"
    using calm_append [OF ident_calm(2) [OF assms(2)], of 0 "'' == null''"] by simp
  from calm_append [OF ident_calm(1) [OF assms(1)] calm_brackets [OF this]]
  have "calm ''|&'' False 0 (xs @ CHR ''['' # (''?'' @ ?p) @ '']'')" by simp
  moreover have "balanced False 0 ?e"
    using balanced_append [OF ident_calm(3) [OF assms(1)], of 0 "''[?'' @ field @ '' == null]''"]
      balanced_append [OF ident_calm(3) [OF assms(2)], of 0 "'' == null]''"] by simp
  ultimately have "standalone 2 ?e"
    using xs ident_starts [OF assms(1)]
    by (simp add: standalone_def word_like_def level_ops_def parens_enclose_def)
  then have "parse_bool_tree ?e = Tree_leaf ?e"
    using ident_starts [OF assms(1)] by (intro parse_leaf) auto
  then show "expr_is_boolean ?e" using split by (simp add: expr_is_boolean_def)
  have scan: "settled ''(['' '')]'' ''.'' xs" "settled ''(['' '')]'' [] (''?'' @ field)"
    using xs field settled_bland [of xs] neutral_bland [of "''?'' @ field"] by (simp_all add: neutral_def bland_def)
  have "split_at_depth ''(['' '')]'' CHR ''.'' unquoted 0 [] (xs @ CHR ''['' # (''?'' @ field))
      = ([], xs @ CHR ''['' # (''?'' @ field), 1, unquoted)"
    using split_at_depth_settled [OF scan(1), of "CHR ''.''" 0 "[]" "CHR ''['' # (''?'' @ field)"]
      split_at_depth_settled [OF scan(2), of "CHR ''.''" 1 "xs @ ''[''" "[]"]
    by (simp add: nest_def q_step_syntax)
  then show "is_err (parse_expr (xs @ ''[?'' @ field))"
    using word_like_trim [OF whole] by (simp add: parse_expr_def parse_expr_with_def split_segments_def Let_def)
qed

theorem filter_taken_for_comparison_witness:
  "expr_is_boolean ''orders[?status == null]'' \<and> is_err (parse_expr ''orders[?status'')"
proof -
  have "is_ident ''orders''" "is_ident ''status''"
    by (simp_all add: is_ident_def ident_char_def ident_start_def is_alpha_def)
  then show ?thesis using filter_taken_for_comparison [of "''orders''" "''status''"] by simp
qed

end
