(* ===== verification/BindHeads.thy ===== *)
theory BindHeads
  imports BoolExpr
begin

text \<open>
  The objects of an event bound by name in the text of a condition (\<open>bind_object_heads\<close>): binding works leaf by leaf,
  so a condition whose tree was printed and then bound parses to the same tree with its leaves bound.
\<close>

section \<open>The leaves of a bound text\<close>

fun bound_tree :: "(string \<times> u64) list \<Rightarrow> bool_tree \<Rightarrow> bool_tree" where
  "bound_tree heads (Tree_or ts) = Tree_or (map (bound_tree heads) ts)"
| "bound_tree heads (Tree_and ts) = Tree_and (map (bound_tree heads) ts)"
| "bound_tree heads (Tree_not t) = Tree_not (bound_tree heads t)"
| "bound_tree heads (Tree_leaf s) = Tree_leaf (bind_object_heads s heads)"

fun leaves_of :: "bool_tree \<Rightarrow> string list" where
  "leaves_of (Tree_or ts) = concat (map leaves_of ts)"
| "leaves_of (Tree_and ts) = concat (map leaves_of ts)"
| "leaves_of (Tree_not t) = leaves_of t"
| "leaves_of (Tree_leaf s) = [s]"

text \<open>Names that can be bound; a text whose literals are closed at its end; a character that ends a leaf.\<close>

definition head_names :: "(string \<times> u64) list \<Rightarrow> bool" where
  "head_names heads \<longleftrightarrow> (\<forall>(name, _)\<in>set heads. name \<noteq> [] \<and> list_all ident_char name)"

definition closed_text :: "string \<Rightarrow> bool" where
  "closed_text s \<longleftrightarrow> fold (\<lambda>c q. q_step q c) s unquoted = unquoted"

definition separator :: "char \<Rightarrow> bool" where
  "separator c \<longleftrightarrow> c \<in> set '' !()|&''"

lemma separator_facts:
  assumes "separator c"
  shows "\<not> ident_char c" "\<not> continues_name c" "q_step unquoted c = unquoted" "\<not> inside unquoted"
  using assms by (auto simp: separator_def ident_char_def ident_start_def is_alpha_def is_digit_def continues_name_def
      q_step_def unquoted_def inside_def)

lemma prefix_stops:
  assumes "list_all P w" "rest = [] \<or> \<not> P (hd rest)"
  shows "prefix w (u @ rest) \<longleftrightarrow> prefix w u"
  using assms
proof (induction w arbitrary: u)
  case (Cons a w)
  then show ?case by (cases u; cases rest) auto
qed simp

lemma find_heads_stop:
  assumes "head_names heads" "rest = [] \<or> separator (hd rest)"
  shows "find (\<lambda>(name, _). prefix (name @ ''.'') (u @ rest)) heads = find (\<lambda>(name, _). prefix (name @ ''.'') u) heads"
proof -
  have "prefix (name @ ''.'') (u @ rest) \<longleftrightarrow> prefix (name @ ''.'') u" if "(name, h) \<in> set heads" for name h
    using assms that separator_facts(2) [of "hd rest"]
    by (intro prefix_stops [of continues_name]) (auto simp: head_names_def continues_name_def list_all_iff)
  then show ?thesis by (intro find_cong) auto
qed

text \<open>The name bound at a position, if any.\<close>

definition found_head :: "(string \<times> u64) list \<Rightarrow> quoted \<Rightarrow> char option \<Rightarrow> string \<Rightarrow> (string \<times> u64) option" where
  "found_head heads q prev s =
     (if \<not> inside q \<and> (case prev of None \<Rightarrow> True | Some p \<Rightarrow> \<not> continues_name p)
      then find (\<lambda>(name, _). prefix (name @ ''.'') s) heads else None)"

lemma bind_step:
  "bind_from heads q prev 0 (c # cs) = (case found_head heads q prev (c # cs) of
     Some (name, h) \<Rightarrow> ''@0x'' @ show_hex (unat h) @ bind_from heads (q_step q c) (Some c) (length name - 1) cs
   | None \<Rightarrow> c # bind_from heads (q_step q c) (Some c) 0 cs)"
  "bind_from heads q prev (Suc k) (c # cs) = bind_from heads (q_step q c) (Some c) k cs"
  by (simp_all add: found_head_def Let_def split: option.split)

declare bind_from.simps(2) [simp del] bind_step [simp]

lemma found_head_append:
  "head_names heads \<Longrightarrow> rest = [] \<or> separator (hd rest) \<Longrightarrow> found_head heads q prev (u @ rest) = found_head heads q prev u"
  by (simp add: found_head_def find_heads_stop)

lemma found_headD:
  assumes "head_names heads" "found_head heads q prev (c # s) = Some (name, h)"
  shows "\<exists>name'. name = c # name' \<and> list_all ident_char name \<and> prefix (name' @ ''.'') s"
proof -
  have match: "prefix (name @ ''.'') (c # s)" "(name, h) \<in> set heads"
    using assms(2) by (auto simp: found_head_def find_Some_iff split: if_splits) (metis nth_mem)
  then have "name \<noteq> []" "list_all ident_char name" using assms(1) by (auto simp: head_names_def)
  then show ?thesis using match(1) by (cases name) auto
qed

lemma bind_from_append:
  assumes "head_names heads" "rest = [] \<or> separator (hd rest)"
  shows "k \<le> length u \<Longrightarrow> bind_from heads q prev k (u @ rest)
    = bind_from heads q prev k u @ bind_from heads (fold (\<lambda>c q. q_step q c) u q) (if u = [] then prev else Some (last u)) 0 rest"
proof (induction u arbitrary: q prev k)
  case (Cons c u)
  have same: "found_head heads q prev (c # u @ rest) = found_head heads q prev (c # u)"
    using found_head_append [OF assms, of q prev "c # u"] by simp
  have last: "(if u = [] then Some c else Some (last u)) = Some (last (c # u))" by simp
  note IH = Cons.IH [of _ "q_step q c" "Some c", unfolded last]
  show ?case
  proof (cases k)
    case (Suc k')
    then show ?thesis using IH [of k'] Cons.prems by simp
  next
    case 0
    show ?thesis
    proof (cases "found_head heads q prev (c # u)")
      case None
      then show ?thesis using 0 IH [of 0] same by simp
    next
      case (Some nh)
      obtain name h where nh: "nh = (name, h)" by (cases nh)
      obtain name' where "name = c # name'" "prefix (name' @ ''.'') u"
        using found_headD [OF assms(1) Some [unfolded nh]] by blast
      moreover from this have "length name' \<le> length u" by (auto dest: prefix_length_le)
      ultimately show ?thesis using 0 Some IH [of "length name'"] same by (simp add: nh)
    qed
  qed
qed simp

lemma no_head_at: "head_names heads \<Longrightarrow> separator c \<Longrightarrow> found_head heads q prev (c # s) = None"
  using found_headD [of heads q prev c s] separator_facts(1) [of c]
  by (cases "found_head heads q prev (c # s)") fastforce+

lemma bind_separator:
  assumes "head_names heads" "separator c"
  shows "bind_from heads unquoted prev 0 (c # s) = c # bind_object_heads s heads"
proof -
  have "bind_from heads unquoted (Some c) 0 s = bind_from heads unquoted None 0 s"
    using separator_facts(2) [OF assms(2)] by (cases s) (simp_all add: found_head_def)
  then show ?thesis
    using no_head_at [OF assms] separator_facts(3) [OF assms(2)] by (simp add: bind_object_heads_def)
qed

lemma bind_cons: "head_names heads \<Longrightarrow> separator c \<Longrightarrow> bind_object_heads (c # s) heads = c # bind_object_heads s heads"
  using bind_separator [of heads c None s] unfolding bind_object_heads_def by blast

lemma bind_append:
  assumes "head_names heads" "closed_text u" "rest = [] \<or> separator (hd rest)"
  shows "bind_object_heads (u @ rest) heads = bind_object_heads u heads @ bind_object_heads rest heads"
proof -
  have "bind_from heads unquoted prev 0 rest = bind_from heads unquoted None 0 rest" for prev
    using bind_separator [OF assms(1)] assms(3) by (cases rest) (simp_all del: bind_step)
  then show ?thesis
    using bind_from_append [OF assms(1,3), of 0 u unquoted None] assms(2) by (simp add: bind_object_heads_def closed_text_def)
qed

lemma closed_simps [simp]:
  "closed_text []" "closed_text u \<Longrightarrow> closed_text (u @ v) = closed_text v" "separator c \<Longrightarrow> closed_text (c # v) = closed_text v"
  by (simp_all add: closed_text_def separator_facts)

lemma separators [simp]: "separator CHR '' ''" "separator CHR ''!''" "separator CHR ''(''" "separator CHR '')''"
  "separator CHR ''|''" "separator CHR ''&''"
  by (simp_all add: separator_def)

lemma closed_wrapped: "closed_text u \<Longrightarrow> closed_text (wrapped b u)"
  by (simp add: wrapped_def)

lemma bind_wrapped:
  "head_names heads \<Longrightarrow> closed_text u \<Longrightarrow> bind_object_heads (wrapped b u) heads = wrapped b (bind_object_heads u heads)"
  using bind_append [of heads u "'')''"] bind_cons [of heads "CHR '')''" "[]"]
  by (simp add: wrapped_def bind_cons) (simp add: bind_object_heads_def)

lemma closed_join: "op \<in> set ''|&'' \<Longrightarrow> \<forall>u\<in>set us. closed_text u \<Longrightarrow> closed_text (join [CHR '' '', op, op, CHR '' ''] us)"
proof (induction us)
  case (Cons u us)
  then show ?case by (cases "us = []") (auto simp: join_Cons)
qed simp

lemma bind_join:
  assumes "head_names heads" "op \<in> set ''|&''"
  shows "\<forall>u\<in>set us. closed_text u \<Longrightarrow> bind_object_heads (join [CHR '' '', op, op, CHR '' ''] us) heads
    = join [CHR '' '', op, op, CHR '' ''] (map (\<lambda>u. bind_object_heads u heads) us)"
proof (induction us)
  case (Cons u us)
  have "separator op" using assms(2) by auto
  then show ?case
    using Cons bind_append [OF assms(1), of u "[CHR '' '', op, op, CHR '' ''] @ join [CHR '' '', op, op, CHR '' ''] us"]
    by (cases "us = []") (simp_all add: join_Cons bind_cons assms(1))
qed (simp add: bind_object_heads_def)

lemma bound_level [simp]: "tree_level (bound_tree heads t) = tree_level t"
  by (cases t) simp_all

text \<open>Printing a tree and binding the text is binding the leaves and printing.\<close>

lemma bind_printed:
  assumes "head_names heads"
  shows "\<forall>s\<in>set (leaves_of t). closed_text s \<Longrightarrow> closed_text (show_tree t)
    \<and> bind_object_heads (show_tree t) heads = show_tree (bound_tree heads t)"
proof (induction t)
  case (Tree_or ts)
  let ?us = "map (\<lambda>t. wrapped (tree_level t < 1) (show_tree t)) ts"
  have us: "\<forall>u\<in>set ?us. closed_text u" using Tree_or by (auto intro: closed_wrapped)
  have "map (\<lambda>u. bind_object_heads u heads) ?us = map (\<lambda>t. wrapped (tree_level t < 1) (show_tree t)) (map (bound_tree heads) ts)"
    using Tree_or by (auto simp: bind_wrapped assms simp del: less_one)
  then show ?case using bind_join [OF assms _ us, of "CHR ''|''"] closed_join [OF _ us, of "CHR ''|''"]
    by (simp del: map_map less_one)
next
  case (Tree_and ts)
  let ?us = "map (\<lambda>t. wrapped (tree_level t < 2) (show_tree t)) ts"
  have us: "\<forall>u\<in>set ?us. closed_text u" using Tree_and by (auto intro: closed_wrapped)
  have "map (\<lambda>u. bind_object_heads u heads) ?us = map (\<lambda>t. wrapped (tree_level t < 2) (show_tree t)) (map (bound_tree heads) ts)"
    using Tree_and by (auto simp: bind_wrapped assms simp del: less_one)
  then show ?case using bind_join [OF assms _ us, of "CHR ''&''"] closed_join [OF _ us, of "CHR ''&''"]
    by (simp del: map_map less_one)
next
  case (Tree_not t)
  then show ?case by (simp add: bind_cons assms bind_wrapped closed_wrapped)
qed simp

section \<open>Binding keeps the shape of a leaf\<close>

text \<open>Binding replaces name characters by name characters and an at sign; the scanners pass over all of them.\<close>

definition neutral :: "char \<Rightarrow> bool" where "neutral c \<longleftrightarrow> ident_char c \<or> c = CHR ''@''"

definition squash :: "string \<Rightarrow> string" where "squash s = filter (\<lambda>c. \<not> neutral c) s"

lemma not_neutral [simp]: "\<not> neutral CHR 0x22" "\<not> neutral CHR ''(''" "\<not> neutral CHR '')''" "\<not> neutral CHR ''[''"
  "\<not> neutral CHR '']''" "\<not> neutral CHR ''|''" "\<not> neutral CHR ''&''"
  by (simp_all add: neutral_def ident_char_def ident_start_def is_alpha_def is_digit_def)

lemma hex_ident: "list_all ident_char (show_hex n)"
proof (induction n rule: show_hex.induct)
  case (1 n)
  have digit: "ident_char (digit_char m)" if "m < 16" for m
  proof -
    have "m \<in> set [0..<16]" using that by simp
    then show ?thesis
      by (simp add: upt_rec digit_char_def) (elim disjE; simp add: ident_char_def ident_start_def is_alpha_def is_digit_def)
  qed
  show ?case using 1 digit [of n] digit [of "n mod 16"] by (subst show_hex.simps) auto
qed

lemma squash_ident: "list_all ident_char s \<Longrightarrow> squash s = []"
  by (auto simp: squash_def neutral_def filter_empty_conv list_all_iff)

lemma squash_bind:
  assumes "head_names heads"
  shows "k \<le> length s \<Longrightarrow> list_all ident_char (take k s) \<Longrightarrow> squash (bind_from heads q prev k s) = squash s"
proof (induction s arbitrary: q prev k)
  case (Cons c s)
  show ?case
  proof (cases k)
    case (Suc k')
    then have "ident_char c" "list_all ident_char (take k' s)" using Cons.prems by simp_all
    then show ?thesis using Suc Cons.IH [of k'] Cons.prems by (simp add: squash_def neutral_def)
  next
    case 0
    show ?thesis
    proof (cases "found_head heads q prev (c # s)")
      case None
      then show ?thesis using 0 Cons.IH [of 0] by (simp add: squash_def)
    next
      case (Some nh)
      obtain name h where nh: "nh = (name, h)" by (cases nh)
      obtain name' where name: "name = c # name'" "list_all ident_char name" "prefix (name' @ ''.'') s"
        using found_headD [OF assms Some [unfolded nh]] by blast
      then have "length name' \<le> length s" "take (length name') s = name'" by (auto simp: prefix_def)
      then have "squash (bind_from heads (q_step q c) (Some c) (length name') s) = squash s"
        using Cons.IH [of "length name'"] name(1,2) by simp
      moreover have "squash (show_hex (unat h)) = []" by (rule squash_ident [OF hex_ident])
      moreover have "neutral c" using name(1,2) by (simp add: neutral_def)
      moreover have "neutral CHR ''@''" "neutral CHR ''0''" "neutral CHR ''x''"
        by (simp_all add: neutral_def ident_char_def ident_start_def is_alpha_def is_digit_def)
      ultimately show ?thesis using 0 Some name(1) by (simp add: nh squash_def)
    qed
  qed
qed simp

text \<open>What the scanners see of a text is what is left when the neutral characters are gone.\<close>

lemma calm_squash: "\<forall>c\<in>set ops. \<not> neutral c \<Longrightarrow> calm ops b d (squash s) = calm ops b d s"
proof (induction s arbitrary: b d)
  case (Cons c s)
  show ?case
  proof (cases "neutral c")
    case True
    then have "c \<noteq> CHR 0x22" "c \<notin> set ''(['' " "c \<notin> set '')]''" "c \<notin> set ops" using Cons.prems not_neutral by auto
    then show ?thesis using True Cons by (simp add: squash_def)
  next
    case False
    then show ?thesis using Cons by (simp add: squash_def)
  qed
qed (simp add: squash_def)

lemma balanced_squash: "balanced b d (squash s) = balanced b d s"
proof (induction s arbitrary: b d)
  case (Cons c s)
  show ?case
  proof (cases "neutral c")
    case True
    then have "c \<noteq> CHR 0x22" "c \<noteq> CHR ''(''" "c \<noteq> CHR '')''" using not_neutral by auto
    then show ?thesis using True Cons by (simp add: squash_def)
  next
    case False
    then show ?thesis using Cons by (simp add: squash_def)
  qed
qed (simp add: squash_def)

lemma first_balance_squash:
  "s \<noteq> [] \<Longrightarrow> last s = CHR '')'' \<Longrightarrow>
    first_balance b d s = Some (length s - 1) \<longleftrightarrow> first_balance b d (squash s) = Some (length (squash s) - 1)"
proof (induction s arbitrary: b d)
  case (Cons c s)
  have squashed: "s \<noteq> [] \<Longrightarrow> squash s \<noteq> []"
    using Cons.prems last_in_set [of s] not_neutral(3) by (auto simp: squash_def filter_empty_conv simp del: not_neutral)
  show ?case
  proof (cases "s = []")
    case True
    then show ?thesis using Cons.prems by (simp add: squash_def)
  next
    case False
    then have IH: "first_balance b d s = Some (length s - 1)
        \<longleftrightarrow> first_balance b d (squash s) = Some (length (squash s) - 1)" for b d
      using Cons by simp
    have step: "map_option Suc x = Some (Suc (length s) - 1) \<longleftrightarrow> x = Some (length s - 1)"
        "map_option Suc x = Some (Suc (length (squash s)) - 1) \<longleftrightarrow> x = Some (length (squash s) - 1)" for x
      using False squashed by (cases x; cases s; cases "squash s"; auto)+
    show ?thesis
    proof (cases "neutral c")
      case True
      then have c: "c \<noteq> CHR 0x22" "c \<noteq> CHR ''(''" "c \<noteq> CHR '')''" "squash (c # s) = squash s"
        using not_neutral by (auto simp: squash_def)
      then have "nest ''('' '')'' (\<not> b) c = 0" by (simp add: nest_def)
      then show ?thesis using c IH [of b d] step(1) by (simp add: Let_def)
    next
      case c: False
      then have sq: "squash (c # s) = c # squash s" by (simp add: squash_def)
      show ?thesis
      proof (cases "\<not> b \<and> c = CHR '')'' \<and> d + nest ''('' '')'' (\<not> b) c = 0")
        case True
        then show ?thesis unfolding sq using False squashed by (auto simp: Let_def)
      next
        case again: False
        have rec: "first_balance b d (c # r) = map_option Suc
            (first_balance (if c = CHR 0x22 then \<not> b else b) (d + nest ''('' '')'' (\<not> b) c) r)" for r
          using again by (auto simp: Let_def)
        show ?thesis unfolding sq length_Cons rec step by (rule IH)
      qed
    qed
  qed
qed simp

lemma last_bind:
  "head_names heads \<Longrightarrow> k < length s \<Longrightarrow> bind_from heads q prev k s \<noteq> [] \<and> last (bind_from heads q prev k s) = last s"
proof (induction s arbitrary: q prev k)
  case (Cons c s)
  show ?case
  proof (cases k)
    case (Suc k')
    then show ?thesis using Cons.IH [of k'] Cons.prems by auto
  next
    case 0
    show ?thesis
    proof (cases "found_head heads q prev (c # s)")
      case None
      then show ?thesis using 0 Cons.IH [of 0] Cons.prems by (cases "s = []") simp_all
    next
      case (Some nh)
      obtain name h where nh: "nh = (name, h)" by (cases nh)
      obtain name' where "name = c # name'" "prefix (name' @ ''.'') s"
        using found_headD [OF Cons.prems(1) Some [unfolded nh]] by blast
      moreover from this have "length name' < length s" by (auto dest!: prefix_length_le)
      ultimately show ?thesis using 0 Some Cons.IH [of "length name'"] Cons.prems(1) by (auto simp: nh)
    qed
  qed
qed simp

lemma hd_bind: "s \<noteq> [] \<Longrightarrow> hd (bind_object_heads s heads) \<in> {hd s, CHR ''@''}"
  by (cases s) (auto simp: bind_object_heads_def split: option.split)

lemma parens_enclose_bind:
  assumes "head_names heads" "parens_enclose (bind_object_heads s heads)"
  shows "parens_enclose s"
proof -
  let ?b = "bind_object_heads s heads"
  have s: "s \<noteq> []" using assms(2) by (auto simp: parens_enclose_def bind_object_heads_def)
  have last: "last ?b = last s" "squash ?b = squash s"
    using last_bind [OF assms(1), of 0 s] squash_bind [OF assms(1), of 0 s] s by (simp_all add: bind_object_heads_def)
  have hd: "hd s = CHR ''(''" using hd_bind [OF s, of heads] assms(2) by (auto simp: parens_enclose_def)
  show ?thesis
    using assms(2) s hd last first_balance_squash [of ?b False 0] first_balance_squash [of s False 0]
    by (auto simp: parens_enclose_def)
qed

lemma standalone_bind:
  assumes "head_names heads" "standalone n s"
  shows "standalone n (bind_object_heads s heads)"
proof -
  let ?b = "bind_object_heads s heads"
  have s: "s \<noteq> []" using assms(2) by (simp add: standalone_def)
  have b: "?b \<noteq> []" "last ?b = last s" "squash ?b = squash s"
    using last_bind [OF assms(1), of 0 s] squash_bind [OF assms(1), of 0 s] s by (simp_all add: bind_object_heads_def)
  have ops: "\<forall>c\<in>set (level_ops n). \<not> neutral c" by (auto simp: level_ops_def)
  have "plain_char (CHR ''@'')" by (simp add: plain_char_def white_space_def)
  then have "plain_char (hd ?b)" "hd ?b \<noteq> CHR ''=''"
    using hd_bind [OF s, of heads] assms(2) by (auto simp: standalone_def)
  moreover have "calm (level_ops n) False 0 ?b" "balanced False 0 ?b"
    using calm_squash [OF ops, of False 0 s] calm_squash [OF ops, of False 0 ?b] balanced_squash [of False 0 s]
      balanced_squash [of False 0 ?b] b(3) assms(2) by (simp_all add: standalone_def)
  ultimately show ?thesis
    unfolding standalone_def b(2) using assms(2) b(1) parens_enclose_bind [OF assms(1), of s] by (simp add: standalone_def) blast
qed

lemma wf_bound: "head_names heads \<Longrightarrow> wf_tree t \<Longrightarrow> wf_tree (bound_tree heads t)"
proof (induction t)
  case (Tree_leaf s)
  then have "s \<noteq> []" by (simp add: standalone_def)
  then show ?case using Tree_leaf standalone_bind hd_bind [of s heads] by auto
qed (auto simp: list_all_iff)

text \<open>The bound text of a tree parses to the tree with its leaves bound.\<close>

lemma bind_no_heads: "bind_from [] q prev 0 s = s"
  by (induction s arbitrary: q prev) (simp_all add: found_head_def)

lemma bound_tree_none: "bound_tree [] t = t"
  by (induction t) (simp_all add: bind_object_heads_def bind_no_heads map_idI)

lemma parse_bound_tree:
  assumes "head_names heads" "wf_tree t" "heads = [] \<or> (\<forall>s\<in>set (leaves_of t). closed_text s)"
  shows "parse_bool_tree (bind_object_heads (show_tree t) heads) = bound_tree heads t"
proof (cases "heads = []")
  case True
  then show ?thesis
    using parse_printed_tree [OF assms(2)] by (simp add: bound_tree_none bind_object_heads_def bind_no_heads)
next
  case False
  then show ?thesis
    using bind_printed [OF assms(1)] parse_printed_tree [OF wf_bound [OF assms(1,2)]] assms(3) by simp
qed

end
