(* ===== verification/Conditions.thy ===== *)
theory Conditions
  imports ExprPrint BindHeads EventPump
begin

text \<open>
  \<open>mcp-server/src/handlers.rs\<close>: how the condition of a stop point is evaluated on a suspended frame -
  comparisons of values with literals and with each other, the short-circuit evaluation of a boolean tree,
  and the bindings of the event.  Resolving an expression in a frame (\<open>resolve_expression\<close>) is the parameter
  \<open>resolve\<close>.
\<close>

type_synonym resolver = "u64 \<Rightarrow> frame \<Rightarrow> string \<Rightarrow> conn \<Rightarrow> (string + tagged_value) \<times> conn"

section \<open>Comparing\<close>

fun value_as_f64 :: "value_data \<Rightarrow> u64 option" where
  "value_as_f64 (VInt v) = Some (f64_of_int (sint v))"
| "value_as_f64 (VLong v) = Some (f64_of_int (sint v))"
| "value_as_f64 (VShort v) = Some (f64_of_int (sint v))"
| "value_as_f64 (VByte v) = Some (f64_of_int (sint v))"
| "value_as_f64 (VChar v) = Some (f64_of_int (uint v))"
| "value_as_f64 (VFloat v) = Some (f64_of_f32 v)"
| "value_as_f64 (VDouble v) = Some v"
| "value_as_f64 (VBoolean _) = None"
| "value_as_f64 (VObject _) = None"
| "value_as_f64 VVoid = None"

fun arglit_as_f64 :: "arg_lit \<Rightarrow> u64 option" where
  "arglit_as_f64 (Lit_int v) = Some (f64_of_int (sint v))"
| "arglit_as_f64 (Lit_long v) = Some (f64_of_int (sint v))"
| "arglit_as_f64 (Lit_float v) = Some (f64_of_f32 v)"
| "arglit_as_f64 (Lit_double v) = Some v"
| "arglit_as_f64 (Lit_char v) = Some (f64_of_int (uint v))"
| "arglit_as_f64 (Lit_bool _) = None"
| "arglit_as_f64 Lit_null = None"
| "arglit_as_f64 (Lit_str _) = None"
| "arglit_as_f64 (Lit_expr _) = None"

definition compare_f64 :: "u64 \<Rightarrow> u64 \<Rightarrow> string \<Rightarrow> string + bool" where
  "compare_f64 l r op =
     (if op = ''=='' then Inr (f64_cmp (=) l r)
      else if op = ''!='' then Inr (\<not> f64_cmp (=) l r)
      else if op = ''<'' then Inr (f64_cmp (<) l r)
      else if op = ''>'' then Inr (f64_cmp (>) l r)
      else if op = ''<='' then Inr (f64_cmp (\<le>) l r)
      else if op = ''>='' then Inr (f64_cmp (\<ge>) l r)
      else Inl ''bad operator'')"

text \<open>The answer of an operator that only tests equality.\<close>

definition equality_only :: "string \<Rightarrow> string \<Rightarrow> bool \<Rightarrow> string + bool" where
  "equality_only refusal op equal =
     (if op = ''=='' then Inr equal else if op = ''!='' then Inr (\<not> equal) else Inl refusal)"

definition unsupported_comparison :: "string" where
  "unsupported_comparison = ''Unsupported comparison (numbers, booleans, null, or String value compares only)''"

definition java_string :: "string" where "java_string = ''Ljava/lang/String;''"

definition compare_object :: "debuggee \<Rightarrow> u64 \<Rightarrow> string \<Rightarrow> arg_lit \<Rightarrow> conn \<Rightarrow> (string + bool) \<times> conn" where
  "compare_object d i op rlit c =
     (case rlit of
        Lit_null \<Rightarrow> (equality_only ''only == / != with null'' op (i = 0), c)
      | Lit_str s \<Rightarrow>
          if i = 0 then (Inr (op = ''!=''), c)
          else (case get_object_reference_type d i c of
                  (Inl e, c1) \<Rightarrow> (Inl (''Failed to resolve type: '' @ show_jdwp_error e), c1)
                | (Inr t, c1) \<Rightarrow>
                    (case get_signature d t c1 of (sig, c2) \<Rightarrow>
                       if (case sig of Inr n \<Rightarrow> n | Inl _ \<Rightarrow> []) = java_string
                       then (case get_string_value d i c2 of
                               (Inl e, c3) \<Rightarrow> (Inl (''Failed to read string: '' @ show_jdwp_error e), c3)
                             | (Inr sv, c3) \<Rightarrow> (equality_only ''only == / != for strings'' op (sv = s), c3))
                       else (Inl ''Left side is not a String'', c2)))
      | _ \<Rightarrow> (Inl unsupported_comparison, c))"

definition compare_values :: "debuggee \<Rightarrow> tagged_value \<Rightarrow> string \<Rightarrow> arg_lit \<Rightarrow> conn \<Rightarrow> (string + bool) \<times> conn" where
  "compare_values d lv op rlit c =
     (case (value_as_f64 (val_data lv), arglit_as_f64 rlit) of
        (Some l, Some r) \<Rightarrow> (compare_f64 l r op, c)
      | _ \<Rightarrow>
          (case (val_data lv, rlit) of
             (VBoolean l, Lit_bool r) \<Rightarrow> (equality_only ''only == / != for booleans'' op (l = r), c)
           | (VObject i, _) \<Rightarrow> compare_object d i op rlit c
           | _ \<Rightarrow> (Inl unsupported_comparison, c)))"

definition string_value_of :: "debuggee \<Rightarrow> u64 \<Rightarrow> conn \<Rightarrow> string option \<times> conn" where
  "string_value_of d i c =
     (if i = 0 then (None, c)
      else (case get_object_reference_type d i c of
              (Inl _, c1) \<Rightarrow> (None, c1)
            | (Inr t, c1) \<Rightarrow>
                (case get_signature d t c1 of
                   (Inl _, c2) \<Rightarrow> (None, c2)
                 | (Inr sig, c2) \<Rightarrow>
                     if sig \<noteq> java_string then (None, c2)
                     else (case get_string_value d i c2 of
                             (Inl _, c3) \<Rightarrow> (None, c3) | (Inr s, c3) \<Rightarrow> (Some s, c3)))))"

definition compare_resolved :: "debuggee \<Rightarrow> tagged_value \<Rightarrow> string \<Rightarrow> tagged_value \<Rightarrow> conn \<Rightarrow> (string + bool) \<times> conn" where
  "compare_resolved d lv op rv c =
     (case (value_as_f64 (val_data lv), value_as_f64 (val_data rv)) of
        (Some l, Some r) \<Rightarrow> (compare_f64 l r op, c)
      | _ \<Rightarrow>
          (case (val_data lv, val_data rv) of
             (VBoolean l, VBoolean r) \<Rightarrow> (equality_only ''only == / != for booleans'' op (l = r), c)
           | (VObject l, VObject r) \<Rightarrow>
               if op \<noteq> ''=='' \<and> op \<noteq> ''!='' then (Inl ''only == / != when comparing objects'', c)
               else (case string_value_of d l c of (a, c1) \<Rightarrow>
                     case string_value_of d r c1 of (b, c2) \<Rightarrow>
                       let equal = (case (a, b) of (Some x, Some y) \<Rightarrow> x = y | _ \<Rightarrow> l = r)
                       in (Inr (if op = ''=='' then equal else \<not> equal), c2))
           | _ \<Rightarrow> (Inl (''Unsupported comparison (compare numbers with numbers, booleans with booleans, or objects ''
                      @ ''with objects)''), c)))"

section \<open>Evaluating\<close>

definition binding_get :: "condition_bindings \<Rightarrow> string \<Rightarrow> tagged_value option" where
  "binding_get b name =
     (if name = ''exception'' then map_option value_object (cb_exception b)
      else if name = ''newValue'' then cb_new_value b else None)"

definition object_heads :: "condition_bindings \<Rightarrow> (string \<times> u64) list" where
  "object_heads b =
     (case cb_exception b of Some i \<Rightarrow> [(''exception'', i)] | None \<Rightarrow> [])
     @ (case map_option val_data (cb_new_value b) of
          Some (VObject i) \<Rightarrow> if i \<noteq> 0 then [(''newValue'', i)] else []
        | _ \<Rightarrow> [])"

definition bound_or_resolved :: "resolver \<Rightarrow> condition_bindings \<Rightarrow> u64 \<Rightarrow> frame \<Rightarrow> string \<Rightarrow> conn
    \<Rightarrow> (string + tagged_value) \<times> conn" where
  "bound_or_resolved resolve b thread fr expr c =
     (case binding_get b (trim expr) of Some v \<Rightarrow> (Inr v, c) | None \<Rightarrow> resolve thread fr expr c)"

definition eval_condition_leaf :: "resolver \<Rightarrow> debuggee \<Rightarrow> u64 \<Rightarrow> frame \<Rightarrow> condition_bindings \<Rightarrow> string \<Rightarrow> conn
    \<Rightarrow> (string + bool) \<times> conn" where
  "eval_condition_leaf resolve d thread fr b leaf c =
     (case split_comparison leaf of
        Some (lhs, op, rhs) \<Rightarrow>
          (case bound_or_resolved resolve b thread fr lhs c of
             (Inl e, c1) \<Rightarrow> (Inl e, c1)
           | (Inr lv, c1) \<Rightarrow>
               (case binding_get b (trim rhs) of
                  Some rv \<Rightarrow> compare_resolved d lv op rv c1
                | None \<Rightarrow>
                    (case parse_lit (trim rhs) of
                       Inl e \<Rightarrow> (Inl e, c1)
                     | Inr (Lit_expr e) \<Rightarrow>
                         (case resolve thread fr e c1 of
                            (Inl e', c2) \<Rightarrow> (Inl e', c2)
                          | (Inr rv, c2) \<Rightarrow> compare_resolved d lv op rv c2)
                     | Inr rlit \<Rightarrow> compare_values d lv op rlit c1)))
      | None \<Rightarrow>
          (case bound_or_resolved resolve b thread fr leaf c of
             (Inl e, c1) \<Rightarrow> (Inl e, c1)
           | (Inr v, c1) \<Rightarrow>
               (case val_data v of
                  VBoolean x \<Rightarrow> (Inr x, c1)
                | _ \<Rightarrow> (Inl ''Condition did not evaluate to a boolean'', c1))))"

text \<open>The tree, short-circuiting; \<open>leaf\<close> evaluates one leaf.\<close>

fun eval_bool_tree :: "(string \<Rightarrow> conn \<Rightarrow> (string + bool) \<times> conn) \<Rightarrow> bool_tree \<Rightarrow> conn \<Rightarrow> (string + bool) \<times> conn"
  and eval_any :: "(string \<Rightarrow> conn \<Rightarrow> (string + bool) \<times> conn) \<Rightarrow> bool_tree list \<Rightarrow> conn \<Rightarrow> (string + bool) \<times> conn"
  and eval_all :: "(string \<Rightarrow> conn \<Rightarrow> (string + bool) \<times> conn) \<Rightarrow> bool_tree list \<Rightarrow> conn \<Rightarrow> (string + bool) \<times> conn" where
  "eval_bool_tree leaf (Tree_or ts) c = eval_any leaf ts c"
| "eval_bool_tree leaf (Tree_and ts) c = eval_all leaf ts c"
| "eval_bool_tree leaf (Tree_not t) c = (case eval_bool_tree leaf t c of (r, c1) \<Rightarrow> (res_map Not r, c1))"
| "eval_bool_tree leaf (Tree_leaf s) c = leaf s c"
| "eval_any leaf [] c = (Inr False, c)"
| "eval_any leaf (t # ts) c =
     (case eval_bool_tree leaf t c of
        (Inl e, c1) \<Rightarrow> (Inl e, c1)
      | (Inr True, c1) \<Rightarrow> (Inr True, c1)
      | (Inr False, c1) \<Rightarrow> eval_any leaf ts c1)"
| "eval_all leaf [] c = (Inr True, c)"
| "eval_all leaf (t # ts) c =
     (case eval_bool_tree leaf t c of
        (Inl e, c1) \<Rightarrow> (Inl e, c1)
      | (Inr False, c1) \<Rightarrow> (Inr False, c1)
      | (Inr True, c1) \<Rightarrow> eval_all leaf ts c1)"

definition eval_condition :: "resolver \<Rightarrow> debuggee \<Rightarrow> u64 \<Rightarrow> frame \<Rightarrow> string \<Rightarrow> condition_bindings \<Rightarrow> conn
    \<Rightarrow> (string + bool) \<times> conn" where
  "eval_condition resolve d thread fr cond b c =
     eval_bool_tree (eval_condition_leaf resolve d thread fr b)
       (parse_bool_tree (bind_object_heads cond (object_heads b))) c"

definition resolve_trace_expr :: "resolver \<Rightarrow> debuggee \<Rightarrow> u64 \<Rightarrow> frame \<Rightarrow> string \<Rightarrow> conn
    \<Rightarrow> (string + tagged_value) \<times> conn" where
  "resolve_trace_expr resolve d thread fr expr c =
     (if \<not> expr_is_boolean expr then resolve thread fr expr c
      else (case eval_condition resolve d thread fr expr bindings_default c of
              (r, c1) \<Rightarrow> (res_map value_bool r, c1)))"

section \<open>What a tree means\<close>

text \<open>
  The meaning of a tree under a truth value for every leaf.  A leaf may fail instead of having one: the value of a
  tree under an outcome for every leaf, where an alternative has the outcome of its first operand that is not false
  and a conjunction that of its first operand that is not true, and the leaves reached on the way.
\<close>

fun tree_holds :: "(string \<Rightarrow> bool) \<Rightarrow> bool_tree \<Rightarrow> bool" where
  "tree_holds v (Tree_or ts) = list_ex (tree_holds v) ts"
| "tree_holds v (Tree_and ts) = list_all (tree_holds v) ts"
| "tree_holds v (Tree_not t) = (\<not> tree_holds v t)"
| "tree_holds v (Tree_leaf s) = v s"

definition first_other :: "'a \<Rightarrow> 'a list \<Rightarrow> 'a" where
  "first_other x xs = (case find (\<lambda>y. y \<noteq> x) xs of None \<Rightarrow> x | Some y \<Rightarrow> y)"

fun tree_value :: "(string \<Rightarrow> string + bool) \<Rightarrow> bool_tree \<Rightarrow> string + bool" where
  "tree_value v (Tree_or ts) = first_other (Inr False) (map (tree_value v) ts)"
| "tree_value v (Tree_and ts) = first_other (Inr True) (map (tree_value v) ts)"
| "tree_value v (Tree_not t) = res_map Not (tree_value v t)"
| "tree_value v (Tree_leaf s) = v s"

definition until_first :: "('a \<Rightarrow> bool) \<Rightarrow> 'a list \<Rightarrow> 'a list" where
  "until_first p xs = takeWhile (\<lambda>x. \<not> p x) xs @ take 1 (dropWhile (\<lambda>x. \<not> p x) xs)"

lemma until_first_simps [simp]:
  "until_first p [] = []"
  "until_first p (x # xs) = (if p x then [x] else x # until_first p xs)"
  by (simp_all add: until_first_def)

lemma first_other_simps [simp]:
  "first_other x [] = x" "first_other x (y # ys) = (if y = x then first_other x ys else y)"
  by (simp_all add: first_other_def)

fun visited :: "(string \<Rightarrow> string + bool) \<Rightarrow> bool_tree \<Rightarrow> string list" where
  "visited v (Tree_or ts) =
     concat (map snd (until_first (\<lambda>(r, _). r \<noteq> Inr False) (map (\<lambda>t. (tree_value v t, visited v t)) ts)))"
| "visited v (Tree_and ts) =
     concat (map snd (until_first (\<lambda>(r, _). r \<noteq> Inr True) (map (\<lambda>t. (tree_value v t, visited v t)) ts)))"
| "visited v (Tree_not t) = visited v t"
| "visited v (Tree_leaf s) = [s]"

lemma eval_bound_tree:
  "(\<And>s c. s \<in> set (leaves_of t) \<Longrightarrow> leaf (bind_object_heads s heads) c = (v s, step s c)) \<Longrightarrow>
     eval_bool_tree leaf (bound_tree heads t) c = (tree_value v t, fold step (visited v t) c)"
proof (induction t arbitrary: c)
  case (Tree_or ts)
  have "eval_any leaf (map (bound_tree heads) ts) c = (tree_value v (Tree_or ts), fold step (visited v (Tree_or ts)) c)"
    using Tree_or
  proof (induction ts arbitrary: c)
    case (Cons t ts)
    then show ?case by (cases "tree_value v t") (auto split: bool.split)
  qed simp
  then show ?case by simp
next
  case (Tree_and ts)
  have "eval_all leaf (map (bound_tree heads) ts) c = (tree_value v (Tree_and ts), fold step (visited v (Tree_and ts)) c)"
    using Tree_and
  proof (induction ts arbitrary: c)
    case (Cons t ts)
    then show ?case by (cases "tree_value v t") (auto split: bool.split)
  qed simp
  then show ?case by simp
qed (simp_all add: case_prod_unfold)

text \<open>Where no leaf that is reached fails, the value is the meaning; a failure is that of the last leaf reached.\<close>

lemma value_is_meaning:
  "\<forall>s\<in>set (visited v t). \<exists>x. v s = Inr x \<Longrightarrow> tree_value v t = Inr (tree_holds (\<lambda>s. v s = Inr True) t)"
proof (induction t)
  case (Tree_or ts)
  have "\<forall>s\<in>set (visited v (Tree_or ts)). \<exists>x. v s = Inr x \<Longrightarrow>
      tree_value v (Tree_or ts) = Inr (tree_holds (\<lambda>s. v s = Inr True) (Tree_or ts))"
    using Tree_or.IH
  proof (induction ts)
    case (Cons t ts)
    have "set (visited v t) \<subseteq> set (visited v (Tree_or (t # ts)))" by simp
    then have t: "tree_value v t = Inr (tree_holds (\<lambda>s. v s = Inr True) t)"
      using Cons.prems(1) by (intro Cons.prems(2)) auto
    show ?case
    proof (cases "tree_holds (\<lambda>s. v s = Inr True) t = False")
      case True
      then have "tree_value v t = Inr False" using t by simp
      then have step: "visited v (Tree_or (t # ts)) = visited v t @ visited v (Tree_or ts)"
          "tree_value v (Tree_or (t # ts)) = tree_value v (Tree_or ts)" by simp_all
      have "tree_value v (Tree_or ts) = Inr (tree_holds (\<lambda>s. v s = Inr True) (Tree_or ts))"
      proof (rule Cons.IH)
        show "\<forall>s\<in>set (visited v (Tree_or ts)). \<exists>x. v s = Inr x" using Cons.prems(1) unfolding step by simp
      qed (rule Cons.prems(2), simp_all)
      then show ?thesis unfolding step(2) using True by simp
    qed (use t in simp)
  qed simp
  then show ?case using Tree_or.prems by blast
next
  case (Tree_and ts)
  have "\<forall>s\<in>set (visited v (Tree_and ts)). \<exists>x. v s = Inr x \<Longrightarrow>
      tree_value v (Tree_and ts) = Inr (tree_holds (\<lambda>s. v s = Inr True) (Tree_and ts))"
    using Tree_and.IH
  proof (induction ts)
    case (Cons t ts)
    have "set (visited v t) \<subseteq> set (visited v (Tree_and (t # ts)))" by simp
    then have t: "tree_value v t = Inr (tree_holds (\<lambda>s. v s = Inr True) t)"
      using Cons.prems(1) by (intro Cons.prems(2)) auto
    show ?case
    proof (cases "tree_holds (\<lambda>s. v s = Inr True) t = True")
      case True
      then have "tree_value v t = Inr True" using t by simp
      then have step: "visited v (Tree_and (t # ts)) = visited v t @ visited v (Tree_and ts)"
          "tree_value v (Tree_and (t # ts)) = tree_value v (Tree_and ts)" by simp_all
      have "tree_value v (Tree_and ts) = Inr (tree_holds (\<lambda>s. v s = Inr True) (Tree_and ts))"
      proof (rule Cons.IH)
        show "\<forall>s\<in>set (visited v (Tree_and ts)). \<exists>x. v s = Inr x" using Cons.prems(1) unfolding step by simp
      qed (rule Cons.prems(2), simp_all)
      then show ?thesis unfolding step(2) using True by simp
    qed (use t in simp)
  qed simp
  then show ?case using Tree_and.prems by blast
qed auto

lemma failure_is_last: "tree_value v t = Inl e \<Longrightarrow> visited v t \<noteq> [] \<and> v (last (visited v t)) = Inl e"
proof (induction t arbitrary: e)
  case (Tree_or ts)
  then show ?case
  proof (induction ts)
    case (Cons t ts)
    then show ?case by (cases "tree_value v t = Inr False") auto
  qed simp
next
  case (Tree_and ts)
  then show ?case
  proof (induction ts)
    case (Cons t ts)
    then show ?case by (cases "tree_value v t = Inr True") auto
  qed simp
next
  case (Tree_not t)
  then show ?case by (cases "tree_value v t") auto
qed simp

lemma object_head_names: "head_names (object_heads b)"
proof -
  have "list_all ident_char ''exception''" "list_all ident_char ''newValue''"
    by (simp_all add: ident_char_def ident_start_def is_alpha_def)
  moreover have "fst h = ''exception'' \<or> fst h = ''newValue''" if "h \<in> set (object_heads b)" for h
    using that unfolding object_heads_def by (auto split: option.splits value_data.splits if_splits)
  ultimately show ?thesis unfolding head_names_def by fastforce
qed

text \<open>
  C9: the text of a condition means what its operators say, with the objects of its event bound by name in every
  leaf, and is evaluated left to right with short circuits: an alternative stops at its first operand that is not
  false and a conjunction at its first operand that is not true, so exactly the leaves up to there send anything to
  the debuggee, in order. Where none of them fails the condition has its boolean meaning; where one fails it is the
  last one reached, and its error is the condition's. A leaf is a text the scanners leave as they found it and,
  where the event binds an object, one that closes its literals.
\<close>

theorem condition_meaning:
  assumes "\<And>s c. s \<in> set (leaves_of t) \<Longrightarrow>
      eval_condition_leaf resolve d thread fr b (bind_object_heads s (object_heads b)) c = (v s, step s c)"
    and "wf_tree t" "object_heads b = [] \<or> (\<forall>s\<in>set (leaves_of t). closed_text s)"
  shows "eval_condition resolve d thread fr (show_tree t) b c = (tree_value v t, fold step (visited v t) c)
    \<and> ((\<forall>s\<in>set (visited v t). \<exists>x. v s = Inr x) \<longrightarrow> tree_value v t = Inr (tree_holds (\<lambda>s. v s = Inr True) t))
    \<and> (\<forall>e. tree_value v t = Inl e \<longrightarrow> visited v t \<noteq> [] \<and> v (last (visited v t)) = Inl e)"
  using eval_bound_tree [of t "eval_condition_leaf resolve d thread fr b" "object_heads b" v step c, OF assms(1)]
    parse_bound_tree [OF object_head_names assms(2,3)] value_is_meaning failure_is_last
  by (auto simp: eval_condition_def)

text \<open>A resolver that knows two flags and a field of the object with id 7, and fails at anything else.\<close>

definition known_flags :: resolver where
  "known_flags = (\<lambda>_ _ expr c. (Inr (value_bool (expr = ''paid'')), c))"

definition known_fields :: resolver where
  "known_fields = (\<lambda>_ _ expr c. (if expr \<in> {''paid'', ''@0x7.fatal''} then Inr (value_bool True)
     else if expr = ''late'' then Inr (value_bool False) else Inl ''unknown'', c))"

lemma sample_bound:
  "bind_object_heads ''exception.fatal'' [(''exception'', 7)] = ''@0x7.fatal''"
  "bind_object_heads ''late'' [(''exception'', 7)] = ''late''" "bind_object_heads ''gone'' [(''exception'', 7)] = ''gone''"
  "bind_object_heads ''paid'' [(''exception'', 7)] = ''paid''"
  by code_simp+

lemma sample_leaf:
  "s \<in> {''late'', ''paid'', ''gone'', ''@0x7.fatal''} \<Longrightarrow> split_comparison s = None \<and> trim s = s"
  by (elim insertE emptyE; hypsubst; code_simp)

theorem condition_meaning_witness:
  "\<forall>d thread fr c. eval_condition known_fields d thread fr ''late || exception.fatal && !(gone || paid)''
     (bindings_default\<lparr>cb_exception := Some 7\<rparr>) c = (Inl ''unknown'', c)"
proof (intro allI)
  fix d thread fr c
  let ?b = "bindings_default\<lparr>cb_exception := Some 7\<rparr>"
  let ?t = "Tree_or [Tree_leaf ''late'', Tree_and [Tree_leaf ''exception.fatal'',
      Tree_not (Tree_or [Tree_leaf ''gone'', Tree_leaf ''paid''])]]"
  let ?v = "\<lambda>s. if s = ''paid'' \<or> s = ''exception.fatal'' then Inr True else if s = ''late'' then Inr False else Inl ''unknown''"
  have heads: "object_heads ?b = [(''exception'', 7)]" by (simp add: object_heads_def bindings_default_def)
  have leaf: "eval_condition_leaf known_fields d thread fr ?b s c = (if s = ''gone'' then Inl ''unknown'' else Inr (s \<noteq> ''late''), c)"
    if "s \<in> {''late'', ''paid'', ''gone'', ''@0x7.fatal''}" for s c
    using sample_leaf [OF that] that
    by (auto simp: eval_condition_leaf_def bound_or_resolved_def binding_get_def bindings_default_def known_fields_def value_bool_def)
  have "eval_condition_leaf known_fields d thread fr ?b (bind_object_heads s (object_heads ?b)) c = (?v s, c)"
    if "s \<in> set (leaves_of ?t)" for s c
  proof -
    have "s \<in> {''late'', ''exception.fatal'', ''gone'', ''paid''}" using that by simp
    then show ?thesis
      unfolding heads by (elim insertE emptyE) (simp_all add: sample_bound leaf)
  qed
  moreover have "standalone 2 s \<and> hd s \<noteq> CHR ''!'' \<and> closed_text s" if "s \<in> {''late'', ''exception.fatal'', ''gone'', ''paid''}" for s
    using that by (elim insertE emptyE) (simp_all add: standalone_def plain_char_def white_space_def level_ops_def parens_enclose_def
        closed_text_def q_step_def unquoted_def)
  then have "wf_tree ?t" "\<forall>s\<in>set (leaves_of ?t). closed_text s" by simp_all
  ultimately have "eval_condition known_fields d thread fr (show_tree ?t) ?b c
      = (tree_value ?v ?t, fold (\<lambda>_ c. c) (visited ?v ?t) c)"
    using condition_meaning [of ?t known_fields d thread fr ?b ?v "\<lambda>_ c. c" c] by blast
  moreover have "fold (\<lambda>_ c. c) xs c = c" for xs :: "string list" by (induction xs) auto
  ultimately show "eval_condition known_fields d thread fr ''late || exception.fatal && !(gone || paid)'' ?b c
      = (Inl ''unknown'', c)"
    by (simp add: wrapped_def)
qed

section \<open>A quote in a character literal\<close>

text \<open>Inside a string the splitter on \<open>&&\<close> and \<open>||\<close> sees nothing.\<close>

lemma split_bool_in_string:
  "CHR 0x22 \<notin> set s \<Longrightarrow> split_bool_from op True depth cur s = [trim (cur @ s)]"
  by (induction s arbitrary: cur) (auto simp: nest_def)

definition quote_condition :: "string \<Rightarrow> string \<Rightarrow> string" where
  "quote_condition x y = x @ '' == '' @ tick [CHR 0x22] @ '' && '' @ y"

lemma quote_condition_leaf:
  assumes "is_ident x" "is_ident y"
  shows "parse_bool_tree (quote_condition x y) = Tree_leaf (quote_condition x y)"
proof -
  let ?e = "quote_condition x y"
  note x = ident_starts [OF assms(1)] ident_word [OF assms(1)] and y = ident_word [OF assms(2)]
  have word: "word_like ?e" using x y by (simp add: quote_condition_def word_like_def)
  have "CHR 0x22 \<notin> set y" using ident_calm(4) [OF assms(2)] by blast
  then have rest: "split_bool_from op True 0 cur (CHR 0x27 # '' && '' @ y) = [trim (cur @ CHR 0x27 # '' && '' @ y)]" for op cur
    by (intro split_bool_in_string) simp
  have "calm ''|&'' False 0 (x @ '' == '' @ [CHR 0x27])"
    using calm_append [OF ident_calm(1) [OF assms(1)], of 0 "'' == '' @ [CHR 0x27]"] by simp
  then have split: "split_bool ?e op = [?e]" if "op \<in> {CHR ''|'', CHR ''&''}" for op
    using split_bool_from_calm [of "''|&''" False 0 "x @ '' == '' @ [CHR 0x27]" op 0 "[]" "CHR 0x22 # CHR 0x27 # '' && '' @ y"]
      that rest [of op "x @ '' == '' @ [CHR 0x27, CHR 0x22]"] word_like_trim [OF word]
    by (auto simp: split_bool_def quote_condition_def tick_def)
  have "\<not> parens_enclose ?e" using x(1,2) by (auto simp: parens_enclose_def quote_condition_def)
  then have "strip_enclosing_parens (trim ?e) = ?e"
    using word_like_trim [OF word] by (simp add: strip_enclosing_parens_def) (subst strip_parens.simps, simp)
  moreover have "hd ?e \<noteq> CHR ''!''" using x(1,2) by (auto simp: quote_condition_def)
  ultimately show ?thesis using split by (subst parse_bool_tree.simps) simp
qed

lemma quote_condition_split:
  assumes "is_ident x" "is_ident y"
  shows "split_comparison (quote_condition x y) = Some (x, ''=='', tick [CHR 0x22] @ '' && '' @ y)"
proof -
  note x = ident_word [OF assms(1)] and y = ident_word [OF assms(2)]
  have "trim (x @ '' '') = x" "trim ('' '' @ tick [CHR 0x22] @ '' && '' @ y) = tick [CHR 0x22] @ '' && '' @ y"
    using trim_spaced_plain [of x "[]" "'' ''"] trim_spaced_plain [of "tick [CHR 0x22] @ '' && '' @ y" "'' ''" "[]"] x y
    by (simp_all add: word_like_def tick_def)
  then show ?thesis
    using first_comparison [of "x @ '' ''" "[]" "'' '' @ tick [CHR 0x22] @ '' && '' @ y"] ident_calm(4) [OF assms(1)] x
    by (simp add: split_comparison_def quote_condition_def word_like_def ball_Un tick_def)
qed

lemma quote_condition_right:
  assumes "is_ident y"
  shows "is_err (parse_lit (tick [CHR 0x22] @ '' && '' @ y))"
proof -
  let ?e = "tick [CHR 0x22] @ '' && '' @ y"
  note y = ident_word [OF assms] ident_starts [OF assms]
  have word: "word_like ?e" using y by (simp add: word_like_def tick_def)
  have "c \<notin> set ''([)].,'' \<and> c \<noteq> CHR 0x22 \<and> c \<noteq> CHR 0x27" if "c \<in> set y" for c
  proof -
    have "bland c" "c \<noteq> CHR ''.''" using that y(1) by (auto simp only: list_all_iff)
    then show ?thesis by (simp add: bland_def)
  qed
  then have chars: "\<forall>c\<in>set ('' && '' @ y). c \<notin> set ''([)].,'' \<and> c \<noteq> CHR 0x22 \<and> c \<noteq> CHR 0x27" by simp
  have tail: "settled opn cl f ('' && '' @ y)" if "set opn \<union> set cl \<union> set f \<subseteq> set ''([)].,''" for opn cl f
    using chars that by (intro settled_plain) blast
  have lit: "q_step unquoted (CHR 0x27) = unquoted\<lparr>q_char := True\<rparr>" "inside (unquoted\<lparr>q_char := True\<rparr>)"
    "q_step (unquoted\<lparr>q_char := True\<rparr>) (CHR 0x22) = unquoted\<lparr>q_char := True\<rparr>"
    "q_step (unquoted\<lparr>q_char := True\<rparr>) (CHR 0x27) = unquoted"
    by (simp_all add: q_step_def unquoted_def inside_def)
  have settled: "settled opn cl f ?e" if "set opn \<union> set cl \<union> set f \<subseteq> set ''([)].,''" for opn cl f
  proof -
    have "CHR 0x27 \<notin> set ''([)].,''" by simp
    then have "CHR 0x27 \<notin> set opn \<union> set cl \<union> set f" using that by blast
    then have "settled opn cl f (tick [CHR 0x22])" by (simp add: tick_def lit)
    from settled_append [OF this tail [OF that]] show ?thesis by simp
  qed
  have "split_at_depth ''(['' '')]'' CHR ''.'' unquoted 0 [] ?e = ([], ?e, 0, unquoted)"
    using split_at_depth_settled [OF settled [of "''([''" "'')]''" "''.''"], of "CHR ''.''" 0 "[]" "[]"] by simp
  then have raws: "split_segments ?e = Inr [?e]"
    using word_like_trim [OF word] word by (simp add: split_segments_def word_like_def)
  have "split_subscripts ?e = Inr (?e, [])"
    using split_subscripts_show [OF settled [of "''(''" "'')''" "''[''"] word, of "[]"] by (simp add: show_subs_def)
  moreover have "is_err (parse_head parse_lit ?e [])"
  proof -
    have "CHR ''('' \<notin> set ?e" using ident_calm(4) [OF assms] by (auto simp: tick_def)
    moreover have "\<not> is_ident ?e" by (simp add: is_ident_def ident_start_def is_alpha_def tick_def)
    ultimately show ?thesis by (simp add: parse_head_def tick_def)
  qed
  ultimately have "is_err (parse_seg parse_lit ?e)" by (simp add: parse_seg_def)
  then have "is_err (parse_expr_with parse_lit ?e)"
    using raws word_like_trim [OF word] word
    by (cases "parse_seg parse_lit ?e") (auto simp: parse_expr_with_def Let_def word_like_def)
  moreover have "parse_number_lit ?e = None" by (rule parse_number_name) (simp_all add: tick_def)
  moreover have "last ?e \<noteq> CHR 0x27"
    using y(2) ident_calm(4) [OF assms] last_in_set [of y] by (auto simp: tick_def)
  ultimately show ?thesis
    using word_like_trim [OF word] by (subst parse_lit.simps) (auto simp: tick_def Let_def split: sum.split)
qed

text \<open>
  C12: a condition that compares with the character literal of a double quote is not split at the \<open>&&\<close> after
  it: the splitter takes the quote for the start of a string, the whole text becomes one comparison whose
  right side does not parse, and a condition that fails is taken to hold - so the stop point fires on every
  hit, whatever the other half says and whatever the debuggee answers.
\<close>

theorem quote_literal_fires_always:
  assumes "is_ident x" "is_ident y" "object_heads b = []" "binding_get b (tick [CHR 0x22] @ '' && '' @ y) = None"
    and "pe_eval_condition env = (\<lambda>t fr. eval_condition resolve (pe_debuggee env) t fr)"
  shows "parse_bool_tree (quote_condition x y) = Tree_leaf (quote_condition x y)
     \<and> fst (evaluate_condition_on_thread env thread (quote_condition x y) b c) = True"
proof -
  have "bind_object_heads (quote_condition x y) (object_heads b) = quote_condition x y"
    by (simp add: bind_object_heads_def bind_no_heads assms(3))
  moreover have "trim (tick [CHR 0x22] @ '' && '' @ y) = tick [CHR 0x22] @ '' && '' @ y"
    using ident_word [OF assms(2)] ident_starts [OF assms(2)]
    by (intro word_like_trim) (simp add: word_like_def tick_def)
  ultimately have err: "is_err (fst (eval_condition resolve d thread fr (quote_condition x y) b c))" for d fr c
    using quote_condition_leaf [OF assms(1,2)] quote_condition_split [OF assms(1,2)] quote_condition_right [OF assms(2)]
      assms(4)
    by (cases "parse_lit (tick [CHR 0x22] @ '' && '' @ y)")
      (auto simp: eval_condition_def eval_condition_leaf_def split: prod.split sum.split)
  then have "\<exists>e. fst (eval_condition resolve d thread fr (quote_condition x y) b c) = Inl e" for d fr c
    using err [of d fr c] by (cases "fst (eval_condition resolve d thread fr (quote_condition x y) b c)") auto
  then have "fst (evaluate_condition_on_thread env thread (quote_condition x y) b c)"
    unfolding evaluate_condition_on_thread_def assms(5)
    by (auto split: prod.split sum.split list.split) (metis fst_conv sum.distinct(1))
  then show ?thesis using quote_condition_leaf [OF assms(1,2)] by simp
qed

definition condition_env :: "resolver \<Rightarrow> pump_env \<Rightarrow> pump_env" where
  "condition_env resolve env =
     env\<lparr>pe_eval_condition := \<lambda>t fr. eval_condition resolve (pe_debuggee env) t fr\<rparr>"

theorem quote_literal_fires_always_witness:
  "\<forall>env c. fst (evaluate_condition_on_thread (condition_env known_flags env) 1 (quote_condition ''sep'' ''late'')
     bindings_default c)"
proof (intro allI)
  fix env c
  have "is_ident ''sep''" "is_ident ''late''"
    by (simp_all add: is_ident_def ident_char_def ident_start_def is_alpha_def)
  then show "fst (evaluate_condition_on_thread (condition_env known_flags env) 1 (quote_condition ''sep'' ''late'')
      bindings_default c)"
    using quote_literal_fires_always [of "''sep''" "''late''" bindings_default "condition_env known_flags env"
        known_flags 1 c]
    by (simp add: object_heads_def bindings_default_def binding_get_def tick_def condition_env_def)
qed

end
