(* ===== verification/Json.thy ===== *)
theory Json
  imports Containers Types
begin

text \<open>
  JSON values as \<open>serde_json\<close> holds them - objects are maps in key order, a number is an integer or a double -
  and the reading of one argument out of an object of arguments, as \<open>args.rs\<close> declares it: every unknown
  name is refused, a name without a default must be there, an optional one may be \<open>null\<close>.
\<close>

datatype json =
    J_null
  | J_bool bool
  | J_int int
  | J_float u64
  | J_str string
  | J_arr "json list"
  | J_obj "(string \<times> json) list"

type_synonym jmap = "(string, json) btree"

text \<open>An object is given by its entries in key order: \<open>json_object\<close> inserts them one by one.\<close>

definition json_object :: "(string \<times> json) list \<Rightarrow> jmap" where
  "json_object kvs = fold (\<lambda>(k, v). bt_put k v) kvs []"

definition j_strs :: "string list \<Rightarrow> json" where "j_strs ss = J_arr (map J_str ss)"

section \<open>Reading a value\<close>

fun as_bool :: "json \<Rightarrow> bool option" where
  "as_bool (J_bool b) = Some b"
| "as_bool _ = None"

fun as_str :: "json \<Rightarrow> string option" where
  "as_str (J_str s) = Some s"
| "as_str _ = None"

fun as_obj :: "json \<Rightarrow> jmap option" where
  "as_obj (J_obj m) = Some m"
| "as_obj _ = None"

fun as_arr :: "json \<Rightarrow> json list option" where
  "as_arr (J_arr xs) = Some xs"
| "as_arr _ = None"

fun as_u64 :: "json \<Rightarrow> nat option" where
  "as_u64 (J_int i) = (if 0 \<le> i \<and> i < 2 ^ 64 then Some (nat i) else None)"
| "as_u64 _ = None"

fun as_i64 :: "json \<Rightarrow> int option" where
  "as_i64 (J_int i) = (if - (2 ^ 63) \<le> i \<and> i < 2 ^ 63 then Some i else None)"
| "as_i64 _ = None"

fun as_i32 :: "json \<Rightarrow> u32 option" where
  "as_i32 (J_int i) = (if - (2 ^ 31) \<le> i \<and> i < 2 ^ 31 then Some (word_of_int i) else None)"
| "as_i32 _ = None"

fun as_u32 :: "json \<Rightarrow> u32 option" where
  "as_u32 (J_int i) = (if 0 \<le> i \<and> i < 2 ^ 32 then Some (word_of_int i) else None)"
| "as_u32 _ = None"

definition as_u64_word :: "json \<Rightarrow> u64 option" where
  "as_u64_word j = map_option word_of_nat (as_u64 j)"

definition as_strs :: "json \<Rightarrow> string list option" where
  "as_strs j = Option.bind (as_arr j) (\<lambda>xs. those (map as_str xs))"

definition as_option :: "(json \<Rightarrow> 'a option) \<Rightarrow> json \<Rightarrow> 'a option option" where
  "as_option f j = (if j = J_null then Some None else map_option Some (f j))"

lemma those_strs [simp]: "those (map (as_str \<circ> J_str) ss) = Some ss"
  by (induction ss) auto

lemma as_strs_j_strs [simp]: "as_strs (j_strs ss) = Some ss"
  by (simp add: as_strs_def j_strs_def)

lemma as_i32_sint [simp]: "as_i32 (J_int (sint (w :: u32))) = Some w"
  using sint_ge [of w] sint_less [of w] by simp

lemma as_u32_uint [simp]: "as_u32 (J_int (uint (w :: u32))) = Some w"
  using uint_bounded [of w] by simp

lemma as_u64_word_uint [simp]: "as_u64_word (J_int (uint (w :: u64))) = Some w"
  using uint_bounded [of w] by (simp add: as_u64_word_def)

lemma as_u64_int [simp]: "n < 2 ^ 64 \<Longrightarrow> as_u64 (J_int (int n)) = Some n"
  by simp

lemma as_option_simps [simp]:
  "as_option f J_null = Some None"
  "j \<noteq> J_null \<Longrightarrow> as_option f j = map_option Some (f j)"
  by (simp_all add: as_option_def)

section \<open>Reading a struct of arguments\<close>

text \<open>
  What is wrong with a set of arguments. The sentence \<open>serde\<close> writes about it is reduced to the argument it
  is about.
\<close>

datatype arg_error = Unknown_argument string | Bad_argument string | Missing_argument string

definition invalid_arguments :: "arg_error \<Rightarrow> string" where
  "invalid_arguments e =
     ''Invalid arguments: ''
     @ (case e of
          Unknown_argument k \<Rightarrow> ''unknown field `'' @ k @ ''`''
        | Bad_argument k \<Rightarrow> ''invalid type for `'' @ k @ ''`''
        | Missing_argument k \<Rightarrow> ''missing field `'' @ k @ ''`'')"

text \<open>A field of a struct: its name, whether it has a default, and which values it accepts.\<close>

type_synonym field_spec = "string \<times> bool \<times> (json \<Rightarrow> bool)"

definition required :: "string \<Rightarrow> (json \<Rightarrow> 'a option) \<Rightarrow> field_spec" where
  "required k f = (k, True, \<lambda>j. f j \<noteq> None)"

definition defaulted :: "string \<Rightarrow> (json \<Rightarrow> 'a option) \<Rightarrow> field_spec" where
  "defaulted k f = (k, False, \<lambda>j. f j \<noteq> None)"

definition entry_error :: "field_spec list \<Rightarrow> string \<times> json \<Rightarrow> arg_error option" where
  "entry_error spec kv =
     (case map_of spec (fst kv) of
        None \<Rightarrow> Some (Unknown_argument (fst kv))
      | Some (_, ok) \<Rightarrow> if ok (snd kv) then None else Some (Bad_argument (fst kv)))"

definition args_error :: "field_spec list \<Rightarrow> jmap \<Rightarrow> arg_error option" where
  "args_error spec m =
     (case List.map_filter (entry_error spec) m of
        e # _ \<Rightarrow> Some e
      | [] \<Rightarrow>
          (case filter (\<lambda>(k, req, _). req \<and> bt_get k m = None) spec of
             (k, _) # _ \<Rightarrow> Some (Missing_argument k)
           | [] \<Rightarrow> None))"

definition field_or :: "'a \<Rightarrow> (json \<Rightarrow> 'a option) \<Rightarrow> string \<Rightarrow> jmap \<Rightarrow> 'a" where
  "field_or d f k m = (case bt_get k m of None \<Rightarrow> d | Some j \<Rightarrow> (case f j of None \<Rightarrow> d | Some v \<Rightarrow> v))"

definition field_opt :: "(json \<Rightarrow> 'a option) \<Rightarrow> string \<Rightarrow> jmap \<Rightarrow> 'a option" where
  "field_opt f k m = field_or None (as_option f) k m"

text \<open>A struct reads its entries exactly when each is known and accepted and none it needs is missing.\<close>

lemma args_error_None:
  "args_error spec m = None \<longleftrightarrow>
     list_all (\<lambda>(k, v). case map_of spec k of None \<Rightarrow> False | Some (_, ok) \<Rightarrow> ok v) m
     \<and> list_all (\<lambda>(k, req, _). req \<longrightarrow> bt_get k m \<noteq> None) spec"
proof -
  have entries: "List.map_filter (entry_error spec) m = []
      \<longleftrightarrow> list_all (\<lambda>(k, v). case map_of spec k of None \<Rightarrow> False | Some (_, ok) \<Rightarrow> ok v) m"
    by (induction m) (auto simp: map_filter_simps entry_error_def split: option.split if_splits)
  have missing: "filter (\<lambda>(k, req, _). req \<and> bt_get k m = None) xs = []
      \<longleftrightarrow> list_all (\<lambda>(k, req, _). req \<longrightarrow> bt_get k m \<noteq> None) xs" for xs :: "field_spec list"
    by (induction xs) auto
  show ?thesis
    unfolding args_error_def
    by (cases "List.map_filter (entry_error spec) m"; cases "filter (\<lambda>(k, req, _). req \<and> bt_get k m = None) spec")
      (use entries missing [of spec] in auto)
qed

end
