(* ===== verification/ArmArgs.thy ===== *)
theory ArmArgs
  imports Json Conditions Rescue
begin

text \<open>
  \<open>mcp-server/src/args.rs\<close> and \<open>handlers.rs\<close>: the arguments of the five tools that arm a stop point - how
  they are read out of JSON, what they settle before anything is armed (the caps of a trace, the session's
  default expressions, the hit budget) and which combinations are refused.
\<close>

section \<open>One or several\<close>

datatype class_patterns = CP_one string | CP_many "string list"

fun as_patterns :: "json \<Rightarrow> class_patterns option" where
  "as_patterns (J_str s) = Some (CP_one s)"
| "as_patterns j = map_option CP_many (as_strs j)"

fun raw_patterns :: "class_patterns \<Rightarrow> string list" where
  "raw_patterns (CP_one s) = [s]"
| "raw_patterns (CP_many v) = v"

definition add_pattern :: "string list \<Rightarrow> string \<Rightarrow> string list" where
  "add_pattern out p = (let t = trim p in if t = [] \<or> t \<in> set out then out else out @ [t])"

definition patterns_list :: "class_patterns \<Rightarrow> string list" where
  "patterns_list p = foldl add_pattern [] (raw_patterns p)"

datatype trace_exprs_arg = TE_one string | TE_many "string list"

fun as_trace_exprs :: "json \<Rightarrow> trace_exprs_arg option" where
  "as_trace_exprs (J_str s) = Some (TE_one s)"
| "as_trace_exprs j = map_option TE_many (as_strs j)"

fun trace_exprs_into_vec :: "trace_exprs_arg \<Rightarrow> string list" where
  "trace_exprs_into_vec (TE_one s) = filter (\<lambda>e. e \<noteq> []) [trim s]"
| "trace_exprs_into_vec (TE_many v) = filter (\<lambda>e. e \<noteq> []) (map trim v)"

definition trace_exprs_of :: "trace_exprs_arg option \<Rightarrow> string list" where
  "trace_exprs_of arg = (case arg of None \<Rightarrow> [] | Some a \<Rightarrow> trace_exprs_into_vec a)"

lemma as_patterns_strs [simp]: "as_patterns (j_strs v) = Some (CP_many v)"
  by (simp add: j_strs_def as_strs_def)

lemma as_trace_exprs_strs [simp]: "as_trace_exprs (j_strs v) = Some (TE_many v)"
  by (simp add: j_strs_def as_strs_def)

section \<open>The arguments\<close>

definition DEFAULT_TRACE_FRAMES :: nat where "DEFAULT_TRACE_FRAMES = 3"

definition DEFAULT_MAX_CLASSES :: nat where "DEFAULT_MAX_CLASSES = 20"

text \<open>The five fields that every arming tool repeats (\<open>trait TraceArgs\<close>).\<close>

record trace_args =
  ta_trace :: bool
  ta_frames :: nat
  ta_max_length :: "nat option"
  ta_max_hits :: "u32 option"
  ta_expr :: "trace_exprs_arg option"

record set_breakpoint_args =
  sb_class_pattern :: class_patterns
  sb_line :: "u32 option"
  sb_method :: "string option"
  sb_hit_count :: "u32 option"
  sb_instance_id :: "string option"
  sb_thread_id :: "string option"
  sb_condition :: "string option"
  sb_trace :: trace_args
  sb_max_classes :: nat

record set_exception_args =
  sx_class_pattern :: "class_patterns option"
  sx_caught :: bool
  sx_uncaught :: bool
  sx_hit_count :: "u32 option"
  sx_instance_id :: "string option"
  sx_condition :: "string option"
  sx_trace :: trace_args
  sx_thread_id :: "string option"
  sx_max_classes :: nat

record set_watchpoint_args =
  sw_class_name :: class_patterns
  sw_field_name :: string
  sw_modify :: bool
  sw_access :: bool
  sw_hit_count :: "u32 option"
  sw_instance_id :: "string option"
  sw_condition :: "string option"
  sw_trace :: trace_args
  sw_thread_id :: "string option"
  sw_max_classes :: nat

record set_method_args =
  sj_class_pattern :: class_patterns
  sj_method :: "string option"
  sj_hit_count :: "u32 option"
  sj_instance_id :: "string option"
  sj_exclude_classes :: "string list option"
  sj_condition :: "string option"
  sj_trace :: trace_args
  sj_thread_id :: "string option"

record set_monitor_args =
  so_kinds :: "string list option"
  so_thread_id :: "string option"
  so_monitor_class :: "string option"
  so_instance_id :: "string option"
  so_min_duration_ms :: "u64 option"
  so_hit_count :: "u32 option"
  so_trace :: trace_args

section \<open>Reading them\<close>

definition trace_fields :: "field_spec list" where
  "trace_fields =
     [defaulted ''trace'' as_bool, defaulted ''trace_expr'' (as_option as_trace_exprs),
      defaulted ''trace_max_hits'' (as_option as_u32), defaulted ''trace_frames'' as_u64,
      defaulted ''trace_max_length'' (as_option as_u64)]"

definition trace_args_of :: "bool \<Rightarrow> jmap \<Rightarrow> trace_args" where
  "trace_args_of dflt m =
     \<lparr>ta_trace = field_or dflt as_bool ''trace'' m, ta_frames = field_or DEFAULT_TRACE_FRAMES as_u64 ''trace_frames'' m,
      ta_max_length = field_opt as_u64 ''trace_max_length'' m, ta_max_hits = field_opt as_u32 ''trace_max_hits'' m,
      ta_expr = field_opt as_trace_exprs ''trace_expr'' m\<rparr>"

definition filter_fields :: "field_spec list" where
  "filter_fields =
     [defaulted ''hit_count'' (as_option as_i32), defaulted ''instance_id'' (as_option as_str),
      defaulted ''thread_id'' (as_option as_str)]"

definition breakpoint_fields :: "field_spec list" where
  "breakpoint_fields =
     [required ''class_pattern'' as_patterns, defaulted ''line'' (as_option as_i32),
      defaulted ''method'' (as_option as_str), defaulted ''condition'' (as_option as_str),
      defaulted ''max_classes'' as_u64] @ filter_fields @ trace_fields"

definition breakpoint_args_of :: "jmap \<Rightarrow> set_breakpoint_args" where
  "breakpoint_args_of m =
     \<lparr>sb_class_pattern = field_or (CP_many []) as_patterns ''class_pattern'' m, sb_line = field_opt as_i32 ''line'' m,
      sb_method = field_opt as_str ''method'' m, sb_hit_count = field_opt as_i32 ''hit_count'' m,
      sb_instance_id = field_opt as_str ''instance_id'' m, sb_thread_id = field_opt as_str ''thread_id'' m,
      sb_condition = field_opt as_str ''condition'' m, sb_trace = trace_args_of False m,
      sb_max_classes = field_or DEFAULT_MAX_CLASSES as_u64 ''max_classes'' m\<rparr>"

definition exception_fields :: "field_spec list" where
  "exception_fields =
     [defaulted ''class_pattern'' (as_option as_patterns), defaulted ''caught'' as_bool,
      defaulted ''uncaught'' as_bool, defaulted ''condition'' (as_option as_str),
      defaulted ''max_classes'' as_u64] @ filter_fields @ trace_fields"

definition exception_args_of :: "jmap \<Rightarrow> set_exception_args" where
  "exception_args_of m =
     \<lparr>sx_class_pattern = field_opt as_patterns ''class_pattern'' m, sx_caught = field_or True as_bool ''caught'' m,
      sx_uncaught = field_or True as_bool ''uncaught'' m, sx_hit_count = field_opt as_i32 ''hit_count'' m,
      sx_instance_id = field_opt as_str ''instance_id'' m, sx_condition = field_opt as_str ''condition'' m,
      sx_trace = trace_args_of False m, sx_thread_id = field_opt as_str ''thread_id'' m,
      sx_max_classes = field_or DEFAULT_MAX_CLASSES as_u64 ''max_classes'' m\<rparr>"

definition watchpoint_fields :: "field_spec list" where
  "watchpoint_fields =
     [required ''class_name'' as_patterns, required ''field_name'' as_str, defaulted ''modify'' as_bool,
      defaulted ''access'' as_bool, defaulted ''condition'' (as_option as_str),
      defaulted ''max_classes'' as_u64] @ filter_fields @ trace_fields"

definition watchpoint_args_of :: "jmap \<Rightarrow> set_watchpoint_args" where
  "watchpoint_args_of m =
     \<lparr>sw_class_name = field_or (CP_many []) as_patterns ''class_name'' m, sw_field_name = field_or [] as_str ''field_name'' m,
      sw_modify = field_or True as_bool ''modify'' m, sw_access = field_or False as_bool ''access'' m,
      sw_hit_count = field_opt as_i32 ''hit_count'' m, sw_instance_id = field_opt as_str ''instance_id'' m,
      sw_condition = field_opt as_str ''condition'' m, sw_trace = trace_args_of False m,
      sw_thread_id = field_opt as_str ''thread_id'' m,
      sw_max_classes = field_or DEFAULT_MAX_CLASSES as_u64 ''max_classes'' m\<rparr>"

definition method_exit_fields :: "field_spec list" where
  "method_exit_fields =
     [required ''class_pattern'' as_patterns, defaulted ''method'' (as_option as_str),
      defaulted ''exclude_classes'' (as_option as_strs), defaulted ''condition'' (as_option as_str)]
     @ filter_fields @ trace_fields"

definition method_exit_args_of :: "jmap \<Rightarrow> set_method_args" where
  "method_exit_args_of m =
     \<lparr>sj_class_pattern = field_or (CP_many []) as_patterns ''class_pattern'' m, sj_method = field_opt as_str ''method'' m,
      sj_hit_count = field_opt as_i32 ''hit_count'' m, sj_instance_id = field_opt as_str ''instance_id'' m,
      sj_exclude_classes = field_opt as_strs ''exclude_classes'' m, sj_condition = field_opt as_str ''condition'' m,
      sj_trace = trace_args_of True m, sj_thread_id = field_opt as_str ''thread_id'' m\<rparr>"

definition monitor_fields :: "field_spec list" where
  "monitor_fields =
     [defaulted ''kinds'' (as_option as_strs), defaulted ''monitor_class'' (as_option as_str),
      defaulted ''min_duration_ms'' (as_option as_u64_word)] @ filter_fields @ trace_fields"

definition monitor_args_of :: "jmap \<Rightarrow> set_monitor_args" where
  "monitor_args_of m =
     \<lparr>so_kinds = field_opt as_strs ''kinds'' m, so_thread_id = field_opt as_str ''thread_id'' m,
      so_monitor_class = field_opt as_str ''monitor_class'' m, so_instance_id = field_opt as_str ''instance_id'' m,
      so_min_duration_ms = field_opt as_u64_word ''min_duration_ms'' m, so_hit_count = field_opt as_i32 ''hit_count'' m,
      so_trace = trace_args_of True m\<rparr>"

definition SESSION_ID_ARG :: string where "SESSION_ID_ARG = ''session_id''"

text \<open>
  The session id is taken out first; the rest must be the fields of the struct. Arguments are an object, as
  the entries of a set and the calls of a client are.
\<close>

definition parse_struct :: "field_spec list \<Rightarrow> (jmap \<Rightarrow> 'a) \<Rightarrow> jmap \<Rightarrow> string + 'a" where
  "parse_struct spec build m =
     (let m' = bt_del SESSION_ID_ARG m
      in case args_error spec m' of Some e \<Rightarrow> Inl (invalid_arguments e) | None \<Rightarrow> Inr (build m'))"

section \<open>What the trace arguments settle\<close>

definition MAX_TRACE_FRAMES :: nat where "MAX_TRACE_FRAMES = 20"

definition clamp_trace_frames :: "bool \<Rightarrow> nat \<Rightarrow> nat \<times> string option" where
  "clamp_trace_frames trace requested =
     (if \<not> trace then (0, None)
      else if MAX_TRACE_FRAMES < requested
      then (MAX_TRACE_FRAMES, Some (''trace_frames '' @ show_nat requested @ '' exceeds the '' @ show_nat MAX_TRACE_FRAMES
     @ ''-frame cap and was clamped to '' @ show_nat MAX_TRACE_FRAMES @ '' '' @ uni 0x2014
     @ '' deeper chains cost JDWP round trips on every hit; use a suspending breakpoint with ''
     @ ''debug.get_stack if you need the whole stack.''))
      else (requested, None))"

definition DEFAULT_TRACE_LOCAL_LENGTH :: nat where "DEFAULT_TRACE_LOCAL_LENGTH = 100"

definition DEFAULT_TRACE_EXPR_LENGTH :: nat where "DEFAULT_TRACE_EXPR_LENGTH = 200"

definition MAX_TRACE_LENGTH :: nat where "MAX_TRACE_LENGTH = 4000"

definition clamp_trace_max_length :: "bool \<Rightarrow> nat option \<Rightarrow> nat option \<times> string option" where
  "clamp_trace_max_length trace requested =
     (if \<not> trace then (None, None)
      else (case requested of
          None \<Rightarrow> (None, None)
        | Some n \<Rightarrow>
            if n = 0
            then (Some MAX_TRACE_LENGTH, Some (''trace_max_length 0 does NOT mean '' @ [CHR 0x22] @ ''no limit'' @ [CHR 0x22]
     @ '' the way trace_max_hits 0 does '' @ uni 0x2014
     @ '' a capture is stored in a bounded buffer, so it was read as the maximum, '' @ show_nat MAX_TRACE_LENGTH
     @ ''.''))
            else if MAX_TRACE_LENGTH < n
            then (Some MAX_TRACE_LENGTH, Some (''trace_max_length '' @ show_nat n @ '' exceeds the '' @ show_nat MAX_TRACE_LENGTH
     @ ''-character cap and was clamped to '' @ show_nat MAX_TRACE_LENGTH @ '' '' @ uni 0x2014
     @ '' a captured value is held in the trace buffer, so the cap times the hit budget is ''
     @ ''memory this server keeps; read a bigger value from a suspended frame with ''
     @ ''debug.evaluate {max_result_length} instead.''))
            else (Some n, None)))"

definition trace_lengths :: "nat option \<Rightarrow> nat \<times> nat" where
  "trace_lengths m = (case m of Some n \<Rightarrow> (n, n) | None \<Rightarrow> (DEFAULT_TRACE_LOCAL_LENGTH, DEFAULT_TRACE_EXPR_LENGTH))"

definition merge_clamp_notes :: "string option \<Rightarrow> string option \<Rightarrow> string option" where
  "merge_clamp_notes first second =
     (case (first, second) of
        (Some a, Some b) \<Rightarrow> Some (a @ [CHR 0x0A] @ ''   '' @ uni 0x26A0 @ uni 0xFE0F @ ''  '' @ b)
      | (Some a, None) \<Rightarrow> Some a
      | (None, b) \<Rightarrow> b)"

definition MAX_TRACE_EXPRS :: nat where "MAX_TRACE_EXPRS = 4"

definition clamp_trace_exprs :: "string list \<Rightarrow> string list \<times> string option" where
  "clamp_trace_exprs exprs =
     (if length exprs \<le> MAX_TRACE_EXPRS then (exprs, None)
      else (take MAX_TRACE_EXPRS exprs, Some (''trace_expr had '' @ show_nat (length exprs) @ '' expressions, which exceeds the '' @ show_nat MAX_TRACE_EXPRS
     @ ''-expression cap '' @ uni 0x2014 @ '' kept the first '' @ show_nat MAX_TRACE_EXPRS @ '' and DROPPED: ''
     @ join '', '' (drop MAX_TRACE_EXPRS exprs) @ ''. Each one is evaluated inside the capture window on every hit, and capture is ''
     @ ''serialised, so they divide the same throughput budget trace_max_hits is charged against.'')))"

definition resolve_trace_exprs :: "trace_exprs_arg option \<Rightarrow> string list \<Rightarrow> string list \<times> string option \<times> bool" where
  "resolve_trace_exprs asked session_default =
     (let own = trace_exprs_of asked
      in if own = [] \<and> session_default \<noteq> [] then (session_default, None, True)
         else (case clamp_trace_exprs own of (kept, why) \<Rightarrow> (kept, why, False)))"

definition inline_trace_exprs :: "string list \<Rightarrow> string" where
  "inline_trace_exprs exprs = join '', '' exprs"

definition describe_took_session_default :: "bool \<Rightarrow> string list \<Rightarrow> string" where
  "describe_took_session_default inherited exprs =
     (if \<not> inherited \<or> exprs = [] then []
      else ([CHR 0x0A] @ ''   '' @ uni 0x21AA @ '' Recording the session default trace_expr ('' @ inline_trace_exprs exprs @ '') ''
     @ uni 0x2014 @ '' this stop point named none of its own. Pass trace_expr here to record something else, ''
     @ ''or set none on debug.attach to stop this.''))"

definition trace_budget_for :: "bool \<Rightarrow> u32 option \<Rightarrow> u32 option" where
  "trace_budget_for trace max_hits =
     (if \<not> trace then None
      else (case max_hits of Some n \<Rightarrow> if n = 0 then None else Some n | None \<Rightarrow> Some DEFAULT_TRACE_BUDGET))"

record resolved_trace =
  rt_frames :: nat
  rt_max_length :: "nat option"
  rt_exprs :: "string list"
  rt_budget :: "u32 option"
  rt_note :: "string option"
  rt_session_default_note :: string

definition resolve_trace :: "trace_args \<Rightarrow> string list \<Rightarrow> resolved_trace" where
  "resolve_trace a session_default =
     (case clamp_trace_frames (ta_trace a) (ta_frames a) of (frames, depth_note) \<Rightarrow>
      case clamp_trace_max_length (ta_trace a) (ta_max_length a) of (max_length, length_note) \<Rightarrow>
      case resolve_trace_exprs (ta_expr a) session_default of (exprs, expr_note, took) \<Rightarrow>
        \<lparr>rt_frames = frames, rt_max_length = max_length, rt_exprs = exprs,
         rt_budget = trace_budget_for (ta_trace a) (ta_max_hits a),
         rt_note = merge_clamp_notes (merge_clamp_notes depth_note length_note) expr_note,
         rt_session_default_note = describe_took_session_default took exprs\<rparr>)"

section \<open>Refusals before anything is armed\<close>

definition parse_instance_filter :: "string option \<Rightarrow> string + u64 option" where
  "parse_instance_filter raw =
     (let t = (case raw of None \<Rightarrow> [] | Some r \<Rightarrow> trim r)
      in if t = [] then Inr None
         else (case parse_object_handle t of
             Some i \<Rightarrow> Inr (Some i)
           | None \<Rightarrow>
               (case (if (prefix ''0x'' t \<or> prefix ''0X'' t) \<and> drop 2 t \<noteq> [] then u64_from_hex (drop 2 t) else None) of
                  Some i \<Rightarrow> Inr (Some i)
                | None \<Rightarrow> Inl (''instance_id '' @ [CHR 0x27] @ t @ [CHR 0x27] @ '' is not an object handle. Use the @0x'' @ uni 0x2026
     @ '' form every reply prints beside an object '' @ uni 0x2014 @ '' a trace snapshot'' @ [CHR 0x27]
     @ ''s locals, an expanded field tree, or debug.list_instances.''))))"

definition check_instance_filter_supported :: "debuggee \<Rightarrow> u64 option \<Rightarrow> conn \<Rightarrow> (string + unit) \<times> conn" where
  "check_instance_filter_supported d inst c =
     (if inst = None then (Inr (), c)
      else (case capabilities_new d c of (caps, c1) \<Rightarrow>
          (case caps of
             Inr k \<Rightarrow>
               if can_use_instance_filters k then Inr ()
               else Inl (''This JVM reports canUseInstanceFilters = false, so it will refuse an InstanceOnly ''
     @ ''modifier outright (JDWP answers INTERNAL (113), which names nothing). Drop instance_id ''
     @ ''and use a condition instead '' @ uni 0x2014
     @ '' we evaluate that on our side, so it needs nothing from the debuggee.'')
           | Inl _ \<Rightarrow> Inr (), c1)))"

definition THREAD_STATUS_ZOMBIE :: u32 where "THREAD_STATUS_ZOMBIE = 0"

definition thread_is_alive :: "debuggee \<Rightarrow> u64 \<Rightarrow> conn \<Rightarrow> bool \<times> conn" where
  "thread_is_alive d tid c =
     (case get_thread_status d tid c of (r, c1) \<Rightarrow>
        (case r of Inr (status, _) \<Rightarrow> status \<noteq> THREAD_STATUS_ZOMBIE | Inl _ \<Rightarrow> False, c1))"

definition dead_thread_filter :: "u64 \<Rightarrow> string" where
  "dead_thread_filter tid = (uni 0x1F6D1 @ '' thread_id 0x'' @ show_hex (unat tid)
     @ '' is not a live thread on this connection, so a stop point filtered to it could never '' @ ''fire.''
     @ [CHR 0x0A] @ ''   JDWP thread ids are **per-connection** and are not stable across a reattach ''
     @ uni 0x2014 @ '' an id from an earlier session, or from notes, will not work. A pooled request thread ''
     @ ''can also simply have been retired since you read it.'' @ [CHR 0x0A]
     @ ''   Re-read debug.list_threads (or debug.thread_dump) for a current id, then arm.'')"

definition check_thread_filter :: "debuggee \<Rightarrow> u64 option \<Rightarrow> conn \<Rightarrow> (string + unit) \<times> conn" where
  "check_thread_filter d thread c =
     (case thread of
        None \<Rightarrow> (Inr (), c)
      | Some tid \<Rightarrow>
          (case thread_is_alive d tid c of (alive, c1) \<Rightarrow>
             (if alive then Inr () else Inl (dead_thread_filter tid), c1)))"

definition check_filters :: "debuggee \<Rightarrow> u64 option \<Rightarrow> u64 option \<Rightarrow> conn \<Rightarrow> (string + unit) \<times> conn" where
  "check_filters d thread inst c =
     (case check_instance_filter_supported d inst c of
        (Inl e, c1) \<Rightarrow> (Inl e, c1)
      | (Inr _, c1) \<Rightarrow> check_thread_filter d thread c1)"

definition refuse_instance_filter_on_method_exit :: "u64 option \<Rightarrow> string + unit" where
  "refuse_instance_filter_on_method_exit inst =
     (if inst = None then Inr ()
      else Inl (''instance_id is not supported on debug.set_method_exit_stop. '' @ INERT_RULE
     @ '' A method-exit request records both instances even when the filter names one, which is ''
     @ ''why this one is refused rather than passed through: there is a `this` on the event, so ''
     @ ''nothing about the reply would look wrong.''))"

definition refuse_counted_method_filter :: "u32 option \<Rightarrow> string option \<Rightarrow> string + unit" where
  "refuse_counted_method_filter hit_count method =
     (case (hit_count, method) of
        (Some n, Some m) \<Rightarrow> Inl (''hit_count and method cannot be combined on a method-exit stop point. JDWP applies the ''
     @ ''Count modifier to the REQUEST, which fires for every method of the class '' @ uni 0x2014
     @ '' there is no method-name modifier, which is why `method` is filtered on this side in ''
     @ ''the first place. So hit_count:'' @ show_int (sint n) @ '' with method:'' @ [CHR 0x22] @ m @ [CHR 0x22]
     @ '' would ask the JVM for exit number '' @ show_int (sint n)
     @ '' of ANY method of this class, drop it here as the wrong method, and leave the stop ''
     @ ''point spent having reported nothing. Either drop `method` (hit_count:'' @ show_int (sint n)
     @ '' then means return number '' @ show_int (sint n)
     @ '' out of the class, whichever method produced it), or drop `hit_count` and use ''
     @ ''trace_max_hits to bound how many exits of `'' @ m @ ''` are recorded '' @ uni 0x2014
     @ '' that is a server-side count of the FIRST N, which is what you usually want anyway.'')
      | _ \<Rightarrow> Inr ())"

definition refuse_broad_suspending_method_exit :: "bool \<Rightarrow> string \<Rightarrow> string option \<Rightarrow> string + unit" where
  "refuse_broad_suspending_method_exit trace class_pattern method =
     (if trace \<or> \<not> (is_wildcard class_pattern \<or> method = None) then Inr ()
      else Inl (uni 0x1F6D1 @ '' Refused: a SUSPENDING method-exit request on `'' @ class_pattern @ ''`'' @ (if method = None then '' (no method filter)'' else [])
     @ '' would freeze every thread on every matching return. JDWP has no method-name filter, so ''
     @ ''a ClassMatch fires for every method of every matching class '' @ uni 0x2014
     @ '' on a hot class that stops the VM faster than anything else this tool can do.'' @ [CHR 0x0A]
     @ ''   Either keep trace:true (the default '' @ uni 0x2014
     @ '' snapshots and resumes, read them with debug.get_traces), or narrow it to one concrete ''
     @ ''class AND one method: {'' @ [CHR 0x22] @ ''class_pattern'' @ [CHR 0x22] @ '': '' @ [CHR 0x22]
     @ ''pkg.Class'' @ [CHR 0x22] @ '', '' @ [CHR 0x22] @ ''method'' @ [CHR 0x22] @ '': '' @ [CHR 0x22]
     @ ''save'' @ [CHR 0x22] @ '', '' @ [CHR 0x22] @ ''trace'' @ [CHR 0x22] @ '': false}.''))"

definition trace_expr_what :: "nat \<Rightarrow> nat \<Rightarrow> string" where
  "trace_expr_what n i = (if n = 1 then ''trace_expr'' else ''trace_expr['' @ show_nat i @ '']'')"

definition labelled_exprs :: "string list \<Rightarrow> (string \<times> string) list" where
  "labelled_exprs exprs = map (\<lambda>(i, e). (trace_expr_what (length exprs) i, e)) (List.enumerate 0 exprs)"

definition check_readonly_exprs :: "bool \<Rightarrow> string option \<Rightarrow> string list \<Rightarrow> string + unit" where
  "check_readonly_exprs read_only condition exprs =
     (if \<not> read_only then Inr ()
      else (case filter (\<lambda>(_, e). expr_invokes e)
               ((case condition of None \<Rightarrow> [] | Some c \<Rightarrow> [(''condition'', c)]) @ labelled_exprs exprs) of
          [] \<Rightarrow> Inr ()
        | (what, e) # _ \<Rightarrow> Inl (uni 0x1F512 @ '' Read-only session: the '' @ what @ '' `'' @ e
     @ ''` calls a method, which would have to execute code in the debuggee on every hit '' @ uni 0x2014
     @ '' refused. Use a comparison over fields instead (e.g. `status == '' @ [CHR 0x22] @ ''OPEN'' @ [CHR 0x22]
     @ ''`), or attach without read_only.'')))"

definition watch_kinds :: "set_watchpoint_args \<Rightarrow> string + watch_kind list" where
  "watch_kinds a =
     (let kinds = (if sw_modify a then [WK_Modify] else []) @ (if sw_access a then [WK_Access] else [])
      in if kinds = [] then Inl (''Set at least one of modify/access to true '' @ uni 0x2014 @ '' otherwise nothing is reported.'') else Inr kinds)"

text \<open>
  Lower case, as far as it matters to a comparison with ASCII words: beside the letters A to Z only the
  Kelvin sign has a lower case that is one ASCII letter.
\<close>

fun to_lowercase :: "string \<Rightarrow> string" where
  "to_lowercase [] = []"
| "to_lowercase (c # s) =
     (if CHR 0x41 \<le> c \<and> c \<le> CHR 0x5A then char_of (of_char c + 32 :: nat) # to_lowercase s
      else if c = CHR 0xE2 \<and> take 2 s = [CHR 0x84, CHR 0xAA] then CHR ''k'' # to_lowercase (drop 2 s)
      else c # to_lowercase s)"

definition bad_monitor_kind :: "string \<Rightarrow> string" where
  "bad_monitor_kind raw = ([CHR 0x27] @ raw @ [CHR 0x27]
     @ '' is not a monitor event kind. Use blocked (a thread started waiting for a lock), ''
     @ ''acquired (it got the lock), wait (entering Object.wait()), waited (its wait returned), '' @ ''or ''
     @ [CHR 0x22] @ ''all'' @ [CHR 0x22] @ ''. blocked+acquired and wait+waited are PAIRS '' @ uni 0x2014
     @ '' a duration is measured across the two, so arming one half reports the events without a ''
     @ ''duration.'')"

fun collect_monitor_kinds :: "monitor_kind list \<Rightarrow> string list \<Rightarrow> string + monitor_kind list" where
  "collect_monitor_kinds out [] = Inr out"
| "collect_monitor_kinds out (raw # rest) =
     (let name = to_lowercase (trim raw)
      in if name = ''all'' then Inr monitor_kind_ALL
         else (case find (\<lambda>k. monitor_label k = name) monitor_kind_ALL of
             None \<Rightarrow> Inl (bad_monitor_kind raw)
           | Some k \<Rightarrow> collect_monitor_kinds (if k \<in> set out then out else out @ [k]) rest))"

definition parse_monitor_kinds :: "string list option \<Rightarrow> string + monitor_kind list" where
  "parse_monitor_kinds kinds =
     (case kinds of
        None \<Rightarrow> Inr [MK_Blocked, MK_Acquired]
      | Some l \<Rightarrow> if l = [] then Inr [MK_Blocked, MK_Acquired] else collect_monitor_kinds [] l)"

definition monitor_capabilities :: "debuggee \<Rightarrow> conn \<Rightarrow> (bool \<times> bool) option \<times> conn" where
  "monitor_capabilities d c =
     (case capabilities_new d c of (r, c1) \<Rightarrow>
        (case r of
           Inr k \<Rightarrow> Some (can_request_monitor_events k, can_get_monitor_frame_info k)
         | Inl _ \<Rightarrow> None, c1))"

definition refuse_without_monitor_capability :: "(bool \<times> bool) option \<Rightarrow> string + unit" where
  "refuse_without_monitor_capability caps =
     (case caps of
        Some (False, _) \<Rightarrow> Inl (''This JVM reports canRequestMonitorEvents = false, so it cannot report lock contention ''
     @ ''as events at all '' @ uni 0x2014
     @ '' arming one would come back as a bare NOT_IMPLEMENTED (99). The only lock answer left ''
     @ ''on this JVM is debug.thread_dump with suspend:true, which reads every thread'' @ [CHR 0x27]
     @ ''s monitors from a stopped VM. On a shared instance that freeze is the cost, so take one ''
     @ ''dump and read it rather than polling.'')
      | _ \<Rightarrow> Inr ())"

definition blank :: "string option \<Rightarrow> bool" where
  "blank s = (case s of None \<Rightarrow> True | Some t \<Rightarrow> trim t = [])"

definition refuse_instance_filter_on_monitor :: "string option \<Rightarrow> string + unit" where
  "refuse_instance_filter_on_monitor instance_id =
     (if blank instance_id then Inr ()
      else Inl (''instance_id is not supported on debug.set_monitor_stop. '' @ INERT_RULE @ '' JDWP'' @ [CHR 0x27]
     @ ''s InstanceOnly tests the frame'' @ [CHR 0x27]
     @ ''s `this`, and the MONITOR is a different object from whatever the blocking code is ''
     @ ''executing on '' @ uni 0x2014 @ '' so even if HotSpot applied it, it would not mean '' @ [CHR 0x22]
     @ ''only this lock'' @ [CHR 0x22]
     @ ''. Measured on Temurin 11.0.32 against a probe whose every frame is static: the request ''
     @ ''armed cleanly and reported all three of its locks. Narrow with thread_id, with ''
     @ ''monitor_class on the wait pair, or with min_duration_ms.''))"

definition refuse_suspending_monitor_without_thread :: "bool \<Rightarrow> string option \<Rightarrow> string + unit" where
  "refuse_suspending_monitor_without_thread trace thread_id =
     (if trace \<or> \<not> blank thread_id then Inr ()
      else Inl (uni 0x1F6D1 @ '' Refused: a SUSPENDING monitor stop point with no thread_id would freeze every thread ''
     @ ''on the next contended acquisition anywhere in the JVM '' @ uni 0x2014 @ '' including inside the JDK''
     @ [CHR 0x27] @ ''s own internals, which are contended constantly. Unlike every other stop point there is ''
     @ ''no line, class or method to narrow it to, because contention is not a site you chose.'' @ [CHR 0x0A]
     @ ''   Either keep trace:true (the default '' @ uni 0x2014
     @ '' snapshots and resumes, read them with debug.get_traces), or name the one thread you ''
     @ ''are investigating: {'' @ [CHR 0x22] @ ''thread_id'' @ [CHR 0x22] @ '': '' @ [CHR 0x22] @ ''0x2a''
     @ [CHR 0x22] @ '', '' @ [CHR 0x22] @ ''trace'' @ [CHR 0x22] @ '': false}.''))"

definition refuse_monitor_class_on_contended :: "string option \<Rightarrow> monitor_kind list \<Rightarrow> string + unit" where
  "refuse_monitor_class_on_contended monitor_class kinds =
     (let wrong = map monitor_label (filter (\<lambda>k. \<not> class_filter_tests_monitor k) kinds)
      in if blank monitor_class \<or> wrong = [] then Inr ()
         else Inl (''monitor_class is refused with '' @ join '' and '' wrong @ '' '' @ uni 0x2014 @ '' JDWP'' @ [CHR 0x27]
     @ ''s ClassOnly modifier does not test the monitor'' @ [CHR 0x27]
     @ ''s type on those kinds. The spec defines it per event kind and the monitor reading ''
     @ ''applies only to wait and waited; on blocked and acquired the JVM tests the class of the ''
     @ ''CODE THAT BLOCKED instead. Measured on Temurin 11.0.32 over 3s windows: a ClassOnly ''
     @ ''naming the lock'' @ [CHR 0x27]
     @ ''s type gave 0 events on blocked and 74 on wait, and one naming the blocking code'' @ [CHR 0x27]
     @ ''s class gave 45 on blocked and 0 on wait.'' @ [CHR 0x0A]
     @ ''   So passing it through would arm a stop point scoped to a code location while the ''
     @ ''reply claimed it was scoped to a lock type. Use monitor_class with kinds:['' @ [CHR 0x22] @ ''wait''
     @ [CHR 0x22] @ '','' @ [CHR 0x22] @ ''waited'' @ [CHR 0x22]
     @ ''], or narrow the contended pair with thread_id or min_duration_ms.''))"

definition refuse_unpaired_min_duration :: "u64 option \<Rightarrow> monitor_kind list \<Rightarrow> string + unit" where
  "refuse_unpaired_min_duration min_duration_ms kinds =
     (let unpaired = map monitor_label (filter (\<lambda>k. partner k \<notin> set kinds) kinds)
      in if min_duration_ms = None \<or> unpaired = [] then Inr ()
         else Inl (''min_duration_ms needs BOTH halves of a pair, and '' @ join '' and '' unpaired @ '' '' @ (if length unpaired = 1 then ''is'' else ''are'')
     @ '' armed without its partner. No monitor event carries a duration '' @ uni 0x2014
     @ '' it is measured on this side from the opening event to the closing one '' @ uni 0x2014
     @ '' so with one half there is nothing to compare against a threshold and this stop point ''
     @ ''could never record anything, while every listing showed it armed.'' @ [CHR 0x0A]
     @ ''   Arm the pair: kinds:['' @ [CHR 0x22] @ ''blocked'' @ [CHR 0x22] @ '','' @ [CHR 0x22] @ ''acquired''
     @ [CHR 0x22] @ ''] (the default) or kinds:['' @ [CHR 0x22] @ ''wait'' @ [CHR 0x22] @ '','' @ [CHR 0x22]
     @ ''waited'' @ [CHR 0x22] @ '']. Or drop min_duration_ms and read every event.''))"

definition refuse_counted_min_duration :: "u32 option \<Rightarrow> u64 option \<Rightarrow> string + unit" where
  "refuse_counted_min_duration hit_count min_duration_ms =
     (case (hit_count, min_duration_ms) of
        (Some n, Some ms) \<Rightarrow> Inl (''hit_count and min_duration_ms cannot both be set, and the combination yields nothing ''
     @ ''rather than something imprecise. hit_count is JDWP'' @ [CHR 0x27] @ ''s Count: the JVM reports the ''
     @ show_int (sint n) @ ''th event and then DELETES the request, and it applies that per request '' @ uni 0x2014
     @ '' so it would spend the count on the '' @ show_int (sint n) @ ''th `blocked` and the '' @ show_int (sint n)
     @ ''th `acquired`, which are not the two halves of one pair. Both requests would then be ''
     @ ''gone, leaving no closing event to measure against '' @ show_nat (unat ms) @ ''ms.'' @ [CHR 0x0A]
     @ ''   Pick one: min_duration_ms to see every block over a threshold (bounded by ''
     @ ''trace_max_hits instead), or hit_count to catch the Nth event whatever its duration.'')
      | _ \<Rightarrow> Inr ())"

definition invoking_expr_on_blocked :: "string \<Rightarrow> string \<Rightarrow> string" where
  "invoking_expr_on_blocked what e = (uni 0x1F6D1 @ '' Refused: the '' @ what @ '' `'' @ e
     @ ''` CALLS A METHOD, and the kind blocked is the ONE of the four where the hit thread does ''
     @ ''NOT own the monitor in its own snapshot '' @ uni 0x2014
     @ '' it is queued at a monitorenter, owning nothing. An invocation needing that monitor ''
     @ ''cannot complete, and JDWP HAS NO WAY TO CANCEL ONE: the 2000ms budget frees the ''
     @ ''debugger, not the debuggee.'' @ [CHR 0x0A] @ ''   Measured on Temurin 11.0.32 and 21.0.12 ''
     @ uni 0x2014 @ '' the call finishes when the lock is finally released, and the JVM re-suspends the ''
     @ ''thread at that moment, 1.2s after this server had already resumed it and moved on. The ''
     @ ''thread then stays suspended for ever: nothing here clears it, because the watchdog ''
     @ ''resumes a suspended VM and the VM is running.'' @ [CHR 0x0A] @ ''   Read a FIELD instead '' @ uni 0x2014
     @ '' `lock.name` and `this.pedido.id` need no monitor and are accepted here '' @ uni 0x2014
     @ '' or arm acquired, wait or waited: on all three the thread owns the monitor, so an ''
     @ ''invocation re-enters it and returns (measured, ADR-0036).'')"

definition refuse_invoking_expr_on_the_unowned_kind :: "string list \<Rightarrow> monitor_kind list \<Rightarrow> string + unit" where
  "refuse_invoking_expr_on_the_unowned_kind exprs kinds =
     (if MK_Blocked \<notin> set kinds then Inr ()
      else (case filter (\<lambda>(_, e). expr_invokes e) (labelled_exprs exprs) of
          [] \<Rightarrow> Inr ()
        | (what, e) # _ \<Rightarrow> Inl (invoking_expr_on_blocked what e)))"

definition refuse_bad_monitor_arming :: "set_monitor_args \<Rightarrow> monitor_kind list \<Rightarrow> string + unit" where
  "refuse_bad_monitor_arming a kinds =
     res_bind (refuse_instance_filter_on_monitor (so_instance_id a)) (\<lambda>_.
     res_bind (refuse_suspending_monitor_without_thread (ta_trace (so_trace a)) (so_thread_id a)) (\<lambda>_.
     res_bind (refuse_monitor_class_on_contended (so_monitor_class a) kinds) (\<lambda>_.
     res_bind (refuse_unpaired_min_duration (so_min_duration_ms a) kinds) (\<lambda>_.
     res_bind (refuse_counted_min_duration (so_hit_count a) (so_min_duration_ms a)) (\<lambda>_.
     refuse_invoking_expr_on_the_unowned_kind (trace_exprs_of (ta_expr (so_trace a))) kinds)))))"

section \<open>Which reply a call gets\<close>

definition lone_exact_pattern :: "string list \<Rightarrow> string option" where
  "lone_exact_pattern patterns = (case patterns of [only] \<Rightarrow> if is_wildcard only then None else Some only | _ \<Rightarrow> None)"

definition lone_pattern :: "string list \<Rightarrow> string option" where
  "lone_pattern patterns = (case patterns of [only] \<Rightarrow> Some only | _ \<Rightarrow> None)"

definition takes_lone_exception_path :: "string list \<Rightarrow> bool" where
  "takes_lone_exception_path patterns = (case patterns of [] \<Rightarrow> True | [only] \<Rightarrow> \<not> is_wildcard only | _ \<Rightarrow> False)"

definition no_event_pump_refusal :: "string \<Rightarrow> event_pump \<Rightarrow> string" where
  "no_event_pump_refusal endpoint pump =
     (case pump of
        Pump_running \<Rightarrow> []
      | Pump_ended \<Rightarrow> (''The JVM at '' @ endpoint @ '' is gone '' @ uni 0x2014
     @ '' its event pump exited when the connection closed, so there is nothing left to arm a ''
     @ ''stop point in. Nothing was armed and nothing was sent. debug.list_sessions marks this ''
     @ ''session DEAD; debug.disconnect removes it, and debug.attach opens a session against a ''
     @ ''JVM that is running.'')
      | Pump_unstarted \<Rightarrow> (''The session attached to '' @ endpoint @ '' has no event pump '' @ uni 0x2014
     @ '' nothing is reading this JVM'' @ [CHR 0x27]
     @ ''s events, so a stop point armed on it would suspend the debuggee at its first hit and ''
     @ ''stay that way, whatever trace says. Nothing was armed and nothing was sent. Use ''
     @ ''debug.disconnect on it and debug.attach again; debug.list_sessions marks it NO EVENT '' @ ''PUMP.''))"

text \<open>A session is armed only while its event pump is running.\<close>

definition require_session_for_arming :: "debug_session \<Rightarrow> string + unit" where
  "require_session_for_arming s =
     (case event_pump s of
        Pump_running \<Rightarrow> Inr ()
      | pump \<Rightarrow> Inl (no_event_pump_refusal (ds_endpoint s) pump))"

end
