(* ===== verification/ArmKinds.thy ===== *)
theory ArmKinds
  imports ArmArgs Toggling
begin

text \<open>
  \<open>mcp-server/src/handlers.rs\<close> and \<open>reply.rs\<close>: the five tools that arm a stop point, from the arguments as a
  JSON object to the requests sent and the stop points registered - a line, an exception, a field, a method
  exit, a monitor - each alone or as a batch of patterns.  Of a reply, the outcome and what it is about are
  kept and the wording is left out; of a batch its rows are kept.
\<close>

section \<open>Replies\<close>

datatype outcome = Outcome_armed | Outcome_deferred

datatype batch_row = Row_armed string | Row_note string | Row_failed string

record batch_rows =
  br_pattern :: string
  br_matched :: "nat option"
  br_rows :: "batch_row list"
  br_skipped_at_cap :: nat

fun row_armed :: "batch_row \<Rightarrow> bool" where
  "row_armed (Row_armed _) = True" | "row_armed _ = False"

fun row_failed :: "batch_row \<Rightarrow> bool" where
  "row_failed (Row_failed _) = True" | "row_failed _ = False"

definition batch_armed :: "batch_rows \<Rightarrow> nat" where
  "batch_armed b = length (filter row_armed (br_rows b))"

definition batch_failed :: "batch_rows \<Rightarrow> nat" where
  "batch_failed b = length (filter row_failed (br_rows b))"

datatype reply_body =
    About_line armed_breakpoint
  | About_pending string
  | About_patterns "pattern_outcome list"
  | About_points "string list"
  | About_batches "batch_rows list"

record reply =
  reply_body :: reply_body
  reply_outcome :: outcome

definition reply_armed :: "reply_body \<Rightarrow> reply" where
  "reply_armed b = \<lparr>reply_body = b, reply_outcome = Outcome_armed\<rparr>"

definition reply_deferred :: "reply_body \<Rightarrow> reply" where
  "reply_deferred b = \<lparr>reply_body = b, reply_outcome = Outcome_deferred\<rparr>"

text \<open>Going on only when a step was not refused.\<close>

definition s_bind :: "(string + 'a) session_op \<Rightarrow> ('a \<Rightarrow> (string + 'b) session_op) \<Rightarrow> (string + 'b) session_op" where
  "s_bind m f s = (case m s of (Inl e, s1) \<Rightarrow> (Inl e, s1) | (Inr a, s1) \<Rightarrow> f a s1)"

definition s_check :: "string + 'a \<Rightarrow> (string + 'a) session_op" where
  "s_check r s = (r, s)"

lemma s_bind_simps [simp]:
  "s_bind (s_check (Inl e)) f s = (Inl e, s)"
  "s_bind (s_check (Inr a)) f s = f a s"
  by (simp_all add: s_bind_def s_check_def)

section \<open>Lines\<close>

definition register_deferred_breakpoint ::
  "arm_env \<Rightarrow> breakpoint_spec \<Rightarrow> string \<Rightarrow> (string + reply) session_op" where
  "register_deferred_breakpoint env spec bp_id s =
     (case defer_breakpoint env spec bp_id s of
        (Inl e, s1) \<Rightarrow> (Inl e, s1)
      | (Inr (Armed_on_recheck armed), s1) \<Rightarrow> (Inr (reply_armed (About_line armed)), s1)
      | (Inr (Deferred i), s1) \<Rightarrow> (Inr (reply_deferred (About_pending i)), s1))"

definition arm_single_named :: "arm_env \<Rightarrow> breakpoint_spec \<Rightarrow> (string + reply) session_op" where
  "arm_single_named env spec s =
     (let (bp_id, s1) = mint_stop_id ''bp_'' s in
      case on_conn (classes_by_signature (ae_debuggee env) (bs_signature spec)) s1 of
        (Inl e, s2) \<Rightarrow> (Inl (''Failed to find class: '' @ show_jdwp_error e), s2)
      | (Inr classes, s2) \<Rightarrow>
          if classes = [] then register_deferred_breakpoint env spec bp_id s2
          else (let (plan, s3) = register_rearm_watch env spec s2 in
                case arm_and_insert env (map ci_type_id classes) spec bp_id plan s3 of
                  (Inl e, s4) \<Rightarrow> (Inl (arm_error_message e), s4)
                | (Inr armed, s4) \<Rightarrow> (Inr (reply_armed (About_line armed)), s4)))"

primrec arm_patterns ::
  "arm_env \<Rightarrow> breakpoint_spec \<Rightarrow> (string \<times> u64) list \<Rightarrow> nat \<Rightarrow> string list \<Rightarrow> pattern_outcome list session_op" where
  "arm_patterns env base index cap [] s = ([], s)"
| "arm_patterns env base index cap (p # ps) s =
     (let (r, s1) = arm_one_pattern env (for_pattern base p) index cap s;
          (rs, s2) = arm_patterns env base index cap ps s1
      in (r # rs, s2))"

fun is_deferred :: "pattern_outcome \<Rightarrow> bool" where
  "is_deferred (Po_deferred _) = True" | "is_deferred _ = False"

definition base_spec :: "set_breakpoint_args \<Rightarrow> u64 option \<Rightarrow> resolved_trace \<Rightarrow> breakpoint_spec" where
  "base_spec a inst resolved =
     \<lparr>bs_instance_filter = inst, bs_class_pattern = [], bs_signature = [], bs_line_opt = sb_line a,
      bs_method_hint = sb_method a, bs_hit_count = sb_hit_count a, bs_thread_filter = parse_thread_id (sb_thread_id a),
      bs_condition = sb_condition a, bs_trace = ta_trace (sb_trace a), bs_trace_expr = rt_exprs resolved,
      bs_trace_budget = rt_budget resolved, bs_trace_frames = rt_frames resolved,
      bs_trace_max_length = rt_max_length resolved,
      bs_suspend_policy = suspend_policy_for_line (ta_trace (sb_trace a)) (sb_condition a \<noteq> None)\<rparr>"

text \<open>What is refused before the session is looked at.\<close>

definition refuse_line_call :: "set_breakpoint_args \<Rightarrow> string + unit" where
  "refuse_line_call a =
     (let patterns = patterns_list (sb_class_pattern a) in
      if patterns = [] then Inl (''Provide a class_pattern '' @ uni 0x2014 @ '' one class name, a wildcard like '' @ [CHR 0x22]
     @ ''com.example.*'' @ [CHR 0x22] @ '', or a list of either.'')
      else if sb_line a = None \<and> sb_method a = None then Inl (''Provide '' @ [CHR 0x27] @ ''line'' @ [CHR 0x27] @ '' and/or '' @ [CHR 0x27] @ ''method'' @ [CHR 0x27])
      else (case (sb_line a, find is_wildcard patterns) of
          (Some line, Some w) \<Rightarrow> Inl ([CHR 0x27] @ w @ [CHR 0x27] @ '' is a wildcard, so it can'' @ [CHR 0x27] @ ''t be combined with ''
     @ [CHR 0x27] @ ''line'' @ [CHR 0x27] @ '': line '' @ show_int (sint line)
     @ '' is a different statement in every class it matches. Name the '' @ [CHR 0x27] @ ''method'' @ [CHR 0x27]
     @ '' instead '' @ uni 0x2014
     @ '' a wildcard breaks at the first line of that method in each matching class '' @ uni 0x2014
     @ '' or give one exact class name.'')
        | _ \<Rightarrow> Inr ()))"

definition arm_line_patterns :: "arm_env \<Rightarrow> breakpoint_spec \<Rightarrow> string list \<Rightarrow> nat \<Rightarrow> (string + reply) session_op" where
  "arm_line_patterns env base patterns cap s =
     (case lone_exact_pattern patterns of
        Some only \<Rightarrow> arm_single_named env (for_pattern base only) s
      | None \<Rightarrow>
          (case on_conn (class_index_for (ae_debuggee env) patterns) s of
             (Inl e, s1) \<Rightarrow> (Inl e, s1)
           | (Inr index, s1) \<Rightarrow>
               (let (outcomes, s2) = arm_patterns env base index cap patterns s1
                in (Inr \<lparr>reply_body = About_patterns outcomes,
                       reply_outcome = (if list_ex is_deferred outcomes then Outcome_deferred else Outcome_armed)\<rparr>, s2))))"

definition handle_set_line_stop :: "arm_env \<Rightarrow> jmap \<Rightarrow> (string + reply) session_op" where
  "handle_set_line_stop env m =
     s_bind (s_check (parse_struct breakpoint_fields breakpoint_args_of m)) (\<lambda>a.
     s_bind (s_check (refuse_line_call a)) (\<lambda>_.
     s_bind (s_check (parse_instance_filter (sb_instance_id a))) (\<lambda>inst s.
       s_bind (s_check (require_session_for_arming s)) (\<lambda>_.
         let base = base_spec a inst (resolve_trace (sb_trace a) (ds_trace_exprs s)) in
         s_bind (s_check (check_readonly_exprs (ds_read_only s) (bs_condition base) (bs_trace_expr base))) (\<lambda>_.
         s_bind (on_conn (check_filters (ae_debuggee env) (bs_thread_filter base) inst)) (\<lambda>_.
           arm_line_patterns env base (patterns_list (sb_class_pattern a)) (clamped_max_classes (sb_max_classes a))))) s)))"

section \<open>What a batch of classes shares\<close>

text \<open>Arming up to \<open>cap\<close> of the matching classes; \<open>arm\<close> gives the row of one class.\<close>

primrec arm_targets ::
  "nat \<Rightarrow> (string \<times> u64 \<Rightarrow> batch_row session_op) \<Rightarrow> (string \<times> u64) list \<Rightarrow> nat \<Rightarrow> (batch_row list \<times> nat) session_op" where
  "arm_targets cap arm [] armed s = (([], 0), s)"
| "arm_targets cap arm (t # ts) armed s =
     (if cap \<le> armed
      then (let ((rows, skipped), s1) = arm_targets cap arm ts armed s in ((rows, skipped + 1), s1))
      else (let (row, s1) = arm t s;
                ((rows, skipped), s2) = arm_targets cap arm ts (if row_armed row then armed + 1 else armed) s1
            in ((row # rows, skipped), s2)))"

definition targets_of_index :: "string \<Rightarrow> (string \<times> u64) list \<Rightarrow> (string \<times> u64) list" where
  "targets_of_index pattern index = filter (\<lambda>(fqn, _). class_matches fqn pattern) index"

definition rows_for_targets ::
  "string \<Rightarrow> nat \<Rightarrow> (string \<times> u64 \<Rightarrow> batch_row session_op) \<Rightarrow> nat option \<Rightarrow> (string + (string \<times> u64) list) \<Rightarrow> batch_rows session_op" where
  "rows_for_targets pattern cap arm matched targets s =
     (case targets of
        Inl e \<Rightarrow> (\<lparr>br_pattern = pattern, br_matched = matched, br_rows = [Row_failed e], br_skipped_at_cap = 0\<rparr>, s)
      | Inr ts \<Rightarrow>
          (let ((rows, skipped), s1) = arm_targets cap arm ts 0 s
           in (\<lparr>br_pattern = pattern, br_matched = matched, br_rows = rows, br_skipped_at_cap = skipped\<rparr>, s1)))"

primrec batch_each :: "(string \<Rightarrow> batch_rows session_op) \<Rightarrow> string list \<Rightarrow> batch_rows list session_op" where
  "batch_each rows [] s = ([], s)"
| "batch_each rows (p # ps) s =
     (let (b, s1) = rows p s; (bs, s2) = batch_each rows ps s1 in (b # bs, s2))"

definition batch_reply :: "batch_rows list \<times> debug_session \<Rightarrow> (string + reply) \<times> debug_session" where
  "batch_reply = (\<lambda>(bs, s). (Inr (reply_armed (About_batches bs)), s))"

definition render_batch :: "nat \<Rightarrow> batch_rows \<Rightarrow> string" where
  "render_batch max_classes b =
     (let nl = [CHR 0x0A] in
      br_pattern b
      @ (case br_matched b of Some n \<Rightarrow> ''  ('' @ show_nat n @ '' loaded class(es) matched)'' | None \<Rightarrow> []) @ nl
      @ concat (map (\<lambda>r. case r of
            Row_armed t \<Rightarrow> ''   '' @ uni 0x2705 @ '' '' @ t @ nl
          | Row_note t \<Rightarrow> ''   '' @ uni 0x2139 @ uni 0xFE0F @ ''  '' @ t @ nl
          | Row_failed t \<Rightarrow> ''   '' @ uni 0x274C @ '' '' @ t @ nl) (br_rows b))
      @ (if br_matched b = Some 0 then (''   '' @ uni 0x2139 @ uni 0xFE0F @ ''  No loaded class matches this pattern. `debug.list_classes {filter:''
     @ [CHR 0x22] @ br_pattern b @ [CHR 0x22] @ ''}` shows what the JVM has '' @ uni 0x2014
     @ '' a class it has not needed yet does not appear at all.'') @ nl else [])
      @ (if 0 < br_skipped_at_cap b
         then (''   '' @ uni 0x26A0 @ uni 0xFE0F @ ''  '' @ show_nat (br_skipped_at_cap b) @ '' more matching class(es) were NOT armed ''
     @ uni 0x2014 @ '' max_classes: '' @ show_nat max_classes @ ''. Raise it if you mean it, or narrow the pattern.'') @ nl
         else []))"

definition render_batch_arming :: "string \<Rightarrow> batch_rows list \<Rightarrow> nat \<Rightarrow> string \<Rightarrow> string" where
  "render_batch_arming kind batches max_classes trailer =
     (let armed = sum_list (map batch_armed batches); failed = sum_list (map batch_failed batches) in
      uni 0x1F4CD @ '' '' @ show_nat (length batches) @ '' pattern(s) '' @ uni 0x2192 @ '' '' @ show_nat armed @ '' '' @ kind
      @ '' armed'' @ (if 0 < failed then '', '' @ show_nat failed @ '' refused'' else []) @ '':'' @ [CHR 0x0A, CHR 0x0A]
      @ concat (map (render_batch max_classes) batches)
      @ (if trailer = [] then [] else [CHR 0x0A] @ ''Every stop point above:'' @ trailer @ [CHR 0x0A]))"

section \<open>Exceptions\<close>

text \<open>A stop point that has just been armed.\<close>

definition fresh_stop_point ::
  "string \<Rightarrow> u32 \<Rightarrow> u32 option \<Rightarrow> string option \<Rightarrow> bool \<Rightarrow> resolved_trace \<Rightarrow> u64 option \<Rightarrow> u64 option \<Rightarrow> armed_on \<Rightarrow> stop_point" where
  "fresh_stop_point i req hit_count condition trace resolved thread inst what =
     \<lparr>sp_id = i, sp_request_ids = [req], sp_enabled = True, sp_spent = False, sp_hit_count = hit_count, sp_hits = 0,
      sp_condition = condition, sp_trace = trace, sp_trace_expr = rt_exprs resolved, sp_trace_budget = rt_budget resolved,
      sp_trace_frames = rt_frames resolved, sp_trace_max_length = rt_max_length resolved,
      sp_trace_cost = trace_cost_default, sp_thread_filter = thread, sp_instance_filter = inst, sp_armed_on = what\<rparr>"

text \<open>A request that was accepted becomes a stop point under a new id.\<close>

definition register_armed :: "string \<Rightarrow> (string \<Rightarrow> stop_point) \<Rightarrow> string session_op" where
  "register_armed pref sp s = (let (i, s1) = mint_stop_id pref s in (i, on_state (register_stop_point (sp i)) s1))"

definition resolve_exception_class :: "debuggee \<Rightarrow> string \<Rightarrow> conn \<Rightarrow> (string + u64) \<times> conn" where
  "resolve_exception_class d pattern c =
     (case resolve_class_by_dotted d pattern c of
        (Inl e, c1) \<Rightarrow> (Inl e, c1)
      | (Inr None, c1) \<Rightarrow> (Inl (''Exception class '' @ [CHR 0x27] @ pattern @ [CHR 0x27] @ '' is not loaded yet '' @ uni 0x2014
     @ '' trigger it once so the JVM loads it, then retry (exception breakpoints can'' @ [CHR 0x27]
     @ ''t be deferred).''), c1)
      | (Inr (Some t), c1) \<Rightarrow> (Inr t, c1))"

definition arm_one_exception ::
  "debuggee \<Rightarrow> set_exception_args \<Rightarrow> u64 option \<Rightarrow> resolved_trace \<Rightarrow> u64 option \<Rightarrow> string \<Rightarrow> (string + string) session_op" where
  "arm_one_exception d a inst resolved ref_type class_pattern s =
     (let thread = parse_thread_id (sx_thread_id a) in
      case on_conn (set_exception_request_ex d ref_type (sx_caught a) (sx_uncaught a)
               (suspend_policy_for (ta_trace (sx_trace a)))
               \<lparr>ef_count = sx_hit_count a, ef_thread = thread, ef_instance = inst\<rparr>) s of
        (Inl e, s1) \<Rightarrow> (Inl (''Failed to set exception breakpoint: '' @ show_jdwp_error e), s1)
      | (Inr req, s1) \<Rightarrow>
          (let (i, s2) = register_armed ''exc_'' (\<lambda>i. fresh_stop_point i req (sx_hit_count a) (sx_condition a)
                 (ta_trace (sx_trace a)) resolved thread inst
                 (On_exception \<lparr>xb_class_pattern = class_pattern, xb_caught = sx_caught a, xb_uncaught = sx_uncaught a\<rparr>)) s1
           in (Inr i, s2)))"

definition arm_single_exception_pattern ::
  "debuggee \<Rightarrow> set_exception_args \<Rightarrow> string option \<Rightarrow> u64 option \<Rightarrow> resolved_trace \<Rightarrow> (string + reply) session_op" where
  "arm_single_exception_pattern d a pattern inst resolved =
     s_bind (\<lambda>s. case pattern of
         None \<Rightarrow> (Inr None, s)
       | Some p \<Rightarrow> (case on_conn (resolve_exception_class d p) s of (r, s1) \<Rightarrow> (res_map Some r, s1))) (\<lambda>ref_type.
     s_bind (arm_one_exception d a inst resolved ref_type (case pattern of None \<Rightarrow> ''*'' | Some p \<Rightarrow> p)) (\<lambda>i s.
       (Inr (reply_armed (About_points [i])), s)))"

definition exception_row ::
  "debuggee \<Rightarrow> set_exception_args \<Rightarrow> u64 option \<Rightarrow> resolved_trace \<Rightarrow> string \<times> u64 \<Rightarrow> batch_row session_op" where
  "exception_row d a inst resolved t s =
     (case arm_one_exception d a inst resolved (Some (snd t)) (fst t) s of
        (Inl e, s1) \<Rightarrow> (Row_failed (fst t @ '': '' @ e), s1)
      | (Inr i, s1) \<Rightarrow> (Row_armed (i @ ''  '' @ fst t), s1))"

definition exception_rows_for_pattern ::
  "debuggee \<Rightarrow> set_exception_args \<Rightarrow> u64 option \<Rightarrow> resolved_trace \<Rightarrow> nat \<Rightarrow> (string \<times> u64) list \<Rightarrow> string \<Rightarrow> batch_rows session_op" where
  "exception_rows_for_pattern d a inst resolved cap index pattern s =
     (let arm = exception_row d a inst resolved in
      if is_wildcard pattern
      then (let hits = targets_of_index pattern index in rows_for_targets pattern cap arm (Some (length hits)) (Inr hits) s)
      else (case on_conn (resolve_exception_class d pattern) s of (r, s1) \<Rightarrow>
             rows_for_targets pattern cap arm None (res_map (\<lambda>tid. [(pattern, tid)]) r) s1))"

definition refuse_exception_call :: "set_exception_args \<Rightarrow> string + unit" where
  "refuse_exception_call a =
     (if \<not> sx_caught a \<and> \<not> sx_uncaught a
      then Inl (''Set at least one of caught/uncaught to true '' @ uni 0x2014 @ '' otherwise nothing is reported.'') else Inr ())"

definition handle_set_exception_stop :: "debuggee \<Rightarrow> jmap \<Rightarrow> (string + reply) session_op" where
  "handle_set_exception_stop d m =
     s_bind (s_check (parse_struct exception_fields exception_args_of m)) (\<lambda>a.
     s_bind (s_check (refuse_exception_call a)) (\<lambda>_ s.
       (let patterns = (case sx_class_pattern a of None \<Rightarrow> [] | Some p \<Rightarrow> patterns_list p) in
        s_bind (s_check (require_session_for_arming s)) (\<lambda>_.
        s_bind (s_check (check_readonly_exprs (ds_read_only s) (sx_condition a) (trace_exprs_of (ta_expr (sx_trace a))))) (\<lambda>_.
        s_bind (s_check (parse_instance_filter (sx_instance_id a))) (\<lambda>inst.
        s_bind (on_conn (check_filters d (parse_thread_id (sx_thread_id a)) inst)) (\<lambda>_.
          let resolved = resolve_trace (sx_trace a) (ds_trace_exprs s); cap = clamped_max_classes (sx_max_classes a) in
          if takes_lone_exception_path patterns
          then arm_single_exception_pattern d a (case patterns of [] \<Rightarrow> None | p # _ \<Rightarrow> Some p) inst resolved
          else s_bind (on_conn (class_index_for d patterns)) (\<lambda>index s1.
                 batch_reply (batch_each (exception_rows_for_pattern d a inst resolved cap index) patterns s1)))))) s)))"

section \<open>Fields\<close>

definition arm_one_field_watch ::
  "debuggee \<Rightarrow> set_watchpoint_args \<Rightarrow> u64 option \<Rightarrow> resolved_trace \<Rightarrow> string \<Rightarrow> u64 \<times> field_info \<Rightarrow> watch_kind \<Rightarrow> (string + string) session_op" where
  "arm_one_field_watch d a inst resolved class_name found kind s =
     (let field_name = trim (sw_field_name a); thread = parse_thread_id (sw_thread_id a);
          is_static = (and (fld_mod_bits (snd found)) ACC_STATIC \<noteq> 0) in
      if inst \<noteq> None \<and> is_static
      then (Inl (refuse_instance_filter_without_this ''a static field''
              (''a watch on '' @ class_name @ ''.'' @ field_name)), s)
      else (case on_conn (set_field_watch_ex d (fst found) (fld_field_id (snd found)) kind
               (suspend_policy_for (ta_trace (sw_trace a)))
               \<lparr>ef_count = sw_hit_count a, ef_thread = thread, ef_instance = inst\<rparr>) s of
          (Inl e, s1) \<Rightarrow>
            (Inl (''Failed to set '' @ watch_label kind @ '' watchpoint: '' @ show_jdwp_error e
               @ '' (error 99 NOT_IMPLEMENTED means this JVM lacks canWatchField''
               @ (case kind of WK_Access \<Rightarrow> ''Access'' | WK_Modify \<Rightarrow> ''Modification'') @ '')''), s1)
        | (Inr req, s1) \<Rightarrow>
            (let (i, s2) = register_armed (''watch_'' @ watch_label kind @ ''_'')
                   (\<lambda>i. fresh_stop_point i req (sw_hit_count a) (sw_condition a) (ta_trace (sw_trace a)) resolved thread inst
                     (On_watchpoint \<lparr>wp_kind = kind, wp_class_name = class_name, wp_field_name = field_name,
                        wp_is_static = is_static\<rparr>)) s1
             in (Inr (i @ '' ('' @ watch_label kind @ '')''), s2))))"

primrec arm_watch_kinds ::
  "debuggee \<Rightarrow> set_watchpoint_args \<Rightarrow> u64 option \<Rightarrow> resolved_trace \<Rightarrow> string \<Rightarrow> u64 \<times> field_info \<Rightarrow> watch_kind list
     \<Rightarrow> (string + string list) session_op" where
  "arm_watch_kinds d a inst resolved class_name found [] s = (Inr [], s)"
| "arm_watch_kinds d a inst resolved class_name found (k # ks) s =
     s_bind (arm_one_field_watch d a inst resolved class_name found k) (\<lambda>i.
     s_bind (arm_watch_kinds d a inst resolved class_name found ks) (\<lambda>is s1. (Inr (i # is), s1))) s"

definition class_not_loaded :: "string \<Rightarrow> string" where
  "class_not_loaded class_name = (''Class '' @ [CHR 0x27] @ class_name @ [CHR 0x27] @ '' is not loaded yet '' @ uni 0x2014
     @ '' exercise it once so the JVM loads it, then retry (watchpoints can'' @ [CHR 0x27] @ ''t be deferred).'')"

definition arm_field_on_named_class ::
  "debuggee \<Rightarrow> set_watchpoint_args \<Rightarrow> watch_kind list \<Rightarrow> u64 option \<Rightarrow> resolved_trace \<Rightarrow> string \<Rightarrow> (string + reply) session_op" where
  "arm_field_on_named_class d a kinds inst resolved class_name =
     s_bind (on_conn (resolve_class_by_dotted d class_name)) (\<lambda>found s.
       case found of
         None \<Rightarrow> (Inl (class_not_loaded class_name), s)
       | Some tid \<Rightarrow>
           s_bind (on_conn (find_field_info d tid (trim (sw_field_name a)) None)) (\<lambda>f s1.
             case f of
               None \<Rightarrow> (Inl (''Class '' @ [CHR 0x27] @ class_name @ [CHR 0x27] @ '' has no field '' @ [CHR 0x27] @ trim (sw_field_name a) @ [CHR 0x27]
     @ '' (nor does any superclass)''), s1)
             | Some field \<Rightarrow>
                 s_bind (arm_watch_kinds d a inst resolved class_name field kinds)
                   (\<lambda>ids s2. (Inr (reply_armed (About_points ids)), s2)) s1) s)"

definition arm_field_on_one_class ::
  "debuggee \<Rightarrow> set_watchpoint_args \<Rightarrow> watch_kind list \<Rightarrow> u64 option \<Rightarrow> resolved_trace \<Rightarrow> bool \<Rightarrow> string \<times> u64 \<Rightarrow> batch_row session_op" where
  "arm_field_on_one_class d a kinds inst resolved wildcard t s =
     (let fqn = fst t; name = trim (sw_field_name a) in
      case on_conn (find_field_info d (snd t) name None) s of
        (Inl e, s1) \<Rightarrow> (Row_failed (fqn @ '': '' @ e), s1)
      | (Inr None, s1) \<Rightarrow>
          (if wildcard then Row_note (fqn @ '' has no field '' @ [CHR 0x27] @ name @ [CHR 0x27] @ '' '' @ uni 0x2014 @ '' not armed'')
           else Row_failed (fqn @ '' has no field '' @ [CHR 0x27] @ name @ [CHR 0x27] @ '' (nor does any superclass)''), s1)
      | (Inr (Some field), s1) \<Rightarrow>
          (case arm_watch_kinds d a inst resolved fqn field kinds s1 of
             (Inl e, s2) \<Rightarrow> (Row_failed (fqn @ ''.'' @ name @ '': '' @ e), s2)
           | (Inr ids, s2) \<Rightarrow>
               (Row_armed (join '', '' ids @ ''  '' @ fqn @ ''.'' @ name @ '' (''
                  @ (if and (fld_mod_bits (snd field)) ACC_STATIC \<noteq> 0 then ''static'' else ''instance'') @ '' ''
                  @ decode_signature (fld_signature (snd field)) @ '')''), s2)))"

definition field_rows_for_pattern ::
  "debuggee \<Rightarrow> set_watchpoint_args \<Rightarrow> watch_kind list \<Rightarrow> u64 option \<Rightarrow> resolved_trace \<Rightarrow> nat \<Rightarrow> (string \<times> u64) list \<Rightarrow> string
     \<Rightarrow> batch_rows session_op" where
  "field_rows_for_pattern d a kinds inst resolved cap index pattern s =
     (let arm = arm_field_on_one_class d a kinds inst resolved (is_wildcard pattern) in
      if is_wildcard pattern
      then (let hits = targets_of_index pattern index in rows_for_targets pattern cap arm (Some (length hits)) (Inr hits) s)
      else (case on_conn (resolve_class_by_dotted d pattern) s of (r, s1) \<Rightarrow>
             rows_for_targets pattern cap arm None
               (res_bind r (\<lambda>found. case found of
                  Some tid \<Rightarrow> Inr [(pattern, tid)]
                | None \<Rightarrow> Inl ([CHR 0x27] @ pattern @ [CHR 0x27] @ '' is not loaded yet '' @ uni 0x2014
     @ '' exercise it once so the JVM loads it, then retry (watchpoints can'' @ [CHR 0x27] @ ''t be deferred).''))) s1))"

definition refuse_field_call :: "set_watchpoint_args \<Rightarrow> string + unit" where
  "refuse_field_call a =
     (if patterns_list (sw_class_name a) = []
      then Inl (''Provide a class_name '' @ uni 0x2014 @ '' one class, a wildcard like '' @ [CHR 0x22] @ ''com.example.*''
     @ [CHR 0x22] @ '', or a list of either.'') else Inr ())"

definition handle_set_field_stop :: "debuggee \<Rightarrow> jmap \<Rightarrow> (string + reply) session_op" where
  "handle_set_field_stop d m =
     s_bind (s_check (parse_struct watchpoint_fields watchpoint_args_of m)) (\<lambda>a.
     s_bind (s_check (watch_kinds a)) (\<lambda>kinds.
     s_bind (s_check (refuse_field_call a)) (\<lambda>_ s.
       (let classes = patterns_list (sw_class_name a) in
        s_bind (s_check (require_session_for_arming s)) (\<lambda>_.
        s_bind (s_check (check_readonly_exprs (ds_read_only s) (sw_condition a) (trace_exprs_of (ta_expr (sw_trace a))))) (\<lambda>_.
        s_bind (s_check (parse_instance_filter (sw_instance_id a))) (\<lambda>inst.
        s_bind (on_conn (check_filters d (parse_thread_id (sw_thread_id a)) inst)) (\<lambda>_.
          let resolved = resolve_trace (sw_trace a) (ds_trace_exprs s); cap = clamped_max_classes (sw_max_classes a) in
          case lone_exact_pattern classes of
            Some only \<Rightarrow> arm_field_on_named_class d a kinds inst resolved only
          | None \<Rightarrow> s_bind (on_conn (class_index_for d classes)) (\<lambda>index s1.
                 batch_reply (batch_each (field_rows_for_pattern d a kinds inst resolved cap index) classes s1)))))) s))))"

section \<open>Method exits\<close>

definition arm_one_method_exit ::
  "debuggee \<Rightarrow> set_method_args \<Rightarrow> string option \<Rightarrow> bool \<Rightarrow> u64 option \<Rightarrow> resolved_trace \<Rightarrow> string \<Rightarrow> (string + string \<times> u32) session_op" where
  "arm_one_method_exit d a method with_return_value inst resolved class_pattern s =
     (let thread = parse_thread_id (sj_thread_id a); exclude = (case sj_exclude_classes a of None \<Rightarrow> [] | Some v \<Rightarrow> v) in
      case on_conn (set_method_exit_request_ex d class_pattern with_return_value
               (suspend_policy_for (ta_trace (sj_trace a))) exclude
               \<lparr>ef_count = sj_hit_count a, ef_thread = thread, ef_instance = inst\<rparr>) s of
        (Inl e, s1) \<Rightarrow> (Inl (''Failed to set method-exit request on '' @ [CHR 0x27] @ class_pattern @ [CHR 0x27] @ '': '' @ show_jdwp_error e), s1)
      | (Inr req, s1) \<Rightarrow>
          (let (i, s2) = register_armed ''mexit_'' (\<lambda>i. fresh_stop_point i req (sj_hit_count a) (sj_condition a)
                 (ta_trace (sj_trace a)) resolved thread inst
                 (On_method_exit \<lparr>me_discarded = 0, me_class_pattern = class_pattern, me_exclude_classes = exclude,
                    me_method = method, me_with_return_value = with_return_value\<rparr>)) s1
           in (Inr (i, req), s2)))"

definition method_exit_rows_for_pattern ::
  "debuggee \<Rightarrow> set_method_args \<Rightarrow> string option \<Rightarrow> bool \<Rightarrow> u64 option \<Rightarrow> resolved_trace \<Rightarrow> string \<Rightarrow> batch_rows session_op" where
  "method_exit_rows_for_pattern d a method with_return_value inst resolved pattern s =
     (case arm_one_method_exit d a method with_return_value inst resolved pattern s of (r, s1) \<Rightarrow>
        (\<lparr>br_pattern = pattern, br_matched = None,
          br_rows = [case r of Inr (i, req) \<Rightarrow> Row_armed (i @ ''  (JDWP request '' @ show_int (sint req) @ '')'')
                     | Inl e \<Rightarrow> Row_failed e],
          br_skipped_at_cap = 0\<rparr>, s1))"

definition exit_method :: "set_method_args \<Rightarrow> string option" where
  "exit_method a = (case sj_method a of None \<Rightarrow> None | Some m \<Rightarrow> if trim m = [] then None else Some (trim m))"

primrec refuse_each :: "('a \<Rightarrow> string + unit) \<Rightarrow> 'a list \<Rightarrow> string + unit" where
  "refuse_each f [] = Inr ()"
| "refuse_each f (x # xs) = res_bind (f x) (\<lambda>_. refuse_each f xs)"

definition refuse_method_exit_call :: "set_method_args \<Rightarrow> string + unit" where
  "refuse_method_exit_call a =
     (let patterns = patterns_list (sj_class_pattern a) in
      if patterns = [] then Inl (''Provide a class_pattern (e.g. '' @ [CHR 0x22] @ ''br.com.infotravel.IntegraSrv'' @ [CHR 0x22] @ '').'')
      else res_bind (refuse_each (\<lambda>p. refuse_broad_suspending_method_exit (ta_trace (sj_trace a)) p (exit_method a)) patterns)
             (\<lambda>_. refuse_counted_method_filter (sj_hit_count a) (exit_method a)))"

definition handle_set_method_exit_stop :: "debuggee \<Rightarrow> jmap \<Rightarrow> (string + reply) session_op" where
  "handle_set_method_exit_stop d m =
     s_bind (s_check (parse_struct method_exit_fields method_exit_args_of m)) (\<lambda>a.
     s_bind (s_check (refuse_method_exit_call a)) (\<lambda>_ s.
       (let patterns = patterns_list (sj_class_pattern a); method = exit_method a in
        s_bind (s_check (require_session_for_arming s)) (\<lambda>_.
        s_bind (s_check (check_readonly_exprs (ds_read_only s) (sj_condition a) (trace_exprs_of (ta_expr (sj_trace a))))) (\<lambda>_ s1.
          let (r, s2) = on_conn (can_get_method_return_values d) s1;
              with_return_value = (case r of Inl _ \<Rightarrow> False | Inr b \<Rightarrow> b) in
          s_bind (s_check (parse_instance_filter (sj_instance_id a))) (\<lambda>inst.
          s_bind (s_check (refuse_instance_filter_on_method_exit inst)) (\<lambda>_.
          s_bind (on_conn (check_thread_filter d (parse_thread_id (sj_thread_id a)))) (\<lambda>_.
            let resolved = resolve_trace (sj_trace a) (ds_trace_exprs s) in
            case lone_pattern patterns of
              Some only \<Rightarrow>
                s_bind (arm_one_method_exit d a method with_return_value inst resolved only)
                  (\<lambda>(i, _) s3. (Inr (reply_armed (About_points [i])), s3))
            | None \<Rightarrow> (\<lambda>s3. batch_reply
                (batch_each (method_exit_rows_for_pattern d a method with_return_value inst resolved) patterns s3))))) s2)) s)))"

section \<open>Monitors\<close>

definition arm_one_monitor ::
  "debuggee \<Rightarrow> set_monitor_args \<Rightarrow> monitor_kind list \<Rightarrow> u64 option \<Rightarrow> resolved_trace \<Rightarrow> monitor_kind \<Rightarrow> (string + string \<times> u32 \<times> monitor_kind) session_op" where
  "arm_one_monitor d a kinds class_id resolved kind s =
     (let thread = parse_thread_id (so_thread_id a) in
      case on_conn (set_monitor_request d kind (suspend_policy_for (ta_trace (so_trace a)))
               (if class_filter_tests_monitor kind then class_id else None)
               \<lparr>ef_count = so_hit_count a, ef_thread = thread, ef_instance = None\<rparr>) s of
        (Inl e, s1) \<Rightarrow> (Inl (''Failed to arm the '' @ [CHR 0x27] @ monitor_label kind @ [CHR 0x27] @ '' monitor request: '' @ show_jdwp_error e), s1)
      | (Inr req, s1) \<Rightarrow>
          (let (i, s2) = register_armed (''mon_'' @ monitor_label kind @ ''_'')
                 (\<lambda>i. fresh_stop_point i req (so_hit_count a) None (ta_trace (so_trace a)) resolved thread None
                   (On_monitor \<lparr>ms_kind = kind, ms_paired = (partner kind \<in> set kinds),
                      ms_monitor_class = so_monitor_class a, ms_min_duration_ms = so_min_duration_ms a\<rparr>)) s1
           in (Inr (i, req, kind), s2)))"

primrec roll_back :: "debuggee \<Rightarrow> (string \<times> u32 \<times> monitor_kind) list \<Rightarrow> debug_session \<Rightarrow> debug_session" where
  "roll_back d [] s = s"
| "roll_back d (t # ts) s =
     (case t of (i, req, k) \<Rightarrow>
        roll_back d ts (on_state (\<lambda>st. st\<lparr>ss_stop_points := hm_del i (ss_stop_points st)\<rparr>)
          (snd (on_conn (clear_monitor_request d req k) s))))"

fun arm_monitor_kinds ::
  "debuggee \<Rightarrow> set_monitor_args \<Rightarrow> monitor_kind list \<Rightarrow> u64 option \<Rightarrow> resolved_trace \<Rightarrow> (string \<times> u32 \<times> monitor_kind) list \<Rightarrow> monitor_kind list
     \<Rightarrow> (string + (string \<times> u32 \<times> monitor_kind) list) session_op" where
  "arm_monitor_kinds d a kinds class_id resolved armed [] s = (Inr armed, s)"
| "arm_monitor_kinds d a kinds class_id resolved armed (k # ks) s =
     (case arm_one_monitor d a kinds class_id resolved k s of
        (Inl e, s1) \<Rightarrow> (Inl e, roll_back d armed s1)
      | (Inr one, s1) \<Rightarrow> arm_monitor_kinds d a kinds class_id resolved (armed @ [one]) ks s1)"

definition handle_set_monitor_stop :: "debuggee \<Rightarrow> jmap \<Rightarrow> (string + reply) session_op" where
  "handle_set_monitor_stop d m =
     s_bind (s_check (parse_struct monitor_fields monitor_args_of m)) (\<lambda>a.
     s_bind (s_check (parse_monitor_kinds (so_kinds a))) (\<lambda>kinds.
     s_bind (s_check (refuse_bad_monitor_arming a kinds)) (\<lambda>_ s.
       s_bind (s_check (require_session_for_arming s)) (\<lambda>_.
       s_bind (s_check (check_readonly_exprs (ds_read_only s) None (trace_exprs_of (ta_expr (so_trace a))))) (\<lambda>_ s1.
         let (caps, s2) = on_conn (monitor_capabilities d) s1 in
         s_bind (s_check (refuse_without_monitor_capability caps)) (\<lambda>_.
         s_bind (on_conn (check_thread_filter d (parse_thread_id (so_thread_id a)))) (\<lambda>_.
         s_bind (case so_monitor_class a of
             None \<Rightarrow> s_check (Inr None)
           | Some name \<Rightarrow> (\<lambda>s3. case on_conn (resolve_monitor_class d name) s3 of (r, s4) \<Rightarrow> (res_map Some r, s4))) (\<lambda>class_id.
         s_bind (arm_monitor_kinds d a kinds class_id (resolve_trace (so_trace a) (ds_trace_exprs s)) [] kinds)
           (\<lambda>armed s3. (Inr (reply_armed (About_points (map fst armed))), s3))))) s2)) s)))"

section \<open>The five tools\<close>

definition ARMABLE_TOOLS :: "string list" where
  "ARMABLE_TOOLS =
     [''debug.set_line_stop'', ''debug.set_exception_stop'', ''debug.set_field_stop'', ''debug.set_method_exit_stop'',
      ''debug.set_monitor_stop'']"

definition dispatch_armable :: "arm_env \<Rightarrow> string \<Rightarrow> jmap \<Rightarrow> debug_session \<Rightarrow> ((string + reply) \<times> debug_session) option" where
  "dispatch_armable env name m s =
     (let d = ae_debuggee env in
      if name = ''debug.set_line_stop'' then Some (handle_set_line_stop env m s)
      else if name = ''debug.set_exception_stop'' then Some (handle_set_exception_stop d m s)
      else if name = ''debug.set_field_stop'' then Some (handle_set_field_stop d m s)
      else if name = ''debug.set_method_exit_stop'' then Some (handle_set_method_exit_stop d m s)
      else if name = ''debug.set_monitor_stop'' then Some (handle_set_monitor_stop d m s)
      else None)"

end
