(* ===== verification/StopPointSet.thy ===== *)
theory StopPointSet
  imports ArmKinds "HOL-Library.Product_Lexorder"
begin

text \<open>
  \<open>mcp-server/src/stop_point_set.rs\<close>: the stop points of a session as a list of the calls that would arm them
  again - building it, reading it back, and \<open>debug.arm_stop_points\<close>, which replays it through the tools
  themselves.  Turning JSON into text and back (\<open>serde_json\<close>) is a parameter.
\<close>

section \<open>The format\<close>

definition FORMAT_KEY :: string where "FORMAT_KEY = ''jdwp_mcp_stop_point_set''"

definition FORMAT_VERSION :: nat where "FORMAT_VERSION = 1"

record set_entry =
  se_tool :: string
  se_enabled :: bool
  se_args :: jmap

record dropped =
  dr_instance :: "string list"
  dr_thread :: "string list"
  dr_undescribable :: "string list"

record export =
  ex_set :: json
  ex_entries :: nat
  ex_disabled :: nat
  ex_suspending :: nat
  ex_dropped :: dropped

section \<open>Order\<close>

text \<open>\<open>str::parse\<close> of a \<open>u64\<close>.\<close>

definition parse_u64 :: "string \<Rightarrow> nat option" where
  "parse_u64 s =
     (let digits = (if s \<noteq> [] \<and> hd s = CHR ''+'' then tl s else s); n = read_nat_acc 0 digits
      in if all_digits digits \<and> n < 2 ^ 64 then Some n else None)"

definition id_order :: "string \<Rightarrow> string \<times> nat" where
  "id_order i =
     (let after = rev (takeWhile (\<lambda>c. c \<noteq> CHR ''_'') (rev i));
          digits = (if CHR ''_'' \<in> set i then after else [])
      in (take (length i - length digits) i, case parse_u64 digits of None \<Rightarrow> 2 ^ 64 - 1 | Some n \<Rightarrow> n))"

definition sorted_by_id :: "(string, 'a) hmap \<Rightarrow> (string \<times> 'a) list" where
  "sorted_by_id m = sort_key (id_order \<circ> fst) m"

definition sorted_of_kind :: "debug_session \<Rightarrow> stop_point_kind \<Rightarrow> stop_point list" where
  "sorted_of_kind s kind =
     sort_key (id_order \<circ> sp_id) (filter (\<lambda>sp. sp_kind sp = kind) (stop_point_values (ds_state s)))"

section \<open>Building a set\<close>

definition opt_arg :: "string \<Rightarrow> ('a \<Rightarrow> json) \<Rightarrow> 'a option \<Rightarrow> (string \<times> json) list" where
  "opt_arg k f v = (case v of None \<Rightarrow> [] | Some x \<Rightarrow> [(k, f x)])"

definition common_args ::
  "u32 option \<Rightarrow> string option \<Rightarrow> bool \<Rightarrow> string list \<Rightarrow> u32 option \<Rightarrow> nat \<Rightarrow> nat option \<Rightarrow> (string \<times> json) list" where
  "common_args hit_count condition trace exprs budget frames max_length =
     [(''trace'', J_bool trace), (''trace_frames'', J_int (int frames))]
     @ opt_arg ''hit_count'' (\<lambda>n. J_int (sint n)) hit_count
     @ opt_arg ''condition'' J_str condition
     @ (if exprs = [] then [] else [(''trace_expr'', j_strs exprs)])
     @ opt_arg ''trace_max_hits'' (\<lambda>n. J_int (uint n)) budget
     @ opt_arg ''trace_max_length'' (\<lambda>n. J_int (int n)) max_length"

definition shared_args :: "stop_point \<Rightarrow> string option \<Rightarrow> (string \<times> json) list" where
  "shared_args sp condition =
     common_args (sp_hit_count sp) condition (sp_trace sp) (sp_trace_expr sp) (sp_trace_budget sp)
       (sp_trace_frames sp) (sp_trace_max_length sp)"

record builder =
  bu_entries :: "json list"
  bu_dropped :: dropped
  bu_disabled :: nat
  bu_suspending :: nat

definition builder_new :: builder where
  "builder_new =
     \<lparr>bu_entries = [], bu_dropped = \<lparr>dr_instance = [], dr_thread = [], dr_undescribable = []\<rparr>, bu_disabled = 0,
      bu_suspending = 0\<rparr>"

definition entry_json :: "string \<Rightarrow> string \<Rightarrow> bool \<Rightarrow> jmap \<Rightarrow> json" where
  "entry_json tool i enabled args =
     J_obj (json_object [(''tool'', J_str tool), (''from'', J_str i), (''enabled'', J_bool enabled), (''args'', J_obj args)])"

definition push_entry :: "string \<Rightarrow> string \<Rightarrow> bool \<Rightarrow> bool \<Rightarrow> (string \<times> json) list \<Rightarrow> builder \<Rightarrow> builder" where
  "push_entry tool i enabled trace args b =
     b\<lparr>bu_entries := bu_entries b @ [entry_json tool i enabled (json_object args)],
       bu_disabled := bu_disabled b + (if enabled then 0 else 1),
       bu_suspending := bu_suspending b + (if trace then 0 else 1)\<rparr>"

definition drop_filters :: "string \<Rightarrow> u64 option \<Rightarrow> u64 option \<Rightarrow> builder \<Rightarrow> builder" where
  "drop_filters i inst thread b =
     b\<lparr>bu_dropped := (bu_dropped b)
       \<lparr>dr_instance := dr_instance (bu_dropped b) @ (if inst = None then [] else [i]),
        dr_thread := dr_thread (bu_dropped b) @ (if thread = None then [] else [i])\<rparr>\<rparr>"

definition drop_undescribable :: "string \<Rightarrow> builder \<Rightarrow> builder" where
  "drop_undescribable i b =
     b\<lparr>bu_dropped := (bu_dropped b)\<lparr>dr_undescribable := dr_undescribable (bu_dropped b) @ [i]\<rparr>\<rparr>"

definition family_line :: "debug_session \<Rightarrow> pattern_stop_set \<Rightarrow> u32 option" where
  "family_line s fam =
     (case List.map_filter (\<lambda>m. hm_get m (ss_stop_points (ds_state s))) (ps_members fam) of
        [] \<Rightarrow> None
      | sp # _ \<Rightarrow> (case sp_line sp of None \<Rightarrow> None | Some l \<Rightarrow> lb_arm_line l))"

definition line_args :: "string \<Rightarrow> u32 option \<Rightarrow> string option \<Rightarrow> (string \<times> json) list" where
  "line_args class_pattern line method =
     [(''class_pattern'', J_str class_pattern)] @ opt_arg ''line'' (\<lambda>l. J_int (sint l)) line @ opt_arg ''method'' J_str method"

definition push_family :: "debug_session \<Rightarrow> string \<times> pattern_stop_set \<Rightarrow> builder \<Rightarrow> builder" where
  "push_family s f b =
     (case f of (i, fam) \<Rightarrow>
        let line = family_line s fam in
        if line = None \<and> ps_method fam = None then drop_undescribable i b
        else push_entry ''debug.set_line_stop'' i (ps_enabled fam) (ps_trace fam)
               (line_args (ps_class_pattern fam) line (ps_method fam)
                @ [(''max_classes'', J_int (int (ps_max_classes fam)))]
                @ common_args (ps_hit_count fam) (ps_condition fam) (ps_trace fam) (ps_trace_expr fam)
                    (ps_trace_budget fam) (ps_trace_frames fam) (ps_trace_max_length fam))
               (drop_filters i (ps_instance_filter fam) (ps_thread_filter fam) b))"

text \<open>The families' members are not exported a second time under their own names.\<close>

definition push_families :: "debug_session \<Rightarrow> builder \<Rightarrow> string set \<times> builder" where
  "push_families s b =
     (let fams = sorted_by_id (ds_pattern_sets s)
      in (\<Union>(_, fam)\<in>set fams. set (ps_members fam), fold (push_family s) fams b))"

definition push_pending :: "pending_breakpoint \<Rightarrow> builder \<Rightarrow> builder" where
  "push_pending p b =
     push_entry ''debug.set_line_stop'' (pb_bp_id p) True (pb_trace p)
       (line_args (pb_class_pattern p) (pb_line p) (pb_method p)
        @ common_args (pb_hit_count p) (pb_condition p) (pb_trace p) (pb_trace_expr p) (pb_trace_budget p)
            (pb_trace_frames p) (pb_trace_max_length p))
       (drop_filters (pb_bp_id p) (pb_instance_filter p) (pb_thread_filter p) b)"

datatype locator = Loc_call string "(string \<times> json) list" | Loc_skip | Loc_undescribable

definition locate :: "string set \<Rightarrow> stop_point \<Rightarrow> locator" where
  "locate members sp =
     (case sp_armed_on sp of
        On_line bp \<Rightarrow>
          if sp_id sp \<in> members then Loc_skip
          else if lb_arm_line bp = None \<and> lb_arm_method bp = None then Loc_undescribable
          else Loc_call ''debug.set_line_stop'' (line_args (lb_class_pattern bp) (lb_arm_line bp) (lb_arm_method bp))
      | On_exception er \<Rightarrow>
          Loc_call ''debug.set_exception_stop''
            ((if xb_class_pattern er = [] then [] else [(''class_pattern'', J_str (xb_class_pattern er))])
             @ [(''caught'', J_bool (xb_caught er)), (''uncaught'', J_bool (xb_uncaught er))])
      | On_watchpoint wp \<Rightarrow>
          Loc_call ''debug.set_field_stop''
            [(''class_name'', J_str (wp_class_name wp)), (''field_name'', J_str (wp_field_name wp)),
             (''modify'', J_bool (wp_kind wp = WK_Modify)), (''access'', J_bool (wp_kind wp = WK_Access))]
      | On_method_exit me \<Rightarrow>
          Loc_call ''debug.set_method_exit_stop''
            ([(''class_pattern'', J_str (me_class_pattern me))] @ opt_arg ''method'' J_str (me_method me)
             @ (if me_exclude_classes me = [] then [] else [(''exclude_classes'', j_strs (me_exclude_classes me))]))
      | On_monitor _ \<Rightarrow> Loc_skip)"

definition push_stop_point :: "string set \<Rightarrow> stop_point \<Rightarrow> builder \<Rightarrow> builder" where
  "push_stop_point members sp b =
     (case locate members sp of
        Loc_skip \<Rightarrow> b
      | Loc_undescribable \<Rightarrow> drop_undescribable (sp_id sp) b
      | Loc_call tool args \<Rightarrow>
          push_entry tool (sp_id sp) (sp_enabled sp \<and> \<not> sp_spent sp) (sp_trace sp)
            (args @ shared_args sp (sp_condition sp))
            (drop_filters (sp_id sp) (sp_instance_filter sp) (sp_thread_filter sp) b))"

text \<open>The settings a monitor request is grouped by.\<close>

definition monitor_key ::
  "stop_point \<times> monitor_stop \<Rightarrow> u64 option \<times> string option \<times> u64 option \<times> bool \<times> u32 option \<times> nat \<times> nat option \<times> string list" where
  "monitor_key = (\<lambda>(sp, mon).
     (sp_thread_filter sp, ms_monitor_class mon, ms_min_duration_ms mon, sp_trace sp, sp_hit_count sp, sp_trace_frames sp,
      sp_trace_max_length sp, sp_trace_expr sp))"

fun group_by :: "('a \<Rightarrow> 'k) \<Rightarrow> 'a list \<Rightarrow> 'a list list" where
  "group_by key [] = []"
| "group_by key (x # xs) =
     (x # filter (\<lambda>y. key y = key x) xs) # group_by key (filter (\<lambda>y. key y \<noteq> key x) xs)"

definition session_monitors :: "debug_session \<Rightarrow> (stop_point \<times> monitor_stop) list" where
  "session_monitors s =
     List.map_filter (\<lambda>sp. map_option (\<lambda>m. (sp, m)) (sp_monitor sp)) (sorted_of_kind s SK_Monitor)"

definition push_monitor_group :: "(stop_point \<times> monitor_stop) list \<Rightarrow> builder \<Rightarrow> builder" where
  "push_monitor_group members b =
     (case members of
        [] \<Rightarrow> b
      | (first, mon) # _ \<Rightarrow>
          push_entry ''debug.set_monitor_stop'' (join ''+'' (map (sp_id \<circ> fst) members))
            (list_all (\<lambda>(sp, _). sp_enabled sp \<and> \<not> sp_spent sp) members) (sp_trace first)
            ([(''kinds'', j_strs (map (monitor_label \<circ> ms_kind \<circ> snd) members))]
             @ opt_arg ''monitor_class'' J_str (ms_monitor_class mon)
             @ opt_arg ''min_duration_ms'' (\<lambda>n. J_int (uint n)) (ms_min_duration_ms mon)
             @ shared_args first None) b)"

definition push_monitors :: "debug_session \<Rightarrow> builder \<Rightarrow> builder" where
  "push_monitors s b =
     (let mons = session_monitors s
      in fold push_monitor_group (group_by monitor_key mons)
           (fold (\<lambda>(sp, _). drop_filters (sp_id sp) None (sp_thread_filter sp)) mons b))"

definition push_kind :: "debug_session \<Rightarrow> string set \<Rightarrow> stop_point_kind \<Rightarrow> builder \<Rightarrow> builder" where
  "push_kind s members kind b =
     (let b1 = (if kind = SK_Monitor then push_monitors s b else fold (push_stop_point members) (sorted_of_kind s kind) b)
      in if kind = SK_Line then fold push_pending (ss_pending (ds_state s)) b1 else b1)"

definition finish :: "builder \<Rightarrow> export" where
  "finish b =
     \<lparr>ex_set = J_obj (json_object [(FORMAT_KEY, J_int (int FORMAT_VERSION)), (''entries'', J_arr (bu_entries b))]),
      ex_entries = length (bu_entries b), ex_disabled = bu_disabled b, ex_suspending = bu_suspending b,
      ex_dropped = bu_dropped b\<rparr>"

definition export_session :: "debug_session \<Rightarrow> export" where
  "export_session s =
     (case push_families s builder_new of (members, b) \<Rightarrow> finish (fold (push_kind s members) LISTING_ORDER b))"

section \<open>Reading a set back\<close>

definition fence :: string where "fence = replicate 3 CHR 0x60"

definition strip_code_fence :: "string \<Rightarrow> string" where
  "strip_code_fence s =
     (if \<not> prefix fence s then s
      else (let body = (case split_once CHR 0x0A (drop 3 s) of None \<Rightarrow> [] | Some (_, b) \<Rightarrow> b); t = trim body
            in trim (if suffix fence t then take (length t - 3) t else body)))"

fun type_name_of :: "json \<Rightarrow> string" where
  "type_name_of J_null = ''null''"
| "type_name_of (J_bool _) = ''boolean''"
| "type_name_of (J_int _) = ''number''"
| "type_name_of (J_float _) = ''number''"
| "type_name_of (J_str _) = ''string''"
| "type_name_of (J_arr _) = ''array''"
| "type_name_of (J_obj _) = ''object''"

definition entry_at :: "nat \<Rightarrow> string" where "entry_at i = ''entries['' @ show_nat i @ '']''"

definition parse_entry :: "nat \<Rightarrow> json \<Rightarrow> string + set_entry" where
  "parse_entry i raw =
     (case as_obj raw of
        None \<Rightarrow> Inl (entry_at i @ '' is not an object.'')
      | Some obj \<Rightarrow>
          (case Option.bind (bt_get ''tool'' obj) as_str of
             None \<Rightarrow> Inl (entry_at i @ '' has no `tool` name.'')
           | Some tool \<Rightarrow>
               if tool \<notin> set ARMABLE_TOOLS
               then Inl (''entries['' @ show_nat i @ ''] names `'' @ tool
     @ ''`, which debug.arm_stop_points will not call. A set may only arm stop points, and the ''
     @ ''tools it may name are: '' @ join '', '' ARMABLE_TOOLS @ ''. This is a whitelist rather than a check on this one name ''
     @ uni 0x2014 @ '' without it, a set would be a way to invoke anything in this server from a blob of JSON.'')
               else (case (case bt_get ''args'' obj of None \<Rightarrow> J_obj [] | Some a \<Rightarrow> a) of
                   J_obj args \<Rightarrow>
                     Inr \<lparr>se_tool = tool,
                        se_enabled = (case Option.bind (bt_get ''enabled'' obj) as_bool of None \<Rightarrow> True | Some b \<Rightarrow> b),
                        se_args = args\<rparr>
                 | _ \<Rightarrow> Inl (''entries['' @ show_nat i @ '']'' @ [CHR 0x27] @ ''s `args` is not an object.''))))"

fun parse_entries :: "nat \<Rightarrow> json list \<Rightarrow> string + set_entry list" where
  "parse_entries i [] = Inr []"
| "parse_entries i (j # js) =
     res_bind (parse_entry i j) (\<lambda>e. res_bind (parse_entries (i + 1) js) (\<lambda>es. Inr (e # es)))"

definition check_version :: "json \<Rightarrow> string + unit" where
  "check_version version =
     (case as_u64 version of
        Some v \<Rightarrow>
          if v = FORMAT_VERSION then Inr ()
          else if FORMAT_VERSION < v
          then Inl (''This set is format version '' @ show_nat v @ '' and this server reads version '' @ show_nat FORMAT_VERSION
     @ ''. It was exported by a NEWER build, so re-arming it here could arm something other than ''
     @ ''what it describes. Export a fresh set from this build.'')
          else Inl (''`'' @ FORMAT_KEY @ ''` should be the format version as a number; it is '' @ type_name_of version @ ''.'')
      | None \<Rightarrow> Inl (''`'' @ FORMAT_KEY @ ''` should be the format version as a number; it is '' @ type_name_of version @ ''.''))"

definition read_set :: "json \<Rightarrow> string + set_entry list" where
  "read_set root =
     (case as_obj root of
        None \<Rightarrow> Inl (''A stop-point set is a JSON object with a `'' @ FORMAT_KEY @ ''` key. This is a '' @ type_name_of root @ ''.'')
      | Some obj \<Rightarrow>
          (case bt_get FORMAT_KEY obj of
             None \<Rightarrow> Inl (''This JSON has no `'' @ FORMAT_KEY @ ''` key, so it is not a stop-point set. Keys present: '' @ join '', '' (map fst (take 8 obj))
     @ ''. Export one with debug.list_stop_points {export: true}.'')
           | Some version \<Rightarrow>
               res_bind (check_version version) (\<lambda>_.
                 case Option.bind (bt_get ''entries'' obj) as_arr of
                   None \<Rightarrow> Inl (''A stop-point set needs an `entries` array.'')
                 | Some entries \<Rightarrow>
                     res_bind (parse_entries 0 entries) (\<lambda>out.
                       if out = [] then Inl (''This set has no entries, so there is nothing to arm. That is what an export of a ''
     @ ''session with no stop points looks like.'') else Inr out))))"

text \<open>\<open>from_str\<close> is \<open>serde_json::from_str\<close>, with the text of its error.\<close>

definition parse_set :: "(string \<Rightarrow> string + json) \<Rightarrow> string \<Rightarrow> string + set_entry list" where
  "parse_set from_str raw =
     (let trimmed = trim raw in
      if trimmed = [] then Inl (''The `set` argument is empty. Pass the block that debug.list_stop_points {export: true} '' @ ''returned.'')
      else (case from_str (strip_code_fence trimmed) of
          Inl e \<Rightarrow> Inl (''The `set` argument is not JSON ('' @ e
     @ ''). Pass the block that debug.list_stop_points {export: true} returned, not the rendered ''
     @ ''listing.'')
        | Inr root \<Rightarrow> read_set root))"

section \<open>Arming a set\<close>

datatype arm_outcome = Entry_armed | Entry_deferred | Entry_refused string | Entry_skipped_disabled

definition str_arg :: "string \<Rightarrow> jmap \<Rightarrow> string option" where
  "str_arg k args = Option.bind (bt_get k args) as_str"

definition or_else :: "string \<Rightarrow> string option \<Rightarrow> string" where
  "or_else d s = (case s of None \<Rightarrow> d | Some t \<Rightarrow> t)"

definition describe_set_entry :: "nat \<Rightarrow> set_entry \<Rightarrow> string" where
  "describe_set_entry i entry =
     (let args = se_args entry; s = (\<lambda>k. str_arg k args); tool = se_tool entry;
          what =
            (if tool = ''debug.set_line_stop'' then
               (let class = or_else ''?'' (s ''class_pattern'')
                in case Option.bind (bt_get ''line'' args) as_i64 of
                     None \<Rightarrow> class @ ''.'' @ or_else ''?'' (s ''method'')
                   | Some line \<Rightarrow> class @ '':'' @ show_int line)
             else if tool = ''debug.set_exception_stop'' then
               (case s ''class_pattern'' of None \<Rightarrow> ''every exception'' | Some c \<Rightarrow> ''exception '' @ c)
             else if tool = ''debug.set_field_stop'' then
               or_else ''?'' (s ''class_name'') @ ''.'' @ or_else ''?'' (s ''field_name'')
             else if tool = ''debug.set_method_exit_stop'' then
               or_else ''?'' (s ''class_pattern'') @ ''.'' @ or_else ''*'' (s ''method'') @ '' exit''
             else if tool = ''debug.set_monitor_stop'' then
               ''monitor '' @ (case Option.bind (bt_get ''kinds'' args) as_arr of
                   None \<Rightarrow> ''blocked+acquired''
                 | Some k \<Rightarrow> join ''+'' (List.map_filter as_str k))
             else tool)
      in entry_at i @ '' '' @ what)"

definition route_to_session :: "jmap \<Rightarrow> json option \<Rightarrow> jmap" where
  "route_to_session args session_id =
     (case session_id of
        None \<Rightarrow> args
      | Some sid \<Rightarrow> if bt_get SESSION_ID_ARG args = None then bt_put SESSION_ID_ARG sid args else args)"

definition NO_SESSION_REFUSAL :: string where
  "NO_SESSION_REFUSAL = ''No active debug session. Use debug.attach first.''"

text \<open>The session a call names, or the current one.\<close>

definition session_key :: "jmap \<Rightarrow> session_manager \<Rightarrow> string option" where
  "session_key args m =
     (case str_arg SESSION_ID_ARG args of
        Some sid \<Rightarrow> (if hm_get sid (sm_sessions m) = None then None else Some sid)
      | None \<Rightarrow> (case sm_current m of None \<Rightarrow> None
            | Some sid \<Rightarrow> if hm_get sid (sm_sessions m) = None then None else Some sid))"

text \<open>What a tool refuses before it looks for its session.\<close>

definition refuse_before_session :: "string \<Rightarrow> jmap \<Rightarrow> string + unit" where
  "refuse_before_session tool m =
     (if tool = ''debug.set_line_stop'' then
        res_bind (parse_struct breakpoint_fields breakpoint_args_of m) (\<lambda>a.
        res_bind (refuse_line_call a) (\<lambda>_. res_map (\<lambda>_. ()) (parse_instance_filter (sb_instance_id a))))
      else if tool = ''debug.set_exception_stop'' then
        res_bind (parse_struct exception_fields exception_args_of m) refuse_exception_call
      else if tool = ''debug.set_field_stop'' then
        res_bind (parse_struct watchpoint_fields watchpoint_args_of m) (\<lambda>a.
        res_bind (watch_kinds a) (\<lambda>_. refuse_field_call a))
      else if tool = ''debug.set_method_exit_stop'' then
        res_bind (parse_struct method_exit_fields method_exit_args_of m) refuse_method_exit_call
      else
        res_bind (parse_struct monitor_fields monitor_args_of m) (\<lambda>a.
        res_bind (parse_monitor_kinds (so_kinds a)) (\<lambda>kinds. refuse_bad_monitor_arming a kinds)))"

text \<open>Each session talks to a debuggee of its own.\<close>

definition dispatch_armable_in ::
  "(string \<Rightarrow> arm_env) \<Rightarrow> string \<Rightarrow> jmap \<Rightarrow> session_manager \<Rightarrow> ((string + reply) \<times> session_manager) option" where
  "dispatch_armable_in env_of tool args m =
     (if tool \<notin> set ARMABLE_TOOLS then None
      else (case session_key args m of
          None \<Rightarrow> Some (res_bind (refuse_before_session tool args) (\<lambda>_. Inl NO_SESSION_REFUSAL), m)
        | Some sid \<Rightarrow>
            (case hm_get sid (sm_sessions m) of
               None \<Rightarrow> None
             | Some s \<Rightarrow>
                 map_option (\<lambda>(r, s'). (r, m\<lparr>sm_sessions := hm_put sid s' (sm_sessions m)\<rparr>))
                   (dispatch_armable (env_of sid) tool args s))))"

definition outcome_of_entry :: "string \<Rightarrow> (string + reply) option \<Rightarrow> arm_outcome" where
  "outcome_of_entry tool armed =
     (case armed of
        None \<Rightarrow> Entry_refused (''`'' @ tool @ ''` is not a tool this build can arm.'')
      | Some (Inl why) \<Rightarrow> Entry_refused why
      | Some (Inr r) \<Rightarrow> (case reply_outcome r of Outcome_deferred \<Rightarrow> Entry_deferred | Outcome_armed \<Rightarrow> Entry_armed))"

text \<open>An entry counts as suspending when it says \<open>trace: false\<close>.\<close>

definition says_suspending :: "set_entry \<Rightarrow> bool" where
  "says_suspending entry = (Option.bind (bt_get ''trace'' (se_args entry)) as_bool = Some False)"

fun arm_entries ::
  "(string \<Rightarrow> arm_env) \<Rightarrow> json option \<Rightarrow> nat \<Rightarrow> set_entry list \<Rightarrow> session_manager
     \<Rightarrow> ((string \<times> arm_outcome) list \<times> nat) \<times> session_manager" where
  "arm_entries env_of sid i [] m = (([], 0), m)"
| "arm_entries env_of sid i (e # es) m =
     (let label = describe_set_entry i e in
      if \<not> se_enabled e
      then (let ((outs, n), m1) = arm_entries env_of sid (i + 1) es m in (((label, Entry_skipped_disabled) # outs, n), m1))
      else
        (let (r, m1) = (case dispatch_armable_in env_of (se_tool e) (route_to_session (se_args e) sid) m of
               None \<Rightarrow> (None, m) | Some (r, m1) \<Rightarrow> (Some r, m1));
             ((outs, n), m2) = arm_entries env_of sid (i + 1) es m1
         in (((label, outcome_of_entry (se_tool e) r) # outs, (if says_suspending e then n + 1 else n)), m2)))"

definition count_outcome :: "(arm_outcome \<Rightarrow> bool) \<Rightarrow> (string \<times> arm_outcome) list \<Rightarrow> nat" where
  "count_outcome p outs = length (filter (p \<circ> snd) outs)"

fun is_refused :: "arm_outcome \<Rightarrow> bool" where
  "is_refused (Entry_refused _) = True" | "is_refused _ = False"

definition describe_arm_outcomes :: "(string \<times> arm_outcome) list \<Rightarrow> string" where
  "describe_arm_outcomes outs =
     (let skipped = count_outcome (\<lambda>r. r = Entry_skipped_disabled) outs; nl = [CHR 0x0A] in
      show_nat (count_outcome (\<lambda>r. r = Entry_armed) outs) @ '' armed, ''
      @ show_nat (count_outcome (\<lambda>r. r = Entry_deferred) outs) @ '' deferred, ''
      @ show_nat (count_outcome is_refused outs) @ '' refused''
      @ (if 0 < skipped then '', '' @ show_nat skipped @ '' skipped (disabled when exported)'' else []) @ nl
      @ concat (map (\<lambda>(label, r). case r of
            Entry_armed \<Rightarrow> []
          | Entry_deferred \<Rightarrow> (''   '' @ uni 0x23F3 @ '' '' @ label @ '' '' @ uni 0x2014
     @ '' deferred: the class is not loaded yet, so it is armed on a class-load watch and fires ''
     @ ''when it is.'') @ nl
          | Entry_refused why \<Rightarrow> (''   '' @ uni 0x1F6D1 @ '' '' @ label @ '' '' @ uni 0x2014 @ '' refused: '' @ why) @ nl
          | Entry_skipped_disabled \<Rightarrow> (''   '' @ uni 0x23F8 @ ''  '' @ label @ '' '' @ uni 0x2014
     @ '' NOT armed: it was disabled or spent when the set was exported. Its arguments are still ''
     @ ''in the set, so arm it with the tool named there if you want it back.'') @ nl) outs))"

definition describe_unverified_lines :: "nat \<Rightarrow> string" where
  "describe_unverified_lines armed =
     (if armed = 0 then [] else ([CHR 0x0A] @ uni 0x1F4D0
     @ '' Lines were NOT checked against the loaded bytecode. A set carries line numbers, which ''
     @ ''are a claim about the build it was exported from '' @ uni 0x2014
     @ '' against a redeployed one they resolve to whatever is now on that line, and arming ''
     @ ''reports success either way. Run debug.check_stale to settle it.'' @ [CHR 0x0A]))"

definition describe_suspending :: "nat \<Rightarrow> string" where
  "describe_suspending n =
     (if n = 0 then [] else ([CHR 0x0A] @ uni 0x26A0 @ uni 0xFE0F @ ''  '' @ show_nat n
     @ '' of these are SUSPENDING stop points. On a shared JVM this one call is enough to freeze ''
     @ ''it on the next hit of any of them '' @ uni 0x2014
     @ '' which is more exposure than arming them one at a time, where you read a reply between ''
     @ ''each. The watchdog still applies. Consider trace:true in the set instead.'' @ [CHR 0x0A]))"

record set_reply =
  sr_outcomes :: "(string \<times> arm_outcome) list"
  sr_suspending :: nat
  sr_text :: string

definition arm_set_fields :: "field_spec list" where
  "arm_set_fields = [required ''set'' as_str]"

definition handle_arm_stop_points ::
  "(string \<Rightarrow> string + json) \<Rightarrow> (string \<Rightarrow> arm_env) \<Rightarrow> jmap \<Rightarrow> session_manager \<Rightarrow> (string + set_reply) \<times> session_manager" where
  "handle_arm_stop_points from_str env_of args m =
     (case res_bind (parse_struct arm_set_fields (field_or [] as_str ''set'') args) (parse_set from_str) of
        Inl e \<Rightarrow> (Inl e, m)
      | Inr entries \<Rightarrow>
          (case Option.bind (session_key args m) (\<lambda>sid. hm_get sid (sm_sessions m)) of
             None \<Rightarrow> (Inl NO_SESSION_REFUSAL, m)
           | Some s \<Rightarrow>
               (case require_session_for_arming s of
                  Inl e \<Rightarrow> (Inl e, m)
                | Inr _ \<Rightarrow>
                    (let ((outs, n), m1) = arm_entries env_of (bt_get SESSION_ID_ARG args) 0 entries m
                     in (Inr \<lparr>sr_outcomes = outs, sr_suspending = n,
                           sr_text = uni 0x1F4E6 @ '' Stop-point set armed '' @ uni 0x2014 @ '' '' @ describe_arm_outcomes outs
                             @ describe_unverified_lines (count_outcome (\<lambda>r. r = Entry_armed) outs)
                             @ describe_suspending n\<rparr>, m1)))))"

section \<open>The reply that carries a set\<close>

definition plural :: "nat \<Rightarrow> string \<Rightarrow> string" where
  "plural n noun = (if n = 1 then show_nat n @ '' '' @ noun else show_nat n @ '' '' @ noun @ ''s'')"

definition entries_phrase :: "nat \<Rightarrow> string" where
  "entries_phrase n = (if n = 1 then ''1 entry'' else show_nat n @ '' entries'')"

definition describe_dropped :: "dropped \<Rightarrow> string" where
  "describe_dropped dr =
     (let is = dr_instance dr; ts = dr_thread dr; us = dr_undescribable dr; sp = ''stop point'' in
      (if is = [] then [] else ([CHR 0x0A] @ uni 0x26A0 @ uni 0xFE0F @ ''  Instance filter DROPPED from '' @ plural (length is) sp @ '': '' @ join '', '' is
     @ ''. A JDWP object id is a weak reference to one object in one JVM (ADR-0022), so it ''
     @ ''cannot mean anything in the next one '' @ uni 0x2014
     @ '' carrying it over would scope the stop point to whatever now lives at that address. ''
     @ ''These entries are therefore BROADER than what you exported. Take a fresh handle from ''
     @ ''debug.list_instances and re-apply it.'' @ [CHR 0x0A]))
      @ (if ts = [] then [] else ([CHR 0x0A] @ uni 0x26A0 @ uni 0xFE0F @ ''  Thread filter DROPPED from '' @ plural (length ts) sp @ '': '' @ join '', '' ts
     @ ''. A JDWP thread id belongs to one JVM for the same reason, and a pool that retires idle ''
     @ ''workers invalidates it even within one. These entries are BROADER than what you ''
     @ ''exported. Read debug.list_threads for a live id and re-apply it.'' @ [CHR 0x0A]))
      @ (if us = [] then [] else ([CHR 0x0A] @ uni 0x26A0 @ uni 0xFE0F @ ''  NOT exported: '' @ join '', '' us
     @ ''. A wildcard family whose members are all gone and which names no method has no line ''
     @ ''and no method left to re-arm from, so there is nothing to write down. Re-arm it with ''
     @ ''debug.set_line_stop.'' @ [CHR 0x0A])))"

text \<open>\<open>pretty\<close> is \<open>serde_json::to_string_pretty\<close>.\<close>

definition render_set_block :: "(json \<Rightarrow> string) \<Rightarrow> json \<Rightarrow> string" where
  "render_set_block pretty j = fence @ ''json'' @ [CHR 0x0A] @ pretty j @ [CHR 0x0A] @ fence @ [CHR 0x0A]"

definition render_export :: "(json \<Rightarrow> string) \<Rightarrow> export \<Rightarrow> string" where
  "render_export pretty ex =
     (let nl = [CHR 0x0A] in
      uni 0x1F4E6 @ '' Stop-point set exported '' @ uni 0x2014 @ '' '' @ entries_phrase (ex_entries ex) @ ''.'' @ nl
      @ (if 0 < ex_disabled ex then (''   '' @ show_nat (ex_disabled ex) @ '' of them were disabled or spent, and are recorded as such: debug.arm_stop_points will ''
     @ ''NOT arm those.'') @ nl else [])
      @ (if 0 < ex_suspending ex then (''   '' @ show_nat (ex_suspending ex)
     @ '' of them are SUSPENDING. Arming this set later is one call that can freeze a shared JVM ''
     @ ''on the next hit of any of them '' @ uni 0x2014
     @ '' worth knowing now, while you still have the chance to re-arm them with trace:true and ''
     @ ''export again.'') @ nl else [])
      @ describe_dropped (ex_dropped ex) @ nl
      @ ''Nothing was written to disk '' @ uni 0x2014 @ '' this server has no filesystem write path (BP-8). Store the block ''
      @ ''below and pass it back verbatim as debug.arm_stop_points {'' @ [CHR 0x22] @ ''set'' @ [CHR 0x22] @ '': '' @ [CHR 0x22]
      @ uni 0x2026 @ [CHR 0x22] @ ''}.'' @ nl @ nl @ render_set_block pretty (ex_set ex))"

end
