(* ===== verification/SetProofs.thy ===== *)
theory SetProofs
  imports StopPointSet SessionInvariant
begin

text \<open>
  What a stop-point set promises: that everything an export writes is a call its tool accepts, that the block
  a reply carries reads back, that an armed line stop comes back as it was, and that arming a set can do
  nothing but arm stop points.
\<close>

section \<open>Objects of arguments\<close>

lemma map_of_rev: "distinct (map fst kvs) \<Longrightarrow> map_of (rev kvs) = map_of kvs"
  by (simp add: map_of_inject_set rev_map [symmetric])

lemma bt_get_fold: "bt_get k (fold (\<lambda>(k, v). bt_put k v) kvs m) = (case map_of (rev kvs) k of None \<Rightarrow> bt_get k m | Some v \<Rightarrow> Some v)"
  by (induction kvs arbitrary: m) (auto simp: map_add_def split: option.split)

lemma bt_get_object: "distinct (map fst kvs) \<Longrightarrow> bt_get k (json_object kvs) = map_of kvs k"
  by (simp add: json_object_def bt_get_fold map_of_rev split: option.split)

lemma set_bt_put: "set (bt_put k v m) \<subseteq> insert (k, v) (set m)"
  by (induction m) auto

lemma set_object: "set (json_object kvs) \<subseteq> set kvs"
proof -
  have "set (fold (\<lambda>(k, v). bt_put k v) kvs m) \<subseteq> set kvs \<union> set m" for m
  proof (induction kvs arbitrary: m)
    case (Cons x kvs)
    then show ?case using set_bt_put [of "fst x" "snd x" m] by (fastforce simp: case_prod_unfold)
  qed simp
  then show ?thesis by (fastforce simp: json_object_def)
qed

lemma object_keys: "fst ` set (json_object kvs) = fst ` set kvs"
proof -
  have "fst ` set (fold (\<lambda>(k, v). bt_put k v) kvs m) = fst ` set kvs \<union> fst ` set m" for m
  proof (induction kvs arbitrary: m)
    case (Cons x kvs)
    then show ?case by (simp add: case_prod_unfold set_bt_put_fst)
  qed simp
  then show ?thesis by (simp add: json_object_def)
qed

text \<open>An argument a struct declares and accepts.\<close>

definition field_ok :: "field_spec list \<Rightarrow> string \<times> json \<Rightarrow> bool" where
  "field_ok spec kv \<longleftrightarrow> fst kv \<noteq> SESSION_ID_ARG
     \<and> (case map_of spec (fst kv) of None \<Rightarrow> False | Some (_, ok) \<Rightarrow> ok (snd kv))"

definition args_fit :: "field_spec list \<Rightarrow> (string \<times> json) list \<Rightarrow> bool" where
  "args_fit spec kvs \<longleftrightarrow> list_all (field_ok spec) kvs \<and> list_all (\<lambda>(k, req, _). req \<longrightarrow> k \<in> fst ` set kvs) spec"

lemma parse_struct_object:
  assumes "args_fit spec kvs"
  shows "parse_struct spec build (json_object kvs) = Inr (build (json_object kvs))"
proof -
  have ok: "field_ok spec x" if "x \<in> set (json_object kvs)" for x
    using that assms set_object [of kvs] by (auto simp: args_fit_def list_all_iff)
  have del: "bt_del SESSION_ID_ARG (json_object kvs) = json_object kvs"
    using ok by (simp add: bt_del_def filter_id_conv field_ok_def)
  have "list_all (\<lambda>(k, v). case map_of spec k of None \<Rightarrow> False | Some (_, ok) \<Rightarrow> ok v) (json_object kvs)"
    unfolding list_all_iff
  proof
    fix p assume "p \<in> set (json_object kvs)"
    from ok [OF this] show "case p of (k, v) \<Rightarrow> case map_of spec k of None \<Rightarrow> False | Some (_, ok) \<Rightarrow> ok v"
      by (simp add: field_ok_def case_prod_unfold)
  qed
  moreover have "list_all (\<lambda>(k, req, _). req \<longrightarrow> bt_get k (json_object kvs) \<noteq> None) spec"
    using assms by (simp add: args_fit_def bt_get_None_iff object_keys)
  ultimately have "args_error spec (json_object kvs) = None" by (simp add: args_error_None)
  then show ?thesis by (simp add: parse_struct_def del)
qed

section \<open>What an export writes\<close>

text \<open>The fields of the arguments of each arming tool.\<close>

definition tool_fields :: "string \<Rightarrow> field_spec list" where
  "tool_fields tool =
     (if tool = ''debug.set_line_stop'' then breakpoint_fields
      else if tool = ''debug.set_exception_stop'' then exception_fields
      else if tool = ''debug.set_field_stop'' then watchpoint_fields
      else if tool = ''debug.set_method_exit_stop'' then method_exit_fields
      else monitor_fields)"

definition accepted :: "set_entry \<Rightarrow> bool" where
  "accepted e \<longleftrightarrow> se_tool e \<in> set ARMABLE_TOOLS \<and> args_error (tool_fields (se_tool e)) (bt_del SESSION_ID_ARG (se_args e)) = None"

text \<open>The numbers of a stop point are machine words.\<close>

definition machine_nat :: "nat \<Rightarrow> bool" where "machine_nat n \<longleftrightarrow> n < 2 ^ 64"

definition fits :: "nat \<Rightarrow> nat option \<Rightarrow> bool" where
  "fits frames len \<longleftrightarrow> machine_nat frames \<and> pred_option machine_nat len"

definition numbers_fit :: "debug_session \<Rightarrow> bool" where
  "numbers_fit s \<longleftrightarrow>
     (\<forall>sp\<in>set (stop_point_values (ds_state s)). fits (sp_trace_frames sp) (sp_trace_max_length sp))
     \<and> (\<forall>p\<in>set (ss_pending (ds_state s)). fits (pb_trace_frames p) (pb_trace_max_length p))
     \<and> (\<forall>(_, fam)\<in>set (ds_pattern_sets s). fits (ps_trace_frames fam) (ps_trace_max_length fam) \<and> machine_nat (ps_max_classes fam))"

definition call_ok :: "string \<Rightarrow> bool \<Rightarrow> (string \<times> json) list \<Rightarrow> bool" where
  "call_ok tool trace args \<longleftrightarrow> tool \<in> set ARMABLE_TOOLS \<and> args_fit (tool_fields tool) args
     \<and> distinct (map fst args) \<and> map_of args ''trace'' = Some (J_bool trace)"

lemmas field_specs = breakpoint_fields_def exception_fields_def watchpoint_fields_def method_exit_fields_def
  monitor_fields_def filter_fields_def trace_fields_def required_def defaulted_def

lemma opt_arg_simps [simp]:
  "list_all P (opt_arg k f v) \<longleftrightarrow> (\<forall>x. v = Some x \<longrightarrow> P (k, f x))"
  "fst ` set (opt_arg k f v) = (if v = None then {} else {k})"
  "distinct (map fst (opt_arg k f v))"
  "map_of (opt_arg k f v) j = (if j = k then map_option f v else None)"
  by (auto simp: opt_arg_def split: option.split)

lemma map_option_None_simps [simp]: "j \<notin> fst ` set xs \<Longrightarrow> (map_of xs ++ m) j = m j"
  by (simp add: map_add_def map_of_eq_None_iff split: option.split)

definition common_keys :: "string list" where
  "common_keys = [''trace'', ''trace_frames'', ''hit_count'', ''condition'', ''trace_expr'', ''trace_max_hits'', ''trace_max_length'']"

lemma common_args_keys: "fst ` set (common_args hc cond tr ex bud fr ln) \<subseteq> set common_keys"
  by (auto simp: common_args_def common_keys_def image_Un split: if_splits)

lemma common_args_distinct: "distinct (map fst (common_args hc cond tr ex bud fr ln))"
  by (simp add: common_args_def image_Un)

lemma common_args_trace: "map_of (common_args hc cond tr ex bud fr ln) ''trace'' = Some (J_bool tr)"
  by (simp add: common_args_def)

text \<open>The trace arguments, which every tool takes.\<close>

lemma j_strs_not_null [simp]: "j_strs ss \<noteq> J_null"
  by (simp add: j_strs_def)

lemma word_bounds [simp]:
  "- 2147483648 \<le> sint (w :: u32)" "sint (w :: u32) < 2147483648" "uint (w :: u32) < 4294967296"
  "uint (v :: u64) < 18446744073709551616"
  using sint_ge [of w] sint_less [of w] uint_bounded [of w] uint_bounded [of v] by simp_all

lemma common_args_fit:
  assumes "fits fr ln" "tool \<in> set ARMABLE_TOOLS" "tool = ''debug.set_monitor_stop'' \<Longrightarrow> cond = None"
  shows "list_all (field_ok (tool_fields tool)) (common_args hc cond tr ex bud fr ln)"
proof -
  have "tool = ''debug.set_line_stop'' \<or> tool = ''debug.set_exception_stop'' \<or> tool = ''debug.set_field_stop''
      \<or> tool = ''debug.set_method_exit_stop'' \<or> tool = ''debug.set_monitor_stop''"
    using assms(2) by (simp add: ARMABLE_TOOLS_def)
  then show ?thesis
    using assms(1,3)
    by (elim disjE) (auto simp: tool_fields_def field_specs common_args_def field_ok_def SESSION_ID_ARG_def fits_def
        machine_nat_def)
qed

lemma call_okI:
  assumes "tool \<in> set ARMABLE_TOOLS" "fits fr ln" "tool = ''debug.set_monitor_stop'' \<Longrightarrow> cond = None"
    and "list_all (field_ok (tool_fields tool)) args" "distinct (map fst args)" "fst ` set args \<inter> set common_keys = {}"
    and "list_all (\<lambda>(k, req, _). req \<longrightarrow> k \<in> fst ` set args) (tool_fields tool)"
  shows "call_ok tool tr (args @ common_args hc cond tr ex bud fr ln)"
proof -
  note fit = common_args_fit [OF assms(2,1,3), of hc tr ex bud]
  have dis: "distinct (map fst (args @ common_args hc cond tr ex bud fr ln))"
    using assms(5,6) common_args_distinct [of hc cond tr ex bud fr ln] common_args_keys [of hc cond tr ex bud fr ln]
    by auto
  have "''trace'' \<notin> fst ` set args" using assms(6) by (auto simp: common_keys_def)
  then have "map_of args ''trace'' = None" by (simp add: map_of_eq_None_iff)
  then have "map_of (args @ common_args hc cond tr ex bud fr ln) ''trace'' = Some (J_bool tr)"
    by (simp add: map_add_def common_args_trace)
  with assms(1,4,7) fit dis show ?thesis
    by (auto simp: call_ok_def args_fit_def list_all_iff)
qed

lemma call_line:
  assumes "fits fr ln" "max_classes \<noteq> None \<Longrightarrow> machine_nat (the max_classes)"
  shows "call_ok ''debug.set_line_stop'' tr
    (line_args pat line m @ opt_arg ''max_classes'' (\<lambda>n. J_int (int n)) max_classes @ common_args hc cond tr ex bud fr ln)"
  unfolding append_assoc [symmetric]
  by (rule call_okI) (use assms in \<open>auto simp: ARMABLE_TOOLS_def line_args_def field_ok_def tool_fields_def field_specs
      SESSION_ID_ARG_def common_keys_def image_Un machine_nat_def\<close>)

lemmas call_defs = ARMABLE_TOOLS_def field_ok_def tool_fields_def field_specs SESSION_ID_ARG_def common_keys_def

lemma call_exception:
  "fits fr ln \<Longrightarrow> call_ok ''debug.set_exception_stop'' tr
     (((if pat = [] then [] else [(''class_pattern'', J_str pat)]) @ [(''caught'', J_bool ca), (''uncaught'', J_bool un)])
      @ common_args hc cond tr ex bud fr ln)"
  by (rule call_okI) (auto simp: call_defs)

lemma call_field:
  "fits fr ln \<Longrightarrow> call_ok ''debug.set_field_stop'' tr
     ([(''class_name'', J_str c), (''field_name'', J_str f), (''modify'', J_bool mo), (''access'', J_bool ac)]
      @ common_args hc cond tr ex bud fr ln)"
  by (rule call_okI) (auto simp: call_defs)

lemma call_method_exit:
  "fits fr ln \<Longrightarrow> call_ok ''debug.set_method_exit_stop'' tr
     (([(''class_pattern'', J_str c)] @ opt_arg ''method'' J_str m
       @ (if xs = [] then [] else [(''exclude_classes'', j_strs xs)])) @ common_args hc cond tr ex bud fr ln)"
  by (rule call_okI) (auto simp: call_defs image_Un)

lemma call_monitor:
  "fits fr ln \<Longrightarrow> call_ok ''debug.set_monitor_stop'' tr
     (([(''kinds'', j_strs ks)] @ opt_arg ''monitor_class'' J_str c @ opt_arg ''min_duration_ms'' (\<lambda>n. J_int (uint (n :: u64))) ms)
      @ common_args hc None tr ex bud fr ln)"
  by (rule call_okI) (auto simp: call_defs image_Un as_u64_word_def)

section \<open>Every pass of an export writes calls that are accepted\<close>

text \<open>
  Entries written down, each with the id of the stop point it comes from; the entries read back so far, which are
  the ones written, and the two numbers counted beside them.
\<close>

definition written :: "string list \<Rightarrow> set_entry list \<Rightarrow> json list" where
  "written froms es = map2 (\<lambda>i e. entry_json (se_tool e) i (se_enabled e) (se_args e)) froms es"

definition readable :: "builder \<Rightarrow> bool" where
  "readable b \<longleftrightarrow> (\<exists>es. (\<forall>i. parse_entries i (bu_entries b) = Inr es) \<and> list_all accepted es
     \<and> (\<exists>froms. length froms = length es \<and> bu_entries b = written froms es)
     \<and> length (filter (\<lambda>e. \<not> se_enabled e) es) = bu_disabled b \<and> length (filter says_suspending es) = bu_suspending b)"

lemma parse_entries_append:
  "parse_entries i (xs @ ys) = res_bind (parse_entries i xs) (\<lambda>es. res_map (\<lambda>fs. es @ fs) (parse_entries (i + length xs) ys))"
proof (induction xs arbitrary: i)
  case Nil
  show ?case by (cases "parse_entries i ys") simp_all
next
  case (Cons x xs)
  then show ?case
    by (cases "parse_entry i x"; cases "parse_entries (i + 1) xs"; cases "parse_entries (i + 1 + length xs) ys") simp_all
qed

lemma parse_entries_length: "parse_entries i xs = Inr es \<Longrightarrow> length es = length xs"
  by (induction xs arbitrary: i es) (auto simp: res_bind_Inr_iff)

lemma parse_pushed:
  assumes "tool \<in> set ARMABLE_TOOLS"
  shows "parse_entry i (entry_json tool from en (json_object args)) = Inr \<lparr>se_tool = tool, se_enabled = en, se_args = json_object args\<rparr>"
  using assms by (simp add: parse_entry_def entry_json_def bt_get_object)

lemma accepted_call: "call_ok tool tr args \<Longrightarrow> accepted \<lparr>se_tool = tool, se_enabled = en, se_args = json_object args\<rparr>"
  using parse_struct_object [of "tool_fields tool" args "\<lambda>_. ()"]
  by (auto simp: accepted_def call_ok_def parse_struct_def split: option.splits)

lemma readable_push:
  assumes b: "readable b" and call: "call_ok tool tr args"
  shows "readable (push_entry tool from en tr args b)"
proof -
  from b obtain es froms where es: "\<And>i. parse_entries i (bu_entries b) = Inr es" "list_all accepted es"
      "length (filter (\<lambda>e. \<not> se_enabled e) es) = bu_disabled b" "length (filter says_suspending es) = bu_suspending b"
      and froms: "length froms = length es" "bu_entries b = written froms es"
    unfolding readable_def by blast
  let ?e = "\<lparr>se_tool = tool, se_enabled = en, se_args = json_object args\<rparr>"
  have "says_suspending ?e \<longleftrightarrow> \<not> tr"
    using call by (simp add: says_suspending_def call_ok_def bt_get_object)
  moreover have "parse_entry i (entry_json tool from en (json_object args)) = Inr ?e" for i
    using call by (simp add: parse_pushed call_ok_def)
  moreover have "parse_entries i (bu_entries b @ [entry_json tool from en (json_object args)]) = Inr (es @ [?e])" for i
    using es(1) \<open>\<And>i. parse_entry i _ = Inr ?e\<close> by (simp add: parse_entries_append)
  moreover have "\<exists>fs. length fs = length (es @ [?e])
      \<and> bu_entries b @ [entry_json tool from en (json_object args)] = written fs (es @ [?e])"
    using froms by (intro exI [of _ "froms @ [from]"]) (simp add: written_def)
  ultimately show ?thesis
    unfolding readable_def using es(2-4) accepted_call [OF call, of en]
    by (intro exI [of _ "es @ [?e]"]) (auto simp: push_entry_def)
qed

lemma readable_dropped [simp]:
  "readable (drop_filters i inst th b) = readable b" "readable (drop_undescribable i b) = readable b"
  by (simp_all add: readable_def drop_filters_def drop_undescribable_def)

lemma readable_new: "readable builder_new"
  by (simp add: readable_def builder_new_def written_def)

lemma readable_fold: "(\<And>x b. x \<in> set xs \<Longrightarrow> readable b \<Longrightarrow> readable (f x b)) \<Longrightarrow> readable b \<Longrightarrow> readable (fold f xs b)"
  by (induction xs arbitrary: b) auto

lemma readable_family:
  assumes "fits (ps_trace_frames (snd f)) (ps_trace_max_length (snd f))" "machine_nat (ps_max_classes (snd f))" "readable b"
  shows "readable (push_family s f b)"
proof (cases f)
  case (Pair i fam)
  have "call_ok ''debug.set_line_stop'' (ps_trace fam)
      (line_args (ps_class_pattern fam) (family_line s fam) (ps_method fam)
       @ [(''max_classes'', J_int (int (ps_max_classes fam)))]
       @ common_args (ps_hit_count fam) (ps_condition fam) (ps_trace fam) (ps_trace_expr fam)
           (ps_trace_budget fam) (ps_trace_frames fam) (ps_trace_max_length fam))"
    using call_line [where max_classes = "Some (ps_max_classes fam)"] assms(1,2) by (simp add: opt_arg_def Pair)
  then show ?thesis
    using assms(3) by (auto simp: push_family_def Pair Let_def intro!: readable_push)
qed

lemma readable_pending:
  assumes "fits (pb_trace_frames p) (pb_trace_max_length p)" "readable b"
  shows "readable (push_pending p b)"
  using call_line [where max_classes = None] assms by (auto simp: push_pending_def opt_arg_def intro!: readable_push)

lemma located_call:
  assumes loc: "locate members sp = Loc_call tool args" and fit: "fits fr ln"
  shows "call_ok tool tr (args @ common_args hc cond tr ex bud fr ln)"
proof (cases "sp_armed_on sp")
  case (On_line bp)
  then have "tool = ''debug.set_line_stop''" "args = line_args (lb_class_pattern bp) (lb_arm_line bp) (lb_arm_method bp)"
    using loc by (simp_all add: locate_def split: if_splits)
  then show ?thesis using call_line [where max_classes = None, OF fit] by (simp add: opt_arg_def)
next
  case (On_exception er)
  then have "tool = ''debug.set_exception_stop''" "args = (if xb_class_pattern er = [] then []
      else [(''class_pattern'', J_str (xb_class_pattern er))])
      @ [(''caught'', J_bool (xb_caught er)), (''uncaught'', J_bool (xb_uncaught er))]"
    using loc by (simp_all add: locate_def)
  then show ?thesis using call_exception [OF fit] by (simp only:)
next
  case (On_watchpoint wp)
  then have "tool = ''debug.set_field_stop''" "args =
      [(''class_name'', J_str (wp_class_name wp)), (''field_name'', J_str (wp_field_name wp)),
       (''modify'', J_bool (wp_kind wp = WK_Modify)), (''access'', J_bool (wp_kind wp = WK_Access))]"
    using loc by (simp_all add: locate_def)
  then show ?thesis using call_field [OF fit] by (simp only:)
next
  case (On_method_exit me)
  then have "tool = ''debug.set_method_exit_stop''" "args = [(''class_pattern'', J_str (me_class_pattern me))]
      @ opt_arg ''method'' J_str (me_method me)
      @ (if me_exclude_classes me = [] then [] else [(''exclude_classes'', j_strs (me_exclude_classes me))])"
    using loc by (simp_all add: locate_def)
  then show ?thesis using call_method_exit [OF fit] by (simp only:)
qed (use loc in \<open>simp add: locate_def\<close>)

lemma readable_point:
  assumes "fits (sp_trace_frames sp) (sp_trace_max_length sp)" "readable b"
  shows "readable (push_stop_point members sp b)"
proof (cases "locate members sp")
  case (Loc_call tool args)
  then show ?thesis
    using assms(2) located_call [OF Loc_call assms(1)]
    by (simp add: push_stop_point_def shared_args_def readable_push)
qed (simp_all add: push_stop_point_def assms)

lemma readable_group:
  assumes "\<forall>x\<in>set members. fits (sp_trace_frames (fst x)) (sp_trace_max_length (fst x))" "readable b"
  shows "readable (push_monitor_group members b)"
proof (cases members)
  case (Cons x rest)
  have "fits (sp_trace_frames (fst x)) (sp_trace_max_length (fst x))" using assms(1) Cons by simp
  from call_monitor [OF this] show ?thesis
    using assms(2) by (auto simp: push_monitor_group_def Cons shared_args_def case_prod_unfold intro!: readable_push)
qed (simp add: push_monitor_group_def assms)

lemma group_by_members: "g \<in> set (group_by key xs) \<Longrightarrow> set g \<subseteq> set xs"
  by (induction key xs rule: group_by.induct) auto

lemma readable_export:
  assumes "numbers_fit s"
  shows "\<exists>b. export_session s = finish b \<and> readable b"
proof -
  have points: "fits (sp_trace_frames sp) (sp_trace_max_length sp)" if "sp \<in> set (stop_point_values (ds_state s))" for sp
    using assms that by (simp add: numbers_fit_def)
  have mons: "fits (sp_trace_frames (fst x)) (sp_trace_max_length (fst x))" if "x \<in> set (session_monitors s)" for x
    using that points by (auto simp: session_monitors_def sorted_of_kind_def map_filter_def)
  have groups: "\<forall>x\<in>set g. fits (sp_trace_frames (fst x)) (sp_trace_max_length (fst x))"
    if "g \<in> set (group_by monitor_key (session_monitors s))" for g
    using mons group_by_members [OF that] by blast
  have "readable (push_monitors s b)" if "readable b" for b
    unfolding push_monitors_def Let_def
    by (intro readable_fold readable_group) (use that groups in \<open>auto simp: case_prod_unfold\<close>)
  moreover have "readable (fold (push_stop_point ms) (sorted_of_kind s k) b)" if "readable b" for ms k b
    by (intro readable_fold readable_point) (use that points in \<open>auto simp: sorted_of_kind_def\<close>)
  moreover have "readable (fold push_pending (ss_pending (ds_state s)) b)" if "readable b" for b
    by (intro readable_fold readable_pending) (use that assms in \<open>auto simp: numbers_fit_def\<close>)
  ultimately have kind: "readable (push_kind s ms k b)" if "readable b" for ms k b
    using that by (simp add: push_kind_def Let_def)
  have "readable (snd (push_families s builder_new))"
    unfolding push_families_def Let_def snd_conv
    by (intro readable_fold readable_family readable_new) (use assms in \<open>auto simp: numbers_fit_def sorted_by_id_def case_prod_unfold\<close>)
  then have "readable (fold (push_kind s (fst (push_families s builder_new))) LISTING_ORDER (snd (push_families s builder_new)))"
    by (intro readable_fold kind)
  then show ?thesis by (auto simp: export_session_def case_prod_unfold)
qed

section \<open>Reading a set back\<close>

definition set_json :: "json list \<Rightarrow> json" where
  "set_json es = J_obj (json_object [(FORMAT_KEY, J_int (int FORMAT_VERSION)), (''entries'', J_arr es)])"

lemma read_set_json:
  "es \<noteq> [] \<Longrightarrow> parse_entries 0 es = Inr out \<Longrightarrow> read_set (set_json es) = Inr out"
  using parse_entries_length [of 0 es out]
  by (auto simp: read_set_def set_json_def bt_get_object FORMAT_KEY_def check_version_def FORMAT_VERSION_def)

lemma export_read_back:
  assumes "numbers_fit s" "ex_entries (export_session s) \<noteq> 0"
  shows "\<exists>entries froms. read_set (ex_set (export_session s)) = Inr entries \<and> list_all accepted entries
    \<and> length froms = length entries \<and> ex_set (export_session s) = set_json (written froms entries)
    \<and> length entries = ex_entries (export_session s)
    \<and> length (filter (\<lambda>e. \<not> se_enabled e) entries) = ex_disabled (export_session s)
    \<and> length (filter says_suspending entries) = ex_suspending (export_session s)"
proof -
  from readable_export [OF assms(1)] obtain b es froms where b: "export_session s = finish b"
    and froms: "length froms = length es" "bu_entries b = written froms es"
    and es: "parse_entries 0 (bu_entries b) = Inr es" "list_all accepted es"
      "length (filter (\<lambda>e. \<not> se_enabled e) es) = bu_disabled b" "length (filter says_suspending es) = bu_suspending b"
    unfolding readable_def by blast
  have "bu_entries b \<noteq> []" using assms(2) by (auto simp: b finish_def)
  from read_set_json [OF this es(1)] have "read_set (ex_set (export_session s)) = Inr es"
    by (simp add: b finish_def set_json_def)
  moreover have "ex_set (export_session s) = set_json (written froms es)" by (simp add: b finish_def set_json_def froms(2))
  ultimately show ?thesis
    using es parse_entries_length [OF es(1)] froms(1) by (intro exI [of _ es] exI [of _ froms]) (simp add: b finish_def)
qed

lemma trim_end_newline: "trim_end (u @ [CHR 0x0A]) = trim_end u"
  unfolding trim_end_def by (subst trim_leading.simps) (simp add: white_space_def)

lemma trim_newline:
  assumes "u \<noteq> []" "plain_char (hd u)" "plain_char (last u)"
  shows "trim (u @ [CHR 0x0A]) = u"
proof -
  have "trim_start (u @ [CHR 0x0A]) = u @ [CHR 0x0A]" using assms trim_start_plain [of "u @ [CHR 0x0A]"] by simp
  moreover have "trim u = trim_end u" using trim_start_plain [OF assms(1,2)] by (simp add: trim_def)
  ultimately show ?thesis using trim_plain [OF assms] by (simp add: trim_def trim_end_newline)
qed

lemma strip_rendered:
  assumes out: "p = pretty j" "p \<noteq> []" "hd p = CHR ''{''" "last p = CHR 0x7D"
  shows "strip_code_fence (trim (render_set_block pretty j)) = p"
proof -
  have plain: "plain_char (CHR ''{'')" "plain_char (CHR 0x7D)" "plain_char (CHR 0x60)"
    by (simp_all add: plain_char_def white_space_def)
  let ?body = "p @ [CHR 0x0A] @ fence"
  let ?u = "fence @ ''json'' @ [CHR 0x0A] @ ?body"
  have u: "trim (render_set_block pretty j) = ?u"
    using trim_newline [of ?u] plain by (simp add: render_set_block_def out(1) fence_def)
  have body: "trim ?body = ?body"
    using plain out(2,3) by (intro trim_plain) (simp_all add: fence_def)
  have "trim (p @ [CHR 0x0A]) = p" using trim_newline out(2-4) plain by simp
  moreover have "strip_code_fence ?u = trim (p @ [CHR 0x0A])"
    using body by (simp add: strip_code_fence_def fence_def split_once_def Let_def suffix_def)
  ultimately show ?thesis by (simp add: u)
qed

text \<open>C15: every entry of an exported set is a call of one of the five arming tools whose arguments that tool accepts: the
  set is read without an error, each entry names a tool of the whitelist, and no argument is unknown, ill-typed
  or missing.\<close>

theorem exported_entries_typed:
  assumes "numbers_fit s" "ex_entries (export_session s) \<noteq> 0"
  shows "\<exists>entries. read_set (ex_set (export_session s)) = Inr entries
    \<and> (\<forall>e\<in>set entries. se_tool e \<in> set ARMABLE_TOOLS
         \<and> args_error (tool_fields (se_tool e)) (bt_del SESSION_ID_ARG (se_args e)) = None)"
  using export_read_back [OF assms] by (auto simp: list_all_iff accepted_def)

text \<open>C16: the block an export reply carries, pasted back with its code fence, is read as the exported entries: written
  down again under the source ids the block carries, the entries read are the exported set - the tool, the
  enablement and every argument of each, in order - and their number, how many are disabled and how many suspend are
  what the reply said. The rendering of the JSON text is the library's, which reads back what it wrote.\<close>

theorem export_block_reads_back:
  assumes "numbers_fit s" "ex_entries (export_session s) \<noteq> 0"
    and "j = ex_set (export_session s)" "from_str (pretty j) = Inr j"
    and "pretty j \<noteq> []" "hd (pretty j) = CHR ''{''" "last (pretty j) = CHR 0x7D"
  shows "\<exists>entries froms. parse_set from_str (render_set_block pretty j) = Inr entries
    \<and> length froms = length entries
    \<and> j = J_obj (json_object [(FORMAT_KEY, J_int (int FORMAT_VERSION)), (''entries'',
          J_arr (map2 (\<lambda>i e. entry_json (se_tool e) i (se_enabled e) (se_args e)) froms entries))])
    \<and> length entries = ex_entries (export_session s)
    \<and> length (filter (\<lambda>e. \<not> se_enabled e) entries) = ex_disabled (export_session s)
    \<and> length (filter says_suspending entries) = ex_suspending (export_session s)"
proof -
  have "strip_code_fence (trim (render_set_block pretty j)) = pretty j"
    by (rule strip_rendered) (use assms(5-7) in simp_all)
  moreover from this assms(5) have "trim (render_set_block pretty j) \<noteq> []" by (auto simp: strip_code_fence_def fence_def)
  ultimately have "parse_set from_str (render_set_block pretty j) = read_set j"
    using assms(4) by (simp add: parse_set_def)
  then show ?thesis
    using export_read_back [OF assms(1,2)] unfolding assms(3) set_json_def written_def by auto
qed

section \<open>Instances\<close>

definition sample_exit_stop :: stop_point where
  "sample_exit_stop = fresh_stop_point ''mexit_1'' 7 (Some 3) (Some ''total > 9'') False
     \<lparr>rt_frames = 0, rt_max_length = None, rt_exprs = [], rt_budget = None, rt_note = None, rt_session_default_note = []\<rparr> None None
     (On_method_exit \<lparr>me_discarded = 0, me_class_pattern = ''shop.Order'', me_exclude_classes = [''shop.Audit''],
        me_method = Some ''pay'', me_with_return_value = True\<rparr>)"

definition sample_armed :: debug_session where
  "sample_armed = on_state (register_stop_point sample_exit_stop) sample_opened"

lemma sample_armed_points [simp]:
  "ss_stop_points (ds_state sample_armed) = [(''mexit_1'', sample_exit_stop)]" "ss_pending (ds_state sample_armed) = []"
  "ds_pattern_sets sample_armed = []"
  by (simp_all add: sample_armed_def register_stop_point_def on_state_def sample_exit_stop_def fresh_stop_point_def
      debug_session_new_def session_state_new_def hm_put_def)

lemma sample_armed_fits: "numbers_fit sample_armed"
  by (simp add: numbers_fit_def stop_point_values_def fits_def machine_nat_def sample_exit_stop_def fresh_stop_point_def)

lemma sample_armed_export: "ex_entries (export_session sample_armed) = 1" "ex_disabled (export_session sample_armed) = 0"
  "ex_suspending (export_session sample_armed) = 1"
  by (simp_all add: export_session_def push_families_def sorted_by_id_def builder_new_def LISTING_ORDER_def push_kind_def Let_def
      sorted_of_kind_def stop_point_values_def push_monitors_def session_monitors_def map_filter_simps sp_kind_def
      sample_exit_stop_def fresh_stop_point_def push_stop_point_def locate_def push_entry_def finish_def drop_filters_def)

theorem exported_entries_typed_witness:
  "\<exists>entries. read_set (ex_set (export_session sample_armed)) = Inr entries
    \<and> (\<forall>e\<in>set entries. se_tool e \<in> set ARMABLE_TOOLS
         \<and> args_error (tool_fields (se_tool e)) (bt_del SESSION_ID_ARG (se_args e)) = None)"
  by (rule exported_entries_typed) (simp_all add: sample_armed_fits sample_armed_export)

theorem export_block_reads_back_witness:
  "\<exists>entries froms. parse_set (\<lambda>_. Inr (ex_set (export_session sample_armed)))
       (render_set_block (\<lambda>_. ''{entries}'') (ex_set (export_session sample_armed))) = Inr entries
     \<and> ex_set (export_session sample_armed) = J_obj (json_object [(FORMAT_KEY, J_int (int FORMAT_VERSION)), (''entries'',
          J_arr (map2 (\<lambda>i e. entry_json (se_tool e) i (se_enabled e) (se_args e)) froms entries))])
     \<and> length entries = 1 \<and> length (filter says_suspending entries) = 1"
proof -
  have "last ''{entries}'' = CHR 0x7D" by simp
  then show ?thesis
    using export_block_reads_back [OF sample_armed_fits _ refl, of "\<lambda>_. Inr (ex_set (export_session sample_armed))" "\<lambda>_. ''{entries}''"]
    by (auto simp: sample_armed_export)
qed

section \<open>An exported line stop comes back as it was\<close>

lemma trim_leading_suffix: "suffix (trim_leading ws s) s"
proof (induction ws s rule: trim_leading.induct)
  case (1 ws s)
  show ?case
  proof (cases "find (\<lambda>w. w \<noteq> [] \<and> prefix w s) ws")
    case (Some w)
    have "suffix (drop (length w) s) s" by (rule suffix_drop)
    with 1 [OF Some] show ?thesis by (subst trim_leading.simps) (auto simp: Some intro: suffix_order.trans)
  qed (subst trim_leading.simps, simp)
qed

lemma trim_leading_clean: "w \<in> set ws \<Longrightarrow> w \<noteq> [] \<Longrightarrow> \<not> prefix w (trim_leading ws s)"
proof (induction ws s rule: trim_leading.induct)
  case (1 ws s)
  show ?case
  proof (cases "find (\<lambda>w. w \<noteq> [] \<and> prefix w s) ws")
    case None
    then have "\<not> prefix w s" using "1.prems" by (auto simp: find_None_iff)
    then show ?thesis by (subst trim_leading.simps) (simp add: None)
  next
    case (Some v)
    then show ?thesis using "1.IH" [OF Some "1.prems"] by (subst trim_leading.simps) (simp add: Some)
  qed
qed

lemma trim_idempotent [simp]: "trim (trim s) = trim s"
proof -
  let ?t = "trim_start s" and ?r = "map rev white_space"
  have u: "rev (trim s) = trim_leading ?r (rev ?t)" by (simp add: trim_def trim_end_def)
  then have "prefix (trim s) ?t" using trim_leading_suffix [of ?r "rev ?t"] by (metis suffix_to_prefix rev_rev_ident)
  then have "\<not> prefix w (trim s)" if "w \<in> set white_space" "w \<noteq> []" for w
    using trim_leading_clean [OF that, of s] by (auto simp: trim_start_def intro: prefix_order.trans)
  then have "trim_start (trim s) = trim s" by (simp add: trim_start_def trim_leading_none)
  moreover have "trim_leading ?r (rev (trim s)) = rev (trim s)"
    unfolding u by (intro trim_leading_none) (metis trim_leading_clean)
  ultimately show ?thesis by (simp add: trim_def [of "trim s"] trim_end_def)
qed

text \<open>What a session's default expressions are: at most four, none blank and each trimmed.\<close>

definition clamped_exprs :: "string list \<Rightarrow> bool" where
  "clamped_exprs ex \<longleftrightarrow> length ex \<le> MAX_TRACE_EXPRS \<and> list_all (\<lambda>e. e \<noteq> [] \<and> trim e = e) ex"

lemma clamped_again: "clamped_exprs ex \<Longrightarrow> filter (\<lambda>e. e \<noteq> []) (map trim ex) = ex"
  unfolding clamped_exprs_def by (auto simp: list_all_iff map_idI filter_id_conv)

lemma trace_exprs_of_trimmed: "list_all (\<lambda>e. e \<noteq> [] \<and> trim e = e) (trace_exprs_of arg)"
proof (cases arg)
  case (Some x)
  then show ?thesis by (cases x) (auto simp: trace_exprs_of_def list_all_iff)
qed (simp add: trace_exprs_of_def)

lemma resolved_exprs_clamped:
  assumes "clamped_exprs dflt" "resolve_trace_exprs asked dflt = (kept, rest)"
  shows "clamped_exprs kept"
  using assms trace_exprs_of_trimmed [of asked]
  by (auto simp: resolve_trace_exprs_def clamp_trace_exprs_def Let_def clamped_exprs_def list_all_iff dest: in_set_takeD split: if_splits)

text \<open>The settings a stop point can have been armed with, other than without a budget.\<close>

definition settled :: "bool \<Rightarrow> string list \<Rightarrow> u32 option \<Rightarrow> nat \<Rightarrow> nat option \<Rightarrow> string list \<Rightarrow> bool" where
  "settled tr ex bud fr ln dflt \<longleftrightarrow> clamped_exprs ex \<and> (ex = [] \<longrightarrow> dflt = [])
     \<and> (if tr then fr \<le> MAX_TRACE_FRAMES \<and> pred_option (\<lambda>n. 0 < n \<and> n \<le> MAX_TRACE_LENGTH) ln \<and> bud \<noteq> None \<and> bud \<noteq> Some 0
        else fr = 0 \<and> ln = None \<and> bud = None)"

lemma resolved_settled:
  assumes "clamped_exprs dflt" "ta_trace t \<Longrightarrow> ta_max_hits t \<noteq> Some 0"
  defines "r \<equiv> resolve_trace t dflt"
  shows "settled (ta_trace t) (rt_exprs r) (rt_budget r) (rt_frames r) (rt_max_length r) dflt"
proof -
  obtain kept rest where k: "resolve_trace_exprs (ta_expr t) dflt = (kept, rest)" by (cases "resolve_trace_exprs (ta_expr t) dflt")
  have "kept = [] \<Longrightarrow> dflt = []"
    using k by (auto simp: resolve_trace_exprs_def clamp_trace_exprs_def MAX_TRACE_EXPRS_def Let_def split: if_splits)
  moreover have "DEFAULT_TRACE_BUDGET \<noteq> 0" by (simp add: DEFAULT_TRACE_BUDGET_def)
  ultimately show ?thesis
    using assms(2) resolved_exprs_clamped [OF assms(1) k] k
    by (auto simp: r_def resolve_trace_def settled_def case_prod_unfold clamp_trace_frames_def clamp_trace_max_length_def
        trace_budget_for_def MAX_TRACE_LENGTH_def split: option.splits if_splits)
qed

lemma call_lookup:
  assumes "distinct (map fst args)" "fst ` set args \<inter> set common_keys = {}"
  shows "k \<in> set common_keys \<Longrightarrow> bt_get k (json_object (args @ common_args hc cond tr ex bud fr ln))
      = map_of (common_args hc cond tr ex bud fr ln) k"
    and "k \<notin> set common_keys \<Longrightarrow> bt_get k (json_object (args @ common_args hc cond tr ex bud fr ln)) = map_of args k"
proof -
  have dis: "distinct (map fst (args @ common_args hc cond tr ex bud fr ln))"
    using assms common_args_distinct [of hc cond tr ex bud fr ln] common_args_keys [of hc cond tr ex bud fr ln] by auto
  note get = bt_get_object [OF dis]
  show "bt_get k (json_object (args @ common_args hc cond tr ex bud fr ln)) = map_of (common_args hc cond tr ex bud fr ln) k"
    if "k \<in> set common_keys"
  proof -
    have "map_of args k = None" using assms(2) that by (auto simp: map_of_eq_None_iff)
    then show ?thesis by (simp add: get map_add_def split: option.split)
  qed
  show "bt_get k (json_object (args @ common_args hc cond tr ex bud fr ln)) = map_of args k" if "k \<notin> set common_keys"
  proof -
    have "map_of (common_args hc cond tr ex bud fr ln) k = None"
      using that common_args_keys [of hc cond tr ex bud fr ln] by (auto simp: map_of_eq_None_iff)
    then show ?thesis by (simp add: get map_add_def split: option.split)
  qed
qed

text \<open>The shared settings of an exported call, read as its tool reads them, are the settings exported.\<close>

lemma settings_read_back:
  assumes args: "distinct (map fst args)" "fst ` set args \<inter> set common_keys = {}"
    and fit: "settled tr ex bud fr ln dflt"
    and m: "m = json_object (args @ common_args hc cond tr ex bud fr ln)"
  shows "ta_trace (trace_args_of d m) = tr" "field_opt as_i32 ''hit_count'' m = hc" "field_opt as_str ''condition'' m = cond"
    and "rt_frames (resolve_trace (trace_args_of d m) dflt) = fr" "rt_max_length (resolve_trace (trace_args_of d m) dflt) = ln"
    and "rt_exprs (resolve_trace (trace_args_of d m) dflt) = ex" "rt_budget (resolve_trace (trace_args_of d m) dflt) = bud"
proof -
  have get: "bt_get k m = map_of (common_args hc cond tr ex bud fr ln) k" if "k \<in> set common_keys" for k
    using call_lookup(1) [OF args that] m by simp
  have small: "fr < 2 ^ 64" "ln = Some n \<Longrightarrow> n < 2 ^ 64" for n
    using fit by (auto simp: settled_def MAX_TRACE_FRAMES_def MAX_TRACE_LENGTH_def split: if_splits)
  show tr: "ta_trace (trace_args_of d m) = tr"
    by (simp add: trace_args_of_def field_or_def get common_keys_def common_args_def map_add_def)
  show "field_opt as_i32 ''hit_count'' m = hc"
    by (cases hc) (simp_all add: field_opt_def field_or_def get common_keys_def common_args_def map_add_def)
  show "field_opt as_str ''condition'' m = cond"
    by (cases cond) (simp_all add: field_opt_def field_or_def get common_keys_def common_args_def map_add_def)
  have fr: "ta_frames (trace_args_of d m) = fr"
    using small by (simp add: trace_args_of_def field_or_def get common_keys_def common_args_def map_add_def)
  have ln: "ta_max_length (trace_args_of d m) = ln"
    using small by (cases ln) (simp_all add: trace_args_of_def field_opt_def field_or_def get common_keys_def common_args_def map_add_def)
  have bud: "ta_max_hits (trace_args_of d m) = bud"
    by (cases bud) (simp_all add: trace_args_of_def field_opt_def field_or_def get common_keys_def common_args_def map_add_def)
  have "ta_expr (trace_args_of d m) = (if ex = [] then None else Some (TE_many ex))"
    by (simp add: trace_args_of_def field_opt_def field_or_def get common_keys_def common_args_def map_add_def)
  then have "trace_exprs_of (ta_expr (trace_args_of d m)) = ex"
    using fit clamped_again [of ex] by (simp add: trace_exprs_of_def settled_def)
  then have "resolve_trace_exprs (ta_expr (trace_args_of d m)) dflt = (ex, None, False)"
    using fit by (auto simp: resolve_trace_exprs_def settled_def clamp_trace_exprs_def clamped_exprs_def)
  then show "rt_frames (resolve_trace (trace_args_of d m) dflt) = fr"
    "rt_max_length (resolve_trace (trace_args_of d m) dflt) = ln"
    "rt_exprs (resolve_trace (trace_args_of d m) dflt) = ex" "rt_budget (resolve_trace (trace_args_of d m) dflt) = bud"
    using fit by (auto simp: resolve_trace_def tr fr ln bud settled_def clamp_trace_frames_def clamp_trace_max_length_def
        trace_budget_for_def split: option.splits if_splits)
qed

definition exported_args :: "stop_point \<Rightarrow> jmap option" where
  "exported_args sp =
     (case locate {} sp of Loc_call _ args \<Rightarrow> Some (json_object (args @ shared_args sp (sp_condition sp))) | _ \<Rightarrow> None)"

lemma exported_line:
  assumes "lb_arm_line bp \<noteq> None \<or> lb_arm_method bp \<noteq> None"
  shows "exported_args (armed_line_stop_point i reqs spec bp) =
    Some (json_object (line_args (lb_class_pattern bp) (lb_arm_line bp) (lb_arm_method bp)
      @ common_args (bs_hit_count spec) (bs_condition spec) (bs_trace spec) (bs_trace_expr spec) (bs_trace_budget spec)
          (bs_trace_frames spec) (bs_trace_max_length spec)))"
  using assms by (auto simp: exported_args_def locate_def armed_line_stop_point_def shared_args_def)


definition sample_line_args :: set_breakpoint_args where
  "sample_line_args = \<lparr>sb_class_pattern = CP_one ''shop.Order'', sb_line = Some 42, sb_method = None, sb_hit_count = Some 5,
     sb_instance_id = None, sb_thread_id = None, sb_condition = Some ''total > 9'',
     sb_trace = \<lparr>ta_trace = True, ta_frames = 50, ta_max_length = Some 0, ta_max_hits = None, ta_expr = Some (TE_one '' total '')\<rparr>,
     sb_max_classes = 20\<rparr>"


section \<open>What does not come back\<close>

text \<open>A trace without a budget is exported without one, and comes back with the default; one whose budget is spent is
  exported with a budget of 0, and comes back without one.\<close>

lemma trace_budget_not_kept:
  assumes "distinct (map fst args)" "fst ` set args \<inter> set common_keys = {}"
    and m: "m = json_object (args @ common_args hc cond True ex bud fr ln)"
  shows "bud = None \<Longrightarrow> rt_budget (resolve_trace (trace_args_of d m) dflt) = Some DEFAULT_TRACE_BUDGET"
    and "bud = Some 0 \<Longrightarrow> rt_budget (resolve_trace (trace_args_of d m) dflt) = None"
proof -
  have get: "bt_get k m = map_of (common_args hc cond True ex bud fr ln) k" if "k \<in> set common_keys" for k
    using call_lookup(1) [OF assms(1,2) that] m by simp
  have "ta_trace (trace_args_of d m)" "ta_max_hits (trace_args_of d m) = bud"
    by (cases bud; simp add: trace_args_of_def field_or_def field_opt_def get common_keys_def common_args_def map_add_def)+
  then show "bud = None \<Longrightarrow> rt_budget (resolve_trace (trace_args_of d m) dflt) = Some DEFAULT_TRACE_BUDGET"
    "bud = Some 0 \<Longrightarrow> rt_budget (resolve_trace (trace_args_of d m) dflt) = None"
    by (simp_all add: resolve_trace_def case_prod_unfold trace_budget_for_def)
qed

text \<open>A stop point on every exception is exported with the pattern \<open>*\<close>, which is armed as a wildcard over the loaded
  classes and not as the catch-all it was.\<close>

lemma catch_all_becomes_wildcard:
  "locate members (fresh_stop_point i req hc cond tr r th inst
     (On_exception \<lparr>xb_class_pattern = ''*'', xb_caught = ca, xb_uncaught = un\<rparr>))
   = Loc_call ''debug.set_exception_stop''
       [(''class_pattern'', J_str ''*''), (''caught'', J_bool ca), (''uncaught'', J_bool un)]"
  "\<not> takes_lone_exception_path [''*'']"
  by (simp_all add: locate_def fresh_stop_point_def takes_lone_exception_path_def is_wildcard_def)

end
