(* ===== verification/SetSafety.thy ===== *)
theory SetSafety
  imports SetProofs ArmingWire
begin

text \<open>
  What the arming tools, alone or replayed from a stop-point set, can send. Beside reads they set requests,
  and clear the ones of an arming that failed half way: nothing they do lets the debuggee run, and a set can
  reach nothing but these five tools.
\<close>

section \<open>The arming tools\<close>

lemma sess_grew_bind:
  assumes "sess_grew bad c0 s" "\<And>s. sess_grew bad c0 s \<Longrightarrow> sess_grew bad c0 (snd (op s))"
    and "\<And>a s. sess_grew bad c0 s \<Longrightarrow> sess_grew bad c0 (snd (f a s))"
  shows "sess_grew bad c0 (snd (s_bind op f s))"
proof (cases "op s")
  case (Pair r s1)
  have "sess_grew bad c0 s1" using assms(2) [OF assms(1)] by (simp add: Pair)
  then show ?thesis using assms(3) by (cases r) (simp_all add: s_bind_def Pair)
qed

lemma sess_grew_check: "sess_grew bad c0 s \<Longrightarrow> sess_grew bad c0 (snd (s_check r s))"
  by (simp add: s_check_def)

lemma sess_grew_armed: "sess_grew bad c0 s \<Longrightarrow> sess_grew bad c0 (snd (register_armed pref sp s))"
  by (simp add: register_armed_def Let_def case_prod_unfold)

context sparing_clear begin

lemma spare_filters:
  assumes "grew bad c0 c"
  shows "grew bad c0 (snd (capabilities_new d c))" "grew bad c0 (snd (get_thread_status d t c))"
proof -
  show caps: "grew bad c0 (snd (capabilities_new d c))"
    unfolding capabilities_new_def by (rule spare_read [OF assms], simp add: wire_defs)
  show status: "grew bad c0 (snd (get_thread_status d t c))"
    unfolding get_thread_status_def thread_read_request_def by (rule spare_read [OF assms], simp add: wire_defs)
qed

lemma spare_thread_filter: "grew bad c0 c \<Longrightarrow> grew bad c0 (snd (check_thread_filter d t c))"
  by (auto simp: check_thread_filter_def thread_is_alive_def case_prod_unfold split: option.split intro!: spare_filters)

lemma spare_check_filters: "grew bad c0 c \<Longrightarrow> grew bad c0 (snd (check_filters d t i c))"
  by (auto simp: check_filters_def check_instance_filter_supported_def case_prod_unfold split: option.split sum.split
      intro!: spare_filters spare_thread_filter)

lemma spare_index: "grew bad c0 c \<Longrightarrow> grew bad c0 (snd (class_index_for d ps c))"
  by (auto simp: class_index_for_def load_class_index_def case_prod_unfold split: sum.split intro!: spare_reads)

lemma spare_return_values: "grew bad c0 c \<Longrightarrow> grew bad c0 (snd (can_get_method_return_values d c))"
  unfolding can_get_method_return_values_def get_version_def
  by (intro grew_cbind grew_pure spare_read) (simp_all add: wire_defs)

lemma spare_family: "sess_grew bad c0 s \<Longrightarrow> sess_grew bad c0 (snd (arm_pattern_family env spec index cap s))"
proof -
  have classes: "sess_grew bad c0 s \<Longrightarrow> sess_grew bad c0 (snd (arm_family_classes env spec cap hits t s))" for hits t s
  proof (induction hits arbitrary: t s)
    case (Cons h hits)
    let ?r = "arm_and_insert env [snd h] (for_pattern spec (fst h)) (fst (mint_stop_id ''bp_'' s)) family_member
      (snd (mint_stop_id ''bp_'' s))"
    have "sess_grew bad c0 (snd ?r)" using Cons.prems by (intro spare_arm) simp
    with Cons show ?case
      by (cases h; cases ?r) (auto simp: case_prod_unfold Let_def split: sum.split arm_error.split)
  qed simp
  show "sess_grew bad c0 s \<Longrightarrow> ?thesis"
    by (auto simp: arm_pattern_family_def family_watch_def Let_def case_prod_unfold split: sum.split
        intro!: grew_on_conn spare_sets classes)
qed

lemma spare_one_pattern: "sess_grew bad c0 s \<Longrightarrow> sess_grew bad c0 (snd (arm_one_pattern env spec index cap s))"
  by (auto simp: arm_one_pattern_def Let_def case_prod_unfold split: sum.split defer_result.split
      intro!: grew_on_conn spare_family spare_reads spare_defer spare_arm spare_rearm_watch)

lemma spare_line: "sess_grew bad c0 s \<Longrightarrow> sess_grew bad c0 (snd (arm_line_patterns env base ps cap s))"
proof -
  have each: "sess_grew bad c0 s \<Longrightarrow> sess_grew bad c0 (snd (arm_patterns env base index cap qs s))" for index qs s
    by (induction qs arbitrary: s) (simp_all add: Let_def case_prod_unfold spare_one_pattern)
  have named: "sess_grew bad c0 s \<Longrightarrow> sess_grew bad c0 (snd (arm_single_named env spec s))" for spec s
    by (auto simp: arm_single_named_def register_deferred_breakpoint_def Let_def case_prod_unfold
        split: sum.split defer_result.split
        intro!: grew_on_conn spare_reads spare_defer spare_arm spare_rearm_watch)
  show "sess_grew bad c0 s \<Longrightarrow> ?thesis"
    by (auto simp: arm_line_patterns_def Let_def case_prod_unfold split: option.split sum.split
        intro!: grew_on_conn spare_index each named)
qed

lemma spare_handle_line: "sess_grew bad c0 s \<Longrightarrow> sess_grew bad c0 (snd (handle_set_line_stop env m s))"
  unfolding handle_set_line_stop_def Let_def
  by (intro sess_grew_bind sess_grew_check grew_on_conn spare_check_filters spare_line)

lemma spare_targets:
  assumes arm: "\<And>t s. sess_grew bad c0 s \<Longrightarrow> sess_grew bad c0 (snd (arm t s))" and s: "sess_grew bad c0 s"
  shows "sess_grew bad c0 (snd (rows_for_targets p cap arm mt ts s))"
proof -
  have "sess_grew bad c0 s \<Longrightarrow> sess_grew bad c0 (snd (arm_targets cap arm ts n s))" for ts n s
    by (induction ts arbitrary: n s) (simp_all add: Let_def case_prod_unfold arm)
  with s show ?thesis by (auto simp: rows_for_targets_def Let_def case_prod_unfold split: sum.split)
qed

lemma spare_batch:
  assumes rows: "\<And>p s. sess_grew bad c0 s \<Longrightarrow> sess_grew bad c0 (snd (rows p s))" and s: "sess_grew bad c0 s"
  shows "sess_grew bad c0 (snd (batch_reply (batch_each rows ps s)))"
proof -
  have "sess_grew bad c0 s \<Longrightarrow> sess_grew bad c0 (snd (batch_each rows ps s))" for s
    by (induction ps arbitrary: s) (simp_all add: Let_def case_prod_unfold rows)
  with s show ?thesis by (simp add: batch_reply_def case_prod_unfold)
qed

lemma spare_exception_class: "grew bad c0 c \<Longrightarrow> grew bad c0 (snd (resolve_exception_class d p c))"
  by (auto simp: resolve_exception_class_def case_prod_unfold split: sum.split option.split intro!: spare_by_dotted)

lemma spare_one_exception: "sess_grew bad c0 s \<Longrightarrow> sess_grew bad c0 (snd (arm_one_exception d a i r t p s))"
  by (auto simp: arm_one_exception_def Let_def case_prod_unfold split: sum.split
      intro!: sess_grew_armed grew_on_conn spare_sets)

lemma spare_handle_exception: "sess_grew bad c0 s \<Longrightarrow> sess_grew bad c0 (snd (handle_set_exception_stop d m s))"
proof -
  have row: "sess_grew bad c0 s \<Longrightarrow> sess_grew bad c0 (snd (exception_row d a i r t s))" for a i r t s
    by (auto simp: exception_row_def case_prod_unfold split: sum.split intro!: spare_one_exception)
  have rows: "sess_grew bad c0 s \<Longrightarrow> sess_grew bad c0 (snd (exception_rows_for_pattern d a i r cap ix p s))" for a i r cap ix p s
    by (auto simp: exception_rows_for_pattern_def Let_def case_prod_unfold
        intro!: spare_targets row grew_on_conn spare_exception_class)
  have named: "sess_grew bad c0 s \<Longrightarrow> sess_grew bad c0 (snd (arm_single_exception_pattern d a p i r s))" for a p i r s
    unfolding arm_single_exception_pattern_def
    by (intro sess_grew_bind)
       (auto simp: case_prod_unfold split: option.split intro!: spare_one_exception grew_on_conn spare_exception_class)
  show "sess_grew bad c0 s \<Longrightarrow> ?thesis"
    unfolding handle_set_exception_stop_def Let_def
    by (intro sess_grew_bind sess_grew_check grew_on_conn spare_check_filters)
       (auto intro!: named sess_grew_bind grew_on_conn spare_index spare_batch rows)
qed

lemma spare_watch_kinds: "sess_grew bad c0 s \<Longrightarrow> sess_grew bad c0 (snd (arm_watch_kinds d a i r c f ks s))"
proof -
  have one: "sess_grew bad c0 s \<Longrightarrow> sess_grew bad c0 (snd (arm_one_field_watch d a i r c f k s))" for k s
    by (auto simp: arm_one_field_watch_def Let_def case_prod_unfold split: sum.split
        intro!: sess_grew_armed grew_on_conn spare_sets)
  show "sess_grew bad c0 s \<Longrightarrow> ?thesis"
  proof (induction ks arbitrary: s)
    case (Cons k ks)
    show ?case
      unfolding arm_watch_kinds.simps
      by (rule sess_grew_bind [OF Cons.prems one], assumption, rule sess_grew_bind [OF _ Cons.IH]) simp_all
  qed simp
qed

lemma spare_handle_field: "sess_grew bad c0 s \<Longrightarrow> sess_grew bad c0 (snd (handle_set_field_stop d m s))"
proof -
  have one: "sess_grew bad c0 s \<Longrightarrow> sess_grew bad c0 (snd (arm_field_on_one_class d a ks i r w t s))" for a ks i r w t s
    by (auto simp: arm_field_on_one_class_def find_field_info_def Let_def case_prod_unfold split: sum.split option.split
        intro!: spare_watch_kinds grew_on_conn spare_find_field)
  have rows: "sess_grew bad c0 s \<Longrightarrow> sess_grew bad c0 (snd (field_rows_for_pattern d a ks i r cap ix p s))" for a ks i r cap ix p s
    by (auto simp: field_rows_for_pattern_def Let_def case_prod_unfold
        intro!: spare_targets one grew_on_conn spare_by_dotted)
  have named: "sess_grew bad c0 s \<Longrightarrow> sess_grew bad c0 (snd (arm_field_on_named_class d a ks i r p s))" for a ks i r p s
    unfolding arm_field_on_named_class_def find_field_info_def
    by (intro sess_grew_bind grew_on_conn spare_by_dotted)
       (simp_all split: option.split, intro conjI allI impI sess_grew_bind grew_on_conn spare_find_field spare_watch_kinds,
        simp_all split: option.split add: sess_grew_bind spare_watch_kinds)
  show "sess_grew bad c0 s \<Longrightarrow> ?thesis"
    unfolding handle_set_field_stop_def Let_def
    by (intro sess_grew_bind sess_grew_check grew_on_conn spare_check_filters; assumption?)
       (split option.split, intro conjI allI impI named sess_grew_bind grew_on_conn spare_index spare_batch rows)
qed

lemma spare_handle_method_exit: "sess_grew bad c0 s \<Longrightarrow> sess_grew bad c0 (snd (handle_set_method_exit_stop d m s))"
proof -
  have one: "sess_grew bad c0 s \<Longrightarrow> sess_grew bad c0 (snd (arm_one_method_exit d a mt rv i r p s))" for a mt rv i r p s
    by (auto simp: arm_one_method_exit_def Let_def case_prod_unfold split: sum.split
        intro!: sess_grew_armed grew_on_conn spare_sets)
  have rows: "sess_grew bad c0 s \<Longrightarrow> sess_grew bad c0 (snd (method_exit_rows_for_pattern d a mt rv i r p s))" for a mt rv i r p s
    by (simp add: method_exit_rows_for_pattern_def case_prod_unfold one)
  show "sess_grew bad c0 s \<Longrightarrow> ?thesis"
    unfolding handle_set_method_exit_stop_def Let_def case_prod_unfold
    by (intro sess_grew_bind sess_grew_check grew_on_conn spare_thread_filter spare_return_values)
       (auto split: option.split intro!: sess_grew_bind one spare_batch rows)
qed

lemma spare_handle_monitor: "sess_grew bad c0 s \<Longrightarrow> sess_grew bad c0 (snd (handle_set_monitor_stop d m s))"
proof -
  have one: "sess_grew bad c0 s \<Longrightarrow> sess_grew bad c0 (snd (arm_one_monitor d a ks ci r k s))" for a ks ci r k s
    by (auto simp: arm_one_monitor_def Let_def case_prod_unfold split: sum.split
        intro!: sess_grew_armed grew_on_conn spare_sets)
  have clear: "sess_grew bad c0 s \<Longrightarrow> sess_grew bad c0 (snd (on_conn (clear_monitor_request d q k) s))" for q k s
    unfolding clear_monitor_request_def clear_request_def by (intro grew_on_conn grew_exchange clearing)
  have undo: "sess_grew bad c0 s \<Longrightarrow> sess_grew bad c0 (roll_back d ts s)" for ts s
    by (induction ts arbitrary: s) (simp_all add: case_prod_unfold clear)
  have kinds: "sess_grew bad c0 s \<Longrightarrow> sess_grew bad c0 (snd (arm_monitor_kinds d a ks ci r armed todo s))" for a ks ci r armed todo s
    by (induction todo arbitrary: armed s) (auto simp: case_prod_unfold split: sum.split intro!: undo one)
  have caps: "grew bad c0 c \<Longrightarrow> grew bad c0 (snd (monitor_capabilities d c))" for c
    by (simp add: monitor_capabilities_def case_prod_unfold spare_filters)
  have lock: "grew bad c0 c \<Longrightarrow> grew bad c0 (snd (resolve_monitor_class d n c))" for n c
    by (auto simp: resolve_monitor_class_def case_prod_unfold split: sum.split option.split intro!: spare_by_dotted)
  show "sess_grew bad c0 s \<Longrightarrow> ?thesis"
    unfolding handle_set_monitor_stop_def Let_def case_prod_unfold
    by (intro sess_grew_bind sess_grew_check grew_on_conn spare_thread_filter caps)
       (auto simp: case_prod_unfold split: option.split intro!: sess_grew_bind sess_grew_check grew_on_conn kinds lock)
qed

lemma spare_dispatch:
  "dispatch_armable env name m s = Some (r, s') \<Longrightarrow> sess_grew bad c0 s \<Longrightarrow> sess_grew bad c0 s'"
  using spare_handle_line [of c0 s env m] spare_handle_exception [of c0 s "ae_debuggee env" m]
    spare_handle_field [of c0 s "ae_debuggee env" m] spare_handle_method_exit [of c0 s "ae_debuggee env" m]
    spare_handle_monitor [of c0 s "ae_debuggee env" m]
  by (auto simp: dispatch_armable_def Let_def split: if_splits)

end

section \<open>Arming a set\<close>

text \<open>No session is opened or closed, and on none of them is anything sent that lets the debuggee run.\<close>

definition quiet_between :: "session_manager \<Rightarrow> session_manager \<Rightarrow> bool" where
  "quiet_between m m' \<longleftrightarrow> sm_current m' = sm_current m
     \<and> (\<forall>sid. case hm_get sid (sm_sessions m) of None \<Rightarrow> hm_get sid (sm_sessions m') = None
          | Some s \<Rightarrow> \<exists>s'. hm_get sid (sm_sessions m') = Some s' \<and> resumes_between s s' [])"

lemma quiet_refl: "quiet_between m m"
  by (auto simp: quiet_between_def grew_resumes [symmetric] split: option.split)

lemma quiet_trans: "quiet_between m1 m2 \<Longrightarrow> quiet_between m2 m3 \<Longrightarrow> quiet_between m1 m3"
  unfolding quiet_between_def grew_resumes [symmetric]
  by (elim conjE, intro conjI allI, simp)
     (drule_tac x = sid in spec, drule_tac x = sid in spec, auto split: option.splits intro: grew_trans)

lemma quiet_dispatch: "dispatch_armable_in env_of tool args m = Some (r, m') \<Longrightarrow> quiet_between m m'"
proof -
  assume d: "dispatch_armable_in env_of tool args m = Some (r, m')"
  show ?thesis
  proof (cases "session_key args m")
    case None
    then show ?thesis using d by (auto simp: dispatch_armable_in_def quiet_refl split: if_splits)
  next
    case (Some sid)
    then obtain s s' where s: "hm_get sid (sm_sessions m) = Some s" "dispatch_armable (env_of sid) tool args s = Some (r, s')"
        "m' = m\<lparr>sm_sessions := hm_put sid s' (sm_sessions m)\<rparr>"
      using d by (auto simp: dispatch_armable_in_def split: option.splits if_splits)
    have "resumes_between s s' []" using no_resume.spare_dispatch [OF s(2)] by (simp add: grew_resumes [symmetric])
    then show ?thesis
      using s(1,3) by (auto simp: quiet_between_def grew_resumes [symmetric] split: option.split)
  qed
qed

lemma quiet_entries: "quiet_between m (snd (arm_entries env_of sid i es m))"
proof (induction es arbitrary: i m)
  case (Cons e es)
  show ?case
  proof (cases "se_enabled e")
    case False
    then show ?thesis using Cons by (simp add: Let_def case_prod_unfold)
  next
    case True
    show ?thesis
    proof (cases "dispatch_armable_in env_of (se_tool e) (route_to_session (se_args e) sid) m")
      case None
      then show ?thesis using True Cons by (simp add: Let_def case_prod_unfold)
    next
      case (Some p)
      have "quiet_between m (snd p)" using quiet_dispatch [of env_of _ _ m "fst p" "snd p"] Some by simp
      then show ?thesis using True Some quiet_trans [OF _ Cons] by (simp add: Let_def case_prod_unfold)
    qed
  qed
qed (simp add: quiet_refl)

text \<open>C13: arming a set never lets a debuggee run: whatever the set holds, whichever sessions its entries name and however
  the debuggees answer, every session is still there afterwards and none was sent a resume.\<close>

theorem arming_a_set_never_resumes:
  "case hm_get sid (sm_sessions m) of
     None \<Rightarrow> hm_get sid (sm_sessions (snd (handle_arm_stop_points from_str env_of args m))) = None
   | Some s \<Rightarrow> \<exists>s'. hm_get sid (sm_sessions (snd (handle_arm_stop_points from_str env_of args m))) = Some s' \<and> resumes_between s s' []"
proof -
  have "quiet_between m (snd (handle_arm_stop_points from_str env_of args m))"
    using quiet_entries
    by (auto simp: handle_arm_stop_points_def Let_def case_prod_unfold quiet_refl split: sum.split option.split)
  then show ?thesis by (simp add: quiet_between_def)
qed

lemma parse_entries_armable: "parse_entries i js = Inr es \<Longrightarrow> j \<in> set js \<Longrightarrow> \<exists>i e. parse_entry i j = Inr e"
  by (induction js arbitrary: i es) (auto simp: res_bind_Inr_iff)

text \<open>C17: a set that names any tool but the five that arm is refused as a whole: no entry of it is armed, not even those
  before the one that is not allowed.\<close>

theorem set_naming_another_tool_refused:
  assumes "bt_get ''set'' args = Some (J_str raw)" "from_str (strip_code_fence (trim raw)) = Inr (J_obj obj)"
    and "bt_get ''entries'' obj = Some (J_arr es)" "J_obj e \<in> set es"
    and "bt_get ''tool'' e = Some (J_str tool)" "tool \<notin> set ARMABLE_TOOLS"
  shows "\<exists>why. handle_arm_stop_points from_str env_of args m = (Inl why, m)"
proof -
  have "parse_entry i (J_obj e) \<noteq> Inr x" for i x using assms(5,6) by (simp add: parse_entry_def)
  then have "parse_entries 0 es \<noteq> Inr out" for out using parse_entries_armable [of 0 es out] assms(4) by blast
  then obtain why where "parse_entries 0 es = Inl why" by (cases "parse_entries 0 es") auto
  then have "\<exists>why. read_set (J_obj obj) = Inl why"
    using assms(3) by (cases "bt_get FORMAT_KEY obj"; cases "check_version (the (bt_get FORMAT_KEY obj))") (auto simp: read_set_def)
  moreover have "bt_get ''set'' (bt_del SESSION_ID_ARG args) = Some (J_str raw)"
    using assms(1) by (simp add: SESSION_ID_ARG_def)
  ultimately have "\<exists>why. res_bind (parse_struct arm_set_fields (field_or [] as_str ''set'') args) (parse_set from_str) = Inl why"
    using assms(2) by (auto simp: parse_struct_def field_or_def parse_set_def Let_def split: option.split)
  then show ?thesis by (auto simp: handle_arm_stop_points_def)
qed

theorem set_naming_another_tool_refused_witness:
  "\<exists>why. handle_arm_stop_points (\<lambda>_. Inr (set_json [entry_json ''debug.set_value'' ''x'' True []])) (\<lambda>_. pe_arming sample_env)
     (json_object [(''set'', J_str ''{}'')]) session_manager_new = (Inl why, session_manager_new)"
  unfolding set_json_def entry_json_def
  by (rule set_naming_another_tool_refused [OF _ refl])
     (auto simp: bt_get_object FORMAT_KEY_def ARMABLE_TOOLS_def)

end
