(* ===== verification/Generics.thy ===== *)
theory Generics
  imports ClassNames
begin

text \<open>
  \<open>mcp-server/src/generics.rs\<close>: the parser that turns the generic signature of a type or a method into Java
  source.  A cursor is the text that is left; the recursion is bounded by a fuel that \<open>sig_fuel\<close> makes enough
  for every text.  After the parser, the grammar it parses: type trees with their signature and their Java
  text.
\<close>

section \<open>The parser\<close>

text \<open>Bytes up to, and not including, any of \<open>stop\<close>; nothing when that is empty.\<close>

definition ident :: "string \<Rightarrow> string \<Rightarrow> (string \<times> string) option" where
  "ident stop s =
     (let name = takeWhile (\<lambda>c. c \<notin> set stop) s in if name = [] then None else Some (name, drop (length name) s))"

definition eat :: "char \<Rightarrow> string \<Rightarrow> string option" where
  "eat c s = (case s of [] \<Rightarrow> None | d # r \<Rightarrow> if d = c then Some r else None)"

definition base_types :: "(char \<times> string) list" where
  "base_types =
     [(CHR ''B'', ''byte''), (CHR ''C'', ''char''), (CHR ''D'', ''double''), (CHR ''F'', ''float''), (CHR ''I'', ''int''),
      (CHR ''J'', ''long''), (CHR ''S'', ''short''), (CHR ''Z'', ''boolean''), (CHR ''V'', ''void'')]"

definition base_type :: "char \<Rightarrow> string option" where "base_type c = map_of base_types c"

definition MAX_DIMS :: nat where "MAX_DIMS = 255"

definition array_suffix :: "nat \<Rightarrow> string" where "array_suffix n = concat (replicate n ''[]'')"

definition dotted :: "string \<Rightarrow> string" where "dotted = map (\<lambda>c. if c = CHR ''/'' then CHR ''.'' else c)"

fun type_sig :: "nat \<Rightarrow> string \<Rightarrow> (string \<times> string) option"
  and class_parts :: "nat \<Rightarrow> string \<Rightarrow> string \<Rightarrow> (string \<times> string) option"
  and type_args :: "nat \<Rightarrow> string list \<Rightarrow> string \<Rightarrow> (string \<times> string) option" where
  "type_sig 0 s = None"
| "type_sig (Suc n) s =
     (let dims = length (takeWhile (\<lambda>c. c = CHR ''['') s); s1 = drop dims s;
          done_with = (\<lambda>(base, rest). (base @ array_suffix dims, rest)) in
      if MAX_DIMS < dims then None
      else (case s1 of
          [] \<Rightarrow> None
        | c # r \<Rightarrow>
            if c = CHR ''L'' then map_option done_with (class_parts n [] r)
            else if c = CHR ''T'' then
              Option.bind (ident '';'' r) (\<lambda>(name, r1). map_option (\<lambda>r2. done_with (name, r2)) (eat CHR '';'' r1))
            else map_option (\<lambda>name. done_with (name, r)) (base_type c)))"
| "class_parts 0 out s = None"
| "class_parts (Suc n) out s =
     Option.bind (ident ''<;.'' s) (\<lambda>(name, s1).
       let out1 = (if out = [] then [] else out @ ''.'') @ dotted name in
       Option.bind (case eat CHR ''<'' s1 of None \<Rightarrow> Some ([], s1) | Some s2 \<Rightarrow> type_args n [] s2) (\<lambda>(args, s3).
         case s3 of
           [] \<Rightarrow> None
         | c # r \<Rightarrow>
             if c = CHR '';'' then Some (out1 @ args, r)
             else if c = CHR ''.'' then class_parts n (out1 @ args) r
             else None))"
| "type_args 0 acc s = None"
| "type_args (Suc n) acc s =
     (case s of
        [] \<Rightarrow> None
      | c # r \<Rightarrow>
          if c = CHR ''>'' then (if acc = [] then None else Some (''<'' @ join '', '' acc @ ''>'', r))
          else if c = CHR ''*'' then type_args n (acc @ [''?'']) r
          else if c = CHR ''+'' then Option.bind (type_sig n r) (\<lambda>(t, r1). type_args n (acc @ [''? extends '' @ t]) r1)
          else if c = CHR ''-'' then Option.bind (type_sig n r) (\<lambda>(t, r1). type_args n (acc @ [''? super '' @ t]) r1)
          else Option.bind (type_sig n s) (\<lambda>(t, r1). type_args n (acc @ [t]) r1))"

definition sig_fuel :: "string \<Rightarrow> nat" where "sig_fuel s = 2 * length s + 2"

definition one_type :: "string \<Rightarrow> (string \<times> string) option" where "one_type s = type_sig (sig_fuel s) s"

definition render_type :: "string \<Rightarrow> string option" where
  "render_type s = (case one_type s of Some (t, []) \<Rightarrow> Some t | _ \<Rightarrow> None)"

text \<open>Types until a closing mark, each after a mark of its own (which may be none); the fuel is the text.\<close>

fun types_until :: "nat \<Rightarrow> char \<Rightarrow> string list \<Rightarrow> string \<Rightarrow> (string list \<times> string) option" where
  "types_until 0 stop acc s = None"
| "types_until (Suc n) stop acc s =
     (if s \<noteq> [] \<and> hd s \<noteq> stop then Option.bind (one_type s) (\<lambda>(t, r). types_until n stop (acc @ [t]) r)
      else Some (acc, s))"

fun types_after :: "nat \<Rightarrow> char \<Rightarrow> string list \<Rightarrow> string \<Rightarrow> (string list \<times> string) option" where
  "types_after 0 mark acc s = None"
| "types_after (Suc n) mark acc s =
     (case eat mark s of
        Some r \<Rightarrow> Option.bind (one_type r) (\<lambda>(t, r1). types_after n mark (acc @ [t]) r1)
      | None \<Rightarrow> Some (acc, s))"

text \<open>A type parameter: its name, the class bound (which may be missing), the interface bounds.\<close>

definition type_parameter :: "string \<Rightarrow> (string \<times> string) option" where
  "type_parameter s =
     Option.bind (ident '':'' s) (\<lambda>(name, s1).
     Option.bind (eat CHR '':'' s1) (\<lambda>s2.
     Option.bind (if s2 \<noteq> [] \<and> hd s2 \<noteq> CHR '':'' \<and> hd s2 \<noteq> CHR ''>''
                  then map_option (\<lambda>(t, r). ([t], r)) (one_type s2) else Some ([], s2)) (\<lambda>(class_bound, s3).
     map_option (\<lambda>(bounds, s4).
         (case filter (\<lambda>b. b \<noteq> ''java.lang.Object'') bounds of
            [] \<Rightarrow> name
          | bs \<Rightarrow> name @ '' extends '' @ join '' & '' bs, s4))
       (types_after (length s3 + 1) CHR '':'' class_bound s3))))"

fun type_parameters_from :: "nat \<Rightarrow> string list \<Rightarrow> string \<Rightarrow> (string list \<times> string) option" where
  "type_parameters_from 0 acc s = None"
| "type_parameters_from (Suc n) acc s =
     (if s \<noteq> [] \<and> hd s \<noteq> CHR ''>'' then Option.bind (type_parameter s) (\<lambda>(p, r). type_parameters_from n (acc @ [p]) r)
      else Option.bind (eat CHR ''>'' s) (\<lambda>r. if acc = [] then None else Some (acc, r)))"

definition type_parameters :: "string \<Rightarrow> (string list \<times> string) option" where
  "type_parameters s = Option.bind (eat CHR ''<'' s) (\<lambda>r. type_parameters_from (length r + 1) [] r)"

record method_parts =
  mp_type_params :: "string list"
  mp_params :: "string list"
  mp_ret :: string
  mp_throws :: "string list"

definition render_method :: "string \<Rightarrow> method_parts option" where
  "render_method s =
     Option.bind (if s \<noteq> [] \<and> hd s = CHR ''<'' then type_parameters s else Some ([], s)) (\<lambda>(tps, s1).
     Option.bind (eat CHR ''('' s1) (\<lambda>s2.
     Option.bind (types_until (length s2 + 1) CHR '')'' [] s2) (\<lambda>(ps, s3).
     Option.bind (eat CHR '')'' s3) (\<lambda>s4.
     Option.bind (one_type s4) (\<lambda>(ret, s5).
     Option.bind (types_after (length s5 + 1) CHR ''^'' [] s5) (\<lambda>(throws, s6).
       if s6 = [] then Some \<lparr>mp_type_params = tps, mp_params = ps, mp_ret = ret, mp_throws = throws\<rparr> else None))))))"

section \<open>The grammar\<close>

datatype jtype = Jt_base char | Jt_var string | Jt_array jtype | Jt_class jparts
and jparts = Jp_last string jargs | Jp_then string jargs jparts
and jargs = Ja_end | Ja_more jarg jargs
and jarg = Ja_any | Ja_exact jtype | Ja_extends jtype | Ja_super jtype

text \<open>Type arguments in their angle brackets; a class without any has no brackets.\<close>

definition bracketed :: "bool \<Rightarrow> string \<Rightarrow> string" where
  "bracketed any s = (if any then ''<'' @ s @ ''>'' else [])"

primrec sig_of :: "jtype \<Rightarrow> string" and sig_parts :: "jparts \<Rightarrow> string" and sig_args :: "jargs \<Rightarrow> string"
  and sig_arg :: "jarg \<Rightarrow> string" where
  "sig_of (Jt_base c) = [c]"
| "sig_of (Jt_var v) = ''T'' @ v @ '';''"
| "sig_of (Jt_array t) = ''['' @ sig_of t"
| "sig_of (Jt_class p) = ''L'' @ sig_parts p"
| "sig_parts (Jp_last name as) = name @ bracketed (as \<noteq> Ja_end) (sig_args as) @ '';''"
| "sig_parts (Jp_then name as p) = name @ bracketed (as \<noteq> Ja_end) (sig_args as) @ ''.'' @ sig_parts p"
| "sig_args Ja_end = []"
| "sig_args (Ja_more a as) = sig_arg a @ sig_args as"
| "sig_arg Ja_any = ''*''"
| "sig_arg (Ja_exact t) = sig_of t"
| "sig_arg (Ja_extends t) = ''+'' @ sig_of t"
| "sig_arg (Ja_super t) = ''-'' @ sig_of t"

primrec java_of :: "jtype \<Rightarrow> string" and java_parts :: "jparts \<Rightarrow> string" and java_args :: "jargs \<Rightarrow> string list"
  and java_arg :: "jarg \<Rightarrow> string" where
  "java_of (Jt_base c) = the (base_type c)"
| "java_of (Jt_var v) = v"
| "java_of (Jt_array t) = java_of t @ ''[]''"
| "java_of (Jt_class p) = java_parts p"
| "java_parts (Jp_last name as) = dotted name @ bracketed (as \<noteq> Ja_end) (join '', '' (java_args as))"
| "java_parts (Jp_then name as p) = dotted name @ bracketed (as \<noteq> Ja_end) (join '', '' (java_args as)) @ ''.'' @ java_parts p"
| "java_args Ja_end = []"
| "java_args (Ja_more a as) = java_arg a # java_args as"
| "java_arg Ja_any = ''?''"
| "java_arg (Ja_exact t) = java_of t"
| "java_arg (Ja_extends t) = ''? extends '' @ java_of t"
| "java_arg (Ja_super t) = ''? super '' @ java_of t"

primrec dims :: "jtype \<Rightarrow> nat" where
  "dims (Jt_base _) = 0" | "dims (Jt_var _) = 0" | "dims (Jt_class _) = 0" | "dims (Jt_array t) = Suc (dims t)"

definition name_ok :: "string \<Rightarrow> bool" where
  "name_ok name \<longleftrightarrow> name \<noteq> [] \<and> set name \<inter> {CHR ''<'', CHR '';'', CHR ''.''} = {}"

primrec wf_type :: "jtype \<Rightarrow> bool" and wf_parts :: "jparts \<Rightarrow> bool" and wf_args :: "jargs \<Rightarrow> bool"
  and wf_arg :: "jarg \<Rightarrow> bool" where
  "wf_type (Jt_base c) \<longleftrightarrow> base_type c \<noteq> None"
| "wf_type (Jt_var v) \<longleftrightarrow> v \<noteq> [] \<and> CHR '';'' \<notin> set v"
| "wf_type (Jt_array t) \<longleftrightarrow> wf_type t \<and> dims t < MAX_DIMS"
| "wf_type (Jt_class p) \<longleftrightarrow> wf_parts p"
| "wf_parts (Jp_last name as) \<longleftrightarrow> name_ok name \<and> wf_args as"
| "wf_parts (Jp_then name as p) \<longleftrightarrow> name_ok name \<and> wf_args as \<and> wf_parts p"
| "wf_args Ja_end \<longleftrightarrow> True"
| "wf_args (Ja_more a as) \<longleftrightarrow> wf_arg a \<and> wf_args as"
| "wf_arg Ja_any \<longleftrightarrow> True"
| "wf_arg (Ja_exact t) \<longleftrightarrow> wf_type t"
| "wf_arg (Ja_extends t) \<longleftrightarrow> wf_type t"
| "wf_arg (Ja_super t) \<longleftrightarrow> wf_type t"

section \<open>What is printed is parsed\<close>

lemma sig_not_empty:
  "sig_of t \<noteq> []" "wf_parts p \<Longrightarrow> sig_parts p \<noteq> []" "length (sig_args as) \<ge> 0" "sig_arg a \<noteq> []"
  by (induction t and p and as and a) (auto simp: name_ok_def)

lemma sig_args_empty: "sig_args as = [] \<longleftrightarrow> as = Ja_end" "java_args as = [] \<longleftrightarrow> as = Ja_end"
  by (cases as; simp add: sig_not_empty)+

text \<open>A type is its array dimensions and what they are of.\<close>

primrec core :: "jtype \<Rightarrow> jtype" where
  "core (Jt_base c) = Jt_base c" | "core (Jt_var v) = Jt_var v" | "core (Jt_class p) = Jt_class p"
| "core (Jt_array t) = core t"

definition array_of :: "nat \<Rightarrow> jtype \<Rightarrow> jtype" where "array_of n t = (Jt_array ^^ n) t"

lemma array_of_simps [simp]: "array_of 0 t = t" "array_of (Suc n) t = Jt_array (array_of n t)"
  by (simp_all add: array_of_def)

lemma suffix_snoc: "array_suffix n @ ''[]'' = array_suffix (Suc n)"
  by (induction n) (simp_all add: array_suffix_def)

lemma array_of_facts:
  "sig_of (array_of n t) = replicate n (CHR ''['') @ sig_of t"
  "java_of (array_of n t) = java_of t @ array_suffix n"
  "dims (array_of n t) = n + dims t"
  by (induction n) (simp_all add: suffix_snoc, simp add: array_suffix_def)

lemma wf_array_of: "dims t = 0 \<Longrightarrow> wf_type (array_of n t) \<longleftrightarrow> wf_type t \<and> n \<le> MAX_DIMS"
  by (induction n) (auto simp: array_of_facts)

lemma core_facts: "t = array_of (dims t) (core t)" "dims (core t) = 0"
proof -
  have "P t \<Longrightarrow> P t" for P :: "jtype \<Rightarrow> bool" by simp
  show "t = array_of (dims t) (core t)"
    by (rule jtype.induct [where ?P1.0 = "\<lambda>t. t = array_of (dims t) (core t)" and ?P2.0 = "\<lambda>_. True" and ?P3.0 = "\<lambda>_. True"
          and ?P4.0 = "\<lambda>_. True"]) simp_all
  show "dims (core t) = 0"
    by (rule jtype.induct [where ?P1.0 = "\<lambda>t. dims (core t) = 0" and ?P2.0 = "\<lambda>_. True" and ?P3.0 = "\<lambda>_. True"
          and ?P4.0 = "\<lambda>_. True"]) simp_all
qed

text \<open>The head of a signature says what it is.\<close>

lemma base_type_marks:
  "base_type (CHR ''L'') = None" "base_type (CHR ''T'') = None" "base_type (CHR ''['') = None" "base_type (CHR ''>'') = None"
  "base_type (CHR ''*'') = None" "base_type (CHR ''+'') = None" "base_type (CHR ''-'') = None"
  by (simp_all add: base_type_def base_types_def)

lemma base_type_mark:
  "base_type c = Some y \<Longrightarrow> c \<noteq> CHR ''L'' \<and> c \<noteq> CHR ''T'' \<and> c \<noteq> CHR ''['' \<and> c \<noteq> CHR ''>'' \<and> c \<noteq> CHR ''*'' \<and> c \<noteq> CHR ''+'' \<and> c \<noteq> CHR ''-''"
  using base_type_marks by auto

lemma ident_stops:
  "name \<noteq> [] \<Longrightarrow> set name \<inter> set stop = {} \<Longrightarrow> c \<in> set stop \<Longrightarrow> ident stop (name @ c # r) = Some (name, c # r)"
proof -
  assume a: "name \<noteq> []" "set name \<inter> set stop = {}" "c \<in> set stop"
  have "takeWhile (\<lambda>c. c \<notin> set stop) (name @ c # r) = name"
    using a(2,3) by (subst takeWhile_append2) auto
  then show ?thesis using a(1) by (simp add: ident_def)
qed

lemma eat_same [simp]: "eat c (c # r) = Some r" by (simp add: eat_def)

lemma eat_other: "d \<noteq> c \<Longrightarrow> eat c (d # r) = None" by (simp add: eat_def)

text \<open>A type signature is parsed by its core.\<close>

lemma type_sig_core:
  assumes h: "s \<noteq> []" "hd s \<noteq> CHR ''[''" and k: "k \<le> MAX_DIMS"
  shows "type_sig n (replicate k (CHR ''['') @ s) = map_option (\<lambda>(b, r). (b @ array_suffix k, r)) (type_sig n s)"
proof (cases n)
  case (Suc m)
  have t: "takeWhile (\<lambda>c. c = CHR ''['') (replicate k (CHR ''['') @ s) = replicate k (CHR ''['')"
    using h by (subst takeWhile_append2) (auto simp: takeWhile_eq_Nil_iff)
  have t0: "takeWhile (\<lambda>c. c = CHR ''['') s = []" using h by (cases s) auto
  show ?thesis
    using k h unfolding Suc type_sig.simps t t0
    by (cases s) (auto simp: Let_def array_suffix_def option.map_comp comp_def split: bind_splits option.splits prod.splits)
qed simp


text \<open>The first character of a well-formed type is none of the marks of the argument list.\<close>

lemma sig_head:
  assumes "wf_type t"
  obtains c r where "sig_of t = c # r" "c \<noteq> CHR ''>''" "c \<noteq> CHR ''*''" "c \<noteq> CHR ''+''" "c \<noteq> CHR ''-''"
  using assms by (cases t) (auto dest: base_type_mark)

lemma core_head:
  assumes "wf_type t" "dims t = 0" shows "hd (sig_of t @ r) \<noteq> CHR ''[''"
  using assms by (cases t) (auto dest: base_type_mark)

lemma type_sig_bracket:
  assumes w: "wf_type t" and d: "dims t < MAX_DIMS" and p: "type_sig n (sig_of t @ rest) = Some (j, r)"
  shows "type_sig n (CHR ''['' # sig_of t @ rest) = Some (j @ ''[]'', r)"
proof -
  define k u where "k = dims t" and "u = core t"
  have t: "t = array_of k u" and u: "dims u = 0" unfolding k_def u_def by (rule core_facts)+
  have wu: "wf_type u" using w t u by (metis wf_array_of)
  have h: "sig_of u @ rest \<noteq> []" "hd (sig_of u @ rest) \<noteq> CHR ''[''" using core_head [OF wu u] sig_not_empty by auto
  have k: "k \<le> MAX_DIMS" "Suc k \<le> MAX_DIMS" using d k_def by auto
  from p have "map_option (\<lambda>(b, r). (b @ array_suffix k, r)) (type_sig n (sig_of u @ rest)) = Some (j, r)"
    unfolding t array_of_facts(1) append_assoc type_sig_core [OF h k(1)] .
  then obtain b where b: "type_sig n (sig_of u @ rest) = Some (b, r)" "j = b @ array_suffix k" by auto
  have e: "CHR ''['' # sig_of t @ rest = replicate (Suc k) (CHR ''['') @ (sig_of u @ rest)"
    by (simp add: t array_of_facts(1))
  show ?thesis unfolding e type_sig_core [OF h k(2)] by (simp add: b suffix_snoc)
qed

lemma name_okD: "name_ok name \<Longrightarrow> name \<noteq> []" "name_ok name \<Longrightarrow> set name \<inter> set ''<;.'' = {}"
  by (auto simp: name_ok_def)

lemma dotted_empty [simp]: "dotted s = [] \<longleftrightarrow> s = []" by (simp add: dotted_def)

text \<open>One part of a class type, up to its closing mark.\<close>

lemma class_part_step:
  assumes ok: "name_ok name" and m: "m = CHR '';'' \<or> m = CHR ''.''"
    and args: "as \<noteq> Ja_end \<Longrightarrow> type_args n [] (sig_args as @ ''>'' @ m # r) = Some (''<'' @ join '', '' (java_args as) @ ''>'', m # r)"
  shows "class_parts (Suc n) out (name @ bracketed (as \<noteq> Ja_end) (sig_args as) @ m # r)
    = (let out1 = (if out = [] then [] else out @ ''.'') @ dotted name @ bracketed (as \<noteq> Ja_end) (join '', '' (java_args as)) in
       if m = CHR '';'' then Some (out1, r) else class_parts n out1 r)"
proof (cases "as = Ja_end")
  case True
  have "ident ''<;.'' (name @ m # r) = Some (name, m # r)" using name_okD [OF ok] m by (intro ident_stops) auto
  moreover have "eat CHR ''<'' (m # r) = None" using m by (auto simp: eat_def)
  ultimately show ?thesis using True m by (auto simp: bracketed_def Let_def)
next
  case False
  have "ident ''<;.'' (name @ CHR ''<'' # sig_args as @ ''>'' @ m # r) = Some (name, CHR ''<'' # sig_args as @ ''>'' @ m # r)"
    using name_okD [OF ok] by (intro ident_stops) auto
  then show ?thesis using False m args by (auto simp: bracketed_def Let_def)
qed

lemma parses_what_is_printed:
  "wf_type t \<Longrightarrow> (\<forall>n rest. 2 * length (sig_of t) \<le> n \<longrightarrow> type_sig n (sig_of t @ rest) = Some (java_of t, rest))"
  "wf_parts p \<Longrightarrow> (\<forall>n out rest. 2 * length (sig_parts p) \<le> n \<longrightarrow>
     class_parts n out (sig_parts p @ rest) = Some ((if out = [] then [] else out @ ''.'') @ java_parts p, rest))"
  "wf_args as \<Longrightarrow> (\<forall>n acc rest. 2 * length (sig_args as) + 1 \<le> n \<longrightarrow> acc @ java_args as \<noteq> [] \<longrightarrow>
     type_args n acc (sig_args as @ CHR ''>'' # rest) = Some (''<'' @ join '', '' (acc @ java_args as) @ ''>'', rest))"
  "wf_arg a \<Longrightarrow> (\<forall>n acc r. 2 * length (sig_arg a) \<le> n \<longrightarrow> type_args (Suc n) acc (sig_arg a @ r) = type_args n (acc @ [java_arg a]) r)"
proof (induction t and p and as and a)
  case (Jt_base c)
  then show ?case
  proof (intro allI impI)
    fix n rest assume "2 * length (sig_of (Jt_base c)) \<le> n"
    then obtain m where "n = Suc m" by (cases n) auto
    then show "type_sig n (sig_of (Jt_base c) @ rest) = Some (java_of (Jt_base c), rest)"
      using Jt_base by (auto simp: array_suffix_def dest: base_type_mark)
  qed
next
  case (Jt_var v)
  show ?case
  proof (intro allI impI)
    fix n rest assume "2 * length (sig_of (Jt_var v)) \<le> n"
    then obtain m where "n = Suc m" by (cases n) auto
    moreover have "ident '';'' (v @ CHR '';'' # rest) = Some (v, CHR '';'' # rest)" using Jt_var by (intro ident_stops) auto
    ultimately show "type_sig n (sig_of (Jt_var v) @ rest) = Some (java_of (Jt_var v), rest)" by (simp add: array_suffix_def)
  qed
next
  case (Jt_array t)
  then show ?case by (auto intro!: type_sig_bracket)
next
  case (Jt_class p)
  show ?case
  proof (intro allI impI)
    fix n rest assume a: "2 * length (sig_of (Jt_class p)) \<le> n"
    then obtain m where "n = Suc m" by (cases n) auto
    with a Jt_class show "type_sig n (sig_of (Jt_class p) @ rest) = Some (java_of (Jt_class p), rest)"
      by (simp add: array_suffix_def)
  qed
next
  case (Jp_last name as)
  show ?case
  proof (intro allI impI)
    fix n out rest assume a: "2 * length (sig_parts (Jp_last name as)) \<le> n"
    then obtain m where m: "n = Suc m" by (cases n) auto
    have ok: "name_ok name" using Jp_last by simp
    then have "length name > 0" by (simp add: name_ok_def)
    with a m Jp_last have "type_args m [] (sig_args as @ ''>'' @ CHR '';'' # rest)
        = Some (''<'' @ join '', '' (java_args as) @ ''>'', CHR '';'' # rest)" if "as \<noteq> Ja_end"
      using that by (auto simp: bracketed_def sig_args_empty)
    from class_part_step [OF ok _ this, of out] m
    show "class_parts n out (sig_parts (Jp_last name as) @ rest)
        = Some ((if out = [] then [] else out @ ''.'') @ java_parts (Jp_last name as), rest)" by (simp add: Let_def)
  qed
next
  case (Jp_then name as p)
  show ?case
  proof (intro allI impI)
    fix n out rest assume a: "2 * length (sig_parts (Jp_then name as p)) \<le> n"
    then obtain m where m: "n = Suc m" by (cases n) auto
    have ok: "name_ok name" using Jp_then by simp
    then have l: "length name > 0" "name \<noteq> []" by (auto simp: name_ok_def)
    with a m Jp_then have "type_args m [] (sig_args as @ ''>'' @ CHR ''.'' # sig_parts p @ rest)
        = Some (''<'' @ join '', '' (java_args as) @ ''>'', CHR ''.'' # sig_parts p @ rest)" if "as \<noteq> Ja_end"
      using that by (auto simp: bracketed_def sig_args_empty)
    from class_part_step [OF ok _ this, of out] m a l Jp_then
    show "class_parts n out (sig_parts (Jp_then name as p) @ rest)
        = Some ((if out = [] then [] else out @ ''.'') @ java_parts (Jp_then name as p), rest)" by (simp add: Let_def)
  qed
next
  case Ja_end
  show ?case
  proof (intro allI impI)
    fix n acc rest assume a: "2 * length (sig_args Ja_end) + 1 \<le> n" "acc @ java_args Ja_end \<noteq> []"
    then obtain m where "n = Suc m" by (cases n) auto
    with a show "type_args n acc (sig_args Ja_end @ CHR ''>'' # rest)
        = Some (''<'' @ join '', '' (acc @ java_args Ja_end) @ ''>'', rest)" by simp
  qed
next
  case (Ja_more a as)
  show ?case
  proof (intro allI impI)
    fix n acc rest assume f: "2 * length (sig_args (Ja_more a as)) + 1 \<le> n"
    then obtain m where m: "n = Suc m" by (cases n) auto
    have "0 < length (sig_arg a)" using sig_not_empty(4) by auto
    moreover have "length (sig_args (Ja_more a as)) = length (sig_arg a) + length (sig_args as)" by simp
    ultimately have "2 * length (sig_arg a) \<le> m" "2 * length (sig_args as) + 1 \<le> m" using f m by arith+
    with f m Ja_more show "type_args n acc (sig_args (Ja_more a as) @ CHR ''>'' # rest)
        = Some (''<'' @ join '', '' (acc @ java_args (Ja_more a as)) @ ''>'', rest)" by (simp del: type_args.simps)
  qed
next
  case (Ja_exact t)
  show ?case
  proof (intro allI impI)
    fix n acc r assume f: "2 * length (sig_arg (Ja_exact t)) \<le> n"
    have w: "wf_type t" using Ja_exact by simp
    have "type_sig n (sig_of t @ r) = Some (java_of t, r)" using Ja_exact f by simp
    moreover obtain c r0 where "sig_of t = c # r0" "c \<noteq> CHR ''>''" "c \<noteq> CHR ''*''" "c \<noteq> CHR ''+''" "c \<noteq> CHR ''-''"
      using sig_head [OF w] by blast
    ultimately show "type_args (Suc n) acc (sig_arg (Ja_exact t) @ r) = type_args n (acc @ [java_arg (Ja_exact t)]) r" by simp
  qed
qed auto


section \<open>What is parsed was printed\<close>

text \<open>Each of the three parsers reads the text of a tree: what holds of the one in hand when it holds with less fuel.\<close>

definition type_parsed :: "nat \<Rightarrow> bool" where
  "type_parsed n \<longleftrightarrow> (\<forall>s j r. type_sig n s = Some (j, r) \<longrightarrow> (\<exists>t. wf_type t \<and> sig_of t @ r = s \<and> java_of t = j))"

definition parts_parsed :: "nat \<Rightarrow> bool" where
  "parts_parsed n \<longleftrightarrow> (\<forall>out s j r. class_parts n out s = Some (j, r) \<longrightarrow>
     (\<exists>p. wf_parts p \<and> sig_parts p @ r = s \<and> j = (if out = [] then [] else out @ ''.'') @ java_parts p))"

definition args_parsed :: "nat \<Rightarrow> bool" where
  "args_parsed n \<longleftrightarrow> (\<forall>acc s j r. type_args n acc s = Some (j, r) \<longrightarrow>
     (\<exists>as. wf_args as \<and> sig_args as @ CHR ''>'' # r = s \<and> acc @ java_args as \<noteq> []
        \<and> j = ''<'' @ join '', '' (acc @ java_args as) @ ''>''))"

lemma ident_Some:
  assumes "ident stop s = Some (name, r)"
  shows "name \<noteq> [] \<and> set name \<inter> set stop = {} \<and> s = name @ r"
proof -
  have n: "name = takeWhile (\<lambda>c. c \<notin> set stop) s" "r = drop (length name) s" "name \<noteq> []"
    using assms by (auto simp: ident_def Let_def split: if_splits)
  moreover have "s = name @ r" using n by (metis append_take_drop_id takeWhile_eq_take)
  moreover have "set name \<inter> set stop = {}" unfolding n(1) by (auto dest: set_takeWhileD)
  ultimately show ?thesis by blast
qed

lemma eat_Some: "eat c s = Some r \<longleftrightarrow> s = c # r"
  by (cases s) (auto simp: eat_def)

lemma step_type:
  assumes "parts_parsed n" shows "type_parsed (Suc n)"
  unfolding type_parsed_def
proof (intro allI impI)
  fix s j r assume p: "type_sig (Suc n) s = Some (j, r)"
  define k s1 where "k = length (takeWhile (\<lambda>c. c = CHR ''['') s)" and "s1 = drop k s"
  have s: "s = replicate k (CHR ''['') @ s1"
  proof -
    have "takeWhile (\<lambda>c. c = CHR ''['') s = replicate k (CHR ''['')"
      unfolding k_def by (rule replicate_length_same [symmetric]) (auto dest: set_takeWhileD)
    then show ?thesis unfolding s1_def k_def by (metis append_take_drop_id takeWhile_eq_take)
  qed
  have k: "k \<le> MAX_DIMS" using p by (auto simp: k_def [symmetric] Let_def split: if_splits)
  from p obtain c r0 where c: "s1 = c # r0"
    by (cases s1) (auto simp: k_def [symmetric] s1_def [symmetric] Let_def split: if_splits)
  have "\<exists>u b. wf_type u \<and> dims u = 0 \<and> sig_of u @ r = s1 \<and> java_of u = b \<and> j = b @ array_suffix k"
  proof -
    consider (L) "c = CHR ''L''" | (T) "c = CHR ''T''" | (B) "c \<noteq> CHR ''L''" "c \<noteq> CHR ''T''" by blast
    then show ?thesis
    proof cases
      case L
      with p c k obtain b where "class_parts n [] r0 = Some (b, r)" "j = b @ array_suffix k"
        by (auto simp: k_def [symmetric] s1_def [symmetric] Let_def split: if_splits)
      with assms obtain q where "wf_parts q" "sig_parts q @ r = r0" "b = java_parts q" unfolding parts_parsed_def by fastforce
      with L c \<open>j = b @ array_suffix k\<close> show ?thesis by (intro exI [of _ "Jt_class q"]) auto
    next
      case T
      with p c k obtain v r1 where "ident '';'' r0 = Some (v, r1)" "eat CHR '';'' r1 = Some r" "j = v @ array_suffix k"
        by (auto simp: k_def [symmetric] s1_def [symmetric] Let_def bind_eq_Some_conv split: if_splits)
      with T c ident_Some [of "'';''" r0 v r1] show ?thesis by (intro exI [of _ "Jt_var v"]) (auto simp: eat_Some)
    next
      case B
      with p c k obtain b where "base_type c = Some b" "r = r0" "j = b @ array_suffix k"
        by (auto simp: k_def [symmetric] s1_def [symmetric] Let_def split: if_splits)
      with c show ?thesis by (intro exI [of _ "Jt_base c"]) auto
    qed
  qed
  then obtain u where "wf_type u" "dims u = 0" "sig_of u @ r = s1" "j = java_of u @ array_suffix k" by blast
  with k s show "\<exists>t. wf_type t \<and> sig_of t @ r = s \<and> java_of t = j"
    by (intro exI [of _ "array_of k u"]) (simp add: wf_array_of array_of_facts)
qed

lemma step_parts:
  assumes "args_parsed n" "parts_parsed n" shows "parts_parsed (Suc n)"
  unfolding parts_parsed_def
proof (intro allI impI)
  fix out s j r assume p: "class_parts (Suc n) out s = Some (j, r)"
  then obtain name s1 args s3 where n: "ident ''<;.'' s = Some (name, s1)"
    and a: "(case eat CHR ''<'' s1 of None \<Rightarrow> Some ([], s1) | Some s2 \<Rightarrow> type_args n [] s2) = Some (args, s3)"
    and z: "(case s3 of [] \<Rightarrow> None | c # r \<Rightarrow>
        if c = CHR '';'' then Some (((if out = [] then [] else out @ ''.'') @ dotted name) @ args, r)
        else if c = CHR ''.'' then class_parts n (((if out = [] then [] else out @ ''.'') @ dotted name) @ args) r
        else None) = Some (j, r)"
    by (auto simp: bind_eq_Some_conv Let_def)
  have ok: "name_ok name" "s = name @ s1" "name \<noteq> []" using ident_Some [OF n] by (auto simp: name_ok_def)
  obtain as where as: "wf_args as" "s1 = bracketed (as \<noteq> Ja_end) (sig_args as) @ s3"
    "args = bracketed (as \<noteq> Ja_end) (join '', '' (java_args as))"
  proof (cases "eat CHR ''<'' s1")
    case None
    with a that [of Ja_end] show ?thesis by (simp add: bracketed_def)
  next
    case (Some s2)
    with a assms(1) obtain as where "wf_args as" "sig_args as @ CHR ''>'' # s3 = s2" "java_args as \<noteq> []"
      "args = ''<'' @ join '', '' (java_args as) @ ''>''" unfolding args_parsed_def by fastforce
    with Some that [of as] show ?thesis by (auto simp: bracketed_def eat_Some sig_args_empty)
  qed
  consider "s3 = CHR '';'' # r" "j = (if out = [] then [] else out @ ''.'') @ dotted name @ args"
    | r0 where "s3 = CHR ''.'' # r0" "class_parts n ((if out = [] then [] else out @ ''.'') @ dotted name @ args) r0 = Some (j, r)"
    using z by (auto split: list.splits if_splits)
  then show "\<exists>p. wf_parts p \<and> sig_parts p @ r = s \<and> j = (if out = [] then [] else out @ ''.'') @ java_parts p"
  proof cases
    case 1
    with ok as show ?thesis by (intro exI [of _ "Jp_last name as"]) simp
  next
    case 2
    define out1 where "out1 = (if out = [] then [] else out @ ''.'') @ dotted name @ args"
    have "out1 \<noteq> []" "class_parts n out1 r0 = Some (j, r)" using ok(3) 2(2) unfolding out1_def by simp_all
    then obtain q where "wf_parts q" "sig_parts q @ r = r0" "j = out1 @ ''.'' @ java_parts q"
      using assms(2) unfolding parts_parsed_def by fastforce
    moreover have "sig_parts (Jp_then name as q) @ r = s" using ok(2) as(2) 2(1) \<open>sig_parts q @ r = r0\<close> by simp
    ultimately show ?thesis using ok(1) as(1,3) unfolding out1_def by (intro exI [of _ "Jp_then name as q"]) simp
  qed
qed

lemma arg_then_args:
  assumes "args_parsed n" "type_args n (acc @ [java_arg a]) r1 = Some (j, r)" "wf_arg a"
  shows "\<exists>as. wf_args as \<and> sig_args as @ CHR ''>'' # r = sig_arg a @ r1 \<and> acc @ java_args as \<noteq> []
    \<and> j = ''<'' @ join '', '' (acc @ java_args as) @ ''>''"
proof -
  from assms(1,2) obtain as where "wf_args as" "sig_args as @ CHR ''>'' # r = r1"
    "j = ''<'' @ join '', '' ((acc @ [java_arg a]) @ java_args as) @ ''>''"
    unfolding args_parsed_def by blast
  with assms(3) show ?thesis by (intro exI [of _ "Ja_more a as"]) auto
qed

lemma step_args:
  assumes tp: "type_parsed n" and ap: "args_parsed n" shows "args_parsed (Suc n)"
  unfolding args_parsed_def
proof (intro allI impI)
  fix acc s j r assume p: "type_args (Suc n) acc s = Some (j, r)"
  let ?goal = "\<lambda>s. \<exists>as. wf_args as \<and> sig_args as @ CHR ''>'' # r = s \<and> acc @ java_args as \<noteq> []
    \<and> j = ''<'' @ join '', '' (acc @ java_args as) @ ''>''"
  have typed: "?goal (m @ s0)" if "type_sig n s0 = Some (t, r1)" "type_args n (acc @ [w @ t]) r1 = Some (j, r)"
    "\<And>u. sig_arg (mk u) = m @ sig_of u" "\<And>u. java_arg (mk u) = w @ java_of u" "\<And>u. wf_arg (mk u) = wf_type u" for m s0 t r1 w mk
  proof -
    from tp that(1) obtain u where "wf_type u" "sig_of u @ r1 = s0" "java_of u = t" unfolding type_parsed_def by blast
    with arg_then_args [OF ap, of acc "mk u" r1 j r] that show ?thesis by auto
  qed
  from p obtain c r0 where s: "s = c # r0" by (cases s) auto
  consider (E) "c = CHR ''>''" | (A) "c = CHR ''*''" | (X) "c = CHR ''+''" | (S) "c = CHR ''-''"
    | (T) "c \<noteq> CHR ''>''" "c \<noteq> CHR ''*''" "c \<noteq> CHR ''+''" "c \<noteq> CHR ''-''" by blast
  then show "?goal s"
  proof cases
    case E with p s show ?thesis by (intro exI [of _ Ja_end]) (auto split: if_splits)
  next
    case A
    with p s have "type_args n (acc @ [java_arg Ja_any]) r0 = Some (j, r)" by simp
    from arg_then_args [OF ap this] A s show ?thesis by simp
  next
    case X
    with p s obtain t r1 where "type_sig n r0 = Some (t, r1)" "type_args n (acc @ [''? extends '' @ t]) r1 = Some (j, r)"
      by (auto simp: bind_eq_Some_conv)
    from typed [OF this, of Ja_extends "''+''"] X s show ?thesis by simp
  next
    case S
    with p s obtain t r1 where "type_sig n r0 = Some (t, r1)" "type_args n (acc @ [''? super '' @ t]) r1 = Some (j, r)"
      by (auto simp: bind_eq_Some_conv)
    from typed [OF this, of Ja_super "''-''"] S s show ?thesis by simp
  next
    case T
    with p s obtain t r1 where "type_sig n s = Some (t, r1)" "type_args n (acc @ [[] @ t]) r1 = Some (j, r)"
      by (auto simp: bind_eq_Some_conv)
    from typed [OF this, of Ja_exact "[]"] show ?thesis by simp
  qed
qed

lemma what_is_parsed_was_printed: "type_parsed n \<and> parts_parsed n \<and> args_parsed n"
  by (induction n)
    (simp add: type_parsed_def parts_parsed_def args_parsed_def, simp add: step_type step_parts step_args)

lemma one_type_iff: "one_type s = Some (j, r) \<longleftrightarrow> (\<exists>t. wf_type t \<and> sig_of t @ r = s \<and> java_of t = j)"
proof
  assume "one_type s = Some (j, r)"
  then show "\<exists>t. wf_type t \<and> sig_of t @ r = s \<and> java_of t = j"
    using what_is_parsed_was_printed unfolding one_type_def type_parsed_def by blast
next
  assume "\<exists>t. wf_type t \<and> sig_of t @ r = s \<and> java_of t = j"
  then obtain t where t: "wf_type t" "s = sig_of t @ r" "j = java_of t" by blast
  then have "2 * length (sig_of t) \<le> sig_fuel s" by (simp add: sig_fuel_def)
  with parses_what_is_printed(1) [OF t(1)] t show "one_type s = Some (j, r)" unfolding one_type_def by blast
qed

text \<open>C27: the type parser accepts exactly the signatures of the grammar. It answers a Java text for a signature if
  and only if the signature is the signature of a well-formed type tree, and then the answer is the Java text of that
  tree: nothing is dropped at the end, no wildcard is lost, the dimensions of an array stay at most 255, and a
  text that is no signature is refused.\<close>

theorem render_type_is_the_grammar:
  "render_type s = Some j \<longleftrightarrow> (\<exists>t. wf_type t \<and> sig_of t = s \<and> java_of t = j)"
proof -
  have "render_type s = Some j \<longleftrightarrow> one_type s = Some (j, [])"
    by (auto simp: render_type_def split: option.splits list.splits prod.splits)
  then show ?thesis by (simp add: one_type_iff)
qed

text \<open>Two different type trees never share a signature with different Java texts.\<close>

lemma signature_determines_the_text: "wf_type t \<Longrightarrow> wf_type u \<Longrightarrow> sig_of t = sig_of u \<Longrightarrow> java_of t = java_of u"
  using one_type_iff [of "sig_of t" _ "[]"] by (metis append_Nil2 old.prod.inject option.inject)

section \<open>Methods\<close>

text \<open>The signature of a method: its type parameters, its parameters, its return type and what it throws.\<close>

lemma types_until_all:
  "list_all wf_type ts \<Longrightarrow> list_all (\<lambda>t. hd (sig_of t) \<noteq> stop) ts \<Longrightarrow> length ts < n \<Longrightarrow> rest = [] \<or> hd rest = stop \<Longrightarrow>
   types_until n stop acc (concat (map sig_of ts) @ rest) = Some (acc @ map java_of ts, rest)"
proof (induction ts arbitrary: n acc)
  case Nil then show ?case by (cases n) auto
next
  case (Cons t ts)
  from Cons.prems obtain m where m: "n = Suc m" "length ts < m" by (cases n) auto
  have one: "one_type (sig_of t @ concat (map sig_of ts) @ rest) = Some (java_of t, concat (map sig_of ts) @ rest)"
    using Cons.prems by (subst one_type_iff) (auto intro!: exI [of _ t])
  have "hd (sig_of t @ concat (map sig_of ts) @ rest) \<noteq> stop" "sig_of t @ concat (map sig_of ts) @ rest \<noteq> []"
    using Cons.prems sig_not_empty(1) [of t] by auto
  with m one Cons show ?case by simp
qed

lemma types_after_all:
  "list_all wf_type ts \<Longrightarrow> length ts < n \<Longrightarrow> rest = [] \<or> hd rest \<noteq> mark \<Longrightarrow>
   types_after n mark acc (concat (map (\<lambda>t. mark # sig_of t) ts) @ rest) = Some (acc @ map java_of ts, rest)"
proof (induction ts arbitrary: n acc)
  case Nil then show ?case by (cases n; cases rest) (auto simp: eat_def)
next
  case (Cons t ts)
  from Cons.prems obtain m where m: "n = Suc m" "length ts < m" by (cases n) auto
  have "one_type (sig_of t @ concat (map (\<lambda>t. mark # sig_of t) ts) @ rest)
      = Some (java_of t, concat (map (\<lambda>t. mark # sig_of t) ts) @ rest)"
    using Cons.prems by (subst one_type_iff) (auto intro!: exI [of _ t])
  with m Cons show ?case by simp
qed

text \<open>A type parameter: its name, its class bound if it has one, its interface bounds; a parameter has a bound.\<close>

record type_param =
  tp_name :: string
  tp_class :: "jtype option"
  tp_ifaces :: "jtype list"

definition sig_param :: "type_param \<Rightarrow> string" where
  "sig_param p = tp_name p @ '':'' @ (case tp_class p of None \<Rightarrow> [] | Some t \<Rightarrow> sig_of t)
     @ concat (map (\<lambda>t. CHR '':'' # sig_of t) (tp_ifaces p))"

definition java_param :: "type_param \<Rightarrow> string" where
  "java_param p =
     (case filter (\<lambda>b. b \<noteq> ''java.lang.Object'') (map java_of (case tp_class p of None \<Rightarrow> tp_ifaces p | Some t \<Rightarrow> t # tp_ifaces p)) of
        [] \<Rightarrow> tp_name p | bs \<Rightarrow> tp_name p @ '' extends '' @ join '' & '' bs)"

definition wf_param :: "type_param \<Rightarrow> bool" where
  "wf_param p \<longleftrightarrow> tp_name p \<noteq> [] \<and> CHR '':'' \<notin> set (tp_name p) \<and> hd (tp_name p) \<noteq> CHR ''>''
     \<and> (case tp_class p of None \<Rightarrow> tp_ifaces p \<noteq> [] | Some t \<Rightarrow> wf_type t) \<and> list_all wf_type (tp_ifaces p)"

record method_sig =
  ms_params :: "type_param list"
  ms_args :: "jtype list"
  ms_ret :: jtype
  ms_throws :: "jtype list"

definition sig_method :: "method_sig \<Rightarrow> string" where
  "sig_method m =
     (if ms_params m = [] then [] else ''<'' @ concat (map sig_param (ms_params m)) @ ''>'')
     @ ''('' @ concat (map sig_of (ms_args m)) @ '')'' @ sig_of (ms_ret m) @ concat (map (\<lambda>t. CHR ''^'' # sig_of t) (ms_throws m))"

definition java_method :: "method_sig \<Rightarrow> method_parts" where
  "java_method m = \<lparr>mp_type_params = map java_param (ms_params m), mp_params = map java_of (ms_args m),
     mp_ret = java_of (ms_ret m), mp_throws = map java_of (ms_throws m)\<rparr>"

definition wf_method :: "method_sig \<Rightarrow> bool" where
  "wf_method m \<longleftrightarrow> list_all wf_param (ms_params m) \<and> list_all wf_type (ms_args m) \<and> wf_type (ms_ret m) \<and> list_all wf_type (ms_throws m)"

lemma sig_heads:
  assumes "wf_type t" shows "hd (sig_of t @ r) \<noteq> CHR '':''" "hd (sig_of t @ r) \<noteq> CHR ''>''" "hd (sig_of t @ r) \<noteq> CHR '')''"
proof -
  have "base_type (CHR '':'') = None" "base_type (CHR '')'') = None" by (simp_all add: base_type_def base_types_def)
  then show "hd (sig_of t @ r) \<noteq> CHR '':''" "hd (sig_of t @ r) \<noteq> CHR ''>''" "hd (sig_of t @ r) \<noteq> CHR '')''"
    using assms by (cases t; auto dest: base_type_mark)+
qed

lemma length_concat_marks: "length ts \<le> length (concat (map (\<lambda>t. c # f t) ts))"
  by (induction ts) auto

lemma length_concat_sigs: "length ts \<le> length (concat (map sig_of ts))"
proof (induction ts)
  case (Cons t ts) then show ?case using sig_not_empty(1) [of t] by (cases "sig_of t") auto
qed simp

lemma type_parameter_printed:
  assumes w: "wf_param p" and r: "rest = [] \<or> hd rest \<noteq> CHR '':''"
  shows "type_parameter (sig_param p @ rest) = Some (java_param p, rest)"
proof -
  define ifs where "ifs = concat (map (\<lambda>t. CHR '':'' # sig_of t) (tp_ifaces p))"
  define s2 where "s2 = (case tp_class p of None \<Rightarrow> [] | Some t \<Rightarrow> sig_of t) @ ifs @ rest"
  define cb where "cb = (case tp_class p of None \<Rightarrow> [] | Some t \<Rightarrow> [java_of t])"
  have name: "ident '':'' (sig_param p @ rest) = Some (tp_name p, CHR '':'' # s2)"
    unfolding sig_param_def s2_def ifs_def using w by (simp add: wf_param_def ident_stops)
  have class_bound: "(if s2 \<noteq> [] \<and> hd s2 \<noteq> CHR '':'' \<and> hd s2 \<noteq> CHR ''>'' then map_option (\<lambda>(t, r). ([t], r)) (one_type s2)
      else Some ([], s2)) = Some (cb, ifs @ rest)"
  proof (cases "tp_class p")
    case None
    with w have "hd s2 = CHR '':''" by (cases "tp_ifaces p") (auto simp: s2_def ifs_def wf_param_def)
    with None show ?thesis by (simp add: s2_def cb_def)
  next
    case (Some t)
    with w have t: "wf_type t" by (simp add: wf_param_def)
    have "one_type s2 = Some (java_of t, ifs @ rest)" unfolding one_type_iff using Some t by (auto simp: s2_def)
    with Some sig_heads [OF t, of "ifs @ rest"] sig_not_empty(1) [of t] show ?thesis by (simp add: s2_def cb_def)
  qed
  have "length (tp_ifaces p) < length (ifs @ rest) + 1"
    unfolding ifs_def using length_concat_marks [of "tp_ifaces p" "CHR '':''" sig_of] by simp
  then have ifaces: "types_after (length (ifs @ rest) + 1) CHR '':'' cb (ifs @ rest) = Some (cb @ map java_of (tp_ifaces p), rest)"
    using w r unfolding ifs_def by (intro types_after_all) (auto simp: wf_param_def)
  have "cb @ map java_of (tp_ifaces p) = map java_of (case tp_class p of None \<Rightarrow> tp_ifaces p | Some t \<Rightarrow> t # tp_ifaces p)"
    by (simp add: cb_def split: option.split)
  then show ?thesis
    unfolding type_parameter_def name Option.bind.simps prod.case eat_same class_bound ifaces option.map java_param_def by simp
qed

lemma wf_param_head:
  assumes "wf_param p"
  shows "sig_param p @ r \<noteq> []" "hd (sig_param p @ r) \<noteq> CHR '':''" "hd (sig_param p @ r) \<noteq> CHR ''>''"
proof -
  obtain c cs where n: "tp_name p = c # cs" using assms by (cases "tp_name p") (auto simp: wf_param_def)
  have c: "c \<noteq> CHR '':''" "c \<noteq> CHR ''>''" using assms n unfolding wf_param_def by auto
  have "\<exists>x. sig_param p @ r = c # x" unfolding sig_param_def n by simp
  with c show "sig_param p @ r \<noteq> []" "hd (sig_param p @ r) \<noteq> CHR '':''" "hd (sig_param p @ r) \<noteq> CHR ''>''"
    by (metis list.distinct(1), metis list.sel(1), metis list.sel(1))
qed

lemma type_parameters_from_printed:
  "list_all wf_param ps \<Longrightarrow> length ps < n \<Longrightarrow> acc @ ps' \<noteq> [] \<Longrightarrow> map java_param ps = ps' \<Longrightarrow>
   type_parameters_from n acc (concat (map sig_param ps) @ CHR ''>'' # rest) = Some (acc @ ps', rest)"
proof (induction ps arbitrary: n acc ps')
  case Nil then show ?case by (cases n) auto
next
  case (Cons p ps)
  from Cons.prems obtain m where m: "n = Suc m" "length ps < m" by (cases n) auto
  define s1 where "s1 = concat (map sig_param ps) @ CHR ''>'' # rest"
  have "hd s1 \<noteq> CHR '':''" using Cons.prems wf_param_head(2) by (cases ps) (auto simp: s1_def)
  then have "type_parameter (sig_param p @ s1) = Some (java_param p, s1)" using Cons.prems by (intro type_parameter_printed) auto
  moreover have "sig_param p @ s1 \<noteq> [] \<and> hd (sig_param p @ s1) \<noteq> CHR ''>''"
    using Cons.prems wf_param_head [of p s1] by auto
  moreover have "type_parameters_from m (acc @ [java_param p]) s1 = Some ((acc @ [java_param p]) @ map java_param ps, rest)"
    unfolding s1_def using Cons.prems m by (intro Cons.IH) auto
  ultimately show ?case using m Cons.prems by (simp flip: s1_def)
qed

lemma length_concat_params: "length ps \<le> length (concat (map sig_param ps))"
  by (induction ps) (auto simp: sig_param_def)

lemma type_parameters_printed:
  assumes "list_all wf_param ps" "ps \<noteq> []"
  shows "type_parameters (CHR ''<'' # concat (map sig_param ps) @ CHR ''>'' # rest) = Some (map java_param ps, rest)"
proof -
  have "type_parameters_from (length (concat (map sig_param ps) @ CHR ''>'' # rest) + 1) [] (concat (map sig_param ps) @ CHR ''>'' # rest)
      = Some ([] @ map java_param ps, rest)"
    using assms length_concat_params [of ps] by (intro type_parameters_from_printed) auto
  then show ?thesis unfolding type_parameters_def eat_same Option.bind.simps append_Nil .
qed

lemma render_method_reads_back_what_is_printed:
  assumes "wf_method m" shows "render_method (sig_method m) = Some (java_method m)"
proof -
  define thr where "thr = concat (map (\<lambda>t. CHR ''^'' # sig_of t) (ms_throws m))"
  define s4 where "s4 = sig_of (ms_ret m) @ thr"
  define s2 where "s2 = concat (map sig_of (ms_args m)) @ CHR '')'' # s4"
  have tps: "(if sig_method m \<noteq> [] \<and> hd (sig_method m) = CHR ''<'' then type_parameters (sig_method m) else Some ([], sig_method m))
      = Some (map java_param (ms_params m), CHR ''('' # s2)"
    using assms type_parameters_printed [of "ms_params m" "CHR ''('' # s2"]
    by (cases "ms_params m = []") (auto simp: sig_method_def s2_def s4_def thr_def wf_method_def)
  have "length (ms_args m) < length s2 + 1" using length_concat_sigs [of "ms_args m"] by (simp add: s2_def)
  moreover have "list_all (\<lambda>t. hd (sig_of t) \<noteq> CHR '')'') (ms_args m)"
    using assms sig_heads(3) [of _ "[]"] by (auto simp: wf_method_def list_all_iff)
  ultimately have args: "types_until (length s2 + 1) CHR '')'' [] s2 = Some (map java_of (ms_args m), CHR '')'' # s4)"
    using assms types_until_all [of "ms_args m" "CHR '')''" "length s2 + 1" "CHR '')'' # s4" "[]"]
    by (simp add: s2_def wf_method_def)
  have ret: "one_type s4 = Some (java_of (ms_ret m), thr)"
    unfolding one_type_iff using assms by (auto simp: s4_def wf_method_def)
  have "length (ms_throws m) < length thr + 1"
    using length_concat_marks [of "ms_throws m" "CHR ''^''" sig_of] by (simp add: thr_def)
  then have throws: "types_after (length thr + 1) CHR ''^'' [] thr = Some (map java_of (ms_throws m), [])"
    using assms types_after_all [of "ms_throws m" "length thr + 1" "[]" "CHR ''^''" "[]"] by (simp add: thr_def wf_method_def)
  show ?thesis
    unfolding render_method_def tps Option.bind.simps prod.case eat_same args ret throws java_method_def by simp
qed

end
