(* ===== verification/ClassFile.thy ===== *)
theory ClassFile
  imports Generics Utf8
begin

text \<open>
  \<open>mcp-server/src/classfile.rs\<close>: the part of the class-file format that the staleness check and the redefinition
  forecast read, and the assembler of class files that the repository states its own test files with.  A reader
  takes a cursor, the bytes and a position in them, and answers a message or a value with the cursor moved on.
  Lengths of the file are natural numbers: the position plus a 32-bit length never reaches the end of a \<open>usize\<close>.
\<close>

section \<open>Lossy decoding\<close>

text \<open>\<open>String::from_utf8_lossy\<close>: every maximal invalid sequence becomes U+FFFD.\<close>

definition REPLACEMENT :: string where "REPLACEMENT = [byte_char 0xEF, byte_char 0xBF, byte_char 0xBD]"

function from_utf8_lossy :: "bytes \<Rightarrow> string" where
  "from_utf8_lossy [] = []"
| "from_utf8_lossy (a # bs) =
     (case utf8_step a bs of
        Utf8_Ok m \<Rightarrow> bytes_string (take m (a # bs)) @ from_utf8_lossy (drop (m - 1) bs)
      | Utf8_Err None \<Rightarrow> REPLACEMENT
      | Utf8_Err (Some k) \<Rightarrow> REPLACEMENT @ from_utf8_lossy (drop (k - 1) bs))"
  by pat_completeness auto
termination by (relation "measure length") auto

lemma from_utf8_lossy_text: "utf8_check p bs = None \<Longrightarrow> from_utf8_lossy bs = bytes_string bs"
proof (induction p bs rule: utf8_check.induct)
  case (2 pos a bs)
  then obtain m where m: "utf8_step a bs = Utf8_Ok m" "utf8_check (pos + m) (drop (m - 1) bs) = None"
    by (auto split: utf8_step.splits)
  from utf8_step_Ok [OF m(1)] obtain n where n: "m = Suc n" by (metis gr0_implies_Suc)
  have "from_utf8_lossy (a # bs) = bytes_string (take m (a # bs)) @ bytes_string (drop (m - 1) bs)"
    using 2 m by simp
  also have "\<dots> = bytes_string (a # bs)" by (simp add: n bytes_string_def flip: map_append)
  finally show ?case .
qed (simp add: bytes_string_def)

section \<open>The cursor\<close>

record cursor =
  cur_data :: bytes
  cur_at :: nat

type_synonym 'a cur = "cursor \<Rightarrow> string + 'a \<times> cursor"

definition c_return :: "'a \<Rightarrow> 'a cur" where "c_return a c = Inr (a, c)"

definition c_bind :: "'a cur \<Rightarrow> ('a \<Rightarrow> 'b cur) \<Rightarrow> 'b cur" where
  "c_bind r f c = (case r c of Inl e \<Rightarrow> Inl e | Inr (a, c1) \<Rightarrow> f a c1)"

definition c_result :: "string + 'a \<Rightarrow> 'a cur" where
  "c_result r c = (case r of Inl e \<Rightarrow> Inl e | Inr a \<Rightarrow> Inr (a, c))"

text \<open>\<open>for _ in 0..n \<lbrace> out.push(r(c)?) \<rbrace>\<close>\<close>

fun c_repeat :: "nat \<Rightarrow> 'a cur \<Rightarrow> 'a list cur" where
  "c_repeat 0 r = c_return []"
| "c_repeat (Suc n) r = c_bind r (\<lambda>a. c_bind (c_repeat n r) (\<lambda>as. c_return (a # as)))"

definition c_new :: "bytes \<Rightarrow> cursor" where "c_new data = \<lparr>cur_data = data, cur_at = 0\<rparr>"

definition c_take :: "nat \<Rightarrow> bytes cur" where
  "c_take n c =
     (if cur_at c + n \<le> length (cur_data c)
      then Inr (take n (drop (cur_at c) (cur_data c)), c\<lparr>cur_at := cur_at c + n\<rparr>)
      else Inl (''class file is truncated: wanted '' @ show_nat n @ '' byte(s) at offset '' @ show_nat (cur_at c)
             @ '', file is '' @ show_nat (length (cur_data c)) @ '' byte(s)''))"

definition c_u8 :: "u8 cur" where "c_u8 = c_bind (c_take 1) (\<lambda>b. c_return (b ! 0))"

definition c_u16 :: "u16 cur" where
  "c_u16 = c_bind (c_take 2) (\<lambda>b. c_return (or (push_bit 8 (ucast (b ! 0))) (ucast (b ! 1))))"

definition c_u32 :: "u32 cur" where
  "c_u32 = c_bind c_u16 (\<lambda>hi. c_bind c_u16 (\<lambda>lo. c_return (or (push_bit 16 (ucast hi)) (ucast lo))))"

definition c_skip :: "nat \<Rightarrow> unit cur" where "c_skip n = c_bind (c_take n) (\<lambda>_. c_return ())"

section \<open>The constant pool\<close>

datatype constant_entry = C_Utf8 string | C_Class u16 | C_Other

definition utf8 :: "constant_entry list \<Rightarrow> u16 \<Rightarrow> string + string" where
  "utf8 pool i =
     (case (if unat i < length pool then pool ! unat i else C_Other) of
        C_Utf8 s \<Rightarrow> Inr s
      | _ \<Rightarrow> Inl (''class file: constant pool entry '' @ show_nat (unat i) @ '' is not a UTF-8 constant''))"

definition class_name :: "constant_entry list \<Rightarrow> u16 \<Rightarrow> string + string" where
  "class_name pool i =
     (case (if unat i < length pool then pool ! unat i else C_Other) of
        C_Class n \<Rightarrow> res_map dotted (utf8 pool n)
      | _ \<Rightarrow> Inl (''class file: constant pool entry '' @ show_nat (unat i) @ '' is not a class constant''))"

definition SKIP :: "(u8 \<times> nat) list" where
  "SKIP = [(8, 2), (16, 2), (19, 2), (20, 2), (15, 3), (3, 4), (4, 4), (9, 4), (10, 4), (11, 4), (12, 4), (17, 4), (18, 4),
     (5, 8), (6, 8)]"

definition read_constant :: "u8 \<Rightarrow> u16 \<Rightarrow> constant_entry cur" where
  "read_constant tag at =
     (if tag = 1 then c_bind c_u16 (\<lambda>len. c_bind (c_take (unat len)) (\<lambda>b. c_return (C_Utf8 (from_utf8_lossy b))))
      else if tag = 7 then c_bind c_u16 (\<lambda>i. c_return (C_Class i))
      else (case map_of SKIP tag of
          Some width \<Rightarrow> c_bind (c_skip width) (\<lambda>_. c_return C_Other)
        | None \<Rightarrow> c_result (Inl (''class file: unknown constant pool tag '' @ show_nat (unat tag) @ '' at entry '' @ show_nat (unat at)))))"

text \<open>The walk over the entries.  The index is a \<open>u16\<close> and wraps, so the walk is bounded by the bytes that are left and
  not by the count.\<close>

fun pool_entries :: "nat \<Rightarrow> u16 \<Rightarrow> u16 \<Rightarrow> constant_entry list \<Rightarrow> constant_entry list cur" where
  "pool_entries 0 cnt i pool = c_result (Inl ''out of fuel'')"
| "pool_entries (Suc n) cnt i pool =
     (if i < cnt then
        c_bind c_u8 (\<lambda>tag.
        c_bind (read_constant tag i) (\<lambda>entry.
          let slots = (if tag = 5 \<or> tag = 6 then 2 else 1) in
          pool_entries n cnt (i + slots) (pool @ [entry] @ (if slots = 2 then [C_Other] else []))))
      else c_return pool)"

definition parse_constant_pool :: "constant_entry list cur" where
  "parse_constant_pool =
     c_bind c_u16 (\<lambda>count c. pool_entries (length (cur_data c) + 1) count 1 [C_Other] c)"

section \<open>Header, fields and methods\<close>

record class_header =
  ch_access_flags :: u16
  ch_this_class :: string
  ch_super_class :: "string option"
  ch_interfaces :: "string list"

record class_file_field =
  ff_access_flags :: u16
  ff_name :: string
  ff_descriptor :: string

record class_file_method =
  fm_access_flags :: u16
  fm_name :: string
  fm_descriptor :: string
  fm_lines :: "(u64 \<times> u32) list"
  fm_has_code :: bool
  fm_has_line_table :: bool
  fm_code :: bytes

record code_attribute =
  ca_lines :: "(u64 \<times> u32) list"
  ca_has_line_table :: bool
  ca_code :: bytes

record class_file =
  cf_this_class :: string
  cf_access_flags :: u16
  cf_super_class :: "string option"
  cf_interfaces :: "string list"
  cf_fields :: "class_file_field list"
  cf_methods :: "class_file_method list"

definition parse_header :: "constant_entry list \<Rightarrow> class_header cur" where
  "parse_header pool =
     c_bind c_u16 (\<lambda>flags.
     c_bind c_u16 (\<lambda>this. c_bind (c_result (class_name pool this)) (\<lambda>this_class.
     c_bind c_u16 (\<lambda>super_index.
     c_bind (if super_index = 0 then c_return None else c_bind (c_result (class_name pool super_index)) (\<lambda>s. c_return (Some s)))
       (\<lambda>super_class.
     c_bind c_u16 (\<lambda>count.
     c_bind (c_repeat (unat count) (c_bind c_u16 (\<lambda>i. c_result (class_name pool i)))) (\<lambda>interfaces.
       c_return \<lparr>ch_access_flags = flags, ch_this_class = this_class, ch_super_class = super_class,
         ch_interfaces = interfaces\<rparr>)))))))"

text \<open>One attribute passed over: its name index is not looked at.\<close>

definition skip_attribute :: "unit cur" where
  "skip_attribute = c_bind (c_skip 2) (\<lambda>_. c_bind c_u32 (\<lambda>len. c_skip (unat len)))"

definition parse_field :: "constant_entry list \<Rightarrow> class_file_field cur" where
  "parse_field pool =
     c_bind c_u16 (\<lambda>flags.
     c_bind c_u16 (\<lambda>n. c_bind (c_result (utf8 pool n)) (\<lambda>name.
     c_bind c_u16 (\<lambda>d. c_bind (c_result (utf8 pool d)) (\<lambda>descriptor.
     c_bind c_u16 (\<lambda>attrs.
     c_bind (c_repeat (unat attrs) skip_attribute) (\<lambda>_.
       c_return \<lparr>ff_access_flags = flags, ff_name = name, ff_descriptor = descriptor\<rparr>)))))))"

definition parse_fields :: "constant_entry list \<Rightarrow> class_file_field list cur" where
  "parse_fields pool = c_bind c_u16 (\<lambda>count. c_repeat (unat count) (parse_field pool))"

definition line_entry :: "(u64 \<times> u32) cur" where
  "line_entry = c_bind c_u16 (\<lambda>pc. c_bind c_u16 (\<lambda>line. c_return (ucast pc, ucast line)))"

definition read_line_number_table :: "bytes \<Rightarrow> string + (u64 \<times> u32) list" where
  "read_line_number_table body =
     res_map fst (c_bind c_u16 (\<lambda>entries. c_repeat (unat entries) line_entry) (c_new body))"

text \<open>The attributes of a \<open>Code\<close> body up to the first \<open>LineNumberTable\<close>.\<close>

fun code_attributes :: "nat \<Rightarrow> constant_entry list \<Rightarrow> bytes \<Rightarrow> code_attribute cur" where
  "code_attributes 0 pool code = c_return \<lparr>ca_lines = [], ca_has_line_table = False, ca_code = code\<rparr>"
| "code_attributes (Suc n) pool code =
     c_bind c_u16 (\<lambda>i. c_bind (c_result (utf8 pool i)) (\<lambda>name.
     c_bind c_u32 (\<lambda>len.
       if name = ''LineNumberTable'' then
         c_bind (c_take (unat len)) (\<lambda>t. c_bind (c_result (read_line_number_table t)) (\<lambda>lines.
           c_return \<lparr>ca_lines = lines, ca_has_line_table = True, ca_code = code\<rparr>))
       else c_bind (c_skip (unat len)) (\<lambda>_. code_attributes n pool code))))"

definition parse_code_body :: "bytes \<Rightarrow> constant_entry list \<Rightarrow> string + code_attribute" where
  "parse_code_body body pool =
     res_map fst
       (c_bind (c_skip 4) (\<lambda>_.
        c_bind c_u32 (\<lambda>code_len. c_bind (c_take (unat code_len)) (\<lambda>code.
        c_bind c_u16 (\<lambda>exceptions. c_bind (c_skip (unat exceptions * 8)) (\<lambda>_.
        c_bind c_u16 (\<lambda>attrs. code_attributes (unat attrs) pool code)))))) (c_new body))"

text \<open>The attributes of a method; each \<open>Code\<close> attribute replaces what one before it said.\<close>

fun method_attributes :: "nat \<Rightarrow> constant_entry list \<Rightarrow> class_file_method \<Rightarrow> class_file_method cur" where
  "method_attributes 0 pool m = c_return m"
| "method_attributes (Suc n) pool m =
     c_bind c_u16 (\<lambda>i. c_bind (c_result (utf8 pool i)) (\<lambda>attr_name.
     c_bind c_u32 (\<lambda>len.
       if attr_name = ''Code'' then
         c_bind (c_take (unat len)) (\<lambda>body. c_bind (c_result (parse_code_body body pool)) (\<lambda>attr.
           method_attributes n pool (m\<lparr>fm_has_code := True, fm_has_line_table := ca_has_line_table attr,
             fm_lines := ca_lines attr, fm_code := ca_code attr\<rparr>)))
       else c_bind (c_skip (unat len)) (\<lambda>_. method_attributes n pool m))))"

definition parse_one_method :: "constant_entry list \<Rightarrow> class_file_method cur" where
  "parse_one_method pool =
     c_bind c_u16 (\<lambda>flags.
     c_bind c_u16 (\<lambda>n. c_bind (c_result (utf8 pool n)) (\<lambda>name.
     c_bind c_u16 (\<lambda>d. c_bind (c_result (utf8 pool d)) (\<lambda>descriptor.
     c_bind c_u16 (\<lambda>attrs.
       method_attributes (unat attrs) pool
         \<lparr>fm_access_flags = flags, fm_name = name, fm_descriptor = descriptor, fm_lines = [], fm_has_code = False,
          fm_has_line_table = False, fm_code = []\<rparr>))))))"

definition parse_methods :: "constant_entry list \<Rightarrow> class_file_method list cur" where
  "parse_methods pool = c_bind c_u16 (\<lambda>count. c_repeat (unat count) (parse_one_method pool))"

definition parse_cursor :: "class_file cur" where
  "parse_cursor =
     c_bind c_u32 (\<lambda>magic.
       if magic \<noteq> 0xCAFEBABE then c_result (Inl ''not a class file: it does not start with 0xCAFEBABE'')
       else c_bind (c_skip 4) (\<lambda>_. c_bind parse_constant_pool (\<lambda>pool.
         c_bind (parse_header pool) (\<lambda>h. c_bind (parse_fields pool) (\<lambda>fs. c_bind (parse_methods pool) (\<lambda>ms.
           c_return \<lparr>cf_this_class = ch_this_class h, cf_access_flags = ch_access_flags h, cf_super_class = ch_super_class h,
             cf_interfaces = ch_interfaces h, cf_fields = fs, cf_methods = ms\<rparr>))))))"

definition parse :: "bytes \<Rightarrow> string + class_file" where
  "parse b = res_map fst (parse_cursor (c_new b))"

section \<open>The assembler of stated class files\<close>

text \<open>
  \<open>build\<close>: a class file assembled from a stated shape.  What panics there (a length that does not fit its field, an index
  past the last \<open>u16\<close>) is \<open>None\<close>.
\<close>

record build_method =
  bm_name :: string
  bm_descriptor :: string
  bm_access_flags :: u16
  bm_lines :: "(u16 \<times> u16) list"
  bm_has_code :: bool
  bm_code :: bytes

definition build_new :: "string \<Rightarrow> string \<Rightarrow> (u16 \<times> u16) list \<Rightarrow> build_method" where
  "build_new name descriptor lines =
     \<lparr>bm_name = name, bm_descriptor = descriptor, bm_access_flags = 1, bm_lines = lines, bm_has_code = True, bm_code = [0xB1]\<rparr>"

definition build_stripped :: "string \<Rightarrow> string \<Rightarrow> build_method" where
  "build_stripped name descriptor = (build_new name descriptor [])\<lparr>bm_lines := []\<rparr>"

definition build_bodyless :: "string \<Rightarrow> string \<Rightarrow> build_method" where
  "build_bodyless name descriptor = (build_new name descriptor [])\<lparr>bm_has_code := False, bm_code := []\<rparr>"

definition build_with_code :: "build_method \<Rightarrow> bytes \<Rightarrow> build_method" where
  "build_with_code m b = m\<lparr>bm_code := b\<rparr>"

definition u16_of :: "nat \<Rightarrow> u16 option" where "u16_of n = (if n < 2 ^ 16 then Some (word_of_nat n) else None)"

definition u32_of :: "nat \<Rightarrow> u32 option" where "u32_of n = (if n < 2 ^ 32 then Some (word_of_nat n) else None)"

definition build_utf8 :: "string \<Rightarrow> bytes option" where
  "build_utf8 s = map_option (\<lambda>len. 1 # put_be 2 len @ string_bytes s) (u16_of (length s))"

fun all_some :: "'a option list \<Rightarrow> 'a list option" where
  "all_some [] = Some []"
| "all_some (x # xs) = Option.bind x (\<lambda>a. map_option (\<lambda>as. a # as) (all_some xs))"

definition slashed :: "string \<Rightarrow> string" where "slashed = map (\<lambda>c. if c = CHR ''.'' then CHR ''/'' else c)"

definition build_pool :: "string \<Rightarrow> build_method list \<Rightarrow> bytes option" where
  "build_pool this_class ms =
     Option.bind (build_utf8 (slashed this_class)) (\<lambda>a.
     Option.bind (build_utf8 ''java/lang/Object'') (\<lambda>b.
     Option.bind (build_utf8 ''Code'') (\<lambda>c.
     Option.bind (build_utf8 ''LineNumberTable'') (\<lambda>d.
     map_option (\<lambda>names. a @ [7, 0, 1] @ b @ [7, 0, 3] @ c @ d @ concat names)
       (all_some (concat (map (\<lambda>m. [build_utf8 (bm_name m), build_utf8 (bm_descriptor m)]) ms)))))))"

definition build_line_table :: "(u16 \<times> u16) list \<Rightarrow> bytes option" where
  "build_line_table lines =
     (if lines = [] then Some (put_be 2 (0 :: u16))
      else Option.bind (u32_of (length lines)) (\<lambda>n32.
        Option.bind (u32_of (2 + 4 * length lines)) (\<lambda>body_len.
        map_option (\<lambda>n16. put_be 2 (1 :: u16) @ put_be 2 (6 :: u16) @ put_be 4 body_len @ put_be 2 n16
            @ concat (map (\<lambda>(pc, line). put_be 2 pc @ put_be 2 line) lines))
          (u16_of (length lines)))))"

definition build_code :: "build_method \<Rightarrow> bytes option" where
  "build_code m =
     Option.bind (u32_of (length (bm_code m))) (\<lambda>code_len.
     map_option (\<lambda>table. put_be 2 (1 :: u16) @ put_be 2 (1 :: u16) @ put_be 4 code_len @ bm_code m @ put_be 2 (0 :: u16) @ table)
       (build_line_table (bm_lines m)))"

definition build_one_method :: "build_method \<times> u16 \<times> u16 \<Rightarrow> bytes option" where
  "build_one_method = (\<lambda>(m, name_idx, desc_idx).
     let start = put_be 2 (bm_access_flags m) @ put_be 2 name_idx @ put_be 2 desc_idx in
     if \<not> bm_has_code m then Some (start @ put_be 2 (0 :: u16))
     else Option.bind (build_code m) (\<lambda>code_attr.
       map_option (\<lambda>len. start @ put_be 2 (1 :: u16) @ put_be 2 (5 :: u16) @ put_be 4 len @ code_attr)
         (u32_of (length code_attr))))"

definition build_slots :: "nat \<Rightarrow> (u16 \<times> u16) list" where
  "build_slots n = map (\<lambda>j. (word_of_nat (7 + 2 * j), word_of_nat (8 + 2 * j))) [0..<n]"

definition build_class_file :: "string \<Rightarrow> build_method list \<Rightarrow> bytes option" where
  "build_class_file this_class ms =
     Option.bind (build_pool this_class ms) (\<lambda>pool.
     Option.bind (u16_of (7 + 2 * length ms)) (\<lambda>nxt.
     Option.bind (u16_of (length ms)) (\<lambda>n.
     map_option (\<lambda>bodies. [0xCA, 0xFE, 0xBA, 0xBE, 0, 0, 0, 65] @ put_be 2 nxt @ pool
         @ put_be 2 (0x21 :: u16) @ put_be 2 (2 :: u16) @ put_be 2 (4 :: u16) @ put_be 2 (0 :: u16) @ put_be 2 (0 :: u16)
         @ put_be 2 n @ concat bodies)
       (all_some (map build_one_method (zip ms (build_slots (length ms))))))))"

end
