(* ===== verification/ClassFileProofs.thy ===== *)
theory ClassFileProofs
  imports ClassFile
begin

text \<open>
  Two results about the class-file parser. It is frugal: what it answers depends only on the bytes it has read, and with
  any one of them missing it answers an error. And it reads back every class file that the assembler emits.
\<close>

named_theorems frugal_intros \<open>readers that depend only on what they have read\<close>

section \<open>Frugal readers\<close>

definition frugal :: "'a cur \<Rightarrow> bool" where
  "frugal r \<longleftrightarrow> (\<forall>d at a c. at \<le> length d \<longrightarrow> r \<lparr>cur_data = d, cur_at = at\<rparr> = Inr (a, c) \<longrightarrow>
     (\<exists>at'. c = \<lparr>cur_data = d, cur_at = at'\<rparr> \<and> at \<le> at' \<and> at' \<le> length d
       \<and> (\<forall>e. take at' e = take at' d \<longrightarrow> r \<lparr>cur_data = e, cur_at = at\<rparr> = Inr (a, \<lparr>cur_data = e, cur_at = at'\<rparr>))
       \<and> (\<forall>k. at \<le> k \<longrightarrow> k < at' \<longrightarrow> is_err (r \<lparr>cur_data = take k d, cur_at = at\<rparr>))))"

lemma frugalD:
  assumes "frugal r" "at \<le> length d" "r \<lparr>cur_data = d, cur_at = at\<rparr> = Inr (a, c)"
  obtains at' where "c = \<lparr>cur_data = d, cur_at = at'\<rparr>" "at \<le> at'" "at' \<le> length d"
    "\<And>e. take at' e = take at' d \<Longrightarrow> r \<lparr>cur_data = e, cur_at = at\<rparr> = Inr (a, \<lparr>cur_data = e, cur_at = at'\<rparr>)"
    "\<And>k. at \<le> k \<Longrightarrow> k < at' \<Longrightarrow> is_err (r \<lparr>cur_data = take k d, cur_at = at\<rparr>)"
  using assms unfolding frugal_def by blast

lemma frugal_return [frugal_intros]: "frugal (c_return a)"
  by (auto simp: frugal_def c_return_def)

lemma frugal_result [frugal_intros]: "frugal (c_result x)"
  by (auto simp: frugal_def c_result_def split: sum.splits)

lemma take_same_length: "take n e = take n d \<Longrightarrow> n \<le> length d \<Longrightarrow> n \<le> length e"
  by (metis length_take min.absorb2 min.cobounded1)

lemma frugal_take [frugal_intros]: "frugal (c_take n)"
  unfolding frugal_def
proof (intro allI impI)
  fix d :: bytes and at a c
  assume "at \<le> length d" and r: "c_take n \<lparr>cur_data = d, cur_at = at\<rparr> = Inr (a, c)"
  then have l: "at + n \<le> length d" and a: "a = take n (drop at d)" "c = \<lparr>cur_data = d, cur_at = at + n\<rparr>"
    by (auto simp: c_take_def split: if_splits)
  have "c_take n \<lparr>cur_data = e, cur_at = at\<rparr> = Inr (a, \<lparr>cur_data = e, cur_at = at + n\<rparr>)"
    if e: "take (at + n) e = take (at + n) d" for e
  proof -
    have "take n (drop at e) = take n (drop at d)" using e by (metis add.commute drop_take take_drop)
    then show ?thesis using take_same_length [OF e l] a by (simp add: c_take_def)
  qed
  moreover have "is_err (c_take n \<lparr>cur_data = take k d, cur_at = at\<rparr>)" if "k < at + n" for k
    using that l by (simp add: c_take_def is_err_def)
  ultimately show "\<exists>at'. c = \<lparr>cur_data = d, cur_at = at'\<rparr> \<and> at \<le> at' \<and> at' \<le> length d
       \<and> (\<forall>e. take at' e = take at' d \<longrightarrow> c_take n \<lparr>cur_data = e, cur_at = at\<rparr> = Inr (a, \<lparr>cur_data = e, cur_at = at'\<rparr>))
       \<and> (\<forall>k. at \<le> k \<longrightarrow> k < at' \<longrightarrow> is_err (c_take n \<lparr>cur_data = take k d, cur_at = at\<rparr>))"
    using l a(2) by (intro exI [of _ "at + n"]) auto
qed

lemma frugal_bind [frugal_intros]:
  assumes r: "frugal r" and f: "\<And>a. frugal (f a)" shows "frugal (c_bind r f)"
  unfolding frugal_def
proof (intro allI impI)
  fix d :: bytes and at b c
  assume at: "at \<le> length d" and s: "c_bind r f \<lparr>cur_data = d, cur_at = at\<rparr> = Inr (b, c)"
  then obtain a c1 where 1: "r \<lparr>cur_data = d, cur_at = at\<rparr> = Inr (a, c1)" and 2: "f a c1 = Inr (b, c)"
    by (auto simp: c_bind_def split: sum.splits)
  from frugalD [OF r at 1] obtain m where m: "c1 = \<lparr>cur_data = d, cur_at = m\<rparr>" "at \<le> m" "m \<le> length d"
    "\<And>e. take m e = take m d \<Longrightarrow> r \<lparr>cur_data = e, cur_at = at\<rparr> = Inr (a, \<lparr>cur_data = e, cur_at = m\<rparr>)"
    "\<And>k. at \<le> k \<Longrightarrow> k < m \<Longrightarrow> is_err (r \<lparr>cur_data = take k d, cur_at = at\<rparr>)" by blast
  from frugalD [OF f m(3) 2 [unfolded m(1)]] obtain n where n: "c = \<lparr>cur_data = d, cur_at = n\<rparr>" "m \<le> n" "n \<le> length d"
    "\<And>e. take n e = take n d \<Longrightarrow> f a \<lparr>cur_data = e, cur_at = m\<rparr> = Inr (b, \<lparr>cur_data = e, cur_at = n\<rparr>)"
    "\<And>k. m \<le> k \<Longrightarrow> k < n \<Longrightarrow> is_err (f a \<lparr>cur_data = take k d, cur_at = m\<rparr>)" by blast
  have "c_bind r f \<lparr>cur_data = e, cur_at = at\<rparr> = Inr (b, \<lparr>cur_data = e, cur_at = n\<rparr>)" if e: "take n e = take n d" for e
  proof -
    have "take m e = take m d" using e n(2) by (metis min.absorb1 take_take)
    then show ?thesis using m(4) n(4) [OF e] by (simp add: c_bind_def)
  qed
  moreover have "is_err (c_bind r f \<lparr>cur_data = take k d, cur_at = at\<rparr>)" if k: "at \<le> k" "k < n" for k
  proof (cases "k < m")
    case True
    from m(5) [OF k(1) this] show ?thesis by (cases "r \<lparr>cur_data = take k d, cur_at = at\<rparr>") (auto simp: c_bind_def)
  next
    case False
    then have "take m (take k d) = take m d" by (simp add: min_def)
    then show ?thesis using m(4) n(5) [of k] k False by (simp add: c_bind_def)
  qed
  ultimately show "\<exists>at'. c = \<lparr>cur_data = d, cur_at = at'\<rparr> \<and> at \<le> at' \<and> at' \<le> length d
       \<and> (\<forall>e. take at' e = take at' d \<longrightarrow> c_bind r f \<lparr>cur_data = e, cur_at = at\<rparr> = Inr (b, \<lparr>cur_data = e, cur_at = at'\<rparr>))
       \<and> (\<forall>k. at \<le> k \<longrightarrow> k < at' \<longrightarrow> is_err (c_bind r f \<lparr>cur_data = take k d, cur_at = at\<rparr>))"
    using n(1,2,3) m(2) by (intro exI [of _ n]) auto
qed

lemma frugal_if [frugal_intros]: "frugal r \<Longrightarrow> frugal s \<Longrightarrow> frugal (if b then r else s)" by simp

lemma frugal_option [frugal_intros]:
  "(\<And>x. frugal (f x)) \<Longrightarrow> frugal r \<Longrightarrow> frugal (case o' of Some x \<Rightarrow> f x | None \<Rightarrow> r)"
  by (cases o') auto

lemma frugal_repeat [frugal_intros]: "frugal r \<Longrightarrow> frugal (c_repeat n r)"
  by (induction n) (auto intro!: frugal_intros)

lemma frugal_numbers [frugal_intros]: "frugal c_u8" "frugal c_u16" "frugal c_u32" "frugal (c_skip n)"
  by (auto simp: c_u8_def c_u16_def c_u32_def c_skip_def intro!: frugal_intros)

lemma frugal_constant [frugal_intros]: "frugal (read_constant tag i)"
  by (auto simp: read_constant_def intro!: frugal_intros)

lemma frugal_entries: "frugal (pool_entries n cnt i pool)"
  by (induction n arbitrary: i pool) (auto simp: Let_def intro!: frugal_intros)

lemma frugal_attributes [frugal_intros]: "frugal (method_attributes n pool m)"
  by (induction n arbitrary: m) (auto intro!: frugal_intros)

lemma frugal_sections [frugal_intros]: "frugal (parse_header pool)" "frugal (parse_fields pool)" "frugal (parse_methods pool)"
  by (auto simp: parse_header_def parse_fields_def parse_field_def skip_attribute_def parse_methods_def parse_one_method_def
      intro!: frugal_intros)

text \<open>The fuel of the constant pool is enough: with more fuel than there are bytes left, more makes no difference.\<close>

lemma u8_moves:
  assumes "c_u8 \<lparr>cur_data = d, cur_at = at\<rparr> = Inr (t, c)"
  shows "c = \<lparr>cur_data = d, cur_at = Suc at\<rparr> \<and> Suc at \<le> length d"
  using assms by (auto simp: c_u8_def c_bind_def c_take_def c_return_def split: if_splits)

lemma pool_fuel_enough:
  "at \<le> length d \<Longrightarrow> length d - at < n \<Longrightarrow> length d - at < m \<Longrightarrow>
   pool_entries n cnt i pool \<lparr>cur_data = d, cur_at = at\<rparr> = pool_entries m cnt i pool \<lparr>cur_data = d, cur_at = at\<rparr>"
proof (induction n arbitrary: m i pool at)
  case (Suc n)
  from Suc.prems obtain k where m: "m = Suc k" by (cases m) auto
  show ?case
  proof (cases "c_u8 \<lparr>cur_data = d, cur_at = at\<rparr>")
    case (Inr p)
    obtain tag c1 where u: "c_u8 \<lparr>cur_data = d, cur_at = at\<rparr> = Inr (tag, c1)" using Inr by (cases p) auto
    note mv = u8_moves [OF u]
    then have c1: "c1 = \<lparr>cur_data = d, cur_at = Suc at\<rparr>" "Suc at \<le> length d" by auto
    show ?thesis
    proof (cases "read_constant tag i c1")
      case (Inr q)
      obtain e c2 where q: "read_constant tag i \<lparr>cur_data = d, cur_at = Suc at\<rparr> = Inr (e, c2)" using Inr c1 by (cases q) auto
      obtain z where z: "c2 = \<lparr>cur_data = d, cur_at = z\<rparr>" "Suc at \<le> z" "z \<le> length d"
        using frugalD [OF frugal_constant c1(2) q] by blast
      have "pool_entries n cnt i' pool' c2 = pool_entries k cnt i' pool' c2" for i' pool'
        unfolding z(1) using Suc.prems m z by (intro Suc.IH) auto
      then show ?thesis using u q c1 m by (simp add: c_bind_def Let_def)
    next
      case (Inl e) then show ?thesis using u m by (simp add: c_bind_def)
    qed
  next
    case (Inl e) then show ?thesis using m by (simp add: c_bind_def)
  qed
qed simp

lemma frugal_pool [frugal_intros]: "frugal parse_constant_pool"
  unfolding parse_constant_pool_def
proof (intro frugal_intros)
  fix cnt
  define f where "f = (\<lambda>d :: bytes. length d + 1)"
  define big where "big = (\<lambda>c. pool_entries (f (cur_data c)) cnt 1 [C_Other] c)"
  have same: "big \<lparr>cur_data = e, cur_at = at\<rparr> = pool_entries n cnt 1 [C_Other] \<lparr>cur_data = e, cur_at = at\<rparr>"
    if "at \<le> length e" "f e \<le> n" for e at n
    using that pool_fuel_enough [of at e "f e" n] unfolding big_def f_def by simp
  have "frugal big" unfolding frugal_def
  proof (intro allI impI)
    fix d at a c assume at: "at \<le> length d" and r: "big \<lparr>cur_data = d, cur_at = at\<rparr> = Inr (a, c)"
    have fr: "frugal (pool_entries n cnt 1 [C_Other])" for n by (rule frugal_entries)
    from frugalD [OF fr at r [unfolded same [OF at order_refl]]] obtain at' where z: "c = \<lparr>cur_data = d, cur_at = at'\<rparr>"
      "at \<le> at'" "at' \<le> length d" "\<And>k. at \<le> k \<Longrightarrow> k < at' \<Longrightarrow> is_err (pool_entries (f d) cnt 1 [C_Other] \<lparr>cur_data = take k d, cur_at = at\<rparr>)"
      by blast
    have "big \<lparr>cur_data = e, cur_at = at\<rparr> = Inr (a, \<lparr>cur_data = e, cur_at = at'\<rparr>)" if e: "take at' e = take at' d" for e
    proof -
      have le: "at \<le> length e" using take_same_length [OF e z(3)] z(2) by simp
      have "pool_entries (max (f d) (f e)) cnt 1 [C_Other] \<lparr>cur_data = d, cur_at = at\<rparr> = Inr (a, c)"
        using r same [OF at, of "max (f d) (f e)"] by simp
      from frugalD [OF fr at this] have "pool_entries (max (f d) (f e)) cnt 1 [C_Other] \<lparr>cur_data = e, cur_at = at\<rparr> = Inr (a, \<lparr>cur_data = e, cur_at = at'\<rparr>)"
        using e z(1) by (metis cursor.ext_inject)
      then show ?thesis using same [OF le, of "max (f d) (f e)"] by simp
    qed
    moreover have "is_err (big \<lparr>cur_data = take k d, cur_at = at\<rparr>)" if "at \<le> k" "k < at'" for k
      using z(4) [OF that] same [of at "take k d" "f d"] that z(3) unfolding f_def by simp
    ultimately show "\<exists>at'. c = \<lparr>cur_data = d, cur_at = at'\<rparr> \<and> at \<le> at' \<and> at' \<le> length d
       \<and> (\<forall>e. take at' e = take at' d \<longrightarrow> big \<lparr>cur_data = e, cur_at = at\<rparr> = Inr (a, \<lparr>cur_data = e, cur_at = at'\<rparr>))
       \<and> (\<forall>k. at \<le> k \<longrightarrow> k < at' \<longrightarrow> is_err (big \<lparr>cur_data = take k d, cur_at = at\<rparr>))"
      using z by (intro exI [of _ at']) auto
  qed
  then show "frugal (\<lambda>c. pool_entries (length (cur_data c) + 1) cnt 1 [C_Other] c)" unfolding big_def f_def .
qed

lemma frugal_parse: "frugal parse_cursor"
  unfolding parse_cursor_def by (intro frugal_intros)

text \<open>C26: a class file that was cut short is refused and nothing after the part that is read matters. Of every file that
  parses there is a length such that every file with the same first bytes parses to the same answer, and the file cut
  off anywhere before that length is an error: a build killed mid-write is never taken for a class.\<close>

theorem truncated_class_file_refused:
  assumes "parse b = Inr cf"
  shows "\<exists>n\<le>length b. (\<forall>k<n. is_err (parse (take k b))) \<and> (\<forall>tail. parse (take n b @ tail) = Inr cf)"
proof -
  from assms obtain c where p: "parse_cursor \<lparr>cur_data = b, cur_at = 0\<rparr> = Inr (cf, c)"
    by (auto simp: parse_def c_new_def res_map_Inr_iff)
  obtain n where n: "n \<le> length b"
    "\<And>e. take n e = take n b \<Longrightarrow> parse_cursor \<lparr>cur_data = e, cur_at = 0\<rparr> = Inr (cf, \<lparr>cur_data = e, cur_at = n\<rparr>)"
    "\<And>k. k < n \<Longrightarrow> is_err (parse_cursor \<lparr>cur_data = take k b, cur_at = 0\<rparr>)"
    using frugalD [OF frugal_parse _ p] by (metis le0)
  have "is_err (parse (take k b))" if "k < n" for k
    using n(3) [OF that] by (cases "parse_cursor \<lparr>cur_data = take k b, cur_at = 0\<rparr>") (auto simp: parse_def c_new_def)
  moreover have "parse (take n b @ tail) = Inr cf" for tail
    using n(1) n(2) [of "take n b @ tail"] by (simp add: parse_def c_new_def)
  ultimately show ?thesis using n(1) by blast
qed

section \<open>Reading what was written\<close>

text \<open>A reader reads a text to a value wherever the text stands, and ends right behind it.\<close>

definition reads :: "'a cur \<Rightarrow> bytes \<Rightarrow> 'a \<Rightarrow> bool" where
  "reads r enc a \<longleftrightarrow> (\<forall>pre tail. r \<lparr>cur_data = pre @ enc @ tail, cur_at = length pre\<rparr>
     = Inr (a, \<lparr>cur_data = pre @ enc @ tail, cur_at = length pre + length enc\<rparr>))"

lemma reads_return: "reads (c_return a) [] a" by (simp add: reads_def c_return_def)

lemma reads_result: "reads (c_result (Inr a)) [] a" by (simp add: reads_def c_result_def)

lemma reads_bind: "reads r x a \<Longrightarrow> reads (f a) y b \<Longrightarrow> reads (c_bind r f) (x @ y) b"
proof -
  assume r: "reads r x a" and f: "reads (f a) y b"
  have "f a \<lparr>cur_data = pre @ x @ y @ tail, cur_at = length pre + length x\<rparr>
      = Inr (b, \<lparr>cur_data = pre @ x @ y @ tail, cur_at = length pre + length x + length y\<rparr>)" for pre tail
    using f unfolding reads_def by (metis append_assoc length_append)
  then show ?thesis using r by (simp add: reads_def c_bind_def add.assoc)
qed

lemma reads_bind_pure: "reads r [] a \<Longrightarrow> reads (f a) y b \<Longrightarrow> reads (c_bind r f) y b"
  using reads_bind [of r "[]" a f y b] by simp

lemma reads_then_return:
  assumes "reads r x a" "b = f a" shows "reads (c_bind r (\<lambda>a. c_return (f a))) x b"
  using reads_bind [where f = "\<lambda>a. c_return (f a)" and y = "[]", OF assms(1) reads_return] assms(2) by simp

lemma reads_take: "length x = n \<Longrightarrow> reads (c_take n) x x"
  by (auto simp: reads_def c_take_def)

lemma reads_skip: "length x = n \<Longrightarrow> reads (c_skip n) x ()"
  unfolding c_skip_def by (rule reads_then_return [OF reads_take]) simp_all

lemma reads_u8: "reads c_u8 [b] b"
  unfolding c_u8_def by (rule reads_then_return [OF reads_take]) simp_all

lemma put_be_2: "put_be 2 (w :: u16) = [ucast (drop_bit 8 w), ucast w]"
  by (simp add: put_be_def numeral_2_eq_2 upt_rec)

lemma join_u16: "or (push_bit 8 (ucast (ucast (drop_bit 8 w) :: u8))) (ucast (ucast w :: u8)) = (w :: u16)"
proof (rule bit_word_eqI)
  fix k assume "k < LENGTH(16)"
  then show "bit (or (push_bit 8 (ucast (ucast (drop_bit 8 w) :: u8))) (ucast (ucast w :: u8)) :: u16) k = bit w k"
    by (cases "k < 8") (auto simp: bit_simps)
qed

lemma reads_u16: "reads c_u16 (put_be 2 w) w"
  unfolding c_u16_def by (rule reads_then_return [OF reads_take]) (simp_all add: put_be_2 join_u16)

lemma put_be_4: "put_be 4 (w :: u32) = put_be 2 (ucast (drop_bit 16 w) :: u16) @ put_be 2 (ucast w :: u16)"
proof -
  have "ucast (drop_bit 8 (ucast (drop_bit 16 w) :: u16)) = (ucast (drop_bit 24 w) :: u8)"
    "ucast (ucast (drop_bit 16 w) :: u16) = (ucast (drop_bit 16 w) :: u8)"
    "ucast (drop_bit 8 (ucast w :: u16)) = (ucast (drop_bit 8 w) :: u8)" "ucast (ucast w :: u16) = (ucast w :: u8)"
    by (rule bit_word_eqI; auto simp: bit_simps)+
  then show ?thesis by (simp add: put_be_2) (simp add: put_be_def numeral_eq_Suc)
qed

lemma reads_u32: "reads c_u32 (put_be 4 w) w"
proof -
  have "or (push_bit 16 (ucast (ucast (drop_bit 16 w) :: u16))) (ucast (ucast w :: u16)) = w"
    by (rule bit_word_eqI) (auto simp: bit_simps)
  then show ?thesis unfolding put_be_4 c_u32_def
    by (intro reads_bind [OF reads_u16] reads_then_return [OF reads_u16]) simp
qed

lemma reads_repeat:
  "(\<And>x. x \<in> set xs \<Longrightarrow> reads r (enc x) (res x)) \<Longrightarrow> reads (c_repeat (length xs) r) (concat (map enc xs)) (map res xs)"
proof (induction xs)
  case Nil then show ?case using reads_return by simp
next
  case (Cons x xs)
  have "reads (c_bind r (\<lambda>a. c_bind (c_repeat (length xs) r) (\<lambda>as. c_return (a # as)))) (enc x @ concat (map enc xs))
      (res x # map res xs)"
    using Cons by (intro reads_bind [where x = "enc x" and a = "res x"] reads_then_return [where a = "map res xs"]) auto
  then show ?case by simp
qed

lemma reads_run: "reads r x a \<Longrightarrow> res_map fst (r (c_new x)) = Inr a"
  unfolding reads_def c_new_def by (drule spec [of _ "[]"], drule spec [of _ "[]"]) simp

subsection \<open>The constant pool\<close>

primrec put_const :: "constant_entry \<Rightarrow> bytes" where
  "put_const (C_Utf8 s) = 1 # put_be 2 (word_of_nat (length s) :: u16) @ string_bytes s"
| "put_const (C_Class i) = 7 # put_be 2 i"
| "put_const C_Other = []"

primrec const_ok :: "constant_entry \<Rightarrow> bool" where
  "const_ok (C_Utf8 s) \<longleftrightarrow> utf8_text (string_bytes s) \<and> length s < 2 ^ 16"
| "const_ok (C_Class i) \<longleftrightarrow> True"
| "const_ok C_Other \<longleftrightarrow> False"

lemma reads_constant:
  assumes "const_ok e"
  obtains tag body where "put_const e = tag # body" "tag \<noteq> 5" "tag \<noteq> 6" "reads (read_constant tag i) body e"
proof (cases e)
  case (C_Utf8 s)
  have n: "unat (word_of_nat (length s) :: u16) = length s" using assms C_Utf8 by (simp add: unat_of_nat)
  have "from_utf8_lossy (string_bytes s) = s" using assms C_Utf8 from_utf8_lossy_text by (auto simp: utf8_text_def)
  then have "reads (c_bind c_u16 (\<lambda>len. c_bind (c_take (unat len)) (\<lambda>b. c_return (C_Utf8 (from_utf8_lossy b)))))
      (put_be 2 (word_of_nat (length s) :: u16) @ string_bytes s) e"
    using C_Utf8 n by (intro reads_bind [OF reads_u16] reads_then_return [OF reads_take]) simp_all
  then show ?thesis using C_Utf8 that [of 1] by (simp add: read_constant_def)
next
  case (C_Class j)
  have "reads (c_bind c_u16 (\<lambda>i. c_return (C_Class i))) (put_be 2 j) e"
    using C_Class by (intro reads_then_return [OF reads_u16])
  then show ?thesis using C_Class that [of 7] by (simp add: read_constant_def)
qed (use assms in simp)

lemma reads_entries:
  "list_all const_ok es \<Longrightarrow> unat i + length es = unat cnt \<Longrightarrow> length es < n \<Longrightarrow>
   reads (pool_entries n cnt i pool) (concat (map put_const es)) (pool @ es)"
proof (induction es arbitrary: n i pool)
  case Nil
  then obtain m where "n = Suc m" by (cases n) auto
  with Nil show ?case using reads_return by (simp add: word_less_nat_alt)
next
  case (Cons e es)
  then obtain m where m: "n = Suc m" by (cases n) auto
  obtain tag body where t: "put_const e = tag # body" "tag \<noteq> 5" "tag \<noteq> 6" "reads (read_constant tag i) body e"
    using reads_constant [of e] Cons.prems(1) by (metis list.pred_inject(2))
  have lt: "i < cnt" using Cons.prems(2) by (simp add: word_less_nat_alt)
  have "unat (i + 1) = Suc (unat i)"
    using Cons.prems(2) unsigned_less [of cnt, where 'a = nat] by (simp add: unat_word_ariths)
  then have "reads (pool_entries m cnt (i + 1) (pool @ [e])) (concat (map put_const es)) ((pool @ [e]) @ es)"
    using Cons m by (intro Cons.IH) auto
  then have "reads (pool_entries n cnt i pool) ([tag] @ body @ concat (map put_const es)) (pool @ e # es)"
    unfolding m pool_entries.simps if_P [OF lt] using t
    by (intro reads_bind [OF reads_u8] reads_bind [OF t(4)]) (simp add: Let_def)
  then show ?case using t by simp
qed

lemma reads_pool:
  assumes "list_all const_ok es" "unat (cnt :: u16) = length es + 1"
  shows "reads parse_constant_pool (put_be 2 cnt @ concat (map put_const es)) (C_Other # es)"
proof -
  have one: "const_ok e \<Longrightarrow> 1 \<le> length (put_const e)" for e by (cases e) auto
  have "list_all const_ok es \<Longrightarrow> length es \<le> length (concat (map put_const es))" for es
  proof (induction es)
    case (Cons e es) then show ?case using one [of e] by simp
  qed simp
  from this [OF assms(1)] have "reads (pool_entries (length (pre @ (put_be 2 cnt @ concat (map put_const es)) @ tail) + 1) cnt 1 [C_Other])
      (concat (map put_const es)) ([C_Other] @ es)" for pre tail
    using assms by (intro reads_entries) auto
  note entries = this
  define E where "E = concat (map put_const es)"
  show ?thesis unfolding reads_def
  proof (intro allI)
    fix pre tail
    define d where "d = pre @ (put_be 2 cnt @ E) @ tail"
    have u: "c_u16 \<lparr>cur_data = d, cur_at = length pre\<rparr> = Inr (cnt, \<lparr>cur_data = d, cur_at = length pre + 2\<rparr>)"
      using reads_u16 [of cnt, unfolded reads_def, rule_format, of pre "E @ tail"] by (simp add: d_def)
    have "pool_entries (length d + 1) cnt 1 [C_Other] \<lparr>cur_data = d, cur_at = length pre + 2\<rparr>
        = Inr (C_Other # es, \<lparr>cur_data = d, cur_at = length pre + 2 + length E\<rparr>)"
      using entries [of pre tail, unfolded reads_def, rule_format, of "pre @ put_be 2 cnt" tail] by (simp add: d_def E_def)
    with u have "parse_constant_pool \<lparr>cur_data = d, cur_at = length pre\<rparr>
        = Inr (C_Other # es, \<lparr>cur_data = d, cur_at = length pre + 2 + length E\<rparr>)"
      by (simp add: parse_constant_pool_def c_bind_def [of c_u16] del: pool_entries.simps)
    then show "parse_constant_pool \<lparr>cur_data = pre @ (put_be 2 cnt @ concat (map put_const es)) @ tail, cur_at = length pre\<rparr>
        = Inr (C_Other # es, \<lparr>cur_data = pre @ (put_be 2 cnt @ concat (map put_const es)) @ tail,
            cur_at = length pre + length (put_be 2 cnt @ concat (map put_const es))\<rparr>)"
      by (simp add: d_def E_def add.assoc)
  qed
qed

subsection \<open>What the assembler emits\<close>

lemma u16_of_Some: "u16_of n = Some w \<Longrightarrow> w = word_of_nat n \<and> unat w = n \<and> n < 2 ^ 16"
  by (auto simp: u16_of_def unat_of_nat split: if_splits)

lemma u32_of_Some: "u32_of n = Some w \<Longrightarrow> w = word_of_nat n \<and> unat w = n \<and> n < 2 ^ 32"
  by (auto simp: u32_of_def unat_of_nat split: if_splits)

lemma u16_of_unat: "u16_of n = Some w \<Longrightarrow> unat w = n" and u32_of_unat: "u32_of n = Some v \<Longrightarrow> unat v = n"
  using u16_of_Some u32_of_Some by blast+

lemma build_utf8_Some: "build_utf8 s = Some x \<Longrightarrow> x = put_const (C_Utf8 s) \<and> length s < 2 ^ 16"
  by (auto simp: build_utf8_def dest: u16_of_Some)

lemma all_some_iff: "all_some xs = Some ys \<longleftrightarrow> xs = map Some ys"
  by (induction xs arbitrary: ys) (auto simp: bind_eq_Some_conv)

text \<open>The texts of a stated class are Rust strings.\<close>

definition texts_valid :: "string \<Rightarrow> build_method list \<Rightarrow> bool" where
  "texts_valid this_class ms \<longleftrightarrow> utf8_text (string_bytes this_class)
     \<and> list_all (\<lambda>m. utf8_text (string_bytes (bm_name m)) \<and> utf8_text (string_bytes (bm_descriptor m))) ms"

definition name_consts :: "build_method list \<Rightarrow> constant_entry list" where
  "name_consts ms = concat (map (\<lambda>m. [C_Utf8 (bm_name m), C_Utf8 (bm_descriptor m)]) ms)"

definition stated_pool :: "string \<Rightarrow> build_method list \<Rightarrow> constant_entry list" where
  "stated_pool this_class ms =
     [C_Utf8 (slashed this_class), C_Class 1, C_Utf8 ''java/lang/Object'', C_Class 3, C_Utf8 ''Code'', C_Utf8 ''LineNumberTable'']
       @ name_consts ms"

lemma length_name_consts [simp]: "length (name_consts ms) = 2 * length ms"
  by (induction ms) (auto simp: name_consts_def)

lemma nth_name_consts:
  "j < length ms \<Longrightarrow> name_consts ms ! (2 * j) = C_Utf8 (bm_name (ms ! j)) \<and> name_consts ms ! Suc (2 * j) = C_Utf8 (bm_descriptor (ms ! j))"
proof (induction ms arbitrary: j)
  case (Cons m ms) then show ?case by (cases j) (auto simp: name_consts_def)
qed simp

lemma names_emitted:
  "all_some (concat (map (\<lambda>m. [build_utf8 (bm_name m), build_utf8 (bm_descriptor m)]) ms)) = Some names \<Longrightarrow>
   concat names = concat (map put_const (name_consts ms))
     \<and> list_all (\<lambda>m. length (bm_name m) < 2 ^ 16 \<and> length (bm_descriptor m) < 2 ^ 16) ms"
proof (induction ms arbitrary: names)
  case (Cons m ms)
  then obtain a b rest where "build_utf8 (bm_name m) = Some a" "build_utf8 (bm_descriptor m) = Some b"
    "all_some (concat (map (\<lambda>m. [build_utf8 (bm_name m), build_utf8 (bm_descriptor m)]) ms)) = Some rest" "names = a # b # rest"
    by (auto simp: bind_eq_Some_conv)
  with Cons.IH [OF this(3)] show ?case by (auto simp: name_consts_def dest!: build_utf8_Some)
qed (simp add: name_consts_def)

lemma ascii_swap_text:
  assumes g: "\<And>b :: u8. b < 0x80 \<Longrightarrow> g b < 0x80" "\<And>b. 0x80 \<le> b \<Longrightarrow> g b = b"
  shows "utf8_check p (map g bs) = utf8_check p bs"
proof (induction p bs rule: utf8_check.induct)
  case (2 p a bs)
  have range: "lo \<le> g b \<and> g b \<le> hi \<longleftrightarrow> lo \<le> b \<and> b \<le> hi" if "0x80 \<le> lo" for lo hi b
    using g [of b] that by (cases "b < 0x80") (auto simp: not_less intro: order_trans dest: leD order_less_le_trans)
  have cont: "utf8_cont (g b) = utf8_cont b" for b unfolding utf8_cont_def by (rule range) simp
  have second: "utf8_second3 (g a) (g b) = utf8_second3 a b" "utf8_second4 (g a) (g b) = utf8_second4 a b"
    if "0x80 \<le> a" for b
    unfolding utf8_second3_def utf8_second4_def g(2) [OF that] cont by (simp_all add: range)
  have tail: "utf8_tail n k q (map g xs) = utf8_tail n k q' xs" if "\<And>b. q (g b) = q' b" for n k q q' xs
    using that
  proof (induction n k q' xs arbitrary: q rule: utf8_tail.induct)
    case (3 n k p b bs) then show ?case using cont by simp
  qed auto
  have step: "utf8_step (g a) (map g bs) = utf8_step a bs"
  proof (cases "a < 0x80")
    case True
    then show ?thesis using g(1) [OF True] by (simp add: utf8_step_def utf8_width_def)
  next
    case False
    then have a: "0x80 \<le> a" by simp
    show ?thesis unfolding utf8_step_def g(2) [OF a] Let_def
      using second [OF a, unfolded g(2) [OF a]] cont by (auto intro!: tail)
  qed
  show ?case using 2 step by (cases "utf8_step a bs") (auto simp: drop_map)
qed simp

lemma slashed_text: "utf8_text (string_bytes s) \<Longrightarrow> utf8_text (string_bytes (slashed s))"
proof -
  define g :: "u8 \<Rightarrow> u8" where "g = (\<lambda>b. if b = char_byte CHR ''.'' then char_byte CHR ''/'' else b)"
  have inj: "char_byte c = char_byte d \<longleftrightarrow> c = d" for c d by (metis byte_char_byte)
  have "string_bytes (slashed s) = map g (string_bytes s)" by (auto simp: string_bytes_def slashed_def g_def inj)
  moreover have "char_byte CHR ''.'' < 0x80" "char_byte CHR ''/'' < 0x80" by (simp_all add: char_byte_def)
  then have "utf8_check 0 (map g (string_bytes s)) = utf8_check 0 (string_bytes s)"
    by (intro ascii_swap_text) (auto simp: g_def)
  ultimately show "utf8_text (string_bytes s) \<Longrightarrow> utf8_text (string_bytes (slashed s))" by (simp add: utf8_text_def)
qed

lemma dotted_slashed: "dotted (slashed s) = dotted s"
  by (simp add: dotted_def slashed_def)

lemma build_pool_Some:
  assumes "build_pool t ms = Some p" "texts_valid t ms"
  shows "p = concat (map put_const (stated_pool t ms)) \<and> list_all const_ok (stated_pool t ms)"
proof -
  from assms(1) obtain a b c d names where x: "build_utf8 (slashed t) = Some a" "build_utf8 ''java/lang/Object'' = Some b"
    "build_utf8 ''Code'' = Some c" "build_utf8 ''LineNumberTable'' = Some d"
    "all_some (concat (map (\<lambda>m. [build_utf8 (bm_name m), build_utf8 (bm_descriptor m)]) ms)) = Some names"
    "p = a @ [7, 0, 1] @ b @ [7, 0, 3] @ c @ d @ concat names"
    by (auto simp: build_pool_def bind_eq_Some_conv)
  have two: "put_be 2 (1 :: u16) = [0, 1]" "put_be 2 (3 :: u16) = [0, 3]" by (simp_all add: put_be_2)
  have p: "p = concat (map put_const (stated_pool t ms))"
    using x build_utf8_Some [OF x(1)] build_utf8_Some [OF x(2)] build_utf8_Some [OF x(3)] build_utf8_Some [OF x(4)]
      names_emitted [OF x(5)] by (simp add: stated_pool_def two)
  have fixed: "utf8_text (string_bytes ''java/lang/Object'')" "utf8_text (string_bytes ''Code'')" "utf8_text (string_bytes ''LineNumberTable'')"
    by code_simp+
  have "list_all const_ok (name_consts ms)"
    using names_emitted [OF x(5)] assms(2) by (auto simp: name_consts_def texts_valid_def list_all_iff)
  then have "list_all const_ok (stated_pool t ms)"
    using fixed slashed_text [of t] assms(2) build_utf8_Some [OF x(1)] by (simp add: stated_pool_def texts_valid_def)
  with p show ?thesis by simp
qed

text \<open>What the parser answers for a stated method.\<close>

definition stated_method :: "build_method \<Rightarrow> class_file_method" where
  "stated_method m =
     \<lparr>fm_access_flags = bm_access_flags m, fm_name = bm_name m, fm_descriptor = bm_descriptor m,
      fm_lines = (if bm_has_code m then map (\<lambda>(pc, line). (ucast pc, ucast line)) (bm_lines m) else []),
      fm_has_code = bm_has_code m, fm_has_line_table = (bm_has_code m \<and> bm_lines m \<noteq> []),
      fm_code = (if bm_has_code m then bm_code m else [])\<rparr>"

definition stated_class :: "string \<Rightarrow> build_method list \<Rightarrow> class_file" where
  "stated_class this_class ms =
     \<lparr>cf_this_class = dotted this_class, cf_access_flags = 0x21, cf_super_class = Some ''java.lang.Object'',
      cf_interfaces = [], cf_fields = [], cf_methods = map stated_method ms\<rparr>"

lemma reads_line_entry: "reads line_entry (put_be 2 (pc :: u16) @ put_be 2 (line :: u16)) (ucast pc, ucast line)"
  unfolding line_entry_def by (intro reads_bind [OF reads_u16] reads_then_return [OF reads_u16]) simp

lemma line_table_read_back:
  assumes "unat (n :: u16) = length ls"
  shows "read_line_number_table (put_be 2 n @ concat (map (\<lambda>(pc :: u16, line :: u16). put_be 2 pc @ put_be 2 line) ls))
    = Inr (map (\<lambda>(pc, line). (ucast pc, ucast line)) ls)"
  unfolding read_line_number_table_def
proof (intro reads_run reads_bind [OF reads_u16])
  show "reads (c_repeat (unat n) line_entry) (concat (map (\<lambda>(pc :: u16, line :: u16). put_be 2 pc @ put_be 2 line) ls))
      (map (\<lambda>(pc, line). (ucast pc, ucast line)) ls)"
    unfolding assms using reads_line_entry by (intro reads_repeat) auto
qed

lemma length_line_bytes [simp]: "length (concat (map (\<lambda>(pc :: u16, line :: u16). put_be 2 pc @ put_be 2 line) ls)) = 4 * length ls"
  by (induction ls) auto

lemma reads_code_attributes:
  assumes "build_line_table ls = Some table" "utf8 pool 6 = Inr ''LineNumberTable''"
  shows "\<exists>n x. table = put_be 2 (n :: u16) @ x \<and> reads (code_attributes (unat n) pool code) x
    \<lparr>ca_lines = map (\<lambda>(pc, line). (ucast pc, ucast line)) ls, ca_has_line_table = (ls \<noteq> []), ca_code = code\<rparr>"
proof (cases "ls = []")
  case True
  with assms(1) show ?thesis
    by (intro exI [of _ 0] exI [of _ "[]"]) (simp add: build_line_table_def reads_return)
next
  case False
  define lbytes where "lbytes = concat (map (\<lambda>(pc :: u16, line :: u16). put_be 2 pc @ put_be 2 line) ls)"
  from assms(1) False obtain len n16 where t: "u32_of (2 + 4 * length ls) = Some len" "u16_of (length ls) = Some n16"
    "table = put_be 2 (1 :: u16) @ put_be 2 (6 :: u16) @ put_be 4 len @ put_be 2 n16 @ lbytes"
    unfolding build_line_table_def lbytes_def by (auto simp: bind_eq_Some_conv)
  have "unat len = 2 + 4 * length ls" by (rule u32_of_unat [OF t(1)])
  then have "length (put_be 2 n16 @ lbytes) = unat len" by (simp add: lbytes_def)
  note len = this
  define f where "f = (\<lambda>lines. \<lparr>ca_lines = lines, ca_has_line_table = True, ca_code = code\<rparr>)"
  have tbl: "read_line_number_table (put_be 2 n16 @ lbytes) = Inr (map (\<lambda>(pc, line). (ucast pc, ucast line)) ls)"
    unfolding lbytes_def by (rule line_table_read_back [OF u16_of_unat [OF t(2)]])
  have "reads (c_bind (c_result (read_line_number_table (put_be 2 n16 @ lbytes))) (\<lambda>lines. c_return (f lines))) []
      (f (map (\<lambda>(pc, line). (ucast pc, ucast line)) ls))"
    unfolding tbl by (rule reads_then_return [OF reads_result]) simp
  then have "reads (c_bind (c_take (unat len)) (\<lambda>t. c_bind (c_result (read_line_number_table t)) (\<lambda>lines. c_return (f lines))))
      ((put_be 2 n16 @ lbytes) @ []) (f (map (\<lambda>(pc, line). (ucast pc, ucast line)) ls))"
    by (rule reads_bind [OF reads_take [OF len]])
  then have "reads (code_attributes 1 pool code) (put_be 2 (6 :: u16) @ put_be 4 len @ put_be 2 n16 @ lbytes)
      (f (map (\<lambda>(pc, line). (ucast pc, ucast line)) ls))"
    unfolding One_nat_def code_attributes.simps f_def
    by (intro reads_bind [OF reads_u16] reads_bind_pure [OF reads_result [of "''LineNumberTable''", folded assms(2)]] reads_bind [OF reads_u32]) simp
  then show ?thesis using t(3) False by (intro exI [of _ 1] exI [of _ "put_be 2 (6 :: u16) @ put_be 4 len @ put_be 2 n16 @ lbytes"]) (simp add: f_def)
qed

lemma code_read_back:
  assumes c: "build_code m = Some body" and pool: "utf8 pool 6 = Inr ''LineNumberTable''"
  shows "parse_code_body body pool = Inr \<lparr>ca_lines = map (\<lambda>(pc, line). (ucast pc, ucast line)) (bm_lines m),
    ca_has_line_table = (bm_lines m \<noteq> []), ca_code = bm_code m\<rparr>"
proof -
  from c obtain len table where t: "u32_of (length (bm_code m)) = Some len" "build_line_table (bm_lines m) = Some table"
    "body = put_be 2 (1 :: u16) @ put_be 2 (1 :: u16) @ put_be 4 len @ bm_code m @ put_be 2 (0 :: u16) @ table"
    by (auto simp: build_code_def bind_eq_Some_conv)
  have len: "length (bm_code m) = unat len" using u32_of_unat [OF t(1)] by (rule sym)
  obtain n x where n: "table = put_be 2 (n :: u16) @ x" "reads (code_attributes (unat n) pool (bm_code m)) x
    \<lparr>ca_lines = map (\<lambda>(pc, line). (ucast pc, ucast line)) (bm_lines m), ca_has_line_table = (bm_lines m \<noteq> []), ca_code = bm_code m\<rparr>"
    using reads_code_attributes [OF t(2) pool] by blast
  define a where "a = \<lparr>ca_lines = map (\<lambda>(pc, line). (ucast pc, ucast line)) (bm_lines m), ca_has_line_table = (bm_lines m \<noteq> []),
    ca_code = bm_code m\<rparr>"
  have skip: "reads (c_skip 4) (put_be 2 (1 :: u16) @ put_be 2 (1 :: u16)) ()" by (rule reads_skip) simp
  have none: "reads (c_skip (unat (0 :: u16) * 8)) [] ()" by (rule reads_skip) simp
  have "reads (c_bind c_u16 (\<lambda>attrs. code_attributes (unat attrs) pool (bm_code m))) (put_be 2 n @ x) a"
    using n(2) unfolding a_def by (rule reads_bind [OF reads_u16])
  then have "reads (c_bind (c_skip (unat (0 :: u16) * 8)) (\<lambda>_. c_bind c_u16 (\<lambda>attrs. code_attributes (unat attrs) pool (bm_code m)))) table a"
    unfolding n(1) by (rule reads_bind_pure [OF none])
  then have "reads (c_bind c_u16 (\<lambda>exceptions. c_bind (c_skip (unat exceptions * 8))
      (\<lambda>_. c_bind c_u16 (\<lambda>attrs. code_attributes (unat attrs) pool (bm_code m))))) (put_be 2 (0 :: u16) @ table) a"
    by (rule reads_bind [OF reads_u16])
  then have "reads (c_bind (c_take (unat len)) (\<lambda>code. c_bind c_u16 (\<lambda>exceptions. c_bind (c_skip (unat exceptions * 8))
      (\<lambda>_. c_bind c_u16 (\<lambda>attrs. code_attributes (unat attrs) pool code))))) (bm_code m @ put_be 2 (0 :: u16) @ table) a"
    by (rule reads_bind [OF reads_take [OF len]])
  then have "reads (c_bind (c_skip 4) (\<lambda>_. c_bind c_u32 (\<lambda>code_len. c_bind (c_take (unat code_len)) (\<lambda>code.
      c_bind c_u16 (\<lambda>exceptions. c_bind (c_skip (unat exceptions * 8)) (\<lambda>_. c_bind c_u16 (\<lambda>attrs. code_attributes (unat attrs) pool code)))))))
      ((put_be 2 (1 :: u16) @ put_be 2 (1 :: u16)) @ put_be 4 len @ bm_code m @ put_be 2 (0 :: u16) @ table) a"
    by (intro reads_bind [OF skip] reads_bind [OF reads_u32])
  then show ?thesis unfolding parse_code_body_def t(3) a_def by (simp add: reads_run)
qed

lemma reads_method:
  assumes e: "build_one_method (m, ni, di) = Some x"
    and pool: "utf8 pool ni = Inr (bm_name m)" "utf8 pool di = Inr (bm_descriptor m)" "utf8 pool 5 = Inr ''Code''"
      "utf8 pool 6 = Inr ''LineNumberTable''"
  shows "reads (parse_one_method pool) x (stated_method m)"
proof -
  define m0 where "m0 = \<lparr>fm_access_flags = bm_access_flags m, fm_name = bm_name m, fm_descriptor = bm_descriptor m, fm_lines = [],
    fm_has_code = False, fm_has_line_table = False, fm_code = []\<rparr>"
  have "\<exists>n y. x = put_be 2 (bm_access_flags m) @ put_be 2 ni @ put_be 2 di @ put_be 2 (n :: u16) @ y
    \<and> reads (method_attributes (unat n) pool m0) y (stated_method m)"
  proof (cases "bm_has_code m")
    case False
    then show ?thesis using e
      by (intro exI [of _ 0] exI [of _ "[]"]) (simp add: build_one_method_def Let_def m0_def stated_method_def reads_return)
  next
    case True
    then obtain body len where b: "build_code m = Some body" "u32_of (length body) = Some len"
      "x = put_be 2 (bm_access_flags m) @ put_be 2 ni @ put_be 2 di @ put_be 2 (1 :: u16) @ put_be 2 (5 :: u16) @ put_be 4 len @ body"
      using e by (auto simp: build_one_method_def Let_def bind_eq_Some_conv)
    have len: "length body = unat len" using u32_of_unat [OF b(2)] by (rule sym)
    define f where "f = (\<lambda>attr :: code_attribute. m0\<lparr>fm_has_code := True, fm_has_line_table := ca_has_line_table attr, fm_lines := ca_lines attr, fm_code := ca_code attr\<rparr>)"
    define attr where "attr = \<lparr>ca_lines = map (\<lambda>(pc :: u16, line :: u16). (ucast pc :: u64, ucast line :: u32)) (bm_lines m),
      ca_has_line_table = (bm_lines m \<noteq> []), ca_code = bm_code m\<rparr>"
    have body: "parse_code_body body pool = Inr attr" unfolding attr_def by (rule code_read_back [OF b(1) pool(4)])
    have s: "stated_method m = f attr" using True by (simp add: stated_method_def f_def attr_def m0_def)
    have "reads (c_bind (c_result (parse_code_body body pool)) (\<lambda>attr. c_return (f attr))) [] (f attr)"
      unfolding body by (rule reads_then_return [OF reads_result]) simp
    then have "reads (c_bind (c_take (unat len)) (\<lambda>body. c_bind (c_result (parse_code_body body pool)) (\<lambda>attr. c_return (f attr)))) (body @ []) (f attr)"
      by (rule reads_bind [OF reads_take [OF len]])
    then have "reads (method_attributes 1 pool m0) (put_be 2 (5 :: u16) @ put_be 4 len @ body) (f attr)"
      unfolding One_nat_def method_attributes.simps f_def
      by (intro reads_bind [OF reads_u16] reads_bind_pure [OF reads_result [of "''Code''", folded pool(3)]] reads_bind [OF reads_u32]) simp
    then show ?thesis using b(3) s
      by (intro exI [of _ 1] exI [of _ "put_be 2 (5 :: u16) @ put_be 4 len @ body"]) simp
  qed
  then obtain n y where n: "x = put_be 2 (bm_access_flags m) @ put_be 2 ni @ put_be 2 di @ put_be 2 (n :: u16) @ y"
    "reads (method_attributes (unat n) pool m0) y (stated_method m)" by blast
  show ?thesis unfolding parse_one_method_def n(1)
    by (intro reads_bind [OF reads_u16] reads_bind_pure [OF reads_result [of "bm_name m", folded pool(1)]]
        reads_bind_pure [OF reads_result [of "bm_descriptor m", folded pool(2)]]) (use n(2) m0_def in simp)
qed

lemma stated_pool_names:
  fixes ms :: "build_method list"
  assumes "j < length ms" "7 + 2 * length ms < 2 ^ 16"
  shows "utf8 (C_Other # stated_pool t ms) (word_of_nat (7 + 2 * j)) = Inr (bm_name (ms ! j))"
    "utf8 (C_Other # stated_pool t ms) (word_of_nat (8 + 2 * j)) = Inr (bm_descriptor (ms ! j))"
proof -
  have "unat (word_of_nat (7 + 2 * j) :: u16) = 7 + 2 * j" "unat (word_of_nat (8 + 2 * j) :: u16) = 8 + 2 * j"
    using assms by (simp_all add: unat_of_nat del: of_nat_add of_nat_mult)
  moreover have "(C_Other # stated_pool t ms) ! (7 + 2 * j) = name_consts ms ! (2 * j)"
    "(C_Other # stated_pool t ms) ! (8 + 2 * j) = name_consts ms ! Suc (2 * j)"
    by (simp_all add: stated_pool_def numeral_eq_Suc)
  moreover have "length (C_Other # stated_pool t ms) = 7 + 2 * length ms" by (simp add: stated_pool_def)
  ultimately show "utf8 (C_Other # stated_pool t ms) (word_of_nat (7 + 2 * j)) = Inr (bm_name (ms ! j))"
    "utf8 (C_Other # stated_pool t ms) (word_of_nat (8 + 2 * j)) = Inr (bm_descriptor (ms ! j))"
    using nth_name_consts [OF assms(1)] assms(1) unfolding utf8_def by (simp_all del: of_nat_add of_nat_mult)
qed

lemma stated_pool_fixed:
  "class_name (C_Other # stated_pool t ms) 2 = Inr (dotted t)"
  "class_name (C_Other # stated_pool t ms) 4 = Inr ''java.lang.Object''"
  "utf8 (C_Other # stated_pool t ms) 5 = Inr ''Code''" "utf8 (C_Other # stated_pool t ms) 6 = Inr ''LineNumberTable''"
  by (simp_all add: class_name_def utf8_def stated_pool_def dotted_slashed) (simp add: dotted_def)

lemma reads_methods:
  assumes b: "all_some (map build_one_method (zip ms (build_slots (length ms)))) = Some bodies"
    and n: "u16_of (length ms) = Some n" and l: "7 + 2 * length ms < 2 ^ 16" and p: "p = C_Other # stated_pool t ms"
  shows "reads (parse_methods p) (put_be 2 n @ concat bodies) (map stated_method ms)"
proof -
  define xs where "xs = zip ms (build_slots (length ms))"
  have len: "length xs = unat n" using u16_of_unat [OF n] by (simp add: xs_def build_slots_def)
  have one: "reads (parse_one_method p) (the (build_one_method x)) (stated_method (fst x))" if "x \<in> set xs" for x
  proof -
    from that obtain j where j: "j < length ms" "x = (ms ! j, word_of_nat (7 + 2 * j), word_of_nat (8 + 2 * j))"
      by (auto simp: xs_def set_zip build_slots_def)
    have "build_one_method x \<noteq> None" using b that unfolding all_some_iff xs_def [symmetric] by (metis list.set_map imageE imageI option.distinct(1))
    then obtain y where "build_one_method x = Some y" by blast
    with j show ?thesis using stated_pool_names [OF j(1) l, of t] stated_pool_fixed [of t ms]
      by (auto simp: p intro: reads_method)
  qed
  have "map the (map build_one_method xs) = map the (map Some bodies)" using b by (simp only: all_some_iff xs_def)
  then have "bodies = map (\<lambda>x. the (build_one_method x)) xs" by (simp add: comp_def)
  moreover have "map (\<lambda>x. stated_method (fst x)) xs = map stated_method ms"
    by (simp add: xs_def build_slots_def map_fst_zip flip: map_map [unfolded comp_def])
  moreover have "reads (c_repeat (length xs) (parse_one_method p)) (concat (map (\<lambda>x. the (build_one_method x)) xs))
      (map (\<lambda>x. stated_method (fst x)) xs)" by (rule reads_repeat) (rule one)
  ultimately have "reads (c_repeat (unat n) (parse_one_method p)) (concat bodies) (map stated_method ms)"
    using len by simp
  then show ?thesis unfolding parse_methods_def by (rule reads_bind [OF reads_u16])
qed

lemma reads_header:
  assumes p: "p = C_Other # stated_pool t ms"
  shows "reads (parse_header p) (put_be 2 (0x21 :: u16) @ put_be 2 (2 :: u16) @ put_be 2 (4 :: u16) @ put_be 2 (0 :: u16))
    \<lparr>ch_access_flags = 0x21, ch_this_class = dotted t, ch_super_class = Some ''java.lang.Object'', ch_interfaces = []\<rparr>"
proof -
  note cn = stated_pool_fixed(1,2) [of t ms, folded p]
  have super: "reads (if (4 :: u16) = 0 then c_return None else c_bind (c_result (class_name p 4)) (\<lambda>s. c_return (Some s))) []
      (Some ''java.lang.Object'')"
    unfolding cn by (simp del: c_repeat.simps) (rule reads_then_return [OF reads_result], simp)
  have none: "reads (c_repeat (unat (0 :: u16)) (c_bind c_u16 (\<lambda>i. c_result (class_name p i)))) [] []"
    by (simp add: reads_return)
  define h where "h = (\<lambda>ifs. \<lparr>ch_access_flags = 0x21, ch_this_class = dotted t, ch_super_class = Some ''java.lang.Object'',
    ch_interfaces = ifs\<rparr>)"
  have "reads (c_bind (c_repeat (unat (0 :: u16)) (c_bind c_u16 (\<lambda>i. c_result (class_name p i)))) (\<lambda>ifs. c_return (h ifs))) [] (h [])"
    by (rule reads_then_return [OF none]) simp
  then have "reads (c_bind c_u16 (\<lambda>n. c_bind (c_repeat (unat n) (c_bind c_u16 (\<lambda>i. c_result (class_name p i)))) (\<lambda>ifs. c_return (h ifs))))
      (put_be 2 (0 :: u16) @ []) (h [])"
    by (rule reads_bind [OF reads_u16])
  then have last: "reads (c_bind c_u16 (\<lambda>n. c_bind (c_repeat (unat n) (c_bind c_u16 (\<lambda>i. c_result (class_name p i)))) (\<lambda>ifs. c_return (h ifs))))
      (put_be 2 (0 :: u16)) (h [])" by simp
  show ?thesis unfolding parse_header_def
    by (intro reads_bind [OF reads_u16] reads_bind_pure [OF reads_result [of "dotted t", folded cn(1)]] reads_bind_pure [OF super])
      (rule last [unfolded h_def])
qed

lemma built_class_file_reads:
  assumes b: "build_class_file t ms = Some b" and v: "texts_valid t ms"
  shows "reads parse_cursor b (stated_class t ms)"
proof -
  from b obtain pl nxt n bodies where x: "build_pool t ms = Some pl" "u16_of (7 + 2 * length ms) = Some nxt" "u16_of (length ms) = Some n"
    "all_some (map build_one_method (zip ms (build_slots (length ms)))) = Some bodies"
    "b = [0xCA, 0xFE, 0xBA, 0xBE, 0, 0, 0, 65] @ put_be 2 nxt @ pl
         @ put_be 2 (0x21 :: u16) @ put_be 2 (2 :: u16) @ put_be 2 (4 :: u16) @ put_be 2 (0 :: u16) @ put_be 2 (0 :: u16)
         @ put_be 2 n @ concat bodies"
    by (auto simp: build_class_file_def bind_eq_Some_conv)
  define p where "p = C_Other # stated_pool t ms"
  note bp = build_pool_Some [OF x(1) v]
  have "unat nxt = length (stated_pool t ms) + 1" using u16_of_unat [OF x(2)] by (simp add: stated_pool_def)
  then have pool: "reads parse_constant_pool (put_be 2 nxt @ pl) p"
    using bp unfolding p_def by (metis reads_pool)
  have l: "7 + 2 * length ms < 2 ^ 16" using u16_of_Some [OF x(2)] by blast
  note ms = reads_methods [OF x(4) x(3) l p_def]
  have nofields: "reads (parse_fields p) (put_be 2 (0 :: u16) @ []) []"
    unfolding parse_fields_def by (rule reads_bind [OF reads_u16]) (simp add: reads_return)
  have magic: "[0xCA, 0xFE, 0xBA, 0xBE] = put_be 4 (0xCAFEBABE :: u32)" by (simp add: put_be_4 put_be_2)
  define h where "h = \<lparr>ch_access_flags = 0x21, ch_this_class = dotted t, ch_super_class = Some ''java.lang.Object'', ch_interfaces = []\<rparr>"
  define mk where "mk = (\<lambda>m. \<lparr>cf_this_class = ch_this_class h, cf_access_flags = ch_access_flags h, cf_super_class = ch_super_class h,
             cf_interfaces = ch_interfaces h, cf_fields = [], cf_methods = m\<rparr>)"
  have mk: "stated_class t ms = mk (map stated_method ms)" by (simp add: stated_class_def mk_def h_def)
  have "reads (c_bind (parse_methods p) (\<lambda>m. c_return (mk m))) (put_be 2 n @ concat bodies) (stated_class t ms)"
    by (rule reads_then_return [OF ms], rule mk)
  then have "reads (c_bind (parse_fields p) (\<lambda>fs. c_bind (parse_methods p) (\<lambda>m. c_return
        \<lparr>cf_this_class = ch_this_class h, cf_access_flags = ch_access_flags h, cf_super_class = ch_super_class h,
             cf_interfaces = ch_interfaces h, cf_fields = fs, cf_methods = m\<rparr>)))
      ((put_be 2 (0 :: u16) @ []) @ put_be 2 n @ concat bodies) (stated_class t ms)"
    unfolding mk_def by (rule reads_bind [OF nofields])
  note rest = this
  define body where "body = c_bind (c_skip 4) (\<lambda>_. c_bind parse_constant_pool (\<lambda>pool.
         c_bind (parse_header pool) (\<lambda>h. c_bind (parse_fields pool) (\<lambda>fs. c_bind (parse_methods pool) (\<lambda>ms.
           c_return \<lparr>cf_this_class = ch_this_class h, cf_access_flags = ch_access_flags h, cf_super_class = ch_super_class h,
             cf_interfaces = ch_interfaces h, cf_fields = fs, cf_methods = ms\<rparr>)))))"
  have "reads body ([0, 0, 0, 65] @ (put_be 2 nxt @ pl) @ (put_be 2 (0x21 :: u16) @ put_be 2 (2 :: u16) @ put_be 2 (4 :: u16) @ put_be 2 (0 :: u16))
      @ (put_be 2 (0 :: u16) @ []) @ put_be 2 n @ concat bodies) (stated_class t ms)"
    unfolding body_def by (rule reads_bind [OF reads_skip], simp, rule reads_bind [OF pool], rule reads_bind [OF reads_header [OF p_def, folded h_def]], rule rest)
  then have "reads parse_cursor (put_be 4 (0xCAFEBABE :: u32) @ [0, 0, 0, 65] @ (put_be 2 nxt @ pl)
      @ (put_be 2 (0x21 :: u16) @ put_be 2 (2 :: u16) @ put_be 2 (4 :: u16) @ put_be 2 (0 :: u16))
      @ (put_be 2 (0 :: u16) @ []) @ put_be 2 n @ concat bodies) (stated_class t ms)"
    unfolding parse_cursor_def body_def by (intro reads_bind [OF reads_u32]) simp
  then show ?thesis unfolding x(5) by (simp flip: magic)
qed

text \<open>C25: what the assembler emits is what the parser reads. For every stated class whose texts are strings and whose lengths
  fit their fields (the assembler answers at all), the parser answers exactly the class that was stated: its name
  dotted, the methods in order with their flags, names and descriptors, their bytecode and their line tables, a
  stripped method with code and no table, a bodyless method with neither.\<close>

theorem built_class_file_reads_back:
  assumes "build_class_file this_class ms = Some b" "texts_valid this_class ms"
  shows "parse b = Inr (stated_class this_class ms)"
  unfolding parse_def using reads_run [OF built_class_file_reads [OF assms]] .

section \<open>Witnesses\<close>

definition sample_methods :: "build_method list" where
  "sample_methods = [build_new ''f'' ''()I'' [(0, 41), (8, 42)], build_stripped ''g'' ''()V'', build_bodyless ''h'' ''()V'']"

lemma sample_texts: "utf8_text (string_bytes ''p.A'')" "utf8_text (string_bytes ''f'')" "utf8_text (string_bytes ''g'')"
  "utf8_text (string_bytes ''h'')" "utf8_text (string_bytes ''()I'')" "utf8_text (string_bytes ''()V'')"
  by code_simp+

lemma sample_builds: "build_class_file ''p.A'' sample_methods \<noteq> None" "texts_valid ''p.A'' sample_methods"
proof -
  note defs = sample_methods_def build_new_def build_stripped_def build_bodyless_def
  show "build_class_file ''p.A'' sample_methods \<noteq> None"
    by (simp add: defs build_class_file_def build_pool_def build_utf8_def u16_of_def u32_of_def build_slots_def build_one_method_def
        build_code_def build_line_table_def slashed_def Let_def upt_rec)
  show "texts_valid ''p.A'' sample_methods" by (simp add: texts_valid_def defs sample_texts)
qed

lemma built_class_file_reads_back_witness:
  "\<exists>b. build_class_file ''p.A'' sample_methods = Some b \<and> parse b = Inr (stated_class ''p.A'' sample_methods)"
  using built_class_file_reads_back [OF _ sample_builds(2)] sample_builds(1) by blast

lemma truncated_class_file_refused_witness:
  "\<exists>b n. n \<le> length b \<and> parse (take n b @ [1, 2, 3]) = Inr (stated_class ''p.A'' sample_methods) \<and> (\<forall>k<n. is_err (parse (take k b)))"
proof -
  obtain b where "build_class_file ''p.A'' sample_methods = Some b" using sample_builds(1) by blast
  then have "parse b = Inr (stated_class ''p.A'' sample_methods)"
    unfolding parse_def by (rule reads_run [OF built_class_file_reads [OF _ sample_builds(2)]])
  from truncated_class_file_refused [OF this] show ?thesis by blast
qed

text \<open>The index of the walk wraps: a long in slot 65534 of a pool that claims 65535 entries puts the walk back to entry 0.\<close>

lemma pool_index_wraps:
  assumes "length pre = at" "length payload = 8"
  shows "pool_entries (Suc n) 0xFFFF 0xFFFE pool \<lparr>cur_data = pre @ 5 # payload @ tail, cur_at = at\<rparr>
    = pool_entries n 0xFFFF 0 (pool @ [C_Other, C_Other]) \<lparr>cur_data = pre @ 5 # payload @ tail, cur_at = at + 9\<rparr>"
proof -
  have "c_u8 \<lparr>cur_data = pre @ 5 # payload @ tail, cur_at = at\<rparr> = Inr (5, \<lparr>cur_data = pre @ 5 # payload @ tail, cur_at = Suc at\<rparr>)"
    using assms by (auto simp: c_u8_def c_bind_def c_take_def c_return_def)
  moreover have "read_constant 5 0xFFFE \<lparr>cur_data = pre @ 5 # payload @ tail, cur_at = Suc at\<rparr>
      = Inr (C_Other, \<lparr>cur_data = pre @ 5 # payload @ tail, cur_at = at + 9\<rparr>)"
    using assms by (simp add: read_constant_def SKIP_def c_skip_def c_bind_def c_take_def c_return_def)
  moreover have "pool_entries n 0xFFFF 65536 q c = pool_entries n 0xFFFF 0 q c" for q c
    by (rule arg_cong [where f = "\<lambda>i. pool_entries n 0xFFFF i q c"]) simp
  ultimately show ?thesis by (simp add: c_bind_def Let_def)
qed

end
