(* ===== verification/Reads.thy ===== *)
theory Reads
  imports Vm RefType Method ObjectRef
begin

text \<open>
  \<open>mcp-server/src/reads.rs\<close>: where the class and member data of a reply comes from.  A source of reads is the live
  connection or a debuggee stated as data; every read is one command on the wire or one charge on the tally of the
  stated debuggee, which answers out of what it states.
\<close>

section \<open>A stated debuggee\<close>

record stated_class =
  sc_signature :: string
  sc_type_id :: u64
  sc_methods :: "method_info list"
  sc_fields :: "field_info list"
  sc_superclass :: "u64 option"
  sc_class_loader :: "u64 option"
  sc_source_file :: "string option"
  sc_line_tables :: "(u64 \<times> line_table_entry list) list"
  sc_bytecodes :: "(u64 \<times> bytes) list"
  sc_modifiers :: u32
  sc_interfaces :: "u64 list"
  sc_tag :: u8

definition stated_class_new :: "string \<Rightarrow> u64 \<Rightarrow> stated_class" where
  "stated_class_new sig i =
     \<lparr>sc_signature = sig, sc_type_id = i, sc_methods = [], sc_fields = [], sc_superclass = None, sc_class_loader = None,
      sc_source_file = None, sc_line_tables = [], sc_bytecodes = [], sc_modifiers = 0, sc_interfaces = [], sc_tag = 1\<rparr>"

definition with_methods :: "method_info list \<Rightarrow> stated_class \<Rightarrow> stated_class" where
  "with_methods ms c = c\<lparr>sc_methods := ms\<rparr>"

definition with_fields :: "field_info list \<Rightarrow> stated_class \<Rightarrow> stated_class" where
  "with_fields fs c = c\<lparr>sc_fields := fs\<rparr>"

definition with_superclass :: "u64 \<Rightarrow> stated_class \<Rightarrow> stated_class" where
  "with_superclass i c = c\<lparr>sc_superclass := Some i\<rparr>"

definition with_interface :: "u64 \<Rightarrow> stated_class \<Rightarrow> stated_class" where
  "with_interface i c = c\<lparr>sc_interfaces := sc_interfaces c @ [i]\<rparr>"

definition with_modifiers :: "u32 \<Rightarrow> stated_class \<Rightarrow> stated_class" where
  "with_modifiers m c = c\<lparr>sc_modifiers := m\<rparr>"

definition with_bytecode :: "u64 \<Rightarrow> bytes \<Rightarrow> stated_class \<Rightarrow> stated_class" where
  "with_bytecode m b c = c\<lparr>sc_bytecodes := sc_bytecodes c @ [(m, b)]\<rparr>"

definition with_line_table :: "u64 \<Rightarrow> (u64 \<times> u32) list \<Rightarrow> stated_class \<Rightarrow> stated_class" where
  "with_line_table m ls c =
     c\<lparr>sc_line_tables := sc_line_tables c
        @ [(m, map (\<lambda>(ix, line). \<lparr>lte_line_code_index = ix, lte_line_number = line\<rparr>) ls)]\<rparr>"

record stated_object =
  so_object_id :: u64
  so_type_id :: u64
  so_fields :: "(u64 \<times> value_data) list"

definition stated_object_new :: "u64 \<Rightarrow> u64 \<Rightarrow> stated_object" where
  "stated_object_new i t = \<lparr>so_object_id = i, so_type_id = t, so_fields = []\<rparr>"

definition with_field :: "u64 \<Rightarrow> value_data \<Rightarrow> stated_object \<Rightarrow> stated_object" where
  "with_field f v s = s\<lparr>so_fields := so_fields s @ [(f, v)]\<rparr>"

fun tag_of :: "value_data \<Rightarrow> u8" where
  "tag_of (VByte _) = 66" | "tag_of (VChar _) = 67" | "tag_of (VFloat _) = 70" | "tag_of (VDouble _) = 68"
| "tag_of (VInt _) = 73" | "tag_of (VLong _) = 74" | "tag_of (VShort _) = 83" | "tag_of (VBoolean _) = 90"
| "tag_of (VObject _) = 76" | "tag_of VVoid = 86"

record stated_debuggee =
  sd_classes :: "stated_class list"
  sd_capabilities :: vm_capabilities
  sd_objects :: "stated_object list"
  sd_reads :: u64

definition stated_debuggee_new :: "stated_class list \<Rightarrow> stated_debuggee" where
  "stated_debuggee_new cs =
     \<lparr>sd_classes = cs,
      sd_capabilities = \<lparr>can_watch_field_modification = True, can_watch_field_access = True, can_get_bytecodes = True,
        can_get_synthetic_attribute = True, can_get_owned_monitor_info = True, can_get_current_contended_monitor = True,
        can_get_monitor_info = True\<rparr>,
      sd_objects = [], sd_reads = 0\<rparr>"

definition with_objects :: "stated_object list \<Rightarrow> stated_debuggee \<Rightarrow> stated_debuggee" where
  "with_objects os vm = vm\<lparr>sd_objects := os\<rparr>"

definition without_bytecode_capability :: "stated_debuggee \<Rightarrow> stated_debuggee" where
  "without_bytecode_capability vm = vm\<lparr>sd_capabilities := (sd_capabilities vm)\<lparr>can_get_bytecodes := False\<rparr>\<rparr>"

definition charge :: "stated_debuggee \<Rightarrow> stated_debuggee" where "charge vm = vm\<lparr>sd_reads := sd_reads vm + 1\<rparr>"

definition by_id :: "stated_debuggee \<Rightarrow> u64 \<Rightarrow> stated_class option" where
  "by_id vm i = find (\<lambda>c. sc_type_id c = i) (sd_classes vm)"

section \<open>The two sources\<close>

datatype reads_source = Live conn | Stated stated_debuggee

type_synonym 'a reads_op = "reads_source \<Rightarrow> 'a jdwp_result \<times> reads_source"

text \<open>One arm per source: the connection's operation, or a charge and an answer out of the data.\<close>

definition either_source :: "'a conn_op \<Rightarrow> (stated_debuggee \<Rightarrow> 'a) \<Rightarrow> 'a reads_op" where
  "either_source live stated r =
     (case r of
        Live c \<Rightarrow> (case live c of (x, c1) \<Rightarrow> (x, Live c1))
      | Stated vm \<Rightarrow> (Inr (stated vm), Stated (charge vm)))"

definition reads_classes_by_signature :: "debuggee \<Rightarrow> string \<Rightarrow> class_info list reads_op" where
  "reads_classes_by_signature d sig =
     either_source (classes_by_signature d sig)
       (\<lambda>vm. map (\<lambda>c. \<lparr>ci_ref_type_tag = sc_tag c, ci_type_id = sc_type_id c, ci_signature = sc_signature c, ci_status = 7\<rparr>)
          (filter (\<lambda>c. sc_signature c = sig) (sd_classes vm)))"

text \<open>What is stated of a type, or the default of an unstated one.\<close>

definition stated_or :: "'a \<Rightarrow> (stated_class \<Rightarrow> 'a) \<Rightarrow> u64 \<Rightarrow> stated_debuggee \<Rightarrow> 'a" where
  "stated_or dflt f i vm = (case by_id vm i of None \<Rightarrow> dflt | Some c \<Rightarrow> f c)"

definition reads_get_signature :: "debuggee \<Rightarrow> u64 \<Rightarrow> string reads_op" where
  "reads_get_signature d i = either_source (get_signature d i) (stated_or [] sc_signature i)"

definition reads_get_methods :: "debuggee \<Rightarrow> u64 \<Rightarrow> method_info list reads_op" where
  "reads_get_methods d i = either_source (get_methods d i) (stated_or [] sc_methods i)"

definition reads_get_fields :: "debuggee \<Rightarrow> u64 \<Rightarrow> field_info list reads_op" where
  "reads_get_fields d i = either_source (get_fields d i) (stated_or [] sc_fields i)"

definition reads_get_superclass :: "debuggee \<Rightarrow> u64 \<Rightarrow> u64 option reads_op" where
  "reads_get_superclass d i = either_source (get_superclass d i) (stated_or None sc_superclass i)"

definition reads_get_class_loader :: "debuggee \<Rightarrow> u64 \<Rightarrow> u64 option reads_op" where
  "reads_get_class_loader d i = either_source (get_class_loader d i) (stated_or None sc_class_loader i)"

definition stated_object_of :: "u64 \<Rightarrow> stated_debuggee \<Rightarrow> stated_object option" where
  "stated_object_of i vm = find (\<lambda>s. so_object_id s = i) (sd_objects vm)"

definition reads_get_object_reference_type :: "debuggee \<Rightarrow> u64 \<Rightarrow> u64 reads_op" where
  "reads_get_object_reference_type d i =
     either_source (get_object_reference_type d i)
       (\<lambda>vm. case stated_object_of i vm of None \<Rightarrow> i | Some s \<Rightarrow> so_type_id s)"

text \<open>\<open>iter().find(|(m, _)| *m == id).map(...).unwrap_or_default()\<close>\<close>

definition listed :: "u64 \<Rightarrow> (u64 \<times> 'a list) list \<Rightarrow> 'a list" where
  "listed m ps = (case map_of ps m of None \<Rightarrow> [] | Some x \<Rightarrow> x)"

definition stated_line_table :: "u64 \<Rightarrow> u64 \<Rightarrow> stated_debuggee \<Rightarrow> line_table" where
  "stated_line_table i m vm =
     (let ls = stated_or [] (\<lambda>c. listed m (sc_line_tables c)) i vm in
      \<lparr>lt_start = (if ls = [] then 0 else lte_line_code_index (hd ls)),
       lt_end = (if ls = [] then 0 else lte_line_code_index (last ls)), lt_lines = ls\<rparr>)"

definition reads_get_line_table :: "debuggee \<Rightarrow> u64 \<Rightarrow> u64 \<Rightarrow> line_table reads_op" where
  "reads_get_line_table d i m = either_source (get_line_table d i m) (stated_line_table i m)"

definition reads_get_bytecodes :: "debuggee \<Rightarrow> u64 \<Rightarrow> u64 \<Rightarrow> bytes reads_op" where
  "reads_get_bytecodes d i m = either_source (get_bytecodes d i m) (stated_or [] (\<lambda>c. listed m (sc_bytecodes c)) i)"

definition reads_get_modifiers :: "debuggee \<Rightarrow> u64 \<Rightarrow> u32 reads_op" where
  "reads_get_modifiers d i = either_source (get_modifiers d i) (stated_or 0 sc_modifiers i)"

definition reads_get_interfaces :: "debuggee \<Rightarrow> u64 \<Rightarrow> u64 list reads_op" where
  "reads_get_interfaces d i = either_source (get_interfaces d i) (stated_or [] sc_interfaces i)"

definition reads_capabilities :: "debuggee \<Rightarrow> vm_capabilities reads_op" where
  "reads_capabilities d = either_source (capabilities d) sd_capabilities"

definition reads_get_source_file :: "debuggee \<Rightarrow> u64 \<Rightarrow> string reads_op" where
  "reads_get_source_file d i =
     either_source (get_source_file d i) (stated_or [] (\<lambda>c. case sc_source_file c of None \<Rightarrow> [] | Some f \<Rightarrow> f) i)"

definition stated_values :: "u64 \<Rightarrow> u64 list \<Rightarrow> stated_debuggee \<Rightarrow> tagged_value list" where
  "stated_values obj fids vm =
     (case stated_object_of obj vm of
        None \<Rightarrow> []
      | Some s \<Rightarrow> List.map_filter (\<lambda>f. map_option (\<lambda>v. \<lparr>val_tag = tag_of v, val_data = v\<rparr>) (map_of (so_fields s) f)) fids)"

definition reads_get_object_values :: "debuggee \<Rightarrow> u64 \<Rightarrow> u64 list \<Rightarrow> tagged_value list reads_op" where
  "reads_get_object_values d obj fids = either_source (get_object_values d obj fids) (stated_values obj fids)"

text \<open>\<open>u32::try_from(reads).unwrap_or(u32::MAX)\<close>\<close>

definition reads_packets_sent :: "reads_source \<Rightarrow> u32" where
  "reads_packets_sent r =
     (case r of Live c \<Rightarrow> packets_sent c
      | Stated vm \<Rightarrow> if unat (sd_reads vm) < 2 ^ 32 then ucast (sd_reads vm) else 0xFFFFFFFF)"

section \<open>The interface walk\<close>

text \<open>
  The walk over what is stated.  The \<open>Vec\<close> is a stack kept with its end first.  It ends because every turn marks one
  more stated type or shortens the stack.
\<close>

lemma by_id_Some: "by_id vm i = Some c \<Longrightarrow> c \<in> set (sd_classes vm) \<and> sc_type_id c = i"
  by (auto simp: by_id_def find_Some_iff)

definition unmarked :: "stated_debuggee \<Rightarrow> u64 list \<Rightarrow> nat" where
  "unmarked vm seen = card (sc_type_id ` set (sd_classes vm) - set seen)"

lemma unmarked_decreases: "by_id vm i = Some c \<Longrightarrow> i \<notin> set seen \<Longrightarrow> unmarked vm (i # seen) < unmarked vm seen"
  unfolding unmarked_def by (rule psubset_card_mono) (auto dest!: by_id_Some)

lemma unmarked_grows_not: "unmarked vm (i # seen) \<le> unmarked vm seen"
  unfolding unmarked_def by (rule card_mono) auto

function stated_walk :: "stated_debuggee \<Rightarrow> string \<Rightarrow> u64 list \<Rightarrow> u64 list \<Rightarrow> bool" where
  "stated_walk vm wanted seen [] = False"
| "stated_walk vm wanted seen (i # queue) =
     (if i \<in> set seen then stated_walk vm wanted seen queue
      else (case by_id vm i of
          None \<Rightarrow> stated_walk vm wanted (i # seen) queue
        | Some c \<Rightarrow>
            if sc_signature c = wanted then True
            else stated_walk vm wanted (i # seen)
                   ((case sc_superclass c of None \<Rightarrow> [] | Some p \<Rightarrow> [p]) @ rev (sc_interfaces c) @ queue)))"
  by pat_completeness auto
termination
proof (relation "measures [\<lambda>(vm, _, seen, _). unmarked vm seen, \<lambda>(_, _, _, queue). length queue]", goal_cases)
  case (3 vm wanted seen i queue)
  then show ?case using unmarked_grows_not [of vm i seen] by auto
next
  case (4 vm wanted seen i queue c)
  then show ?case using unmarked_decreases [of vm i c seen] by auto
qed auto

definition reads_implements_interface :: "debuggee \<Rightarrow> u64 \<Rightarrow> string \<Rightarrow> bool reads_op" where
  "reads_implements_interface d i wanted =
     either_source (implements_interface d i wanted) (\<lambda>vm. stated_walk vm wanted [] [i])"

text \<open>The types reachable over declared interfaces and superclasses.\<close>

definition declares :: "stated_debuggee \<Rightarrow> (u64 \<times> u64) set" where
  "declares vm = {(i, j). \<exists>c. by_id vm i = Some c \<and> (j \<in> set (sc_interfaces c) \<or> sc_superclass c = Some j)}"

definition is_wanted :: "stated_debuggee \<Rightarrow> string \<Rightarrow> u64 \<Rightarrow> bool" where
  "is_wanted vm wanted i \<longleftrightarrow> (\<exists>c. by_id vm i = Some c \<and> sc_signature c = wanted)"

lemma stated_walk_sound:
  "stated_walk vm wanted seen queue \<Longrightarrow> \<exists>i\<in>set queue. \<exists>j. (i, j) \<in> (declares vm)\<^sup>* \<and> is_wanted vm wanted j"
proof (induction vm wanted seen queue rule: stated_walk.induct)
  case (2 vm wanted seen i queue)
  show ?case
  proof (cases "i \<in> set seen")
    case True with 2 show ?thesis by auto
  next
    case False
    show ?thesis
    proof (cases "by_id vm i")
      case None with 2 False show ?thesis by auto
    next
      case (Some c)
      show ?thesis
      proof (cases "sc_signature c = wanted")
        case True with Some show ?thesis by (auto simp: is_wanted_def)
      next
        case no: False
        from 2(3) [OF False Some no] 2(4) False Some no obtain k j
          where k: "k \<in> set ((case sc_superclass c of None \<Rightarrow> [] | Some p \<Rightarrow> [p]) @ rev (sc_interfaces c) @ queue)"
            "(k, j) \<in> (declares vm)\<^sup>*" "is_wanted vm wanted j" by auto
        then consider "k \<in> set queue" | "(i, k) \<in> declares vm"
          using Some by (auto simp: declares_def split: option.splits)
        then show ?thesis using k(2,3) by cases (auto intro: converse_rtrancl_into_rtrancl)
      qed
    qed
  qed
qed simp

text \<open>A walk that answers no has marked everything reachable and wanted none of it.\<close>

definition closed_but :: "stated_debuggee \<Rightarrow> string \<Rightarrow> u64 list \<Rightarrow> u64 list \<Rightarrow> bool" where
  "closed_but vm wanted seen queue \<longleftrightarrow>
     (\<forall>i\<in>set seen. \<not> is_wanted vm wanted i \<and> (\<forall>j. (i, j) \<in> declares vm \<longrightarrow> j \<in> set seen \<union> set queue))"

lemma stated_walk_complete:
  "\<not> stated_walk vm wanted seen queue \<Longrightarrow> closed_but vm wanted seen queue \<Longrightarrow>
   \<exists>marked. set seen \<union> set queue \<subseteq> set marked \<and> closed_but vm wanted marked []"
proof (induction vm wanted seen queue rule: stated_walk.induct)
  case (1 vm wanted seen) then show ?case by auto
next
  case (2 vm wanted seen i queue)
  show ?case
  proof (cases "i \<in> set seen")
    case True
    with 2(4,5) have "\<not> stated_walk vm wanted seen queue" "closed_but vm wanted seen queue" by (auto simp: closed_but_def)
    from 2(1) [OF True this] True show ?thesis by auto
  next
    case False
    show ?thesis
    proof (cases "by_id vm i")
      case None
      with 2(4,5) False have "\<not> stated_walk vm wanted (i # seen) queue" "closed_but vm wanted (i # seen) queue"
        by (auto simp: closed_but_def is_wanted_def declares_def)
      from 2(2) [OF False None this] show ?thesis by auto
    next
      case (Some c)
      with 2(4) False have no: "sc_signature c \<noteq> wanted" by auto
      define q where "q = (case sc_superclass c of None \<Rightarrow> [] | Some p \<Rightarrow> [p]) @ rev (sc_interfaces c) @ queue"
      have "\<not> stated_walk vm wanted (i # seen) q" using 2(4) False Some no by (simp add: q_def)
      moreover have "closed_but vm wanted (i # seen) q"
        using 2(5) Some no unfolding closed_but_def q_def is_wanted_def declares_def by (auto split: option.splits)
      ultimately obtain marked where "set (i # seen) \<union> set q \<subseteq> set marked" "closed_but vm wanted marked []"
        using 2(3) [OF False Some no] unfolding q_def by blast
      then show ?thesis by (auto simp: q_def)
    qed
  qed
qed

lemma stated_walk_iff: "stated_walk vm wanted [] [i] \<longleftrightarrow> (\<exists>j. (i, j) \<in> (declares vm)\<^sup>* \<and> is_wanted vm wanted j)"
proof
  assume "stated_walk vm wanted [] [i]"
  from stated_walk_sound [OF this] show "\<exists>j. (i, j) \<in> (declares vm)\<^sup>* \<and> is_wanted vm wanted j" by simp
next
  assume r: "\<exists>j. (i, j) \<in> (declares vm)\<^sup>* \<and> is_wanted vm wanted j"
  show "stated_walk vm wanted [] [i]"
  proof (rule ccontr)
    assume "\<not> stated_walk vm wanted [] [i]"
    from stated_walk_complete [OF this] obtain m where m: "i \<in> set m" "closed_but vm wanted m []" by (auto simp: closed_but_def)
    have "(i, j) \<in> (declares vm)\<^sup>* \<Longrightarrow> j \<in> set m" for j
      by (induction rule: rtrancl_induct) (use m in \<open>auto simp: closed_but_def\<close>)
    with r m(2) show False by (auto simp: closed_but_def)
  qed
qed

text \<open>C24: on a stated debuggee the interface question is reachability. It is answered yes if and only if some type reachable
  over declared interfaces and superclasses is stated with the wanted signature, cycles and diamonds included, and the
  answer costs one read.\<close>

theorem stated_implements_is_reachability:
  "reads_implements_interface d i wanted (Stated vm)
     = (Inr (\<exists>j. (i, j) \<in> (declares vm)\<^sup>* \<and> is_wanted vm wanted j), Stated (charge vm))"
  by (simp add: reads_implements_interface_def either_source_def stated_walk_iff del: stated_walk.simps)

end
