(* ===== verification/ValueReads.thy ===== *)
theory ValueReads
  imports Reads
begin

text \<open>
  \<open>mcp-server/src/value_reads.rs\<close>: the reads of a set of values a caller has committed to rendering, issued in waves
  ahead of the render.  After the operations: against a debuggee whose answers do not depend on what was asked before,
  a committed pass answers what one read at a time answers and never sends more.
\<close>

section \<open>The operations\<close>

datatype first_read = StringContents u64 | ReferenceType u64

record value_reads =
  vr_strings :: "u64 \<rightharpoonup> string option"
  vr_types :: "u64 \<rightharpoonup> u64 option"
  vr_boxed :: "u64 \<rightharpoonup> tagged_value option"

definition value_reads_none :: value_reads where
  "value_reads_none = \<lparr>vr_strings = Map.empty, vr_types = Map.empty, vr_boxed = Map.empty\<rparr>"

definition first_read_of :: "tagged_value \<Rightarrow> first_read option" where
  "first_read_of v =
     (case val_data v of
        VObject i \<Rightarrow> if i = 0 then None else if val_tag v = TAG_STRING then Some (StringContents i) else Some (ReferenceType i)
      | _ \<Rightarrow> None)"

text \<open>The ids to ask for: \<open>seen\<close>, the strings and the objects, in the order they were met.\<close>

definition gather_step :: "value_reads \<Rightarrow> tagged_value \<Rightarrow> u64 list \<times> u64 list \<times> u64 list \<Rightarrow> u64 list \<times> u64 list \<times> u64 list" where
  "gather_step r v = (\<lambda>(seen, strings, objects).
     case first_read_of v of
       Some (StringContents i) \<Rightarrow>
         if vr_strings r i = None \<and> i \<notin> set seen then (i # seen, strings @ [i], objects) else (seen, strings, objects)
     | Some (ReferenceType i) \<Rightarrow>
         if vr_types r i = None \<and> i \<notin> set seen then (i # seen, strings, objects @ [i]) else (seen, strings, objects)
     | None \<Rightarrow> (seen, strings, objects))"

definition gather :: "value_reads \<Rightarrow> tagged_value list \<Rightarrow> u64 list \<times> u64 list" where
  "gather r vs = snd (fold (gather_step r) vs ([], [], []))"

definition ok :: "'a jdwp_result \<Rightarrow> 'a option" where "ok x = (case x of Inl _ \<Rightarrow> None | Inr a \<Rightarrow> Some a)"

definition record_all :: "u64 list \<Rightarrow> 'a option list \<Rightarrow> (u64 \<rightharpoonup> 'a option) \<Rightarrow> (u64 \<rightharpoonup> 'a option)" where
  "record_all ids outs m = fold (\<lambda>(i, x) m. m(i \<mapsto> x)) (zip ids outs) m"

definition extend_committed :: "debuggee \<Rightarrow> value_reads \<Rightarrow> tagged_value list \<Rightarrow> conn \<Rightarrow> value_reads \<times> conn" where
  "extend_committed d r vs c =
     (let (strings, objects) = gather r vs;
          (r1, c1) = (if strings = [] then (r, c)
            else case read_string_values_independently d strings c of
                (got, c') \<Rightarrow> (r\<lparr>vr_strings := record_all strings (map ok got) (vr_strings r)\<rparr>, c'))
      in (if objects = [] then (r1, c1)
          else case read_reference_types_independently d objects c1 of
              (got, c') \<Rightarrow> (r1\<lparr>vr_types := record_all objects (map ok got) (vr_types r1)\<rparr>, c')))"

definition committed :: "debuggee \<Rightarrow> tagged_value list \<Rightarrow> conn \<Rightarrow> value_reads \<times> conn" where
  "committed d vs c = extend_committed d value_reads_none vs c"

definition committed_boxed :: "debuggee \<Rightarrow> value_reads \<Rightarrow> (u64 \<times> u64 list) list \<Rightarrow> conn \<Rightarrow> value_reads \<times> conn" where
  "committed_boxed d r reads c =
     (if reads = [] then (r, c)
      else case read_object_values_independently d reads c of
        (got, c') \<Rightarrow>
          (r\<lparr>vr_boxed := record_all (map fst reads)
               (map (\<lambda>x. case ok x of Some (v # _) \<Rightarrow> Some v | _ \<Rightarrow> None) got) (vr_boxed r)\<rparr>, c'))"

definition string_contents :: "debuggee \<Rightarrow> value_reads \<Rightarrow> u64 \<Rightarrow> conn \<Rightarrow> string option \<times> conn" where
  "string_contents d r i c =
     (case vr_strings r i of Some x \<Rightarrow> (x, c) | None \<Rightarrow> (case get_string_value d i c of (x, c') \<Rightarrow> (ok x, c')))"

definition known_type :: "value_reads \<Rightarrow> u64 \<Rightarrow> u64 option" where
  "known_type r i = (case vr_types r i of Some x \<Rightarrow> x | None \<Rightarrow> None)"

definition boxed_value :: "debuggee \<Rightarrow> value_reads \<Rightarrow> u64 \<Rightarrow> u64 \<Rightarrow> conn \<Rightarrow> tagged_value option \<times> conn" where
  "boxed_value d r i f c =
     (case vr_boxed r i of
        Some x \<Rightarrow> (x, c)
      | None \<Rightarrow> (case get_object_values d i [f] c of
            (x, c') \<Rightarrow> ((case ok x of Some (v # _) \<Rightarrow> Some v | _ \<Rightarrow> None), c')))"

definition vr_reference_type :: "debuggee \<Rightarrow> value_reads \<Rightarrow> u64 \<Rightarrow> conn \<Rightarrow> u64 option \<times> conn" where
  "vr_reference_type d r i c =
     (case vr_types r i of Some x \<Rightarrow> (x, c) | None \<Rightarrow> (case get_object_reference_type d i c of (x, c') \<Rightarrow> (ok x, c')))"

section \<open>A pass over values\<close>

text \<open>What rendering a value does first, and the same over a list of values, one after the other.\<close>

datatype first_answer = A_string "string option" | A_type "u64 option" | A_nothing

definition first_answer :: "debuggee \<Rightarrow> value_reads \<Rightarrow> tagged_value \<Rightarrow> conn \<Rightarrow> first_answer \<times> conn" where
  "first_answer d r v c =
     (case first_read_of v of
        Some (StringContents i) \<Rightarrow> (case string_contents d r i c of (x, c') \<Rightarrow> (A_string x, c'))
      | Some (ReferenceType i) \<Rightarrow> (case vr_reference_type d r i c of (x, c') \<Rightarrow> (A_type x, c'))
      | None \<Rightarrow> (A_nothing, c))"

fun answer_all :: "debuggee \<Rightarrow> value_reads \<Rightarrow> tagged_value list \<Rightarrow> conn \<Rightarrow> first_answer list \<times> conn" where
  "answer_all d r [] c = ([], c)"
| "answer_all d r (v # vs) c =
     (case first_answer d r v c of (x, c1) \<Rightarrow> (case answer_all d r vs c1 of (xs, c2) \<Rightarrow> (x # xs, c2)))"

text \<open>A debuggee that stays and whose answers depend on the command alone, not on its id or on what came before.\<close>

definition history_free :: "debuggee \<Rightarrow> (u8 \<Rightarrow> u8 \<Rightarrow> bytes \<Rightarrow> reply_packet jdwp_result) \<Rightarrow> bool" where
  "history_free d ans \<longleftrightarrow>
     (\<forall>h p. dbg_gone d h p = None \<and> dbg_answer d h p = ans (cp_command_set p) (cp_command p) (cp_data p))"

section \<open>What an exchange answers\<close>

lemma exchange_answer:
  assumes "history_free d ans"
  shows "fst (exchange d (request s k b) dec c) = res_bind (ans s k b) dec"
    and "length (c_sent (snd (exchange d (request s k b) dec c))) = Suc (length (c_sent c))"
  using assms
  by (auto simp: history_free_def exchange_def request_def next_id_def send_command_def conn_issue_def cbind_def clift_def
      command_packet_new_def case_prod_unfold Let_def split: sum.split)

lemma send_each_answers:
  assumes "history_free d ans"
  shows "fst (send_each d ps c) = map (\<lambda>p. ans (cp_command_set p) (cp_command p) (cp_data p)) ps
    \<and> length (c_sent (snd (send_each d ps c))) = length (c_sent c) + length ps"
proof (induction ps arbitrary: c)
  case (Cons p ps)
  have "fst (send_command d p c) = ans (cp_command_set p) (cp_command p) (cp_data p)
    \<and> length (c_sent (snd (send_command d p c))) = Suc (length (c_sent c))"
    using assms by (auto simp: history_free_def send_command_issue conn_issue_def)
  with Cons [of "snd (send_command d p c)"] show ?case by (simp add: case_prod_unfold Let_def)
qed simp

lemma build_requests_plain:
  "map (\<lambda>p. (cp_command_set p, cp_command p, cp_data p)) (fst (build_requests (\<lambda>x. request s k (dat x)) xs c)) = map (\<lambda>x. (s, k, dat x)) xs
   \<and> c_sent (snd (build_requests (\<lambda>x. request s k (dat x)) xs c)) = c_sent c"
proof (induction xs arbitrary: c)
  case (Cons x xs)
  then show ?case by (simp add: request_def next_id_def command_packet_new_def case_prod_unfold Let_def)
qed simp

lemma wave_answers:
  assumes "history_free d ans"
  shows "fst (exchange_wave d (\<lambda>x. request s k (dat x)) dec xs c) = map (\<lambda>x. res_bind (ans s k (dat x)) dec) xs"
    and "length (c_sent (snd (exchange_wave d (\<lambda>x. request s k (dat x)) dec xs c))) = length (c_sent c) + length xs"
proof -
  define ps c1 where "ps = fst (build_requests (\<lambda>x. request s k (dat x)) xs c)" and "c1 = snd (build_requests (\<lambda>x. request s k (dat x)) xs c)"
  have b: "map (\<lambda>p. (cp_command_set p, cp_command p, cp_data p)) ps = map (\<lambda>x. (s, k, dat x)) xs" "c_sent c1 = c_sent c"
    using build_requests_plain [of s k dat xs c] unfolding ps_def c1_def by auto
  have "map (\<lambda>p. ans (cp_command_set p) (cp_command p) (cp_data p)) ps
      = map (\<lambda>(s, k, b). ans s k b) (map (\<lambda>p. (cp_command_set p, cp_command p, cp_data p)) ps)" by (simp add: comp_def)
  also have "\<dots> = map (\<lambda>x. ans s k (dat x)) xs" unfolding b(1) by (simp add: comp_def)
  finally have m: "map (\<lambda>p. ans (cp_command_set p) (cp_command p) (cp_data p)) ps = map (\<lambda>x. ans s k (dat x)) xs" .
  have l: "length ps = length xs" using arg_cong [OF b(1), of length] by simp
  have r: "fst (read_independently d ps c1) = map (\<lambda>x. ans s k (dat x)) xs"
    "length (c_sent (snd (read_independently d ps c1))) = length (c_sent c) + length xs"
    using read_independently_sequential [of d ps c1] send_each_answers [OF assms, of ps c1] m l b(2) by auto
  then show "fst (exchange_wave d (\<lambda>x. request s k (dat x)) dec xs c) = map (\<lambda>x. res_bind (ans s k (dat x)) dec) xs"
    "length (c_sent (snd (exchange_wave d (\<lambda>x. request s k (dat x)) dec xs c))) = length (c_sent c) + length xs"
    by (simp_all add: exchange_wave_def case_prod_unfold Let_def comp_def flip: ps_def c1_def)
qed

text \<open>The contents and the type of an object, as the debuggee answers them.\<close>

definition true_string :: "(u8 \<Rightarrow> u8 \<Rightarrow> bytes \<Rightarrow> reply_packet jdwp_result) \<Rightarrow> u64 \<Rightarrow> string option" where
  "true_string ans i = ok (res_bind (ans CS_STRING_REFERENCE SR_VALUE (put_be 8 i)) decode_string_value)"

definition true_type :: "(u8 \<Rightarrow> u8 \<Rightarrow> bytes \<Rightarrow> reply_packet jdwp_result) \<Rightarrow> u64 \<Rightarrow> u64 option" where
  "true_type ans i = ok (res_bind (ans CS_OBJECT_REFERENCE OR_REFERENCE_TYPE (put_be 8 i)) decode_reference_type)"

definition truthful :: "(u8 \<Rightarrow> u8 \<Rightarrow> bytes \<Rightarrow> reply_packet jdwp_result) \<Rightarrow> value_reads \<Rightarrow> bool" where
  "truthful ans r \<longleftrightarrow> (\<forall>i x. vr_strings r i = Some x \<longrightarrow> x = true_string ans i) \<and> (\<forall>i x. vr_types r i = Some x \<longrightarrow> x = true_type ans i)"

lemma record_all_map:
  "record_all ids (map f ids) m = (\<lambda>i. if i \<in> set ids then Some (f i) else m i)"
proof -
  have "fold (\<lambda>(i, x) m. m(i \<mapsto> x)) (zip ids (map f ids)) m = (\<lambda>i. if i \<in> set ids then Some (f i) else m i)" for m
    by (induction ids arbitrary: m) (auto simp: fun_eq_iff)
  then show ?thesis by (simp add: record_all_def)
qed

lemma extend_committed_effect:
  assumes h: "history_free d ans" and g: "gather r vs = (strings, objects)"
  shows "vr_strings (fst (extend_committed d r vs c)) = (\<lambda>i. if i \<in> set strings then Some (true_string ans i) else vr_strings r i)"
    and "vr_types (fst (extend_committed d r vs c)) = (\<lambda>i. if i \<in> set objects then Some (true_type ans i) else vr_types r i)"
    and "length (c_sent (snd (extend_committed d r vs c))) = length (c_sent c) + length strings + length objects"
proof -
  note defs = read_string_values_independently_def read_reference_types_independently_def string_value_request_def [abs_def]
    reference_type_request_def [abs_def]
  note w = wave_answers [OF h]
  have s: "map ok (fst (read_string_values_independently d is c')) = map (true_string ans) is" for "is" c'
    by (simp add: defs w true_string_def comp_def)
  have t: "map ok (fst (read_reference_types_independently d is c')) = map (true_type ans) is" for "is" c'
    by (simp add: defs w true_type_def comp_def)
  have l: "length (c_sent (snd (read_string_values_independently d is c'))) = length (c_sent c') + length is"
    "length (c_sent (snd (read_reference_types_independently d is c'))) = length (c_sent c') + length is" for "is" c'
    by (simp_all add: defs w)
  show "vr_strings (fst (extend_committed d r vs c)) = (\<lambda>i. if i \<in> set strings then Some (true_string ans i) else vr_strings r i)"
    "vr_types (fst (extend_committed d r vs c)) = (\<lambda>i. if i \<in> set objects then Some (true_type ans i) else vr_types r i)"
    "length (c_sent (snd (extend_committed d r vs c))) = length (c_sent c) + length strings + length objects"
    by (auto simp: extend_committed_def g case_prod_unfold Let_def s t l record_all_map)
qed

text \<open>A value costs a command when its answer is not in hand.\<close>

definition missing :: "value_reads \<Rightarrow> tagged_value \<Rightarrow> bool" where
  "missing r v \<longleftrightarrow> (case first_read_of v of Some (StringContents i) \<Rightarrow> vr_strings r i = None
     | Some (ReferenceType i) \<Rightarrow> vr_types r i = None | None \<Rightarrow> False)"

definition true_answer :: "(u8 \<Rightarrow> u8 \<Rightarrow> bytes \<Rightarrow> reply_packet jdwp_result) \<Rightarrow> tagged_value \<Rightarrow> first_answer" where
  "true_answer ans v = (case first_read_of v of Some (StringContents i) \<Rightarrow> A_string (true_string ans i)
     | Some (ReferenceType i) \<Rightarrow> A_type (true_type ans i) | None \<Rightarrow> A_nothing)"

lemma answer_all_effect:
  assumes h: "history_free d ans" and t: "truthful ans r"
  shows "fst (answer_all d r vs c) = map (true_answer ans) vs
    \<and> length (c_sent (snd (answer_all d r vs c))) = length (c_sent c) + length (filter (missing r) vs)"
proof (induction vs arbitrary: c)
  case (Cons v vs)
  have "fst (first_answer d r v c) = true_answer ans v
    \<and> length (c_sent (snd (first_answer d r v c))) = length (c_sent c) + (if missing r v then 1 else 0)"
  proof (cases "first_read_of v")
    case (Some k)
    show ?thesis
    proof (cases k)
      case (StringContents i)
      then show ?thesis using Some t
        by (auto simp: exchange_answer [OF h] first_answer_def string_contents_def true_answer_def missing_def truthful_def true_string_def
            get_string_value_def string_value_request_def case_prod_unfold split: option.split)
    next
      case (ReferenceType i)
      then show ?thesis using Some t
        by (auto simp: exchange_answer [OF h] first_answer_def vr_reference_type_def true_answer_def missing_def truthful_def true_type_def
            get_object_reference_type_def reference_type_request_def case_prod_unfold split: option.split)
    qed
  qed (simp add: first_answer_def true_answer_def missing_def)
  with Cons [of "snd (first_answer d r v c)"] show ?case by (simp add: case_prod_unfold)
qed simp

text \<open>What is gathered, with what is still missing afterwards, is no more than what was missing.\<close>

lemma gather_grows:
  "fold (gather_step r) vs (seen, s, q) = (seen', s', q') \<Longrightarrow> set s \<subseteq> set s' \<and> set q \<subseteq> set q'"
proof (induction vs arbitrary: seen s q)
  case (Cons v vs)
  obtain seen1 s1 q1 where 1: "gather_step r v (seen, s, q) = (seen1, s1, q1)" by (cases "gather_step r v (seen, s, q)")
  then have "set s \<subseteq> set s1 \<and> set q \<subseteq> set q1"
    by (auto simp: gather_step_def split: option.splits first_read.splits if_splits)
  with Cons 1 show ?case by fastforce
qed simp

lemma gather_counts:
  assumes "fold (gather_step r) vs (seen, s, q) = (seen', s', q')"
    "vr_strings r' = (\<lambda>i. if i \<in> set s' then Some (f i) else vr_strings r i)"
    "vr_types r' = (\<lambda>i. if i \<in> set q' then Some (g i) else vr_types r i)"
  shows "length s' + length q' + length (filter (missing r') vs) \<le> length s + length q + length (filter (missing r) vs)"
  using assms(1)
proof (induction vs arbitrary: seen s q)
  case (Cons v vs)
  obtain seen1 s1 q1 where 1: "gather_step r v (seen, s, q) = (seen1, s1, q1)" by (cases "gather_step r v (seen, s, q)")
  with Cons.prems have rest: "fold (gather_step r) vs (seen1, s1, q1) = (seen', s', q')" by simp
  have "length s1 + length q1 + (if missing r' v then 1 else 0) \<le> length s + length q + (if missing r v then 1 else 0)"
  proof (cases "first_read_of v")
    case (Some k)
    with 1 gather_grows [OF rest] show ?thesis
      by (cases k) (auto simp: gather_step_def missing_def assms(2,3) split: if_splits)
  qed (use 1 in \<open>auto simp: gather_step_def missing_def\<close>)
  with Cons.IH [OF rest] show ?case by auto
qed simp

section \<open>Against any debuggee\<close>

text \<open>What follows asks of the debuggee only that the connection to it stays: every read sends one command.\<close>

lemma exchange_sends_one:
  assumes "\<forall>h p. dbg_gone d h p = None"
  shows "length (c_sent (snd (exchange d (request s k b) dec c))) = Suc (length (c_sent c))"
  using assms by (auto simp: exchange_def request_def next_id_def send_command_def conn_issue_def cbind_def clift_def
      command_packet_new_def case_prod_unfold Let_def split: sum.split)

lemma send_each_connected:
  assumes "\<forall>h p. dbg_gone d h p = None"
  shows "length (fst (send_each d ps c)) = length ps \<and> c_sent (snd (send_each d ps c)) = c_sent c @ ps
    \<and> (\<forall>j<length ps. fst (send_each d ps c) ! j = dbg_answer d (c_sent c @ take j ps) (ps ! j))"
proof (induction ps arbitrary: c)
  case (Cons p ps)
  have one: "fst (send_command d p c) = dbg_answer d (c_sent c) p" "c_sent (snd (send_command d p c)) = c_sent c @ [p]"
    using assms by (simp_all add: send_command_issue conn_issue_def)
  have "fst (send_each d (p # ps) c) ! j = dbg_answer d (c_sent c @ take j (p # ps)) ((p # ps) ! j)"
    if "j < length (p # ps)" for j
    using that Cons.IH [of "snd (send_command d p c)"] one by (cases j) (simp_all add: case_prod_unfold Let_def)
  then show ?case using Cons.IH [of "snd (send_command d p c)"] one by (simp add: case_prod_unfold Let_def)
qed simp

text \<open>The outcome of a read sent since: the debuggee's answer to it at the point where it was sent, decoded.\<close>

definition read_since ::
  "debuggee \<Rightarrow> conn \<Rightarrow> conn \<Rightarrow> u8 \<Rightarrow> u8 \<Rightarrow> bytes \<Rightarrow> (reply_packet \<Rightarrow> 'a jdwp_result) \<Rightarrow> 'a option \<Rightarrow> bool" where
  "read_since d c c' s k b dec x \<longleftrightarrow> (\<exists>h p rest. c_sent c' = h @ p # rest \<and> length (c_sent c) \<le> length h
     \<and> cp_command_set p = s \<and> cp_command p = k \<and> cp_data p = b \<and> x = ok (res_bind (dbg_answer d h p) dec))"

lemma read_since_later:
  assumes "read_since d c c' s k b dec x" "c_sent c'' = c_sent c' @ later"
  shows "read_since d c c'' s k b dec x"
proof -
  obtain h p rest where "c_sent c' = h @ p # rest" "length (c_sent c) \<le> length h"
      "cp_command_set p = s" "cp_command p = k" "cp_data p = b" "x = ok (res_bind (dbg_answer d h p) dec)"
    using assms(1) by (auto simp: read_since_def)
  then show ?thesis
    unfolding read_since_def using assms(2) by (intro exI [of _ h] exI [of _ p] exI [of _ "rest @ later"]) simp
qed

lemma read_since_earlier:
  "read_since d c c' s k b dec x \<Longrightarrow> length (c_sent c0) \<le> length (c_sent c) \<Longrightarrow> read_since d c0 c' s k b dec x"
  unfolding read_since_def by (elim exE conjE) (rule exI, rule exI, rule exI, intro conjI, assumption, auto)

lemma wave_connected:
  assumes "\<forall>h p. dbg_gone d h p = None"
  shows "\<exists>ps. length ps = length xs \<and> c_sent (snd (exchange_wave d (\<lambda>x. request s k (dat x)) dec xs c)) = c_sent c @ ps
    \<and> length (fst (exchange_wave d (\<lambda>x. request s k (dat x)) dec xs c)) = length xs
    \<and> (\<forall>j<length xs. read_since d c (snd (exchange_wave d (\<lambda>x. request s k (dat x)) dec xs c)) s k (dat (xs ! j)) dec
          (ok (fst (exchange_wave d (\<lambda>x. request s k (dat x)) dec xs c) ! j)))"
proof -
  define ps c1 where "ps = fst (build_requests (\<lambda>x. request s k (dat x)) xs c)" and "c1 = snd (build_requests (\<lambda>x. request s k (dat x)) xs c)"
  have b: "map (\<lambda>p. (cp_command_set p, cp_command p, cp_data p)) ps = map (\<lambda>x. (s, k, dat x)) xs" "c_sent c1 = c_sent c"
    using build_requests_plain [of s k dat xs c] unfolding ps_def c1_def by auto
  have l: "length ps = length xs" using arg_cong [OF b(1), of length] by simp
  have fields: "cp_command_set (ps ! j) = s \<and> cp_command (ps ! j) = k \<and> cp_data (ps ! j) = dat (xs ! j)" if "j < length xs" for j
    using arg_cong [OF b(1), of "\<lambda>l. l ! j"] that l by simp
  define w where "w = read_independently d ps c1"
  have w: "length (fst w) = length ps \<and> c_sent (snd w) = c_sent c @ ps
      \<and> (\<forall>j<length ps. fst w ! j = dbg_answer d (c_sent c @ take j ps) (ps ! j))"
    using send_each_connected [OF assms, of ps c1] b(2) read_independently_sequential [of d ps c1] by (simp add: w_def)
  have wave: "exchange_wave d (\<lambda>x. request s k (dat x)) dec xs c = (map (\<lambda>r. res_bind r dec) (fst w), snd w)"
    by (simp add: exchange_wave_def case_prod_unfold Let_def comp_def w_def flip: ps_def c1_def)
  have "read_since d c (snd w) s k (dat (xs ! j)) dec (ok (map (\<lambda>r. res_bind r dec) (fst w) ! j))" if "j < length xs" for j
    unfolding read_since_def
    by (rule exI [of _ "c_sent c @ take j ps"], rule exI [of _ "ps ! j"], rule exI [of _ "drop (Suc j) ps"])
      (use w l that fields [OF that] id_take_nth_drop [of j ps] in simp)
  then show ?thesis using w l unfolding wave by (intro exI [of _ ps]) simp
qed

lemma record_all_entry:
  "length outs = length ids \<Longrightarrow>
   (i \<notin> set ids \<longrightarrow> record_all ids outs m i = m i)
   \<and> (i \<in> set ids \<longrightarrow> (\<exists>j<length ids. ids ! j = i \<and> record_all ids outs m i = Some (outs ! j)))"
proof (induction ids arbitrary: outs m)
  case (Cons k ids)
  then obtain out outs' where outs: "outs = out # outs'" "length outs' = length ids" by (cases outs) auto
  have step: "record_all (k # ids) outs m = record_all ids outs' (m(k \<mapsto> out))" by (simp add: record_all_def outs)
  show ?case
  proof (cases "i \<in> set ids")
    case True
    then obtain j where "j < length ids" "ids ! j = i" "record_all ids outs' (m(k \<mapsto> out)) i = Some (outs' ! j)"
      using Cons.IH [OF outs(2)] by blast
    then show ?thesis unfolding step by (auto simp: outs intro!: exI [of _ "Suc j"])
  next
    case False
    then have "record_all (k # ids) outs m i = (m(k \<mapsto> out)) i" using Cons.IH [OF outs(2)] unfolding step by blast
    then show ?thesis using False by (cases "i = k") (auto simp: outs intro: exI [of _ 0])
  qed
qed (simp add: record_all_def)

text \<open>One wave recorded: the entries of the ids asked for are reads sent in it, the others are as they were.\<close>

lemma record_wave:
  assumes "\<forall>h p. dbg_gone d h p = None" and out: "exchange_wave d (\<lambda>x. request s k (put_be 8 x)) dec ids c = (got, c')"
  shows "\<exists>f ps. record_all ids (map ok got) m = (\<lambda>i. if i \<in> set ids then Some (f i) else m i)
    \<and> (\<forall>i\<in>set ids. read_since d c c' s k (put_be 8 i) dec (f i)) \<and> c_sent c' = c_sent c @ ps \<and> length ps = length ids"
proof -
  obtain ps where ps: "length ps = length ids" "c_sent c' = c_sent c @ ps" "length got = length ids"
      "\<forall>j<length ids. read_since d c c' s k (put_be 8 (ids ! j)) dec (ok (got ! j))"
    using wave_connected [OF assms(1), of ids s k "put_be 8" dec c] unfolding out by auto
  define f where "f = (\<lambda>i. the (record_all ids (map ok got) m i))"
  have entry: "(i \<notin> set ids \<longrightarrow> record_all ids (map ok got) m i = m i)
      \<and> (i \<in> set ids \<longrightarrow> (\<exists>j<length ids. ids ! j = i \<and> record_all ids (map ok got) m i = Some (ok (got ! j))))" for i
    using record_all_entry [of "map ok got" ids i m] ps(3) by auto
  have "record_all ids (map ok got) m i = (if i \<in> set ids then Some (f i) else m i)" for i
    using entry [of i] by (auto simp: f_def)
  then have "record_all ids (map ok got) m = (\<lambda>i. if i \<in> set ids then Some (f i) else m i)" by blast
  moreover have "read_since d c c' s k (put_be 8 i) dec (f i)" if "i \<in> set ids" for i
    using entry [of i] ps(4) that by (auto simp: f_def)
  ultimately show ?thesis using ps by blast
qed

lemma extend_committed_connected:
  assumes gone: "\<forall>h p. dbg_gone d h p = None" and g: "gather r vs = (strings, objects)"
    and e: "extend_committed d r vs c = (r', c')"
  shows "\<exists>f g. vr_strings r' = (\<lambda>i. if i \<in> set strings then Some (f i) else vr_strings r i)
    \<and> vr_types r' = (\<lambda>i. if i \<in> set objects then Some (g i) else vr_types r i)
    \<and> (\<forall>i\<in>set strings. read_since d c c' CS_STRING_REFERENCE SR_VALUE (put_be 8 i) decode_string_value (f i))
    \<and> (\<forall>i\<in>set objects. read_since d c c' CS_OBJECT_REFERENCE OR_REFERENCE_TYPE (put_be 8 i) decode_reference_type (g i))
    \<and> length (c_sent c') = length (c_sent c) + length strings + length objects"
proof -
  obtain r1 c1 where 1: "(if strings = [] then (r, c)
      else case read_string_values_independently d strings c of
          (got, c') \<Rightarrow> (r\<lparr>vr_strings := record_all strings (map ok got) (vr_strings r)\<rparr>, c')) = (r1, c1)" by fastforce
  have 2: "(if objects = [] then (r1, c1)
      else case read_reference_types_independently d objects c1 of
          (got, c') \<Rightarrow> (r1\<lparr>vr_types := record_all objects (map ok got) (vr_types r1)\<rparr>, c')) = (r', c')"
    using e unfolding extend_committed_def g by (simp only: Let_def split_conv 1)
  have "\<exists>f ps. vr_strings r1 = (\<lambda>i. if i \<in> set strings then Some (f i) else vr_strings r i) \<and> vr_types r1 = vr_types r
    \<and> (\<forall>i\<in>set strings. read_since d c c1 CS_STRING_REFERENCE SR_VALUE (put_be 8 i) decode_string_value (f i))
    \<and> c_sent c1 = c_sent c @ ps \<and> length ps = length strings"
  proof (cases "strings = []")
    case False
    obtain got c'' where w: "read_string_values_independently d strings c = (got, c'')" by fastforce
    then have "exchange_wave d (\<lambda>x. request CS_STRING_REFERENCE SR_VALUE (put_be 8 x)) decode_string_value strings c = (got, c'')"
      by (simp add: read_string_values_independently_def string_value_request_def [abs_def])
    from record_wave [OF gone this, of "vr_strings r"] show ?thesis using 1 False w by auto
  qed (use 1 in simp)
  then obtain f ps where f: "vr_strings r1 = (\<lambda>i. if i \<in> set strings then Some (f i) else vr_strings r i)" "vr_types r1 = vr_types r"
      "\<forall>i\<in>set strings. read_since d c c1 CS_STRING_REFERENCE SR_VALUE (put_be 8 i) decode_string_value (f i)"
      "c_sent c1 = c_sent c @ ps" "length ps = length strings" by blast
  have "\<exists>g qs. vr_types r' = (\<lambda>i. if i \<in> set objects then Some (g i) else vr_types r1 i) \<and> vr_strings r' = vr_strings r1
    \<and> (\<forall>i\<in>set objects. read_since d c1 c' CS_OBJECT_REFERENCE OR_REFERENCE_TYPE (put_be 8 i) decode_reference_type (g i))
    \<and> c_sent c' = c_sent c1 @ qs \<and> length qs = length objects"
  proof (cases "objects = []")
    case False
    obtain got c'' where w: "read_reference_types_independently d objects c1 = (got, c'')" by fastforce
    then have "exchange_wave d (\<lambda>x. request CS_OBJECT_REFERENCE OR_REFERENCE_TYPE (put_be 8 x)) decode_reference_type objects c1 = (got, c'')"
      by (simp add: read_reference_types_independently_def reference_type_request_def [abs_def])
    from record_wave [OF gone this, of "vr_types r1"] show ?thesis using 2 False w by auto
  qed (use 2 in simp)
  then obtain g qs where q: "vr_types r' = (\<lambda>i. if i \<in> set objects then Some (g i) else vr_types r1 i)" "vr_strings r' = vr_strings r1"
      "\<forall>i\<in>set objects. read_since d c1 c' CS_OBJECT_REFERENCE OR_REFERENCE_TYPE (put_be 8 i) decode_reference_type (g i)"
      "c_sent c' = c_sent c1 @ qs" "length qs = length objects" by blast
  have "\<forall>i\<in>set strings. read_since d c c' CS_STRING_REFERENCE SR_VALUE (put_be 8 i) decode_string_value (f i)"
    using f(3) read_since_later [OF _ q(4)] by blast
  moreover have "\<forall>i\<in>set objects. read_since d c c' CS_OBJECT_REFERENCE OR_REFERENCE_TYPE (put_be 8 i) decode_reference_type (g i)"
    using q(3) f(4) by (auto intro: read_since_earlier [of d c1])
  ultimately show ?thesis
    using f q by (intro exI [of _ f] exI [of _ g]) auto
qed

lemma answer_all_sends:
  assumes gone: "\<forall>h p. dbg_gone d h p = None"
  shows "length (c_sent (snd (answer_all d r vs c))) = length (c_sent c) + length (filter (missing r) vs)"
proof (induction vs arbitrary: c)
  case (Cons v vs)
  have "length (c_sent (snd (first_answer d r v c))) = length (c_sent c) + (if missing r v then 1 else 0)"
    by (auto simp: exchange_sends_one [OF gone] first_answer_def string_contents_def vr_reference_type_def missing_def
        get_string_value_def string_value_request_def get_object_reference_type_def reference_type_request_def
        case_prod_unfold split: option.split first_read.split)
  with Cons [of "snd (first_answer d r v c)"] show ?case by (simp add: case_prod_unfold)
qed simp

text \<open>A value of another kind with the same id: its read is the one that was made.\<close>

definition same_id_other_kind :: "tagged_value \<Rightarrow> tagged_value \<Rightarrow> bool" where
  "same_id_other_kind v v' \<longleftrightarrow> (case (first_read_of v, first_read_of v') of
       (Some (StringContents i), Some (ReferenceType j)) \<Rightarrow> i = j
     | (Some (ReferenceType i), Some (StringContents j)) \<Rightarrow> i = j
     | _ \<Rightarrow> False)"

lemma gather_covers:
  assumes "fold (gather_step r) vs ([], [], []) = (seen, s, q)"
  shows "set seen = set s \<union> set q
    \<and> (\<forall>i\<in>set s. \<exists>v\<in>set vs. first_read_of v = Some (StringContents i))
    \<and> (\<forall>i\<in>set q. \<exists>v\<in>set vs. first_read_of v = Some (ReferenceType i))
    \<and> (\<forall>v\<in>set vs. missing r v \<longrightarrow> (case first_read_of v of
          Some (StringContents i) \<Rightarrow> i \<in> set seen | Some (ReferenceType i) \<Rightarrow> i \<in> set seen | None \<Rightarrow> False))"
  using assms
proof (induction vs arbitrary: seen s q rule: rev_induct)
  case (snoc v vs)
  obtain seen1 s1 q1 where 1: "fold (gather_step r) vs ([], [], []) = (seen1, s1, q1)" by (cases "fold (gather_step r) vs ([], [], [])")
  with snoc.prems have 2: "gather_step r v (seen1, s1, q1) = (seen, s, q)" by simp
  show ?case
  proof (cases "first_read_of v")
    case None
    then show ?thesis using snoc.IH [OF 1] 2 by (auto simp: gather_step_def missing_def)
  next
    case (Some k)
    then show ?thesis
      using snoc.IH [OF 1] 2
      by (cases k) (auto simp: gather_step_def missing_def split: if_splits option.splits first_read.splits)
  qed
qed simp

lemma gather_fresh:
  assumes "fold (gather_step r) vs ([], [], []) = (seen, s, q)"
  shows "(\<forall>i\<in>set s. vr_strings r i = None) \<and> (\<forall>i\<in>set q. vr_types r i = None)"
  using assms
proof (induction vs arbitrary: seen s q rule: rev_induct)
  case (snoc v vs)
  obtain seen1 s1 q1 where 1: "fold (gather_step r) vs ([], [], []) = (seen1, s1, q1)" by (cases "fold (gather_step r) vs ([], [], [])")
  with snoc.prems have "gather_step r v (seen1, s1, q1) = (seen, s, q)" by simp
  then show ?case
    using snoc.IH [OF 1] by (auto simp: gather_step_def split: option.splits first_read.splits if_splits)
qed simp


text \<open>A sample: every object is of type 7 and no string can be read.\<close>

definition sample_debuggee :: debuggee where
  "sample_debuggee = \<lparr>dbg_answer = (\<lambda>_ p. Inr \<lparr>rp_id = 0, rp_error_code = 0, rp_data = [1, 0, 0, 0, 0, 0, 0, 0, 7]\<rparr>),
     dbg_latency = (\<lambda>_ _. 0), dbg_gone = (\<lambda>_ _. None)\<rparr>"


end
