(* ===== verification/SourcePaths.thy ===== *)
theory SourcePaths
  imports StopPoint Literals ClassNames
begin

text \<open>
  The files a session reads on the server's own disk (\<open>handlers.rs\<close>): the path of a class file or a source file under
  the configured roots, the search for it, and the lines of a source file that a reply carries.  Paths are those of
  Unix: text, compared by component.  The file system is a parameter, and so is the \<open>{:?}\<close> rendering of a text, which
  escapes by Unicode tables.
\<close>

section \<open>Paths\<close>

type_synonym path = string

record host =
  host_is_file :: "path \<Rightarrow> bool"
  host_canonicalize :: "path \<Rightarrow> path option"
  host_read :: "path \<Rightarrow> string + bytes"
  host_debug :: "string \<Rightarrow> string"

text \<open>\<open>PathBuf::push\<close> and \<open>Path::join\<close>, \<open>Path::components\<close>, \<open>Path::starts_with\<close>.\<close>

definition path_push :: "path \<Rightarrow> string \<Rightarrow> path" where
  "path_push p s =
     (if s \<noteq> [] \<and> hd s = CHR ''/'' then s
      else if p = [] then s
      else if last p = CHR ''/'' then p @ s
      else p @ ''/'' @ s)"

definition components :: "path \<Rightarrow> string list" where
  "components p =
     (let segs = split_on CHR ''/'' p in
      (if p \<noteq> [] \<and> hd p = CHR ''/'' then [''/''] else if hd segs = ''.'' then [''.''] else [])
        @ filter (\<lambda>s. s \<noteq> [] \<and> s \<noteq> ''.'') segs)"

definition path_starts_with :: "path \<Rightarrow> path \<Rightarrow> bool" where
  "path_starts_with p base = prefix (components base) (components p)"

definition is_safe_path_segment :: "string \<Rightarrow> bool" where
  "is_safe_path_segment s =
     (s \<noteq> [] \<and> s \<noteq> ''.'' \<and> s \<noteq> ''..'' \<and> CHR ''/'' \<notin> set s \<and> CHR 0x5C \<notin> set s \<and> CHR '':'' \<notin> set s)"

definition package_path :: "string \<Rightarrow> path option" where
  "package_path package =
     (if package = [] then Some []
      else if list_all is_safe_path_segment (split_on CHR ''.'' package)
      then Some (fold (\<lambda>s p. path_push p s) (split_on CHR ''.'' package) [])
      else None)"

definition class_relative_path :: "string \<Rightarrow> path option" where
  "class_relative_path class_name =
     (let (package, simple) = (case rsplit_once CHR ''.'' class_name of None \<Rightarrow> ([], class_name) | Some ps \<Rightarrow> ps) in
      Option.bind (package_path package) (\<lambda>p.
        if is_safe_path_segment simple then Some (path_push p (simple @ ''.class'')) else None))"

definition source_relative_path :: "string \<Rightarrow> string \<Rightarrow> path option" where
  "source_relative_path class_name source_file =
     (let package = (case rsplit_once CHR ''.'' class_name of None \<Rightarrow> [] | Some (p, _) \<Rightarrow> p) in
      Option.bind (package_path package) (\<lambda>p.
        if is_safe_path_segment source_file then Some (path_push p source_file) else None))"

datatype source_lookup = Lookup_found path | Lookup_missing | Lookup_escaped path

fun find_under_roots :: "host \<Rightarrow> path list \<Rightarrow> path \<Rightarrow> source_lookup" where
  "find_under_roots w [] rel = Lookup_missing"
| "find_under_roots w (root # roots) rel =
     (let candidate = path_push root rel in
      if \<not> host_is_file w candidate then find_under_roots w roots rel
      else (case (host_canonicalize w root, host_canonicalize w candidate) of
          (Some real_root, Some resolved) \<Rightarrow>
            if path_starts_with resolved real_root then Lookup_found resolved else Lookup_escaped candidate
        | _ \<Rightarrow> find_under_roots w roots rel))"

definition resolve_class_file :: "host \<Rightarrow> string \<Rightarrow> string option \<Rightarrow> path list \<Rightarrow> string + path" where
  "resolve_class_file w class_name class_file roots =
     (case (case class_file of None \<Rightarrow> None | Some f \<Rightarrow> if trim f = [] then None else Some (trim f)) of
        Some f \<Rightarrow>
          if host_is_file w f then Inr f
          else Inl ((''class_file '' @ f @ '' is not a readable file. Nothing was sent to the JVM.''))
      | None \<Rightarrow>
          if roots = [] then
            Inl ((''No class roots are configured, so there is nowhere to read '' @ class_name @ [CHR 0x27]
     @ ''s new bytecode from. Set them per session with debug.attach {'' @ [CHR 0x22] @ ''class_roots''
     @ [CHR 0x22] @ '':[...]}, deploy-wide with JDWP_CLASS_ROOTS (a path list in this platform'' @ [CHR 0x27]
     @ ''s spelling), or pass class_file with the path to one .class file. A class root is where ''
     @ ''the PACKAGE TREE starts in the BUILD OUTPUT '' @ uni 0x2014
     @ '' for com.example.Order that is target/classes, the directory containing `com`, not ''
     @ ''src/main/java and not the project root.''))
          else (case class_relative_path class_name of
              None \<Rightarrow>
                Inl ((''Refusing to build a path from '' @ host_debug w class_name
     @ '': a segment of it is empty, `.`, `..`, or carries a path separator or a drive/stream ''
     @ ''marker, so the result could point outside every configured root.''))
            | Some rel \<Rightarrow>
                (case find_under_roots w roots rel of
                   Lookup_found p \<Rightarrow> Inr p
                 | Lookup_missing \<Rightarrow>
                     Inl ((''Not found on disk: no configured class root holds '' @ rel @ ''. Searched '' @ show_nat (length roots) @ '' root(s): ''
     @ join '', '' roots @ ''. Either the root list is wrong (a class root is where the package tree starts in the ''
     @ ''build output, e.g. target/classes) or this class has not been COMPILED yet '' @ uni 0x2014
     @ '' this server does not run your build, so `mvn compile` (or your equivalent) is still ''
     @ ''yours to run.''))
                 | Lookup_escaped p \<Rightarrow>
                     Inl ((uni 0x26A0 @ '' Refusing to read '' @ p
     @ '': it is under a configured class root but resolves outside it '' @ uni 0x2014
     @ '' a symlink out of the tree. Nothing was sent to the JVM.'')))))"

definition check_class_file_bytes :: "path \<Rightarrow> bytes \<Rightarrow> string + unit" where
  "check_class_file_bytes p b =
     (if prefix [0xCA, 0xFE, 0xBA, 0xBE] b then Inr ()
      else Inl ((p @ '' does not start with the class-file magic 0xCAFEBABE ('' @ show_nat (length b)
     @ '' bytes read), so it is not a compiled class. Nothing was sent to the JVM. A path that ''
     @ ''resolved to a source file, a jar, or a zero-length file left by a failed build all land '' @ ''here.'')))"

section \<open>The lines of a reply\<close>

definition line_window :: "nat \<Rightarrow> nat option \<Rightarrow> nat \<Rightarrow> nat \<Rightarrow> nat \<times> nat" where
  "line_window total_lines line context_lines max_lines =
     (if total_lines = 0 then (1, 0)
      else
        let cap = max max_lines 1 in
        (case line of
           None \<Rightarrow> (1, min total_lines cap)
         | Some l \<Rightarrow>
             let centre = min (max l 1) total_lines; ctx = min context_lines ((cap - 1) div 2)
             in (max (centre - ctx) 1, min (centre + ctx) total_lines)))"

record source_args =
  sa_line :: "int option"
  sa_whole_file :: bool
  sa_context :: nat
  sa_max_lines :: nat

text \<open>\<open>str::lines\<close>: split at line feeds, a carriage return before one dropped, no line after a last line feed.\<close>

definition drop_cr :: "string \<Rightarrow> string" where
  "drop_cr s = (if s \<noteq> [] \<and> last s = CHR 0x0D then butlast s else s)"

definition str_lines :: "string \<Rightarrow> string list" where
  "str_lines s =
     (let ls = split_on CHR 0x0A s in map drop_cr (butlast ls) @ (if last ls = [] then [] else [last ls]))"

definition numbered :: "nat \<Rightarrow> nat \<times> string \<Rightarrow> string" where
  "numbered width = (\<lambda>(n, t). pad_left width CHR '' '' (show_nat n) @ '' | '' @ t @ [CHR 0x0A])"

definition render_source_body :: "path \<Rightarrow> string list \<Rightarrow> source_args \<Rightarrow> string" where
  "render_source_body p ls a =
     (let n = length ls;
          wanted = (case sa_line a of None \<Rightarrow> None | Some l \<Rightarrow> if 0 < l then Some (nat l) else None) in
      if n = 0 then p @ '' resolved, but the file is empty (0 lines).'' @ [CHR 0x0A]
      else if \<not> sa_whole_file a \<and> wanted = None then
        (''Resolved to '' @ p @ '' ('' @ show_nat n
     @ '' line(s)). No text returned: pass `line` for a window around it, or whole_file:true for ''
     @ ''all of it. A whole file is never the default '' @ uni 0x2014
     @ '' a caller chasing one frame does not want 2000 lines in context.'' @ [CHR 0x0A])
      else
        let window = (if sa_whole_file a then None else wanted);
            (start, end_line) = line_window n window (sa_context a) (sa_max_lines a)
        in (p @ '' '' @ uni 0x2014 @ '' lines '' @ show_nat start @ ''-'' @ show_nat end_line @ '' of '' @ show_nat n @ [CHR 0x0A])
           @ (case window of
                Some l \<Rightarrow>
                  if n < l then (uni 0x26A0 @ '' line '' @ show_nat l @ '' is past the end of this '' @ show_nat n @ ''-line file '' @ uni 0x2014
     @ '' this checkout almost certainly does not match the running build. Showing the end of ''
     @ ''the file instead.'') @ [CHR 0x0A]
                  else []
              | None \<Rightarrow> [])
           @ concat (map (numbered (length (show_nat end_line)))
               (take (end_line + 1 - start) (drop (start - 1) (zip [1..<n + 1] ls))))
           @ (if 1 < start \<or> end_line < n
              then (uni 0x2026 @ '' '' @ show_nat (end_line + 1 - start) @ '' of '' @ show_nat n
     @ '' line(s) shown; raise context/max_lines, or pass whole_file:true'') @ [CHR 0x0A]
              else []))"

record local_source =
  lsrc_section :: string
  lsrc_read :: "(path \<times> nat) option"

definition nothing_read :: "string \<Rightarrow> local_source" where
  "nothing_read s = \<lparr>lsrc_section = s, lsrc_read = None\<rparr>"

text \<open>\<open>std::fs::read_to_string\<close>: bytes that are UTF-8, or an error.\<close>

definition read_to_string :: "host \<Rightarrow> path \<Rightarrow> string + string" where
  "read_to_string w p =
     res_bind (host_read w p) (\<lambda>b. case from_utf8 b of
        Inr s \<Rightarrow> Inr s | Inl _ \<Rightarrow> Inl ''stream did not contain valid UTF-8'')"

definition local_source_section :: "host \<Rightarrow> string \<Rightarrow> string \<Rightarrow> path list \<Rightarrow> source_args \<Rightarrow> local_source" where
  "local_source_section w class_name file_name roots a =
     (if roots = [] then
        nothing_read ((''No source roots are configured, so no file was read. Set them per session with '' @ ''debug.attach {''
     @ [CHR 0x22] @ ''source_roots'' @ [CHR 0x22]
     @ '':[...]}, or deploy-wide with JDWP_SOURCE_ROOTS (a path list in this platform'' @ [CHR 0x27]
     @ ''s spelling). A root is where the PACKAGE TREE starts '' @ uni 0x2014
     @ '' for com.example.Order that is the directory containing `com`, not the project root.'' @ [CHR 0x0A]))
      else (case source_relative_path class_name file_name of
          None \<Rightarrow>
            nothing_read ((uni 0x26A0 @ '' Refusing to build a path from the file name the JVM reported ('' @ host_debug w file_name
     @ ''): it carries a path separator, a drive/stream marker or a `..` segment. That name ''
     @ ''comes from the debuggee, so a path built from it could point outside every configured '' @ ''root.''
     @ [CHR 0x0A]))
        | Some rel \<Rightarrow>
            (case find_under_roots w roots rel of
               Lookup_missing \<Rightarrow>
                 nothing_read ((''Not found on disk: no configured root holds '' @ rel @ ''. Searched '' @ show_nat (length roots) @ '' root(s): '' @ join '', '' roots
     @ ''. Either the root list is wrong (a root is where the package tree starts) or this class ''
     @ ''is not in this checkout '' @ uni 0x2014
     @ '' which is itself worth knowing, since the JVM is running it.'' @ [CHR 0x0A]))
             | Lookup_escaped p \<Rightarrow>
                 nothing_read ((uni 0x26A0 @ '' Refusing to read '' @ p @ '': it is under a configured root but resolves outside it ''
     @ uni 0x2014 @ '' a symlink out of the tree. Nothing was read.'' @ [CHR 0x0A]))
             | Lookup_found p \<Rightarrow>
                 (case read_to_string w p of
                    Inl e \<Rightarrow> nothing_read ((''Found '' @ p @ '' but could not read it: '' @ e
     @ ''. The path resolved, so this is a local permission or encoding problem, not a wrong '' @ ''root.''
     @ [CHR 0x0A]))
                  | Inr text' \<Rightarrow>
                      (let ls = str_lines text' in
                       \<lparr>lsrc_section = render_source_body p ls a, lsrc_read = Some (p, length ls)\<rparr>)))))"

section \<open>No path leaves its root\<close>

lemma split_on_snoc:
  "c \<notin> set s \<Longrightarrow> split_on c (p @ c # s) = split_on c p @ [s]"
  by (induction p) (auto simp: split_on_no split: list.splits)

lemma split_on_trailing: "split_on c (p @ [c]) = split_on c p @ [[]]"
  using split_on_snoc [of c "[]" p] by simp

lemma safe_segment:
  assumes "is_safe_path_segment s" shows "s \<noteq> []" "CHR ''/'' \<notin> set s" "hd s \<noteq> CHR ''/''" "s \<noteq> ''.''" "s \<noteq> ''..''"
  using assms by (cases s; auto simp: is_safe_path_segment_def)+

lemma components_push:
  assumes s: "is_safe_path_segment s" shows "components (path_push p s) = components p @ [s]"
proof -
  note [simp] = safe_segment [OF s]
  consider "p = []" | (T) q where "p = q @ ''/''" | (O) "p \<noteq> []" "last p \<noteq> CHR ''/''"
    by (metis append_butlast_last_id)
  then show ?thesis
  proof cases
    case 1 then show ?thesis by (simp add: path_push_def components_def split_on_no)
  next
    case T
    have a: "split_on CHR ''/'' p = split_on CHR ''/'' q @ [[]]" unfolding T by (rule split_on_trailing)
    have b: "split_on CHR ''/'' (p @ s) = split_on CHR ''/'' q @ [s]" unfolding T using split_on_snoc [of "CHR ''/''" s q] by simp
    have "p \<noteq> []" "last p = CHR ''/''" using T by auto
    then show ?thesis unfolding components_def path_push_def by (simp add: a b Let_def hd_append)
  next
    case O
    have b: "split_on CHR ''/'' (p @ CHR ''/'' # s) = split_on CHR ''/'' p @ [s]" by (rule split_on_snoc) simp
    show ?thesis unfolding components_def path_push_def using O by (simp add: b Let_def hd_append)
  qed
qed

text \<open>A relative path made of segments and joined onto a root adds the segments.\<close>

lemma push_push:
  assumes "is_safe_path_segment s" "q \<noteq> []" "hd q \<noteq> CHR ''/''"
  shows "path_push root (path_push q s) = path_push (path_push root q) s \<and> path_push q s \<noteq> [] \<and> hd (path_push q s) \<noteq> CHR ''/''"
  using safe_segment [OF assms(1)] assms(2,3) by (auto simp: path_push_def hd_append)

lemma push_segments:
  "list_all is_safe_path_segment ss \<Longrightarrow> ss \<noteq> [] \<Longrightarrow>
   path_push root (fold (\<lambda>s p. path_push p s) ss []) = fold (\<lambda>s p. path_push p s) ss root
     \<and> fold (\<lambda>s p. path_push p s) ss [] \<noteq> [] \<and> hd (fold (\<lambda>s p. path_push p s) ss []) \<noteq> CHR ''/''"
proof (induction ss rule: rev_induct)
  case (snoc s ss)
  show ?case
  proof (cases "ss = []")
    case True
    with snoc.prems safe_segment [of s] show ?thesis by (auto simp: path_push_def)
  next
    case False
    with snoc have "path_push root (fold (\<lambda>s p. path_push p s) ss []) = fold (\<lambda>s p. path_push p s) ss root"
      "fold (\<lambda>s p. path_push p s) ss [] \<noteq> []" "hd (fold (\<lambda>s p. path_push p s) ss []) \<noteq> CHR ''/''" by auto
    with push_push [of s "fold (\<lambda>s p. path_push p s) ss []" root] snoc.prems show ?thesis by simp
  qed
qed simp

lemma components_segments:
  "list_all is_safe_path_segment ss \<Longrightarrow> components (fold (\<lambda>s p. path_push p s) ss root) = components root @ ss"
  by (induction ss rule: rev_induct) (simp_all add: components_push)

definition stays_under :: "path \<Rightarrow> bool" where
  "stays_under rel \<longleftrightarrow> (\<exists>ss. list_all is_safe_path_segment ss \<and> (\<forall>root. components (path_push root rel) = components root @ ss))"

lemma segments_stay: "list_all is_safe_path_segment ss \<Longrightarrow> ss \<noteq> [] \<Longrightarrow> stays_under (fold (\<lambda>s p. path_push p s) ss [])"
  unfolding stays_under_def using push_segments components_segments by metis

lemma package_then_file:
  assumes "package_path package = Some p" "is_safe_path_segment f" shows "stays_under (path_push p f)"
proof (cases "package = []")
  case True
  with assms segments_stay [of "[f]"] show ?thesis by (simp add: package_path_def)
next
  case False
  with assms(1) have "list_all is_safe_path_segment (split_on CHR ''.'' package)"
    "p = fold (\<lambda>s p. path_push p s) (split_on CHR ''.'' package) []" by (auto simp: package_path_def split: if_splits)
  with assms(2) segments_stay [of "split_on CHR ''.'' package @ [f]"] show ?thesis by simp
qed

lemma safe_class_file: "is_safe_path_segment s \<Longrightarrow> is_safe_path_segment (s @ ''.class'')"
  by (auto simp: is_safe_path_segment_def)

lemma relative_paths_stay:
  "class_relative_path c = Some rel \<Longrightarrow> stays_under rel" "source_relative_path c f = Some rel \<Longrightarrow> stays_under rel"
proof -
  assume "class_relative_path c = Some rel"
  then obtain package simple p where "package_path package = Some p" "is_safe_path_segment simple" "rel = path_push p (simple @ ''.class'')"
    unfolding class_relative_path_def
    by (cases "rsplit_once CHR ''.'' c") (simp_all add: Let_def bind_eq_Some_conv split: prod.splits if_splits, blast+)
  then show "stays_under rel" using package_then_file safe_class_file by blast
next
  assume "source_relative_path c f = Some rel"
  then obtain package p where "package_path package = Some p" "is_safe_path_segment f" "rel = path_push p f"
    unfolding source_relative_path_def by (simp add: Let_def bind_eq_Some_conv split: if_splits) blast
  then show "stays_under rel" using package_then_file by blast
qed

lemma found_under_root:
  "find_under_roots w roots rel = Lookup_found p \<Longrightarrow>
   \<exists>root\<in>set roots. \<exists>real. host_canonicalize w root = Some real \<and> host_canonicalize w (path_push root rel) = Some p
     \<and> host_is_file w (path_push root rel) \<and> path_starts_with p real"
proof (induction roots)
  case (Cons root roots)
  then show ?case by (auto simp: Let_def split: if_splits option.splits)
qed simp

text \<open>The class file a caller names, when it names one; and a canonical path reached from a root by segments only.\<close>

definition named_class_file :: "string option \<Rightarrow> path option" where
  "named_class_file class_file = Option.bind class_file (\<lambda>f. if trim f = [] then None else Some (trim f))"

definition under_a_root :: "host \<Rightarrow> path list \<Rightarrow> path \<Rightarrow> bool" where
  "under_a_root w roots p \<longleftrightarrow> (\<exists>root\<in>set roots. \<exists>real rel. stays_under rel \<and> host_is_file w (path_push root rel)
     \<and> host_canonicalize w root = Some real \<and> host_canonicalize w (path_push root rel) = Some p \<and> path_starts_with p real)"

lemma resolve_named:
  "named_class_file cf = None \<Longrightarrow> resolve_class_file w c cf roots = resolve_class_file w c None roots"
  "named_class_file cf = Some f \<Longrightarrow> resolve_class_file w c cf roots = Inr p \<Longrightarrow> p = f \<and> host_is_file w f"
proof -
  have named: "(case cf of None \<Rightarrow> None | Some f \<Rightarrow> if trim f = [] then None else Some (trim f)) = named_class_file cf"
    by (cases cf) (simp_all add: named_class_file_def)
  show "resolve_class_file w c cf roots = resolve_class_file w c None roots" if "named_class_file cf = None"
    unfolding resolve_class_file_def named that option.case by (rule refl)
  show "p = f \<and> host_is_file w f" if "named_class_file cf = Some f" "resolve_class_file w c cf roots = Inr p"
    using that(2) unfolding resolve_class_file_def named that(1) option.case by (simp split: if_splits)
qed


section \<open>The window of lines\<close>

text \<open>C39: the window of a source reply holds the line that was asked for, or the nearest line of the file, stays inside the
  file and is never longer than the cap.\<close>

theorem line_window_holds_the_line:
  "0 < n \<Longrightarrow> line_window n (Some l) ctx cap = (s, e) \<Longrightarrow>
   1 \<le> s \<and> s \<le> min (max l 1) n \<and> min (max l 1) n \<le> e \<and> e \<le> n \<and> e + 1 - s \<le> max cap 1"
proof -
  assume n: "0 < n" and w: "line_window n (Some l) ctx cap = (s, e)"
  define centre k where "centre = min (max l 1) n" and "k = min ctx ((max cap 1 - 1) div 2)"
  have "s = max (centre - k) 1" "e = min (centre + k) n" using w n by (auto simp: line_window_def Let_def centre_def k_def)
  moreover have "1 \<le> centre" "centre \<le> n" using n by (auto simp: centre_def)
  moreover have "2 * k + 1 \<le> max cap 1" unfolding k_def by (auto simp: min_def)
  ultimately show ?thesis unfolding centre_def [symmetric] by auto
qed

lemma line_window_holds_the_line_witness: "line_window 100 (Some 50) 10 5 = (48, 52) \<and> 52 + 1 - 48 \<le> max (5 :: nat) 1"
  using line_window_holds_the_line [of 100 50 10 5 48 52] by (simp add: line_window_def)

text \<open>A host with one class file under one root, and a link out of it.\<close>

definition sample_host :: host where
  "sample_host = \<lparr>host_is_file = (\<lambda>p. p = ''/r/com/x/A.class'' \<or> p = ''/r/com/x/B.class''),
     host_canonicalize = (\<lambda>p. Some (if p = ''/r/com/x/B.class'' then ''/etc/B.class'' else p)),
     host_read = (\<lambda>_. Inr []), host_debug = (\<lambda>s. s)\<rparr>"

lemma sample_relative:
  "class_relative_path ''com.x.A'' = Some ''com/x/A.class''" "class_relative_path ''com.x.B'' = Some ''com/x/B.class''"
  by code_simp+

lemma sample_lookup: "resolve_class_file sample_host ''com.x.A'' None [''/r''] = Inr ''/r/com/x/A.class''"
  by (simp add: resolve_class_file_def sample_relative Let_def sample_host_def path_push_def path_starts_with_def components_def)

lemma link_out_refused: "is_err (resolve_class_file sample_host ''com.x.B'' None [''/r''])"
  by (simp add: resolve_class_file_def sample_relative Let_def sample_host_def path_push_def path_starts_with_def components_def)


end
