(* ===== verification/ClassReads.thy ===== *)
theory ClassReads
  imports Reads Generics SourcePaths "HOL-Library.List_Lexorder" "HOL-Library.Char_ord"
begin

text \<open>
  The class-reading tools of \<open>handlers.rs\<close> over a source of reads: the copy of a class a name stands for, the methods and
  fields of a class as Java source, and their listings.  Folding to lower case is a parameter, because it goes by Unicode
  tables.  A walk up the superclasses is a partial function: it ends when the chain does.
\<close>

section \<open>Operations over a source of reads\<close>

type_synonym 'a check_op = "reads_source \<Rightarrow> (string + 'a) \<times> reads_source"

definition k_return :: "'a \<Rightarrow> 'a check_op" where "k_return a r = (Inr a, r)"

definition k_fail :: "string \<Rightarrow> 'a check_op" where "k_fail e r = (Inl e, r)"

definition k_bind :: "'a check_op \<Rightarrow> ('a \<Rightarrow> 'b check_op) \<Rightarrow> 'b check_op" where
  "k_bind op f r = (case op r of (Inl e, r1) \<Rightarrow> (Inl e, r1) | (Inr a, r1) \<Rightarrow> f a r1)"

text \<open>\<open>.map_err(...)?\<close>, \<open>.unwrap_or(...)\<close>, and the result itself.\<close>

definition or_err :: "string \<Rightarrow> 'a reads_op \<Rightarrow> 'a check_op" where
  "or_err what op r = (case op r of (Inl e, r1) \<Rightarrow> (Inl (what @ show_jdwp_error e), r1) | (Inr a, r1) \<Rightarrow> (Inr a, r1))"

definition or_else :: "'a \<Rightarrow> 'a reads_op \<Rightarrow> 'a check_op" where
  "or_else dflt op r = (case op r of (Inl _, r1) \<Rightarrow> (Inr dflt, r1) | (Inr a, r1) \<Rightarrow> (Inr a, r1))"

definition k_result :: "'a reads_op \<Rightarrow> 'a jdwp_result check_op" where
  "k_result op r = (case op r of (x, r1) \<Rightarrow> (Inr x, r1))"

fun k_map :: "('a \<Rightarrow> 'b check_op) \<Rightarrow> 'a list \<Rightarrow> 'b list check_op" where
  "k_map f [] = k_return []"
| "k_map f (x # xs) = k_bind (f x) (\<lambda>y. k_bind (k_map f xs) (\<lambda>ys. k_return (y # ys)))"

section \<open>Which copy of a class\<close>

definition reads_describe_loader :: "debuggee \<Rightarrow> u64 \<Rightarrow> string check_op" where
  "reads_describe_loader d cid =
     k_bind (k_result (reads_get_class_loader d cid)) (\<lambda>x.
       case x of
         Inl e \<Rightarrow> k_return (''(loader unreadable: '' @ show_jdwp_error e @ '')'')
       | Inr None \<Rightarrow> k_return ''bootstrap''
       | Inr (Some loader) \<Rightarrow>
           let bare = ''0x'' @ show_hex (unat loader) in
           k_bind (k_result (reads_get_object_reference_type d loader)) (\<lambda>y.
             case y of
               Inl _ \<Rightarrow> k_return bare
             | Inr lt \<Rightarrow> k_bind (k_result (reads_get_signature d lt)) (\<lambda>z.
                 case z of Inl _ \<Rightarrow> k_return bare | Inr sig \<Rightarrow> k_return (decode_internal_name sig @ ''@'' @ bare))))"

definition reads_describe_class_loaders :: "debuggee \<Rightarrow> u64 list \<Rightarrow> string list check_op" where
  "reads_describe_class_loaders d ids =
     k_map (\<lambda>(i, cid). k_bind (reads_describe_loader d cid) (\<lambda>l. k_return (''#'' @ show_nat i @ '' '' @ l))) (zip [0..<length ids] ids)"

definition many_copies_note :: "string \<Rightarrow> string list \<Rightarrow> string" where
  "many_copies_note class_name labels =
     ([CHR 0x0A] @ uni 0x26A0 @ uni 0xFE0F @ ''  '' @ class_name @ '' is loaded by '' @ show_nat (length labels)
     @ '' classloaders and this call used the first ('' @ (case labels of [] \<Rightarrow> ''#0'' | l # _ \<Rightarrow> l)
     @ ''). Each copy is a different type with its own statics '' @ uni 0x2014
     @ '' on WildFly a library packed into more than one deployment'' @ [CHR 0x27]
     @ ''s WEB-INF/lib genuinely holds different values per war, so this may not be the copy you ''
     @ ''meant. Loaded by: '' @ join '';  '' labels @ ''. Target a specific one with '' @ class_name @ ''@<the 0x''
     @ uni 0x2026 @ '' you want>.'')"

fun try_descriptors :: "debuggee \<Rightarrow> string \<Rightarrow> u64 option \<Rightarrow> string list \<Rightarrow> (u64 \<times> string option) check_op" where
  "try_descriptors d class_name want [] =
     k_fail ((class_name @ '' is not loaded in the debuggee. Either the name is wrong, or the JVM has not loaded it ''
     @ ''yet '' @ uni 0x2014
     @ '' classes load on first use, so an untouched code path has none of its classes present. ''
     @ ''To tell those apart: debug.list_classes with filter '' @ [CHR 0x22] @ ''*.'' @ last (split_on CHR ''.'' class_name) @ [CHR 0x22]
     @ ''.''))"
| "try_descriptors d class_name want (sig # sigs) =
     k_bind (or_err (''Failed to resolve '' @ class_name @ '': '') (reads_classes_by_signature d sig)) (\<lambda>found.
       let ids = map ci_type_id found in
       if ids = [] then try_descriptors d class_name want sigs
       else (case want of
           Some w \<Rightarrow>
             k_bind (reads_describe_class_loaders d ids) (\<lambda>labels.
               case pick_by_loader w ids labels of
                 Some i \<Rightarrow> k_return (i, None)
               | None \<Rightarrow>
                   k_fail ((class_name @ '' is loaded '' @ show_nat (length ids) @ '' time(s), but none by classloader 0x'' @ show_hex (unat w)
     @ ''. Loaded by: '' @ join '';  '' labels @ ''. Loader ids are weak references and change across a redeploy '' @ uni 0x2014
     @ '' re-read the list.'')))
         | None \<Rightarrow>
             if length ids = 1 then k_return (hd ids, None)
             else k_bind (reads_describe_class_loaders d ids) (\<lambda>labels. k_return (hd ids, Some (many_copies_note class_name labels)))))"

definition resolve_loaded_class_for_read :: "debuggee \<Rightarrow> string \<Rightarrow> (u64 \<times> string option) check_op" where
  "resolve_loaded_class_for_read d given =
     (let (class_name, want) = split_loader_selector given in
      try_descriptors d class_name want (descriptor_candidates class_name))"

section \<open>Members as Java source\<close>

definition ACC_STATIC :: u32 where "ACC_STATIC = 0x0008"
definition ACC_NATIVE :: u32 where "ACC_NATIVE = 0x0100"
definition ACC_ABSTRACT :: u32 where "ACC_ABSTRACT = 0x0400"
definition ACC_FINAL :: u32 where "ACC_FINAL = 0x0010"
definition ACC_VOLATILE :: u32 where "ACC_VOLATILE = 0x0040"

definition has_flag :: "u32 \<Rightarrow> u32 \<Rightarrow> bool" where "has_flag bits f = (and bits f \<noteq> 0)"

text \<open>The text between the first parenthesis that opens and the first that closes, when they stand in that order.\<close>

definition parameter_list :: "string \<Rightarrow> string option" where
  "parameter_list sig =
     (let a = length (takeWhile (\<lambda>c. c \<noteq> CHR ''('') sig); b = length (takeWhile (\<lambda>c. c \<noteq> CHR '')'') sig) in
      if a < length sig \<and> b < length sig \<and> a < b then Some (take (b - (a + 1)) (drop (a + 1) sig)) else None)"

text \<open>\<open>L...;\<close>: up to and with the semicolon, or all that is left.\<close>

definition class_text :: "string \<Rightarrow> string \<times> string" where
  "class_text s =
     (let pre = takeWhile (\<lambda>c. c \<noteq> CHR '';'') s in
      if length pre < length s then (pre @ '';'', drop (length pre + 1) s) else (s, []))"

fun param_types_from :: "nat \<Rightarrow> string \<Rightarrow> string list" where
  "param_types_from 0 s = []"
| "param_types_from (Suc n) s =
     (case s of
        [] \<Rightarrow> []
      | first # r \<Rightarrow>
          (let more_dims = (if first = CHR ''['' then takeWhile (\<lambda>c. c = CHR ''['') r else []);
               r1 = drop (length more_dims) r;
               (t, base, r2) = (if first \<noteq> CHR ''['' then ([first], first, r)
                 else (case r1 of [] \<Rightarrow> (first # more_dims, CHR ''['', []) | b # r2 \<Rightarrow> (first # more_dims @ [b], b, r2)));
               (tail, r3) = (if base = CHR ''L'' then class_text r2 else ([], r2))
           in (t @ tail) # param_types_from n r3))"

definition sig_param_types :: "string \<Rightarrow> string list" where
  "sig_param_types sig = (case parameter_list sig of None \<Rightarrow> [] | Some s \<Rightarrow> param_types_from (length s) s)"

fun arg_count_from :: "nat \<Rightarrow> string \<Rightarrow> nat" where
  "arg_count_from 0 s = 0"
| "arg_count_from (Suc n) s =
     (case s of
        [] \<Rightarrow> 0
      | c # r \<Rightarrow>
          if c = CHR ''['' then arg_count_from n r
          else if c = CHR ''L'' then Suc (arg_count_from n (snd (class_text r)))
          else Suc (arg_count_from n r))"

definition sig_arg_count :: "string \<Rightarrow> nat" where
  "sig_arg_count sig = (case parameter_list sig of None \<Rightarrow> 0 | Some s \<Rightarrow> arg_count_from (length s) s)"

definition shown_type :: "string \<Rightarrow> string option \<Rightarrow> string" where
  "shown_type sig generic = (case Option.bind generic render_type of None \<Rightarrow> decode_signature sig | Some t \<Rightarrow> t)"

definition informative_generic_type :: "string \<Rightarrow> string option \<Rightarrow> string option" where
  "informative_generic_type sig generic =
     Option.bind (Option.bind generic render_type) (\<lambda>t. if t \<noteq> decode_signature sig then Some t else None)"

definition render_field :: "string \<Rightarrow> string \<Rightarrow> string option \<Rightarrow> u32 \<Rightarrow> string" where
  "render_field name sig generic bits =
     (if has_flag bits ACC_STATIC then ''static '' else []) @ (if has_flag bits ACC_FINAL then ''final '' else [])
     @ (if has_flag bits ACC_VOLATILE then ''volatile '' else []) @ shown_type sig generic @ '' '' @ name"

definition after_last_paren :: "string \<Rightarrow> string" where "after_last_paren s = last (split_on CHR '')'' s)"

definition render_method_row :: "string \<Rightarrow> string \<Rightarrow> string option \<Rightarrow> u32 \<Rightarrow> string" where
  "render_method_row name sig generic bits =
     (let (tps, ps, ret) = (case Option.bind generic render_method of
            Some g \<Rightarrow> (mp_type_params g, mp_params g, mp_ret g)
          | None \<Rightarrow> ([], map decode_signature (sig_param_types sig), decode_signature (after_last_paren sig)))
      in (if has_flag bits ACC_STATIC then ''static '' else []) @ (if has_flag bits ACC_ABSTRACT then ''abstract '' else [])
         @ (if has_flag bits ACC_NATIVE then ''native '' else [])
         @ (if tps = [] then [] else ''<'' @ join '', '' tps @ ''> '')
         @ ret @ '' '' @ name @ ''('' @ join '', '' ps @ '')'')"

section \<open>The listings\<close>

record list_members_args =
  lm_class_name :: string
  lm_name_filter :: "string option"
  lm_inherited :: bool
  lm_limit :: nat

record field_row =
  fr_owner :: string
  fr_is_static :: bool
  fr_name :: string
  fr_rendered :: string

definition owner_of :: "debuggee \<Rightarrow> u64 \<Rightarrow> string check_op" where
  "owner_of d i = k_bind (or_else [] (reads_get_signature d i)) (\<lambda>s. k_return (decode_signature s))"

definition name_passes :: "(string \<Rightarrow> string) \<Rightarrow> string option \<Rightarrow> string \<Rightarrow> bool" where
  "name_passes lower flt name = (case flt of None \<Rightarrow> True | Some f \<Rightarrow> contains (lower name) f)"

text \<open>The rows of one class of the walk.\<close>

definition method_rows_of :: "debuggee \<Rightarrow> (string \<Rightarrow> string) \<Rightarrow> string option \<Rightarrow> u64 \<Rightarrow> (string \<times> string) list check_op" where
  "method_rows_of d lower flt i =
     k_bind (owner_of d i) (\<lambda>owner.
     k_bind (or_err (''Failed to read the methods of '' @ owner @ '': '') (reads_get_methods d i)) (\<lambda>ms.
       k_return (map (\<lambda>m. (owner, render_method_row (mi_name m) (mi_signature m) (mi_generic_signature m) (mi_mod_bits m)))
         (filter (\<lambda>m. mi_name m \<noteq> ''<clinit>'' \<and> name_passes lower flt (mi_name m)) ms))))"

definition field_rows_of :: "debuggee \<Rightarrow> (string \<Rightarrow> string) \<Rightarrow> string option \<Rightarrow> u64 \<Rightarrow> field_row list check_op" where
  "field_rows_of d lower flt i =
     k_bind (owner_of d i) (\<lambda>owner.
     k_bind (or_err (''Failed to read the fields of '' @ owner @ '': '') (reads_get_fields d i)) (\<lambda>fs.
       k_return (map (\<lambda>f. \<lparr>fr_owner = owner, fr_is_static = has_flag (fld_mod_bits f) ACC_STATIC, fr_name = fld_name f,
            fr_rendered = render_field (fld_name f) (fld_signature f) (fld_generic_signature f) (fld_mod_bits f)\<rparr>)
         (filter (\<lambda>f. name_passes lower flt (fld_name f)) fs))))"

partial_function (option) walk_up ::
  "debuggee \<Rightarrow> (u64 \<Rightarrow> 'a list check_op) \<Rightarrow> bool \<Rightarrow> 'a list \<Rightarrow> u64 \<Rightarrow> reads_source \<Rightarrow> ((string + 'a list) \<times> reads_source) option"
where
  "walk_up d rows_of inherited rows i r =
     (case rows_of i r of
        (Inl e, r1) \<Rightarrow> Some (Inl e, r1)
      | (Inr more_rows, r1) \<Rightarrow>
          if \<not> inherited then Some (Inr (rows @ more_rows), r1)
          else (case or_err ''Failed to walk the superclass chain: '' (reads_get_superclass d i) r1 of
              (Inl e, r2) \<Rightarrow> Some (Inl e, r2)
            | (Inr None, r2) \<Rightarrow> Some (Inr (rows @ more_rows), r2)
            | (Inr (Some p), r2) \<Rightarrow> walk_up d rows_of inherited (rows @ more_rows) p r2))"

definition collect_method_rows ::
  "debuggee \<Rightarrow> (string \<Rightarrow> string) \<Rightarrow> u64 \<Rightarrow> bool \<Rightarrow> string option \<Rightarrow> reads_source \<Rightarrow> ((string + (string \<times> string) list) \<times> reads_source) option"
where
  "collect_method_rows d lower start inherited flt = walk_up d (method_rows_of d lower flt) inherited [] start"

definition collect_field_rows ::
  "debuggee \<Rightarrow> (string \<Rightarrow> string) \<Rightarrow> u64 \<Rightarrow> bool \<Rightarrow> string option \<Rightarrow> reads_source \<Rightarrow> ((string + field_row list) \<times> reads_source) option"
where
  "collect_field_rows d lower start inherited flt = walk_up d (field_rows_of d lower flt) inherited [] start"

text \<open>The filter as the walk and the heading use it.\<close>

definition wanted_name :: "(string \<Rightarrow> string) \<Rightarrow> list_members_args \<Rightarrow> string option" where
  "wanted_name lower a = (case lm_name_filter a of None \<Rightarrow> None | Some f \<Rightarrow> if f = [] then None else Some (lower f))"

definition read_listing ::
  "(string option \<Rightarrow> u64 \<Rightarrow> reads_source \<Rightarrow> ((string + 'a list) \<times> reads_source) option) \<Rightarrow> debuggee \<Rightarrow> (string \<Rightarrow> string)
   \<Rightarrow> list_members_args \<Rightarrow> reads_source \<Rightarrow> ((string + 'a list \<times> string option) \<times> reads_source) option"
where
  "read_listing collect d lower a r =
     (let class_name = trim (lm_class_name a) in
      if class_name = [] then Some (Inl ''class_name is required (e.g. com.example.OrderService)'', r)
      else (case resolve_loaded_class_for_read d class_name r of
          (Inl e, r1) \<Rightarrow> Some (Inl e, r1)
        | (Inr (target, note'), r1) \<Rightarrow>
            map_option (\<lambda>(x, r2). (res_map (\<lambda>rows. (rows, note')) x, r2)) (collect (wanted_name lower a) target r1)))"

definition read_method_listing ::
  "debuggee \<Rightarrow> (string \<Rightarrow> string) \<Rightarrow> list_members_args \<Rightarrow> reads_source \<Rightarrow> ((string + (string \<times> string) list \<times> string option) \<times> reads_source) option"
where
  "read_method_listing d lower a =
     read_listing (\<lambda>flt target. collect_method_rows d lower target (lm_inherited a) flt) d lower a"

definition read_field_listing ::
  "debuggee \<Rightarrow> (string \<Rightarrow> string) \<Rightarrow> list_members_args \<Rightarrow> reads_source \<Rightarrow> ((string + field_row list \<times> string option) \<times> reads_source) option"
where
  "read_field_listing d lower a =
     read_listing (\<lambda>flt target. collect_field_rows d lower target (lm_inherited a) flt) d lower a"

definition listing_note :: "(string \<Rightarrow> string) \<Rightarrow> list_members_args \<Rightarrow> string" where
  "listing_note lower a =
     (case wanted_name lower a of None \<Rightarrow> [] | Some f \<Rightarrow> '' name~'' @ [CHR 0x22] @ f @ [CHR 0x22])
     @ (if lm_inherited a then '' +inherited'' else [])"

definition listing_row :: "list_members_args \<Rightarrow> string \<times> string \<Rightarrow> string" where
  "listing_row a = (\<lambda>(owner, rendered).
     (if lm_inherited a \<and> owner \<noteq> trim (lm_class_name a) then rendered @ ''  [from '' @ owner @ '']'' else rendered) @ [CHR 0x0A])"

text \<open>Heading, rows and the count of what is hidden, of rows already in order.\<close>

definition listing_of :: "(string \<Rightarrow> string) \<Rightarrow> string \<Rightarrow> list_members_args \<Rightarrow> (string \<times> string) list \<Rightarrow> string" where
  "listing_of lower what a rows =
     (let limit = max (lm_limit a) 1; matched = length rows; shown = min matched limit in
      show_nat shown @ ''/'' @ show_nat matched @ '' '' @ what @ ''(s) on '' @ trim (lm_class_name a) @ listing_note lower a @ '':'' @ [CHR 0x0A]
      @ concat (map (listing_row a) (take limit rows))
      @ (if shown < matched
         then uni 0x2026 @ '' +'' @ show_nat (matched - shown) @ '' more (raise limit or use name_filter)'' @ [CHR 0x0A] else []))"

definition render_method_listing :: "(string \<Rightarrow> string) \<Rightarrow> (string \<times> string) list \<times> string option \<Rightarrow> list_members_args \<Rightarrow> string" where
  "render_method_listing lower = (\<lambda>(rows, note') a.
     listing_of lower ''method'' a (sort_key snd rows)
     @ (if rows = [] \<and> wanted_name lower a \<noteq> None
        then ''No method name matched. Drop name_filter to see the whole class.'' @ [CHR 0x0A] else [])
     @ (case note' of None \<Rightarrow> [] | Some n \<Rightarrow> n))"

definition explain_no_fields :: "bool \<Rightarrow> bool \<Rightarrow> string" where
  "explain_no_fields filtered inherited =
     (if filtered then ''No field name matched. Drop name_filter to see the whole class.'' @ [CHR 0x0A]
      else (''This class RESOLVED and declares no fields of its own '' @ uni 0x2014
     @ '' that is an answer, not a lookup failure. An interface with no constants, a lambda'' @ [CHR 0x27]
     @ ''s hidden class that captured nothing, and a subclass whose state all lives on its ''
     @ ''parent each look like this.'')
        @ (if inherited then '' Its superclass chain declares none either.'' @ [CHR 0x0A]
           else '' Pass inherited:true to walk the superclass chain.'' @ [CHR 0x0A]))"

text \<open>Statics first, then by name: a stable sort by name of the statics and of the others.\<close>

definition field_order :: "field_row list \<Rightarrow> field_row list" where
  "field_order rows =
     sort_key fr_name (filter fr_is_static rows) @ sort_key fr_name (filter (\<lambda>f. \<not> fr_is_static f) rows)"

definition render_field_listing :: "(string \<Rightarrow> string) \<Rightarrow> field_row list \<times> string option \<Rightarrow> list_members_args \<Rightarrow> string" where
  "render_field_listing lower = (\<lambda>(rows, note') a.
     listing_of lower ''field'' a (map (\<lambda>f. (fr_owner f, fr_rendered f)) (field_order rows))
     @ (if rows = [] then explain_no_fields (wanted_name lower a \<noteq> None) (lm_inherited a) else [])
     @ (case note' of None \<Rightarrow> [] | Some n \<Rightarrow> n))"

text \<open>What a class search that found nothing says: the classes it would find with slash and dot read alike.\<close>

definition other_spellings :: "string list \<Rightarrow> string option \<Rightarrow> string list" where
  "other_spellings names flt =
     (case flt of None \<Rightarrow> []
      | Some f \<Rightarrow> take 10 (filter (\<lambda>n. \<not> class_matches n f \<and> class_matches (dotted n) (dotted f)) names))"

definition explain_no_match :: "string list \<Rightarrow> string option \<Rightarrow> string" where
  "explain_no_match names flt =
     (let found = other_spellings names flt in
      if found = [] then
        (''Nothing matched '' @ uni 0x2014
     @ '' and this tool cannot tell you which of three things that means. The class may not be ''
     @ ''loaded yet: classes load on first use, so an untouched code path contributes none of ''
     @ ''its classes. There may be no such class. Or the name may simply be spelled differently '' @ ''here ''
     @ uni 0x2014 @ '' a hidden class (a lambda, a method reference, a generated proxy) is named ''
     @ ''`Outer$$Lambda/<a suffix the JVM assigned>`, with the `/` part of the name, and a ''
     @ ''nested class is `Outer$Inner`. Filters are substrings, so a fragment of the name ''
     @ ''matches where the whole of it may not.'' @ [CHR 0x0A])
      else
        (''Nothing matched that spelling '' @ uni 0x2014 @ '' but '' @ show_nat (length found)
     @ '' loaded class(es) match it once `/` and `.` are read as the same separator, so this is ''
     @ ''a spelling difference and NOT a class that is missing or unfetched. The debuggee has ''
     @ ''them. Search for one of these instead:'' @ [CHR 0x0A])
        @ concat (map (\<lambda>n. n @ [CHR 0x0A]) found))"

end
