(* ===== verification/StaleCheck.thy ===== *)
theory StaleCheck
  imports ClassReads ClassFile SourcePaths
begin

text \<open>
  Is the debuggee running the build on disk (\<open>handlers.rs\<close>): the loaded class and the parsed class file brought into one
  shape, the refusals a redefinition would meet, the comparison of line tables and of bytecode, the check an arming makes
  unasked, the check of a source file against the class compiled from it, and what each of them says.  Modification times
  are nanoseconds; a file without one has none.
\<close>

definition ln :: "string \<Rightarrow> string" where "ln s = s @ [CHR 0x0A]"

definition hex04 :: "u16 \<Rightarrow> string" where "hex04 n = ''0x'' @ pad_left 4 CHR ''0'' (show_hex (unat n))"

definition hex02 :: "u8 \<Rightarrow> string" where "hex02 n = ''0x'' @ pad_left 2 CHR ''0'' (show_hex (unat n))"

section \<open>The shape of a class\<close>

definition CLASS_MODIFIER_MASK :: u16 where
  "CLASS_MODIFIER_MASK = or (or (or (or (or 0x0001 0x0010) 0x0200) 0x0400) 0x2000) 0x4000"

definition METHOD_MODIFIER_MASK :: u16 where
  "METHOD_MODIFIER_MASK = or (or (or (or (or (or (or 0x0001 0x0002) 0x0004) 0x0008) 0x0010) 0x0020) 0x0100) 0x0400"

definition FIELD_MODIFIER_MASK :: u16 where
  "FIELD_MODIFIER_MASK = or (or (or (or (or (or 0x0001 0x0002) 0x0004) 0x0008) 0x0010) 0x0040) 0x0080"

record declared_member =
  dm_name :: string
  dm_descriptor :: string
  dm_modifiers :: u16
  dm_label :: string

definition dm_key :: "declared_member \<Rightarrow> string \<times> string" where
  "dm_key m = (dm_name m, dm_descriptor m)"

definition declared_method :: "string \<Rightarrow> string \<Rightarrow> u16 \<Rightarrow> declared_member" where
  "declared_method name descriptor mod_bits =
     \<lparr>dm_name = name, dm_descriptor = descriptor, dm_modifiers = and mod_bits METHOD_MODIFIER_MASK,
      dm_label = name @ descriptor\<rparr>"

definition declared_field :: "string \<Rightarrow> string \<Rightarrow> u16 \<Rightarrow> declared_member" where
  "declared_field name descriptor mod_bits =
     \<lparr>dm_name = name, dm_descriptor = descriptor, dm_modifiers = and mod_bits FIELD_MODIFIER_MASK,
      dm_label = name @ '': '' @ descriptor\<rparr>"

record class_shape =
  sh_access_flags :: u16
  sh_super_class :: "string option"
  sh_interfaces :: "string list"
  sh_fields :: "declared_member list"
  sh_methods :: "declared_member list"

record predicted_refusal =
  pr_code :: nat
  pr_name :: string
  pr_detail :: string

type_synonym redefine_forecast = "predicted_refusal list"

definition members_gained :: "declared_member list \<Rightarrow> declared_member list \<Rightarrow> string list" where
  "members_gained earlier later =
     map dm_label (filter (\<lambda>m. \<not> list_ex (\<lambda>b. dm_key b = dm_key m) earlier) later)"

definition members_remodified :: "declared_member list \<Rightarrow> declared_member list \<Rightarrow> string list" where
  "members_remodified loaded built =
     List.map_filter (\<lambda>b. case find (\<lambda>l. dm_key l = dm_key b) loaded of
         None \<Rightarrow> None
       | Some was \<Rightarrow>
           if dm_modifiers was \<noteq> dm_modifiers b
           then Some (dm_label b @ '' ('' @ hex04 (dm_modifiers was) @ '' -> '' @ hex04 (dm_modifiers b) @ '')'')
           else None) built"

section \<open>The forecast of a redefinition\<close>

definition refusal_if :: "bool \<Rightarrow> nat \<Rightarrow> string \<Rightarrow> string \<Rightarrow> redefine_forecast" where
  "refusal_if c code name detail = (if c then [\<lparr>pr_code = code, pr_name = name, pr_detail = detail\<rparr>] else [])"

definition part_if :: "string list \<Rightarrow> string \<Rightarrow> string list" where
  "part_if xs s = (if xs = [] then [] else [s])"

definition hierarchy_changes :: "class_shape \<Rightarrow> class_shape \<Rightarrow> string list" where
  "hierarchy_changes loaded built =
     (if sh_super_class loaded \<noteq> sh_super_class built
      then [(''superclass '' @ (case sh_super_class loaded of None \<Rightarrow> ''(none)'' | Some c \<Rightarrow> c) @ '' -> '' @ (case sh_super_class built of None \<Rightarrow> ''(none)'' | Some c \<Rightarrow> c))] else [])
     @ (if sh_interfaces loaded \<noteq> sh_interfaces built
        then [(''interfaces ['' @ join '', '' (sh_interfaces loaded) @ ''] -> ['' @ join '', '' (sh_interfaces built) @ '']'')] else [])"

definition schema_changes :: "class_shape \<Rightarrow> class_shape \<Rightarrow> string list" where
  "schema_changes loaded built =
     (let added = members_gained (sh_fields loaded) (sh_fields built);
          removed = members_gained (sh_fields built) (sh_fields loaded);
          remodified = members_remodified (sh_fields loaded) (sh_fields built) in
      part_if added (''adds '' @ show_nat (length added) @ '' field(s): '' @ join '', '' added)
      @ part_if removed (''removes '' @ show_nat (length removed) @ '' field(s): '' @ join '', '' removed)
      @ part_if remodified (''changes '' @ show_nat (length remodified) @ '' field modifier(s): '' @ join '', '' remodified))"

definition forecast_redefine :: "class_shape \<Rightarrow> class_shape \<Rightarrow> redefine_forecast" where
  "forecast_redefine loaded built =
     (let hierarchy = hierarchy_changes loaded built;
          parts = schema_changes loaded built;
          added = members_gained (sh_methods loaded) (sh_methods built);
          removed = members_gained (sh_methods built) (sh_methods loaded);
          remodified = members_remodified (sh_methods loaded) (sh_methods built) in
      refusal_if (sh_access_flags loaded \<noteq> sh_access_flags built) 70 ''CLASS_MODIFIERS_CHANGE_NOT_IMPLEMENTED''
        (''the class modifiers changed ('' @ hex04 (sh_access_flags loaded) @ '' loaded, '' @ hex04 (sh_access_flags built)
         @ '' in your build)'')
      @ refusal_if (hierarchy \<noteq> []) 66 ''HIERARCHY_CHANGE_NOT_IMPLEMENTED'' (join ''; '' hierarchy)
      @ refusal_if (parts \<noteq> []) 64 ''SCHEMA_CHANGE_NOT_IMPLEMENTED'' (join ''; '' parts)
      @ refusal_if (added \<noteq> []) 63 ''ADD_METHOD_NOT_IMPLEMENTED''
          (''adds '' @ show_nat (length added) @ '' method(s): '' @ join '', '' added)
      @ refusal_if (removed \<noteq> []) 67 ''DELETE_METHOD_NOT_IMPLEMENTED''
          (''removes '' @ show_nat (length removed) @ '' method(s): '' @ join '', '' removed)
      @ refusal_if (remodified \<noteq> []) 71 ''METHOD_MODIFIERS_CHANGE_NOT_IMPLEMENTED''
          (''changes '' @ show_nat (length remodified) @ '' method modifier(s): '' @ join '', '' remodified))"

definition render_redefine_forecast :: "string \<Rightarrow> redefine_forecast \<Rightarrow> string" where
  "render_redefine_forecast cname f =
     (if f = [] then
        ln (uni 0x1F501 @ '' Redefine: NO STRUCTURAL CHANGE DETECTED '' @ uni 0x2014
     @ '' declared fields, methods, their modifiers, the class modifiers, the superclass and the ''
     @ ''interface list all match the loaded '' @ cname @ '', so nothing here trips one of HotSpot''
     @ [CHR 0x27] @ ''s structural refusals.'' @ [CHR 0x0A]
     @ ''   That is NOT a promise the swap succeeds. The refusals a static comparison cannot see ''
     @ ''are a verifier rejection, INVALID_TYPESTATE against instances that already exist, and a ''
     @ ''class-file version this JVM will not read '' @ uni 0x2014
     @ '' and canAddMethod / canUnrestrictedlyRedefineClasses vary by JVM. debug.reload_class {'' @ [CHR 0x22]
     @ ''dry_run'' @ [CHR 0x22]
     @ '':true} is the authority on what this VM can do; the swap itself is the only proof.'')
      else
        ln (uni 0x1F6A8 @ '' Redefine WILL BE REFUSED: RedefineClasses cannot install this build into the running ''
     @ cname @ ''. HotSpot permits METHOD BODY changes only, and this build changes the class''
     @ [CHR 0x27] @ ''s shape:'')
        @ concat (map (\<lambda>r. ln (''   '' @ uni 0x2022 @ '' '' @ pr_name r @ '' ('' @ show_nat (pr_code r) @ '') '' @ uni 0x2014 @ '' '' @ pr_detail r)) f)
        @ ln (''   The JVM answers with the FIRST of these it reaches, so clearing one can reveal the ''
     @ ''next. Recompiling will not help '' @ uni 0x2014
     @ '' a restart or a real redeploy is the route. One caveat on the other side: a member that ''
     @ ''differs only because the two builds came from different javac versions (a bridge ''
     @ ''method, a synthetic accessor) would read here as an added or removed method, so check ''
     @ ''that your class root is a build of the same source tree.''))"

text \<open>The failure of a redefinition, in words.\<close>

definition redefine_advice :: "u16 \<Rightarrow> string" where
  "redefine_advice code =
     (if code = 60 then (''the bytes are not a class file this JVM can parse. Recompile and check the path ''
     @ ''resolved to the class you meant.'')
      else if code = 62 then (''the class file parses but the JVM'' @ [CHR 0x27]
     @ ''s verifier rejected it. This is usually a build problem rather than an edit the JVM '' @ ''disallows ''
     @ uni 0x2014 @ '' a class compiled against a different version of something it calls. Rebuild the whole ''
     @ ''module, not just this file.'')
      else if code = 63 then (''you ADDED a method. HotSpot permits method BODY changes only. Note that a new lambda, ''
     @ ''an anonymous class body or a new switch arm can add a synthetic method without looking ''
     @ ''like a new method in the source. This needs a real redeploy.'')
      else if code = 64 then (''you added or removed a FIELD (a schema change). HotSpot permits method body changes ''
     @ ''only, and it cannot re-shape objects that already exist. This needs a real redeploy.'')
      else if code = 65 then (''the JVM refused the redefinition in its current state (INVALID_TYPESTATE) '' @ uni 0x2014
     @ '' this is what it answers when the change cannot be applied to instances that already ''
     @ ''exist. Treat it as needing a redeploy.'')
      else if code = 66 then (''you changed the class HIERARCHY '' @ uni 0x2014
     @ '' a different superclass or a different interface list. HotSpot permits method body ''
     @ ''changes only. This needs a real redeploy.'')
      else if code = 67 then (''you REMOVED a method. HotSpot permits method body changes only. This needs a real '' @ ''redeploy.'')
      else if code = 68 then (''the class file'' @ [CHR 0x27]
     @ ''s version is one this JVM cannot read: it was compiled by a newer JDK than the one ''
     @ ''running. Compile with the target JVM'' @ [CHR 0x27] @ ''s --release, then try again.'')
      else if code = 69 then (''the class file declares a DIFFERENT class than the one being redefined. The path ''
     @ ''resolved to the wrong file '' @ uni 0x2014
     @ '' check the class root really is where the package tree starts in the build output.'')
      else if code = 70 then (''you changed a CLASS modifier (public/final/abstract). HotSpot permits method body ''
     @ ''changes only. This needs a real redeploy.'')
      else if code = 71 then (''you changed a METHOD modifier '' @ uni 0x2014
     @ '' static, final, synchronized, or an access level. HotSpot permits method BODY changes ''
     @ ''only, and a modifier is not a body. This needs a real redeploy.'')
      else if code = 99 then (''this JVM does not implement RedefineClasses at all. A redeploy is the only route on '' @ ''this VM.'')
      else (''the JVM refused the redefinition.''))"

definition foreseeable_note :: string where
  "foreseeable_note = ([CHR 0x0A] @ ''   This one was predictable from the class file: debug.check_stale reports which ''
     @ ''structural refusal a build would hit before anything is sent (DISC-13), and it names ''
     @ ''every one of them rather than just the first the JVM reached.'')"

definition explain_redefine_failure :: "string \<Rightarrow> path \<Rightarrow> jdwp_error \<Rightarrow> string" where
  "explain_redefine_failure cname p e =
     (case e of
        JdwpErrorCode code name \<Rightarrow>
          (uni 0x274C @ '' '' @ cname @ '' was NOT reloaded '' @ uni 0x2014
     @ '' the JVM refused the bytes in '' @ p @ '': '' @ name @ '' ('' @ show_nat (unat code) @ '').'' @ [CHR 0x0A]
     @ ''   '' @ redefine_advice code @ [CHR 0x0A]
     @ ''   A redefinition is all-or-nothing, so the JVM is running exactly what it was running ''
     @ ''before this call.'' @ (if code \<in> {63, 64, 66, 67, 70, 71} then foreseeable_note else []))
      | _ \<Rightarrow> (''Failed to reload '' @ cname @ '' from '' @ p @ '': '' @ show_jdwp_error e
     @ ''. The JVM applies a redefinition all-or-nothing, so nothing changed.''))"

section \<open>Both sides brought into a shape\<close>

definition dotted_from_signature :: "string \<Rightarrow> string" where
  "dotted_from_signature sig =
     (let internal = (case strip_prefix_char CHR ''L'' sig of None \<Rightarrow> sig
        | Some s \<Rightarrow> (case strip_suffix_char CHR '';'' s of None \<Rightarrow> sig | Some i \<Rightarrow> i)) in
      decode_internal_name internal)"

text \<open>\<open>u16::try_from(bits & 0xFFFF).unwrap_or(0)\<close>: the conversion cannot fail.\<close>

definition mod_bits_u16 :: "u32 \<Rightarrow> u16" where "mod_bits_u16 bits = ucast (and bits 0xFFFF)"

definition loaded_superclass :: "debuggee \<Rightarrow> u64 \<Rightarrow> string option check_op" where
  "loaded_superclass d i =
     k_bind (or_err (''Failed to read the loaded class'' @ [CHR 0x27] @ ''s superclass: '' @ []) (reads_get_superclass d i)) (\<lambda>p.
       case p of
         None \<Rightarrow> k_return None
       | Some s \<Rightarrow>
           k_bind (or_err (''Failed to read the loaded superclass'' @ [CHR 0x27] @ ''s name: '' @ []) (reads_get_signature d s))
             (\<lambda>sig. k_return (Some (dotted_from_signature sig))))"

definition loaded_interfaces :: "debuggee \<Rightarrow> u64 \<Rightarrow> string list check_op" where
  "loaded_interfaces d i =
     k_bind (or_err (''Failed to read the loaded class'' @ [CHR 0x27] @ ''s interfaces: '' @ []) (reads_get_interfaces d i)) (\<lambda>ids.
     k_bind (k_map (\<lambda>j. k_bind (or_err (''Failed to read a loaded interface'' @ [CHR 0x27] @ ''s name: '' @ []) (reads_get_signature d j))
        (\<lambda>s. k_return (dotted_from_signature s))) ids) (\<lambda>names. k_return (sort names)))"

definition loaded_class_shape :: "debuggee \<Rightarrow> u64 \<Rightarrow> class_shape check_op" where
  "loaded_class_shape d i =
     k_bind (or_err (''Failed to read the loaded class'' @ [CHR 0x27] @ ''s modifiers: '' @ []) (reads_get_modifiers d i)) (\<lambda>flags.
     k_bind (loaded_superclass d i) (\<lambda>super.
     k_bind (loaded_interfaces d i) (\<lambda>interfaces.
     k_bind (or_err (''Failed to list the loaded class'' @ [CHR 0x27] @ ''s fields: '' @ []) (reads_get_fields d i)) (\<lambda>fs.
     k_bind (or_err (''Failed to list the loaded class'' @ [CHR 0x27] @ ''s methods: '' @ []) (reads_get_methods d i)) (\<lambda>ms.
       k_return \<lparr>sh_access_flags = and (mod_bits_u16 flags) CLASS_MODIFIER_MASK, sh_super_class = super,
         sh_interfaces = interfaces,
         sh_fields = map (\<lambda>f. declared_field (fld_name f) (fld_signature f) (mod_bits_u16 (fld_mod_bits f))) fs,
         sh_methods = map (\<lambda>m. declared_method (mi_name m) (mi_signature m) (mod_bits_u16 (mi_mod_bits m))) ms\<rparr>)))))"

definition built_class_shape :: "class_file \<Rightarrow> class_shape" where
  "built_class_shape built =
     \<lparr>sh_access_flags = and (cf_access_flags built) CLASS_MODIFIER_MASK, sh_super_class = cf_super_class built,
      sh_interfaces = sort (cf_interfaces built),
      sh_fields = map (\<lambda>f. declared_field (ff_name f) (ff_descriptor f) (ff_access_flags f)) (cf_fields built),
      sh_methods = map (\<lambda>m. declared_method (fm_name m) (fm_descriptor m) (fm_access_flags m)) (cf_methods built)\<rparr>"

section \<open>Line tables\<close>

record method_lines =
  ml_name :: string
  ml_descriptor :: string
  ml_lines :: "(u64 \<times> u32) list"
  ml_comparable :: bool

definition ml_key :: "method_lines \<Rightarrow> string \<times> string" where "ml_key m = (ml_name m, ml_descriptor m)"

record bytecode_report =
  br_differing :: "string list"
  br_compared :: nat
  br_skipped :: nat
  br_unavailable :: bool

record stale_report =
  sr_matched :: nat
  sr_differing :: "string list"
  sr_only_in_jvm :: "string list"
  sr_only_in_build :: "string list"
  sr_skipped :: nat
  sr_bytecode :: "bytecode_report option"

definition stale_report_new :: stale_report where
  "stale_report_new = \<lparr>sr_matched = 0, sr_differing = [], sr_only_in_jvm = [], sr_only_in_build = [], sr_skipped = 0,
     sr_bytecode = None\<rparr>"

definition bytecode_report_new :: bytecode_report where
  "bytecode_report_new = \<lparr>br_differing = [], br_compared = 0, br_skipped = 0, br_unavailable = False\<rparr>"

definition is_stale :: "stale_report \<Rightarrow> bool" where
  "is_stale r = (sr_differing r \<noteq> [] \<or> sr_only_in_jvm r \<noteq> [] \<or> sr_only_in_build r \<noteq> []
     \<or> (case sr_bytecode r of None \<Rightarrow> False | Some b \<Rightarrow> br_differing b \<noteq> []))"

definition one_line_table :: "debuggee \<Rightarrow> u64 \<Rightarrow> u64 \<Rightarrow> ((u64 \<times> u32) list \<times> bool) reads_op" where
  "one_line_table d i m r =
     (case reads_get_line_table d i m r of
        (Inr t, r1) \<Rightarrow>
          let ls = map (\<lambda>e. (lte_line_code_index e, lte_line_number e)) (lt_lines t) in (Inr (ls, ls \<noteq> []), r1)
      | (Inl (JdwpErrorCode code n), r1) \<Rightarrow>
          if code = ERR_ABSENT_INFORMATION then (Inr ([], False), r1) else (Inl (JdwpErrorCode code n), r1)
      | (Inl e, r1) \<Rightarrow> (Inl e, r1))"

definition read_jvm_line_tables :: "debuggee \<Rightarrow> u64 \<Rightarrow> method_lines list check_op" where
  "read_jvm_line_tables d i =
     k_bind (or_err (''Failed to list the running class'' @ [CHR 0x27] @ ''s methods: '' @ []) (reads_get_methods d i)) (\<lambda>ms.
       k_map (\<lambda>m. k_bind (or_err (''Failed to read the line table of '' @ mi_name m @ '': '' @ []) (one_line_table d i (mi_method_id m)))
         (\<lambda>(ls, present). k_return \<lparr>ml_name = mi_name m, ml_descriptor = mi_signature m, ml_lines = ls, ml_comparable = present\<rparr>)) ms)"

definition first_difference :: "method_lines \<Rightarrow> method_lines \<Rightarrow> string" where
  "first_difference jvm f =
     (case find (\<lambda>(i, j, b). j \<noteq> b) (zip [0..<length (ml_lines jvm)] (zip (ml_lines jvm) (ml_lines f))) of
        Some (i, j, b) \<Rightarrow>
          (''entry '' @ show_nat i @ '' differs: the JVM has line '' @ show_int (sint (snd j)) @ '' at bytecode '' @ show_nat (unat (fst j))
     @ '', your build has line '' @ show_int (sint (snd b)) @ '' at '' @ show_nat (unat (fst b)))
      | None \<Rightarrow> (''the JVM'' @ [CHR 0x27] @ ''s table has '' @ show_nat (length (ml_lines jvm)) @ '' entr(ies), your build'' @ [CHR 0x27] @ ''s has ''
     @ show_nat (length (ml_lines f)) @ '' '' @ uni 0x2014 @ '' same prefix, different length''))"

definition built_lines :: "class_file_method \<Rightarrow> method_lines" where
  "built_lines m = \<lparr>ml_name = fm_name m, ml_descriptor = fm_descriptor m, ml_lines = fm_lines m,
     ml_comparable = (fm_has_code m \<and> fm_has_line_table m \<and> fm_lines m \<noteq> [])\<rparr>"

text \<open>One running method against the build, then what the build alone declares.\<close>

definition compare_method :: "method_lines list \<Rightarrow> method_lines \<Rightarrow> stale_report \<Rightarrow> stale_report" where
  "compare_method built jvm report =
     (case find (\<lambda>b. ml_key b = ml_key jvm) built of
        None \<Rightarrow> report\<lparr>sr_only_in_jvm := sr_only_in_jvm report @ [ml_name jvm @ ml_descriptor jvm]\<rparr>
      | Some f \<Rightarrow>
          if \<not> ml_comparable jvm \<or> \<not> ml_comparable f then report\<lparr>sr_skipped := sr_skipped report + 1\<rparr>
          else if ml_lines jvm = ml_lines f then report\<lparr>sr_matched := sr_matched report + 1\<rparr>
          else report\<lparr>sr_differing := sr_differing report
                 @ [ml_name jvm @ ml_descriptor jvm @ '' '' @ uni 0x2014 @ '' '' @ first_difference jvm f]\<rparr>)"

definition compare_line_tables :: "method_lines list \<Rightarrow> class_file_method list \<Rightarrow> stale_report" where
  "compare_line_tables running methods =
     (let built = map built_lines methods;
          report = fold (compare_method built) running stale_report_new in
      report\<lparr>sr_only_in_build := sr_only_in_build report
        @ map (\<lambda>f. ml_name f @ ml_descriptor f)
            (filter (\<lambda>f. \<not> list_ex (\<lambda>j. ml_key j = ml_key f) running) built)\<rparr>)"

section \<open>Bytecode\<close>

definition first_code_difference :: "bytes \<Rightarrow> bytes \<Rightarrow> string" where
  "first_code_difference running built =
     (case find (\<lambda>(i, a, b). a \<noteq> b) (zip [0..<length running] (zip running built)) of
        Some (at, r, b) \<Rightarrow>
          ''code differs at bytecode index '' @ show_nat at @ '' (the JVM has '' @ hex02 r @ '', your build has '' @ hex02 b @ '')''
      | None \<Rightarrow>
          if length running = length built then (''code is identical'')
          else (''code is identical for the first '' @ show_nat (min (length running) (length built)) @ '' byte(s), then the JVM has '' @ show_nat (length running)
     @ '' and your build has '' @ show_nat (length built)))"

definition bytecode_of_method ::
  "debuggee \<Rightarrow> u64 \<Rightarrow> class_file_method list \<Rightarrow> method_info \<Rightarrow> bytecode_report \<Rightarrow> bytecode_report check_op"
where
  "bytecode_of_method d i built m report =
     (case find (\<lambda>b. (fm_name b, fm_descriptor b) = (mi_name m, mi_signature m)) built of
        None \<Rightarrow> k_return report
      | Some f \<Rightarrow>
          if \<not> fm_has_code f then k_return (report\<lparr>br_skipped := br_skipped report + 1\<rparr>)
          else k_bind (k_result (reads_get_bytecodes d i (mi_method_id m))) (\<lambda>x.
            case x of
              Inr running \<Rightarrow>
                let report1 = report\<lparr>br_compared := br_compared report + 1\<rparr> in
                if running \<noteq> fm_code f
                then k_return (report1\<lparr>br_differing := br_differing report1
                       @ [mi_name m @ mi_signature m @ '' '' @ uni 0x2014 @ '' '' @ first_code_difference running (fm_code f)]\<rparr>)
                else k_return report1
            | Inl e \<Rightarrow>
                if (case e of JdwpErrorCode code _ \<Rightarrow> code = ERR_ABSENT_INFORMATION | _ \<Rightarrow> False)
                then k_return (report\<lparr>br_skipped := br_skipped report + 1\<rparr>)
                else k_fail (''Failed to read the bytecode of '' @ mi_name m @ '': '' @ show_jdwp_error e)))"

fun bytecode_of_methods ::
  "debuggee \<Rightarrow> u64 \<Rightarrow> class_file_method list \<Rightarrow> method_info list \<Rightarrow> bytecode_report \<Rightarrow> bytecode_report check_op"
where
  "bytecode_of_methods d i built [] report = k_return report"
| "bytecode_of_methods d i built (m # ms) report =
     k_bind (bytecode_of_method d i built m report) (bytecode_of_methods d i built ms)"

definition compare_bytecode :: "debuggee \<Rightarrow> u64 \<Rightarrow> class_file_method list \<Rightarrow> bytecode_report check_op" where
  "compare_bytecode d i built =
     k_bind (or_err (''Failed to ask the JVM what it supports (Capabilities): '' @ []) (reads_capabilities d)) (\<lambda>caps.
       if \<not> can_get_bytecodes caps then k_return (bytecode_report_new\<lparr>br_unavailable := True\<rparr>)
       else k_bind (or_err (''Failed to list the running methods: '' @ []) (reads_get_methods d i))
         (\<lambda>ms. bytecode_of_methods d i built ms bytecode_report_new))"

section \<open>The reply\<close>

definition bytecode_unavailable :: "stale_report \<Rightarrow> bool" where
  "bytecode_unavailable r = (case sr_bytecode r of None \<Rightarrow> False | Some b \<Rightarrow> br_unavailable b)"

definition render_stale_verdict :: "string \<Rightarrow> path \<Rightarrow> stale_report \<Rightarrow> nat \<Rightarrow> nat \<Rightarrow> string" where
  "render_stale_verdict cname p r comparable bytecode_compared =
     (if is_stale r then
        ln (uni 0x1F6A8 @ '' STALE: the JVM is NOT running the build in '' @ p @ ''.'' @ [CHR 0x0A] @ ''   '' @ show_nat (sr_matched r)
     @ '' of '' @ show_nat comparable @ '' comparable method(s) match; '' @ show_nat (length (sr_differing r)) @ '' differ.'')
      else if bytecode_unavailable r then
        ln (uni 0x26A0 @ '' Cannot tell: all '' @ show_nat comparable @ '' line-comparable method(s) of '' @ cname
     @ '' have identical line tables to '' @ p
     @ '', but you asked for a bytecode comparison and this JVM refused it ''
     @ ''(canGetBytecodes=false). Matching line tables mean NO LINE MOVED '' @ uni 0x2014
     @ '' not that the code is the same '' @ uni 0x2014 @ '' so the question you asked is unanswered here.'')
      else
        ln (uni 0x2705 @ '' '' @ cname @ '' matches your build: all '' @ show_nat comparable
     @ '' comparable method(s) have identical line tables to '' @ p @ (if 0 < bytecode_compared then '', and all '' @ show_nat bytecode_compared @ '' have identical bytecode'' else []) @ ''.''))"

definition render_line_table_section :: "stale_report \<Rightarrow> nat \<Rightarrow> string" where
  "render_line_table_section r limit =
     concat (map (\<lambda>l. ln (''   '' @ uni 0x2717 @ '' '' @ l)) (take limit (sr_differing r)))
     @ (if limit < length (sr_differing r)
        then ln (''   '' @ uni 0x2026 @ '' +'' @ show_nat (length (sr_differing r) - limit) @ '' more drifting method(s) (raise limit)'') else [])
     @ (if sr_only_in_jvm r \<noteq> []
        then ln (''   '' @ uni 0x2717 @ '' the RUNNING class declares '' @ show_nat (length (sr_only_in_jvm r)) @ '' method(s) your build does not: '' @ join '', '' (take limit (sr_only_in_jvm r))
     @ ''. That is a different class shape, not a moved line '' @ uni 0x2014
     @ '' debug.reload_class cannot fix it either, since HotSpot takes method bodies only.'') else [])
     @ (if sr_only_in_build r \<noteq> []
        then ln (''   '' @ uni 0x2717 @ '' your BUILD declares '' @ show_nat (length (sr_only_in_build r)) @ '' method(s) the running class does not: '' @ join '', '' (take limit (sr_only_in_build r))
     @ ''. Same conclusion: this is a redeploy, not a swap.'') else [])
     @ (if 0 < sr_skipped r then ln (''   '' @ show_nat (sr_skipped r) @ '' method(s) had no line table on one side or the other (abstract, native, or compiled ''
     @ ''without debug info) and were not compared.'') else [])"

definition render_bytecode_section :: "stale_report \<Rightarrow> nat \<Rightarrow> string" where
  "render_bytecode_section r limit =
     (case sr_bytecode r of
        None \<Rightarrow> []
      | Some b \<Rightarrow>
          if br_unavailable b then ln (''   '' @ uni 0x26A0
     @ '' bytecode NOT compared: this JVM reports canGetBytecodes=false, so that evidence is ''
     @ ''unavailable here. The line-table result above stands on its own; it is not confirmed by ''
     @ ''the code.'')
          else
            concat (map (\<lambda>l. ln (''   '' @ uni 0x2717 @ '' '' @ l)) (take limit (br_differing b)))
            @ (if limit < length (br_differing b)
               then ln (''   '' @ uni 0x2026 @ '' +'' @ show_nat (length (br_differing b) - limit) @ '' more method(s) differing in bytecode (raise limit)'') else [])
            @ (if br_differing b \<noteq> [] \<and> sr_differing r = [] then ln (''   NOTE: the line tables MATCH and the bytecode does not. The likely cause is the edit ''
     @ ''bytecode:true exists to catch '' @ uni 0x2014
     @ '' a body changed without moving a line. But bytecode is NOT a fingerprint of source: ''
     @ ''constant-pool indices live in the operands, so a method you did not touch can differ ''
     @ ''because the pool was renumbered by an unrelated change ELSEWHERE IN THE SAME CLASS ''
     @ ''(adding a method, a string, a call), or because the two builds came from different ''
     @ ''javac versions. Read a bytecode-only difference as '' @ [CHR 0x22] @ ''the code bytes differ''
     @ [CHR 0x22] @ '', not as '' @ [CHR 0x22] @ ''this method'' @ [CHR 0x27] @ ''s source changed'' @ [CHR 0x22]
     @ '' '' @ uni 0x2014 @ '' if it matters which, the differing method'' @ [CHR 0x27]
     @ ''s own line table and debug.source will say whether anything moved.'') else [])
            @ (if 0 < br_skipped b then ln (''   '' @ show_nat (br_skipped b)
     @ '' method(s) had no code on one side or the other (abstract or native) and their bytecode ''
     @ ''was not compared.'') else []))"

definition refused_bytecode_note :: string where
  "refused_bytecode_note = ('' You DID ask for bytecode, and this JVM refused it: it reports canGetBytecodes=false, ''
     @ ''so the one evidence that survives -g:none was unavailable too. Nothing about this class ''
     @ ''is known.'')"

definition ask_bytecode_note :: string where
  "ask_bytecode_note = ('' Pass bytecode:true to compare the code itself, which a -g:none build still has.'')"

definition render_cannot_tell :: "string \<Rightarrow> path \<Rightarrow> stale_report \<Rightarrow> nat \<Rightarrow> string" where
  "render_cannot_tell cname p r packets =
     ln (uni 0x26A0 @ '' Cannot tell: '' @ cname @ '' and '' @ p @ '' have no line tables to compare (''
     @ show_nat (sr_skipped r) @ '' method(s) skipped). That is what a build compiled with javac -g:none looks like, and ''
     @ ''it is also what an interface or a class of abstract/native methods looks like. This is ''
     @ ''NOT a report that the build matches.'' @ (if bytecode_unavailable r then refused_bytecode_note else if sr_bytecode r \<noteq> None then [] else ask_bytecode_note) @ [CHR 0x0A] @ ''   Basis: nothing could be compared, ''
     @ show_nat packets @ '' JDWP packet(s).'')"

definition both_evidences :: "bool \<Rightarrow> bool \<Rightarrow> string" where
  "both_evidences lines_differ code_differs =
     (case (lines_differ, code_differs) of
        (False, False) \<Rightarrow> (''Both evidences agree: identical line tables AND identical bytecode. That is the ''
     @ ''strongest answer this tool can give.'')
      | (True, True) \<Rightarrow> (''Both evidences agree: the build on disk is not what the JVM is running.'')
      | (False, True) \<Rightarrow> (''The two evidences disagree, and the bytecode is the one to believe '' @ uni 0x2014
     @ '' see the note above.'')
      | (True, False) \<Rightarrow> (''Lines moved but the bytecode is IDENTICAL. That is a source edit which changed no code '' @ uni 0x2014
     @ '' a comment, a blank line, a reformat. Behaviour is the same; only line numbers shifted, ''
     @ ''so a stop point at :N lands somewhere else while the program does not differ.''))"

definition bytecode_answered :: "stale_report \<Rightarrow> bytecode_report option" where
  "bytecode_answered r = (case sr_bytecode r of None \<Rightarrow> None | Some b \<Rightarrow> if br_unavailable b then None else Some b)"

definition render_stale_report :: "string \<Rightarrow> path \<Rightarrow> stale_report \<Rightarrow> nat \<Rightarrow> nat \<Rightarrow> string" where
  "render_stale_report cname p r limit packets =
     (let comparable = sr_matched r + length (sr_differing r);
          compared = (case sr_bytecode r of None \<Rightarrow> 0 | Some b \<Rightarrow> br_compared b) in
      if comparable = 0 \<and> compared = 0 \<and> \<not> is_stale r then render_cannot_tell cname p r packets
      else
        render_stale_verdict cname p r comparable compared
        @ render_line_table_section r limit
        @ render_bytecode_section r limit
        @ (let basis = (case bytecode_answered r of
               Some b \<Rightarrow> (''per-method line tables AND bytecode ('' @ show_nat comparable @ '' line-comparable, '' @ show_nat (br_compared b)
     @ '' code-comparable)'')
             | None \<Rightarrow> (''per-method line tables only ('' @ show_nat comparable @ '' comparable)'')) in
           ln (''   Basis: '' @ basis @ '', '' @ show_nat packets @ '' JDWP packet(s).''))
        @ (case bytecode_answered r of
             Some b \<Rightarrow> ln (''   '' @ both_evidences (sr_differing r \<noteq> []) (br_differing b \<noteq> []))
           | None \<Rightarrow> ln (''   This catches an edit that MOVED a line, which is what makes a stop point at :N mean ''
     @ ''something else. An edit that changes a body without moving any line is invisible to it, ''
     @ ''so a clean result means '' @ [CHR 0x22] @ ''no line moved'' @ [CHR 0x22] @ '', not '' @ [CHR 0x22]
     @ ''byte-for-byte identical'' @ [CHR 0x22] @ '' '' @ uni 0x2014
     @ '' pass bytecode:true for that, at one more JDWP packet per method.''))
        @ (if is_stale r then (''   Next: debug.reload_class installs the build you just compared against '' @ uni 0x2014
     @ '' if the drift is method bodies only, which is the separate question the redefine ''
     @ ''forecast below answers.'' @ [CHR 0x0A]) else []))"

record check_stale_args =
  ct_class_name :: string
  ct_class_file :: "string option"
  ct_class_roots :: "path list option"
  ct_limit :: nat
  ct_bytecode :: bool

definition built_on_disk :: "host \<Rightarrow> string \<Rightarrow> string option \<Rightarrow> path list \<Rightarrow> string + path \<times> class_file" where
  "built_on_disk w cname class_file roots =
     res_bind (resolve_class_file w cname class_file roots) (\<lambda>p.
     case host_read w p of
       Inl e \<Rightarrow> Inl (''Found '' @ p @ '' but could not read it: '' @ e)
     | Inr b \<Rightarrow>
         (case parse b of
            Inl e \<Rightarrow> Inl (''Could not read '' @ p @ '' as a class file: '' @ e)
          | Inr built \<Rightarrow>
              if cf_this_class built \<noteq> cname
              then Inl (p @ '' declares '' @ cf_this_class built @ '', not '' @ cname @ ''. That is a wrong path rather than drift ''
     @ uni 0x2014 @ '' a class root is where the package tree starts in the BUILD OUTPUT. Nothing was ''
     @ ''compared.'')
              else Inr (p, built)))"

text \<open>The packets between two counts, \<open>saturating_sub\<close> at 32 bits.\<close>

definition packets_between :: "u32 \<Rightarrow> u32 \<Rightarrow> nat" where
  "packets_between earlier later = unat later - unat earlier"

definition stale_verdict :: "debuggee \<Rightarrow> u64 \<Rightarrow> bool \<Rightarrow> class_file \<Rightarrow> stale_report check_op" where
  "stale_verdict d i bytecode built =
     k_bind (read_jvm_line_tables d i) (\<lambda>running.
       let report = compare_line_tables running (cf_methods built) in
       if bytecode
       then k_bind (compare_bytecode d i (cf_methods built)) (\<lambda>b. k_return (report\<lparr>sr_bytecode := Some b\<rparr>))
       else k_return report)"

definition check_stale_report :: "debuggee \<Rightarrow> host \<Rightarrow> check_stale_args \<Rightarrow> string \<Rightarrow> path list \<Rightarrow> string check_op" where
  "check_stale_report d w a cname roots =
     k_bind (resolve_loaded_class_for_read d cname) (\<lambda>(i, loader_note) r.
     case built_on_disk w cname (ct_class_file a) roots of
       Inl e \<Rightarrow> (Inl e, r)
     | Inr (p, built) \<Rightarrow>
         let earlier = reads_packets_sent r in
         k_bind (stale_verdict d i (ct_bytecode a) built) (\<lambda>report r1.
           case loaded_class_shape d i r1 of (loaded, r2) \<Rightarrow>
             let packets = packets_between earlier (reads_packets_sent r2) in
             (Inr (render_stale_report cname p report (ct_limit a) packets
                @ (case loaded of
                     Inr shape \<Rightarrow> render_redefine_forecast cname (forecast_redefine shape (built_class_shape built))
                   | Inl e \<Rightarrow> ln (uni 0x26A0 @ '' Redefine forecast unavailable: '' @ e @ ''. The staleness verdict above is unaffected.''))
                @ (case loader_note of None \<Rightarrow> [] | Some n \<Rightarrow> n)), r2)) r)"

section \<open>The check an arming makes\<close>

fun arming_note :: "drift_check \<Rightarrow> string" where
  "arming_note (Drift_stale caveat) = caveat"
| "arming_note Drift_current = []"
| "arming_note (Drift_not_checked why) = ([CHR 0x0A] @ ''   '' @ uni 0x2139 @ uni 0xFE0F
     @ ''  Staleness NOT CHECKED, which is not the same as checked and fine: '' @ why)"

fun drift_stale_caveat :: "drift_check \<Rightarrow> string option" where
  "drift_stale_caveat (Drift_stale caveat) = Some caveat"
| "drift_stale_caveat _ = None"

fun drift_not_checked :: "drift_check \<Rightarrow> string option" where
  "drift_not_checked (Drift_not_checked why) = Some why"
| "drift_not_checked _ = None"

definition NO_CLASS_ROOT_TO_COMPARE :: string where
  "NO_CLASS_ROOT_TO_COMPARE = (''no class root is configured, so there is no compiled .class to compare the JVM'' @ [CHR 0x27]
     @ ''s line table against. The line above was resolved against WHATEVER THIS DEPLOYMENT HAS ''
     @ ''LOADED, which may not be your build.'' @ [CHR 0x0A] @ ''       Set one with debug.attach {''
     @ [CHR 0x22] @ ''class_roots'' @ [CHR 0x22] @ '':[...]} or JDWP_CLASS_ROOTS (a path list in this platform''
     @ [CHR 0x27] @ ''s spelling) '' @ uni 0x2014
     @ '' a class root is where the package tree starts in the BUILD OUTPUT (target/classes), ''
     @ ''not src/main/java '' @ uni 0x2014 @ '' and this check then runs on every arm, unasked.'')"

definition drift_caveat_from_tables :: "method_lines \<Rightarrow> class_file_method list \<Rightarrow> path \<Rightarrow> drift_check" where
  "drift_caveat_from_tables jvm built p =
     (let report = compare_line_tables [jvm] (filter (\<lambda>m. (fm_name m, fm_descriptor m) = ml_key jvm) built) in
      if \<not> is_stale report then
        if sr_matched report = 0 \<and> 0 < sr_skipped report
        then Drift_not_checked (p @ '' has no line table for '' @ ml_name jvm @ ml_descriptor jvm @ '' '' @ uni 0x2014
     @ '' a -g:none build has code with no line numbers, so there is nothing to compare the JVM'' @ [CHR 0x27]
     @ ''s against.'')
        else Drift_current
      else
        let detail = (case sr_differing report of
            d # _ \<Rightarrow> d
          | [] \<Rightarrow> ml_name jvm @ ml_descriptor jvm @ '' is not in your build at all'') in
        Drift_stale ([CHR 0x0A] @ ''   '' @ uni 0x26A0 @ uni 0xFE0F @ ''  STALE BYTECODE: the JVM'' @ [CHR 0x27]
     @ ''s line table for this method does not match '' @ p @ ''.'' @ [CHR 0x0A] @ ''       '' @ detail
     @ [CHR 0x0A] @ ''       The line above was resolved against the DEPLOYED build, so it may not be the ''
     @ ''line you are reading. debug.check_stale for the whole class; debug.reload_class to ''
     @ ''install your build without a redeploy.''))"

definition drift_check_for_armed_method ::
  "host \<Rightarrow> path list \<Rightarrow> string \<Rightarrow> method_info \<Rightarrow> (u64 \<times> u32) list \<Rightarrow> drift_check"
where
  "drift_check_for_armed_method w roots cname m jvm_lines =
     (if roots = [] then Drift_not_checked NO_CLASS_ROOT_TO_COMPARE
      else if jvm_lines = [] then
        Drift_not_checked (''the JVM reports no line table for '' @ mi_name m @ mi_signature m
     @ '', so there is nothing on the running side to compare '' @ uni 0x2014
     @ '' a class deployed from a -g:none build.'')
      else (case resolve_class_file w cname None roots of
          Inl why \<Rightarrow> Drift_not_checked why
        | Inr p \<Rightarrow>
            (case host_read w p of
               Inl why \<Rightarrow> Drift_not_checked (''found '' @ p @ '' but could not read it: '' @ why)
             | Inr b \<Rightarrow>
                 (case parse b of
                    Inl why \<Rightarrow> Drift_not_checked (p @ '' could not be parsed as a class file: '' @ why)
                  | Inr built \<Rightarrow>
                      if cf_this_class built \<noteq> cname
                      then Drift_not_checked (p @ '' declares '' @ cf_this_class built @ '', not '' @ cname @ '' '' @ uni 0x2014
     @ '' that is a wrong class root rather than drift, so nothing was compared.'')
                      else drift_caveat_from_tables
                        \<lparr>ml_name = mi_name m, ml_descriptor = mi_signature m, ml_lines = jvm_lines, ml_comparable = True\<rparr>
                        (cf_methods built) p))))"

section \<open>Is the source the one that was compiled\<close>

definition SOURCE_MTIME_SLACK :: int where "SOURCE_MTIME_SLACK = 2 * 10 ^ 9"

definition coarse_span :: "int \<Rightarrow> string" where
  "coarse_span gap =
     (let secs = nat (gap div 10 ^ 9) in
      if secs \<le> 59 then show_nat secs @ ''s''
      else if secs \<le> 3599 then show_nat (secs div 60) @ ''m''
      else show_nat (secs div 3600) @ ''h '' @ show_nat (secs mod 3600 div 60) @ ''m'')"

record source_freshness =
  fr_deployed_drift :: "string option"
  fr_source_too_short :: "string option"
  fr_source_newer :: "string option"
  fr_cannot_tell :: "string option"

definition freshness_quiet :: source_freshness where
  "freshness_quiet = \<lparr>fr_deployed_drift = None, fr_source_too_short = None, fr_source_newer = None, fr_cannot_tell = None\<rparr>"

definition freshness_cannot_tell :: "string \<Rightarrow> source_freshness" where
  "freshness_cannot_tell why = freshness_quiet\<lparr>fr_cannot_tell := Some why\<rparr>"

definition is_quiet :: "source_freshness \<Rightarrow> bool" where "is_quiet f = (f = freshness_quiet)"

record freshness_facts =
  ff_source_path :: path
  ff_source_lines :: nat
  ff_source_mtime :: "int option"
  ff_class_path :: path
  ff_class_mtime :: "int option"
  ff_drift :: stale_report
  ff_comparable :: nat
  ff_highest_jvm_line :: "int option"
  ff_translated :: bool

definition too_short :: "freshness_facts \<Rightarrow> string option" where
  "too_short f =
     (if ff_translated f then None
      else (case ff_highest_jvm_line f of
          None \<Rightarrow> None
        | Some high \<Rightarrow>
            if 0 < high \<and> ff_source_lines f < nat high
            then Some (uni 0x1F6A8 @ '' THE SOURCE ABOVE IS NOT WHAT THIS BYTECODE WAS COMPILED FROM: the JVM'' @ [CHR 0x27]
     @ ''s line table reaches line '' @ show_int high @ '', and '' @ ff_source_path f @ '' has '' @ show_nat (ff_source_lines f)
     @ '' line(s). A file cannot be missing lines the compiler emitted from it. Remedy: ''
     @ ''recompile, or check out the revision that is actually deployed.'')
            else None))"

definition newer_source :: "freshness_facts \<Rightarrow> string option" where
  "newer_source f =
     (case (ff_source_mtime f, ff_class_mtime f) of
        (Some src, Some cls) \<Rightarrow>
          if cls \<le> src \<and> SOURCE_MTIME_SLACK < src - cls
          then Some (uni 0x26A0 @ uni 0xFE0F @ ''  SOURCE IS NEWER THAN THE BYTECODE: '' @ ff_source_path f @ '' was modified '' @ coarse_span (src - cls)
     @ '' after '' @ ff_class_path f
     @ '' was written, so the lines above may be ahead of what is running. This is a TIMESTAMP, ''
     @ ''NOT A PROOF '' @ uni 0x2014 @ '' a checkout moves a file'' @ [CHR 0x27]
     @ ''s mtime without changing a byte of it. If it is real: recompile, then ''
     @ ''debug.reload_class or redeploy.'')
          else None
      | _ \<Rightarrow> None)"

definition source_freshness_of :: "freshness_facts \<Rightarrow> source_freshness" where
  "source_freshness_of f =
     \<lparr>fr_deployed_drift =
        (if is_stale (ff_drift f)
         then Some (uni 0x1F6A8 @ '' STALE BYTECODE: the JVM is NOT running the build in '' @ ff_class_path f @ ''.'' @ [CHR 0x0A]
     @ ''   '' @ show_nat (sr_matched (ff_drift f)) @ '' of '' @ show_nat (ff_comparable f) @ '' comparable method(s) match, '' @ show_nat (length (sr_differing (ff_drift f))) @ '' differ '' @ uni 0x2014
     @ '' so the lines above were compiled from something else. Remedy: redeploy, or ''
     @ ''debug.reload_class to install your build. debug.check_stale gives the per-method detail.'')
         else None),
      fr_source_too_short = too_short f,
      fr_source_newer = (if too_short f = None then newer_source f else None),
      fr_cannot_tell = None\<rparr>"

definition render_source_freshness :: "source_freshness \<Rightarrow> string" where
  "render_source_freshness f =
     (if is_quiet f then []
      else concat (map ln (List.map_filter (\<lambda>x. x) [fr_deployed_drift f, fr_source_too_short f, fr_source_newer f]))
        @ (case fr_cannot_tell f of None \<Rightarrow> [] | Some why \<Rightarrow> ln (uni 0x2139 @ uni 0xFE0F @ ''  Freshness NOT CHECKED, which is not the same as checked and fine: '' @ why)))"

definition highest_line :: "method_lines list \<Rightarrow> int option" where
  "highest_line running =
     (let ls = concat (map (\<lambda>m. map (\<lambda>p. sint (snd p)) (ml_lines m)) running) in
      if ls = [] then None else Some (Max (set ls)))"

definition source_freshness_section ::
  "debuggee \<Rightarrow> host \<Rightarrow> (path \<Rightarrow> int option) \<Rightarrow> string \<Rightarrow> u64 \<Rightarrow> path list \<Rightarrow> path \<times> nat \<Rightarrow> bool
   \<Rightarrow> reads_source \<Rightarrow> string \<times> reads_source"
where
  "source_freshness_section d w mtime cname i roots src translated r =
     (let told = (\<lambda>why. render_source_freshness (freshness_cannot_tell why)) in
      if roots = [] then (told (''no class roots are configured, so there is no compiled .class to compare the source ''
     @ ''above against. Set them with debug.attach {'' @ [CHR 0x22] @ ''class_roots'' @ [CHR 0x22]
     @ '':[...]}, JDWP_CLASS_ROOTS, or pass class_roots here. A class root is where the package ''
     @ ''tree starts in the BUILD OUTPUT (target/classes), not src/main/java.''), r)
      else (case resolve_class_file w cname None roots of
          Inl e \<Rightarrow> (told e, r)
        | Inr p \<Rightarrow>
            (case host_read w p of
               Inl e \<Rightarrow> (told (''found '' @ p @ '' but could not read it: '' @ e), r)
             | Inr b \<Rightarrow>
                 (case parse b of
                    Inl e \<Rightarrow> (told (''could not read '' @ p @ '' as a class file: '' @ e), r)
                  | Inr built \<Rightarrow>
                      if cf_this_class built \<noteq> cname
                      then (told (p @ '' declares '' @ cf_this_class built @ '', not '' @ cname @ '' '' @ uni 0x2014
     @ '' that is a wrong class root rather than drift, so nothing was compared''), r)
                      else (case read_jvm_line_tables d i r of
                          (Inl e, r1) \<Rightarrow> (told e, r1)
                        | (Inr running, r1) \<Rightarrow>
                            (render_source_freshness (source_freshness_of
                               \<lparr>ff_source_path = fst src, ff_source_lines = snd src, ff_source_mtime = mtime (fst src),
                                ff_class_path = p, ff_class_mtime = mtime p,
                                ff_drift = compare_line_tables running (cf_methods built),
                                ff_comparable = length (filter ml_comparable running),
                                ff_highest_jvm_line = highest_line running, ff_translated = translated\<rparr>), r1))))))"

end
