(* ===== verification/StaleProofs.thy ===== *)
theory StaleProofs
  imports StaleCheck
begin

text \<open>
  What the staleness checks promise: a forecast is empty exactly when the shapes agree, an arming is silent about its
  build exactly when the build was found, read and has the same line table, and a debuggee that runs the build on disk is
  never called stale and never refused.
\<close>

section \<open>Members\<close>

definition member_sig :: "declared_member \<Rightarrow> (string \<times> string) \<times> u16" where
  "member_sig m = (dm_key m, dm_modifiers m)"

lemma map_filter_empty: "List.map_filter f xs = [] \<longleftrightarrow> (\<forall>x\<in>set xs. f x = None)"
  by (induction xs) (auto simp: List.map_filter_simps split: option.splits)

lemma members_gained_empty: "members_gained a b = [] \<longleftrightarrow> dm_key ` set b \<subseteq> dm_key ` set a"
proof -
  have "members_gained a b = [] \<longleftrightarrow> (\<forall>m\<in>set b. \<exists>x\<in>set a. dm_key m = dm_key x)"
    unfolding members_gained_def map_is_Nil_conv filter_empty_conv list_ex_iff by metis
  then show ?thesis by (simp add: image_subset_iff image_iff)
qed

lemma members_remodified_empty:
  "members_remodified l b = []
   \<longleftrightarrow> (\<forall>m\<in>set b. \<forall>w. find (\<lambda>x. dm_key x = dm_key m) l = Some w \<longrightarrow> dm_modifiers w = dm_modifiers m)"
  by (auto simp: members_remodified_def map_filter_empty split: option.splits if_splits)

definition one_each :: "declared_member list \<Rightarrow> bool" where
  "one_each ms = (\<forall>x\<in>set ms. \<forall>y\<in>set ms. dm_key x = dm_key y \<longrightarrow> dm_modifiers x = dm_modifiers y)"

lemma distinct_one_each: "distinct (map dm_key ms) \<Longrightarrow> one_each ms"
  by (auto simp: one_each_def distinct_map dest: inj_onD)

lemma find_key: "find (\<lambda>x. dm_key x = k) l = Some w \<Longrightarrow> w \<in> set l \<and> dm_key w = k"
  by (auto simp: find_Some_iff)

lemma find_key_ex: "x \<in> set l \<Longrightarrow> \<exists>w. find (\<lambda>y. dm_key y = dm_key x) l = Some w"
  by (cases "find (\<lambda>y. dm_key y = dm_key x) l") (auto simp: find_None_iff)

lemma members_agree:
  assumes one: "one_each l"
  shows "members_gained l b = [] \<and> members_gained b l = [] \<and> members_remodified l b = []
    \<longleftrightarrow> member_sig ` set l = member_sig ` set b"
proof
  assume lhs: "members_gained l b = [] \<and> members_gained b l = [] \<and> members_remodified l b = []"
  have keys: "dm_key ` set b = dm_key ` set l" using lhs by (auto simp: members_gained_empty)
  have same: "dm_modifiers w = dm_modifiers m" if m: "m \<in> set b" and w: "w \<in> set l" and k: "dm_key w = dm_key m" for m w
  proof -
    obtain v where v: "find (\<lambda>y. dm_key y = dm_key m) l = Some v" using find_key_ex [OF w] k by auto
    have "dm_modifiers v = dm_modifiers m" using lhs m v by (auto simp: members_remodified_empty)
    moreover have "dm_modifiers v = dm_modifiers w"
      by (rule one [unfolded one_each_def, rule_format]) (simp_all add: find_key [OF v] w k)
    ultimately show ?thesis by simp
  qed
  show "member_sig ` set l = member_sig ` set b"
  proof (intro set_eqI iffI)
    fix s assume "s \<in> member_sig ` set l"
    then obtain w where w: "w \<in> set l" "s = member_sig w" by auto
    obtain m where m: "m \<in> set b" "dm_key w = dm_key m" using keys w(1) by (metis imageE imageI)
    have "member_sig w = member_sig m" using same [OF m(1) w(1) m(2)] m(2) by (simp add: member_sig_def)
    then show "s \<in> member_sig ` set b" using w(2) m(1) by simp
  next
    fix s assume "s \<in> member_sig ` set b"
    then obtain m where m: "m \<in> set b" "s = member_sig m" by auto
    obtain w where w: "w \<in> set l" "dm_key w = dm_key m" using keys m(1) by (metis imageE imageI)
    have "member_sig w = member_sig m" using same [OF m(1) w] w(2) by (simp add: member_sig_def)
    then show "s \<in> member_sig ` set l" using m(2) w(1) by (metis imageI)
  qed
next
  assume rhs: "member_sig ` set l = member_sig ` set b"
  have keys: "dm_key ` set l = dm_key ` set b"
  proof -
    have "fst ` member_sig ` set l = fst ` member_sig ` set b" using rhs by simp
    then show ?thesis by (simp add: image_image member_sig_def)
  qed
  have "dm_modifiers w = dm_modifiers m"
    if m: "m \<in> set b" and w: "find (\<lambda>x. dm_key x = dm_key m) l = Some w" for m w
  proof -
    obtain v where v: "v \<in> set l" "member_sig v = member_sig m" using rhs m by (metis imageE imageI)
    have vm: "dm_key v = dm_key m" "dm_modifiers v = dm_modifiers m" using v(2) by (simp_all add: member_sig_def)
    have "dm_modifiers w = dm_modifiers v"
      by (rule one [unfolded one_each_def, rule_format]) (simp_all add: find_key [OF w] v(1) vm)
    then show ?thesis by (simp add: vm)
  qed
  then show "members_gained l b = [] \<and> members_gained b l = [] \<and> members_remodified l b = []"
    using keys by (auto simp: members_gained_empty members_remodified_empty)
qed

section \<open>The forecast\<close>

lemma refusal_if_empty [simp]: "refusal_if c code name detail = [] \<longleftrightarrow> \<not> c"
  by (simp add: refusal_if_def)

lemma part_if_empty [simp]: "part_if xs s = [] \<longleftrightarrow> xs = []"
  by (simp add: part_if_def)

lemma hierarchy_changes_empty:
  "hierarchy_changes l b = [] \<longleftrightarrow> sh_super_class l = sh_super_class b \<and> sh_interfaces l = sh_interfaces b"
  by (simp add: hierarchy_changes_def)

lemma schema_changes_empty:
  "schema_changes l b = [] \<longleftrightarrow> members_gained (sh_fields l) (sh_fields b) = []
     \<and> members_gained (sh_fields b) (sh_fields l) = [] \<and> members_remodified (sh_fields l) (sh_fields b) = []"
  by (simp add: schema_changes_def Let_def)

definition same_shape :: "class_shape \<Rightarrow> class_shape \<Rightarrow> bool" where
  "same_shape l b = (sh_access_flags l = sh_access_flags b \<and> sh_super_class l = sh_super_class b
     \<and> sh_interfaces l = sh_interfaces b
     \<and> member_sig ` set (sh_fields l) = member_sig ` set (sh_fields b)
     \<and> member_sig ` set (sh_methods l) = member_sig ` set (sh_methods b))"

lemma forecast_empty_if:
  assumes "one_each (sh_fields l)" and "one_each (sh_methods l)"
  shows "forecast_redefine l b = [] \<longleftrightarrow> same_shape l b"
  using members_agree [OF assms(1), of "sh_fields b"] members_agree [OF assms(2), of "sh_methods b"]
  by (auto simp: forecast_redefine_def Let_def hierarchy_changes_empty schema_changes_empty same_shape_def)

text \<open>
  C21: for a loaded class that declares no member twice, the forecast of a redefinition is empty exactly when the two shapes
  agree: the same class modifiers, superclass and interfaces, and the same fields and methods with the same modifiers,
  whatever the order the two sides list them in.
\<close>

theorem forecast_empty_iff_same_shape:
  assumes "distinct (map dm_key (sh_fields loaded))" and "distinct (map dm_key (sh_methods loaded))"
  shows "forecast_redefine loaded built = [] \<longleftrightarrow> same_shape loaded built"
  by (rule forecast_empty_if [OF distinct_one_each [OF assms(1)] distinct_one_each [OF assms(2)]])

theorem forecast_empty_iff_same_shape_witness:
  "forecast_redefine
     \<lparr>sh_access_flags = 1, sh_super_class = None, sh_interfaces = [], sh_fields = [declared_field ''n'' ''I'' 2],
      sh_methods = [declared_method ''a'' ''()V'' 1, declared_method ''b'' ''()V'' 1]\<rparr>
     \<lparr>sh_access_flags = 1, sh_super_class = None, sh_interfaces = [], sh_fields = [declared_field ''n'' ''I'' 2],
      sh_methods = [declared_method ''b'' ''()V'' 1, declared_method ''a'' ''()V'' 0x1001]\<rparr> = []"
  by (subst forecast_empty_iff_same_shape)
    (auto simp: same_shape_def member_sig_def dm_key_def declared_field_def declared_method_def METHOD_MODIFIER_MASK_def)

section \<open>What an arming says of its build\<close>

lemma compare_one:
  "compare_line_tables [jvm] (filter (\<lambda>m. (fm_name m, fm_descriptor m) = ml_key jvm) built)
   = (case find (\<lambda>m. (fm_name m, fm_descriptor m) = ml_key jvm) built of
        None \<Rightarrow> stale_report_new\<lparr>sr_only_in_jvm := [ml_name jvm @ ml_descriptor jvm]\<rparr>
      | Some f \<Rightarrow> compare_method [built_lines f] jvm stale_report_new)"
proof (induction built)
  case Nil
  show ?case by (simp add: compare_line_tables_def compare_method_def stale_report_new_def)
next
  case (Cons f fs)
  let ?k = "\<lambda>m. (fm_name m, fm_descriptor m) = ml_key jvm"
  show ?case
  proof (cases "?k f")
    case False
    then show ?thesis using Cons.IH by simp
  next
    case True
    have key: "ml_key (built_lines m) = (fm_name m, fm_descriptor m)" for m by (simp add: ml_key_def built_lines_def)
    have "filter (\<lambda>g. \<not> list_ex (\<lambda>j. ml_key j = ml_key g) [jvm]) (map built_lines (filter ?k (f # fs))) = []"
      by (auto simp: filter_empty_conv key)
    moreover have "compare_method (map built_lines (filter ?k (f # fs))) jvm r = compare_method [built_lines f] jvm r" for r
      using True by (simp add: compare_method_def key)
    ultimately show ?thesis using True by (simp add: compare_line_tables_def Let_def)
  qed
qed

text \<open>The build's table for a method: what the check compares the running one with.\<close>

definition build_table :: "class_file \<Rightarrow> method_info \<Rightarrow> (u64 \<times> u32) list option" where
  "build_table built m =
     (case find (\<lambda>f. (fm_name f, fm_descriptor f) = (mi_name m, mi_signature m)) (cf_methods built) of
        None \<Rightarrow> None
      | Some f \<Rightarrow> if fm_has_code f \<and> fm_has_line_table f then Some (fm_lines f) else None)"

lemma drift_caveat_silent:
  assumes "ls \<noteq> []"
  shows "arming_note (drift_caveat_from_tables
      \<lparr>ml_name = mi_name m, ml_descriptor = mi_signature m, ml_lines = ls, ml_comparable = True\<rparr> (cf_methods built) p) = []
    \<longleftrightarrow> build_table built m = Some ls"
proof (cases "find (\<lambda>f. (fm_name f, fm_descriptor f) = (mi_name m, mi_signature m)) (cf_methods built)")
  case None
  then show ?thesis
    unfolding drift_caveat_from_tables_def compare_one
    by (simp add: ml_key_def build_table_def Let_def is_stale_def stale_report_new_def)
next
  case (Some f)
  then have k: "fm_name f = mi_name m" "fm_descriptor f = mi_signature m" by (auto simp: find_Some_iff)
  show ?thesis using Some k assms
    unfolding drift_caveat_from_tables_def compare_one
    by (auto simp: ml_key_def build_table_def Let_def is_stale_def stale_report_new_def
        compare_method_def built_lines_def)
qed

text \<open>
  C20: an arming reply is silent about its build exactly when there is a proof: class roots are configured, the running
  method has a line table, the class file resolves and reads and parses and declares that class, and the method of that
  name and descriptor in it has the very same table.  Every other outcome says something.
\<close>

theorem silence_is_a_proof:
  "arming_note (drift_check_for_armed_method w roots cname m ls) = []
   \<longleftrightarrow> (roots \<noteq> [] \<and> ls \<noteq> []
        \<and> (\<exists>p b built. resolve_class_file w cname None roots = Inr p \<and> host_read w p = Inr b \<and> parse b = Inr built
             \<and> cf_this_class built = cname \<and> build_table built m = Some ls))"
proof (cases "roots = [] \<or> ls = []")
  case True
  then show ?thesis by (auto simp: drift_check_for_armed_method_def)
next
  case False
  show ?thesis
  proof (cases "resolve_class_file w cname None roots")
    case (Inl e)
    then show ?thesis using False by (simp add: drift_check_for_armed_method_def)
  next
    case p: (Inr p)
    show ?thesis
    proof (cases "host_read w p")
      case (Inl e)
      then show ?thesis using False p by (simp add: drift_check_for_armed_method_def)
    next
      case b: (Inr b)
      show ?thesis using False p b drift_caveat_silent [of ls m _ p]
        by (cases "parse b") (simp_all add: drift_check_for_armed_method_def)
    qed
  qed
qed

section \<open>A debuggee that runs the build\<close>

text \<open>
  A read that is answered at every source of a kind, which stays of that kind: the kind is a live connection to a
  debuggee, or a debuggee stated as data, whatever it has been charged so far.
\<close>

definition answered :: "(reads_source \<Rightarrow> bool) \<Rightarrow> (reads_source \<Rightarrow> ('e + 'a) \<times> reads_source) \<Rightarrow> 'a \<Rightarrow> bool" where
  "answered R op a = (\<forall>r. R r \<longrightarrow> (\<exists>r'. op r = (Inr a, r') \<and> R r'))"

lemma answeredI: "(\<And>r. R r \<Longrightarrow> \<exists>r'. op r = (Inr a, r') \<and> R r') \<Longrightarrow> answered R op a"
  by (simp add: answered_def)

lemma answeredE:
  assumes "answered R op a" "R r" obtains r' where "op r = (Inr a, r')" "R r'"
  using assms unfolding answered_def by blast

lemma answers_return [intro]: "answered R (k_return a) a"
  by (auto simp: answered_def k_return_def)

lemma answers_bind: "answered R op a \<Longrightarrow> answered R (f a) b \<Longrightarrow> answered R (k_bind op f) b"
  by (rule answeredI) (fastforce simp: k_bind_def elim: answeredE)

lemma answers_map: "(\<And>x. x \<in> set xs \<Longrightarrow> answered R (f x) (g x)) \<Longrightarrow> answered R (k_map f xs) (map g xs)"
proof (induction xs)
  case (Cons x xs)
  show ?case
    unfolding k_map.simps list.map using Cons by (intro answers_bind [of R "f x"] answers_bind [of R "k_map f xs"]) auto
qed (simp add: answers_return)

lemma answers_or_err: "answered R op a \<Longrightarrow> answered R (or_err what op) a"
  by (rule answeredI) (fastforce simp: or_err_def elim: answeredE)

lemma answers_k_result: "answered R op a \<Longrightarrow> answered R (k_result op) (Inr a)"
  by (rule answeredI) (fastforce simp: k_result_def elim: answeredE)

text \<open>What a class file and a stated class say of a member, in one shape.\<close>

definition running_method :: "stated_class \<Rightarrow> method_info \<Rightarrow> (string \<times> string) \<times> u16 \<times> (u64 \<times> u32) list \<times> bytes" where
  "running_method c m =
     ((mi_name m, mi_signature m), and (mod_bits_u16 (mi_mod_bits m)) METHOD_MODIFIER_MASK,
      map (\<lambda>e. (lte_line_code_index e, lte_line_number e)) (listed (mi_method_id m) (sc_line_tables c)),
      listed (mi_method_id m) (sc_bytecodes c))"

definition built_method :: "class_file_method \<Rightarrow> (string \<times> string) \<times> u16 \<times> (u64 \<times> u32) list \<times> bytes" where
  "built_method m = ((fm_name m, fm_descriptor m), and (fm_access_flags m) METHOD_MODIFIER_MASK, fm_lines m, fm_code m)"

definition running_field :: "field_info \<Rightarrow> (string \<times> string) \<times> u16" where
  "running_field f = ((fld_name f, fld_signature f), and (mod_bits_u16 (fld_mod_bits f)) FIELD_MODIFIER_MASK)"

definition built_field :: "class_file_field \<Rightarrow> (string \<times> string) \<times> u16" where
  "built_field f = ((ff_name f, ff_descriptor f), and (ff_access_flags f) FIELD_MODIFIER_MASK)"

definition type_name :: "stated_debuggee \<Rightarrow> u64 \<Rightarrow> string" where
  "type_name vm i = dotted_from_signature (stated_or [] sc_signature i vm)"

text \<open>The stated class is the one the class file declares, its members in any order.\<close>

definition runs_build :: "stated_debuggee \<Rightarrow> u64 \<Rightarrow> class_file \<Rightarrow> stated_class \<Rightarrow> bool" where
  "runs_build vm i built c =
     (by_id vm i = Some c
      \<and> running_method c ` set (sc_methods c) = built_method ` set (cf_methods built)
      \<and> running_field ` set (sc_fields c) = built_field ` set (cf_fields built)
      \<and> and (mod_bits_u16 (sc_modifiers c)) CLASS_MODIFIER_MASK = and (cf_access_flags built) CLASS_MODIFIER_MASK
      \<and> map_option (type_name vm) (sc_superclass c) = cf_super_class built
      \<and> mset (map (type_name vm) (sc_interfaces c)) = mset (cf_interfaces built))"

definition running_lines :: "stated_class \<Rightarrow> method_info \<Rightarrow> method_lines" where
  "running_lines c m =
     (let ls = map (\<lambda>e. (lte_line_code_index e, lte_line_number e)) (listed (mi_method_id m) (sc_line_tables c)) in
      \<lparr>ml_name = mi_name m, ml_descriptor = mi_signature m, ml_lines = ls, ml_comparable = (ls \<noteq> [])\<rparr>)"

definition method_key :: "class_file_method \<Rightarrow> string \<times> string" where
  "method_key m = (fm_name m, fm_descriptor m)"

definition field_key :: "class_file_field \<Rightarrow> string \<times> string" where
  "field_key f = (ff_name f, ff_descriptor f)"

text \<open>
  The reads of a class that a check makes, answered at every source of a kind as the class is stated: its members,
  modifiers, superclass and interfaces, the names of the types it refers to, the line tables of its methods (a method
  without one may answer \<open>ABSENT_INFORMATION\<close>) and, where the debuggee can say, the code of the methods the build has code of.
\<close>

definition answers_as ::
  "debuggee \<Rightarrow> (reads_source \<Rightarrow> bool) \<Rightarrow> stated_debuggee \<Rightarrow> u64 \<Rightarrow> class_file \<Rightarrow> stated_class \<Rightarrow> bool" where
  "answers_as d R vm i built c \<longleftrightarrow>
     answered R (reads_get_methods d i) (sc_methods c) \<and> answered R (reads_get_fields d i) (sc_fields c)
     \<and> answered R (reads_get_modifiers d i) (sc_modifiers c) \<and> answered R (reads_get_superclass d i) (sc_superclass c)
     \<and> answered R (reads_get_interfaces d i) (sc_interfaces c)
     \<and> (\<forall>j. sc_superclass c = Some j \<or> j \<in> set (sc_interfaces c)
          \<longrightarrow> answered R (reads_get_signature d j) (stated_or [] sc_signature j vm))
     \<and> (\<forall>m\<in>set (sc_methods c). answered R (one_line_table d i (mi_method_id m))
          (map (\<lambda>e. (lte_line_code_index e, lte_line_number e)) (listed (mi_method_id m) (sc_line_tables c)),
           listed (mi_method_id m) (sc_line_tables c) \<noteq> []))
     \<and> answered R (reads_capabilities d) (sd_capabilities vm)
     \<and> (can_get_bytecodes (sd_capabilities vm) \<longrightarrow> (\<forall>m\<in>set (sc_methods c).
          (\<exists>f\<in>set (cf_methods built). method_key f = (mi_name m, mi_signature m) \<and> fm_has_code f)
          \<longrightarrow> answered R (reads_get_bytecodes d i (mi_method_id m)) (listed (mi_method_id m) (sc_bytecodes c))))"

lemma stated_or_Some: "by_id vm i = Some c \<Longrightarrow> stated_or dflt f i vm = f c"
  by (simp add: stated_or_def)

lemma by_id_reads [simp]: "by_id (vm\<lparr>sd_reads := n\<rparr>) i = by_id vm i"
  by (simp add: by_id_def)

lemma stated_or_reads [simp]: "stated_or dflt f i (vm\<lparr>sd_reads := n\<rparr>) = stated_or dflt f i vm"
  by (simp add: stated_or_def)

text \<open>A debuggee stated as data answers as it is stated, whatever it has been charged.\<close>

definition stated_source :: "stated_debuggee \<Rightarrow> reads_source \<Rightarrow> bool" where
  "stated_source vm r \<longleftrightarrow> (\<exists>n. r = Stated (vm\<lparr>sd_reads := n\<rparr>))"

lemma stated_answers:
  assumes "\<And>n. f (vm\<lparr>sd_reads := n\<rparr>) = a"
  shows "answered (stated_source vm) (either_source live f) a"
  by (auto simp: answered_def stated_source_def either_source_def charge_def assms)

lemma stated_answers_as:
  assumes c: "by_id vm i = Some c"
  shows "answers_as d (stated_source vm) vm i built c"
proof -
  have "answered (stated_source vm) (one_line_table d i m)
      (map (\<lambda>e. (lte_line_code_index e, lte_line_number e)) (listed m (sc_line_tables c)), listed m (sc_line_tables c) \<noteq> [])" for m
    by (auto simp: answered_def stated_source_def one_line_table_def reads_get_line_table_def either_source_def charge_def
        Let_def stated_line_table_def stated_or_Some [OF c])
  then show ?thesis
    unfolding answers_as_def reads_get_methods_def reads_get_fields_def reads_get_modifiers_def reads_get_superclass_def
      reads_get_interfaces_def reads_get_signature_def reads_capabilities_def reads_get_bytecodes_def
    by (auto intro!: stated_answers simp: stated_or_Some [OF c])
qed

text \<open>
  A live connection to a debuggee that replies to the reads of the class as it is stated, through a type cache that
  holds nothing else of it.  \<open>replies\<close> says what one command is answered, whatever was sent before.
\<close>

definition replies :: "debuggee \<Rightarrow> u8 \<Rightarrow> u8 \<Rightarrow> bytes \<Rightarrow> (reply_packet \<Rightarrow> 'a jdwp_result) \<Rightarrow> 'a jdwp_result \<Rightarrow> bool" where
  "replies d s k b dec x \<longleftrightarrow> (\<forall>h p. cp_command_set p = s \<and> cp_command p = k \<and> cp_data p = b
     \<longrightarrow> dbg_gone d h p = None \<and> res_bind (dbg_answer d h p) dec = x)"

lemma exchange_replies:
  assumes "replies d s k b dec x"
  shows "\<exists>c'. exchange d (request s k b) dec c = (x, c') \<and> c_types c' = c_types c"
proof -
  define p where "p = (command_packet_new (c_next_id c) s k)\<lparr>cp_data := b\<rparr>"
  have "cp_command_set p = s" "cp_command p = k" "cp_data p = b" by (simp_all add: p_def command_packet_new_def)
  then have "dbg_gone d (c_sent c) p = None" "res_bind (dbg_answer d (c_sent c) p) dec = x"
    using assms by (simp_all add: replies_def)
  then show ?thesis
    by (cases "dbg_answer d (c_sent c) p") (simp_all add: exchange_def request_def next_id_def send_command_def conn_issue_def
        cbind_def clift_def Let_def p_def)
qed

text \<open>The cached reads: out of the cache, or over the wire and into it.\<close>

lemma cached_methods_read:
  assumes "replies d CS_REFERENCE_TYPE RT_METHODS_WITH_GENERIC (put_be 8 i)
      (checked (rbind read_i32 (\<lambda>n. read_n (i32_count n) (read_method_info True)))) (Inr ms)"
    and "tc_methods (c_types k) i = None \<or> tc_methods (c_types k) i = Some ms"
  shows "\<exists>k'. get_methods d i k = (Inr ms, k') \<and> (c_types k' = c_types k \<or> c_types k' = put_methods i ms (c_types k))"
  using assms(2)
proof
  obtain k' where k': "read_methods d i True k = (Inr ms, k')" "c_types k' = c_types k"
    using exchange_replies [OF assms(1), of k] by (auto simp: read_methods_def)
  assume "tc_methods (c_types k) i = None"
  then show ?thesis
    by (simp add: get_methods_def cache_methods_def cbind_def ccatch_def k' not_implemented_def clift_def set_types_def creturn_def)
qed (simp add: get_methods_def cache_methods_def creturn_def)

lemma cached_fields_read:
  assumes "replies d CS_REFERENCE_TYPE RT_FIELDS_WITH_GENERIC (put_be 8 i)
      (checked (rbind read_i32 (\<lambda>n. read_n (i32_count n) (read_field_info True)))) (Inr fs)"
    and "tc_fields (c_types k) i = None \<or> tc_fields (c_types k) i = Some fs"
  shows "\<exists>k'. get_fields d i k = (Inr fs, k') \<and> (c_types k' = c_types k \<or> c_types k' = put_fields i fs (c_types k))"
  using assms(2)
proof
  obtain k' where k': "read_fields d i True k = (Inr fs, k')" "c_types k' = c_types k"
    using exchange_replies [OF assms(1), of k] by (auto simp: read_fields_def)
  assume "tc_fields (c_types k) i = None"
  then show ?thesis
    by (simp add: get_fields_def cache_fields_def cbind_def ccatch_def k' not_implemented_def clift_def set_types_def creturn_def)
qed (simp add: get_fields_def cache_fields_def creturn_def)

lemma cached_interfaces_read:
  assumes "replies d CS_REFERENCE_TYPE RT_INTERFACES (put_be 8 i)
      (checked (rbind read_i32 (\<lambda>n. read_n (i32_count n) read_u64))) (Inr is)"
    and "tc_interfaces (c_types k) i = None \<or> tc_interfaces (c_types k) i = Some is"
  shows "\<exists>k'. get_interfaces d i k = (Inr is, k') \<and> (c_types k' = c_types k \<or> c_types k' = put_interfaces i is (c_types k))"
  using assms(2)
proof
  obtain k' where k': "exchange d (request CS_REFERENCE_TYPE RT_INTERFACES (put_be 8 i))
      (checked (rbind read_i32 (\<lambda>n. read_n (i32_count n) read_u64))) k = (Inr is, k')" "c_types k' = c_types k"
    using exchange_replies [OF assms(1), of k] by auto
  assume "tc_interfaces (c_types k) i = None"
  then show ?thesis by (simp add: get_interfaces_def cache_interfaces_def cbind_def k' set_types_def creturn_def)
qed (simp add: get_interfaces_def cache_interfaces_def creturn_def)

lemma cached_superclass_read:
  assumes "replies d CS_CLASS_TYPE CLASS_TYPE_SUPERCLASS (put_be 8 i) (checked read_u64)
      (Inr (case super of None \<Rightarrow> 0 | Some j \<Rightarrow> j))" "super \<noteq> Some 0"
    and "tc_superclasses (c_types k) i = None \<or> tc_superclasses (c_types k) i = Some super"
  shows "\<exists>k'. get_superclass d i k = (Inr super, k') \<and> (c_types k' = c_types k \<or> c_types k' = put_superclass i super (c_types k))"
  using assms(3)
proof
  obtain k' where k': "exchange d (request CS_CLASS_TYPE CLASS_TYPE_SUPERCLASS (put_be 8 i)) (checked read_u64) k
      = (Inr (case super of None \<Rightarrow> 0 | Some j \<Rightarrow> j), k')" "c_types k' = c_types k"
    using exchange_replies [OF assms(1), of k] by auto
  assume "tc_superclasses (c_types k) i = None"
  then show ?thesis
    using assms(2) by (cases super)
      (auto simp: get_superclass_def cache_superclass_def cbind_def k' set_types_def creturn_def Let_def)
qed (cases super; simp add: get_superclass_def cache_superclass_def creturn_def)

lemma cached_signature_read:
  assumes "replies d CS_REFERENCE_TYPE RT_SIGNATURE (put_be 8 j) decode_signature_reply (Inr sig)"
    and "tc_signatures (c_types k) j = None \<or> tc_signatures (c_types k) j = Some sig"
  shows "\<exists>k'. get_signature d j k = (Inr sig, k') \<and> (c_types k' = c_types k \<or> c_types k' = put_signature j sig (c_types k))"
  using assms(2)
proof
  obtain k' where k': "exchange d (signature_request j) decode_signature_reply k = (Inr sig, k')" "c_types k' = c_types k"
    using exchange_replies [OF assms(1), of k] by (auto simp: signature_request_def)
  assume "tc_signatures (c_types k) j = None"
  then show ?thesis by (simp add: get_signature_def cache_signature_def cbind_def k' set_types_def creturn_def)
qed (simp add: get_signature_def cache_signature_def creturn_def)

text \<open>A live connection whose type cache holds nothing but what is stated of the class.\<close>

definition cache_true :: "stated_debuggee \<Rightarrow> u64 \<Rightarrow> stated_class \<Rightarrow> type_cache \<Rightarrow> bool" where
  "cache_true vm i c tc \<longleftrightarrow>
     (tc_methods tc i = None \<or> tc_methods tc i = Some (sc_methods c)) \<and> (tc_fields tc i = None \<or> tc_fields tc i = Some (sc_fields c))
     \<and> (tc_superclasses tc i = None \<or> tc_superclasses tc i = Some (sc_superclass c))
     \<and> (tc_interfaces tc i = None \<or> tc_interfaces tc i = Some (sc_interfaces c))
     \<and> (\<forall>j. sc_superclass c = Some j \<or> j \<in> set (sc_interfaces c)
          \<longrightarrow> tc_signatures tc j = None \<or> tc_signatures tc j = Some (stated_or [] sc_signature j vm))"

definition live_source :: "stated_debuggee \<Rightarrow> u64 \<Rightarrow> stated_class \<Rightarrow> reads_source \<Rightarrow> bool" where
  "live_source vm i c r \<longleftrightarrow> (\<exists>k. r = Live k \<and> cache_true vm i c (c_types k))"

lemma cache_true_put:
  assumes "cache_true vm i c tc"
  shows "cache_true vm i c (put_methods i (sc_methods c) tc)" "cache_true vm i c (put_fields i (sc_fields c) tc)"
    "cache_true vm i c (put_interfaces i (sc_interfaces c) tc)" "cache_true vm i c (put_superclass i (sc_superclass c) tc)"
    "cache_true vm i c (put_signature j (stated_or [] sc_signature j vm) tc)"
  using assms by (simp_all add: cache_true_def put_methods_def put_fields_def put_interfaces_def put_superclass_def put_signature_def)

lemma live_answered:
  assumes "\<And>k :: conn. cache_true vm i c (c_types k) \<Longrightarrow> \<exists>k'. live k = (Inr a, k') \<and> cache_true vm i c (c_types k')"
  shows "answered (live_source vm i c) (either_source live f) a"
  using assms by (fastforce simp: answered_def live_source_def either_source_def)

lemma live_cached:
  assumes "\<And>k :: conn. P (c_types k) \<Longrightarrow> \<exists>k'. live k = (Inr a, k') \<and> (c_types k' = c_types k \<or> c_types k' = put (c_types k))"
    and "\<And>tc. cache_true vm i c tc \<Longrightarrow> P tc" "\<And>tc. cache_true vm i c tc \<Longrightarrow> cache_true vm i c (put tc)"
  shows "answered (live_source vm i c) (either_source live f) a"
proof (rule live_answered)
  fix k :: conn
  assume k: "cache_true vm i c (c_types k)"
  obtain k' where "live k = (Inr a, k')" "c_types k' = c_types k \<or> c_types k' = put (c_types k)"
    using assms(1) [OF assms(2) [OF k]] by blast
  then show "\<exists>k'. live k = (Inr a, k') \<and> cache_true vm i c (c_types k')" using k assms(3) by auto
qed

lemma live_uncached:
  "replies d s k b dec (Inr a) \<Longrightarrow> answered (live_source vm i c) (either_source (exchange d (request s k b) dec) f) a"
  by (rule live_answered) (metis exchange_replies)

definition replies_as :: "debuggee \<Rightarrow> stated_debuggee \<Rightarrow> u64 \<Rightarrow> class_file \<Rightarrow> stated_class \<Rightarrow> bool" where
  "replies_as d vm i built c \<longleftrightarrow>
     replies d CS_REFERENCE_TYPE RT_METHODS_WITH_GENERIC (put_be 8 i)
       (checked (rbind read_i32 (\<lambda>n. read_n (i32_count n) (read_method_info True)))) (Inr (sc_methods c))
     \<and> replies d CS_REFERENCE_TYPE RT_FIELDS_WITH_GENERIC (put_be 8 i)
       (checked (rbind read_i32 (\<lambda>n. read_n (i32_count n) (read_field_info True)))) (Inr (sc_fields c))
     \<and> replies d CS_REFERENCE_TYPE RT_MODIFIERS (put_be 8 i) (checked read_i32) (Inr (sc_modifiers c))
     \<and> replies d CS_CLASS_TYPE CLASS_TYPE_SUPERCLASS (put_be 8 i) (checked read_u64)
       (Inr (case sc_superclass c of None \<Rightarrow> 0 | Some j \<Rightarrow> j)) \<and> sc_superclass c \<noteq> Some 0
     \<and> replies d CS_REFERENCE_TYPE RT_INTERFACES (put_be 8 i)
       (checked (rbind read_i32 (\<lambda>n. read_n (i32_count n) read_u64))) (Inr (sc_interfaces c))
     \<and> (\<forall>j. sc_superclass c = Some j \<or> j \<in> set (sc_interfaces c)
          \<longrightarrow> replies d CS_REFERENCE_TYPE RT_SIGNATURE (put_be 8 j) decode_signature_reply (Inr (stated_or [] sc_signature j vm)))
     \<and> (\<forall>m\<in>set (sc_methods c). \<exists>x. replies d CS_METHOD M_LINE_TABLE (put_be 8 i @ put_be 8 (mi_method_id m)) decode_line_table x
          \<and> (case x of Inr t \<Rightarrow> lt_lines t = listed (mi_method_id m) (sc_line_tables c)
             | Inl (JdwpErrorCode code _) \<Rightarrow> code = ERR_ABSENT_INFORMATION \<and> listed (mi_method_id m) (sc_line_tables c) = []
             | Inl _ \<Rightarrow> False))
     \<and> replies d CS_VIRTUAL_MACHINE VM_CAPABILITIES [] (checked read_capabilities) (Inr (sd_capabilities vm))
     \<and> (can_get_bytecodes (sd_capabilities vm) \<longrightarrow> (\<forall>m\<in>set (sc_methods c).
          (\<exists>f\<in>set (cf_methods built). method_key f = (mi_name m, mi_signature m) \<and> fm_has_code f)
          \<longrightarrow> replies d CS_METHOD M_BYTECODES (put_be 8 i @ put_be 8 (mi_method_id m)) (checked read_bytecodes)
                (Inr (listed (mi_method_id m) (sc_bytecodes c)))))"

lemma replies_asD:
  assumes "replies_as d vm i built c"
  shows "replies d CS_REFERENCE_TYPE RT_METHODS_WITH_GENERIC (put_be 8 i)
       (checked (rbind read_i32 (\<lambda>n. read_n (i32_count n) (read_method_info True)))) (Inr (sc_methods c))"
    "replies d CS_REFERENCE_TYPE RT_FIELDS_WITH_GENERIC (put_be 8 i)
       (checked (rbind read_i32 (\<lambda>n. read_n (i32_count n) (read_field_info True)))) (Inr (sc_fields c))"
    "replies d CS_REFERENCE_TYPE RT_MODIFIERS (put_be 8 i) (checked read_i32) (Inr (sc_modifiers c))"
    "replies d CS_CLASS_TYPE CLASS_TYPE_SUPERCLASS (put_be 8 i) (checked read_u64)
       (Inr (case sc_superclass c of None \<Rightarrow> 0 | Some j \<Rightarrow> j))" "sc_superclass c \<noteq> Some 0"
    "replies d CS_REFERENCE_TYPE RT_INTERFACES (put_be 8 i)
       (checked (rbind read_i32 (\<lambda>n. read_n (i32_count n) read_u64))) (Inr (sc_interfaces c))"
    "replies d CS_VIRTUAL_MACHINE VM_CAPABILITIES [] (checked read_capabilities) (Inr (sd_capabilities vm))"
  using assms unfolding replies_as_def by blast+

lemma live_answers_as:
  assumes r: "replies_as d vm i built c"
  shows "answers_as d (live_source vm i c) vm i built c"
proof -
  note replies = replies_asD [OF r]
  have methods: "answered (live_source vm i c) (reads_get_methods d i) (sc_methods c)"
    unfolding reads_get_methods_def
    by (rule live_cached [where P = "\<lambda>tc. tc_methods tc i = None \<or> tc_methods tc i = Some (sc_methods c)",
        OF cached_methods_read [OF replies(1)]]) (simp_all add: cache_true_put, simp add: cache_true_def)
  have fields: "answered (live_source vm i c) (reads_get_fields d i) (sc_fields c)"
    unfolding reads_get_fields_def
    by (rule live_cached [where P = "\<lambda>tc. tc_fields tc i = None \<or> tc_fields tc i = Some (sc_fields c)",
        OF cached_fields_read [OF replies(2)]]) (simp_all add: cache_true_put, simp add: cache_true_def)
  have interfaces: "answered (live_source vm i c) (reads_get_interfaces d i) (sc_interfaces c)"
    unfolding reads_get_interfaces_def
    by (rule live_cached [where P = "\<lambda>tc. tc_interfaces tc i = None \<or> tc_interfaces tc i = Some (sc_interfaces c)",
        OF cached_interfaces_read [OF replies(6)]]) (simp_all add: cache_true_put, simp add: cache_true_def)
  have superclass: "answered (live_source vm i c) (reads_get_superclass d i) (sc_superclass c)"
    unfolding reads_get_superclass_def
    by (rule live_cached [where P = "\<lambda>tc. tc_superclasses tc i = None \<or> tc_superclasses tc i = Some (sc_superclass c)",
        OF cached_superclass_read [OF replies(4,5)]]) (simp_all add: cache_true_put, simp add: cache_true_def)
  have signature: "answered (live_source vm i c) (reads_get_signature d j) (stated_or [] sc_signature j vm)"
    if j: "sc_superclass c = Some j \<or> j \<in> set (sc_interfaces c)" for j
  proof -
    have "replies d CS_REFERENCE_TYPE RT_SIGNATURE (put_be 8 j) decode_signature_reply (Inr (stated_or [] sc_signature j vm))"
      using r j unfolding replies_as_def by blast
    from cached_signature_read [OF this] show ?thesis
      unfolding reads_get_signature_def
      by (rule live_cached [where P = "\<lambda>tc. tc_signatures tc j = None \<or> tc_signatures tc j = Some (stated_or [] sc_signature j vm)"])
        (use j in \<open>auto simp: cache_true_put, auto simp: cache_true_def\<close>)
  qed
  have tables: "answered (live_source vm i c) (one_line_table d i (mi_method_id m))
          (map (\<lambda>e. (lte_line_code_index e, lte_line_number e)) (listed (mi_method_id m) (sc_line_tables c)),
           listed (mi_method_id m) (sc_line_tables c) \<noteq> [])" if m: "m \<in> set (sc_methods c)" for m
  proof (rule answeredI)
    fix r assume R: "live_source vm i c r"
    then obtain cn where cn: "r = Live cn" by (auto simp: live_source_def)
    obtain x where x: "replies d CS_METHOD M_LINE_TABLE (put_be 8 i @ put_be 8 (mi_method_id m)) decode_line_table x"
      "case x of Inr t \<Rightarrow> lt_lines t = listed (mi_method_id m) (sc_line_tables c)
         | Inl (JdwpErrorCode code _) \<Rightarrow> code = ERR_ABSENT_INFORMATION \<and> listed (mi_method_id m) (sc_line_tables c) = []
         | Inl _ \<Rightarrow> False" using r m unfolding replies_as_def by blast
    obtain k' where k': "get_line_table d i (mi_method_id m) cn = (x, k')" "c_types k' = c_types cn"
      using exchange_replies [OF x(1), of cn] by (auto simp: get_line_table_def line_table_request_def)
    show "\<exists>r'. one_line_table d i (mi_method_id m) r = (Inr (map (\<lambda>e. (lte_line_code_index e, lte_line_number e))
        (listed (mi_method_id m) (sc_line_tables c)), listed (mi_method_id m) (sc_line_tables c) \<noteq> []), r') \<and> live_source vm i c r'"
      using x(2) R cn
      by (auto simp: one_line_table_def reads_get_line_table_def either_source_def Let_def live_source_def k'
          split: sum.splits jdwp_error.splits)
  qed
  have "answered (live_source vm i c) (reads_get_modifiers d i) (sc_modifiers c)"
      "answered (live_source vm i c) (reads_capabilities d) (sd_capabilities vm)"
    unfolding reads_get_modifiers_def get_modifiers_def reads_capabilities_def capabilities_def
    by (rule live_uncached [OF replies(3)], rule live_uncached [OF replies(7)])
  moreover have "answered (live_source vm i c) (reads_get_bytecodes d i (mi_method_id m)) (listed (mi_method_id m) (sc_bytecodes c))"
    if "replies d CS_METHOD M_BYTECODES (put_be 8 i @ put_be 8 (mi_method_id m)) (checked read_bytecodes)
                (Inr (listed (mi_method_id m) (sc_bytecodes c)))" for m
    unfolding reads_get_bytecodes_def get_bytecodes_def by (rule live_uncached [OF that])
  then have "can_get_bytecodes (sd_capabilities vm) \<longrightarrow> (\<forall>m\<in>set (sc_methods c).
          (\<exists>f\<in>set (cf_methods built). method_key f = (mi_name m, mi_signature m) \<and> fm_has_code f)
          \<longrightarrow> answered (live_source vm i c) (reads_get_bytecodes d i (mi_method_id m)) (listed (mi_method_id m) (sc_bytecodes c)))"
    using r unfolding replies_as_def by blast
  ultimately show ?thesis
    unfolding answers_as_def using methods fields interfaces superclass signature tables by (intro conjI allI impI ballI) auto
qed

text \<open>The reads one by one, and the reads a check composes of them.\<close>

lemma answers_reads:
  assumes "answers_as d R vm i built c"
  shows "answered R (or_err what (reads_get_methods d i)) (sc_methods c)"
    and "answered R (or_err what (reads_get_fields d i)) (sc_fields c)"
    and "answered R (or_err what (reads_get_modifiers d i)) (sc_modifiers c)"
    and "answered R (or_err what (reads_get_superclass d i)) (sc_superclass c)"
    and "answered R (or_err what (reads_get_interfaces d i)) (sc_interfaces c)"
    and "sc_superclass c = Some j \<or> j \<in> set (sc_interfaces c)
      \<Longrightarrow> answered R (or_err what (reads_get_signature d j)) (stated_or [] sc_signature j vm)"
    and "m \<in> set (sc_methods c) \<Longrightarrow> answered R (or_err what (one_line_table d i (mi_method_id m)))
          (map (\<lambda>e. (lte_line_code_index e, lte_line_number e)) (listed (mi_method_id m) (sc_line_tables c)),
           listed (mi_method_id m) (sc_line_tables c) \<noteq> [])"
    and "answered R (or_err what (reads_capabilities d)) (sd_capabilities vm)"
    and "can_get_bytecodes (sd_capabilities vm) \<Longrightarrow> m \<in> set (sc_methods c) \<Longrightarrow> f \<in> set (cf_methods built)
      \<Longrightarrow> method_key f = (mi_name m, mi_signature m) \<Longrightarrow> fm_has_code f
      \<Longrightarrow> answered R (k_result (reads_get_bytecodes d i (mi_method_id m))) (Inr (listed (mi_method_id m) (sc_bytecodes c)))"
  using assms unfolding answers_as_def by (blast intro: answers_or_err answers_k_result)+

lemma answers_read_jvm_line_tables:
  assumes c: "answers_as d R vm i built c"
  shows "answered R (read_jvm_line_tables d i) (map (running_lines c) (sc_methods c))"
proof -
  have one: "answered R (k_bind (or_err what (one_line_table d i (mi_method_id m)))
      (\<lambda>(ls, present). k_return \<lparr>ml_name = mi_name m, ml_descriptor = mi_signature m, ml_lines = ls, ml_comparable = present\<rparr>))
      (running_lines c m)" if "m \<in> set (sc_methods c)" for m what
    by (rule answers_bind [OF answers_reads(7) [OF c that]]) (auto simp: Let_def running_lines_def intro: answers_return)
  show ?thesis
    unfolding read_jvm_line_tables_def
    by (rule answers_bind [OF answers_reads(1) [OF c]]) (rule answers_map, rule one)
qed

lemma answers_loaded_superclass:
  assumes c: "answers_as d R vm i built c"
  shows "answered R (loaded_superclass d i) (map_option (type_name vm) (sc_superclass c))"
proof (cases "sc_superclass c")
  case None
  then show ?thesis
    unfolding loaded_superclass_def by (intro answers_bind [OF answers_reads(4) [OF c]]) (simp add: answers_return)
next
  case (Some j)
  have "answered R (k_bind (or_err what (reads_get_signature d j)) (\<lambda>sig. k_return (Some (dotted_from_signature sig))))
      (Some (type_name vm j))" for what
    unfolding type_name_def by (rule answers_bind [OF answers_reads(6) [OF c]]) (simp add: Some, rule answers_return)
  then show ?thesis
    unfolding loaded_superclass_def by (intro answers_bind [OF answers_reads(4) [OF c]]) (simp add: Some)
qed

lemma answers_loaded_interfaces:
  assumes c: "answers_as d R vm i built c"
  shows "answered R (loaded_interfaces d i) (sort (map (type_name vm) (sc_interfaces c)))"
proof -
  have name: "answered R (k_bind (or_err what (reads_get_signature d j)) (\<lambda>s. k_return (dotted_from_signature s))) (type_name vm j)"
    if "j \<in> set (sc_interfaces c)" for j what
    unfolding type_name_def by (rule answers_bind [OF answers_reads(6) [OF c]]) (simp add: that, rule answers_return)
  show ?thesis
    unfolding loaded_interfaces_def
    by (rule answers_bind [OF answers_reads(5) [OF c]], rule answers_bind [OF answers_map])
      (erule name, rule answers_return)
qed

definition stated_shape :: "stated_debuggee \<Rightarrow> stated_class \<Rightarrow> class_shape" where
  "stated_shape vm c =
     \<lparr>sh_access_flags = and (mod_bits_u16 (sc_modifiers c)) CLASS_MODIFIER_MASK,
      sh_super_class = map_option (type_name vm) (sc_superclass c),
      sh_interfaces = sort (map (type_name vm) (sc_interfaces c)),
      sh_fields = map (\<lambda>f. declared_field (fld_name f) (fld_signature f) (mod_bits_u16 (fld_mod_bits f))) (sc_fields c),
      sh_methods = map (\<lambda>m. declared_method (mi_name m) (mi_signature m) (mod_bits_u16 (mi_mod_bits m))) (sc_methods c)\<rparr>"

lemma answers_loaded_class_shape:
  assumes c: "answers_as d R vm i built c"
  shows "answered R (loaded_class_shape d i) (stated_shape vm c)"
  unfolding loaded_class_shape_def stated_shape_def
  by (rule answers_bind [OF answers_reads(3) [OF c]], rule answers_bind [OF answers_loaded_superclass [OF c]],
      rule answers_bind [OF answers_loaded_interfaces [OF c]], rule answers_bind [OF answers_reads(2) [OF c]],
      rule answers_bind [OF answers_reads(1) [OF c]], rule answers_return)

lemma sort_mset_eq: "mset xs = mset ys \<Longrightarrow> sort xs = sort (ys :: 'a :: linorder list)"
  by (rule properties_for_sort) simp_all

lemma image_sig:
  "member_sig ` (\<lambda>m. declared_method (mi_name m) (mi_signature m) (mod_bits_u16 (mi_mod_bits m))) ` A
     = (\<lambda>x. (fst x, fst (snd x))) ` running_method c ` A"
  "member_sig ` (\<lambda>m. declared_method (fm_name m) (fm_descriptor m) (fm_access_flags m)) ` B
     = (\<lambda>x. (fst x, fst (snd x))) ` built_method ` B"
  "member_sig ` (\<lambda>f. declared_field (fld_name f) (fld_signature f) (mod_bits_u16 (fld_mod_bits f))) ` C = running_field ` C"
  "member_sig ` (\<lambda>f. declared_field (ff_name f) (ff_descriptor f) (ff_access_flags f)) ` D = built_field ` D"
  by (simp_all add: image_image member_sig_def dm_key_def declared_method_def declared_field_def running_method_def
      built_method_def running_field_def built_field_def)

lemma stated_same_shape:
  assumes runs: "runs_build vm i built c"
  shows "same_shape (stated_shape vm c) (built_class_shape built)"
proof -
  have ms: "running_method c ` set (sc_methods c) = built_method ` set (cf_methods built)"
    and fs: "running_field ` set (sc_fields c) = built_field ` set (cf_fields built)"
    and flags: "and (mod_bits_u16 (sc_modifiers c)) CLASS_MODIFIER_MASK = and (cf_access_flags built) CLASS_MODIFIER_MASK"
    and super: "map_option (type_name vm) (sc_superclass c) = cf_super_class built"
    and ifs: "mset (map (type_name vm) (sc_interfaces c)) = mset (cf_interfaces built)"
    using runs unfolding runs_build_def by blast+
  have methods: "member_sig ` set (sh_methods (stated_shape vm c)) = member_sig ` set (sh_methods (built_class_shape built))"
    unfolding stated_shape_def built_class_shape_def class_shape.simps set_map image_sig(1) [of _ c] image_sig(2) ms ..
  have fields: "member_sig ` set (sh_fields (stated_shape vm c)) = member_sig ` set (sh_fields (built_class_shape built))"
    unfolding stated_shape_def built_class_shape_def class_shape.simps set_map image_sig(3,4) fs ..
  show ?thesis
    unfolding same_shape_def
  proof (intro conjI methods fields)
    show "sh_interfaces (stated_shape vm c) = sh_interfaces (built_class_shape built)"
      unfolding stated_shape_def built_class_shape_def class_shape.simps by (rule sort_mset_eq [OF ifs])
  qed (simp_all add: stated_shape_def built_class_shape_def flags super)
qed

lemma one_each_image:
  assumes "member_sig ` set l = member_sig ` set b" and "one_each b"
  shows "one_each l"
  unfolding one_each_def
proof (intro ballI impI)
  fix x y assume x: "x \<in> set l" and y: "y \<in> set l" and k: "dm_key x = dm_key y"
  obtain u where u: "u \<in> set b" "member_sig x = member_sig u" using assms(1) x by (metis imageE imageI)
  obtain v where v: "v \<in> set b" "member_sig y = member_sig v" using assms(1) y by (metis imageE imageI)
  have "dm_modifiers u = dm_modifiers v"
    by (rule assms(2) [unfolded one_each_def, rule_format, OF u(1) v(1)]) (use u(2) v(2) k in \<open>simp add: member_sig_def\<close>)
  then show "dm_modifiers x = dm_modifiers y" using u(2) v(2) by (simp add: member_sig_def)
qed

lemma compare_fold:
  assumes "\<forall>j\<in>set running. \<exists>f. find (\<lambda>b. ml_key b = ml_key j) built = Some f
      \<and> (ml_comparable j \<and> ml_comparable f \<longrightarrow> ml_lines j = ml_lines f)"
  shows "sr_differing (fold (compare_method built) running r) = sr_differing r
    \<and> sr_only_in_jvm (fold (compare_method built) running r) = sr_only_in_jvm r
    \<and> sr_only_in_build (fold (compare_method built) running r) = sr_only_in_build r
    \<and> sr_bytecode (fold (compare_method built) running r) = sr_bytecode r
    \<and> sr_matched (fold (compare_method built) running r) + sr_skipped (fold (compare_method built) running r)
        = sr_matched r + sr_skipped r + length running"
  using assms
proof (induction running arbitrary: r)
  case Nil
  show ?case by simp
next
  case (Cons j js)
  obtain f where f: "find (\<lambda>b. ml_key b = ml_key j) built = Some f"
    "ml_comparable j \<and> ml_comparable f \<longrightarrow> ml_lines j = ml_lines f" using Cons.prems by auto
  have step: "sr_differing (compare_method built j r) = sr_differing r"
    "sr_only_in_jvm (compare_method built j r) = sr_only_in_jvm r"
    "sr_only_in_build (compare_method built j r) = sr_only_in_build r"
    "sr_bytecode (compare_method built j r) = sr_bytecode r"
    "sr_matched (compare_method built j r) + sr_skipped (compare_method built j r) = sr_matched r + sr_skipped r + 1"
    using f by (auto simp: compare_method_def)
  have rest: "\<forall>j\<in>set js. \<exists>f. find (\<lambda>b. ml_key b = ml_key j) built = Some f
      \<and> (ml_comparable j \<and> ml_comparable f \<longrightarrow> ml_lines j = ml_lines f)"
    using Cons.prems by simp
  show ?case using Cons.IH [OF rest, of "compare_method built j r"] step by simp
qed

lemma find_distinct: "distinct (map k xs) \<Longrightarrow> f \<in> set xs \<Longrightarrow> find (\<lambda>b. k b = k f) xs = Some f"
  by (induction xs) (auto simp: image_iff)

lemma key_built_lines: "ml_key (built_lines f) = method_key f"
  by (simp add: ml_key_def built_lines_def method_key_def)

lemma running_in_build:
  assumes runs: "runs_build vm i built c" and m: "m \<in> set (sc_methods c)"
  obtains f where "f \<in> set (cf_methods built)" and "built_method f = running_method c m"
proof -
  have "running_method c ` set (sc_methods c) = built_method ` set (cf_methods built)"
    using runs unfolding runs_build_def by blast
  moreover have "running_method c m \<in> running_method c ` set (sc_methods c)" using m by (rule imageI)
  ultimately have "running_method c m \<in> built_method ` set (cf_methods built)" by simp
  then show ?thesis by (rule imageE) (rule that, simp_all)
qed

lemma built_is_running:
  assumes runs: "runs_build vm i built c" and f: "f \<in> set (cf_methods built)"
  obtains m where "m \<in> set (sc_methods c)" and "built_method f = running_method c m"
proof -
  have "running_method c ` set (sc_methods c) = built_method ` set (cf_methods built)"
    using runs unfolding runs_build_def by blast
  moreover have "built_method f \<in> built_method ` set (cf_methods built)" using f by (rule imageI)
  ultimately have "built_method f \<in> running_method c ` set (sc_methods c)" by simp
  then show ?thesis by (rule imageE) (rule that, simp_all)
qed

lemma built_method_eqD:
  assumes "built_method f = running_method c m"
  shows "method_key f = (mi_name m, mi_signature m)" and "ml_key (running_lines c m) = method_key f"
    and "ml_lines (running_lines c m) = fm_lines f" and "listed (mi_method_id m) (sc_bytecodes c) = fm_code f"
  using assms by (simp_all add: built_method_def running_method_def method_key_def running_lines_def ml_key_def Let_def)

lemma clean_tables:
  assumes runs: "runs_build vm i built c" and dist: "distinct (map method_key (cf_methods built))"
  defines "r \<equiv> compare_line_tables (map (running_lines c) (sc_methods c)) (cf_methods built)"
  shows "\<not> is_stale r" and "sr_matched r + sr_skipped r = length (sc_methods c)" and "sr_differing r = []"
    and "sr_only_in_jvm r = []" and "sr_only_in_build r = []"
proof -
  let ?running = "map (running_lines c) (sc_methods c)"
  let ?built = "map built_lines (cf_methods built)"
  have dist': "distinct (map ml_key ?built)" using dist by (simp add: comp_def key_built_lines)
  have found: "\<forall>j\<in>set ?running. \<exists>f. find (\<lambda>b. ml_key b = ml_key j) ?built = Some f
      \<and> (ml_comparable j \<and> ml_comparable f \<longrightarrow> ml_lines j = ml_lines f)"
  proof
    fix j assume "j \<in> set ?running"
    then obtain m where m: "m \<in> set (sc_methods c)" "j = running_lines c m" by auto
    obtain f where f: "f \<in> set (cf_methods built)" "built_method f = running_method c m"
      using running_in_build [OF runs m(1)] .
    have "find (\<lambda>b. ml_key b = ml_key (built_lines f)) ?built = Some (built_lines f)"
      by (rule find_distinct [OF dist']) (use f(1) in simp)
    moreover have "ml_key j = ml_key (built_lines f)" "ml_lines j = ml_lines (built_lines f)"
      using built_method_eqD(2,3) [OF f(2)] by (simp_all add: m(2) key_built_lines) (simp add: built_lines_def)
    ultimately show "\<exists>f. find (\<lambda>b. ml_key b = ml_key j) ?built = Some f
        \<and> (ml_comparable j \<and> ml_comparable f \<longrightarrow> ml_lines j = ml_lines f)" by auto
  qed
  have none: "filter (\<lambda>f. \<not> list_ex (\<lambda>j. ml_key j = ml_key f) ?running) ?built = []"
    unfolding filter_empty_conv
  proof
    fix b assume "b \<in> set ?built"
    then obtain f where f: "f \<in> set (cf_methods built)" "b = built_lines f" by auto
    obtain m where m: "m \<in> set (sc_methods c)" "built_method f = running_method c m"
      using built_is_running [OF runs f(1)] .
    show "\<not> \<not> list_ex (\<lambda>j. ml_key j = ml_key b) ?running"
      using m(1) built_method_eqD(2) [OF m(2)] by (auto simp: list_ex_iff f(2) key_built_lines)
  qed
  note fold = compare_fold [OF found, of stale_report_new]
  show d: "sr_differing r = []" and j: "sr_only_in_jvm r = []" and b: "sr_only_in_build r = []"
    and "sr_matched r + sr_skipped r = length (sc_methods c)"
    unfolding r_def compare_line_tables_def Let_def none using fold by (simp_all add: stale_report_new_def)
  have "sr_bytecode r = None"
    unfolding r_def compare_line_tables_def Let_def using fold by (simp add: stale_report_new_def)
  then show "\<not> is_stale r" using d j b by (simp add: is_stale_def)
qed

lemma answers_bytecode_of_method:
  assumes c: "answers_as d R vm i built c" and can: "can_get_bytecodes (sd_capabilities vm)"
    and runs: "runs_build vm i built c" and dist: "distinct (map method_key (cf_methods built))"
    and m: "m \<in> set (sc_methods c)"
  shows "\<exists>r'. answered R (bytecode_of_method d i (cf_methods built) m r) r' \<and> br_differing r' = br_differing r"
proof -
  obtain f where f: "f \<in> set (cf_methods built)" "built_method f = running_method c m"
    using running_in_build [OF runs m] .
  have "find (\<lambda>b. method_key b = method_key f) (cf_methods built) = Some f" by (rule find_distinct [OF dist f(1)])
  then have found: "find (\<lambda>b. (fm_name b, fm_descriptor b) = (mi_name m, mi_signature m)) (cf_methods built) = Some f"
    by (simp add: method_key_def built_method_eqD(1) [OF f(2), unfolded method_key_def])
  show ?thesis
  proof (cases "fm_has_code f")
    case False
    show ?thesis
      by (rule exI [of _ "r\<lparr>br_skipped := br_skipped r + 1\<rparr>"])
        (use False in \<open>simp add: bytecode_of_method_def found answers_return del: prod.inject\<close>)
  next
    case True
    have code: "listed (mi_method_id m) (sc_bytecodes c) = fm_code f" by (rule built_method_eqD(4) [OF f(2)])
    show ?thesis
      by (rule exI [of _ "r\<lparr>br_compared := br_compared r + 1\<rparr>"], rule conjI)
        (use True in \<open>auto simp: bytecode_of_method_def found code Let_def simp del: prod.inject
           intro!: answers_bind [OF answers_reads(9) [OF c can m f(1) built_method_eqD(1) [OF f(2)] True]] answers_return\<close>)
  qed
qed

lemma answers_bytecode_of_methods:
  assumes c: "answers_as d R vm i built c" and can: "can_get_bytecodes (sd_capabilities vm)"
    and runs: "runs_build vm i built c" and dist: "distinct (map method_key (cf_methods built))"
  shows "set ms \<subseteq> set (sc_methods c)
    \<Longrightarrow> \<exists>r'. answered R (bytecode_of_methods d i (cf_methods built) ms r) r' \<and> br_differing r' = br_differing r"
proof (induction ms arbitrary: r)
  case Nil
  show ?case by (auto intro: answers_return)
next
  case (Cons m ms)
  obtain r1 where 1: "answered R (bytecode_of_method d i (cf_methods built) m r) r1" "br_differing r1 = br_differing r"
    using answers_bytecode_of_method [OF c can runs dist, of m r] Cons.prems by auto
  obtain r2 where 2: "answered R (bytecode_of_methods d i (cf_methods built) ms r1) r2" "br_differing r2 = br_differing r1"
    using Cons.IH [of r1] Cons.prems by auto
  show ?case
    unfolding bytecode_of_methods.simps
    by (rule exI [of _ r2], rule conjI, rule answers_bind [OF 1(1)], rule 2(1)) (simp add: 1(2) 2(2))
qed

lemma answers_compare_bytecode:
  assumes c: "answers_as d R vm i built c" and runs: "runs_build vm i built c" and dist: "distinct (map method_key (cf_methods built))"
  shows "\<exists>b. answered R (compare_bytecode d i (cf_methods built)) b \<and> br_differing b = []"
proof (cases "can_get_bytecodes (sd_capabilities vm)")
  case False
  show ?thesis
    unfolding compare_bytecode_def
    by (rule exI [of _ "bytecode_report_new\<lparr>br_unavailable := True\<rparr>"], rule conjI, rule answers_bind [OF answers_reads(8) [OF c]])
      (simp_all add: False answers_return bytecode_report_new_def)
next
  case True
  obtain b where b: "answered R (bytecode_of_methods d i (cf_methods built) (sc_methods c) bytecode_report_new) b"
    "br_differing b = br_differing bytecode_report_new"
    using answers_bytecode_of_methods [OF c True runs dist subset_refl] by blast
  have "answered R (compare_bytecode d i (cf_methods built)) b"
    unfolding compare_bytecode_def
    by (rule answers_bind [OF answers_reads(8) [OF c]], simp only: True not_True_eq_False if_False)
      (rule answers_bind [OF answers_reads(1) [OF c]], rule b(1))
  then show ?thesis using b(2) by (auto simp: bytecode_report_new_def)
qed

lemma one_each_built:
  assumes "distinct (map k xs)" and "\<And>x. x \<in> set xs \<Longrightarrow> dm_key (g x) = k x"
  shows "one_each (map g xs)"
proof -
  have "map dm_key (map g xs) = map k xs" by (simp add: assms(2))
  then have "distinct (map dm_key (map g xs))" using assms(1) by (simp only:)
  then show ?thesis by (rule distinct_one_each)
qed

lemma clean_forecast:
  assumes runs: "runs_build vm i built c"
    and "distinct (map method_key (cf_methods built))" and "distinct (map field_key (cf_fields built))"
  shows "forecast_redefine (stated_shape vm c) (built_class_shape built) = []"
proof -
  note same = stated_same_shape [OF runs]
  have m: "one_each (sh_methods (built_class_shape built))"
    unfolding built_class_shape_def class_shape.simps
    by (rule one_each_built [OF assms(2)]) (simp add: declared_method_def dm_key_def method_key_def)
  have f: "one_each (sh_fields (built_class_shape built))"
    unfolding built_class_shape_def class_shape.simps
    by (rule one_each_built [OF assms(3)]) (simp add: declared_field_def dm_key_def field_key_def)
  show ?thesis
  proof -
    have "one_each (sh_fields (stated_shape vm c))"
      by (rule one_each_image [OF _ f]) (use same in \<open>simp only: same_shape_def\<close>)
    moreover have "one_each (sh_methods (stated_shape vm c))"
      by (rule one_each_image [OF _ m]) (use same in \<open>simp only: same_shape_def\<close>)
    ultimately show ?thesis using same by (simp only: forecast_empty_if)
  qed
qed

lemma answers_stale_verdict:
  assumes c: "answers_as d R vm i built c" and runs: "runs_build vm i built c" and dist: "distinct (map method_key (cf_methods built))"
  shows "\<exists>r. answered R (stale_verdict d i bytecode built) r \<and> \<not> is_stale r
    \<and> sr_matched r + sr_skipped r = length (sc_methods c)"
proof -
  note tables = clean_tables [OF runs dist]
  let ?r = "compare_line_tables (map (running_lines c) (sc_methods c)) (cf_methods built)"
  obtain b where b: "answered R (compare_bytecode d i (cf_methods built)) b" "br_differing b = []"
    using answers_compare_bytecode [OF c runs dist] by blast
  show ?thesis
  proof (cases bytecode)
    case False
    show ?thesis
      unfolding stale_verdict_def
      by (rule exI [of _ ?r], intro conjI answers_bind [OF answers_read_jvm_line_tables [OF c]])
        (simp_all add: False answers_return tables)
  next
    case True
    show ?thesis
      unfolding stale_verdict_def
      by (rule exI [of _ "?r\<lparr>sr_bytecode := Some b\<rparr>"], intro conjI answers_bind [OF answers_read_jvm_line_tables [OF c]],
          simp only: True if_True Let_def, rule answers_bind [OF b(1)], rule answers_return)
        (simp_all add: tables b(2) is_stale_def)
  qed
qed

text \<open>
  C19: a debuggee that runs the build on disk is never called stale and never forecast to refuse it.  When the running class
  has the methods, fields, modifiers, superclass and interfaces of the class file, in any order, with the same line tables
  and the same code, the comparison answers, with or without bytecode, finds every method either matching or not
  comparable and nothing else, and the forecast of a redefinition is empty.  The reads may go to a live debuggee, through a
  type cache that holds nothing stale (\<open>live_answers_as\<close>), or to one stated as data (\<open>stated_answers_as\<close>): all that is
  asked is that each read of the class is answered.  The class file declares no method and no field twice, as the JVM
  requires of it.
\<close>

theorem current_build_is_clean:
  assumes "answers_as d R vm i built c" and "R r" and "runs_build vm i built c"
    and "distinct (map method_key (cf_methods built))" and "distinct (map field_key (cf_fields built))"
  shows "\<exists>report r1 shape r2. stale_verdict d i bytecode built r = (Inr report, r1)
    \<and> \<not> is_stale report \<and> sr_matched report + sr_skipped report = length (sc_methods c)
    \<and> loaded_class_shape d i r1 = (Inr shape, r2) \<and> forecast_redefine shape (built_class_shape built) = []"
proof -
  obtain report where report: "answered R (stale_verdict d i bytecode built) report" "\<not> is_stale report"
    "sr_matched report + sr_skipped report = length (sc_methods c)"
    using answers_stale_verdict [OF assms(1,3,4)] by blast
  obtain r1 where 1: "stale_verdict d i bytecode built r = (Inr report, r1)" "R r1"
    using answeredE [OF report(1) assms(2)] .
  obtain r2 where 2: "loaded_class_shape d i r1 = (Inr (stated_shape vm c), r2)"
    using answeredE [OF answers_loaded_class_shape [OF assms(1)] 1(2)] by metis
  show ?thesis using 1 2 report(2,3) clean_forecast [OF assms(3-5)] by blast
qed

definition sample_build :: class_file where
  "sample_build =
     \<lparr>cf_this_class = ''a.B'', cf_access_flags = 0x21, cf_super_class = None, cf_interfaces = [], cf_fields = [],
      cf_methods = [\<lparr>fm_access_flags = 1, fm_name = ''run'', fm_descriptor = ''()V'', fm_lines = [(0, 3)], fm_has_code = True,
        fm_has_line_table = True, fm_code = [0xB1]\<rparr>]\<rparr>"

definition sample_running :: stated_class where
  "sample_running =
     (stated_class_new ''La/B;'' 7)
       \<lparr>sc_modifiers := 1,
        sc_methods := [\<lparr>mi_method_id = 5, mi_name = ''run'', mi_signature = ''()V'', mi_generic_signature = None, mi_mod_bits = 1\<rparr>],
        sc_line_tables := [(5, [\<lparr>lte_line_code_index = 0, lte_line_number = 3\<rparr>])], sc_bytecodes := [(5, [0xB1])]\<rparr>"

text \<open>A debuggee on the wire that runs the sample, and the bytes it replies with.\<close>

definition sample_reply :: "u8 \<Rightarrow> u8 \<Rightarrow> bytes" where
  "sample_reply s k =
     (if s = CS_REFERENCE_TYPE \<and> k = RT_METHODS_WITH_GENERIC
      then [0, 0, 0, 1, 0, 0, 0, 0, 0, 0, 0, 5, 0, 0, 0, 3, 114, 117, 110, 0, 0, 0, 3, 40, 41, 86, 0, 0, 0, 0, 0, 0, 0, 1]
      else if s = CS_REFERENCE_TYPE \<and> k = RT_MODIFIERS then [0, 0, 0, 1]
      else if s = CS_CLASS_TYPE then [0, 0, 0, 0, 0, 0, 0, 0]
      else if s = CS_METHOD \<and> k = M_LINE_TABLE
      then [0, 0, 0, 0, 0, 0, 0, 0, 0, 0, 0, 0, 0, 0, 0, 0, 0, 0, 0, 1, 0, 0, 0, 0, 0, 0, 0, 0, 0, 0, 0, 3]
      else if s = CS_METHOD \<and> k = M_BYTECODES then [0, 0, 0, 1, 0xB1]
      else if s = CS_VIRTUAL_MACHINE then [1, 1, 1, 1, 1, 1, 1]
      else [0, 0, 0, 0])"

definition sample_live :: debuggee where
  "sample_live = \<lparr>dbg_answer = (\<lambda>_ p. Inr \<lparr>rp_id = cp_id p, rp_error_code = 0,
     rp_data = sample_reply (cp_command_set p) (cp_command p)\<rparr>), dbg_latency = (\<lambda>_ _. 0), dbg_gone = (\<lambda>_ _. None)\<rparr>"

lemma sample_replies: "run_reader rd (sample_reply s k) = x \<Longrightarrow> replies sample_live s k b (checked rd) x"
  by (simp add: replies_def sample_live_def checked_def check_error_def is_error_def)

lemma sample_reads:
  "run_reader (rbind read_i32 (\<lambda>n. read_n (i32_count n) (read_method_info True))) (sample_reply CS_REFERENCE_TYPE RT_METHODS_WITH_GENERIC)
     = Inr [\<lparr>mi_method_id = 5, mi_name = ''run'', mi_signature = ''()V'', mi_generic_signature = None, mi_mod_bits = 1\<rparr>]"
  "run_reader (rbind read_i32 (\<lambda>n. read_n (i32_count n) (read_field_info True))) (sample_reply CS_REFERENCE_TYPE RT_FIELDS_WITH_GENERIC)
     = Inr []"
  "run_reader read_i32 (sample_reply CS_REFERENCE_TYPE RT_MODIFIERS) = Inr 1"
  "run_reader read_u64 (sample_reply CS_CLASS_TYPE CLASS_TYPE_SUPERCLASS) = Inr 0"
  "run_reader (rbind read_i32 (\<lambda>n. read_n (i32_count n) read_u64)) (sample_reply CS_REFERENCE_TYPE RT_INTERFACES) = Inr []"
  "run_reader read_line_table (sample_reply CS_METHOD M_LINE_TABLE)
     = Inr \<lparr>lt_start = 0, lt_end = 0, lt_lines = [\<lparr>lte_line_code_index = 0, lte_line_number = 3\<rparr>]\<rparr>"
  "run_reader read_capabilities (sample_reply CS_VIRTUAL_MACHINE VM_CAPABILITIES) = Inr (sd_capabilities (stated_debuggee_new []))"
  "run_reader read_bytecodes (sample_reply CS_METHOD M_BYTECODES) = Inr [0xB1]"
  by code_simp+

theorem current_build_is_clean_witness:
  "\<exists>report r shape r2. stale_verdict sample_live 7 True sample_build (Live connect_init) = (Inr report, r)
    \<and> \<not> is_stale report \<and> sr_matched report + sr_skipped report = length (sc_methods sample_running)
    \<and> loaded_class_shape sample_live 7 r = (Inr shape, r2)
    \<and> forecast_redefine shape (built_class_shape sample_build) = []"
proof (rule current_build_is_clean [OF live_answers_as])
  let ?vm = "stated_debuggee_new [sample_running]"
  have running: "sc_methods sample_running =
      [\<lparr>mi_method_id = 5, mi_name = ''run'', mi_signature = ''()V'', mi_generic_signature = None, mi_mod_bits = 1\<rparr>]"
    "sc_fields sample_running = []" "sc_modifiers sample_running = 1" "sc_superclass sample_running = None"
    "sc_interfaces sample_running = []" "listed 5 (sc_line_tables sample_running) = [\<lparr>lte_line_code_index = 0, lte_line_number = 3\<rparr>]"
    "listed 5 (sc_bytecodes sample_running) = [0xB1]"
    by (simp_all add: sample_running_def stated_class_new_def listed_def)
  have caps: "sd_capabilities ?vm = sd_capabilities (stated_debuggee_new [])" by (simp add: stated_debuggee_new_def)
  show "replies_as sample_live ?vm 7 sample_build sample_running"
    unfolding replies_as_def running caps decode_line_table_def
    by (intro conjI allI impI ballI sample_replies; (simp add: sample_reads running; fail)?)
      (auto simp: running intro!: sample_replies sample_reads exI)
  show "live_source ?vm 7 sample_running (Live connect_init)"
    by (simp add: live_source_def cache_true_def connect_init_def type_cache_default_def)
  show "runs_build ?vm 7 sample_build sample_running"
    by (simp add: runs_build_def sample_build_def sample_running_def stated_class_new_def stated_debuggee_new_def by_id_def
        running_method_def built_method_def mod_bits_u16_def METHOD_MODIFIER_MASK_def CLASS_MODIFIER_MASK_def listed_def)
qed (simp_all add: sample_build_def)

end
