(* ===== verification/HotSwap.thy ===== *)
theory HotSwap
  imports ArmKinds StaleCheck
begin

text \<open>
  The class tools of a session (\<open>handlers.rs\<close>): \<open>debug.reload_class\<close> installs new bytecode, \<open>debug.pop_frame\<close> rewinds a
  thread to a call site, \<open>debug.source\<close> shows source beside what the debuggee says of it, \<open>debug.check_stale\<close> compares.
  Each is a function of its arguments on the session; the files are those of a \<open>host\<close>, the instant is the clock's.
\<close>

section \<open>Reads of a session's class\<close>

text \<open>\<open>Reads::live(&mut session.connection)\<close>: the connection stands for the source, and is put back.\<close>

definition on_live :: "(reads_source \<Rightarrow> 'a \<times> reads_source) \<Rightarrow> 'a session_op" where
  "on_live op s = (case op (Live (ds_connection s)) of
      (x, Live c) \<Rightarrow> (x, s\<lparr>ds_connection := c\<rparr>)
    | (x, Stated _) \<Rightarrow> (x, s))"

definition on_conn_err :: "string \<Rightarrow> 'a conn_op \<Rightarrow> (string + 'a) session_op" where
  "on_conn_err what op s = (case on_conn op s of (Inl e, s1) \<Rightarrow> (Inl (what @ show_jdwp_error e), s1) | (Inr a, s1) \<Rightarrow> (Inr a, s1))"

definition s_return :: "'a \<Rightarrow> (string + 'a) session_op" where
  "s_return a = s_check (Inr a)"

definition readonly_refusal :: "string \<Rightarrow> string" where
  "readonly_refusal action = (uni 0x1F512 @ '' Read-only session: '' @ action
     @ '', which is refused. Reattach without read_only (or unset JDWP_READONLY) to allow it. ''
     @ ''This is a guard against accident, not a security boundary.'')"

definition class_name_required :: "string \<Rightarrow> string + string" where
  "class_name_required given =
     (let cname = trim given in
      if cname = [] then Inl ''class_name is required (e.g. com.example.OrderService)'' else Inr cname)"

definition roots_of :: "path list option \<Rightarrow> path list \<Rightarrow> path list" where
  "roots_of given of_session = (case given of None \<Rightarrow> of_session | Some v \<Rightarrow> v)"

section \<open>debug.reload_class\<close>

record reload_class_args =
  rl_class_name :: string
  rl_class_file :: "string option"
  rl_class_roots :: "path list option"
  rl_dry_run :: bool
  rl_thread_id :: "string option"

definition live_frames_of :: "debuggee \<Rightarrow> u64 option \<Rightarrow> u64 \<Rightarrow> conn \<Rightarrow> nat list option \<times> conn" where
  "live_frames_of d thread i c =
     (case thread of
        None \<Rightarrow> (None, c)
      | Some tid \<Rightarrow>
          (case get_frames d tid 0 (- 1) c of
             (Inl _, c1) \<Rightarrow> (None, c1)
           | (Inr frames, c1) \<Rightarrow>
               (Some (map fst (filter (\<lambda>(_, f). loc_class_id (fr_location f) = i) (zip [0..<length frames] frames))), c1)))"

definition describe_live_frames :: "string \<Rightarrow> u64 option \<Rightarrow> nat list option \<Rightarrow> string" where
  "describe_live_frames cname thread live =
     (case thread of
        None \<Rightarrow> (''   No thread has stopped in this session, so nothing is suspended in the old bytecode. ''
     @ ''Calls made from now on run the new code.'' @ [CHR 0x0A])
      | Some tid \<Rightarrow>
          (case live of
             None \<Rightarrow> (''   Could not read thread 0x'' @ show_hex (unat tid) @ [CHR 0x27] @ ''s frames '' @ uni 0x2014
     @ '' it is running, not suspended. That also means nothing of yours is parked in the old ''
     @ ''bytecode: calls made from now on run the new code.'' @ [CHR 0x0A])
           | Some [] \<Rightarrow> (''   Thread 0x'' @ show_hex (unat tid) @ '' has no frame in '' @ cname
     @ '', so nothing is running the old bytecode there. Calls made from now on run the new code.'' @ [CHR 0x0A])
           | Some (first # others) \<Rightarrow>
               (''   '' @ uni 0x26A0 @ '' Thread 0x'' @ show_hex (unat tid) @ '' is INSIDE '' @ cname @ '' right now ''
     @ uni 0x2014 @ '' frame(s) '' @ join '', '' (map (\<lambda>i. ''#'' @ show_nat i) (first # others))
     @ ''. A frame already on the stack keeps running the bytecode it entered with, so the ''
     @ ''change you just made is invisible in that frame no matter how many times you inspect ''
     @ ''it. Re-enter the method to see it: debug.pop_frame {'' @ [CHR 0x22] @ ''frame'' @ [CHR 0x22] @ '':''
     @ show_nat first @ ''} rewinds the thread to the call site, then debug.continue re-executes the call with ''
     @ ''the new code.'' @ [CHR 0x0A])))"

definition stop_points_on :: "debug_session \<Rightarrow> string \<Rightarrow> string list" where
  "stop_points_on s cname =
     sort (List.map_filter (\<lambda>sp. case sp_armed_on sp of
         On_line bp \<Rightarrow>
           if lb_class_pattern bp = cname
           then Some (sp_id sp @ '' ('' @ lb_class_pattern bp @ '':'' @ show_nat (unat (lb_line bp)) @ '')'') else None
       | On_watchpoint wp \<Rightarrow>
           if wp_class_name wp = cname
           then Some (sp_id sp @ '' ('' @ wp_class_name wp @ ''.'' @ wp_field_name wp @ '')'') else None
       | On_method_exit me \<Rightarrow> if me_class_pattern me = cname then Some (sp_id sp @ '' (method-exit)'') else None
       | _ \<Rightarrow> None) (stop_point_values (ds_state s)))"

definition describe_armed_stop_points :: "string list \<Rightarrow> string" where
  "describe_armed_stop_points armed =
     (if armed = [] then []
      else (''   '' @ uni 0x26A0 @ '' '' @ show_nat (length armed) @ '' stop point(s) are armed on this class: '' @ join '', '' armed
     @ ''. Their locations were resolved against the bytecode you just replaced, so a line ''
     @ ''breakpoint may now sit on a different statement. debug.toggle_stop_point (off, then on) ''
     @ ''re-resolves one by name against the new code.'' @ [CHR 0x0A]))"

text \<open>The bytes to ship, from the file the name or the argument stands for.\<close>

definition shipped_bytes :: "host \<Rightarrow> string \<Rightarrow> string option \<Rightarrow> path list \<Rightarrow> string + path \<times> bytes" where
  "shipped_bytes w cname class_file roots =
     res_bind (resolve_class_file w cname class_file roots) (\<lambda>p.
     case host_read w p of
       Inl e \<Rightarrow> Inl (''Found '' @ p @ '' but could not read it: '' @ e)
     | Inr b \<Rightarrow> res_map (\<lambda>_. (p, b)) (check_class_file_bytes p b))"

definition show_bool :: "bool \<Rightarrow> string" where "show_bool b = (if b then ''true'' else ''false'')"

definition dry_run_reply :: "string \<Rightarrow> u64 \<Rightarrow> path \<Rightarrow> bytes \<Rightarrow> vm_capabilities_new \<Rightarrow> string" where
  "dry_run_reply cname i p b caps =
     (uni 0x1F9EA @ '' Dry run '' @ uni 0x2014 @ '' nothing was sent to the JVM.'' @ [CHR 0x0A] @ ''   Class: ''
     @ cname @ '' (loaded, type id 0x'' @ show_hex (unat i) @ '')'' @ [CHR 0x0A] @ ''   Would ship: ''
     @ p @ '' ('' @ show_nat (length b) @ '' bytes)'' @ [CHR 0x0A]
     @ ''   This JVM can HotSwap (canRedefineClasses=true, canPopFrames='' @ show_bool (can_pop_frames caps) @ '', canAddMethod='' @ show_bool (can_add_method caps)
     @ ''). HotSpot accepts METHOD BODY changes only. This check does not compare shapes: ''
     @ ''debug.check_stale reports, before any attempt, which structural refusal this build ''
     @ ''would hit (DISC-13) '' @ uni 0x2014
     @ '' and the JVM is still the one that decides, since a verifier rejection or ''
     @ ''INVALID_TYPESTATE is not visible to either check.'')"

definition reloaded_reply :: "string \<Rightarrow> bytes \<Rightarrow> path \<Rightarrow> string" where
  "reloaded_reply cname b p = (uni 0x2705 @ '' Reloaded '' @ cname @ '' '' @ uni 0x2014 @ '' '' @ show_nat (length b) @ '' bytes from '' @ p
     @ '' are now the running bytecode. No redeploy, no restart, warm state intact.'' @ [CHR 0x0A])"

text \<open>The command itself, and what the success is worth recording.\<close>

definition install_bytes ::
  "debuggee \<Rightarrow> (conn \<Rightarrow> instant) \<Rightarrow> string \<Rightarrow> u64 \<Rightarrow> path \<Rightarrow> bytes \<Rightarrow> (string + unit) session_op"
where
  "install_bytes d clock cname i p b s =
     (case on_conn (redefine_classes d [(i, b)]) s of
        (Inl e, s1) \<Rightarrow> (Inl (explain_redefine_failure cname p e), s1)
      | (Inr _, s1) \<Rightarrow>
          (Inr (), s1\<lparr>ds_redefinitions := note_swap cname (clock (ds_connection s1)) (ds_redefinitions s1)\<rparr>))"

definition report_reload ::
  "debuggee \<Rightarrow> reload_class_args \<Rightarrow> string \<Rightarrow> u64 \<Rightarrow> string option \<Rightarrow> path \<Rightarrow> bytes \<Rightarrow> (string + string) session_op"
where
  "report_reload d a cname i loader_note p b s =
     (let thread = (case parse_thread_id (rl_thread_id a) of None \<Rightarrow> ds_last_thread s | Some t \<Rightarrow> Some t);
          (live, s1) = on_conn (live_frames_of d thread i) s in
      (Inr (reloaded_reply cname b p @ describe_live_frames cname thread live
         @ describe_armed_stop_points (stop_points_on s1 cname)
         @ (case loader_note of None \<Rightarrow> [] | Some n \<Rightarrow> n)), s1))"

definition no_hotswap :: "string \<Rightarrow> string" where
  "no_hotswap cname = (''This JVM cannot HotSwap: it reports canRedefineClasses=false, so ''
     @ ''VirtualMachine.RedefineClasses would answer NOT_IMPLEMENTED and '' @ cname
     @ '' would be unchanged. Nothing was sent. A redeploy is the only route on this VM.'')"

definition handle_reload_class ::
  "debuggee \<Rightarrow> host \<Rightarrow> (conn \<Rightarrow> instant) \<Rightarrow> reload_class_args \<Rightarrow> (string + string) session_op"
where
  "handle_reload_class d w clock a s =
     (case class_name_required (rl_class_name a) of
        Inl e \<Rightarrow> (Inl e, s)
      | Inr cname \<Rightarrow>
          if ds_read_only s \<and> \<not> rl_dry_run a
          then (Inl (readonly_refusal (''reload_class installs new bytecode in the running JVM '' @ uni 0x2014
     @ '' on a shared instance that is an unannounced deploy, not a debugger read. dry_run:true ''
     @ ''still works and ships nothing'')), s)
          else
            s_bind (on_live (resolve_loaded_class_for_read d cname)) (\<lambda>(i, loader_note).
            s_bind (on_conn_err ''Failed to ask the JVM what it supports (CapabilitiesNew): '' (capabilities_new d)) (\<lambda>caps.
            if \<not> can_redefine_classes caps
            then s_check (Inl (no_hotswap cname))
            else
              s_bind (s_check (shipped_bytes w cname (rl_class_file a) (roots_of (rl_class_roots a) (ds_class_roots s)))) (\<lambda>(p, b).
              if rl_dry_run a then s_return (dry_run_reply cname i p b caps)
              else
                s_bind (install_bytes d clock cname i p b) (\<lambda>_. report_reload d a cname i loader_note p b)))) s)"

section \<open>debug.pop_frame\<close>

record pop_frame_args =
  pf_frame :: nat
  pf_thread_id :: "string option"

definition resolve_class_name :: "debuggee \<Rightarrow> u64 \<Rightarrow> conn \<Rightarrow> string \<times> conn" where
  "resolve_class_name d i c =
     (case get_signature d i c of (x, c1) \<Rightarrow>
        (let unnamed = ''class@'' @ show_hex (unat i) in
         case x of
           Inl _ \<Rightarrow> (unnamed, c1)
         | Inr sig \<Rightarrow> (if decode_signature sig = [] then unnamed else decode_signature sig, c1)))"

text \<open>The frame to pop, with the class and method it runs.\<close>

definition frame_to_pop :: "debuggee \<Rightarrow> u64 \<Rightarrow> nat \<Rightarrow> (string + frame \<times> string \<times> string) session_op" where
  "frame_to_pop d tid n =
     s_bind (on_conn_err ''Failed to get frames (is the thread suspended?): '' (get_frames d tid 0 (- 1))) (\<lambda>frames.
     if length frames \<le> n
     then s_check (Inl (''Thread 0x'' @ show_hex (unat tid) @ '' has '' @ show_nat (length frames) @ '' frame(s), so there is no frame #'' @ show_nat n
     @ ''. debug.get_stack numbers them from 0 (innermost).''))
     else if length frames \<le> n + 1
     then s_check (Inl (''Frame #'' @ show_nat n @ '' is the outermost frame of thread 0x'' @ show_hex (unat tid) @ '' '' @ uni 0x2014
     @ '' popping it would leave the thread with nowhere to return to, and JDWP refuses ''
     @ ''(NO_MORE_FRAMES). Pop an inner frame.''))
     else (\<lambda>s.
       let f = frames ! n; loc = fr_location f;
           (class, s1) = on_conn (resolve_class_name d (loc_class_id loc)) s;
           (meth, s2) = (if loc_method_id loc = 0
             then ((''<obsolete method '' @ uni 0x2014 @ '' the bytecode this frame entered with has been replaced>''), s1)
             else (case on_conn (frame_method_info d loc) s1 of (info, s2) \<Rightarrow> (fst info, s2)))
       in (Inr (f, class, meth), s2)))"

definition pop_failed :: "nat \<Rightarrow> string \<Rightarrow> string \<Rightarrow> u64 \<Rightarrow> jdwp_error \<Rightarrow> string" where
  "pop_failed n class meth tid e =
     (''PopFrames failed on frame #'' @ show_nat n @ '' ('' @ class @ ''.'' @ meth @ '') of thread 0x''
     @ show_hex (unat tid) @ '': '' @ show_jdwp_error e @ [CHR 0x0A] @ ''   OPAQUE_FRAME means a native frame is in the way ''
     @ uni 0x2014 @ '' a native method cannot be popped, and neither can anything below one. ''
     @ ''THREAD_NOT_SUSPENDED means the thread is running; only a suspended thread can be '' @ ''rewound.'')"

definition popped_reply :: "nat \<Rightarrow> string \<Rightarrow> string \<Rightarrow> u64 \<Rightarrow> string" where
  "popped_reply n class meth tid =
     (uni 0x2705 @ '' Popped frame #'' @ show_nat n @ '' '' @ class @ ''.'' @ meth @ (if n = 0 then [] else '' (and the '' @ show_nat n @ '' frame(s) above it)'')
     @ '' on thread 0x'' @ show_hex (unat tid)
     @ ''. The thread is back at the CALL SITE with its operand stack restored and is still '' @ ''suspended ''
     @ uni 0x2014 @ '' debug.continue re-executes the call, entering the method with whatever bytecode is ''
     @ ''loaded now.'' @ [CHR 0x0A]
     @ ''   Side effects are not rewound: anything that invocation already wrote stays written.'')"

definition handle_pop_frame :: "debuggee \<Rightarrow> pop_frame_args \<Rightarrow> (string + string) session_op" where
  "handle_pop_frame d a s =
     (if ds_read_only s then (Inl (readonly_refusal (''pop_frame rewinds a thread to the call site of a method it is running, which changes ''
     @ ''what the JVM does'')), s)
      else (case (case parse_thread_id (pf_thread_id a) of None \<Rightarrow> ds_last_thread s | Some t \<Rightarrow> Some t) of
          None \<Rightarrow> (Inl ''No thread. Pass thread_id, or hit a breakpoint first.'', s)
        | Some tid \<Rightarrow>
            s_bind (on_conn_err ''Failed to ask the JVM what it supports (CapabilitiesNew): '' (capabilities_new d)) (\<lambda>caps.
            if \<not> can_pop_frames caps then s_check (Inl (''This JVM cannot pop frames: it reports canPopFrames=false. Nothing was sent. After a ''
     @ ''debug.reload_class the running frames will keep the old bytecode until they return ''
     @ ''normally and the method is called again.''))
            else
              s_bind (frame_to_pop d tid (pf_frame a)) (\<lambda>(f, class, meth) s1.
              case on_conn (pop_frames d tid (fr_frame_id f)) s1 of
                (Inl e, s2) \<Rightarrow> (Inl (pop_failed (pf_frame a) class meth tid e), s2)
              | (Inr _, s2) \<Rightarrow>
                  (Inr (popped_reply (pf_frame a) class meth tid),
                   s2\<lparr>ds_redefinitions := note_pop class (ds_redefinitions s2)\<rparr>))) s))"

section \<open>debug.source and debug.check_stale\<close>

definition truncate_text :: "string \<Rightarrow> nat \<Rightarrow> string" where
  "truncate_text s n =
     (let cs = utf8_chars s in
      if n < length cs then concat (take n cs) @ uni 0x2026 @ '' ('' @ show_nat (length cs) @ '' chars total)'' else s)"

definition absent :: "jdwp_error \<Rightarrow> bool" where
  "absent e = (case e of JdwpErrorCode code _ \<Rightarrow> code = ERR_ABSENT_INFORMATION | _ \<Rightarrow> False)"

definition source_file_of :: "debuggee \<Rightarrow> string \<Rightarrow> u64 \<Rightarrow> (string + string) session_op" where
  "source_file_of d cname i s =
     (case on_conn (get_source_file d i) s of
        (Inr f, s1) \<Rightarrow> (Inr f, s1)
      | (Inl e, s1) \<Rightarrow>
          (Inl (if absent e then (cname @ '' is loaded, but the JVM reports NO source file for it: the class was compiled without ''
     @ ''the SourceFile attribute (javac -g:none), or it is synthetic '' @ uni 0x2014
     @ '' a lambda body, a generated proxy, a bytecode-woven class. Nothing local can be ''
     @ ''resolved from a name this build does not carry. Rebuild the deployed artifact with ''
     @ ''debug info, or work from debug.list_methods and bytecode-level stop points.'')
                else ''Failed to read the source file of '' @ cname @ '': '' @ show_jdwp_error e), s1))"

definition smap_section :: "string \<Rightarrow> string option \<Rightarrow> string" where
  "smap_section file_name smap =
     (case smap of
        None \<Rightarrow> []
      | Some t \<Rightarrow> ln (''Source debug extension (JSR-45 SMAP) present '' @ uni 0x2014
     @ '' this class was translated from another file, and '' @ file_name @ '' is the intermediate:''
     @ [CHR 0x0A] @ truncate_text (trim_end t) 800))"

record source_request =
  sq_class_name :: string
  sq_window :: source_args
  sq_source_roots :: "path list option"
  sq_class_roots :: "path list option"

definition handle_source ::
  "debuggee \<Rightarrow> host \<Rightarrow> (path \<Rightarrow> int option) \<Rightarrow> source_request \<Rightarrow> (string + string) session_op"
where
  "handle_source d w mtime a s =
     (case class_name_required (sq_class_name a) of
        Inl e \<Rightarrow> (Inl e, s)
      | Inr cname \<Rightarrow>
          s_bind (on_live (resolve_loaded_class_for_read d cname)) (\<lambda>(i, loader_note).
          s_bind (source_file_of d cname i) (\<lambda>file_name s1.
            let (smap, s2) = on_conn (get_source_debug_extension d i) s1;
                smap' = (case smap of Inl _ \<Rightarrow> None | Inr x \<Rightarrow> x);
                local = local_source_section w cname file_name (roots_of (sq_source_roots a) (ds_source_roots s2)) (sq_window a);
                (fresh, s3) = (case lsrc_read local of
                    None \<Rightarrow> ([], s2)
                  | Some src \<Rightarrow>
                      on_live (source_freshness_section d w mtime cname i
                        (roots_of (sq_class_roots a) (ds_class_roots s2)) src (smap' \<noteq> None)) s2)
            in (Inr ((cname @ '' '' @ uni 0x2014 @ '' compiled from '' @ file_name @ '' (reported by the JVM)'' @ [CHR 0x0A])
                 @ smap_section file_name smap' @ lsrc_section local @ fresh
                 @ (case loader_note of None \<Rightarrow> [] | Some n \<Rightarrow> n)), s3))) s)"

definition handle_check_stale :: "debuggee \<Rightarrow> host \<Rightarrow> check_stale_args \<Rightarrow> (string + string) session_op" where
  "handle_check_stale d w a s =
     (case class_name_required (ct_class_name a) of
        Inl e \<Rightarrow> (Inl e, s)
      | Inr cname \<Rightarrow>
          on_live (check_stale_report d w a cname (roots_of (ct_class_roots a) (ds_class_roots s))) s)"

end
