(* ===== verification/HotSwapProofs.thy ===== *)
theory HotSwapProofs
  imports HotSwap ArmingWire
begin

text \<open>
  What a reload may do: the bytes go out at most once, only when they were asked to, and the session records the
  redefinition exactly when the debuggee accepted it.
\<close>

section \<open>Reads over a live connection\<close>

definition live_safe :: "(conn \<Rightarrow> bool) \<Rightarrow> (reads_source \<Rightarrow> 'a \<times> reads_source) \<Rightarrow> bool" where
  "live_safe P op = (\<forall>c. P c \<longrightarrow> (\<exists>a c'. op (Live c) = (a, Live c') \<and> P c'))"

lemma live_safeI: "(\<And>c. P c \<Longrightarrow> \<exists>a c'. op (Live c) = (a, Live c') \<and> P c') \<Longrightarrow> live_safe P op"
  by (simp add: live_safe_def)

lemma live_safeD: "live_safe P op \<Longrightarrow> P c \<Longrightarrow> \<exists>a c'. op (Live c) = (a, Live c') \<and> P c'"
  by (simp add: live_safe_def)

lemma live_either: "(\<And>c. P c \<Longrightarrow> P (snd (live c))) \<Longrightarrow> live_safe P (either_source live f)"
  by (rule live_safeI) (simp add: either_source_def case_prod_unfold)

lemma live_return: "live_safe P (k_return a)" "live_safe P (k_fail e)"
  by (auto simp: live_safe_def k_return_def k_fail_def)

lemma live_bind:
  assumes "live_safe P op" and "\<And>a. live_safe P (f a)"
  shows "live_safe P (k_bind op f)"
proof (rule live_safeI)
  fix c assume "P c"
  then obtain a c' where 1: "op (Live c) = (a, Live c')" "P c'" using live_safeD [OF assms(1)] by blast
  show "\<exists>a c'. k_bind op f (Live c) = (a, Live c') \<and> P c'"
  proof (cases a)
    case (Inl e)
    then show ?thesis using 1 by (simp add: k_bind_def)
  next
    case (Inr b)
    then show ?thesis using 1 live_safeD [OF assms(2) 1(2), of b] by (simp add: k_bind_def)
  qed
qed

lemma live_wrap:
  assumes "live_safe P op"
  shows "live_safe P (or_err what op)" "live_safe P (k_result op)"
proof -
  have "\<exists>a c'. or_err what op (Live c) = (a, Live c') \<and> P c'" "\<exists>a c'. k_result op (Live c) = (a, Live c') \<and> P c'"
    if "P c" for c
    using live_safeD [OF assms that] by (auto simp: or_err_def k_result_def split: sum.split)
  then show "live_safe P (or_err what op)" "live_safe P (k_result op)" by (simp_all add: live_safe_def)
qed

lemma live_map: "(\<And>x. live_safe P (f x)) \<Longrightarrow> live_safe P (k_map f xs)"
  by (induction xs) (simp_all add: live_return live_bind)

context sparing
begin

lemma spare_live_reads:
  "live_safe (grew bad c0) (reads_classes_by_signature d sig)" "live_safe (grew bad c0) (reads_get_class_loader d i)"
  "live_safe (grew bad c0) (reads_get_object_reference_type d i)" "live_safe (grew bad c0) (reads_get_signature d i)"
  unfolding reads_classes_by_signature_def reads_get_class_loader_def reads_get_object_reference_type_def reads_get_signature_def
  by (rule live_either, erule spare_reads spare_cached)+

lemma spare_live_loader: "live_safe (grew bad c0) (reads_describe_loader d i)"
  unfolding reads_describe_loader_def Let_def
  by (intro live_bind live_wrap spare_live_reads)
    (auto split: sum.split option.split intro!: live_bind live_wrap live_return spare_live_reads)

lemma spare_live_loaders: "live_safe (grew bad c0) (reads_describe_class_loaders d ids)"
  unfolding reads_describe_class_loaders_def
  by (intro live_map) (auto intro!: live_bind live_return spare_live_loader split: prod.split)

lemma spare_live_descriptors: "live_safe (grew bad c0) (try_descriptors d cname want sigs)"
proof (induction sigs)
  case Nil
  show ?case by (simp add: live_return)
next
  case (Cons sig sigs)
  have rest: "live_safe (grew bad c0) (case want of
        Some w \<Rightarrow> k_bind (reads_describe_class_loaders d ids) (\<lambda>labels. f w labels)
      | None \<Rightarrow> g)"
    if "\<And>w labels. live_safe (grew bad c0) (f w labels)" "live_safe (grew bad c0) g"
    for ids and f :: "u64 \<Rightarrow> string list \<Rightarrow> (u64 \<times> string option) check_op" and g
    using that by (cases want) (simp_all add: live_bind spare_live_loaders)
  show ?case
    unfolding try_descriptors.simps Let_def
    by (rule live_bind [OF live_wrap(1) [OF spare_live_reads(1)]])
      (auto simp: Cons.IH split: option.split intro!: rest live_bind live_return spare_live_loaders)
qed

lemma spare_live_resolve: "live_safe (grew bad c0) (resolve_loaded_class_for_read d given)"
  unfolding resolve_loaded_class_for_read_def by (simp add: Let_def case_prod_unfold spare_live_descriptors)

lemma spare_on_live: "live_safe (grew bad c0) op \<Longrightarrow> sess_grew bad c0 s \<Longrightarrow> sess_grew bad c0 (snd (on_live op s))"
  using live_safeD [of "grew bad c0" op "ds_connection s"] by (auto simp: on_live_def)

lemma spare_capabilities: "grew bad c0 c \<Longrightarrow> grew bad c0 (snd (capabilities_new d c))"
  unfolding capabilities_new_def by (rule spare_read) (simp_all add: wire_defs)

lemma spare_frames: "grew bad c0 c \<Longrightarrow> grew bad c0 (snd (get_frames d t a n c))"
  unfolding get_frames_def by (rule spare_read) (simp_all add: wire_defs)

lemma spare_live_frames: "grew bad c0 c \<Longrightarrow> grew bad c0 (snd (live_frames_of d t i c))"
  by (simp add: live_frames_of_def case_prod_unfold spare_frames split: option.split sum.split)

end

section \<open>Reloading\<close>

definition is_swap :: "u8 \<Rightarrow> u8 \<Rightarrow> bool" where
  "is_swap cset cmd = (cset = CS_VIRTUAL_MACHINE \<and> cmd = VM_REDEFINE_CLASSES)"

interpretation no_swap: sparing is_swap
  by unfold_locales (auto simp: is_swap_def wire_defs)

definition swaps_in :: "command_packet list \<Rightarrow> command_packet list" where
  "swaps_in ps = filter (\<lambda>p. is_swap (cp_command_set p) (cp_command p)) ps"

text \<open>The commands between two sessions, and how many of them install bytecode.\<close>

definition sent_swaps :: "nat \<Rightarrow> debug_session \<Rightarrow> debug_session \<Rightarrow> bool" where
  "sent_swaps n s s' = (\<exists>new. c_sent (ds_connection s') = c_sent (ds_connection s) @ new \<and> length (swaps_in new) = n)"

lemma swaps_in_append: "swaps_in (a @ b) = swaps_in a @ swaps_in b"
  by (simp add: swaps_in_def)

lemma sent_swaps_grew: "sent_swaps 0 s s' \<longleftrightarrow> sess_grew is_swap (ds_connection s) s'"
  by (auto simp: sent_swaps_def swaps_in_def grew_def filter_empty_conv list_all_iff)

lemma sent_swaps_trans: "sent_swaps m a b \<Longrightarrow> sent_swaps n b c \<Longrightarrow> sent_swaps (m + n) a c"
  by (fastforce simp: sent_swaps_def swaps_in_append)

lemma sent_swaps_refl [simp]: "sent_swaps 0 s s"
  by (simp add: sent_swaps_grew)

text \<open>A step that installs nothing and records nothing.\<close>

definition inert :: "debug_session \<Rightarrow> debug_session \<Rightarrow> bool" where
  "inert s s' \<longleftrightarrow> sent_swaps 0 s s' \<and> ds_redefinitions s' = ds_redefinitions s"

lemma inert_refl [simp]: "inert s s"
  by (simp add: inert_def)

lemma inert_trans: "inert a b \<Longrightarrow> inert b c \<Longrightarrow> inert a c"
  using sent_swaps_trans [of 0 a b 0 c] by (auto simp: inert_def)

lemma inert_on_conn:
  assumes "\<And>c0 c. grew is_swap c0 c \<Longrightarrow> grew is_swap c0 (snd (f c))"
  shows "inert s (snd (on_conn f s))"
  by (simp add: inert_def sent_swaps_grew on_conn_def case_prod_unfold assms)

lemma inert_on_live:
  assumes "\<And>c0. live_safe (grew is_swap c0) op"
  shows "inert s (snd (on_live op s))"
  using no_swap.spare_on_live [OF assms, of "ds_connection s" s]
  by (simp add: inert_def sent_swaps_grew) (auto simp: on_live_def split: reads_source.split prod.split)

lemma inert_bind:
  assumes "inert s (snd (m s))" and "\<And>a s1. m s = (Inr a, s1) \<Longrightarrow> inert s1 (snd (f a s1))"
  shows "inert s (snd (s_bind m f s))"
  using assms by (cases "m s") (auto simp: s_bind_def split: sum.split intro: inert_trans)

lemma inert_check [simp]: "inert s (snd (s_check r s))" "inert s (snd (s_return a s))"
  by (simp_all add: s_check_def s_return_def)

lemma inert_on_conn_err:
  assumes "\<And>c0 c. grew is_swap c0 c \<Longrightarrow> grew is_swap c0 (snd (f c))"
  shows "inert s (snd (on_conn_err what f s))"
proof -
  have "inert s (snd (on_conn f s))" by (rule inert_on_conn) (rule assms)
  then show ?thesis by (auto simp: on_conn_err_def split: prod.split sum.split)
qed

text \<open>The prelude of a reload, up to the bytes to ship.\<close>

definition reload_plan ::
  "debuggee \<Rightarrow> host \<Rightarrow> reload_class_args \<Rightarrow> string \<Rightarrow> (string + (u64 \<times> string option) \<times> vm_capabilities_new \<times> path \<times> bytes) session_op"
where
  "reload_plan d w a cname s =
     s_bind (on_live (resolve_loaded_class_for_read d cname)) (\<lambda>target.
     s_bind (on_conn_err ''Failed to ask the JVM what it supports (CapabilitiesNew): '' (capabilities_new d)) (\<lambda>caps.
     if \<not> can_redefine_classes caps
     then s_check (Inl (no_hotswap cname))
     else s_bind (s_check (shipped_bytes w cname (rl_class_file a) (roots_of (rl_class_roots a) (ds_class_roots s))))
       (\<lambda>shipped. s_return (target, caps, shipped)))) s"

lemma reload_plan_inert: "inert s (snd (reload_plan d w a cname s))"
  unfolding reload_plan_def
  by (auto intro!: inert_bind inert_on_live inert_on_conn_err no_swap.spare_live_resolve no_swap.spare_capabilities)

lemma s_bind_cong: "m s = (Inl e, s1) \<Longrightarrow> s_bind m f s = (Inl e, s1)" "m s = (Inr a, s1) \<Longrightarrow> s_bind m f s = f a s1"
  by (simp_all add: s_bind_def)

lemma s_bind_assoc: "s_bind (s_bind m f) g s = s_bind m (\<lambda>a. s_bind (f a) g) s"
  by (simp add: s_bind_def split: prod.split sum.split)

lemma reload_by_plan:
  assumes "class_name_required (rl_class_name a) = Inr cname" and "\<not> (ds_read_only s \<and> \<not> rl_dry_run a)"
  shows "handle_reload_class d w clock a s =
    s_bind (reload_plan d w a cname) (\<lambda>((i, loader_note), caps, p, b).
      if rl_dry_run a then s_return (dry_run_reply cname i p b caps)
      else s_bind (install_bytes d clock cname i p b) (\<lambda>_. report_reload d a cname i loader_note p b)) s"
  using assms
  by (auto simp: handle_reload_class_def reload_plan_def s_bind_def s_check_def s_return_def no_hotswap_def
      split: prod.split sum.split)

lemma report_inert: "inert s (snd (report_reload d a cname i n p b s))"
proof -
  have "inert s (snd (on_conn (live_frames_of d t i) s))" for t
    by (rule inert_on_conn) (rule no_swap.spare_live_frames)
  then show ?thesis by (simp add: report_reload_def Let_def case_prod_unfold)
qed

lemma report_ok: "\<exists>r. fst (report_reload d a cname i n p b s) = Inr r"
  by (simp add: report_reload_def Let_def case_prod_unfold)

lemma swap_sent:
  "redefine_classes d defs c = (r, c') \<Longrightarrow>
   \<exists>new. c_sent c' = c_sent c @ new \<and> length (swaps_in new) \<le> 1 \<and> (\<not> is_err r \<longrightarrow> length (swaps_in new) = 1)"
proof -
  assume run: "redefine_classes d defs c = (r, c')"
  define data where "data = put_be 4 (i32_try_or_max (length defs))
           @ concat (map (\<lambda>(t, bs). put_be 8 t @ put_be 4 (u32_try_or_max (length bs)) @ bs) defs)"
  let ?x = "exchange d (request CS_VIRTUAL_MACHINE VM_REDEFINE_CLASSES data) check_error c"
  have one: "swaps_in [fst (request CS_VIRTUAL_MACHINE VM_REDEFINE_CLASSES data c)]
      = [fst (request CS_VIRTUAL_MACHINE VM_REDEFINE_CLASSES data c)]"
    by (simp add: swaps_in_def is_swap_def request_def command_packet_new_def case_prod_unfold Let_def)
  have sent: "\<exists>new. c_sent (snd ?x) = c_sent c @ new \<and> length (swaps_in new) \<le> 1
      \<and> (\<not> is_err (fst ?x) \<longrightarrow> length (swaps_in new) = 1)"
  proof (cases "fst ?x")
    case (Inl e)
    then show ?thesis using one by (auto simp: exchange_sent swaps_in_def)
  next
    case (Inr u)
    show ?thesis using exchange_Inr_sent [OF Inr] one by auto
  qed
  show ?thesis
  proof (cases "is_read_only c")
    case True
    then show ?thesis using run by (auto simp: redefine_classes_def cbind_def guard_mutation_def swaps_in_def)
  next
    case False
    have "c_sent c' = c_sent (snd ?x) \<and> is_err r = is_err (fst ?x)"
      using run False unfolding redefine_classes_def data_def [symmetric]
      by (auto simp: cbind_def guard_mutation_def set_types_def split: prod.splits sum.splits)
    then show ?thesis using sent by auto
  qed
qed

lemma install_effect:
  assumes "install_bytes d clock cname i p b s = (r, s')"
  shows "case r of
      Inr _ \<Rightarrow> sent_swaps 1 s s' \<and> ds_redefinitions s' = note_swap cname (clock (ds_connection s')) (ds_redefinitions s)
    | Inl _ \<Rightarrow> (\<exists>n\<le>1. sent_swaps n s s') \<and> ds_redefinitions s' = ds_redefinitions s"
proof -
  obtain x c' where x: "redefine_classes d [(i, b)] (ds_connection s) = (x, c')" by (cases "redefine_classes d [(i, b)] (ds_connection s)")
  obtain new where new: "c_sent c' = c_sent (ds_connection s) @ new" "length (swaps_in new) \<le> 1"
    "\<not> is_err x \<longrightarrow> length (swaps_in new) = 1" using swap_sent [OF x] by blast
  show ?thesis
  proof (cases x)
    case (Inl e)
    then show ?thesis using assms new x by (auto simp: install_bytes_def on_conn_def sent_swaps_def)
  next
    case (Inr u)
    then show ?thesis using assms new x by (auto simp: install_bytes_def on_conn_def sent_swaps_def)
  qed
qed

lemma inert_then_swaps: "inert a b \<Longrightarrow> sent_swaps n b c \<Longrightarrow> sent_swaps n a c"
  "sent_swaps n a b \<Longrightarrow> inert b c \<Longrightarrow> sent_swaps n a c"
  using sent_swaps_trans [of 0 a b n c] sent_swaps_trans [of n a b 0 c] by (simp_all add: inert_def)

text \<open>What a reload is held to.\<close>

definition reload_kept :: "reload_class_args \<Rightarrow> debug_session \<Rightarrow> (string + string) \<times> debug_session \<Rightarrow> bool" where
  "reload_kept a s = (\<lambda>(r, s').
     if ds_read_only s \<and> \<not> rl_dry_run a then is_err r \<and> s' = s
     else if rl_dry_run a then inert s s'
     else (case r of
         Inr _ \<Rightarrow> sent_swaps 1 s s' \<and> (\<exists>at. ds_redefinitions s' = note_swap (trim (rl_class_name a)) at (ds_redefinitions s))
       | Inl _ \<Rightarrow> (\<exists>n\<le>1. sent_swaps n s s') \<and> ds_redefinitions s' = ds_redefinitions s))"

lemma kept_inert_error:
  "\<not> (ds_read_only s \<and> \<not> rl_dry_run a) \<Longrightarrow> inert s s' \<Longrightarrow> is_err r \<Longrightarrow> reload_kept a s (r, s')"
  by (auto simp: reload_kept_def inert_def is_err_def split: sum.splits)

lemma plan_kept:
  assumes "class_name_required (rl_class_name a) = Inr cname" and "\<not> (ds_read_only s \<and> \<not> rl_dry_run a)"
  shows "reload_kept a s (handle_reload_class d w clock a s)"
proof -
  have cname: "cname = trim (rl_class_name a)"
    using assms(1) by (auto simp: class_name_required_def Let_def split: if_splits)
  obtain x s1 where plan: "reload_plan d w a cname s = (x, s1)" by (cases "reload_plan d w a cname s")
  have i1: "inert s s1" using reload_plan_inert [of s d w a cname] plan by simp
  show ?thesis
  proof (cases x)
    case (Inl e)
    then have "handle_reload_class d w clock a s = (Inl e, s1)"
      using plan by (simp add: reload_by_plan [OF assms] s_bind_def)
    then show ?thesis using kept_inert_error [OF assms(2) i1] by simp
  next
    case (Inr y)
    obtain i n caps p b where y: "y = ((i, n), caps, p, b)" by (cases y) auto
    show ?thesis
    proof (cases "rl_dry_run a")
      case True
      then have "snd (handle_reload_class d w clock a s) = s1"
        using plan Inr y by (simp add: reload_by_plan [OF assms] s_bind_def s_return_def s_check_def)
      then show ?thesis using i1 True by (simp add: reload_kept_def case_prod_unfold)
    next
      case False
      obtain z s2 where inst: "install_bytes d clock cname i p b s1 = (z, s2)" by (cases "install_bytes d clock cname i p b s1")
      note eff = install_effect [OF inst]
      have ro: "\<not> ds_read_only s" using assms(2) False by simp
      show ?thesis
      proof (cases z)
        case (Inl e)
        then have "handle_reload_class d w clock a s = (Inl e, s2)"
          using plan Inr y inst False by (simp add: reload_by_plan [OF assms] s_bind_def)
        then show ?thesis using eff Inl i1 False ro inert_then_swaps(1) [OF i1, of _ s2]
          by (auto simp: reload_kept_def inert_def)
      next
        case z: (Inr u)
        obtain out s3 where rep: "report_reload d a cname i n p b s2 = (out, s3)" by (cases "report_reload d a cname i n p b s2")
        have i3: "inert s2 s3" using report_inert [of s2 d a cname i n p b] rep by simp
        obtain t where t: "out = Inr t" using report_ok [of d a cname i n p b s2] rep by auto
        have "handle_reload_class d w clock a s = (Inr t, s3)"
          using plan Inr y inst z rep t False by (simp add: reload_by_plan [OF assms] s_bind_def)
        moreover have "sent_swaps 1 s s3"
          by (rule inert_then_swaps(2) [OF inert_then_swaps(1) [OF i1] i3]) (use eff z in simp)
        moreover have "ds_redefinitions s3 = note_swap cname (clock (ds_connection s2)) (ds_redefinitions s)"
          using eff z i1 i3 by (simp add: inert_def)
        ultimately show ?thesis using ro False by (auto simp: reload_kept_def cname)
      qed
    qed
  qed
qed

text \<open>
  C18: a reload installs at most once and records exactly what was installed.  On a read-only session it is refused with the
  session as it was, unless it is a dry run; a dry run sends no redefinition and records none; otherwise a reply means one
  redefinition went out and is recorded under the class's name, and an error that nothing is recorded and at most one
  redefinition went out - the one the debuggee refused.
\<close>

theorem reload_records_what_it_installs:
  "reload_kept a s (handle_reload_class d w clock a s)"
proof (cases "class_name_required (rl_class_name a)")
  case (Inl e)
  then show ?thesis
    by (auto simp: handle_reload_class_def reload_kept_def intro: exI [of _ 0])
next
  case (Inr cname)
  show ?thesis
  proof (cases "ds_read_only s \<and> \<not> rl_dry_run a")
    case True
    then show ?thesis using Inr by (simp add: handle_reload_class_def reload_kept_def)
  next
    case False
    show ?thesis by (rule plan_kept [OF Inr False])
  qed
qed

end
