(* ===== verification/Spec2Isabelle.thy ===== *)
theory Spec2Isabelle
  imports Client PumpProofs Rescue Toggling SessionInvariant ArmingWire Conditions SetSafety ClassFileProofs ValueReads StaleProofs HotSwapProofs
begin

text \<open>
  A verification library for the Java debugging server of this repository.

  The program has two crates.  \<^verbatim>\<open>src/jdwp-client\<close> speaks the Java Debug Wire Protocol to a JVM: it
  writes command packets, matches the replies to the callers that wait for them, decodes replies and
  event sets, and offers one method per JDWP command.  \<^verbatim>\<open>src/mcp-server\<close> drives that client on
  behalf of an assistant.  This library models the first crate and,
  of the second, the state of a session, its stop points, how they are armed, toggled, edited and
  cleared, the event pump, and the tools that run, step, pause and rescue the debuggee.

  Layout, from the bytes up.

  \<^item> \<^verbatim>\<open>Prelude\<close>: shared types and lemmas: bytes as \<^verbatim>\<open>8 word\<close>, errors as the left of a sum, big-endian
    words, the named theorem collections.
  \<^item> \<^verbatim>\<open>Utf8\<close>: the UTF-8 encoding that \<^verbatim>\<open>String::from_utf8\<close> and \<^verbatim>\<open>String::as_bytes\<close> use, with the proof
    that a byte string is accepted exactly when it encodes a list of Unicode scalars.
  \<^item> \<^verbatim>\<open>Protocol\<close> (\<^verbatim>\<open>protocol.rs\<close>): errors, packet header, error codes.
  \<^item> \<^verbatim>\<open>Types\<close> (\<^verbatim>\<open>types.rs\<close>): locations, tags, values and how they are shown.
  \<^item> \<^verbatim>\<open>Reader\<close> (\<^verbatim>\<open>reader.rs\<close>): the decoders.  A decoder takes the remaining bytes and gives an error or a
    value with the rest, as the \<^verbatim>\<open>&mut &[u8]\<close> cursor does.  The locale \<^verbatim>\<open>wire_codec\<close> is the
    contract between what is written and what is read.
  \<^item> \<^verbatim>\<open>Commands\<close> (\<^verbatim>\<open>commands.rs\<close>, and the table of \<^verbatim>\<open>connection.rs\<close> that says which commands mutate).
  \<^item> \<^verbatim>\<open>Events\<close> (\<^verbatim>\<open>events.rs\<close>): event sets as the debuggee sends them.
  \<^item> \<^verbatim>\<open>EventLoop\<close> (\<^verbatim>\<open>eventloop.rs\<close>): the packet reader over a byte stream, and the loop as a step
    relation: commands are queued by callers, sent, answered by whatever reply carries their id,
    timed out after thirty seconds, or settled when the loop stops.  The interleaving is arbitrary.
  \<^item> \<^verbatim>\<open>Connection\<close> (\<^verbatim>\<open>connection.rs\<close>): a connection as a record (next id, type cache, read-only flag,
    counters) and the client's three ways of sending: one command, an invocation under a budget, a
    window of independent reads.  The debuggee is a parameter of every operation: what it answers, how
    long it takes, and from which command on it is gone.
  \<^item> \<^verbatim>\<open>Eval\<close>, \<^verbatim>\<open>ObjectRef\<close>, \<^verbatim>\<open>RefType\<close>, \<^verbatim>\<open>EventRequest\<close>, \<^verbatim>\<open>Thread\<close>, \<^verbatim>\<open>Method\<close>, \<^verbatim>\<open>Vm\<close>: the
    command modules of the same names (\<^verbatim>\<open>string.rs\<close> and \<^verbatim>\<open>stackframe.rs\<close> are in \<^verbatim>\<open>ObjectRef\<close>, the
    parts of \<^verbatim>\<open>extra.rs\<close> beside what they extend).
  \<^item> \<^verbatim>\<open>Client\<close>: the whole client as a datatype of calls, with the properties that hold of any sequence
    of calls against any debuggee.

  The session (\<^verbatim>\<open>mcp-server/src/session.rs\<close>, \<^verbatim>\<open>stop_point.rs\<close>, and parts of \<^verbatim>\<open>handlers.rs\<close>).

  \<^item> \<^verbatim>\<open>Containers\<close>: ordered maps and hash maps as association lists, saturating counters, bounded queues; the
    locale \<^verbatim>\<open>stamped_log\<close> is what a bounded log of numbered entries promises.
  \<^item> \<^verbatim>\<open>EventRing\<close>, \<^verbatim>\<open>Suspensions\<close>, \<^verbatim>\<open>TraceBuffer\<close>, \<^verbatim>\<open>MonitorClock\<close>: the four bookkeeping structures of a
    session, each with what it promises stated over the whole history of its operations.
  \<^item> \<^verbatim>\<open>StopPoint\<close>: what a stop point is, its states and descriptions.
  \<^item> \<^verbatim>\<open>SessionState\<close>: stop points by id, deferred ones, the memory of disarmed requests, wildcard families, the
    session as a whole and the table of sessions.
  \<^item> \<^verbatim>\<open>ClassNames\<close>: class names as callers, the debuggee and its class-match patterns spell them, wildcard
    matching, and which loaded copy of a name is meant.
  \<^item> \<^verbatim>\<open>StopPointOps\<close>: operations as functions on the session; how the stop point of an event is found, how
    requests, families and everything else are cleared.
  \<^item> \<^verbatim>\<open>Arming\<close>: arming a line stop point: resolving the location in every loaded copy, deferring until the
    class loads, wildcard families, and what a class load arms.
  \<^item> \<^verbatim>\<open>Toggling\<close>: disabling and re-arming each kind of stop point and whole families, editing a condition or
    a hit count.
  \<^item> \<^verbatim>\<open>Rescue\<close>: running, pausing, stepping, the panic button, per-thread suspends, leaving, and one tick of
    the watchdog.
  \<^item> \<^verbatim>\<open>EventPump\<close>: what the pump does with a composite event: record and resume (a traced hit), or filter,
    escalate, record the suspension and report (a suspending one); how requests are cleared, disarmed, spent.
  \<^item> \<^verbatim>\<open>PumpProofs\<close>: what the pump guarantees.  \<^verbatim>\<open>quiet\<close> facts say an operation sends no resume; \<^verbatim>\<open>hit_step\<close> says
    what the handling of one hit may touch.
  \<^item> \<^verbatim>\<open>SessionInvariant\<close>: the locale \<^verbatim>\<open>session_invariant\<close> says which primitive updates an invariant must
    survive and concludes that every handler, the pump and the watchdog keep it; it is interpreted for the
    well-formedness of a session and for the settings a session was opened with.
  \<^item> \<^verbatim>\<open>ArmingWire\<close>: what arming, deferring and re-arming put on the wire.  The locale \<^verbatim>\<open>sparing\<close> is about a
    kind of command these operations never send; it is interpreted for clears and for resumes.

  What a caller writes (\<^verbatim>\<open>handlers.rs\<close>, \<^verbatim>\<open>args.rs\<close>, \<^verbatim>\<open>reply.rs\<close>, \<^verbatim>\<open>stop_point_set.rs\<close>).

  \<^item> \<^verbatim>\<open>Ieee\<close>, \<^verbatim>\<open>Literals\<close>: doubles by their bit patterns and the decimal text they are read from; white space,
    trimming, and the literals of an expression.
  \<^item> \<^verbatim>\<open>ExprSyntax\<close>, \<^verbatim>\<open>BoolExpr\<close>: the parsers of an expression and of a boolean condition, which work on the
    text with brackets and quotes counted; \<^verbatim>\<open>ExprPrint\<close>: expressions printed and read back.
  \<^item> \<^verbatim>\<open>Conditions\<close>: comparisons and the evaluation of a condition; resolving an expression in the debuggee is
    a parameter.
  \<^item> \<^verbatim>\<open>Json\<close>: JSON values and the reading of a struct of arguments out of an object, as \<^verbatim>\<open>serde\<close> is told to
    by the attributes in \<^verbatim>\<open>args.rs\<close>.
  \<^item> \<^verbatim>\<open>ArmArgs\<close>, \<^verbatim>\<open>ArmKinds\<close>: the five tools that arm a stop point, from their arguments to requests and
    registered stop points.  Of a reply its outcome and what it is about are kept, not its wording.
  \<^item> \<^verbatim>\<open>StopPointSet\<close>: a session exported as the calls that arm it again, and those calls replayed.
    \<^verbatim>\<open>serde_json\<close>'s reading and printing of JSON text are parameters.  \<^verbatim>\<open>SetProofs\<close> shows that what is exported
    is accepted and comes back as it was, \<^verbatim>\<open>SetSafety\<close> that a set can only arm.

  Classes and files (\<^verbatim>\<open>generics.rs\<close>, \<^verbatim>\<open>classfile.rs\<close>, \<^verbatim>\<open>reads.rs\<close>, \<^verbatim>\<open>value_reads.rs\<close>, \<^verbatim>\<open>handlers.rs\<close>).

  \<^item> \<^verbatim>\<open>Generics\<close>: generic signatures, with the grammar they are parsed by.
  \<^item> \<^verbatim>\<open>ClassFile\<close>, \<^verbatim>\<open>ClassFileProofs\<close>: the parser of class files and the assembler of stated ones.
  \<^item> \<^verbatim>\<open>Reads\<close>: the reads of a class over a connection or over a debuggee stated as data.
  \<^item> \<^verbatim>\<open>ValueReads\<close>: the reads of values that one render has committed.
  \<^item> \<^verbatim>\<open>SourcePaths\<close>: files under the configured roots.  The file system is the record \<^verbatim>\<open>host\<close>: what
    is a file, where a path really is, what it holds.
  \<^item> \<^verbatim>\<open>ClassReads\<close>: the members of a class as Java source.
  \<^item> \<^verbatim>\<open>StaleCheck\<close>, \<^verbatim>\<open>StaleProofs\<close>: whether the debuggee runs the build on disk, and whether that build could
    be installed.
  \<^item> \<^verbatim>\<open>HotSwap\<close>, \<^verbatim>\<open>HotSwapProofs\<close>: the tools that install bytecode, pop a frame, show source and compare
    builds, on a session.  \<^verbatim>\<open>live_safe\<close> facts carry what holds of the connection through reads of a class;
    \<^verbatim>\<open>inert\<close> says a step installs nothing and records nothing.

  Groups of lemmas.  \<^verbatim>\<open>framed\<close> facts say a decoder consumes a prefix of its input and does not look past
  it, so that a truncated reply is refused; they are proved by the introduction rules in
  \<^verbatim>\<open>framed_intros\<close>.  \<^verbatim>\<open>op_safe\<close> and \<^verbatim>\<open>op_mutating\<close> facts say what a client operation puts on the wire
  and how it changes the connection; they are proved by the rules in \<^verbatim>\<open>op_intros\<close>.  The locale
  \<^verbatim>\<open>cache_slot\<close> states what each of the five type caches promises, and \<^verbatim>\<open>connection_ops\<close> what a set of
  calls promises a client of the connection.

  Bounds.  A wave has sixteen commands in flight; a pending command is given thirty seconds; the walk of
  \<^verbatim>\<open>implements_interface\<close> takes at most five hundred steps; \<^verbatim>\<open>resume_all_fully\<close> at most the number of
  resumes it is given.  Each is the constant of the code, and each recursion is structural in it.

  Not modelled: sockets, tasks and channels themselves (their effect is the step relation of
  \<^verbatim>\<open>EventLoop\<close> and the debuggee parameter of \<^verbatim>\<open>Connection\<close>), logging, test code; the MCP transport and the
  schemas of the tools (\<^verbatim>\<open>protocol.rs\<close>, \<^verbatim>\<open>main.rs\<close>, \<^verbatim>\<open>tools.rs\<close>), which declare and pass on; attaching and launching, which
  start processes and sockets; of \<^verbatim>\<open>handlers.rs\<close> the walk of an expression through a live debuggee, the reading
  of collections by their fields, the rendering of values, stacks, thread dumps and traces, and the writing of
  values.
\<close>

end
